(* ===== verification/Am_Prelude.thy ===== *)
theory Am_Prelude
  imports Main "HOL-Library.Word" "HOL-Library.AList"
begin

text \<open>
  Shared vocabulary of the development: the Go data the sources are written with and the helpers
  of \<open>src/pkg/machine/mach_utils.go\<close> that every component calls.

  \<^item> A Go slice is a list. Where the sources test a slice against \<open>nil\<close> it is a
    \<open>'a list option\<close>, \<open>None\<close> being \<open>nil\<close>; \<open>sl\<close> reads its elements.
  \<^item> A Go map is an association list with distinct keys (\<open>gomap\<close>). A \<open>range\<close> over a map visits
    the entries in list order. Go leaves that order open; every theorem quantifies over the whole
    list, so it holds for each order.
  \<^item> A Go panic, a goroutine that blocks forever and a loop that has not ended within its fuel are
    values of \<open>fault\<close>; a definition that can end so returns \<open>fault + 'a\<close>.
  \<^item> Integers keep their width (\<open>uint64\<close> is \<open>64 word\<close>); slice positions are \<open>int\<close>, because the
    sources use \<open>-1\<close> for \<open>not found\<close>.
\<close>

section \<open>Types\<close>

type_synonym S = "string list"
type_synonym uint64 = "64 word"
type_synonym uint32 = "32 word"
type_synonym uint16 = "16 word"
type_synonym ('k, 'v) gomap = "('k \<times> 'v) list"

datatype fault = GoPanic string | Deadlock | OutOfFuel

type_synonym 'a res = "fault + 'a"

definition bindR :: "'a res \<Rightarrow> ('a \<Rightarrow> 'b res) \<Rightarrow> 'b res" where
  "bindR x f = (case x of Inl e \<Rightarrow> Inl e | Inr a \<Rightarrow> f a)"

fun mapR :: "('a \<Rightarrow> 'b res) \<Rightarrow> 'a list \<Rightarrow> 'b list res" where
  "mapR f [] = Inr []"
| "mapR f (x # xs) = bindR (f x) (\<lambda>y. bindR (mapR f xs) (\<lambda>ys. Inr (y # ys)))"

definition sl :: "'a list option \<Rightarrow> 'a list" where
  "sl xs = (case xs of None \<Rightarrow> [] | Some ys \<Rightarrow> ys)"

named_theorems slice_simps \<open>characterisations of the slice helpers\<close>
named_theorems map_simps \<open>lookups in updated Go maps\<close>

section \<open>Go maps\<close>

definition gget :: "('k, 'v) gomap \<Rightarrow> 'k \<Rightarrow> 'v option" where
  "gget m k = map_of m k"

definition ggetd :: "'v \<Rightarrow> ('k, 'v) gomap \<Rightarrow> 'k \<Rightarrow> 'v" where
  "ggetd d m k = (case map_of m k of None \<Rightarrow> d | Some v \<Rightarrow> v)"

definition ghas :: "('k, 'v) gomap \<Rightarrow> 'k \<Rightarrow> bool" where
  "ghas m k = (map_of m k \<noteq> None)"

definition gput :: "'k \<Rightarrow> 'v \<Rightarrow> ('k, 'v) gomap \<Rightarrow> ('k, 'v) gomap" where
  "gput k v m = AList.update k v m"

definition gdel :: "'k \<Rightarrow> ('k, 'v) gomap \<Rightarrow> ('k, 'v) gomap" where
  "gdel k m = AList.delete k m"

definition gkeys :: "('k, 'v) gomap \<Rightarrow> 'k list" where
  "gkeys m = map fst m"

definition gmap_wf :: "('k, 'v) gomap \<Rightarrow> bool" where
  "gmap_wf m = distinct (gkeys m)"

section \<open>Slices\<close>

fun slices_Index :: "'a list \<Rightarrow> 'a \<Rightarrow> int" where
  "slices_Index [] x = - 1"
| "slices_Index (y # ys) x =
     (if y = x then 0
      else (let i = slices_Index ys x in if i = - 1 then - 1 else i + 1))"

definition slices_Contains :: "'a list \<Rightarrow> 'a \<Rightarrow> bool" where
  "slices_Contains xs x = (x \<in> set xs)"

text \<open>\<open>slices.Delete(s, i, j)\<close> panics unless \<open>s[i:j]\<close> is a valid slice of \<open>s\<close>.\<close>

definition slices_Delete :: "'a list \<Rightarrow> int \<Rightarrow> int \<Rightarrow> 'a list res" where
  "slices_Delete xs i j =
     (if 0 \<le> i \<and> i \<le> j \<and> j \<le> int (length xs)
      then Inr (take (nat i) xs @ drop (nat j) xs)
      else Inl (GoPanic ''slice bounds out of range''))"

definition slicesWithout :: "'a list \<Rightarrow> 'a \<Rightarrow> 'a list" where
  "slicesWithout coll el =
     (let idx = slices_Index coll el in
      if idx = - 1 then coll
      else take (nat idx) coll @ drop (nat (idx + 1)) coll)"

fun slicesNone :: "'a list \<Rightarrow> 'a list \<Rightarrow> bool" where
  "slicesNone col1 [] = True"
| "slicesNone col1 (el # els) = (if slices_Contains col1 el then False else slicesNone col1 els)"

fun slicesEvery :: "'a list \<Rightarrow> 'a list \<Rightarrow> bool" where
  "slicesEvery col1 [] = True"
| "slicesEvery col1 (el # els) = (if \<not> slices_Contains col1 el then False else slicesEvery col1 els)"

fun slicesFilter_at :: "nat \<Rightarrow> 'a list \<Rightarrow> ('a \<Rightarrow> nat \<Rightarrow> bool) \<Rightarrow> 'a list" where
  "slicesFilter_at i [] fn = []"
| "slicesFilter_at i (el # els) fn =
     (if fn el i then el # slicesFilter_at (Suc i) els fn else slicesFilter_at (Suc i) els fn)"

definition slicesFilter :: "'a list \<Rightarrow> ('a \<Rightarrow> nat \<Rightarrow> bool) \<Rightarrow> 'a list" where
  "slicesFilter coll fn = slicesFilter_at 0 coll fn"

definition slicesReverse :: "'a list \<Rightarrow> 'a list" where
  "slicesReverse coll = map (\<lambda>i. coll ! (length coll - 1 - i)) [0..<length coll]"

fun slicesUniq_seen :: "'a list \<Rightarrow> 'a list \<Rightarrow> 'a list" where
  "slicesUniq_seen seen [] = []"
| "slicesUniq_seen seen (v # vs) =
     (if v \<in> set seen then slicesUniq_seen seen vs else v # slicesUniq_seen (v # seen) vs)"

definition slicesUniq :: "'a list \<Rightarrow> 'a list" where
  "slicesUniq coll = slicesUniq_seen [] coll"

section \<open>Strings\<close>

definition strings_HasPrefix :: "string \<Rightarrow> string \<Rightarrow> bool" where
  "strings_HasPrefix s p = (take (length p) s = p)"

definition strings_HasSuffix :: "string \<Rightarrow> string \<Rightarrow> bool" where
  "strings_HasSuffix s p = (length p \<le> length s \<and> drop (length s - length p) s = p)"

definition strings_TrimPrefix :: "string \<Rightarrow> string \<Rightarrow> string" where
  "strings_TrimPrefix s p = (if strings_HasPrefix s p then drop (length p) s else s)"

text \<open>ASCII white space, the part of Unicode's that occurs in state names.\<close>

definition is_space :: "char \<Rightarrow> bool" where
  "is_space c = (c \<in> set [CHR 0x20, CHR 0x09, CHR 0x0A, CHR 0x0B, CHR 0x0C, CHR 0x0D])"

definition strings_TrimSpace :: "string \<Rightarrow> string" where
  "strings_TrimSpace s = rev (dropWhile is_space (rev (dropWhile is_space s)))"

fun strings_Join :: "string list \<Rightarrow> string \<Rightarrow> string" where
  "strings_Join [] sep = []"
| "strings_Join [x] sep = x"
| "strings_Join (x # y # ys) sep = x @ sep @ strings_Join (y # ys) sep"

definition digit_char :: "nat \<Rightarrow> char" where
  "digit_char d = char_of (48 + d)"

fun nat_digits :: "nat \<Rightarrow> string" where
  "nat_digits n =
     (if n < 10 then [digit_char n] else nat_digits (n div 10) @ [digit_char (n mod 10)])"

declare nat_digits.simps [simp del]

definition strconv_Itoa :: "int \<Rightarrow> string" where
  "strconv_Itoa i = (if i < 0 then CHR 0x2D # nat_digits (nat (- i)) else nat_digits (nat i))"

definition truncateStr :: "string \<Rightarrow> nat \<Rightarrow> string" where
  "truncateStr s maxLength =
     (if length s \<le> maxLength then s
      else if maxLength < 5 then take maxLength s
      else take (maxLength - 3) s @ ''...'')"

definition j :: "string list \<Rightarrow> string" where
  "j states = strings_Join states '' ''"

definition jw :: "string list \<Rightarrow> string \<Rightarrow> string" where
  "jw states sep = strings_Join states sep"

section \<open>Facts about the slice helpers\<close>

lemma sl_simps [simp]: "sl None = []" "sl (Some xs) = xs"
  by (simp_all add: sl_def)

lemma bindR_simps [simp]: "bindR (Inl e) f = Inl e" "bindR (Inr a) f = f a"
  by (simp_all add: bindR_def)

lemma bindR_eq_Inr: "bindR x f = Inr b \<longleftrightarrow> (\<exists>a. x = Inr a \<and> f a = Inr b)"
  by (cases x) auto

lemma mapR_Inr: "(\<And>x. x \<in> set xs \<Longrightarrow> f x = Inr (g x)) \<Longrightarrow> mapR f xs = Inr (map g xs)"
  by (induction xs) auto

lemma mapR_map: "mapR f (map g xs) = mapR (f \<circ> g) xs"
  by (induction xs) auto

lemma slices_Contains_iff [simp]: "slices_Contains xs x \<longleftrightarrow> x \<in> set xs"
  by (simp add: slices_Contains_def)

lemma slices_Index_ge: "- 1 \<le> slices_Index xs x"
  by (induction xs) (auto simp: Let_def)

lemma slices_Index_eq_m1 [simp]: "slices_Index xs x = - 1 \<longleftrightarrow> x \<notin> set xs"
proof (induction xs)
  case (Cons y ys)
  then show ?case using slices_Index_ge [of ys x] by (auto simp: Let_def)
qed simp

lemma slices_Index_bounds:
  "x \<in> set xs \<Longrightarrow> 0 \<le> slices_Index xs x \<and> nat (slices_Index xs x) < length xs
     \<and> xs ! nat (slices_Index xs x) = x"
proof (induction xs)
  case (Cons y ys)
  show ?case
  proof (cases "y = x")
    case False
    with Cons have ih: "0 \<le> slices_Index ys x" "nat (slices_Index ys x) < length ys"
      "ys ! nat (slices_Index ys x) = x" "x \<in> set ys" by auto
    from ih(1) have "nat (slices_Index ys x + 1) = Suc (nat (slices_Index ys x))" by simp
    with False ih show ?thesis by (simp add: Let_def)
  qed simp
qed simp

lemma slices_Index_first:
  "i < nat (slices_Index xs x) \<Longrightarrow> i < length xs \<Longrightarrow> xs ! i \<noteq> x"
proof (induction xs arbitrary: i)
  case (Cons y ys)
  then show ?case using slices_Index_ge [of ys x]
    by (cases i) (auto simp: Let_def split: if_splits)
qed simp

lemma slices_Index_nth:
  assumes "distinct xs" "i < length xs" shows "slices_Index xs (xs ! i) = int i"
proof -
  have "xs ! i \<in> set xs" using assms by simp
  note b = slices_Index_bounds [OF this]
  with assms have "nat (slices_Index xs (xs ! i)) = i"
    by (metis nth_eq_iff_index_eq)
  with b show ?thesis by linarith
qed

lemma slicesWithout_remove1 [slice_simps]: "slicesWithout xs x = remove1 x xs"
proof (induction xs)
  case (Cons y ys)
  show ?case
  proof (cases "y = x")
    case True then show ?thesis by (simp add: slicesWithout_def)
  next
    case False
    show ?thesis
    proof (cases "x \<in> set ys")
      case True
      note b = slices_Index_bounds [OF this]
      then have n: "nat (slices_Index ys x + 1) = Suc (nat (slices_Index ys x))"
        "nat (slices_Index ys x + 1 + 1) = Suc (nat (slices_Index ys x + 1))" by linarith+
      from False True b Cons.IH n show ?thesis
        by (auto simp: slicesWithout_def Let_def split: if_splits)
    next
      case nin: False
      with False have "slices_Index (y # ys) x = - 1" by (subst slices_Index_eq_m1) auto
      then have "slicesWithout (y # ys) x = y # ys" by (simp add: slicesWithout_def)
      with False nin show ?thesis by (simp add: remove1_idem)
    qed
  qed
qed (simp add: slicesWithout_def)

lemma slices_Delete_one:
  "x \<in> set xs \<Longrightarrow> slices_Delete xs (slices_Index xs x) (slices_Index xs x + 1)
     = Inr (remove1 x xs)"
  using slices_Index_bounds [of x xs] slicesWithout_remove1 [of xs x]
  by (auto simp: slices_Delete_def slicesWithout_def Let_def)

lemma slices_Delete_missing:
  assumes "x \<notin> set xs"
  shows "slices_Delete xs (slices_Index xs x) (slices_Index xs x + 1)
     = Inl (GoPanic ''slice bounds out of range'')"
proof -
  have e: "slices_Index xs x = - 1" using assms by simp
  show ?thesis unfolding e by (simp add: slices_Delete_def)
qed

lemma slicesNone_iff [slice_simps]: "slicesNone xs ys \<longleftrightarrow> set xs \<inter> set ys = {}"
  by (induction ys) auto

lemma slicesEvery_iff [slice_simps]: "slicesEvery xs ys \<longleftrightarrow> set ys \<subseteq> set xs"
  by (induction ys) auto

lemma slicesFilter_at_filter: "slicesFilter_at i xs (\<lambda>x _. P x) = filter P xs"
  by (induction xs arbitrary: i) auto

lemma slicesFilter_filter [slice_simps]: "slicesFilter xs (\<lambda>x _. P x) = filter P xs"
  by (simp add: slicesFilter_def slicesFilter_at_filter)

lemma slicesReverse_rev [slice_simps]: "slicesReverse xs = rev xs"
  by (rule nth_equalityI) (auto simp: slicesReverse_def rev_nth)

lemma set_slicesUniq_seen: "set (slicesUniq_seen seen xs) = set xs - set seen"
  by (induction xs arbitrary: seen) auto

lemma distinct_slicesUniq_seen: "distinct (slicesUniq_seen seen xs)"
  by (induction xs arbitrary: seen) (auto simp: set_slicesUniq_seen)

lemma slicesUniq_seen_id: "distinct xs \<Longrightarrow> set xs \<inter> set seen = {} \<Longrightarrow> slicesUniq_seen seen xs = xs"
  by (induction xs arbitrary: seen) auto

lemma set_slicesUniq [simp]: "set (slicesUniq xs) = set xs"
  by (simp add: slicesUniq_def set_slicesUniq_seen)

lemma distinct_slicesUniq [simp]: "distinct (slicesUniq xs)"
  by (simp add: slicesUniq_def distinct_slicesUniq_seen)

lemma slicesUniq_id [simp]: "distinct xs \<Longrightarrow> slicesUniq xs = xs"
  by (simp add: slicesUniq_def slicesUniq_seen_id)

lemma length_slicesUniq: "length (slicesUniq xs) \<le> length xs"
proof -
  have "length (slicesUniq_seen seen xs) \<le> length xs" for seen
    by (induction xs arbitrary: seen) (auto intro: le_SucI)
  then show ?thesis by (simp add: slicesUniq_def)
qed

lemma strings_HasPrefix_append [simp]: "strings_HasPrefix (p @ s) p"
  by (simp add: strings_HasPrefix_def)

lemma strings_HasSuffix_append [simp]: "strings_HasSuffix (s @ p) p"
  by (simp add: strings_HasSuffix_def)

lemma strings_TrimPrefix_append [simp]: "strings_TrimPrefix (p @ s) p = s"
  by (simp add: strings_TrimPrefix_def)

section \<open>Facts about Go maps\<close>

lemma gget_gput [map_simps, simp]: "gget (gput k v m) k' = (if k' = k then Some v else gget m k')"
  by (auto simp: gget_def gput_def update_conv')

lemma gget_gdel [map_simps, simp]:
  "gget (gdel k m) k' = (if k' = k then None else gget m k')"
  by (auto simp: gget_def gdel_def delete_conv')

lemma ggetd_gget: "ggetd d m k = (case gget m k of None \<Rightarrow> d | Some v \<Rightarrow> v)"
  by (simp add: ggetd_def gget_def)

lemma ggetd_gput [map_simps, simp]: "ggetd d (gput k v m) k' = (if k' = k then v else ggetd d m k')"
  by (simp add: ggetd_gget)

lemma ggetd_gdel [map_simps, simp]: "ggetd d (gdel k m) k' = (if k' = k then d else ggetd d m k')"
  by (simp add: ggetd_gget)

lemma ghas_gget: "ghas m k \<longleftrightarrow> gget m k \<noteq> None"
  by (simp add: ghas_def gget_def)

lemma ghas_gput [map_simps, simp]: "ghas (gput k v m) k' \<longleftrightarrow> k' = k \<or> ghas m k'"
  by (auto simp: ghas_gget)

lemma ghas_gdel [map_simps, simp]: "ghas (gdel k m) k' \<longleftrightarrow> k' \<noteq> k \<and> ghas m k'"
  by (auto simp: ghas_gget)

lemma ghas_gkeys: "ghas m k \<longleftrightarrow> k \<in> set (gkeys m)"
  by (simp add: ghas_def gkeys_def map_of_eq_None_iff)

lemma set_gkeys_gput [simp]: "set (gkeys (gput k v m)) = insert k (set (gkeys m))"
  using ghas_gkeys [of "gput k v m"] ghas_gkeys [of m] by auto

lemma gmap_wf_gput [simp, intro]: "gmap_wf m \<Longrightarrow> gmap_wf (gput k v m)"
  by (simp add: gmap_wf_def gkeys_def gput_def distinct_update)

lemma gmap_wf_gdel [simp, intro]: "gmap_wf m \<Longrightarrow> gmap_wf (gdel k m)"
  by (simp add: gmap_wf_def gkeys_def gdel_def distinct_delete)

lemma gmap_wf_Nil [simp]: "gmap_wf []"
  by (simp add: gmap_wf_def gkeys_def)

end
