(* ===== verification/Am_States.thy ===== *)
theory Am_States
  imports Am_Prelude
begin

text \<open>
  State lists and state definitions: the type \<open>S\<close> with its methods and the struct \<open>State\<close> of
  \<open>src/pkg/machine/mach_utils.go\<close>, the names and enums of \<open>src/pkg/machine/types.go\<close>.
  A method \<open>M\<close> of the Go type \<open>T\<close> is the constant \<open>T_M\<close>; a variadic parameter is a list.
\<close>

section \<open>Names and enums\<close>

definition SuffixEnter :: string where "SuffixEnter = ''Enter''"
definition SuffixExit :: string where "SuffixExit = ''Exit''"
definition SuffixState :: string where "SuffixState = ''State''"
definition SuffixEnd :: string where "SuffixEnd = ''End''"
definition StateAny :: string where "StateAny = ''Any''"
definition StateException :: string where "StateException = ''Exception''"
definition StateHeartbeat :: string where "StateHeartbeat = ''Heartbeat''"
definition StateHealthcheck :: string where "StateHealthcheck = ''Healthcheck''"
definition StateStart :: string where "StateStart = ''Start''"
definition StateMachineRestored :: string where "StateMachineRestored = ''MachineRestored''"

datatype MutationType = MutationAdd | MutationRemove | MutationSet | mutationEval

fun MutationType_String :: "MutationType \<Rightarrow> string" where
  "MutationType_String MutationAdd = ''add''"
| "MutationType_String MutationRemove = ''remove''"
| "MutationType_String MutationSet = ''set''"
| "MutationType_String mutationEval = ''eval''"

fun MutationType_StringShort :: "MutationType \<Rightarrow> string" where
  "MutationType_StringShort MutationAdd = '' +''"
| "MutationType_StringShort MutationRemove = ''- ''"
| "MutationType_StringShort MutationSet = ''= ''"
| "MutationType_StringShort mutationEval = ''e ''"

datatype Relation = RelationAfter | RelationAdd | RelationRequire | RelationRemove

fun Relation_String :: "Relation \<Rightarrow> string" where
  "Relation_String RelationAfter = ''after''"
| "Relation_String RelationAdd = ''add''"
| "Relation_String RelationRequire = ''require''"
| "Relation_String RelationRemove = ''remove''"

datatype Position = PositionAny | PositionFirst | PositionLast

text \<open>\<open>Result\<close> is a \<open>uint64\<close>: 0 and 1 are the two outcomes, everything from 2 up is a queue tick.\<close>

type_synonym Result = uint64

definition Executed :: Result where "Executed = 0"
definition Canceled :: Result where "Canceled = 1"
definition Queued :: Result where "Queued = 2"

definition IsQueued :: "Result \<Rightarrow> bool" where
  "IsQueued result = (result > Canceled)"

definition Result_String :: "Result \<Rightarrow> string" where
  "Result_String r =
     (if r = Executed then ''executed'' else if r = Canceled then ''canceled'' else ''queued'')"

section \<open>State lists\<close>

definition index_name :: "S \<Rightarrow> int \<Rightarrow> string res" where
  "index_name index i =
     (if int (length index) > i \<and> i \<noteq> - 1
      then (if i < 0 then Inl (GoPanic ''index out of range'') else Inr (index ! nat i))
      else Inr (''unknown'' @ strconv_Itoa i))"

definition IndexToStates :: "S \<Rightarrow> int list \<Rightarrow> S res" where
  "IndexToStates index states = mapR (index_name index) states"

definition StatesToIndex :: "S \<Rightarrow> S \<Rightarrow> int list" where
  "StatesToIndex index states = map (\<lambda>s. slices_Index index (strings_TrimSpace s)) states"

definition StatesDiff :: "S \<Rightarrow> S \<Rightarrow> S" where
  "StatesDiff states1 states2 = slicesFilter states1 (\<lambda>name i. \<not> slices_Contains states2 name)"

definition StatesShared :: "S \<Rightarrow> S \<Rightarrow> S" where
  "StatesShared states1 states2 = slicesFilter states1 (\<lambda>name i. slices_Contains states2 name)"

definition StatesEqual :: "S \<Rightarrow> S \<Rightarrow> bool" where
  "StatesEqual states1 states2 = (slicesEvery states1 states2 \<and> slicesEvery states2 states1)"

definition StatesPrefix :: "string \<Rightarrow> S \<Rightarrow> S" where
  "StatesPrefix prefix states = map (\<lambda>name. prefix @ name) states"

fun StatesWithPrefix :: "string \<Rightarrow> S \<Rightarrow> S" where
  "StatesWithPrefix prefix [] = []"
| "StatesWithPrefix prefix (name # names) =
     (if strings_HasPrefix name prefix then name # StatesWithPrefix prefix names
      else StatesWithPrefix prefix names)"

definition SAdd :: "S list \<Rightarrow> S" where
  "SAdd states =
     (case states of [] \<Rightarrow> []
      | s0 # rest \<Rightarrow> slicesUniq (foldl (\<lambda>s g. s @ g) s0 rest))"

text \<open>The outer loop of \<open>SRem\<close> starts at index 1 of the variadic groups.\<close>

definition SRem :: "S \<Rightarrow> S list \<Rightarrow> S" where
  "SRem src states =
     (if states = [] then src
      else foldl (\<lambda>s g. foldl slicesWithout s g) src (drop 1 states))"

definition S_FilterIndex :: "S \<Rightarrow> int list \<Rightarrow> S res" where
  "S_FilterIndex s idxs = IndexToStates s idxs"

definition S_Unique :: "S \<Rightarrow> S" where
  "S_Unique s = slicesUniq s"

definition S_Add :: "S \<Rightarrow> S list \<Rightarrow> S" where
  "S_Add s states = (if states = [] then s else slicesUniq (concat (s # states)))"

definition S_FilterPrefix :: "S \<Rightarrow> string list \<Rightarrow> S" where
  "S_FilterPrefix s prefixes = foldl (\<lambda>ret p. S_Add ret [StatesWithPrefix p s]) [] prefixes"

definition S_Prefix :: "S \<Rightarrow> string \<Rightarrow> S" where
  "S_Prefix s prefix = StatesPrefix prefix s"

definition S_Add1 :: "S \<Rightarrow> string list \<Rightarrow> S" where
  "S_Add1 s state = slicesUniq (s @ state)"

definition S_Delete :: "S \<Rightarrow> S list \<Rightarrow> S" where
  "S_Delete s states = SRem s states"

definition S_Delete1 :: "S \<Rightarrow> string list \<Rightarrow> S" where
  "S_Delete1 s states = SRem s [states]"

definition S_Sub :: "S \<Rightarrow> S \<Rightarrow> S" where
  "S_Sub s other = StatesDiff s other"

definition S_Shared :: "S \<Rightarrow> S \<Rightarrow> S" where
  "S_Shared s other = StatesShared s other"

definition S_Equal :: "S \<Rightarrow> S \<Rightarrow> bool" where
  "S_Equal s other = StatesEqual s other"

definition S_EqualOrder :: "S \<Rightarrow> S \<Rightarrow> bool" where
  "S_EqualOrder s other =
     (length s = length other \<and> list_all2 (\<lambda>a b. a = strings_TrimSpace b) s other)"

definition S_Index :: "S \<Rightarrow> S \<Rightarrow> int list" where
  "S_Index s states = StatesToIndex s states"

text \<open>\<open>EqualIndex\<close> compares with \<open>s.Index(nil)\<close>, the positions of no state at all.\<close>

definition S_EqualIndex :: "S \<Rightarrow> int list \<Rightarrow> bool" where
  "S_EqualIndex s otherIdx = (S_Index s [] = otherIdx)"

definition S_Index1 :: "S \<Rightarrow> string \<Rightarrow> int" where
  "S_Index1 s state = slices_Index s state"

definition S_Has :: "S \<Rightarrow> string \<Rightarrow> bool" where
  "S_Has s state = slices_Contains s state"

fun S_HasN :: "S \<Rightarrow> S \<Rightarrow> bool" where
  "S_HasN s [] = True"
| "S_HasN s (state # states) = (if \<not> slices_Contains s state then False else S_HasN s states)"

definition S_Remove1 :: "S \<Rightarrow> string \<Rightarrow> S" where
  "S_Remove1 s state = filter (\<lambda>x. \<not> (x = state)) s"

definition S_Remove :: "S \<Rightarrow> S \<Rightarrow> S" where
  "S_Remove s states = filter (\<lambda>x. \<not> slices_Contains states x) s"

section \<open>Handler names\<close>

definition handlerSuffixes :: "string list" where
  "handlerSuffixes = [SuffixEnter, SuffixExit, SuffixState, SuffixEnd, StateAny]"

fun IsHandler_suffix :: "string list \<Rightarrow> string \<Rightarrow> (string \<times> string) option" where
  "IsHandler_suffix [] method = None"
| "IsHandler_suffix (suffix # suffixes) method =
     (if strings_HasSuffix method suffix \<and> length method \<noteq> length suffix
         \<and> method \<noteq> StateAny @ suffix
      then Some (take (length method - length suffix) method, [])
      else IsHandler_suffix suffixes method)"

fun IsHandler_second :: "S \<Rightarrow> string \<Rightarrow> string \<Rightarrow> (string \<times> string) option" where
  "IsHandler_second [] s method = None"
| "IsHandler_second (ss # rest) s method =
     (if s @ ss = method then Some (s, ss) else IsHandler_second rest s method)"

fun IsHandler_pair :: "S \<Rightarrow> S \<Rightarrow> string \<Rightarrow> (string \<times> string) option" where
  "IsHandler_pair states [] method = None"
| "IsHandler_pair states (s # rest) method =
     (if \<not> strings_HasPrefix method s then IsHandler_pair states rest method
      else (case IsHandler_second states s method of
              Some r \<Rightarrow> Some r
            | None \<Rightarrow> IsHandler_pair states rest method))"

definition IsHandler :: "S \<Rightarrow> string \<Rightarrow> string \<times> string" where
  "IsHandler states method =
     (if method = StateAny @ SuffixEnter \<or> method = StateAny @ SuffixState then ([], [])
      else case IsHandler_suffix handlerSuffixes method of
        Some r \<Rightarrow> r
      | None \<Rightarrow>
          (if strings_HasPrefix method StateAny \<and> length method \<noteq> length StateAny
              \<and> method \<noteq> StateAny @ SuffixState
           then (drop (length StateAny) method, [])
           else case IsHandler_pair states states method of
             Some r \<Rightarrow> r
           | None \<Rightarrow> ([], [])))"

section \<open>State definitions\<close>

record State =
  Auto :: bool
  Multi :: bool
  Require :: "S option"
  Add :: "S option"
  Remove :: "S option"
  After :: "S option"
  Tags :: "string list option"

definition State_zero :: State where
  "State_zero = \<lparr>Auto = False, Multi = False, Require = None, Add = None, Remove = None,
     After = None, Tags = None\<rparr>"

definition State_Clone :: "State \<Rightarrow> State" where
  "State_Clone s =
     (let c0 = \<lparr>Auto = Auto s, Multi = Multi s, Require = None, Add = None, Remove = None,
                After = None, Tags = None\<rparr>;
          c1 = (if Require s \<noteq> None then c0\<lparr>Require := Require s\<rparr> else c0);
          c2 = (if Add s \<noteq> None then c1\<lparr>Add := Add s\<rparr> else c1);
          c3 = (if Remove s \<noteq> None then c2\<lparr>Remove := Remove s\<rparr> else c2);
          c4 = (if After s \<noteq> None then c3\<lparr>After := After s\<rparr> else c3)
      in if Tags s \<noteq> None then c4\<lparr>Tags := Tags s\<rparr> else c4)"

definition State_HasTag :: "State \<Rightarrow> string \<Rightarrow> bool" where
  "State_HasTag s tag = slices_Contains (sl (Tags s)) tag"

definition StateAdd :: "State \<Rightarrow> State \<Rightarrow> State" where
  "StateAdd source overlay =
     (let s0 = State_Clone source; ov = State_Clone overlay;
          s1 = (if Auto ov then s0\<lparr>Auto := True\<rparr> else s0);
          s2 = (if Multi ov then s1\<lparr>Multi := True\<rparr> else s1);
          s3 = (if Add ov \<noteq> None then s2\<lparr>Add := Some (SAdd [sl (Add s2), sl (Add ov)])\<rparr> else s2);
          s4 = (if Remove ov \<noteq> None
                then s3\<lparr>Remove := Some (SAdd [sl (Remove s3), sl (Remove ov)])\<rparr> else s3);
          s5 = (if Require ov \<noteq> None
                then s4\<lparr>Require := Some (SAdd [sl (Require s4), sl (Require ov)])\<rparr> else s4)
      in if After ov \<noteq> None
         then s5\<lparr>After := Some (SAdd [sl (After s5), sl (After ov)])\<rparr> else s5)"

definition StateSet :: "State \<Rightarrow> bool \<Rightarrow> bool \<Rightarrow> State \<Rightarrow> State" where
  "StateSet source auto multi overlay =
     (let s0 = (State_Clone source)\<lparr>Auto := auto, Multi := multi\<rparr>; ov = State_Clone overlay;
          s1 = (if Add ov \<noteq> None then s0\<lparr>Add := Add ov\<rparr> else s0);
          s2 = (if Remove ov \<noteq> None then s1\<lparr>Remove := Remove ov\<rparr> else s1);
          s3 = (if Require ov \<noteq> None then s2\<lparr>Require := Require ov\<rparr> else s2)
      in if After ov \<noteq> None then s3\<lparr>After := After ov\<rparr> else s3)"

definition State_Extend :: "State \<Rightarrow> State \<Rightarrow> State" where
  "State_Extend s overlay = StateAdd s overlay"

definition State_Set :: "State \<Rightarrow> bool \<Rightarrow> bool \<Rightarrow> State \<Rightarrow> State" where
  "State_Set s auto multi overlay = StateSet s auto multi overlay"

definition State_SetRels :: "State \<Rightarrow> State \<Rightarrow> State" where
  "State_SetRels s overlay = StateSet s (Auto s) (Multi s) overlay"

section \<open>Facts about state lists\<close>

lemma StatesDiff_filter [slice_simps, simp]: "StatesDiff xs ys = filter (\<lambda>x. x \<notin> set ys) xs"
  by (simp add: StatesDiff_def slicesFilter_filter)

lemma StatesShared_filter [slice_simps, simp]: "StatesShared xs ys = filter (\<lambda>x. x \<in> set ys) xs"
  by (simp add: StatesShared_def slicesFilter_filter)

lemma StatesEqual_iff [slice_simps]: "StatesEqual xs ys \<longleftrightarrow> set xs = set ys"
  by (auto simp: StatesEqual_def slicesEvery_iff)

lemma SAdd_two [simp]: "SAdd [xs, ys] = slicesUniq (xs @ ys)"
  by (simp add: SAdd_def)

lemma State_Clone_id [simp]: "State_Clone s = s"
  by (cases s) (auto simp: State_Clone_def Let_def)

lemma S_HasN_iff: "S_HasN s states \<longleftrightarrow> set states \<subseteq> set s"
  by (induction states) auto

lemma index_name_nth: "i < length index \<Longrightarrow> index_name index (int i) = Inr (index ! i)"
  by (auto simp: index_name_def)

lemma IndexToStates_StatesToIndex:
  assumes "set states \<subseteq> set index" and "\<And>s. s \<in> set states \<Longrightarrow> strings_TrimSpace s = s"
  shows "IndexToStates index (StatesToIndex index states) = Inr states"
proof -
  have "index_name index (slices_Index index (strings_TrimSpace s)) = Inr s"
    if "s \<in> set states" for s
    using slices_Index_bounds [of s index] that assms index_name_nth
      [of "nat (slices_Index index s)" index] by auto
  then have "mapR (index_name index \<circ> (\<lambda>s. slices_Index index (strings_TrimSpace s))) states
      = Inr (map (\<lambda>s. s) states)"
    by (intro mapR_Inr) auto
  then show ?thesis by (simp add: IndexToStates_def StatesToIndex_def mapR_map)
qed

lemma S_Delete1_noop: "S_Delete1 s states = s" and S_Delete_one_noop: "S_Delete s [states] = s"
  by (simp_all add: S_Delete1_def S_Delete_def SRem_def)

lemma StateAdd_fields:
  "Auto (StateAdd s ov) = (Auto s \<or> Auto ov)"
  "Multi (StateAdd s ov) = (Multi s \<or> Multi ov)"
  "Tags (StateAdd s ov) = Tags s"
  "set (sl (Add (StateAdd s ov))) = set (sl (Add s)) \<union> set (sl (Add ov))"
  "set (sl (Remove (StateAdd s ov))) = set (sl (Remove s)) \<union> set (sl (Remove ov))"
  "set (sl (Require (StateAdd s ov))) = set (sl (Require s)) \<union> set (sl (Require ov))"
  "set (sl (After (StateAdd s ov))) = set (sl (After s)) \<union> set (sl (After ov))"
  by (auto simp: StateAdd_def Let_def)

end
