(* ===== verification/Am_Schema.thy ===== *)
theory Am_Schema
  imports Am_States "HOL-Library.Multiset"
begin

text \<open>
  Machine schemas, \<open>src/pkg/machine/schema.go\<close>: a schema maps state names to state definitions.
  \<open>Schema_Parse\<close> sanitizes the relations of a schema before a machine uses it; \<open>schema_wf\<close> is what
  the resolver relies on afterwards.
\<close>

type_synonym Schema = "(string, State) gomap"

section \<open>Operations\<close>

definition Schema_Get :: "Schema \<Rightarrow> string \<Rightarrow> State" where
  "Schema_Get s state = (case gget s state of None \<Rightarrow> State_zero | Some st \<Rightarrow> st)"

definition Schema_Clone :: "Schema \<Rightarrow> Schema" where
  "Schema_Clone s = foldl (\<lambda>ret (name, state). gput name (State_Clone state) ret) [] s"

definition maps_Copy :: "('k, 'v) gomap \<Rightarrow> ('k, 'v) gomap \<Rightarrow> ('k, 'v) gomap" where
  "maps_Copy dst src = foldl (\<lambda>ret (k, v). gput k v ret) dst src"

definition Schema_Merge :: "Schema \<Rightarrow> Schema list \<Rightarrow> Schema" where
  "Schema_Merge s schemas =
     (if schemas = [] then s
      else Schema_Clone (gdel [] (foldl maps_Copy (Schema_Clone s) schemas)))"

definition SchemaMerge :: "Schema list \<Rightarrow> Schema" where
  "SchemaMerge schemas =
     (case schemas of [] \<Rightarrow> [] | [s] \<Rightarrow> s | _ \<Rightarrow> Schema_Clone (foldl maps_Copy [] schemas))"

definition prefix_name :: "string \<Rightarrow> bool \<Rightarrow> string \<Rightarrow> string \<Rightarrow> string" where
  "prefix_name prefix skipPrefixed name r =
     (if \<not> skipPrefixed \<or> \<not> strings_HasPrefix name prefix then prefix @ r else r)"

definition Schema_Prefix :: "Schema \<Rightarrow> string \<Rightarrow> bool \<Rightarrow> S \<Rightarrow> S \<Rightarrow> Schema" where
  "Schema_Prefix sch prefix skipPrefixed optAllowlist optSkiplist =
     foldl (\<lambda>ret (name, s0).
       (let s = State_Clone s0; pn = prefix_name prefix skipPrefixed name in
        if length optAllowlist > 0 \<and> \<not> slices_Contains optAllowlist name then ret
        else if length optSkiplist > 0 \<and> slices_Contains optSkiplist name then ret
        else gput (pn name)
               (s\<lparr>After := map_option (map pn) (After s), Add := map_option (map pn) (Add s),
                  Remove := map_option (map pn) (Remove s),
                  Require := map_option (map pn) (Require s)\<rparr>) ret)) [] sch"

definition prefixRels :: "string \<Rightarrow> S \<Rightarrow> S option \<Rightarrow> S option" where
  "prefixRels prefix states rels =
     (case rels of None \<Rightarrow> None
      | Some rs \<Rightarrow> Some (map (\<lambda>rel. if \<not> slices_Contains states rel then rel else prefix @ rel) rs))"

definition Schema_Nest :: "Schema \<Rightarrow> string \<Rightarrow> S \<Rightarrow> Schema" where
  "Schema_Nest s prefix states =
     foldl (\<lambda>ret state.
       (let st = Schema_Get s state in
        gput (prefix @ state)
          (st\<lparr>Require := prefixRels prefix states (Require st),
              Add := prefixRels prefix states (Add st),
              Remove := prefixRels prefix states (Remove st),
              After := prefixRels prefix states (After st)\<rparr>) ret)) [] states"

definition Schema_FilterByTag :: "Schema \<Rightarrow> string \<Rightarrow> Schema" where
  "Schema_FilterByTag s tag =
     foldl (\<lambda>ret (name, state).
       if slices_Contains (sl (Tags state)) tag then gput name state ret else ret) [] s"

definition Schema_FilterByTagKey :: "Schema \<Rightarrow> string \<Rightarrow> Schema" where
  "Schema_FilterByTagKey s key =
     foldl (\<lambda>ret (name, state).
       if list_ex (\<lambda>t. strings_HasPrefix t (key @ '':'')) (sl (Tags state))
       then gput name state ret else ret) [] s"

definition StatesByTag :: "Schema \<Rightarrow> string \<Rightarrow> S" where
  "StatesByTag schema tag =
     map fst (filter (\<lambda>(name, s).
       list_ex (\<lambda>t. t = tag \<or> strings_HasPrefix t (tag @ '':'')) (sl (Tags s))) schema)"

definition Schema_Names :: "Schema \<Rightarrow> S" where
  "Schema_Names s = gkeys s"

definition Schema_AdjacentStates :: "Schema \<Rightarrow> string \<Rightarrow> S" where
  "Schema_AdjacentStates s state =
     (case gget s state of None \<Rightarrow> []
      | Some data \<Rightarrow> sl (Add data) @ sl (After data) @ sl (Require data) @ sl (Remove data))"

section \<open>Parse\<close>

text \<open>One round of the loop that reconciles \<open>Add\<close> with \<open>Remove\<close> and with the known states.\<close>

definition parse_add_step :: "S \<Rightarrow> State \<Rightarrow> string \<Rightarrow> State" where
  "parse_add_step states state add =
     (if slices_Contains (sl (Remove state)) add
      then state\<lparr>Remove := map_option (\<lambda>r. slicesWithout r add) (Remove state)\<rparr>
      else if \<not> slices_Contains states add
      then state\<lparr>Add := map_option (\<lambda>r. slicesWithout r add) (Add state)\<rparr>
      else state)"

text \<open>The loops that drop references to unknown states; each ranges over the list as it was.\<close>

definition drop_unknown :: "S \<Rightarrow> S \<Rightarrow> S" where
  "drop_unknown states rel =
     foldl (\<lambda>r n. if \<not> slices_Contains states n then slicesWithout r n else r) rel rel"

definition parse_state :: "S \<Rightarrow> string \<Rightarrow> State \<Rightarrow> State \<times> (string \<times> string) list" where
  "parse_state states name st =
     (let s1 = (if slices_Contains (sl (Remove st)) name
                then st\<lparr>Remove := map_option (\<lambda>r. slicesWithout r name) (Remove st)\<rparr> else st);
          s2 = foldl (parse_add_step states) s1 (sl (Add s1));
          s3 = (if slices_Contains (sl (After s2)) name
                then s2\<lparr>After := map_option (\<lambda>r. slicesWithout r name) (After s2)\<rparr> else s2);
          errs = map (\<lambda>required. (name, required))
                   (filter (slices_Contains (sl (Remove s3))) (sl (Require s3)));
          s4 = s3\<lparr>Remove := map_option (drop_unknown states) (Remove s3)\<rparr>;
          s5 = s4\<lparr>After := map_option (drop_unknown states) (After s4)\<rparr>;
          s6 = s5\<lparr>Remove := map_option (drop_unknown states) (Remove s5)\<rparr>
      in (s6, errs))"

definition Schema_Parse :: "Schema \<Rightarrow> Schema \<times> (string \<times> string) list" where
  "Schema_Parse s =
     (let states = gkeys s in
      foldl (\<lambda>(parsed, errs) (name, state).
        (let (state', e) = parse_state states name state in (gput name state' parsed, errs @ e)))
        (Schema_Clone s, []) s)"

section \<open>Well-formed schemas\<close>

definition state_wf :: "S \<Rightarrow> string \<Rightarrow> State \<Rightarrow> bool" where
  "state_wf states name st =
     (set (sl (Add st)) \<subseteq> set states \<and> set (sl (Remove st)) \<subseteq> set states
      \<and> set (sl (After st)) \<subseteq> set states \<and> name \<notin> set (sl (Remove st))
      \<and> name \<notin> set (sl (After st)) \<and> set (sl (Add st)) \<inter> set (sl (Remove st)) = {})"

definition schema_wf :: "Schema \<Rightarrow> bool" where
  "schema_wf s = (gmap_wf s \<and> list_all (\<lambda>(name, st). state_wf (gkeys s) name st) s)"

text \<open>What \<open>Parse\<close> expects of a hand-written definition: lists without repetitions, and no unknown
  state in \<open>Add\<close> and \<open>Remove\<close> at once.\<close>

definition state_pre :: "S \<Rightarrow> State \<Rightarrow> bool" where
  "state_pre states st =
     (distinct (sl (Add st)) \<and> distinct (sl (Remove st)) \<and> distinct (sl (After st))
      \<and> set (sl (Add st)) \<inter> set (sl (Remove st)) \<subseteq> set states)"

section \<open>Facts\<close>

lemma foldl_gput_get:
  "gget (foldl (\<lambda>ret (k, v). gput k (f v) ret) acc xs) n =
     (case map_of (rev xs) n of Some v \<Rightarrow> Some (f v) | None \<Rightarrow> gget acc n)"
  by (induction xs arbitrary: acc) (auto simp: map_add_def split: option.splits)

lemma map_of_rev_distinct: "distinct (map fst xs) \<Longrightarrow> map_of (rev xs) = map_of xs"
  by (subst map_of_inject_set) (simp_all add: rev_map [symmetric])

lemma gget_Schema_Clone [simp]: "gmap_wf s \<Longrightarrow> gget (Schema_Clone s) n = gget s n"
  unfolding Schema_Clone_def
  by (subst foldl_gput_get)
     (simp add: map_of_rev_distinct gmap_wf_def gkeys_def gget_def split: option.splits)

lemma gmap_wf_foldl_gput:
  "gmap_wf acc \<Longrightarrow> gmap_wf (foldl (\<lambda>ret (k, v). gput k (f v) ret) acc xs)"
  by (induction xs arbitrary: acc) auto

lemma gmap_wf_Schema_Clone [simp]: "gmap_wf (Schema_Clone s)"
  by (simp add: Schema_Clone_def gmap_wf_foldl_gput)

lemma gget_maps_Copy:
  fixes src :: "('k, 'v) gomap"
  shows "gmap_wf src \<Longrightarrow>
    gget (maps_Copy dst src) n = (case gget src n of Some v \<Rightarrow> Some v | None \<Rightarrow> gget dst n)"
  unfolding maps_Copy_def
  using foldl_gput_get [where f = "\<lambda>v::'v. v" and acc = dst and xs = src and n = n]
  by (simp add: map_of_rev_distinct gmap_wf_def gkeys_def gget_def)

lemma gmap_wf_maps_Copy:
  fixes dst src :: "('k, 'v) gomap"
  shows "gmap_wf dst \<Longrightarrow> gmap_wf (maps_Copy dst src)"
  unfolding maps_Copy_def
  using gmap_wf_foldl_gput [where f = "\<lambda>v::'v. v" and acc = dst and xs = src] by simp

subsection \<open>The loops of Parse\<close>

lemma mset_remove_all:
  "mset (foldl (\<lambda>r n. if P n then slicesWithout r n else r) r xs) = mset r - mset (filter P xs)"
  by (induction xs arbitrary: r) (auto simp: slicesWithout_remove1)

lemma set_drop_unknown [simp]: "set (drop_unknown states rel) = set rel \<inter> set states"
proof -
  have "mset (drop_unknown states rel)
      = mset rel - mset (filter (\<lambda>n. \<not> slices_Contains states n) rel)"
    unfolding drop_unknown_def by (rule mset_remove_all)
  also have "\<dots> = filter_mset (\<lambda>n. slices_Contains states n) (mset rel)"
    by (simp add: multiset_eq_iff)
  finally have "set_mset (mset (drop_unknown states rel)) = {n \<in> set rel. n \<in> set states}"
    by simp
  then show ?thesis by auto
qed

lemma set_slicesWithout_distinct: "distinct xs \<Longrightarrow> set (slicesWithout xs x) = set xs - {x}"
  by (simp add: slicesWithout_remove1 set_remove1_eq)

lemma distinct_slicesWithout: "distinct xs \<Longrightarrow> distinct (slicesWithout xs x)"
  by (simp add: slicesWithout_remove1)

text \<open>The fields one reconciliation round leaves alone, and the effect of the whole loop.\<close>

lemma parse_add_step_frame:
  "Require (foldl (parse_add_step states) st adds) = Require st"
  "After (foldl (parse_add_step states) st adds) = After st"
  "Auto (foldl (parse_add_step states) st adds) = Auto st"
  "Multi (foldl (parse_add_step states) st adds) = Multi st"
  by (induction adds arbitrary: st) (auto simp: parse_add_step_def)

lemma sl_map_option [simp]:
  "sl (map_option (\<lambda>r. slicesWithout r a) x) = slicesWithout (sl x) a"
  "sl (map_option (drop_unknown states) x) = drop_unknown states (sl x)"
  by (cases x; simp add: slicesWithout_def drop_unknown_def)+

lemma parse_add_loop:
  assumes "distinct adds" "distinct (sl (Remove st))" "distinct (sl (Add st))"
  shows "set (sl (Remove (foldl (parse_add_step states) st adds)))
           = set (sl (Remove st)) - set adds
         \<and> set (sl (Add (foldl (parse_add_step states) st adds)))
           = set (sl (Add st)) - {a \<in> set adds. a \<notin> set (sl (Remove st)) \<and> a \<notin> set states}
         \<and> distinct (sl (Remove (foldl (parse_add_step states) st adds)))"
  using assms
proof (induction adds arbitrary: st)
  case (Cons a adds)
  let ?st = "parse_add_step states st a"
  have r: "set (sl (Remove ?st)) = set (sl (Remove st)) - {a}" "distinct (sl (Remove ?st))"
    using Cons.prems
    by (auto simp: parse_add_step_def set_slicesWithout_distinct
        distinct_slicesWithout split: option.splits)
  have ad: "set (sl (Add ?st)) = set (sl (Add st)) -
      (if a \<notin> set (sl (Remove st)) \<and> a \<notin> set states then {a} else {})" "distinct (sl (Add ?st))"
    using Cons.prems
    by (auto simp: parse_add_step_def set_slicesWithout_distinct
        distinct_slicesWithout)
  from Cons.prems(1) have d: "distinct adds" "a \<notin> set adds" by auto
  note ih = Cons.IH [of ?st, OF d(1) r(2) ad(2)]
  show ?case using ih r ad d(2) by (auto split: if_splits)
qed simp

lemma parse_state_wf:
  assumes "state_pre states st"
  shows "state_wf states name (fst (parse_state states name st))"
proof -
  define s1 where "s1 = (if slices_Contains (sl (Remove st)) name
    then st\<lparr>Remove := map_option (\<lambda>r. slicesWithout r name) (Remove st)\<rparr> else st)"
  define s2 where "s2 = foldl (parse_add_step states) s1 (sl (Add s1))"
  have d: "distinct (sl (Add st))" "distinct (sl (Remove st))" "distinct (sl (After st))"
    and ar: "set (sl (Add st)) \<inter> set (sl (Remove st)) \<subseteq> set states"
    using assms by (auto simp: state_pre_def)
  have s1: "Add s1 = Add st" "After s1 = After st" "distinct (sl (Remove s1))"
    "set (sl (Remove s1)) = set (sl (Remove st)) - {name}"
    using d by (auto simp: s1_def set_slicesWithout_distinct distinct_slicesWithout
        split: option.splits)
  from parse_add_loop [of "sl (Add s1)" s1 states] d s1 have s2:
    "set (sl (Remove s2)) = set (sl (Remove st)) - {name} - set (sl (Add st))"
    "set (sl (Add s2)) \<subseteq> set states" "set (sl (Add s2)) \<subseteq> set (sl (Add st))"
    "After s2 = After st"
    using ar by (auto simp: s2_def parse_add_step_frame)
  define s3 where "s3 = (if slices_Contains (sl (After s2)) name
    then s2\<lparr>After := map_option (\<lambda>r. slicesWithout r name) (After s2)\<rparr> else s2)"
  have s3: "Add s3 = Add s2" "Remove s3 = Remove s2"
    "set (sl (After s3)) = set (sl (After st)) - {name}"
    using d(3) s2(4) by (auto simp: s3_def set_slicesWithout_distinct)
  have "fst (parse_state states name st) = s3\<lparr>After := map_option (drop_unknown states) (After s3),
      Remove := map_option (drop_unknown states) (map_option (drop_unknown states) (Remove s3))\<rparr>"
    by (simp add: parse_state_def Let_def s1_def s2_def s3_def)
  with s2 s3 show ?thesis by (auto simp: state_wf_def)
qed

lemma gkeys_gput [simp]:
  "gkeys (gput k v m) = (if k \<in> set (gkeys m) then gkeys m else gkeys m @ [k])"
  by (simp add: gkeys_def gput_def update_keys)

lemma gkeys_Cons [simp]: "gkeys (x # xs) = fst x # gkeys xs" "gkeys [] = []"
  by (simp_all add: gkeys_def)

lemma gkeys_Schema_Clone [simp]: "gmap_wf s \<Longrightarrow> gkeys (Schema_Clone s) = gkeys s"
proof -
  have "gkeys (foldl (\<lambda>ret (name, state). gput name (State_Clone state) ret) acc xs)
      = gkeys acc @ gkeys xs"
    if "distinct (gkeys acc @ gkeys xs)" for acc xs :: Schema
    using that
  proof (induction xs arbitrary: acc)
    case (Cons x xs)
    then show ?case using Cons.IH [of "gput (fst x) (snd x) acc"]
      by (cases x) auto
  qed simp
  from this [of "[]" s] show "gmap_wf s \<Longrightarrow> gkeys (Schema_Clone s) = gkeys s"
    by (simp add: Schema_Clone_def gmap_wf_def)
qed

lemma Schema_Parse_loop:
  assumes "distinct (map fst xs)" "set (map fst xs) \<subseteq> set (gkeys acc)"
  shows "gkeys (fst (foldl (\<lambda>(parsed, errs) (name, state).
        (let (state', e) = parse_state states name state in (gput name state' parsed, errs @ e)))
        (acc, es) xs)) = gkeys acc
    \<and> gget (fst (foldl (\<lambda>(parsed, errs) (name, state).
        (let (state', e) = parse_state states name state in (gput name state' parsed, errs @ e)))
        (acc, es) xs)) n
      = (case map_of xs n of Some st \<Rightarrow> Some (fst (parse_state states n st)) | None \<Rightarrow> gget acc n)"
  using assms
proof (induction xs arbitrary: acc es)
  case (Cons x xs)
  obtain k st where x: "x = (k, st)" by (cases x)
  obtain st' e where p: "parse_state states k st = (st', e)" by (cases "parse_state states k st")
  from Cons.prems x have k: "k \<in> set (gkeys acc)" "k \<notin> set (map fst xs)" by auto
  then have "map_of xs k = None" by (simp add: map_of_eq_None_iff)
  with Cons.IH [of "gput k st' acc" "es @ e"] Cons.prems x p k show ?case
    by (auto split: option.splits)
qed simp

lemma Schema_Parse_get:
  assumes "gmap_wf s"
  shows "gkeys (fst (Schema_Parse s)) = gkeys s"
    and "gget (fst (Schema_Parse s)) n
      = map_option (\<lambda>st. fst (parse_state (gkeys s) n st)) (gget s n)"
  using Schema_Parse_loop [of s "Schema_Clone s" "gkeys s" "[]" n] assms
  by (auto simp: Schema_Parse_def Let_def gmap_wf_def gkeys_def [symmetric] gget_def [symmetric]
      split: option.splits)

lemma schema_wf_get: "schema_wf s \<longleftrightarrow> gmap_wf s \<and> (\<forall>n st. gget s n = Some st \<longrightarrow> state_wf (gkeys s) n st)"
  by (auto simp: schema_wf_def list_all_iff gget_def gmap_wf_def gkeys_def)

text \<open>\<open>Parse\<close> establishes the well-formedness the resolver needs.\<close>

lemma Schema_Parse_schema_wf:
  assumes "gmap_wf s" "list_all (\<lambda>(n, st). state_pre (gkeys s) st) s"
  shows "schema_wf (fst (Schema_Parse s))"
proof -
  have k: "gkeys (fst (Schema_Parse s)) = gkeys s" using assms(1) by (rule Schema_Parse_get)
  have "state_wf (gkeys s) n st'" if "gget (fst (Schema_Parse s)) n = Some st'" for n st'
  proof -
    from that assms(1) obtain st where st: "gget s n = Some st"
      "st' = fst (parse_state (gkeys s) n st)" by (auto simp: Schema_Parse_get)
    from st(1) assms have "state_pre (gkeys s) st"
      by (auto simp: list_all_iff gget_def dest: map_of_SomeD)
    then show ?thesis unfolding st(2) by (rule parse_state_wf)
  qed
  then show ?thesis using assms(1) k by (simp add: schema_wf_get gmap_wf_def)
qed

text \<open>The same facts for lookups, where an unknown state has no relations.\<close>

lemma Schema_Get_wf:
  assumes "schema_wf s"
  shows "state_wf (gkeys s) n (Schema_Get s n)"
proof (cases "gget s n")
  case None
  then show ?thesis by (simp add: Schema_Get_def State_zero_def state_wf_def)
next
  case (Some st)
  with assms show ?thesis by (simp add: Schema_Get_def schema_wf_get)
qed

end
