(* ===== verification/Am_Graph.thy ===== *)
theory Am_Graph
  imports Am_Schema
begin

text \<open>
  The directed graph at the end of \<open>src/pkg/machine/relations.go\<close> and its topological sort, with
  which the resolver orders states by their \<open>Require\<close> relation. The set \<open>tempMarked\<close> of the sources
  holds exactly the nodes of the current recursion path: it is set on entry and cleared on exit, and
  an error ends the whole sort. The model passes it down as \<open>path\<close>.
\<close>

type_synonym graph = "(string, string list) gomap"

definition newGraph :: graph where
  "newGraph = []"

definition AddEdge :: "graph \<Rightarrow> string \<Rightarrow> string \<Rightarrow> graph" where
  "AddEdge g src dest = gput src (ggetd [] g src @ [dest]) g"

definition adj :: "graph \<Rightarrow> string \<Rightarrow> string list" where
  "adj g n = ggetd [] g n"

type_synonym topo_state = "string list \<times> string list"

lemma adj_not_key: "n \<notin> set (gkeys g) \<Longrightarrow> adj g n = []"
  by (simp add: adj_def ggetd_gget ghas_gkeys [symmetric] ghas_gget)

text \<open>\<open>visit\<close> is the closure of the sources, \<open>visits\<close> its loop over the neighbours.\<close>

function (sequential)
  visit :: "graph \<Rightarrow> string list \<Rightarrow> string \<Rightarrow> topo_state \<Rightarrow> string + topo_state" and
  visits :: "graph \<Rightarrow> string list \<Rightarrow> string list \<Rightarrow> topo_state \<Rightarrow> string + topo_state" where
  "visit g path node (visited, stack) =
     (if node \<in> set path then Inl node
      else if node \<in> set visited then Inr (visited, stack)
      else (case visits g (node # path) (adj g node) (visited, stack) of
              Inl err \<Rightarrow> Inl err
            | Inr (visited', stack') \<Rightarrow> Inr (node # visited', stack' @ [node])))"
| "visits g path [] st = Inr st"
| "visits g path (node # nodes) st =
     (case visit g path node st of Inl err \<Rightarrow> Inl err | Inr st' \<Rightarrow> visits g path nodes st')"
  by pat_completeness auto

termination
proof (relation "measures [
    \<lambda>x. case x of Inl (g, path, n, st) \<Rightarrow> card (set (gkeys g) - set path)
       | Inr (g, path, ns, st) \<Rightarrow> card (set (gkeys g) - set path),
    \<lambda>x. case x of Inl (g, path, n, st) \<Rightarrow> 1 | Inr (g, path, ns, st) \<Rightarrow> 2 * length ns]", goal_cases)
  case (2 g path node visited stack)
  show ?case
  proof (cases "node \<in> set (gkeys g)")
    case True
    with 2 have "set (gkeys g) - set (node # path) \<subset> set (gkeys g) - set path" by auto
    then have "card (set (gkeys g) - set (node # path)) < card (set (gkeys g) - set path)"
      by (intro psubset_card_mono) auto
    then show ?thesis by simp
  next
    case False
    then have "set (gkeys g) - set (node # path) = set (gkeys g) - set path" by auto
    with False show ?thesis by (simp add: adj_not_key)
  qed
qed auto

text \<open>The loop of \<open>TopologicalSort\<close> over the vertices skips the visited ones.\<close>

fun TopologicalSort_loop :: "graph \<Rightarrow> string list \<Rightarrow> topo_state \<Rightarrow> string + topo_state" where
  "TopologicalSort_loop g [] st = Inr st"
| "TopologicalSort_loop g (node # nodes) st =
     (if node \<notin> set (fst st)
      then (case visit g [] node st of
              Inl err \<Rightarrow> Inl err
            | Inr st' \<Rightarrow> TopologicalSort_loop g nodes st')
      else TopologicalSort_loop g nodes st)"

definition TopologicalSort :: "graph \<Rightarrow> string + string list" where
  "TopologicalSort g =
     (case TopologicalSort_loop g (gkeys g) ([], []) of
        Inl err \<Rightarrow> Inl err
      | Inr (visited, stack) \<Rightarrow> Inr stack)"

section \<open>Correctness\<close>

definition edges :: "graph \<Rightarrow> (string \<times> string) set" where
  "edges g = {(u, v). v \<in> set (adj g u)}"

text \<open>Every node of a list comes after all its neighbours.\<close>

definition topo_ok :: "graph \<Rightarrow> string list \<Rightarrow> bool" where
  "topo_ok g stk \<longleftrightarrow> (\<forall>i < length stk. set (adj g (stk ! i)) \<subseteq> set (take i stk))"

definition topo_inv :: "graph \<Rightarrow> topo_state \<Rightarrow> bool" where
  "topo_inv g st \<longleftrightarrow> set (fst st) = set (snd st) \<and> distinct (snd st) \<and> topo_ok g (snd st)"

lemma topo_ok_snoc: "topo_ok g stk \<Longrightarrow> set (adj g n) \<subseteq> set stk \<Longrightarrow> topo_ok g (stk @ [n])"
  by (auto simp: topo_ok_def nth_append less_Suc_eq)

lemma topo_ok_closed: "topo_ok g stk \<Longrightarrow> u \<in> set stk \<Longrightarrow> v \<in> set (adj g u) \<Longrightarrow> v \<in> set stk"
  unfolding topo_ok_def in_set_conv_nth [of u] by (meson in_set_takeD subsetD)

lemma visit_visits_sound:
  "visit g path n st = Inr st' \<Longrightarrow> topo_inv g st \<Longrightarrow>
     topo_inv g st' \<and> n \<in> set (snd st')
     \<and> (\<exists>ext. snd st' = snd st @ ext \<and> set ext \<inter> set path = {})"
  "visits g path ns st = Inr st' \<Longrightarrow> topo_inv g st \<Longrightarrow>
     topo_inv g st' \<and> set ns \<subseteq> set (snd st')
     \<and> (\<exists>ext. snd st' = snd st @ ext \<and> set ext \<inter> set path = {})"
proof (induction g path n st and g path ns st arbitrary: st' and st' rule: visit_visits.induct)
  case (1 g path node visited stack)
  show ?case
  proof (cases "node \<in> set visited")
    case True
    with "1.prems" show ?thesis by (auto simp: topo_inv_def split: if_splits)
  next
    case False
    from "1.prems"(1) False obtain vis2 stk2 where np: "node \<notin> set path"
      and vs: "visits g (node # path) (adj g node) (visited, stack) = Inr (vis2, stk2)"
      and st': "st' = (node # vis2, stk2 @ [node])"
      by (auto split: if_splits sum.splits)
    from "1.IH" [OF np False vs "1.prems"(2)] obtain ext where
      inv: "topo_inv g (vis2, stk2)" and sub: "set (adj g node) \<subseteq> set stk2"
      and ext: "stk2 = stack @ ext" "set ext \<inter> set (node # path) = {}" by auto
    from "1.prems"(2) False ext have "node \<notin> set stk2" by (auto simp: topo_inv_def)
    moreover have "topo_ok g (stk2 @ [node])"
      using inv sub by (simp add: topo_inv_def topo_ok_snoc)
    ultimately show ?thesis using inv ext np st'
      by (auto simp: topo_inv_def)
  qed
next
  case (3 g path node nodes st)
  from "3.prems"(1) obtain st1 where v: "visit g path node st = Inr st1"
    and vs: "visits g path nodes st1 = Inr st'" by (auto split: sum.splits)
  from "3.IH"(1) [OF v "3.prems"(2)] obtain e1 where a: "topo_inv g st1" "node \<in> set (snd st1)"
    "snd st1 = snd st @ e1" "set e1 \<inter> set path = {}" by auto
  from "3.IH"(2) [OF v vs a(1)] obtain e2 where b: "topo_inv g st'" "set nodes \<subseteq> set (snd st')"
    "snd st' = snd st1 @ e2" "set e2 \<inter> set path = {}" by auto
  from a b show ?case by auto
qed auto

lemma visit_visits_error:
  "visit g path n st = Inl c \<Longrightarrow> (\<And>p. p \<in> set path \<Longrightarrow> (p, n) \<in> (edges g)\<^sup>+) \<Longrightarrow> (c, c) \<in> (edges g)\<^sup>+"
  "visits g path ns st = Inl c \<Longrightarrow> (\<And>p v. p \<in> set path \<Longrightarrow> v \<in> set ns \<Longrightarrow> (p, v) \<in> (edges g)\<^sup>+) \<Longrightarrow>
     (c, c) \<in> (edges g)\<^sup>+"
proof (induction g path n st and g path ns st rule: visit_visits.induct)
  case (1 g path node visited stack)
  show ?case
  proof (cases "node \<in> set path")
    case True
    with "1.prems" show ?thesis by auto
  next
    case np: False
    with "1.prems"(1) have nv: "node \<notin> set visited"
      and vs: "visits g (node # path) (adj g node) (visited, stack) = Inl c"
      by (auto split: if_splits sum.splits)
    have step: "(node, v) \<in> edges g" if "v \<in> set (adj g node)" for v
      using that by (simp add: edges_def)
    show ?thesis
      using "1.IH" [OF np nv vs] step "1.prems"(2)
      by (auto intro: trancl_into_trancl)
  qed
next
  case (3 g path node nodes st)
  then show ?case by (auto split: sum.splits)
qed auto

lemma TopologicalSort_loop_sound:
  "TopologicalSort_loop g ns st = Inr st' \<Longrightarrow> topo_inv g st \<Longrightarrow>
     topo_inv g st' \<and> set (snd st) \<subseteq> set (snd st') \<and> set ns \<subseteq> set (snd st')"
proof (induction g ns st rule: TopologicalSort_loop.induct)
  case (2 g node nodes st)
  show ?case
  proof (cases "node \<in> set (fst st)")
    case True
    with 2 show ?thesis by (auto simp: topo_inv_def)
  next
    case False
    with "2.prems"(1) obtain st1 where v: "visit g [] node st = Inr st1"
      and l: "TopologicalSort_loop g nodes st1 = Inr st'" by (auto split: sum.splits)
    from visit_visits_sound(1) [OF v "2.prems"(2)] have a: "topo_inv g st1"
      "node \<in> set (snd st1)" "set (snd st) \<subseteq> set (snd st1)" by auto
    from "2.IH"(1) [OF False v l a(1)] a show ?thesis by auto
  qed
qed auto

lemma TopologicalSort_loop_error:
  "TopologicalSort_loop g ns st = Inl c \<Longrightarrow> (c, c) \<in> (edges g)\<^sup>+"
proof (induction g ns st rule: TopologicalSort_loop.induct)
  case (2 g node nodes st)
  then show ?case by (auto split: sum.splits if_splits dest: visit_visits_error(1))
qed auto

lemma topo_ok_acyclic:
  assumes "topo_ok g stk" "set (gkeys g) \<subseteq> set stk" "distinct stk"
  shows "acyclic (edges g)"
proof -
  define pos where "pos u = nat (slices_Index stk u)" for u
  have "(u, v) \<in> edges g \<Longrightarrow> pos v < pos u" for u v
  proof -
    assume e: "(u, v) \<in> edges g"
    then have "u \<in> set stk" using assms(2) adj_not_key [of u g]
      by (cases "u \<in> set (gkeys g)") (auto simp: edges_def)
    then have u: "pos u < length stk" "stk ! pos u = u"
      using slices_Index_bounds [of u stk] by (auto simp: pos_def)
    from assms(1) u(1) have "set (adj g (stk ! pos u)) \<subseteq> set (take (pos u) stk)"
      by (simp add: topo_ok_def)
    with e u(2) have "v \<in> set (take (pos u) stk)" by (auto simp: edges_def)
    then obtain k where k: "k < pos u" "stk ! k = v" using u(1) by (auto simp: in_set_conv_nth)
    have "slices_Index stk v = int k"
      using slices_Index_nth [OF assms(3), of k] k u(1) by simp
    with k show ?thesis by (simp add: pos_def)
  qed
  then have "converse (edges g) \<subseteq> inv_image less_than pos" by auto
  then have "wf (converse (edges g))" using wf_subset [OF wf_inv_image [OF wf_less_than]] by blast
  then show ?thesis using wf_acyclic acyclic_converse by blast
qed

lemma TopologicalSort_Inr:
  assumes "TopologicalSort g = Inr stk"
  shows "topo_ok g stk" "distinct stk" "set (gkeys g) \<subseteq> set stk"
proof -
  from assms obtain vis where l: "TopologicalSort_loop g (gkeys g) ([], []) = Inr (vis, stk)"
    by (auto simp: TopologicalSort_def split: sum.splits)
  have "topo_inv g ([], [])" by (simp add: topo_inv_def topo_ok_def)
  from TopologicalSort_loop_sound [OF l this]
  show "topo_ok g stk" "distinct stk" "set (gkeys g) \<subseteq> set stk" by (auto simp: topo_inv_def)
qed

lemma TopologicalSort_Inl: "TopologicalSort g = Inl c \<Longrightarrow> (c, c) \<in> (edges g)\<^sup>+"
  by (auto simp: TopologicalSort_def split: sum.splits dest: TopologicalSort_loop_error)

lemma TopologicalSort_Inr_acyclic: "TopologicalSort g = Inr stk \<Longrightarrow> acyclic (edges g)"
  using TopologicalSort_Inr topo_ok_acyclic by blast

lemma TopologicalSort_acyclic_Inr: "acyclic (edges g) \<Longrightarrow> \<exists>stk. TopologicalSort g = Inr stk"
  by (cases "TopologicalSort g") (auto simp: acyclic_def dest: TopologicalSort_Inl)

end
