(* ===== verification/Am_Sort.thy ===== *)
theory Am_Sort
  imports Am_Prelude "HOL-Library.Multiset"
begin

text \<open>
  \<open>sort.SliceStable\<close> of Go's standard library, which the resolver calls with comparators that need
  not be orders: insertion sort on blocks of 20 elements, then rounds of in-place \<open>SymMerge\<close>. The
  comparator of the sources reads \<open>states[i]\<close> and \<open>states[j]\<close>, so it is a relation on elements.
\<close>

section \<open>Insertion sort\<close>

text \<open>The element moves left while it is less than its left neighbour; the sorted prefix is kept
  reversed.\<close>

fun insert_left :: "('a \<Rightarrow> 'a \<Rightarrow> bool) \<Rightarrow> 'a \<Rightarrow> 'a list \<Rightarrow> 'a list" where
  "insert_left lt x [] = [x]"
| "insert_left lt x (y # ys) = (if lt x y then y # insert_left lt x ys else x # y # ys)"

definition insertionSort :: "('a \<Rightarrow> 'a \<Rightarrow> bool) \<Rightarrow> 'a list \<Rightarrow> 'a list" where
  "insertionSort lt xs = rev (foldl (\<lambda>acc x. insert_left lt x acc) [] xs)"

section \<open>SymMerge\<close>

definition segment :: "'a list \<Rightarrow> nat \<Rightarrow> nat \<Rightarrow> 'a list" where
  "segment xs a b = take (b - a) (drop a xs)"

text \<open>\<open>rotate(data, a, m, b)\<close> exchanges the blocks \<open>[a, m)\<close> and \<open>[m, b)\<close>.\<close>

definition rotate_blocks :: "'a list \<Rightarrow> nat \<Rightarrow> nat \<Rightarrow> nat \<Rightarrow> 'a list" where
  "rotate_blocks xs a m b =
     (if a \<le> m \<and> m \<le> b then take a xs @ segment xs m b @ segment xs a m @ drop b xs else xs)"

text \<open>The three binary searches: the smallest index in \<open>[i, j)\<close> at which the test fails.\<close>

function bsearch :: "(nat \<Rightarrow> bool) \<Rightarrow> nat \<Rightarrow> nat \<Rightarrow> nat" where
  "bsearch test i jj =
     (if i < jj then (let h = (i + jj) div 2 in
        if test h then bsearch test (h + 1) jj else bsearch test i h)
      else i)"
  by pat_completeness auto
termination
  by (relation "measure (\<lambda>(test, i, jj). jj - i)") auto

declare bsearch.simps [simp del]

text \<open>The search for the symmetric split point around the middle of \<open>[a, b)\<close>.\<close>

definition sym_start :: "('a \<Rightarrow> 'a \<Rightarrow> bool) \<Rightarrow> 'a list \<Rightarrow> nat \<Rightarrow> nat \<Rightarrow> nat \<Rightarrow> nat" where
  "sym_start lt xs a m b =
     (let mid = (a + b) div 2; n = mid + m; p = n - 1; test = (\<lambda>c. \<not> lt (xs ! (p - c)) (xs ! c)) in
      if m > mid then bsearch test (n - b) mid else bsearch test a m)"

definition sym_rotate :: "('a \<Rightarrow> 'a \<Rightarrow> bool) \<Rightarrow> 'a list \<Rightarrow> nat \<Rightarrow> nat \<Rightarrow> nat \<Rightarrow> 'a list" where
  "sym_rotate lt xs a m b =
     (let start = sym_start lt xs a m b; stop = (a + b) div 2 + m - start in
      if start < m \<and> m < stop then rotate_blocks xs start m stop else xs)"

lemma half_less: "(a + b) div 2 < s \<Longrightarrow> s < b \<Longrightarrow> b - (a + b) div 2 < b - a" for a b s :: nat
  by linarith

function symMerge :: "('a \<Rightarrow> 'a \<Rightarrow> bool) \<Rightarrow> 'a list \<Rightarrow> nat \<Rightarrow> nat \<Rightarrow> nat \<Rightarrow> 'a list" where
  "symMerge lt xs a m b =
     (if m - a = 1 then
        (let i = bsearch (\<lambda>h. lt (xs ! h) (xs ! a)) m b in rotate_blocks xs a (a + 1) i)
      else if b - m = 1 then
        (let i = bsearch (\<lambda>h. \<not> lt (xs ! m) (xs ! h)) a m in rotate_blocks xs i m (m + 1))
      else
        (let mid = (a + b) div 2; start = sym_start lt xs a m b; stop = mid + m - start;
             ys = sym_rotate lt xs a m b;
             zs = (if a < start \<and> start < mid then symMerge lt ys a start mid else ys)
         in if mid < stop \<and> stop < b then symMerge lt zs mid stop b else zs))"
  by pat_completeness auto
termination
proof (relation "measure (\<lambda>(lt, xs, a, m, b). b - a)", goal_cases)
  case (3 lt xs a m b mid start stop ys zs)
  from 3(3) have mid: "mid = (a + b) div 2" .
  from 3 have "mid < stop" "stop < b" by blast+
  then show ?case unfolding mid in_measure prod.case by (rule half_less)
qed auto

declare symMerge.simps [simp del]

section \<open>SliceStable\<close>

text \<open>The blocks of length \<open>k\<close>, the last one possibly shorter, sorted one by one.\<close>

function sort_blocks :: "('a \<Rightarrow> 'a \<Rightarrow> bool) \<Rightarrow> nat \<Rightarrow> 'a list \<Rightarrow> 'a list" where
  "sort_blocks lt k xs =
     (if k = 0 \<or> length xs < k then insertionSort lt xs
      else insertionSort lt (take k xs) @ sort_blocks lt k (drop k xs))"
  by pat_completeness auto
termination
  by (relation "measure (\<lambda>(lt, k, xs). length xs)") auto

declare sort_blocks.simps [simp del]

text \<open>One round of merges of neighbouring blocks of length \<open>k\<close>, from position \<open>a\<close> on.\<close>

function merge_round :: "('a \<Rightarrow> 'a \<Rightarrow> bool) \<Rightarrow> nat \<Rightarrow> nat \<Rightarrow> nat \<Rightarrow> 'a list \<Rightarrow> 'a list" where
  "merge_round lt n k a xs =
     (if 0 < k \<and> a + 2 * k \<le> n
      then merge_round lt n k (a + 2 * k) (symMerge lt xs a (a + k) (a + 2 * k))
      else if a + k < n then symMerge lt xs a (a + k) n else xs)"
  by pat_completeness auto
termination
  by (relation "measure (\<lambda>(lt, n, k, a, xs). n - a)") auto

declare merge_round.simps [simp del]

function merge_rounds :: "('a \<Rightarrow> 'a \<Rightarrow> bool) \<Rightarrow> nat \<Rightarrow> nat \<Rightarrow> 'a list \<Rightarrow> 'a list" where
  "merge_rounds lt n k xs =
     (if 0 < k \<and> k < n then merge_rounds lt n (2 * k) (merge_round lt n k 0 xs) else xs)"
  by pat_completeness auto
termination
  by (relation "measure (\<lambda>(lt, n, k, xs). n - k)") auto

declare merge_rounds.simps [simp del]

definition SliceStable :: "('a \<Rightarrow> 'a \<Rightarrow> bool) \<Rightarrow> 'a list \<Rightarrow> 'a list" where
  "SliceStable lt xs = merge_rounds lt (length xs) 20 (sort_blocks lt 20 xs)"

section \<open>It permutes its input, whatever the comparator\<close>

lemma mset_insert_left [simp]: "mset (insert_left lt x ys) = add_mset x (mset ys)"
  by (induction ys) auto

lemma mset_insertionSort [simp]: "mset (insertionSort lt xs) = mset xs"
proof -
  have "mset (foldl (\<lambda>acc x. insert_left lt x acc) acc xs) = mset acc + mset xs" for acc
    by (induction xs arbitrary: acc) auto
  then show ?thesis by (simp add: insertionSort_def)
qed

lemma mset_rotate_blocks [simp]: "mset (rotate_blocks xs a m b) = mset xs"
proof (cases "a \<le> m \<and> m \<le> b")
  case True
  have "xs = take a xs @ segment xs a m @ segment xs m b @ drop b xs"
    using True unfolding segment_def
    by (metis append_take_drop_id drop_drop le_add_diff_inverse2)
  then have "mset xs = mset (take a xs) + mset (segment xs a m) + mset (segment xs m b)
      + mset (drop b xs)"
    by (metis mset_append add.assoc)
  with True show ?thesis by (simp add: rotate_blocks_def)
qed (auto simp: rotate_blocks_def)

lemma mset_sym_rotate [simp]: "mset (sym_rotate lt xs a m b) = mset xs"
  by (simp add: sym_rotate_def Let_def)

lemma mset_symMerge [simp]: "mset (symMerge lt xs a m b) = mset xs"
proof (induction lt xs a m b rule: symMerge.induct)
  case (1 lt xs a m b)
  define mid start stop where "mid = (a + b) div 2" and "start = sym_start lt xs a m b"
    and "stop = mid + m - start"
  define ys where "ys = sym_rotate lt xs a m b"
  define zs where "zs = (if a < start \<and> start < mid then symMerge lt ys a start mid else ys)"
  show ?case
  proof (cases "m - a = 1 \<or> b - m = 1")
    case True
    then show ?thesis by (subst symMerge.simps) (auto simp: Let_def)
  next
    case False
    note ih = 1 [OF _ _ mid_def start_def stop_def ys_def]
    have zs: "mset zs = mset xs" using False ih(1) by (simp add: zs_def ys_def)
    have "symMerge lt xs a m b = (if mid < stop \<and> stop < b then symMerge lt zs mid stop b else zs)"
      using False by (subst symMerge.simps)
        (simp add: Let_def mid_def start_def stop_def ys_def zs_def)
    then show ?thesis using False ih(2) [OF _ _ zs_def] zs by simp
  qed
qed

lemma mset_sort_blocks [simp]: "mset (sort_blocks lt k xs) = mset xs"
proof (induction lt k xs rule: sort_blocks.induct)
  case (1 lt k xs)
  show ?case
  proof (cases "k = 0 \<or> length xs < k")
    case False
    have "mset (sort_blocks lt k xs) = mset (take k xs) + mset (drop k xs)"
      by (subst sort_blocks.simps) (use False 1 in simp)
    then show ?thesis by (metis append_take_drop_id mset_append)
  qed (subst sort_blocks.simps, simp)
qed

lemma mset_merge_round [simp]: "mset (merge_round lt n k a xs) = mset xs"
proof (induction lt n k a xs rule: merge_round.induct)
  case (1 lt n k a xs)
  show ?case by (subst merge_round.simps) (use 1 in simp)
qed

lemma mset_merge_rounds [simp]: "mset (merge_rounds lt n k xs) = mset xs"
proof (induction lt n k xs rule: merge_rounds.induct)
  case (1 lt n k xs)
  show ?case by (subst merge_rounds.simps) (use 1 in simp)
qed

lemma mset_SliceStable [simp]: "mset (SliceStable lt xs) = mset xs"
  by (simp add: SliceStable_def)

lemma set_SliceStable [simp]: "set (SliceStable lt xs) = set xs"
  by (rule mset_eq_setD) simp

lemma length_SliceStable [simp]: "length (SliceStable lt xs) = length xs"
  by (rule mset_eq_length) simp

lemma distinct_SliceStable [simp]: "distinct (SliceStable lt xs) = distinct xs"
  using mset_SliceStable [of lt xs] mset_eq_imp_distinct_iff by blast

section \<open>Up to 20 elements it is insertion sort\<close>

lemma SliceStable_short: "length xs \<le> 20 \<Longrightarrow> SliceStable lt xs = insertionSort lt xs"
  by (auto simp: SliceStable_def merge_rounds.simps sort_blocks.simps [of lt 20 xs]
      sort_blocks.simps [of lt 20 "[]"] insertionSort_def)

text \<open>Neighbours are never left the wrong way round, if the comparator is asymmetric.\<close>

lemma insert_left_adjacent:
  assumes "\<And>x y. lt x y \<Longrightarrow> \<not> lt y x"
  shows "successively (\<lambda>y x. \<not> lt y x) ys \<Longrightarrow> successively (\<lambda>y x. \<not> lt y x) (insert_left lt x ys)"
proof (induction ys)
  case (Cons y ys)
  then show ?case using assms
    by (cases ys) (auto simp: successively_Cons split: if_splits)
qed simp

lemma insertionSort_adjacent:
  assumes "\<And>x y. lt x y \<Longrightarrow> \<not> lt y x"
  shows "successively (\<lambda>x y. \<not> lt y x) (insertionSort lt xs)"
proof -
  have "successively (\<lambda>y x. \<not> lt y x) acc \<Longrightarrow>
      successively (\<lambda>y x. \<not> lt y x) (foldl (\<lambda>acc x. insert_left lt x acc) acc xs)" for acc
    by (induction xs arbitrary: acc) (auto simp: insert_left_adjacent [OF assms])
  then show ?thesis by (simp add: insertionSort_def)
qed

text \<open>A comparator that compares keys sorts by them.\<close>

lemma SliceStable_sorted_key:
  fixes key :: "'a \<Rightarrow> int"
  assumes "length xs \<le> 20"
  shows "sorted (map key (SliceStable (\<lambda>x y. key x < key y) xs))"
proof -
  have "successively (\<lambda>x y. \<not> key y < key x) (insertionSort (\<lambda>x y. key x < key y) xs)"
    by (rule insertionSort_adjacent) auto
  then have "successively (\<le>) (map key (insertionSort (\<lambda>x y. key x < key y) xs))"
    by (simp add: successively_map not_less)
  then show ?thesis using assms
    by (simp add: SliceStable_short successively_conv_sorted_wrt)
qed

end
