(* ===== verification/Am_Resolver.thy ===== *)
theory Am_Resolver
  imports Am_Graph Am_Sort
begin

text \<open>
  The relation resolver, \<open>src/pkg/machine/relations.go\<close>: from the states a mutation asks for it
  computes the target states of the transition. The record \<open>Resolver\<close> holds the fields of
  \<open>DefaultRelationsResolver\<close> and what it reads through its pointers \<open>Machine\<close> and \<open>Transition\<close>: the
  disposal flag, the schema, the registered names, and the type and the called indexes of the
  mutation. Log entries and transition steps are left out: they are off by default and nothing
  reads them back.
\<close>

record Resolver =
  rr_disposing :: bool
  rr_schema :: Schema
  rr_names :: S
  rr_Index :: S
  rr_topology :: S
  rr_statesBefore :: S
  rr_type :: MutationType
  rr_called :: "int list"

section \<open>NewSchema\<close>

definition require_graph :: "Schema \<Rightarrow> S \<Rightarrow> graph" where
  "require_graph schema states =
     foldl (\<lambda>g name. foldl (\<lambda>g req. AddEdge g name req) g (sl (Require (Schema_Get schema name))))
       newGraph states"

definition NewSchema :: "Resolver \<Rightarrow> S \<Rightarrow> Resolver" where
  "NewSchema rr states =
     (let rr1 = rr\<lparr>rr_Index := states\<rparr> in
      case TopologicalSort (require_graph (rr_schema rr1) (rr_Index rr1)) of
        Inl err \<Rightarrow> rr1
      | Inr topo \<Rightarrow> rr1\<lparr>rr_topology := topo\<rparr>)"

section \<open>Parsing of the called states\<close>

text \<open>\<open>Machine.mustParseStates\<close>: nothing while disposing, a panic on an unknown state, otherwise the
  list without repetitions.\<close>

definition mustParseStates :: "bool \<Rightarrow> Schema \<Rightarrow> S \<Rightarrow> S res" where
  "mustParseStates disposing schema states =
     (if disposing then Inr []
      else if list_ex (\<lambda>s. \<not> ghas schema s) states
      then Inl (GoPanic ''state missing'')
      else if \<not> distinct states then Inr (slicesUniq states) else Inr states)"

section \<open>Add\<close>

text \<open>The states \<open>name\<close> implies, less those a \<open>remove\<close> mutation is called for.\<close>

definition add_states :: "Resolver \<Rightarrow> string \<Rightarrow> S" where
  "add_states rr name =
     filter (\<lambda>add. \<not> (rr_type rr = MutationRemove
                       \<and> slices_Contains (rr_called rr) (slices_Index (rr_Index rr) add)))
       (sl (Add (Schema_Get (rr_schema rr) name)))"

text \<open>One pass over \<open>states\<close>; the state is \<open>(ret, visited, changed)\<close>.\<close>

fun parseAdd_pass :: "Resolver \<Rightarrow> S \<Rightarrow> S \<times> S \<times> bool \<Rightarrow> S \<times> S \<times> bool" where
  "parseAdd_pass rr [] st = st"
| "parseAdd_pass rr (name # names) (ret, visited, changed) =
     (if slices_Contains (rr_statesBefore rr) name \<and> \<not> Multi (Schema_Get (rr_schema rr) name)
      then parseAdd_pass rr names (ret, visited, changed)
      else if slices_Contains visited name
      then parseAdd_pass rr names (ret, visited, changed)
      else if add_states rr name = []
      then parseAdd_pass rr names (ret, visited, changed)
      else parseAdd_pass rr names (ret @ add_states rr name, visited @ [name], True))"

lemma parseAdd_pass_visited:
  "parseAdd_pass rr names (ret, visited, changed) = (ret', visited', changed') \<Longrightarrow>
     set visited \<subseteq> set visited' \<and> set visited' \<subseteq> set visited \<union> set names
     \<and> (changed' \<and> \<not> changed \<longrightarrow> set visited \<subset> set visited')"
proof (induction rr names "(ret, visited, changed)" arbitrary: ret visited changed
    rule: parseAdd_pass.induct)
  case (2 rr name names ret visited changed)
  show ?case
  proof (cases "(slices_Contains (rr_statesBefore rr) name
      \<and> \<not> Multi (Schema_Get (rr_schema rr) name)) \<or> slices_Contains visited name
      \<or> add_states rr name = []")
    case True
    with 2 show ?thesis by (auto split: if_splits)
  next
    case False
    with "2.prems" have "parseAdd_pass rr names
        (ret @ add_states rr name, visited @ [name], True) = (ret', visited', changed')"
      by auto
    with "2.hyps"(4) False show ?thesis by auto
  qed
qed auto

lemma parseAdd_pass_progress:
  assumes "parseAdd_pass rr states (ret, visited, False) = (ret', visited', True)"
  shows "card (set states - set visited') < card (set states - set visited)"
proof (rule psubset_card_mono)
  show "set states - set visited' \<subset> set states - set visited"
    using parseAdd_pass_visited [OF assms] by auto
qed simp

function parseAdd_loop :: "Resolver \<Rightarrow> S \<Rightarrow> S \<Rightarrow> S \<Rightarrow> S" where
  "parseAdd_loop rr states ret visited =
     (case parseAdd_pass rr states (ret, visited, False) of (ret', visited', changed) \<Rightarrow>
        if changed then parseAdd_loop rr states ret' visited' else ret')"
  by pat_completeness auto
termination
  by (relation "measure (\<lambda>(rr, states, ret, visited). card (set states - set visited))")
     (auto intro!: parseAdd_pass_progress simp: eq_commute)

declare parseAdd_loop.simps [simp del]

definition parseAdd :: "Resolver \<Rightarrow> S \<Rightarrow> S" where
  "parseAdd rr states = parseAdd_loop rr states states []"

section \<open>Require\<close>

definition getMissingRequires :: "Resolver \<Rightarrow> State \<Rightarrow> S \<Rightarrow> S" where
  "getMissingRequires rr state targetStates =
     filter (\<lambda>req. \<not> slices_Contains targetStates req) (sl (Require state))"

definition require_pass :: "Resolver \<Rightarrow> S \<Rightarrow> S" where
  "require_pass rr targetStates =
     slicesFilter targetStates (\<lambda>name _.
       length (getMissingRequires rr (Schema_Get (rr_schema rr) name) targetStates) = 0)"

lemma require_pass_filter:
  "require_pass rr ts =
     filter (\<lambda>name. set (sl (Require (Schema_Get (rr_schema rr) name))) \<subseteq> set ts) ts"
  unfolding require_pass_def
  by (subst slicesFilter_filter) (auto simp: getMissingRequires_def filter_empty_conv
      intro!: filter_cong)

text \<open>The loop ends when a pass no longer shortens the list.\<close>

function parseRequire_loop :: "Resolver \<Rightarrow> nat \<Rightarrow> S \<Rightarrow> S" where
  "parseRequire_loop rr lengthBefore targetStates =
     (if lengthBefore \<noteq> length targetStates
      then parseRequire_loop rr (length targetStates) (require_pass rr targetStates)
      else targetStates)"
  by pat_completeness auto
termination
proof (relation "measure (\<lambda>(rr, n, ts). 2 * length ts + (if n \<noteq> length ts then 1 else 0))", goal_cases)
  case (2 rr n ts)
  have "length (require_pass rr ts) \<le> length ts" by (simp add: require_pass_filter)
  with 2 show ?case by auto
qed simp

declare parseRequire_loop.simps [simp del]

definition parseRequire :: "Resolver \<Rightarrow> S \<Rightarrow> S" where
  "parseRequire rr targetStates = parseRequire_loop rr 0 targetStates"

section \<open>Remove\<close>

definition stateBlockedBy :: "Resolver \<Rightarrow> S \<Rightarrow> string \<Rightarrow> S" where
  "stateBlockedBy rr blockingStates blocked =
     filter (\<lambda>blocking. slices_Contains (sl (Remove (Schema_Get (rr_schema rr) blocking))) blocked)
       blockingStates"

text \<open>The filter over the reversed list, threading the set \<open>alreadyBlocked\<close>.\<close>

fun filterBlocked :: "Resolver \<Rightarrow> S \<Rightarrow> S \<Rightarrow> S \<Rightarrow> S" where
  "filterBlocked rr statesToSet alreadyBlocked [] = []"
| "filterBlocked rr statesToSet alreadyBlocked (name # names) =
     (let blockedBy = filter (\<lambda>blocker. blocker \<notin> set alreadyBlocked)
                        (stateBlockedBy rr statesToSet name)
      in if length blockedBy = 0
         then name # filterBlocked rr statesToSet alreadyBlocked names
         else filterBlocked rr statesToSet (name # alreadyBlocked) names)"

definition toRemove :: "Resolver \<Rightarrow> S \<Rightarrow> S" where
  "toRemove rr resolvedS = concat (map (\<lambda>name. sl (Remove (Schema_Get (rr_schema rr) name))) resolvedS)"

section \<open>Sorting\<close>

definition sortRequire :: "Resolver \<Rightarrow> S \<Rightarrow> S" where
  "sortRequire rr states =
     SliceStable (\<lambda>a b. slices_Index (rr_topology rr) a < slices_Index (rr_topology rr) b) states"

definition after_less :: "Schema \<Rightarrow> string \<Rightarrow> string \<Rightarrow> bool" where
  "after_less schema name1 name2 =
     (if slices_Contains (sl (After (Schema_Get schema name1))) name2 then False
      else if slices_Contains (sl (After (Schema_Get schema name2))) name1 then True
      else False)"

definition SortStates :: "Resolver \<Rightarrow> S \<Rightarrow> S" where
  "SortStates rr states = SliceStable (after_less (rr_schema rr)) (sortRequire rr states)"

section \<open>TargetStates\<close>

text \<open>The two halves of \<open>TargetStates\<close>: the called and active states with what they imply, less
  the blocked ones; then what those imply, less what they remove.\<close>

definition statesToSet_phase :: "Resolver \<Rightarrow> S \<Rightarrow> S" where
  "statesToSet_phase rr parsed = parseRequire rr (slicesUniq (parseAdd rr parsed))"

definition resolved_phase :: "Resolver \<Rightarrow> S \<Rightarrow> S" where
  "resolved_phase rr statesToSet = filterBlocked rr statesToSet [] (slicesReverse statesToSet)"

definition target_phase :: "Resolver \<Rightarrow> S \<Rightarrow> S" where
  "target_phase rr resolvedS =
     parseRequire rr (slicesReverse (slicesUniq (slicesFilter (parseAdd rr resolvedS)
       (\<lambda>name _. \<not> slices_Contains (toRemove rr resolvedS) name))))"

definition TargetStates :: "Resolver \<Rightarrow> S \<Rightarrow> S res" where
  "TargetStates rr statesToSet =
     (case mustParseStates (rr_disposing rr) (rr_schema rr) statesToSet of
        Inl fault \<Rightarrow> Inl fault
      | Inr parsed \<Rightarrow>
          Inr (SortStates rr (target_phase rr (resolved_phase rr (statesToSet_phase rr parsed)))))"

section \<open>NewAutoMutation\<close>

text \<open>The states of the auto mutation: inactive \<open>Auto\<close> states no active state removes. \<open>Machine.is\<close>
  is false for every state while the machine is disposing.\<close>

definition auto_isBlocked :: "Schema \<Rightarrow> S \<Rightarrow> string \<Rightarrow> bool" where
  "auto_isBlocked schema activeStates s =
     list_ex (\<lambda>active. slices_Contains (sl (Remove (Schema_Get schema active))) s) activeStates"

definition auto_toAdd :: "bool \<Rightarrow> Schema \<Rightarrow> S \<Rightarrow> S \<Rightarrow> S" where
  "auto_toAdd disposing schema names activeStates =
     filter (\<lambda>s. Auto (Schema_Get schema s)
                 \<and> \<not> (\<not> disposing \<and> slices_Contains names s \<and> slices_Contains activeStates s)
                 \<and> \<not> auto_isBlocked schema activeStates s) (gkeys schema)"

section \<open>Queries on relations\<close>

datatype rel_error = ErrStateUnknown string

definition rr_Has1 :: "Resolver \<Rightarrow> string \<Rightarrow> bool" where
  "rr_Has1 rr state = (\<not> rr_disposing rr \<and> slicesEvery (rr_names rr) [state])"

definition rel_if :: "S option \<Rightarrow> string \<Rightarrow> Relation \<Rightarrow> Relation list" where
  "rel_if rels toState r = (if rels \<noteq> None \<and> slices_Contains (sl rels) toState then [r] else [])"

definition RelationsBetween :: "Resolver \<Rightarrow> string \<Rightarrow> string \<Rightarrow> rel_error + Relation list" where
  "RelationsBetween rr fromState toState =
     (if \<not> rr_Has1 rr fromState then Inl (ErrStateUnknown fromState)
      else if \<not> rr_Has1 rr toState then Inl (ErrStateUnknown toState)
      else let state = Schema_Get (rr_schema rr) fromState in
        Inr (rel_if (Add state) toState RelationAdd @ rel_if (Require state) toState RelationRequire
             @ rel_if (Remove state) toState RelationRemove @ rel_if (After state) toState RelationAfter))"

definition rel_set :: "S option \<Rightarrow> Relation \<Rightarrow> Relation list" where
  "rel_set rels r = (if rels \<noteq> None then [r] else [])"

definition RelationsOf :: "Resolver \<Rightarrow> string \<Rightarrow> rel_error + Relation list" where
  "RelationsOf rr fromState =
     (if \<not> rr_Has1 rr fromState then Inl (ErrStateUnknown fromState)
      else let state = Schema_Get (rr_schema rr) fromState in
        Inr (rel_set (Add state) RelationAdd @ rel_set (Require state) RelationRequire
             @ rel_set (Remove state) RelationRemove @ rel_set (After state) RelationAfter))"

definition InboundRelationsOf :: "Resolver \<Rightarrow> string \<Rightarrow> rel_error + S" where
  "InboundRelationsOf rr toState =
     (if \<not> rr_Has1 rr toState then Inl (ErrStateUnknown toState)
      else Inr (concat (map (\<lambda>(name, state).
        if name = toState then []
        else (if slices_Contains (sl (Add state)) toState then [name] else [])
             @ (if slices_Contains (sl (Require state)) toState then [name] else [])
             @ (if slices_Contains (sl (Remove state)) toState then [name] else [])
             @ (if slices_Contains (sl (After state)) toState then [name] else []))
        (rr_schema rr))))"

section \<open>Facts about Add\<close>

abbreviation Require_of :: "Resolver \<Rightarrow> string \<Rightarrow> string set" where
  "Require_of rr s \<equiv> set (sl (Require (Schema_Get (rr_schema rr) s)))"

abbreviation Remove_of :: "Resolver \<Rightarrow> string \<Rightarrow> string set" where
  "Remove_of rr s \<equiv> set (sl (Remove (Schema_Get (rr_schema rr) s)))"

abbreviation Add_of :: "Resolver \<Rightarrow> string \<Rightarrow> string set" where
  "Add_of rr s \<equiv> set (sl (Add (Schema_Get (rr_schema rr) s)))"

text \<open>The states whose \<open>Add\<close> relation a transition follows: new ones and multi states.\<close>

definition follows_add :: "Resolver \<Rightarrow> string \<Rightarrow> bool" where
  "follows_add rr name =
     (\<not> (slices_Contains (rr_statesBefore rr) name \<and> \<not> Multi (Schema_Get (rr_schema rr) name)))"

definition implied :: "Resolver \<Rightarrow> string set \<Rightarrow> string set" where
  "implied rr X = (\<Union>n \<in> {n \<in> X. follows_add rr n}. set (add_states rr n))"

lemma implied_Un: "implied rr (insert n X) =
    (if follows_add rr n then set (add_states rr n) else {}) \<union> implied rr X"
  by (auto simp: implied_def)

lemma add_states_subset: "set (add_states rr n) \<subseteq> Add_of rr n"
  by (auto simp: add_states_def)

lemma parseAdd_pass_inv:
  "parseAdd_pass rr names (ret, visited, changed) = (ret', visited', changed') \<Longrightarrow>
     (\<exists>ext. ret' = ret @ ext \<and> set ext \<subseteq> implied rr (set names))
     \<and> (\<forall>n \<in> set visited'. n \<in> set visited \<or> set (add_states rr n) \<subseteq> set ret')
     \<and> (\<forall>n \<in> set names. follows_add rr n \<longrightarrow> add_states rr n = [] \<or> n \<in> set visited')"
proof (induction rr names "(ret, visited, changed)" arbitrary: ret visited changed
    rule: parseAdd_pass.induct)
  case (2 rr name names ret visited changed)
  show ?case
  proof (cases "\<not> follows_add rr name \<or> slices_Contains visited name \<or> add_states rr name = []")
    case True
    with "2.prems" have p: "parseAdd_pass rr names (ret, visited, changed) = (ret', visited', changed')"
      by (auto simp: follows_add_def split: if_splits)
    with True 2 have "(\<exists>ext. ret' = ret @ ext \<and> set ext \<subseteq> implied rr (set names))
     \<and> (\<forall>n \<in> set visited'. n \<in> set visited \<or> set (add_states rr n) \<subseteq> set ret')
     \<and> (\<forall>n \<in> set names. follows_add rr n \<longrightarrow> add_states rr n = [] \<or> n \<in> set visited')"
      by (auto simp: follows_add_def)
    then show ?thesis using True parseAdd_pass_visited [OF p] by (auto simp: implied_Un)
  next
    case False
    with "2.prems" have p: "parseAdd_pass rr names
        (ret @ add_states rr name, visited @ [name], True) = (ret', visited', changed')"
      by (auto simp: follows_add_def)
    have ih: "(\<exists>ext. ret' = (ret @ add_states rr name) @ ext \<and> set ext \<subseteq> implied rr (set names))
     \<and> (\<forall>n \<in> set visited'. n \<in> set (visited @ [name]) \<or> set (add_states rr n) \<subseteq> set ret')
     \<and> (\<forall>n \<in> set names. follows_add rr n \<longrightarrow> add_states rr n = [] \<or> n \<in> set visited')"
      using "2.hyps"(4) False p by (auto simp: follows_add_def)
    then show ?thesis using False parseAdd_pass_visited [OF p]
      by (auto simp: implied_Un)
  qed
qed auto

lemma parseAdd_loop_inv:
  assumes "ret = states @ ext" "set ext \<subseteq> implied rr (set states)"
    and "\<forall>n \<in> set visited. set (add_states rr n) \<subseteq> set ret"
  shows "\<exists>ext'. parseAdd_loop rr states ret visited = states @ ext'
           \<and> set states \<union> set ext' = set states \<union> implied rr (set states)"
  using assms
proof (induction rr states ret visited arbitrary: ext rule: parseAdd_loop.induct)
  case (1 rr states ret visited)
  obtain ret' visited' changed where
    p: "parseAdd_pass rr states (ret, visited, False) = (ret', visited', changed)"
    using prod_cases3 by blast
  note inv = parseAdd_pass_inv [OF p]
  from inv "1.prems" obtain e where e: "ret' = states @ e" "set e \<subseteq> implied rr (set states)"
    by auto
  have "set ret \<subseteq> set ret'" using inv by auto
  with inv "1.prems"(3) have v: "\<forall>n \<in> set visited'. set (add_states rr n) \<subseteq> set ret'" by blast
  show ?case
  proof (cases changed)
    case True
    with p "1.IH" [OF p [symmetric] refl True e v] show ?thesis
      by (subst parseAdd_loop.simps) simp
  next
    case False
    have "implied rr (set states) \<subseteq> set ret'"
      using inv v by (fastforce simp: implied_def)
    with e False p show ?thesis by (subst parseAdd_loop.simps) auto
  qed
qed

lemma parseAdd_append:
  "\<exists>ext. parseAdd rr states = states @ ext
     \<and> set states \<union> set ext = set states \<union> implied rr (set states)"
  unfolding parseAdd_def by (rule parseAdd_loop_inv [where ext = "[]"]) auto

lemma set_parseAdd: "set (parseAdd rr states) = set states \<union> implied rr (set states)"
  using parseAdd_append [of rr states] by (metis set_append)

section \<open>Facts about Require\<close>

definition require_closed :: "Resolver \<Rightarrow> string set \<Rightarrow> bool" where
  "require_closed rr X = (\<forall>s \<in> X. Require_of rr s \<subseteq> X)"

lemma parseRequire_loop_filter: "\<exists>P. parseRequire_loop rr n ts = filter P ts"
proof (induction rr n ts rule: parseRequire_loop.induct)
  case (1 rr n ts)
  show ?case
  proof (cases "n = length ts")
    case True
    then show ?thesis by (subst parseRequire_loop.simps) (auto intro: exI [of _ "\<lambda>_. True"])
  next
    case False
    with 1 obtain P where "parseRequire_loop rr (length ts) (require_pass rr ts)
      = filter P (require_pass rr ts)" by blast
    with False show ?thesis
      by (subst parseRequire_loop.simps) (auto simp: require_pass_filter)
  qed
qed

lemma require_pass_same:
  assumes "length (require_pass rr ts) = length ts"
  shows "require_pass rr ts = ts \<and> require_closed rr (set ts)"
proof -
  let ?P = "\<lambda>name. Require_of rr name \<subseteq> set ts"
  have "length (filter ?P ts) = length ts" using assms by (simp add: require_pass_filter)
  then have "\<forall>x \<in> set ts. ?P x" by (metis length_filter_less nat_neq_iff)
  then show ?thesis by (auto simp: require_pass_filter require_closed_def)
qed

lemma parseRequire_loop_closed:
  "(n = length ts \<Longrightarrow> require_closed rr (set ts)) \<Longrightarrow>
     require_closed rr (set (parseRequire_loop rr n ts))"
proof (induction rr n ts rule: parseRequire_loop.induct)
  case (1 rr n ts)
  show ?case
  proof (cases "n = length ts")
    case True
    with "1.prems" show ?thesis by (subst parseRequire_loop.simps) simp
  next
    case False
    have "require_closed rr (set (parseRequire_loop rr (length ts) (require_pass rr ts)))"
      by (rule "1.IH" [OF False]) (use require_pass_same [of rr ts] in auto)
    with False show ?thesis by (subst parseRequire_loop.simps) simp
  qed
qed

lemma parseRequire_loop_greatest:
  "X \<subseteq> set ts \<Longrightarrow> require_closed rr X \<Longrightarrow> X \<subseteq> set (parseRequire_loop rr n ts)"
proof (induction rr n ts rule: parseRequire_loop.induct)
  case (1 rr n ts)
  from "1.prems" have "X \<subseteq> set (require_pass rr ts)"
    by (auto simp: require_pass_filter require_closed_def)
  with 1 show ?case by (subst parseRequire_loop.simps) auto
qed

lemma parseRequire_closed: "require_closed rr (set (parseRequire rr ts))"
  unfolding parseRequire_def by (rule parseRequire_loop_closed) (auto simp: require_closed_def)

lemma parseRequire_filter: "\<exists>P. parseRequire rr ts = filter P ts"
  by (simp add: parseRequire_def parseRequire_loop_filter)

lemma parseRequire_subset: "set (parseRequire rr ts) \<subseteq> set ts"
  using parseRequire_filter [of rr ts] by auto

lemma distinct_parseRequire: "distinct ts \<Longrightarrow> distinct (parseRequire rr ts)"
  using parseRequire_filter [of rr ts] by auto

lemma parseRequire_greatest: "X \<subseteq> set ts \<Longrightarrow> require_closed rr X \<Longrightarrow> X \<subseteq> set (parseRequire rr ts)"
  by (simp add: parseRequire_def parseRequire_loop_greatest)

section \<open>Facts about Remove\<close>

lemma filterBlocked_subset: "set (filterBlocked rr sts ab names) \<subseteq> set names"
  by (induction names arbitrary: ab) (auto simp: Let_def)

lemma distinct_filterBlocked: "distinct names \<Longrightarrow> distinct (filterBlocked rr sts ab names)"
  using filterBlocked_subset
  by (induction names arbitrary: ab) (fastforce simp: Let_def)+

text \<open>A survivor is only removed by states that were dropped before it.\<close>

lemma filterBlocked_live:
  "b \<in> set (filterBlocked rr sts ab names) \<Longrightarrow> a \<in> set sts \<Longrightarrow> b \<in> Remove_of rr a \<Longrightarrow>
     a \<in> set ab \<or> a \<in> set names"
  by (induction names arbitrary: ab)
     (fastforce simp: Let_def stateBlockedBy_def filter_empty_conv split: if_splits)+

lemma filterBlocked_survivor:
  assumes "distinct names" "set names \<inter> set ab = {}"
    and "b \<in> set (filterBlocked rr sts ab names)" "a \<in> set sts" "b \<in> Remove_of rr a"
  shows "a \<notin> set (filterBlocked rr sts ab names)"
  using assms
proof (induction names arbitrary: ab)
  case (Cons n names)
  let ?blocked = "\<lambda>x. \<exists>y \<in> set sts. y \<notin> set ab \<and> x \<in> Remove_of rr y"
  have e: "length (filter (\<lambda>y. y \<notin> set ab) (stateBlockedBy rr sts x)) = 0 \<longleftrightarrow> \<not> ?blocked x" for x
    by (auto simp: stateBlockedBy_def filter_empty_conv)
  show ?case
  proof (cases "?blocked n")
    case True
    then have f: "filterBlocked rr sts ab (n # names) = filterBlocked rr sts (n # ab) names"
      using e [of n] by (auto simp: Let_def)
    show ?thesis unfolding f
      by (rule Cons.IH) (use Cons.prems f in auto)
  next
    case False
    then have f: "filterBlocked rr sts ab (n # names) = n # filterBlocked rr sts ab names"
      using e [of n] by (auto simp: Let_def)
    have dj: "set names \<inter> set ab = {}" "distinct names" "n \<notin> set ab" "n \<notin> set names"
      using Cons.prems by auto
    have ab: "a \<in> set ab \<Longrightarrow> a \<notin> set (n # names)" using Cons.prems by auto
    show ?thesis
    proof (cases "b = n")
      case True
      with False Cons.prems have "a \<in> set ab" by auto
      with ab show ?thesis unfolding f using filterBlocked_subset [of rr sts ab names] by auto
    next
      case nb: False
      with Cons.prems f have b: "b \<in> set (filterBlocked rr sts ab names)" by auto
      from Cons.IH [OF dj(2,1) b] Cons.prems have "a \<notin> set (filterBlocked rr sts ab names)" by auto
      moreover have "a \<noteq> n"
      proof
        assume "a = n"
        with filterBlocked_live [OF b, of a] Cons.prems dj show False by auto
      qed
      ultimately show ?thesis unfolding f by auto
    qed
  qed
qed simp

section \<open>Facts about sorting\<close>

lemma mset_SortStates [simp]: "mset (SortStates rr states) = mset states"
  by (simp add: SortStates_def sortRequire_def)

lemma set_SortStates [simp]: "set (SortStates rr states) = set states"
  by (simp add: SortStates_def sortRequire_def)

lemma distinct_SortStates [simp]: "distinct (SortStates rr states) = distinct states"
  by (simp add: SortStates_def sortRequire_def)

lemma length_SortStates [simp]: "length (SortStates rr states) = length states"
  by (simp add: SortStates_def sortRequire_def)

lemma after_less_asym: "after_less schema x y \<Longrightarrow> \<not> after_less schema y x"
  by (auto simp: after_less_def split: if_splits)

section \<open>Facts about TargetStates\<close>

lemma mustParseStates_Inr:
  "mustParseStates d schema states = Inr parsed \<Longrightarrow>
     distinct parsed \<and> (if d then parsed = []
       else parsed = slicesUniq states \<and> set states \<subseteq> set (gkeys schema))"
  by (auto simp: mustParseStates_def list_ex_iff ghas_gkeys split: if_splits)

lemma mustParseStates_known:
  "\<not> d \<Longrightarrow> set states \<subseteq> set (gkeys schema) \<Longrightarrow> mustParseStates d schema states = Inr (slicesUniq states)"
  by (auto simp: mustParseStates_def list_ex_iff ghas_gkeys)

text \<open>The resolver's phases, unfolded into sets.\<close>

lemma distinct_statesToSet_phase: "distinct (statesToSet_phase rr parsed)"
  by (simp add: statesToSet_phase_def distinct_parseRequire)

lemma set_statesToSet_phase:
  "set (statesToSet_phase rr parsed) \<subseteq> set parsed \<union> implied rr (set parsed)"
  using parseRequire_subset [of rr "slicesUniq (parseAdd rr parsed)"]
  by (simp add: statesToSet_phase_def set_parseAdd)

lemma resolved_phase_subset: "set (resolved_phase rr sts) \<subseteq> set sts"
  using filterBlocked_subset [of rr sts "[]" "rev sts"]
  by (simp add: resolved_phase_def slicesReverse_rev)

lemma distinct_resolved_phase: "distinct sts \<Longrightarrow> distinct (resolved_phase rr sts)"
  by (simp add: resolved_phase_def slicesReverse_rev distinct_filterBlocked)

lemma resolved_phase_conflict_free:
  assumes "distinct sts" "a \<in> set (resolved_phase rr sts)" "b \<in> set (resolved_phase rr sts)"
  shows "b \<notin> Remove_of rr a"
proof
  assume "b \<in> Remove_of rr a"
  moreover have "a \<in> set sts" using assms(2) resolved_phase_subset by blast
  ultimately show False
    using filterBlocked_survivor [of "rev sts" "[]" b rr sts a] assms
    by (simp add: resolved_phase_def slicesReverse_rev)
qed

lemma set_toRemove: "set (toRemove rr res) = (\<Union>a \<in> set res. Remove_of rr a)"
  by (auto simp: toRemove_def)

lemma distinct_target_phase: "distinct (target_phase rr res)"
  by (simp add: target_phase_def distinct_parseRequire slicesReverse_rev)

lemma target_phase_closed: "require_closed rr (set (target_phase rr res))"
  by (simp add: target_phase_def parseRequire_closed)

lemma target_phase_subset:
  "set (target_phase rr res) \<subseteq> (set res \<union> implied rr (set res)) - set (toRemove rr res)"
  using parseRequire_subset [of rr "slicesReverse (slicesUniq (slicesFilter (parseAdd rr res)
       (\<lambda>name _. \<not> slices_Contains (toRemove rr res) name)))"]
  by (auto simp: target_phase_def slicesReverse_rev slicesFilter_filter set_parseAdd)

lemma TargetStates_phases:
  assumes "\<not> rr_disposing rr" "set sts \<subseteq> set (gkeys (rr_schema rr))"
  shows "TargetStates rr sts = Inr (SortStates rr (target_phase rr
           (resolved_phase rr (statesToSet_phase rr (slicesUniq sts)))))"
  using assms by (simp add: TargetStates_def mustParseStates_known)

lemma implied_known:
  assumes "schema_wf (rr_schema rr)"
  shows "implied rr X \<subseteq> set (gkeys (rr_schema rr))"
proof -
  have "set (add_states rr n) \<subseteq> set (gkeys (rr_schema rr))" for n
    using add_states_subset [of rr n] Schema_Get_wf [OF assms, of n]
    unfolding state_wf_def by blast
  then show ?thesis by (auto simp: implied_def)
qed

lemma TargetStates_Inr:
  assumes "TargetStates rr sts = Inr ts"
  shows "distinct ts" "require_closed rr (set ts)"
proof -
  from assms obtain res where "ts = SortStates rr (target_phase rr res)"
    by (auto simp: TargetStates_def split: sum.splits)
  then show "distinct ts" "require_closed rr (set ts)"
    by (simp_all add: distinct_target_phase target_phase_closed)
qed

text \<open>Every target is called, active, or implied by a state that is.\<close>

lemma TargetStates_origin:
  assumes "TargetStates rr sts = Inr ts"
  shows "set ts \<subseteq> set sts \<union> (\<Union>n. set (add_states rr n))"
proof -
  from assms obtain parsed where p: "mustParseStates (rr_disposing rr) (rr_schema rr) sts = Inr parsed"
    and ts: "ts = SortStates rr (target_phase rr (resolved_phase rr (statesToSet_phase rr parsed)))"
    by (auto simp: TargetStates_def split: sum.splits)
  define U where "U = (\<Union>n. set (add_states rr n))"
  have im: "implied rr X \<subseteq> U" for X by (auto simp: implied_def U_def)
  have "set parsed \<subseteq> set sts" using mustParseStates_Inr [OF p] by (auto split: if_splits)
  with set_statesToSet_phase [of rr parsed] im have "set (statesToSet_phase rr parsed) \<subseteq> set sts \<union> U"
    by blast
  with resolved_phase_subset have "set (resolved_phase rr (statesToSet_phase rr parsed)) \<subseteq> set sts \<union> U"
    by blast
  with target_phase_subset im have "set ts \<subseteq> set sts \<union> U" unfolding ts set_SortStates by blast
  then show ?thesis by (simp add: U_def)
qed

end
