(* ===== verification/Am_Relations.thy ===== *)
theory Am_Relations
  imports Am_Resolver
begin

text \<open>
  What the resolver promises: the contract \<open>relations_resolver\<close> the transition relies on, its
  interpretation on the default resolver, and the properties of the relations \<open>Add\<close>, \<open>Remove\<close>,
  \<open>Require\<close> and \<open>After\<close>.
\<close>

section \<open>Definitions used in the statements\<close>

definition conflict_free :: "Resolver \<Rightarrow> string set \<Rightarrow> bool" where
  "conflict_free rr X = (\<forall>a \<in> X. \<forall>b \<in> X. b \<notin> Remove_of rr a)"

text \<open>No state with a \<open>Remove\<close> relation is the target of an \<open>Add\<close> relation.\<close>

definition no_implied_removers :: "Schema \<Rightarrow> bool" where
  "no_implied_removers schema =
     list_all (\<lambda>(n, st). list_all (\<lambda>a. sl (Remove (Schema_Get schema a)) = []) (sl (Add st))) schema"

definition resolver_ok :: "Resolver \<Rightarrow> bool" where
  "resolver_ok rr = (\<not> rr_disposing rr \<and> schema_wf (rr_schema rr))"

section \<open>The contract of a resolver\<close>

locale relations_resolver =
  fixes ok :: "'r \<Rightarrow> bool"
    and known :: "'r \<Rightarrow> string set"
    and closed :: "'r \<Rightarrow> string set \<Rightarrow> bool"
    and target :: "'r \<Rightarrow> S \<Rightarrow> S res"
    and sort_states :: "'r \<Rightarrow> S \<Rightarrow> S"
  assumes sort_mset: "mset (sort_states r xs) = mset xs"
    and target_total: "ok r \<Longrightarrow> set sts \<subseteq> known r \<Longrightarrow> \<exists>ts. target r sts = Inr ts"
    and target_distinct: "target r sts = Inr ts \<Longrightarrow> distinct ts"
    and target_closed: "target r sts = Inr ts \<Longrightarrow> closed r (set ts)"
    and target_known: "ok r \<Longrightarrow> target r sts = Inr ts \<Longrightarrow> set sts \<subseteq> known r \<Longrightarrow> set ts \<subseteq> known r"
begin

text \<open>What a transition derives from it: the active states are split exactly into the ones it keeps
  and the sorted exits, and a second resolution of the targets is defined.\<close>

lemma exits_partition:
  assumes "distinct active" "target r sts = Inr ts"
  shows "distinct (sort_states r (StatesDiff active ts))"
    and "set (sort_states r (StatesDiff active ts)) = set active - set ts"
proof -
  have m: "mset (sort_states r (StatesDiff active ts)) = mset (StatesDiff active ts)"
    by (rule sort_mset)
  show "set (sort_states r (StatesDiff active ts)) = set active - set ts"
    using mset_eq_setD [OF m] by auto
  show "distinct (sort_states r (StatesDiff active ts))"
    using mset_eq_imp_distinct_iff [OF m] assms(1) by simp
qed

lemma target_again:
  "ok r \<Longrightarrow> set sts \<subseteq> known r \<Longrightarrow> target r sts = Inr ts \<Longrightarrow> \<exists>ts'. target r ts = Inr ts'"
  using target_total target_known by blast

end

lemma TargetStates_known:
  assumes "resolver_ok rr" "TargetStates rr sts = Inr ts" "set sts \<subseteq> set (gkeys (rr_schema rr))"
  shows "set ts \<subseteq> set (gkeys (rr_schema rr))"
proof -
  have "set (add_states rr n) \<subseteq> set (gkeys (rr_schema rr))" for n
    using add_states_subset [of rr n] Schema_Get_wf [of "rr_schema rr" n] assms(1)
    unfolding state_wf_def resolver_ok_def by blast
  with TargetStates_origin [OF assms(2)] assms(3) show ?thesis by blast
qed

interpretation default_resolver: relations_resolver resolver_ok
  "\<lambda>rr. set (gkeys (rr_schema rr))" require_closed TargetStates SortStates
proof (unfold_locales, goal_cases)
  case (2 rr sts)
  then show ?case by (simp add: resolver_ok_def TargetStates_phases)
qed (simp_all add: TargetStates_Inr TargetStates_known)

section \<open>Remove\<close>

lemma target_phase_respects_remove:
  assumes "distinct sts" "a \<in> set (resolved_phase rr sts)"
    "b \<in> set (target_phase rr (resolved_phase rr sts))"
  shows "b \<notin> Remove_of rr a"
  using assms target_phase_subset [of rr "resolved_phase rr sts"] by (auto simp: set_toRemove)

lemma no_implied_removers_Add:
  assumes "no_implied_removers (rr_schema rr)" "x \<in> Add_of rr n"
  shows "Remove_of rr x = {}"
proof (cases "gget (rr_schema rr) n")
  case None
  with assms(2) show ?thesis by (simp add: Schema_Get_def State_zero_def)
next
  case (Some st)
  then have "(n, st) \<in> set (rr_schema rr)" by (simp add: gget_def map_of_SomeD)
  with assms Some show ?thesis
    by (auto simp: no_implied_removers_def list_all_iff Schema_Get_def)
qed

lemma target_phase_conflict_free:
  assumes "no_implied_removers (rr_schema rr)" "distinct sts"
  shows "conflict_free rr (set (target_phase rr (resolved_phase rr sts)))"
proof -
  let ?R = "resolved_phase rr sts"
  have "b \<notin> Remove_of rr a" if "a \<in> set (target_phase rr ?R)" "b \<in> set (target_phase rr ?R)" for a b
  proof (cases "a \<in> set ?R")
    case True
    then show ?thesis using target_phase_respects_remove [OF assms(2)] that by blast
  next
    case False
    with that(1) target_phase_subset [of rr ?R] have "a \<in> implied rr (set ?R)" by blast
    then obtain n where "a \<in> set (add_states rr n)" by (auto simp: implied_def)
    then have "a \<in> Add_of rr n" using add_states_subset by blast
    then show ?thesis using no_implied_removers_Add [OF assms(1)] by simp
  qed
  then show ?thesis by (simp add: conflict_free_def)
qed

text \<open>The last name of the list survives when it removes all its blockers.\<close>

lemma blockers_empty:
  "length (filter (\<lambda>b. b \<notin> set ab) (stateBlockedBy rr sts x)) = 0 \<longleftrightarrow>
     (\<forall>b \<in> set sts. x \<in> Remove_of rr b \<longrightarrow> b \<in> set ab)"
  by (auto simp: stateBlockedBy_def filter_empty_conv)

lemma filterBlocked_last:
  assumes "\<forall>b \<in> set sts. c \<in> Remove_of rr b \<longrightarrow> b \<in> Remove_of rr c \<and> (b \<in> set ab \<or> b \<in> set names)"
    and "c \<notin> set ab" "c \<in> set sts" "c \<notin> set names"
  shows "c \<in> set (filterBlocked rr sts ab (names @ [c]))"
  using assms
proof (induction names arbitrary: ab)
  case Nil
  then have "\<forall>b \<in> set sts. c \<in> Remove_of rr b \<longrightarrow> b \<in> set ab" unfolding list.set by blast
  then show ?case using blockers_empty [of ab rr sts c] by simp
next
  case (Cons n names)
  show ?case
  proof (cases "n \<in> set sts \<and> c \<in> Remove_of rr n")
    case True
    with Cons.prems have "n \<in> Remove_of rr c" by blast
    with Cons.prems(2,3) have "length (filter (\<lambda>b. b \<notin> set ab) (stateBlockedBy rr sts n)) \<noteq> 0"
      unfolding blockers_empty by blast
    moreover have "c \<in> set (filterBlocked rr sts (n # ab) (names @ [c]))"
    proof (rule Cons.IH)
      show "\<forall>b \<in> set sts. c \<in> Remove_of rr b \<longrightarrow>
          b \<in> Remove_of rr c \<and> (b \<in> set (n # ab) \<or> b \<in> set names)"
        using Cons.prems(1) unfolding list.set by blast
    qed (use Cons.prems(2-4) in auto)
    ultimately show ?thesis by (simp add: Let_def)
  next
    case False
    have "\<forall>b \<in> set sts. c \<in> Remove_of rr b \<longrightarrow>
        b \<in> Remove_of rr c \<and> (b \<in> set ab \<or> b \<in> set names)"
      using Cons.prems(1) False unfolding list.set by blast
    then have 1: "\<forall>b \<in> set sts. c \<in> Remove_of rr b \<longrightarrow>
        b \<in> Remove_of rr c \<and> (b \<in> set ab' \<or> b \<in> set names)" if "set ab \<subseteq> set ab'" for ab'
      using that by blast
    have 2: "c \<in> set (filterBlocked rr sts ab' (names @ [c]))"
      if "set ab \<subseteq> set ab'" "c \<notin> set ab'" for ab'
      by (rule Cons.IH [OF 1 [OF that(1)] that(2)]) (use Cons.prems(3,4) in auto)
    have "c \<in> set (filterBlocked rr sts ab (names @ [c]))"
      "c \<in> set (filterBlocked rr sts (n # ab) (names @ [c]))"
      using Cons.prems(2,4) by (intro 2; auto)+
    then show ?thesis by (simp add: Let_def)
  qed
qed

lemma resolved_phase_first:
  assumes "distinct (c # rest)" "\<forall>b \<in> set (c # rest). c \<in> Remove_of rr b \<longrightarrow> b \<in> Remove_of rr c"
    and "c \<notin> Remove_of rr c"
  shows "c \<in> set (resolved_phase rr (c # rest))"
  using filterBlocked_last [of "c # rest" c rr "[]" "rev rest"] assms
  by (auto simp: resolved_phase_def slicesReverse_rev)

lemma target_phase_free:
  assumes "distinct sts" "c \<in> set (resolved_phase rr sts)" "Require_of rr c = {}"
  shows "c \<in> set (target_phase rr (resolved_phase rr sts))"
proof -
  let ?R = "resolved_phase rr sts"
  have "c \<notin> set (toRemove rr ?R)"
    using resolved_phase_conflict_free [OF assms(1) _ assms(2)] by (auto simp: set_toRemove)
  then have "{c} \<subseteq> set (slicesReverse (slicesUniq (slicesFilter (parseAdd rr ?R)
       (\<lambda>name _. \<not> slices_Contains (toRemove rr ?R) name))))"
    using assms(2) by (simp add: slicesReverse_rev slicesFilter_filter set_parseAdd)
  from parseRequire_greatest [OF this, of rr] assms(3) show ?thesis
    by (simp add: require_closed_def target_phase_def)
qed

lemma statesToSet_phase_first:
  assumes "Require_of rr c = {}"
  shows "\<exists>rest. statesToSet_phase rr (c # xs) = c # rest"
proof -
  obtain ext where "parseAdd rr (c # xs) = (c # xs) @ ext" using parseAdd_append by blast
  then obtain ys where ys: "slicesUniq (parseAdd rr (c # xs)) = c # ys"
    by (simp add: slicesUniq_def)
  obtain P where P: "parseRequire rr (c # ys) = filter P (c # ys)" using parseRequire_filter by blast
  have "c \<in> set (parseRequire rr (c # ys))"
    using parseRequire_greatest [of "{c}" "c # ys" rr] assms by (simp add: require_closed_def)
  moreover have "c \<notin> set ys" using distinct_slicesUniq [of "parseAdd rr (c # xs)"] ys by simp
  ultimately have "P c" unfolding P by (auto split: if_splits)
  then show ?thesis by (simp add: statesToSet_phase_def ys P)
qed

section \<open>Require\<close>

lemma adj_AddEdge: "adj (AddEdge g s d) n = adj g n @ (if n = s then [d] else [])"
  by (simp add: adj_def AddEdge_def)

lemma adj_AddEdges: "adj (foldl (\<lambda>g req. AddEdge g s req) g reqs) n
    = adj g n @ (if n = s then reqs else [])"
  by (induction reqs arbitrary: g) (auto simp: adj_AddEdge)

lemma adj_require_graph:
  assumes "distinct states"
  shows "adj (require_graph schema states) n =
    (if n \<in> set states then sl (Require (Schema_Get schema n)) else [])"
proof -
  have "adj (foldl (\<lambda>g name. foldl (\<lambda>g req. AddEdge g name req) g
        (sl (Require (Schema_Get schema name)))) g states) n
      = adj g n @ (if n \<in> set states then sl (Require (Schema_Get schema n)) else [])" for g
    using assms by (induction states arbitrary: g) (auto simp: adj_AddEdges)
  from this [of newGraph] show ?thesis by (simp add: require_graph_def newGraph_def adj_def ggetd_def)
qed

text \<open>The \<open>Require\<close> relation of a schema on its state names.\<close>

definition require_rel :: "Schema \<Rightarrow> S \<Rightarrow> (string \<times> string) set" where
  "require_rel schema states = {(s, r). s \<in> set states \<and> r \<in> set (sl (Require (Schema_Get schema s)))}"

lemma edges_require_graph:
  "distinct states \<Longrightarrow> edges (require_graph schema states) = require_rel schema states"
  by (auto simp: edges_def require_rel_def adj_require_graph split: if_splits)

lemma topo_ok_index:
  assumes "topo_ok g stk" "distinct stk" "s \<in> set stk" "r \<in> set (adj g s)"
  shows "0 \<le> slices_Index stk r" "slices_Index stk r < slices_Index stk s"
proof -
  let ?i = "nat (slices_Index stk s)"
  have s: "0 \<le> slices_Index stk s" "?i < length stk" "stk ! ?i = s"
    using slices_Index_bounds [OF assms(3)] by auto
  from assms(1) s(2) have "set (adj g (stk ! ?i)) \<subseteq> set (take ?i stk)" by (simp add: topo_ok_def)
  with s(3) assms(4) have "r \<in> set (take ?i stk)" by auto
  then obtain k where k: "k < ?i" "stk ! k = r" using s(2) by (auto simp: in_set_conv_nth)
  then have "slices_Index stk r = int k" using slices_Index_nth [OF assms(2), of k] s(2) by simp
  with k s(1) show "0 \<le> slices_Index stk r" "slices_Index stk r < slices_Index stk s" by linarith+
qed

lemma NewSchema_topology:
  assumes "distinct states" "acyclic (require_rel (rr_schema rr) states)"
  shows "topo_ok (require_graph (rr_schema rr) states) (rr_topology (NewSchema rr states))
    \<and> distinct (rr_topology (NewSchema rr states))
    \<and> set (gkeys (require_graph (rr_schema rr) states)) \<subseteq> set (rr_topology (NewSchema rr states))"
proof -
  obtain stk where t: "TopologicalSort (require_graph (rr_schema rr) states) = Inr stk"
    using TopologicalSort_acyclic_Inr assms by (metis edges_require_graph)
  then have "rr_topology (NewSchema rr states) = stk" by (simp add: NewSchema_def)
  with TopologicalSort_Inr [OF t] show ?thesis by simp
qed

lemma NewSchema_cycle:
  assumes "distinct states" "\<not> acyclic (require_rel (rr_schema rr) states)"
  shows "NewSchema rr states = rr\<lparr>rr_Index := states\<rparr>"
proof (cases "TopologicalSort (require_graph (rr_schema rr) states)")
  case (Inr stk)
  from TopologicalSort_Inr_acyclic [OF this] assms show ?thesis by (simp add: edges_require_graph)
qed (simp add: NewSchema_def)

lemma NewSchema_index_less:
  assumes "distinct states" "acyclic (require_rel (rr_schema rr) states)"
    and "s \<in> set states" "r \<in> Require_of rr s"
  shows "slices_Index (rr_topology (NewSchema rr states)) r
           < slices_Index (rr_topology (NewSchema rr states)) s"
proof -
  let ?g = "require_graph (rr_schema rr) states"
  have a: "r \<in> set (adj ?g s)" using assms by (simp add: adj_require_graph)
  then have "s \<in> set (gkeys ?g)" using adj_not_key [of s ?g] by (cases "s \<in> set (gkeys ?g)") auto
  with NewSchema_topology [OF assms(1,2)] topo_ok_index(2) [OF _ _ _ a] show ?thesis by blast
qed

section \<open>A consistent set of states is stable\<close>

lemma filterBlocked_none:
  assumes "\<forall>x \<in> set names. \<forall>b \<in> set sts. x \<notin> Remove_of rr b"
  shows "filterBlocked rr sts ab names = names"
  using assms
proof (induction names)
  case (Cons x names)
  then have "length (filter (\<lambda>b. b \<notin> set ab) (stateBlockedBy rr sts x)) = 0"
    unfolding blockers_empty by simp
  with Cons show ?case by (simp add: Let_def)
qed simp

lemma parseRequire_closed_id: "require_closed rr (set ts) \<Longrightarrow> set (parseRequire rr ts) = set ts"
  using parseRequire_greatest [of "set ts" ts rr] parseRequire_subset [of rr ts] by auto

lemma stable_phases:
  assumes "require_closed rr (set xs)" "conflict_free rr (set xs)" "implied rr (set xs) = {}"
  shows "set (target_phase rr (resolved_phase rr (statesToSet_phase rr xs))) = set xs"
proof -
  have 1: "set (statesToSet_phase rr xs) = set xs"
    using assms(1,3) parseRequire_closed_id [of rr "slicesUniq (parseAdd rr xs)"]
    by (simp add: statesToSet_phase_def set_parseAdd)
  then have 2: "set (resolved_phase rr (statesToSet_phase rr xs)) = set xs"
    using assms(2) by (simp add: resolved_phase_def slicesReverse_rev filterBlocked_none conflict_free_def)
  let ?R = "resolved_phase rr (statesToSet_phase rr xs)"
  have "set xs \<inter> set (toRemove rr ?R) = {}"
    using assms(2) 2 by (auto simp: set_toRemove conflict_free_def)
  then have "set (slicesReverse (slicesUniq (slicesFilter (parseAdd rr ?R)
       (\<lambda>name _. \<not> slices_Contains (toRemove rr ?R) name)))) = set xs"
    using assms(3) 2 by (auto simp: slicesReverse_rev slicesFilter_filter set_parseAdd)
  with assms(1) show ?thesis by (simp add: target_phase_def parseRequire_closed_id)
qed

section \<open>A concrete schema\<close>

text \<open>\<open>A\<close> implies \<open>B\<close> and requires \<open>C\<close>; \<open>D\<close> and \<open>E\<close> exclude each other; \<open>B\<close> implies \<open>X\<close>, which
  removes \<open>F\<close>; \<open>G\<close> has to come after \<open>A\<close>.\<close>

definition ex_state :: "S \<Rightarrow> S \<Rightarrow> S \<Rightarrow> S \<Rightarrow> State" where
  "ex_state add remove require after =
     State_zero\<lparr>Add := Some add, Remove := Some remove, Require := Some require, After := Some after\<rparr>"

definition ex_schema :: Schema where
  "ex_schema =
     [(''A'', ex_state [''B''] [] [''C''] []), (''B'', ex_state [''X''] [] [] []),
      (''C'', ex_state [] [] [] []), (''D'', ex_state [] [''E''] [] []),
      (''E'', ex_state [] [''D''] [] []), (''F'', ex_state [] [] [] []),
      (''G'', ex_state [] [] [] [''A'']), (''X'', ex_state [] [''F''] [] [])]"

definition ex_rr :: "S \<Rightarrow> MutationType \<Rightarrow> int list \<Rightarrow> Resolver" where
  "ex_rr before typ called =
     \<lparr>rr_disposing = False, rr_schema = ex_schema, rr_names = gkeys ex_schema,
      rr_Index = gkeys ex_schema, rr_topology = [], rr_statesBefore = before, rr_type = typ,
      rr_called = called\<rparr>"

lemma ex_schema_wf: "schema_wf ex_schema"
  by code_simp

lemma ex_rr_simps [simp]:
  "rr_disposing (ex_rr b t c) = False" "rr_schema (ex_rr b t c) = ex_schema"
  "rr_names (ex_rr b t c) = gkeys ex_schema" "rr_Index (ex_rr b t c) = gkeys ex_schema"
  "rr_topology (ex_rr b t c) = []" "rr_statesBefore (ex_rr b t c) = b"
  "rr_type (ex_rr b t c) = t" "rr_called (ex_rr b t c) = c"
  by (simp_all add: ex_rr_def)

lemma ex_rr_ok: "resolver_ok (ex_rr b t c)"
  by (simp add: resolver_ok_def ex_schema_wf)

lemma ex_gkeys: "gkeys ex_schema = [''A'', ''B'', ''C'', ''D'', ''E'', ''F'', ''G'', ''X'']"
  by code_simp

lemma ex_Get:
  "Schema_Get ex_schema ''A'' = ex_state [''B''] [] [''C''] []"
  "Schema_Get ex_schema ''B'' = ex_state [''X''] [] [] []"
  "Schema_Get ex_schema ''C'' = ex_state [] [] [] []"
  "Schema_Get ex_schema ''D'' = ex_state [] [''E''] [] []"
  "Schema_Get ex_schema ''E'' = ex_state [] [''D''] [] []"
  "Schema_Get ex_schema ''F'' = ex_state [] [] [] []"
  "Schema_Get ex_schema ''G'' = ex_state [] [] [] [''A'']"
  "Schema_Get ex_schema ''X'' = ex_state [] [''F''] [] []"
  by code_simp+

lemma ex_state_simps [simp]:
  "Add (ex_state a r q f) = Some a" "Remove (ex_state a r q f) = Some r"
  "Require (ex_state a r q f) = Some q" "After (ex_state a r q f) = Some f"
  "Multi (ex_state a r q f) = False" "Auto (ex_state a r q f) = False"
  by (simp_all add: ex_state_def State_zero_def)

section \<open>Properties of the resolver\<close>

text \<open>C2. While the machine is not disposing, \<open>TargetStates\<close> returns exactly for lists of defined
  states (it panics otherwise); what it returns is a repetition-free list of defined states in
  which the \<open>Require\<close> relation of every state is satisfied.\<close>

theorem TargetStates_correct:
  assumes "\<not> rr_disposing rr" "schema_wf (rr_schema rr)"
  shows "(set sts \<subseteq> set (gkeys (rr_schema rr)) \<longrightarrow>
            (\<exists>ts. TargetStates rr sts = Inr ts \<and> distinct ts \<and> set ts \<subseteq> set (gkeys (rr_schema rr))
               \<and> (\<forall>s \<in> set ts. Require_of rr s \<subseteq> set ts)))
       \<and> (\<not> set sts \<subseteq> set (gkeys (rr_schema rr)) \<longrightarrow>
            TargetStates rr sts = Inl (GoPanic ''state missing''))"
proof (intro conjI impI)
  assume k: "set sts \<subseteq> set (gkeys (rr_schema rr))"
  have ok: "resolver_ok rr" using assms by (simp add: resolver_ok_def)
  obtain ts where ts: "TargetStates rr sts = Inr ts"
    using default_resolver.target_total [OF ok k] by blast
  with default_resolver.target_distinct default_resolver.target_closed
    default_resolver.target_known [OF ok ts k]
  show "\<exists>ts. TargetStates rr sts = Inr ts \<and> distinct ts \<and> set ts \<subseteq> set (gkeys (rr_schema rr))
      \<and> (\<forall>s \<in> set ts. Require_of rr s \<subseteq> set ts)"
    by (auto simp: require_closed_def)
next
  assume "\<not> set sts \<subseteq> set (gkeys (rr_schema rr))"
  then show "TargetStates rr sts = Inl (GoPanic ''state missing'')"
    using assms(1) by (auto simp: TargetStates_def mustParseStates_def list_ex_iff ghas_gkeys)
qed

theorem TargetStates_correct_witness:
  "(\<exists>ts. TargetStates (ex_rr [''C''] MutationAdd [0]) [''A'', ''C''] = Inr ts \<and> distinct ts
      \<and> set ts \<subseteq> set (gkeys ex_schema)
      \<and> (\<forall>s \<in> set ts. Require_of (ex_rr [''C''] MutationAdd [0]) s \<subseteq> set ts))
   \<and> TargetStates (ex_rr [''C''] MutationAdd [0]) [''Z''] = Inl (GoPanic ''state missing'')"
  using TargetStates_correct [of "ex_rr [''C''] MutationAdd [0]" "[''A'', ''C'']"]
    TargetStates_correct [of "ex_rr [''C''] MutationAdd [0]" "[''Z'']"]
  by (simp add: ex_schema_wf ex_gkeys)

text \<open>C17. \<open>Remove\<close> is respected: in a schema that implies no state with a \<open>Remove\<close> relation, no target
  state removes another target state.\<close>

theorem TargetStates_conflict_free:
  assumes "no_implied_removers (rr_schema rr)" "TargetStates rr sts = Inr ts"
    and "a \<in> set ts" "b \<in> set ts"
  shows "b \<notin> Remove_of rr a"
proof -
  from assms(2) obtain parsed where
    "ts = SortStates rr (target_phase rr (resolved_phase rr (statesToSet_phase rr parsed)))"
    by (auto simp: TargetStates_def split: sum.splits)
  with target_phase_conflict_free [OF assms(1) distinct_statesToSet_phase [of rr parsed]] assms(3,4)
  show ?thesis by (simp add: conflict_free_def)
qed

definition ex_rr_excl :: Resolver where
  "ex_rr_excl = (ex_rr [''D''] MutationAdd [1])\<lparr>rr_schema :=
     [(''D'', ex_state [] [''E''] [] []), (''E'', ex_state [] [''D''] [] [])]\<rparr>"

theorem TargetStates_conflict_free_witness:
  "TargetStates ex_rr_excl [''E'', ''D''] = Inr [''E''] \<and> ''E'' \<notin> Remove_of ex_rr_excl ''E''"
proof -
  have t: "TargetStates ex_rr_excl [''E'', ''D''] = Inr [''E'']" by code_simp
  have "no_implied_removers (rr_schema ex_rr_excl)" by code_simp
  from TargetStates_conflict_free [OF this t] t show ?thesis by simp
qed

text \<open>C20. The called state wins: on a machine that is not disposing, with a well-formed schema, \<open>TargetStates\<close> of a
  defined state in front of any list of defined states (the active ones) returns, if that state requires nothing and
  removes every state which removes it; the targets contain it and none of the states it removes.\<close>

theorem TargetStates_called_wins:
  assumes "\<not> rr_disposing rr" "schema_wf (rr_schema rr)"
    and "set (c # active) \<subseteq> set (gkeys (rr_schema rr))" "Require_of rr c = {}"
    and mutual: "\<And>b. c \<in> Remove_of rr b \<Longrightarrow> b \<in> Remove_of rr c"
  shows "\<exists>ts. TargetStates rr (c # active) = Inr ts \<and> c \<in> set ts \<and> set ts \<inter> Remove_of rr c = {}"
proof -
  let ?sts = "statesToSet_phase rr (slicesUniq (c # active))"
  let ?R = "resolved_phase rr ?sts"
  obtain rest where rest: "?sts = c # rest"
    using statesToSet_phase_first [OF assms(4)] by (auto simp: slicesUniq_def)
  have d: "distinct ?sts" by (rule distinct_statesToSet_phase)
  have "c \<notin> Remove_of rr c" using Schema_Get_wf [OF assms(2), of c] by (simp add: state_wf_def)
  with resolved_phase_first [of c rest rr] d mutual have c: "c \<in> set ?R" unfolding rest by blast
  have "c \<in> set (target_phase rr ?R)" by (rule target_phase_free [OF d c assms(4)])
  moreover have "set (target_phase rr ?R) \<inter> Remove_of rr c = {}"
    using target_phase_respects_remove [OF d c] by blast
  ultimately show ?thesis using TargetStates_phases [OF assms(1,3)] by simp
qed

theorem TargetStates_called_wins_witness:
  "\<exists>ts. TargetStates ex_rr_excl [''E'', ''D''] = Inr ts \<and> ''E'' \<in> set ts
     \<and> set ts \<inter> Remove_of ex_rr_excl ''E'' = {}"
proof (rule TargetStates_called_wins)
  fix b assume "''E'' \<in> Remove_of ex_rr_excl b"
  then have "b = ''D''"
    by (auto simp: ex_rr_excl_def Schema_Get_def gget_def State_zero_def split: if_splits option.splits)
  then show "b \<in> Remove_of ex_rr_excl ''E''"
    by (simp add: ex_rr_excl_def Schema_Get_def gget_def)
qed code_simp+

text \<open>A \<open>remove\<close> mutation removes: when the states to keep contain none of the called ones, no
  called state is a target, not even through an \<open>Add\<close> relation.\<close>

theorem TargetStates_remove:
  assumes "rr_type rr = MutationRemove" "TargetStates rr sts = Inr ts"
    and "\<And>c. c \<in> set called \<Longrightarrow> slices_Index (rr_Index rr) c \<in> set (rr_called rr)"
    and "set sts \<inter> set called = {}"
  shows "set ts \<inter> set called = {}"
proof -
  have "set (add_states rr n) \<inter> set called = {}" for n
    using assms(1,3) by (auto simp: add_states_def)
  with TargetStates_origin [OF assms(2)] assms(4) show ?thesis by blast
qed

theorem TargetStates_remove_witness:
  "TargetStates (ex_rr [''B'', ''C''] MutationRemove [1]) [''C'', ''A''] = Inr [''C'', ''A'']
   \<and> set [''C'', ''A''] \<inter> set [''B''] = {}"
proof -
  have t: "TargetStates (ex_rr [''B'', ''C''] MutationRemove [1]) [''C'', ''A''] = Inr [''C'', ''A'']"
    by code_simp
  have "set [''C'', ''A''] \<inter> set [''B''] = {}"
    by (rule TargetStates_remove [OF _ t]) (simp_all add: ex_gkeys)
  with t show ?thesis by simp
qed

text \<open>Consistent active states are stable: if they satisfy \<open>Require\<close>, none removes another and
  none is \<open>Multi\<close>, then resolving any list of exactly these states gives back the same set.\<close>

theorem TargetStates_stable:
  assumes "\<not> rr_disposing rr" "set sts \<subseteq> set (gkeys (rr_schema rr))"
    and "set sts \<subseteq> set (rr_statesBefore rr)"
    and "\<And>s. s \<in> set sts \<Longrightarrow> \<not> Multi (Schema_Get (rr_schema rr) s)"
    and "\<And>s. s \<in> set sts \<Longrightarrow> Require_of rr s \<subseteq> set sts"
    and "\<And>a b. a \<in> set sts \<Longrightarrow> b \<in> set sts \<Longrightarrow> b \<notin> Remove_of rr a"
  shows "\<exists>ts. TargetStates rr sts = Inr ts \<and> set ts = set sts"
proof -
  have "implied rr (set (slicesUniq sts)) = {}"
    using assms(3,4) by (auto simp: implied_def follows_add_def)
  then have "set (target_phase rr (resolved_phase rr (statesToSet_phase rr (slicesUniq sts)))) = set sts"
    using stable_phases [of rr "slicesUniq sts"] assms(5,6)
    by (simp add: require_closed_def conflict_free_def)
  then show ?thesis using TargetStates_phases [OF assms(1,2)] by simp
qed

theorem TargetStates_stable_witness:
  "\<exists>ts. TargetStates (ex_rr [''A'', ''C''] MutationAdd [0]) [''A'', ''A'', ''C''] = Inr ts
     \<and> set ts = set [''A'', ''A'', ''C'']"
  by (rule TargetStates_stable) (auto simp: ex_gkeys ex_Get)

text \<open>C31. \<open>parseRequire\<close> computes the greatest part of a list in which every state has its required
  states: its result is closed under \<open>Require\<close>, keeps the order, and contains every closed subset.\<close>

theorem parseRequire_greatest_closed:
  "(\<exists>P. parseRequire rr ts = filter P ts)
   \<and> (\<forall>s \<in> set (parseRequire rr ts). Require_of rr s \<subseteq> set (parseRequire rr ts))
   \<and> (X \<subseteq> set ts \<and> (\<forall>s \<in> X. Require_of rr s \<subseteq> X) \<longrightarrow> X \<subseteq> set (parseRequire rr ts))"
  using parseRequire_filter [of rr ts] parseRequire_closed [of rr ts] parseRequire_greatest [of X ts rr]
  by (simp add: require_closed_def)

theorem parseRequire_greatest_closed_witness:
  "{''A'', ''C''} \<subseteq> set (parseRequire (ex_rr [] MutationAdd []) [''C'', ''A'', ''B''])"
  using parseRequire_greatest_closed [of "ex_rr [] MutationAdd []" "[''C'', ''A'', ''B'']" "{''A'', ''C''}"]
  by (simp add: ex_Get)

text \<open>\<open>SortStates\<close> permutes its argument, and for up to 20 states it never leaves two neighbours in
  an order that \<open>After\<close> forbids.\<close>

theorem SortStates_permutation_neighbours:
  "mset (SortStates rr states) = mset states
   \<and> (length states \<le> 20 \<longrightarrow>
      successively (\<lambda>x y. \<not> after_less (rr_schema rr) y x) (SortStates rr states))"
proof (intro conjI impI)
  assume "length states \<le> 20"
  then have "SortStates rr states = insertionSort (after_less (rr_schema rr)) (sortRequire rr states)"
    unfolding SortStates_def by (intro SliceStable_short) (simp add: sortRequire_def)
  then show "successively (\<lambda>x y. \<not> after_less (rr_schema rr) y x) (SortStates rr states)"
    using insertionSort_adjacent [of "after_less (rr_schema rr)", OF after_less_asym] by simp
qed simp

theorem SortStates_permutation_neighbours_witness:
  "successively (\<lambda>x y. \<not> after_less ex_schema y x) (SortStates (ex_rr [] MutationAdd []) [''G'', ''A'', ''B''])
   \<and> SortStates (ex_rr [] MutationAdd []) [''G'', ''A'', ''B''] = [''A'', ''G'', ''B'']"
proof
  show "SortStates (ex_rr [] MutationAdd []) [''G'', ''A'', ''B''] = [''A'', ''G'', ''B'']" by code_simp
  show "successively (\<lambda>x y. \<not> after_less ex_schema y x)
      (SortStates (ex_rr [] MutationAdd []) [''G'', ''A'', ''B''])"
    using SortStates_permutation_neighbours [of "ex_rr [] MutationAdd []" "[''G'', ''A'', ''B'']"] by simp
qed

text \<open>Among non-neighbours \<open>After\<close> is not guaranteed: a state can stay in front of one it has to
  come after when an unrelated state stands between them.\<close>

theorem SortStates_after_violated:
  "SortStates (ex_rr [] MutationAdd []) [''G'', ''D'', ''A''] = [''G'', ''D'', ''A'']
   \<and> ''A'' \<in> set (sl (After (Schema_Get ex_schema ''G'')))"
  by code_simp

text \<open>\<open>Require\<close> orders the handlers: with an acyclic \<open>Require\<close> relation, \<open>sortRequire\<close> puts a
  required state before every state that requires it (lists of up to 20 states).\<close>

theorem sortRequire_required_first:
  assumes "distinct names" "acyclic (require_rel (rr_schema rr) names)"
    and "length states \<le> 20" "s \<in> set names" "r \<in> Require_of rr s"
    and "i < length states" "k < length states"
    and "sortRequire (NewSchema rr names) states ! i = r"
    and "sortRequire (NewSchema rr names) states ! k = s"
  shows "i < k"
proof (rule ccontr)
  let ?rr = "NewSchema rr names"
  let ?key = "slices_Index (rr_topology ?rr)"
  let ?xs = "sortRequire ?rr states"
  assume "\<not> i < k"
  have "sorted (map ?key ?xs)"
    unfolding sortRequire_def by (rule SliceStable_sorted_key [OF assms(3)])
  moreover have "length ?xs = length states" by (simp add: sortRequire_def)
  ultimately have "?key (?xs ! k) \<le> ?key (?xs ! i)"
    using sorted_nth_mono [of "map ?key ?xs" k i] \<open>\<not> i < k\<close> assms(6,7) by simp
  with NewSchema_index_less [OF assms(1,2,4,5)] assms(8,9) show False by simp
qed

theorem sortRequire_required_first_witness:
  "sortRequire (NewSchema (ex_rr [] MutationAdd []) (gkeys ex_schema)) [''A'', ''C''] = [''C'', ''A'']
   \<and> (0::nat) < 1"
proof
  show t: "sortRequire (NewSchema (ex_rr [] MutationAdd []) (gkeys ex_schema)) [''A'', ''C'']
      = [''C'', ''A'']" by code_simp
  have "require_rel ex_schema (gkeys ex_schema) = {(''A'', ''C'')}"
    by (auto simp: require_rel_def ex_gkeys ex_Get)
  then have ac: "acyclic (require_rel (rr_schema (ex_rr [] MutationAdd [])) (gkeys ex_schema))"
    by (simp add: acyclic_insert acyclic_def [of "{}"])
  show "(0::nat) < 1"
    by (rule sortRequire_required_first [OF _ ac, where states = "[''A'', ''C'']" and s = "''A''"
          and r = "''C''"]) (simp_all only: t, simp_all add: ex_gkeys ex_Get)
qed

text \<open>C36. The topological sort of the resolver succeeds exactly on acyclic graphs, and then lists every
  vertex once and after all its neighbours; on a cyclic graph it names a vertex of a cycle.\<close>

theorem TopologicalSort_correct:
  "(case TopologicalSort g of
      Inr stk \<Rightarrow> acyclic (edges g) \<and> distinct stk \<and> set (gkeys g) \<subseteq> set stk \<and> topo_ok g stk
    | Inl c \<Rightarrow> (c, c) \<in> (edges g)\<^sup>+)"
  using TopologicalSort_Inr [of g] TopologicalSort_Inr_acyclic [of g] TopologicalSort_Inl [of g]
  by (auto split: sum.splits)

text \<open>A \<open>Require\<close> cycle in the schema leaves the resolver with its previous topology.\<close>

theorem NewSchema_keeps_topology_on_cycle:
  assumes "distinct names" "(s, s) \<in> (require_rel (rr_schema rr) names)\<^sup>+"
  shows "NewSchema rr names = rr\<lparr>rr_Index := names\<rparr>"
  using assms NewSchema_cycle by (auto simp: acyclic_def)

theorem NewSchema_keeps_topology_on_cycle_witness:
  "NewSchema ((ex_rr [] MutationAdd [])\<lparr>rr_schema := [(''A'', ex_state [] [] [''A''] [])]\<rparr>) [''A'']
     = (ex_rr [] MutationAdd [])\<lparr>rr_schema := [(''A'', ex_state [] [] [''A''] [])],
         rr_Index := [''A'']\<rparr>"
proof -
  have "(''A'', ''A'') \<in> (require_rel [(''A'', ex_state [] [] [''A''] [])] [''A''])\<^sup>+"
    by (rule r_into_trancl) (simp add: require_rel_def Schema_Get_def gget_def)
  then show ?thesis
    using NewSchema_keeps_topology_on_cycle [of "[''A'']" "''A''"
      "(ex_rr [] MutationAdd [])\<lparr>rr_schema := [(''A'', ex_state [] [] [''A''] [])]\<rparr>"] by simp
qed

text \<open>The \<open>Remove\<close> relations of states implied at the second level are ignored: \<open>A\<close> implies \<open>B\<close>,
  \<open>B\<close> implies \<open>X\<close>, \<open>X\<close> removes the active \<open>F\<close>, and both \<open>X\<close> and \<open>F\<close> become targets.\<close>

theorem TargetStates_implied_conflict:
  "(case TargetStates (ex_rr [''C'', ''F''] MutationAdd [0]) [''A'', ''C'', ''F''] of
      Inl _ \<Rightarrow> False
    | Inr ts \<Rightarrow> ''X'' \<in> set ts \<and> ''F'' \<in> set ts)
   \<and> ''F'' \<in> set (sl (Remove (Schema_Get ex_schema ''X'')))"
  by code_simp

end
