(* ===== verification/Am_Time.thy ===== *)
theory Am_Time
  imports Am_States
begin

text \<open>
  Logical time: ticks, \<open>Time\<close>, \<open>TimeIndex\<close> and \<open>Clock\<close> of \<open>src/pkg/machine/mach_misc.go\<close>,
  \<open>src/pkg/machine/mach_utils.go\<close> and \<open>src/pkg/machine/types.go\<close>. A tick is a \<open>uint64\<close>; a state
  is active when its tick is odd. Reading a slice outside its bounds is the Go panic it is in the
  sources.
\<close>

type_synonym Time = "uint64 list"
type_synonym Clock = "(string, uint64) gomap"

record TimeIndex =
  ti_Time :: Time
  ti_Index :: S

section \<open>Ticks\<close>

definition IsActiveTick :: "uint64 \<Rightarrow> bool" where
  "IsActiveTick tick = (tick mod 2 = 1)"

definition NextActive :: "uint64 \<Rightarrow> uint64" where
  "NextActive tick = (if IsActiveTick tick then tick + 2 else tick + 1)"

definition NextInactive :: "uint64 \<Rightarrow> uint64" where
  "NextInactive tick = (if \<not> IsActiveTick tick then tick + 2 else tick + 1)"

definition NextActiveIn :: "uint64 \<Rightarrow> int" where
  "NextActiveIn tick = (if IsActiveTick tick then 2 else 1)"

definition NextInactiveIn :: "uint64 \<Rightarrow> int" where
  "NextInactiveIn tick = (if \<not> IsActiveTick tick then 2 else 1)"

section \<open>Clock\<close>

fun Clock_Sum_loop :: "Clock \<Rightarrow> S \<Rightarrow> uint64 \<Rightarrow> uint64" where
  "Clock_Sum_loop [] states acc = acc"
| "Clock_Sum_loop ((name, v) # rest) states acc =
     (if length states > 0 \<and> \<not> S_Has states name then Clock_Sum_loop rest states acc
      else Clock_Sum_loop rest states (acc + v))"

definition Clock_Sum :: "Clock \<Rightarrow> S \<Rightarrow> uint64" where
  "Clock_Sum c states = Clock_Sum_loop c states 0"

section \<open>Time\<close>

definition tget :: "Time \<Rightarrow> int \<Rightarrow> uint64 res" where
  "tget t idx = (if 0 \<le> idx \<and> idx < int (length t) then Inr (t ! nat idx)
     else Inl (GoPanic ''index out of range''))"

definition tset :: "Time \<Rightarrow> int \<Rightarrow> uint64 \<Rightarrow> Time res" where
  "tset t idx v = (if 0 \<le> idx \<and> idx < int (length t) then Inr (t[nat idx := v])
     else Inl (GoPanic ''index out of range''))"

fun mark_active :: "Time \<Rightarrow> int list \<Rightarrow> Time res" where
  "mark_active t [] = Inr t"
| "mark_active t (idx # idxs) = bindR (tset t idx 1) (\<lambda>t'. mark_active t' idxs)"

definition NewTime :: "Time \<Rightarrow> int list \<Rightarrow> Time res" where
  "NewTime index activeStates = mark_active (replicate (length index) 0) activeStates"

definition Time_Increment :: "Time \<Rightarrow> int \<Rightarrow> Time res" where
  "Time_Increment t idx =
     (if idx < int (length t) then bindR (tget t idx) (\<lambda>v. tset t idx (v + 1)) else Inr t)"

fun Time_String_loop :: "Time \<Rightarrow> string \<Rightarrow> string" where
  "Time_String_loop [] ret = ret"
| "Time_String_loop (tick # ticks) ret =
     Time_String_loop ticks
       ((if ret \<noteq> [] then ret @ '' '' else ret) @ strconv_Itoa (sint tick))"

definition Time_String :: "Time \<Rightarrow> string" where
  "Time_String t = Time_String_loop t []"

definition Time_Add :: "Time \<Rightarrow> Time \<Rightarrow> Time" where
  "Time_Add t t2 = (if length t \<noteq> length t2 then t else map2 (+) t t2)"

definition Time_ToIndex :: "Time \<Rightarrow> S \<Rightarrow> TimeIndex" where
  "Time_ToIndex t index = \<lparr>ti_Time = t, ti_Index = index\<rparr>"

definition Time_Filter :: "Time \<Rightarrow> int list \<Rightarrow> Time res" where
  "Time_Filter t idxs =
     mapR (\<lambda>idx. if idx \<ge> int (length t) then Inr 0 else tget t idx) idxs"

fun Time_Sum_sel :: "Time \<Rightarrow> int list \<Rightarrow> uint64 \<Rightarrow> uint64 res" where
  "Time_Sum_sel t [] acc = Inr acc"
| "Time_Sum_sel t (idx # idxs) acc =
     (if idx \<ge> int (length t) then Time_Sum_sel t idxs acc
      else bindR (tget t idx) (\<lambda>v. Time_Sum_sel t idxs (acc + v)))"

definition Time_SumAll :: "Time \<Rightarrow> uint64" where
  "Time_SumAll t = foldl (+) 0 t"

definition Time_Sum :: "Time \<Rightarrow> int list option \<Rightarrow> uint64 res" where
  "Time_Sum t idxs =
     (case idxs of None \<Rightarrow> Inr (Time_SumAll t) | Some is \<Rightarrow> Time_Sum_sel t is 0)"

definition Time_DiffSince :: "Time \<Rightarrow> Time \<Rightarrow> Time" where
  "Time_DiffSince t prior =
     (if length t \<noteq> length prior then replicate (length t) 0 else map2 (-) t prior)"

fun NonZeroStates_at :: "nat \<Rightarrow> Time \<Rightarrow> int list" where
  "NonZeroStates_at i [] = []"
| "NonZeroStates_at i (tick # ticks) =
     (if tick \<noteq> 0 then int i # NonZeroStates_at (Suc i) ticks else NonZeroStates_at (Suc i) ticks)"

definition Time_NonZeroStates :: "Time \<Rightarrow> int list" where
  "Time_NonZeroStates t = NonZeroStates_at 0 t"

fun Time_After :: "Time \<Rightarrow> bool \<Rightarrow> Time \<Rightarrow> bool" where
  "Time_After [] orEqual time2 = True"
| "Time_After (t1 # ts) orEqual [] = True"
| "Time_After (t1 # ts) orEqual (t2 # ts2) =
     (if t1 < t2 \<or> (t1 = t2 \<and> \<not> orEqual) then False else Time_After ts orEqual ts2)"

fun Time_Before :: "Time \<Rightarrow> bool \<Rightarrow> Time \<Rightarrow> bool" where
  "Time_Before [] orEqual time2 = True"
| "Time_Before (t1 # ts) orEqual [] = True"
| "Time_Before (t1 # ts) orEqual (t2 # ts2) =
     (if t1 > t2 \<or> (t1 = t2 \<and> \<not> orEqual) then False else Time_Before ts orEqual ts2)"

fun Time_Equal_loop :: "Time \<Rightarrow> Time \<Rightarrow> bool res" where
  "Time_Equal_loop [] time2 = Inr True"
| "Time_Equal_loop (t1 # ts) [] = Inl (GoPanic ''index out of range'')"
| "Time_Equal_loop (t1 # ts) (t2 # ts2) =
     (if t1 \<noteq> t2 then Inr False else Time_Equal_loop ts ts2)"

definition Time_Equal :: "Time \<Rightarrow> bool \<Rightarrow> Time \<Rightarrow> bool res" where
  "Time_Equal t strict time2 =
     (if strict \<and> length t \<noteq> length time2 then Inr False else Time_Equal_loop t time2)"

definition Time_Tick :: "Time \<Rightarrow> int \<Rightarrow> uint64 res" where
  "Time_Tick t idx = (if int (length t) \<le> idx then Inr 0 else tget t idx)"

definition Time_Is1 :: "Time \<Rightarrow> int \<Rightarrow> bool res" where
  "Time_Is1 t idx =
     (if idx = - 1 \<or> idx \<ge> int (length t) then Inr False
      else bindR (tget t idx) (\<lambda>v. Inr (IsActiveTick v)))"

fun Time_Is_loop :: "Time \<Rightarrow> int list \<Rightarrow> bool res" where
  "Time_Is_loop t [] = Inr True"
| "Time_Is_loop t (idx # idxs) =
     (if idx = - 1 then Inr False
      else bindR (tget t idx) (\<lambda>v. if \<not> IsActiveTick v then Inr False else Time_Is_loop t idxs))"

definition Time_Is :: "Time \<Rightarrow> int list \<Rightarrow> bool res" where
  "Time_Is t idxs = (if idxs = [] then Inr False else Time_Is_loop t idxs)"

fun Time_Not :: "Time \<Rightarrow> int list \<Rightarrow> bool res" where
  "Time_Not t [] = Inr True"
| "Time_Not t (idx # idxs) =
     (if idx = - 1 then Time_Not t idxs
      else bindR (tget t idx) (\<lambda>v. if IsActiveTick v then Inr False else Time_Not t idxs))"

definition Time_Not1 :: "Time \<Rightarrow> int \<Rightarrow> bool res" where
  "Time_Not1 t idx =
     (if idx = - 1 \<or> idx \<ge> int (length t) then Inr False
      else bindR (tget t idx) (\<lambda>v. Inr (\<not> IsActiveTick v)))"

fun Time_Any :: "Time \<Rightarrow> int list list \<Rightarrow> bool res" where
  "Time_Any t [] = Inr False"
| "Time_Any t (idxs # rest) = bindR (Time_Is t idxs) (\<lambda>b. if b then Inr True else Time_Any t rest)"

fun Time_Any1 :: "Time \<Rightarrow> int list \<Rightarrow> bool res" where
  "Time_Any1 t [] = Inr False"
| "Time_Any1 t (idx # rest) = bindR (Time_Is1 t idx) (\<lambda>b. if b then Inr True else Time_Any1 t rest)"

fun ActiveStates_at :: "nat \<Rightarrow> Time \<Rightarrow> int list" where
  "ActiveStates_at i [] = []"
| "ActiveStates_at i (tick # ticks) =
     (if \<not> IsActiveTick tick then ActiveStates_at (Suc i) ticks
      else int i # ActiveStates_at (Suc i) ticks)"

text \<open>The parameter \<open>idxs\<close> only sizes the result's capacity.\<close>

definition Time_ActiveStates :: "Time \<Rightarrow> int list option \<Rightarrow> int list" where
  "Time_ActiveStates t idxs = ActiveStates_at 0 t"

section \<open>TimeIndex\<close>

definition NewTimeIndex :: "S \<Rightarrow> int list \<Rightarrow> TimeIndex res" where
  "NewTimeIndex index activeStates =
     bindR (mark_active (replicate (length index) 0) activeStates)
       (\<lambda>t. Inr \<lparr>ti_Time = t, ti_Index = index\<rparr>)"

definition TimeIndex_StateName :: "TimeIndex \<Rightarrow> int \<Rightarrow> string res" where
  "TimeIndex_StateName t idx =
     (if idx \<ge> int (length (ti_Index t)) then Inr []
      else if idx < 0 then Inl (GoPanic ''index out of range'')
      else Inr (ti_Index t ! nat idx))"

definition TimeIndex_Sum :: "TimeIndex \<Rightarrow> S \<Rightarrow> uint64 res" where
  "TimeIndex_Sum t states = Time_Sum (ti_Time t) (Some (StatesToIndex (ti_Index t) states))"

definition TimeIndex_Filter :: "TimeIndex \<Rightarrow> S \<Rightarrow> TimeIndex res" where
  "TimeIndex_Filter t states =
     bindR (Time_Filter (ti_Time t) (StatesToIndex (ti_Index t) states))
       (\<lambda>ts. Inr (Time_ToIndex ts states))"

definition TimeIndex_NonZeroStates :: "TimeIndex \<Rightarrow> S res" where
  "TimeIndex_NonZeroStates t = IndexToStates (ti_Index t) (Time_NonZeroStates (ti_Time t))"

definition TimeIndex_Is :: "TimeIndex \<Rightarrow> S \<Rightarrow> bool res" where
  "TimeIndex_Is t states = Time_Is (ti_Time t) (StatesToIndex (ti_Index t) states)"

definition TimeIndex_Is1 :: "TimeIndex \<Rightarrow> string \<Rightarrow> bool res" where
  "TimeIndex_Is1 t state = Time_Is (ti_Time t) (StatesToIndex (ti_Index t) [state])"

definition TimeIndex_Not :: "TimeIndex \<Rightarrow> S \<Rightarrow> bool res" where
  "TimeIndex_Not t states = Time_Not (ti_Time t) (StatesToIndex (ti_Index t) states)"

definition TimeIndex_Not1 :: "TimeIndex \<Rightarrow> string \<Rightarrow> bool res" where
  "TimeIndex_Not1 t state = Time_Not (ti_Time t) (StatesToIndex (ti_Index t) [state])"

definition TimeIndex_Any :: "TimeIndex \<Rightarrow> S \<Rightarrow> bool res" where
  "TimeIndex_Any t states =
     Time_Any (ti_Time t) (map (\<lambda>state. StatesToIndex (ti_Index t) [state]) states)"

definition TimeIndex_Any1 :: "TimeIndex \<Rightarrow> S \<Rightarrow> bool res" where
  "TimeIndex_Any1 t states = Time_Any1 (ti_Time t) (StatesToIndex (ti_Index t) states)"

fun TimeIndex_ActiveStates_at :: "nat \<Rightarrow> Time \<Rightarrow> S \<Rightarrow> S option \<Rightarrow> S" where
  "TimeIndex_ActiveStates_at i [] index states = []"
| "TimeIndex_ActiveStates_at i (tick # ticks) index states =
     (if \<not> IsActiveTick tick then TimeIndex_ActiveStates_at (Suc i) ticks index states
      else (let name = (if length index > i then index ! i else ''unknown'' @ strconv_Itoa (int i))
            in if states \<noteq> None \<and> \<not> slices_Contains (sl states) name
               then TimeIndex_ActiveStates_at (Suc i) ticks index states
               else name # TimeIndex_ActiveStates_at (Suc i) ticks index states))"

definition TimeIndex_ActiveStates :: "TimeIndex \<Rightarrow> S option \<Rightarrow> S" where
  "TimeIndex_ActiveStates t states = TimeIndex_ActiveStates_at 0 (ti_Time t) (ti_Index t) states"

definition TimeIndex_String :: "TimeIndex \<Rightarrow> string" where
  "TimeIndex_String t = j (TimeIndex_ActiveStates t None)"

section \<open>Facts about ticks\<close>

lemma IsActiveTick_odd: "IsActiveTick t \<longleftrightarrow> odd t"
  by (simp add: IsActiveTick_def odd_iff_mod_2_eq_one)

lemma IsActiveTick_0 [simp]: "\<not> IsActiveTick 0"
  by (simp add: IsActiveTick_odd)

lemma IsActiveTick_1 [simp]: "IsActiveTick 1"
  by (simp add: IsActiveTick_odd)

text \<open>The parity of a tick survives the wrap-around at \<open>2^64\<close>, because the modulus is even.\<close>

lemma word_even_plus: "even (a + b) \<longleftrightarrow> (even a \<longleftrightarrow> even b)" for a b :: uint64
  by (simp add: even_add)

lemma IsActiveTick_plus1 [simp]: "IsActiveTick (t + 1) \<longleftrightarrow> \<not> IsActiveTick t"
  by (simp add: IsActiveTick_odd)

lemma IsActiveTick_plus2 [simp]: "IsActiveTick (t + 2) \<longleftrightarrow> IsActiveTick t"
  by (simp add: IsActiveTick_odd)

lemma tget_nth: "i < length t \<Longrightarrow> tget t (int i) = Inr (t ! i)"
  by (simp add: tget_def)

lemma Time_Add_DiffSince:
  assumes "length later = length prior"
  shows "Time_Add prior (Time_DiffSince later prior) = later"
  using assms by (auto simp: Time_Add_def Time_DiffSince_def intro!: nth_equalityI)

lemma Time_After_iff:
  "Time_After t orEqual t2 \<longleftrightarrow>
     (\<forall>i < min (length t) (length t2). t2 ! i < t ! i \<or> (orEqual \<and> t ! i = t2 ! i))"
proof (induction t orEqual t2 rule: Time_After.induct)
  case (3 t1 ts orEqual t2 ts2)
  then show ?case by (auto simp: less_Suc_eq_0_disj nth_Cons split: nat.splits)
qed auto

lemma Time_Before_iff:
  "Time_Before t orEqual t2 \<longleftrightarrow>
     (\<forall>i < min (length t) (length t2). t ! i < t2 ! i \<or> (orEqual \<and> t ! i = t2 ! i))"
proof (induction t orEqual t2 rule: Time_Before.induct)
  case (3 t1 ts orEqual t2 ts2)
  then show ?case by (auto simp: less_Suc_eq_0_disj nth_Cons split: nat.splits)
qed auto

end
