(* ===== verification/Am_Mutation.thy ===== *)
theory Am_Mutation
  imports Am_Time
begin

text \<open>
  Mutations, their arguments and transition steps: \<open>src/pkg/machine/mutation.go\<close>, the argument
  helpers of \<open>src/pkg/machine/schema.go\<close> and \<open>src/pkg/machine/mach_utils.go\<close>, and \<open>Event\<close> of
  \<open>src/pkg/machine/mach_misc.go\<close>. An argument value is a Go interface value: a plain one, a reference
  to something else, or one of the two typed arguments of the package. Channels, contexts and
  functions are opaque numbers.
\<close>

section \<open>Arguments\<close>

datatype Val =
    VNil | VStr string | VInt int | VBool bool | VRef nat
  | VException string
  | VCheck "nat option"

type_synonym A = "(string, Val) gomap"

definition APrefix :: string where "APrefix = ''_am''"

fun ArgsState :: "Val \<Rightarrow> string" where
  "ArgsState (VException err) = StateException"
| "ArgsState v = StateAny"

definition ArgIndex :: "Val \<Rightarrow> string" where
  "ArgIndex arg = APrefix @ ''__'' @ ArgsState arg"

definition Pass :: "Val list \<Rightarrow> A" where
  "Pass args = foldl (\<lambda>ret a. gput (ArgIndex a) a ret) [] args"

definition PassMerge :: "A list \<Rightarrow> A" where
  "PassMerge args = foldl (\<lambda>ret s. foldl (\<lambda>ret (k, v). gput k v ret) ret s) [] args"

text \<open>\<open>ParseArgs[AException]\<close> and \<open>ParseArgs[ACheck]\<close>: the typed argument, or its zero value.\<close>

definition ParseArgs_AException :: "A \<Rightarrow> string option" where
  "ParseArgs_AException args =
     (case gget args (APrefix @ ''__'' @ StateException) of
        Some (VException err) \<Rightarrow> Some err | _ \<Rightarrow> None)"

definition ParseArgs_ACheck :: "A \<Rightarrow> nat option" where
  "ParseArgs_ACheck args =
     (case gget args (APrefix @ ''__'' @ StateAny) of Some (VCheck ch) \<Rightarrow> ch | _ \<Rightarrow> None)"

text \<open>\<open>args1[k] != v\<close>: a missing key reads as the nil interface. Values are of comparable types.\<close>

fun compareArgs :: "A \<Rightarrow> A \<Rightarrow> bool" where
  "compareArgs args1 [] = True"
| "compareArgs args1 ((k, v) # rest) =
     (if ggetd VNil args1 k \<noteq> v then False else compareArgs args1 rest)"

section \<open>Mutations\<close>

record MutSource =
  ms_MachId :: string
  ms_TxId :: nat
  ms_MachTime :: uint64

record Mutation =
  mu_Type :: MutationType
  mu_Called :: "int list"
  mu_Args :: A
  mu_IsAuto :: bool
  mu_Source :: "MutSource option"
  mu_IsCheck :: bool
  mu_QueueTickNow :: uint64
  mu_QueueLen :: "32 word"
  mu_QueueTick :: uint64
  mu_QueueToken :: uint64
  mu_ctx :: "nat option"
  mu_eval :: "nat option"
  mu_evalSource :: string
  mu_cacheCalled :: "S option"

definition Mutation_zero :: Mutation where
  "Mutation_zero = \<lparr>mu_Type = MutationAdd, mu_Called = [], mu_Args = [], mu_IsAuto = False,
     mu_Source = None, mu_IsCheck = False, mu_QueueTickNow = 0, mu_QueueLen = 0, mu_QueueTick = 0,
     mu_QueueToken = 0, mu_ctx = None, mu_eval = None, mu_evalSource = [], mu_cacheCalled = None\<rparr>"

definition Mutation_IsCalled :: "Mutation \<Rightarrow> int \<Rightarrow> bool" where
  "Mutation_IsCalled m idx = slices_Contains (mu_Called m) idx"

definition Mutation_CalledIndex :: "Mutation \<Rightarrow> S \<Rightarrow> TimeIndex res" where
  "Mutation_CalledIndex m index = NewTimeIndex index (mu_Called m)"

definition Mutation_StringFromIndex :: "Mutation \<Rightarrow> S \<Rightarrow> string res" where
  "Mutation_StringFromIndex m index =
     (case NewTimeIndex index (mu_Called m) of
        Inl fault \<Rightarrow> Inl fault
      | Inr called \<Rightarrow> Inr (''['' @ MutationType_String (mu_Type m) @ ''] ''
          @ j (TimeIndex_ActiveStates called None)))"

definition Mutation_Clone :: "Mutation \<Rightarrow> Mutation" where
  "Mutation_Clone m =
     (let clone = Mutation_zero\<lparr>mu_Type := mu_Type m, mu_Called := mu_Called m, mu_Args := mu_Args m,
            mu_IsAuto := mu_IsAuto m, mu_Source := mu_Source m, mu_IsCheck := mu_IsCheck m,
            mu_ctx := mu_ctx m, mu_eval := mu_eval m, mu_evalSource := mu_evalSource m\<rparr>
      in if mu_cacheCalled m \<noteq> None then clone\<lparr>mu_cacheCalled := mu_cacheCalled m\<rparr> else clone)"

section \<open>Steps\<close>

datatype StepType =
    StepRelation | StepHandler | StepSet | StepRemove | StepRemoveNotActive | StepRequested
  | StepCancel

fun StepType_String :: "StepType \<Rightarrow> string" where
  "StepType_String StepRelation = ''rel''"
| "StepType_String StepHandler = ''handler''"
| "StepType_String StepSet = ''activate''"
| "StepType_String StepRemove = ''deactivate''"
| "StepType_String StepRemoveNotActive = ''deactivate-passive''"
| "StepType_String StepRequested = ''called''"
| "StepType_String StepCancel = ''cancel''"

record Step =
  st_Type :: StepType
  st_RelType :: Relation
  st_IsFinal :: bool
  st_IsSelf :: bool
  st_IsEnter :: bool
  st_FromState :: string
  st_FromStateIdx :: int
  st_ToState :: string
  st_ToStateIdx :: int

text \<open>An index below \<open>-1\<close> is a Go panic.\<close>

definition step_state :: "string \<Rightarrow> int \<Rightarrow> S \<Rightarrow> string res" where
  "step_state name idx index =
     (if name \<noteq> [] then Inr name
      else if idx = - 1 then Inr []
      else if idx < int (length index)
      then (if idx < 0 then Inl (GoPanic ''index out of range'') else Inr (index ! nat idx))
      else Inr [])"

definition Step_GetFromState :: "Step \<Rightarrow> S \<Rightarrow> string res" where
  "Step_GetFromState s index = step_state (st_FromState s) (st_FromStateIdx s) index"

definition Step_GetToState :: "Step \<Rightarrow> S \<Rightarrow> string res" where
  "Step_GetToState s index = step_state (st_ToState s) (st_ToStateIdx s) index"

definition step_suffix :: "Step \<Rightarrow> string \<Rightarrow> string" where
  "step_suffix s line =
     (if st_Type s \<noteq> StepHandler then []
      else if st_IsSelf s then line
      else if st_IsFinal s \<and> st_IsEnter s then SuffixState
      else if st_IsFinal s \<and> \<not> st_IsEnter s then SuffixEnd
      else if \<not> st_IsFinal s \<and> st_IsEnter s then SuffixEnter
      else SuffixExit)"

definition step_bold :: "string \<Rightarrow> string" where
  "step_bold name = (if name \<noteq> [] then ''**'' @ name @ ''**'' else name)"

definition Step_StringFromIndex :: "Step \<Rightarrow> S \<Rightarrow> string res" where
  "Step_StringFromIndex s idx =
     (case Step_GetFromState s idx of
        Inl fault \<Rightarrow> Inl fault
      | Inr from0 \<Rightarrow>
          (case Step_GetToState s idx of
             Inl fault \<Rightarrow> Inl fault
           | Inr to0 \<Rightarrow>
               (let to1 = (if from0 = [] \<and> to0 = [] then StateAny else to0);
                    from2 = step_bold from0; to2 = step_bold to1;
                    line0 = (if from2 \<noteq> [] \<and> to2 \<noteq> []
                             then from2 @ '' '' @ Relation_String (st_RelType s) @ '' '' @ to2
                             else from2);
                    line = (if line0 = [] then to2 else line0)
                in if st_Type s = StepRelation then Inr line
                   else Inr (StepType_String (st_Type s) @ '' '' @ line @ step_suffix s line))))"

definition newStep :: "string \<Rightarrow> string \<Rightarrow> StepType \<Rightarrow> Relation \<Rightarrow> Step" where
  "newStep frm to stepType relType =
     \<lparr>st_Type = stepType, st_RelType = relType, st_IsFinal = False, st_IsSelf = False,
      st_IsEnter = False, st_FromState = frm, st_FromStateIdx = (if frm = [] then - 1 else 0),
      st_ToState = to, st_ToStateIdx = (if to = [] then - 1 else 0)\<rparr>"

definition newSteps :: "string \<Rightarrow> S \<Rightarrow> StepType \<Rightarrow> Relation \<Rightarrow> Step list" where
  "newSteps frm toStates stepType relType = map (\<lambda>to. newStep frm to stepType relType) toStates"

section \<open>Facts\<close>

lemma compareArgs_iff: "compareArgs a1 a2 \<longleftrightarrow> (\<forall>(k, v) \<in> set a2. ggetd VNil a1 k = v)"
  by (induction a1 a2 rule: compareArgs.induct) auto

text \<open>The argument of an error reaches its handler.\<close>

lemma ParseArgs_Pass_AException: "ParseArgs_AException (Pass [VException err]) = Some err"
  by (simp add: ParseArgs_AException_def Pass_def ArgIndex_def)

end
