(* ===== verification/Am_Subs.thy ===== *)
theory Am_Subs
  imports Am_Mutation
begin

text \<open>
  The subscription manager, \<open>src/pkg/machine/subscriptions.go\<close>. Channels and contexts are numbers;
  channel 0 is the closed channel \<open>Closed\<close>. Every binding owns a fresh channel, so the channel also
  serves as the binding's address: \<open>sm_whenHeap\<close> and \<open>sm_whenTimeHeap\<close> hold the two kinds of bindings
  the sources update through shared pointers, the indexes hold addresses. The other bindings are
  never written and are values. \<open>expired c\<close> says that \<open>ctx.Err() != nil\<close>; \<open>is\<close> and \<open>not\<close> are the two
  callbacks into the machine. The clock of the manager is the machine's own map until \<open>SetClock\<close>
  replaces it (\<open>sm_clock\<close>). A map of the sources that is ranged over is visited in list order.
\<close>

type_synonym chan = nat
type_synonym ctx = nat

record CtxBinding =
  cb_Ctx :: ctx
  cb_State :: string
  cb_Tick :: uint64

record WhenBinding =
  wb_Ch :: chan
  wb_Negation :: bool
  wb_States :: "(string, bool) gomap"
  wb_Matched :: int
  wb_Total :: int
  wb_Ctx :: "ctx option"

record WhenTimeBinding =
  wt_Ch :: chan
  wt_Index :: "(string, nat) gomap"
  wt_Matched :: int
  wt_Total :: int
  wt_Times :: Time
  wt_Completed :: "(string, bool) gomap"
  wt_Ctx :: "ctx option"

record WhenTimeSumBinding =
  ws_Ch :: chan
  ws_MTime :: uint64
  ws_Ctx :: "ctx option"

record WhenArgsBinding =
  wa_ch :: chan
  wa_handler :: string
  wa_args :: A
  wa_ctx :: "ctx option"

record whenQueryBinding =
  wq_ch :: chan
  wq_ctx :: "ctx option"
  wq_fn :: nat

record whenQueueBinding =
  wu_ch :: chan
  wu_tick :: Result

record Subscriptions =
  sm_next :: nat
  sm_clock :: "Clock option"
  sm_stateCtx :: "(string, CtxBinding) gomap"
  sm_when :: "(string, chan list) gomap"
  sm_whenHeap :: "(chan, WhenBinding) gomap"
  sm_whenCtx :: "(ctx, chan list) gomap"
  sm_whenTime :: "(string, chan list) gomap"
  sm_whenTimeHeap :: "(chan, WhenTimeBinding) gomap"
  sm_whenTimeCtx :: "(ctx, chan list) gomap"
  sm_whenTimeSum :: "WhenTimeSumBinding list"
  sm_whenTimeSumCtx :: "(ctx, WhenTimeSumBinding list) gomap"
  sm_whenArgs :: "(string, WhenArgsBinding list) gomap"
  sm_whenArgsCtx :: "(ctx, WhenArgsBinding list) gomap"
  sm_whenQuery :: "whenQueryBinding list"
  sm_whenQueryCtx :: "(ctx, whenQueryBinding list) gomap"
  sm_whenQueueEnds :: "chan list"
  sm_whenQueue :: "whenQueueBinding list"

definition Closed :: chan where "Closed = 0"

definition NewSubscriptionManager :: Subscriptions where
  "NewSubscriptionManager = \<lparr>sm_next = 1, sm_clock = None, sm_stateCtx = [], sm_when = [],
     sm_whenHeap = [], sm_whenCtx = [], sm_whenTime = [], sm_whenTimeHeap = [], sm_whenTimeCtx = [],
     sm_whenTimeSum = [], sm_whenTimeSumCtx = [], sm_whenArgs = [], sm_whenArgsCtx = [],
     sm_whenQuery = [], sm_whenQueryCtx = [], sm_whenQueueEnds = [], sm_whenQueue = []\<rparr>"

definition sub_clock :: "Subscriptions \<Rightarrow> Clock \<Rightarrow> Clock" where
  "sub_clock sm mclock = (case sm_clock sm of None \<Rightarrow> mclock | Some c \<Rightarrow> c)"

definition ctx_expired :: "(ctx \<Rightarrow> bool) \<Rightarrow> ctx option \<Rightarrow> bool" where
  "ctx_expired expired c = (case c of None \<Rightarrow> False | Some i \<Rightarrow> expired i)"

text \<open>\<open>m[k] = slicesWithout(m[k], b); if len(m[k]) == 0 { delete(m, k) }\<close>\<close>

definition ctx_without :: "ctx option \<Rightarrow> bool \<Rightarrow> 'b \<Rightarrow> (ctx, 'b list) gomap \<Rightarrow> (ctx, 'b list) gomap" where
  "ctx_without c gcCtx b m =
     (case c of
        None \<Rightarrow> m
      | Some i \<Rightarrow>
          (if \<not> gcCtx then m
           else let m' = gput i (slicesWithout (ggetd [] m i) b) m in
             if length (ggetd [] m' i) = 0 then gdel i m' else m'))"

text \<open>Removal of a binding from an index: the whole entry when it is the only one.\<close>

definition index_without :: "'k \<Rightarrow> 'b \<Rightarrow> ('k, 'b list) gomap \<Rightarrow> ('k, 'b list) gomap" where
  "index_without k b m =
     (if length (ggetd [] m k) = 1 then gdel k m
      else gput k (slicesWithout (ggetd [] m k) b) m)"

section \<open>State contexts\<close>

fun collect_ctx :: "S \<Rightarrow> (string, CtxBinding) gomap \<times> ctx list \<Rightarrow> (string, CtxBinding) gomap \<times> ctx list" where
  "collect_ctx [] st = st"
| "collect_ctx (s # ss) (m, toCancel) =
     (case gget m s of
        None \<Rightarrow> collect_ctx ss (m, toCancel)
      | Some b \<Rightarrow> collect_ctx ss (gdel s m, toCancel @ [cb_Ctx b]))"

definition ProcessStateCtx :: "Subscriptions \<Rightarrow> S \<Rightarrow> S \<Rightarrow> Subscriptions \<times> ctx list" where
  "ProcessStateCtx sm activated deactivated =
     (case collect_ctx deactivated (collect_ctx activated (sm_stateCtx sm, [])) of
        (m, toCancel) \<Rightarrow> (sm\<lparr>sm_stateCtx := m\<rparr>, toCancel))"

definition sub_NewStateCtx :: "Subscriptions \<Rightarrow> Clock \<Rightarrow> string \<Rightarrow> Subscriptions \<times> ctx" where
  "sub_NewStateCtx sm mclock state =
     (case gget (sm_stateCtx sm) state of
        Some b \<Rightarrow> (sm, cb_Ctx b)
      | None \<Rightarrow>
          (let b = \<lparr>cb_Ctx = sm_next sm, cb_State = state,
                    cb_Tick = ggetd 0 (sub_clock sm mclock) state\<rparr>
           in (sm\<lparr>sm_next := sm_next sm + 1, sm_stateCtx := gput state b (sm_stateCtx sm)\<rparr>, sm_next sm)))"

section \<open>When and WhenNot\<close>

fun gcWhen_states :: "WhenBinding \<Rightarrow> bool \<Rightarrow> S \<Rightarrow> Subscriptions \<Rightarrow> Subscriptions" where
  "gcWhen_states binding gcCtx [] sm = sm"
| "gcWhen_states binding gcCtx (state # states) sm =
     (let sm1 = sm\<lparr>sm_whenCtx := ctx_without (wb_Ctx binding) gcCtx (wb_Ch binding) (sm_whenCtx sm)\<rparr>;
          sm2 = sm1\<lparr>sm_when := index_without state (wb_Ch binding) (sm_when sm1)\<rparr>
      in gcWhen_states binding gcCtx states sm2)"

text \<open>The binding's record is garbage afterwards: no index refers to it any more.\<close>

definition gcWhenBinding :: "WhenBinding \<Rightarrow> bool \<Rightarrow> Subscriptions \<Rightarrow> Subscriptions" where
  "gcWhenBinding binding gcCtx sm =
     (let sm' = gcWhen_states binding gcCtx (gkeys (wb_States binding)) sm
      in sm'\<lparr>sm_whenHeap := gdel (wb_Ch binding) (sm_whenHeap sm')\<rparr>)"

definition when_binding :: "Subscriptions \<Rightarrow> chan \<Rightarrow> WhenBinding" where
  "when_binding sm p =
     (case gget (sm_whenHeap sm) p of
        Some b \<Rightarrow> b
      | None \<Rightarrow> \<lparr>wb_Ch = p, wb_Negation = False, wb_States = [], wb_Matched = 0, wb_Total = 0,
                 wb_Ctx = None\<rparr>)"

fun gc_whens :: "chan list \<Rightarrow> Subscriptions \<times> chan list \<Rightarrow> Subscriptions \<times> chan list" where
  "gc_whens [] st = st"
| "gc_whens (p # ps) (sm, ret) =
     gc_whens ps (gcWhenBinding (when_binding sm p) False sm, ret @ [p])"

fun processWhenCtx_loop ::
  "(ctx \<Rightarrow> bool) \<Rightarrow> (ctx, chan list) gomap \<Rightarrow> Subscriptions \<times> chan list \<Rightarrow> Subscriptions \<times> chan list" where
  "processWhenCtx_loop expired [] st = st"
| "processWhenCtx_loop expired ((c, bindings) # rest) st =
     (if \<not> expired c then processWhenCtx_loop expired rest st
      else (case gc_whens bindings st of (sm, ret) \<Rightarrow>
        processWhenCtx_loop expired rest (sm\<lparr>sm_whenCtx := gdel c (sm_whenCtx sm)\<rparr>, ret)))"

definition processWhenCtx :: "(ctx \<Rightarrow> bool) \<Rightarrow> Subscriptions \<Rightarrow> Subscriptions \<times> chan list" where
  "processWhenCtx expired sm = processWhenCtx_loop expired (sm_whenCtx sm) (sm, [])"

text \<open>The binding after one of its states was activated or deactivated.\<close>

definition when_tick :: "bool \<Rightarrow> string \<Rightarrow> WhenBinding \<Rightarrow> WhenBinding" where
  "when_tick active s b =
     (let known = ggetd False (wb_States b) s;
          matched =
            (if active then
               (if \<not> wb_Negation b then (if \<not> known then wb_Matched b + 1 else wb_Matched b)
                else (if \<not> known then wb_Matched b - 1 else wb_Matched b))
             else
               (if \<not> wb_Negation b then (if known then wb_Matched b - 1 else wb_Matched b)
                else (if known then wb_Matched b + 1 else wb_Matched b)))
      in b\<lparr>wb_Matched := matched, wb_States := gput s active (wb_States b)\<rparr>)"

fun processWhen_bindings ::
  "bool \<Rightarrow> string \<Rightarrow> chan list \<Rightarrow> Subscriptions \<times> chan list \<Rightarrow> Subscriptions \<times> chan list" where
  "processWhen_bindings active s [] st = st"
| "processWhen_bindings active s (p # ps) (sm, ret) =
     (let b = when_tick active s (when_binding sm p);
          sm1 = sm\<lparr>sm_whenHeap := gput p b (sm_whenHeap sm)\<rparr>
      in if wb_Matched b < wb_Total b then processWhen_bindings active s ps (sm1, ret)
         else processWhen_bindings active s ps (gcWhenBinding b True sm1, ret @ [wb_Ch b]))"

fun processWhen_states ::
  "S \<Rightarrow> S \<Rightarrow> Subscriptions \<times> chan list \<Rightarrow> Subscriptions \<times> chan list" where
  "processWhen_states activated [] st = st"
| "processWhen_states activated (s # ss) (sm, ret) =
     processWhen_states activated ss
       (processWhen_bindings (slices_Contains activated s) s (ggetd [] (sm_when sm) s) (sm, ret))"

definition ProcessWhen :: "(ctx \<Rightarrow> bool) \<Rightarrow> Subscriptions \<Rightarrow> S \<Rightarrow> S \<Rightarrow> Subscriptions \<times> chan list" where
  "ProcessWhen expired sm activated deactivated =
     processWhen_states activated (activated @ deactivated) (processWhenCtx expired sm)"

text \<open>\<open>When\<close> and \<open>WhenNot\<close> differ in the early test and the negation; both look for a binding of the
  same states and context under the first state. \<open>states[0]\<close> of an empty list is a panic.\<close>

fun find_when :: "bool \<Rightarrow> S \<Rightarrow> ctx option \<Rightarrow> WhenBinding list \<Rightarrow> chan option" where
  "find_when neg states c [] = None"
| "find_when neg states c (b # bs) =
     (if wb_Negation b = neg \<and> S_Equal (gkeys (wb_States b)) states \<and> wb_Ctx b = c
      then Some (wb_Ch b) else find_when neg states c bs)"

definition new_when :: "(S \<Rightarrow> bool) \<Rightarrow> bool \<Rightarrow> S \<Rightarrow> ctx option \<Rightarrow> Subscriptions \<Rightarrow> Subscriptions \<times> chan" where
  "new_when is neg states c sm =
     (let ch = sm_next sm;
          setMap = foldl (\<lambda>m s. gput s (is [s]) m) [] states;
          matched = length (filter (\<lambda>s. is [s] \<noteq> neg) states);
          b = \<lparr>wb_Ch = ch, wb_Negation = neg, wb_States = setMap, wb_Matched = int matched,
               wb_Total = int (length states), wb_Ctx = c\<rparr>;
          sm1 = sm\<lparr>sm_next := ch + 1, sm_whenHeap := gput ch b (sm_whenHeap sm),
                  sm_when := foldl (\<lambda>w s. gput s (ggetd [] w s @ [ch]) w) (sm_when sm) states\<rparr>
      in ((case c of
             None \<Rightarrow> sm1
           | Some i \<Rightarrow> sm1\<lparr>sm_whenCtx := gput i (ggetd [] (sm_whenCtx sm1) i @ [ch]) (sm_whenCtx sm1)\<rparr>),
          ch))"

definition sub_when ::
  "(S \<Rightarrow> bool) \<Rightarrow> bool \<Rightarrow> Subscriptions \<Rightarrow> S \<Rightarrow> ctx option \<Rightarrow> (Subscriptions \<times> chan) res" where
  "sub_when is neg sm states c =
     (case states of
        [] \<Rightarrow> Inl (GoPanic ''index out of range'')
      | s0 # _ \<Rightarrow>
          (case find_when neg states c (map (when_binding sm) (ggetd [] (sm_when sm) s0)) of
             Some ch \<Rightarrow> Inr (sm, ch)
           | None \<Rightarrow> Inr (new_when is neg states c sm)))"

definition sub_When ::
  "(ctx \<Rightarrow> bool) \<Rightarrow> (S \<Rightarrow> bool) \<Rightarrow> Subscriptions \<Rightarrow> S \<Rightarrow> ctx option \<Rightarrow> (Subscriptions \<times> chan) res" where
  "sub_When expired is sm states c =
     (if is states \<or> ctx_expired expired c then Inr (sm, Closed) else sub_when is False sm states c)"

definition sub_WhenNot ::
  "(ctx \<Rightarrow> bool) \<Rightarrow> (S \<Rightarrow> bool) \<Rightarrow> (S \<Rightarrow> bool) \<Rightarrow> Subscriptions \<Rightarrow> S \<Rightarrow> ctx option \<Rightarrow> (Subscriptions \<times> chan) res" where
  "sub_WhenNot expired is no sm states c =
     (if no states \<or> ctx_expired expired c then Inr (sm, Closed) else sub_when is True sm states c)"

section \<open>WhenTime\<close>

fun gcWhenTime_states :: "WhenTimeBinding \<Rightarrow> bool \<Rightarrow> S \<Rightarrow> Subscriptions \<Rightarrow> Subscriptions" where
  "gcWhenTime_states binding gcCtx [] sm = sm"
| "gcWhenTime_states binding gcCtx (state # states) sm =
     (let sm1 = sm\<lparr>sm_whenTimeCtx := ctx_without (wt_Ctx binding) gcCtx (wt_Ch binding) (sm_whenTimeCtx sm)\<rparr>;
          sm2 = sm1\<lparr>sm_whenTime := index_without state (wt_Ch binding) (sm_whenTime sm1)\<rparr>
      in gcWhenTime_states binding gcCtx states sm2)"

definition gcWhenTimeBinding :: "WhenTimeBinding \<Rightarrow> bool \<Rightarrow> Subscriptions \<Rightarrow> Subscriptions" where
  "gcWhenTimeBinding binding gcCtx sm =
     (let sm' = gcWhenTime_states binding gcCtx (gkeys (wt_Index binding)) sm
      in sm'\<lparr>sm_whenTimeHeap := gdel (wt_Ch binding) (sm_whenTimeHeap sm')\<rparr>)"

definition when_time_binding :: "Subscriptions \<Rightarrow> chan \<Rightarrow> WhenTimeBinding" where
  "when_time_binding sm p =
     (case gget (sm_whenTimeHeap sm) p of
        Some b \<Rightarrow> b
      | None \<Rightarrow> \<lparr>wt_Ch = p, wt_Index = [], wt_Matched = 0, wt_Total = 0, wt_Times = [],
                 wt_Completed = [], wt_Ctx = None\<rparr>)"

fun gc_whenTimes :: "chan list \<Rightarrow> Subscriptions \<times> chan list \<Rightarrow> Subscriptions \<times> chan list" where
  "gc_whenTimes [] st = st"
| "gc_whenTimes (p # ps) (sm, ret) =
     gc_whenTimes ps (gcWhenTimeBinding (when_time_binding sm p) False sm, ret @ [p])"

fun processWhenTimeCtx_loop ::
  "(ctx \<Rightarrow> bool) \<Rightarrow> (ctx, chan list) gomap \<Rightarrow> Subscriptions \<times> chan list \<Rightarrow> Subscriptions \<times> chan list" where
  "processWhenTimeCtx_loop expired [] st = st"
| "processWhenTimeCtx_loop expired ((c, bindings) # rest) (sm, ret) =
     (if \<not> expired c then processWhenTimeCtx_loop expired rest (sm, ret)
      else processWhenTimeCtx_loop expired rest
        (gc_whenTimes bindings (sm\<lparr>sm_whenTimeCtx := gdel c (sm_whenTimeCtx sm)\<rparr>, ret)))"

definition processWhenTimeCtx :: "(ctx \<Rightarrow> bool) \<Rightarrow> Subscriptions \<Rightarrow> Subscriptions \<times> chan list" where
  "processWhenTimeCtx expired sm = processWhenTimeCtx_loop expired (sm_whenTimeCtx sm) (sm, [])"

text \<open>The requested tick of state \<open>s\<close>: \<open>binding.Times[binding.Index[s]]\<close>.\<close>

definition wt_time :: "WhenTimeBinding \<Rightarrow> string \<Rightarrow> uint64" where
  "wt_time b s = wt_Times b ! ggetd 0 (wt_Index b) s"

definition when_time_tick :: "Clock \<Rightarrow> string \<Rightarrow> WhenTimeBinding \<Rightarrow> WhenTimeBinding" where
  "when_time_tick clock s b =
     (if \<not> ggetd False (wt_Completed b) s \<and> ggetd 0 clock s \<ge> wt_time b s
      then b\<lparr>wt_Matched := wt_Matched b + 1, wt_Completed := gput s True (wt_Completed b)\<rparr>
      else b)"

fun processWhenTime_bindings ::
  "(ctx \<Rightarrow> bool) \<Rightarrow> Clock \<Rightarrow> string \<Rightarrow> chan list \<Rightarrow> Subscriptions \<times> chan list \<Rightarrow> Subscriptions \<times> chan list" where
  "processWhenTime_bindings expired clock s [] st = st"
| "processWhenTime_bindings expired clock s (p # ps) (sm, ret) =
     (let b = when_time_tick clock s (when_time_binding sm p);
          sm1 = sm\<lparr>sm_whenTimeHeap := gput p b (sm_whenTimeHeap sm)\<rparr>
      in if wt_Matched b < wt_Total b \<and> \<not> ctx_expired expired (wt_Ctx b)
         then processWhenTime_bindings expired clock s ps (sm1, ret)
         else processWhenTime_bindings expired clock s ps (gcWhenTimeBinding b True sm1, ret @ [wt_Ch b]))"

fun processWhenTime_states ::
  "(ctx \<Rightarrow> bool) \<Rightarrow> Clock \<Rightarrow> S \<Rightarrow> Subscriptions \<times> chan list \<Rightarrow> Subscriptions \<times> chan list" where
  "processWhenTime_states expired clock [] st = st"
| "processWhenTime_states expired clock (s # ss) (sm, ret) =
     processWhenTime_states expired clock ss
       (processWhenTime_bindings expired clock s (ggetd [] (sm_whenTime sm) s) (sm, ret))"

definition ProcessWhenTime ::
  "(ctx \<Rightarrow> bool) \<Rightarrow> Clock \<Rightarrow> Subscriptions \<Rightarrow> Clock \<Rightarrow> Subscriptions \<times> chan list" where
  "ProcessWhenTime expired mclock sm prior =
     (let clock = sub_clock sm mclock;
          allTicked = map fst (filter (\<lambda>(state, t). ggetd 0 clock state \<noteq> t) prior)
      in processWhenTime_states expired clock allTicked (processWhenTimeCtx expired sm))"

definition statesToMapIndex :: "S \<Rightarrow> (string, nat) gomap" where
  "statesToMapIndex states =
     fst (foldl (\<lambda>(m, i) s. (gput s i m, Suc i)) ([], 0) states)"

text \<open>\<open>maps.Equal\<close>: the same keys with the same values.\<close>

definition maps_Equal :: "('k, 'v) gomap \<Rightarrow> ('k, 'v) gomap \<Rightarrow> bool" where
  "maps_Equal m1 m2 = (length m1 = length m2 \<and> list_all (\<lambda>(k, v). gget m2 k = Some v) m1)"

fun find_when_time :: "S \<Rightarrow> Time \<Rightarrow> ctx option \<Rightarrow> WhenTimeBinding list \<Rightarrow> chan option res" where
  "find_when_time states ticks c [] = Inr None"
| "find_when_time states ticks c (b # bs) =
     (case Time_Equal (wt_Times b) True ticks of
        Inl fault \<Rightarrow> Inl fault
      | Inr eq \<Rightarrow>
          (if eq \<and> maps_Equal (statesToMapIndex states) (wt_Index b) \<and> wt_Ctx b = c
           then Inr (Some (wt_Ch b)) else find_when_time states ticks c bs))"

definition new_when_time ::
  "Clock \<Rightarrow> S \<Rightarrow> Time \<Rightarrow> ctx option \<Rightarrow> Subscriptions \<Rightarrow> Subscriptions \<times> chan" where
  "new_when_time clock states ticks c sm =
     (let ch = sm_next sm;
          passed = (\<lambda>(s, t). ggetd 0 clock s \<ge> t);
          completed = foldl (\<lambda>m (s, t). gput s (ggetd 0 clock s \<ge> t) m) [] (zip states ticks);
          b = \<lparr>wt_Ch = ch, wt_Index = statesToMapIndex states,
               wt_Matched = int (length (filter passed (zip states ticks))),
               wt_Total = int (length states), wt_Times = ticks, wt_Completed = completed, wt_Ctx = c\<rparr>;
          sm1 = sm\<lparr>sm_next := ch + 1, sm_whenTimeHeap := gput ch b (sm_whenTimeHeap sm),
                  sm_whenTime := foldl (\<lambda>w s. gput s (ggetd [] w s @ [ch]) w) (sm_whenTime sm) states\<rparr>
      in ((case c of
             None \<Rightarrow> sm1
           | Some i \<Rightarrow> sm1\<lparr>sm_whenTimeCtx :=
               gput i (ggetd [] (sm_whenTimeCtx sm1) i @ [ch]) (sm_whenTimeCtx sm1)\<rparr>),
          ch))"

text \<open>The caller has checked that there is one tick per state.\<close>

definition sub_WhenTime ::
  "(ctx \<Rightarrow> bool) \<Rightarrow> Clock \<Rightarrow> Subscriptions \<Rightarrow> S \<Rightarrow> Time \<Rightarrow> ctx option \<Rightarrow> (Subscriptions \<times> chan) res" where
  "sub_WhenTime expired mclock sm states ticks c =
     (case states of
        [] \<Rightarrow> Inl (GoPanic ''index out of range'')
      | s0 # _ \<Rightarrow>
          (case find_when_time states ticks c
                  (map (when_time_binding sm) (ggetd [] (sm_whenTime sm) s0)) of
             Inl fault \<Rightarrow> Inl fault
           | Inr (Some ch) \<Rightarrow> Inr (sm, ch)
           | Inr None \<Rightarrow>
               (if list_all (\<lambda>(s, t). \<not> ggetd 0 (sub_clock sm mclock) s < t) (zip states ticks)
                   \<or> ctx_expired expired c
                then Inr (sm, Closed)
                else Inr (new_when_time (sub_clock sm mclock) states ticks c sm))))"

section \<open>WhenTimeSum\<close>

text \<open>\<open>processWhenTimeSumCtx\<close> deletes the expired context from \<open>whenTimeCtx\<close>, not from its own map.\<close>

definition gcWhenTimeSumBinding :: "WhenTimeSumBinding \<Rightarrow> bool \<Rightarrow> Subscriptions \<Rightarrow> Subscriptions" where
  "gcWhenTimeSumBinding binding gcCtx sm =
     (if \<not> slices_Contains (sm_whenTimeSum sm) binding then sm
      else sm\<lparr>sm_whenTimeSumCtx := ctx_without (ws_Ctx binding) gcCtx binding (sm_whenTimeSumCtx sm),
             sm_whenTimeSum := slicesWithout (sm_whenTimeSum sm) binding\<rparr>)"

fun gc_whenTimeSums ::
  "WhenTimeSumBinding list \<Rightarrow> Subscriptions \<times> chan list \<Rightarrow> Subscriptions \<times> chan list" where
  "gc_whenTimeSums [] st = st"
| "gc_whenTimeSums (b # bs) (sm, ret) =
     gc_whenTimeSums bs (gcWhenTimeSumBinding b False sm, ret @ [ws_Ch b])"

fun processWhenTimeSumCtx_loop ::
  "(ctx \<Rightarrow> bool) \<Rightarrow> (ctx, WhenTimeSumBinding list) gomap \<Rightarrow> Subscriptions \<times> chan list
     \<Rightarrow> Subscriptions \<times> chan list" where
  "processWhenTimeSumCtx_loop expired [] st = st"
| "processWhenTimeSumCtx_loop expired ((c, bindings) # rest) (sm, ret) =
     (if \<not> expired c then processWhenTimeSumCtx_loop expired rest (sm, ret)
      else processWhenTimeSumCtx_loop expired rest
        (gc_whenTimeSums bindings (sm\<lparr>sm_whenTimeCtx := gdel c (sm_whenTimeCtx sm)\<rparr>, ret)))"

definition processWhenTimeSumCtx :: "(ctx \<Rightarrow> bool) \<Rightarrow> Subscriptions \<Rightarrow> Subscriptions \<times> chan list" where
  "processWhenTimeSumCtx expired sm = processWhenTimeSumCtx_loop expired (sm_whenTimeSumCtx sm) (sm, [])"

fun whenTimeSum_loop ::
  "uint64 \<Rightarrow> WhenTimeSumBinding list \<Rightarrow> Subscriptions \<times> chan list \<Rightarrow> Subscriptions \<times> chan list" where
  "whenTimeSum_loop mtime [] st = st"
| "whenTimeSum_loop mtime (b # bs) (sm, ret) =
     (if ws_MTime b > mtime then (sm, ret)
      else whenTimeSum_loop mtime bs (gcWhenTimeSumBinding b True sm, ret @ [ws_Ch b]))"

definition ProcessWhenTimeSum ::
  "(ctx \<Rightarrow> bool) \<Rightarrow> Clock \<Rightarrow> Subscriptions \<Rightarrow> Subscriptions \<times> chan list" where
  "ProcessWhenTimeSum expired mclock sm =
     (case processWhenTimeSumCtx expired sm of (sm1, ret) \<Rightarrow>
        whenTimeSum_loop (Clock_Sum (sub_clock sm1 mclock) []) (sm_whenTimeSum sm1) (sm1, ret))"

text \<open>The bindings are kept ordered by their machine time.\<close>

fun insert_time_sum :: "WhenTimeSumBinding \<Rightarrow> WhenTimeSumBinding list \<Rightarrow> WhenTimeSumBinding list" where
  "insert_time_sum b [] = [b]"
| "insert_time_sum b (x # xs) =
     (if ws_MTime x < ws_MTime b then x # insert_time_sum b xs else b # x # xs)"

definition sub_WhenTimeSum :: "Clock \<Rightarrow> Subscriptions \<Rightarrow> uint64 \<Rightarrow> ctx option \<Rightarrow> Subscriptions \<times> chan" where
  "sub_WhenTimeSum mclock sm mtime c =
     (case filter (\<lambda>b. ws_MTime b = mtime) (sm_whenTimeSum sm) of
        b # _ \<Rightarrow> (sm, ws_Ch b)
      | [] \<Rightarrow>
          (if Clock_Sum (sub_clock sm mclock) [] \<ge> mtime then (sm, Closed)
           else let ch = sm_next sm; b = \<lparr>ws_Ch = ch, ws_MTime = mtime, ws_Ctx = c\<rparr>;
                  sm1 = sm\<lparr>sm_next := ch + 1, sm_whenTimeSum := insert_time_sum b (sm_whenTimeSum sm)\<rparr>
                in ((case c of
                       None \<Rightarrow> sm1
                     | Some i \<Rightarrow> sm1\<lparr>sm_whenTimeSumCtx :=
                         gput i (ggetd [] (sm_whenTimeSumCtx sm1) i @ [b]) (sm_whenTimeSumCtx sm1)\<rparr>),
                    ch)))"

section \<open>WhenArgs\<close>

definition gcWhenArgsBinding :: "WhenArgsBinding \<Rightarrow> bool \<Rightarrow> Subscriptions \<Rightarrow> Subscriptions" where
  "gcWhenArgsBinding binding gcCtx sm =
     (let sm1 = sm\<lparr>sm_whenArgsCtx := ctx_without (wa_ctx binding) gcCtx binding (sm_whenArgsCtx sm)\<rparr>
      in sm1\<lparr>sm_whenArgs := index_without (wa_handler binding) binding (sm_whenArgs sm1)\<rparr>)"

fun gc_whenArgs :: "WhenArgsBinding list \<Rightarrow> Subscriptions \<times> chan list \<Rightarrow> Subscriptions \<times> chan list" where
  "gc_whenArgs [] st = st"
| "gc_whenArgs (b # bs) (sm, ret) = gc_whenArgs bs (gcWhenArgsBinding b False sm, ret @ [wa_ch b])"

fun processWhenArgsCtx_loop ::
  "(ctx \<Rightarrow> bool) \<Rightarrow> (ctx, WhenArgsBinding list) gomap \<Rightarrow> Subscriptions \<times> chan list
     \<Rightarrow> Subscriptions \<times> chan list" where
  "processWhenArgsCtx_loop expired [] st = st"
| "processWhenArgsCtx_loop expired ((c, bindings) # rest) (sm, ret) =
     (if \<not> expired c then processWhenArgsCtx_loop expired rest (sm, ret)
      else processWhenArgsCtx_loop expired rest
        (gc_whenArgs bindings (sm\<lparr>sm_whenArgsCtx := gdel c (sm_whenArgsCtx sm)\<rparr>, ret)))"

definition processWhenArgsCtx :: "(ctx \<Rightarrow> bool) \<Rightarrow> Subscriptions \<Rightarrow> Subscriptions \<times> chan list" where
  "processWhenArgsCtx expired sm = processWhenArgsCtx_loop expired (sm_whenArgsCtx sm) (sm, [])"

fun processWhenArgs_bindings ::
  "(ctx \<Rightarrow> bool) \<Rightarrow> A \<Rightarrow> WhenArgsBinding list \<Rightarrow> Subscriptions \<times> chan list \<Rightarrow> Subscriptions \<times> chan list" where
  "processWhenArgs_bindings expired args [] st = st"
| "processWhenArgs_bindings expired args (b # bs) (sm, ret) =
     (if \<not> compareArgs args (wa_args b) \<and> \<not> ctx_expired expired (wa_ctx b)
      then processWhenArgs_bindings expired args bs (sm, ret)
      else processWhenArgs_bindings expired args bs (gcWhenArgsBinding b True sm, ret @ [wa_ch b]))"

definition ProcessWhenArgs ::
  "(ctx \<Rightarrow> bool) \<Rightarrow> Subscriptions \<Rightarrow> string \<Rightarrow> A \<Rightarrow> Subscriptions \<times> chan list" where
  "ProcessWhenArgs expired sm name args =
     (case processWhenArgsCtx expired sm of (sm1, ret) \<Rightarrow>
        processWhenArgs_bindings expired args (ggetd [] (sm_whenArgs sm1) name) (sm1, ret))"

definition sub_WhenArgs ::
  "(ctx \<Rightarrow> bool) \<Rightarrow> Subscriptions \<Rightarrow> string \<Rightarrow> A \<Rightarrow> ctx option \<Rightarrow> Subscriptions \<times> chan" where
  "sub_WhenArgs expired sm state args c =
     (if ctx_expired expired c then (sm, Closed)
      else let ch = sm_next sm; handler = state @ SuffixState in
        (case filter (\<lambda>b. compareArgs (wa_args b) args) (ggetd [] (sm_whenArgs sm) handler) of
           b # _ \<Rightarrow> (sm\<lparr>sm_next := ch + 1\<rparr>, wa_ch b)
         | [] \<Rightarrow>
             (let b = \<lparr>wa_ch = ch, wa_handler = handler, wa_args = args, wa_ctx = c\<rparr>;
                  sm1 = sm\<lparr>sm_next := ch + 1,
                    sm_whenArgs := gput handler (ggetd [] (sm_whenArgs sm) handler @ [b]) (sm_whenArgs sm)\<rparr>
              in ((case c of
                     None \<Rightarrow> sm1
                   | Some i \<Rightarrow> sm1\<lparr>sm_whenArgsCtx :=
                       gput i (ggetd [] (sm_whenArgsCtx sm1) i @ [b]) (sm_whenArgsCtx sm1)\<rparr>),
                  ch))))"

definition HasWhenArgs :: "Subscriptions \<Rightarrow> bool" where
  "HasWhenArgs sm = (length (sm_whenArgs sm) > 0)"

section \<open>WhenQuery\<close>

text \<open>The query functions are given by \<open>query :: nat \<Rightarrow> Clock \<Rightarrow> bool\<close>. \<open>processWhenQueryCtx\<close> deletes the
  expired context from \<open>whenArgsCtx\<close>, so it runs again for the same bindings; \<open>slices.Delete\<close> then
  panics on index \<open>-1\<close>.\<close>

definition gcWhenQueryBinding :: "whenQueryBinding \<Rightarrow> bool \<Rightarrow> Subscriptions \<Rightarrow> Subscriptions res" where
  "gcWhenQueryBinding binding gcCtx sm =
     (let sm1 = sm\<lparr>sm_whenQueryCtx := ctx_without (wq_ctx binding) gcCtx binding (sm_whenQueryCtx sm)\<rparr>
      in if length (sm_whenQuery sm1) = 1 then Inr (sm1\<lparr>sm_whenQuery := []\<rparr>)
         else (case slices_Delete (sm_whenQuery sm1) (slices_Index (sm_whenQuery sm1) binding)
                      (slices_Index (sm_whenQuery sm1) binding + 1) of
                 Inl fault \<Rightarrow> Inl fault
               | Inr rest \<Rightarrow> Inr (sm1\<lparr>sm_whenQuery := rest\<rparr>)))"

fun gc_whenQueries ::
  "whenQueryBinding list \<Rightarrow> Subscriptions \<times> chan list \<Rightarrow> (Subscriptions \<times> chan list) res" where
  "gc_whenQueries [] st = Inr st"
| "gc_whenQueries (b # bs) (sm, ret) =
     (case gcWhenQueryBinding b False sm of
        Inl fault \<Rightarrow> Inl fault
      | Inr sm' \<Rightarrow> gc_whenQueries bs (sm', ret @ [wq_ch b]))"

fun processWhenQueryCtx_loop ::
  "(ctx \<Rightarrow> bool) \<Rightarrow> (ctx, whenQueryBinding list) gomap \<Rightarrow> Subscriptions \<times> chan list
     \<Rightarrow> (Subscriptions \<times> chan list) res" where
  "processWhenQueryCtx_loop expired [] st = Inr st"
| "processWhenQueryCtx_loop expired ((c, bindings) # rest) (sm, ret) =
     (if \<not> expired c then processWhenQueryCtx_loop expired rest (sm, ret)
      else (case gc_whenQueries bindings (sm\<lparr>sm_whenArgsCtx := gdel c (sm_whenArgsCtx sm)\<rparr>, ret) of
              Inl fault \<Rightarrow> Inl fault
            | Inr st \<Rightarrow> processWhenQueryCtx_loop expired rest st))"

definition processWhenQueryCtx :: "(ctx \<Rightarrow> bool) \<Rightarrow> Subscriptions \<Rightarrow> (Subscriptions \<times> chan list) res" where
  "processWhenQueryCtx expired sm = processWhenQueryCtx_loop expired (sm_whenQueryCtx sm) (sm, [])"

fun processWhenQuery_bindings ::
  "(ctx \<Rightarrow> bool) \<Rightarrow> (nat \<Rightarrow> bool) \<Rightarrow> whenQueryBinding list \<Rightarrow> Subscriptions \<times> chan list
     \<Rightarrow> (Subscriptions \<times> chan list) res" where
  "processWhenQuery_bindings expired holds [] st = Inr st"
| "processWhenQuery_bindings expired holds (b # bs) (sm, ret) =
     (if \<not> holds (wq_fn b) \<and> \<not> ctx_expired expired (wq_ctx b)
      then processWhenQuery_bindings expired holds bs (sm, ret)
      else (case gcWhenQueryBinding b True sm of
              Inl fault \<Rightarrow> Inl fault
            | Inr sm' \<Rightarrow> processWhenQuery_bindings expired holds bs (sm', ret @ [wq_ch b])))"

definition ProcessWhenQuery ::
  "(ctx \<Rightarrow> bool) \<Rightarrow> (nat \<Rightarrow> Clock \<Rightarrow> bool) \<Rightarrow> Clock \<Rightarrow> Subscriptions \<Rightarrow> (Subscriptions \<times> chan list) res" where
  "ProcessWhenQuery expired query mclock sm =
     (case processWhenQueryCtx expired sm of
        Inl fault \<Rightarrow> Inl fault
      | Inr (sm1, ret) \<Rightarrow>
          processWhenQuery_bindings expired (\<lambda>f. query f (sub_clock sm1 mclock)) (sm_whenQuery sm1) (sm1, ret))"

definition sub_WhenQuery ::
  "(ctx \<Rightarrow> bool) \<Rightarrow> Subscriptions \<Rightarrow> nat \<Rightarrow> ctx option \<Rightarrow> Subscriptions \<times> chan" where
  "sub_WhenQuery expired sm fn c =
     (if ctx_expired expired c then (sm, Closed)
      else let ch = sm_next sm; b = \<lparr>wq_ch = ch, wq_ctx = c, wq_fn = fn\<rparr>;
             sm1 = sm\<lparr>sm_next := ch + 1, sm_whenQuery := sm_whenQuery sm @ [b]\<rparr>
           in ((case c of
                  None \<Rightarrow> sm1
                | Some i \<Rightarrow> sm1\<lparr>sm_whenQueryCtx :=
                    gput i (ggetd [] (sm_whenQueryCtx sm1) i @ [b]) (sm_whenQueryCtx sm1)\<rparr>),
               ch))"

section \<open>WhenQueue and WhenQueueEnds\<close>

definition ProcessWhenQueueEnds :: "Subscriptions \<Rightarrow> Subscriptions \<times> chan list" where
  "ProcessWhenQueueEnds sm = (sm\<lparr>sm_whenQueueEnds := []\<rparr>, sm_whenQueueEnds sm)"

fun queue_matches :: "uint64 \<Rightarrow> int \<Rightarrow> whenQueueBinding list \<Rightarrow> chan list \<times> int list" where
  "queue_matches queueTick i [] = ([], [])"
| "queue_matches queueTick i (b # bs) =
     (case queue_matches queueTick (i + 1) bs of (toClose, toCloseIdx) \<Rightarrow>
        if wu_tick b > queueTick then (toClose, toCloseIdx)
        else (wu_ch b # toClose, i # toCloseIdx))"

fun delete_at :: "'a list \<Rightarrow> int list \<Rightarrow> 'a list res" where
  "delete_at xs [] = Inr xs"
| "delete_at xs (i # is) =
     (case slices_Delete xs i (i + 1) of Inl fault \<Rightarrow> Inl fault | Inr ys \<Rightarrow> delete_at ys is)"

definition ProcessWhenQueue :: "Subscriptions \<Rightarrow> uint64 \<Rightarrow> (Subscriptions \<times> chan list) res" where
  "ProcessWhenQueue sm queueTick =
     (case queue_matches queueTick 0 (sm_whenQueue sm) of (toClose, toCloseIdx) \<Rightarrow>
        (case delete_at (sm_whenQueue sm) (rev toCloseIdx) of
           Inl fault \<Rightarrow> Inl fault
         | Inr rest \<Rightarrow> Inr (sm\<lparr>sm_whenQueue := rest\<rparr>, toClose)))"

definition sub_WhenQueueEnds :: "Subscriptions \<Rightarrow> Subscriptions \<times> chan" where
  "sub_WhenQueueEnds sm =
     (sm\<lparr>sm_next := sm_next sm + 1, sm_whenQueueEnds := sm_whenQueueEnds sm @ [sm_next sm]\<rparr>, sm_next sm)"

definition sub_WhenQueue :: "Subscriptions \<Rightarrow> Result \<Rightarrow> Subscriptions \<times> chan" where
  "sub_WhenQueue sm tick =
     (sm\<lparr>sm_next := sm_next sm + 1,
        sm_whenQueue := sm_whenQueue sm @ [\<lparr>wu_ch = sm_next sm, wu_tick = tick\<rparr>]\<rparr>, sm_next sm)"

text \<open>\<open>QueueFlush\<close> and \<open>dispose\<close> close channels and cancel contexts but leave the indexes.\<close>

definition QueueFlush :: "Subscriptions \<Rightarrow> chan list" where
  "QueueFlush sm = sm_whenQueueEnds sm @ map wu_ch (sm_whenQueue sm)"

definition SetClock :: "Subscriptions \<Rightarrow> Clock \<Rightarrow> Subscriptions" where
  "SetClock sm clock = sm\<lparr>sm_clock := Some clock\<rparr>"

definition sub_dispose :: "Subscriptions \<Rightarrow> ctx list \<times> chan list" where
  "sub_dispose sm =
     (map (\<lambda>(s, b). cb_Ctx b) (sm_stateCtx sm),
      concat (map snd (sm_when sm)) @ concat (map snd (sm_whenTime sm))
      @ map wa_ch (concat (map snd (sm_whenArgs sm))) @ sm_whenQueueEnds sm @ map wu_ch (sm_whenQueue sm))"

end
