(* ===== verification/Am_Machine.thy ===== *)
theory Am_Machine
  imports Am_Relations Am_Subs "HOL-Library.List_Lexorder" "HOL-Library.Char_ord"
begin

text \<open>
  The machine, \<open>src/pkg/machine/machine.go\<close>: its state, the queries on it, and the operations that
  change it outside of a transition. The record \<open>Machine\<close> has one field per field of the Go struct
  that carries state; mutexes are left out, because the model runs one operation at a time, in the
  order in which the sources serialise them. Time is a number of nanoseconds in \<open>m_now\<close>. \<open>m_closed\<close>
  and \<open>m_canceled\<close> collect the channels closed and the contexts cancelled so far, \<open>m_checks\<close> what was
  written to the \<open>ACheck\<close> arguments. The fields of the default resolver that live on between calls are
  \<open>m_topology\<close> and \<open>m_rrIndex\<close>. \<open>m_loopAlive\<close> says that a goroutine runs \<open>handlerLoop\<close>.
\<close>

section \<open>State\<close>

record Transition =
  tx_Id :: nat
  tx_Mutation :: Mutation
  tx_TimeBefore :: Time
  tx_TimeAfter :: Time
  tx_TargetIndexes :: "int list"
  tx_Enters :: S
  tx_Exits :: S
  tx_QueueLen :: uint16
  tx_IsCompleted :: bool
  tx_IsAccepted :: bool
  tx_latestHandlerIsEnter :: bool
  tx_latestHandlerIsFinal :: bool
  tx_latestHandlerToState :: string
  tx_cacheTargetStates :: "S option"
  tx_cacheStatesBefore :: "S option"
  tx_cacheClockBefore :: "Clock option"
  tx_cacheActivated :: S
  tx_cacheDeactivated :: S
  tx_cacheSchema :: Schema

record handler =
  h_id :: string
  h_num :: nat
  h_isMap :: bool
  h_StatePrefix :: string
  h_methods :: "string list"
  h_negotiations :: "string list"
  h_finals :: "string list"

record Machine =
  m_id :: string
  m_parentId :: string
  m_QueueLimit :: uint16
  m_HandlerBackoff :: int
  m_PanicToException :: bool
  m_LastHandlerDeadline :: "int option"
  m_now :: int
  m_disposing :: bool
  m_disposed :: bool
  m_schema :: Schema
  m_stateNames :: S
  m_statesVerified :: bool
  m_topology :: S
  m_rrIndex :: S
  m_activeStates :: S
  m_clock :: Clock
  m_activatedAt :: "(string, uint64) gomap"
  m_timeLast :: Time
  m_queue :: "Mutation list"
  m_queueLen :: uint32
  m_queueTick :: uint64
  m_queueTicksPending :: uint64
  m_queueToken :: uint64
  m_queueProcessing :: bool
  m_queueRunning :: bool
  m_machineTick :: uint32
  m_t :: "Transition option"
  m_nextTx :: nat
  m_err :: "string option"
  m_panicCaught :: bool
  m_handlers :: "handler list"
  m_handlerLoopRunning :: bool
  m_loopAlive :: bool
  m_nextHandlerNum :: nat
  m_subs :: Subscriptions
  m_closed :: "chan list"
  m_canceled :: "ctx list"
  m_checks :: "(chan \<times> bool) list"
  m_tags :: "string list option"
  m_groups :: "(string, int list) gomap"
  m_groupsOrder :: "string list"

datatype mach_error =
    ErrSchema string | ErrUnknown string | ErrVerify "string list" | ErrVerifyLess S
  | ErrImportID | ErrNotBound | ErrParse "(string \<times> string) list"

section \<open>Queries\<close>

definition IsDisposed :: "Machine \<Rightarrow> bool" where
  "IsDisposed m = m_disposed m"

text \<open>\<open>is\<close> is false as soon as one state is unknown or inactive.\<close>

fun is_loop :: "S \<Rightarrow> S \<Rightarrow> S \<Rightarrow> bool" where
  "is_loop names active [] = True"
| "is_loop names active (s # states) =
     (if \<not> slices_Contains names s then False
      else if \<not> slices_Contains active s then False
      else is_loop names active states)"

definition is' :: "Machine \<Rightarrow> S \<Rightarrow> bool" where
  "is' m states = (if m_disposing m then False else is_loop (m_stateNames m) (m_activeStates m) states)"

definition Is :: "Machine \<Rightarrow> S \<Rightarrow> bool" where
  "Is m states = (if m_disposing m then False else is' m states)"

definition Is1 :: "Machine \<Rightarrow> string \<Rightarrow> bool" where
  "Is1 m state = Is m [state]"

definition IsErr :: "Machine \<Rightarrow> bool" where
  "IsErr m = Is m [StateException]"

definition mach_mustParse :: "Machine \<Rightarrow> S \<Rightarrow> S res" where
  "mach_mustParse m states = mustParseStates (m_disposing m) (m_schema m) states"

definition not' :: "Machine \<Rightarrow> S \<Rightarrow> bool res" where
  "not' m states =
     (case mach_mustParse m states of
        Inl fault \<Rightarrow> Inl fault
      | Inr parsed \<Rightarrow> Inr (slicesNone parsed (m_activeStates m)))"

definition Not :: "Machine \<Rightarrow> S \<Rightarrow> bool res" where
  "Not m states = (if m_disposing m then Inr False else not' m states)"

definition Not1 :: "Machine \<Rightarrow> string \<Rightarrow> bool res" where
  "Not1 m state = Not m [state]"

fun Any :: "Machine \<Rightarrow> S list \<Rightarrow> bool" where
  "Any m [] = False"
| "Any m (s # states) = (if Is m s then True else Any m states)"

fun Any1 :: "Machine \<Rightarrow> string list \<Rightarrow> bool" where
  "Any1 m [] = False"
| "Any1 m (s # states) = (if Is1 m s then True else Any1 m states)"

definition Has :: "Machine \<Rightarrow> S \<Rightarrow> bool" where
  "Has m states = (if m_disposing m then False else slicesEvery (m_stateNames m) states)"

definition Has1 :: "Machine \<Rightarrow> string \<Rightarrow> bool" where
  "Has1 m state = Has m [state]"

definition mach_Index1 :: "Machine \<Rightarrow> string \<Rightarrow> int" where
  "mach_Index1 m state = (if m_disposing m then - 1 else slices_Index (m_stateNames m) state)"

definition mach_Index :: "Machine \<Rightarrow> S \<Rightarrow> int list" where
  "mach_Index m states = (if m_disposing m then [] else StatesToIndex (m_stateNames m) states)"

text \<open>\<open>time\<close> and \<open>Time\<close>; \<open>None\<close> stands for the \<open>nil\<close> list of states, and for the \<open>nil\<close> result.\<close>

definition mach_time :: "Machine \<Rightarrow> S option \<Rightarrow> Time" where
  "mach_time m states =
     (if m_disposed m then []
      else map (\<lambda>s. ggetd 0 (m_clock m) s) (case states of None \<Rightarrow> m_stateNames m | Some ss \<Rightarrow> ss))"

definition mach_Clock :: "Machine \<Rightarrow> S option \<Rightarrow> Clock" where
  "mach_Clock m states =
     (if m_disposing m then []
      else foldl (\<lambda>ret s. gput s (ggetd 0 (m_clock m) s) ret) []
             (case states of None \<Rightarrow> m_stateNames m | Some ss \<Rightarrow> ss))"

definition Tick :: "Machine \<Rightarrow> string \<Rightarrow> uint64" where
  "Tick m state = (if m_disposing m then 0 else ggetd 0 (m_clock m) state)"

definition ActivatedAt :: "Machine \<Rightarrow> string \<Rightarrow> uint64" where
  "ActivatedAt m state = (if m_disposed m then 0 else ggetd 0 (m_activatedAt m) state)"

fun clock_all :: "(uint64 \<Rightarrow> uint64 \<Rightarrow> bool) \<Rightarrow> Clock \<Rightarrow> Clock \<Rightarrow> bool" where
  "clock_all bad mclock [] = True"
| "clock_all bad mclock ((state, tick) # rest) =
     (if bad (ggetd 0 mclock state) tick then False else clock_all bad mclock rest)"

definition IsClock :: "Machine \<Rightarrow> Clock \<Rightarrow> bool" where
  "IsClock m clock = (if m_disposing m then False else clock_all (\<noteq>) (m_clock m) clock)"

definition WasClock :: "Machine \<Rightarrow> Clock \<Rightarrow> bool" where
  "WasClock m clock = (if m_disposing m then False else clock_all (<) (m_clock m) clock)"

text \<open>The time is read along the list of states; a longer time is an index panic.\<close>

fun time_all :: "(uint64 \<Rightarrow> uint64 \<Rightarrow> bool) \<Rightarrow> Clock \<Rightarrow> S \<Rightarrow> Time \<Rightarrow> bool res" where
  "time_all bad mclock states [] = Inr True"
| "time_all bad mclock [] (tick # ticks) = Inl (GoPanic ''index out of range'')"
| "time_all bad mclock (s # states) (tick # ticks) =
     (if bad (ggetd 0 mclock s) tick then Inr False else time_all bad mclock states ticks)"

definition IsTime :: "Machine \<Rightarrow> Time \<Rightarrow> S option \<Rightarrow> bool res" where
  "IsTime m t states =
     (if m_disposing m then Inr False
      else time_all (\<noteq>) (m_clock m) (case states of None \<Rightarrow> m_stateNames m | Some ss \<Rightarrow> ss) t)"

definition WasTime :: "Machine \<Rightarrow> Time \<Rightarrow> S option \<Rightarrow> bool res" where
  "WasTime m t states =
     (if m_disposing m then Inr False
      else time_all (<) (m_clock m) (case states of None \<Rightarrow> m_stateNames m | Some ss \<Rightarrow> ss) t)"

definition ActiveStates :: "Machine \<Rightarrow> S option \<Rightarrow> S" where
  "ActiveStates m states =
     (if m_disposing m then []
      else case states of
        None \<Rightarrow> m_activeStates m
      | Some ss \<Rightarrow> filter (slices_Contains (m_activeStates m)) ss)"

fun Switch_find :: "S \<Rightarrow> S \<Rightarrow> string option" where
  "Switch_find active [] = None"
| "Switch_find active (s # states) =
     (if slices_Contains active s then Some s else Switch_find active states)"

fun Switch_groups :: "S \<Rightarrow> S list \<Rightarrow> string" where
  "Switch_groups active [] = []"
| "Switch_groups active (g # groups) =
     (case Switch_find active g of Some s \<Rightarrow> s | None \<Rightarrow> Switch_groups active groups)"

definition Switch :: "Machine \<Rightarrow> S list \<Rightarrow> string" where
  "Switch m groups = Switch_groups (ActiveStates m None) groups"

definition state_tick :: "Machine \<Rightarrow> string \<Rightarrow> string" where
  "state_tick m s = s @ '':'' @ strconv_Itoa (uint (ggetd 0 (m_clock m) s))"

definition mach_String :: "Machine \<Rightarrow> string" where
  "mach_String m =
     (if m_disposing m then []
      else ''('' @ strings_Join (map (state_tick m)
             (filter (slices_Contains (m_activeStates m)) (m_stateNames m))) '' '' @ '')'')"

definition mach_StringAll :: "Machine \<Rightarrow> string" where
  "mach_StringAll m =
     (if m_disposing m then []
      else ''('' @ strings_Join (map (state_tick m)
             (filter (slices_Contains (m_activeStates m)) (m_stateNames m))) '' '' @ '') [''
           @ strings_Join (map (state_tick m)
             (filter (\<lambda>s. \<not> slices_Contains (m_activeStates m) s) (m_stateNames m))) '' '' @ '']'')"

definition inspect_rel :: "string \<Rightarrow> S option \<Rightarrow> string" where
  "inspect_rel label rel =
     (case rel of None \<Rightarrow> [] | Some ss \<Rightarrow> ''    |'' @ label @ j ss @ [CHR 0x0A])"

definition inspect_state :: "Machine \<Rightarrow> string \<Rightarrow> string" where
  "inspect_state m name =
     (let state = Schema_Get (m_schema m) name in
      (if slices_Contains (m_activeStates m) name then ''1'' else ''0'') @ '' '' @ name @ [CHR 0x0A]
      @ ''    |Tick     '' @ strconv_Itoa (uint (ggetd 0 (m_clock m) name)) @ [CHR 0x0A]
      @ (if Auto state then ''    |Auto     true'' @ [CHR 0x0A] else [])
      @ (if Multi state then ''    |Multi    true'' @ [CHR 0x0A] else [])
      @ inspect_rel ''Add      '' (Add state) @ inspect_rel ''Require  '' (Require state)
      @ inspect_rel ''Remove   '' (Remove state) @ inspect_rel ''After    '' (After state))"

definition Inspect :: "Machine \<Rightarrow> S option \<Rightarrow> string" where
  "Inspect m states =
     (if m_disposing m then []
      else concat (map (inspect_state m) (case states of None \<Rightarrow> m_stateNames m | Some ss \<Rightarrow> ss)))"

text \<open>With repeated states \<open>ParseStates\<close> returns all of them, unknown ones included; otherwise the
  keys of a map, whose order is open.\<close>

definition ParseStates :: "Machine \<Rightarrow> S \<Rightarrow> S" where
  "ParseStates m states =
     (if m_disposing m then []
      else let known = filter (ghas (m_schema m)) states in
        if \<not> distinct known then slicesUniq states else known)"

definition Backoff :: "Machine \<Rightarrow> bool" where
  "Backoff m =
     (case m_LastHandlerDeadline m of
        None \<Rightarrow> False
      | Some at \<Rightarrow> m_now m - at < m_HandlerBackoff m)"

definition QueueLen :: "Machine \<Rightarrow> uint16" where
  "QueueLen m = ucast (m_queueLen m)"

section \<open>Queries on the queue\<close>

text \<open>The test on one queued mutation that \<open>IsQueued\<close> and \<open>IsQueuedAbove\<close> share.\<close>

definition queued_match ::
  "Machine \<Rightarrow> MutationType \<Rightarrow> S \<Rightarrow> bool \<Rightarrow> bool \<Rightarrow> uint64 \<Rightarrow> bool \<Rightarrow> Mutation \<Rightarrow> bool" where
  "queued_match m mutType states withoutArgsOnly statesStrictEqual minQueueTick isCheck mut =
     (if minQueueTick > 0 \<and> mu_QueueTick mut < minQueueTick then False
      else mu_IsCheck mut = isCheck \<and> mu_Type mut = mutType
        \<and> ((withoutArgsOnly \<and> length (mu_Args mut) = 0) \<or> \<not> withoutArgsOnly)
        \<and> ((statesStrictEqual \<and> length (mu_Called mut) = length states)
             \<or> (\<not> statesStrictEqual \<and> length (mu_Called mut) \<ge> length states))
        \<and> slicesEvery (mu_Called mut) (mach_Index m states))"

fun find_queued :: "(Mutation \<Rightarrow> bool) \<Rightarrow> nat \<Rightarrow> Mutation list \<Rightarrow> bool \<times> uint16 \<times> uint64" where
  "find_queued match i [] = (False, 0, 0)"
| "find_queued match i (mut # muts) =
     (if match mut then (True, of_nat i, mu_QueueTick mut) else find_queued match (Suc i) muts)"

text \<open>\<open>iter[0:1]\<close> of an empty queue either panics or yields a nil mutation, whose fields cannot be
  read: a panic in both cases.\<close>

definition mach_IsQueued ::
  "Machine \<Rightarrow> MutationType \<Rightarrow> S \<Rightarrow> bool \<Rightarrow> bool \<Rightarrow> uint64 \<Rightarrow> bool \<Rightarrow> Position
     \<Rightarrow> (bool \<times> uint16 \<times> uint64) res" where
  "mach_IsQueued m mutType states withoutArgsOnly statesStrictEqual minQueueTick isCheck position =
     (if m_disposing m then Inr (False, 0, 0)
      else let match = queued_match m mutType states withoutArgsOnly statesStrictEqual minQueueTick isCheck
        in case position of
          PositionAny \<Rightarrow> Inr (find_queued match 0 (m_queue m))
        | PositionLast \<Rightarrow> Inr (find_queued match 0 (drop (length (m_queue m) - 1) (m_queue m)))
        | PositionFirst \<Rightarrow>
            (case m_queue m of
               [] \<Rightarrow> Inl (GoPanic ''slice bounds out of range'')
             | mut # _ \<Rightarrow> Inr (find_queued match 0 [mut])))"

fun count_queued :: "(Mutation \<Rightarrow> bool) \<Rightarrow> int \<Rightarrow> int \<Rightarrow> Mutation list \<Rightarrow> bool" where
  "count_queued match threshold c [] = False"
| "count_queued match threshold c (mut # muts) =
     (if match mut then (if c + 1 \<ge> threshold then True else count_queued match threshold (c + 1) muts)
      else count_queued match threshold c muts)"

definition IsQueuedAbove ::
  "Machine \<Rightarrow> int \<Rightarrow> MutationType \<Rightarrow> S \<Rightarrow> bool \<Rightarrow> bool \<Rightarrow> uint64 \<Rightarrow> bool" where
  "IsQueuedAbove m threshold mutType states withoutArgsOnly statesStrictEqual minQueueTick =
     (if m_disposing m then False
      else count_queued (queued_match m mutType states withoutArgsOnly statesStrictEqual minQueueTick False)
             threshold 0 (m_queue m))"

text \<open>All cases of the final switch of \<open>WillBe\<close> and \<open>WillBeRemoved\<close> but the first return true.\<close>

definition WillBe :: "Machine \<Rightarrow> S \<Rightarrow> Position \<Rightarrow> bool res" where
  "WillBe m states position =
     (case mach_IsQueued m MutationAdd states False False 0 False position of
        Inl fault \<Rightarrow> Inl fault | Inr (found, _, _) \<Rightarrow> Inr found)"

definition WillBe1 :: "Machine \<Rightarrow> string \<Rightarrow> Position \<Rightarrow> bool res" where
  "WillBe1 m state position = WillBe m [state] position"

fun WillBeAny :: "Machine \<Rightarrow> S \<Rightarrow> bool res" where
  "WillBeAny m [] = Inr False"
| "WillBeAny m (s # states) =
     (case WillBe1 m s PositionAny of
        Inl fault \<Rightarrow> Inl fault
      | Inr found \<Rightarrow> (if found then Inr True else WillBeAny m states))"

definition WillBeRemoved :: "Machine \<Rightarrow> S \<Rightarrow> Position \<Rightarrow> bool res" where
  "WillBeRemoved m states position =
     (case mach_IsQueued m MutationRemove states False False 0 False position of
        Inl fault \<Rightarrow> Inl fault | Inr (found, _, _) \<Rightarrow> Inr found)"

definition WillBeRemoved1 :: "Machine \<Rightarrow> string \<Rightarrow> Position \<Rightarrow> bool res" where
  "WillBeRemoved1 m state position = WillBeRemoved m [state] position"

definition detectQueueDuplicates :: "Machine \<Rightarrow> MutationType \<Rightarrow> S \<Rightarrow> bool \<Rightarrow> bool" where
  "detectQueueDuplicates m mutationType states isCheck =
     (if m_disposing m then False
      else case mach_IsQueued m mutationType states True True 0 isCheck PositionAny of
        Inl fault \<Rightarrow> False | Inr (found, _, _) \<Rightarrow> found)"

section \<open>Setting the active states\<close>

text \<open>The loop over the target states: \<open>+1\<close> for a new state, \<open>+2\<close> for an active multi state that was
  called; the state is \<open>(clock, toActivate)\<close>. Ticks wrap around.\<close>

fun tick_targets ::
  "Schema \<Rightarrow> S \<Rightarrow> S \<Rightarrow> S \<Rightarrow> Clock \<times> S \<Rightarrow> Clock \<times> S" where
  "tick_targets schema previous called [] st = st"
| "tick_targets schema previous called (name # names) (clock, toActivate) =
     (if \<not> slices_Contains previous name
      then tick_targets schema previous called names
             (gput name (ggetd 0 clock name + 1) clock, toActivate @ [name])
      else if slices_Contains called name \<and> Multi (Schema_Get schema name)
      then tick_targets schema previous called names
             (gput name (ggetd 0 clock name + 2) clock, toActivate)
      else tick_targets schema previous called names (clock, toActivate))"

fun tick_removed :: "S \<Rightarrow> Clock \<Rightarrow> Clock" where
  "tick_removed [] clock = clock"
| "tick_removed (state # states) clock =
     tick_removed states (gput state (ggetd 0 clock state + 1) clock)"

definition setActiveStates :: "Machine \<Rightarrow> S \<Rightarrow> S \<Rightarrow> Machine" where
  "setActiveStates m calledStates targetStates =
     (if m_disposing m then m
      else let previous = m_activeStates m;
               removedStates = StatesDiff previous targetStates in
        case tick_targets (m_schema m) previous calledStates targetStates (m_clock m, []) of
          (clock1, toActivate) \<Rightarrow>
            (let m1 = m\<lparr>m_activeStates := targetStates, m_clock := tick_removed removedStates clock1\<rparr>;
                 total = Time_SumAll (mach_time m1 None)
             in m1\<lparr>m_activatedAt := foldl (\<lambda>at name. gput name total at) (m_activatedAt m1) toActivate\<rparr>))"

section \<open>State names and schema\<close>

text \<open>\<open>verifyStates\<close> retains the order of the given names.\<close>

definition verifyStates :: "Machine \<Rightarrow> S \<Rightarrow> mach_error + Machine" where
  "verifyStates m states =
     (let noname = (if slices_Contains states [] then [[]] else []);
          undefs = filter (\<lambda>s. \<not> ghas (m_schema m) s) states;
          checked = filter (ghas (m_schema m)) states
      in if length (noname @ undefs) > 0 then Inl (ErrVerify (noname @ undefs))
         else if length (m_stateNames m) > length states
         then Inl (ErrVerifyLess (StatesDiff (m_stateNames m) checked))
         else Inr (m\<lparr>m_stateNames := slicesUniq states, m_statesVerified := True\<rparr>))"

definition VerifyStates :: "Machine \<Rightarrow> S \<Rightarrow> mach_error option \<times> Machine" where
  "VerifyStates m states =
     (if m_disposing m then (None, m)
      else case verifyStates m states of Inl err \<Rightarrow> (Some err, m) | Inr m' \<Rightarrow> (None, m'))"

definition mach_resolver :: "Machine \<Rightarrow> Resolver" where
  "mach_resolver m =
     \<lparr>rr_disposing = m_disposing m, rr_schema = m_schema m, rr_names = m_stateNames m,
      rr_Index = m_rrIndex m, rr_topology = m_topology m, rr_statesBefore = [],
      rr_type = MutationAdd, rr_called = []\<rparr>"

definition mach_NewSchema :: "Machine \<Rightarrow> Machine" where
  "mach_NewSchema m =
     (let rr = NewSchema (mach_resolver m) (m_stateNames m)
      in m\<lparr>m_rrIndex := rr_Index rr, m_topology := rr_topology rr\<rparr>)"

text \<open>\<open>New\<close> up to the final \<open>AddErr\<close>; the options modelled are the id, the queue limit, the panic
  policy and the tags.\<close>

record Opts =
  op_Id :: string
  op_QueueLimit :: uint16
  op_DontPanicToException :: bool
  op_HandlerBackoff :: int
  op_Tags :: "string list"
  op_ParentId :: string

definition newMachine :: "Schema \<Rightarrow> Opts \<Rightarrow> string \<Rightarrow> Machine" where
  "newMachine schema opts randId =
     (let parsed = fst (Schema_Parse schema);
          sch = (if ghas parsed StateException then parsed
                 else gput StateException (State_zero\<lparr>Multi := True\<rparr>) parsed);
          m = \<lparr>m_id = (if op_Id opts \<noteq> [] then op_Id opts else randId), m_parentId = op_ParentId opts,
               m_QueueLimit = (if op_QueueLimit opts \<noteq> 0 then op_QueueLimit opts else 1000),
               m_HandlerBackoff = (if op_HandlerBackoff opts \<noteq> 0 then op_HandlerBackoff opts else 3000000000),
               m_PanicToException = (\<not> op_DontPanicToException opts), m_LastHandlerDeadline = None,
               m_now = 0, m_disposing = False, m_disposed = False, m_schema = sch,
               m_stateNames = sort (gkeys sch), m_statesVerified = False, m_topology = [],
               m_rrIndex = [], m_activeStates = [], m_clock = map (\<lambda>(name, _). (name, 0)) sch,
               m_activatedAt = [], m_timeLast = [], m_queue = [], m_queueLen = 0, m_queueTick = 1,
               m_queueTicksPending = 0, m_queueToken = 0, m_queueProcessing = False,
               m_queueRunning = False, m_machineTick = 0, m_t = None, m_nextTx = 0, m_err = None,
               m_panicCaught = False, m_handlers = [], m_handlerLoopRunning = False,
               m_loopAlive = False, m_nextHandlerNum = 0, m_subs = NewSubscriptionManager,
               m_closed = [], m_canceled = [], m_checks = [],
               m_tags = (if length (op_Tags opts) > 0 then Some (slicesUniq (op_Tags opts)) else None),
               m_groups = [], m_groupsOrder = []\<rparr>
      in mach_NewSchema m)"

text \<open>A failed \<open>SetSchema\<close> can leave the new schema behind: it is assigned before the names are
  verified. The clock handed to the subscriptions is a copy.\<close>

definition SetSchema :: "Machine \<Rightarrow> Schema \<Rightarrow> S \<Rightarrow> mach_error option \<times> Machine" where
  "SetSchema m newSchema names =
     (if m_t m \<noteq> None then (Some (ErrSchema ''transition''), m)
      else if length newSchema \<le> length (m_schema m) then (Some (ErrSchema ''too short''), m)
      else if length newSchema \<noteq> length names then (Some (ErrSchema ''names''), m)
      else case Schema_Parse newSchema of (parsed, errs) \<Rightarrow>
        (if errs \<noteq> [] then (Some (ErrParse errs), m)
         else let m1 = m\<lparr>m_schema := parsed\<rparr> in
           case verifyStates m1 names of
             Inl err \<Rightarrow> (Some err, m1)
           | Inr m2 \<Rightarrow>
               (None, mach_NewSchema (m2\<lparr>m_subs := SetClock (m_subs m2) (mach_Clock m2 None)\<rparr>))))"

section \<open>Export and import\<close>

record Serialized =
  se_ID :: string
  se_StateNames :: S
  se_Time :: Time
  se_QueueTick :: uint64
  se_MachineTick :: uint32

definition Export :: "Machine \<Rightarrow> mach_error + Serialized \<times> Schema" where
  "Export m =
     (if \<not> m_statesVerified m then Inl (ErrSchema ''call VerifyStates first'')
      else Inr (\<lparr>se_ID = m_id m, se_StateNames = m_stateNames m, se_Time = mach_time m None,
                 se_QueueTick = m_queueTick m, se_MachineTick = m_machineTick m\<rparr>,
                Schema_Clone (m_schema m)))"

text \<open>The loop over the imported time; the state is \<open>(activeStates, clock)\<close>. An unknown name ends it
  with the machine half imported.\<close>

fun import_loop ::
  "S \<Rightarrow> Time \<Rightarrow> S \<Rightarrow> S \<times> Clock \<Rightarrow> (mach_error option \<times> S \<times> Clock) res" where
  "import_loop names [] states (active, clock) = Inr (None, active, clock)"
| "import_loop names (v # ticks) [] (active, clock) = Inl (GoPanic ''index out of range'')"
| "import_loop names (v # ticks) (state # states) (active, clock) =
     (if \<not> slices_Contains names state then Inr (Some (ErrUnknown state), active, clock)
      else import_loop names ticks states
             (if IsActiveTick v then active @ [state] else active, gput state v clock))"

text \<open>\<open>Import\<close> holds \<open>schemaMx\<close> for writing when it adds \<open>MachineRestored\<close>; unless the mutation is
  refused beforehand, \<open>Add\<close> then waits for that lock in \<open>schemaSafe\<close>: the goroutine blocks itself.\<close>

definition Import :: "Machine \<Rightarrow> Serialized \<Rightarrow> (mach_error option \<times> Machine) res" where
  "Import m data =
     (if m_id m \<noteq> se_ID data then Inr (Some ErrImportID, m)
      else if length (m_schema m) \<noteq> length (se_StateNames data)
      then Inr (Some (ErrSchema ''importing diff state len''), m)
      else case import_loop (m_stateNames m) (se_Time data) (se_StateNames data) ([], m_clock m) of
        Inl fault \<Rightarrow> Inl fault
      | Inr (Some err, active, clock) \<Rightarrow>
          Inr (Some err, m\<lparr>m_activeStates := active, m_clock := clock\<rparr>)
      | Inr (None, active, clock) \<Rightarrow>
          (let m1 = m\<lparr>m_activeStates := active, m_clock := clock, m_stateNames := se_StateNames data,
                     m_statesVerified := True, m_machineTick := se_MachineTick data + 1\<rparr>
           in if Has1 m1 StateMachineRestored \<and> \<not> Backoff m1 \<and> \<not> QueueLen m1 \<ge> m_QueueLimit m1
              then Inl Deadlock else Inr (None, m1)))"

section \<open>Handlers, tags and groups\<close>

definition Handlers :: "Machine \<Rightarrow> string list" where
  "Handlers m = map h_id (m_handlers m)"

fun detach_handler :: "string \<Rightarrow> handler list \<Rightarrow> handler list option" where
  "detach_handler bindingId [] = None"
| "detach_handler bindingId (h # hs) =
     (if h_id h = bindingId then Some hs
      else case detach_handler bindingId hs of None \<Rightarrow> None | Some rest \<Rightarrow> Some (h # rest))"

definition HandlersDetach :: "Machine \<Rightarrow> string \<Rightarrow> mach_error option \<times> Machine" where
  "HandlersDetach m bindingId =
     (if m_disposing m then (None, m)
      else case detach_handler bindingId (m_handlers m) of
        None \<Rightarrow> (Some ErrNotBound, m)
      | Some hs \<Rightarrow> (None, m\<lparr>m_handlers := hs\<rparr>))"

definition SetTags :: "Machine \<Rightarrow> string list \<Rightarrow> Machine" where
  "SetTags m tags = m\<lparr>m_tags := Some tags\<rparr>"

definition SetGroupsString :: "Machine \<Rightarrow> (string, S) gomap \<Rightarrow> string list \<Rightarrow> Machine" where
  "SetGroupsString m groups order =
     m\<lparr>m_groups := foldl (\<lambda>l (name, states). gput name (S_Index (m_stateNames m) states) l) [] groups,
       m_groupsOrder := order\<rparr>"

section \<open>The clock invariant\<close>

text \<open>A state is active exactly when its tick is odd; the active states are distinct and defined.\<close>

definition clock_inv :: "Machine \<Rightarrow> bool" where
  "clock_inv m =
     (distinct (m_activeStates m) \<and> set (m_activeStates m) \<subseteq> set (gkeys (m_schema m))
      \<and> (\<forall>s. s \<in> set (m_activeStates m) \<longleftrightarrow> IsActiveTick (ggetd 0 (m_clock m) s)))"

text \<open>What a transition from \<open>prev\<close> to \<open>ts\<close> adds to the tick of a state.\<close>

definition tick_delta :: "Schema \<Rightarrow> S \<Rightarrow> S \<Rightarrow> S \<Rightarrow> string \<Rightarrow> uint64" where
  "tick_delta schema prev called ts s =
     (if s \<in> set ts then
        (if s \<notin> set prev then 1
         else if s \<in> set called \<and> Multi (Schema_Get schema s) then 2 else 0)
      else if s \<in> set prev then 1 else 0)"

lemma tick_targets_get:
  "distinct ts \<Longrightarrow>
   ggetd 0 (fst (tick_targets schema prev called ts (clock, acc))) s
     = ggetd 0 clock s + (if s \<in> set ts then tick_delta schema prev called ts s else 0)"
proof (induction schema prev called ts "(clock, acc)" arbitrary: clock acc rule: tick_targets.induct)
  case (2 schema prev called name names clock acc)
  then show ?case by (auto simp: tick_delta_def)
qed simp

lemma tick_targets_activated:
  "snd (tick_targets schema prev called ts (clock, acc)) = acc @ filter (\<lambda>s. s \<notin> set prev) ts"
  by (induction schema prev called ts "(clock, acc)" arbitrary: clock acc rule: tick_targets.induct) auto

lemma tick_removed_get:
  "distinct xs \<Longrightarrow> ggetd 0 (tick_removed xs clock) s = ggetd 0 clock s + (if s \<in> set xs then 1 else 0)"
  by (induction xs clock rule: tick_removed.induct) auto

lemma setActiveStates_fields:
  assumes "\<not> m_disposing m"
  shows "m_activeStates (setActiveStates m called ts) = ts"
    and "m_clock (setActiveStates m called ts) = tick_removed (StatesDiff (m_activeStates m) ts)
           (fst (tick_targets (m_schema m) (m_activeStates m) called ts (m_clock m, [])))"
  using assms by (simp_all add: setActiveStates_def Let_def split: prod.splits)

lemma setActiveStates_tick:
  assumes "\<not> m_disposing m" "distinct ts" "distinct (m_activeStates m)"
  shows "ggetd 0 (m_clock (setActiveStates m called ts)) s
           = ggetd 0 (m_clock m) s + tick_delta (m_schema m) (m_activeStates m) called ts s"
  using assms by (simp add: setActiveStates_fields tick_removed_get tick_targets_get tick_delta_def)

text \<open>Everything \<open>setActiveStates\<close> leaves alone.\<close>

lemma setActiveStates_frame [simp]:
  "m_schema (setActiveStates m called ts) = m_schema m"
  "m_stateNames (setActiveStates m called ts) = m_stateNames m"
  "m_disposing (setActiveStates m called ts) = m_disposing m"
  "m_disposed (setActiveStates m called ts) = m_disposed m"
  "m_queue (setActiveStates m called ts) = m_queue m"
  "m_queueLen (setActiveStates m called ts) = m_queueLen m"
  "m_queueTick (setActiveStates m called ts) = m_queueTick m"
  "m_queueTicksPending (setActiveStates m called ts) = m_queueTicksPending m"
  "m_queueProcessing (setActiveStates m called ts) = m_queueProcessing m"
  "m_t (setActiveStates m called ts) = m_t m"
  "m_subs (setActiveStates m called ts) = m_subs m"
  "m_handlers (setActiveStates m called ts) = m_handlers m"
  by (simp_all add: setActiveStates_def Let_def split: prod.splits)

lemma setActiveStates_clock_inv:
  assumes "clock_inv m" "distinct ts" "set ts \<subseteq> set (gkeys (m_schema m))"
  shows "clock_inv (setActiveStates m called ts)"
proof (cases "m_disposing m")
  case True
  with assms show ?thesis by (simp add: setActiveStates_def)
next
  case False
  have d: "distinct (m_activeStates m)" using assms by (simp add: clock_inv_def)
  have "\<forall>s. s \<in> set ts \<longleftrightarrow> IsActiveTick (ggetd 0 (m_clock (setActiveStates m called ts)) s)"
  proof
    fix s
    have "s \<in> set (m_activeStates m) \<longleftrightarrow> IsActiveTick (ggetd 0 (m_clock m) s)"
      using assms by (simp add: clock_inv_def)
    then show "s \<in> set ts \<longleftrightarrow> IsActiveTick (ggetd 0 (m_clock (setActiveStates m called ts)) s)"
      unfolding setActiveStates_tick [OF False assms(2) d] by (auto simp: tick_delta_def)
  qed
  with assms(2,3) show ?thesis
    unfolding clock_inv_def setActiveStates_fields(1) [OF False] setActiveStates_frame by blast
qed

section \<open>Export and import round trip\<close>

lemma import_loop_exact:
  assumes "set states \<subseteq> set names" "length ticks = length states" "distinct states"
  shows "\<exists>clock'. import_loop names ticks states (active, clock)
           = Inr (None, active @ map fst (filter (\<lambda>(s, t). IsActiveTick t) (zip states ticks)), clock')
         \<and> (\<forall>s. ggetd 0 clock' s = (case map_of (zip states ticks) s of Some t \<Rightarrow> t | None \<Rightarrow> ggetd 0 clock s))"
  using assms
proof (induction names ticks states "(active, clock)" arbitrary: active clock rule: import_loop.induct)
  case (3 names v ticks state states active clock)
  have none: "map_of (zip states ticks) state = None"
    using "3.prems" by (auto simp: map_of_eq_None_iff dest: set_zip_leftD)
  have st: "slices_Contains names state" using "3.prems" by simp
  let ?a = "if IsActiveTick v then active @ [state] else active"
  obtain clock' where c: "import_loop names ticks states (?a, gput state v clock)
      = Inr (None, ?a @ map fst (filter (\<lambda>(s, t). IsActiveTick t) (zip states ticks)), clock')"
    and g: "\<And>s. ggetd 0 clock' s = (case map_of (zip states ticks) s of
        Some t \<Rightarrow> t | None \<Rightarrow> ggetd 0 (gput state v clock) s)"
    using "3.hyps" st "3.prems" by (auto simp del: ggetd_gput)
  have "ggetd 0 clock' s = (case map_of (zip (state # states) (v # ticks)) s of
        Some t \<Rightarrow> t | None \<Rightarrow> ggetd 0 clock s)" for s
    using g [of s] none by (simp split: option.splits)
  then show ?case using c st by (intro exI [of _ clock']) simp
qed auto

end
