(* ===== verification/Am_Enqueue.thy ===== *)
theory Am_Enqueue
  imports Am_Machine
begin

text \<open>
  How mutations enter the queue: \<open>queueMutation\<close>, \<open>PrependMut\<close> and the mutation methods of
  \<open>src/pkg/machine/machine.go\<close> up to their call of \<open>processQueue\<close>. Code that runs inside a handler calls
  the same methods while \<open>queueProcessing\<close> is set, so that \<open>processQueue\<close> returns at once; such a call
  is a value of \<open>mut_call\<close>, and \<open>nested_call\<close> is its effect.
\<close>

section \<open>The queue\<close>

text \<open>The source of a traced mutation, from an \<open>Event\<close> given by its machine and transition.\<close>

record Event =
  ev_MachineId :: string
  ev_TransitionId :: nat

definition mut_source :: "Machine \<Rightarrow> Event option \<Rightarrow> MutSource option" where
  "mut_source m event =
     (case event of
        None \<Rightarrow> None
      | Some e \<Rightarrow> Some \<lparr>ms_MachId = ev_MachineId e, ms_TxId = ev_TransitionId e,
          ms_MachTime = (case m_t m of None \<Rightarrow> 0 | Some tx \<Rightarrow> Time_SumAll (tx_TimeBefore tx))\<rparr>)"

text \<open>Result 0 (\<open>Executed\<close>) means that a duplicate was skipped.\<close>

definition queueMutation ::
  "Machine \<Rightarrow> MutationType \<Rightarrow> S \<Rightarrow> A \<Rightarrow> Event option \<Rightarrow> (uint64 \<times> Machine) res" where
  "queueMutation m mutType states args event =
     (case mach_mustParse m states of
        Inl fault \<Rightarrow> Inl fault
      | Inr statesParsed \<Rightarrow>
          (let multi = list_ex (\<lambda>s. Multi (Schema_Get (m_schema m) s)) statesParsed in
           if \<not> multi \<and> length args = 0 \<and> detectQueueDuplicates m mutType statesParsed False
           then Inr (Executed, m)
           else let lenQ = length (m_queue m) + 1;
                    pending = m_queueTicksPending m + 1;
                    mut = Mutation_zero\<lparr>mu_Type := mutType, mu_Called := mach_Index m statesParsed,
                      mu_Args := args, mu_Source := mut_source m event,
                      mu_cacheCalled := Some statesParsed, mu_QueueLen := of_nat lenQ,
                      mu_QueueTick := pending + m_queueTick m, mu_QueueTickNow := m_queueTick m\<rparr>
                in Inr (mu_QueueTick mut,
                        m\<lparr>m_queue := m_queue m @ [mut], m_queueLen := of_nat lenQ,
                          m_queueTicksPending := pending\<rparr>)))"

text \<open>\<open>PrependMut\<close> up to \<open>processQueue\<close>; \<open>None\<close> when the machine is disposing. A prepended mutation has a
  queue token and no queue tick.\<close>

definition prependMut :: "Machine \<Rightarrow> Mutation \<Rightarrow> Machine option res" where
  "prependMut m mut =
     (if m_disposing m then Inr None
      else case IndexToStates (m_stateNames m) (mu_Called mut) of
        Inl fault \<Rightarrow> Inl fault
      | Inr names \<Rightarrow>
          (case mach_mustParse m names of
             Inl fault \<Rightarrow> Inl fault
           | Inr statesParsed \<Rightarrow>
               (let isEval = (mu_Type mut = mutationEval);
                    lenQ = length (m_queue m) + 1;
                    mut1 = (if isEval then mut
                            else mut\<lparr>mu_cacheCalled := Some statesParsed, mu_QueueLen := of_nat lenQ,
                                   mu_QueueToken := m_queueToken m + 1, mu_QueueTickNow := m_queueTick m\<rparr>)
                in Inr (Some (m\<lparr>m_queue := mut1 # m_queue m, m_queueLen := of_nat lenQ,
                     m_queueToken := (if isEval then m_queueToken m else m_queueToken m + 1)\<rparr>)))))"

text \<open>The head of \<open>processQueue\<close>: nothing to do, or already running.\<close>

definition processQueue_busy :: "Machine \<Rightarrow> Result option" where
  "processQueue_busy m =
     (if m_queueLen m = 0 \<or> m_disposing m then Some Canceled
      else if m_queueProcessing m then Some Queued else None)"

section \<open>The mutation methods before processQueue\<close>

text \<open>\<open>Inl r\<close>: the method returns \<open>r\<close> at once. \<open>Inr tick\<close>: the mutation was queued with that tick.\<close>

type_synonym prep = "((Result + uint64) \<times> Machine) res"

definition queue_full :: "Machine \<Rightarrow> bool" where
  "queue_full m = (QueueLen m \<ge> m_QueueLimit m)"

definition queue_prep :: "Machine \<Rightarrow> MutationType \<Rightarrow> S \<Rightarrow> A \<Rightarrow> Event option \<Rightarrow> prep" where
  "queue_prep m mutType states args event =
     (case queueMutation m mutType states args event of
        Inl fault \<Rightarrow> Inl fault
      | Inr (queueTick, m') \<Rightarrow>
          (if queueTick = Executed then Inr (Inl Executed, m') else Inr (Inr queueTick, m')))"

definition Add_prep :: "Machine \<Rightarrow> S \<Rightarrow> A \<Rightarrow> prep" where
  "Add_prep m states args =
     (if m_disposing m \<or> Backoff m then Inr (Inl Canceled, m)
      else if queue_full m \<and> (\<not> slices_Contains states StateException \<or> IsErr m)
      then Inr (Inl Canceled, m)
      else queue_prep m MutationAdd states args None)"

definition Remove_prep :: "Machine \<Rightarrow> S \<Rightarrow> A \<Rightarrow> prep" where
  "Remove_prep m states args =
     (if m_disposing m \<or> Backoff m then Inr (Inl Canceled, m)
      else if queue_full m \<and> (\<not> slices_Contains states StateException \<or> \<not> IsErr m)
      then Inr (Inl Canceled, m)
      else if length (m_queue m) = 0 \<and> m_t m \<noteq> None \<and> \<not> Any m (map (\<lambda>name. [name]) states)
      then Inr (Inl Executed, m)
      else queue_prep m MutationRemove states args None)"

definition Set_prep :: "Machine \<Rightarrow> S \<Rightarrow> A \<Rightarrow> prep" where
  "Set_prep m states args =
     (if m_disposing m \<or> queue_full m then Inr (Inl Canceled, m)
      else queue_prep m MutationSet states args None)"

definition EvAdd_prep :: "Machine \<Rightarrow> Event option \<Rightarrow> S \<Rightarrow> A \<Rightarrow> prep" where
  "EvAdd_prep m event states args =
     (if m_disposing m \<or> Backoff m \<or> queue_full m then Inr (Inl Canceled, m)
      else queue_prep m MutationAdd states args event)"

definition EvRemove_prep :: "Machine \<Rightarrow> Event option \<Rightarrow> S \<Rightarrow> A \<Rightarrow> prep" where
  "EvRemove_prep m event states args =
     (if m_disposing m \<or> Backoff m \<or> queue_full m then Inr (Inl Canceled, m)
      else if length (m_queue m) = 0 \<and> m_t m \<noteq> None \<and> \<not> Any m (map (\<lambda>name. [name]) states)
      then Inr (Inl Executed, m)
      else queue_prep m MutationRemove states args event)"

text \<open>Errors are texts; \<open>None\<close> is a \<open>nil\<close> error, \<open>Some ctxCanceled\<close> is \<open>context.Canceled\<close>.\<close>

definition ctxCanceled :: string where "ctxCanceled = ''context canceled''"

definition AddErrState_prep :: "Machine \<Rightarrow> string \<Rightarrow> string option \<Rightarrow> A \<Rightarrow> prep" where
  "AddErrState_prep m state err args =
     (if m_disposing m \<or> Backoff m \<or> queue_full m \<or> err = None \<or> err = Some ctxCanceled
      then Inr (Inl Canceled, m)
      else Add_prep (m\<lparr>m_err := err\<rparr>) [state, StateException]
             (PassMerge [args, Pass [VException (the err)]]))"

definition EvAddErrState_prep :: "Machine \<Rightarrow> Event option \<Rightarrow> string \<Rightarrow> string option \<Rightarrow> A \<Rightarrow> prep" where
  "EvAddErrState_prep m event state err args =
     (if m_disposing m \<or> Backoff m \<or> queue_full m \<or> err = None \<or> err = Some ctxCanceled
      then Inr (Inl Canceled, m)
      else EvAdd_prep (m\<lparr>m_err := err\<rparr>) event [state, StateException]
             (PassMerge [args, Pass [VException (the err)]]))"

text \<open>\<open>CanAdd\<close> and \<open>CanRemove\<close>; \<open>CanRemove1\<close> drops its arguments.\<close>

definition check_mutation :: "Machine \<Rightarrow> MutationType \<Rightarrow> S \<Rightarrow> A \<Rightarrow> Mutation" where
  "check_mutation m typ states args =
     Mutation_zero\<lparr>mu_Type := typ, mu_Called := mach_Index m states, mu_Args := args, mu_IsCheck := True\<rparr>"

definition Can_prep :: "Machine \<Rightarrow> MutationType \<Rightarrow> S \<Rightarrow> A \<Rightarrow> Machine option res" where
  "Can_prep m typ states args =
     (if m_disposing m \<or> Backoff m then Inr None else prependMut m (check_mutation m typ states args))"

section \<open>Calls from within a handler\<close>

datatype mut_call =
    CallAdd S A | CallRemove S A | CallSet S A | CallAddErr "string option" A
  | CallCanAdd S A | CallCanRemove S A | CallEvAdd S A | CallEvRemove S A
  | CallPrepend Mutation

definition prep_state :: "prep \<Rightarrow> Machine res" where
  "prep_state p = (case p of Inl fault \<Rightarrow> Inl fault | Inr (_, m) \<Rightarrow> Inr m)"

definition prepend_state :: "Machine \<Rightarrow> Machine option res \<Rightarrow> Machine res" where
  "prepend_state m p =
     (case p of Inl fault \<Rightarrow> Inl fault | Inr None \<Rightarrow> Inr m | Inr (Some m') \<Rightarrow> Inr m')"

definition event_of :: "Machine \<Rightarrow> Event" where
  "event_of m = \<lparr>ev_MachineId = m_id m,
     ev_TransitionId = (case m_t m of None \<Rightarrow> 0 | Some tx \<Rightarrow> tx_Id tx)\<rparr>"

fun nested_call :: "Machine \<Rightarrow> mut_call \<Rightarrow> Machine res" where
  "nested_call m (CallAdd states args) = prep_state (Add_prep m states args)"
| "nested_call m (CallRemove states args) = prep_state (Remove_prep m states args)"
| "nested_call m (CallSet states args) = prep_state (Set_prep m states args)"
| "nested_call m (CallAddErr err args) = prep_state (AddErrState_prep m StateException err args)"
| "nested_call m (CallCanAdd states args) = prepend_state m (Can_prep m MutationAdd states args)"
| "nested_call m (CallCanRemove states args) = prepend_state m (Can_prep m MutationRemove states args)"
| "nested_call m (CallEvAdd states args) = prep_state (EvAdd_prep m (Some (event_of m)) states args)"
| "nested_call m (CallEvRemove states args) = prep_state (EvRemove_prep m (Some (event_of m)) states args)"
| "nested_call m (CallPrepend mut) = prepend_state m (prependMut m mut)"

text \<open>A panic ends the sequence; what was queued before stays queued.\<close>

fun nested_calls :: "Machine \<Rightarrow> mut_call list \<Rightarrow> Machine \<times> bool" where
  "nested_calls m [] = (m, True)"
| "nested_calls m (c # cs) =
     (case nested_call m c of Inl fault \<Rightarrow> (m, False) | Inr m' \<Rightarrow> nested_calls m' cs)"

end
