(* ===== verification/Am_Transition.thy ===== *)
theory Am_Transition
  imports Am_Enqueue
begin

text \<open>
  Transitions, \<open>src/pkg/machine/transition.go\<close>, and the calling of handlers in
  \<open>src/pkg/machine/machine.go\<close>. The transition under way is \<open>m_t\<close> of the machine, as in the sources,
  where \<open>m.t\<close> and the receiver \<open>t\<close> are the same pointer.

  Handlers are user code. \<open>en_handler env m num method args\<close> is what the method of the binding with that
  number does in machine \<open>m\<close>: the mutation methods it calls and how it ends. Between the call and its
  end the queue goroutine waits, so the handler runs as one step. Tracers, the semantic logger and the
  callbacks \<open>OnChange\<close> and \<open>OnError\<close> are absent (the defaults), the log level is \<open>LogNothing\<close>.
\<close>

datatype outcome = HRet bool | HPanic string | HTimeout | HDeadline

record Env =
  en_handler :: "Machine \<Rightarrow> nat \<Rightarrow> string \<Rightarrow> A \<Rightarrow> mut_call list \<times> outcome"
  en_eval :: "nat \<Rightarrow> mut_call list"
  en_expired :: "ctx \<Rightarrow> bool"
  en_query :: "nat \<Rightarrow> Clock \<Rightarrow> bool"

section \<open>The transition of a machine\<close>

definition Transition_none :: Transition where
  "Transition_none = \<lparr>tx_Id = 0, tx_Mutation = Mutation_zero, tx_TimeBefore = [], tx_TimeAfter = [],
     tx_TargetIndexes = [], tx_Enters = [], tx_Exits = [], tx_QueueLen = 0, tx_IsCompleted = False,
     tx_IsAccepted = False, tx_latestHandlerIsEnter = False, tx_latestHandlerIsFinal = False,
     tx_latestHandlerToState = [], tx_cacheTargetStates = None, tx_cacheStatesBefore = None,
     tx_cacheClockBefore = None, tx_cacheActivated = [], tx_cacheDeactivated = [], tx_cacheSchema = []\<rparr>"

definition cur :: "Machine \<Rightarrow> Transition" where
  "cur m = (case m_t m of None \<Rightarrow> Transition_none | Some t \<Rightarrow> t)"

definition upd_t :: "(Transition \<Rightarrow> Transition) \<Rightarrow> Machine \<Rightarrow> Machine" where
  "upd_t f m = m\<lparr>m_t := map_option f (m_t m)\<rparr>"

definition tx_Type :: "Transition \<Rightarrow> MutationType" where
  "tx_Type t = mu_Type (tx_Mutation t)"

definition tx_IsAuto :: "Transition \<Rightarrow> bool" where
  "tx_IsAuto t = mu_IsAuto (tx_Mutation t)"

definition tx_CalledStates :: "S \<Rightarrow> Transition \<Rightarrow> S res" where
  "tx_CalledStates names t =
     (case mu_cacheCalled (tx_Mutation t) of
        Some v \<Rightarrow> Inr v
      | None \<Rightarrow> IndexToStates names (mu_Called (tx_Mutation t)))"

text \<open>With the cache gone the states are rebuilt from the odd ticks.\<close>

definition tx_StatesBefore :: "S \<Rightarrow> Transition \<Rightarrow> S" where
  "tx_StatesBefore names t =
     (case tx_cacheStatesBefore t of
        Some v \<Rightarrow> v
      | None \<Rightarrow> map fst (filter (\<lambda>(s, v). IsActiveTick v) (zip names (tx_TimeBefore t))))"

definition tx_TargetStates :: "S \<Rightarrow> Transition \<Rightarrow> S" where
  "tx_TargetStates names t =
     (case tx_cacheTargetStates t of
        Some v \<Rightarrow> v
      | None \<Rightarrow>
          (if - 1 \<in> set (tx_TargetIndexes t) then []
           else map (\<lambda>i. names ! nat i) (tx_TargetIndexes t)))"

definition tx_ClockBefore :: "S \<Rightarrow> Transition \<Rightarrow> Clock" where
  "tx_ClockBefore names t =
     (case tx_cacheClockBefore t of
        Some v \<Rightarrow> v
      | None \<Rightarrow> foldl (\<lambda>c (s, v). gput s v c) [] (zip names (tx_TimeBefore t)))"

definition tx_ClockAfter :: "S \<Rightarrow> Transition \<Rightarrow> Clock" where
  "tx_ClockAfter names t = foldl (\<lambda>c (s, v). gput s v c) [] (zip names (tx_TimeAfter t))"

definition tx_TimeIndexAfter :: "S \<Rightarrow> Transition \<Rightarrow> TimeIndex" where
  "tx_TimeIndexAfter names t = \<lparr>ti_Time = tx_TimeAfter t, ti_Index = names\<rparr>"

definition tx_TimeIndexBefore :: "S \<Rightarrow> Transition \<Rightarrow> TimeIndex" where
  "tx_TimeIndexBefore names t = \<lparr>ti_Time = tx_TimeBefore t, ti_Index = names\<rparr>"

definition tx_TimeIndexCalled :: "S \<Rightarrow> Transition \<Rightarrow> TimeIndex res" where
  "tx_TimeIndexCalled names t = NewTimeIndex names (mu_Called (tx_Mutation t))"

definition tx_TimeIndexTimeDiff :: "S \<Rightarrow> Transition \<Rightarrow> TimeIndex res" where
  "tx_TimeIndexTimeDiff names t =
     NewTimeIndex names (Time_NonZeroStates (Time_DiffSince (tx_TimeAfter t) (tx_TimeBefore t)))"

definition tx_IsHealth :: "S \<Rightarrow> Transition \<Rightarrow> bool res" where
  "tx_IsHealth names t =
     (case tx_CalledStates names t of
        Inl fault \<Rightarrow> Inl fault
      | Inr c \<Rightarrow>
          Inr (if length c \<noteq> 1 \<or> tx_Type t \<noteq> MutationAdd then False
               else c ! 0 = StateHealthcheck \<or> c ! 0 = StateHeartbeat))"

definition CleanCache :: "Transition \<Rightarrow> Transition" where
  "CleanCache t = t\<lparr>tx_cacheTargetStates := None, tx_cacheStatesBefore := None,
     tx_latestHandlerToState := [], tx_latestHandlerIsEnter := False,
     tx_latestHandlerIsFinal := False, tx_cacheClockBefore := None,
     tx_Mutation := (tx_Mutation t)\<lparr>mu_cacheCalled := None\<rparr>, tx_cacheSchema := []\<rparr>"

section \<open>Creating a transition\<close>

definition statesToSet :: "Machine \<Rightarrow> MutationType \<Rightarrow> S \<Rightarrow> S" where
  "statesToSet m mutType states =
     (case mutType of
        MutationRemove \<Rightarrow> slicesFilter (m_activeStates m) (\<lambda>state _. \<not> slices_Contains states state)
      | MutationAdd \<Rightarrow> states @ m_activeStates m
      | MutationSet \<Rightarrow> states
      | mutationEval \<Rightarrow> [])"

text \<open>The call \<open>m.resolver.TargetStates(t, toSet, index)\<close>.\<close>

definition tx_resolver :: "Machine \<Rightarrow> Transition \<Rightarrow> Resolver" where
  "tx_resolver m t =
     (mach_resolver m)\<lparr>rr_Index := m_stateNames m, rr_statesBefore := tx_StatesBefore (m_stateNames m) t,
       rr_type := tx_Type t, rr_called := mu_Called (tx_Mutation t)\<rparr>"

definition tx_resolve :: "Machine \<Rightarrow> Transition \<Rightarrow> S \<Rightarrow> S res" where
  "tx_resolve m t toSet = TargetStates (tx_resolver m t) toSet"

text \<open>The prediction of the machine time after the transition.\<close>

definition time_inc :: "S \<Rightarrow> Time \<Rightarrow> string \<Rightarrow> uint64 \<Rightarrow> Time res" where
  "time_inc index t name d =
     (case tget t (slices_Index index name) of
        Inl fault \<Rightarrow> Inl fault
      | Inr v \<Rightarrow> tset t (slices_Index index name) (v + d))"

fun predict_targets :: "Schema \<Rightarrow> S \<Rightarrow> S \<Rightarrow> S \<Rightarrow> S \<Rightarrow> Time \<Rightarrow> Time res" where
  "predict_targets schema index active called [] t = Inr t"
| "predict_targets schema index active called (name # names) t =
     (if \<not> slices_Contains active name then
        (case time_inc index t name 1 of
           Inl fault \<Rightarrow> Inl fault
         | Inr t' \<Rightarrow> predict_targets schema index active called names t')
      else if slices_Contains called name \<and> Multi (Schema_Get schema name) then
        (case time_inc index t name 2 of
           Inl fault \<Rightarrow> Inl fault
         | Inr t' \<Rightarrow> predict_targets schema index active called names t')
      else predict_targets schema index active called names t)"

fun predict_removed :: "S \<Rightarrow> S \<Rightarrow> Time \<Rightarrow> Time res" where
  "predict_removed index [] t = Inr t"
| "predict_removed index (name # names) t =
     (case time_inc index t name 1 of
        Inl fault \<Rightarrow> Inl fault | Inr t' \<Rightarrow> predict_removed index names t')"

definition predict_time :: "Machine \<Rightarrow> Mutation \<Rightarrow> S \<Rightarrow> S \<Rightarrow> Time res" where
  "predict_time m mut called targetStates =
     (if mu_IsCheck mut then Inr (mach_time m None)
      else case predict_targets (m_schema m) (m_stateNames m) (m_activeStates m) called targetStates
                  (mach_time m None) of
        Inl fault \<Rightarrow> Inl fault
      | Inr t \<Rightarrow> predict_removed (m_stateNames m) (StatesDiff (m_activeStates m) targetStates) t)"

definition setupAccepted :: "S \<Rightarrow> Transition \<Rightarrow> Transition res" where
  "setupAccepted names t =
     (if tx_Type t = MutationRemove then Inr t
      else case tx_CalledStates names t of
        Inl fault \<Rightarrow> Inl fault
      | Inr called \<Rightarrow>
          (let notAccepted = StatesDiff called (tx_TargetStates names t) in
           if tx_IsAuto t \<and> length notAccepted < length called then Inr t
           else let t1 = (if tx_IsAuto t then t\<lparr>tx_IsAccepted := False\<rparr> else t) in
             if length notAccepted \<le> 0 then Inr t1
             else if mu_IsCheck (tx_Mutation t) \<and> list_ex (\<lambda>s. Multi (Schema_Get (tx_cacheSchema t) s)) called
             then Inr t1
             else Inr (t1\<lparr>tx_IsAccepted := False\<rparr>)))"

definition setupExitEnter :: "Machine \<Rightarrow> Transition \<Rightarrow> Transition res" where
  "setupExitEnter m t =
     (case tx_CalledStates (m_stateNames m) t of
        Inl fault \<Rightarrow> Inl fault
      | Inr called \<Rightarrow>
          (let targetStates = tx_TargetStates (m_stateNames m) t in
           Inr (t\<lparr>tx_Exits := SortStates (tx_resolver m t) (StatesDiff (m_activeStates m) targetStates),
                  tx_Enters := filter (\<lambda>s. \<not> is' m [s]
                      \<or> (Multi (Schema_Get (m_schema m) s) \<and> slices_Contains called s)) targetStates\<rparr>)))"

text \<open>\<open>newTransition\<close> assigns \<open>m.t\<close>; the transition is read back from the machine afterwards.\<close>

definition initTransition :: "Machine \<Rightarrow> Mutation \<Rightarrow> Transition" where
  "initTransition m mut = Transition_none\<lparr>tx_Id := m_nextTx m, tx_Mutation := mut,
     tx_TimeBefore := mach_time m None, tx_cacheSchema := m_schema m,
     tx_cacheStatesBefore := Some (m_activeStates m), tx_cacheClockBefore := Some (m_clock m),
     tx_IsAccepted := True\<rparr>"

definition newTransition :: "Machine \<Rightarrow> Mutation \<Rightarrow> Machine res" where
  "newTransition m mut =
     (let t0 = initTransition m mut; names = m_stateNames m in
      case tx_CalledStates names t0 of
        Inl fault \<Rightarrow> Inl fault
      | Inr called \<Rightarrow>
          (case tx_resolve m t0 (statesToSet m (tx_Type t0) called) of
             Inl fault \<Rightarrow> Inl fault
           | Inr targetStates \<Rightarrow>
               (case predict_time m mut called targetStates of
                  Inl fault \<Rightarrow> Inl fault
                | Inr tAfter \<Rightarrow>
                    (case setupAccepted names (t0\<lparr>tx_TimeAfter := tAfter,
                            tx_TargetIndexes := mach_Index m targetStates,
                            tx_cacheTargetStates := Some targetStates\<rparr>) of
                       Inl fault \<Rightarrow> Inl fault
                     | Inr t1 \<Rightarrow>
                         (if \<not> tx_IsAccepted t1
                          then Inr (m\<lparr>m_t := Some t1, m_nextTx := m_nextTx m + 1, m_rrIndex := names\<rparr>)
                          else case setupExitEnter m t1 of
                            Inl fault \<Rightarrow> Inl fault
                          | Inr t2 \<Rightarrow>
                              Inr (m\<lparr>m_t := Some t2, m_nextTx := m_nextTx m + 1, m_rrIndex := names\<rparr>))))))"

section \<open>Channels\<close>

text \<open>\<open>closeSafe\<close> closes a channel once.\<close>

definition close_chans :: "chan list \<Rightarrow> Machine \<Rightarrow> Machine" where
  "close_chans chs m = m\<lparr>m_closed := foldl (\<lambda>cl ch. if ch \<in> set cl then cl else cl @ [ch]) (m_closed m) chs\<rparr>"

section \<open>Recovery\<close>

text \<open>The walk over the exits and enters: from the state of the last handler on, a state is taken out of
  the active ones (enter) or put back (exit).\<close>

fun recover_walk :: "string \<Rightarrow> bool \<Rightarrow> bool \<Rightarrow> S \<Rightarrow> S \<Rightarrow> S" where
  "recover_walk latest isEnter found [] active = active"
| "recover_walk latest isEnter found (s # finals) active =
     (let found' = (found \<or> latest = s) in
      if \<not> found' then recover_walk latest isEnter found' finals active
      else if isEnter then recover_walk latest isEnter found' finals (slicesWithout active s)
      else recover_walk latest isEnter found' finals (active @ [s]))"

definition recoverFinalPhase :: "Machine \<Rightarrow> Machine res" where
  "recoverFinalPhase m =
     (let t = cur m;
          activeStates = recover_walk (tx_latestHandlerToState t) (tx_latestHandlerIsEnter t) False
            (tx_Exits t @ tx_Enters t) (m_activeStates m)
      in case tx_CalledStates (m_stateNames m) t of
           Inl fault \<Rightarrow> Inl fault
         | Inr called \<Rightarrow> Inr (setActiveStates m called activeStates))"

text \<open>\<open>recoverToErr\<close>: a panic while \<open>Exception\<close> itself is being added is dropped, and then no new handler
  loop is started; otherwise the transition is cancelled and \<open>Exception\<close> is put in front of the queue.\<close>

definition exception_mutation :: "Machine \<Rightarrow> string \<Rightarrow> Mutation" where
  "exception_mutation m err =
     Mutation_zero\<lparr>mu_Type := MutationAdd, mu_Called := mach_Index m [StateException],
       mu_Source := Some \<lparr>ms_MachId = m_id m, ms_TxId = tx_Id (cur m), ms_MachTime = 0\<rparr>,
       mu_Args := Pass [VException err]\<rparr>"

definition recoverToErr :: "Machine \<Rightarrow> string \<Rightarrow> Machine res" where
  "recoverToErr m err =
     (if m_disposing m then Inr m
      else let m1 = m\<lparr>m_panicCaught := True\<rparr> in
        if Mutation_IsCalled (tx_Mutation (cur m1)) (mach_Index1 m1 StateException) then Inr m1
        else let m2 = m1\<lparr>m_err := Some err\<rparr> in
          case (if tx_latestHandlerIsFinal (cur m2) then recoverFinalPhase m2 else Inr m2) of
            Inl fault \<Rightarrow> Inl fault
          | Inr m3 \<Rightarrow>
              (let m4 = upd_t (\<lambda>t. t\<lparr>tx_IsAccepted := False, tx_IsCompleted := True\<rparr>) m3 in
               case prependMut m4 (exception_mutation m4 err) of
                 Inl fault \<Rightarrow> Inl fault
               | Inr None \<Rightarrow> Inr (m4\<lparr>m_loopAlive := True\<rparr>)
               | Inr (Some m5) \<Rightarrow> Inr (m5\<lparr>m_loopAlive := True\<rparr>)))"

section \<open>Calling handlers\<close>

text \<open>\<open>newHandlerCallStruct\<close> and \<open>newHandlerCallMap\<close>: is there a method to call?\<close>

definition has_method :: "handler \<Rightarrow> string \<Rightarrow> bool" where
  "has_method h name =
     (if \<not> h_isMap h then slices_Contains (h_methods h) name
      else if strings_HasSuffix name SuffixState \<or> strings_HasSuffix name SuffixEnd
      then slices_Contains (h_finals h) name
      else slices_Contains (h_negotiations h) name)"

text \<open>\<open>Event.IsValid\<close> for the event of the current transition.\<close>

definition event_valid :: "Machine \<Rightarrow> bool" where
  "event_valid m =
     (case m_t m of None \<Rightarrow> False | Some t \<Rightarrow> \<not> tx_IsCompleted t \<and> tx_IsAccepted t)"

text \<open>After \<open>HandlerDeadline\<close> the queue is dropped, \<open>Exception\<close> is queued and the backoff begins.\<close>

definition deadline_reset :: "Machine \<Rightarrow> Machine" where
  "deadline_reset m = m\<lparr>m_loopAlive := True, m_queue := [], m_queueLen := 0, m_queueTicksPending := 0\<rparr>"

definition handler_deadline :: "Machine \<Rightarrow> string \<Rightarrow> Machine res" where
  "handler_deadline m err =
     (let m1 = deadline_reset m in
      case EvAddErrState_prep m1 (Some (event_of m1)) StateException (Some err) (Pass [VException []]) of
        Inl fault \<Rightarrow> Inl fault
      | Inr (_, m2) \<Rightarrow> Inr (m2\<lparr>m_LastHandlerDeadline := Some (m_now m2)\<rparr>))"

text \<open>One handler call, as seen by the queue goroutine: \<open>(ret, timeout)\<close>. Without a live handler loop the
  send on \<open>handlerStart\<close> blocks for good. A panic that is not converted ends the program. What a handler does
  after it has timed out, a late panic included, is not followed.\<close>

definition run_handler :: "Env \<Rightarrow> Machine \<Rightarrow> handler \<Rightarrow> string \<Rightarrow> A \<Rightarrow> ((bool \<times> bool) \<times> Machine) res" where
  "run_handler env m h method args =
     (if \<not> m_loopAlive m then Inl Deadlock
      else if \<not> event_valid m then Inr ((False, False), m)
      else case en_handler env m (h_num h) method args of (calls, out) \<Rightarrow>
        (case nested_calls m calls of (m1, done) \<Rightarrow>
          (case (if done then out else HPanic ''missing states'') of
             HRet b \<Rightarrow> Inr ((b, False), m1)
           | HTimeout \<Rightarrow> Inr ((False, True), m1)
           | HDeadline \<Rightarrow>
               (case handler_deadline m1 ''handler timeout'' of
                  Inl fault \<Rightarrow> Inl fault | Inr m2 \<Rightarrow> Inr ((False, True), m2))
           | HPanic err \<Rightarrow>
               (if \<not> m_PanicToException m1 then Inl (GoPanic err)
                else case recoverToErr (m1\<lparr>m_loopAlive := False\<rparr>) err of
                  Inl fault \<Rightarrow> Inl fault | Inr m2 \<Rightarrow> Inr ((False, False), m2)))))"

definition ignores_result :: "string \<Rightarrow> bool" where
  "ignores_result name = (strings_HasSuffix name SuffixState \<or> strings_HasSuffix name SuffixEnd)"

fun processHandlers_loop ::
  "Env \<Rightarrow> handler list \<Rightarrow> string \<Rightarrow> A \<Rightarrow> Machine \<Rightarrow> (Result \<times> Machine) res" where
  "processHandlers_loop env [] name args m = Inr (Executed, m)"
| "processHandlers_loop env (h # hs) name args m =
     (if \<not> strings_HasPrefix name (h_StatePrefix h)
         \<or> \<not> has_method h (strings_TrimPrefix name (h_StatePrefix h))
      then processHandlers_loop env hs name args m
      else case run_handler env m h (strings_TrimPrefix name (h_StatePrefix h)) args of
        Inl fault \<Rightarrow> Inl fault
      | Inr ((ret, timeout), m1) \<Rightarrow>
          (if timeout then Inr (Canceled, m1)
           else if ignores_result name then processHandlers_loop env hs name args m1
           else if \<not> ret then Inr (Canceled, m1)
           else processHandlers_loop env hs name args m1))"

definition processHandlers :: "Env \<Rightarrow> string \<Rightarrow> A \<Rightarrow> Machine \<Rightarrow> (Result \<times> Machine) res" where
  "processHandlers env name args m =
     (if m_disposing m then Inr (Canceled, m)
      else case processHandlers_loop env (m_handlers m) name args m of
        Inl fault \<Rightarrow> Inl fault
      | Inr (res, m1) \<Rightarrow>
          (if res = Canceled then Inr (Canceled, m1)
           else case ProcessWhenArgs (en_expired env) (m_subs m1) name args of (sm, chs) \<Rightarrow>
             Inr (Executed, close_chans chs (m1\<lparr>m_subs := sm\<rparr>))))"

definition handle :: "Env \<Rightarrow> string \<Rightarrow> A \<Rightarrow> bool \<Rightarrow> bool \<Rightarrow> Machine \<Rightarrow> (Result \<times> Machine) res" where
  "handle env name args isFinal isEnter m =
     (if m_disposing m then Inr (Canceled, m)
      else case processHandlers env name args
             (upd_t (\<lambda>t. t\<lparr>tx_latestHandlerIsEnter := isEnter, tx_latestHandlerIsFinal := isFinal\<rparr>) m) of
        Inl fault \<Rightarrow> Inl fault
      | Inr (res, m1) \<Rightarrow>
          (if m_panicCaught m1 then Inr (Canceled, m1\<lparr>m_panicCaught := False\<rparr>) else Inr (res, m1)))"

definition emitHandler :: "Env \<Rightarrow> string \<Rightarrow> bool \<Rightarrow> bool \<Rightarrow> string \<Rightarrow> Machine \<Rightarrow> (Result \<times> Machine) res" where
  "emitHandler env to isFinal isEnter event m =
     handle env event (mu_Args (tx_Mutation (cur m))) isFinal isEnter
       (upd_t (\<lambda>t. t\<lparr>tx_latestHandlerToState := to\<rparr>) m)"

section \<open>Negotiation\<close>

text \<open>Partial acceptance of auto states: the state leaves the targets. An index of \<open>-1\<close> panics in
  \<open>slices.Delete\<close>.\<close>

definition drop_target :: "string \<Rightarrow> Machine \<Rightarrow> Machine res" where
  "drop_target s m =
     (let t = cur m; targets = tx_TargetStates (m_stateNames m) t; idx = slices_Index targets s in
      case slices_Delete (tx_TargetIndexes t) idx (idx + 1) of
        Inl fault \<Rightarrow> Inl fault
      | Inr idxs \<Rightarrow>
          (case slices_Delete targets idx (idx + 1) of
             Inl fault \<Rightarrow> Inl fault
           | Inr targets' \<Rightarrow>
               Inr (upd_t (\<lambda>t. t\<lparr>tx_TargetIndexes := idxs, tx_cacheTargetStates := Some targets'\<rparr>) m)))"

definition partial_auto :: "Machine \<Rightarrow> string \<Rightarrow> bool" where
  "partial_auto m s = (tx_IsAuto (cur m) \<and> Auto (Schema_Get (tx_cacheSchema (cur m)) s))"

fun emitExit_loop :: "Env \<Rightarrow> S \<Rightarrow> Machine \<Rightarrow> (Result \<times> Machine) res" where
  "emitExit_loop env [] m = Inr (Executed, m)"
| "emitExit_loop env (fromState # exits) m =
     (case emitHandler env [] False False (fromState @ SuffixExit) m of
        Inl fault \<Rightarrow> Inl fault
      | Inr (ret, m1) \<Rightarrow>
          (if ret \<noteq> Canceled then emitExit_loop env exits m1
           else if partial_auto m fromState then
             (case drop_target fromState m1 of
                Inl fault \<Rightarrow> Inl fault | Inr m2 \<Rightarrow> emitExit_loop env exits m2)
           else Inr (ret, m1)))"

definition emitExitEvents :: "Env \<Rightarrow> Machine \<Rightarrow> (Result \<times> Machine) res" where
  "emitExitEvents env m = emitExit_loop env (tx_Exits (cur m)) m"

fun emitEnter_loop :: "Env \<Rightarrow> S \<Rightarrow> Machine \<Rightarrow> (Result \<times> Machine) res" where
  "emitEnter_loop env [] m = Inr (Executed, m)"
| "emitEnter_loop env (toState # enters) m =
     (case emitHandler env toState False True (toState @ SuffixEnter) m of
        Inl fault \<Rightarrow> Inl fault
      | Inr (ret, m1) \<Rightarrow>
          (if ret \<noteq> Canceled then emitEnter_loop env enters m1
           else if partial_auto m toState then
             (case drop_target toState m1 of
                Inl fault \<Rightarrow> Inl fault | Inr m2 \<Rightarrow> emitEnter_loop env enters m2)
           else Inr (ret, m1)))"

definition emitEnterEvents :: "Env \<Rightarrow> Machine \<Rightarrow> (Result \<times> Machine) res" where
  "emitEnterEvents env m = emitEnter_loop env (tx_Enters (cur m)) m"

text \<open>\<open>emitSelfEvents\<close> ranges over the slice of targets while \<open>slices.Delete\<close> shifts the same array and
  clears its tail: position \<open>i\<close> is read from \<open>arr\<close>, whose length never changes. \<open>ret\<close> is the result of
  the last handler.\<close>

definition shift_out :: "S \<Rightarrow> string \<Rightarrow> S" where
  "shift_out arr s = slicesWithout arr s @ [[]]"

fun emitSelf_loop :: "Env \<Rightarrow> nat \<Rightarrow> nat \<Rightarrow> S \<Rightarrow> Result \<Rightarrow> Machine \<Rightarrow> (Result \<times> Machine) res" where
  "emitSelf_loop env 0 i arr ret m = Inr (ret, m)"
| "emitSelf_loop env (Suc n) i arr ret m =
     (let s = arr ! i in
      if \<not> Is m [s] then emitSelf_loop env n (Suc i) arr ret m
      else case emitHandler env s False False (s @ s) m of
        Inl fault \<Rightarrow> Inl fault
      | Inr (ret1, m1) \<Rightarrow>
          (if ret1 \<noteq> Canceled then emitSelf_loop env n (Suc i) arr ret1 m1
           else if partial_auto m s then
             (case drop_target s m1 of
                Inl fault \<Rightarrow> Inl fault
              | Inr m2 \<Rightarrow> emitSelf_loop env n (Suc i) (shift_out arr s) ret1 m2)
           else Inr (ret1, m1)))"

definition emitSelfEvents :: "Env \<Rightarrow> Machine \<Rightarrow> (Result \<times> Machine) res" where
  "emitSelfEvents env m =
     (let targets = tx_TargetStates (m_stateNames m) (cur m)
      in emitSelf_loop env (length targets) 0 targets Executed m)"

text \<open>\<open>emitStateStateEvents\<close>: the pairs \<open>(before, after)\<close> in the order of the two loops, over snapshots of
  both lists; a target that is already gone is not dropped twice.\<close>

fun emitStateState_loop :: "Env \<Rightarrow> (string \<times> string) list \<Rightarrow> Machine \<Rightarrow> (Result \<times> Machine) res" where
  "emitStateState_loop env [] m = Inr (Executed, m)"
| "emitStateState_loop env ((b, a) # pairs) m =
     (if b = a then emitStateState_loop env pairs m
      else case emitHandler env [] False False (b @ a) m of
        Inl fault \<Rightarrow> Inl fault
      | Inr (ret, m1) \<Rightarrow>
          (if ret \<noteq> Canceled then emitStateState_loop env pairs m1
           else if partial_auto m a then
             (if a \<notin> set (tx_TargetStates (m_stateNames m1) (cur m1))
              then emitStateState_loop env pairs m1
              else case drop_target a m1 of
                Inl fault \<Rightarrow> Inl fault | Inr m2 \<Rightarrow> emitStateState_loop env pairs m2)
           else Inr (ret, m1)))"

definition emitStateStateEvents :: "Env \<Rightarrow> Machine \<Rightarrow> (Result \<times> Machine) res" where
  "emitStateStateEvents env m =
     emitStateState_loop env
       (concat (map (\<lambda>b. map (\<lambda>a. (b, a)) (tx_TargetStates (m_stateNames m) (cur m)))
          (tx_StatesBefore (m_stateNames m) (cur m)))) m"

definition negotiate_step ::
  "(Machine \<Rightarrow> (Result \<times> Machine) res) \<Rightarrow> (Result \<times> Machine) res \<Rightarrow> (Result \<times> Machine) res" where
  "negotiate_step f r =
     (case r of
        Inl fault \<Rightarrow> Inl fault
      | Inr (result, m) \<Rightarrow> (if result \<noteq> Canceled then f m else Inr (result, m)))"

definition self_step :: "Env \<Rightarrow> Machine \<Rightarrow> (Result \<times> Machine) res" where
  "self_step env m =
     (if tx_Type (cur m) \<noteq> MutationRemove then emitSelfEvents env m else Inr (Executed, m))"

text \<open>None of the auto states has been accepted.\<close>

definition auto_step :: "(Result \<times> Machine) res \<Rightarrow> (Result \<times> Machine) res" where
  "auto_step r =
     (case r of
        Inl fault \<Rightarrow> Inl fault
      | Inr (result, m) \<Rightarrow>
          (if tx_IsAuto (cur m) \<and> length (tx_TargetIndexes (cur m)) = 0
           then Inr (Canceled, m) else Inr (result, m)))"

definition any_enter_step :: "Env \<Rightarrow> Machine \<Rightarrow> (Result \<times> Machine) res" where
  "any_enter_step env m = emitHandler env StateAny False True (StateAny @ SuffixEnter) m"

definition negotiate :: "Env \<Rightarrow> Result \<Rightarrow> Machine \<Rightarrow> (Result \<times> Machine) res" where
  "negotiate env result m =
     (if \<not> m_handlerLoopRunning m then Inr (result, m)
      else negotiate_step (any_enter_step env)
        (auto_step
          (negotiate_step (emitStateStateEvents env)
            (negotiate_step (self_step env)
              (negotiate_step (emitEnterEvents env)
                (negotiate_step (emitExitEvents env) (Inr (result, m))))))))"

section \<open>Final handlers\<close>

fun emitFinal_loop :: "Env \<Rightarrow> S \<Rightarrow> S \<Rightarrow> Machine \<Rightarrow> (Result \<times> Machine) res" where
  "emitFinal_loop env enters [] m = Inr (Executed, m)"
| "emitFinal_loop env enters (s # finals) m =
     (let isEnter = slices_Contains enters s;
          handler = (if isEnter then s @ SuffixState else s @ SuffixEnd);
          to = (if isEnter then s else [])
      in case emitHandler env to True isEnter handler m of
           Inl fault \<Rightarrow> Inl fault
         | Inr (ret, m1) \<Rightarrow>
             (if ret = Canceled then Inr (ret, m1) else emitFinal_loop env enters finals m1))"

definition emitFinalEvents :: "Env \<Rightarrow> Machine \<Rightarrow> (Result \<times> Machine) res" where
  "emitFinalEvents env m =
     emitFinal_loop env (tx_Enters (cur m)) (tx_Exits (cur m) @ tx_Enters (cur m)) m"

text \<open>The second resolution of an auto mutation, without the called states that were rejected.\<close>

definition recheck_auto :: "S \<Rightarrow> Machine \<Rightarrow> Machine res" where
  "recheck_auto called m =
     (if \<not> tx_IsAuto (cur m) then Inr m
      else let t = cur m;
               rejected = StatesDiff called (tx_TargetStates (m_stateNames m) t);
               calledClean = StatesDiff called rejected
        in case tx_resolve m t (statesToSet m MutationAdd calledClean) of
             Inl fault \<Rightarrow> Inl fault
           | Inr targetStates \<Rightarrow>
               (case setupExitEnter m (t\<lparr>tx_TargetIndexes := mach_Index m targetStates,
                       tx_cacheTargetStates := Some targetStates\<rparr>) of
                  Inl fault \<Rightarrow> Inl fault
                | Inr t' \<Rightarrow> Inr (m\<lparr>m_t := Some t'\<rparr>)))"

text \<open>The clocks are ticked, the transition's caches for the subscriptions are set and the state
  contexts that end here are cancelled.\<close>

definition commit_states :: "S \<Rightarrow> Machine \<Rightarrow> Machine" where
  "commit_states called m =
     (let m1 = setActiveStates m called (tx_TargetStates (m_stateNames m) (cur m));
          t = cur m1;
          prior = tx_StatesBefore (m_stateNames m1) t;
          activated = (if tx_IsAuto t then StatesDiff (m_activeStates m1) prior else tx_Enters t);
          deactivated = (if tx_IsAuto t then StatesDiff prior (m_activeStates m1) else tx_Exits t)
      in case ProcessStateCtx (m_subs m1) activated deactivated of (sm, toCancel) \<Rightarrow>
           upd_t (\<lambda>t. t\<lparr>tx_cacheActivated := activated, tx_cacheDeactivated := deactivated,
                       tx_TimeAfter := mach_time m1 None\<rparr>)
             (m1\<lparr>m_subs := sm, m_canceled := m_canceled m1 @ toCancel\<rparr>))"

text \<open>Final handlers and their failure; the flag says whether the machine time has changed.\<close>

definition run_finals :: "Env \<Rightarrow> bool \<Rightarrow> Machine \<Rightarrow> ((Result \<times> bool) \<times> Machine) res" where
  "run_finals env hasHandlers m =
     (case (if hasHandlers \<or> HasWhenArgs (m_subs m) then emitFinalEvents env m else Inr (Executed, m)) of
        Inl fault \<Rightarrow> Inl fault
      | Inr (result, m1) \<Rightarrow>
          (case (if result = Canceled then recoverFinalPhase m1 else Inr m1) of
             Inl fault \<Rightarrow> Inl fault
           | Inr m2 \<Rightarrow>
               (case IsTime m2 (tx_TimeBefore (cur m2)) None of
                  Inl fault \<Rightarrow> Inl fault
                | Inr same \<Rightarrow> Inr ((result, \<not> same), m2))))"

definition apply_phase :: "Env \<Rightarrow> S \<Rightarrow> Result \<Rightarrow> Machine \<Rightarrow> ((Result \<times> bool) \<times> Machine) res" where
  "apply_phase env called result m =
     (if result \<noteq> Canceled then run_finals env (m_handlerLoopRunning m) (commit_states called m)
      else Inr ((result, False), upd_t (\<lambda>t. t\<lparr>tx_TimeAfter := mach_time m None\<rparr>) m))"

definition any_state_step :: "Env \<Rightarrow> Result \<Rightarrow> Machine \<Rightarrow> (Result \<times> Machine) res" where
  "any_state_step env result m =
     (if result \<noteq> Canceled \<and> m_handlerLoopRunning m
      then emitHandler env StateAny True True (StateAny @ SuffixState) m
      else Inr (result, m))"

text \<open>\<open>NewAutoMutation\<close> of the resolver, prepended to the queue.\<close>

definition NewAutoMutation :: "Machine \<Rightarrow> Mutation option" where
  "NewAutoMutation m =
     (let toAdd = auto_toAdd (m_disposing m) (m_schema m) (m_stateNames m) (m_activeStates m) in
      if length toAdd < 1 then None
      else Some (Mutation_zero\<lparr>mu_Type := MutationAdd, mu_Called := mach_Index m toAdd,
             mu_IsAuto := True, mu_cacheCalled := Some toAdd\<rparr>))"

definition auto_phase :: "Result \<Rightarrow> bool \<Rightarrow> Machine \<Rightarrow> Machine res" where
  "auto_phase result hasStateChanged m =
     (if result = Canceled then Inr (upd_t (\<lambda>t. t\<lparr>tx_IsAccepted := False\<rparr>) m)
      else case tx_IsHealth (m_stateNames m) (cur m) of
        Inl fault \<Rightarrow> Inl fault
      | Inr health \<Rightarrow>
          (if \<not> m_disposing m \<and> hasStateChanged \<and> \<not> tx_IsAuto (cur m) \<and> \<not> health then
             (case NewAutoMutation m of
                None \<Rightarrow> Inr m
              | Some mut \<Rightarrow>
                  (case prependMut m mut of
                     Inl fault \<Rightarrow> Inl fault | Inr None \<Rightarrow> Inr m | Inr (Some m') \<Rightarrow> Inr m'))
           else Inr m))"

definition mutate_phase :: "Env \<Rightarrow> S \<Rightarrow> Result \<Rightarrow> Machine \<Rightarrow> (Result \<times> Machine) res" where
  "mutate_phase env called result m =
     (case recheck_auto called m of
        Inl fault \<Rightarrow> Inl fault
      | Inr m1 \<Rightarrow>
          (case apply_phase env called result m1 of
             Inl fault \<Rightarrow> Inl fault
           | Inr ((result2, hasStateChanged), m2) \<Rightarrow>
               (case any_state_step env result2 m2 of
                  Inl fault \<Rightarrow> Inl fault
                | Inr (result3, m3) \<Rightarrow>
                    (case auto_phase result3 hasStateChanged m3 of
                       Inl fault \<Rightarrow> Inl fault | Inr m4 \<Rightarrow> Inr (result3, m4)))))"

definition check_phase :: "Result \<Rightarrow> Machine \<Rightarrow> (Result \<times> Machine) res" where
  "check_phase result m =
     (if result = Canceled then Inr (result, upd_t (\<lambda>t. t\<lparr>tx_IsAccepted := False\<rparr>) m)
      else Inr (result, m))"

text \<open>The value \<open>emitEvents\<close> returns.\<close>

definition final_result :: "S \<Rightarrow> Result \<Rightarrow> Machine \<Rightarrow> Result res" where
  "final_result called result m =
     (let t = cur m; targets = tx_TargetStates (m_stateNames m) t in
      if result = Canceled then Inr Canceled
      else if mu_IsCheck (tx_Mutation t) then Inr result
      else if tx_Type t = MutationRemove then
        (case Not m called of
           Inl fault \<Rightarrow> Inl fault
         | Inr b \<Rightarrow> Inr (if b then Executed else Canceled))
      else if tx_IsAuto t \<and> length targets > length (tx_StatesBefore (m_stateNames m) t) then Inr Executed
      else if \<not> tx_IsAuto t \<and> Is m targets then Inr Executed
      else Inr Canceled)"

definition emitEvents :: "Env \<Rightarrow> Machine \<Rightarrow> (Result \<times> Machine) res" where
  "emitEvents env m =
     (case tx_CalledStates (m_stateNames m) (cur m) of
        Inl fault \<Rightarrow> Inl fault
      | Inr called \<Rightarrow>
          (case negotiate env (if tx_IsAccepted (cur m) then Executed else Canceled) m of
             Inl fault \<Rightarrow> Inl fault
           | Inr (result, m1) \<Rightarrow>
               (case (if \<not> mu_IsCheck (tx_Mutation (cur m1)) then mutate_phase env called result m1
                      else check_phase result m1) of
                  Inl fault \<Rightarrow> Inl fault
                | Inr (result2, m2) \<Rightarrow>
                    (let m3 = upd_t (\<lambda>t. t\<lparr>tx_QueueLen := ucast (m_queueLen m2), tx_IsCompleted := True\<rparr>) m2
                     in case final_result called result2 m3 of
                          Inl fault \<Rightarrow> Inl fault | Inr r \<Rightarrow> Inr (r, m3)))))"

end
