(* ===== verification/Am_Queue.thy ===== *)
theory Am_Queue
  imports Am_Transition
begin

text \<open>
  The queue, the main loop \<open>processQueue\<close> and the public mutation methods of
  \<open>src/pkg/machine/machine.go\<close>. A machine whose handlers keep queueing mutations runs forever, so the
  loop has fuel: one unit per mutation taken from the queue, \<open>OutOfFuel\<close> when it is used up.
\<close>

section \<open>processQueue\<close>

definition processSubscriptions :: "Env \<Rightarrow> Machine \<Rightarrow> Machine res" where
  "processSubscriptions env m =
     (let t = cur m; ex = en_expired env; clock = m_clock m in
      case ProcessWhen ex (m_subs m) (tx_cacheActivated t) (tx_cacheDeactivated t) of (sm1, c1) \<Rightarrow>
        (case ProcessWhenTime ex clock sm1 (tx_ClockBefore (m_stateNames m) t) of (sm2, c2) \<Rightarrow>
          (case ProcessWhenTimeSum ex clock sm2 of (sm3, c3) \<Rightarrow>
            (case ProcessWhenQueue sm3 (m_queueTick m) of
               Inl fault \<Rightarrow> Inl fault
             | Inr (sm4, c4) \<Rightarrow>
                 (case ProcessWhenQuery ex (en_query env) clock sm4 of
                    Inl fault \<Rightarrow> Inl fault
                  | Inr (sm5, c5) \<Rightarrow>
                      Inr (close_chans (c1 @ c2 @ c3 @ c4 @ c5) (m\<lparr>m_subs := sm5\<rparr>)))))))"

text \<open>Taking the first mutation off the queue.\<close>

definition shift_queue :: "Machine \<Rightarrow> Mutation \<Rightarrow> Mutation list \<Rightarrow> Machine" where
  "shift_queue m mut rest =
     (let m1 = m\<lparr>m_queue := rest, m_queueLen := of_nat (length rest)\<rparr> in
      if mu_QueueTick mut > 0
      then m1\<lparr>m_queueTicksPending := m_queueTicksPending m1 - 1, m_queueTick := m_queueTick m1 + 1\<rparr>
      else m1)"

text \<open>What happens after a transition: a check reports, an accepted mutation notifies. The flag written
  to \<open>ACheck.Canceled\<close> is \<open>IsAccepted\<close>.\<close>

definition after_transition :: "Env \<Rightarrow> Mutation \<Rightarrow> Machine \<Rightarrow> Machine res" where
  "after_transition env mut m =
     (if mu_IsCheck (tx_Mutation (cur m)) then
        (case ParseArgs_ACheck (mu_Args mut) of
           None \<Rightarrow> Inr m
         | Some ch \<Rightarrow> Inr (close_chans [ch] (m\<lparr>m_checks := m_checks m @ [(ch, tx_IsAccepted (cur m))]\<rparr>)))
      else if tx_IsAccepted (cur m) then processSubscriptions env m
      else Inr m)"

text \<open>One mutation: \<open>None\<close> for an eval, which adds no result.\<close>

definition run_mutation :: "Env \<Rightarrow> Mutation \<Rightarrow> Machine \<Rightarrow> (Result option \<times> Machine) res" where
  "run_mutation env mut m =
     (if ctx_expired (en_expired env) (mu_ctx mut) then Inr (Some Executed, m)
      else if mu_Type mut = mutationEval then
        (case mu_eval mut of
           None \<Rightarrow> Inl (GoPanic ''nil func'')
         | Some f \<Rightarrow>
             (case nested_calls m (en_eval env f) of (m1, done) \<Rightarrow>
                if done then Inr (None, m1) else Inl (GoPanic ''missing states'')))
      else case newTransition m mut of
        Inl fault \<Rightarrow> Inl fault
      | Inr m1 \<Rightarrow>
          (case emitEvents env m1 of
             Inl fault \<Rightarrow> Inl fault
           | Inr (r, m2) \<Rightarrow>
               (case after_transition env mut (m2\<lparr>m_timeLast := tx_TimeAfter (cur m2)\<rparr>) of
                  Inl fault \<Rightarrow> Inl fault
                | Inr m3 \<Rightarrow> Inr (Some r, upd_t CleanCache m3))))"

text \<open>\<open>Inl\<close> of the inner sum is the early return of the loop.\<close>

fun queue_loop :: "Env \<Rightarrow> nat \<Rightarrow> Result list \<Rightarrow> Machine \<Rightarrow> ((Result + Result list) \<times> Machine) res" where
  "queue_loop env 0 ret m = (if m_queueLen m = 0 then Inr (Inr ret, m) else Inl OutOfFuel)"
| "queue_loop env (Suc fuel) ret m =
     (if m_queueLen m = 0 then Inr (Inr ret, m)
      else let m1 = m\<lparr>m_queueRunning := True\<rparr> in
        if m_disposing m1 then Inr (Inl Canceled, m1)
        else case m_queue m1 of
          [] \<Rightarrow> Inr (Inl Canceled, m1)
        | mut # rest \<Rightarrow>
            (case run_mutation env mut (shift_queue m1 mut rest) of
               Inl fault \<Rightarrow> Inl fault
             | Inr (None, m2) \<Rightarrow> queue_loop env fuel ret m2
             | Inr (Some r, m2) \<Rightarrow> queue_loop env fuel (ret @ [r]) m2))"

definition queue_end :: "Machine \<Rightarrow> Machine" where
  "queue_end m =
     (let m1 = m\<lparr>m_t := None, m_queueProcessing := False, m_queueRunning := False\<rparr> in
      case ProcessWhenQueueEnds (m_subs m1) of (sm, chs) \<Rightarrow> close_chans chs (m1\<lparr>m_subs := sm\<rparr>))"

definition processQueue :: "Env \<Rightarrow> nat \<Rightarrow> Machine \<Rightarrow> (Result \<times> Machine) res" where
  "processQueue env fuel m =
     (case processQueue_busy m of
        Some r \<Rightarrow> Inr (r, m)
      | None \<Rightarrow>
          (case queue_loop env fuel [] (m\<lparr>m_queueProcessing := True, m_queueRunning := False\<rparr>) of
             Inl fault \<Rightarrow> Inl fault
           | Inr (Inl r, m1) \<Rightarrow> Inr (r, m1)
           | Inr (Inr ret, m1) \<Rightarrow>
               Inr (case ret of [] \<Rightarrow> Canceled | r # _ \<Rightarrow> r, queue_end m1)))"

section \<open>The mutation methods\<close>

definition finish_prep :: "Env \<Rightarrow> nat \<Rightarrow> prep \<Rightarrow> (Result \<times> Machine) res" where
  "finish_prep env fuel p =
     (case p of
        Inl fault \<Rightarrow> Inl fault
      | Inr (Inl r, m) \<Rightarrow> Inr (r, m)
      | Inr (Inr queueTick, m) \<Rightarrow>
          (case processQueue env fuel m of
             Inl fault \<Rightarrow> Inl fault
           | Inr (res, m') \<Rightarrow> Inr (if res = Queued then queueTick else res, m')))"

definition mach_Add :: "Env \<Rightarrow> nat \<Rightarrow> Machine \<Rightarrow> S \<Rightarrow> A \<Rightarrow> (Result \<times> Machine) res" where
  "mach_Add env fuel m states args = finish_prep env fuel (Add_prep m states args)"

definition mach_Add1 :: "Env \<Rightarrow> nat \<Rightarrow> Machine \<Rightarrow> string \<Rightarrow> A \<Rightarrow> (Result \<times> Machine) res" where
  "mach_Add1 env fuel m state args = mach_Add env fuel m [state] args"

definition mach_Remove :: "Env \<Rightarrow> nat \<Rightarrow> Machine \<Rightarrow> S \<Rightarrow> A \<Rightarrow> (Result \<times> Machine) res" where
  "mach_Remove env fuel m states args = finish_prep env fuel (Remove_prep m states args)"

definition mach_Remove1 :: "Env \<Rightarrow> nat \<Rightarrow> Machine \<Rightarrow> string \<Rightarrow> A \<Rightarrow> (Result \<times> Machine) res" where
  "mach_Remove1 env fuel m state args = mach_Remove env fuel m [state] args"

definition mach_Set :: "Env \<Rightarrow> nat \<Rightarrow> Machine \<Rightarrow> S \<Rightarrow> A \<Rightarrow> (Result \<times> Machine) res" where
  "mach_Set env fuel m states args = finish_prep env fuel (Set_prep m states args)"

definition Toggle :: "Env \<Rightarrow> nat \<Rightarrow> Machine \<Rightarrow> S \<Rightarrow> A \<Rightarrow> (Result \<times> Machine) res" where
  "Toggle env fuel m states args =
     (if m_disposing m then Inr (Canceled, m)
      else if Is m states then mach_Remove env fuel m states args
      else mach_Add env fuel m states args)"

definition Toggle1 :: "Env \<Rightarrow> nat \<Rightarrow> Machine \<Rightarrow> string \<Rightarrow> A \<Rightarrow> (Result \<times> Machine) res" where
  "Toggle1 env fuel m state args =
     (if m_disposing m then Inr (Canceled, m)
      else if Is1 m state then mach_Remove1 env fuel m state args
      else mach_Add1 env fuel m state args)"

definition EvAdd :: "Env \<Rightarrow> nat \<Rightarrow> Machine \<Rightarrow> Event option \<Rightarrow> S \<Rightarrow> A \<Rightarrow> (Result \<times> Machine) res" where
  "EvAdd env fuel m event states args = finish_prep env fuel (EvAdd_prep m event states args)"

definition EvRemove :: "Env \<Rightarrow> nat \<Rightarrow> Machine \<Rightarrow> Event option \<Rightarrow> S \<Rightarrow> A \<Rightarrow> (Result \<times> Machine) res" where
  "EvRemove env fuel m event states args = finish_prep env fuel (EvRemove_prep m event states args)"

definition EvToggle :: "Env \<Rightarrow> nat \<Rightarrow> Machine \<Rightarrow> Event option \<Rightarrow> S \<Rightarrow> A \<Rightarrow> (Result \<times> Machine) res" where
  "EvToggle env fuel m event states args =
     (if m_disposing m then Inr (Canceled, m)
      else if Is m states then EvRemove env fuel m event states args
      else EvAdd env fuel m event states args)"

definition AddErrState :: "Env \<Rightarrow> nat \<Rightarrow> Machine \<Rightarrow> string \<Rightarrow> string option \<Rightarrow> A \<Rightarrow> (Result \<times> Machine) res" where
  "AddErrState env fuel m state err args = finish_prep env fuel (AddErrState_prep m state err args)"

definition AddErr :: "Env \<Rightarrow> nat \<Rightarrow> Machine \<Rightarrow> string option \<Rightarrow> A \<Rightarrow> (Result \<times> Machine) res" where
  "AddErr env fuel m err args = AddErrState env fuel m StateException err args"

definition EvAddErrState ::
  "Env \<Rightarrow> nat \<Rightarrow> Machine \<Rightarrow> Event option \<Rightarrow> string \<Rightarrow> string option \<Rightarrow> A \<Rightarrow> (Result \<times> Machine) res" where
  "EvAddErrState env fuel m event state err args =
     finish_prep env fuel (EvAddErrState_prep m event state err args)"

definition PrependMut :: "Env \<Rightarrow> nat \<Rightarrow> Machine \<Rightarrow> Mutation \<Rightarrow> (Result \<times> Machine) res" where
  "PrependMut env fuel m mut =
     (case prependMut m mut of
        Inl fault \<Rightarrow> Inl fault
      | Inr None \<Rightarrow> Inr (Canceled, m)
      | Inr (Some m') \<Rightarrow> processQueue env fuel m')"

definition CanAdd :: "Env \<Rightarrow> nat \<Rightarrow> Machine \<Rightarrow> S \<Rightarrow> A \<Rightarrow> (Result \<times> Machine) res" where
  "CanAdd env fuel m states args =
     (if m_disposing m \<or> Backoff m then Inr (Canceled, m)
      else PrependMut env fuel m (check_mutation m MutationAdd states args))"

definition CanAdd1 :: "Env \<Rightarrow> nat \<Rightarrow> Machine \<Rightarrow> string \<Rightarrow> A \<Rightarrow> (Result \<times> Machine) res" where
  "CanAdd1 env fuel m state args = CanAdd env fuel m [state] args"

definition CanRemove :: "Env \<Rightarrow> nat \<Rightarrow> Machine \<Rightarrow> S \<Rightarrow> A \<Rightarrow> (Result \<times> Machine) res" where
  "CanRemove env fuel m states args =
     (if m_disposing m \<or> Backoff m then Inr (Canceled, m)
      else PrependMut env fuel m (check_mutation m MutationRemove states args))"

definition CanRemove1 :: "Env \<Rightarrow> nat \<Rightarrow> Machine \<Rightarrow> string \<Rightarrow> A \<Rightarrow> (Result \<times> Machine) res" where
  "CanRemove1 env fuel m state args = CanRemove env fuel m [state] []"

text \<open>\<open>New\<close> reports the errors of \<open>Parse\<close> as an exception of the new machine.\<close>

definition New :: "Env \<Rightarrow> nat \<Rightarrow> Schema \<Rightarrow> Opts \<Rightarrow> string \<Rightarrow> Machine res" where
  "New env fuel schema opts randId =
     (let m = newMachine schema opts randId in
      if snd (Schema_Parse schema) = [] then Inr m
      else case AddErr env fuel m (Some ''relation error'') [] of
        Inl fault \<Rightarrow> Inl fault | Inr (_, m') \<Rightarrow> Inr m')"

text \<open>\<open>bindHandlers\<close> starts the handler loop with the first binding and repeats a pending exception.\<close>

definition bindHandlers :: "Env \<Rightarrow> nat \<Rightarrow> Machine \<Rightarrow> handler \<Rightarrow> string \<Rightarrow> (string \<times> Machine) res" where
  "bindHandlers env fuel m h bid =
     (if m_disposing m then Inr ([], m)
      else let first = (\<not> m_handlerLoopRunning m);
               m1 = (if first then m\<lparr>m_handlerLoopRunning := True, m_loopAlive := True\<rparr> else m);
               h1 = h\<lparr>h_id := bid, h_num := m_nextHandlerNum m1\<rparr>;
               m2 = m1\<lparr>m_nextHandlerNum := m_nextHandlerNum m1 + 1, m_handlers := m_handlers m1 @ [h1]\<rparr>
        in if first \<and> IsErr m2
           then (case AddErr env fuel m2 (m_err m2) [] of
                   Inl fault \<Rightarrow> Inl fault | Inr (_, m3) \<Rightarrow> Inr (bid, m3))
           else Inr (bid, m2))"

section \<open>Subscribing\<close>

definition mach_When :: "Env \<Rightarrow> Machine \<Rightarrow> S \<Rightarrow> ctx option \<Rightarrow> (chan \<times> Machine) res" where
  "mach_When env m states c =
     (if m_disposed m then Inr (Closed, m)
      else case mach_mustParse m states of
        Inl fault \<Rightarrow> Inl fault
      | Inr parsed \<Rightarrow>
          (case sub_When (en_expired env) (is' m) (m_subs m) parsed c of
             Inl fault \<Rightarrow> Inl fault
           | Inr (sm, ch) \<Rightarrow> Inr (ch, m\<lparr>m_subs := sm\<rparr>)))"

definition mach_WhenNot :: "Env \<Rightarrow> Machine \<Rightarrow> S \<Rightarrow> ctx option \<Rightarrow> (chan \<times> Machine) res" where
  "mach_WhenNot env m states c =
     (if m_disposed m then Inr (Closed, m)
      else case mach_mustParse m states of
        Inl fault \<Rightarrow> Inl fault
      | Inr parsed \<Rightarrow>
          (case not' m parsed of
             Inl fault \<Rightarrow> Inl fault
           | Inr no \<Rightarrow>
               (case sub_WhenNot (en_expired env) (is' m) (\<lambda>_. no) (m_subs m) parsed c of
                  Inl fault \<Rightarrow> Inl fault
                | Inr (sm, ch) \<Rightarrow> Inr (ch, m\<lparr>m_subs := sm\<rparr>))))"

definition WhenErr :: "Env \<Rightarrow> Machine \<Rightarrow> ctx option \<Rightarrow> (chan \<times> Machine) res" where
  "WhenErr env m c = mach_When env m [StateException] c"

text \<open>An invalid \<open>WhenTime\<close> adds an exception.\<close>

definition mach_WhenTime :: "Env \<Rightarrow> nat \<Rightarrow> Machine \<Rightarrow> S \<Rightarrow> Time \<Rightarrow> ctx option \<Rightarrow> (chan \<times> Machine) res" where
  "mach_WhenTime env fuel m states ticks c =
     (if m_disposed m then Inr (Closed, m)
      else if length states \<noteq> length ticks \<or> length states = 0 then
        (case AddErr env fuel m (Some ''whenTime: states and times must have the same length'') [] of
           Inl fault \<Rightarrow> Inl fault | Inr (_, m') \<Rightarrow> Inr (Closed, m'))
      else case sub_WhenTime (en_expired env) (m_clock m) (m_subs m) states ticks c of
        Inl fault \<Rightarrow> Inl fault
      | Inr (sm, ch) \<Rightarrow> Inr (ch, m\<lparr>m_subs := sm\<rparr>))"

definition WhenTicks :: "Env \<Rightarrow> nat \<Rightarrow> Machine \<Rightarrow> string \<Rightarrow> int \<Rightarrow> ctx option \<Rightarrow> (chan \<times> Machine) res" where
  "WhenTicks env fuel m state ticks c = mach_WhenTime env fuel m [state] [of_int ticks + Tick m state] c"

definition WhenNextActive :: "Env \<Rightarrow> nat \<Rightarrow> Machine \<Rightarrow> string \<Rightarrow> ctx option \<Rightarrow> (chan \<times> Machine) res" where
  "WhenNextActive env fuel m state c = WhenTicks env fuel m state (NextActiveIn (Tick m state)) c"

definition mach_WhenTimeSum :: "Machine \<Rightarrow> uint64 \<Rightarrow> ctx option \<Rightarrow> chan \<times> Machine" where
  "mach_WhenTimeSum m mtime c =
     (if m_disposed m then (Closed, m)
      else if mtime \<le> Time_SumAll (mach_time m None) then (Closed, m)
      else case sub_WhenTimeSum (m_clock m) (m_subs m) mtime c of (sm, ch) \<Rightarrow> (ch, m\<lparr>m_subs := sm\<rparr>))"

definition mach_WhenQuery :: "Env \<Rightarrow> Machine \<Rightarrow> nat \<Rightarrow> ctx option \<Rightarrow> chan \<times> Machine" where
  "mach_WhenQuery env m fn c =
     (if m_disposed m then (Closed, m)
      else case sub_WhenQuery (en_expired env) (m_subs m) fn c of (sm, ch) \<Rightarrow> (ch, m\<lparr>m_subs := sm\<rparr>))"

definition mach_WhenQueueEnds :: "Machine \<Rightarrow> chan \<times> Machine" where
  "mach_WhenQueueEnds m =
     (if m_disposed m \<or> \<not> m_queueRunning m then (Closed, m)
      else case sub_WhenQueueEnds (m_subs m) of (sm, ch) \<Rightarrow> (ch, m\<lparr>m_subs := sm\<rparr>))"

definition mach_WhenQueue :: "Machine \<Rightarrow> Result \<Rightarrow> chan \<times> Machine" where
  "mach_WhenQueue m tick =
     (if m_disposed m then (Closed, m)
      else if m_queueTick m \<ge> tick then (Closed, m)
      else case sub_WhenQueue (m_subs m) tick of (sm, ch) \<Rightarrow> (ch, m\<lparr>m_subs := sm\<rparr>))"

text \<open>\<open>states[0]\<close> is a panic while the machine is disposing.\<close>

definition mach_WhenArgs :: "Env \<Rightarrow> Machine \<Rightarrow> string \<Rightarrow> A \<Rightarrow> ctx option \<Rightarrow> (chan \<times> Machine) res" where
  "mach_WhenArgs env m state args c =
     (if m_disposed m then Inr (Closed, m)
      else case mach_mustParse m [state] of
        Inl fault \<Rightarrow> Inl fault
      | Inr [] \<Rightarrow> Inl (GoPanic ''index out of range'')
      | Inr (s0 # _) \<Rightarrow>
          (case sub_WhenArgs (en_expired env) (m_subs m) s0 args c of (sm, ch) \<Rightarrow>
             Inr (ch, m\<lparr>m_subs := sm\<rparr>)))"

definition mach_NewStateCtx :: "Machine \<Rightarrow> string \<Rightarrow> (ctx option \<times> Machine) res" where
  "mach_NewStateCtx m state =
     (if m_disposing m then Inr (None, m)
      else case mach_mustParse m [state] of
        Inl fault \<Rightarrow> Inl fault
      | Inr _ \<Rightarrow>
          (case sub_NewStateCtx (m_subs m) (m_clock m) state of (sm, c) \<Rightarrow>
             Inr (Some c, m\<lparr>m_subs := sm\<rparr>)))"

section \<open>Disposal\<close>

text \<open>\<open>doDispose\<close> once the queue has ended or the timeout has passed: handlers are dropped, state contexts
  are cancelled, the channels of the subscriptions and of the queued checks are closed. \<open>unlock\<close> is
  \<open>unlockDisposed\<close>, set by \<open>Dispose\<close> and not by \<open>DisposeForce\<close>.\<close>

definition check_chans :: "Mutation list \<Rightarrow> chan list" where
  "check_chans muts = concat (map (\<lambda>mut. if \<not> mu_IsCheck mut then []
     else case ParseArgs_ACheck (mu_Args mut) of None \<Rightarrow> [] | Some ch \<Rightarrow> [ch]) muts)"

definition doDispose :: "bool \<Rightarrow> Machine \<Rightarrow> Machine" where
  "doDispose unlock m =
     (if m_disposed m \<or> m_disposing m then m
      else let m1 = m\<lparr>m_disposing := True, m_disposed := True, m_handlers := []\<rparr> in
        case sub_dispose (m_subs m1) of (ctxs, chs) \<Rightarrow>
          (let m2 = close_chans (chs @ check_chans (m_queue m1)) m1
           in m2\<lparr>m_canceled := m_canceled m2 @ ctxs,
                m_queueProcessing := (if unlock then False else m_queueProcessing m2)\<rparr>))"

definition DisposeForce :: "Machine \<Rightarrow> Machine" where
  "DisposeForce m = doDispose False m"

text \<open>\<open>parentAlive\<close>: the parent context has not expired.\<close>

definition Dispose :: "Env \<Rightarrow> nat \<Rightarrow> bool \<Rightarrow> Machine \<Rightarrow> Machine res" where
  "Dispose env fuel parentAlive m =
     (case (if Has1 m StateStart \<and> parentAlive then mach_Remove1 env fuel m StateStart []
            else Inr (Canceled, m)) of
        Inl fault \<Rightarrow> Inl fault
      | Inr (_, m1) \<Rightarrow>
          (if m_disposing m1 then Inr m1 else Inr (doDispose True (m1\<lparr>m_queueProcessing := False\<rparr>))))"

end
