(* ===== verification/Am_Frame.thy ===== *)
theory Am_Frame
  imports Am_Queue
begin

text \<open>
  What the steps of a transition leave alone. \<open>keeps st m m'\<close> says that \<open>m'\<close> has the schema, names,
  handlers and transition of \<open>m\<close> and, if \<open>st\<close>, also its active states and clock. Calls made by handlers
  only touch the queue; a failing handler changes the active states only in the final phase.
\<close>

section \<open>The relation\<close>

definition tx_same :: "Transition \<Rightarrow> Transition \<Rightarrow> bool" where
  "tx_same t t' = (tx_Mutation t' = tx_Mutation t \<and> tx_cacheTargetStates t' = tx_cacheTargetStates t
     \<and> tx_TargetIndexes t' = tx_TargetIndexes t \<and> tx_Enters t' = tx_Enters t \<and> tx_Exits t' = tx_Exits t
     \<and> tx_cacheStatesBefore t' = tx_cacheStatesBefore t \<and> tx_cacheSchema t' = tx_cacheSchema t
     \<and> tx_TimeBefore t' = tx_TimeBefore t \<and> tx_cacheClockBefore t' = tx_cacheClockBefore t)"

definition keeps :: "bool \<Rightarrow> Machine \<Rightarrow> Machine \<Rightarrow> bool" where
  "keeps st m m' = (m_schema m' = m_schema m \<and> m_stateNames m' = m_stateNames m
     \<and> m_disposing m' = m_disposing m \<and> m_disposed m' = m_disposed m
     \<and> m_handlers m' = m_handlers m \<and> m_handlerLoopRunning m' = m_handlerLoopRunning m
     \<and> m_topology m' = m_topology m \<and> m_queueProcessing m' = m_queueProcessing m
     \<and> rel_option tx_same (m_t m) (m_t m')
     \<and> (st \<longrightarrow> m_activeStates m' = m_activeStates m \<and> m_clock m' = m_clock m))"

lemma tx_same_refl [simp]: "tx_same t t"
  by (simp add: tx_same_def)

lemma tx_same_trans: "tx_same t t' \<Longrightarrow> tx_same t' t'' \<Longrightarrow> tx_same t t''"
  by (simp add: tx_same_def)

lemma keeps_refl [simp]: "keeps st m m"
  by (simp add: keeps_def option.rel_refl)

lemma rel_option_trans:
  "rel_option tx_same a b \<Longrightarrow> rel_option tx_same b c \<Longrightarrow> rel_option tx_same a c"
  by (rule transpD [OF option.rel_transp]) (auto intro: transpI tx_same_trans)

lemma keeps_trans: "keeps a m m' \<Longrightarrow> keeps b m' m'' \<Longrightarrow> keeps (a \<and> b) m m''"
  unfolding keeps_def by (intro conjI impI; (elim conjE; (erule (1) rel_option_trans)?; simp?))

lemma keeps_weaken: "keeps a m m' \<Longrightarrow> (b \<Longrightarrow> a) \<Longrightarrow> keeps b m m'"
  by (auto simp: keeps_def)

lemma keeps_upd_t:
  "(\<And>t. tx_same t (f t)) \<Longrightarrow> keeps st m (upd_t f m)"
  by (simp add: keeps_def upd_t_def option.rel_map option.rel_refl)

lemma keeps_simps:
  assumes "keeps st m m'"
  shows "m_schema m' = m_schema m" "m_stateNames m' = m_stateNames m" "m_disposing m' = m_disposing m"
    "m_disposed m' = m_disposed m" "m_handlers m' = m_handlers m" "m_topology m' = m_topology m"
    "m_handlerLoopRunning m' = m_handlerLoopRunning m" "m_queueProcessing m' = m_queueProcessing m"
    "st \<Longrightarrow> m_activeStates m' = m_activeStates m" "st \<Longrightarrow> m_clock m' = m_clock m"
  using assms by (simp_all add: keeps_def)

lemma keeps_cur:
  assumes "keeps st m m'"
  shows "tx_Mutation (cur m') = tx_Mutation (cur m)"
    "tx_cacheTargetStates (cur m') = tx_cacheTargetStates (cur m)"
    "tx_TargetIndexes (cur m') = tx_TargetIndexes (cur m)"
    "tx_Enters (cur m') = tx_Enters (cur m)" "tx_Exits (cur m') = tx_Exits (cur m)"
    "tx_cacheStatesBefore (cur m') = tx_cacheStatesBefore (cur m)"
    "tx_cacheSchema (cur m') = tx_cacheSchema (cur m)"
    "tx_TimeBefore (cur m') = tx_TimeBefore (cur m)"
  using assms by (cases "m_t m"; cases "m_t m'"; auto simp: keeps_def cur_def tx_same_def)+

lemma keeps_t: "keeps st m m' \<Longrightarrow> m_t m = Some t \<Longrightarrow> \<exists>t'. m_t m' = Some t' \<and> tx_same t t'"
  by (cases "m_t m'") (auto simp: keeps_def)

section \<open>Queueing\<close>

text \<open>Everything the mutation methods write before \<open>processQueue\<close>.\<close>

definition only_queued :: "Machine \<Rightarrow> Machine \<Rightarrow> bool" where
  "only_queued m m' = (m' = m\<lparr>m_queue := m_queue m', m_queueLen := m_queueLen m',
     m_queueTicksPending := m_queueTicksPending m', m_queueToken := m_queueToken m', m_err := m_err m'\<rparr>)"

lemma only_queued_refl [simp]: "only_queued m m"
  by (simp add: only_queued_def)

lemma only_queued_I:
  "only_queued m (m\<lparr>m_queue := q, m_queueLen := l, m_queueTicksPending := p\<rparr>)"
  "only_queued m (m\<lparr>m_queue := q, m_queueLen := l, m_queueToken := k\<rparr>)"
  "only_queued m (m\<lparr>m_err := e\<rparr>)"
  "only_queued m (m\<lparr>m_queue := q, m_queueLen := l\<rparr>)"
  by (simp_all add: only_queued_def)

lemma only_queued_trans:
  assumes "only_queued m m'" "only_queued m' m''"
  shows "only_queued m m''"
proof -
  obtain q l p k e where 1: "m' = m\<lparr>m_queue := q, m_queueLen := l, m_queueTicksPending := p,
      m_queueToken := k, m_err := e\<rparr>" using assms(1) unfolding only_queued_def by blast
  obtain q l p k e where 2: "m'' = m'\<lparr>m_queue := q, m_queueLen := l, m_queueTicksPending := p,
      m_queueToken := k, m_err := e\<rparr>" using assms(2) unfolding only_queued_def by blast
  show ?thesis unfolding 1 2 by (simp add: only_queued_def)
qed

lemma only_queued_fields:
  assumes "only_queued m m'"
  shows "keeps st m m'" "m_t m' = m_t m" "m_panicCaught m' = m_panicCaught m"
    "m_activeStates m' = m_activeStates m" "m_clock m' = m_clock m" "m_queueTick m' = m_queueTick m"
    "m_schema m' = m_schema m" "m_stateNames m' = m_stateNames m" "m_disposing m' = m_disposing m"
proof -
  obtain q l p k e where 1: "m' = m\<lparr>m_queue := q, m_queueLen := l, m_queueTicksPending := p,
      m_queueToken := k, m_err := e\<rparr>" using assms unfolding only_queued_def by blast
  show "keeps st m m'" "m_t m' = m_t m" "m_panicCaught m' = m_panicCaught m"
    "m_activeStates m' = m_activeStates m" "m_clock m' = m_clock m" "m_queueTick m' = m_queueTick m"
    "m_schema m' = m_schema m" "m_stateNames m' = m_stateNames m" "m_disposing m' = m_disposing m"
    unfolding 1 by (simp_all add: keeps_def option.rel_refl)
qed

lemma queueMutation_only_queued:
  "queueMutation m typ states args ev = Inr (tick, m') \<Longrightarrow> only_queued m m'"
  by (auto simp: queueMutation_def Let_def only_queued_I split: sum.splits if_splits)

lemma prependMut_only_queued:
  "prependMut m mut = Inr (Some m') \<Longrightarrow> only_queued m m'"
  by (auto simp: prependMut_def Let_def only_queued_I split: sum.splits if_splits)

lemma queue_prep_only_queued:
  "queue_prep m typ states args ev = Inr (r, m') \<Longrightarrow> only_queued m m'"
  by (auto simp: queue_prep_def split: sum.splits if_splits dest: queueMutation_only_queued)

lemma preps_only_queued:
  "Add_prep m states args = Inr (r, m') \<Longrightarrow> only_queued m m'"
  "Remove_prep m states args = Inr (r, m') \<Longrightarrow> only_queued m m'"
  "Set_prep m states args = Inr (r, m') \<Longrightarrow> only_queued m m'"
  "EvAdd_prep m ev states args = Inr (r, m') \<Longrightarrow> only_queued m m'"
  "EvRemove_prep m ev states args = Inr (r, m') \<Longrightarrow> only_queued m m'"
  by (auto simp: Add_prep_def Remove_prep_def Set_prep_def EvAdd_prep_def EvRemove_prep_def
      split: if_splits dest: queue_prep_only_queued)

lemma err_preps_only_queued:
  "AddErrState_prep m s err args = Inr (r, m') \<Longrightarrow> only_queued m m'"
  "EvAddErrState_prep m ev s err args = Inr (r, m') \<Longrightarrow> only_queued m m'"
  by (auto simp: AddErrState_prep_def EvAddErrState_prep_def split: if_splits
      dest!: preps_only_queued intro: only_queued_trans [OF only_queued_I(3)])

lemma nested_call_only_queued:
  "nested_call m c = Inr m' \<Longrightarrow> only_queued m m'"
  by (cases c) (auto simp: prep_state_def prepend_state_def Can_prep_def
      split: sum.splits option.splits if_splits
      dest: preps_only_queued err_preps_only_queued prependMut_only_queued)

lemma nested_calls_only_queued:
  "nested_calls m cs = (m', b) \<Longrightarrow> only_queued m m'"
proof (induction m cs arbitrary: m' b rule: nested_calls.induct)
  case (2 m c cs)
  then show ?case
    by (cases "nested_call m c") (auto intro: only_queued_trans dest: nested_call_only_queued)
qed simp

section \<open>Handlers\<close>

lemma setActiveStates_keeps: "keeps False m (setActiveStates m called ts)"
  by (simp add: keeps_def option.rel_refl) (simp add: setActiveStates_def Let_def split: prod.splits)

lemma recoverFinalPhase_keeps:
  "recoverFinalPhase m = Inr m' \<Longrightarrow> keeps False m m'"
  by (auto simp: recoverFinalPhase_def Let_def setActiveStates_keeps split: sum.splits)

text \<open>What is known of the handler under way.\<close>

definition latest :: "Machine \<Rightarrow> bool \<times> bool \<times> string" where
  "latest m = (tx_latestHandlerIsFinal (cur m), tx_latestHandlerIsEnter (cur m), tx_latestHandlerToState (cur m))"

lemma cur_upd_t: "m_t m \<noteq> None \<Longrightarrow> cur (upd_t f m) = f (cur m)"
  by (cases "m_t m") (simp_all add: cur_def upd_t_def)

lemma upd_t_fields [simp]:
  "m_schema (upd_t f m) = m_schema m" "m_stateNames (upd_t f m) = m_stateNames m"
  "m_disposing (upd_t f m) = m_disposing m" "m_disposed (upd_t f m) = m_disposed m"
  "m_activeStates (upd_t f m) = m_activeStates m" "m_clock (upd_t f m) = m_clock m"
  "m_handlers (upd_t f m) = m_handlers m" "m_handlerLoopRunning (upd_t f m) = m_handlerLoopRunning m"
  "m_panicCaught (upd_t f m) = m_panicCaught m" "m_subs (upd_t f m) = m_subs m"
  "m_queue (upd_t f m) = m_queue m" "m_queueLen (upd_t f m) = m_queueLen m"
  "m_queueTick (upd_t f m) = m_queueTick m" "m_queueTicksPending (upd_t f m) = m_queueTicksPending m"
  "m_queueProcessing (upd_t f m) = m_queueProcessing m"
  by (simp_all add: upd_t_def)

lemma latest_upd_t:
  "(\<And>t. tx_latestHandlerIsFinal (f t) = tx_latestHandlerIsFinal t) \<Longrightarrow>
   (\<And>t. tx_latestHandlerIsEnter (f t) = tx_latestHandlerIsEnter t) \<Longrightarrow>
   (\<And>t. tx_latestHandlerToState (f t) = tx_latestHandlerToState t) \<Longrightarrow> latest (upd_t f m) = latest m"
  by (cases "m_t m") (simp_all add: latest_def upd_t_def cur_def)

lemma latest_t: "m_t m' = m_t m \<Longrightarrow> latest m' = latest m"
  by (simp add: latest_def cur_def)

lemma recover_walk_enter:
  "distinct active \<Longrightarrow> distinct (recover_walk l True found finals active)
     \<and> set (recover_walk l True found finals active) \<subseteq> set active"
proof (induction l "True" found finals active rule: recover_walk.induct)
  case (2 latest found s finals active)
  then show ?case
    using distinct_slicesWithout [of active s] set_slicesWithout_distinct [of active s]
    by (auto simp: Let_def)
qed simp

lemma recover_walk_unfound: "l \<notin> set finals \<Longrightarrow> recover_walk l e False finals active = active"
  by (induction finals arbitrary: active) auto

text \<open>The invariant while a transition runs; the empty name stands for no state.\<close>

definition run_inv :: "Machine \<Rightarrow> bool" where
  "run_inv m = (clock_inv m \<and> [] \<notin> set (tx_Exits (cur m)) \<and> [] \<notin> set (tx_Enters (cur m)))"

definition latest_ok :: "bool \<times> bool \<times> string \<Rightarrow> bool" where
  "latest_ok l = (case l of (final, enter, to) \<Rightarrow> final \<and> \<not> enter \<longrightarrow> to = [])"

lemma clock_inv_same:
  "m_activeStates m' = m_activeStates m \<Longrightarrow> m_clock m' = m_clock m \<Longrightarrow> m_schema m' = m_schema m \<Longrightarrow>
   clock_inv m' = clock_inv m"
  by (simp add: clock_inv_def)

lemma run_inv_keeps: "keeps True m m' \<Longrightarrow> run_inv m' = run_inv m"
  using keeps_cur [of True m m'] keeps_simps [of True m m'] clock_inv_same [of m' m]
  by (simp add: run_inv_def)

definition recover_ok :: "Machine \<Rightarrow> bool" where
  "recover_ok m = (m_disposing m \<or> tx_latestHandlerIsEnter (cur m) \<or> tx_latestHandlerToState (cur m) = [])"

lemma latest_recover_ok: "latest_ok (latest m) \<Longrightarrow> fst (latest m) \<Longrightarrow> recover_ok m"
  by (auto simp: latest_ok_def latest_def recover_ok_def)

lemma recoverFinalPhase_disposing:
  "recoverFinalPhase m = Inr m' \<Longrightarrow> m_disposing m \<Longrightarrow> m' = m"
  by (auto simp: recoverFinalPhase_def Let_def setActiveStates_def split: sum.splits)

lemma recoverFinalPhase_run_inv:
  assumes "recoverFinalPhase m = Inr m'" "run_inv m" "recover_ok m"
  shows "run_inv m'"
proof (cases "m_disposing m")
  case True
  with recoverFinalPhase_disposing [OF assms(1)] assms(2) show ?thesis by simp
next
  case disp: False
  let ?w = "recover_walk (tx_latestHandlerToState (cur m)) (tx_latestHandlerIsEnter (cur m)) False
    (tx_Exits (cur m) @ tx_Enters (cur m)) (m_activeStates m)"
  have d: "distinct (m_activeStates m)" "set (m_activeStates m) \<subseteq> set (gkeys (m_schema m))" "clock_inv m"
    using assms(2) by (simp_all add: run_inv_def clock_inv_def)
  have w: "distinct ?w \<and> set ?w \<subseteq> set (m_activeStates m)"
  proof (cases "tx_latestHandlerIsEnter (cur m)")
    case True
    then show ?thesis using recover_walk_enter [OF d(1)] by simp
  next
    case False
    then have "tx_latestHandlerToState (cur m) = []" using assms(3) disp by (simp add: recover_ok_def)
    then show ?thesis using recover_walk_unfound [of "[]"] assms(2) d(1) by (simp add: run_inv_def)
  qed
  obtain called where m': "m' = setActiveStates m called ?w"
    using assms(1) by (auto simp: recoverFinalPhase_def Let_def split: sum.splits)
  have "clock_inv m'" unfolding m' using w d by (intro setActiveStates_clock_inv) auto
  moreover have "cur m' = cur m" unfolding m' by (simp add: cur_def)
  ultimately show ?thesis using assms(2) by (simp add: run_inv_def)
qed

text \<open>What one handler call may do to the machine.\<close>

definition handler_step :: "Machine \<Rightarrow> Machine \<Rightarrow> bool" where
  "handler_step m m' = (keeps (\<not> fst (latest m)) m m' \<and> latest m' = latest m
     \<and> (latest_ok (latest m) \<and> run_inv m \<longrightarrow> run_inv m'))"

lemma handler_step_refl [simp]: "handler_step m m"
  by (simp add: handler_step_def)

lemma handler_step_trans: "handler_step m m' \<Longrightarrow> handler_step m' m'' \<Longrightarrow> handler_step m m''"
  unfolding handler_step_def by (elim conjE, intro conjI; (drule (1) keeps_trans)?; simp)

lemma handler_stepI: "keeps True m m' \<Longrightarrow> latest m' = latest m \<Longrightarrow> handler_step m m'"
  by (auto simp: handler_step_def run_inv_keeps intro: keeps_weaken)

lemma only_queued_step: "only_queued m m' \<Longrightarrow> handler_step m m'"
  by (intro handler_stepI latest_t only_queued_fields)

lemma handler_step_fields [intro]:
  "handler_step m (m\<lparr>m_panicCaught := b\<rparr>)" "handler_step m (m\<lparr>m_loopAlive := a\<rparr>)"
  "handler_step m (m\<lparr>m_err := e\<rparr>)" "handler_step m (m\<lparr>m_subs := sm\<rparr>)" "handler_step m (m\<lparr>m_closed := c\<rparr>)"
  "handler_step m (m\<lparr>m_LastHandlerDeadline := d\<rparr>)"
  by (rule handler_stepI; simp add: keeps_def option.rel_refl latest_def cur_def)+

lemma upd_t_step:
  "(\<And>t. tx_same t (f t)) \<Longrightarrow> (\<And>t. tx_latestHandlerIsFinal (f t) = tx_latestHandlerIsFinal t) \<Longrightarrow>
   (\<And>t. tx_latestHandlerIsEnter (f t) = tx_latestHandlerIsEnter t) \<Longrightarrow>
   (\<And>t. tx_latestHandlerToState (f t) = tx_latestHandlerToState t) \<Longrightarrow> handler_step m (upd_t f m)"
  by (intro handler_stepI keeps_upd_t latest_upd_t)

lemma recoverFinalPhase_step:
  assumes "recoverFinalPhase m = Inr m'" "fst (latest m)"
  shows "handler_step m m'"
proof -
  have "m_t m' = m_t m" using assms(1) by (auto simp: recoverFinalPhase_def Let_def split: sum.splits)
  from latest_t [OF this] show ?thesis unfolding handler_step_def
    using recoverFinalPhase_keeps [OF assms(1)] recoverFinalPhase_run_inv [OF assms(1)] assms(2)
      latest_recover_ok [of m] by simp
qed

lemma prepend_loop_step:
  "(case prependMut m mut of Inl fault \<Rightarrow> Inl fault | Inr None \<Rightarrow> Inr (m\<lparr>m_loopAlive := True\<rparr>)
      | Inr (Some m5) \<Rightarrow> Inr (m5\<lparr>m_loopAlive := True\<rparr>)) = Inr m' \<Longrightarrow> handler_step m m'"
  by (auto split: sum.splits option.splits intro: handler_step_trans [OF only_queued_step]
      dest: prependMut_only_queued)

lemma recoverToErr_step:
  assumes "recoverToErr m err = Inr m'"
  shows "handler_step m m'"
proof (cases "m_disposing m \<or> Mutation_IsCalled (tx_Mutation (cur (m\<lparr>m_panicCaught := True\<rparr>)))
    (mach_Index1 (m\<lparr>m_panicCaught := True\<rparr>) StateException)")
  case True
  with assms show ?thesis by (cases "m_disposing m") (auto simp: recoverToErr_def Let_def)
next
  case False
  let ?m2 = "m\<lparr>m_panicCaught := True, m_err := Some err\<rparr>"
  let ?f = "\<lambda>t. t\<lparr>tx_IsAccepted := False, tx_IsCompleted := True\<rparr>"
  have 2: "handler_step m ?m2"
    using handler_step_trans [OF handler_step_fields(1) handler_step_fields(3)] by simp
  obtain m3 where r: "(if tx_latestHandlerIsFinal (cur ?m2) then recoverFinalPhase ?m2 else Inr ?m2) = Inr m3"
    using assms False by (cases "if tx_latestHandlerIsFinal (cur ?m2) then recoverFinalPhase ?m2 else Inr ?m2")
      (simp_all add: recoverToErr_def Let_def)
  have 3: "handler_step ?m2 m3"
    using r recoverFinalPhase_step [of ?m2 m3] by (auto simp: latest_def split: if_splits)
  have 4: "handler_step m3 (upd_t ?f m3)" by (rule upd_t_step) (simp_all add: tx_same_def)
  from assms False r have "handler_step (upd_t ?f m3) m'"
    by (intro prepend_loop_step [of _ "exception_mutation (upd_t ?f m3) err"])
      (simp add: recoverToErr_def Let_def)
  with 2 3 4 show ?thesis by (meson handler_step_trans)
qed

lemma deadline_reset_step: "handler_step m (deadline_reset m)"
  by (rule handler_stepI) (simp_all add: deadline_reset_def keeps_def option.rel_refl latest_def cur_def)

lemma handler_deadline_step: "handler_deadline m err = Inr m' \<Longrightarrow> handler_step m m'"
  by (auto simp: handler_deadline_def Let_def split: sum.splits dest!: err_preps_only_queued only_queued_step
      intro: handler_step_trans [OF deadline_reset_step] handler_step_trans)

lemma run_handler_step:
  assumes "run_handler env m h method args = Inr (r, m')"
  shows "handler_step m m'"
proof (cases "\<not> m_loopAlive m \<or> \<not> event_valid m")
  case True
  with assms show ?thesis by (auto simp: run_handler_def split: if_splits)
next
  case False
  obtain calls out where h: "en_handler env m (h_num h) method args = (calls, out)" by fastforce
  obtain m1 ok where n: "nested_calls m calls = (m1, ok)" by fastforce
  have 1: "handler_step m m1" using nested_calls_only_queued [OF n] by (rule only_queued_step)
  have "m' = m1 \<or> handler_deadline m1 ''handler timeout'' = Inr m'
      \<or> (\<exists>e. recoverToErr (m1\<lparr>m_loopAlive := False\<rparr>) e = Inr m')"
    using assms False h n
    by (cases ok; cases out) (auto simp: run_handler_def split: sum.splits if_splits)
  then show ?thesis
    using 1 handler_deadline_step recoverToErr_step handler_step_fields(2)
    by (meson handler_step_trans)
qed

lemma processHandlers_loop_step:
  "processHandlers_loop env hs name args m = Inr (r, m') \<Longrightarrow> handler_step m m'"
proof (induction env hs name args m rule: processHandlers_loop.induct)
  case (2 env h hs name args m)
  then show ?case
    by (auto split: if_splits sum.splits prod.splits dest: run_handler_step intro: handler_step_trans)
qed simp

lemma close_chans_step [intro]: "handler_step m (close_chans chs m)"
  unfolding close_chans_def by (rule handler_step_fields)

lemma processHandlers_step:
  "processHandlers env name args m = Inr (r, m') \<Longrightarrow> handler_step m m'"
  by (auto simp: processHandlers_def split: if_splits sum.splits prod.splits
      dest!: processHandlers_loop_step
      intro: handler_step_trans [OF handler_step_trans [OF _ handler_step_fields(4)] close_chans_step])

text \<open>A call of \<open>handle\<close>: outside the final phase it does not touch states and clock.\<close>

definition emit_step :: "bool \<Rightarrow> Machine \<Rightarrow> Machine \<Rightarrow> bool" where
  "emit_step final m m' = (keeps (\<not> final) m m' \<and> (run_inv m \<longrightarrow> run_inv m'))"

lemma emitHandler_step:
  assumes "emitHandler env to isFinal isEnter event m = Inr (r, m')" "isFinal \<and> \<not> isEnter \<Longrightarrow> to = []"
  shows "emit_step isFinal m m' \<and> (isFinal \<longrightarrow> recover_ok m')"
proof (cases "m_disposing m")
  case True
  then have "m' = upd_t (\<lambda>t. t\<lparr>tx_latestHandlerToState := to\<rparr>) m"
    using assms(1) by (simp add: emitHandler_def handle_def)
  moreover have "keeps True m (upd_t (\<lambda>t. t\<lparr>tx_latestHandlerToState := to\<rparr>) m)"
    by (rule keeps_upd_t) (simp add: tx_same_def)
  ultimately show ?thesis using True
    by (auto simp: emit_step_def run_inv_keeps recover_ok_def intro: keeps_weaken)
next
  case False
  let ?m1 = "upd_t (\<lambda>t. t\<lparr>tx_latestHandlerIsEnter := isEnter, tx_latestHandlerIsFinal := isFinal\<rparr>)
    (upd_t (\<lambda>t. t\<lparr>tx_latestHandlerToState := to\<rparr>) m)"
  have k: "keeps True m ?m1"
    using keeps_trans [of True m _ True] keeps_upd_t [of "\<lambda>t. t\<lparr>tx_latestHandlerToState := to\<rparr>" True m]
      keeps_upd_t [of "\<lambda>t. t\<lparr>tx_latestHandlerIsEnter := isEnter, tx_latestHandlerIsFinal := isFinal\<rparr>" True]
    by (simp add: tx_same_def)
  from assms(1) False obtain r2 m2 where p: "processHandlers env event (mu_Args (tx_Mutation (cur m))) ?m1 = Inr (r2, m2)"
    and m': "m' = m2 \<or> m' = m2\<lparr>m_panicCaught := False\<rparr>"
    by (auto simp: emitHandler_def handle_def split: sum.splits prod.splits if_splits)
  have s: "handler_step ?m1 m'"
    using processHandlers_step [OF p] m' handler_step_fields(1) by (meson handler_step_trans)
  have l: "fst (latest ?m1) \<longrightarrow> isFinal" "latest_ok (latest ?m1)"
    using assms(2) by (cases "m_t m"; auto simp: latest_def latest_ok_def cur_def upd_t_def Transition_none_def)+
  have "isFinal \<longrightarrow> recover_ok m'"
    using s assms(2)
    by (cases "m_t m"; auto simp: handler_step_def latest_def recover_ok_def cur_def upd_t_def Transition_none_def)
  then show ?thesis
    using s k l run_inv_keeps [OF k] keeps_trans [OF k, of "\<not> fst (latest ?m1)" m']
    by (auto simp: emit_step_def handler_step_def intro: keeps_weaken)
qed

end
