(* ===== verification/Am_Negotiate.thy ===== *)
theory Am_Negotiate
  imports Am_Frame
begin

text \<open>
  The phases of \<open>emitEvents\<close>: the negotiation changes nothing but the queue, the subscriptions and, for
  auto mutations, the list of targets; states and clock are written by \<open>commit_states\<close> and by the
  recovery from a failing final handler.
\<close>

section \<open>The relation of the negotiation\<close>

definition tgt :: "Machine \<Rightarrow> S" where
  "tgt m = tx_TargetStates (m_stateNames m) (cur m)"

definition hide_targets :: "Machine \<Rightarrow> Machine" where
  "hide_targets m = upd_t (\<lambda>t. t\<lparr>tx_TargetIndexes := [], tx_cacheTargetStates := None\<rparr>) m"

definition nego :: "Machine \<Rightarrow> Machine \<Rightarrow> bool" where
  "nego m m' = (keeps True (hide_targets m) (hide_targets m')
     \<and> (\<not> tx_IsAuto (cur m) \<longrightarrow> keeps True m m')
     \<and> set (tgt m') \<subseteq> set (tgt m) \<and> (distinct (tgt m) \<longrightarrow> distinct (tgt m')))"

lemma cur_hide: "cur (hide_targets m) = (cur m)\<lparr>tx_TargetIndexes := [], tx_cacheTargetStates := None\<rparr>"
  by (cases "m_t m") (simp_all add: hide_targets_def upd_t_def cur_def Transition_none_def)

lemma hide_fields [simp]:
  "m_schema (hide_targets m) = m_schema m" "m_stateNames (hide_targets m) = m_stateNames m"
  "m_disposing (hide_targets m) = m_disposing m" "m_disposed (hide_targets m) = m_disposed m"
  "m_activeStates (hide_targets m) = m_activeStates m" "m_clock (hide_targets m) = m_clock m"
  "m_handlerLoopRunning (hide_targets m) = m_handlerLoopRunning m"
  by (simp_all add: hide_targets_def)

lemma keeps_hide: "keeps st m m' \<Longrightarrow> keeps st (hide_targets m) (hide_targets m')"
  by (cases "m_t m"; cases "m_t m'") (auto simp: keeps_def hide_targets_def upd_t_def tx_same_def)

lemma nego_refl [simp]: "nego m m"
  by (simp add: nego_def)

lemma keeps_tgt: "keeps st m m' \<Longrightarrow> tgt m' = tgt m"
  using keeps_cur [of st m m'] keeps_simps(2) [of st m m'] by (simp add: tgt_def tx_TargetStates_def cong: option.case_cong)

lemma keeps_nego: "keeps True m m' \<Longrightarrow> nego m m'"
  by (simp add: nego_def keeps_hide keeps_tgt)

lemma nego_fields:
  assumes "nego m m'"
  shows "m_schema m' = m_schema m" "m_stateNames m' = m_stateNames m" "m_disposing m' = m_disposing m"
    "m_disposed m' = m_disposed m" "m_activeStates m' = m_activeStates m" "m_clock m' = m_clock m"
    "m_handlerLoopRunning m' = m_handlerLoopRunning m"
    "tx_Mutation (cur m') = tx_Mutation (cur m)" "tx_Exits (cur m') = tx_Exits (cur m)"
    "tx_Enters (cur m') = tx_Enters (cur m)" "tx_cacheSchema (cur m') = tx_cacheSchema (cur m)"
    "tx_cacheStatesBefore (cur m') = tx_cacheStatesBefore (cur m)"
    "tx_TimeBefore (cur m') = tx_TimeBefore (cur m)"
  using assms keeps_simps [of True "hide_targets m" "hide_targets m'"]
    keeps_cur [of True "hide_targets m" "hide_targets m'"]
  by (simp_all add: nego_def cur_hide)

lemma nego_trans:
  assumes "nego m m'" "nego m' m''"
  shows "nego m m''"
  using assms nego_fields(8) [OF assms(1)] keeps_trans [of True "hide_targets m" "hide_targets m'" True]
    keeps_trans [of True m m' True m'']
  by (auto simp: nego_def tx_IsAuto_def)

lemma nego_run_inv: "nego m m' \<Longrightarrow> run_inv m' = run_inv m"
  using nego_fields [of m m'] clock_inv_same [of m' m] by (simp add: run_inv_def)

lemma nego_t: "nego m m' \<Longrightarrow> (m_t m' = None) = (m_t m = None)"
  by (cases "m_t m"; cases "m_t m'") (auto simp: nego_def keeps_def hide_targets_def upd_t_def)

lemma emitHandler_nego:
  "emitHandler env to False isEnter event m = Inr (r, m') \<Longrightarrow> nego m m'"
  using emitHandler_step [of env to False isEnter event m r m'] by (simp add: emit_step_def keeps_nego)

lemma slices_Delete_subset:
  "slices_Delete xs i (i + 1) = Inr ys \<Longrightarrow> set ys \<subseteq> set xs \<and> (distinct xs \<longrightarrow> distinct ys)"
  using set_take_disj_set_drop_if_distinct [of xs "nat i" "nat (i + 1)"]
  by (auto simp: slices_Delete_def split: if_splits dest: in_set_takeD in_set_dropD)

lemma drop_target_nego:
  assumes "drop_target s m = Inr m'" "tx_IsAuto (cur m)"
  shows "nego m m'"
proof -
  obtain idxs targets' where d: "slices_Delete (tgt m) (slices_Index (tgt m) s) (slices_Index (tgt m) s + 1)
      = Inr targets'"
    and m': "m' = upd_t (\<lambda>t. t\<lparr>tx_TargetIndexes := idxs, tx_cacheTargetStates := Some targets'\<rparr>) m"
    using assms(1) by (auto simp: drop_target_def Let_def tgt_def split: sum.splits)
  have 1: "hide_targets m' = hide_targets m"
    unfolding m' by (cases "m_t m") (simp_all add: hide_targets_def upd_t_def)
  show ?thesis
  proof (cases "m_t m")
    case None
    then have "m' = m" unfolding m' by (simp add: upd_t_def)
    then show ?thesis by simp
  next
    case (Some t)
    then have "tgt m' = targets'" unfolding m' by (simp add: tgt_def cur_upd_t tx_TargetStates_def)
    with 1 assms(2) slices_Delete_subset [OF d] show ?thesis by (simp add: nego_def)
  qed
qed

lemma partial_drop_nego:
  "nego m m1 \<Longrightarrow> partial_auto m s \<Longrightarrow> drop_target s m1 = Inr m2 \<Longrightarrow> nego m m2"
  using nego_trans drop_target_nego nego_fields(8) by (metis partial_auto_def tx_IsAuto_def)

lemma emit_trans:
  "emitHandler env to False e ev m = Inr (r, m1) \<Longrightarrow> nego m1 m' \<Longrightarrow> nego m m'"
  using emitHandler_nego nego_trans by blast

lemma emit_drop_trans:
  "emitHandler env to False e ev m = Inr (r, m1) \<Longrightarrow> partial_auto m s \<Longrightarrow> drop_target s m1 = Inr m2 \<Longrightarrow>
   nego m2 m' \<Longrightarrow> nego m m'"
  using emitHandler_nego partial_drop_nego nego_trans by blast

section \<open>The loops of the negotiation\<close>

lemma emitExit_loop_nego: "emitExit_loop env xs m = Inr (r, m') \<Longrightarrow> nego m m'"
proof (induction env xs m rule: emitExit_loop.induct)
  case (2 env s xs m)
  then show ?case
    by (auto split: if_splits sum.splits prod.splits intro: emit_trans emit_drop_trans)
qed simp

lemma emitEnter_loop_nego: "emitEnter_loop env xs m = Inr (r, m') \<Longrightarrow> nego m m'"
proof (induction env xs m rule: emitEnter_loop.induct)
  case (2 env s xs m)
  then show ?case
    by (auto split: if_splits sum.splits prod.splits intro: emit_trans emit_drop_trans)
qed simp

lemma emitSelf_loop_nego: "emitSelf_loop env n i arr ret m = Inr (r, m') \<Longrightarrow> nego m m'"
proof (induction env n i arr ret m rule: emitSelf_loop.induct)
  case (2 env n i arr ret m)
  then show ?case
    by (auto simp: Let_def split: if_splits sum.splits prod.splits
        intro: emit_trans emit_drop_trans)
qed simp

lemma emitStateState_loop_nego: "emitStateState_loop env xs m = Inr (r, m') \<Longrightarrow> nego m m'"
proof (induction env xs m rule: emitStateState_loop.induct)
  case (2 env b a xs m)
  then show ?case
    by (auto split: if_splits sum.splits prod.splits intro: emit_trans emit_drop_trans)
qed simp

lemma negotiate_step_nego:
  assumes "negotiate_step f x = Inr (r, m')" "\<And>r1 m1. x = Inr (r1, m1) \<Longrightarrow> nego m m1"
    "\<And>m1 r2 m2. f m1 = Inr (r2, m2) \<Longrightarrow> nego m1 m2"
  shows "nego m m'"
  using assms by (auto simp: negotiate_step_def split: sum.splits if_splits intro: nego_trans)

lemma auto_step_nego:
  "auto_step x = Inr (r, m') \<Longrightarrow> (\<And>r1 m1. x = Inr (r1, m1) \<Longrightarrow> nego m m1) \<Longrightarrow> nego m m'"
  by (auto simp: auto_step_def split: sum.splits if_splits)

lemma steps_nego:
  "any_enter_step env m = Inr (r, m') \<Longrightarrow> nego m m'"
  "self_step env m = Inr (r, m') \<Longrightarrow> nego m m'"
  "emitStateStateEvents env m = Inr (r, m') \<Longrightarrow> nego m m'"
  "emitEnterEvents env m = Inr (r, m') \<Longrightarrow> nego m m'"
  "emitExitEvents env m = Inr (r, m') \<Longrightarrow> nego m m'"
  by (auto simp: any_enter_step_def self_step_def emitSelfEvents_def emitStateStateEvents_def Let_def
      emitEnterEvents_def emitExitEvents_def split: if_splits
      dest: emitHandler_nego emitSelf_loop_nego emitStateState_loop_nego emitEnter_loop_nego emitExit_loop_nego)

theorem negotiate_nego:
  assumes "negotiate env r0 m = Inr (r, m')"
  shows "nego m m'"
proof (cases "m_handlerLoopRunning m")
  case True
  from assms True have "negotiate_step (any_enter_step env) (auto_step
      (negotiate_step (emitStateStateEvents env) (negotiate_step (self_step env)
        (negotiate_step (emitEnterEvents env) (negotiate_step (emitExitEvents env) (Inr (r0, m))))))) = Inr (r, m')"
    by (simp add: negotiate_def)
  then show ?thesis
    by (rule negotiate_step_nego)
      (erule auto_step_nego negotiate_step_nego steps_nego | simp)+
qed (use assms in \<open>simp add: negotiate_def\<close>)

text \<open>A cancelled mutation stays cancelled.\<close>

lemma negotiate_Canceled:
  assumes "negotiate env Canceled m = Inr (r, m')"
  shows "r = Canceled \<and> m' = m"
  using assms by (auto simp: negotiate_def negotiate_step_def auto_step_def split: if_splits)

end
