(* ===== verification/Am_Invariant.thy ===== *)
theory Am_Invariant
  imports Am_Negotiate
begin

text \<open>
  The clock invariant through whole transitions and through the queue: whatever the handlers do, fail
  and time out included, a state is active exactly when its tick is odd.
\<close>

section \<open>Targets are defined states\<close>

text \<open>A parsed schema without the empty name, which \<open>verifyStates\<close> refuses.\<close>

definition machine_wf :: "Machine \<Rightarrow> bool" where
  "machine_wf m = (schema_wf (m_schema m) \<and> [] \<notin> set (gkeys (m_schema m)) \<and> \<not> m_disposing m)"

definition tx_inv :: "Machine \<Rightarrow> bool" where
  "tx_inv m = (run_inv m \<and> machine_wf m \<and> distinct (tgt m) \<and> set (tgt m) \<subseteq> set (gkeys (m_schema m)))"

lemma tx_resolve_targets:
  assumes "tx_resolve m t sts = Inr ts" "machine_wf m"
  shows "distinct ts" "set ts \<subseteq> set (gkeys (m_schema m))"
proof -
  let ?rr = "tx_resolver m t"
  have r: "TargetStates ?rr sts = Inr ts" using assms(1) by (simp add: tx_resolve_def)
  have rr: "rr_schema ?rr = m_schema m" "rr_disposing ?rr = m_disposing m"
    by (simp_all add: tx_resolver_def mach_resolver_def)
  from rr assms(2) have ok: "resolver_ok ?rr" by (simp add: resolver_ok_def machine_wf_def)
  from r obtain p where "mustParseStates (m_disposing m) (m_schema m) sts = Inr p"
    by (auto simp: TargetStates_def rr split: sum.splits)
  then have "set sts \<subseteq> set (gkeys (m_schema m))"
    using mustParseStates_Inr assms(2) by (auto simp: machine_wf_def split: if_splits)
  then show "set ts \<subseteq> set (gkeys (m_schema m))"
    using default_resolver.target_known [OF ok r] by (simp add: rr)
  show "distinct ts" using r by (rule default_resolver.target_distinct)
qed

lemma setupExitEnter_names:
  assumes "setupExitEnter m t = Inr t'" "set (m_activeStates m) \<subseteq> K"
    "set (tx_TargetStates (m_stateNames m) t) \<subseteq> K"
  shows "set (tx_Exits t') \<subseteq> K \<and> set (tx_Enters t') \<subseteq> K \<and> tx_Mutation t' = tx_Mutation t
    \<and> tx_cacheTargetStates t' = tx_cacheTargetStates t \<and> tx_IsAccepted t' = tx_IsAccepted t"
  using assms by (auto simp: setupExitEnter_def Let_def split: sum.splits)

lemma setupAccepted_same:
  "setupAccepted names t = Inr t' \<Longrightarrow> tx_Exits t' = tx_Exits t \<and> tx_Enters t' = tx_Enters t
    \<and> tx_Mutation t' = tx_Mutation t \<and> tx_cacheTargetStates t' = tx_cacheTargetStates t
    \<and> tx_cacheStatesBefore t' = tx_cacheStatesBefore t \<and> tx_TimeBefore t' = tx_TimeBefore t"
  by (auto simp: setupAccepted_def Let_def split: sum.splits if_splits)

text \<open>What \<open>newTransition\<close> builds.\<close>

lemma newTransition_cases:
  assumes "newTransition m mut = Inr m'"
  obtains called ts t1 t where "tx_CalledStates (m_stateNames m) (initTransition m mut) = Inr called"
    "tx_resolve m (initTransition m mut) (statesToSet m (mu_Type mut) called) = Inr ts"
    "\<exists>tAfter. predict_time m mut called ts = Inr tAfter \<and>
       setupAccepted (m_stateNames m) ((initTransition m mut)\<lparr>tx_TimeAfter := tAfter,
         tx_TargetIndexes := mach_Index m ts, tx_cacheTargetStates := Some ts\<rparr>) = Inr t1"
    "if tx_IsAccepted t1 then setupExitEnter m t1 = Inr t else t = t1"
    "m' = m\<lparr>m_t := Some t, m_nextTx := m_nextTx m + 1, m_rrIndex := m_stateNames m\<rparr>"
proof -
  let ?t0 = "initTransition m mut"
  have ty: "tx_Type ?t0 = mu_Type mut" by (simp add: initTransition_def tx_Type_def)
  obtain called where 1: "tx_CalledStates (m_stateNames m) ?t0 = Inr called"
    using assms by (cases "tx_CalledStates (m_stateNames m) ?t0") (simp_all add: newTransition_def Let_def)
  obtain ts where 2: "tx_resolve m ?t0 (statesToSet m (mu_Type mut) called) = Inr ts"
    using assms 1 by (cases "tx_resolve m ?t0 (statesToSet m (mu_Type mut) called)")
      (simp_all add: newTransition_def Let_def ty)
  obtain ta where 3: "predict_time m mut called ts = Inr ta"
    using assms 1 2 by (cases "predict_time m mut called ts") (simp_all add: newTransition_def Let_def ty)
  let ?t1 = "?t0\<lparr>tx_TimeAfter := ta, tx_TargetIndexes := mach_Index m ts, tx_cacheTargetStates := Some ts\<rparr>"
  obtain t1 where 4: "setupAccepted (m_stateNames m) ?t1 = Inr t1"
    using assms 1 2 3 by (cases "setupAccepted (m_stateNames m) ?t1") (simp_all add: newTransition_def Let_def ty)
  show thesis
  proof (cases "tx_IsAccepted t1")
    case False
    with that [of called ts t1 t1] assms 1 2 3 4 show ?thesis
      by (simp add: newTransition_def Let_def ty)
  next
    case True
    then obtain t2 where 5: "setupExitEnter m t1 = Inr t2"
      using assms 1 2 3 4 by (cases "setupExitEnter m t1") (simp_all add: newTransition_def Let_def ty)
    with that [of called ts t1 t2] assms 1 2 3 4 True show ?thesis
      by (simp add: newTransition_def Let_def ty)
  qed
qed

lemma clock_inv_active: "clock_inv m \<Longrightarrow> set (m_activeStates m) \<subseteq> set (gkeys (m_schema m))"
  by (simp add: clock_inv_def)

lemma newTransition_facts:
  assumes "newTransition m mut = Inr m'" "clock_inv m" "machine_wf m"
  shows "tx_inv m'" "tx_Mutation (cur m') = mut" "m_t m' \<noteq> None"
    "\<exists>q. m' = m\<lparr>m_t := q, m_nextTx := m_nextTx m + 1, m_rrIndex := m_stateNames m\<rparr>"
    "tx_cacheStatesBefore (cur m') = Some (m_activeStates m)"
    "tx_TimeBefore (cur m') = mach_time m None"
proof -
  from assms(1) obtain called ts t1 t where r: "tx_resolve m (initTransition m mut) (statesToSet m (mu_Type mut) called) = Inr ts"
    and t1: "\<exists>tAfter. predict_time m mut called ts = Inr tAfter \<and>
       setupAccepted (m_stateNames m) ((initTransition m mut)\<lparr>tx_TimeAfter := tAfter,
         tx_TargetIndexes := mach_Index m ts, tx_cacheTargetStates := Some ts\<rparr>) = Inr t1"
    and t: "if tx_IsAccepted t1 then setupExitEnter m t1 = Inr t else t = t1"
    and m': "m' = m\<lparr>m_t := Some t, m_nextTx := m_nextTx m + 1, m_rrIndex := m_stateNames m\<rparr>"
    by (rule newTransition_cases)
  let ?K = "set (gkeys (m_schema m))"
  note ts = tx_resolve_targets [OF r assms(3)]
  have 1: "tx_Exits t1 = []" "tx_Enters t1 = []" "tx_Mutation t1 = mut" "tx_cacheTargetStates t1 = Some ts"
    "tx_cacheStatesBefore t1 = Some (m_activeStates m)" "tx_TimeBefore t1 = mach_time m None"
    using t1 by (auto dest!: setupAccepted_same simp: initTransition_def Transition_none_def)
  have 2: "set (tx_Exits t) \<subseteq> ?K \<and> set (tx_Enters t) \<subseteq> ?K \<and> tx_Mutation t = mut
      \<and> tx_cacheTargetStates t = Some ts"
    using t 1 ts setupExitEnter_names [of m t1 t ?K] clock_inv_active [OF assms(2)]
    by (auto simp: tx_TargetStates_def split: if_splits)
  have 3: "tx_cacheStatesBefore t = Some (m_activeStates m)" "tx_TimeBefore t = mach_time m None"
    using t 1 by (auto simp: setupExitEnter_def Let_def split: if_splits sum.splits)
  have c: "cur m' = t" "m_stateNames m' = m_stateNames m" "m_schema m' = m_schema m"
    "m_activeStates m' = m_activeStates m" "m_clock m' = m_clock m" "m_disposing m' = m_disposing m"
    unfolding m' by (simp_all add: cur_def)
  show "tx_inv m'"
    using 2 ts assms(2,3) c clock_inv_same [of m' m]
    by (auto simp: tx_inv_def run_inv_def machine_wf_def tgt_def tx_TargetStates_def)
  show "tx_Mutation (cur m') = mut" "tx_cacheStatesBefore (cur m') = Some (m_activeStates m)"
    "tx_TimeBefore (cur m') = mach_time m None" using 2 3 c by simp_all
  show "m_t m' \<noteq> None" "\<exists>q. m' = m\<lparr>m_t := q, m_nextTx := m_nextTx m + 1, m_rrIndex := m_stateNames m\<rparr>"
    unfolding m' by auto
qed

section \<open>The phases after the negotiation\<close>

lemma recheck_auto_facts:
  assumes "recheck_auto called m = Inr m'" "tx_inv m"
  shows "tx_inv m'" "m_activeStates m' = m_activeStates m" "m_clock m' = m_clock m"
    "m_schema m' = m_schema m" "m_disposing m' = m_disposing m" "m_stateNames m' = m_stateNames m"
    "tx_Mutation (cur m') = tx_Mutation (cur m)" "\<not> tx_IsAuto (cur m) \<Longrightarrow> m' = m"
    "tx_TimeBefore (cur m') = tx_TimeBefore (cur m)" "m_t m \<noteq> None \<Longrightarrow> m_t m' \<noteq> None"
    "m_handlerLoopRunning m' = m_handlerLoopRunning m" "m_disposed m' = m_disposed m"
proof -
  let ?goal = "tx_inv m' \<and> m_activeStates m' = m_activeStates m \<and> m_clock m' = m_clock m
     \<and> m_schema m' = m_schema m \<and> m_disposing m' = m_disposing m \<and> m_stateNames m' = m_stateNames m
     \<and> tx_Mutation (cur m') = tx_Mutation (cur m) \<and> (\<not> tx_IsAuto (cur m) \<longrightarrow> m' = m)
     \<and> tx_TimeBefore (cur m') = tx_TimeBefore (cur m) \<and> (m_t m \<noteq> None \<longrightarrow> m_t m' \<noteq> None)
     \<and> m_handlerLoopRunning m' = m_handlerLoopRunning m \<and> m_disposed m' = m_disposed m"
  have ?goal
  proof (cases "tx_IsAuto (cur m)")
    case False
    then show ?thesis using assms by (simp add: recheck_auto_def)
  next
    case True
    obtain ts t' c where r: "tx_resolve m (cur m) (statesToSet m MutationAdd c) = Inr ts"
      and e: "setupExitEnter m ((cur m)\<lparr>tx_TargetIndexes := mach_Index m ts, tx_cacheTargetStates := Some ts\<rparr>) = Inr t'"
      and m': "m' = m\<lparr>m_t := Some t'\<rparr>"
      using assms(1) True by (auto simp: recheck_auto_def Let_def split: sum.splits)
    have w: "machine_wf m" "clock_inv m" using assms(2) by (simp_all add: tx_inv_def run_inv_def)
    note ts = tx_resolve_targets [OF r w(1)]
    have x: "set (tx_Exits t') \<subseteq> set (gkeys (m_schema m)) \<and> set (tx_Enters t') \<subseteq> set (gkeys (m_schema m))
        \<and> tx_Mutation t' = tx_Mutation (cur m) \<and> tx_cacheTargetStates t' = Some ts"
      using setupExitEnter_names [OF e clock_inv_active [OF w(2)]] ts(2) by (simp add: tx_TargetStates_def)
    have y: "tx_TimeBefore t' = tx_TimeBefore (cur m)"
      using e by (auto simp: setupExitEnter_def Let_def split: sum.splits)
    have c: "cur m' = t'" unfolding m' by (simp add: cur_def)
    have "clock_inv m'" unfolding m' using w(2) by (simp add: clock_inv_def)
    then have "tx_inv m'"
      using x w ts unfolding tx_inv_def run_inv_def tgt_def c machine_wf_def tx_TargetStates_def
      by (auto simp: m')
    then show ?thesis using x y True unfolding c by (simp add: m')
  qed
  then show "tx_inv m'" "m_activeStates m' = m_activeStates m" "m_clock m' = m_clock m"
    "m_schema m' = m_schema m" "m_disposing m' = m_disposing m" "m_stateNames m' = m_stateNames m"
    "tx_Mutation (cur m') = tx_Mutation (cur m)" "\<not> tx_IsAuto (cur m) \<Longrightarrow> m' = m"
    "tx_TimeBefore (cur m') = tx_TimeBefore (cur m)" "m_t m \<noteq> None \<Longrightarrow> m_t m' \<noteq> None"
    "m_handlerLoopRunning m' = m_handlerLoopRunning m" "m_disposed m' = m_disposed m" by simp_all
qed

lemma commit_tail_keeps:
  "(\<And>t. tx_same t (f t)) \<Longrightarrow> keeps True m (case x of (sm, tc) \<Rightarrow>
     upd_t f (m\<lparr>m_subs := sm, m_canceled := m_canceled m @ tc\<rparr>))"
  by (cases x) (simp add: keeps_def upd_t_def option.rel_map option.rel_refl)

text \<open>Only \<open>setActiveStates\<close> matters.\<close>

lemma commit_states_set: "keeps True (setActiveStates m called (tgt m)) (commit_states called m)"
  unfolding commit_states_def Let_def tgt_def by (rule commit_tail_keeps) (simp add: tx_same_def)

lemma commit_states_keeps: "keeps False m (commit_states called m)"
  using keeps_trans [OF setActiveStates_keeps commit_states_set] by simp

lemma commit_states_run_inv:
  assumes "tx_inv m"
  shows "run_inv (commit_states called m)"
proof -
  have "clock_inv (setActiveStates m called (tgt m))"
    using assms by (intro setActiveStates_clock_inv) (simp_all add: tx_inv_def run_inv_def)
  then have "run_inv (setActiveStates m called (tgt m))"
    using assms by (simp add: tx_inv_def run_inv_def cur_def)
  then show ?thesis using run_inv_keeps [OF commit_states_set] by simp
qed

lemma emit_step_trans: "emit_step True m m' \<Longrightarrow> emit_step True m' m'' \<Longrightarrow> emit_step True m m''"
  using keeps_trans [of False m m' False m''] by (simp add: emit_step_def)

lemma emitFinal_loop_step:
  "emitFinal_loop env enters finals m = Inr (r, m') \<Longrightarrow> 
     emit_step True m m' \<and> (r = Canceled \<longrightarrow> recover_ok m')"
proof (induction env enters finals m rule: emitFinal_loop.induct)
  case (2 env enters s finals m)
  let ?e = "s \<in> set enters"
  obtain ret m1 where e: "emitHandler env (if ?e then s else []) True ?e
      (if ?e then s @ SuffixState else s @ SuffixEnd) m = Inr (ret, m1)"
    using "2.prems" by (auto simp: Let_def split: sum.splits)
  have 1: "emit_step True m m1 \<and> recover_ok m1" using emitHandler_step [OF e] by simp
  show ?case
  proof (cases "ret = Canceled")
    case True
    with "2.prems" e 1 show ?thesis by (simp add: Let_def)
  next
    case False
    with "2.prems" e have "emitFinal_loop env enters finals m1 = Inr (r, m')" by (simp add: Let_def)
    with "2.IH" [of _ _ _ "(ret, m1)" ret m1] e False have "emit_step True m1 m' \<and> (r = Canceled \<longrightarrow> recover_ok m')"
      by simp
    with 1 emit_step_trans show ?thesis by blast
  qed
qed (simp add: Executed_def Canceled_def emit_step_def)

lemma run_finals_step:
  assumes "run_finals env b m = Inr (r, m')"
  shows "emit_step True m m'"
proof -
  obtain ret m1 where 1: "(if b \<or> HasWhenArgs (m_subs m) then emitFinalEvents env m else Inr (Executed, m)) = Inr (ret, m1)"
    and 2: "(if ret = Canceled then recoverFinalPhase m1 else Inr m1) = Inr m'"
    using assms by (auto simp: run_finals_def split: sum.splits)
  have 3: "emit_step True m m1 \<and> (ret = Canceled \<longrightarrow> recover_ok m1)"
    using 1 by (auto simp: emitFinalEvents_def emit_step_def Executed_def Canceled_def split: if_splits
        dest: emitFinal_loop_step)
  have "emit_step True m1 m'"
    using 2 3 recoverFinalPhase_keeps [of m1 m'] recoverFinalPhase_run_inv [of m1 m']
    by (auto simp: emit_step_def split: if_splits)
  with 3 emit_step_trans show ?thesis by blast
qed

lemma any_state_step_step:
  "any_state_step env r m = Inr (r', m') \<Longrightarrow> emit_step True m m'"
  by (auto simp: any_state_step_def emit_step_def split: if_splits dest: emitHandler_step)

lemma auto_phase_step:
  "auto_phase r b m = Inr m' \<Longrightarrow> keeps True m m'"
  by (auto simp: auto_phase_def split: if_splits sum.splits option.splits
      intro: keeps_upd_t only_queued_fields(1) dest!: prependMut_only_queued simp: tx_same_def)

lemma upd_TimeAfter_keeps: "keeps True m (upd_t (\<lambda>t. t\<lparr>tx_TimeAfter := x\<rparr>) m)"
  by (rule keeps_upd_t) (simp add: tx_same_def)

lemma apply_phase_facts:
  assumes "apply_phase env called result m = Inr ((r, b), m')" "tx_inv m"
  shows "keeps False m m'" "run_inv m'" "result = Canceled \<Longrightarrow> keeps True m m' \<and> r = Canceled"
proof -
  have "keeps False m m' \<and> run_inv m' \<and> (result = Canceled \<longrightarrow> keeps True m m' \<and> r = Canceled)"
  proof (cases "result = Canceled")
    case True
    then have "m' = upd_t (\<lambda>t. t\<lparr>tx_TimeAfter := mach_time m None\<rparr>) m" "r = Canceled"
      using assms(1) by (simp_all add: apply_phase_def)
    then show ?thesis
      using upd_TimeAfter_keeps run_inv_keeps keeps_weaken assms(2) unfolding tx_inv_def by metis
  next
    case False
    then have "emit_step True (commit_states called m) m'"
      using assms(1) run_finals_step by (simp add: apply_phase_def)
    then show ?thesis
      using False keeps_trans [OF commit_states_keeps [of m called], of False m'] commit_states_run_inv [OF assms(2)]
      by (simp add: emit_step_def)
  qed
  then show "keeps False m m'" "run_inv m'" "result = Canceled \<Longrightarrow> keeps True m m' \<and> r = Canceled" by simp_all
qed

lemma mutate_phase_facts:
  assumes "mutate_phase env called result m = Inr (r, m')" "tx_inv m"
  obtains m1 where "recheck_auto called m = Inr m1" "keeps False m1 m'" "run_inv m'"
    "result = Canceled \<longrightarrow> keeps True m1 m' \<and> r = Canceled"
proof -
  from assms(1) obtain m1 r2 b m2 m3 where 1: "recheck_auto called m = Inr m1"
    and 2: "apply_phase env called result m1 = Inr ((r2, b), m2)"
    and 3: "any_state_step env r2 m2 = Inr (r, m3)" and 4: "auto_phase r b m3 = Inr m'"
    by (auto simp: mutate_phase_def split: sum.splits)
  have t: "tx_inv m1" using recheck_auto_facts [OF 1 assms(2)] by simp
  note a = apply_phase_facts [OF 2 t]
  note s = any_state_step_step [OF 3] and k = auto_phase_step [OF 4]
  have "keeps False m1 m3" using keeps_trans [OF a(1), of False m3] s by (simp add: emit_step_def)
  then have "keeps False m1 m'" using keeps_trans [OF _ k, of False m1] by simp
  moreover have "run_inv m'" using s a(2) run_inv_keeps [OF k] by (simp add: emit_step_def)
  moreover have "keeps True m1 m' \<and> r = Canceled" if "result = Canceled"
  proof -
    from a(3) [OF that] 3 have "m3 = m2" "r = Canceled" by (simp_all add: any_state_step_def)
    with a(3) [OF that] keeps_trans [OF _ k, of True m1] show ?thesis by simp
  qed
  ultimately show thesis using that 1 by blast
qed

section \<open>Whole transitions\<close>

text \<open>The result and the final state of \<open>emitEvents\<close>, split by what happens in the negotiation.\<close>

definition closing :: "Machine \<Rightarrow> Machine" where
  "closing m = upd_t (\<lambda>t. t\<lparr>tx_QueueLen := ucast (m_queueLen m), tx_IsCompleted := True\<rparr>) m"

lemma closing_keeps: "keeps True m (closing m)"
  unfolding closing_def by (rule keeps_upd_t) (simp add: tx_same_def)

lemma check_phase_keeps: "check_phase r m = Inr (r', m') \<Longrightarrow> keeps True m m' \<and> r' = r"
  by (auto simp: check_phase_def tx_same_def split: if_splits intro: keeps_upd_t)

lemma emitEvents_cases:
  assumes "emitEvents env m = Inr (r, m')"
  obtains called result m1 result2 m2 where
    "tx_CalledStates (m_stateNames m) (cur m) = Inr called"
    "negotiate env (if tx_IsAccepted (cur m) then Executed else Canceled) m = Inr (result, m1)"
    "(if \<not> mu_IsCheck (tx_Mutation (cur m1)) then mutate_phase env called result m1
      else check_phase result m1) = Inr (result2, m2)"
    "final_result called result2 (closing m2) = Inr r" "m' = closing m2"
proof -
  from assms obtain called where 1: "tx_CalledStates (m_stateNames m) (cur m) = Inr called"
    by (auto simp: emitEvents_def split: sum.splits)
  from assms 1 obtain result m1 where
    2: "negotiate env (if tx_IsAccepted (cur m) then Executed else Canceled) m = Inr (result, m1)"
    by (auto simp: emitEvents_def split: sum.splits)
  from assms 1 2 obtain result2 m2 where 3: "(if \<not> mu_IsCheck (tx_Mutation (cur m1))
      then mutate_phase env called result m1 else check_phase result m1) = Inr (result2, m2)"
    by (auto simp: emitEvents_def split: sum.splits)
  have 4: "(case final_result called result2 (closing m2) of Inl fault \<Rightarrow> Inl fault
      | Inr r \<Rightarrow> Inr (r, closing m2)) = Inr (r, m')"
    using assms unfolding emitEvents_def 1 2 sum.case prod.case 3 Let_def closing_def by simp
  then have "final_result called result2 (closing m2) = Inr r" "m' = closing m2"
    by (auto split: sum.splits)
  with that 1 2 3 show thesis by blast
qed

text \<open>The frame of a whole transition.\<close>

definition tx_frame :: "Machine \<Rightarrow> Machine \<Rightarrow> bool" where
  "tx_frame m m' = (m_schema m' = m_schema m \<and> m_stateNames m' = m_stateNames m
     \<and> m_disposing m' = m_disposing m \<and> m_disposed m' = m_disposed m
     \<and> m_handlerLoopRunning m' = m_handlerLoopRunning m \<and> tx_Mutation (cur m') = tx_Mutation (cur m))"

lemma tx_frame_trans: "tx_frame m m' \<Longrightarrow> tx_frame m' m'' \<Longrightarrow> tx_frame m m''"
  by (simp add: tx_frame_def)

lemma tx_frame_refl [simp]: "tx_frame m m"
  by (simp add: tx_frame_def)

lemma keeps_frame: "keeps st m m' \<Longrightarrow> tx_frame m m'"
  using keeps_simps [of st m m'] keeps_cur [of st m m'] by (simp add: tx_frame_def)

lemma nego_frame: "nego m m' \<Longrightarrow> tx_frame m m'"
  using nego_fields [of m m'] by (simp add: tx_frame_def)

lemma nego_tx_inv: "nego m m' \<Longrightarrow> tx_inv m \<Longrightarrow> tx_inv m'"
  using nego_fields [of m m'] nego_run_inv [of m m'] by (auto simp: tx_inv_def machine_wf_def nego_def)

text \<open>States and clock untouched.\<close>

definition unchanged :: "Machine \<Rightarrow> Machine \<Rightarrow> bool" where
  "unchanged m m' = (m_activeStates m' = m_activeStates m \<and> m_clock m' = m_clock m)"

lemma keeps_unchanged: "keeps True m m' \<Longrightarrow> unchanged m m'"
  by (simp add: unchanged_def keeps_def)

lemma nego_unchanged: "nego m m' \<Longrightarrow> unchanged m m'"
  using nego_fields [of m m'] by (simp add: unchanged_def)

lemma unchanged_trans: "unchanged m m' \<Longrightarrow> unchanged m' m'' \<Longrightarrow> unchanged m m''"
  by (simp add: unchanged_def)

lemma final_result_Canceled: "final_result called Canceled m = Inr r \<Longrightarrow> r = Canceled"
  by (simp add: final_result_def Let_def)

lemma emitEvents_facts:
  assumes "emitEvents env m = Inr (r, m')" "tx_inv m"
  shows "run_inv m'" "tx_frame m m'" "mu_IsCheck (tx_Mutation (cur m)) \<Longrightarrow> unchanged m m'"
    "negotiate env (if tx_IsAccepted (cur m) then Executed else Canceled) m = Inr (Canceled, m1) \<Longrightarrow>
       r = Canceled \<and> unchanged m m'"
proof -
  from assms(1) obtain called result n result2 m2 where
    c: "tx_CalledStates (m_stateNames m) (cur m) = Inr called"
    and g: "negotiate env (if tx_IsAccepted (cur m) then Executed else Canceled) m = Inr (result, n)"
    and p: "(if \<not> mu_IsCheck (tx_Mutation (cur n)) then mutate_phase env called result n
      else check_phase result n) = Inr (result2, m2)"
    and f: "final_result called result2 (closing m2) = Inr r" and m': "m' = closing m2"
    by (rule emitEvents_cases)
  note N = negotiate_nego [OF g]
  note ti = nego_tx_inv [OF N assms(2)]
  have same: "tx_Mutation (cur n) = tx_Mutation (cur m)" by (rule nego_fields [OF N])
  have P: "run_inv m2 \<and> tx_frame n m2 \<and> (mu_IsCheck (tx_Mutation (cur m)) \<longrightarrow> unchanged n m2)
      \<and> (result = Canceled \<longrightarrow> unchanged n m2 \<and> result2 = Canceled)"
  proof (cases "mu_IsCheck (tx_Mutation (cur m))")
    case True
    with p same have "keeps True n m2" "result2 = result" using check_phase_keeps by auto
    then show ?thesis using ti by (simp add: keeps_frame keeps_unchanged run_inv_keeps tx_inv_def)
  next
    case False
    with p same have mp: "mutate_phase env called result n = Inr (result2, m2)" by simp
    obtain n1 where n1: "recheck_auto called n = Inr n1" "keeps False n1 m2" "run_inv m2"
      "result = Canceled \<longrightarrow> keeps True n1 m2 \<and> result2 = Canceled"
      using mutate_phase_facts [OF mp ti] by blast
    have "tx_frame n n1" "unchanged n n1"
      using recheck_auto_facts [OF n1(1) ti] by (simp_all add: tx_frame_def unchanged_def)
    with n1 False show ?thesis using tx_frame_trans keeps_frame keeps_unchanged unchanged_trans by blast
  qed
  have K: "keeps True m2 m'" unfolding m' by (rule closing_keeps)
  show "run_inv m'" using P run_inv_keeps [OF K] by simp
  show "tx_frame m m'" using P keeps_frame [OF K] nego_frame [OF N] tx_frame_trans by blast
  have U: "unchanged m n" "unchanged m2 m'" using nego_unchanged [OF N] keeps_unchanged [OF K] by simp_all
  show "unchanged m m'" if "mu_IsCheck (tx_Mutation (cur m))"
    using P U unchanged_trans that by blast
  show "r = Canceled \<and> unchanged m m'"
    if "negotiate env (if tx_IsAccepted (cur m) then Executed else Canceled) m = Inr (Canceled, m1)"
  proof -
    from that g have "result = Canceled" by simp
    with P have "unchanged n m2" "result2 = Canceled" by simp_all
    moreover from this f have "r = Canceled" using final_result_Canceled by simp
    ultimately show ?thesis using U unchanged_trans by blast
  qed
qed

text \<open>What the result \<open>Executed\<close> stands for.\<close>

lemma Is_active: "Is m states \<Longrightarrow> set states \<subseteq> set (m_activeStates m)"
proof -
  have "is_loop names active states \<Longrightarrow> set states \<subseteq> set active" for names active
    by (induction states) (auto split: if_splits)
  then show "Is m states \<Longrightarrow> set states \<subseteq> set (m_activeStates m)"
    by (auto simp: Is_def is'_def split: if_splits)
qed

lemma Not_inactive:
  assumes "Not m states = Inr True" "\<not> m_disposing m"
  shows "set states \<inter> set (m_activeStates m) = {}"
proof -
  from assms obtain p where p: "mach_mustParse m states = Inr p" "slicesNone p (m_activeStates m)"
    by (auto simp: Not_def not'_def split: sum.splits)
  then have "set p = set states" using mustParseStates_Inr assms(2)
    by (fastforce simp: mach_mustParse_def)
  with p(2) show ?thesis by (simp add: slicesNone_iff)
qed

lemma result_cases [simp]: "Executed \<noteq> Canceled" "Canceled \<noteq> Executed"
  by (simp_all add: Executed_def Canceled_def)

lemma final_result_Executed:
  assumes "final_result called r m = Inr Executed" "\<not> mu_IsCheck (tx_Mutation (cur m))"
    "\<not> tx_IsAuto (cur m)" "\<not> m_disposing m"
  shows "if tx_Type (cur m) = MutationRemove then set called \<inter> set (m_activeStates m) = {}
    else set (tgt m) \<subseteq> set (m_activeStates m)"
  using assms Not_inactive [of m called] Is_active [of m "tgt m"]
  by (auto simp: final_result_def Let_def tgt_def split: if_splits sum.splits)

lemma emitEvents_Executed:
  assumes "emitEvents env m = Inr (Executed, m')" "tx_inv m"
    "\<not> mu_IsCheck (tx_Mutation (cur m))" "\<not> tx_IsAuto (cur m)"
  shows "tx_IsAccepted (cur m)" "\<exists>called. tx_CalledStates (m_stateNames m) (cur m) = Inr called \<and>
    (if tx_Type (cur m) = MutationRemove then set called \<inter> set (m_activeStates m') = {}
     else set (tgt m) \<subseteq> set (m_activeStates m'))"
proof -
  from assms(1) obtain called result n result2 m2 where
    c: "tx_CalledStates (m_stateNames m) (cur m) = Inr called"
    and g: "negotiate env (if tx_IsAccepted (cur m) then Executed else Canceled) m = Inr (result, n)"
    and p: "(if \<not> mu_IsCheck (tx_Mutation (cur n)) then mutate_phase env called result n
      else check_phase result n) = Inr (result2, m2)"
    and f: "final_result called result2 (closing m2) = Inr Executed" and m': "m' = closing m2"
    by (rule emitEvents_cases)
  show "tx_IsAccepted (cur m)"
  proof (rule ccontr)
    assume "\<not> tx_IsAccepted (cur m)"
    with g negotiate_Canceled have "negotiate env Canceled m = Inr (Canceled, n)" by auto
    with \<open>\<not> tx_IsAccepted (cur m)\<close> emitEvents_facts(4) [OF assms(1,2), of n] show False by simp
  qed
  note N = negotiate_nego [OF g]
  note ti = nego_tx_inv [OF N assms(2)]
  have K: "keeps True m n" using N assms(4) by (simp add: nego_def)
  note cn = keeps_cur [OF K]
  from p cn assms(3) have mp: "mutate_phase env called result n = Inr (result2, m2)" by simp
  obtain n1 where n1: "recheck_auto called n = Inr n1" "keeps False n1 m2"
    using mutate_phase_facts [OF mp ti] by blast
  have "n1 = n" using recheck_auto_facts(8) [OF n1(1) ti] assms(4) cn by (simp add: tx_IsAuto_def)
  with n1(2) have K': "keeps False m m'"
    using keeps_trans [OF K, of False m2] keeps_trans [OF _ closing_keeps, of False m m2] m' by simp
  have d: "\<not> m_disposing m'" using assms(2) keeps_simps [OF K'] by (simp add: tx_inv_def machine_wf_def)
  from final_result_Executed [OF f] d assms(3,4) keeps_cur [OF K'] c keeps_tgt [OF K']
  show "\<exists>called. tx_CalledStates (m_stateNames m) (cur m) = Inr called \<and>
    (if tx_Type (cur m) = MutationRemove then set called \<inter> set (m_activeStates m') = {}
     else set (tgt m) \<subseteq> set (m_activeStates m'))"
    by (auto simp: m' tx_IsAuto_def tx_Type_def)
qed

end
