(* ===== verification/Am_Run.thy ===== *)
theory Am_Run
  imports Am_Invariant
begin

text \<open>
  Runs of the queue: one mutation, the loop of \<open>processQueue\<close> and the public methods keep the clock
  invariant, and a result \<open>Executed\<close> means what it says.
\<close>

section \<open>One mutation\<close>

definition mach_inv :: "Machine \<Rightarrow> bool" where
  "mach_inv m = (clock_inv m \<and> machine_wf m)"

text \<open>Everything but the subscriptions and what they signal.\<close>

definition only_notified :: "Machine \<Rightarrow> Machine \<Rightarrow> bool" where
  "only_notified m m' = (m' = m\<lparr>m_subs := m_subs m', m_closed := m_closed m', m_checks := m_checks m'\<rparr>)"

lemma only_notified_I [simp]:
  "only_notified m m" "only_notified m (close_chans chs m)" "only_notified m (close_chans chs (m\<lparr>m_subs := sm\<rparr>))"
  "only_notified m (close_chans chs (m\<lparr>m_checks := cs\<rparr>))"
  by (simp_all add: only_notified_def close_chans_def)

lemma only_notified_fields:
  assumes "only_notified m m'"
  shows "m_activeStates m' = m_activeStates m" "m_clock m' = m_clock m" "m_schema m' = m_schema m"
    "m_disposing m' = m_disposing m" "m_t m' = m_t m" "m_stateNames m' = m_stateNames m"
    "m_queue m' = m_queue m" "m_queueLen m' = m_queueLen m" "m_queueTick m' = m_queueTick m"
    "m_queueTicksPending m' = m_queueTicksPending m" "m_handlerLoopRunning m' = m_handlerLoopRunning m"
    "m_disposed m' = m_disposed m"
proof -
  obtain s c k where 1: "m' = m\<lparr>m_subs := s, m_closed := c, m_checks := k\<rparr>"
    using assms unfolding only_notified_def by blast
  show "m_activeStates m' = m_activeStates m" "m_clock m' = m_clock m" "m_schema m' = m_schema m"
    "m_disposing m' = m_disposing m" "m_t m' = m_t m" "m_stateNames m' = m_stateNames m"
    "m_queue m' = m_queue m" "m_queueLen m' = m_queueLen m" "m_queueTick m' = m_queueTick m"
    "m_queueTicksPending m' = m_queueTicksPending m" "m_handlerLoopRunning m' = m_handlerLoopRunning m"
    "m_disposed m' = m_disposed m"
    unfolding 1 by simp_all
qed

lemma processSubscriptions_notified: "processSubscriptions env m = Inr m' \<Longrightarrow> only_notified m m'"
  by (auto simp: processSubscriptions_def Let_def split: prod.splits sum.splits)

lemma after_transition_notified: "after_transition env mut m = Inr m' \<Longrightarrow> only_notified m m'"
  by (auto simp: after_transition_def split: if_splits option.splits dest: processSubscriptions_notified)

lemma mach_inv_same:
  "m_activeStates m' = m_activeStates m \<Longrightarrow> m_clock m' = m_clock m \<Longrightarrow> m_schema m' = m_schema m \<Longrightarrow>
   m_disposing m' = m_disposing m \<Longrightarrow> mach_inv m' = mach_inv m"
  by (simp add: mach_inv_def clock_inv_def machine_wf_def)

text \<open>The machine handed to \<open>emitEvents\<close> and the one it returns.\<close>

lemma run_mutation_cases:
  assumes "run_mutation env mut m = Inr (res, m')"
  obtains (expired) "ctx_expired (en_expired env) (mu_ctx mut)" "res = Some Executed" "m' = m"
  | (eval) f where "mu_eval mut = Some f" "nested_calls m (en_eval env f) = (m', True)" "res = None"
      "mu_Type mut = mutationEval"
  | (tx) m1 r m2 m3 where "newTransition m mut = Inr m1" "emitEvents env m1 = Inr (r, m2)" "res = Some r"
      "after_transition env mut (m2\<lparr>m_timeLast := tx_TimeAfter (cur m2)\<rparr>) = Inr m3" "m' = upd_t CleanCache m3"
      "mu_Type mut \<noteq> mutationEval"
proof (cases "ctx_expired (en_expired env) (mu_ctx mut)")
  case True
  with assms expired show ?thesis by (simp add: run_mutation_def)
next
  case F: False
  show ?thesis
  proof (cases "mu_Type mut = mutationEval")
    case True
    with F assms eval show ?thesis
      by (auto simp: run_mutation_def split: option.splits prod.splits if_splits)
  next
    case False
    obtain m1 where 1: "newTransition m mut = Inr m1"
      using assms F False by (cases "newTransition m mut") (simp_all add: run_mutation_def)
    obtain r m2 where 2: "emitEvents env m1 = Inr (r, m2)"
      using assms F False 1 by (cases "emitEvents env m1") (auto simp: run_mutation_def)
    obtain m3 where 3: "after_transition env mut (m2\<lparr>m_timeLast := tx_TimeAfter (cur m2)\<rparr>) = Inr m3"
      using assms F False 1 2
      by (cases "after_transition env mut (m2\<lparr>m_timeLast := tx_TimeAfter (cur m2)\<rparr>)") (simp_all add: run_mutation_def)
    show ?thesis using tx [OF 1 2 _ 3 _ False] assms F False 1 2 3 by (simp add: run_mutation_def)
  qed
qed

lemma run_mutation_tx:
  assumes "newTransition m mut = Inr m1" "emitEvents env m1 = Inr (r, m2)"
    "after_transition env mut (m2\<lparr>m_timeLast := x\<rparr>) = Inr m3" "m' = upd_t CleanCache m3" "mach_inv m"
  shows "mach_inv m'" "m_schema m' = m_schema m" "m_disposing m' = m_disposing m" "tx_inv m1"
    "m_activeStates m' = m_activeStates m2" "m_clock m' = m_clock m2"
    "m_activeStates m1 = m_activeStates m" "m_clock m1 = m_clock m"
    "m_stateNames m' = m_stateNames m" "m_disposed m' = m_disposed m"
    "m_handlerLoopRunning m' = m_handlerLoopRunning m"
proof -
  have w: "clock_inv m" "machine_wf m" using assms(5) by (simp_all add: mach_inv_def)
  note n = newTransition_facts [OF assms(1) w]
  note e = emitEvents_facts [OF assms(2) n(1)]
  note a = only_notified_fields [OF after_transition_notified [OF assms(3)]]
  from n(4) obtain q where m1: "m1 = m\<lparr>m_t := q, m_nextTx := m_nextTx m + 1, m_rrIndex := m_stateNames m\<rparr>"
    by blast
  show "m_schema m' = m_schema m" "m_disposing m' = m_disposing m" "m_stateNames m' = m_stateNames m"
    "m_disposed m' = m_disposed m" "m_handlerLoopRunning m' = m_handlerLoopRunning m"
    using a e(2) assms(4) by (simp_all add: tx_frame_def m1)
  show "m_activeStates m' = m_activeStates m2" "m_clock m' = m_clock m2" using a assms(4) by simp_all
  show "m_activeStates m1 = m_activeStates m" "m_clock m1 = m_clock m" by (simp_all add: m1)
  show "tx_inv m1" by (rule n)
  have "clock_inv m2" using e(1) by (simp add: run_inv_def)
  moreover have "machine_wf m2" using e(2) n(1) by (simp add: tx_inv_def machine_wf_def tx_frame_def)
  ultimately show "mach_inv m'"
    using a assms(4) by (simp add: mach_inv_def clock_inv_def machine_wf_def)
qed

lemma run_mutation_inv:
  assumes "run_mutation env mut m = Inr (res, m')" "mach_inv m"
  shows "mach_inv m'"
  using assms(1)
proof (cases rule: run_mutation_cases)
  case (eval f)
  with assms(2) only_queued_fields [OF nested_calls_only_queued] show ?thesis
    using mach_inv_same by metis
next
  case (tx m1 r m2 m3)
  from run_mutation_tx(1) [OF tx(1,2,4,5) assms(2)] show ?thesis .
qed (use assms in simp)

section \<open>The public methods as steps\<close>

text \<open>The calls a client can make on a machine with a fixed schema, one after the other: mutations, errors, checks,
  handlers, subscriptions, and time passing.\<close>

datatype api_call =
    ApiAdd S A | ApiRemove S A | ApiSet S A | ApiToggle S A | ApiAddErr string "string option" A
  | ApiEvAdd "Event option" S A | ApiEvRemove "Event option" S A | ApiCanAdd S A | ApiCanRemove S A
  | ApiPrepend Mutation | ApiBind handler string | ApiDetach string
  | ApiWhen S "ctx option" | ApiWhenNot S "ctx option" | ApiWhenTime S Time "ctx option"
  | ApiWhenArgs string A "ctx option" | ApiWhenQueue Result | ApiNewStateCtx string | ApiSleep int
  | ApiEvAddErr "Event option" string "string option" A | ApiEvToggle "Event option" S A
  | ApiWhenTimeSum uint64 "ctx option" | ApiWhenQuery nat "ctx option" | ApiWhenQueueEnds

definition ignore_value :: "('a \<times> Machine) res \<Rightarrow> (Result \<times> Machine) res" where
  "ignore_value x = (case x of Inl fault \<Rightarrow> Inl fault | Inr (_, m) \<Rightarrow> Inr (Executed, m))"

fun api_run :: "Env \<Rightarrow> nat \<Rightarrow> Machine \<Rightarrow> api_call \<Rightarrow> (Result \<times> Machine) res" where
  "api_run env fuel m (ApiAdd states args) = mach_Add env fuel m states args"
| "api_run env fuel m (ApiRemove states args) = mach_Remove env fuel m states args"
| "api_run env fuel m (ApiSet states args) = mach_Set env fuel m states args"
| "api_run env fuel m (ApiToggle states args) = Toggle env fuel m states args"
| "api_run env fuel m (ApiAddErr state err args) = AddErrState env fuel m state err args"
| "api_run env fuel m (ApiEvAdd ev states args) = EvAdd env fuel m ev states args"
| "api_run env fuel m (ApiEvRemove ev states args) = EvRemove env fuel m ev states args"
| "api_run env fuel m (ApiCanAdd states args) = CanAdd env fuel m states args"
| "api_run env fuel m (ApiCanRemove states args) = CanRemove env fuel m states args"
| "api_run env fuel m (ApiPrepend mut) = PrependMut env fuel m mut"
| "api_run env fuel m (ApiBind h bid) = ignore_value (bindHandlers env fuel m h bid)"
| "api_run env fuel m (ApiDetach bid) = Inr (Executed, snd (HandlersDetach m bid))"
| "api_run env fuel m (ApiWhen states c) = ignore_value (mach_When env m states c)"
| "api_run env fuel m (ApiWhenNot states c) = ignore_value (mach_WhenNot env m states c)"
| "api_run env fuel m (ApiWhenTime states ticks c) = ignore_value (mach_WhenTime env fuel m states ticks c)"
| "api_run env fuel m (ApiWhenArgs state args c) = ignore_value (mach_WhenArgs env m state args c)"
| "api_run env fuel m (ApiWhenQueue tick) = Inr (Executed, snd (mach_WhenQueue m tick))"
| "api_run env fuel m (ApiNewStateCtx state) = ignore_value (mach_NewStateCtx m state)"
| "api_run env fuel m (ApiSleep d) = Inr (Executed, m\<lparr>m_now := m_now m + d\<rparr>)"
| "api_run env fuel m (ApiEvAddErr ev state err args) = EvAddErrState env fuel m ev state err args"
| "api_run env fuel m (ApiEvToggle ev states args) = EvToggle env fuel m ev states args"
| "api_run env fuel m (ApiWhenTimeSum mtime c) = Inr (Executed, snd (mach_WhenTimeSum m mtime c))"
| "api_run env fuel m (ApiWhenQuery fn c) = Inr (Executed, snd (mach_WhenQuery env m fn c))"
| "api_run env fuel m ApiWhenQueueEnds = Inr (Executed, snd (mach_WhenQueueEnds m))"

text \<open>A sequence of calls; a panic ends the program.\<close>

fun api_runs :: "Env \<Rightarrow> nat \<Rightarrow> Machine \<Rightarrow> api_call list \<Rightarrow> Machine res" where
  "api_runs env fuel m [] = Inr m"
| "api_runs env fuel m (c # cs) =
     (case api_run env fuel m c of Inl fault \<Rightarrow> Inl fault | Inr (_, m1) \<Rightarrow> api_runs env fuel m1 cs)"

section \<open>The loop\<close>

text \<open>
  The interface between the queue and whatever property is to hold of the machine. First what queueing
  has to respect; \<open>ok\<close> is what is asked of a mutation handed to \<open>PrependMut\<close>.
\<close>

locale queueing =
  fixes P :: "Machine \<Rightarrow> bool" and ok :: "Mutation \<Rightarrow> bool"
  assumes enq: "queueMutation m ty states args ev = Inr (tick, m') \<Longrightarrow> P m \<Longrightarrow> P m'"
    and pre: "prependMut m mut = Inr (Some m') \<Longrightarrow> ok mut \<Longrightarrow> P m \<Longrightarrow> P m'"
    and check_ok: "ok (check_mutation m ty states args)"
    and err: "P m \<Longrightarrow> P (m\<lparr>m_err := e\<rparr>)"
begin

lemma queue_prep: "queue_prep m ty states args ev = Inr (r, m') \<Longrightarrow> P m \<Longrightarrow> P m'"
  by (auto simp: queue_prep_def split: sum.splits if_splits dest: enq)

lemma preps:
  assumes "P m"
  shows "Add_prep m states args = Inr (r, m') \<Longrightarrow> P m'"
    "Remove_prep m states args = Inr (r, m') \<Longrightarrow> P m'"
    "Set_prep m states args = Inr (r, m') \<Longrightarrow> P m'"
    "EvAdd_prep m ev states args = Inr (r, m') \<Longrightarrow> P m'"
    "EvRemove_prep m ev states args = Inr (r, m') \<Longrightarrow> P m'"
  using assms by (auto simp: Add_prep_def Remove_prep_def Set_prep_def EvAdd_prep_def EvRemove_prep_def
      split: if_splits dest: queue_prep)

lemma err_preps:
  assumes "P m"
  shows "AddErrState_prep m s e args = Inr (r, m') \<Longrightarrow> P m'"
    "EvAddErrState_prep m ev s e args = Inr (r, m') \<Longrightarrow> P m'"
  using assms by (auto simp: AddErrState_prep_def EvAddErrState_prep_def split: if_splits
      dest!: preps [OF err [OF assms]])

lemma nested:
  assumes "nested_call m c = Inr m'" "\<And>mut. c = CallPrepend mut \<Longrightarrow> ok mut" "P m"
  shows "P m'"
  using assms by (cases c) (auto simp: prep_state_def prepend_state_def Can_prep_def
      split: sum.splits option.splits if_splits dest: preps err_preps pre [OF _ check_ok] pre)

lemma nesteds:
  "nested_calls m cs = (m', b) \<Longrightarrow> (\<And>mut. CallPrepend mut \<in> set cs \<Longrightarrow> ok mut) \<Longrightarrow> P m \<Longrightarrow> P m'"
proof (induction m cs arbitrary: m' b rule: nested_calls.induct)
  case (2 m c cs)
  then show ?case by (cases "nested_call m c") (auto dest: nested)
qed simp

end

text \<open>Then what has to hold of taking the first mutation and running it. Everything public keeps \<open>P\<close>.\<close>

locale queue_invariant = queueing +
  assumes running: "P m \<Longrightarrow> P (m\<lparr>m_queueRunning := b\<rparr>)"
    and processing: "P m \<Longrightarrow> P (m\<lparr>m_queueProcessing := b\<rparr>)"
    and take: "P m \<Longrightarrow> m_queue m = mut # rest \<Longrightarrow> \<not> m_disposing m \<Longrightarrow>
      run_mutation env mut (shift_queue m mut rest) = Inr (res, m') \<Longrightarrow> P m'"
    and finish: "P m \<Longrightarrow> P (queue_end m)"
    and handlers: "P m \<Longrightarrow> P (m\<lparr>m_nextHandlerNum := n, m_handlers := hs\<rparr>)"
    and loop_started: "P m \<Longrightarrow> \<not> m_handlerLoopRunning m \<Longrightarrow> P (m\<lparr>m_handlerLoopRunning := True, m_loopAlive := True\<rparr>)"
    and subs: "P m \<Longrightarrow> P (m\<lparr>m_subs := sm\<rparr>)"
    and time: "P m \<Longrightarrow> P (m\<lparr>m_now := t\<rparr>)"
begin

lemma loop_step:
  assumes "\<not> m_queueLen m = 0" "P m" "queue_loop env (Suc fuel) ret m = Inr (x, m')"
  obtains "P m'" | ret' m2 where "P m2" "queue_loop env fuel ret' m2 = Inr (x, m')"
proof -
  let ?m1 = "m\<lparr>m_queueRunning := True\<rparr>"
  have P1: "P ?m1" by (rule running) fact
  show thesis
  proof (cases "m_disposing m \<or> m_queue m = []")
    case True
    with assms(1,3) P1 that(1) show ?thesis by (auto simp: Let_def split: if_splits list.splits)
  next
    case False
    then obtain mut rest where q: "m_queue m = mut # rest" by (cases "m_queue m") auto
    obtain res m2 where r: "run_mutation env mut (shift_queue ?m1 mut rest) = Inr (res, m2)"
      using assms(1,3) False q by (cases "run_mutation env mut (shift_queue ?m1 mut rest)") (auto simp: Let_def)
    have "P m2" using take [OF P1 _ _ r] False q by simp
    with that(2) assms(1,3) False q r show ?thesis by (cases res) (auto simp: Let_def)
  qed
qed

lemma queue_loop: "queue_loop env fuel ret m = Inr (x, m') \<Longrightarrow> P m \<Longrightarrow> P m'"
proof (induction fuel arbitrary: ret m)
  case (Suc fuel)
  show ?case
  proof (cases "m_queueLen m = 0")
    case False
    from loop_step [OF this Suc.prems(2,1)] Suc.IH show ?thesis by blast
  qed (use Suc.prems in simp)
qed (simp split: if_splits)

lemma processQueue:
  assumes "processQueue env fuel m = Inr (r, m')" "P m"
  shows "P m'"
proof (cases "processQueue_busy m")
  case None
  then obtain x m1 where l: "queue_loop env fuel [] (m\<lparr>m_queueProcessing := True, m_queueRunning := False\<rparr>) = Inr (x, m1)"
    using assms(1) by (auto simp: processQueue_def split: sum.splits)
  have "P m1" using queue_loop [OF l] processing running assms(2) by blast
  with None l assms(1) finish show ?thesis by (cases x) (auto simp: processQueue_def)
qed (use assms in \<open>simp add: processQueue_def\<close>)

lemma finish_prep:
  assumes "finish_prep env fuel p = Inr (r, m')" "\<And>x m1. p = Inr (x, m1) \<Longrightarrow> P m1"
  shows "P m'"
  using assms by (auto simp: finish_prep_def split: sum.splits dest: processQueue)

lemma PrependMut: "PrependMut env fuel m mut = Inr (r, m') \<Longrightarrow> ok mut \<Longrightarrow> P m \<Longrightarrow> P m'"
  by (auto simp: PrependMut_def split: sum.splits option.splits dest!: pre processQueue)

lemma methods:
  assumes "P m"
  shows "mach_Add env fuel m states args = Inr (r, m') \<Longrightarrow> P m'"
    "mach_Remove env fuel m states args = Inr (r, m') \<Longrightarrow> P m'"
    "mach_Set env fuel m states args = Inr (r, m') \<Longrightarrow> P m'"
    "EvAdd env fuel m ev states args = Inr (r, m') \<Longrightarrow> P m'"
    "EvRemove env fuel m ev states args = Inr (r, m') \<Longrightarrow> P m'"
    "AddErrState env fuel m s e args = Inr (r, m') \<Longrightarrow> P m'"
    "EvAddErrState env fuel m ev s e args = Inr (r, m') \<Longrightarrow> P m'"
  using assms
  by (auto simp: mach_Add_def mach_Remove_def mach_Set_def EvAdd_def EvRemove_def AddErrState_def EvAddErrState_def
      elim!: finish_prep dest: preps err_preps)

lemma bindHandlers:
  assumes "bindHandlers env fuel m h bid = Inr (x, m')" "P m"
  shows "P m'"
proof -
  define m1 where "m1 = (if m_handlerLoopRunning m then m
    else m\<lparr>m_handlerLoopRunning := True, m_loopAlive := True\<rparr>)"
  let ?m2 = "m1\<lparr>m_nextHandlerNum := m_nextHandlerNum m1 + 1,
    m_handlers := m_handlers m1 @ [h\<lparr>h_id := bid, h_num := m_nextHandlerNum m1\<rparr>]\<rparr>"
  have "P m1" using assms(2) loop_started by (simp add: m1_def)
  then have P2: "P ?m2" by (rule handlers)
  have "m' = m \<or> m' = ?m2 \<or> (\<exists>r. AddErr env fuel ?m2 (m_err ?m2) [] = Inr (r, m'))"
    using assms(1) by (auto simp: bindHandlers_def Let_def m1_def split: if_splits sum.splits)
  with P2 assms(2) methods(6) show ?thesis unfolding AddErr_def by blast
qed

lemma detach: "P m \<Longrightarrow> P (snd (HandlersDetach m bid))"
  using handlers [of m _ "m_nextHandlerNum m"] by (auto simp: HandlersDetach_def split: option.splits)

lemma subscribing:
  assumes "P m"
  shows "mach_When env m states c = Inr (x, m') \<Longrightarrow> P m'"
    "mach_WhenNot env m states c = Inr (x, m') \<Longrightarrow> P m'"
    "mach_WhenArgs env m state args c = Inr (x, m') \<Longrightarrow> P m'"
    "mach_NewStateCtx m state = Inr (y, m') \<Longrightarrow> P m'"
    "mach_WhenTime env fuel m states ticks c = Inr (x, m') \<Longrightarrow> P m'"
    "P (snd (mach_WhenQueue m tick))" "P (snd (mach_WhenTimeSum m mtime c))" "P (snd (mach_WhenQuery env m fn c))"
    "P (snd (mach_WhenQueueEnds m))"
  using assms methods(6) [OF assms]
  by (auto simp: mach_When_def mach_WhenNot_def mach_WhenArgs_def mach_NewStateCtx_def mach_WhenTime_def
      mach_WhenQueue_def mach_WhenTimeSum_def mach_WhenQuery_def mach_WhenQueueEnds_def AddErr_def intro: subs split: if_splits sum.splits list.splits prod.splits)

lemma ignore_value: "ignore_value y = Inr (r, m') \<Longrightarrow> (\<And>x. y = Inr (x, m') \<Longrightarrow> P m') \<Longrightarrow> P m'"
  by (auto simp: ignore_value_def split: sum.splits)

lemma api: "api_run env fuel m c = Inr (r, m') \<Longrightarrow> (\<And>mut. c = ApiPrepend mut \<Longrightarrow> ok mut) \<Longrightarrow> P m \<Longrightarrow> P m'"
  by (cases c) (auto simp: Toggle_def EvToggle_def CanAdd_def CanRemove_def split: if_splits
      dest: methods PrependMut [OF _ check_ok] PrependMut bindHandlers subscribing
      intro: detach subscribing time elim!: ignore_value)

lemma api_runs:
  "api_runs env fuel m cs = Inr m' \<Longrightarrow> (\<And>mut. ApiPrepend mut \<in> set cs \<Longrightarrow> ok mut) \<Longrightarrow> P m \<Longrightarrow> P m'"
proof (induction env fuel m cs rule: api_runs.induct)
  case (2 env fuel m c cs)
  from "2.prems"(1) obtain r m1 where 1: "api_run env fuel m c = Inr (r, m1)" "api_runs env fuel m1 cs = Inr m'"
    by (auto split: sum.splits)
  have "P m1" using api [OF 1(1)] "2.prems" by auto
  with "2.IH" [OF 1(1)] 1(2) "2.prems"(2) show ?case by auto
qed simp

end

section \<open>The clock invariant of every client\<close>

lemma shift_queue_fields [simp]:
  "m_activeStates (shift_queue m mut rest) = m_activeStates m" "m_clock (shift_queue m mut rest) = m_clock m"
  "m_schema (shift_queue m mut rest) = m_schema m" "m_disposing (shift_queue m mut rest) = m_disposing m"
  "m_queue (shift_queue m mut rest) = rest"
  "m_queueLen (shift_queue m mut rest) = of_nat (length rest)"
  "m_subs (shift_queue m mut rest) = m_subs m"
  "m_stateNames (shift_queue m mut rest) = m_stateNames m"
  "m_disposed (shift_queue m mut rest) = m_disposed m"
  "m_handlerLoopRunning (shift_queue m mut rest) = m_handlerLoopRunning m"
  by (simp_all add: shift_queue_def Let_def)

lemma queue_end_fields [simp]:
  "m_activeStates (queue_end m) = m_activeStates m" "m_clock (queue_end m) = m_clock m"
  "m_schema (queue_end m) = m_schema m" "m_disposing (queue_end m) = m_disposing m"
  "m_queue (queue_end m) = m_queue m" "m_queueLen (queue_end m) = m_queueLen m"
  "m_queueTick (queue_end m) = m_queueTick m" "m_t (queue_end m) = None"
  "m_queueProcessing (queue_end m) = False" "m_stateNames (queue_end m) = m_stateNames m"
  by (simp_all add: queue_end_def Let_def ProcessWhenQueueEnds_def close_chans_def)

lemma only_queued_inv: "only_queued m m' \<Longrightarrow> mach_inv m' = mach_inv m"
  using only_queued_fields [of m m'] mach_inv_same [of m' m] by simp

interpretation clock: queue_invariant mach_inv "\<lambda>_. True"
proof (unfold_locales, goal_cases)
  case (1 m ty states args ev tick m')
  then show ?case using only_queued_inv queueMutation_only_queued by blast
next
  case (2 m mut m')
  then show ?case using only_queued_inv prependMut_only_queued by blast
next
  case (7 m mut rest env res m')
  then show ?case using run_mutation_inv mach_inv_same [of "shift_queue m mut rest" m] by simp
qed (simp_all add: mach_inv_def clock_inv_def machine_wf_def)

end
