(* ===== verification/Am_Steps.thy ===== *)
theory Am_Steps
  imports Am_Run
begin

text \<open>
  Relations between the machine before and after that every primitive write respects are respected by
  whole transitions and by every public call. The locale does the lifting once; its instances say that
  the queue length is always the one that is reported, that closed channels and cancelled contexts stay
  so, which fields no call ever changes, and that a handler loop that has ended is never started again. The
  flag of the handler loop is written only by a handler call that began with a live loop (laws \<open>reset\<close> and
  \<open>alive\<close>) and by the first binding of handlers (\<open>loop_started\<close>).
\<close>

locale machine_steps =
  fixes R :: "Machine \<Rightarrow> Machine \<Rightarrow> bool"
  assumes refl: "R m m"
    and trans: "R m m' \<Longrightarrow> R m' m'' \<Longrightarrow> R m m''"
    and enq: "queueMutation m ty states args ev = Inr (tick, m') \<Longrightarrow> R m m'"
    and pre: "prependMut m mut = Inr (Some m') \<Longrightarrow> R m m'"
    and shift: "m_queue m = mut # rest \<Longrightarrow> R m (shift_queue m mut rest)"
    and reset: "m_loopAlive m0 \<Longrightarrow> R m0 m \<Longrightarrow> R m0 (deadline_reset m)"
    and set_states: "R m (setActiveStates m called ts)"
    and tx: "R m (m\<lparr>m_t := t\<rparr>)"
    and new_tx: "R m (m\<lparr>m_nextTx := n, m_rrIndex := names\<rparr>)"
    and err: "R m (m\<lparr>m_err := e\<rparr>)"
    and panic: "R m (m\<lparr>m_panicCaught := b\<rparr>)"
    and alive: "m_loopAlive m0 \<Longrightarrow> R m0 m \<Longrightarrow> R m0 (m\<lparr>m_loopAlive := b\<rparr>)"
    and deadline: "R m (m\<lparr>m_LastHandlerDeadline := d\<rparr>)"
    and time_last: "R m (m\<lparr>m_timeLast := x\<rparr>)"
    and subs: "R m (m\<lparr>m_subs := sm\<rparr>)"
    and close: "R m (close_chans chs m)"
    and cancel: "R m (m\<lparr>m_canceled := m_canceled m @ cs\<rparr>)"
    and checks: "R m (m\<lparr>m_checks := m_checks m @ xs\<rparr>)"
    and running: "R m (m\<lparr>m_queueRunning := b\<rparr>)"
    and processing: "R m (m\<lparr>m_queueProcessing := b\<rparr>)"
    and handlers: "R m (m\<lparr>m_nextHandlerNum := n, m_handlers := hs\<rparr>)"
    and loop_started: "\<not> m_handlerLoopRunning m \<Longrightarrow> R m (m\<lparr>m_handlerLoopRunning := True, m_loopAlive := True\<rparr>)"
    and time: "R m (m\<lparr>m_now := now\<rparr>)"
begin

lemma upd: "R m (upd_t f m)"
  unfolding upd_t_def by (rule tx)

end

sublocale machine_steps \<subseteq> q: queueing "R m0" "\<lambda>_. True" for m0
  by unfold_locales (blast intro: trans enq pre err)+

context machine_steps
begin

lemma recoverFinal: "recoverFinalPhase m = Inr m' \<Longrightarrow> R m m'"
  by (auto simp: recoverFinalPhase_def Let_def set_states split: sum.splits)

lemma prepend_alive:
  "(case prependMut m mut of Inl fault \<Rightarrow> Inl fault | Inr None \<Rightarrow> Inr (m\<lparr>m_loopAlive := True\<rparr>)
      | Inr (Some m5) \<Rightarrow> Inr (m5\<lparr>m_loopAlive := True\<rparr>)) = Inr m' \<Longrightarrow> m_loopAlive m0 \<Longrightarrow> R m0 m \<Longrightarrow> R m0 m'"
  by (auto split: sum.splits option.splits intro: alive trans [OF _ pre])

lemma recoverErr:
  assumes "recoverToErr m err = Inr m'" "m_loopAlive m0" "R m0 m"
  shows "R m0 m'"
proof (cases "m_disposing m \<or> Mutation_IsCalled (tx_Mutation (cur (m\<lparr>m_panicCaught := True\<rparr>)))
    (mach_Index1 (m\<lparr>m_panicCaught := True\<rparr>) StateException)")
  case True
  with assms show ?thesis
    by (cases "m_disposing m") (auto simp: recoverToErr_def Let_def intro: trans [OF _ panic])
next
  case False
  let ?m1 = "m\<lparr>m_panicCaught := True\<rparr>"
  let ?m2 = "?m1\<lparr>m_err := Some err\<rparr>"
  let ?f = "\<lambda>t. t\<lparr>tx_IsAccepted := False, tx_IsCompleted := True\<rparr>"
  let ?r = "if tx_latestHandlerIsFinal (cur ?m2) then recoverFinalPhase ?m2 else Inr ?m2"
  obtain m3 where r: "?r = Inr m3"
    using assms False by (cases ?r) (simp_all add: recoverToErr_def Let_def)
  have 3: "R ?m2 m3" using r recoverFinal [of ?m2 m3] refl by (auto split: if_splits)
  have "R m0 (upd_t ?f m3)" using assms(3) 3 upd [of m3 ?f] panic [of m True] err [of ?m1 "Some err"] by (meson trans)
  with assms(1,2) False r show ?thesis
    by (intro prepend_alive [of "upd_t ?f m3" "exception_mutation (upd_t ?f m3) err" m']) (simp_all add: recoverToErr_def Let_def)
qed

lemma deadlined: "handler_deadline m e = Inr m' \<Longrightarrow> m_loopAlive m0 \<Longrightarrow> R m0 m \<Longrightarrow> R m0 m'"
  by (auto simp: handler_deadline_def Let_def split: sum.splits
      dest!: q.err_preps(2) [OF reset, rotated 2] intro: trans [OF _ deadline])

lemma handler_run:
  assumes "run_handler env m h method args = Inr (r, m')"
  shows "R m m'"
proof (cases "\<not> m_loopAlive m \<or> \<not> event_valid m")
  case True
  with assms show ?thesis by (auto simp: run_handler_def refl split: if_splits)
next
  case False
  obtain calls out where h: "en_handler env m (h_num h) method args = (calls, out)" by fastforce
  obtain m1 fine where n: "nested_calls m calls = (m1, fine)" by fastforce
  have 1: "R m m1" using q.nesteds [OF n] refl by blast
  have "m' = m1 \<or> handler_deadline m1 ''handler timeout'' = Inr m'
      \<or> (\<exists>e. recoverToErr (m1\<lparr>m_loopAlive := False\<rparr>) e = Inr m')"
    using assms False h n
    by (cases fine; cases out) (auto simp: run_handler_def split: sum.splits if_splits)
  then show ?thesis using 1 deadlined [of m1 _ m' m] recoverErr [of "m1\<lparr>m_loopAlive := False\<rparr>" _ m' m] alive [of m m1 False] False
    by blast
qed

lemma handlers_loop: "processHandlers_loop env hs name args m = Inr (r, m') \<Longrightarrow> R m m'"
proof (induction env hs name args m rule: processHandlers_loop.induct)
  case (2 env h hs name args m)
  then show ?case
    by (auto split: if_splits sum.splits prod.splits dest: handler_run intro: trans)
qed (simp add: refl)

lemma handlers_all: "processHandlers env name args m = Inr (r, m') \<Longrightarrow> R m m'"
  by (auto simp: processHandlers_def refl split: if_splits sum.splits prod.splits
      dest!: handlers_loop intro: trans [OF trans [OF _ subs] close])

lemma emit: "emitHandler env to isFinal isEnter event m = Inr (r, m') \<Longrightarrow> R m m'"
  by (auto simp: emitHandler_def handle_def split: if_splits sum.splits
      dest!: handlers_all intro: trans [OF upd trans [OF upd]] trans [OF _ panic] upd
      trans [OF upd trans [OF upd trans [OF _ panic]]])

lemma drop: "drop_target s m = Inr m' \<Longrightarrow> R m m'"
  by (auto simp: drop_target_def Let_def upd split: sum.splits)

lemma emit_t: "emitHandler env to f e ev m = Inr (r, m1) \<Longrightarrow> R m1 m' \<Longrightarrow> R m m'"
  using emit trans by blast

lemma emit_drop_t:
  "emitHandler env to f e ev m = Inr (r, m1) \<Longrightarrow> drop_target s m1 = Inr m2 \<Longrightarrow> R m2 m' \<Longrightarrow> R m m'"
  by (rule trans [OF emit trans [OF drop]])

lemma exit_loop: "emitExit_loop env xs m = Inr (r, m') \<Longrightarrow> R m m'"
proof (induction env xs m rule: emitExit_loop.induct)
  case (2 env s xs m)
  then show ?case by (auto split: if_splits sum.splits prod.splits intro: emit emit_t emit_drop_t)
qed (simp add: refl)

lemma enter_loop: "emitEnter_loop env xs m = Inr (r, m') \<Longrightarrow> R m m'"
proof (induction env xs m rule: emitEnter_loop.induct)
  case (2 env s xs m)
  then show ?case by (auto split: if_splits sum.splits prod.splits intro: emit emit_t emit_drop_t)
qed (simp add: refl)

lemma self_loop: "emitSelf_loop env n i arr ret m = Inr (r, m') \<Longrightarrow> R m m'"
proof (induction env n i arr ret m rule: emitSelf_loop.induct)
  case (2 env n i arr ret m)
  then show ?case
    by (auto simp: Let_def split: if_splits sum.splits prod.splits intro: emit emit_t emit_drop_t)
qed (simp add: refl)

lemma state_state_loop: "emitStateState_loop env xs m = Inr (r, m') \<Longrightarrow> R m m'"
proof (induction env xs m rule: emitStateState_loop.induct)
  case (2 env b a xs m)
  then show ?case by (auto split: if_splits sum.splits prod.splits intro: emit emit_t emit_drop_t)
qed (simp add: refl)

lemma final_loop: "emitFinal_loop env enters xs m = Inr (r, m') \<Longrightarrow> R m m'"
proof (induction env enters xs m rule: emitFinal_loop.induct)
  case (2 env enters s xs m)
  then show ?case
    by (auto simp: Let_def split: if_splits sum.splits prod.splits intro: emit emit_t)
qed (simp add: refl)

lemma negotiation_step:
  "negotiate_step f x = Inr (r, m') \<Longrightarrow> (\<And>r1 m1. x = Inr (r1, m1) \<Longrightarrow> R m m1) \<Longrightarrow>
   (\<And>m1 r2 m2. f m1 = Inr (r2, m2) \<Longrightarrow> R m1 m2) \<Longrightarrow> R m m'"
  by (auto simp: negotiate_step_def split: sum.splits if_splits) (rule trans, assumption, blast)

lemma auto_negotiation:
  "auto_step x = Inr (r, m') \<Longrightarrow> (\<And>r1 m1. x = Inr (r1, m1) \<Longrightarrow> R m m1) \<Longrightarrow> R m m'"
  by (auto simp: auto_step_def split: sum.splits if_splits)

lemma events:
  "any_enter_step env m = Inr (r, m') \<Longrightarrow> R m m'"
  "self_step env m = Inr (r, m') \<Longrightarrow> R m m'"
  "emitStateStateEvents env m = Inr (r, m') \<Longrightarrow> R m m'"
  "emitEnterEvents env m = Inr (r, m') \<Longrightarrow> R m m'"
  "emitExitEvents env m = Inr (r, m') \<Longrightarrow> R m m'"
  "emitFinalEvents env m = Inr (r, m') \<Longrightarrow> R m m'"
  by (auto simp: any_enter_step_def self_step_def emitSelfEvents_def emitStateStateEvents_def Let_def
      emitEnterEvents_def emitExitEvents_def emitFinalEvents_def refl split: if_splits
      dest: emit self_loop state_state_loop enter_loop exit_loop final_loop)

lemma negotiation:
  assumes "negotiate env r0 m = Inr (r, m')"
  shows "R m m'"
proof (cases "m_handlerLoopRunning m")
  case True
  from assms True have "negotiate_step (any_enter_step env) (auto_step
      (negotiate_step (emitStateStateEvents env) (negotiate_step (self_step env)
        (negotiate_step (emitEnterEvents env) (negotiate_step (emitExitEvents env) (Inr (r0, m))))))) = Inr (r, m')"
    by (simp add: negotiate_def)
  then show ?thesis
    by (rule negotiation_step) (erule auto_negotiation negotiation_step events | simp add: refl)+
qed (use assms in \<open>simp add: negotiate_def refl\<close>)

lemma rechecked: "recheck_auto called m = Inr m' \<Longrightarrow> R m m'"
  by (auto simp: recheck_auto_def Let_def refl tx split: if_splits sum.splits)

lemma commit_tail:
  "R m (case x of (sm, tc) \<Rightarrow> upd_t f (m\<lparr>m_subs := sm, m_canceled := m_canceled m @ tc\<rparr>))"
  using trans [OF subs [of m "fst x"] trans [OF cancel upd], of f "snd x"] by (simp add: split_beta)

lemma committed: "R m (commit_states called m)"
  unfolding commit_states_def Let_def by (rule trans [OF set_states commit_tail])

lemma finals: "run_finals env b m = Inr (r, m') \<Longrightarrow> R m m'"
  by (auto simp: run_finals_def refl split: if_splits sum.splits intro: trans [OF events(6) recoverFinal] events(6))

lemma applied: "apply_phase env called result m = Inr (r, m') \<Longrightarrow> R m m'"
  by (auto simp: apply_phase_def upd split: if_splits intro: trans [OF committed finals])

lemma any_state: "any_state_step env r m = Inr (r', m') \<Longrightarrow> R m m'"
  by (auto simp: any_state_step_def refl split: if_splits dest: emit)

lemma autos: "auto_phase r b m = Inr m' \<Longrightarrow> R m m'"
  by (auto simp: auto_phase_def upd refl split: if_splits sum.splits option.splits dest: pre)

lemma mutated:
  assumes "mutate_phase env called result m = Inr (r, m')"
  shows "R m m'"
proof -
  from assms obtain m1 r2 b m2 m3 where 1: "recheck_auto called m = Inr m1"
    "apply_phase env called result m1 = Inr ((r2, b), m2)"
    "any_state_step env r2 m2 = Inr (r, m3)" "auto_phase r b m3 = Inr m'"
    by (auto simp: mutate_phase_def split: sum.splits)
  show ?thesis by (rule trans [OF rechecked [OF 1(1)] trans [OF applied [OF 1(2)]
        trans [OF any_state [OF 1(3)] autos [OF 1(4)]]]])
qed

lemma checked: "check_phase r m = Inr (r', m') \<Longrightarrow> R m m'"
  by (auto simp: check_phase_def upd refl split: if_splits)

lemma transition:
  assumes "emitEvents env m = Inr (r, m')"
  shows "R m m'"
proof -
  from assms obtain called result n result2 m2 where
    "negotiate env (if tx_IsAccepted (cur m) then Executed else Canceled) m = Inr (result, n)"
    "(if \<not> mu_IsCheck (tx_Mutation (cur n)) then mutate_phase env called result n
      else check_phase result n) = Inr (result2, m2)" "m' = closing m2"
    by (rule emitEvents_cases)
  then have "R m n" "R n m2" "R m2 m'"
    using negotiation mutated checked upd by (auto simp: closing_def split: if_splits)
  then show ?thesis by (meson trans)
qed

lemma subscriptions: "processSubscriptions env m = Inr m' \<Longrightarrow> R m m'"
  by (auto simp: processSubscriptions_def Let_def split: prod.splits sum.splits intro: trans [OF subs close])

lemma notified: "after_transition env mut m = Inr m' \<Longrightarrow> R m m'"
  by (auto simp: after_transition_def refl split: if_splits option.splits
      intro: trans [OF checks close] dest: subscriptions)

lemma created:
  assumes "newTransition m mut = Inr m'"
  shows "R m m'"
proof -
  obtain t where "m' = (m\<lparr>m_t := Some t\<rparr>)\<lparr>m_nextTx := m_nextTx m + 1, m_rrIndex := m_stateNames m\<rparr>"
    using newTransition_cases [OF assms] by (metis (no_types))
  then show ?thesis using trans [OF tx new_tx] by simp
qed

lemma mutation:
  assumes "run_mutation env mut m = Inr (res, m')"
  shows "R m m'"
  using assms
proof (cases rule: run_mutation_cases)
  case (eval f)
  then show ?thesis using q.nesteds refl by blast
next
  case (tx m1 r m2 m3)
  then show ?thesis
    using trans [OF created trans [OF transition trans [OF time_last trans [OF notified upd]]]] by blast
qed (simp add: refl)

end

sublocale machine_steps \<subseteq> queue: queue_invariant "R m0" "\<lambda>_. True" for m0
proof (unfold_locales, goal_cases)
  case (3 m mut rest env res m')
  then show ?case using shift [OF 3(2)] mutation [OF 3(4)] by (meson trans)
next
  case (4 m)
  then show ?case unfolding queue_end_def Let_def ProcessWhenQueueEnds_def prod.case
    using trans [OF _ trans [OF tx trans [OF processing trans [OF running trans [OF subs close]]]]] by simp
qed (erule trans, ((rule running processing handlers subs time) | (erule loop_started)))+

section \<open>Instances\<close>

text \<open>The counter \<open>queueLen\<close> next to the queue.\<close>

definition queueLen_ok :: "Machine \<Rightarrow> bool" where
  "queueLen_ok m = (m_queueLen m = of_nat (length (m_queue m)))"

lemma queueLen_ops:
  "queueMutation m ty states args ev = Inr (tick, m') \<Longrightarrow> queueLen_ok m \<Longrightarrow> queueLen_ok m'"
  "prependMut m mut = Inr (Some m') \<Longrightarrow> queueLen_ok m'"
  "queueLen_ok (shift_queue m mut rest)" "queueLen_ok (deadline_reset m)"
  by (auto simp: queueLen_ok_def queueMutation_def prependMut_def deadline_reset_def Let_def
      split: sum.splits if_splits)

interpretation queue_len: machine_steps "\<lambda>m m'. queueLen_ok m \<longrightarrow> queueLen_ok m'"
proof (unfold_locales, goal_cases)
  case (3 m ty states args ev tick m')
  then show ?case using queueLen_ops(1) by blast
qed (auto simp: queueLen_ok_def close_chans_def queueLen_ops [unfolded queueLen_ok_def])

text \<open>Closed channels, cancelled contexts and answered checks.\<close>

definition signals :: "Machine \<Rightarrow> Machine \<Rightarrow> bool" where
  "signals m m' = ((\<exists>xs. m_closed m' = m_closed m @ xs) \<and> (distinct (m_closed m) \<longrightarrow> distinct (m_closed m'))
     \<and> (\<exists>xs. m_canceled m' = m_canceled m @ xs) \<and> (\<exists>xs. m_checks m' = m_checks m @ xs))"

lemma close_fold:
  "\<exists>xs. foldl (\<lambda>cl ch. if ch \<in> set cl then cl else cl @ [ch]) cl chs = cl @ xs
     \<and> (distinct cl \<longrightarrow> distinct (cl @ xs))"
proof (induction chs arbitrary: cl)
  case (Cons ch chs)
  show ?case
  proof (cases "ch \<in> set cl")
    case False
    from Cons.IH [of "cl @ [ch]"] False show ?thesis by auto
  qed (use Cons.IH [of cl] in simp)
qed simp

lemma signals_same:
  "m_closed m' = m_closed m \<Longrightarrow> m_canceled m' = m_canceled m \<Longrightarrow> m_checks m' = m_checks m \<Longrightarrow> signals m m'"
  by (simp add: signals_def)

lemma signals_only_queued: "only_queued m m' \<Longrightarrow> signals m m'"
proof (rule signals_same)
  assume "only_queued m m'"
  then obtain q l p k e where 1: "m' = m\<lparr>m_queue := q, m_queueLen := l, m_queueTicksPending := p,
      m_queueToken := k, m_err := e\<rparr>" unfolding only_queued_def by blast
  show "m_closed m' = m_closed m" "m_canceled m' = m_canceled m" "m_checks m' = m_checks m"
    unfolding 1 by simp_all
qed

lemma setActiveStates_signals: "signals m (setActiveStates m called ts)"
  by (rule signals_same) (simp_all add: setActiveStates_def Let_def split: prod.splits)

interpretation signalled: machine_steps signals
proof (unfold_locales, goal_cases)
  case (2 m m' m'')
  then show ?case by (auto simp: signals_def)
next
  case (3 m ty states args ev tick m')
  then show ?case using signals_only_queued queueMutation_only_queued by blast
next
  case (4 m mut m')
  then show ?case using signals_only_queued prependMut_only_queued by blast
next
  case (7 m called ts)
  show ?case by (rule setActiveStates_signals)
next
  case (16 m chs)
  show ?case using close_fold [of "m_closed m" chs] by (auto simp: signals_def close_chans_def)
qed (simp_all add: signals_def shift_queue_def deadline_reset_def Let_def)

text \<open>The configuration: what no mutation and no handler changes.\<close>

definition same_config :: "Machine \<Rightarrow> Machine \<Rightarrow> bool" where
  "same_config m m' = (m_id m' = m_id m \<and> m_schema m' = m_schema m \<and> m_stateNames m' = m_stateNames m
     \<and> m_topology m' = m_topology m \<and> m_QueueLimit m' = m_QueueLimit m
     \<and> m_HandlerBackoff m' = m_HandlerBackoff m \<and> m_PanicToException m' = m_PanicToException m
     \<and> m_disposing m' = m_disposing m \<and> m_disposed m' = m_disposed m
     \<and> m_machineTick m' = m_machineTick m)"

lemma same_config_only_queued: "only_queued m m' \<Longrightarrow> same_config m m'"
proof -
  assume "only_queued m m'"
  then obtain q l p k e where 1: "m' = m\<lparr>m_queue := q, m_queueLen := l, m_queueTicksPending := p,
      m_queueToken := k, m_err := e\<rparr>" unfolding only_queued_def by blast
  show ?thesis unfolding 1 by (simp add: same_config_def)
qed

interpretation config: machine_steps same_config
proof (unfold_locales, goal_cases)
  case (3 m ty states args ev tick m')
  then show ?case using same_config_only_queued queueMutation_only_queued by blast
next
  case (4 m mut m')
  then show ?case using same_config_only_queued prependMut_only_queued by blast
next
  case (7 m called ts)
  show ?case by (simp add: same_config_def) (simp add: setActiveStates_def Let_def split: prod.splits)
qed (simp_all add: same_config_def shift_queue_def deadline_reset_def close_chans_def Let_def)

text \<open>A machine without a handler loop that believes it has one.\<close>

definition loop_gone :: "Machine \<Rightarrow> bool" where
  "loop_gone m = (\<not> m_loopAlive m \<and> m_handlerLoopRunning m)"

lemma loop_gone_only_queued: "only_queued m m' \<Longrightarrow> loop_gone m' = loop_gone m"
proof -
  assume "only_queued m m'"
  then obtain q l p k e where 1: "m' = m\<lparr>m_queue := q, m_queueLen := l, m_queueTicksPending := p,
      m_queueToken := k, m_err := e\<rparr>" unfolding only_queued_def by blast
  show ?thesis unfolding 1 by (simp add: loop_gone_def)
qed

interpretation gone: machine_steps "\<lambda>m m'. loop_gone m \<longrightarrow> loop_gone m'"
proof (unfold_locales, goal_cases)
  case (3 m ty states args ev tick m')
  then show ?case using loop_gone_only_queued queueMutation_only_queued by blast
next
  case (4 m mut m')
  then show ?case using loop_gone_only_queued prependMut_only_queued by blast
next
  case (7 m called ts)
  show ?case by (simp add: loop_gone_def setActiveStates_def Let_def split: prod.splits)
qed (simp_all add: loop_gone_def shift_queue_def deadline_reset_def close_chans_def Let_def)

end
