(* ===== verification/Am_Behaviour.thy ===== *)
theory Am_Behaviour
  imports Am_Steps
begin

text \<open>
  The properties of machines that run: what holds in every state a client can reach, what the result of
  a mutation stands for, what a rejected mutation, a check and a failing handler leave behind.
\<close>

section \<open>A new machine\<close>

lemma schema_wf_new_state:
  assumes "schema_wf s" "\<not> ghas s n"
  shows "schema_wf (gput n (State_zero\<lparr>Multi := True\<rparr>) s)"
proof -
  let ?z = "State_zero\<lparr>Multi := True\<rparr>"
  have sub: "set (gkeys s) \<subseteq> set (gkeys (gput n ?z s))" by auto
  have "state_wf (gkeys (gput n ?z s)) k st" if "gget (gput n ?z s) k = Some st" for k st
  proof (cases "k = n")
    case True
    with that have "st = ?z" by simp
    then show ?thesis by (simp add: state_wf_def State_zero_def)
  next
    case False
    with that assms(1) have "state_wf (gkeys s) k st" by (simp add: schema_wf_get)
    with sub show ?thesis unfolding state_wf_def by blast
  qed
  with assms(1) show ?thesis unfolding schema_wf_get by blast
qed

lemma clock_zero: "ggetd 0 (map (\<lambda>(name, _). (name, 0)) sch) s = (0 :: uint64)"
  by (induction sch) (auto simp: ggetd_def gget_def)

lemma newMachine_fields:
  "m_activeStates (newMachine schema opts rid) = []"
  "m_schema (newMachine schema opts rid) = (let parsed = fst (Schema_Parse schema) in
     if ghas parsed StateException then parsed else gput StateException (State_zero\<lparr>Multi := True\<rparr>) parsed)"
  "ggetd 0 (m_clock (newMachine schema opts rid)) s = 0"
  "m_queue (newMachine schema opts rid) = []" "m_queueLen (newMachine schema opts rid) = 0"
  "m_disposing (newMachine schema opts rid) = False" "m_disposed (newMachine schema opts rid) = False"
  "m_closed (newMachine schema opts rid) = []" "m_queueProcessing (newMachine schema opts rid) = False"
  by (simp_all add: newMachine_def mach_NewSchema_def Let_def clock_zero)

lemma newMachine_inv:
  assumes "gmap_wf schema" "list_all (\<lambda>(n, st). state_pre (gkeys schema) st) schema" "[] \<notin> set (gkeys schema)"
  shows "mach_inv (newMachine schema opts rid)"
proof -
  let ?p = "fst (Schema_Parse schema)"
  have wf: "schema_wf ?p" by (rule Schema_Parse_schema_wf [OF assms(1,2)])
  have k: "gkeys ?p = gkeys schema" using assms(1) by (rule Schema_Parse_get)
  have "StateException \<noteq> []" by (simp add: StateException_def)
  with wf k assms(3) schema_wf_new_state [OF wf, of StateException]
  show ?thesis
    unfolding mach_inv_def clock_inv_def machine_wf_def newMachine_fields Let_def
    by (simp add: IsActiveTick_def)
qed

section \<open>A machine with a failing handler\<close>

definition ex_env :: Env where
  "ex_env = \<lparr>en_handler = (\<lambda>m n method args.
       if method = ''CState'' then ([], HPanic ''boom'') else if method = ''DEnter'' then ([], HRet False)
       else if method = ''FState'' then ([CallAdd [''E''] []], HRet True) else ([], HRet True)),
     en_eval = (\<lambda>_. []), en_expired = (\<lambda>_. False), en_query = (\<lambda>_ _. False)\<rparr>"

definition ex_opts :: Opts where
  "ex_opts = \<lparr>op_Id = ''m'', op_QueueLimit = 0, op_DontPanicToException = False, op_HandlerBackoff = 0,
     op_Tags = [], op_ParentId = []\<rparr>"

definition ex_handler :: handler where
  "ex_handler = \<lparr>h_id = [], h_num = 0, h_isMap = False, h_StatePrefix = [],
     h_methods = [''CState'', ''DEnter'', ''FState''], h_negotiations = [], h_finals = []\<rparr>"

definition ex_mach :: Machine where
  "ex_mach = newMachine ex_schema ex_opts ''id''"

fun res_ok :: "('a \<Rightarrow> bool) \<Rightarrow> 'a res \<Rightarrow> bool" where
  "res_ok Q (Inl fault) = False"
| "res_ok Q (Inr a) = Q a"

lemma res_okE: "res_ok Q x \<Longrightarrow> \<exists>a. x = Inr a \<and> Q a"
  by (cases x) auto

definition ex_calls :: "api_call list" where
  "ex_calls = [ApiBind ex_handler ''h'', ApiAdd [''C''] [], ApiAdd [''D''] [], ApiAdd [''F''] []]"

lemma ex_run: "res_ok (\<lambda>m. m_activeStates m = [''E'', ''F'', ''Exception'']) (api_runs ex_env 9 ex_mach ex_calls)"
  by code_simp

section \<open>The life of a machine\<close>

text \<open>The invariant of the clock without the condition that the machine is not being disposed.\<close>

definition life_inv :: "Machine \<Rightarrow> bool" where
  "life_inv m = (clock_inv m \<and> schema_wf (m_schema m) \<and> [] \<notin> set (gkeys (m_schema m)))"

lemma life_inv_same:
  "m_activeStates m' = m_activeStates m \<Longrightarrow> m_clock m' = m_clock m \<Longrightarrow> m_schema m' = m_schema m \<Longrightarrow> life_inv m' = life_inv m"
  by (simp add: life_inv_def clock_inv_def)

lemma mach_inv_life: "mach_inv m \<longleftrightarrow> life_inv m \<and> \<not> m_disposing m"
  by (auto simp: mach_inv_def life_inv_def machine_wf_def)

lemma only_queued_life: "only_queued m m' \<Longrightarrow> life_inv m' = life_inv m"
  using only_queued_fields [of m m'] life_inv_same [of m' m] by simp

interpretation life: queue_invariant life_inv "\<lambda>_. True"
proof (unfold_locales, goal_cases)
  case (1 m ty states args ev tick m')
  then show ?case using only_queued_life queueMutation_only_queued by blast
next
  case (2 m mut m')
  then show ?case using only_queued_life prependMut_only_queued by blast
next
  case (7 m mut rest env res m')
  then show ?case
    using run_mutation_inv [of env mut "shift_queue m mut rest"] life_inv_same [of "shift_queue m mut rest" m] by (simp add: mach_inv_life)
qed (simp_all add: life_inv_def clock_inv_def)

text \<open>What \<open>New\<close> and \<open>SetSchema\<close> are given: named states whose relations are lists without repetitions.\<close>

definition schema_in :: "Schema \<Rightarrow> bool" where
  "schema_in s = (gmap_wf s \<and> list_all (\<lambda>(n, st). state_pre (gkeys s) st) s \<and> [] \<notin> set (gkeys s))"

text \<open>One step in the life of a machine: a call, with whatever handlers; a schema that keeps the known names, also when
  it is refused; an import without error of one tick for each of the machine's states; the disposal.\<close>

inductive life_step :: "Machine \<Rightarrow> Machine \<Rightarrow> bool" where
  life_call: "api_run env fuel m c = Inr (r, m') \<Longrightarrow> life_step m m'"
| life_schema: "SetSchema m newSchema names = (err, m') \<Longrightarrow> schema_in newSchema \<Longrightarrow>
    set (gkeys (m_schema m)) \<subseteq> set (gkeys newSchema) \<Longrightarrow> life_step m m'"
| life_import: "Import m data = Inr (None, m') \<Longrightarrow> distinct (se_StateNames data) \<Longrightarrow>
    length (se_Time data) = length (se_StateNames data) \<Longrightarrow> set (se_StateNames data) = set (gkeys (m_schema m)) \<Longrightarrow> life_step m m'"
| life_dispose: "Dispose env fuel parentAlive m = Inr m' \<Longrightarrow> life_step m m'"
| life_force: "life_step m (DisposeForce m)"

lemma doDispose_life [simp]: "life_inv (doDispose b m) = life_inv m"
  by (rule life_inv_same) (auto simp: doDispose_def close_chans_def Let_def split: prod.splits)

lemma SetSchema_life:
  assumes "SetSchema m newSchema names = (err, m')" "schema_in newSchema" "set (gkeys (m_schema m)) \<subseteq> set (gkeys newSchema)" "life_inv m"
  shows "life_inv m'"
proof -
  let ?p = "fst (Schema_Parse newSchema)"
  have pre: "gmap_wf newSchema" "list_all (\<lambda>(n, st). state_pre (gkeys newSchema) st) newSchema" "[] \<notin> set (gkeys newSchema)"
    using assms(2) by (simp_all add: schema_in_def)
  have "schema_wf ?p" "gkeys ?p = gkeys newSchema"
    using Schema_Parse_schema_wf [OF pre(1,2)] Schema_Parse_get(1) [OF pre(1)] by auto
  with pre(3) assms(3,4) have new: "life_inv (m\<lparr>m_schema := ?p\<rparr>)" by (auto simp: life_inv_def clock_inv_def)
  have "m' = m \<or> m_activeStates m' = m_activeStates m \<and> m_clock m' = m_clock m \<and> m_schema m' = ?p"
    using assms(1) by (auto simp: SetSchema_def verifyStates_def mach_NewSchema_def Let_def split: if_splits prod.splits)
  with assms(4) life_inv_same [of m' "m\<lparr>m_schema := ?p\<rparr>"] new show ?thesis by auto
qed

lemma import_loop_known:
  "import_loop names ticks states ac = Inr (None, x) \<Longrightarrow> length ticks = length states \<Longrightarrow> set states \<subseteq> set names"
  by (induction names ticks states ac rule: import_loop.induct) (auto split: if_splits)

lemma Import_life:
  assumes "Import m data = Inr (None, m')" "distinct (se_StateNames data)" "length (se_Time data) = length (se_StateNames data)"
    "set (se_StateNames data) = set (gkeys (m_schema m))" "life_inv m"
  shows "life_inv m'"
proof -
  let ?N = "se_StateNames data" and ?z = "zip (se_StateNames data) (se_Time data)"
  obtain act clock where l: "import_loop (m_stateNames m) (se_Time data) ?N ([], m_clock m) = Inr (None, act, clock)"
    and m': "m_activeStates m' = act" "m_clock m' = clock" "m_schema m' = m_schema m"
    using assms(1) by (auto simp: Import_def Let_def split: if_splits sum.splits option.splits)
  have "set ?N \<subseteq> set (m_stateNames m)" using import_loop_known [OF l] assms(3) by simp
  from import_loop_exact [OF this assms(3,2), of "[]" "m_clock m"] l
  have act: "act = map fst (filter (\<lambda>(s, t). IsActiveTick t) ?z)"
    and clock: "\<And>s. ggetd 0 clock s = (case map_of ?z s of Some t \<Rightarrow> t | None \<Rightarrow> ggetd 0 (m_clock m) s)" by auto
  have dist: "distinct (map fst ?z)" and dom: "fst ` set ?z = set ?N" using assms(2,3) by (simp_all flip: set_map)
  have "s \<in> set act \<longleftrightarrow> IsActiveTick (ggetd 0 clock s)" for s
  proof (cases "map_of ?z s")
    case None
    then have "s \<notin> set (gkeys (m_schema m))" using dom assms(4) by (simp add: map_of_eq_None_iff)
    with assms(5) have "\<not> IsActiveTick (ggetd 0 (m_clock m) s)" by (auto simp: life_inv_def clock_inv_def)
    moreover have "s \<notin> set act" using None unfolding act by (auto simp: map_of_eq_None_iff image_iff)
    moreover have "ggetd 0 clock s = ggetd 0 (m_clock m) s" using None by (simp add: clock)
    ultimately show ?thesis by simp
  next
    case (Some t)
    then have "(s, t) \<in> set ?z" by (rule map_of_SomeD)
    moreover have "t' = t" if "(s, t') \<in> set ?z" for t' using eq_key_imp_eq_value [OF dist that] calculation by simp
    moreover have "s \<in> set act \<longleftrightarrow> (\<exists>t'. (s, t') \<in> set ?z \<and> IsActiveTick t')" unfolding act by force
    ultimately have "s \<in> set act \<longleftrightarrow> IsActiveTick t" by metis
    with Some show ?thesis by (simp add: clock)
  qed
  moreover have "distinct act" unfolding act by (rule distinct_map_filter) (rule dist)
  moreover have "set act \<subseteq> set ?N" unfolding act using dom by auto
  ultimately show ?thesis using assms(4,5) by (simp add: life_inv_def clock_inv_def m')
qed

lemma life_step_inv: "life_step m m' \<Longrightarrow> life_inv m \<Longrightarrow> life_inv m'"
proof (induction rule: life_step.induct)
  case (life_call env fuel m c r m')
  then show ?case using life.api by blast
next
  case (life_schema m newSchema names err m')
  then show ?case using SetSchema_life by blast
next
  case (life_import m data m')
  then show ?case using Import_life by blast
next
  case (life_dispose env fuel parentAlive m m')
  then show ?case
    using life.processing [of _ False] life.methods(2) [OF life_dispose.prems]
    by (auto simp: Dispose_def mach_Remove1_def split: sum.splits if_splits)
next
  case (life_force m)
  then show ?case by (simp add: DisposeForce_def)
qed

lemma api_runs_life: "api_runs env fuel m cs = Inr m' \<Longrightarrow> life_step\<^sup>*\<^sup>* m m'"
  by (induction env fuel m cs rule: api_runs.induct)
    (auto split: sum.splits dest: life_call intro: converse_rtranclp_into_rtranclp)

section \<open>Reachable machines\<close>

text \<open>C1. In every machine that can be reached from a new one by calls of its mutation, error, check, handler and
  subscription methods with any handlers (handlers that veto, panic, time out or queue further mutations included), by
  \<open>SetSchema\<close> with schemas that keep the known names, by \<open>Import\<close> without error of a tick for each of its states, and by
  disposal, in any order, the active states are distinct defined states, and a state is active exactly when its tick
  is odd. The states of the schemas have names and their relations are lists without repetitions.\<close>

theorem clock_invariant:
  assumes "schema_in schema" "life_step\<^sup>*\<^sup>* (newMachine schema opts rid) m"
  shows "distinct (m_activeStates m) \<and> set (m_activeStates m) \<subseteq> set (gkeys (m_schema m))
    \<and> (\<forall>s. s \<in> set (m_activeStates m) \<longleftrightarrow> IsActiveTick (ggetd 0 (m_clock m) s))"
proof -
  have "life_inv (newMachine schema opts rid)" using newMachine_inv assms(1) by (simp add: schema_in_def mach_inv_life)
  with assms(2) have "life_inv m" by (induction rule: rtranclp_induct) (auto intro: life_step_inv)
  then show ?thesis by (simp add: life_inv_def clock_inv_def)
qed

lemma ex_schema_pre:
  "gmap_wf ex_schema" "list_all (\<lambda>(n, st). state_pre (gkeys ex_schema) st) ex_schema" "[] \<notin> set (gkeys ex_schema)"
  by code_simp+

text \<open>Calls with failing handlers, then a schema with one state more, then the disposal.\<close>

definition ex_grown :: Schema where
  "ex_grown = ex_schema @ [(''New'', State_zero), (''Exception'', State_zero)]"

definition ex_life :: "(mach_error option \<times> Machine) res" where
  "ex_life = (case api_runs ex_env 9 ex_mach ex_calls of Inl fault \<Rightarrow> Inl fault
     | Inr m \<Rightarrow> Inr (SetSchema m ex_grown (m_stateNames m @ [''New''])))"

lemma ex_grown_in: "schema_in ex_grown" "set (gkeys (m_schema ex_mach)) \<subseteq> set (gkeys ex_grown)" by code_simp+

lemma ex_life_run: "res_ok (\<lambda>(err, m). err = None \<and> m_activeStates m = [''E'', ''F'', ''Exception'']) ex_life"
  by code_simp

theorem clock_invariant_witness:
  "\<exists>m. life_step\<^sup>*\<^sup>* (newMachine ex_schema ex_opts ''id'') m \<and> m_disposed m
     \<and> m_activeStates m = [''E'', ''F'', ''Exception''] \<and> IsActiveTick (ggetd 0 (m_clock m) ''E'')
     \<and> \<not> IsActiveTick (ggetd 0 (m_clock m) ''C'')"
proof -
  obtain m1 m2 where m1: "api_runs ex_env 9 ex_mach ex_calls = Inr m1"
    and m2: "SetSchema m1 ex_grown (m_stateNames m1 @ [''New'']) = (None, m2)" "m_activeStates m2 = [''E'', ''F'', ''Exception'']"
    using res_okE [OF ex_life_run] by (auto simp: ex_life_def split: sum.splits)
  have cfg: "m_schema m1 = m_schema ex_mach" "\<not> m_disposing m1" "\<not> m_disposed m1"
    using config.queue.api_runs [OF m1, of ex_mach] config.refl [of ex_mach]
    by (simp_all add: same_config_def ex_mach_def newMachine_fields)
  have d: "\<not> m_disposing m2" "\<not> m_disposed m2"
    using m2(1) cfg(2,3) by (auto simp: SetSchema_def verifyStates_def mach_NewSchema_def Let_def split: if_splits prod.splits)
  let ?m = "DisposeForce m2"
  have "life_step m1 m2" using life_schema [OF m2(1) ex_grown_in(1)] ex_grown_in(2) cfg(1) by simp
  with api_runs_life [OF m1] life_force have r: "life_step\<^sup>*\<^sup>* (newMachine ex_schema ex_opts ''id'') ?m"
    by (metis ex_mach_def rtranclp.rtrancl_into_rtrancl)
  have f: "m_disposed ?m" "m_activeStates ?m = [''E'', ''F'', ''Exception'']"
    using d m2(2) by (simp_all add: DisposeForce_def doDispose_def Let_def close_chans_def split: prod.splits)
  have "schema_in ex_schema" using ex_schema_pre by (simp add: schema_in_def)
  from clock_invariant [OF this r] have "s \<in> set (m_activeStates ?m) \<longleftrightarrow> IsActiveTick (ggetd 0 (m_clock ?m) s)" for s by blast
  from this [of "''E''"] this [of "''C''"] have "IsActiveTick (ggetd 0 (m_clock ?m) ''E'')"
    "\<not> IsActiveTick (ggetd 0 (m_clock ?m) ''C'')" unfolding f(2) by simp_all
  with r f show ?thesis by blast
qed

text \<open>An \<open>Import\<close> that meets an unknown state first: it fails, but the active states are gone and the ticks are not. A
  machine with an active state is out of step with its clock afterwards.\<close>

theorem failed_import_breaks_clock:
  assumes "m_id m = se_ID data" "length (m_schema m) = length (se_StateNames data)"
    "se_Time data = v # ticks" "se_StateNames data = state # states" "state \<notin> set (m_stateNames m)"
    "clock_inv m" "m_activeStates m \<noteq> []"
  shows "\<exists>m'. Import m data = Inr (Some (ErrUnknown state), m') \<and> \<not> clock_inv m'"
proof -
  let ?m = "m\<lparr>m_activeStates := [], m_clock := m_clock m\<rparr>"
  have "Import m data = Inr (Some (ErrUnknown state), ?m)" using assms(1-5) by (simp add: Import_def)
  moreover obtain s where "s \<in> set (m_activeStates m)" using assms(7) by (cases "m_activeStates m") auto
  then have "\<not> clock_inv ?m" using assms(6) by (auto simp: clock_inv_def)
  ultimately show ?thesis by blast
qed

text \<open>C39. The counter \<open>queueLen\<close> that \<open>QueueLen\<close> and the head of \<open>processQueue\<close> read is the length of the queue modulo \<open>2^32\<close>
  in every machine reached from a new one by calls of its mutation, error, check, handler and subscription methods with
  any handlers, whatever these queue, prepend, take or drop after a handler deadline.\<close>

theorem queueLen_is_length:
  assumes "api_runs env fuel (newMachine schema opts rid) calls = Inr m"
  shows "m_queueLen m = of_nat (length (m_queue m))"
  using queue_len.queue.api_runs [OF assms, of "newMachine schema opts rid"]
  by (simp add: queueLen_ok_def newMachine_fields)

theorem queueLen_is_length_witness:
  "\<exists>m. api_runs ex_env 9 (newMachine ex_schema ex_opts ''id'') ex_calls = Inr m
     \<and> m_queueLen m = of_nat (length (m_queue m))"
proof -
  obtain m where m: "api_runs ex_env 9 (newMachine ex_schema ex_opts ''id'') ex_calls = Inr m"
    using res_okE [OF ex_run] by (auto simp: ex_mach_def)
  from queueLen_is_length [OF m] m show ?thesis by blast
qed

text \<open>No call closes a channel twice or takes back a signal: the closed channels, the cancelled
  contexts and the answers to checks only grow, and the closed channels stay distinct.\<close>

theorem signals_only_grow:
  assumes "api_runs env fuel m calls = Inr m'" "distinct (m_closed m)"
  shows "(\<exists>xs. m_closed m' = m_closed m @ xs) \<and> distinct (m_closed m')
    \<and> (\<exists>xs. m_canceled m' = m_canceled m @ xs) \<and> (\<exists>xs. m_checks m' = m_checks m @ xs)"
  using signalled.queue.api_runs [OF assms(1), of m] signalled.refl [of m] assms(2) by (simp add: signals_def)

definition ex_wait_calls :: "api_call list" where
  "ex_wait_calls = [ApiWhen [''F''] None, ApiNewStateCtx ''F'', ApiAdd [''F''] []]"

lemma ex_wait_run: "res_ok (\<lambda>m. m_closed m = [1] \<and> m_canceled m = [2]) (api_runs ex_env 9 ex_mach ex_wait_calls)"
  by code_simp

theorem signals_only_grow_witness:
  "\<exists>m. api_runs ex_env 9 ex_mach ex_wait_calls = Inr m \<and> m_closed m = [1] \<and> m_canceled m = [2] \<and> distinct (m_closed m)"
proof -
  obtain m where m: "api_runs ex_env 9 ex_mach ex_wait_calls = Inr m" "m_closed m = [1]" "m_canceled m = [2]"
    using res_okE [OF ex_wait_run] by auto
  have "distinct (m_closed ex_mach)" by (simp add: ex_mach_def newMachine_fields)
  from signals_only_grow [OF m(1) this] m show ?thesis by blast
qed

text \<open>Mutations, handlers and subscriptions never change the schema, the state names, the topology, the
  limits, the panic policy or the disposal flags of a machine.\<close>

theorem configuration_constant:
  assumes "api_runs env fuel m calls = Inr m'"
  shows "m_schema m' = m_schema m \<and> m_stateNames m' = m_stateNames m \<and> m_topology m' = m_topology m
    \<and> m_QueueLimit m' = m_QueueLimit m \<and> m_HandlerBackoff m' = m_HandlerBackoff m
    \<and> m_PanicToException m' = m_PanicToException m
    \<and> m_disposing m' = m_disposing m \<and> m_disposed m' = m_disposed m \<and> m_id m' = m_id m"
  using config.queue.api_runs [OF assms, of m] config.refl [of m] by (simp add: same_config_def)

theorem configuration_constant_witness:
  "\<exists>m. api_runs ex_env 9 ex_mach ex_calls = Inr m \<and> m_schema m = m_schema ex_mach
     \<and> m_stateNames m = m_stateNames ex_mach"
  using res_okE [OF ex_run] configuration_constant [of ex_env 9 ex_mach ex_calls] by blast

section \<open>One mutation\<close>

lemma setupAccepted_called:
  assumes "setupAccepted names t = Inr t'" "tx_IsAccepted t'" "tx_Type t \<noteq> MutationRemove" "\<not> tx_IsAuto t"
    "\<not> mu_IsCheck (tx_Mutation t)" "tx_CalledStates names t = Inr called"
  shows "set called \<subseteq> set (tx_TargetStates names t)"
proof -
  have "StatesDiff called (tx_TargetStates names t) = []"
    using assms by (auto simp: setupAccepted_def Let_def split: if_splits)
  then show ?thesis by (simp add: filter_empty_conv StatesDiff_def subset_iff slicesFilter_filter)
qed

lemma newTransition_called:
  assumes "newTransition m mut = Inr m1" "tx_IsAccepted (cur m1)" "mu_Type mut \<noteq> MutationRemove"
    "\<not> mu_IsAuto mut" "\<not> mu_IsCheck mut"
    "tx_CalledStates (m_stateNames m1) (cur m1) = Inr called"
  shows "set called \<subseteq> set (tgt m1)"
proof -
  from assms(1) obtain c ts t1 t where c: "tx_CalledStates (m_stateNames m) (initTransition m mut) = Inr c"
    and t1: "\<exists>tAfter. predict_time m mut c ts = Inr tAfter \<and>
       setupAccepted (m_stateNames m) ((initTransition m mut)\<lparr>tx_TimeAfter := tAfter,
         tx_TargetIndexes := mach_Index m ts, tx_cacheTargetStates := Some ts\<rparr>) = Inr t1"
    and t: "if tx_IsAccepted t1 then setupExitEnter m t1 = Inr t else t = t1"
    and m1: "m1 = m\<lparr>m_t := Some t, m_nextTx := m_nextTx m + 1, m_rrIndex := m_stateNames m\<rparr>"
    by (rule newTransition_cases)
  have t': "tx_IsAccepted t1 \<and> tx_cacheTargetStates t = tx_cacheTargetStates t1 \<and> tx_Mutation t = tx_Mutation t1"
    using t assms(2) m1 by (auto simp: cur_def setupExitEnter_def Let_def split: if_splits sum.splits)
  from t1 obtain ta where sa: "setupAccepted (m_stateNames m) ((initTransition m mut)\<lparr>tx_TimeAfter := ta,
         tx_TargetIndexes := mach_Index m ts, tx_cacheTargetStates := Some ts\<rparr>) = Inr t1" by blast
  have mut: "tx_Mutation (initTransition m mut) = mut" by (simp add: initTransition_def)
  have "set c \<subseteq> set ts"
    using setupAccepted_called [OF sa, of c] t' assms(3-5) c
    by (simp add: mut tx_Type_def tx_IsAuto_def tx_CalledStates_def tx_TargetStates_def cong: option.case_cong)
  moreover have "tgt m1 = ts" "called = c"
    using t' setupAccepted_same [OF sa] assms(6) c
    by (simp_all add: m1 tgt_def cur_def tx_TargetStates_def tx_CalledStates_def mut cong: option.case_cong)
  ultimately show ?thesis by simp
qed

text \<open>The states a mutation calls, as its transition sees them.\<close>

definition mut_called :: "Machine \<Rightarrow> Mutation \<Rightarrow> S res" where
  "mut_called m mut = tx_CalledStates (m_stateNames m) (initTransition m mut)"

text \<open>C3. A mutation that reports \<open>Executed\<close> was executed: after an \<open>Add\<close> or \<open>Set\<close> every called state is
  active, after a \<open>Remove\<close> none is. (Auto mutations may be accepted in part, checks execute nothing, and
  a mutation whose context has expired reports \<open>Executed\<close> without running.)\<close>

theorem Executed_means_executed:
  assumes "mach_inv m" "run_mutation env mut m = Inr (Some Executed, m')"
    and "\<not> mu_IsAuto mut" "\<not> mu_IsCheck mut" "\<not> ctx_expired (en_expired env) (mu_ctx mut)"
  shows "\<exists>called. mut_called m mut = Inr called \<and>
    (if mu_Type mut = MutationRemove then set called \<inter> set (m_activeStates m') = {}
     else set called \<subseteq> set (m_activeStates m'))"
  using assms(2)
proof (cases rule: run_mutation_cases)
  case (tx m1 r m2 m3)
  have w: "clock_inv m" "machine_wf m" using assms(1) by (simp_all add: mach_inv_def)
  note n = newTransition_facts [OF tx(1) w]
  note t = run_mutation_tx [OF tx(1,2,4,5) assms(1)]
  have e: "emitEvents env m1 = Inr (Executed, m2)" using tx(2,3) by simp
  have f: "\<not> mu_IsCheck (tx_Mutation (cur m1))" "\<not> tx_IsAuto (cur m1)" "tx_Type (cur m1) = mu_Type mut"
    using n(2) assms(3,4) by (simp_all add: tx_IsAuto_def tx_Type_def)
  from emitEvents_Executed [OF e n(1) f(1,2)] obtain called where acc: "tx_IsAccepted (cur m1)"
    and c: "tx_CalledStates (m_stateNames m1) (cur m1) = Inr called"
    and r: "if tx_Type (cur m1) = MutationRemove then set called \<inter> set (m_activeStates m2) = {}
      else set (tgt m1) \<subseteq> set (m_activeStates m2)" by blast
  have names: "m_stateNames m1 = m_stateNames m" using n(4) by auto
  have "mut_called m mut = Inr called"
    using c n(2) unfolding mut_called_def names
    by (simp add: tx_CalledStates_def initTransition_def cong: option.case_cong)
  moreover have "set called \<subseteq> set (tgt m1)" if "mu_Type mut \<noteq> MutationRemove"
    by (rule newTransition_called [OF tx(1) acc that assms(3,4) c])
  moreover have "set called \<inter> set (m_activeStates m') = {}" if "mu_Type mut = MutationRemove"
    using r t(5) f(3) that by simp
  moreover have "set (tgt m1) \<subseteq> set (m_activeStates m')" if "mu_Type mut \<noteq> MutationRemove"
    using r t(5) f(3) that by simp
  ultimately show ?thesis by (metis subset_trans)
qed (use assms in simp_all)

definition ex_add :: "S \<Rightarrow> Mutation" where
  "ex_add states = Mutation_zero\<lparr>mu_Type := MutationAdd, mu_Called := mach_Index ex_mach states\<rparr>"

lemma ex_mach_inv: "mach_inv ex_mach"
  unfolding ex_mach_def by (rule newMachine_inv [OF ex_schema_pre])

theorem Executed_means_executed_witness:
  "\<exists>m'. run_mutation ex_env (ex_add [''C'', ''A'']) ex_mach = Inr (Some Executed, m')
     \<and> {''A'', ''C''} \<subseteq> set (m_activeStates m')"
proof -
  have "res_ok (\<lambda>(r, m). r = Some Executed) (run_mutation ex_env (ex_add [''C'', ''A'']) ex_mach)" by code_simp
  then obtain m' where m': "run_mutation ex_env (ex_add [''C'', ''A'']) ex_mach = Inr (Some Executed, m')"
    using res_okE by fastforce
  have h: "\<not> mu_IsAuto (ex_add [''C'', ''A''])" "\<not> mu_IsCheck (ex_add [''C'', ''A''])"
    "\<not> ctx_expired (en_expired ex_env) (mu_ctx (ex_add [''C'', ''A'']))" by code_simp+
  have "mut_called ex_mach (ex_add [''C'', ''A'']) = Inr [''C'', ''A'']"
    "mu_Type (ex_add [''C'', ''A'']) \<noteq> MutationRemove" by code_simp+
  with Executed_means_executed [OF ex_mach_inv m' h] m' show ?thesis by auto
qed

text \<open>C4. A mutation that is turned down changes nothing: when the resolver rejects it or a negotiation
  handler vetoes it, the result is \<open>Canceled\<close> and the active states and the clock are untouched, whatever
  the handlers of the negotiation did.\<close>

theorem rejected_changes_nothing:
  assumes "mach_inv m" "newTransition m mut = Inr m1"
    and "negotiate env (if tx_IsAccepted (cur m1) then Executed else Canceled) m1 = Inr (Canceled, m2)"
    and "emitEvents env m1 = Inr (r, m')"
  shows "r = Canceled \<and> m_activeStates m' = m_activeStates m \<and> m_clock m' = m_clock m"
proof -
  have w: "clock_inv m" "machine_wf m" using assms(1) by (simp_all add: mach_inv_def)
  note n = newTransition_facts [OF assms(2) w]
  from n(4) have "m_activeStates m1 = m_activeStates m" "m_clock m1 = m_clock m" by auto
  then show ?thesis using emitEvents_facts(4) [OF assms(4) n(1) assms(3)] by (simp add: unchanged_def)
qed

definition ex_bound :: Machine where
  "ex_bound = ex_mach\<lparr>m_handlers := [ex_handler], m_handlerLoopRunning := True, m_loopAlive := True\<rparr>"

lemma ex_bound_inv: "mach_inv ex_bound"
  using ex_mach_inv mach_inv_same [of ex_bound ex_mach] by (simp add: ex_bound_def)

theorem rejected_changes_nothing_witness:
  "\<exists>m1 r m'. newTransition ex_bound (ex_add [''D'']) = Inr m1 \<and> emitEvents ex_env m1 = Inr (r, m')
     \<and> r = Canceled \<and> m_activeStates m' = m_activeStates ex_bound \<and> m_clock m' = m_clock ex_bound"
proof -
  have "res_ok (\<lambda>m1. res_ok (\<lambda>(r, m2). r = Canceled)
        (negotiate ex_env (if tx_IsAccepted (cur m1) then Executed else Canceled) m1)
      \<and> res_ok (\<lambda>_. True) (emitEvents ex_env m1)) (newTransition ex_bound (ex_add [''D'']))" by code_simp
  then obtain m1 m2 r m' where m1: "newTransition ex_bound (ex_add [''D'']) = Inr m1"
    and g: "negotiate ex_env (if tx_IsAccepted (cur m1) then Executed else Canceled) m1 = Inr (Canceled, m2)"
    and e: "emitEvents ex_env m1 = Inr (r, m')"
    by (fastforce dest!: res_okE)
  from rejected_changes_nothing [OF ex_bound_inv m1 g e] m1 e show ?thesis by blast
qed

text \<open>C18. A check (\<open>CanAdd\<close>, \<open>CanRemove\<close>) leaves the active states and the clock alone, whatever its
  outcome and whatever the handlers do.\<close>

theorem check_changes_nothing:
  assumes "mach_inv m" "mu_IsCheck mut" "run_mutation env mut m = Inr (res, m')"
  shows "m_activeStates m' = m_activeStates m \<and> m_clock m' = m_clock m"
  using assms(3)
proof (cases rule: run_mutation_cases)
  case (eval f)
  then show ?thesis using only_queued_fields [OF nested_calls_only_queued] by metis
next
  case (tx m1 r m2 m3)
  have w: "clock_inv m" "machine_wf m" using assms(1) by (simp_all add: mach_inv_def)
  note n = newTransition_facts [OF tx(1) w]
  note t = run_mutation_tx [OF tx(1,2,4,5) assms(1)]
  from emitEvents_facts(3) [OF tx(2) n(1)] n(2) assms(2) t show ?thesis by (simp add: unchanged_def)
qed simp

theorem check_changes_nothing_witness:
  "\<exists>res m'. run_mutation ex_env (check_mutation ex_mach MutationAdd [''C''] []) ex_mach = Inr (res, m')
     \<and> res = Some Executed \<and> m_activeStates m' = m_activeStates ex_mach"
proof -
  let ?c = "check_mutation ex_mach MutationAdd [''C''] []"
  have "res_ok (\<lambda>(r, m). r = Some Executed) (run_mutation ex_env ?c ex_mach)" by code_simp
  then obtain m' where m': "run_mutation ex_env ?c ex_mach = Inr (Some Executed, m')"
    using res_okE by fastforce
  have "mu_IsCheck ?c" by (simp add: check_mutation_def)
  from check_changes_nothing [OF ex_mach_inv this m'] m' show ?thesis by blast
qed

section \<open>The machine time\<close>

lemma time_inc_map:
  assumes "distinct names" "name \<in> set names"
  shows "time_inc names (map f names) name d = Inr (map (f(name := f name + d)) names)"
proof -
  let ?i = "slices_Index names name"
  have i: "0 \<le> ?i" "?i < int (length names)" "names ! nat ?i = name"
    using slices_Index_bounds [OF assms(2)] by auto
  have "(map f names)[nat ?i := f name + d] = map (f(name := f name + d)) names"
    using i assms(1) by (intro nth_equalityI) (auto simp: nth_list_update nth_eq_iff_index_eq)
  with i show ?thesis by (simp add: time_inc_def tget_def tset_def)
qed

lemma predict_targets_map:
  assumes "distinct names" "distinct ts" "set ts \<subseteq> set names"
  shows "predict_targets schema names active called ts (map f names) = Inr (map (\<lambda>s. f s +
    (if s \<in> set ts then tick_delta schema active called ts s else 0)) names)"
  using assms(2,3)
proof (induction ts arbitrary: f)
  case (Cons n ts)
  let ?d = "if n \<notin> set active then 1 else if n \<in> set called \<and> Multi (Schema_Get schema n) then 2 else 0"
  let ?f = "f(n := f n + ?d)"
  have "predict_targets schema names active called (n # ts) (map f names)
      = predict_targets schema names active called ts (map ?f names)"
    using Cons.prems time_inc_map [OF assms(1), of n] by (simp add: fun_upd_idem_iff)
  also have "\<dots> = Inr (map (\<lambda>s. ?f s + (if s \<in> set ts then tick_delta schema active called ts s else 0)) names)"
    by (rule Cons.IH) (use Cons.prems in auto)
  also have "\<dots> = Inr (map (\<lambda>s. f s +
      (if s \<in> set (n # ts) then tick_delta schema active called (n # ts) s else 0)) names)"
    using Cons.prems(1) by (auto simp: tick_delta_def)
  finally show ?case .
qed simp

lemma predict_removed_map:
  assumes "distinct names" "distinct xs" "set xs \<subseteq> set names"
  shows "predict_removed names xs (map f names) = Inr (map (\<lambda>s. f s + (if s \<in> set xs then 1 else 0)) names)"
  using assms(2,3)
proof (induction xs arbitrary: f)
  case (Cons n xs)
  then have "predict_removed names (n # xs) (map f names) = predict_removed names xs (map (f(n := f n + 1)) names)"
    using time_inc_map [OF assms(1), of n] by simp
  with Cons show ?case by (auto simp: fun_upd_def)
qed simp

lemma predict_time_eq:
  assumes "\<not> m_disposing m" "\<not> m_disposed m" "distinct (m_stateNames m)" "distinct (m_activeStates m)"
    and "set (m_activeStates m) \<subseteq> set (m_stateNames m)" "distinct ts" "set ts \<subseteq> set (m_stateNames m)"
    and "\<not> mu_IsCheck mut"
  shows "predict_time m mut called ts = Inr (mach_time (setActiveStates m called ts) None)"
proof -
  let ?f = "\<lambda>s. ggetd 0 (m_clock m) s"
  let ?d = "tick_delta (m_schema m) (m_activeStates m) called ts"
  have "predict_time m mut called ts = Inr (map (\<lambda>s. ?f s + (if s \<in> set ts then ?d s else 0)
      + (if s \<in> set (StatesDiff (m_activeStates m) ts) then 1 else 0)) (m_stateNames m))"
    using assms predict_targets_map [OF assms(3,6,7), of "m_schema m" "m_activeStates m" called ?f]
      predict_removed_map [OF assms(3), of "StatesDiff (m_activeStates m) ts"]
    by (auto simp: predict_time_def mach_time_def)
  also have "\<dots> = Inr (map (\<lambda>s. ?f s + ?d s) (m_stateNames m))"
    by (auto simp: tick_delta_def)
  finally show ?thesis
    using assms(2) by (simp add: mach_time_def setActiveStates_tick [OF assms(1,6,4)])
qed

text \<open>C15. The machine time a transition predicts before its handlers run (\<open>TimeAfter\<close>, read by \<open>newTransition\<close>'s
  callers) is the time \<open>setActiveStates\<close> produces when the targets are applied: two separate loops of the
  sources compute the same ticks, modulo \<open>2^64\<close>.\<close>

theorem predicted_time_is_applied_time:
  assumes "\<not> m_disposing m" "\<not> m_disposed m" "distinct (m_stateNames m)" "distinct (m_activeStates m)"
    and "set (m_activeStates m) \<subseteq> set (m_stateNames m)" "distinct ts" "set ts \<subseteq> set (m_stateNames m)"
    and "\<not> mu_IsCheck mut"
  shows "predict_time m mut called ts = Inr (mach_time (setActiveStates m called ts) None)"
  by (rule predict_time_eq [OF assms])

theorem predicted_time_is_applied_time_witness:
  "predict_time ex_mach (ex_add [''C'']) [''C''] [''C'', ''F'']
     = Inr (mach_time (setActiveStates ex_mach [''C''] [''C'', ''F'']) None)"
proof -
  have h: "\<not> m_disposing ex_mach" "\<not> m_disposed ex_mach" "distinct (m_stateNames ex_mach)"
    "distinct (m_activeStates ex_mach)" "set (m_activeStates ex_mach) \<subseteq> set (m_stateNames ex_mach)"
    "distinct [''C'', ''F'']" "set [''C'', ''F''] \<subseteq> set (m_stateNames ex_mach)"
    "\<not> mu_IsCheck (ex_add [''C''])"
    by code_simp+
  show ?thesis by (rule predicted_time_is_applied_time [OF h])
qed

end
