(* ===== verification/Am_Tickets.thy ===== *)
theory Am_Tickets
  imports Am_Behaviour
begin

text \<open>
  Queue ticks. A queued mutation gets a tick, and \<open>queueTick\<close> counts the ticking mutations taken so far;
  \<open>WhenQueue\<close> relies on a tick having passed exactly when its mutation was taken. The contract is stated
  for an abstract queue of tickets and implemented by \<open>queueMutation\<close>, \<open>PrependMut\<close> and the head of the
  loop in \<open>processQueue\<close>.
\<close>

section \<open>The contract\<close>

datatype q_event = Issued nat | Took "nat option" | Other

fun issued :: "q_event list \<Rightarrow> nat list" where
  "issued [] = []"
| "issued (Issued t # es) = t # issued es"
| "issued (Took x # es) = issued es"
| "issued (Other # es) = issued es"

fun served :: "q_event list \<Rightarrow> nat list" where
  "served [] = []"
| "served (Issued t # es) = served es"
| "served (Took None # es) = served es"
| "served (Took (Some t) # es) = t # served es"
| "served (Other # es) = served es"

inductive runs :: "('s \<Rightarrow> q_event \<Rightarrow> 's \<Rightarrow> bool) \<Rightarrow> 's \<Rightarrow> q_event list \<Rightarrow> 's \<Rightarrow> bool"
  for step where
  runs_nil: "runs step s [] s"
| runs_cons: "step s e s1 \<Longrightarrow> runs step s1 es s' \<Longrightarrow> runs step s (e # es) s'"

locale ticket_queue =
  fixes step :: "'s \<Rightarrow> q_event \<Rightarrow> 's \<Rightarrow> bool" and ok :: "'s \<Rightarrow> bool"
    and now :: "'s \<Rightarrow> nat" and waiting :: "'s \<Rightarrow> nat list"
  assumes ok_step: "ok s \<Longrightarrow> step s e s' \<Longrightarrow> ok s'"
    and consecutive: "ok s \<Longrightarrow> waiting s = [now s + 1 ..< now s + 1 + length (waiting s)]"
    and issue: "ok s \<Longrightarrow> step s (Issued t) s' \<Longrightarrow> now s' = now s \<and> waiting s' = waiting s @ [t]"
    and take: "ok s \<Longrightarrow> step s (Took (Some t)) s' \<Longrightarrow> now s' = now s + 1 \<and> waiting s = t # waiting s'"
    and skip: "ok s \<Longrightarrow> step s e s' \<Longrightarrow> e = Other \<or> e = Took None \<Longrightarrow> now s' = now s \<and> waiting s' = waiting s"
begin

lemma run_ok: "runs step s es s' \<Longrightarrow> ok s \<Longrightarrow> ok s'"
  by (induction rule: runs.induct) (auto dest: ok_step)

lemma step_books:
  assumes "ok s" "step s e s'"
  shows "waiting s @ issued [e] = served [e] @ waiting s' \<and> now s' = now s + length (served [e])"
proof (cases e)
  case (Took x)
  then show ?thesis using assms take [of s _ s'] skip [of s e s'] by (cases x) auto
qed (use assms issue [of s _ s'] skip [of s e s'] in auto)

lemma run_books:
  "runs step s es s' \<Longrightarrow> ok s \<Longrightarrow>
     waiting s @ issued es = served es @ waiting s' \<and> now s' = now s + length (served es)"
proof (induction rule: runs.induct)
  case (runs_cons s e s1 es s')
  have 1: "issued (e # es) = issued [e] @ issued es" "served (e # es) = served [e] @ served es"
    by (cases e; cases "case e of Took x \<Rightarrow> x | _ \<Rightarrow> None"; simp)+
  from step_books [OF runs_cons.prems runs_cons.hyps(1)]
    runs_cons.IH [OF ok_step [OF runs_cons.prems runs_cons.hyps(1)]]
  show ?case unfolding 1 by (metis (no_types, lifting) add.assoc append.assoc length_append)
qed simp

lemma served_consecutive: "runs step s es s' \<Longrightarrow> ok s \<Longrightarrow> served es = [now s + 1 ..< now s' + 1]"
proof (induction rule: runs.induct)
  case (runs_cons s e s1 es s')
  have ok1: "ok s1" by (rule ok_step [OF runs_cons.prems runs_cons.hyps(1)])
  note IH = runs_cons.IH [OF ok1] and b = run_books [OF runs_cons.hyps(2) ok1]
  show ?case
  proof (cases "\<exists>t. e = Took (Some t)")
    case True
    then obtain t where e: "e = Took (Some t)" by blast
    with take [OF runs_cons.prems, of t s1] runs_cons.hyps(1)
    have t: "now s1 = now s + 1" "waiting s = t # waiting s1" by simp_all
    with consecutive [OF runs_cons.prems] have "t = now s + 1" by (simp add: upt_rec)
    with t e IH b show ?thesis by (simp add: upt_rec)
  next
    case False
    then have "now s1 = now s" "served (e # es) = served es"
      using step_books [OF runs_cons.prems runs_cons.hyps(1)] by (cases e; cases "case e of Took x \<Rightarrow> x | _ \<Rightarrow> None"; simp)+
    with IH show ?thesis by simp
  qed
qed simp

text \<open>A ticket has passed exactly when its holder was served.\<close>

lemma ticket_passed:
  assumes "runs step s es s'" "ok s" "t \<in> set (issued es) \<union> set (waiting s)"
  shows "t \<le> now s' \<longleftrightarrow> t \<in> set (served es)"
proof -
  have "set (waiting s) \<union> set (issued es) = set (served es) \<union> set (waiting s')"
    using run_books [OF assms(1,2)] by (metis set_append)
  moreover have "\<forall>x \<in> set (waiting s'). now s' < x"
    using consecutive [OF run_ok [OF assms(1,2)]] by (metis Suc_eq_plus1 Suc_le_eq atLeastLessThan_iff set_upt)
  moreover have "\<forall>x \<in> set (served es). x \<le> now s'" using served_consecutive [OF assms(1,2)] by auto
  ultimately show ?thesis using assms(3) by (metis Un_iff not_le)
qed

lemma tickets_distinct: "runs step s es s' \<Longrightarrow> ok s \<Longrightarrow> distinct (waiting s @ issued es)"
  using run_books [of s es s'] served_consecutive [of s es s'] consecutive [OF run_ok, of s es s']
  by (metis Suc_eq_plus1 atLeastLessThan_iff distinct_append distinct_upt disjoint_iff not_less_eq set_upt
      less_Suc_eq_le not_le)

end

section \<open>The machine's queue\<close>

definition ticking :: "Mutation \<Rightarrow> bool" where
  "ticking mut = (mu_QueueTick mut > 0)"

definition tickets :: "Machine \<Rightarrow> nat list" where
  "tickets m = map (\<lambda>mut. unat (mu_QueueTick mut)) (filter ticking (m_queue m))"

definition ticket_inv :: "Machine \<Rightarrow> bool" where
  "ticket_inv m = (m_queueTicksPending m = of_nat (length (tickets m))
     \<and> tickets m = [unat (m_queueTick m) + 1 ..< unat (m_queueTick m) + 1 + length (tickets m)]
     \<and> unat (m_queueTick m) + length (tickets m) < 2 ^ 64)"

lemma ticket_inv_same:
  "tickets m' = tickets m \<Longrightarrow> m_queueTick m' = m_queueTick m \<Longrightarrow>
   m_queueTicksPending m' = m_queueTicksPending m \<Longrightarrow> ticket_inv m' = ticket_inv m"
  by (simp only: ticket_inv_def)

text \<open>The steps; a tick is issued while \<open>2^64\<close> mutations have not been queued yet. Only mutations
  without a tick are prepended here: those the machine prepends itself (\<open>recoverToErr\<close>, auto mutations)
  and new ones. \<open>PrependMut\<close> also takes a mutation that was queued and taken before, as a negotiation
  handler does that postpones the current one, and this breaks the contract: see
  \<open>postponed_ticks_twice\<close> at the end.\<close>

inductive queue_step :: "Machine \<Rightarrow> q_event \<Rightarrow> Machine \<Rightarrow> bool" where
  queued: "queueMutation m ty states args ev = Inr (tick, m') \<Longrightarrow> tick \<noteq> Executed \<Longrightarrow>
     unat (m_queueTick m) + length (tickets m) + 1 < 2 ^ 64 \<Longrightarrow> queue_step m (Issued (unat tick)) m'"
| duplicate: "queueMutation m ty states args ev = Inr (Executed, m') \<Longrightarrow> 
     unat (m_queueTick m) + length (tickets m) + 1 < 2 ^ 64 \<Longrightarrow> queue_step m Other m'"
| prepended: "prependMut m mut = Inr (Some m') \<Longrightarrow> \<not> ticking mut \<Longrightarrow> queue_step m Other m'"
| taken: "m_queue m = mut # rest \<Longrightarrow>
     queue_step m (Took (if ticking mut then Some (unat (mu_QueueTick mut)) else None)) (shift_queue m mut rest)"
| other: "m_queue m' = m_queue m \<Longrightarrow> m_queueTick m' = m_queueTick m \<Longrightarrow>
     m_queueTicksPending m' = m_queueTicksPending m \<Longrightarrow> queue_step m Other m'"

inductive_cases queue_step_IssuedE: "queue_step m (Issued t) m'"
inductive_cases queue_step_TookE: "queue_step m (Took x) m'"
inductive_cases queue_step_OtherE: "queue_step m Other m'"

lemma queueMutation_cases:
  assumes "queueMutation m ty states args ev = Inr (tick, m')"
  shows "(tick = Executed \<and> m' = m) \<or> (m_queue m' = m_queue m @ [last (m_queue m')]
    \<and> mu_QueueTick (last (m_queue m')) = m_queueTicksPending m + 1 + m_queueTick m
    \<and> tick = m_queueTicksPending m + 1 + m_queueTick m
    \<and> m_queueTick m' = m_queueTick m \<and> m_queueTicksPending m' = m_queueTicksPending m + 1)"
  using assms by (auto simp: queueMutation_def Let_def split: sum.splits if_splits)

lemma queueMutation_ticket:
  assumes "queueMutation m ty states args ev = Inr (tick, m')" "ticket_inv m"
    "unat (m_queueTick m) + length (tickets m) + 1 < 2 ^ 64"
  shows "(tick = Executed \<and> m' = m)
    \<or> (unat tick = unat (m_queueTick m) + length (tickets m) + 1 \<and> tick \<noteq> Executed
       \<and> m_queueTick m' = m_queueTick m \<and> tickets m' = tickets m @ [unat tick]
       \<and> m_queueTicksPending m' = of_nat (length (tickets m) + 1))"
proof (cases "m' = m \<and> tick = Executed")
  case False
  let ?t = "m_queueTicksPending m + 1 + m_queueTick m"
  have u: "unat ?t = unat (m_queueTick m) + length (tickets m) + 1"
  proof -
    have "?t = of_nat (unat (m_queueTick m) + length (tickets m) + 1)"
      using assms(2) by (simp add: ticket_inv_def)
    then show ?thesis using assms(3) by (simp only: unat_of_nat) (simp add: take_bit_nat_eq_self)
  qed
  then have pos: "?t \<noteq> 0" by auto
  have q: "m_queue m' = m_queue m @ [last (m_queue m')]" "mu_QueueTick (last (m_queue m')) = ?t" "tick = ?t"
    "m_queueTick m' = m_queueTick m" "m_queueTicksPending m' = m_queueTicksPending m + 1"
    using queueMutation_cases [OF assms(1)] False by blast+
  have "tickets m' = tickets m @ [unat ?t]"
    unfolding tickets_def by (subst q(1)) (use pos q(2) in \<open>simp add: ticking_def word_neq_0_conv\<close>)
  then show ?thesis using u pos q assms(2) by (simp add: ticket_inv_def Executed_def)
qed (use assms in simp)

lemma shift_queue_ticket:
  assumes "ticket_inv m" "m_queue m = mut # rest"
  shows "ticket_inv (shift_queue m mut rest)"
    "if ticking mut then tickets m = unat (mu_QueueTick mut) # tickets (shift_queue m mut rest)
       \<and> unat (m_queueTick (shift_queue m mut rest)) = unat (m_queueTick m) + 1
     else tickets m = tickets (shift_queue m mut rest)
       \<and> m_queueTick (shift_queue m mut rest) = m_queueTick m"
proof -
  let ?m = "shift_queue m mut rest"
  have t: "tickets m = (if ticking mut then [unat (mu_QueueTick mut)] else []) @ tickets ?m"
    using assms(2) by (simp add: tickets_def)
  have "ticket_inv ?m \<and> (if ticking mut then tickets m = unat (mu_QueueTick mut) # tickets ?m
       \<and> unat (m_queueTick ?m) = unat (m_queueTick m) + 1
     else tickets m = tickets ?m \<and> m_queueTick ?m = m_queueTick m)"
  proof (cases "ticking mut")
    case False
    have f: "m_queueTick ?m = m_queueTick m" "m_queueTicksPending ?m = m_queueTicksPending m"
      using False by (simp_all add: shift_queue_def Let_def ticking_def)
    have "tickets ?m = tickets m" using t False by simp
    with f assms(1) have "ticket_inv ?m" using ticket_inv_same by blast
    with f False \<open>tickets ?m = tickets m\<close> show ?thesis by simp
  next
    case True
    have l: "length (tickets m) = Suc (length (tickets ?m))" using t True by simp
    have f: "m_queueTick ?m = m_queueTick m + 1" "m_queueTicksPending ?m = m_queueTicksPending m - 1"
      using True by (simp_all add: shift_queue_def Let_def ticking_def)
    have "unat (m_queueTick m) + 1 < 2 ^ 64" using assms(1) l by (simp add: ticket_inv_def)
    then have u: "unat (m_queueTick ?m) = unat (m_queueTick m) + 1"
      unfolding f by (simp add: unat_word_ariths)
    from assms(1) l have "tickets m = [unat (m_queueTick m) + 1 ..< unat (m_queueTick m) + 1 + Suc (length (tickets ?m))]"
      unfolding ticket_inv_def by metis
    then have "tickets ?m = [unat (m_queueTick m) + 2 ..< unat (m_queueTick m) + 2 + length (tickets ?m)]"
      using t True by (simp add: upt_conv_Cons del: upt_Suc)
    then show ?thesis using t True u f l assms(1) by (simp add: ticket_inv_def)
  qed
  then show "ticket_inv ?m" "if ticking mut then tickets m = unat (mu_QueueTick mut) # tickets ?m
       \<and> unat (m_queueTick ?m) = unat (m_queueTick m) + 1
     else tickets m = tickets ?m \<and> m_queueTick ?m = m_queueTick m" by simp_all
qed

lemma queue_step_inv:
  assumes "ticket_inv m" "queue_step m e m'"
  shows "ticket_inv m'"
  using assms(2)
proof cases
  case (queued ty states args ev tick)
  from queueMutation_ticket [OF queued(2) assms(1) queued(4)] queued(3,4) assms(1)
  show ?thesis by (auto simp: ticket_inv_def)
next
  case (duplicate ty states args ev)
  from queueMutation_ticket [OF duplicate(2) assms(1) duplicate(3)] assms(1) show ?thesis by auto
next
  case (prepended mut)
  then have "tickets m' = tickets m \<and> m_queueTick m' = m_queueTick m \<and> m_queueTicksPending m' = m_queueTicksPending m"
    by (auto simp: prependMut_def Let_def tickets_def ticking_def split: sum.splits if_splits)
  with assms(1) show ?thesis using ticket_inv_same by blast
next
  case (taken mut rest)
  then show ?thesis using shift_queue_ticket [OF assms(1) taken(3)] by simp
next
  case other
  then have "tickets m' = tickets m" by (simp add: tickets_def)
  with other assms(1) show ?thesis using ticket_inv_same by blast
qed

interpretation mutations: ticket_queue queue_step ticket_inv "\<lambda>m. unat (m_queueTick m)" tickets
proof (unfold_locales, goal_cases)
  case (1 m e m')
  then show ?case by (rule queue_step_inv)
next
  case (2 m)
  then show ?case by (simp add: ticket_inv_def)
next
  case (3 m t m')
  then show ?case by (auto elim!: queue_step_IssuedE dest: queueMutation_ticket)
next
  case (4 m t m')
  then show ?case by (auto elim!: queue_step_TookE dest: shift_queue_ticket(2) split: if_splits)
next
  case (5 m e m')
  then show ?case
    by (auto elim!: queue_step_OtherE queue_step_TookE dest: queueMutation_ticket shift_queue_ticket(2)
        simp: prependMut_def tickets_def ticking_def Let_def split: if_splits sum.splits)
qed

section \<open>The property\<close>

lemma newMachine_tickets: "ticket_inv (newMachine schema opts rid)"
  by (simp add: ticket_inv_def tickets_def newMachine_def mach_NewSchema_def Let_def)

text \<open>C5. Queue ticks are tickets: over any sequence of queueing mutations, prepending mutations that have
  no queue tick yet, and taking the first one, ticking mutations are taken in the order of their ticks and
  without gaps, no tick is handed out twice, and \<open>queueTick\<close> has reached the tick of a queued mutation
  exactly when that mutation was taken (\<open>2^64\<close> ticks are not exhausted, no handler deadline drops the
  queue, and no mutation that already had its tick is prepended again).\<close>

theorem queue_ticks_contract:
  assumes "ticket_inv m" "runs queue_step m es m'"
  shows "served es = [unat (m_queueTick m) + 1 ..< unat (m_queueTick m') + 1] \<and> distinct (issued es)
    \<and> (\<forall>t \<in> set (issued es). t \<le> unat (m_queueTick m') \<longleftrightarrow> t \<in> set (served es))"
  using mutations.served_consecutive [OF assms(2,1)] mutations.tickets_distinct [OF assms(2,1)]
    mutations.ticket_passed [OF assms(2,1)]
  by (metis UnI1 distinct_append)

theorem queue_ticks_contract_witness:
  "\<exists>m2. runs queue_step ex_mach [Issued 2, Issued 3, Took (Some 2)] m2
     \<and> served [Issued 2, Issued 3, Took (Some 2)] = [2] \<and> unat (m_queueTick m2) = 2"
proof -
  have "res_ok (\<lambda>(t, m1). t = 2 \<and> res_ok (\<lambda>(u, m2). u = 3 \<and> (case m_queue m2 of [] \<Rightarrow> False | mut # rest \<Rightarrow>
        mu_QueueTick mut = 2)) (queueMutation m1 MutationAdd [''D''] [] None)
        \<and> m_queueTick m1 = 1 \<and> length (m_queue m1) = 1)
      (queueMutation ex_mach MutationAdd [''C''] [] None)" by code_simp
  then obtain m1 m2 mut rest where q: "queueMutation ex_mach MutationAdd [''C''] [] None = Inr (2, m1)"
    "queueMutation m1 MutationAdd [''D''] [] None = Inr (3, m2)" "m_queue m2 = mut # rest" "mu_QueueTick mut = 2"
    "m_queueTick m1 = 1" "length (m_queue m1) = 1"
    by (fastforce dest!: res_okE split: list.splits)
  have l: "length (tickets m) \<le> length (m_queue m)" for m by (simp add: tickets_def)
  have t0: "m_queueTick ex_mach = 1" "m_queue ex_mach = []" by code_simp+
  have "queue_step ex_mach (Issued (unat (2 :: uint64))) m1"
    by (rule queue_step.queued [OF q(1)]) (use t0 in \<open>simp_all add: Executed_def tickets_def\<close>)
  moreover have "queue_step m1 (Issued (unat (3 :: uint64))) m2"
    by (rule queue_step.queued [OF q(2)]) (use q(5,6) l [of m1] in \<open>simp_all add: Executed_def\<close>)
  moreover have "queue_step m2 (Took (if ticking mut then Some (unat (mu_QueueTick mut)) else None)) (shift_queue m2 mut rest)"
    by (rule queue_step.taken [OF q(3)])
  ultimately have r: "runs queue_step ex_mach [Issued 2, Issued 3, Took (Some 2)] (shift_queue m2 mut rest)"
    using q(4) by (auto simp: ticking_def intro!: runs.intros)
  have i: "ticket_inv ex_mach" unfolding ex_mach_def by (rule newMachine_tickets)
  from queue_ticks_contract [OF i r] t0 have "[2] = [2 ..< unat (m_queueTick (shift_queue m2 mut rest)) + 1]" by simp
  from arg_cong [OF this, of length] have "unat (m_queueTick (shift_queue m2 mut rest)) = 2" by (simp split: if_splits)
  with r show ?thesis by auto
qed

section \<open>Postponed mutations\<close>

text \<open>A mutation that has a tick already and is prepended again, as a negotiation handler does to postpone
  it, is counted a second time when it is taken: \<open>queueTick\<close> moves although no waiting ticket was served,
  so a ticket still waiting is reported as passed.\<close>

theorem postponed_ticks_twice:
  assumes "ticket_inv m" "prependMut m mut = Inr (Some m1)" "ticking mut" "tickets m = t # ts"
  shows "\<exists>mut1 m2. m_queue m1 = mut1 # m_queue m \<and> m2 = shift_queue m1 mut1 (m_queue m)
    \<and> m_queueTick m2 = m_queueTick m + 1 \<and> t \<in> set (tickets m2) \<and> t \<le> unat (m_queueTick m2)"
proof -
  obtain mut1 where q: "m_queue m1 = mut1 # m_queue m" "mu_QueueTick mut1 = mu_QueueTick mut"
    "m_queueTick m1 = m_queueTick m"
    using assms(2) by (auto simp: prependMut_def Let_def split: sum.splits if_splits)
  let ?m = "shift_queue m1 mut1 (m_queue m)"
  have f: "m_queueTick ?m = m_queueTick m + 1" "tickets ?m = tickets m"
    using q assms(3) by (simp_all add: shift_queue_def ticking_def tickets_def Let_def)
  have "t = unat (m_queueTick m) + 1" "unat (m_queueTick m) + 1 < 2 ^ 64"
    using assms(1,4) by (simp_all add: ticket_inv_def upt_conv_Cons del: upt_Suc)
  then have "t \<le> unat (m_queueTick ?m)" unfolding f by (simp add: unat_word_ariths)
  with q f assms(4) show ?thesis by auto
qed

end
