(* ===== verification/Am_Recovery.thy ===== *)
theory Am_Recovery
  imports Am_Behaviour
begin

text \<open>
  Failing handlers: how a panic becomes the state \<open>Exception\<close>, and the cases in which the machine does
  not recover as intended.
\<close>

section \<open>A panic in the negotiation\<close>

definition panics :: "Env \<Rightarrow> Machine \<Rightarrow> handler \<Rightarrow> string \<Rightarrow> A \<Rightarrow> string \<Rightarrow> Machine \<Rightarrow> bool" where
  "panics env m h method args err m1 \<longleftrightarrow>
     (\<exists>calls. en_handler env m (h_num h) method args = (calls, HPanic err) \<and> nested_calls m calls = (m1, True))"

lemma prependMut_Exception:
  assumes "\<not> m_disposing m" "StateException \<in> set (m_stateNames m)" "ghas (m_schema m) StateException"
  shows "\<exists>mut. prependMut m (exception_mutation m err)
      = Inr (Some (m\<lparr>m_queue := mut # m_queue m, m_queueLen := of_nat (length (m_queue m) + 1),
          m_queueToken := m_queueToken m + 1\<rparr>))
    \<and> mu_Type mut = MutationAdd \<and> mu_cacheCalled mut = Some [StateException] \<and> mu_Args mut = Pass [VException err]"
proof -
  let ?i = "slices_Index (m_stateNames m) StateException"
  have i: "0 \<le> ?i" "?i < int (length (m_stateNames m))" "m_stateNames m ! nat ?i = StateException"
    using slices_Index_bounds [OF assms(2)] by auto
  have trim: "strings_TrimSpace StateException = StateException" by code_simp
  have 1: "mu_Called (exception_mutation m err) = [?i]"
    using assms(1) by (simp add: exception_mutation_def mach_Index_def StatesToIndex_def trim)
  have 2: "IndexToStates (m_stateNames m) [?i] = Inr [StateException]"
    using i assms(2) by (simp add: IndexToStates_def index_name_def)
  have 3: "mach_mustParse m [StateException] = Inr [StateException]"
    using assms by (simp add: mach_mustParse_def mustParseStates_def)
  show ?thesis
    unfolding prependMut_def 1 2 sum.case 3 Let_def using assms(1)
    by (auto simp: exception_mutation_def)
qed

text \<open>C21. A panic in a negotiation handler is turned into an error state, if \<open>PanicToException\<close> is on, the state \<open>Exception\<close>
  is defined, the machine is not disposing and has a live handler loop, the event is valid and the mutation does not
  call \<open>Exception\<close> itself (see \<open>Exception_panic_hangs\<close> for that case): the handler counts as a veto, the
  transition is cancelled, the active states and the clock stay as they were, the error is recorded, a
  mutation adding \<open>Exception\<close> with that error is at the head of the queue, and a new handler loop runs.\<close>

theorem panic_becomes_Exception:
  assumes "m_loopAlive m" "event_valid m" "panics env m h method args err m1" "m_PanicToException m1"
    and "\<not> m_disposing m" "\<not> tx_latestHandlerIsFinal (cur m)"
    and "\<not> Mutation_IsCalled (tx_Mutation (cur m)) (mach_Index1 m StateException)"
    and "StateException \<in> set (m_stateNames m)" "ghas (m_schema m) StateException"
  shows "\<exists>m' mut. run_handler env m h method args = Inr ((False, False), m')
    \<and> m_activeStates m' = m_activeStates m \<and> m_clock m' = m_clock m \<and> m_err m' = Some err
    \<and> \<not> tx_IsAccepted (cur m') \<and> m_loopAlive m' \<and> m_queue m' = mut # m_queue m1
    \<and> mu_Type mut = MutationAdd \<and> mu_cacheCalled mut = Some [StateException] \<and> mu_Args mut = Pass [VException err]"
proof -
  obtain calls where c: "en_handler env m (h_num h) method args = (calls, HPanic err)"
    "nested_calls m calls = (m1, True)" using assms(3) by (auto simp: panics_def)
  note q = only_queued_fields [OF nested_calls_only_queued [OF c(2)]]
  let ?m2 = "m1\<lparr>m_loopAlive := False, m_panicCaught := True, m_err := Some err\<rparr>"
  let ?m3 = "upd_t (\<lambda>t. t\<lparr>tx_IsAccepted := False, tx_IsCompleted := True\<rparr>) ?m2"
  have cur1: "cur m1 = cur m" using q(2) by (simp add: cur_def)
  have cur2: "cur ?m2 = cur m" "cur (m1\<lparr>m_loopAlive := False, m_panicCaught := True\<rparr>) = cur m"
    using cur1 by (simp_all add: cur_def)
  have idx: "mach_Index1 (m1\<lparr>m_loopAlive := False, m_panicCaught := True\<rparr>) StateException = mach_Index1 m StateException"
    using q by (simp add: mach_Index1_def)
  obtain mut where p: "prependMut ?m3 (exception_mutation ?m3 err)
      = Inr (Some (?m3\<lparr>m_queue := mut # m_queue ?m3, m_queueLen := of_nat (length (m_queue ?m3) + 1),
          m_queueToken := m_queueToken ?m3 + 1\<rparr>))"
    and mut: "mu_Type mut = MutationAdd" "mu_cacheCalled mut = Some [StateException]" "mu_Args mut = Pass [VException err]"
    using prependMut_Exception [of ?m3 err] q assms(5,8,9) by (auto simp: upd_t_def)
  let ?m4 = "?m3\<lparr>m_queue := mut # m_queue ?m3, m_queueLen := of_nat (length (m_queue ?m3) + 1),
          m_queueToken := m_queueToken ?m3 + 1, m_loopAlive := True\<rparr>"
  have "recoverToErr (m1\<lparr>m_loopAlive := False\<rparr>) err = Inr ?m4"
    using assms(5,6,7) q p unfolding recoverToErr_def Let_def by (simp add: cur2 idx)
  then have r: "run_handler env m h method args = Inr ((False, False), ?m4)"
    using assms(1,2,4) c by (simp add: run_handler_def)
  obtain t where "m_t m = Some t" using assms(2) by (auto simp: event_valid_def split: option.splits)
  then have a: "\<not> tx_IsAccepted (cur ?m4)" using q(2) by (simp add: cur_def upd_t_def)
  show ?thesis
    by (rule exI [of _ ?m4], rule exI [of _ mut]) (use r a q mut in \<open>simp add: upd_t_def\<close>)
qed

definition ex_panic_env :: Env where
  "ex_panic_env = ex_env\<lparr>en_handler := (\<lambda>m n method args.
     if method = ''DEnter'' then ([CallAdd [''E''] []], HPanic ''boom'')
     else if method = ''ExceptionState'' then ([], HPanic ''again'')
     else ([], HRet True))\<rparr>"

definition ex_panic_handler :: handler where
  "ex_panic_handler = ex_handler\<lparr>h_methods := [''DEnter'', ''ExceptionState'', ''FEnter'']\<rparr>"

definition ex_panic_mach :: Machine where
  "ex_panic_mach = ex_mach\<lparr>m_handlers := [ex_panic_handler], m_handlerLoopRunning := True, m_loopAlive := True,
     m_t := Some (initTransition ex_mach (ex_add [''D'']))\<rparr>"

theorem panic_becomes_Exception_witness:
  "\<exists>m' mut rest. run_handler ex_panic_env ex_panic_mach ex_panic_handler ''DEnter'' [] = Inr ((False, False), m')
    \<and> m_activeStates m' = [] \<and> m_err m' = Some ''boom'' \<and> m_queue m' = mut # rest
    \<and> mu_cacheCalled mut = Some [StateException] \<and> length rest = 1"
proof -
  obtain m1 where m1: "nested_calls ex_panic_mach [CallAdd [''E''] []] = (m1, True)"
    "m_PanicToException m1 \<and> length (m_queue m1) = 1"
  proof -
    have "case nested_calls ex_panic_mach [CallAdd [''E''] []] of (m1, b) \<Rightarrow>
        b \<and> m_PanicToException m1 \<and> length (m_queue m1) = 1" by code_simp
    then show ?thesis using that by (auto split: prod.splits)
  qed
  have p: "panics ex_panic_env ex_panic_mach ex_panic_handler ''DEnter'' [] ''boom'' m1"
    unfolding panics_def using m1(1) by (intro exI [of _ "[CallAdd [''E''] []]"]) (simp add: ex_panic_env_def)
  have h: "m_loopAlive ex_panic_mach" "event_valid ex_panic_mach" "\<not> m_disposing ex_panic_mach"
    "\<not> tx_latestHandlerIsFinal (cur ex_panic_mach)"
    "\<not> Mutation_IsCalled (tx_Mutation (cur ex_panic_mach)) (mach_Index1 ex_panic_mach StateException)"
    "StateException \<in> set (m_stateNames ex_panic_mach)" "ghas (m_schema ex_panic_mach) StateException"
    "m_activeStates ex_panic_mach = []"
    by code_simp+
  from panic_becomes_Exception [OF h(1,2) p _ h(3-7)] m1(2) h(8) show ?thesis by auto
qed

section \<open>A panic while Exception is added\<close>

lemma loop_gone_deadlock:
  assumes "loop_gone m" "h \<in> set hs" "strings_HasPrefix name (h_StatePrefix h)"
    "has_method h (strings_TrimPrefix name (h_StatePrefix h))"
  shows "processHandlers_loop env hs name args m = Inl Deadlock"
  using assms(2) by (induction hs) (use assms(1,3,4) in \<open>auto simp: run_handler_def loop_gone_def\<close>)

text \<open>What the machine may do after a handler has returned: the rest of the transition, with whatever handlers, the
  subscriptions, the mutations in the queue, and every later call.\<close>

inductive goes_on :: "Machine \<Rightarrow> Machine \<Rightarrow> bool" where
  on_handler: "emitHandler env to isFinal isEnter event m = Inr (r, m') \<Longrightarrow> goes_on m m'"
| on_tx: "goes_on m (m\<lparr>m_t := t\<rparr>)"
| on_commit: "goes_on m (commit_states called m)"
| on_recover: "recoverFinalPhase m = Inr m' \<Longrightarrow> goes_on m m'"
| on_auto: "auto_phase r b m = Inr m' \<Longrightarrow> goes_on m m'"
| on_notify: "after_transition env mut m = Inr m' \<Longrightarrow> goes_on m m'"
| on_take: "m_queue m = mut # rest \<Longrightarrow> run_mutation env mut (shift_queue m mut rest) = Inr (x, m') \<Longrightarrow> goes_on m m'"
| on_end: "goes_on m (queue_end m)"
| on_call: "api_run env fuel m c = Inr (r, m') \<Longrightarrow> goes_on m m'"

lemma goes_on_gone: "goes_on m m' \<Longrightarrow> loop_gone m \<Longrightarrow> loop_gone m'"
proof (induction rule: goes_on.induct)
  case (on_take m mut rest env x m')
  then show ?case using gone.shift [OF on_take(1)] gone.mutation [OF on_take(2)] by blast
next
  case (on_end m)
  then show ?case using gone.queue.finish [of m m] by blast
next
  case (on_call env fuel m c r m')
  then show ?case using gone.queue.api [OF on_call(1), of m] by blast
next
  case on_handler
  then show ?case using gone.emit [OF on_handler(1)] by blast
next
  case on_recover
  then show ?case using gone.recoverFinal [OF on_recover(1)] by blast
next
  case on_auto
  then show ?case using gone.autos [OF on_auto(1)] by blast
next
  case on_notify
  then show ?case using gone.notified [OF on_notify(1)] by blast
next
  case on_commit
  then show ?case using gone.committed by blast
qed (simp add: loop_gone_def)

lemma goes_on_gone_star: "goes_on\<^sup>*\<^sup>* m m' \<Longrightarrow> loop_gone m \<Longrightarrow> loop_gone m'"
  by (induction rule: rtranclp_induct) (auto dest: goes_on_gone)

text \<open>C37. A panic of a handler while the mutation adds \<open>Exception\<close> itself (\<open>PanicToException\<close> on, the machine not
  disposing) leaves the machine without a handler loop for good: the goroutine of the loop has ended, and
  \<open>recoverToErr\<close> returns before it starts a new one. Whatever the machine does afterwards, within the transition and in
  all later calls, the loop is not started again, and every event for which a handler is bound waits forever.\<close>

theorem Exception_panic_hangs:
  assumes "m_loopAlive m" "m_handlerLoopRunning m" "event_valid m" "panics env m h method args err m1"
    and "m_PanicToException m1" "\<not> m_disposing m"
    and "Mutation_IsCalled (tx_Mutation (cur m)) (mach_Index1 m StateException)"
  shows "\<exists>m'. run_handler env m h method args = Inr ((False, False), m') \<and> m_handlers m' = m_handlers m \<and> loop_gone m'
    \<and> (\<forall>m2. goes_on\<^sup>*\<^sup>* m' m2 \<longrightarrow> loop_gone m2
        \<and> (\<forall>env2 name args2 h2. h2 \<in> set (m_handlers m2) \<and> strings_HasPrefix name (h_StatePrefix h2)
              \<and> has_method h2 (strings_TrimPrefix name (h_StatePrefix h2)) \<and> \<not> m_disposing m2
            \<longrightarrow> processHandlers env2 name args2 m2 = Inl Deadlock))"
proof -
  obtain calls where c: "en_handler env m (h_num h) method args = (calls, HPanic err)"
    "nested_calls m calls = (m1, True)" using assms(4) by (auto simp: panics_def)
  note o = nested_calls_only_queued [OF c(2)]
  note q = only_queued_fields [OF o]
  obtain q' l p k e where m1: "m1 = m\<lparr>m_queue := q', m_queueLen := l, m_queueTicksPending := p,
      m_queueToken := k, m_err := e\<rparr>" using o unfolding only_queued_def by blast
  let ?m = "m1\<lparr>m_loopAlive := False, m_panicCaught := True\<rparr>"
  have cur: "cur ?m = cur m" "mach_Index1 ?m StateException = mach_Index1 m StateException"
    using q by (simp_all add: cur_def mach_Index1_def)
  have "recoverToErr (m1\<lparr>m_loopAlive := False\<rparr>) err = Inr ?m"
    using assms(6,7) q unfolding recoverToErr_def Let_def by (simp add: cur)
  then have r: "run_handler env m h method args = Inr ((False, False), ?m)"
    using assms(1,3,5) c by (simp add: run_handler_def)
  have g: "loop_gone ?m" "m_handlers ?m = m_handlers m" using assms(2) by (simp_all add: m1 loop_gone_def)
  have "processHandlers env2 name args2 m2 = Inl Deadlock"
    if "goes_on\<^sup>*\<^sup>* ?m m2" "h2 \<in> set (m_handlers m2)" "strings_HasPrefix name (h_StatePrefix h2)"
      "has_method h2 (strings_TrimPrefix name (h_StatePrefix h2))" "\<not> m_disposing m2" for env2 name args2 h2 m2
    using loop_gone_deadlock [OF goes_on_gone_star [OF that(1) g(1)] that(2-4)] that(5) by (simp add: processHandlers_def)
  with r g goes_on_gone_star [OF _ g(1)] show ?thesis by (intro exI [of _ ?m]) blast
qed

definition ex_again_mach :: Machine where
  "ex_again_mach = ex_panic_mach\<lparr>m_t := Some (initTransition ex_mach (ex_add [StateException]))\<rparr>"

theorem Exception_panic_hangs_witness:
  "\<exists>m' m2. run_handler ex_panic_env ex_again_mach ex_panic_handler ''ExceptionState'' [] = Inr ((False, False), m')
     \<and> m2 = queue_end m' \<and> loop_gone m2 \<and> processHandlers ex_panic_env ''FEnter'' [] m2 = Inl Deadlock"
proof -
  have p: "panics ex_panic_env ex_again_mach ex_panic_handler ''ExceptionState'' [] ''again'' ex_again_mach"
    unfolding panics_def by (intro exI [of _ "[]"]) (simp add: ex_panic_env_def)
  have h: "m_loopAlive ex_again_mach" "m_handlerLoopRunning ex_again_mach" "event_valid ex_again_mach"
    "m_PanicToException ex_again_mach" "\<not> m_disposing ex_again_mach"
    "Mutation_IsCalled (tx_Mutation (cur ex_again_mach)) (mach_Index1 ex_again_mach StateException)"
    "m_handlers ex_again_mach = [ex_panic_handler]" "has_method ex_panic_handler ''FEnter''"
    "strings_HasPrefix ''FEnter'' (h_StatePrefix ex_panic_handler)"
    "strings_TrimPrefix ''FEnter'' (h_StatePrefix ex_panic_handler) = ''FEnter''"
    by code_simp+
  obtain m' where m': "run_handler ex_panic_env ex_again_mach ex_panic_handler ''ExceptionState'' [] = Inr ((False, False), m')"
    "m_handlers m' = [ex_panic_handler]"
    "\<forall>m2. goes_on\<^sup>*\<^sup>* m' m2 \<longrightarrow> loop_gone m2 \<and> (\<forall>env2 name args2 h2. h2 \<in> set (m_handlers m2)
       \<and> strings_HasPrefix name (h_StatePrefix h2) \<and> has_method h2 (strings_TrimPrefix name (h_StatePrefix h2))
       \<and> \<not> m_disposing m2 \<longrightarrow> processHandlers env2 name args2 m2 = Inl Deadlock)"
    using Exception_panic_hangs [OF h(1-3) p h(4-6)] h(7) by auto
  have d: "\<not> m_disposing m'" using config.handler_run [OF m'(1)] h(5) by (simp add: same_config_def)
  have "m_handlers (queue_end m') = [ex_panic_handler]"
    using m'(2) by (simp add: queue_end_def Let_def ProcessWhenQueueEnds_def close_chans_def)
  with m'(3) on_end [of m'] h(8-10) d have "loop_gone (queue_end m')"
    "processHandlers ex_panic_env ''FEnter'' [] (queue_end m') = Inl Deadlock" by auto
  with m'(1) show ?thesis by blast
qed

text \<open>The same in a whole run: \<open>DEnter\<close> and then \<open>ExceptionState\<close> panic; a later \<open>Add\<close> with an enter handler hangs.\<close>

theorem Exception_panic_run:
  "res_ok loop_gone (api_runs ex_panic_env 9 ex_mach [ApiBind ex_panic_handler ''h'', ApiAdd [''D''] []])
   \<and> api_runs ex_panic_env 9 ex_mach [ApiBind ex_panic_handler ''h'', ApiAdd [''D''] [], ApiAdd [''F''] []]
     = Inl Deadlock"
  by (rule conjI; code_simp)

text \<open>\<open>When\<close> can fire for states that are never active together: \<open>D\<close> and \<open>E\<close> remove each other, \<open>E\<close> is
  active, and adding \<open>D\<close> closes the channel of \<open>When(D, E)\<close>, because the activated states of the
  transition are counted before the deactivated ones.\<close>

theorem When_fires_for_excluded_states:
  "res_ok (\<lambda>m. m_activeStates m = [''D''] \<and> m_closed m = [1])
     (api_runs ex_env 9 ex_mach [ApiAdd [''E''] [], ApiWhen [''D'', ''E''] None, ApiAdd [''D''] []])"
  by code_simp

text \<open>\<open>WhenQueue\<close> does not fire for a mutation that is cancelled: subscriptions are processed only for
  accepted transitions. After the rejected \<open>Add(A)\<close> (its required \<open>C\<close> is missing) \<open>queueTick\<close> has reached the
  awaited 2 and the queue is empty, but the channel is open; for the accepted \<open>Add(C)\<close> it is closed.\<close>

theorem WhenQueue_misses_canceled:
  "res_ok (\<lambda>m. m_queueTick m = 2 \<and> m_queue m = [] \<and> m_closed m = [])
     (api_runs ex_env 9 ex_mach [ApiWhenQueue 2, ApiAdd [''A''] []])
   \<and> res_ok (\<lambda>m. m_queueTick m = 2 \<and> m_queue m = [] \<and> m_closed m = [1])
     (api_runs ex_env 9 ex_mach [ApiWhenQueue 2, ApiAdd [''C''] []])"
  by (rule conjI; code_simp)

section \<open>Final handlers\<close>

text \<open>\<open>Mu\<close> is a multi state, \<open>Au\<close> an auto state that removes \<open>Old\<close>.\<close>

definition ex2_schema :: Schema where
  "ex2_schema = [(''Mu'', State_zero\<lparr>Multi := True\<rparr>),
     (''Au'', State_zero\<lparr>Auto := True, Remove := Some [''Old''], Require := Some [''Go'']\<rparr>),
     (''Old'', State_zero\<lparr>Auto := True\<rparr>), (''Go'', State_zero)]"

definition ex2_env :: Env where
  "ex2_env = ex_env\<lparr>en_handler := (\<lambda>m n method args.
     if method = ''GoState'' then ([], HPanic ''boom'') else if method = ''OldExit'' then ([], HRet False)
     else ([], HRet True))\<rparr>"

definition ex2_mach :: Machine where
  "ex2_mach = newMachine ex2_schema ex_opts ''id''"

definition ex2_handler :: handler where
  "ex2_handler = ex_handler\<lparr>h_methods := [''GoState'']\<rparr>"

definition ex2_exit_handler :: handler where
  "ex2_exit_handler = ex_handler\<lparr>h_methods := [''OldExit'']\<rparr>"

text \<open>A failing final handler ticks the called multi states twice more: \<open>recoverFinalPhase\<close> runs in
  \<open>recoverToErr\<close> and again in \<open>emitEvents\<close>, and each run hands the called states to \<open>setActiveStates\<close>. The
  active \<open>Mu\<close> goes from tick 1 to 7 in one cancelled mutation, which should have added 2.\<close>

theorem failed_final_ticks_multi_states:
  "res_ok (\<lambda>m. Tick m ''Mu'' = 1) (api_runs ex2_env 9 ex2_mach [ApiAdd [''Mu''] []])
   \<and> res_ok (\<lambda>m. Tick m ''Mu'' = 7 \<and> \<not> Is1 m ''Go'' \<and> IsErr m)
     (api_runs ex2_env 9 ex2_mach [ApiAdd [''Mu''] [], ApiBind ex2_handler ''h'', ApiAdd [''Mu'', ''Go''] []])"
  by (rule conjI; code_simp)

lemma exits_not_targets:
  assumes "newTransition m mut = Inr m0" "s \<in> set (tx_Exits (cur m0))"
  shows "s \<notin> set (tgt m0)" "tx_Mutation (cur m0) = mut" "tx_cacheSchema (cur m0) = m_schema m"
    "\<exists>called. tx_CalledStates (m_stateNames m0) (cur m0) = Inr called"
proof -
  from assms(1) obtain called ts t1 t where
    c: "tx_CalledStates (m_stateNames m) (initTransition m mut) = Inr called"
    and t1: "\<exists>tAfter. predict_time m mut called ts = Inr tAfter \<and>
       setupAccepted (m_stateNames m) ((initTransition m mut)\<lparr>tx_TimeAfter := tAfter,
         tx_TargetIndexes := mach_Index m ts, tx_cacheTargetStates := Some ts\<rparr>) = Inr t1"
    and t: "if tx_IsAccepted t1 then setupExitEnter m t1 = Inr t else t = t1"
    and m0: "m0 = m\<lparr>m_t := Some t, m_nextTx := m_nextTx m + 1, m_rrIndex := m_stateNames m\<rparr>"
    by (rule newTransition_cases)
  have s1: "tx_cacheTargetStates t1 = Some ts \<and> tx_Mutation t1 = mut \<and> tx_cacheSchema t1 = m_schema m \<and> tx_Exits t1 = []"
    using t1 by (auto simp: setupAccepted_def initTransition_def Transition_none_def Let_def split: if_splits sum.splits)
  have cur: "cur m0 = t" by (simp add: m0 cur_def)
  have s2: "tx_cacheTargetStates t = Some ts \<and> tx_Mutation t = mut \<and> tx_cacheSchema t = m_schema m
      \<and> set (tx_Exits t) \<inter> set ts = {}"
    using t s1 by (auto simp: setupExitEnter_def Let_def tx_TargetStates_def split: if_splits sum.splits)
  with assms(2) cur show "s \<notin> set (tgt m0)" "tx_Mutation (cur m0) = mut" "tx_cacheSchema (cur m0) = m_schema m"
    by (auto simp: tgt_def tx_TargetStates_def m0)
  show "\<exists>called. tx_CalledStates (m_stateNames m0) (cur m0) = Inr called"
    using c s2 unfolding cur by (auto simp: tx_CalledStates_def initTransition_def m0 cong: option.case_cong)
qed

lemma emitExit_loop_append:
  "emitExit_loop env pre m = Inr (Executed, m1) \<Longrightarrow> emitExit_loop env (pre @ rest) m = emitExit_loop env rest m1"
  by (induction env pre m rule: emitExit_loop.induct)
    (auto simp: Executed_def Canceled_def split: sum.splits if_splits)

text \<open>C38. An exit handler that vetoes an auto mutation crashes the program when its state is an auto state. The mutation is an
  auto mutation (no eval, its context not expired) on a machine whose handler loop runs; its transition was accepted by the resolver; \<open>s\<close> is one of its exiting states, the exit handlers
  before it have let the transition pass, and that of \<open>s\<close> cancels it (or panics). Then the code drops \<open>s\<close> from the targets
  instead of ending the transition, but an exiting state is never a target, and \<open>slices.Delete\<close> panics on the index \<open>-1\<close>
  in the goroutine of the caller.\<close>

theorem auto_exit_veto_crashes:
  assumes "newTransition m mut = Inr m0" "tx_IsAccepted (cur m0)" "m_handlerLoopRunning m"
    and "mu_IsAuto mut" "mu_Type mut \<noteq> mutationEval" "\<not> ctx_expired (en_expired env) (mu_ctx mut)"
    and "tx_Exits (cur m0) = pre @ s # post" "emitExit_loop env pre m0 = Inr (Executed, m1)"
    and "Auto (Schema_Get (m_schema m) s)" "emitHandler env [] False False (s @ SuffixExit) m1 = Inr (Canceled, m2)"
  shows "run_mutation env mut m = Inl (GoPanic ''slice bounds out of range'')"
proof -
  note x = exits_not_targets [OF assms(1), of s]
  have n: "nego m0 m1" "nego m1 m2" using emitExit_loop_nego [OF assms(8)] emitHandler_nego [OF assms(10)] .
  have "set (tgt m2) \<subseteq> set (tgt m0)" using n by (auto simp: nego_def)
  then have "s \<notin> set (tgt m2)" using x(1) assms(7) by auto
  then have "slices_Index (tx_TargetStates (m_stateNames m2) (cur m2)) s = - 1"
    by (simp add: tgt_def)
  then have d: "drop_target s m2 = Inl (GoPanic ''slice bounds out of range'')"
    by (simp only: drop_target_def slices_Delete_def Let_def) simp
  have "partial_auto m1 s"
    using nego_fields(8,11) [OF n(1)] x(2,3) assms(4,7,9) by (simp add: partial_auto_def tx_IsAuto_def)
  then have e: "emitExitEvents env m0 = Inl (GoPanic ''slice bounds out of range'')"
    unfolding emitExitEvents_def assms(7) emitExit_loop_append [OF assms(8)] by (simp add: assms(10) d)
  obtain called where c: "tx_CalledStates (m_stateNames m0) (cur m0) = Inr called" using x(4) assms(7) by auto
  have "m_handlerLoopRunning m0" using assms(3) newTransition_cases [OF assms(1)] by force
  then have "emitEvents env m0 = Inl (GoPanic ''slice bounds out of range'')"
    using assms(2) e c by (simp add: emitEvents_def negotiate_def negotiate_step_def auto_step_def Executed_def Canceled_def)
  then show ?thesis using assms(1,5,6) by (simp add: run_mutation_def)
qed

definition ex2_auto_mach :: Machine where
  "ex2_auto_mach = ex2_mach\<lparr>m_activeStates := [''Old'', ''Go''], m_clock := [(''Mu'', 0), (''Au'', 0), (''Old'', 1), (''Go'', 1)],
     m_handlers := [ex2_exit_handler], m_handlerLoopRunning := True, m_loopAlive := True\<rparr>"

definition ex2_auto_mut :: Mutation where
  "ex2_auto_mut = Mutation_zero\<lparr>mu_Type := MutationAdd, mu_Called := mach_Index ex2_mach [''Au''], mu_IsAuto := True,
     mu_cacheCalled := Some [''Au'']\<rparr>"

theorem auto_exit_veto_crashes_witness:
  "NewAutoMutation ex2_auto_mach = Some ex2_auto_mut
   \<and> run_mutation ex2_env ex2_auto_mut ex2_auto_mach = Inl (GoPanic ''slice bounds out of range'')"
proof -
  have n: "NewAutoMutation ex2_auto_mach = Some ex2_auto_mut" by code_simp
  have "res_ok (\<lambda>m0. tx_IsAccepted (cur m0) \<and> tx_Exits (cur m0) = [''Old'']
      \<and> res_ok (\<lambda>(r, m2). r = Canceled) (emitHandler ex2_env [] False False (''Old'' @ SuffixExit) m0))
      (newTransition ex2_auto_mach ex2_auto_mut)" by code_simp
  then obtain m0 m2 where m0: "newTransition ex2_auto_mach ex2_auto_mut = Inr m0" "tx_IsAccepted (cur m0)"
    "tx_Exits (cur m0) = [] @ ''Old'' # []" "emitHandler ex2_env [] False False (''Old'' @ SuffixExit) m0 = Inr (Canceled, m2)"
    by (fastforce dest!: res_okE)
  have h: "m_handlerLoopRunning ex2_auto_mach" "mu_IsAuto ex2_auto_mut" "mu_Type ex2_auto_mut \<noteq> mutationEval"
    "\<not> ctx_expired (en_expired ex2_env) (mu_ctx ex2_auto_mut)" "Auto (Schema_Get (m_schema ex2_auto_mach) ''Old'')"
    by code_simp+
  have p: "emitExit_loop ex2_env [] m0 = Inr (Executed, m0)" by simp
  from n auto_exit_veto_crashes [OF m0(1,2) h(1-4) m0(3) p h(5) m0(4)] show ?thesis by simp
qed

text \<open>The same in a whole run: adding \<open>Go\<close> brings the auto mutation of \<open>Au\<close> with it, which would end \<open>Old\<close>.\<close>

theorem auto_exit_veto_run:
  "api_runs ex2_env 9 ex2_mach [ApiAdd [''Mu''] [], ApiBind ex2_exit_handler ''h'', ApiAdd [''Go''] []]
     = Inl (GoPanic ''slice bounds out of range'')"
  by code_simp

definition ex3_env :: Env where
  "ex3_env = ex_env\<lparr>en_handler := (\<lambda>m n method args.
     if method = ''DState'' then ([], HPanic ''boom'') else ([], HRet True))\<rparr>"

definition ex3_handler :: handler where
  "ex3_handler = ex_handler\<lparr>h_methods := [''DState'']\<rparr>"

text \<open>Waiters miss the state changes of a transition whose final handler failed: \<open>E\<close> is active, adding \<open>D\<close>
  removes it, \<open>DState\<close> panics; afterwards neither is active, yet the channel of \<open>WhenNot(E)\<close> is open, because
  the cancelled transition is not reported to the subscriptions.\<close>

theorem WhenNot_misses_failed_final:
  "res_ok (\<lambda>m. m_activeStates m = [''Exception''] \<and> m_closed m = [])
     (api_runs ex3_env 9 ex_mach [ApiBind ex3_handler ''h'', ApiAdd [''E''] [], ApiWhenNot [''E''] None, ApiAdd [''D''] []])"
  by code_simp

end
