(* ===== verification/Am_Data.thy ===== *)
theory Am_Data
  imports Am_Recovery
begin

text \<open>
  Data that enters and leaves a machine: parsing of schemas, export and import of the machine time, and the
  bound on the queue.
\<close>

section \<open>Schemas\<close>

lemma drop_unknown_id: "set rel \<subseteq> set states \<Longrightarrow> drop_unknown states rel = rel"
proof -
  assume "set rel \<subseteq> set states"
  then have "foldl (\<lambda>r n. if \<not> slices_Contains states n then slicesWithout r n else r) acc xs = acc"
    if "set xs \<subseteq> set rel" for acc xs using that by (induction xs) auto
  then show ?thesis by (simp add: drop_unknown_def)
qed

lemma map_option_drop: "set (sl x) \<subseteq> set states \<Longrightarrow> map_option (drop_unknown states) x = x"
  by (cases x) (simp_all add: drop_unknown_id)

lemma parse_state_id:
  assumes "state_wf states name st"
  shows "fst (parse_state states name st) = st"
proof -
  have w: "name \<notin> set (sl (Remove st))" "name \<notin> set (sl (After st))" "set (sl (Remove st)) \<subseteq> set states"
    "set (sl (After st)) \<subseteq> set states" using assms by (simp_all add: state_wf_def)
  have "foldl (parse_add_step states) st adds = st" if "set adds \<subseteq> set (sl (Add st))" for adds
    using that assms by (induction adds) (auto simp: parse_add_step_def state_wf_def)
  then show ?thesis using w by (simp add: parse_state_def Let_def map_option_drop)
qed

text \<open>C35. \<open>Parse\<close> makes a schema well-formed if its \<open>Add\<close>, \<open>Remove\<close> and \<open>After\<close> relations are lists without
  repetitions and no undefined state is in both \<open>Add\<close> and \<open>Remove\<close> of the same state: it keeps the state
  names, afterwards \<open>Add\<close>, \<open>Remove\<close> and \<open>After\<close> refer to defined states only, no state removes or follows
  itself, no state is both added and removed by another; a second \<open>Parse\<close> changes nothing.\<close>

theorem Parse_sanitizes:
  assumes "gmap_wf s" "list_all (\<lambda>(n, st). state_pre (gkeys s) st) s"
  shows "schema_wf (fst (Schema_Parse s)) \<and> gkeys (fst (Schema_Parse s)) = gkeys s
    \<and> (\<forall>n. gget (fst (Schema_Parse (fst (Schema_Parse s)))) n = gget (fst (Schema_Parse s)) n)"
proof (intro conjI allI)
  show wf: "schema_wf (fst (Schema_Parse s))" by (rule Schema_Parse_schema_wf [OF assms])
  show "gkeys (fst (Schema_Parse s)) = gkeys s" by (rule Schema_Parse_get [OF assms(1)])
  fix n
  have g: "gmap_wf (fst (Schema_Parse s))" using wf by (simp add: schema_wf_def)
  show "gget (fst (Schema_Parse (fst (Schema_Parse s)))) n = gget (fst (Schema_Parse s)) n"
  proof (cases "gget (fst (Schema_Parse s)) n")
    case (Some st)
    with wf have "state_wf (gkeys (fst (Schema_Parse s))) n st" by (auto simp: schema_wf_get)
    then show ?thesis using Some by (simp add: Schema_Parse_get(2) [OF g] parse_state_id)
  qed (simp add: Schema_Parse_get(2) [OF g])
qed

text \<open>A schema in which \<open>Parse\<close> has something to do: an unknown state in \<open>Add\<close>, a self-removal, a state added and
  removed at once, and a state after itself.\<close>

definition ex_messy :: Schema where
  "ex_messy = [(''A'', State_zero\<lparr>Add := Some [''B'', ''Z''], Remove := Some [''A'', ''B'', ''C'']\<rparr>),
     (''B'', State_zero\<lparr>After := Some [''B'', ''A'', ''Y'']\<rparr>), (''C'', State_zero)]"

theorem Parse_sanitizes_witness:
  "schema_wf (fst (Schema_Parse ex_messy)) \<and> gkeys (fst (Schema_Parse ex_messy)) = [''A'', ''B'', ''C'']
     \<and> fst (Schema_Parse (fst (Schema_Parse ex_messy))) = fst (Schema_Parse ex_messy)
     \<and> \<not> schema_wf ex_messy \<and> Schema_Parse ex_messy \<noteq> (ex_messy, [])"
proof -
  have "gmap_wf ex_messy" "list_all (\<lambda>(n, st). state_pre (gkeys ex_messy) st) ex_messy" by code_simp+
  note p = Parse_sanitizes [OF this]
  have "gkeys ex_messy = [''A'', ''B'', ''C'']" "\<not> schema_wf ex_messy" "Schema_Parse ex_messy \<noteq> (ex_messy, [])"
    "fst (Schema_Parse (fst (Schema_Parse ex_messy))) = fst (Schema_Parse ex_messy)" by code_simp+
  with p show ?thesis by auto
qed

section \<open>Export and import\<close>

lemma mach_time_names: "\<not> m_disposed m \<Longrightarrow> mach_time m None = map (ggetd 0 (m_clock m)) (m_stateNames m)"
  by (simp add: mach_time_def)

text \<open>C29. Export and import: a machine that imports what another machine with the same id and the same states
  exported has its time, its active states (in the order of the state names) and its state order, and its
  clock agrees with its active states. The exporting machine has a consistent clock, neither machine is
  disposed, and the state \<open>MachineRestored\<close> is not defined: where it is, \<open>Import\<close> adds it while it holds its
  own locks and does not return.\<close>

theorem Export_Import:
  assumes "Export m = Inr (data, schema)" "clock_inv m" "\<not> m_disposed m" "distinct (m_stateNames m)"
    and "set (m_stateNames m) = set (gkeys (m_schema m))" "m_id m2 = m_id m" "\<not> m_disposed m2"
    and "set (m_stateNames m2) = set (m_stateNames m)" "length (m_schema m2) = length (m_stateNames m)"
    and "set (gkeys (m_schema m2)) = set (m_stateNames m)" "StateMachineRestored \<notin> set (m_stateNames m)"
    and "\<And>s. s \<notin> set (m_stateNames m) \<Longrightarrow> ggetd 0 (m_clock m2) s = 0"
  shows "\<exists>m'. Import m2 data = Inr (None, m') \<and> mach_time m' None = mach_time m None
    \<and> m_activeStates m' = filter (\<lambda>s. s \<in> set (m_activeStates m)) (m_stateNames m)
    \<and> m_stateNames m' = m_stateNames m \<and> clock_inv m'"
proof -
  let ?N = "m_stateNames m" and ?f = "ggetd 0 (m_clock m)"
  have d: "se_ID data = m_id m" "se_StateNames data = ?N" "se_Time data = map ?f ?N"
    using assms(1,3) by (auto simp: Export_def mach_time_names split: if_splits)
  have act: "\<And>s. s \<in> set (m_activeStates m) \<longleftrightarrow> IsActiveTick (?f s)" using assms(2) unfolding clock_inv_def by blast
  have z: "zip ?N (map ?f ?N) = map (\<lambda>s. (s, ?f s)) ?N" by (simp add: zip_map2 zip_same_conv_map)
  obtain clock' where l: "import_loop (m_stateNames m2) (map ?f ?N) ?N ([], m_clock m2)
      = Inr (None, map fst (filter (\<lambda>(s, t). IsActiveTick t) (zip ?N (map ?f ?N))), clock')"
    and c: "\<And>s. ggetd 0 clock' s = (case map_of (zip ?N (map ?f ?N)) s of Some t \<Rightarrow> t | None \<Rightarrow> ggetd 0 (m_clock m2) s)"
    using import_loop_exact [of ?N "m_stateNames m2" "map ?f ?N" "[]" "m_clock m2"] assms(4,8) by auto
  have a: "map fst (filter (\<lambda>(s, t). IsActiveTick t) (zip ?N (map ?f ?N))) = filter (\<lambda>s. s \<in> set (m_activeStates m)) ?N"
    unfolding z by (simp add: filter_map o_def act)
  have c': "ggetd 0 clock' s = (if s \<in> set ?N then ?f s else 0)" for s
    unfolding c z using assms(12) by (simp add: map_of_map_restrict restrict_map_def)
  let ?m' = "m2\<lparr>m_activeStates := filter (\<lambda>s. s \<in> set (m_activeStates m)) ?N, m_clock := clock', m_stateNames := ?N,
    m_statesVerified := True, m_machineTick := se_MachineTick data + 1\<rparr>"
  have "\<not> Has1 ?m' StateMachineRestored" using assms(11) by (simp add: Has1_def Has_def slicesEvery_iff)
  then have i: "Import m2 data = Inr (None, ?m')"
    using assms(6,9) l unfolding a by (simp add: Import_def d Let_def)
  have "mach_time ?m' None = mach_time m None"
    using assms(3,7) by (simp add: mach_time_def c')
  moreover have "clock_inv ?m'"
    unfolding clock_inv_def using assms(4,10) by (simp add: c' act)
  ultimately show ?thesis using i by (intro exI [of _ ?m']) simp
qed

definition ex_export :: Machine where
  "ex_export = ex_mach\<lparr>m_statesVerified := True\<rparr>"

definition ex_exportable :: "Machine \<Rightarrow> bool" where
  "ex_exportable m = (\<not> m_disposed m \<and> distinct (m_stateNames m) \<and> set (m_stateNames m) = set (gkeys (m_schema m))
     \<and> m_id ex_mach = m_id m \<and> set (m_stateNames ex_mach) = set (m_stateNames m)
     \<and> length (m_schema ex_mach) = length (m_stateNames m) \<and> set (gkeys (m_schema ex_mach)) = set (m_stateNames m)
     \<and> StateMachineRestored \<notin> set (m_stateNames m) \<and> m_activeStates m = [''E''] \<and> m_statesVerified m)"

lemma ex_export_run: "res_ok ex_exportable (api_runs ex_env 9 ex_export [ApiAdd [''E''] []])"
  by code_simp

theorem Export_Import_witness:
  "\<exists>m data schema m'. api_runs ex_env 9 ex_export [ApiAdd [''E''] []] = Inr m \<and> Export m = Inr (data, schema)
     \<and> Import ex_mach data = Inr (None, m') \<and> m_activeStates m' = filter (\<lambda>s. s = ''E'') (m_stateNames m)"
proof -
  obtain m where m: "api_runs ex_env 9 ex_export [ApiAdd [''E''] []] = Inr m" "ex_exportable m"
    using res_okE [OF ex_export_run] by blast
  note e = m(2) [unfolded ex_exportable_def]
  obtain data schema where x: "Export m = Inr (data, schema)" using e by (simp add: Export_def)
  have "mach_inv ex_export = mach_inv ex_mach" by (rule mach_inv_same) (simp_all add: ex_export_def)
  then have "mach_inv m" using clock.api_runs [OF m(1)] ex_mach_inv by simp
  then have c: "clock_inv m" by (simp add: mach_inv_def)
  have "\<not> m_disposed ex_mach" "\<And>s. ggetd 0 (m_clock ex_mach) s = 0" by (simp_all add: ex_mach_def newMachine_fields)
  with Export_Import [OF x c, of ex_mach] e
  obtain m' where "Import ex_mach data = Inr (None, m')"
    "m_activeStates m' = filter (\<lambda>s. s \<in> set (m_activeStates m)) (m_stateNames m)" by blast
  with m x e show ?thesis by (intro exI [of _ m] exI [of _ data] exI [of _ schema] exI [of _ m']) simp
qed

section \<open>The queue limit\<close>

lemma queue_full_iff:
  assumes "queueLen_ok m" "length (m_queue m) \<le> unat (m_QueueLimit m)"
  shows "queue_full m \<longleftrightarrow> length (m_queue m) = unat (m_QueueLimit m)"
proof -
  have "unat (m_QueueLimit m) < 2 ^ LENGTH(16)" by (rule unsigned_less)
  with assms(2) have "length (m_queue m) < 2 ^ 16" by simp
  then have "unat (QueueLen m) = length (m_queue m)"
    using assms(1) by (simp add: QueueLen_def queueLen_ok_def unsigned_ucast_eq unsigned_of_nat take_bit_nat_eq_self)
  then show ?thesis using assms(2) by (simp add: queue_full_def word_le_nat_alt) linarith
qed

lemma queueMutation_length:
  "queueMutation m ty states args ev = Inr (tick, m') \<Longrightarrow> length (m_queue m') \<le> Suc (length (m_queue m))"
  by (auto simp: queueMutation_def Let_def split: sum.splits if_splits)

lemma queue_prep_length:
  "queue_prep m ty states args ev = Inr (r, m') \<Longrightarrow> length (m_queue m') \<le> Suc (length (m_queue m))"
  by (auto simp: queue_prep_def split: sum.splits if_splits dest: queueMutation_length)

text \<open>The queue stays within \<open>QueueLimit\<close>: the mutation methods, called without \<open>Exception\<close>, are cancelled
  and change nothing when the queue is full, and never fill it beyond the limit. (Prepended mutations and errors
  are not limited.)\<close>

theorem queue_within_limit:
  assumes "queueLen_ok m" "length (m_queue m) \<le> unat (m_QueueLimit m)" "StateException \<notin> set states"
    and "p \<in> {Add_prep m states args, Remove_prep m states args, Set_prep m states args,
           EvAdd_prep m ev states args, EvRemove_prep m ev states args}" "p = Inr (r, m')"
  shows "if length (m_queue m) = unat (m_QueueLimit m) then r = Inl Canceled \<and> m' = m
    else length (m_queue m') \<le> unat (m_QueueLimit m)"
proof (cases "queue_full m")
  case True
  with assms queue_full_iff [OF assms(1,2)] show ?thesis
    by (auto simp: Add_prep_def Remove_prep_def Set_prep_def EvAdd_prep_def EvRemove_prep_def split: if_splits)
next
  case False
  with queue_full_iff [OF assms(1,2)] assms(2) have l: "Suc (length (m_queue m)) \<le> unat (m_QueueLimit m)" by simp
  have "length (m_queue m') \<le> Suc (length (m_queue m))"
    using assms(4,5) by (auto simp: Add_prep_def Remove_prep_def Set_prep_def EvAdd_prep_def EvRemove_prep_def
      split: if_splits dest: queue_prep_length queue_prep_length [OF sym])
  with l show ?thesis by simp
qed

definition ex_full :: Machine where
  "ex_full = ex_mach\<lparr>m_QueueLimit := 1, m_queue := [ex_add [''E'']], m_queueLen := 1\<rparr>"

theorem queue_within_limit_witness: "Add_prep ex_full [''D''] [] = Inr (Inl Canceled, ex_full)"
proof -
  have h: "queueLen_ok ex_full" "length (m_queue ex_full) \<le> unat (m_QueueLimit ex_full)" "StateException \<notin> set [''D'']"
    by (simp_all add: ex_full_def queueLen_ok_def StateException_def)
  have "res_ok (\<lambda>_. True) (Add_prep ex_full [''D''] [])" by code_simp
  then obtain r m' where r: "Add_prep ex_full [''D''] [] = Inr (r, m')" using res_okE by fastforce
  from queue_within_limit [OF h insertI1 r] have "r = Inl Canceled \<and> m' = ex_full" by (simp add: ex_full_def)
  with r show ?thesis by simp
qed

section \<open>Duplicates\<close>

definition ex_dup_env :: Env where
  "ex_dup_env = ex_env\<lparr>en_handler := (\<lambda>m n method args.
     if method = ''FState'' then ([CallAdd [''E''] [], CallRemove [''E''] [], CallAdd [''E''] []], HRet True) else ([], HRet True))\<rparr>"

definition ex_dup_handler :: handler where
  "ex_dup_handler = ex_handler\<lparr>h_methods := [''FState'']\<rparr>"

text \<open>A mutation is dropped as a duplicate although it would not be redundant: a handler that adds \<open>E\<close>,
  removes it and adds it again leaves \<open>E\<close> inactive, because the first \<open>Add\<close> is still queued when the third
  call looks for duplicates.\<close>

theorem duplicate_drops_last_Add:
  "res_ok (\<lambda>m. \<not> Is1 m ''E'' \<and> Is1 m ''F'') (api_runs ex_dup_env 9 ex_mach [ApiBind ex_dup_handler ''h'', ApiAdd [''F''] []])"
  by code_simp

end
