(* ===== verification/Am_Subs_Facts.thy ===== *)
theory Am_Subs_Facts
  imports Am_Subs
begin

text \<open>
  Facts about the subscription manager: what each processing step leaves alone, and which channels
  \<open>ProcessWhenQueue\<close>, \<open>ProcessWhenTimeSum\<close> and \<open>ProcessStateCtx\<close> return.
\<close>

section \<open>Frames\<close>

text \<open>A part \<open>f\<close> of the manager that does not see the bindings of \<open>When\<close> is left alone by \<open>ProcessWhen\<close>; the
  same for \<open>WhenTime\<close>, \<open>WhenTimeSum\<close> and \<open>WhenArgs\<close>.\<close>

locale when_frame =
  fixes f :: "Subscriptions \<Rightarrow> 'a"
  assumes upd [simp]: "f (sm\<lparr>sm_when := w\<rparr>) = f sm" "f (sm\<lparr>sm_whenHeap := h\<rparr>) = f sm"
    "f (sm\<lparr>sm_whenCtx := c\<rparr>) = f sm"
begin

lemma gc_states [simp]: "f (gcWhen_states b g ss sm) = f sm"
  by (induction ss arbitrary: sm) (simp_all add: Let_def)

lemma gc [simp]: "f (gcWhenBinding b g sm) = f sm"
  by (simp add: gcWhenBinding_def Let_def)

lemma gcs [simp]: "f (fst (gc_whens ps st)) = f (fst st)"
  by (induction ps st rule: gc_whens.induct) simp_all

lemma ctx_loop: "f (fst (processWhenCtx_loop ex cs st)) = f (fst st)"
proof (induction ex cs st rule: processWhenCtx_loop.induct)
  case (2 ex c bs rest st)
  obtain sm ret where g: "gc_whens bs st = (sm, ret)" by fastforce
  have "f sm = f (fst st)" using gcs [of bs st] g by simp
  with 2 g show ?case by simp
qed simp

lemma bindings [simp]: "f (fst (processWhen_bindings a s ps st)) = f (fst st)"
  by (induction a s ps st rule: processWhen_bindings.induct) (simp_all add: Let_def)

lemma states [simp]: "f (fst (processWhen_states a ss st)) = f (fst st)"
  by (induction a ss st rule: processWhen_states.induct) simp_all

lemma process: "f (fst (ProcessWhen ex sm a d)) = f sm"
  by (simp add: ProcessWhen_def processWhenCtx_def ctx_loop)

end

locale when_time_frame =
  fixes f :: "Subscriptions \<Rightarrow> 'a"
  assumes upd [simp]: "f (sm\<lparr>sm_whenTime := w\<rparr>) = f sm" "f (sm\<lparr>sm_whenTimeHeap := h\<rparr>) = f sm"
    "f (sm\<lparr>sm_whenTimeCtx := c\<rparr>) = f sm"
begin

lemma gc_states [simp]: "f (gcWhenTime_states b g ss sm) = f sm"
  by (induction ss arbitrary: sm) (simp_all add: Let_def)

lemma gc [simp]: "f (gcWhenTimeBinding b g sm) = f sm"
  by (simp add: gcWhenTimeBinding_def Let_def)

lemma gcs [simp]: "f (fst (gc_whenTimes ps st)) = f (fst st)"
  by (induction ps st rule: gc_whenTimes.induct) simp_all

lemma ctx_loop: "f (fst (processWhenTimeCtx_loop ex cs st)) = f (fst st)"
  by (induction ex cs st rule: processWhenTimeCtx_loop.induct) simp_all

lemma bindings [simp]: "f (fst (processWhenTime_bindings ex c s ps st)) = f (fst st)"
  by (induction ex c s ps st rule: processWhenTime_bindings.induct) (simp_all add: Let_def)

lemma states [simp]: "f (fst (processWhenTime_states ex c ss st)) = f (fst st)"
  by (induction ex c ss st rule: processWhenTime_states.induct) simp_all

lemma process: "f (fst (ProcessWhenTime ex c sm prior)) = f sm"
  by (simp add: ProcessWhenTime_def processWhenTimeCtx_def ctx_loop Let_def)

end

locale when_sum_frame =
  fixes f :: "Subscriptions \<Rightarrow> 'a"
  assumes upd [simp]: "f (sm\<lparr>sm_whenTimeSum := w\<rparr>) = f sm" "f (sm\<lparr>sm_whenTimeSumCtx := h\<rparr>) = f sm"
    "f (sm\<lparr>sm_whenTimeSumCtx := h, sm_whenTimeSum := w\<rparr>) = f sm"
    "f (sm\<lparr>sm_whenTimeCtx := c\<rparr>) = f sm"
begin

lemma gc [simp]: "f (gcWhenTimeSumBinding b g sm) = f sm"
  by (simp add: gcWhenTimeSumBinding_def)

lemma gcs [simp]: "f (fst (gc_whenTimeSums ps st)) = f (fst st)"
  by (induction ps st rule: gc_whenTimeSums.induct) simp_all

lemma ctx_loop: "f (fst (processWhenTimeSumCtx_loop ex cs st)) = f (fst st)"
  by (induction ex cs st rule: processWhenTimeSumCtx_loop.induct) simp_all

lemma sum_loop [simp]: "f (fst (whenTimeSum_loop t bs st)) = f (fst st)"
  by (induction t bs st rule: whenTimeSum_loop.induct) simp_all

lemma process: "f (fst (ProcessWhenTimeSum ex c sm)) = f sm"
  using ctx_loop [of ex "sm_whenTimeSumCtx sm" "(sm, [])"]
  by (auto simp: ProcessWhenTimeSum_def processWhenTimeSumCtx_def split: prod.splits)

end

locale when_args_frame =
  fixes f :: "Subscriptions \<Rightarrow> 'a"
  assumes upd [simp]: "f (sm\<lparr>sm_whenArgs := w\<rparr>) = f sm" "f (sm\<lparr>sm_whenArgsCtx := h\<rparr>) = f sm"
begin

lemma gc [simp]: "f (gcWhenArgsBinding b g sm) = f sm"
  by (simp add: gcWhenArgsBinding_def Let_def)

lemma gcs [simp]: "f (fst (gc_whenArgs ps st)) = f (fst st)"
  by (induction ps st rule: gc_whenArgs.induct) simp_all

lemma ctx_loop: "f (fst (processWhenArgsCtx_loop ex cs st)) = f (fst st)"
  by (induction ex cs st rule: processWhenArgsCtx_loop.induct) simp_all

lemma bindings [simp]: "f (fst (processWhenArgs_bindings ex args bs st)) = f (fst st)"
  by (induction ex args bs st rule: processWhenArgs_bindings.induct) simp_all

lemma process: "f (fst (ProcessWhenArgs ex sm name args)) = f sm"
  using ctx_loop [of ex "sm_whenArgsCtx sm" "(sm, [])"]
  by (auto simp: ProcessWhenArgs_def processWhenArgsCtx_def split: prod.splits)

end

text \<open>The queries of a manager.\<close>

definition queries :: "Subscriptions \<Rightarrow> whenQueryBinding list \<times> (ctx, whenQueryBinding list) gomap" where
  "queries sm = (sm_whenQuery sm, sm_whenQueryCtx sm)"

interpretation queries_when: when_frame queries by unfold_locales (simp_all add: queries_def)
interpretation queries_time: when_time_frame queries by unfold_locales (simp_all add: queries_def)
interpretation queries_sum: when_sum_frame queries by unfold_locales (simp_all add: queries_def)
interpretation queries_args: when_args_frame queries by unfold_locales (simp_all add: queries_def)

text \<open>The tickets that wait for the queue.\<close>

interpretation waiting_when: when_frame sm_whenQueue by unfold_locales simp_all
interpretation waiting_time: when_time_frame sm_whenQueue by unfold_locales simp_all
interpretation waiting_sum: when_sum_frame sm_whenQueue by unfold_locales simp_all
interpretation waiting_args: when_args_frame sm_whenQueue by unfold_locales simp_all

section \<open>WhenQueue\<close>

lemma queue_matches_filter:
  "queue_matches qt i bs = (map wu_ch (filter (\<lambda>b. \<not> wu_tick b > qt) bs),
     map (\<lambda>k. i + int k) (filter (\<lambda>k. \<not> wu_tick (bs ! k) > qt) [0 ..< length bs]))"
proof (induction bs arbitrary: i)
  case (Cons b bs)
  have u: "[0 ..< length (b # bs)] = 0 # map Suc [0 ..< length bs]"
    by (simp add: map_Suc_upt upt_conv_Cons del: upt_Suc)
  show ?case unfolding u by (simp add: Cons.IH filter_map o_def add.commute)
qed simp

text \<open>Deleting positions from the last to the first.\<close>

lemma delete_at_rev_filter:
  assumes "n \<le> length xs"
  shows "delete_at xs (rev (map int (filter (\<lambda>k. P (xs ! k)) [0 ..< n])))
    = Inr (filter (\<lambda>x. \<not> P x) (take n xs) @ drop n xs)"
  using assms
proof (induction n arbitrary: xs)
  case (Suc n)
  let ?ys = "take n xs @ drop (Suc n) xs"
  show ?case
  proof (cases "P (xs ! n)")
    case False
    with Suc.IH [of xs] Suc.prems show ?thesis by (simp add: take_Suc_conv_app_nth Cons_nth_drop_Suc)
  next
    case True
    have eq: "filter (\<lambda>k. P (xs ! k)) [0 ..< n] = filter (\<lambda>k. P (?ys ! k)) [0 ..< n]"
      by (rule filter_cong) (use Suc.prems in \<open>auto simp: nth_append\<close>)
    have "slices_Delete xs (int n) (int n + 1) = Inr ?ys"
      using Suc.prems by (simp add: slices_Delete_def nat_add_distrib)
    with Suc.IH [of ?ys] Suc.prems True eq show ?thesis by (simp add: take_Suc_conv_app_nth)
  qed
qed simp

lemma ProcessWhenQueue_eq:
  "ProcessWhenQueue sm qt = Inr (sm\<lparr>sm_whenQueue := filter (\<lambda>b. qt < wu_tick b) (sm_whenQueue sm)\<rparr>,
     map wu_ch (filter (\<lambda>b. wu_tick b \<le> qt) (sm_whenQueue sm)))"
  using delete_at_rev_filter [of "length (sm_whenQueue sm)" "sm_whenQueue sm" "\<lambda>b. \<not> qt < wu_tick b"]
  by (simp add: ProcessWhenQueue_def queue_matches_filter not_less) (simp add: not_le)

text \<open>\<open>ProcessWhenQueue\<close> closes exactly the channels waiting for a tick that has been reached, keeps the
  others in order, and never panics, although it deletes by positions collected before.\<close>

theorem ProcessWhenQueue_exact:
  "\<exists>sm'. ProcessWhenQueue sm queueTick
      = Inr (sm', map wu_ch (filter (\<lambda>b. wu_tick b \<le> queueTick) (sm_whenQueue sm)))
    \<and> sm_whenQueue sm' = filter (\<lambda>b. queueTick < wu_tick b) (sm_whenQueue sm)
    \<and> sm_whenQueueEnds sm' = sm_whenQueueEnds sm"
  by (simp add: ProcessWhenQueue_eq)

section \<open>State contexts\<close>

definition ctxs :: "(string, CtxBinding) gomap \<Rightarrow> string \<Rightarrow> ctx set" where
  "ctxs m s = cb_Ctx ` set_option (gget m s)"

lemma UN_except: "(\<Union>t \<in> A. if t \<in> B then {} else h t) \<union> (\<Union>t \<in> B. h t) = (\<Union>t \<in> A \<union> B. h t)"
  by (auto split: if_splits)

lemma collect_ctx_facts:
  "collect_ctx ss (m, cs) = (m', cs') \<Longrightarrow>
     (\<forall>s. gget m' s = (if s \<in> set ss then None else gget m s)) \<and> set cs' = set cs \<union> (\<Union>s \<in> set ss. ctxs m s)"
proof (induction ss arbitrary: m cs)
  case (Cons s ss)
  show ?case
  proof (cases "gget m s")
    case None
    with Cons.prems have "collect_ctx ss (m, cs) = (m', cs')" by simp
    from Cons.IH [OF this] None show ?thesis by (auto simp: ctxs_def)
  next
    case (Some b)
    with Cons.prems have "collect_ctx ss (gdel s m, cs @ [cb_Ctx b]) = (m', cs')" by simp
    note IH = Cons.IH [OF this]
    have "ctxs (gdel s m) t = (if t \<in> {s} then {} else ctxs m t)" for t by (simp add: ctxs_def)
    moreover have "ctxs m s = {cb_Ctx b}" using Some by (simp add: ctxs_def)
    ultimately have "set cs' = set cs \<union> (\<Union>t \<in> set (s # ss). ctxs m t)"
      using IH UN_except [of "{s}" "ctxs m" "set ss"] by simp blast
    with IH show ?thesis by simp
  qed
qed simp

text \<open>A transition cancels exactly the state contexts of the states it activates or deactivates, and
  forgets them; all other state contexts live on.\<close>

theorem ProcessStateCtx_exact:
  assumes "ProcessStateCtx sm activated deactivated = (sm', toCancel)"
  shows "(\<forall>s. gget (sm_stateCtx sm') s
        = (if s \<in> set activated \<union> set deactivated then None else gget (sm_stateCtx sm) s))
    \<and> set toCancel = (\<Union>s \<in> set activated \<union> set deactivated. ctxs (sm_stateCtx sm) s)"
proof -
  obtain m1 c1 where 1: "collect_ctx activated (sm_stateCtx sm, []) = (m1, c1)" by fastforce
  obtain m2 c2 where 2: "collect_ctx deactivated (m1, c1) = (m2, c2)" by fastforce
  from assms 1 2 have e: "sm_stateCtx sm' = m2" "toCancel = c2"
    by (auto simp: ProcessStateCtx_def)
  note F = collect_ctx_facts [OF 1] and G = collect_ctx_facts [OF 2]
  have "ctxs m1 t = (if t \<in> set activated then {} else ctxs (sm_stateCtx sm) t)" for t
    using F by (simp add: ctxs_def)
  with F G have "set c2 = (\<Union>s \<in> set activated \<union> set deactivated. ctxs (sm_stateCtx sm) s)"
    using UN_except [of "set activated" "ctxs (sm_stateCtx sm)" "set deactivated"] by (simp add: Un_commute)
  with F G show ?thesis unfolding e by simp
qed

theorem ProcessStateCtx_exact_witness:
  "\<exists>sm' toCancel. ProcessStateCtx (fst (sub_NewStateCtx NewSubscriptionManager [] ''A'')) [''A''] [''B''] = (sm', toCancel)
     \<and> gget (sm_stateCtx sm') ''A'' = None \<and> set toCancel = {1}"
proof -
  let ?sm = "fst (sub_NewStateCtx NewSubscriptionManager [] ''A'')"
  obtain sm' toCancel where p: "ProcessStateCtx ?sm [''A''] [''B''] = (sm', toCancel)" by fastforce
  have "sm_stateCtx ?sm = [(''A'', \<lparr>cb_Ctx = 1, cb_State = ''A'', cb_Tick = 0\<rparr>)]" by code_simp
  with ProcessStateCtx_exact [OF p] have "gget (sm_stateCtx sm') ''A'' = None \<and> set toCancel = {1}"
    by (simp add: gget_def ctxs_def)
  with p show ?thesis by blast
qed

section \<open>WhenTimeSum\<close>

text \<open>The bindings stay ordered by their time.\<close>

lemma insert_time_sum_sorted:
  "sorted (map ws_MTime bs) \<Longrightarrow> sorted (map ws_MTime (insert_time_sum b bs))"
proof (induction bs)
  case (Cons x xs)
  have "set (insert_time_sum b xs) = insert b (set xs)" by (induction xs) auto
  with Cons show ?case by auto
qed simp

lemma whenTimeSum_loop_takeWhile:
  "distinct (bs @ rest) \<Longrightarrow> sm_whenTimeSum sm = bs @ rest \<Longrightarrow>
   whenTimeSum_loop t bs (sm, ret) = (sm', ret') \<Longrightarrow>
   ret' = ret @ map ws_Ch (takeWhile (\<lambda>b. ws_MTime b \<le> t) bs)
   \<and> sm_whenTimeSum sm' = dropWhile (\<lambda>b. ws_MTime b \<le> t) bs @ rest"
proof (induction bs arbitrary: sm ret)
  case (Cons b bs)
  show ?case
  proof (cases "ws_MTime b > t")
    case False
    let ?sm = "gcWhenTimeSumBinding b True sm"
    have "sm_whenTimeSum ?sm = bs @ rest"
      using Cons.prems(1,2) by (simp add: gcWhenTimeSumBinding_def slicesWithout_remove1)
    with Cons.IH [of ?sm "ret @ [ws_Ch b]"] Cons.prems False show ?thesis by (simp add: not_less)
  qed (use Cons.prems in \<open>auto simp: not_le\<close>)
qed simp

text \<open>\<open>ProcessWhenTimeSum\<close> closes exactly the channels whose machine time has been reached, although it
  stops at the first binding that has to wait: the bindings are kept sorted.\<close>

theorem ProcessWhenTimeSum_exact:
  assumes "sorted (map ws_MTime (sm_whenTimeSum sm))" "distinct (sm_whenTimeSum sm)" "sm_whenTimeSumCtx sm = []"
    and "ProcessWhenTimeSum expired mclock sm = (sm', chs)"
  shows "chs = map ws_Ch (filter (\<lambda>b. ws_MTime b \<le> Clock_Sum (sub_clock sm mclock) []) (sm_whenTimeSum sm))
    \<and> sm_whenTimeSum sm' = filter (\<lambda>b. Clock_Sum (sub_clock sm mclock) [] < ws_MTime b) (sm_whenTimeSum sm)"
proof -
  let ?t = "Clock_Sum (sub_clock sm mclock) []" and ?bs = "sm_whenTimeSum sm"
  have l: "whenTimeSum_loop ?t ?bs (sm, []) = (sm', chs)"
    using assms(3,4) by (simp add: ProcessWhenTimeSum_def processWhenTimeSumCtx_def)
  have tw: "takeWhile (\<lambda>b. ws_MTime b \<le> t) xs = filter (\<lambda>b. ws_MTime b \<le> t) xs
      \<and> dropWhile (\<lambda>b. ws_MTime b \<le> t) xs = filter (\<lambda>b. t < ws_MTime b) xs"
    if "sorted (map ws_MTime xs)" for t xs
    using that by (induction xs) (auto simp: not_le intro!: filter_True [symmetric] filter_False [symmetric] dest: order.trans leD)
  from whenTimeSum_loop_takeWhile [of ?bs "[]" sm ?t "[]" sm' chs] assms(2) l tw [OF assms(1), of ?t] show ?thesis by simp
qed

definition ex_sums :: Subscriptions where
  "ex_sums = NewSubscriptionManager\<lparr>sm_whenTimeSum :=
     [\<lparr>ws_Ch = 1, ws_MTime = 3, ws_Ctx = None\<rparr>, \<lparr>ws_Ch = 2, ws_MTime = 9, ws_Ctx = None\<rparr>]\<rparr>"

theorem ProcessWhenTimeSum_exact_witness:
  "snd (ProcessWhenTimeSum (\<lambda>_. False) [(''A'', 5)] ex_sums) = [1]"
proof -
  obtain sm' chs where p: "ProcessWhenTimeSum (\<lambda>_. False) [(''A'', 5)] ex_sums = (sm', chs)" by fastforce
  have h: "sorted (map ws_MTime (sm_whenTimeSum ex_sums))" "distinct (sm_whenTimeSum ex_sums)"
    "sm_whenTimeSumCtx ex_sums = []"
    "map ws_Ch (filter (\<lambda>b. ws_MTime b \<le> Clock_Sum (sub_clock ex_sums [(''A'', 5)]) []) (sm_whenTimeSum ex_sums)) = [1]"
    by code_simp+
  from ProcessWhenTimeSum_exact [OF h(1-3) p] h(4) p show ?thesis by simp
qed

section \<open>Expired queries\<close>

text \<open>Why the theorems on the driver ask for a machine without \<open>WhenQuery\<close> subscriptions: when the context of
  the only one expires it is answered once, but stays filed under its context, and the processing after the
  next transition panics.\<close>

theorem query_expired_panics:
  assumes "sm_whenQueryCtx sm = [(c, [b])]" "sm_whenQuery sm = [b]" "expired c"
  shows "\<exists>sm'. ProcessWhenQuery expired query mclock sm = Inr (sm', [wq_ch b])
    \<and> (\<forall>query' mclock'. ProcessWhenQuery expired query' mclock' sm' = Inl (GoPanic ''slice bounds out of range''))"
  using assms
  by (simp add: ProcessWhenQuery_def processWhenQueryCtx_def gcWhenQueryBinding_def ctx_without_def slices_Delete_def Let_def
      split: option.splits)

end
