(* ===== verification/Am_Total.thy ===== *)
theory Am_Total
  imports Am_Behaviour Am_Subs_Facts
begin

text \<open>
  Transitions that do not panic: with handlers that accept and queue nothing, every phase of a transition on
  defined states returns, and a transition brings at most one auto mutation with it.
\<close>

section \<open>Accepting handlers\<close>

definition accepting :: "Env \<Rightarrow> bool" where
  "accepting env = (\<forall>m num method args. en_handler env m num method args = ([], HRet True))"

text \<open>What such a handler leaves: only the notes on the latest handler and the subscriptions of \<open>WhenArgs\<close>
  move.\<close>

definition note_handler :: "bool \<Rightarrow> bool \<Rightarrow> string \<Rightarrow> Transition \<Rightarrow> Transition" where
  "note_handler isEnter isFinal to t = t\<lparr>tx_latestHandlerIsEnter := isEnter, tx_latestHandlerIsFinal := isFinal,
     tx_latestHandlerToState := to\<rparr>"

definition tranquil :: "Machine \<Rightarrow> Machine \<Rightarrow> bool" where
  "tranquil m m' = ((m' = m \<or> (\<exists>e f to. m' = (upd_t (note_handler e f to) m)\<lparr>m_subs := m_subs m', m_closed := m_closed m'\<rparr>))
     \<and> queries (m_subs m') = queries (m_subs m))"

lemma tranquil_refl [simp]: "tranquil m m"
  by (simp add: tranquil_def)

lemma upd_note_twice:
  "upd_t (note_handler e f to) ((upd_t (note_handler e' f' to') m)\<lparr>m_subs := sm, m_closed := cl\<rparr>)
   = (upd_t (note_handler e f to) m)\<lparr>m_subs := sm, m_closed := cl\<rparr>"
  by (cases "m_t m") (simp_all add: upd_t_def note_handler_def)

lemma tranquil_trans:
  assumes "tranquil m m'" "tranquil m' m''"
  shows "tranquil m m''"
proof (cases "m' = m \<or> m'' = m'")
  case False
  with assms obtain e f to e' f' to' where
    1: "m' = (upd_t (note_handler e f to) m)\<lparr>m_subs := m_subs m', m_closed := m_closed m'\<rparr>"
    and 2: "m'' = (upd_t (note_handler e' f' to') m')\<lparr>m_subs := m_subs m'', m_closed := m_closed m''\<rparr>"
    by (auto simp: tranquil_def)
  have "m'' = (upd_t (note_handler e' f' to') m)\<lparr>m_subs := m_subs m'', m_closed := m_closed m''\<rparr>"
    by (subst 2, subst 1, subst upd_note_twice) simp
  with assms show ?thesis unfolding tranquil_def by auto
qed (use assms in auto)

lemma tranquil_fields:
  assumes "tranquil m m'"
  shows "m_handlers m' = m_handlers m" "m_loopAlive m' = m_loopAlive m" "m_disposing m' = m_disposing m"
    "m_disposed m' = m_disposed m" "m_panicCaught m' = m_panicCaught m" "m_schema m' = m_schema m"
    "m_stateNames m' = m_stateNames m" "m_activeStates m' = m_activeStates m" "m_clock m' = m_clock m"
    "m_queue m' = m_queue m" "m_queueLen m' = m_queueLen m" "m_handlerLoopRunning m' = m_handlerLoopRunning m"
    "queries (m_subs m') = queries (m_subs m)" "event_valid m' = event_valid m"
    "(m_t m' = None) = (m_t m = None)"
    "tx_Mutation (cur m') = tx_Mutation (cur m)" "tx_TargetStates names (cur m') = tx_TargetStates names (cur m)"
    "tx_TargetIndexes (cur m') = tx_TargetIndexes (cur m)" "tx_TimeBefore (cur m') = tx_TimeBefore (cur m)"
    "tx_Exits (cur m') = tx_Exits (cur m)" "tx_Enters (cur m') = tx_Enters (cur m)"
    "tx_IsAccepted (cur m') = tx_IsAccepted (cur m)"
proof -
  let ?P = "\<lambda>m'. m_handlers m' = m_handlers m \<and> m_loopAlive m' = m_loopAlive m \<and> m_disposing m' = m_disposing m
    \<and> m_disposed m' = m_disposed m \<and> m_panicCaught m' = m_panicCaught m \<and> m_schema m' = m_schema m
    \<and> m_stateNames m' = m_stateNames m \<and> m_activeStates m' = m_activeStates m \<and> m_clock m' = m_clock m
    \<and> m_queue m' = m_queue m \<and> m_queueLen m' = m_queueLen m \<and> m_handlerLoopRunning m' = m_handlerLoopRunning m
    \<and> event_valid m' = event_valid m \<and> (m_t m' = None) = (m_t m = None)
    \<and> tx_Mutation (cur m') = tx_Mutation (cur m) \<and> tx_TargetStates names (cur m') = tx_TargetStates names (cur m)
    \<and> tx_TargetIndexes (cur m') = tx_TargetIndexes (cur m) \<and> tx_TimeBefore (cur m') = tx_TimeBefore (cur m)
    \<and> tx_Exits (cur m') = tx_Exits (cur m) \<and> tx_Enters (cur m') = tx_Enters (cur m)
    \<and> tx_IsAccepted (cur m') = tx_IsAccepted (cur m)"
  have gen: "?P ((upd_t (note_handler e f to) m)\<lparr>m_subs := sm, m_closed := cl\<rparr>)" for e f to sm cl
    by (cases "m_t m") (simp_all add: upd_t_def note_handler_def cur_def event_valid_def tx_TargetStates_def
      cong: option.case_cong)
  from assms consider "m' = m" | e f to where "m' = (upd_t (note_handler e f to) m)\<lparr>m_subs := m_subs m', m_closed := m_closed m'\<rparr>"
    unfolding tranquil_def by blast
  then have "?P m'"
  proof cases
    case (2 e f to)
    show ?thesis by (subst (1 2 3 4 5 6 7 8 9 10 11 12 13 14 15 16 17 18 19 20 21) 2) (rule gen)
  qed simp
  then show "m_handlers m' = m_handlers m" "m_loopAlive m' = m_loopAlive m" "m_disposing m' = m_disposing m"
    "m_disposed m' = m_disposed m" "m_panicCaught m' = m_panicCaught m" "m_schema m' = m_schema m"
    "m_stateNames m' = m_stateNames m" "m_activeStates m' = m_activeStates m" "m_clock m' = m_clock m"
    "m_queue m' = m_queue m" "m_queueLen m' = m_queueLen m" "m_handlerLoopRunning m' = m_handlerLoopRunning m"
    "event_valid m' = event_valid m" "(m_t m' = None) = (m_t m = None)"
    "tx_Mutation (cur m') = tx_Mutation (cur m)" "tx_TargetStates names (cur m') = tx_TargetStates names (cur m)"
    "tx_TargetIndexes (cur m') = tx_TargetIndexes (cur m)" "tx_TimeBefore (cur m') = tx_TimeBefore (cur m)"
    "tx_Exits (cur m') = tx_Exits (cur m)" "tx_Enters (cur m') = tx_Enters (cur m)"
    "tx_IsAccepted (cur m') = tx_IsAccepted (cur m)" by blast+
  show "queries (m_subs m') = queries (m_subs m)" using assms by (simp add: tranquil_def)
qed

text \<open>A machine between two handler calls of an accepted transition.\<close>

definition ready :: "Machine \<Rightarrow> bool" where
  "ready m = (event_valid m \<and> \<not> m_disposing m \<and> \<not> m_panicCaught m \<and> (m_handlers m \<noteq> [] \<longrightarrow> m_loopAlive m))"

lemma tranquil_ready: "tranquil m m' \<Longrightarrow> ready m \<Longrightarrow> ready m'"
  by (simp add: ready_def tranquil_fields)

lemma processHandlers_loop_accepting:
  "accepting env \<Longrightarrow> event_valid m \<Longrightarrow> (hs \<noteq> [] \<Longrightarrow> m_loopAlive m) \<Longrightarrow>
   processHandlers_loop env hs name args m = Inr (Executed, m)"
  by (induction hs) (simp_all add: run_handler_def accepting_def)

lemma emitHandler_accepting:
  assumes "accepting env" "ready m"
  shows "\<exists>m'. emitHandler env to isFinal isEnter event m = Inr (Executed, m') \<and> tranquil m m'"
proof -
  let ?m0 = "upd_t (\<lambda>t. t\<lparr>tx_latestHandlerToState := to\<rparr>) m"
  let ?m1 = "upd_t (note_handler isEnter isFinal to) m"
  have eq: "upd_t (\<lambda>t. t\<lparr>tx_latestHandlerIsEnter := isEnter, tx_latestHandlerIsFinal := isFinal\<rparr>) ?m0 = ?m1"
    by (cases "m_t m") (simp_all add: upd_t_def note_handler_def)
  have f: "m_handlers ?m1 = m_handlers m" "m_disposing ?m1 = m_disposing m" "m_disposing ?m0 = m_disposing m"
    "m_loopAlive ?m1 = m_loopAlive m" "m_panicCaught ?m1 = m_panicCaught m" "m_subs ?m1 = m_subs m"
    by (simp_all add: upd_t_def)
  have "event_valid ?m1 = event_valid m"
    by (cases "m_t m") (simp_all add: upd_t_def note_handler_def event_valid_def)
  with assms f have l: "processHandlers_loop env (m_handlers ?m1) event args ?m1 = Inr (Executed, ?m1)" for args
    by (intro processHandlers_loop_accepting) (simp_all add: ready_def)
  obtain sm chs where pw: "ProcessWhenArgs (en_expired env) (m_subs m) event (mu_Args (tx_Mutation (cur m))) = (sm, chs)"
    by fastforce
  let ?m' = "close_chans chs (?m1\<lparr>m_subs := sm\<rparr>)"
  have "emitHandler env to isFinal isEnter event m = Inr (Executed, ?m')"
    using assms(2) l by (simp add: emitHandler_def handle_def f eq processHandlers_def pw ready_def
      close_chans_def result_cases)
  moreover have "queries sm = queries (m_subs m)"
    using queries_args.process [of "en_expired env" "m_subs m" event] pw by (metis fst_conv)
  then have "tranquil m ?m'" unfolding tranquil_def by (auto simp: close_chans_def)
  ultimately show ?thesis by blast
qed

section \<open>The negotiation\<close>

definition goes_well :: "Machine \<Rightarrow> (Result \<times> Machine) res \<Rightarrow> bool" where
  "goes_well m r = (\<exists>m'. r = Inr (Executed, m') \<and> tranquil m m')"

lemma goes_well_trans: "tranquil m m' \<Longrightarrow> goes_well m' r \<Longrightarrow> goes_well m r"
  using tranquil_trans unfolding goes_well_def by blast

lemma emitExit_loop_well: "accepting env \<Longrightarrow> ready m \<Longrightarrow> goes_well m (emitExit_loop env exits m)"
proof (induction exits arbitrary: m)
  case (Cons s exits)
  then obtain m1 where "emitHandler env [] False False (s @ SuffixExit) m = Inr (Executed, m1)" "tranquil m m1"
    using emitHandler_accepting by blast
  with Cons show ?case using goes_well_trans tranquil_ready by simp
qed (simp add: goes_well_def)

lemma emitEnter_loop_well: "accepting env \<Longrightarrow> ready m \<Longrightarrow> goes_well m (emitEnter_loop env enters m)"
proof (induction enters arbitrary: m)
  case (Cons s enters)
  then obtain m1 where "emitHandler env s False True (s @ SuffixEnter) m = Inr (Executed, m1)" "tranquil m m1"
    using emitHandler_accepting by blast
  with Cons show ?case using goes_well_trans tranquil_ready by simp
qed (simp add: goes_well_def)

lemma emitSelf_loop_well: "accepting env \<Longrightarrow> ready m \<Longrightarrow> goes_well m (emitSelf_loop env n i arr Executed m)"
proof (induction n arbitrary: i m)
  case (Suc n)
  then obtain m1 where "emitHandler env (arr ! i) False False (arr ! i @ arr ! i) m = Inr (Executed, m1)" "tranquil m m1"
    using emitHandler_accepting by blast
  with Suc show ?case using goes_well_trans tranquil_ready by (simp add: Let_def)
qed (simp add: goes_well_def)

lemma emitStateState_loop_well: "accepting env \<Longrightarrow> ready m \<Longrightarrow> goes_well m (emitStateState_loop env pairs m)"
proof (induction pairs arbitrary: m)
  case (Cons p pairs)
  obtain b a where p: "p = (b, a)" by (cases p)
  from Cons obtain m1 where "emitHandler env [] False False (b @ a) m = Inr (Executed, m1)" "tranquil m m1"
    using emitHandler_accepting by blast
  with Cons p show ?case using goes_well_trans tranquil_ready by simp
qed (simp add: goes_well_def)

lemma emitFinal_loop_well: "accepting env \<Longrightarrow> ready m \<Longrightarrow> goes_well m (emitFinal_loop env enters finals m)"
proof (induction finals arbitrary: m)
  case (Cons s finals)
  let ?e = "slices_Contains enters s"
  from Cons obtain m1 where "emitHandler env (if ?e then s else []) True ?e
      (if ?e then s @ SuffixState else s @ SuffixEnd) m = Inr (Executed, m1)" "tranquil m m1"
    using emitHandler_accepting by blast
  with Cons show ?case using goes_well_trans tranquil_ready by (simp only: emitFinal_loop.simps Let_def) simp
qed (simp add: goes_well_def)

lemma negotiate_step_well:
  assumes "goes_well m r" "ready m" "\<And>m'. ready m' \<Longrightarrow> goes_well m' (f m')"
  shows "goes_well m (negotiate_step f r)"
proof -
  from assms(1) obtain m' where "r = Inr (Executed, m')" "tranquil m m'" by (auto simp: goes_well_def)
  with assms(2,3) goes_well_trans tranquil_ready show ?thesis by (simp add: negotiate_step_def)
qed

text \<open>The negotiation of an accepted mutation ends, and cancels it only if it is an auto mutation without
  targets.\<close>

lemma negotiate_accepting:
  assumes "accepting env" "ready m"
  shows "\<exists>r m'. negotiate env Executed m = Inr (r, m') \<and> tranquil m m' \<and> (r = Executed \<or> r = Canceled \<and> tx_IsAuto (cur m))"
proof (cases "m_handlerLoopRunning m")
  case True
  let ?n = "negotiate_step (emitStateStateEvents env) (negotiate_step (self_step env)
    (negotiate_step (emitEnterEvents env) (negotiate_step (emitExitEvents env) (Inr (Executed, m)))))"
  have "goes_well m ?n"
    using assms by (intro negotiate_step_well) (simp_all add: goes_well_def [of m "Inr (Executed, m)"] emitExitEvents_def
      emitEnterEvents_def self_step_def emitSelfEvents_def emitStateStateEvents_def Let_def emitExit_loop_well
      emitEnter_loop_well emitSelf_loop_well emitStateState_loop_well, simp add: goes_well_def)
  then obtain m1 where 1: "?n = Inr (Executed, m1)" "tranquil m m1" by (auto simp: goes_well_def)
  have "tx_IsAuto (cur m1) = tx_IsAuto (cur m)" using 1(2) by (simp add: tx_IsAuto_def tranquil_fields)
  moreover obtain m2 where "emitHandler env StateAny False True (StateAny @ SuffixEnter) m1 = Inr (Executed, m2)" "tranquil m1 m2"
    using emitHandler_accepting [OF assms(1) tranquil_ready [OF 1(2) assms(2)]] by blast
  ultimately show ?thesis
    using True 1 tranquil_trans by (simp add: negotiate_def auto_step_def negotiate_step_def [of "any_enter_step env"]
      any_enter_step_def)
qed (simp add: negotiate_def)

section \<open>A transition does not panic\<close>

definition names_ok :: "Machine \<Rightarrow> bool" where
  "names_ok m = (distinct (m_stateNames m) \<and> set (m_stateNames m) = set (gkeys (m_schema m))
     \<and> (\<forall>n \<in> set (m_stateNames m). strings_TrimSpace n = n))"

definition calm :: "Machine \<Rightarrow> bool" where
  "calm m = (mach_inv m \<and> names_ok m \<and> \<not> m_disposed m \<and> \<not> m_panicCaught m
     \<and> (m_handlers m \<noteq> [] \<longrightarrow> m_loopAlive m) \<and> queries (m_subs m) = ([], []))"

definition good_mut :: "Machine \<Rightarrow> Mutation \<Rightarrow> bool" where
  "good_mut m mut = (mu_Type mut \<noteq> mutationEval
     \<and> (\<exists>cs. mu_cacheCalled mut = Some cs \<and> set cs \<subseteq> set (gkeys (m_schema m))))"

lemma tx_resolve_total:
  assumes "machine_wf m" "set sts \<subseteq> set (gkeys (m_schema m))"
  shows "\<exists>ts. tx_resolve m t sts = Inr ts"
proof -
  have "resolver_ok (tx_resolver m t)" "rr_schema (tx_resolver m t) = m_schema m"
    using assms(1) by (simp_all add: resolver_ok_def machine_wf_def tx_resolver_def mach_resolver_def)
  with assms(2) default_resolver.target_total show ?thesis by (simp add: tx_resolve_def)
qed

lemma statesToSet_known:
  "mach_inv m \<Longrightarrow> set called \<subseteq> set (gkeys (m_schema m)) \<Longrightarrow>
   set (statesToSet m ty called) \<subseteq> set (gkeys (m_schema m))"
  using clock_inv_active [of m] by (cases ty) (auto simp: statesToSet_def mach_inv_def slice_simps)

lemma setupAccepted_total: "mu_cacheCalled (tx_Mutation t) = Some cs \<Longrightarrow> \<exists>t'. setupAccepted names t = Inr t'"
  by (simp add: setupAccepted_def tx_CalledStates_def Let_def)

lemma setupExitEnter_total: "mu_cacheCalled (tx_Mutation t) = Some cs \<Longrightarrow> \<exists>t'. setupExitEnter m t = Inr t'"
  by (simp add: setupExitEnter_def tx_CalledStates_def Let_def)

lemma predict_time_total:
  assumes "calm m" "distinct ts" "set ts \<subseteq> set (gkeys (m_schema m))"
  shows "\<exists>t. predict_time m mut called ts = Inr t"
proof (cases "mu_IsCheck mut")
  case False
  have "set (m_activeStates m) \<subseteq> set (gkeys (m_schema m))" "distinct (m_activeStates m)"
    using assms(1) by (simp_all add: calm_def mach_inv_def clock_inv_def)
  with False assms show ?thesis
    using predict_time_eq [of m ts mut called] by (simp add: calm_def mach_inv_def machine_wf_def names_ok_def)
qed (simp add: predict_time_def)

lemma newTransition_total:
  assumes "calm m" "good_mut m mut"
  shows "\<exists>m'. newTransition m mut = Inr m'"
proof -
  let ?t0 = "initTransition m mut"
  have wf: "machine_wf m" "mach_inv m" using assms(1) by (simp_all add: calm_def mach_inv_def)
  obtain cs where cs: "mu_cacheCalled mut = Some cs" "set cs \<subseteq> set (gkeys (m_schema m))"
    using assms(2) by (auto simp: good_mut_def)
  have t0: "tx_Mutation ?t0 = mut" by (simp add: initTransition_def)
  obtain ts where ts: "tx_resolve m ?t0 (statesToSet m (tx_Type ?t0) cs) = Inr ts"
    using tx_resolve_total [OF wf(1)] statesToSet_known [OF wf(2) cs(2)] by blast
  obtain ta where ta: "predict_time m mut cs ts = Inr ta"
    using predict_time_total [OF assms(1) tx_resolve_targets [OF ts wf(1)]] by blast
  let ?t1 = "?t0\<lparr>tx_TimeAfter := ta, tx_TargetIndexes := mach_Index m ts, tx_cacheTargetStates := Some ts\<rparr>"
  have "mu_cacheCalled (tx_Mutation ?t1) = Some cs" by (simp add: t0 cs)
  from setupAccepted_total [OF this] obtain t1 where t1: "setupAccepted (m_stateNames m) ?t1 = Inr t1" by blast
  then have "mu_cacheCalled (tx_Mutation t1) = Some cs" by (auto dest!: setupAccepted_same simp: t0 cs)
  from setupExitEnter_total [OF this] obtain t2 where "setupExitEnter m t1 = Inr t2" by blast
  with ts ta t1 t0 cs show ?thesis
    by (cases "tx_IsAccepted t1") (simp_all add: newTransition_def Let_def tx_CalledStates_def)
qed

lemma setup_completed:
  "setupAccepted names t = Inr t' \<Longrightarrow> tx_IsCompleted t' = tx_IsCompleted t"
  "setupExitEnter m t = Inr t' \<Longrightarrow> tx_IsCompleted t' = tx_IsCompleted t"
  by (auto simp: setupAccepted_def setupExitEnter_def Let_def split: sum.splits if_splits)

text \<open>An accepted new transition is ready for its handlers.\<close>

lemma newTransition_ready:
  assumes "newTransition m mut = Inr m'" "calm m"
  shows "tx_IsAccepted (cur m') \<Longrightarrow> ready m'" "calm m'" "m_queue m' = m_queue m" "m_queueLen m' = m_queueLen m"
    "m_schema m' = m_schema m" "m_stateNames m' = m_stateNames m"
proof -
  from assms(1) obtain called ts t1 t where t1: "\<exists>tAfter. predict_time m mut called ts = Inr tAfter \<and>
       setupAccepted (m_stateNames m) ((initTransition m mut)\<lparr>tx_TimeAfter := tAfter,
         tx_TargetIndexes := mach_Index m ts, tx_cacheTargetStates := Some ts\<rparr>) = Inr t1"
    and t: "if tx_IsAccepted t1 then setupExitEnter m t1 = Inr t else t = t1"
    and m': "m' = m\<lparr>m_t := Some t, m_nextTx := m_nextTx m + 1, m_rrIndex := m_stateNames m\<rparr>"
    by (rule newTransition_cases)
  have "\<not> tx_IsCompleted t1" using t1
    by (auto dest!: setup_completed simp: initTransition_def Transition_none_def)
  then have "\<not> tx_IsCompleted t" using t setup_completed(2) [of m t1 t] by (auto split: if_splits)
  then show "tx_IsAccepted (cur m') \<Longrightarrow> ready m'"
    using assms(2) by (simp add: m' ready_def event_valid_def cur_def calm_def mach_inv_def machine_wf_def)
  have "mach_inv m' = mach_inv m" by (rule mach_inv_same) (simp_all add: m')
  then show "calm m'" using assms(2) by (simp add: calm_def names_ok_def) (simp add: m')
  show "m_queue m' = m_queue m" "m_queueLen m' = m_queueLen m"
    "m_schema m' = m_schema m" "m_stateNames m' = m_stateNames m" by (simp_all add: m')
qed

text \<open>What the later phases leave alone.\<close>

definition flow :: "Machine \<Rightarrow> Machine \<Rightarrow> bool" where
  "flow m m' = (m_schema m' = m_schema m \<and> m_stateNames m' = m_stateNames m \<and> m_handlers m' = m_handlers m
     \<and> m_loopAlive m' = m_loopAlive m \<and> m_disposing m' = m_disposing m \<and> m_disposed m' = m_disposed m
     \<and> m_panicCaught m' = m_panicCaught m \<and> queries (m_subs m') = queries (m_subs m)
     \<and> m_queue m' = m_queue m \<and> m_queueLen m' = m_queueLen m
     \<and> tx_Mutation (cur m') = tx_Mutation (cur m) \<and> tx_TimeBefore (cur m') = tx_TimeBefore (cur m)
     \<and> (event_valid m \<longrightarrow> event_valid m'))"

lemma flow_refl [simp]: "flow m m"
  by (simp add: flow_def)

lemma flow_trans: "flow m m' \<Longrightarrow> flow m' m'' \<Longrightarrow> flow m m''"
  by (simp add: flow_def)

lemma tranquil_flow: "tranquil m m' \<Longrightarrow> flow m m'"
  by (simp add: flow_def tranquil_fields)

lemma flow_ready: "flow m m' \<Longrightarrow> ready m \<Longrightarrow> ready m'"
  by (simp add: flow_def ready_def)

lemma setupExitEnter_flow:
  assumes "setupExitEnter m (t\<lparr>tx_TargetIndexes := a, tx_cacheTargetStates := b\<rparr>) = Inr t'"
  shows "tx_Mutation t' = tx_Mutation t" "tx_TimeBefore t' = tx_TimeBefore t"
    "tx_IsCompleted t' = tx_IsCompleted t" "tx_IsAccepted t' = tx_IsAccepted t"
  using assms by (auto simp: setupExitEnter_def Let_def split: sum.splits)

lemma recheck_auto_total:
  assumes "mach_inv m" "mu_cacheCalled (tx_Mutation (cur m)) = Some cs" "set called \<subseteq> set (gkeys (m_schema m))"
  shows "\<exists>m'. recheck_auto called m = Inr m' \<and> flow m m'"
proof (cases "tx_IsAuto (cur m)")
  case True
  let ?clean = "StatesDiff called (StatesDiff called (tx_TargetStates (m_stateNames m) (cur m)))"
  have "set ?clean \<subseteq> set (gkeys (m_schema m))" using assms(3) by auto
  then obtain ts where ts: "tx_resolve m (cur m) (statesToSet m MutationAdd ?clean) = Inr ts"
    using tx_resolve_total [of m] statesToSet_known [OF assms(1)] assms(1) unfolding mach_inv_def by blast
  let ?t = "(cur m)\<lparr>tx_TargetIndexes := mach_Index m ts, tx_cacheTargetStates := Some ts\<rparr>"
  obtain t' where t': "setupExitEnter m ?t = Inr t'"
    using setupExitEnter_total [of ?t cs m] assms(2) by auto
  have "flow m (m\<lparr>m_t := Some t'\<rparr>)"
    using setupExitEnter_flow [OF t'] by (auto simp: flow_def cur_def event_valid_def split: option.splits)
  with True ts t' show ?thesis by (simp add: recheck_auto_def Let_def)
qed (simp add: recheck_auto_def)

lemma ProcessStateCtx_queries: "ProcessStateCtx sm a d = (sm', tc) \<Longrightarrow> queries sm' = queries sm"
  by (auto simp: ProcessStateCtx_def queries_def Let_def split: prod.splits)

lemma upd_flow:
  assumes "\<And>t. tx_Mutation (f t) = tx_Mutation t" "\<And>t. tx_TimeBefore (f t) = tx_TimeBefore t"
    "\<And>t. tx_IsCompleted (f t) = tx_IsCompleted t" "\<And>t. tx_IsAccepted (f t) = tx_IsAccepted t"
  shows "flow m (upd_t f m)"
  using assms by (auto simp: flow_def upd_t_def cur_def event_valid_def split: option.splits)

lemma setActiveStates_flow: "flow m (setActiveStates m called ts)"
  by (auto simp: flow_def cur_def event_valid_def setActiveStates_def Let_def split: prod.splits)

lemma commit_states_flow: "flow m (commit_states called m)"
proof -
  have 1: "flow m1 (m1\<lparr>m_subs := sm, m_canceled := c\<rparr>)" if "queries sm = queries (m_subs m1)" for m1 sm c
    using that by (simp add: flow_def cur_def event_valid_def)
  have tail: "flow m1 (case ProcessStateCtx (m_subs m1) a d of (sm, tc) \<Rightarrow>
      upd_t (\<lambda>t. t\<lparr>tx_cacheActivated := a, tx_cacheDeactivated := d, tx_TimeAfter := ta\<rparr>)
        (m1\<lparr>m_subs := sm, m_canceled := m_canceled m1 @ tc\<rparr>))" for m1 a d ta
  proof (cases "ProcessStateCtx (m_subs m1) a d")
    case (Pair sm tc)
    have "flow m1 (upd_t (\<lambda>t. t\<lparr>tx_cacheActivated := a, tx_cacheDeactivated := d, tx_TimeAfter := ta\<rparr>)
        (m1\<lparr>m_subs := sm, m_canceled := m_canceled m1 @ tc\<rparr>))"
      by (rule flow_trans [OF 1 upd_flow]) (simp_all add: ProcessStateCtx_queries [OF Pair])
    then show ?thesis by (simp add: Pair)
  qed
  show ?thesis unfolding commit_states_def Let_def by (rule flow_trans [OF setActiveStates_flow tail])
qed

lemma IsTime_total:
  assumes "length t \<le> length (m_stateNames m)"
  shows "\<exists>b. IsTime m t None = Inr b"
proof -
  have "\<exists>b. time_all bad mclock states t = Inr b" if "length t \<le> length states" for bad mclock states
    using that by (induction bad mclock states t rule: time_all.induct) auto
  with assms show ?thesis by (auto simp: IsTime_def)
qed

lemma run_finals_total:
  assumes "accepting env" "ready m" "length (tx_TimeBefore (cur m)) \<le> length (m_stateNames m)"
  shows "\<exists>b m'. run_finals env hh m = Inr ((Executed, b), m') \<and> flow m m'"
proof -
  have "goes_well m (if hh \<or> HasWhenArgs (m_subs m) then emitFinalEvents env m else Inr (Executed, m))"
    using emitFinal_loop_well [OF assms(1,2)] by (simp add: emitFinalEvents_def goes_well_def)
  then obtain m1 where 1: "(if hh \<or> HasWhenArgs (m_subs m) then emitFinalEvents env m else Inr (Executed, m)) = Inr (Executed, m1)"
    and 2: "tranquil m m1" by (auto simp: goes_well_def)
  obtain b where "IsTime m1 (tx_TimeBefore (cur m1)) None = Inr b"
    using IsTime_total [of "tx_TimeBefore (cur m1)" m1] assms(3) by (auto simp: tranquil_fields [OF 2])
  with 1 show ?thesis using tranquil_flow [OF 2] by (simp add: run_finals_def)
qed

lemma apply_phase_total:
  assumes "accepting env" "r = Executed \<and> ready m \<or> r = Canceled"
    "length (tx_TimeBefore (cur m)) \<le> length (m_stateNames m)"
  shows "\<exists>b m'. apply_phase env called r m = Inr ((r, b), m') \<and> flow m m'"
  using assms(2)
proof
  assume r: "r = Executed \<and> ready m"
  have c: "flow m (commit_states called m)" by (rule commit_states_flow)
  with r have "ready (commit_states called m)" using flow_ready by blast
  from run_finals_total [OF assms(1) this, of "m_handlerLoopRunning m"] c assms(3)
  obtain b m' where "run_finals env (m_handlerLoopRunning m) (commit_states called m) = Inr ((Executed, b), m')"
    "flow (commit_states called m) m'" by (auto simp: flow_def)
  with r c flow_trans show ?thesis by (auto simp: apply_phase_def)
qed (auto simp: apply_phase_def intro!: upd_flow)

text \<open>Whole transitions: a mutation brings at most one other one with it, an auto mutation none.\<close>

definition settled :: "Machine \<Rightarrow> Machine \<Rightarrow> bool" where
  "settled m m' = (m_schema m' = m_schema m \<and> m_stateNames m' = m_stateNames m \<and> m_handlers m' = m_handlers m
     \<and> m_loopAlive m' = m_loopAlive m \<and> m_disposing m' = m_disposing m \<and> m_disposed m' = m_disposed m
     \<and> m_panicCaught m' = m_panicCaught m \<and> queries (m_subs m') = queries (m_subs m)
     \<and> tx_Mutation (cur m') = tx_Mutation (cur m))"

definition follow_ups :: "Schema \<Rightarrow> Mutation \<Rightarrow> Mutation list \<Rightarrow> Mutation list \<Rightarrow> bool" where
  "follow_ups schema mut q q' = (\<exists>extra. q' = extra @ q \<and> length extra \<le> (if mu_IsAuto mut then 0 else 1)
     \<and> (\<forall>x \<in> set extra. mu_IsAuto x \<and> mu_Type x = MutationAdd
          \<and> (\<exists>cs. mu_cacheCalled x = Some cs \<and> set cs \<subseteq> set (gkeys schema))))"

lemma settled_trans: "settled m m' \<Longrightarrow> settled m' m'' \<Longrightarrow> settled m m''"
  by (simp add: settled_def)

lemma flow_settled: "flow m m' \<Longrightarrow> settled m m'"
  by (simp add: flow_def settled_def)

lemma follow_ups_none [simp]: "follow_ups schema mut q q"
  by (simp add: follow_ups_def)

lemma upd_settled: "(\<And>t. tx_Mutation (f t) = tx_Mutation t) \<Longrightarrow> settled m (upd_t f m)"
  by (auto simp: settled_def upd_t_def cur_def split: option.splits)

lemma prepend_auto:
  assumes "names_ok m" "\<not> m_disposing m" "NewAutoMutation m = Some mut"
  shows "\<exists>m'. prependMut m mut = Inr (Some m') \<and> settled m m'
    \<and> (tx_IsAuto (cur m) \<or> follow_ups (m_schema m) (tx_Mutation (cur m)) (m_queue m) (m_queue m'))"
proof -
  let ?toAdd = "auto_toAdd (m_disposing m) (m_schema m) (m_stateNames m) (m_activeStates m)"
  have mut: "mut = Mutation_zero\<lparr>mu_Type := MutationAdd, mu_Called := mach_Index m ?toAdd, mu_IsAuto := True,
      mu_cacheCalled := Some ?toAdd\<rparr>"
    using assms(3) by (simp add: NewAutoMutation_def Let_def split: if_splits)
  have sub: "set ?toAdd \<subseteq> set (gkeys (m_schema m))" by (auto simp: auto_toAdd_def)
  then have "IndexToStates (m_stateNames m) (mach_Index m ?toAdd) = Inr ?toAdd"
    using assms(1,2) IndexToStates_StatesToIndex [of ?toAdd "m_stateNames m"]
    by (auto simp: mach_Index_def names_ok_def)
  moreover have "mach_mustParse m ?toAdd = Inr (slicesUniq ?toAdd)"
    using sub assms(2) mustParseStates_known by (simp add: mach_mustParse_def)
  ultimately show ?thesis
    using assms(2) sub by (auto simp: prependMut_def mut Let_def settled_def cur_def follow_ups_def tx_IsAuto_def)
qed

lemma auto_phase_total:
  assumes "names_ok m" "mu_cacheCalled (tx_Mutation (cur m)) = Some cs"
  shows "\<exists>m'. auto_phase r b m = Inr m' \<and> settled m m'
    \<and> follow_ups (m_schema m) (tx_Mutation (cur m)) (m_queue m) (m_queue m')"
proof (cases "r = Canceled")
  case True
  have "settled m (upd_t (\<lambda>t. t\<lparr>tx_IsAccepted := False\<rparr>) m)" by (rule upd_settled) simp
  moreover have "m_queue (upd_t (\<lambda>t. t\<lparr>tx_IsAccepted := False\<rparr>) m) = m_queue m" by (simp add: upd_t_def)
  ultimately show ?thesis using True by (simp add: auto_phase_def)
next
  case False
  obtain h where h: "tx_IsHealth (m_stateNames m) (cur m) = Inr h"
    using assms(2) by (simp add: tx_IsHealth_def tx_CalledStates_def)
  show ?thesis
  proof (cases "\<not> m_disposing m \<and> b \<and> \<not> tx_IsAuto (cur m) \<and> \<not> h")
    case True
    show ?thesis
    proof (cases "NewAutoMutation m")
      case (Some mut)
      with prepend_auto [OF assms(1) _ Some] True h False show ?thesis by (auto simp: auto_phase_def)
    qed (use True h False in \<open>simp add: auto_phase_def settled_def\<close>)
  qed (use h False in \<open>auto simp: auto_phase_def settled_def\<close>)
qed

lemma mutate_phase_total:
  assumes "accepting env" "r = Executed \<and> ready m \<or> r = Canceled" "mach_inv m" "names_ok m"
    "mu_cacheCalled (tx_Mutation (cur m)) = Some cs" "set called \<subseteq> set (gkeys (m_schema m))"
    "length (tx_TimeBefore (cur m)) \<le> length (m_stateNames m)"
  shows "\<exists>m'. mutate_phase env called r m = Inr (r, m') \<and> settled m m'
    \<and> follow_ups (m_schema m) (tx_Mutation (cur m)) (m_queue m) (m_queue m')"
proof -
  obtain m1 where 1: "recheck_auto called m = Inr m1" "flow m m1"
    using recheck_auto_total [OF assms(3,5,6)] by blast
  then have "r = Executed \<and> ready m1 \<or> r = Canceled" "length (tx_TimeBefore (cur m1)) \<le> length (m_stateNames m1)"
    using assms(2,7) flow_ready by (auto simp: flow_def)
  from apply_phase_total [OF assms(1) this] obtain b m2
    where 2: "apply_phase env called r m1 = Inr ((r, b), m2)" "flow m1 m2" by blast
  have 12: "flow m m2" using 1(2) 2(2) by (rule flow_trans)
  obtain m3 where 3: "any_state_step env r m2 = Inr (r, m3)" "flow m2 m3"
  proof (cases "r \<noteq> Canceled \<and> m_handlerLoopRunning m2")
    case True
    with assms(2) flow_ready [OF 12] have "ready m2" "r = Executed" by auto
    with emitHandler_accepting [OF assms(1)] obtain m3
      where "emitHandler env StateAny True True (StateAny @ SuffixState) m2 = Inr (Executed, m3)" "tranquil m2 m3" by blast
    with that [of m3] True \<open>r = Executed\<close> tranquil_flow show ?thesis by (simp add: any_state_step_def)
  next
    case False
    with that [of m2] show ?thesis by (auto simp: any_state_step_def)
  qed
  have 13: "flow m m3" using 12 3(2) by (rule flow_trans)
  then have "names_ok m3" "mu_cacheCalled (tx_Mutation (cur m3)) = Some cs"
    using assms(4,5) by (simp_all add: flow_def names_ok_def)
  from auto_phase_total [OF this] obtain m4 where 4: "auto_phase r b m3 = Inr m4" "settled m3 m4"
    "follow_ups (m_schema m3) (tx_Mutation (cur m3)) (m_queue m3) (m_queue m4)" by blast
  have "follow_ups (m_schema m) (tx_Mutation (cur m)) (m_queue m) (m_queue m4)"
    using 4(3) 13 by (simp add: flow_def)
  with 1 2 3 4 settled_trans [OF flow_settled [OF 13] 4(2)] show ?thesis by (simp add: mutate_phase_def)
qed

lemma final_result_total:
  assumes "\<not> m_disposing m" "set called \<subseteq> set (gkeys (m_schema m))"
  shows "\<exists>x. final_result called r m = Inr x"
  using assms mustParseStates_known [of False called "m_schema m"]
  by (simp add: final_result_def Let_def Not_def not'_def mach_mustParse_def)

lemma negotiate_total:
  assumes "accepting env" "tx_IsAccepted (cur m) \<Longrightarrow> ready m"
  shows "\<exists>r m'. negotiate env (if tx_IsAccepted (cur m) then Executed else Canceled) m = Inr (r, m') \<and> tranquil m m'
    \<and> (r = Executed \<and> ready m' \<or> r = Canceled)"
proof (cases "tx_IsAccepted (cur m)")
  case True
  with negotiate_accepting [OF assms(1) assms(2)] tranquil_ready show ?thesis using assms(2) by fastforce
next
  case False
  then have "negotiate env Canceled m = Inr (Canceled, m)"
    by (simp add: negotiate_def negotiate_step_def auto_step_def)
  with False show ?thesis by simp
qed

lemma emitEvents_total:
  assumes "accepting env" "tx_IsAccepted (cur m) \<Longrightarrow> ready m" "mach_inv m" "names_ok m"
    "mu_cacheCalled (tx_Mutation (cur m)) = Some cs" "set cs \<subseteq> set (gkeys (m_schema m))"
    "length (tx_TimeBefore (cur m)) \<le> length (m_stateNames m)"
  shows "\<exists>x m'. emitEvents env m = Inr (x, m') \<and> settled m m'
    \<and> follow_ups (m_schema m) (tx_Mutation (cur m)) (m_queue m) (m_queue m')"
proof -
  obtain r m1 where 1: "negotiate env (if tx_IsAccepted (cur m) then Executed else Canceled) m = Inr (r, m1)"
    "tranquil m m1" "r = Executed \<and> ready m1 \<or> r = Canceled"
    using negotiate_total [OF assms(1,2)] by blast
  note f = tranquil_fields [OF 1(2)]
  have i: "mach_inv m1" using assms(3) mach_inv_same [of m1 m] f by simp
  obtain m2 where 2: "(if \<not> mu_IsCheck (tx_Mutation (cur m1)) then mutate_phase env cs r m1 else check_phase r m1) = Inr (r, m2)"
    "settled m1 m2" "follow_ups (m_schema m) (tx_Mutation (cur m)) (m_queue m) (m_queue m2)"
  proof (cases "mu_IsCheck (tx_Mutation (cur m1))")
    case True
    define m2 where "m2 = (if r = Canceled then upd_t (\<lambda>t. t\<lparr>tx_IsAccepted := False\<rparr>) m1 else m1)"
    have "settled m1 m2" "m_queue m2 = m_queue m1"
      by (auto simp: m2_def settled_def upd_t_def cur_def split: option.splits)
    with that [of m2] True f show ?thesis by (simp add: check_phase_def m2_def)
  next
    case False
    with mutate_phase_total [OF assms(1) 1(3) i, of cs cs] assms(4-7) that show ?thesis
      by (auto simp: f names_ok_def)
  qed
  let ?m3 = "upd_t (\<lambda>t. t\<lparr>tx_QueueLen := ucast (m_queueLen m2), tx_IsCompleted := True\<rparr>) m2"
  have 3: "settled m2 ?m3" by (rule upd_settled) simp
  have s: "settled m ?m3"
    using flow_settled [OF tranquil_flow [OF 1(2)]] 2(2) 3 settled_trans by blast
  have q: "m_queue ?m3 = m_queue m2" by (simp add: upd_t_def)
  have "\<not> m_disposing ?m3" "set cs \<subseteq> set (gkeys (m_schema ?m3))"
    using s assms(3,6) by (simp_all add: settled_def mach_inv_def machine_wf_def)
  from final_result_total [OF this] obtain x where "final_result cs r ?m3 = Inr x" by blast
  with 1 2 s q assms(5) show ?thesis by (simp add: emitEvents_def tx_CalledStates_def Let_def)
qed

lemma ProcessWhenQuery_none:
  "queries sm = ([], []) \<Longrightarrow> ProcessWhenQuery ex query mclock sm = Inr (sm, [])"
  by (simp add: ProcessWhenQuery_def processWhenQueryCtx_def queries_def)

lemma processSubscriptions_total:
  assumes "queries (m_subs m) = ([], [])"
  shows "\<exists>m'. processSubscriptions env m = Inr m' \<and> queries (m_subs m') = ([], [])"
proof -
  let ?ex = "en_expired env"
  obtain sm1 c1 where 1: "ProcessWhen ?ex (m_subs m) (tx_cacheActivated (cur m)) (tx_cacheDeactivated (cur m)) = (sm1, c1)"
    by fastforce
  obtain sm2 c2 where 2: "ProcessWhenTime ?ex (m_clock m) sm1 (tx_ClockBefore (m_stateNames m) (cur m)) = (sm2, c2)"
    by fastforce
  obtain sm3 c3 where 3: "ProcessWhenTimeSum ?ex (m_clock m) sm2 = (sm3, c3)" by fastforce
  have "queries sm1 = ([], [])" using queries_when.process [of ?ex "m_subs m"] 1 assms by (metis fst_conv)
  then have "queries sm2 = ([], [])" using queries_time.process [of ?ex "m_clock m" sm1] 2 by (metis fst_conv)
  then have "queries sm3 = ([], [])" using queries_sum.process [of ?ex "m_clock m" sm2] 3 by (metis fst_conv)
  then have "queries (sm3\<lparr>sm_whenQueue := x\<rparr>) = ([], [])" for x by (simp add: queries_def)
  with 1 2 3 show ?thesis
    by (simp add: processSubscriptions_def Let_def ProcessWhenQueue_eq ProcessWhenQuery_none close_chans_def)
qed

lemma after_transition_total:
  assumes "queries (m_subs m) = ([], [])"
  shows "\<exists>m'. after_transition env mut m = Inr m' \<and> queries (m_subs m') = ([], [])"
  using assms processSubscriptions_total [OF assms]
  by (auto simp: after_transition_def close_chans_def split: option.splits)

end
