(* ===== verification/Am_Drain.thy ===== *)
theory Am_Drain
  imports Am_Total
begin

text \<open>
  Progress: with handlers that accept and queue nothing, every mutation is carried out or cancelled, the
  queue runs empty and the mutation methods return.
\<close>

section \<open>A mutation is carried out or cancelled\<close>

lemma calm_settled:
  assumes "calm m" "settled m m'" "mach_inv m'"
  shows "calm m'"
  using assms by (simp add: calm_def settled_def names_ok_def)

lemma tail_settled:
  assumes "only_notified (m\<lparr>m_timeLast := ti\<rparr>) m'" "queries (m_subs m') = queries (m_subs m)"
  shows "settled (m\<lparr>m_t := None\<rparr>) ((upd_t CleanCache m')\<lparr>m_t := None\<rparr>)" "m_queue (upd_t CleanCache m') = m_queue m"
proof -
  obtain sm c k where 1: "m' = m\<lparr>m_timeLast := ti, m_subs := sm, m_closed := c, m_checks := k\<rparr>"
    using assms(1) unfolding only_notified_def by blast
  show "settled (m\<lparr>m_t := None\<rparr>) ((upd_t CleanCache m')\<lparr>m_t := None\<rparr>)" "m_queue (upd_t CleanCache m') = m_queue m"
    using assms(2) unfolding 1 by (simp_all add: settled_def upd_t_def cur_def)
qed

lemma calm_t [simp]: "calm (m\<lparr>m_t := t\<rparr>) = calm m"
proof -
  have "mach_inv (m\<lparr>m_t := t\<rparr>) = mach_inv m" by (rule mach_inv_same) simp_all
  then show ?thesis by (simp add: calm_def names_ok_def)
qed

lemma mach_inv_t: "mach_inv (m\<lparr>m_t := t\<rparr>) = mach_inv m"
  by (rule mach_inv_same) simp_all

lemma run_mutation_total:
  assumes "accepting env" "calm m" "good_mut m mut"
  shows "\<exists>r m'. run_mutation env mut m = Inr (Some r, m') \<and> calm m' \<and> m_schema m' = m_schema m
    \<and> follow_ups (m_schema m) mut (m_queue m) (m_queue m')"
proof (cases "ctx_expired (en_expired env) (mu_ctx mut)")
  case True
  with assms(2) show ?thesis by (simp add: run_mutation_def)
next
  case False
  obtain cs where cs: "mu_cacheCalled mut = Some cs" "set cs \<subseteq> set (gkeys (m_schema m))" "mu_Type mut \<noteq> mutationEval"
    using assms(3) by (auto simp: good_mut_def)
  obtain m1 where m1: "newTransition m mut = Inr m1" using newTransition_total [OF assms(2,3)] by blast
  have inv: "clock_inv m" "machine_wf m" "mach_inv m" "\<not> m_disposed m" using assms(2) by (simp_all add: calm_def mach_inv_def)
  note nr = newTransition_ready [OF m1 assms(2)]
  note nf = newTransition_facts [OF m1 inv(1,2)]
  have c1: "mach_inv m1" "names_ok m1" using nr(2) by (simp_all add: calm_def)
  have "length (tx_TimeBefore (cur m1)) \<le> length (m_stateNames m1)"
    using inv(4) by (simp add: nf nr mach_time_def)
  with emitEvents_total [OF assms(1) nr(1) c1, of cs] cs nf(2) nr(5)
  obtain x m2 where m2: "emitEvents env m1 = Inr (x, m2)" "settled m1 m2"
    "follow_ups (m_schema m) mut (m_queue m) (m_queue m2)"
    by (auto simp: nr)
  let ?m3 = "m2\<lparr>m_timeLast := tx_TimeAfter (cur m2)\<rparr>"
  have q2: "queries (m_subs ?m3) = ([], [])" using m2(2) nr(2) by (simp add: settled_def calm_def)
  obtain m4 where m4: "after_transition env mut ?m3 = Inr m4" "queries (m_subs m4) = ([], [])"
    using after_transition_total [OF q2] by blast
  have r: "run_mutation env mut m = Inr (Some x, upd_t CleanCache m4)"
    using False cs(3) m1 m2(1) m4(1) by (simp add: run_mutation_def)
  then have inv': "mach_inv (upd_t CleanCache m4)" using run_mutation_inv inv(3) by blast
  note ts = tail_settled [OF after_transition_notified [OF m4(1)]]
  have "settled (m1\<lparr>m_t := None\<rparr>) (m2\<lparr>m_t := None\<rparr>)" using m2(2) by (simp add: settled_def cur_def)
  with ts(1) m4(2) q2 have s: "settled (m1\<lparr>m_t := None\<rparr>) ((upd_t CleanCache m4)\<lparr>m_t := None\<rparr>)"
    using settled_trans by simp
  have "calm ((upd_t CleanCache m4)\<lparr>m_t := None\<rparr>)"
    by (rule calm_settled [OF _ s]) (simp_all add: nr inv' mach_inv_t)
  moreover have "m_schema (upd_t CleanCache m4) = m_schema m" using s nr(5) by (simp add: settled_def)
  moreover have "m_queue (upd_t CleanCache m4) = m_queue m2" using ts(2) m4(2) q2 by simp
  ultimately show ?thesis using r m2(3) by simp
qed

section \<open>The queue runs empty\<close>

definition weight :: "Mutation list \<Rightarrow> nat" where
  "weight q = sum_list (map (\<lambda>mut. if mu_IsAuto mut then 1 else 2) q)"

lemma weight_le: "weight q \<le> 2 * length q"
  by (induction q) (simp_all add: weight_def)

lemma follow_ups_weight:
  assumes "follow_ups schema mut q q'"
  shows "weight q' < weight (mut # q)" "length q' \<le> length (mut # q)"
    "x \<in> set q' \<Longrightarrow> x \<in> set q \<or> mu_Type x = MutationAdd \<and> (\<exists>cs. mu_cacheCalled x = Some cs \<and> set cs \<subseteq> set (gkeys schema))"
proof -
  obtain extra where e: "q' = extra @ q" "length extra \<le> (if mu_IsAuto mut then 0 else 1)"
    "\<forall>x \<in> set extra. mu_IsAuto x \<and> mu_Type x = MutationAdd
       \<and> (\<exists>cs. mu_cacheCalled x = Some cs \<and> set cs \<subseteq> set (gkeys schema))"
    using assms unfolding follow_ups_def by blast
  have "extra = [] \<or> (\<exists>y. extra = [y])" using e(2) by (cases extra) (auto split: if_splits)
  with e show "weight q' < weight (mut # q)" "length q' \<le> length (mut # q)"
    by (auto simp: weight_def split: if_splits)
  show "x \<in> set q \<or> mu_Type x = MutationAdd \<and> (\<exists>cs. mu_cacheCalled x = Some cs \<and> set cs \<subseteq> set (gkeys schema))"
    if "x \<in> set q'" using that e by auto
qed

lemma calm_queue:
  "calm (shift_queue (m\<lparr>m_queueRunning := b\<rparr>) mut rest) = calm m"
  "calm (m\<lparr>m_queueProcessing := p, m_queueRunning := b\<rparr>) = calm m"
proof -
  have 1: "mach_inv (shift_queue (m\<lparr>m_queueRunning := b\<rparr>) mut rest) = mach_inv m"
    "mach_inv (m\<lparr>m_queueProcessing := p, m_queueRunning := b\<rparr>) = mach_inv m"
    by (rule mach_inv_same; simp)+
  then show "calm (m\<lparr>m_queueProcessing := p, m_queueRunning := b\<rparr>) = calm m"
    by (simp add: calm_def names_ok_def)
  show "calm (shift_queue (m\<lparr>m_queueRunning := b\<rparr>) mut rest) = calm m"
    unfolding calm_def names_ok_def 1 by (simp add: shift_queue_def Let_def)
qed

lemma queueLen_zero:
  assumes "queueLen_ok m" "length (m_queue m) < 2 ^ 32"
  shows "m_queueLen m = 0 \<longleftrightarrow> m_queue m = []"
proof -
  have "unat (m_queueLen m) = length (m_queue m)"
    using assms by (simp add: queueLen_ok_def unat_of_nat)
  then show ?thesis by (metis length_0_conv unat_eq_zero)
qed

lemma queue_loop_drains:
  "accepting env \<Longrightarrow> calm m \<Longrightarrow> \<forall>mut \<in> set (m_queue m). good_mut m mut \<Longrightarrow> queueLen_ok m \<Longrightarrow>
   length (m_queue m) < 2 ^ 32 \<Longrightarrow> weight (m_queue m) \<le> fuel \<Longrightarrow>
   \<exists>ret' m'. queue_loop env fuel ret m = Inr (Inr ret', m') \<and> m_queue m' = [] \<and> calm m' \<and> m_schema m' = m_schema m"
proof (induction fuel arbitrary: ret m)
  case 0
  then have "m_queue m = []" by (cases "m_queue m") (auto simp: weight_def split: if_splits)
  with 0 queueLen_zero show ?case by auto
next
  case (Suc fuel)
  show ?case
  proof (cases "m_queue m")
    case Nil
    with Suc.prems queueLen_zero show ?thesis by auto
  next
    case (Cons mut rest)
    let ?m1 = "shift_queue (m\<lparr>m_queueRunning := True\<rparr>) mut rest"
    have c1: "calm ?m1" using Suc.prems(2) by (simp add: calm_queue)
    have g1: "good_mut ?m1 mut" using Suc.prems(3) Cons by (simp add: good_mut_def)
    obtain r m2 where m2: "run_mutation env mut ?m1 = Inr (Some r, m2)" "calm m2" "m_schema m2 = m_schema m"
      "follow_ups (m_schema m) mut rest (m_queue m2)"
      using run_mutation_total [OF Suc.prems(1) c1 g1] by auto
    have l2: "queueLen_ok m2" using queue_len.mutation [OF m2(1)] queueLen_ops(3) by blast
    note w = follow_ups_weight [OF m2(4)]
    have g2: "\<forall>mut \<in> set (m_queue m2). good_mut m2 mut"
    proof
      fix x
      assume "x \<in> set (m_queue m2)"
      from w(3) [OF this] Suc.prems(3) Cons show "good_mut m2 x" unfolding good_mut_def m2(3) by auto
    qed
    from Suc.IH [OF Suc.prems(1) m2(2) g2 l2, of "ret @ [r]"] w(1,2) Suc.prems(5,6) Cons m2(3)
    obtain ret' m' where "queue_loop env fuel (ret @ [r]) m2 = Inr (Inr ret', m')" "m_queue m' = []" "calm m'"
      "m_schema m' = m_schema m" by auto
    moreover have "\<not> m_queueLen m = 0" using queueLen_zero Suc.prems(4,5) Cons by auto
    moreover have "\<not> m_disposing m" using Suc.prems(2) by (simp add: calm_def mach_inv_def machine_wf_def)
    ultimately show ?thesis using m2(1) Cons by (simp add: Let_def)
  qed
qed

lemma calm_end: "calm (queue_end m) = calm m"
proof -
  have "mach_inv (queue_end m) = mach_inv m" by (rule mach_inv_same) simp_all
  then show ?thesis
    unfolding calm_def names_ok_def
    by (simp add: queue_end_def ProcessWhenQueueEnds_def close_chans_def queries_def Let_def)
qed

lemma processQueue_total:
  assumes "accepting env" "calm m" "\<forall>mut \<in> set (m_queue m). good_mut m mut" "queueLen_ok m"
    "length (m_queue m) < 2 ^ 32" "2 * length (m_queue m) \<le> fuel" "\<not> m_queueProcessing m"
  shows "\<exists>r m'. processQueue env fuel m = Inr (r, m') \<and> m_queue m' = [] \<and> \<not> m_queueProcessing m' \<and> calm m'"
proof (cases "m_queue m = []")
  case True
  then show ?thesis using assms queueLen_zero [OF assms(4,5)] by (simp add: processQueue_def processQueue_busy_def)
next
  case False
  let ?m0 = "m\<lparr>m_queueProcessing := True, m_queueRunning := False\<rparr>"
  have "processQueue_busy m = None"
    using False assms queueLen_zero [OF assms(4,5)]
    by (simp add: processQueue_busy_def calm_def mach_inv_def machine_wf_def)
  moreover have "weight (m_queue ?m0) \<le> fuel" using weight_le [of "m_queue m"] assms(6) by simp
  then obtain ret m' where "queue_loop env fuel [] ?m0 = Inr (Inr ret, m')" "m_queue m' = []" "calm m'"
    using queue_loop_drains [of env ?m0 fuel "[]"] assms by (auto simp: calm_queue good_mut_def queueLen_ok_def)
  ultimately show ?thesis by (simp add: processQueue_def calm_end)
qed

text \<open>C6. The queue runs empty: on a calm machine (a consistent clock, a well-formed schema of named states
  whose names are not changed by trimming, neither disposing nor disposed, no panic pending, a live handler
  loop where there are handlers, and no \<open>WhenQuery\<close> subscriptions) that is not yet processing its queue of
  less than \<open>2^32\<close> mutations, and when all handlers accept without queueing mutations of their own,
  \<open>processQueue\<close> takes every queued mutation of defined states (no evals) and the auto mutations these
  bring with them, at most one each, without a panic or a deadlock; two loop rounds per queued mutation are
  enough. The queue is empty, the lock is released and the machine is as calm as before. Without the
  condition on \<open>WhenQuery\<close> a panic is possible, see \<open>query_expired_panics\<close>.\<close>

theorem processQueue_drains:
  assumes "accepting env" "calm m" "\<forall>mut \<in> set (m_queue m). good_mut m mut" "queueLen_ok m"
    "length (m_queue m) < 2 ^ 32" "2 * length (m_queue m) \<le> fuel" "\<not> m_queueProcessing m"
  shows "\<exists>r m'. processQueue env fuel m = Inr (r, m') \<and> m_queue m' = [] \<and> \<not> m_queueProcessing m' \<and> calm m'"
  by (rule processQueue_total [OF assms])

section \<open>The methods return\<close>

definition idle :: "Machine \<Rightarrow> bool" where
  "idle m = (calm m \<and> m_queue m = [] \<and> m_queueLen m = 0 \<and> \<not> m_queueProcessing m)"

lemma queueMutation_idle:
  assumes "m_queue m = []" "mach_mustParse m states = Inr parsed"
  shows "queueMutation m ty states args ev = Inr (Executed, m) \<or>
    (\<exists>mut. queueMutation m ty states args ev = Inr (m_queueTicksPending m + 1 + m_queueTick m,
        m\<lparr>m_queue := [mut], m_queueLen := 1, m_queueTicksPending := m_queueTicksPending m + 1\<rparr>)
      \<and> mu_Type mut = ty \<and> mu_cacheCalled mut = Some parsed)"
proof -
  let ?mut = "Mutation_zero\<lparr>mu_Type := ty, mu_Called := mach_Index m parsed, mu_Args := args,
    mu_Source := mut_source m ev, mu_cacheCalled := Some parsed, mu_QueueLen := 1,
    mu_QueueTick := m_queueTicksPending m + 1 + m_queueTick m, mu_QueueTickNow := m_queueTick m\<rparr>"
  have "queueMutation m ty states args ev = Inr (Executed, m) \<or>
    queueMutation m ty states args ev = Inr (m_queueTicksPending m + 1 + m_queueTick m,
        m\<lparr>m_queue := [?mut], m_queueLen := 1, m_queueTicksPending := m_queueTicksPending m + 1\<rparr>)"
    by (simp add: queueMutation_def Let_def assms)
  moreover have "mu_Type ?mut = ty" "mu_cacheCalled ?mut = Some parsed" by simp_all
  ultimately show ?thesis by blast
qed

lemma queued_once:
  assumes "accepting env" "idle m" "set states \<subseteq> set (gkeys (m_schema m))" "ty \<noteq> mutationEval"
    "m_queueTicksPending m + 1 + m_queueTick m \<noteq> 0" "2 \<le> fuel"
  shows "\<exists>r m'. finish_prep env fuel (queue_prep m ty states args ev) = Inr (r, m') \<and> idle m'"
proof -
  have m: "calm m" "m_queue m = []" "\<not> m_queueProcessing m" "\<not> m_disposing m"
    using assms(2) by (simp_all add: idle_def calm_def mach_inv_def machine_wf_def)
  have p: "mach_mustParse m states = Inr (slicesUniq states)"
    using assms(3) m(4) mustParseStates_known by (simp add: mach_mustParse_def)
  from queueMutation_idle [OF m(2) p] show ?thesis
  proof
    assume "queueMutation m ty states args ev = Inr (Executed, m)"
    with assms(2) show ?thesis by (simp add: queue_prep_def finish_prep_def)
  next
    let ?tick = "m_queueTicksPending m + 1 + m_queueTick m"
    assume "\<exists>mut. queueMutation m ty states args ev = Inr (?tick,
        m\<lparr>m_queue := [mut], m_queueLen := 1, m_queueTicksPending := m_queueTicksPending m + 1\<rparr>)
      \<and> mu_Type mut = ty \<and> mu_cacheCalled mut = Some (slicesUniq states)"
    then obtain mut where q: "queueMutation m ty states args ev = Inr (?tick,
        m\<lparr>m_queue := [mut], m_queueLen := 1, m_queueTicksPending := m_queueTicksPending m + 1\<rparr>)"
      and mut: "mu_Type mut = ty" "mu_cacheCalled mut = Some (slicesUniq states)" by blast
    define m1 where "m1 = m\<lparr>m_queue := [mut], m_queueLen := 1, m_queueTicksPending := m_queueTicksPending m + 1\<rparr>"
    have i1: "mach_inv m1 = mach_inv m" by (rule mach_inv_same) (simp_all add: m1_def)
    have c1: "calm m1" using m(1) unfolding calm_def names_ok_def i1 by (simp add: m1_def)
    have g1: "\<forall>x \<in> set (m_queue m1). good_mut m1 x" using mut assms(3,4) by (simp add: m1_def good_mut_def)
    have l1: "queueLen_ok m1" "length (m_queue m1) < 2 ^ 32" "2 * length (m_queue m1) \<le> fuel" "\<not> m_queueProcessing m1"
      using m(3) assms(6) by (simp_all add: m1_def queueLen_ok_def)
    obtain r m' where r: "processQueue env fuel m1 = Inr (r, m')" "m_queue m' = []" "\<not> m_queueProcessing m'" "calm m'"
      using processQueue_total [OF assms(1) c1 g1 l1] by blast
    have "queueLen_ok m'" using queue_len.queue.processQueue [OF r(1)] l1(1) by blast
    with r have "idle m'" by (simp add: idle_def queueLen_ok_def)
    with q r(1) assms(5) show ?thesis by (simp add: queue_prep_def finish_prep_def m1_def Executed_def)
  qed
qed

text \<open>C7. \<open>Add\<close>, \<open>Remove\<close> and \<open>Set\<close> return: called with defined states on an idle machine whose handlers accept
  and queue nothing, each of them returns after at most two mutations, its own and one auto mutation, and the
  machine is idle again, so that the same holds of the next call.\<close>

theorem methods_return:
  assumes "accepting env" "idle m" "set states \<subseteq> set (gkeys (m_schema m))"
    "m_queueTicksPending m + 1 + m_queueTick m \<noteq> 0" "2 \<le> fuel"
  shows "(\<exists>r m'. mach_Add env fuel m states args = Inr (r, m') \<and> idle m')
    \<and> (\<exists>r m'. mach_Remove env fuel m states args = Inr (r, m') \<and> idle m')
    \<and> (\<exists>r m'. mach_Set env fuel m states args = Inr (r, m') \<and> idle m')"
proof -
  note q = queued_once [OF assms(1-3) _ assms(4,5)]
  show ?thesis
    using assms(2) q [of MutationAdd args None] q [of MutationRemove args None] q [of MutationSet args None]
    by (auto simp: mach_Add_def mach_Remove_def mach_Set_def Add_prep_def Remove_prep_def Set_prep_def
        finish_prep_def [of _ _ "Inr (Inl _, m)"])
qed

section \<open>Examples\<close>

definition ex_ok_env :: Env where
  "ex_ok_env = ex_env\<lparr>en_handler := (\<lambda>_ _ _ _. ([], HRet True))\<rparr>"

definition ex_busy :: Machine where
  "ex_busy = ex_mach\<lparr>m_queue := [(ex_add [''E''])\<lparr>mu_cacheCalled := Some [''E'']\<rparr>, (ex_add [''D''])\<lparr>mu_cacheCalled := Some [''D'']\<rparr>],
     m_queueLen := 2\<rparr>"

lemma ex_accepting: "accepting ex_ok_env"
  by (simp add: accepting_def ex_ok_env_def)

lemma ex_calm: "calm ex_mach"
proof -
  have "names_ok ex_mach" "\<not> m_disposed ex_mach" "\<not> m_panicCaught ex_mach" "m_handlers ex_mach = []"
    "queries (m_subs ex_mach) = ([], [])" by code_simp+
  with ex_mach_inv show ?thesis by (simp add: calm_def)
qed

theorem processQueue_drains_witness:
  "\<exists>r m'. processQueue ex_ok_env 4 ex_busy = Inr (r, m') \<and> m_queue m' = [] \<and> \<not> m_queueProcessing m'"
proof -
  have "mach_inv ex_busy = mach_inv ex_mach" by (rule mach_inv_same) (simp_all add: ex_busy_def)
  then have c: "calm ex_busy" using ex_calm by (simp add: calm_def names_ok_def ex_busy_def)
  have q: "good_mut ex_busy (hd (m_queue ex_busy)) \<and> good_mut ex_busy (m_queue ex_busy ! 1)"
  proof -
    have "set [''E''] \<subseteq> set (gkeys (m_schema ex_mach))" "set [''D''] \<subseteq> set (gkeys (m_schema ex_mach))" by code_simp+
    then show ?thesis by (simp add: good_mut_def ex_busy_def ex_add_def)
  qed
  then have "\<forall>mut \<in> set (m_queue ex_busy). good_mut ex_busy mut" by (simp add: ex_busy_def)
  moreover have "queueLen_ok ex_busy" "length (m_queue ex_busy) < 2 ^ 32" "2 * length (m_queue ex_busy) \<le> 4"
    by (simp_all add: ex_busy_def queueLen_ok_def)
  moreover have "\<not> m_queueProcessing ex_busy" by (simp add: ex_busy_def ex_mach_def newMachine_fields)
  ultimately show ?thesis using processQueue_drains [OF ex_accepting c, of 4] by blast
qed

theorem methods_return_witness:
  "\<exists>r m'. mach_Add ex_ok_env 2 ex_mach [''E''] [] = Inr (r, m') \<and> idle m'"
proof -
  have "idle ex_mach" using ex_calm by (simp add: idle_def ex_mach_def newMachine_fields)
  moreover have "set [''E''] \<subseteq> set (gkeys (m_schema ex_mach))"
    "m_queueTicksPending ex_mach + 1 + m_queueTick ex_mach \<noteq> 0" by code_simp+
  ultimately show ?thesis using methods_return [OF ex_accepting, of ex_mach "[''E'']" 2 "[]"] by simp
qed

end
