(* ===== verification/Am_When.thy ===== *)
theory Am_When
  imports Am_Subs
begin

text \<open>
  The subscriptions \<open>When\<close> and \<open>WhenNot\<close>: the counters of the bindings, their index and the heap are kept
  consistent with the active states, and \<open>ProcessWhen\<close> returns exactly the channels whose condition was
  met after one of the state changes it walks through.
\<close>

section \<open>Consistency\<close>

definition satisfied :: "string set \<Rightarrow> WhenBinding \<Rightarrow> bool" where
  "satisfied X b = (\<forall>s \<in> set (gkeys (wb_States b)). (s \<in> X) \<noteq> wb_Negation b)"

definition binding_ok :: "string set \<Rightarrow> chan \<Rightarrow> WhenBinding \<Rightarrow> bool" where
  "binding_ok X p b = (wb_Ch b = p \<and> gmap_wf (wb_States b)
     \<and> (\<forall>s \<in> set (gkeys (wb_States b)). ggetd False (wb_States b) s = (s \<in> X))
     \<and> wb_Matched b = int (length (filter (\<lambda>s. (s \<in> X) \<noteq> wb_Negation b) (gkeys (wb_States b))))
     \<and> wb_Total b = int (length (gkeys (wb_States b))))"

definition heap_ok :: "(chan \<Rightarrow> string set) \<Rightarrow> Subscriptions \<Rightarrow> bool" where
  "heap_ok F sm = ((\<forall>p b. gget (sm_whenHeap sm) p = Some b \<longrightarrow> binding_ok (F p) p b)
     \<and> (\<forall>s. distinct (ggetd [] (sm_when sm) s))
     \<and> (\<forall>s p. p \<in> set (ggetd [] (sm_when sm) s) \<longleftrightarrow>
          (\<exists>b. gget (sm_whenHeap sm) p = Some b \<and> s \<in> set (gkeys (wb_States b)))))"

text \<open>Between two transitions no condition is met.\<close>

definition when_inv :: "string set \<Rightarrow> Subscriptions \<Rightarrow> bool" where
  "when_inv X sm = (heap_ok (\<lambda>_. X) sm \<and> (\<forall>p b. gget (sm_whenHeap sm) p = Some b \<longrightarrow> \<not> satisfied X b))"

definition flip :: "bool \<Rightarrow> string \<Rightarrow> string set \<Rightarrow> string set" where
  "flip active s X = (if active then insert s X else X - {s})"

lemma flip_iff [simp]: "t \<in> flip active s X \<longleftrightarrow> (if t = s then active else t \<in> X)"
  by (auto simp: flip_def)

lemma matched_total:
  assumes "binding_ok X p b"
  shows "wb_Matched b < wb_Total b \<longleftrightarrow> \<not> satisfied X b"
proof -
  have "length (filter P xs) < length xs \<longleftrightarrow> (\<exists>x \<in> set xs. \<not> P x)" for P and xs :: "string list"
    using length_filter_less by (metis filter_True less_irrefl)
  then show ?thesis using assms by (simp add: binding_ok_def satisfied_def)
qed

section \<open>One binding\<close>

lemma length_filter_at:
  assumes "distinct xs" "s \<in> set xs"
  shows "length (filter P xs) = (if P s then 1 else 0) + length (filter P (remove1 s xs))"
  using assms by (induction xs) auto

lemma count_flip:
  assumes "distinct xs" "s \<in> set xs" "\<And>t. t \<noteq> s \<Longrightarrow> P t = Q t"
  shows "int (length (filter P xs)) = int (length (filter Q xs)) + (if P s then 1 else 0) - (if Q s then 1 else 0)"
proof -
  have "filter P (remove1 s xs) = filter Q (remove1 s xs)"
    by (rule filter_cong) (use assms in auto)
  then show ?thesis
    using length_filter_at [OF assms(1,2), of P] length_filter_at [OF assms(1,2), of Q] by simp
qed

lemma gkeys_gput_known: "k \<in> set (gkeys m) \<Longrightarrow> gkeys (gput k v m) = gkeys m"
  by (simp add: gkeys_def gput_def) (induction m, auto)

lemma when_tick_shape:
  assumes "s \<in> set (gkeys (wb_States b))"
  shows "gkeys (wb_States (when_tick active s b)) = gkeys (wb_States b)"
    "wb_Negation (when_tick active s b) = wb_Negation b" "wb_Ch (when_tick active s b) = wb_Ch b"
  using assms by (simp_all add: when_tick_def Let_def gkeys_gput_known)

lemma when_tick_ok:
  assumes "binding_ok X p b" "s \<in> set (gkeys (wb_States b))"
  shows "binding_ok (flip active s X) p (when_tick active s b)"
proof -
  let ?ks = "gkeys (wb_States b)"
  have d: "distinct ?ks" using assms(1) by (simp add: binding_ok_def gmap_wf_def)
  have known: "ggetd False (wb_States b) s = (s \<in> X)" using assms by (simp add: binding_ok_def)
  have c: "int (length (filter (\<lambda>t. (t \<in> flip active s X) \<noteq> wb_Negation b) ?ks))
      = int (length (filter (\<lambda>t. (t \<in> X) \<noteq> wb_Negation b) ?ks))
        + (if active \<noteq> wb_Negation b then 1 else 0) - (if (s \<in> X) \<noteq> wb_Negation b then 1 else 0)"
    using count_flip [OF d assms(2), of "\<lambda>t. (t \<in> flip active s X) \<noteq> wb_Negation b"] by simp
  have m: "wb_Matched (when_tick active s b) = wb_Matched b
      + (if active \<noteq> wb_Negation b then 1 else 0) - (if (s \<in> X) \<noteq> wb_Negation b then 1 else 0)"
    using known by (cases active; cases "wb_Negation b"; cases "s \<in> X") (simp_all add: when_tick_def Let_def)
  have g: "ggetd False (wb_States (when_tick active s b)) t = (t \<in> flip active s X)" if "t \<in> set ?ks" for t
    using assms(1) that by (simp add: when_tick_def Let_def binding_ok_def)
  have w: "gmap_wf (wb_States (when_tick active s b))" "wb_Total (when_tick active s b) = wb_Total b"
    using assms(1) by (simp_all add: when_tick_def Let_def binding_ok_def)
  have "wb_Ch b = p" "wb_Total b = int (length ?ks)"
    "wb_Matched b = int (length (filter (\<lambda>t. (t \<in> X) \<noteq> wb_Negation b) ?ks))"
    using assms(1) by (simp_all add: binding_ok_def)
  then show ?thesis
    unfolding binding_ok_def when_tick_shape [OF assms(2)] w(2) m c using g w(1) by simp
qed

section \<open>Garbage collection\<close>

lemma index_without_get:
  assumes "p \<in> set (ggetd [] m k)"
  shows "ggetd [] (index_without k p m) k' = (if k' = k then remove1 p (ggetd [] m k) else ggetd [] m k')"
proof (cases "length (ggetd [] m k) = 1")
  case True
  with assms have "ggetd [] m k = [p]" by (cases "ggetd [] m k") auto
  then show ?thesis by (simp add: index_without_def)
next
  case False
  then show ?thesis by (simp add: index_without_def slicesWithout_remove1)
qed

lemma gcWhen_states_heap [simp]: "sm_whenHeap (gcWhen_states b g ss sm) = sm_whenHeap sm"
  by (induction ss arbitrary: sm) (simp_all add: Let_def)

lemma gcWhen_states_index:
  assumes "distinct ss" "\<forall>s \<in> set ss. wb_Ch b \<in> set (ggetd [] (sm_when sm) s)"
  shows "ggetd [] (sm_when (gcWhen_states b g ss sm)) k
    = (if k \<in> set ss then remove1 (wb_Ch b) (ggetd [] (sm_when sm) k) else ggetd [] (sm_when sm) k)"
  using assms
proof (induction ss arbitrary: sm)
  case (Cons s ss)
  let ?sm1 = "sm\<lparr>sm_whenCtx := ctx_without (wb_Ctx b) g (wb_Ch b) (sm_whenCtx sm)\<rparr>"
  let ?sm2 = "?sm1\<lparr>sm_when := index_without s (wb_Ch b) (sm_when ?sm1)\<rparr>"
  have i: "ggetd [] (sm_when ?sm2) k' = (if k' = s then remove1 (wb_Ch b) (ggetd [] (sm_when sm) s)
      else ggetd [] (sm_when sm) k')" for k'
    using index_without_get [of "wb_Ch b" "sm_when sm" s k'] Cons.prems(2) by simp
  have "\<forall>s' \<in> set ss. wb_Ch b \<in> set (ggetd [] (sm_when ?sm2) s')"
    using Cons.prems i by auto
  from Cons.IH [OF _ this] Cons.prems(1) i [of k] show ?case
    by (cases "k \<in> set ss"; cases "k = s") (simp_all add: Let_def)
qed simp

lemma gcWhenBinding_ok:
  assumes "heap_ok F sm" "gget (sm_whenHeap sm) p = Some b"
  shows "heap_ok F (gcWhenBinding b g sm)" "sm_whenHeap (gcWhenBinding b g sm) = gdel p (sm_whenHeap sm)"
proof -
  have b: "binding_ok (F p) p b" using assms by (simp add: heap_ok_def)
  then have ch: "wb_Ch b = p" "distinct (gkeys (wb_States b))" by (simp_all add: binding_ok_def gmap_wf_def)
  show h: "sm_whenHeap (gcWhenBinding b g sm) = gdel p (sm_whenHeap sm)"
    by (simp add: gcWhenBinding_def Let_def ch)
  have iff: "q \<in> set (ggetd [] (sm_when sm) s) \<longleftrightarrow>
      (\<exists>b. gget (sm_whenHeap sm) q = Some b \<and> s \<in> set (gkeys (wb_States b)))" for s q
    using assms(1) unfolding heap_ok_def by blast
  have in_all: "\<forall>s \<in> set (gkeys (wb_States b)). wb_Ch b \<in> set (ggetd [] (sm_when sm) s)"
    using iff assms(2) ch(1) by blast
  have i: "ggetd [] (sm_when (gcWhenBinding b g sm)) k = remove1 p (ggetd [] (sm_when sm) k)" for k
  proof (cases "k \<in> set (gkeys (wb_States b))")
    case True
    then show ?thesis using gcWhen_states_index [OF ch(2) in_all, of g k] by (simp add: gcWhenBinding_def Let_def ch(1))
  next
    case False
    then have "p \<notin> set (ggetd [] (sm_when sm) k)" using iff assms(2) by simp
    then show ?thesis using False gcWhen_states_index [OF ch(2) in_all, of g k]
      by (simp add: gcWhenBinding_def Let_def ch(1) remove1_idem)
  qed
  have d: "distinct (ggetd [] (sm_when sm) s)" for s using assms(1) unfolding heap_ok_def by blast
  show "heap_ok F (gcWhenBinding b g sm)"
    unfolding heap_ok_def h i using assms(1) d iff by (auto simp: heap_ok_def)
qed

section \<open>One state change\<close>

text \<open>The condition of a binding, without its counters.\<close>

definition shape :: "WhenBinding \<Rightarrow> S \<times> bool" where
  "shape b = (gkeys (wb_States b), wb_Negation b)"

definition met :: "string set \<Rightarrow> S \<times> bool \<Rightarrow> bool" where
  "met X c = (\<forall>s \<in> set (fst c). (s \<in> X) \<noteq> snd c)"

lemma satisfied_met: "satisfied X b = met X (shape b)"
  by (simp add: satisfied_def met_def shape_def)

definition conds :: "Subscriptions \<Rightarrow> chan \<Rightarrow> (S \<times> bool) option" where
  "conds sm p = map_option shape (gget (sm_whenHeap sm) p)"

lemma heap_ok_update:
  assumes "heap_ok F sm" "gget (sm_whenHeap sm) p = Some b" "binding_ok X p b'" "shape b' = shape b"
  shows "heap_ok (F(p := X)) (sm\<lparr>sm_whenHeap := gput p b' (sm_whenHeap sm)\<rparr>)"
  using assms unfolding heap_ok_def shape_def by (auto split: if_splits)

lemma processWhen_bindings_ok:
  assumes "heap_ok F sm" "distinct ps" "\<forall>p \<in> set ps. \<exists>c. conds sm p = Some c \<and> s \<in> set (fst c)"
    and "processWhen_bindings active s ps (sm, ret) = (sm', ret')"
  shows "heap_ok (\<lambda>p. if p \<in> set ps then flip active s (F p) else F p) sm'
    \<and> ret' = ret @ filter (\<lambda>p. met (flip active s (F p)) (the (conds sm p))) ps
    \<and> (\<forall>p. conds sm' p = (if p \<in> set ps \<and> met (flip active s (F p)) (the (conds sm p)) then None else conds sm p))"
  using assms
proof (induction ps arbitrary: sm ret F)
  case (Cons p ps)
  obtain b where b: "gget (sm_whenHeap sm) p = Some b" "s \<in> set (gkeys (wb_States b))"
    using Cons.prems(3) by (auto simp: conds_def shape_def)
  have wb: "when_binding sm p = b" using b by (simp add: when_binding_def)
  let ?b = "when_tick active s b" and ?X = "flip active s (F p)"
  let ?sm1 = "sm\<lparr>sm_whenHeap := gput p ?b (sm_whenHeap sm)\<rparr>"
  have ok: "binding_ok ?X p ?b" using Cons.prems(1) b by (intro when_tick_ok) (simp_all add: heap_ok_def)
  have sh: "shape ?b = shape b" using when_tick_shape [OF b(2)] by (simp add: shape_def)
  have h1: "heap_ok (F(p := ?X)) ?sm1" by (rule heap_ok_update [OF Cons.prems(1) b(1) ok sh])
  have g1: "gget (sm_whenHeap ?sm1) p = Some ?b" by simp
  have c1: "conds ?sm1 q = conds sm q" for q using sh b by (simp add: conds_def)
  have met: "met ?X (the (conds sm p)) \<longleftrightarrow> \<not> wb_Matched ?b < wb_Total ?b"
    using matched_total [OF ok] sh b by (simp add: satisfied_met conds_def)
  have ch: "wb_Ch ?b = p" using ok by (simp add: binding_ok_def)
  have pn: "p \<notin> set ps" "distinct ps" using Cons.prems(2) by simp_all
  define sm2 where "sm2 = (if wb_Matched ?b < wb_Total ?b then ?sm1 else gcWhenBinding ?b True ?sm1)"
  define ret2 where "ret2 = (if wb_Matched ?b < wb_Total ?b then ret else ret @ [p])"
  have h2: "heap_ok (F(p := ?X)) sm2"
    using h1 gcWhenBinding_ok(1) [OF h1 g1] by (simp add: sm2_def)
  have c2: "conds sm2 q = (if q = p \<and> met ?X (the (conds sm p)) then None else conds sm q)" for q
    using c1 [of q] met gcWhenBinding_ok(2) [OF h1 g1, of True] by (simp add: sm2_def conds_def)
  have r: "processWhen_bindings active s ps (sm2, ret2) = (sm', ret')"
    using Cons.prems(4) ch by (simp add: wb Let_def sm2_def ret2_def split: if_splits)
  have p3: "\<forall>q \<in> set ps. \<exists>c. conds sm2 q = Some c \<and> s \<in> set (fst c)"
    using Cons.prems(3) pn c2 by auto
  have same: "filter (\<lambda>q. met (flip active s ((F(p := ?X)) q)) (the (conds sm2 q))) ps
      = filter (\<lambda>q. met (flip active s (F q)) (the (conds sm q))) ps"
    by (rule filter_cong) (use pn c2 in auto)
  from Cons.IH [OF h2 pn(2) p3 r] have IH:
    "heap_ok (\<lambda>q. if q \<in> set ps then flip active s ((F(p := ?X)) q) else (F(p := ?X)) q) sm'"
    "ret' = ret2 @ filter (\<lambda>q. met (flip active s (F q)) (the (conds sm q))) ps"
    "\<And>q. conds sm' q = (if q \<in> set ps \<and> met (flip active s ((F(p := ?X)) q)) (the (conds sm2 q)) then None
       else conds sm2 q)"
    unfolding same by blast+
  have e: "(\<lambda>q. if q \<in> set ps then flip active s ((F(p := ?X)) q) else (F(p := ?X)) q)
      = (\<lambda>q. if q \<in> set (p # ps) then flip active s (F q) else F q)"
    using pn by (auto simp: fun_eq_iff)
  have "ret' = ret @ filter (\<lambda>q. met (flip active s (F q)) (the (conds sm q))) (p # ps)"
    using IH(2) met by (simp add: ret2_def)
  moreover have "conds sm' q = (if q \<in> set (p # ps) \<and> met (flip active s (F q)) (the (conds sm q)) then None
      else conds sm q)" for q
    using IH(3) [of q] c2 [of q] pn by (cases "q = p") auto
  ultimately show ?case using IH(1) unfolding e by blast
qed (simp add: conds_def)

section \<open>A whole transition\<close>

text \<open>The active states after the changes \<open>ss\<close>, in the order in which they are processed.\<close>

fun after :: "S \<Rightarrow> string set \<Rightarrow> S \<Rightarrow> string set" where
  "after activated X [] = X"
| "after activated X (s # ss) = after activated (flip (s \<in> set activated) s X) ss"

lemma heap_ok_elsewhere:
  assumes "heap_ok F sm" "\<And>p b. gget (sm_whenHeap sm) p = Some b \<Longrightarrow>
     \<forall>s \<in> set (gkeys (wb_States b)). (s \<in> F p) = (s \<in> G p)"
  shows "heap_ok G sm"
proof -
  have "binding_ok (G p) p b" if "gget (sm_whenHeap sm) p = Some b" for p b
  proof -
    have ok: "binding_ok (F p) p b" using assms(1) that by (simp add: heap_ok_def)
    have "filter (\<lambda>s. (s \<in> F p) \<noteq> wb_Negation b) (gkeys (wb_States b))
        = filter (\<lambda>s. (s \<in> G p) \<noteq> wb_Negation b) (gkeys (wb_States b))"
      by (rule filter_cong) (use assms(2) [OF that] in auto)
    with ok assms(2) [OF that] show ?thesis unfolding binding_ok_def by metis
  qed
  with assms(1) show ?thesis unfolding heap_ok_def by blast
qed

lemma process_state:
  assumes "when_inv X sm"
    and "processWhen_bindings active s (ggetd [] (sm_when sm) s) (sm, ret) = (sm', ret')"
  shows "when_inv (flip active s X) sm'
    \<and> set ret' = set ret \<union> {p. \<exists>c. conds sm p = Some c \<and> met (flip active s X) c}
    \<and> (\<forall>p. conds sm' p = (if p \<in> {p. \<exists>c. conds sm p = Some c \<and> met (flip active s X) c} then None else conds sm p))"
proof -
  let ?ps = "ggetd [] (sm_when sm) s" and ?X = "flip active s X"
  have h: "heap_ok (\<lambda>_. X) sm" and un: "\<And>p b. gget (sm_whenHeap sm) p = Some b \<Longrightarrow> \<not> satisfied X b"
    using assms(1) by (simp_all add: when_inv_def)
  have d: "distinct ?ps" and i: "p \<in> set ?ps \<longleftrightarrow> (\<exists>b. gget (sm_whenHeap sm) p = Some b \<and> s \<in> set (gkeys (wb_States b)))" for p
    using h unfolding heap_ok_def by blast+
  have c: "\<forall>p \<in> set ?ps. \<exists>c. conds sm p = Some c \<and> s \<in> set (fst c)"
    using i by (auto simp: conds_def shape_def)
  note P = processWhen_bindings_ok [OF h d c assms(2)]
  have hit: "p \<in> set ?ps \<and> met ?X (the (conds sm p)) \<longleftrightarrow> (\<exists>c. conds sm p = Some c \<and> met ?X c)" for p
  proof
    assume "\<exists>c. conds sm p = Some c \<and> met ?X c"
    then obtain b where b: "gget (sm_whenHeap sm) p = Some b" "satisfied ?X b" "conds sm p = Some (shape b)"
      by (auto simp: conds_def satisfied_met)
    have "s \<in> set (gkeys (wb_States b))"
    proof (rule ccontr)
      assume "s \<notin> set (gkeys (wb_States b))"
      with b(2) have "satisfied X b" unfolding satisfied_def by (metis flip_iff)
      with un [OF b(1)] show False by simp
    qed
    with b i show "p \<in> set ?ps \<and> met ?X (the (conds sm p))" by (auto simp: satisfied_met)
  qed (use c in auto)
  have co: "conds sm' p = (if \<exists>c. conds sm p = Some c \<and> met ?X c then None else conds sm p)" for p
    using P hit [of p] by simp
  have h': "heap_ok (\<lambda>_. ?X) sm'"
  proof (rule heap_ok_elsewhere)
    show "heap_ok (\<lambda>p. if p \<in> set ?ps then ?X else X) sm'" using P by simp
    fix p b assume g: "gget (sm_whenHeap sm') p = Some b"
    then have "conds sm' p = Some (shape b)" by (simp add: conds_def)
    with co [of p] have "conds sm p = Some (shape b)" by (auto split: if_splits)
    then show "\<forall>t \<in> set (gkeys (wb_States b)). (t \<in> (if p \<in> set ?ps then ?X else X)) = (t \<in> ?X)"
      using i [of p] by (auto simp: conds_def shape_def)
  qed
  have "\<not> satisfied ?X b" if "gget (sm_whenHeap sm') p = Some b" for p b
    using co [of p] that by (metis conds_def option.distinct(1) option.simps(9) satisfied_met)
  with h' have "when_inv ?X sm'" by (simp add: when_inv_def)
  moreover have "set ret' = set ret \<union> {p. \<exists>c. conds sm p = Some c \<and> met ?X c}"
    using P hit by auto
  ultimately show ?thesis using co by simp
qed

lemma process_states:
  "when_inv X sm \<Longrightarrow> processWhen_states activated ss (sm, ret) = (sm', ret') \<Longrightarrow>
   when_inv (after activated X ss) sm' \<and> set ret' = set ret \<union>
     {p. \<exists>c i. conds sm p = Some c \<and> i \<le> length ss \<and> met (after activated X (take i ss)) c}"
proof (induction ss arbitrary: X sm ret)
  case Nil
  then have "\<not> met X c" if "conds sm p = Some c" for p c
    using that by (auto simp: when_inv_def conds_def satisfied_met)
  with Nil show ?case by auto
next
  case (Cons s ss)
  let ?X = "flip (s \<in> set activated) s X"
  obtain sm1 ret1 where 1: "processWhen_bindings (s \<in> set activated) s (ggetd [] (sm_when sm) s) (sm, ret) = (sm1, ret1)"
    by fastforce
  note A = process_state [OF Cons.prems(1) 1]
  have IH: "when_inv (after activated ?X ss) sm' \<and> set ret' = set ret1 \<union>
     {p. \<exists>c i. conds sm1 p = Some c \<and> i \<le> length ss \<and> met (after activated ?X (take i ss)) c}"
    using Cons.IH [of ?X sm1 ret1] A Cons.prems(2) 1 by simp
  have un: "\<not> met X c" if "conds sm p = Some c" for p c
    using Cons.prems(1) that by (auto simp: when_inv_def conds_def satisfied_met)
  have split: "(\<exists>i \<le> length (s # ss). met (after activated X (take i (s # ss))) c) \<longleftrightarrow>
      (\<exists>i \<le> length ss. met (after activated ?X (take i ss)) c)" if "conds sm p = Some c" for p c
  proof
    assume "\<exists>i \<le> length (s # ss). met (after activated X (take i (s # ss))) c"
    then obtain i where i: "i \<le> length (s # ss)" "met (after activated X (take i (s # ss))) c" by blast
    with un [OF that] obtain k where "i = Suc k" by (cases i) auto
    with i show "\<exists>i \<le> length ss. met (after activated ?X (take i ss)) c" by auto
  next
    assume "\<exists>i \<le> length ss. met (after activated ?X (take i ss)) c"
    then obtain i where "i \<le> length ss" "met (after activated ?X (take i ss)) c" by blast
    then show "\<exists>i \<le> length (s # ss). met (after activated X (take i (s # ss))) c"
      by (intro exI [of _ "Suc i"]) simp
  qed
  have c1: "conds sm1 p = (if \<exists>c. conds sm p = Some c \<and> met ?X c then None else conds sm p)" for p
    using A by simp
  have base: "\<exists>i \<le> length ss. met (after activated ?X (take i ss)) c" if "met ?X c" for c
    using that by (intro exI [of _ 0]) simp
  have first: "(\<exists>c. conds sm p = Some c \<and> met ?X c) \<or> (\<exists>c. conds sm1 p = Some c \<and> (\<exists>i \<le> length ss. met (after activated ?X (take i ss)) c))
      \<longleftrightarrow> (\<exists>c. conds sm p = Some c \<and> (\<exists>i \<le> length ss. met (after activated ?X (take i ss)) c))" for p
    using c1 [of p] base by (cases "\<exists>c. conds sm p = Some c \<and> met ?X c") auto
  let ?hit = "{p. \<exists>c. conds sm p = Some c \<and> met ?X c}"
  let ?late = "{p. \<exists>c i. conds sm1 p = Some c \<and> i \<le> length ss \<and> met (after activated ?X (take i ss)) c}"
  have "set ret' = set ret \<union> (?hit \<union> ?late)" using IH A by (simp only: Un_assoc)
  also have "?hit \<union> ?late = {p. \<exists>c. conds sm p = Some c \<and> (\<exists>i \<le> length ss. met (after activated ?X (take i ss)) c)}"
    unfolding first [symmetric] by blast
  also have "\<dots> = {p. \<exists>c. conds sm p = Some c \<and> (\<exists>i \<le> length (s # ss). met (after activated X (take i (s # ss))) c)}"
    using split by blast
  finally show ?case using IH by auto
qed

lemma processWhenCtx_none: "(\<And>c. \<not> expired c) \<Longrightarrow> processWhenCtx expired sm = (sm, [])"
proof -
  assume "\<And>c. \<not> expired c"
  then have "processWhenCtx_loop expired cs st = st" for cs st
    by (induction expired cs st rule: processWhenCtx_loop.induct) simp_all
  then show ?thesis by (simp add: processWhenCtx_def)
qed

lemma after_append: "after act X (ss @ ts) = after act (after act X ss) ts"
  by (induction act X ss rule: after.induct) simp_all

lemma after_final:
  assumes "set activated \<inter> set deactivated = {}"
  shows "after activated X (activated @ deactivated) = X \<union> set activated - set deactivated"
proof -
  have 1: "after activated X ss = X \<union> set ss" if "set ss \<subseteq> set activated" for ss X
    using that by (induction ss arbitrary: X) (auto simp: flip_def)
  have 2: "after activated X ss = X - set ss" if "set ss \<inter> set activated = {}" for ss X
    using that by (induction ss arbitrary: X) (auto simp: flip_def)
  show ?thesis unfolding after_append using 1 [of activated X] 2 [of deactivated "X \<union> set activated"] assms by (simp add: Int_commute)
qed

section \<open>Subscribing\<close>

text \<open>A new binding is consistent with the states that are active.\<close>

lemma foldl_index:
  assumes "distinct states"
  shows "ggetd [] (foldl (\<lambda>w s. gput s (ggetd [] w s @ [ch]) w) w states) s
    = ggetd [] w s @ (if s \<in> set states then [ch] else [])"
  using assms by (induction states arbitrary: w) auto

lemma setMap_facts:
  assumes "distinct states"
  shows "set (gkeys (foldl (\<lambda>m s. gput s (P s) m) [] states)) = set states"
    "gmap_wf (foldl (\<lambda>m s. gput s (P s) m) [] states)"
    "s \<in> set states \<Longrightarrow> ggetd False (foldl (\<lambda>m s. gput s (P s) m) [] states) s = P s"
proof -
  have "set (gkeys (foldl (\<lambda>m s. gput s (P s) m) m0 states)) = set (gkeys m0) \<union> set states
      \<and> (gmap_wf m0 \<longrightarrow> gmap_wf (foldl (\<lambda>m s. gput s (P s) m) m0 states))
      \<and> ggetd False (foldl (\<lambda>m s. gput s (P s) m) m0 states) s = (if s \<in> set states then P s else ggetd False m0 s)" for m0 s
    by (induction states arbitrary: m0) auto
  from this [of "[]"] show "set (gkeys (foldl (\<lambda>m s. gput s (P s) m) [] states)) = set states"
    "gmap_wf (foldl (\<lambda>m s. gput s (P s) m) [] states)"
    "s \<in> set states \<Longrightarrow> ggetd False (foldl (\<lambda>m s. gput s (P s) m) [] states) s = P s"
    by (simp_all add: gkeys_def)
qed

lemma new_when_inv:
  assumes "when_inv X sm" "distinct states" "\<And>s. s \<in> set states \<Longrightarrow> act [s] = (s \<in> X)"
    and "\<not> (\<forall>s \<in> set states. (s \<in> X) \<noteq> neg)" "gget (sm_whenHeap sm) (sm_next sm) = None"
    and "new_when act neg states c sm = (sm', ch)"
  shows "when_inv X sm'" "ch = sm_next sm"
    "conds sm' = (conds sm)(ch := Some (gkeys (foldl (\<lambda>m s. gput s (act [s]) m) [] states), neg))"
proof -
  let ?m = "foldl (\<lambda>m s. gput s (act [s]) m) [] states"
  note f = setMap_facts [OF assms(2), where P = "\<lambda>s. act [s]"]
  define b where "b = \<lparr>wb_Ch = sm_next sm, wb_Negation = neg, wb_States = ?m,
     wb_Matched = int (length (filter (\<lambda>s. act [s] \<noteq> neg) states)), wb_Total = int (length states), wb_Ctx = c\<rparr>"
  have ch: "ch = sm_next sm" and h: "sm_whenHeap sm' = gput ch b (sm_whenHeap sm)"
    and w: "ggetd [] (sm_when sm') s = ggetd [] (sm_when sm) s @ (if s \<in> set states then [ch] else [])" for s
    using assms(6) foldl_index [OF assms(2), of "sm_next sm" "sm_when sm" s]
    by (auto simp: new_when_def Let_def b_def split: option.splits)
  have len: "length (gkeys ?m) = length states"
    "length (filter P (gkeys ?m)) = length (filter P states)" for P
    using f(1,2) assms(2) distinct_card [of states] distinct_card [of "gkeys ?m"]
    by (simp_all add: distinct_length_filter gmap_wf_def)
  have "filter (\<lambda>s. act [s] \<noteq> neg) states = filter (\<lambda>s. (s \<in> X) \<noteq> neg) states"
    by (rule filter_cong) (use assms(3) in auto)
  then have ok: "binding_ok X ch b"
    unfolding binding_ok_def using f assms(3) ch len by (simp add: b_def)
  have keys: "set (gkeys (wb_States b)) = set states" "wb_Negation b = neg" using f by (simp_all add: b_def)
  have fresh: "gget (sm_whenHeap sm) ch = None" using assms(5) ch by simp
  have ho: "heap_ok (\<lambda>_. X) sm" using assms(1) by (simp add: when_inv_def)
  have nix: "ch \<notin> set (ggetd [] (sm_when sm) s)" for s using ho fresh unfolding heap_ok_def by auto
  have "heap_ok (\<lambda>_. X) sm'"
    unfolding heap_ok_def h w using ho ok keys nix fresh unfolding heap_ok_def by auto
  moreover have "\<not> satisfied X b" using assms(4) keys by (simp add: satisfied_def)
  ultimately show "when_inv X sm'" using assms(1) by (simp add: when_inv_def h)
  show "ch = sm_next sm" by (rule ch)
  show "conds sm' = (conds sm)(ch := Some (gkeys ?m, neg))"
    by (rule ext) (simp add: conds_def h shape_def b_def)
qed

definition fresh :: "Subscriptions \<Rightarrow> bool" where
  "fresh sm = (\<forall>p. sm_next sm \<le> p \<longrightarrow> gget (sm_whenHeap sm) p = None)"

lemma find_when_Some:
  "find_when neg states c bs = Some ch \<Longrightarrow>
     \<exists>b \<in> set bs. wb_Ch b = ch \<and> wb_Negation b = neg \<and> wb_Ctx b = c \<and> S_Equal (gkeys (wb_States b)) states"
  by (induction bs) (auto split: if_splits)

lemma new_when_fresh: "fresh sm \<Longrightarrow> fresh (fst (new_when act neg states c sm))"
  by (auto simp: fresh_def new_when_def Let_def split: option.splits)

lemma new_when_ch: "snd (new_when act neg states c sm) = sm_next sm"
  by (simp add: new_when_def Let_def)

lemma conds_met:
  "(\<exists>c i. conds sm p = Some c \<and> A i \<and> met (B i) c) \<longleftrightarrow>
   (\<exists>b i. gget (sm_whenHeap sm) p = Some b \<and> A i \<and> satisfied (B i) b)"
  by (cases "gget (sm_whenHeap sm) p") (simp_all add: conds_def satisfied_met)

section \<open>The properties\<close>

text \<open>C16. \<open>ProcessWhen\<close> wakes exactly the right waiters: as long as no context has expired (the bindings of
  expired contexts are woken too, whatever their condition), given counters that agree with the active
  states \<open>X\<close>, and lists of activated and deactivated states that have nothing in common, it returns the channel of a \<open>When\<close> or \<open>WhenNot\<close> binding if and only if the binding's condition holds
  after some prefix of the changes (first the activated states, then the deactivated ones), in particular
  whenever it holds after the transition; the counters of all other bindings agree with the new active
  states, and nobody whose condition holds is left waiting.\<close>

theorem ProcessWhen_exact:
  assumes "when_inv X sm" "\<And>c. \<not> expired c" "set activated \<inter> set deactivated = {}"
    and "ProcessWhen expired sm activated deactivated = (sm', chs)"
  shows "when_inv (X \<union> set activated - set deactivated) sm'
    \<and> (\<forall>p. p \<in> set chs \<longleftrightarrow> (\<exists>b i. gget (sm_whenHeap sm) p = Some b \<and> i \<le> length (activated @ deactivated)
           \<and> satisfied (after activated X (take i (activated @ deactivated))) b))"
proof -
  have "processWhen_states activated (activated @ deactivated) (sm, []) = (sm', chs)"
    using assms(4) by (simp add: ProcessWhen_def processWhenCtx_none [OF assms(2)])
  from process_states [OF assms(1) this] after_final [OF assms(3), of X] show ?thesis
    unfolding conds_met by simp
qed

lemma sub_When_binding:
  assumes "when_inv X sm" "fresh sm" "distinct states" "\<And>ss. act ss = (set ss \<subseteq> X)"
    and "sub_When expired act sm states c = Inr (sm', ch)"
  shows "if set states \<subseteq> X \<or> ctx_expired expired c then ch = Closed \<and> sm' = sm
    else when_inv X sm' \<and> fresh sm'
      \<and> (\<exists>b. gget (sm_whenHeap sm') ch = Some b \<and> set (gkeys (wb_States b)) = set states \<and> \<not> wb_Negation b \<and> wb_Ctx b = c)"
proof (cases "set states \<subseteq> X \<or> ctx_expired expired c")
  case True
  then show ?thesis using assms(4,5) by (simp add: sub_When_def)
next
  case False
  then have s: "sub_when act False sm states c = Inr (sm', ch)" using assms(4,5) by (simp add: sub_When_def)
  then obtain s0 ss where st: "states = s0 # ss" by (cases states) (simp_all add: sub_when_def)
  let ?bs = "map (when_binding sm) (ggetd [] (sm_when sm) s0)"
  have "when_inv X sm' \<and> fresh sm'
      \<and> (\<exists>b. gget (sm_whenHeap sm') ch = Some b \<and> set (gkeys (wb_States b)) = set states \<and> \<not> wb_Negation b \<and> wb_Ctx b = c)"
  proof (cases "find_when False states c ?bs")
    case (Some ch')
    with s st have e: "sm' = sm" "ch' = ch" by (simp_all add: sub_when_def)
    from find_when_Some [OF Some] obtain p where p: "p \<in> set (ggetd [] (sm_when sm) s0)"
      "wb_Ch (when_binding sm p) = ch" "\<not> wb_Negation (when_binding sm p)" "wb_Ctx (when_binding sm p) = c"
      "S_Equal (gkeys (wb_States (when_binding sm p))) states" using e(2) by auto
    from p(1) assms(1) obtain b where b: "gget (sm_whenHeap sm) p = Some b"
      unfolding when_inv_def heap_ok_def by blast
    then have "when_binding sm p = b" by (simp add: when_binding_def)
    moreover have "wb_Ch b = p" using assms(1) b by (simp add: when_inv_def heap_ok_def binding_ok_def)
    ultimately show ?thesis using p b e assms(1,2) by (simp add: S_Equal_def StatesEqual_iff)
  next
    case None
    with s st have n: "new_when act False states c sm = (sm', ch)" by (simp add: sub_when_def)
    have "\<not> (\<forall>s \<in> set states. (s \<in> X) \<noteq> False)" using False by auto
    note N = new_when_inv [OF assms(1,3) _ this _ n]
    have k: "when_inv X sm'" "conds sm' ch = Some (gkeys (foldl (\<lambda>m s. gput s (act [s]) m) [] states), False)"
      using N assms(2,4) by (simp_all add: fresh_def)
    have x: "map_option wb_Ctx (gget (sm_whenHeap sm') ch) = Some c"
      using n by (auto simp: new_when_def Let_def split: option.splits)
    have "fresh sm'" using new_when_fresh [OF assms(2), of act False states c] n by simp
    with k x setMap_facts(1) [OF assms(3), of "\<lambda>s. act [s]"] show ?thesis
      by (auto simp: conds_def shape_def)
  qed
  with False show ?thesis by simp
qed

lemma sub_When_returns: "\<exists>sm' ch. sub_When expired (\<lambda>ss. set ss \<subseteq> X) sm states c = Inr (sm', ch)"
  by (cases states) (auto simp: sub_When_def sub_when_def split: option.splits)

text \<open>C30. \<open>When\<close> subscribes. On a subscription manager whose counters agree with the active states \<open>X\<close> and whose next channel is
  new, for states without repetitions, it returns: the closed channel, with nothing changed, if all the states are active or the context has expired;
  otherwise a channel, new or shared, of a binding that waits for exactly the given states to become active under the given
  context. The counters of all bindings, the new one included, agree with \<open>X\<close>, and no binding waits for what already holds.\<close>

theorem When_subscribes:
  assumes "when_inv X sm" "fresh sm" "distinct states"
  shows "\<exists>sm' ch. sub_When expired (\<lambda>ss. set ss \<subseteq> X) sm states c = Inr (sm', ch)
    \<and> (if set states \<subseteq> X \<or> ctx_expired expired c then ch = Closed \<and> sm' = sm
       else when_inv X sm' \<and> fresh sm'
         \<and> (\<exists>b. gget (sm_whenHeap sm') ch = Some b \<and> set (gkeys (wb_States b)) = set states \<and> \<not> wb_Negation b \<and> wb_Ctx b = c))"
  using sub_When_returns [of expired X sm states c] sub_When_binding [OF assms refl] by blast

text \<open>A manager waiting for \<open>A\<close> and \<open>B\<close>, with \<open>B\<close> active.\<close>

definition ex_sm :: Subscriptions where
  "ex_sm = fst (new_when (\<lambda>ss. set ss \<subseteq> {''B''}) False [''A'', ''B''] None NewSubscriptionManager)"

lemma NewSubscriptionManager_inv: "when_inv X NewSubscriptionManager" "fresh NewSubscriptionManager"
  by (simp_all add: when_inv_def heap_ok_def fresh_def NewSubscriptionManager_def gget_def ggetd_def)

lemma ex_sm_inv: "when_inv {''B''} ex_sm"
proof -
  let ?act = "\<lambda>ss. set ss \<subseteq> {''B''}"
  obtain sm ch where n: "new_when ?act False [''A'', ''B''] None NewSubscriptionManager = (sm, ch)" by fastforce
  have "when_inv {''B''} sm"
    by (rule new_when_inv(1) [OF NewSubscriptionManager_inv(1) _ _ _ _ n])
      (simp_all add: NewSubscriptionManager_def gget_def)
  then show ?thesis using n by (simp add: ex_sm_def)
qed

theorem ProcessWhen_exact_witness:
  "1 \<in> set (snd (ProcessWhen (\<lambda>_. False) ex_sm [''A''] []))
   \<and> when_inv {''A'', ''B''} (fst (ProcessWhen (\<lambda>_. False) ex_sm [''A''] []))"
proof -
  obtain sm' chs where p: "ProcessWhen (\<lambda>_. False) ex_sm [''A''] [] = (sm', chs)" by fastforce
  have "case gget (sm_whenHeap ex_sm) 1 of None \<Rightarrow> False | Some b \<Rightarrow> satisfied {''A'', ''B''} b" by code_simp
  then have g: "\<exists>b. gget (sm_whenHeap ex_sm) 1 = Some b \<and> satisfied {''A'', ''B''} b" by (simp split: option.splits)
  have "set [''A''] \<inter> set [] = ({} :: string set)" by simp
  note T = ProcessWhen_exact [OF ex_sm_inv _ this p]
  have i: "when_inv ({''B''} \<union> set [''A''] - set []) sm'" using T by simp
  have "1 \<in> set chs \<longleftrightarrow> (\<exists>b i. gget (sm_whenHeap ex_sm) 1 = Some b \<and> i \<le> length ([''A''] @ [])
      \<and> satisfied (after [''A''] {''B''} (take i ([''A''] @ []))) b)" using T by blast
  moreover have "after [''A''] {''B''} (take 1 ([''A''] @ [])) = {''A'', ''B''}" by (simp add: flip_def)
  ultimately have "1 \<in> set chs" using g by (metis One_nat_def append_Nil2 le_refl length_Cons list.size(3))
  moreover have "when_inv {''A'', ''B''} sm'" using i by (simp add: insert_commute)
  ultimately show ?thesis using p by simp
qed

theorem When_subscribes_witness:
  "\<exists>sm' ch. sub_When (\<lambda>_. False) (\<lambda>ss. set ss \<subseteq> {''B''}) NewSubscriptionManager [''A'', ''B''] None = Inr (sm', ch)
     \<and> when_inv {''B''} sm' \<and> (\<exists>b. gget (sm_whenHeap sm') ch = Some b \<and> set (gkeys (wb_States b)) = {''A'', ''B''})"
proof -
  have d: "distinct [''A'', ''B'']" by simp
  from When_subscribes [OF NewSubscriptionManager_inv d, where X = "{''B''}" and expired = "\<lambda>_. False" and c = None] show ?thesis
    by (auto simp: ctx_expired_def)
qed

end
