(* ===== verification/Am_Api.thy ===== *)
theory Am_Api
  imports Am_Queue
begin

text \<open>
  The rest of the machine's public methods, \<open>src/pkg/machine/machine.go\<close>: the variants for one state, panics
  turned into errors, \<open>Eval\<close>, \<open>NewCommon\<close>, breakpoints and the pools of forked goroutines, and
  \<open>TimeIndexDiff\<close> of \<open>src/pkg/machine/transition.go\<close>.
\<close>

section \<open>One state at a time\<close>

definition EvAdd1 :: "Env \<Rightarrow> nat \<Rightarrow> Machine \<Rightarrow> Event option \<Rightarrow> string \<Rightarrow> A \<Rightarrow> (Result \<times> Machine) res" where
  "EvAdd1 env fuel m event state args = EvAdd env fuel m event [state] args"

definition EvRemove1 :: "Env \<Rightarrow> nat \<Rightarrow> Machine \<Rightarrow> Event option \<Rightarrow> string \<Rightarrow> A \<Rightarrow> (Result \<times> Machine) res" where
  "EvRemove1 env fuel m event state args = EvRemove env fuel m event [state] args"

definition EvToggle1 :: "Env \<Rightarrow> nat \<Rightarrow> Machine \<Rightarrow> Event option \<Rightarrow> string \<Rightarrow> A \<Rightarrow> (Result \<times> Machine) res" where
  "EvToggle1 env fuel m event state args =
     (if m_disposing m then Inr (Canceled, m)
      else if Is1 m state then EvRemove1 env fuel m event state args
      else EvAdd1 env fuel m event state args)"

definition EvAddErr :: "Env \<Rightarrow> nat \<Rightarrow> Machine \<Rightarrow> Event option \<Rightarrow> string option \<Rightarrow> A \<Rightarrow> (Result \<times> Machine) res" where
  "EvAddErr env fuel m event err args = EvAddErrState env fuel m event StateException err args"

definition When1 :: "Env \<Rightarrow> Machine \<Rightarrow> string \<Rightarrow> ctx option \<Rightarrow> (chan \<times> Machine) res" where
  "When1 env m state c = mach_When env m [state] c"

definition WhenNot1 :: "Env \<Rightarrow> Machine \<Rightarrow> string \<Rightarrow> ctx option \<Rightarrow> (chan \<times> Machine) res" where
  "WhenNot1 env m state c = mach_WhenNot env m [state] c"

definition WhenTime1 :: "Env \<Rightarrow> nat \<Rightarrow> Machine \<Rightarrow> string \<Rightarrow> uint64 \<Rightarrow> ctx option \<Rightarrow> (chan \<times> Machine) res" where
  "WhenTime1 env fuel m state ticks c = mach_WhenTime env fuel m [state] [ticks] c"

text \<open>\<open>None\<close>: a context that is cancelled already, or the one of a machine being disposed.\<close>

definition NewStateCtxActive :: "Machine \<Rightarrow> string \<Rightarrow> (ctx option \<times> Machine) res" where
  "NewStateCtxActive m state = (if \<not> Is1 m state then Inr (None, m) else mach_NewStateCtx m state)"

definition EvSource :: "Machine \<Rightarrow> nat \<Rightarrow> Event" where
  "EvSource m transitionId = \<lparr>ev_MachineId = m_id m, ev_TransitionId = transitionId\<rparr>"

section \<open>Getters\<close>

definition mach_Time :: "Machine \<Rightarrow> S option \<Rightarrow> Time option" where
  "mach_Time m states = (if m_disposed m then None else Some (mach_time m states))"

definition mach_Queue :: "Machine \<Rightarrow> Mutation list option" where
  "mach_Queue m = (if m_disposing m then None else Some (m_queue m))"

definition SchemaVer :: "Machine \<Rightarrow> int" where
  "SchemaVer m = int (length (m_stateNames m))"

definition Groups :: "Machine \<Rightarrow> (string, int list) gomap \<times> string list" where
  "Groups m = (m_groups m, m_groupsOrder m)"

section \<open>Panics\<close>

text \<open>What \<open>recover\<close> returns: nothing, an error, or another value. For the last the message is made of the nil
  error left by the failed type assertion.\<close>

datatype recovered = NoPanic | PanicError string | PanicValue string

definition PanicToErrState :: "Env \<Rightarrow> nat \<Rightarrow> Machine \<Rightarrow> recovered \<Rightarrow> string \<Rightarrow> A \<Rightarrow> Machine res" where
  "PanicToErrState env fuel m r state args =
     (if \<not> m_PanicToException m \<or> m_disposing m
      then (case r of NoPanic \<Rightarrow> Inr m | PanicError e \<Rightarrow> Inl (GoPanic e) | PanicValue v \<Rightarrow> Inl (GoPanic v))
      else case r of
        NoPanic \<Rightarrow> Inr m
      | PanicError e \<Rightarrow> bindR (AddErrState env fuel m state (Some e) args) (\<lambda>(_, m'). Inr m')
      | PanicValue v \<Rightarrow> bindR (AddErrState env fuel m state (Some ''<nil>'') args) (\<lambda>(_, m'). Inr m'))"

definition PanicToErr :: "Env \<Rightarrow> nat \<Rightarrow> Machine \<Rightarrow> recovered \<Rightarrow> A \<Rightarrow> Machine res" where
  "PanicToErr env fuel m r args =
     (if \<not> m_PanicToException m \<or> m_disposing m
      then (case r of NoPanic \<Rightarrow> Inr m | PanicError e \<Rightarrow> Inl (GoPanic e) | PanicValue v \<Rightarrow> Inl (GoPanic v))
      else case r of
        NoPanic \<Rightarrow> Inr m
      | PanicError e \<Rightarrow> bindR (AddErr env fuel m (Some e) args) (\<lambda>(_, m'). Inr m')
      | PanicValue v \<Rightarrow> bindR (AddErr env fuel m (Some ''<nil>'') args) (\<lambda>(_, m'). Inr m'))"

section \<open>Eval\<close>

text \<open>Where \<open>Eval\<close> is called: outside of handlers, or on the goroutine of the handler loop, in a handler, in another eval or
  in neither. The check
  for the latter needs \<open>detectEval\<close>. It adds an error and reports \<open>False\<close> on every path.\<close>

datatype eval_site = Outside | InHandler string | InEval string | InLoop

definition isNestedEval :: "Env \<Rightarrow> nat \<Rightarrow> Machine \<Rightarrow> bool \<Rightarrow> eval_site \<Rightarrow> string \<Rightarrow> (bool \<times> Machine) res" where
  "isNestedEval env fuel m detectEval site source =
     (if \<not> detectEval then Inr (False, m)
      else case site of
        Outside \<Rightarrow> Inr (False, m)
      | InHandler h \<Rightarrow> bindR (AddErr env fuel m
          (Some (''eval nested in handler or eval: eval:'' @ source @ '' called directly in handler '' @ h @ ''(), skipping'')) [])
          (\<lambda>(_, m'). Inr (False, m'))
      | InEval e \<Rightarrow> bindR (AddErr env fuel m
          (Some (''eval nested in handler or eval: eval:'' @ source @ '' called directly in eval.'' @ e @ '', skipping'')) [])
          (\<lambda>(_, m'). Inr (False, m'))
      | InLoop \<Rightarrow> bindR (AddErr env fuel m
          (Some (''eval nested in handler or eval: eval:'' @ source @ '' called directly in ???, skipping'')) [])
          (\<lambda>(_, m'). Inr (False, m')))"

definition eval_mutation :: "string \<Rightarrow> nat \<Rightarrow> ctx option \<Rightarrow> Mutation" where
  "eval_mutation source fn c =
     Mutation_zero\<lparr>mu_Type := mutationEval, mu_eval := Some fn, mu_evalSource := source, mu_ctx := c\<rparr>"

text \<open>\<open>Eval\<close> up to its wait; the mutation is run by \<open>PrependMut\<close> or stays queued.\<close>

definition Eval :: "Env \<Rightarrow> nat \<Rightarrow> Machine \<Rightarrow> bool \<Rightarrow> eval_site \<Rightarrow> string \<Rightarrow> nat \<Rightarrow> ctx option \<Rightarrow> (bool \<times> Machine) res" where
  "Eval env fuel m detectEval site source fn c =
     (if m_disposing m then Inr (False, m)
      else if source = [] then Inl (GoPanic ''error: source of eval is required'')
      else bindR (isNestedEval env fuel m detectEval site source) (\<lambda>(nested, m1).
        if nested then Inr (False, m1)
        else bindR (PrependMut env fuel m1 (eval_mutation source fn c)) (\<lambda>(_, m2). Inr (True, m2))))"

section \<open>Construction\<close>

definition NewCommon ::
  "Env \<Rightarrow> nat \<Rightarrow> Schema \<Rightarrow> S \<Rightarrow> handler option \<Rightarrow> Opts \<Rightarrow> string \<Rightarrow> (mach_error + Machine) res" where
  "NewCommon env fuel schema stateNames handlers opts ident =
     bindR (New env fuel schema opts ident) (\<lambda>m.
       case VerifyStates m stateNames of
         (Some err, m1) \<Rightarrow> Inr (Inl err)
       | (None, m1) \<Rightarrow>
           (case handlers of
              None \<Rightarrow> Inr (Inr m1)
            | Some h \<Rightarrow> bindR (bindHandlers env fuel m1 h (''new:'' @ ident)) (\<lambda>(_, m2). Inr (Inr m2))))"

section \<open>Breakpoints\<close>

record breakpoint =
  bp_Added :: S
  bp_Removed :: S
  bp_Strict :: bool

definition AddBreakpoint :: "breakpoint list \<Rightarrow> S \<Rightarrow> S \<Rightarrow> bool \<Rightarrow> breakpoint list" where
  "AddBreakpoint bps added removed strict =
     bps @ [\<lparr>bp_Added = added, bp_Removed = removed, bp_Strict = strict\<rparr>]"

definition AddBreakpoint1 :: "breakpoint list \<Rightarrow> string \<Rightarrow> string \<Rightarrow> bool \<Rightarrow> breakpoint list" where
  "AddBreakpoint1 bps added removed strict =
     (if added \<noteq> [] then AddBreakpoint bps [added] [] strict
      else if removed \<noteq> [] then AddBreakpoint bps [] [removed] strict
      else bps)"

text \<open>Whether the IDE breakpoint is reached.\<close>

fun breakpoint_hit :: "Machine \<Rightarrow> S \<Rightarrow> S \<Rightarrow> breakpoint list \<Rightarrow> bool res" where
  "breakpoint_hit m added removed [] = Inr False"
| "breakpoint_hit m added removed (bp # bps) =
     (if length added > 0 \<and> bp_Added bp \<noteq> added then breakpoint_hit m added removed bps
      else if length removed > 0 \<and> bp_Removed bp \<noteq> removed then breakpoint_hit m added removed bps
      else if \<not> bp_Strict bp then bindR (breakpoint_hit m added removed bps) (\<lambda>_. Inr True)
      else if length (bp_Added bp) > 0 \<and> Is m (bp_Added bp) then breakpoint_hit m added removed bps
      else if length (bp_Removed bp) > 0 then
        bindR (Not m (bp_Removed bp)) (\<lambda>off.
          if off then breakpoint_hit m added removed bps
          else bindR (breakpoint_hit m added removed bps) (\<lambda>_. Inr True))
      else bindR (breakpoint_hit m added removed bps) (\<lambda>_. Inr True))"

section \<open>Pools\<close>

record Pools =
  po_pools :: "(string, int) gomap"
  po_limits :: "(string, int) gomap"
  po_global :: int
  po_globalLimit :: int
  po_forked :: "nat list"

definition PoolSetLimit :: "Pools \<Rightarrow> string \<Rightarrow> int \<Rightarrow> Pools" where
  "PoolSetLimit p handlerName limit =
     p\<lparr>po_pools := gput handlerName 0 (po_pools p), po_limits := gput handlerName limit (po_limits p)\<rparr>"

text \<open>A handler without a pool is forked, and then the missing counter is read.\<close>

definition PoolFork :: "Pools \<Rightarrow> bool \<Rightarrow> string \<Rightarrow> nat \<Rightarrow> (bool \<times> Pools) res" where
  "PoolFork p valid name fn =
     (if \<not> valid then Inr (False, p)
      else if po_global p + 1 \<ge> po_globalLimit p \<and> po_globalLimit p > 0 then Inr (False, p)
      else case (gget (po_pools p) name, gget (po_limits p) name) of
        (Some c, Some limit) \<Rightarrow>
          (if c + 1 \<ge> limit then Inr (False, p)
           else Inr (True, p\<lparr>po_pools := gput name (c + 1) (po_pools p), po_forked := po_forked p @ [fn]\<rparr>))
      | (Some c, None) \<Rightarrow>
          (let p1 = p\<lparr>po_forked := po_forked p @ [fn]\<rparr> in
           if c + 1 \<ge> 0 then Inr (False, p1)
           else Inr (True, p1\<lparr>po_pools := gput name (c + 1) (po_pools p1), po_forked := po_forked p1 @ [fn]\<rparr>))
      | (None, _) \<Rightarrow> Inl (GoPanic ''nil pointer dereference''))"

text \<open>The end of a forked function of a pool.\<close>

definition pool_done :: "Pools \<Rightarrow> string \<Rightarrow> Pools" where
  "pool_done p name = p\<lparr>po_pools := gput name (ggetd 0 (po_pools p) name - 1) (po_pools p)\<rparr>"

definition PoolSetLimitGlobal :: "Pools \<Rightarrow> int \<Rightarrow> Pools" where
  "PoolSetLimitGlobal p limit = p\<lparr>po_globalLimit := limit\<rparr>"

section \<open>What a transition changed\<close>

text \<open>\<open>Time.Tick\<close> at an index that is not negative.\<close>

definition tick_at :: "Time option \<Rightarrow> nat \<Rightarrow> uint64" where
  "tick_at t i = (if length (sl t) \<le> i then 0 else sl t ! i)"

definition active_at :: "Time option \<Rightarrow> nat \<Rightarrow> bool" where
  "active_at t i = (t \<noteq> None \<and> IsActiveTick (tick_at t i))"

text \<open>The names added and removed; a changed tick of a state active before and after counts as added.\<close>

fun index_diff :: "nat \<Rightarrow> S \<Rightarrow> Time option \<Rightarrow> Time option \<Rightarrow> S \<times> S" where
  "index_diff i [] before after = ([], [])"
| "index_diff i (name # index) before after =
     (case index_diff (Suc i) index before after of (added, removed) \<Rightarrow>
        if active_at before i \<and> \<not> active_at after i then (added, name # removed)
        else if \<not> active_at before i \<and> active_at after i then (name # added, removed)
        else if before \<noteq> None \<and> tick_at before i \<noteq> tick_at after i then (name # added, removed)
        else (added, removed))"

definition TimeIndexDiff :: "S \<Rightarrow> Time option \<Rightarrow> Time option \<Rightarrow> (TimeIndex \<times> TimeIndex) res" where
  "TimeIndexDiff index before after =
     (case index_diff 0 index before after of (added, removed) \<Rightarrow>
        bindR (NewTimeIndex index (map (slices_Index index) added)) (\<lambda>a.
          bindR (NewTimeIndex index (map (slices_Index index) removed)) (\<lambda>r. Inr (a, r))))"

end
