(* ===== verification/Am_Schemas.thy ===== *)
theory Am_Schemas
  imports Am_Api
begin

text \<open>
  State definitions. \<open>NewStates\<close> of \<open>src/pkg/machine/schema.go\<close> reads the names of a machine's states off a
  struct by reflection; a struct is described here by its fields. On top of it the schemas of
  \<open>src/pkg/states\<close> and \<open>src/pkg/rpc/states\<close>, from which the RPC server, the client and the mux are made.
\<close>

section \<open>Names from a struct\<close>

text \<open>An exported string field, an embedded pointer to a struct, a named pointer to a struct.\<close>

datatype field = FState string | FEmbed string "field list" | FNested string "field list"

record names_acc =
  na_names :: S
  na_groups :: "(string, int list) gomap"
  na_order :: "string list"

definition open_grp :: "string \<Rightarrow> names_acc \<Rightarrow> names_acc" where
  "open_grp grp acc =
     (if grp \<noteq> ''StatesBase''
      then acc\<lparr>na_groups := gput grp [] (na_groups acc), na_order := na_order acc @ [grp]\<rparr> else acc)"

definition add_name :: "string \<Rightarrow> string \<Rightarrow> names_acc \<Rightarrow> names_acc" where
  "add_name grp stateName acc =
     (if slices_Contains (na_names acc) stateName then acc
      else let acc1 = (if grp \<noteq> ''StatesBase''
                       then acc\<lparr>na_groups := gput grp (ggetd [] (na_groups acc) grp @ [int (length (na_names acc))])
                                               (na_groups acc)\<rparr> else acc)
        in acc1\<lparr>na_names := na_names acc1 @ [stateName]\<rparr>)"

function (sequential) parse_fields :: "field list \<Rightarrow> string \<Rightarrow> string \<Rightarrow> names_acc \<Rightarrow> names_acc" where
  "parse_fields [] grp prefix acc = acc"
| "parse_fields (FState name # fs) grp prefix acc = parse_fields fs grp prefix (add_name grp (prefix @ name) acc)"
| "parse_fields (FEmbed name sub # fs) grp prefix acc =
     parse_fields fs grp prefix (parse_fields sub name prefix (open_grp name acc))"
| "parse_fields (FNested name sub # fs) grp prefix acc =
     parse_fields fs grp prefix (parse_fields sub name (prefix @ name) (open_grp name acc))"
  by pat_completeness auto
termination by (relation "measure (\<lambda>(fs, g, p, a). size_list size fs)") auto

definition parseStateNames :: "field list \<Rightarrow> string \<Rightarrow> string \<Rightarrow> names_acc \<Rightarrow> names_acc" where
  "parseStateNames fs grp prefix acc = parse_fields fs grp prefix (open_grp grp acc)"

definition NewStates :: "field list \<Rightarrow> names_acc" where
  "NewStates fs =
     (let acc = parseStateNames fs ''self'' [] \<lparr>na_names = [], na_groups = [], na_order = []\<rparr>
      in acc\<lparr>na_names := slicesUniq (na_names acc)\<rparr>)"

definition Names :: "field list \<Rightarrow> S" where
  "Names fs = na_names (NewStates fs)"

text \<open>The lists among the fields of a groups struct (\<open>groups\<close>), then the groups of the state names.\<close>

definition SetGroups :: "Machine \<Rightarrow> (string \<times> S) list \<Rightarrow> names_acc option \<Rightarrow> Machine" where
  "SetGroups m groups optStates =
     (let list1 = foldl (\<lambda>l (name, states). gput name (S_Index (m_stateNames m) states) l) [] groups;
          order1 = map fst groups
      in case optStates of
           None \<Rightarrow> m\<lparr>m_groups := list1, m_groupsOrder := order1\<rparr>
         | Some acc \<Rightarrow>
             m\<lparr>m_groups := foldl (\<lambda>l name. gput name (ggetd [] (na_groups acc) name) l) list1 (na_order acc),
               m_groupsOrder := order1 @ na_order acc\<rparr>)"

definition StatesBase :: field where
  "StatesBase = FEmbed ''StatesBase'' [FState ''Exception'']"

section \<open>Basic states\<close>

text \<open>A state from its options and relations; an empty list stands for an omitted one.\<close>

definition state_of :: "bool \<Rightarrow> bool \<Rightarrow> S \<Rightarrow> S \<Rightarrow> S \<Rightarrow> State" where
  "state_of auto multi req ad rem =
     State_zero\<lparr>Auto := auto, Multi := multi, Require := (if req = [] then None else Some req),
       Add := (if ad = [] then None else Some ad), Remove := (if rem = [] then None else Some rem)\<rparr>"

definition BasicStatesDef :: "field list" where
  "BasicStatesDef = [StatesBase, FState ''ErrNetwork'', FState ''ErrHandlerTimeout'', FState ''Start'', FState ''Ready'',
     FState ''Healthcheck'', FState ''Heartbeat'']"

definition BasicSchema :: Schema where
  "BasicSchema =
     [(''Exception'', state_of False True [] [] []),
      (''ErrNetwork'', state_of False True [''Exception''] [''Exception''] []),
      (''ErrHandlerTimeout'', state_of False True [''Exception''] [''Exception''] []),
      (''Start'', state_of False False [] [] []),
      (''Ready'', state_of False False [''Start''] [] []),
      (''Healthcheck'', state_of False True [] [] []),
      (''Heartbeat'', state_of False False [] [] [])]"

definition ConnectedStatesDef :: "field list" where
  "ConnectedStatesDef = [FState ''ErrConnecting'', FState ''Connecting'', FState ''Connected'', FState ''Disconnecting'',
     FState ''Disconnected'', StatesBase]"

definition ConnectedGroup :: S where
  "ConnectedGroup = [''Connecting'', ''Connected'', ''Disconnecting'', ''Disconnected'']"

definition ConnectedSchema :: Schema where
  "ConnectedSchema =
     [(''ErrConnecting'', state_of False False [''Exception''] [] []),
      (''Connecting'', state_of False False [''Start''] [] ConnectedGroup),
      (''Connected'', state_of False False [''Start''] [] ConnectedGroup),
      (''Disconnecting'', state_of False False [] [] ConnectedGroup),
      (''Disconnected'', state_of True False [] [] ConnectedGroup)]"

definition ConnPoolStatesDef :: "field list" where
  "ConnPoolStatesDef = [FState ''ErrConnecting'', FState ''Connecting'', FState ''Connected'', FState ''ConnectedFully'',
     FState ''Disconnecting'', FState ''Disconnected'', StatesBase]"

definition ConnPoolSchema :: Schema where
  "ConnPoolSchema =
     [(''ErrConnecting'', state_of False False [''Exception''] [] []),
      (''Disconnected'', state_of False False [] [] [''Connecting'', ''ConnectedFully'', ''Disconnecting'']),
      (''Connecting'', state_of False False [''Start''] [] [''Disconnecting'']),
      (''Connected'', state_of False False [''Start''] [] [''Disconnected'']),
      (''ConnectedFully'', state_of False False [''Connected''] [] [''Disconnected'']),
      (''Disconnecting'', state_of False False [] [] [''ConnectedFully'', ''Connected'', ''Connecting''])]"

definition DisposedStatesDef :: "field list" where
  "DisposedStatesDef = [StatesBase, FState ''RegisterDisposal'', FState ''Disposing'', FState ''Disposed'']"

definition DisposedSchema :: Schema where
  "DisposedSchema =
     [(''RegisterDisposal'', state_of False True [] [] []),
      (''Disposing'', state_of False False [] [] [''Start'', ''Exception'']),
      (''Disposed'', state_of False False [] [] [''Start'', ''Exception'', ''Disposing''])]"

section \<open>RPC states\<close>

definition StateSourceStatesDef :: "field list" where
  "StateSourceStatesDef = [StatesBase, FState ''ErrOnClient'']"

definition StateSourceSchema :: Schema where
  "StateSourceSchema = [(''ErrOnClient'', state_of False False [''Exception''] [] [])]"

definition SharedStatesDef :: "field list" where
  "SharedStatesDef = [StatesBase, FState ''ErrNetworkTimeout'', FState ''ErrRpc'', FState ''ErrDelivery'',
     FState ''HandshakeDone'', FState ''Handshaking'', FEmbed ''BasicStatesDef'' BasicStatesDef,
     FEmbed ''StateSourceStatesDef'' StateSourceStatesDef]"

definition HandshakeGroup :: S where
  "HandshakeGroup = [''Handshaking'', ''HandshakeDone'']"

definition SharedSchema :: Schema where
  "SharedSchema = Schema_Merge BasicSchema [StateSourceSchema,
     [(''ErrNetwork'', state_of False False [''Exception''] [] []),
      (''ErrNetworkTimeout'', state_of False False [''Exception''] [] []),
      (''ErrRpc'', state_of False False [''Exception''] [] []),
      (''ErrDelivery'', state_of False False [''Exception''] [] []),
      (''Handshaking'', state_of False False [''Start''] [] HandshakeGroup),
      (''HandshakeDone'', state_of False False [''Start''] [] HandshakeGroup)]]"

definition ServerStatesDef :: "field list" where
  "ServerStatesDef = [StatesBase, FState ''Ready'', FState ''RpcStarting'', FState ''RpcAccepting'', FState ''RpcReady'',
     FState ''ClientConnected'', FState ''HandshakeDone'', FState ''MetricSync'', FState ''WebSocketTunnel'',
     FEmbed ''SharedStatesDef'' SharedStatesDef]"

definition RpcGroup :: S where
  "RpcGroup = [''RpcStarting'', ''RpcAccepting'', ''RpcReady'']"

definition ServerSchema :: Schema where
  "ServerSchema = Schema_Merge SharedSchema [
     [(''ErrNetwork'', state_of False False [''Exception''] [] [''ClientConnected'']),
      (''HandshakeDone'', State_Extend (Schema_Get SharedSchema ''HandshakeDone'')
         (state_of False False [''ClientConnected''] [] [''Exception''])),
      (''Start'', state_of False False [] [''RpcStarting''] []),
      (''Ready'', state_of True False [''HandshakeDone'', ''RpcReady''] [] []),
      (''RpcStarting'', state_of False False [''Start''] [] RpcGroup),
      (''RpcAccepting'', state_of False False [''Start''] [] RpcGroup),
      (''RpcReady'', state_of False False [''Start''] [] RpcGroup),
      (''ClientConnected'', state_of False False [''RpcReady''] [] []),
      (''MetricSync'', state_of False True [] [] []),
      (''WebSocketTunnel'', state_of False False [] [] [])]]"

definition ClientStatesDef :: "field list" where
  "ClientStatesDef = [StatesBase, FState ''RetryingCall'', FState ''CallRetryFailed'', FState ''RetryingConn'',
     FState ''ConnRetryFailed'', FState ''Ready'', FState ''HandshakeDone'', FState ''ServerDelivering'',
     FState ''ServerPayload'', FState ''MetricSync'', FEmbed ''SharedStatesDef'' SharedStatesDef,
     FEmbed ''ConnectedStatesDef'' ConnectedStatesDef]"

definition ClientSchema :: Schema where
  "ClientSchema = Schema_Merge SharedSchema [ConnectedSchema,
     [(''ErrNetwork'', state_of False False [''Exception''] [] [''Connecting'']),
      (''Start'', state_of False False [] [''Connecting''] [''ConnRetryFailed'']),
      (''Ready'', state_of True False [''HandshakeDone''] [] []),
      (''Connected'', State_Extend (Schema_Get ConnectedSchema ''Connected'')
         (state_of False False [] [''Handshaking''] [''RetryingConn''])),
      (''Handshaking'', State_Extend (Schema_Get SharedSchema ''Handshaking'') (state_of False False [''Connected''] [] [])),
      (''HandshakeDone'', StateAdd (Schema_Get SharedSchema ''HandshakeDone'') (state_of False False [''Connected''] [] [])),
      (''RetryingCall'', state_of False False [''Start''] [] []),
      (''CallRetryFailed'', state_of False False [] [''ErrNetwork'', ''Exception''] [''RetryingCall'']),
      (''RetryingConn'', state_of False False [''Start''] [] []),
      (''ConnRetryFailed'', state_of False False [] [] [''Start'']),
      (''ServerDelivering'', state_of False True [''Connected''] [] []),
      (''ServerPayload'', state_of False True [''Connected''] [] []),
      (''MetricSync'', state_of False True [] [] [])]]"

definition MuxStatesDef :: "field list" where
  "MuxStatesDef = [StatesBase, FState ''Ready'', FState ''ClientConnected'', FState ''HasClients'', FState ''NewServerErr'',
     FEmbed ''BasicStatesDef'' BasicStatesDef]"

definition MuxSchema :: Schema where
  "MuxSchema = Schema_Merge BasicSchema [
     [(''Exception'', state_of False True [] [] [''Ready'']),
      (''Ready'', state_of False False [''Start''] [] []),
      (''ClientConnected'', state_of False True [''Start''] [] []),
      (''HasClients'', state_of False False [''Start''] [] []),
      (''NewServerErr'', state_of False False [] [] [])]]"

definition ConsumerStatesDef :: "field list" where
  "ConsumerStatesDef = [StatesBase, FState ''Exception'', FState ''ServerPayload'']"

definition ConsumerSchema :: Schema where
  "ConsumerSchema = [(''ServerPayload'', state_of False True [] [] [])]"

end
