(* ===== verification/Am_Rpc.thy ===== *)
theory Am_Rpc
  imports Am_Schemas
begin

text \<open>
  The server side of the RPC: messages, the tracer on the state source and the clock updates sent to a
  client, \<open>src/pkg/rpc/rpc.go\<close> and \<open>src/pkg/rpc/rpc_server.go\<close>. The server's own machine is \<open>sv_Mach\<close>; its
  handlers (listeners, connections) are the parameter \<open>env\<close> as for every machine. The transport is a third-party
  package: a notification is a message in \<open>sv_sent\<close>, and \<open>netErr\<close> is the error its call returned. The tracer
  hears of every transition of the source, which is given by the observation \<open>tx_obs\<close>; pushes run in
  goroutines of their own, so \<open>PushClient\<close> is a step of its own.
\<close>

section \<open>Messages\<close>

type_synonym uint8 = "8 word"

record MsgSrvUpdate =
  up_Indexes :: "uint16 list"
  up_Ticks :: "uint32 list"
  up_QueueTick :: uint16
  up_MachTick :: uint8
  up_Checksum :: uint8

record MsgSrvUpdateMuts =
  um_MutationType :: "MutationType list"
  um_CalledStates :: "uint16 list list"
  um_Updates :: "MsgSrvUpdate list"

record MsgCliHello =
  ch_Id :: string
  ch_SyncSchema :: bool
  ch_SchemaHash :: string
  ch_SyncMutations :: bool
  ch_AllowedStates :: "S option"
  ch_SkippedStates :: S
  ch_ShallowClocks :: bool

record MsgSrvHello =
  sh_Schema :: "Schema option"
  sh_Serialized :: Serialized
  sh_StatesCount :: uint32

record MsgCliMutation =
  cm_States :: "int list option"
  cm_Args :: A
  cm_Event :: "Event option"

record MsgSrvMutation =
  rm_Update :: "MsgSrvUpdate option"
  rm_Mutations :: "MsgSrvUpdateMuts option"
  rm_Result :: Result

record MsgSrvSync =
  sy_Time :: Time
  sy_QueueTick :: uint64
  sy_MachTick :: uint32

datatype rpc_error = ErrCanceled | ErrInvalidParams | ErrNoAccess | ErrNoConn | ErrDestination

definition Checksum :: "uint64 \<Rightarrow> uint64 \<Rightarrow> uint32 \<Rightarrow> uint8" where
  "Checksum mTime qTick machTick = ucast (mTime + qTick + ucast machTick)"

section \<open>Names of server states\<close>

definition ssS_Start :: string where "ssS_Start = ''Start''"
definition ssS_HandshakeDone :: string where "ssS_HandshakeDone = ''HandshakeDone''"
definition ssS_Handshaking :: string where "ssS_Handshaking = ''Handshaking''"
definition ssS_ClientConnected :: string where "ssS_ClientConnected = ''ClientConnected''"
definition ssS_MetricSync :: string where "ssS_MetricSync = ''MetricSync''"
definition ssS_ErrRpc :: string where "ssS_ErrRpc = ''ErrRpc''"
definition ssS_ErrNetwork :: string where "ssS_ErrNetwork = ''ErrNetwork''"
definition ssS_ErrNetworkTimeout :: string where "ssS_ErrNetworkTimeout = ''ErrNetworkTimeout''"
definition ssS_RpcStarting :: string where "ssS_RpcStarting = ''RpcStarting''"
definition ssS_RpcAccepting :: string where "ssS_RpcAccepting = ''RpcAccepting''"
definition ssS_RpcReady :: string where "ssS_RpcReady = ''RpcReady''"
definition ssS_WebSocketTunnel :: string where "ssS_WebSocketTunnel = ''WebSocketTunnel''"

section \<open>Errors\<close>

text \<open>The messages of the sentinel errors, and \<open>%w: %s\<close>.\<close>

definition ErrRpc_msg :: string where "ErrRpc_msg = ''rpc''"
definition ErrInvalidParams_msg :: string where "ErrInvalidParams_msg = ''invalid params''"
definition ErrInvalidResp_msg :: string where "ErrInvalidResp_msg = ''invalid response''"
definition ErrNoConn_msg :: string where "ErrNoConn_msg = ''not connected''"
definition ErrNetworkTimeout_msg :: string where "ErrNetworkTimeout_msg = ''network timeout''"

definition wrap_err :: "string \<Rightarrow> string \<Rightarrow> string" where
  "wrap_err outer msg = outer @ '': '' @ msg"

definition AddErrRpcStr :: "Env \<Rightarrow> nat \<Rightarrow> Event option \<Rightarrow> Machine \<Rightarrow> string \<Rightarrow> (Result \<times> Machine) res" where
  "AddErrRpcStr env fuel e mach msg = EvAddErrState env fuel mach e ssS_ErrRpc (Some (wrap_err ErrRpc_msg msg)) []"

definition AddErrParams :: "Env \<Rightarrow> nat \<Rightarrow> Machine \<Rightarrow> string \<Rightarrow> (Result \<times> Machine) res" where
  "AddErrParams env fuel mach err = AddErrState env fuel mach ssS_ErrRpc (Some (wrap_err ErrInvalidParams_msg err)) []"

definition AddErrResp :: "Env \<Rightarrow> nat \<Rightarrow> Machine \<Rightarrow> string \<Rightarrow> (Result \<times> Machine) res" where
  "AddErrResp env fuel mach err = AddErrState env fuel mach ssS_ErrRpc (Some (wrap_err ErrInvalidResp_msg err)) []"

definition AddErrNetwork :: "Env \<Rightarrow> nat \<Rightarrow> Machine \<Rightarrow> string \<Rightarrow> (Result \<times> Machine) res" where
  "AddErrNetwork env fuel mach err = AddErrState env fuel mach ssS_ErrNetwork (Some err) []"

definition AddErrNetworkTimeout :: "Env \<Rightarrow> nat \<Rightarrow> Machine \<Rightarrow> string \<Rightarrow> (Result \<times> Machine) res" where
  "AddErrNetworkTimeout env fuel mach err = AddErrState env fuel mach ssS_ErrNetworkTimeout (Some err) []"

definition AddErrNoConn :: "Env \<Rightarrow> nat \<Rightarrow> Machine \<Rightarrow> string \<Rightarrow> (Result \<times> Machine) res" where
  "AddErrNoConn env fuel mach err = AddErrState env fuel mach ssS_ErrNetwork (Some (wrap_err ErrNoConn_msg err)) []"

text \<open>\<open>isOp\<close>: the error is a \<open>*net.OpError\<close>; with a message it is wrapped, and the type test fails.\<close>

fun strings_Contains :: "string \<Rightarrow> string \<Rightarrow> bool" where
  "strings_Contains [] sub = (sub = [])"
| "strings_Contains (c # s) sub = (strings_HasPrefix (c # s) sub \<or> strings_Contains s sub)"

definition rpc_AddErr :: "Env \<Rightarrow> nat \<Rightarrow> Machine \<Rightarrow> string \<Rightarrow> bool \<Rightarrow> string \<Rightarrow> (Result \<times> Machine) res" where
  "rpc_AddErr env fuel mach msg isOp err0 =
     (let err = (if msg \<noteq> [] then wrap_err err0 msg else err0) in
      if strings_HasPrefix err ''gob: '' then AddErrResp env fuel mach err
      else if strings_Contains err (''rpc2: can'' @ [CHR 0x27] @ ''t find method'')
      then AddErrRpcStr env fuel None mach err
      else if strings_Contains err ''connection is shut down'' \<or> strings_Contains err ''unexpected EOF''
      then AddErrState env fuel mach ssS_ErrRpc (Some err) []
      else if strings_Contains err ''timeout'' then
        AddErrNetwork env fuel mach (err @ [CHR 0x0A] @ ErrNetworkTimeout_msg)
      else if isOp \<and> msg = [] then AddErrNetwork env fuel mach err
      else AddErr env fuel mach (Some err) [])"

text \<open>\<open>isNet\<close>: \<open>errors.Is(args.Err, ErrNetwork)\<close>.\<close>

definition rpc_ExceptionEnter :: "Machine \<Rightarrow> bool \<Rightarrow> bool" where
  "rpc_ExceptionEnter mach isNet =
     (\<not> (isNet \<and> Has mach [''Disconnecting'', ''Disconnected''] \<and> Any1 mach [''Disconnecting'', ''Disconnected'']))"

text \<open>Typed arguments of the package are passed under this key.\<close>

definition am_rpc :: string where "am_rpc = ''am_rpc''"

section \<open>The tracer's data\<close>

record tracerData =
  td_mTrackedTimeSum :: uint64
  td_mTime :: "Time option"
  td_queueTick :: uint64
  td_machTick :: uint32
  td_checksum :: uint8
  td_tracked :: S
  td_trackedIdxs :: "int list"

definition tracerData_zero :: tracerData where
  "tracerData_zero = \<lparr>td_mTrackedTimeSum = 0, td_mTime = None, td_queueTick = 0, td_machTick = 0,
     td_checksum = 0, td_tracked = [], td_trackedIdxs = []\<rparr>"

record tracerMutation =
  tm_mutType :: MutationType
  tm_calledIdxs :: "int list"
  tm_data :: tracerData

record sourceTracer =
  st_active :: bool
  st_dataLatest :: "tracerData option"
  st_dataQueue :: "tracerMutation list"
  st_trackedStates :: "S option"
  st_trackedStateIdxs :: "int list"

record Server =
  sv_Mach :: Machine
  sv_Addr :: string
  sv_PushInterval :: int
  sv_AllowedMachIds :: "string list"
  sv_syncMutations :: bool
  sv_syncAllowedStates :: "S option"
  sv_syncSkippedStates :: S
  sv_syncSchema :: bool
  sv_syncShallowClocks :: bool
  sv_rpcClient :: bool
  sv_tracer :: sourceTracer
  sv_clientId :: "string option"
  sv_lastPush :: int
  sv_now :: int
  sv_lastPushData :: "tracerData option"
  sv_CallCount :: uint64
  sv_WebSocket :: bool
  sv_WebSocketTunnel :: string
  sv_AllowedWsPubKeys :: "string list"
  sv_Listener :: bool
  sv_Conn :: bool
  sv_sent :: "(MsgSrvUpdate + MsgSrvUpdateMuts) list"

text \<open>What the tracer reads from the source at the end of a transition.\<close>

record tx_obs =
  to_StateNames :: S
  to_Time :: Time
  to_QueueTick :: uint64
  to_MachTick :: uint32
  to_Type :: MutationType
  to_Called :: "int list"

section \<open>Construction\<close>

record ServerOpts =
  so_ParentId :: string
  so_WebSocket :: bool
  so_WebSocketTunnel :: string
  so_AllowedMachIds :: "string list"
  so_AllowedWsPubKeys :: "string list"

definition server_handlers :: handler where
  "server_handlers = \<lparr>h_id = [], h_num = 0, h_isMap = False, h_StatePrefix = [],
     h_methods = [''ExceptionEnter'', ''ExceptionState'', ''StartState'', ''StartEnd'', ''RpcStartingEnter'',
       ''RpcStartingState'', ''RpcAcceptingEnter'', ''RpcAcceptingState'', ''RpcReadyEnter'', ''RpcReadyState'',
       ''HandshakeDoneEnd''], h_negotiations = [], h_finals = []\<rparr>"

definition TagRpcServer :: string where "TagRpcServer = ''rpc-server''"

definition newTracer :: sourceTracer where
  "newTracer = \<lparr>st_active = False, st_dataLatest = Some (tracerData_zero\<lparr>td_queueTick := 1\<rparr>), st_dataQueue = [],
     st_trackedStates = None, st_trackedStateIdxs = []\<rparr>"

definition newServer :: "string \<Rightarrow> ServerOpts \<Rightarrow> Machine \<Rightarrow> Server" where
  "newServer addr opts mach =
     \<lparr>sv_Mach = mach, sv_Addr = addr, sv_PushInterval = 250000000, sv_AllowedMachIds = so_AllowedMachIds opts,
      sv_syncMutations = False, sv_syncAllowedStates = None, sv_syncSkippedStates = [], sv_syncSchema = False,
      sv_syncShallowClocks = False, sv_rpcClient = False, sv_tracer = newTracer, sv_clientId = None, sv_lastPush = 0,
      sv_now = 0, sv_lastPushData = Some tracerData_zero, sv_CallCount = 0, sv_WebSocket = so_WebSocket opts,
      sv_WebSocketTunnel = so_WebSocketTunnel opts, sv_AllowedWsPubKeys = so_AllowedWsPubKeys opts,
      sv_Listener = False, sv_Conn = False, sv_sent = []\<rparr>"

text \<open>The checks of \<open>NewServer\<close> before anything is created. A source with handlers has to have the states of
  \<open>StateSourceStatesDef\<close>.\<close>

definition NewServer_refuses :: "string \<Rightarrow> Machine option \<Rightarrow> ServerOpts \<Rightarrow> string option" where
  "NewServer_refuses addr stateSource opts =
     (if so_WebSocketTunnel opts \<noteq> [] \<and> addr = [] then Some ''addr required for WebSocketTunnel''
      else if so_WebSocket opts \<and> addr = [] then Some ''addr required for WebSocket''
      else case stateSource of
        None \<Rightarrow> Some ''netSrcMach required''
      | Some src \<Rightarrow>
          (if \<not> m_statesVerified src then Some ''net source states not verified, call VerifyStates()''
           else if length (Handlers src) > 0 \<and> \<not> Has src (Names StateSourceStatesDef) then Some ''schema''
           else None))"

definition NewServer ::
  "Env \<Rightarrow> nat \<Rightarrow> string \<Rightarrow> string \<Rightarrow> Machine option \<Rightarrow> ServerOpts \<Rightarrow> (string + Server) res" where
  "NewServer env fuel addr name stateSource opts =
     (case NewServer_refuses addr stateSource opts of
        Some err \<Rightarrow> Inr (Inl err)
      | None \<Rightarrow>
          (let ident = ''rs-'' @ (if name = [] then ''rpc'' else name) in
           bindR (NewCommon env fuel ServerSchema (Names ServerStatesDef) (Some server_handlers)
             \<lparr>op_Id = ident, op_QueueLimit = 0, op_DontPanicToException = False, op_HandlerBackoff = 0,
              op_Tags = [TagRpcServer], op_ParentId = so_ParentId opts\<rparr> ident) (\<lambda>r.
             case r of
               Inl err \<Rightarrow> Inr (Inl ''schema'')
             | Inr m \<Rightarrow>
                 (let m1 = SetGroups m [(''Rpc'', RpcGroup)] (Some (NewStates ServerStatesDef)) in
                  if so_WebSocketTunnel opts \<noteq> []
                  then bindR (mach_Add1 env fuel m1 ssS_WebSocketTunnel []) (\<lambda>(_, m2). Inr (Inr (newServer addr opts m2)))
                  else Inr (Inr (newServer addr opts m1))))))"

section \<open>Guards of the server's states\<close>

definition RpcStartingEnter :: "Server \<Rightarrow> bool" where
  "RpcStartingEnter s = (\<not> (sv_Addr s = [] \<and> \<not> sv_Listener s \<and> \<not> sv_Conn s))"

definition RpcAcceptingEnter :: "Server \<Rightarrow> bool" where
  "RpcAcceptingEnter s = (sv_Listener s \<or> sv_Conn s)"

definition RpcReadyEnter :: "Server \<Rightarrow> bool" where
  "RpcReadyEnter s = Is1 (sv_Mach s) ssS_RpcAccepting"

definition server_Start :: "Env \<Rightarrow> nat \<Rightarrow> Server \<Rightarrow> Event option \<Rightarrow> (Result \<times> Server) res" where
  "server_Start env fuel s e = bindR (EvAdd1 env fuel (sv_Mach s) e ssS_Start []) (\<lambda>(r, m). Inr (r, s\<lparr>sv_Mach := m\<rparr>))"

definition ClientId :: "Server \<Rightarrow> string" where
  "ClientId s = (case sv_clientId s of None \<Rightarrow> [] | Some i \<Rightarrow> i)"

text \<open>The key a websocket request carries: the header, or the first protocol that is not its name.\<close>

fun split_comma :: "string \<Rightarrow> string \<Rightarrow> string list" where
  "split_comma acc [] = [acc]"
| "split_comma acc (c # cs) = (if c = CHR 0x2C then acc # split_comma [] cs else split_comma (acc @ [c]) cs)"

definition fold_char :: "char \<Rightarrow> char" where
  "fold_char c = (let n = of_char c :: nat in if 65 \<le> n \<and> n \<le> 90 then char_of (n + 32) else c)"

fun first_protocol :: "string list \<Rightarrow> string" where
  "first_protocol [] = []"
| "first_protocol (p # ps) =
     (let q = strings_TrimSpace p in
      if map fold_char q \<noteq> map fold_char ''X-API-Key'' \<and> q \<noteq> [] then q else first_protocol ps)"

definition ws_authorized :: "Server \<Rightarrow> string \<Rightarrow> string \<Rightarrow> bool" where
  "ws_authorized s apiKey protocolHeader =
     (length (sv_AllowedWsPubKeys s) = 0 \<or>
      (let pk = (if apiKey = [] \<and> protocolHeader \<noteq> [] then first_protocol (split_comma [] protocolHeader) else apiKey)
       in pk \<noteq> [] \<and> slices_Contains (sv_AllowedWsPubKeys s) pk))"

section \<open>Tracing the source\<close>

definition calcTrackedStates :: "Server \<Rightarrow> S \<Rightarrow> sourceTracer \<Rightarrow> sourceTracer" where
  "calcTrackedStates s states t =
     (let allowed = (case sv_syncAllowedStates s of None \<Rightarrow> states | Some a \<Rightarrow> StatesShared states a);
          tracked = StatesDiff allowed (sv_syncSkippedStates s)
      in t\<lparr>st_trackedStates := Some tracked,
           st_trackedStateIdxs := map (\<lambda>name. slices_Index states name) tracked\<rparr>)"

definition DataLatest :: "Server \<Rightarrow> tracerData option" where
  "DataLatest s = st_dataLatest (sv_tracer s)"

text \<open>``Copy and flush'': it is the latest data that is dropped, not the queue.\<close>

definition DataQueue :: "Server \<Rightarrow> tracerMutation list \<times> Server" where
  "DataQueue s = (st_dataQueue (sv_tracer s), s\<lparr>sv_tracer := (sv_tracer s)\<lparr>st_dataLatest := None\<rparr>\<rparr>)"

definition tracer_data :: "Server \<Rightarrow> sourceTracer \<Rightarrow> tx_obs \<Rightarrow> tracerData res" where
  "tracer_data s t obs =
     (case Time_Filter (to_Time obs) (st_trackedStateIdxs t) of
        Inl fault \<Rightarrow> Inl fault
      | Inr filtered \<Rightarrow>
          (let mTime1 = (if \<not> sv_syncSchema s then filtered else to_Time obs) in
           case (if sv_syncShallowClocks s then NewTime mTime1 (Time_ActiveStates mTime1 None) else Inr mTime1) of
             Inl fault \<Rightarrow> Inl fault
           | Inr mTime \<Rightarrow>
               (let trackedTSum = (if sv_syncShallowClocks s then Time_SumAll mTime else Time_SumAll filtered)
                in Inr \<lparr>td_mTrackedTimeSum = trackedTSum, td_mTime = Some mTime,
                        td_queueTick = to_QueueTick obs, td_machTick = to_MachTick obs,
                        td_checksum = Checksum trackedTSum (to_QueueTick obs) (to_MachTick obs),
                        td_tracked = sl (st_trackedStates t), td_trackedIdxs = st_trackedStateIdxs t\<rparr>)))"

text \<open>\<open>slices.DeleteFunc\<close> on the called states works on the slice of the mutation itself; the transition is over, and what it does to
  the mutation of the source is not followed: only the filtered list is kept.\<close>

definition TransitionEnd :: "Server \<Rightarrow> tx_obs \<Rightarrow> Server res" where
  "TransitionEnd s obs =
     (if \<not> st_active (sv_tracer s) then Inr s
      else let t1 = (if st_trackedStates (sv_tracer s) = None
                     then calcTrackedStates s (to_StateNames obs) (sv_tracer s) else sv_tracer s)
        in case tracer_data s t1 obs of
             Inl fault \<Rightarrow> Inl fault
           | Inr d \<Rightarrow>
               (let t2 = t1\<lparr>st_dataLatest := Some d\<rparr>;
                    called = filter (\<lambda>idx. slices_Contains (st_trackedStateIdxs t2) idx) (to_Called obs);
                    t3 = (if sv_syncMutations s
                          then t2\<lparr>st_dataQueue := st_dataQueue t2
                                 @ [\<lparr>tm_mutType = to_Type obs, tm_calledIdxs = called, tm_data = d\<rparr>]\<rparr>
                          else t2)
                in Inr (s\<lparr>sv_tracer := t3\<rparr>)))"

fun TransitionEnds :: "Server \<Rightarrow> tx_obs list \<Rightarrow> Server res" where
  "TransitionEnds s [] = Inr s"
| "TransitionEnds s (obs # rest) =
     (case TransitionEnd s obs of Inl fault \<Rightarrow> Inl fault | Inr s' \<Rightarrow> TransitionEnds s' rest)"

section \<open>Clock updates\<close>

text \<open>Reading a slice at an index; \<open>nil\<close> reads as an empty slice.\<close>

definition at :: "Time \<Rightarrow> nat \<Rightarrow> uint64 res" where
  "at t i = tget t (int i)"

text \<open>The index sent for a tracked state: its position on the client.\<close>

definition pushed_idx :: "bool \<Rightarrow> nat \<Rightarrow> int \<Rightarrow> uint16" where
  "pushed_idx syncSchema trackedIdx stateIdx =
     (if \<not> syncSchema then of_nat trackedIdx else of_int stateIdx)"

definition deep_entry :: "bool \<Rightarrow> Time option \<Rightarrow> Time \<Rightarrow> nat \<Rightarrow> int \<Rightarrow> (uint16 \<times> uint32) option res" where
  "deep_entry syncSchema prev now trackedIdx stateIdx =
     (let p = pushed_idx syncSchema trackedIdx stateIdx in
      if prev = None \<or> trackedIdx \<ge> length (sl prev) then
        bindR (at now trackedIdx) (\<lambda>v.
          if v = 0 then Inr None else bindR (at now (unat p)) (\<lambda>w. Inr (Some (p, ucast w))))
      else bindR (at (sl prev) (unat p)) (\<lambda>a. bindR (at now (unat p)) (\<lambda>b.
        if a \<noteq> b then Inr (Some (p, ucast (b - a))) else Inr None)))"

definition shallow_entry :: "bool \<Rightarrow> Time option \<Rightarrow> Time \<Rightarrow> nat \<Rightarrow> int \<Rightarrow> (uint16 \<times> uint32) option res" where
  "shallow_entry syncSchema prev now trackedIdx stateIdx =
     (let p = pushed_idx syncSchema trackedIdx stateIdx in
      if prev = None \<or> unat p \<ge> length (sl prev) then
        bindR (at now (unat p)) (\<lambda>v.
          if v = 0 then Inr None else Inr (Some (p, if IsActiveTick v then 1 else 0)))
      else bindR (at (sl prev) (unat p)) (\<lambda>a. bindR (at now (unat p)) (\<lambda>b.
        if a mod 2 \<noteq> b mod 2 then Inr (Some (p, 1)) else Inr None)))"

text \<open>The loop over the tracked states; \<open>trackedIdxs\<close> is read at the same position.\<close>

fun gen_loop ::
  "(nat \<Rightarrow> int \<Rightarrow> (uint16 \<times> uint32) option res) \<Rightarrow> nat \<Rightarrow> S \<Rightarrow> int list \<Rightarrow> (uint16 \<times> uint32) list res" where
  "gen_loop entry i [] idxs = Inr []"
| "gen_loop entry i (name # tracked) [] = Inl (GoPanic ''index out of range'')"
| "gen_loop entry i (name # tracked) (idx # idxs) =
     bindR (entry i idx) (\<lambda>e. bindR (gen_loop entry (Suc i) tracked idxs) (\<lambda>es.
       Inr (case e of None \<Rightarrow> es | Some x \<Rightarrow> x # es)))"

definition genDeepUpdate :: "bool \<Rightarrow> tracerData \<Rightarrow> tracerData \<Rightarrow> (uint16 \<times> uint32) list res" where
  "genDeepUpdate syncSchema data lastPush =
     gen_loop (deep_entry syncSchema (td_mTime lastPush) (sl (td_mTime data))) 0 (td_tracked data) (td_trackedIdxs data)"

definition genShallowUpdate :: "bool \<Rightarrow> tracerData \<Rightarrow> tracerData \<Rightarrow> (uint16 \<times> uint32) list res" where
  "genShallowUpdate syncSchema data lastPush =
     gen_loop (shallow_entry syncSchema (td_mTime lastPush) (sl (td_mTime data))) 0 (td_tracked data) (td_trackedIdxs data)"

definition calcUpdate :: "bool \<Rightarrow> tracerData \<Rightarrow> tracerData \<Rightarrow> bool \<Rightarrow> MsgSrvUpdate res" where
  "calcUpdate syncSchema data lastPush shallowClocks =
     (case (if shallowClocks then genShallowUpdate syncSchema data lastPush
            else genDeepUpdate syncSchema data lastPush) of
        Inl fault \<Rightarrow> Inl fault
      | Inr es \<Rightarrow>
          Inr \<lparr>up_Indexes = map fst es, up_Ticks = map snd es,
               up_QueueTick = ucast (td_queueTick data - td_queueTick lastPush),
               up_MachTick = ucast (td_machTick data - td_machTick lastPush),
               up_Checksum = td_checksum data\<rparr>)"

fun calcUpdates_loop :: "bool \<Rightarrow> tracerMutation list \<Rightarrow> tracerData \<Rightarrow> MsgSrvUpdate list res" where
  "calcUpdates_loop syncSchema [] prev = Inr []"
| "calcUpdates_loop syncSchema (mut # muts) prev =
     bindR (calcUpdate syncSchema (tm_data mut) prev False) (\<lambda>u.
       bindR (calcUpdates_loop syncSchema muts (tm_data mut)) (\<lambda>us. Inr (u # us)))"

text \<open>With an empty list of mutations \<open>prev\<close> is never read, so it may be \<open>nil\<close>.\<close>

definition calcUpdateMutations :: "bool \<Rightarrow> tracerMutation list \<Rightarrow> tracerData option \<Rightarrow> MsgSrvUpdateMuts res" where
  "calcUpdateMutations syncSchema muts prev =
     (case (case prev of
              None \<Rightarrow> (if muts = [] then Inr [] else Inl (GoPanic ''nil pointer dereference''))
            | Some p \<Rightarrow> calcUpdates_loop syncSchema muts p) of
        Inl fault \<Rightarrow> Inl fault
      | Inr us \<Rightarrow>
          Inr \<lparr>um_MutationType = map tm_mutType muts,
               um_CalledStates = map (\<lambda>m. map of_int (tm_calledIdxs m)) muts, um_Updates = us\<rparr>)"

section \<open>Pushing to the client\<close>

definition storeLastPush :: "Server \<Rightarrow> tracerData option \<Rightarrow> Server" where
  "storeLastPush s data = s\<lparr>sv_lastPush := sv_now s, sv_lastPushData := data\<rparr>"

text \<open>A nil dereference of \<open>lastPushData\<close> is a panic like any other.\<close>

definition last_update :: "Server \<Rightarrow> tracerData \<Rightarrow> MsgSrvUpdate res" where
  "last_update s data =
     (case sv_lastPushData s of
        None \<Rightarrow> Inl (GoPanic ''nil pointer dereference'')
      | Some lp \<Rightarrow> calcUpdate (sv_syncSchema s) data lp (sv_syncShallowClocks s))"

text \<open>\<open>defer s.Mach.PanicToErr(nil)\<close>: a panic becomes an exception of the server's machine, and the function
  returns no error.\<close>

definition srv_panic :: "Env \<Rightarrow> nat \<Rightarrow> Server \<Rightarrow> string \<Rightarrow> Server res" where
  "srv_panic env fuel s e =
     bindR (PanicToErr env fuel (sv_Mach s) (PanicError e) []) (\<lambda>m. Inr (s\<lparr>sv_Mach := m\<rparr>))"

definition send :: "Server \<Rightarrow> (MsgSrvUpdate + MsgSrvUpdateMuts) \<Rightarrow> string option \<Rightarrow> string option \<times> Server" where
  "send s msg netErr =
     (let s1 = s\<lparr>sv_CallCount := sv_CallCount s + 1\<rparr> in
      case netErr of Some e \<Rightarrow> (Some e, s1) | None \<Rightarrow> (None, s1\<lparr>sv_sent := sv_sent s1 @ [msg]\<rparr>))"

definition pushUpdateLatest ::
  "Env \<Rightarrow> nat \<Rightarrow> Server \<Rightarrow> tracerData \<Rightarrow> string option \<Rightarrow> (string option \<times> Server) res" where
  "pushUpdateLatest env fuel s data netErr =
     (case last_update s data of
        Inl (GoPanic e) \<Rightarrow> bindR (srv_panic env fuel s e) (\<lambda>s'. Inr (None, s'))
      | Inl fault \<Rightarrow> Inl fault
      | Inr u \<Rightarrow> (if length (up_Indexes u) = 0 then Inr (None, s) else Inr (send s (Inl u) netErr)))"

definition pushUpdateMutations ::
  "Env \<Rightarrow> nat \<Rightarrow> Server \<Rightarrow> tracerMutation list \<Rightarrow> string option \<Rightarrow> (string option \<times> Server) res" where
  "pushUpdateMutations env fuel s muts netErr =
     (case calcUpdateMutations (sv_syncSchema s) muts (sv_lastPushData s) of
        Inl (GoPanic e) \<Rightarrow> bindR (srv_panic env fuel s e) (\<lambda>s'. Inr (None, s'))
      | Inl fault \<Rightarrow> Inl fault
      | Inr u \<Rightarrow> (if length (um_MutationType u) = 0 then Inr (None, s) else Inr (send s (Inr u) netErr)))"

text \<open>Nothing to do, or too early.\<close>

definition push_skip :: "Server \<Rightarrow> tracerData \<Rightarrow> bool res" where
  "push_skip s data =
     (case sv_lastPushData s of
        None \<Rightarrow> Inl (GoPanic ''nil pointer dereference'')
      | Some lp \<Rightarrow>
          Inr ((td_mTrackedTimeSum lp = td_mTrackedTimeSum data \<and> td_queueTick lp = td_queueTick data)
               \<or> sv_now s - sv_lastPush s < sv_PushInterval s))"

text \<open>A failed notification: the client is dropped and the error is recorded.\<close>

definition push_failed :: "Env \<Rightarrow> nat \<Rightarrow> Server \<Rightarrow> string \<Rightarrow> Server res" where
  "push_failed env fuel s err =
     bindR (mach_Remove1 env fuel (sv_Mach s) ssS_ClientConnected []) (\<lambda>(_, m1).
       bindR (rpc_AddErr env fuel m1 ''pushClient'' False err) (\<lambda>(_, m2). Inr (s\<lparr>sv_Mach := m2\<rparr>)))"

definition PushClient :: "Env \<Rightarrow> nat \<Rightarrow> Server \<Rightarrow> string option \<Rightarrow> Server res" where
  "PushClient env fuel s netErr =
     (if \<not> sv_rpcClient s then Inr s
      else if sv_PushInterval s = 0 then Inr s
      else bindR (Not1 (sv_Mach s) ssS_HandshakeDone) (\<lambda>notDone.
        if notDone then Inr s
        else case DataLatest s of
          None \<Rightarrow> Inr s
        | Some data \<Rightarrow> bindR (push_skip s data) (\<lambda>skip.
            if skip then Inr s
            else bindR (if sv_syncMutations s
                        then (case DataQueue s of (muts, s1) \<Rightarrow> pushUpdateMutations env fuel s1 muts netErr)
                        else pushUpdateLatest env fuel s data netErr)
              (\<lambda>(err, s2). case err of
                 Some e \<Rightarrow> push_failed env fuel s2 e
               | None \<Rightarrow> Inr (storeLastPush s2 (Some data))))))"

section \<open>Answers to the client\<close>

text \<open>The response to a mutation; \<open>data\<close> is the latest data, \<open>nil\<close> after a flush.\<close>

definition newMsgMutation :: "Server \<Rightarrow> Result \<Rightarrow> tracerData option \<Rightarrow> (MsgSrvMutation \<times> Server) res" where
  "newMsgMutation s mut data =
     (if sv_syncMutations s then
        (case DataQueue s of (muts, s1) \<Rightarrow>
           bindR (calcUpdateMutations (sv_syncSchema s1) muts (sv_lastPushData s1)) (\<lambda>u.
             Inr (\<lparr>rm_Update = None, rm_Mutations = Some u, rm_Result = mut\<rparr>, storeLastPush s1 data)))
      else case data of
        None \<Rightarrow> Inl (GoPanic ''nil pointer dereference'')
      | Some d \<Rightarrow> bindR (last_update s d) (\<lambda>u.
          Inr (\<lparr>rm_Update = Some u, rm_Mutations = None, rm_Result = mut\<rparr>, storeLastPush s data)))"

definition IndexesToStates :: "S \<Rightarrow> int list \<Rightarrow> S res" where
  "IndexesToStates allStates indexes =
     mapR (\<lambda>(i, idx). if idx = - 1 \<or> idx \<ge> int (length allStates) then Inr (''unknown'' @ strconv_Itoa (int i))
        else if idx < 0 then Inl (GoPanic ''index out of range'') else Inr (allStates ! nat idx))
       (enumerate 0 indexes)"

text \<open>A method of the state source as the server calls it: states, arguments and, for \<open>EvAdd\<close>, the event; it
  returns the result and the transitions it ran. \<open>unmarshal\<close> is \<open>ArgsUnmarshaller\<close>.\<close>

type_synonym src_method = "Machine \<Rightarrow> S \<Rightarrow> A \<Rightarrow> Event option \<Rightarrow> ((Result \<times> tx_obs list) \<times> Machine) res"

definition remote_call ::
  "src_method \<Rightarrow> (A \<Rightarrow> A) \<Rightarrow> Server \<Rightarrow> Machine \<Rightarrow> int list \<Rightarrow> A \<Rightarrow> Event option \<Rightarrow> ((Result \<times> Server) \<times> Machine) res" where
  "remote_call method unmarshal s src idxs args ev =
     bindR (IndexesToStates (m_stateNames src) idxs) (\<lambda>states.
       bindR (method src states (unmarshal args) ev) (\<lambda>((val, txs), src').
         bindR (TransitionEnds s txs) (\<lambda>s'. Inr ((val, s'), src'))))"

definition remote_mutation ::
  "src_method \<Rightarrow> (A \<Rightarrow> A) \<Rightarrow> Server \<Rightarrow> Machine \<Rightarrow> MsgCliMutation \<Rightarrow> Event option
     \<Rightarrow> ((rpc_error + MsgSrvMutation) \<times> Server \<times> Machine) res" where
  "remote_mutation method unmarshal s src req ev =
     bindR (Not1 (sv_Mach s) ssS_Start) (\<lambda>stopped.
       if stopped then Inr (Inl ErrCanceled, s, src)
       else case cm_States req of
         None \<Rightarrow> Inr (Inl ErrInvalidParams, s, src)
       | Some idxs \<Rightarrow> bindR (remote_call method unmarshal s src idxs (cm_Args req) ev) (\<lambda>((val, s1), src1).
           bindR (newMsgMutation s1 val (DataLatest s1)) (\<lambda>(resp, s2). Inr (Inr resp, s2, src1))))"

definition RemoteAdd :: "src_method \<Rightarrow> (A \<Rightarrow> A) \<Rightarrow> Server \<Rightarrow> Machine \<Rightarrow> MsgCliMutation
     \<Rightarrow> ((rpc_error + MsgSrvMutation) \<times> Server \<times> Machine) res" where
  "RemoteAdd add unmarshal s src req = remote_mutation add unmarshal s src req (cm_Event req)"

definition RemoteRemove :: "src_method \<Rightarrow> (A \<Rightarrow> A) \<Rightarrow> Server \<Rightarrow> Machine \<Rightarrow> MsgCliMutation
     \<Rightarrow> ((rpc_error + MsgSrvMutation) \<times> Server \<times> Machine) res" where
  "RemoteRemove remove unmarshal s src req = remote_mutation remove unmarshal s src req None"

definition RemoteSet :: "src_method \<Rightarrow> (A \<Rightarrow> A) \<Rightarrow> Server \<Rightarrow> Machine \<Rightarrow> MsgCliMutation
     \<Rightarrow> ((rpc_error + MsgSrvMutation) \<times> Server \<times> Machine) res" where
  "RemoteSet set' unmarshal s src req = remote_mutation set' unmarshal s src req None"

definition RemoteAddNS :: "src_method \<Rightarrow> (A \<Rightarrow> A) \<Rightarrow> Server \<Rightarrow> Machine \<Rightarrow> MsgCliMutation
     \<Rightarrow> (rpc_error option \<times> Server \<times> Machine) res" where
  "RemoteAddNS add unmarshal s src req =
     bindR (Not1 (sv_Mach s) ssS_Start) (\<lambda>stopped.
       if stopped then Inr (Some ErrCanceled, s, src)
       else case cm_States req of
         None \<Rightarrow> Inr (Some ErrInvalidParams, s, src)
       | Some idxs \<Rightarrow> bindR (remote_call add unmarshal s src idxs (cm_Args req) None) (\<lambda>((val, s1), src1).
           Inr (None, s1, src1)))"

text \<open>The full sync; \<open>MachTick\<close> is left at 0.\<close>

definition RemoteSync :: "Env \<Rightarrow> nat \<Rightarrow> Server \<Rightarrow> Machine \<Rightarrow> ((rpc_error + MsgSrvSync) \<times> Server) res" where
  "RemoteSync env fuel s src =
     bindR (Not1 (sv_Mach s) ssS_Start) (\<lambda>stopped.
       if stopped then Inr (Inl ErrCanceled, s)
       else bindR (mach_Add1 env fuel (sv_Mach s) ssS_MetricSync []) (\<lambda>(_, m).
         Inr (Inr \<lparr>sy_Time = mach_time src None, sy_QueueTick = m_queueTick src, sy_MachTick = 0\<rparr>,
              s\<lparr>sv_Mach := m\<rparr>)))"

section \<open>The handshake\<close>

text \<open>Ticks of states the client does not track are sent as 0.\<close>

definition zero_untracked :: "int list \<Rightarrow> Time \<Rightarrow> Time" where
  "zero_untracked idxs t = map (\<lambda>(i, v). if slices_Contains idxs (int i) then v else 0) (enumerate 0 t)"

definition hello_refused :: "Env \<Rightarrow> nat \<Rightarrow> Server \<Rightarrow> Server res" where
  "hello_refused env fuel s =
     bindR (mach_Remove1 env fuel (sv_Mach s) ssS_Handshaking []) (\<lambda>(_, m). Inr (s\<lparr>sv_Mach := m\<rparr>))"

text \<open>The export the client gets: with the schema all states, else the tracked ones.\<close>

definition hello_export :: "bool \<Rightarrow> sourceTracer \<Rightarrow> Serialized \<Rightarrow> Serialized res" where
  "hello_export syncSchema t export =
     (if \<not> syncSchema then
        bindR (Time_Filter (se_Time export) (st_trackedStateIdxs t)) (\<lambda>ft.
          Inr (export\<lparr>se_StateNames := StatesShared (se_StateNames export) (sl (st_trackedStates t)), se_Time := ft\<rparr>))
      else if length (se_Time export) < length (se_StateNames export) then Inl (GoPanic ''index out of range'')
      else Inr (export\<lparr>se_Time := zero_untracked (st_trackedStateIdxs t) (se_Time export)\<rparr>))"

text \<open>\<open>hash\<close> is \<open>SchemaHash\<close>. A nil \<open>lastPushData\<close> panics. An export that fails is a nil pointer.\<close>

definition hello_accept ::
  "(Schema \<Rightarrow> string) \<Rightarrow> Server \<Rightarrow> Machine \<Rightarrow> MsgCliHello \<Rightarrow> (MsgSrvHello \<times> Server) res" where
  "hello_accept hash s src req =
     (let s1 = s\<lparr>sv_syncAllowedStates := ch_AllowedStates req, sv_syncSkippedStates := ch_SkippedStates req,
                sv_syncShallowClocks := ch_ShallowClocks req, sv_syncMutations := ch_SyncMutations req\<rparr>
      in case Export src of
           Inl _ \<Rightarrow> Inl (GoPanic ''nil pointer dereference'')
         | Inr (export, schema) \<Rightarrow>
             (let t = (calcTrackedStates s1 (se_StateNames export) (sv_tracer s1))\<lparr>st_active := True\<rparr> in
              bindR (Time_Filter (se_Time export) (st_trackedStateIdxs t)) (\<lambda>tracked.
                bindR (hello_export (ch_SyncSchema req) t export) (\<lambda>export'.
                  case sv_lastPushData s1 of
                    None \<Rightarrow> Inl (GoPanic ''nil pointer dereference'')
                  | Some lp \<Rightarrow>
                      Inr (\<lparr>sh_Schema = (if ch_SyncSchema req \<and> (ch_SchemaHash req = [] \<or> ch_SchemaHash req \<noteq> hash schema)
                                         then Some schema else None),
                            sh_Serialized = export', sh_StatesCount = of_nat (length (se_StateNames export))\<rparr>,
                           s1\<lparr>sv_tracer := t, sv_syncSchema := (ch_SyncSchema req \<or> sv_syncSchema s1),
                              sv_lastPushData := Some (lp\<lparr>td_mTime := Some (se_Time export'),
                                td_queueTick := se_QueueTick export', td_mTrackedTimeSum := Time_SumAll tracked\<rparr>),
                              sv_lastPush := sv_now s1, sv_clientId := Some (ch_Id req)\<rparr>)))))"

definition hello_missing :: "Env \<Rightarrow> nat \<Rightarrow> Server \<Rightarrow> ((rpc_error + MsgSrvHello) \<times> Server) res" where
  "hello_missing env fuel s =
     bindR (hello_refused env fuel s) (\<lambda>s1.
       bindR (AddErrRpcStr env fuel None (sv_Mach s1) ''handshake failed: ID missing'')
         (\<lambda>(_, m). Inr (Inl ErrInvalidParams, s1\<lparr>sv_Mach := m\<rparr>)))"

definition RemoteHello ::
  "Env \<Rightarrow> nat \<Rightarrow> (Schema \<Rightarrow> string) \<Rightarrow> Server \<Rightarrow> Machine \<Rightarrow> MsgCliHello option
     \<Rightarrow> ((rpc_error + MsgSrvHello) \<times> Server) res" where
  "RemoteHello env fuel hash s src req =
     bindR (Not1 (sv_Mach s) ssS_Start) (\<lambda>stopped.
       if stopped then Inr (Inl ErrCanceled, s)
       else case req of
         None \<Rightarrow> hello_missing env fuel s
       | Some r \<Rightarrow>
           (if ch_Id r = [] then hello_missing env fuel s
            else if length (sv_AllowedMachIds s) > 0 \<and> \<not> slices_Contains (sv_AllowedMachIds s) (ch_Id r)
            then bindR (hello_refused env fuel s) (\<lambda>s1. Inr (Inl ErrNoAccess, s1))
            else bindR (hello_accept hash s src r) (\<lambda>(resp, s1).
              bindR (mach_Add1 env fuel (sv_Mach s1) ssS_Handshaking []) (\<lambda>(_, m).
                Inr (Inr resp, s1\<lparr>sv_Mach := m\<rparr>)))))"

definition RemoteHandshake :: "Env \<Rightarrow> nat \<Rightarrow> Server \<Rightarrow> (rpc_error option \<times> Server) res" where
  "RemoteHandshake env fuel s =
     bindR (Not1 (sv_Mach s) ssS_Start) (\<lambda>stopped.
       if stopped then Inr (Some ErrCanceled, s)
       else if sv_clientId s = None then Inr (Some ErrNoConn, s)
       else let s1 = s\<lparr>sv_rpcClient := True\<rparr> in
         bindR (mach_Add1 env fuel (sv_Mach s1) ssS_HandshakeDone [(am_rpc, VStr (the (sv_clientId s)))]) (\<lambda>(_, m).
           Inr (None, s1\<lparr>sv_Mach := m\<rparr>)))"

text \<open>The goroutine of \<open>RemoteBye\<close> ends with \<open>bye_later\<close>.\<close>

definition RemoteBye :: "Env \<Rightarrow> nat \<Rightarrow> Server \<Rightarrow> (rpc_error option \<times> Server) res" where
  "RemoteBye env fuel s =
     bindR (Not1 (sv_Mach s) ssS_Start) (\<lambda>stopped.
       if stopped then Inr (Some ErrCanceled, s)
       else bindR (mach_Remove1 env fuel (sv_Mach s) ssS_ClientConnected [(am_rpc, VStr (sv_Addr s))]) (\<lambda>(_, m).
         Inr (None, s\<lparr>sv_Mach := m, sv_rpcClient := False, sv_clientId := None\<rparr>)))"

definition bye_later :: "Env \<Rightarrow> nat \<Rightarrow> Server \<Rightarrow> Server res" where
  "bye_later env fuel s =
     bindR (mach_Remove1 env fuel (sv_Mach s) ssS_HandshakeDone []) (\<lambda>(_, m). Inr (s\<lparr>sv_Mach := m\<rparr>))"

text \<open>\<open>SendPayload\<close> up to the call of the client.\<close>

definition SendPayload :: "Server \<Rightarrow> string \<Rightarrow> rpc_error option res" where
  "SendPayload s destination =
     bindR (Not1 (sv_Mach s) ssS_ClientConnected) (\<lambda>noClient.
       bindR (Not1 (sv_Mach s) ssS_HandshakeDone) (\<lambda>noHandshake.
         if noClient \<or> noHandshake then Inr (Some ErrNoConn)
         else if destination \<noteq> [] \<and> ClientId s \<noteq> destination
         then Inr (Some ErrDestination) else Inr None))"

section \<open>A change of the schema\<close>

text \<open>The tracked states are computed only if they are not known yet.\<close>

definition SchemaChange :: "Server \<Rightarrow> Machine \<Rightarrow> (MsgSrvHello option \<times> Server) res" where
  "SchemaChange s src =
     (if \<not> st_active (sv_tracer s) then Inr (None, s)
      else case Export src of
        Inl _ \<Rightarrow> Inl (GoPanic ''nil pointer dereference'')
      | Inr (export, schema) \<Rightarrow>
          bindR (hello_export (sv_syncSchema s) (sv_tracer s) export) (\<lambda>export'.
            let t = (if st_trackedStates (sv_tracer s) = None
                     then calcTrackedStates s (se_StateNames export) (sv_tracer s) else sv_tracer s)
            in case sv_lastPushData s of
                 None \<Rightarrow> Inl (GoPanic ''nil pointer dereference'')
               | Some d \<Rightarrow>
                   (let sum' = Time_SumAll (se_Time export');
                        d' = d\<lparr>td_mTime := Some (se_Time export'), td_queueTick := se_QueueTick export',
                               td_mTrackedTimeSum := sum', td_checksum := Checksum sum' (se_QueueTick export') (td_machTick d)\<rparr>
                    in Inr (Some \<lparr>sh_Schema = Some schema, sh_Serialized = export',
                                  sh_StatesCount = of_nat (length (se_StateNames export))\<rparr>,
                            s\<lparr>sv_tracer := t, sv_lastPushData := Some d'\<rparr>))))"

section \<open>A machine as state source\<close>

definition observe :: "Machine \<Rightarrow> Mutation \<Rightarrow> tx_obs" where
  "observe m mut = \<lparr>to_StateNames = m_stateNames m, to_Time = mach_time m None, to_QueueTick = m_queueTick m,
     to_MachTick = m_machineTick m, to_Type = mu_Type mut, to_Called = mu_Called mut\<rparr>"

text \<open>The transitions \<open>queue_loop\<close> runs, each observed at its end.\<close>

fun queue_trace :: "Env \<Rightarrow> nat \<Rightarrow> Machine \<Rightarrow> tx_obs list" where
  "queue_trace env 0 m = []"
| "queue_trace env (Suc fuel) m =
     (if m_queueLen m = 0 \<or> m_disposing m then []
      else case m_queue m of
        [] \<Rightarrow> []
      | mut # rest \<Rightarrow>
          (case run_mutation env mut (shift_queue (m\<lparr>m_queueRunning := True\<rparr>) mut rest) of
             Inl fault \<Rightarrow> []
           | Inr (r, m2) \<Rightarrow>
               (if ctx_expired (en_expired env) (mu_ctx mut) \<or> mu_Type mut = mutationEval then []
                else [observe m2 mut]) @ queue_trace env fuel m2))"

definition src_run :: "Env \<Rightarrow> nat \<Rightarrow> prep \<Rightarrow> ((Result \<times> tx_obs list) \<times> Machine) res" where
  "src_run env fuel p =
     (case p of
        Inl fault \<Rightarrow> Inl fault
      | Inr (Inl r, m) \<Rightarrow> Inr ((r, []), m)
      | Inr (Inr queueTick, m) \<Rightarrow>
          (case processQueue env fuel m of
             Inl fault \<Rightarrow> Inl fault
           | Inr (res, m') \<Rightarrow>
               Inr ((if res = Queued then queueTick else res,
                     if processQueue_busy m \<noteq> None then []
                     else queue_trace env fuel (m\<lparr>m_queueProcessing := True, m_queueRunning := False\<rparr>)), m')))"

definition src_Add :: "Env \<Rightarrow> nat \<Rightarrow> src_method" where
  "src_Add env fuel m states args ev =
     src_run env fuel (case ev of None \<Rightarrow> Add_prep m states args | Some e \<Rightarrow> EvAdd_prep m (Some e) states args)"

definition src_Remove :: "Env \<Rightarrow> nat \<Rightarrow> src_method" where
  "src_Remove env fuel m states args ev = src_run env fuel (Remove_prep m states args)"

definition src_Set :: "Env \<Rightarrow> nat \<Rightarrow> src_method" where
  "src_Set env fuel m states args ev = src_run env fuel (Set_prep m states args)"

end
