(* ===== verification/Am_Netmach.thy ===== *)
theory Am_Netmach
  imports Am_Api
begin

text \<open>
  The network machine, \<open>src/pkg/rpc/netmach.go\<close>: a local copy of a remote machine's time with the same
  subscriptions, whose mutations go over a connection. This theory has everything that runs locally: the
  queries, the subscriptions and \<open>updateClock\<close>, which installs a new time. Handlers are pipes; a call of one is an
  entry of \<open>nm_called\<close>. The clock of the subscriptions is \<open>machClock\<close> itself, also after \<open>SetClock\<close>. Channels are
  closed with \<open>close\<close>, which panics on a closed channel.
\<close>

record NetworkMachine =
  nm_conn :: bool
  nm_id :: string
  nm_remoteId :: string
  nm_parentId :: string
  nm_tags :: "string list"
  nm_disposed :: bool
  nm_err :: "string option"
  nm_schema :: "Schema option"
  nm_machTime :: Time
  nm_machClock :: Clock
  nm_queueTick :: uint64
  nm_machTick :: uint32
  nm_stateNames :: S
  nm_activeStates :: S
  nm_subs :: Subscriptions
  nm_handlers :: "handler list"
  nm_nextHandlerNum :: nat
  nm_filterMutations :: bool
  nm_tracers :: "string list"
  nm_disposeHandlers :: "nat list"
  nm_whenDisposed :: bool
  nm_closed :: "chan list"
  nm_canceled :: "ctx list"
  nm_called :: "(nat \<times> string) list"

section \<open>Construction\<close>

definition TagRpcNetmach :: string where "TagRpcNetmach = ''rpc-mux''"
definition TagKeySrcId :: string where "TagKeySrcId = ''src-id''"

datatype nm_error = ErrSchemaNames | ErrHandlersNotBound | ErrTracerNotBound

definition NewNetworkMachine ::
  "string \<Rightarrow> bool \<Rightarrow> Schema option \<Rightarrow> S \<Rightarrow> string \<Rightarrow> string list option \<Rightarrow> bool \<Rightarrow> nm_error + NetworkMachine" where
  "NewNetworkMachine ident conn schema stateNames parentId tags filterMutations =
     (if schema \<noteq> None \<and> length (the schema) \<noteq> length stateNames then Inl ErrSchemaNames
      else Inr \<lparr>nm_conn = conn, nm_id = ident, nm_remoteId = [], nm_parentId = parentId,
        nm_tags = (case tags of None \<Rightarrow> [TagRpcNetmach, TagKeySrcId] | Some t \<Rightarrow> t), nm_disposed = False,
        nm_err = None, nm_schema = schema, nm_machTime = replicate (length stateNames) 0,
        nm_machClock = foldl (\<lambda>c s. gput s 0 c) [] stateNames, nm_queueTick = 1, nm_machTick = 0,
        nm_stateNames = stateNames, nm_activeStates = [], nm_subs = NewSubscriptionManager, nm_handlers = [],
        nm_nextHandlerNum = 0, nm_filterMutations = filterMutations, nm_tracers = [], nm_disposeHandlers = [],
        nm_whenDisposed = False, nm_closed = [], nm_canceled = [], nm_called = []\<rparr>)"

section \<open>Queries\<close>

definition nm_MustParseStates :: "NetworkMachine \<Rightarrow> S \<Rightarrow> S res" where
  "nm_MustParseStates m states =
     (if list_ex (\<lambda>s. \<not> slices_Contains (nm_stateNames m) s) states
      then Inl (GoPanic ''state is not defined'') else Inr (slicesUniq states))"

definition nm_ActiveStates :: "NetworkMachine \<Rightarrow> S option \<Rightarrow> S" where
  "nm_ActiveStates m states =
     (case states of
        None \<Rightarrow> nm_activeStates m
      | Some ss \<Rightarrow> filter (\<lambda>state. slices_Contains (nm_activeStates m) state) ss)"

definition nm_is :: "NetworkMachine \<Rightarrow> S \<Rightarrow> bool res" where
  "nm_is m states =
     bindR (nm_MustParseStates m states) (\<lambda>parsed. Inr (list_all (slices_Contains (nm_ActiveStates m None)) parsed))"

definition nm_not :: "NetworkMachine \<Rightarrow> S \<Rightarrow> bool res" where
  "nm_not m states =
     bindR (nm_MustParseStates m states) (\<lambda>parsed. Inr (slicesNone parsed (nm_ActiveStates m None)))"

definition nm_Is :: "NetworkMachine \<Rightarrow> S \<Rightarrow> bool res" where "nm_Is m states = nm_is m states"
definition nm_Is1 :: "NetworkMachine \<Rightarrow> string \<Rightarrow> bool res" where "nm_Is1 m state = nm_Is m [state]"
definition nm_IsErr :: "NetworkMachine \<Rightarrow> bool res" where "nm_IsErr m = nm_Is1 m StateException"
definition nm_Not :: "NetworkMachine \<Rightarrow> S \<Rightarrow> bool res" where "nm_Not m states = nm_not m states"
definition nm_Not1 :: "NetworkMachine \<Rightarrow> string \<Rightarrow> bool res" where "nm_Not1 m state = nm_Not m [state]"

fun nm_Any :: "NetworkMachine \<Rightarrow> S list \<Rightarrow> bool res" where
  "nm_Any m [] = Inr False"
| "nm_Any m (s # rest) = bindR (nm_Is m s) (\<lambda>b. if b then Inr True else nm_Any m rest)"

definition nm_Any1 :: "NetworkMachine \<Rightarrow> string list \<Rightarrow> bool res" where
  "nm_Any1 m states = nm_Any m (map (\<lambda>s. [s]) states)"

definition nm_Has :: "NetworkMachine \<Rightarrow> S \<Rightarrow> bool" where
  "nm_Has m states = slicesEvery (nm_stateNames m) states"

definition nm_Has1 :: "NetworkMachine \<Rightarrow> string \<Rightarrow> bool" where "nm_Has1 m state = nm_Has m [state]"

definition nm_Index1 :: "NetworkMachine \<Rightarrow> string \<Rightarrow> int" where
  "nm_Index1 m state = slices_Index (nm_stateNames m) state"

definition nm_Index :: "NetworkMachine \<Rightarrow> S \<Rightarrow> int list" where
  "nm_Index m states = map (nm_Index1 m) states"

text \<open>The tick of a state in \<open>machTime\<close>; an unknown state has the index \<open>-1\<close>.\<close>

definition nm_at :: "NetworkMachine \<Rightarrow> string \<Rightarrow> uint64 res" where
  "nm_at m state = tget (nm_machTime m) (nm_Index1 m state)"

fun nm_clock_all :: "(uint64 \<Rightarrow> uint64 \<Rightarrow> bool) \<Rightarrow> NetworkMachine \<Rightarrow> Clock \<Rightarrow> bool res" where
  "nm_clock_all bad m [] = Inr True"
| "nm_clock_all bad m ((state, tick) # rest) =
     bindR (nm_at m state) (\<lambda>v. if bad v tick then Inr False else nm_clock_all bad m rest)"

definition nm_IsClock :: "NetworkMachine \<Rightarrow> Clock \<Rightarrow> bool res" where
  "nm_IsClock m clock = nm_clock_all (\<noteq>) m clock"

definition nm_WasClock :: "NetworkMachine \<Rightarrow> Clock \<Rightarrow> bool res" where
  "nm_WasClock m clock = nm_clock_all (<) m clock"

fun nm_time_all :: "(uint64 \<Rightarrow> uint64 \<Rightarrow> bool) \<Rightarrow> NetworkMachine \<Rightarrow> S \<Rightarrow> Time \<Rightarrow> bool res" where
  "nm_time_all bad m states [] = Inr True"
| "nm_time_all bad m [] (tick # ticks) = Inl (GoPanic ''index out of range'')"
| "nm_time_all bad m (s # states) (tick # ticks) =
     bindR (nm_at m s) (\<lambda>v. if bad v tick then Inr False else nm_time_all bad m states ticks)"

definition nm_IsTime :: "NetworkMachine \<Rightarrow> Time \<Rightarrow> S option \<Rightarrow> bool res" where
  "nm_IsTime m t states =
     bindR (nm_MustParseStates m (sl states)) (\<lambda>_.
       nm_time_all (\<noteq>) m (case states of None \<Rightarrow> nm_stateNames m | Some ss \<Rightarrow> ss) t)"

definition nm_WasTime :: "NetworkMachine \<Rightarrow> Time \<Rightarrow> S option \<Rightarrow> bool res" where
  "nm_WasTime m t states =
     bindR (nm_MustParseStates m (sl states)) (\<lambda>_.
       nm_time_all (<) m (case states of None \<Rightarrow> nm_stateNames m | Some ss \<Rightarrow> ss) t)"

definition nm_Switch :: "NetworkMachine \<Rightarrow> S list \<Rightarrow> string" where
  "nm_Switch m groups = Switch_groups (nm_ActiveStates m None) groups"

definition nm_Tick :: "NetworkMachine \<Rightarrow> string \<Rightarrow> uint64 res" where
  "nm_Tick m state = bindR (nm_MustParseStates m [state]) (\<lambda>_. Inr (ggetd 0 (nm_machClock m) state))"

definition nm_Clock :: "NetworkMachine \<Rightarrow> S option \<Rightarrow> Clock" where
  "nm_Clock m states =
     foldl (\<lambda>c s. gput s (ggetd 0 (nm_machClock m) s) c) []
       (case states of None \<Rightarrow> nm_stateNames m | Some ss \<Rightarrow> ss)"

definition nm_ParseStates :: "NetworkMachine \<Rightarrow> S \<Rightarrow> S" where
  "nm_ParseStates m states =
     (let known = filter (ghas (sl (nm_schema m))) states in
      if \<not> distinct known then slicesUniq states else known)"

definition nm_state_tick :: "NetworkMachine \<Rightarrow> string \<Rightarrow> string res" where
  "nm_state_tick m s = bindR (nm_at m s) (\<lambda>v. Inr (s @ '':'' @ strconv_Itoa (uint v)))"

definition nm_String :: "NetworkMachine \<Rightarrow> string res" where
  "nm_String m =
     bindR (mapR (nm_state_tick m) (filter (slices_Contains (nm_ActiveStates m None)) (nm_stateNames m)))
       (\<lambda>parts. Inr (''('' @ strings_Join parts '' '' @ '')''))"

definition nm_StringAll :: "NetworkMachine \<Rightarrow> string res" where
  "nm_StringAll m =
     bindR (mapR (nm_state_tick m) (filter (slices_Contains (nm_ActiveStates m None)) (nm_stateNames m)))
       (\<lambda>on. bindR (mapR (nm_state_tick m) (filter (\<lambda>s. \<not> slices_Contains (nm_ActiveStates m None) s) (nm_stateNames m)))
         (\<lambda>off. Inr (''('' @ strings_Join on '' '' @ '') ['' @ strings_Join off '' '' @ '']'')))"

definition nm_inspect_state :: "NetworkMachine \<Rightarrow> string \<Rightarrow> string res" where
  "nm_inspect_state m name =
     (let state = Schema_Get (sl (nm_schema m)) name in
      bindR (nm_at m name) (\<lambda>v. Inr (
        (if slices_Contains (nm_ActiveStates m None) name then ''1'' else ''0'') @ '' '' @ name @ [CHR 0x0A]
        @ ''    |Tick     '' @ strconv_Itoa (uint v) @ [CHR 0x0A]
        @ (if Auto state then ''    |Auto     true'' @ [CHR 0x0A] else [])
        @ (if Multi state then ''    |Multi    true'' @ [CHR 0x0A] else [])
        @ inspect_rel ''Add      '' (Add state) @ inspect_rel ''Require  '' (Require state)
        @ inspect_rel ''Remove   '' (Remove state) @ inspect_rel ''After    '' (After state))))"

definition nm_Inspect :: "NetworkMachine \<Rightarrow> S option \<Rightarrow> string res" where
  "nm_Inspect m states =
     bindR (mapR (nm_inspect_state m) (case states of None \<Rightarrow> nm_stateNames m | Some ss \<Rightarrow> ss)) (\<lambda>xs. Inr (concat xs))"

text \<open>\<open>StateNames\<close> takes \<open>schemaMx\<close> for writing. \<open>held\<close>: the goroutine holds it for reading already and waits for
  itself, as in \<open>Export\<close>.\<close>

definition nm_StateNames :: "bool \<Rightarrow> NetworkMachine \<Rightarrow> S res" where
  "nm_StateNames held m = (if held then Inl Deadlock else Inr (nm_stateNames m))"

definition nm_time :: "bool \<Rightarrow> NetworkMachine \<Rightarrow> S option \<Rightarrow> Time res" where
  "nm_time held m states =
     bindR (nm_StateNames held m) (\<lambda>index.
       mapR (nm_at m) (case states of None \<Rightarrow> index | Some ss \<Rightarrow> ss))"

definition nm_Time :: "NetworkMachine \<Rightarrow> S option \<Rightarrow> Time res" where
  "nm_Time m states = nm_time False m states"

definition nm_Export :: "NetworkMachine \<Rightarrow> (Serialized \<times> Schema) res" where
  "nm_Export m =
     bindR (nm_time True m None) (\<lambda>t. bindR (nm_StateNames True m) (\<lambda>names.
       Inr (\<lparr>se_ID = nm_id m, se_StateNames = names, se_Time = t, se_QueueTick = nm_queueTick m,
             se_MachineTick = nm_machTick m\<rparr>, Schema_Clone (sl (nm_schema m)))))"

section \<open>Waiting\<close>

text \<open>The callbacks of the subscriptions panic for undefined states; here the states are parsed before.\<close>

definition nm_is_ok :: "NetworkMachine \<Rightarrow> S \<Rightarrow> bool" where
  "nm_is_ok m states = list_all (slices_Contains (nm_ActiveStates m None)) states"

definition nm_When :: "Env \<Rightarrow> NetworkMachine \<Rightarrow> S \<Rightarrow> ctx option \<Rightarrow> (chan \<times> NetworkMachine) res" where
  "nm_When env m states c =
     (if nm_disposed m then Inr (Closed, m)
      else bindR (nm_MustParseStates m states) (\<lambda>parsed.
        bindR (sub_When (en_expired env) (nm_is_ok m) (nm_subs m) parsed c) (\<lambda>(sm, ch).
          Inr (ch, m\<lparr>nm_subs := sm\<rparr>))))"

definition nm_WhenNot :: "Env \<Rightarrow> NetworkMachine \<Rightarrow> S \<Rightarrow> ctx option \<Rightarrow> (chan \<times> NetworkMachine) res" where
  "nm_WhenNot env m states c =
     (if nm_disposed m then Inr (Closed, m)
      else bindR (nm_MustParseStates m states) (\<lambda>parsed.
        bindR (sub_WhenNot (en_expired env) (nm_is_ok m) (\<lambda>ss. slicesNone ss (nm_ActiveStates m None)) (nm_subs m) parsed c)
          (\<lambda>(sm, ch). Inr (ch, m\<lparr>nm_subs := sm\<rparr>))))"

definition nm_WhenErr :: "Env \<Rightarrow> NetworkMachine \<Rightarrow> ctx option \<Rightarrow> (chan \<times> NetworkMachine) res" where
  "nm_WhenErr env m c = nm_When env m [StateException] c"

definition nm_WhenQuery :: "Env \<Rightarrow> NetworkMachine \<Rightarrow> nat \<Rightarrow> ctx option \<Rightarrow> chan \<times> NetworkMachine" where
  "nm_WhenQuery env m fn c = (case sub_WhenQuery (en_expired env) (nm_subs m) fn c of (sm, ch) \<Rightarrow> (ch, m\<lparr>nm_subs := sm\<rparr>))"

definition nm_WhenQueue :: "NetworkMachine \<Rightarrow> Result \<Rightarrow> chan \<times> NetworkMachine" where
  "nm_WhenQueue m tick =
     (if nm_queueTick m \<ge> tick then (Closed, m)
      else case sub_WhenQueue (nm_subs m) tick of (sm, ch) \<Rightarrow> (ch, m\<lparr>nm_subs := sm\<rparr>))"

definition nm_WhenTimeSum :: "NetworkMachine \<Rightarrow> uint64 \<Rightarrow> ctx option \<Rightarrow> (chan \<times> NetworkMachine) res" where
  "nm_WhenTimeSum m mtime c =
     (if nm_disposed m then Inr (Closed, m)
      else bindR (nm_Time m None) (\<lambda>t.
        if mtime \<le> Time_SumAll t then Inr (Closed, m)
        else case sub_WhenTimeSum (nm_machClock m) (nm_subs m) mtime c of (sm, ch) \<Rightarrow> Inr (ch, m\<lparr>nm_subs := sm\<rparr>)))"

definition nm_WhenArgs :: "NetworkMachine \<Rightarrow> string \<Rightarrow> A \<Rightarrow> ctx option \<Rightarrow> chan" where
  "nm_WhenArgs m state args c = Closed"

definition nm_NewStateCtx :: "NetworkMachine \<Rightarrow> string \<Rightarrow> ctx \<times> NetworkMachine" where
  "nm_NewStateCtx m state =
     (case sub_NewStateCtx (nm_subs m) (nm_machClock m) state of (sm, c) \<Rightarrow> (c, m\<lparr>nm_subs := sm\<rparr>))"

section \<open>Handlers and tracers\<close>

definition nm_HandlersBind :: "NetworkMachine \<Rightarrow> handler \<Rightarrow> string \<Rightarrow> string \<times> NetworkMachine" where
  "nm_HandlersBind m h name =
     (name, m\<lparr>nm_nextHandlerNum := nm_nextHandlerNum m + 1,
              nm_handlers := nm_handlers m @ [h\<lparr>h_id := name, h_num := nm_nextHandlerNum m\<rparr>]\<rparr>)"

definition nm_Handlers :: "NetworkMachine \<Rightarrow> string list" where
  "nm_Handlers m = map h_id (nm_handlers m)"

text \<open>\<open>HandlersDetach\<close> compares the handler struct, not its id, with the given id: a pointer and a string are
  never equal. The deprecated \<open>DetachHandlers\<close> calls itself until the stack is used up.\<close>

definition nm_same_handler :: "handler \<Rightarrow> string \<Rightarrow> bool" where
  "nm_same_handler h bindingId = False"

definition nm_HandlersDetach :: "NetworkMachine \<Rightarrow> string \<Rightarrow> nm_error option \<times> NetworkMachine" where
  "nm_HandlersDetach m bindingId =
     (case find (\<lambda>h. nm_same_handler h bindingId) (nm_handlers m) of
        None \<Rightarrow> (Some ErrHandlersNotBound, m)
      | Some h \<Rightarrow> (None, m\<lparr>nm_handlers := remove1 h (nm_handlers m)\<rparr>))"

fun nm_DetachHandlers :: "nat \<Rightarrow> NetworkMachine \<Rightarrow> string \<Rightarrow> (nm_error option \<times> NetworkMachine) res" where
  "nm_DetachHandlers 0 m bindingId = Inl (GoPanic ''stack overflow'')"
| "nm_DetachHandlers (Suc stack) m bindingId = nm_DetachHandlers stack m bindingId"

definition nm_TracerBind :: "NetworkMachine \<Rightarrow> string \<Rightarrow> string \<times> NetworkMachine" where
  "nm_TracerBind m tracer = (tracer, m\<lparr>nm_tracers := nm_tracers m @ [tracer]\<rparr>)"

definition nm_TracerDetach :: "NetworkMachine \<Rightarrow> string \<Rightarrow> nm_error option \<times> NetworkMachine" where
  "nm_TracerDetach m tracer =
     (if tracer \<in> set (nm_tracers m) then (None, m\<lparr>nm_tracers := remove1 tracer (nm_tracers m)\<rparr>)
      else (Some ErrTracerNotBound, m))"

definition nm_OnDispose :: "NetworkMachine \<Rightarrow> nat \<Rightarrow> NetworkMachine" where
  "nm_OnDispose m fn = m\<lparr>nm_disposeHandlers := nm_disposeHandlers m @ [fn]\<rparr>"

definition nm_Dispose :: "NetworkMachine \<Rightarrow> NetworkMachine" where
  "nm_Dispose m = (if nm_disposed m then m else m\<lparr>nm_disposed := True, nm_whenDisposed := True\<rparr>)"

text \<open>\<open>handle\<close> calls the method or field of that name, if there is one.\<close>

definition nm_handle :: "handler \<Rightarrow> string \<Rightarrow> string \<Rightarrow> (nat \<times> string) list" where
  "nm_handle h state suffix =
     (if slices_Contains (h_methods h) (state @ suffix) then [(h_num h, state @ suffix)] else [])"

definition nm_processHandlers :: "NetworkMachine \<Rightarrow> S \<Rightarrow> S \<Rightarrow> NetworkMachine" where
  "nm_processHandlers m activated deactivated =
     (if length activated + length deactivated = 0 then m
      else m\<lparr>nm_called := nm_called m @ concat (map (\<lambda>h.
             concat (map (\<lambda>s. nm_handle h s SuffixState) activated)
             @ concat (map (\<lambda>s. nm_handle h s SuffixEnd) deactivated)
             @ nm_handle h StateAny SuffixState) (nm_handlers m))\<rparr>)"

section \<open>Updating the clock\<close>

text \<open>\<open>activateRequired\<close>: the states required by the active ones, depth first; a state is expanded once. The
  list holds the pending calls of \<open>visit\<close>, those for a required state append it first; the state is
  \<open>(ret, visited)\<close>.\<close>

function visit_required :: "Schema \<Rightarrow> (bool \<times> string) list \<Rightarrow> S \<times> string list \<Rightarrow> S \<times> string list" where
  "visit_required schema [] st = st"
| "visit_required schema ((required, node) # todo) (ret, visited) =
     (let ret' = (if required then ret @ [node] else ret) in
      if node \<in> set visited then visit_required schema todo (ret', visited)
      else if \<not> ghas schema node then visit_required schema todo (ret', node # visited)
      else visit_required schema (map (Pair True) (sl (Require (Schema_Get schema node))) @ todo) (ret', node # visited))"
  by pat_completeness auto
termination
proof (relation "measures [\<lambda>(schema, todo, ret, visited). card (set (gkeys schema) - set visited),
    \<lambda>(schema, todo, ret, visited). length todo]", goal_cases)
  case (4 schema required node todo ret visited x)
  then have "card (set (gkeys schema) - set (node # visited)) < card (set (gkeys schema) - set visited)"
    by (intro psubset_card_mono) (auto simp: ghas_gkeys)
  then show ?case by simp
qed (auto simp: ghas_gkeys)

definition activateRequired :: "NetworkMachine \<Rightarrow> S \<Rightarrow> S" where
  "activateRequired m active =
     (case nm_schema m of
        None \<Rightarrow> active
      | Some schema \<Rightarrow> slicesUniq (fst (visit_required schema (map (Pair False) active) (active, []))))"

text \<open>\<open>close\<close> on a closed channel panics.\<close>

fun close_all :: "chan list \<Rightarrow> NetworkMachine \<Rightarrow> NetworkMachine res" where
  "close_all [] m = Inr m"
| "close_all (ch # chs) m =
     (if ch \<in> set (nm_closed m) then Inl (GoPanic ''close of closed channel'')
      else close_all chs (m\<lparr>nm_closed := nm_closed m @ [ch]\<rparr>))"

definition nm_queueFlush :: "NetworkMachine \<Rightarrow> NetworkMachine" where
  "nm_queueFlush m =
     m\<lparr>nm_closed := foldl (\<lambda>cl ch. if ch \<in> set cl then cl else cl @ [ch]) (nm_closed m) (QueueFlush (nm_subs m))\<rparr>"

definition nm_processSubscriptions :: "Env \<Rightarrow> NetworkMachine \<Rightarrow> S \<Rightarrow> S \<Rightarrow> Clock \<Rightarrow> NetworkMachine res" where
  "nm_processSubscriptions env m activated deactivated clockBefore =
     (let ex = en_expired env; clock = nm_machClock m in
      case ProcessStateCtx (nm_subs m) activated deactivated of (sm0, toCancel) \<Rightarrow>
      (case ProcessWhen ex sm0 activated deactivated of (sm1, c1) \<Rightarrow>
      (case ProcessWhenTime ex clock sm1 clockBefore of (sm2, c2) \<Rightarrow>
      (case ProcessWhenTimeSum ex clock sm2 of (sm3, c3) \<Rightarrow>
        bindR (ProcessWhenQueue sm3 (nm_queueTick m)) (\<lambda>(sm4, c4).
          bindR (ProcessWhenQuery ex (en_query env) clock sm4) (\<lambda>(sm5, c5).
            close_all (c1 @ c2 @ c3 @ c4 @ c5)
              (m\<lparr>nm_subs := sm5, nm_canceled := nm_canceled m @ toCancel\<rparr>)))))))"

text \<open>The active states of a new time, in the order of the names; a shorter time is an index panic.\<close>

fun active_of :: "S \<Rightarrow> Time \<Rightarrow> S res" where
  "active_of [] t = Inr []"
| "active_of (s # index) [] = Inl (GoPanic ''index out of range'')"
| "active_of (s # index) (v # t) = bindR (active_of index t) (\<lambda>a. Inr (if IsActiveTick v then s # a else a))"

fun clock_of :: "S \<Rightarrow> Time \<Rightarrow> Clock \<Rightarrow> Clock res" where
  "clock_of index [] clock = Inr clock"
| "clock_of [] (v # t) clock = Inl (GoPanic ''index out of range'')"
| "clock_of (s # index) (v # t) clock = clock_of index t (gput s v clock)"

definition updateClock :: "Env \<Rightarrow> NetworkMachine \<Rightarrow> Time \<Rightarrow> uint64 \<Rightarrow> uint32 \<Rightarrow> NetworkMachine res" where
  "updateClock env m now qTick machTick =
     (let clockBefore = nm_machClock m; activeBefore = nm_ActiveStates m None; index = nm_stateNames m in
      bindR (active_of index now) (\<lambda>activeNow0.
        let activeNow = activateRequired m activeNow0;
            activated = StatesDiff activeNow activeBefore;
            deactivated = StatesDiff activeBefore activeNow
        in bindR (clock_of index now (nm_machClock m)) (\<lambda>clock.
          let m1 = m\<lparr>nm_machTime := now, nm_machClock := clock, nm_machTick := machTick\<rparr>;
              m2 = (if nm_queueTick m1 > qTick then nm_queueFlush m1 else m1);
              m3 = m2\<lparr>nm_queueTick := qTick, nm_activeStates := activeNow\<rparr>
          in nm_processSubscriptions env (nm_processHandlers m3 activated deactivated) activated deactivated clockBefore)))"

section \<open>Constant answers\<close>

definition nm_mutAccepted :: "NetworkMachine \<Rightarrow> MutationType \<Rightarrow> S \<Rightarrow> bool" where
  "nm_mutAccepted m mutType states = (case nm_schema m of None \<Rightarrow> True | Some _ \<Rightarrow> True)"

definition nm_CanAdd :: "NetworkMachine \<Rightarrow> S \<Rightarrow> A \<Rightarrow> Result" where "nm_CanAdd m states args = Executed"
definition nm_CanRemove :: "NetworkMachine \<Rightarrow> S \<Rightarrow> A \<Rightarrow> Result" where "nm_CanRemove m states args = Executed"
definition nm_QueueLen :: "NetworkMachine \<Rightarrow> uint16" where "nm_QueueLen m = 0"

definition nm_ActivatedAt :: "NetworkMachine \<Rightarrow> string \<Rightarrow> uint64 res" where
  "nm_ActivatedAt m state = (if nm_disposed m then Inr 0 else Inl (GoPanic ''not implemented yet''))"

end
