(* ===== verification/Am_Rpc_Client.thy ===== *)
theory Am_Rpc_Client
  imports Am_Rpc Am_Netmach
begin

text \<open>
  The client side of the RPC, \<open>src/pkg/rpc/rpc_client.go\<close>, and the mutation methods of the network machine,
  which go through it. A call over the wire is a call of the server's method; \<open>answered\<close> says whether the
  transport, retries included, got an answer.
\<close>

definition ssC_HandshakeDone :: string where "ssC_HandshakeDone = ''HandshakeDone''"
definition ssC_MetricSync :: string where "ssC_MetricSync = ''MetricSync''"
definition ssC_Start :: string where "ssC_Start = ''Start''"
definition ssC_Ready :: string where "ssC_Ready = ''Ready''"
definition ssC_Connecting :: string where "ssC_Connecting = ''Connecting''"
definition ssC_Connected :: string where "ssC_Connected = ''Connected''"
definition ssC_Disconnecting :: string where "ssC_Disconnecting = ''Disconnecting''"
definition ssC_Disconnected :: string where "ssC_Disconnected = ''Disconnected''"
definition ssC_RetryingConn :: string where "ssC_RetryingConn = ''RetryingConn''"
definition ssC_RetryingCall :: string where "ssC_RetryingCall = ''RetryingCall''"
definition ssC_CallRetryFailed :: string where "ssC_CallRetryFailed = ''CallRetryFailed''"
definition ssC_ConnRetryFailed :: string where "ssC_ConnRetryFailed = ''ConnRetryFailed''"
definition ssC_ServerDelivering :: string where "ssC_ServerDelivering = ''ServerDelivering''"
definition ssC_ServerPayload :: string where "ssC_ServerPayload = ''ServerPayload''"
definition ssC_ErrNetworkTimeout :: string where "ssC_ErrNetworkTimeout = ''ErrNetworkTimeout''"
definition ssC_ErrDelivery :: string where "ssC_ErrDelivery = ''ErrDelivery''"
definition ssC_Healthcheck :: string where "ssC_Healthcheck = ''Healthcheck''"
definition ssNS_ErrOnClient :: string where "ssNS_ErrOnClient = ''ErrOnClient''"

record Client =
  cl_Mach :: Machine
  cl_NetMach :: NetworkMachine
  cl_SyncAllMutations :: bool
  cl_SyncAllowedStates :: "S option"
  cl_SyncSkippedStates :: S
  cl_SyncShallowClocks :: bool
  cl_schema :: "Schema option"
  cl_trackedStates :: S
  cl_trackedStateIdxs :: "int list"
  cl_Id :: string
  cl_Addr :: string
  cl_Conn :: bool
  cl_rpc :: bool
  cl_Consumer :: "Machine option"
  cl_CallCount :: uint64
  cl_ReconnectOnDisconn :: bool
  cl_CallRetries :: nat
  cl_CallRetryTimeout :: int
  cl_CallRetryDelay :: int
  cl_CallRetryBackoff :: int
  cl_ConnRetries :: nat
  cl_ConnRetryTimeout :: int
  cl_ConnRetryDelay :: int
  cl_ConnRetryBackoff :: int
  cl_connRetryRound :: nat
  cl_TmpTestErr :: "string option"
  cl_permTestErr :: "string option"

section \<open>States and schema\<close>

definition track_client :: "Client \<Rightarrow> S \<Rightarrow> S" where
  "track_client c names =
     StatesDiff (case cl_SyncAllowedStates c of None \<Rightarrow> names | Some a \<Rightarrow> StatesShared names a) (cl_SyncSkippedStates c)"

text \<open>The active states are not recomputed here.\<close>

definition updateStatesSchema :: "Env \<Rightarrow> nat \<Rightarrow> Client \<Rightarrow> MsgSrvHello \<Rightarrow> Client res" where
  "updateStatesSchema env fuel c resp =
     (let names = se_StateNames (sh_Serialized resp); t = se_Time (sh_Serialized resp); nm = cl_NetMach c in
      if length names \<noteq> length t then
        bindR (AddErr env fuel (cl_Mach c) (Some (''resp.Serialized len invalid: '' @ strconv_Itoa (int (length names)) @ '' != '' @ strconv_Itoa (int (length t)))) []) (\<lambda>(_, m). Inr (c\<lparr>cl_Mach := m\<rparr>))
      else let nm1 = nm\<lparr>nm_schema := (case sh_Schema resp of None \<Rightarrow> nm_schema nm | Some s \<Rightarrow> Some s),
                       nm_stateNames := names, nm_queueTick := se_QueueTick (sh_Serialized resp), nm_machTime := t,
                       nm_machClock := foldl (\<lambda>cl (s, v). gput s v cl) (nm_machClock nm) (zip names t)\<rparr>
        in Inr (c\<lparr>cl_NetMach := nm1, cl_schema := (case sh_Schema resp of None \<Rightarrow> cl_schema c | Some s \<Rightarrow> Some s),
                  cl_trackedStates := track_client c names,
                  cl_trackedStateIdxs := map (\<lambda>n. slices_Index names n) (track_client c names)\<rparr>))"

section \<open>Clock updates\<close>

text \<open>The loop over the indexes; \<open>l\<close> is the length of the time as a \<open>uint16\<close>. An index beyond it is skipped.\<close>

fun apply_update :: "uint16 \<Rightarrow> uint16 list \<Rightarrow> uint32 list \<Rightarrow> Time \<Rightarrow> Time res" where
  "apply_update l [] ticks t = Inr t"
| "apply_update l (idx # idxs) [] t = Inl (GoPanic ''index out of range'')"
| "apply_update l (idx # idxs) (v # ticks) t =
     (if idx \<ge> l then apply_update l idxs ticks t
      else bindR (at t (unat idx)) (\<lambda>old. apply_update l idxs ticks (t[unat idx := old + ucast v])))"

definition clockFromUpdate ::
  "MsgSrvUpdate \<Rightarrow> Time \<Rightarrow> uint64 \<Rightarrow> uint32 \<Rightarrow> (Time \<times> uint64 \<times> uint32) res" where
  "clockFromUpdate u timeBefore qTickBefore machTickBefore =
     bindR (apply_update (of_nat (length timeBefore)) (up_Indexes u) (up_Ticks u) timeBefore) (\<lambda>t.
       Inr (t, qTickBefore + ucast (up_QueueTick u), machTickBefore + ucast (up_MachTick u)))"

definition clockSet :: "Env \<Rightarrow> Client \<Rightarrow> Time option \<Rightarrow> uint64 \<Rightarrow> uint32 \<Rightarrow> Client res" where
  "clockSet env c mTime qTick machTick =
     bindR (Not1 (cl_Mach c) ssC_HandshakeDone) (\<lambda>notDone.
       if notDone then Inr c
       else case mTime of
         None \<Rightarrow> Inr c
       | Some t \<Rightarrow> bindR (updateClock env (cl_NetMach c) t qTick machTick) (\<lambda>nm. Inr (c\<lparr>cl_NetMach := nm\<rparr>)))"

text \<open>With shallow clocks the time is replaced by one in which all tracked states are active.\<close>

definition client_checksum :: "Client \<Rightarrow> Time \<Rightarrow> uint64 \<Rightarrow> uint32 \<Rightarrow> uint8 res" where
  "client_checksum c mTime qTick machTick =
     bindR (if cl_SyncShallowClocks c then NewTime mTime (cl_trackedStateIdxs c) else Inr mTime) (\<lambda>t.
       Inr (Checksum (Time_SumAll t) qTick machTick))"

text \<open>\<open>False\<close>: the update does not fit and a full sync is needed.\<close>

definition clockUpdate :: "Env \<Rightarrow> Client \<Rightarrow> MsgSrvUpdate \<Rightarrow> (bool \<times> Client) res" where
  "clockUpdate env c u =
     bindR (Not1 (cl_Mach c) ssC_HandshakeDone) (\<lambda>notDone.
       if notDone then Inr (True, c)
       else let nm = cl_NetMach c in
         bindR (clockFromUpdate u (nm_machTime nm) (nm_queueTick nm) (nm_machTick nm)) (\<lambda>(t, q, k).
           bindR (client_checksum c t q k) (\<lambda>check.
             if check \<noteq> up_Checksum u then Inr (False, c)
             else bindR (updateClock env nm t q k) (\<lambda>nm'. Inr (True, c\<lparr>cl_NetMach := nm'\<rparr>)))))"

fun clock_updates :: "Env \<Rightarrow> Client \<Rightarrow> MsgSrvUpdate list \<Rightarrow> (bool \<times> Client) res" where
  "clock_updates env c [] = Inr (True, c)"
| "clock_updates env c (u # us) =
     bindR (clockUpdate env c u) (\<lambda>(ok, c'). if \<not> ok then Inr (False, c') else clock_updates env c' us)"

definition clockUpdateMutations :: "Env \<Rightarrow> Client \<Rightarrow> MsgSrvUpdateMuts \<Rightarrow> (bool \<times> Client) res" where
  "clockUpdateMutations env c msgs =
     bindR (Not1 (cl_Mach c) ssC_HandshakeDone) (\<lambda>notDone.
       if notDone then Inr (True, c) else clock_updates env c (um_Updates msgs))"

section \<open>Messages from the server\<close>

text \<open>The result of \<open>clockUpdate\<close> is dropped.\<close>

definition RemoteUpdate :: "Env \<Rightarrow> Client \<Rightarrow> MsgSrvUpdate \<Rightarrow> Client res" where
  "RemoteUpdate env c u = bindR (clockUpdate env c u) (\<lambda>(_, c'). Inr c')"

definition RemoteSchemaChange :: "Env \<Rightarrow> nat \<Rightarrow> Client \<Rightarrow> MsgSrvHello \<Rightarrow> Client res" where
  "RemoteSchemaChange env fuel c msg = updateStatesSchema env fuel c msg"

text \<open>\<open>Sync\<close>, given the answer to its call (\<open>None\<close>: no answer).\<close>

definition client_Sync :: "Env \<Rightarrow> nat \<Rightarrow> Client \<Rightarrow> MsgSrvSync option \<Rightarrow> Client res" where
  "client_Sync env fuel c resp =
     bindR (mach_Add1 env fuel (cl_Mach c) ssC_MetricSync []) (\<lambda>(_, m).
       let c1 = c\<lparr>cl_Mach := m\<rparr> in
       case resp of
         None \<Rightarrow> Inr c1
       | Some r \<Rightarrow>
           (if length (sy_Time r) > 0 \<and> length (sy_Time r) \<noteq> length (nm_stateNames (cl_NetMach c1)) then
              bindR (AddErrRpcStr env fuel None (cl_Mach c1) ''wrong clock len'')
                (\<lambda>(_, m'). Inr (c1\<lparr>cl_Mach := m'\<rparr>))
            else clockSet env c1 (Some (sy_Time r)) (sy_QueueTick r) (sy_MachTick r)))"

section \<open>Client, server and source\<close>

record Link =
  lk_Client :: Client
  lk_Server :: Server
  lk_Source :: Machine

text \<open>\<open>env\<close> belongs to the client, \<open>senv\<close> to the server. A sync that fails leaves the client as it was.\<close>

definition link_Sync :: "Env \<Rightarrow> Env \<Rightarrow> nat \<Rightarrow> bool \<Rightarrow> Link \<Rightarrow> Link res" where
  "link_Sync env senv fuel answered l =
     (if \<not> answered then
        bindR (client_Sync env fuel (lk_Client l) None) (\<lambda>c. Inr (l\<lparr>lk_Client := c\<rparr>))
      else bindR (RemoteSync senv fuel (lk_Server l) (lk_Source l)) (\<lambda>(resp, s).
        bindR (client_Sync env fuel (lk_Client l) (case resp of Inl _ \<Rightarrow> None | Inr r \<Rightarrow> Some r)) (\<lambda>c.
          Inr (l\<lparr>lk_Client := c, lk_Server := s\<rparr>))))"

definition StatesToIndexes :: "S \<Rightarrow> S \<Rightarrow> int list" where
  "StatesToIndexes allStates states = map (\<lambda>state. slices_Index allStates state) states"

text \<open>The answer to a mutation: the clock is updated, or synced when the update does not fit. A message without
  the expected part is a nil pointer.\<close>

definition process_response :: "Env \<Rightarrow> Client \<Rightarrow> MsgSrvMutation \<Rightarrow> (bool \<times> Client) res" where
  "process_response env c resp =
     (if cl_SyncAllMutations c then
        (case rm_Mutations resp of
           None \<Rightarrow> Inl (GoPanic ''nil pointer dereference'') | Some u \<Rightarrow> clockUpdateMutations env c u)
      else case rm_Update resp of
           None \<Rightarrow> Inl (GoPanic ''nil pointer dereference'') | Some u \<Rightarrow> clockUpdate env c u)"

definition link_call ::
  "Env \<Rightarrow> Env \<Rightarrow> nat \<Rightarrow> bool \<times> bool \<Rightarrow> src_method \<Rightarrow> (A \<Rightarrow> A) \<Rightarrow> Link \<Rightarrow> MsgCliMutation \<Rightarrow> Event option
     \<Rightarrow> (Result \<times> Link) res" where
  "link_call env senv fuel answered method unmarshal l req ev =
     (if \<not> fst answered then Inr (Canceled, l)
      else bindR (remote_mutation method unmarshal (lk_Server l) (lk_Source l) req ev) (\<lambda>(resp, s, src).
        let l1 = l\<lparr>lk_Server := s, lk_Source := src\<rparr> in
        case resp of
          Inl _ \<Rightarrow> Inr (Canceled, l1)
        | Inr r \<Rightarrow> bindR (process_response env (lk_Client l1) r) (\<lambda>(synced, c).
            let l2 = l1\<lparr>lk_Client := c\<rparr> in
            if synced then Inr (rm_Result r, l2)
            else bindR (link_Sync env senv fuel (snd answered) l2) (\<lambda>l3. Inr (rm_Result r, l3)))))"

text \<open>\<open>Add\<close>, \<open>Remove\<close>, \<open>Set\<close>, \<open>EvAdd\<close> and \<open>EvRemove\<close> of a network machine differ in the remote method, in the
  event they pass and in the filter of mutations.\<close>

definition nm_mutate ::
  "Env \<Rightarrow> Env \<Rightarrow> nat \<Rightarrow> bool \<times> bool \<Rightarrow> src_method \<Rightarrow> (A \<Rightarrow> A) \<Rightarrow> MutationType option \<Rightarrow> Link \<Rightarrow> S \<Rightarrow> A \<Rightarrow> Event option
     \<Rightarrow> (Result \<times> Link) res" where
  "nm_mutate env senv fuel answered method unmarshal filtered l states args ev =
     (let nm = cl_NetMach (lk_Client l) in
      if \<not> nm_conn nm \<or> nm_disposed nm then Inr (Canceled, l)
      else bindR (nm_MustParseStates nm states) (\<lambda>_.
        if (case filtered of None \<Rightarrow> False | Some ty \<Rightarrow> nm_filterMutations nm \<and> \<not> nm_mutAccepted nm ty states)
        then Inr (Canceled, l)
        else link_call env senv fuel answered method unmarshal l
               \<lparr>cm_States = Some (StatesToIndexes (nm_stateNames nm) states), cm_Args = args, cm_Event = ev\<rparr> ev))"

definition nm_Add :: "Env \<Rightarrow> Env \<Rightarrow> nat \<Rightarrow> bool \<times> bool \<Rightarrow> (A \<Rightarrow> A) \<Rightarrow> Link \<Rightarrow> S \<Rightarrow> A \<Rightarrow> (Result \<times> Link) res" where
  "nm_Add env senv fuel answered unmarshal l states args =
     nm_mutate env senv fuel answered (src_Add senv fuel) unmarshal (Some MutationAdd) l states args None"

definition nm_Remove :: "Env \<Rightarrow> Env \<Rightarrow> nat \<Rightarrow> bool \<times> bool \<Rightarrow> (A \<Rightarrow> A) \<Rightarrow> Link \<Rightarrow> S \<Rightarrow> A \<Rightarrow> (Result \<times> Link) res" where
  "nm_Remove env senv fuel answered unmarshal l states args =
     nm_mutate env senv fuel answered (src_Remove senv fuel) unmarshal (Some MutationRemove) l states args None"

definition nm_Set :: "Env \<Rightarrow> Env \<Rightarrow> nat \<Rightarrow> bool \<times> bool \<Rightarrow> (A \<Rightarrow> A) \<Rightarrow> Link \<Rightarrow> S \<Rightarrow> A \<Rightarrow> (Result \<times> Link) res" where
  "nm_Set env senv fuel answered unmarshal l states args =
     nm_mutate env senv fuel answered (src_Set senv fuel) unmarshal (Some MutationSet) l states args None"

definition nm_EvAdd :: "Env \<Rightarrow> Env \<Rightarrow> nat \<Rightarrow> bool \<times> bool \<Rightarrow> (A \<Rightarrow> A) \<Rightarrow> Link \<Rightarrow> Event \<Rightarrow> S \<Rightarrow> A \<Rightarrow> (Result \<times> Link) res" where
  "nm_EvAdd env senv fuel answered unmarshal l event states args =
     nm_mutate env senv fuel answered (src_Add senv fuel) unmarshal None l states args (Some event)"

definition nm_EvRemove :: "Env \<Rightarrow> Env \<Rightarrow> nat \<Rightarrow> bool \<times> bool \<Rightarrow> (A \<Rightarrow> A) \<Rightarrow> Link \<Rightarrow> Event \<Rightarrow> S \<Rightarrow> A \<Rightarrow> (Result \<times> Link) res" where
  "nm_EvRemove env senv fuel answered unmarshal l event states args =
     nm_mutate env senv fuel answered (src_Remove senv fuel) unmarshal None l states args (Some event)"

definition nm_Toggle :: "Env \<Rightarrow> Env \<Rightarrow> nat \<Rightarrow> bool \<times> bool \<Rightarrow> (A \<Rightarrow> A) \<Rightarrow> Link \<Rightarrow> S \<Rightarrow> A \<Rightarrow> (Result \<times> Link) res" where
  "nm_Toggle env senv fuel answered unmarshal l states args =
     (let nm = cl_NetMach (lk_Client l) in
      if \<not> nm_conn nm \<or> nm_disposed nm then Inr (Canceled, l)
      else bindR (nm_Is nm states) (\<lambda>b.
        if b then nm_Remove env senv fuel answered unmarshal l states args
        else nm_Add env senv fuel answered unmarshal l states args))"

text \<open>\<open>AddErrState\<close>: the error is kept locally, and \<open>ErrOnClient\<close> marks it if the source has that state. A nil
  error is not refused here; \<open>Some ctxCanceled\<close> is.\<close>

definition nm_AddErrState :: "Env \<Rightarrow> Env \<Rightarrow> nat \<Rightarrow> bool \<times> bool \<Rightarrow> (A \<Rightarrow> A) \<Rightarrow> Link \<Rightarrow> string \<Rightarrow> string option \<Rightarrow> A
     \<Rightarrow> (Result \<times> Link) res" where
  "nm_AddErrState env senv fuel answered unmarshal l state err args =
     (let c = lk_Client l; nm = cl_NetMach c in
      if \<not> nm_conn nm \<or> nm_disposed nm \<or> err = Some ctxCanceled then Inr (Canceled, l)
      else let l1 = l\<lparr>lk_Client := c\<lparr>cl_NetMach := nm\<lparr>nm_err := err\<rparr>\<rparr>\<rparr>;
               errStates = [state, StateException] @ (if nm_Has1 nm ssNS_ErrOnClient then [ssNS_ErrOnClient] else [])
        in nm_Add env senv fuel answered unmarshal l1 errStates
             (PassMerge [args, Pass [VException (case err of None \<Rightarrow> [] | Some e \<Rightarrow> e)]]))"

definition nm_AddErr :: "Env \<Rightarrow> Env \<Rightarrow> nat \<Rightarrow> bool \<times> bool \<Rightarrow> (A \<Rightarrow> A) \<Rightarrow> Link \<Rightarrow> string option \<Rightarrow> A \<Rightarrow> (Result \<times> Link) res" where
  "nm_AddErr env senv fuel answered unmarshal l err args =
     nm_AddErrState env senv fuel answered unmarshal l StateException err args"

definition nm_AddNS :: "nat \<Rightarrow> Env \<Rightarrow> bool \<Rightarrow> (A \<Rightarrow> A) \<Rightarrow> Link \<Rightarrow> S \<Rightarrow> A \<Rightarrow> (Result \<times> Link) res" where
  "nm_AddNS fuel senv answered unmarshal l states args =
     (let nm = cl_NetMach (lk_Client l) in
      if \<not> nm_conn nm \<or> nm_disposed nm then Inr (Canceled, l)
      else bindR (nm_MustParseStates nm states) (\<lambda>_.
        if nm_filterMutations nm \<and> \<not> nm_mutAccepted nm MutationAdd states then Inr (Canceled, l)
        else if \<not> answered then Inr (Canceled, l)
        else bindR (RemoteAddNS (src_Add senv fuel) unmarshal (lk_Server l) (lk_Source l)
               \<lparr>cm_States = Some (StatesToIndexes (nm_stateNames nm) states), cm_Args = args, cm_Event = None\<rparr>)
             (\<lambda>(_, s, src). Inr (Executed, l\<lparr>lk_Server := s, lk_Source := src\<rparr>))))"

text \<open>An invalid \<open>WhenTime\<close> adds an exception remotely.\<close>

definition nm_WhenTime :: "Env \<Rightarrow> Env \<Rightarrow> nat \<Rightarrow> bool \<times> bool \<Rightarrow> Link \<Rightarrow> S \<Rightarrow> Time \<Rightarrow> ctx option \<Rightarrow> (chan \<times> Link) res" where
  "nm_WhenTime env senv fuel answered l states ticks c =
     (let cl = lk_Client l; nm = cl_NetMach cl in
      if nm_disposed nm then Inr (Closed, l)
      else if length states \<noteq> length ticks then
        bindR (nm_AddErr env senv fuel answered id l (Some ''whenTime: states and times must have the same length'') [])
          (\<lambda>(_, l'). Inr (Closed, l'))
      else bindR (sub_WhenTime (en_expired env) (nm_machClock nm) (nm_subs nm) states ticks c) (\<lambda>(sm, ch).
        Inr (ch, l\<lparr>lk_Client := cl\<lparr>cl_NetMach := nm\<lparr>nm_subs := sm\<rparr>\<rparr>\<rparr>)))"

section \<open>The connection\<close>

text \<open>\<open>HandshakingState\<close> after the server's hello: the answer is checked, states and schema are taken over. The
  result is the argument of \<open>HandshakeDone\<close>, whose handler sets the clock.\<close>

definition hello_done :: "Env \<Rightarrow> nat \<Rightarrow> bool \<Rightarrow> Client \<Rightarrow> MsgSrvHello \<Rightarrow> ((Time \<times> uint64) option \<times> Client) res" where
  "hello_done env fuel noSchema c resp =
     (let ser = sh_Serialized resp;
          refuse = (\<lambda>msg. bindR (AddErrRpcStr env fuel None (cl_Mach c) msg)
            (\<lambda>(_, m). Inr (None, c\<lparr>cl_Mach := m\<rparr>)))
      in if length (se_StateNames ser) = 0 then refuse ''states missing''
         else if se_ID ser = [] then refuse ''ID missing''
         else if nm_schema (cl_NetMach c) = None \<and> sh_Schema resp = None \<and> \<not> noSchema then refuse ''schema missing''
         else bindR (updateStatesSchema env fuel c resp) (\<lambda>c1.
           let nm = cl_NetMach c1 in
           if length (nm_tags nm) < 2 then Inl (GoPanic ''index out of range'')
           else Inr (Some (se_Time ser, se_QueueTick ser),
                  c1\<lparr>cl_NetMach := nm\<lparr>nm_tags := (nm_tags nm)[1 := TagKeySrcId @ '':'' @ se_ID ser], nm_remoteId := se_ID ser\<rparr>\<rparr>)))"

definition HandshakeDoneEnter :: "string \<Rightarrow> Time option \<Rightarrow> uint64 \<Rightarrow> bool" where
  "HandshakeDoneEnter ident machTime queueTick = (ident \<noteq> [] \<and> machTime \<noteq> None \<and> queueTick > 0)"

definition HandshakeDoneState :: "Env \<Rightarrow> Client \<Rightarrow> Time \<Rightarrow> uint64 \<Rightarrow> uint32 \<Rightarrow> Client res" where
  "HandshakeDoneState env c machTime queueTick machTick = clockSet env c (Some machTime) queueTick machTick"

text \<open>Pushes: \<open>PushClient\<close> on the server, and the delivery of the oldest message.\<close>

definition link_push :: "Env \<Rightarrow> nat \<Rightarrow> Link \<Rightarrow> string option \<Rightarrow> Link res" where
  "link_push senv fuel l netErr =
     bindR (PushClient senv fuel (lk_Server l) netErr) (\<lambda>s. Inr (l\<lparr>lk_Server := s\<rparr>))"

definition RemoteUpdateMutations :: "Env \<Rightarrow> Env \<Rightarrow> nat \<Rightarrow> bool \<Rightarrow> Link \<Rightarrow> MsgSrvUpdateMuts \<Rightarrow> Link res" where
  "RemoteUpdateMutations env senv fuel answered l u =
     bindR (clockUpdateMutations env (lk_Client l) u) (\<lambda>(ok, c).
       let l1 = l\<lparr>lk_Client := c\<rparr> in if ok then Inr l1 else link_Sync env senv fuel answered l1)"

definition link_deliver :: "Env \<Rightarrow> Env \<Rightarrow> nat \<Rightarrow> bool \<Rightarrow> Link \<Rightarrow> Link res" where
  "link_deliver env senv fuel answered l =
     (let s = lk_Server l in
      case sv_sent s of
        [] \<Rightarrow> Inr l
      | msg # rest \<Rightarrow>
          (let l1 = l\<lparr>lk_Server := s\<lparr>sv_sent := rest\<rparr>\<rparr> in
           case msg of
             Inl u \<Rightarrow> bindR (RemoteUpdate env (lk_Client l1) u) (\<lambda>c. Inr (l1\<lparr>lk_Client := c\<rparr>))
           | Inr us \<Rightarrow> RemoteUpdateMutations env senv fuel answered l1 us))"

section \<open>Guards and handlers of the client's states\<close>

definition cl_upd :: "Client \<Rightarrow> (Result \<times> Machine) res \<Rightarrow> Client res" where
  "cl_upd c r = bindR r (\<lambda>(_, m). Inr (c\<lparr>cl_Mach := m\<rparr>))"

definition ConnectingEnter :: "Client \<Rightarrow> bool" where
  "ConnectingEnter c = (cl_Addr c \<noteq> [] \<or> cl_Conn c)"

definition DisconnectingEnter :: "Client \<Rightarrow> bool" where
  "DisconnectingEnter c = (cl_rpc c \<and> cl_Conn c)"

definition DisconnectedEnter :: "Client \<Rightarrow> bool res" where
  "DisconnectedEnter c = bindR (WillBe1 (cl_Mach c) ssC_Disconnecting PositionAny) (\<lambda>b. Inr (\<not> b))"

text \<open>\<open>before\<close> is \<open>TimeBefore\<close> of the transition.\<close>

definition DisconnectedState :: "Env \<Rightarrow> nat \<Rightarrow> Client \<Rightarrow> Event option \<Rightarrow> Time \<Rightarrow> Client res" where
  "DisconnectedState env fuel c e before =
     (let c1 = c\<lparr>cl_Conn := False\<rparr> in
      bindR (Time_Any1 before [mach_Index1 (cl_Mach c1) ssC_Connected, mach_Index1 (cl_Mach c1) ssC_Connecting]) (\<lambda>was.
        if was \<and> cl_ReconnectOnDisconn c1
        then cl_upd c1 (EvAdd1 env fuel (cl_Mach c1) e ssC_RetryingConn []) else Inr c1))"

definition client_StartEnd :: "Env \<Rightarrow> nat \<Rightarrow> Client \<Rightarrow> Event option \<Rightarrow> Time \<Rightarrow> Client res" where
  "client_StartEnd env fuel c e before =
     bindR (Time_Is before [mach_Index1 (cl_Mach c) ssC_Connecting, mach_Index1 (cl_Mach c) StateException]) (\<lambda>never.
       if never then Inr c
       else bindR (Time_Is1 before (mach_Index1 (cl_Mach c) ssC_Connecting)) (\<lambda>a.
         bindR (Time_Is1 before (mach_Index1 (cl_Mach c) ssC_Connected)) (\<lambda>b.
           if a \<or> b then cl_upd c (EvAdd1 env fuel (cl_Mach c) e ssC_Disconnecting []) else Inr c)))"

definition RetryingCallEnter :: "Client \<Rightarrow> bool" where
  "RetryingCallEnter c = Any1 (cl_Mach c) [ssC_Connected, ssC_RetryingConn]"

definition CallRetryFailedState :: "Env \<Rightarrow> nat \<Rightarrow> Client \<Rightarrow> Event option \<Rightarrow> Client res" where
  "CallRetryFailedState env fuel c e = cl_upd c (EvRemove1 env fuel (cl_Mach c) e ssC_CallRetryFailed [])"

definition client_ExceptionState :: "Env \<Rightarrow> nat \<Rightarrow> Client \<Rightarrow> Event option \<Rightarrow> Client res" where
  "client_ExceptionState env fuel c e = cl_upd c (EvRemove1 env fuel (cl_Mach c) e StateException [])"

text \<open>A payload is refused without a consumer; a missing one is an error.\<close>

definition ServerPayloadEnter :: "Env \<Rightarrow> nat \<Rightarrow> Client \<Rightarrow> string option \<Rightarrow> (bool \<times> Client) res" where
  "ServerPayloadEnter env fuel c payload =
     (case cl_Consumer c of
        None \<Rightarrow> Inr (False, c)
      | Some _ \<Rightarrow>
          (case payload of
             Some _ \<Rightarrow> Inr (True, c)
           | None \<Rightarrow> bindR (cl_upd c (AddErrState env fuel (cl_Mach c) ssC_ErrDelivery (Some ''invalid payload'') []))
               (\<lambda>c1. Inr (False, c1))))"

definition ServerPayloadState :: "Env \<Rightarrow> nat \<Rightarrow> Client \<Rightarrow> Event option \<Rightarrow> string \<Rightarrow> Client res" where
  "ServerPayloadState env fuel c e payload =
     (case cl_Consumer c of
        None \<Rightarrow> Inl (GoPanic ''nil pointer dereference'')
      | Some m \<Rightarrow> bindR (EvAdd1 env fuel m e ssC_ServerPayload [(am_rpc, VStr payload)]) (\<lambda>(_, m').
          Inr (c\<lparr>cl_Consumer := Some m'\<rparr>)))"

definition ensureGroupConnected :: "Env \<Rightarrow> nat \<Rightarrow> Client \<Rightarrow> Event option \<Rightarrow> Client res" where
  "ensureGroupConnected env fuel c e =
     (if Any1 (cl_Mach c) ConnectedGroup then Inr c
      else bindR (WillBe (cl_Mach c) ConnectedGroup PositionAny) (\<lambda>will.
        if will then Inr c else cl_upd c (EvAdd1 env fuel (cl_Mach c) e ssC_Disconnected [])))"

definition HealthcheckState :: "Env \<Rightarrow> nat \<Rightarrow> Client \<Rightarrow> Event option \<Rightarrow> Client res" where
  "HealthcheckState env fuel c e =
     bindR (cl_upd c (EvRemove1 env fuel (cl_Mach c) e ssC_Healthcheck [])) (\<lambda>c1. ensureGroupConnected env fuel c1 e)"

definition client_Start :: "Env \<Rightarrow> nat \<Rightarrow> Client \<Rightarrow> Event option \<Rightarrow> Client res" where
  "client_Start env fuel c e = cl_upd c (EvAdd env fuel (cl_Mach c) e [ssC_Start, ssC_Connecting] [])"

definition client_RemoteBye :: "Env \<Rightarrow> nat \<Rightarrow> Client \<Rightarrow> Client res" where
  "client_RemoteBye env fuel c = cl_upd c (mach_Remove1 env fuel (cl_Mach c) ssC_Start [])"

definition RemoteSendingPayload :: "Env \<Rightarrow> nat \<Rightarrow> Client \<Rightarrow> string \<Rightarrow> Client res" where
  "RemoteSendingPayload env fuel c payload =
     cl_upd c (mach_Add1 env fuel (cl_Mach c) ssC_ServerDelivering [(am_rpc, VStr payload)])"

definition RemoteSendPayload :: "Env \<Rightarrow> nat \<Rightarrow> Client \<Rightarrow> string \<Rightarrow> Client res" where
  "RemoteSendPayload env fuel c payload =
     cl_upd c (mach_Add1 env fuel (cl_Mach c) ssC_ServerPayload [(am_rpc, VStr payload)])"

text \<open>Allowed states make a client partial too, but are not asked for.\<close>

definition IsPartial :: "Client \<Rightarrow> bool" where
  "IsPartial c = (length (cl_SyncSkippedStates c) > 0)"

section \<open>Calls that are retried\<close>

text \<open>One attempt as the transport answers it: the context of the caller expired during the wait before it or
  during the call, the time of the call was over when it returned, its error, errors of setting and clearing the
  deadline of the connection, and the time since the first failure afterwards. The call itself gets the context without the timeout, so a late answer is still waited for.\<close>

record attempt =
  at_waitExpired :: bool
  at_ctxDone :: bool
  at_timedOut :: bool
  at_err :: "(bool \<times> string) option"
  at_deadlineErr :: "string option"
  at_clearErr :: "string option"
  at_elapsed :: int

definition client_call :: "Env \<Rightarrow> nat \<Rightarrow> Client \<Rightarrow> string \<Rightarrow> attempt \<Rightarrow> (bool \<times> Client) res" where
  "client_call env fuel c0 mName a =
     (let c = c0\<lparr>cl_CallCount := cl_CallCount c0 + 1\<rparr>; failed = (\<lambda>r. bindR (cl_upd c r) (\<lambda>c1. Inr (False, c1))) in
      if at_ctxDone a then Inr (False, c)
      else if at_timedOut a
      then failed (AddErrState env fuel (cl_Mach c) ssC_ErrNetworkTimeout (Some ''context deadline exceeded'') [])
      else case cl_TmpTestErr c of
        Some e \<Rightarrow> bindR (failed (AddErrNetwork env fuel (cl_Mach c) (wrap_err e mName)))
          (\<lambda>(ok, c1). Inr (ok, c1\<lparr>cl_TmpTestErr := None\<rparr>))
      | None \<Rightarrow>
          (if cl_permTestErr c \<noteq> None then failed (AddErrNetwork env fuel (cl_Mach c) (wrap_err ''%!w(<nil>)'' mName))
           else case at_err a of
             Some (isOp, e) \<Rightarrow> failed (rpc_AddErr env fuel (cl_Mach c) mName isOp e)
           | None \<Rightarrow> Inr (True, c)))"

text \<open>A notification; its deadline is set on the connection. Without a connection it panics, which becomes an
  error.\<close>

definition client_notify :: "Env \<Rightarrow> nat \<Rightarrow> Client \<Rightarrow> string \<Rightarrow> attempt \<Rightarrow> (bool \<times> Client) res" where
  "client_notify env fuel c0 mName a =
     (let c = c0\<lparr>cl_CallCount := cl_CallCount c0 + 1\<rparr>;
          failed = (\<lambda>c isOp e. bindR (cl_upd c (rpc_AddErr env fuel (cl_Mach c) mName isOp e)) (\<lambda>c1. Inr (False, c1)))
      in if \<not> cl_Conn c0 then
           bindR (PanicToErr env fuel (cl_Mach c0) (PanicError ''nil pointer dereference'') []) (\<lambda>m.
             Inr (False, c0\<lparr>cl_Mach := m\<rparr>))
         else case at_deadlineErr a of
           Some e \<Rightarrow> failed c0 False e
         | None \<Rightarrow>
             (if at_ctxDone a then Inr (False, c)
              else case at_err a of
                Some (isOp, e) \<Rightarrow> failed c isOp e
              | None \<Rightarrow> (case at_clearErr a of Some e \<Rightarrow> failed c False e | None \<Rightarrow> Inr (True, c))))"

definition next_delay :: "int \<Rightarrow> int \<Rightarrow> int" where
  "next_delay backoff delay =
     (if backoff > 0 then (if delay * 2 > backoff then backoff else delay * 2) else delay)"

text \<open>The retry loop, with the delays it waited; \<open>once\<close> is \<open>call\<close> or \<open>notify\<close>.\<close>

fun retry_loop ::
  "(Client \<Rightarrow> attempt \<Rightarrow> (bool \<times> Client) res) \<Rightarrow> (nat \<Rightarrow> attempt) \<Rightarrow> nat \<Rightarrow> nat \<Rightarrow> int \<Rightarrow> Client
     \<Rightarrow> (bool \<times> int list \<times> Client) res" where
  "retry_loop once net i 0 delay c = Inr (False, [], c)"
| "retry_loop once net i (Suc n) delay c =
     (if at_waitExpired (net i) then Inr (False, [delay], c)
      else bindR (once c (net i)) (\<lambda>(ok, c1).
        if ok then Inr (True, [delay], c1)
        else if cl_CallRetryTimeout c1 > 0 \<and> at_elapsed (net i) > cl_CallRetryTimeout c1 then Inr (False, [delay], c1)
        else bindR (retry_loop once net (Suc i) n (next_delay (cl_CallRetryBackoff c1) delay) c1)
          (\<lambda>(ok', ds, c2). Inr (ok', delay # ds, c2))))"

text \<open>\<open>callFailsafe\<close> once a reconnection under way is over.\<close>

definition callFailsafe ::
  "Env \<Rightarrow> nat \<Rightarrow> Client \<Rightarrow> string \<Rightarrow> (nat \<Rightarrow> attempt) \<Rightarrow> (bool \<times> int list \<times> Client) res" where
  "callFailsafe env fuel c mName net =
     bindR (if cl_rpc c then Not1 (cl_Mach c) ssC_Ready else Inr True) (\<lambda>bad.
       if bad then bindR (cl_upd c (AddErrNoConn env fuel (cl_Mach c) mName)) (\<lambda>c1. Inr (False, [], c1))
       else bindR (client_call env fuel c mName (net 0)) (\<lambda>(ok, c1).
         if ok then Inr (True, [], c1)
         else bindR (cl_upd c1 (mach_Add1 env fuel (cl_Mach c1) ssC_RetryingCall [])) (\<lambda>c2.
           bindR (retry_loop (\<lambda>c a. client_call env fuel c mName a) net 1 (cl_CallRetries c2) (cl_CallRetryDelay c2) c2)
             (\<lambda>(worked, ds, c3).
               bindR (cl_upd c3 (if worked then mach_Remove1 env fuel (cl_Mach c3) ssC_RetryingCall []
                                 else mach_Add1 env fuel (cl_Mach c3) ssC_CallRetryFailed []))
                 (\<lambda>c4. Inr (worked, ds, c4))))))"

text \<open>\<open>notifyFailsafe\<close> sleeps without looking at the context; \<open>worked\<close> is never set.\<close>

definition notifyFailsafe ::
  "Env \<Rightarrow> nat \<Rightarrow> Client \<Rightarrow> string \<Rightarrow> (nat \<Rightarrow> attempt) \<Rightarrow> (bool \<times> int list \<times> Client) res" where
  "notifyFailsafe env fuel c mName net =
     (if \<not> cl_rpc c then bindR (cl_upd c (AddErrNoConn env fuel (cl_Mach c) mName)) (\<lambda>c1. Inr (False, [], c1))
      else bindR (client_notify env fuel c mName (net 0)) (\<lambda>(ok, c1).
        if ok then Inr (True, [], c1)
        else bindR (cl_upd c1 (mach_Add1 env fuel (cl_Mach c1) ssC_RetryingCall [])) (\<lambda>c2.
          bindR (retry_loop (\<lambda>c a. client_notify env fuel c mName a)
                   (\<lambda>i. (net i)\<lparr>at_waitExpired := False\<rparr>) 1 (cl_CallRetries c2) (cl_CallRetryDelay c2) c2)
            (\<lambda>(ok', ds, c3).
              bindR (cl_upd c3 (mach_Add1 env fuel (cl_Mach c3) ssC_CallRetryFailed []))
                (\<lambda>c4. Inr (ok', ds, c4))))))"

section \<open>Connecting\<close>

text \<open>\<open>StartState\<close> creates the network machine; its names are the keys of the schema until the handshake.\<close>

definition PrefixNetMach :: string where "PrefixNetMach = ''rnm-''"

definition client_StartState :: "Env \<Rightarrow> nat \<Rightarrow> Client \<Rightarrow> Event option \<Rightarrow> string \<Rightarrow> bool \<Rightarrow> Client res" where
  "client_StartState env fuel c e parentId filterMutations =
     (case NewNetworkMachine (PrefixNetMach @ cl_Id c) True (cl_schema c) (gkeys (sl (cl_schema c))) parentId None filterMutations of
        Inr nm \<Rightarrow> Inr (c\<lparr>cl_NetMach := nm\<rparr>)
      | Inl err \<Rightarrow> bindR (cl_upd c (EvAddErr env fuel (cl_Mach c) e (Some ''schema and stateNames must have the same length'') [])) (\<lambda>c1.
          cl_upd c1 (EvRemove1 env fuel (cl_Mach c1) e ssC_Start [])))"

datatype hello_end = HelloOk | HelloFailed | HelloExpired

text \<open>Saying hello, up to \<open>ConnRetries\<close> times.\<close>

fun hello_loop :: "Env \<Rightarrow> nat \<Rightarrow> (nat \<Rightarrow> attempt) \<Rightarrow> nat \<Rightarrow> nat \<Rightarrow> int \<Rightarrow> Client \<Rightarrow> (hello_end \<times> Client) res" where
  "hello_loop env fuel net i 0 delay c = Inr (HelloFailed, c)"
| "hello_loop env fuel net i (Suc n) delay c =
     bindR (client_call env fuel c ''Hello'' (net i)) (\<lambda>(ok, c1).
       if ok then Inr (HelloOk, c1)
       else if at_waitExpired (net i) then Inr (HelloExpired, c1)
       else hello_loop env fuel net (Suc i) n (next_delay (cl_CallRetryBackoff c1) delay) c1)"

text \<open>\<open>HandshakingState\<close>, given the server's hello and the outcomes of the calls. The result is the time
  passed to \<open>HandshakeDone\<close>, whose handler reads it.\<close>

definition HandshakingState ::
  "Env \<Rightarrow> nat \<Rightarrow> bool \<Rightarrow> Client \<Rightarrow> Event option \<Rightarrow> (nat \<Rightarrow> attempt) \<Rightarrow> MsgSrvHello \<Rightarrow> attempt
     \<Rightarrow> ((Time \<times> uint64) option \<times> Client) res" where
  "HandshakingState env fuel noSchema c e net resp confirm =
     bindR (hello_loop env fuel net 0 (cl_ConnRetries c) (cl_CallRetryDelay c) c) (\<lambda>(fin, c1).
       case fin of
         HelloExpired \<Rightarrow> Inr (None, c1)
       | HelloFailed \<Rightarrow> bindR (cl_upd c1 (EvAdd1 env fuel (cl_Mach c1) e ssC_RetryingConn [])) (\<lambda>c2. Inr (None, c2))
       | HelloOk \<Rightarrow> bindR (hello_done env fuel noSchema c1 resp) (\<lambda>(done, c2).
           if done = None then Inr (None, c2)
           else bindR (client_call env fuel c2 ''Handshake'' confirm) (\<lambda>(ok, c3).
             if ok then bindR (cl_upd c3 (EvAdd1 env fuel (cl_Mach c3) e ssC_HandshakeDone [])) (\<lambda>c4. Inr (done, c4))
             else bindR (cl_upd c3 (EvAdd1 env fuel (cl_Mach c3) e ssC_RetryingConn [])) (\<lambda>c4. Inr (None, c4)))))"

section \<open>Reconnecting\<close>

text \<open>The loop of \<open>RetryingConnState\<close>. In round \<open>i\<close> the state context may expire during the wait, after the
  attempt to connect or while waiting for its end; \<open>connect\<close> is what the attempt makes of the client's machine.\<close>

record round =
  ro_waitExpired :: bool
  ro_connect :: "Machine \<Rightarrow> Machine"
  ro_expired :: bool
  ro_elapsed :: int

fun reconnect_loop ::
  "Env \<Rightarrow> nat \<Rightarrow> Event option \<Rightarrow> (nat \<Rightarrow> round) \<Rightarrow> nat \<Rightarrow> nat \<Rightarrow> int \<Rightarrow> Client \<Rightarrow> (bool \<times> Client) res" where
  "reconnect_loop env fuel e net i 0 delay c = Inr (True, c)"
| "reconnect_loop env fuel e net i (Suc n) delay c =
     (if cl_connRetryRound c \<ge> cl_ConnRetries c then Inr (True, c)
      else let c1 = c\<lparr>cl_connRetryRound := cl_connRetryRound c + 1\<rparr> in
        if ro_waitExpired (net i) then Inr (False, c1)
        else let c2 = c1\<lparr>cl_Mach := ro_connect (net i) (cl_Mach c1)\<rparr> in
          if ro_expired (net i) then Inr (False, c2)
          else bindR (cl_upd c2 (EvRemove1 env fuel (cl_Mach c2) e StateException [])) (\<lambda>c3.
            if cl_ConnRetryTimeout c3 > 0 \<and> ro_elapsed (net i) > cl_ConnRetryTimeout c3 then Inr (True, c3)
            else reconnect_loop env fuel e net (Suc i) n (next_delay (cl_ConnRetryBackoff c3) delay) c3))"

definition RetryingConnState :: "Env \<Rightarrow> nat \<Rightarrow> Client \<Rightarrow> Event option \<Rightarrow> (nat \<Rightarrow> round) \<Rightarrow> Client res" where
  "RetryingConnState env fuel c e net =
     bindR (reconnect_loop env fuel e net 0 (cl_ConnRetries c) (cl_ConnRetryDelay c) c) (\<lambda>(failed, c1).
       if \<not> failed then Inr c1
       else bindR (cl_upd c1 (EvRemove1 env fuel (cl_Mach c1) e ssC_RetryingConn [])) (\<lambda>c2.
         cl_upd c2 (EvAdd1 env fuel (cl_Mach c2) e ssC_ConnRetryFailed [])))"

end
