(* ===== verification/Am_Netmach_Facts.thy ===== *)
theory Am_Netmach_Facts
  imports Am_Rpc_Client
begin

text \<open>
  What a clock update does to a network machine: the fields it leaves alone, when it returns, the time, clock and
  active states it installs. A required state that the update does not mention is shown as active with the states
  that require it.
\<close>

section \<open>What a clock update leaves alone\<close>

definition nm_kept :: "NetworkMachine \<Rightarrow> NetworkMachine \<Rightarrow> bool" where
  "nm_kept m m' = (\<exists>sb cl ca. m' = m\<lparr>nm_subs := sb, nm_closed := cl, nm_canceled := ca\<rparr>)"

lemma nm_kept_refl [simp]: "nm_kept m m"
proof -
  have "m = m\<lparr>nm_subs := nm_subs m, nm_closed := nm_closed m, nm_canceled := nm_canceled m\<rparr>" by simp
  then show ?thesis unfolding nm_kept_def by blast
qed

lemma nm_kept_trans: "nm_kept m m' \<Longrightarrow> nm_kept m' m'' \<Longrightarrow> nm_kept m m''"
  unfolding nm_kept_def by force

lemma nm_kept_upds:
  "nm_kept m (m\<lparr>nm_closed := cl\<rparr>)" "nm_kept m (m\<lparr>nm_subs := sb, nm_canceled := ca\<rparr>)"
proof -
  have "m\<lparr>nm_closed := cl\<rparr> = m\<lparr>nm_subs := nm_subs m, nm_closed := cl, nm_canceled := nm_canceled m\<rparr>"
    "m\<lparr>nm_subs := sb, nm_canceled := ca\<rparr> = m\<lparr>nm_subs := sb, nm_closed := nm_closed m, nm_canceled := ca\<rparr>" by simp_all
  then show "nm_kept m (m\<lparr>nm_closed := cl\<rparr>)" "nm_kept m (m\<lparr>nm_subs := sb, nm_canceled := ca\<rparr>)"
    unfolding nm_kept_def by blast+
qed

lemma close_all_kept: "close_all chs m = Inr m' \<Longrightarrow> nm_kept m m'"
proof (induction chs arbitrary: m)
  case (Cons ch chs)
  then have "nm_kept (m\<lparr>nm_closed := nm_closed m @ [ch]\<rparr>) m'" by (simp split: if_splits)
  then show ?case using nm_kept_trans nm_kept_upds(1) by blast
qed simp

lemma nm_processSubscriptions_kept:
  "nm_processSubscriptions env m act deact before = Inr m' \<Longrightarrow> nm_kept m m'"
  unfolding nm_processSubscriptions_def Let_def
  by (auto simp: bindR_eq_Inr split: prod.splits dest!: close_all_kept intro: nm_kept_trans [OF nm_kept_upds(2)])


section \<open>Active states and clock of a time\<close>

lemma active_of_eq:
  "length names \<le> length t \<Longrightarrow> active_of names t = Inr (map fst (filter (\<lambda>(s, v). IsActiveTick v) (zip names t)))"
proof (induction names t rule: active_of.induct)
qed auto

lemma active_of_some: "active_of names t = Inr act \<Longrightarrow> length names \<le> length t"
  by (induction names t arbitrary: act rule: active_of.induct) (auto simp: bindR_eq_Inr)

lemma clock_of_eq:
  "length t \<le> length names \<Longrightarrow> clock_of names t clock = Inr (foldl (\<lambda>c (s, v). gput s v c) clock (zip names t))"
  by (induction names t clock rule: clock_of.induct) auto

lemma clock_of_some: "clock_of names t clock = Inr c \<Longrightarrow> length t \<le> length names"
  by (induction names t clock arbitrary: c rule: clock_of.induct) auto

lemma foldl_gput_other: "s \<notin> set (map fst kvs) \<Longrightarrow> ggetd d (foldl (\<lambda>c (s, v). gput s v c) clock kvs) s = ggetd d clock s"
  by (induction kvs arbitrary: clock) auto

lemma foldl_gput_nth:
  "distinct (map fst kvs) \<Longrightarrow> i < length kvs \<Longrightarrow>
   ggetd d (foldl (\<lambda>c (s, v). gput s v c) clock kvs) (fst (kvs ! i)) = snd (kvs ! i)"
proof (induction kvs arbitrary: clock i)
  case (Cons kv kvs)
  then show ?case by (cases i) (auto simp: foldl_gput_other split: prod.splits)
qed simp

section \<open>Required states\<close>

text \<open>\<open>activateRequired\<close> computes the closure of the active states under \<open>Require\<close>.\<close>

definition requires :: "Schema \<Rightarrow> (string \<times> string) set" where
  "requires schema = {(a, b). ghas schema a \<and> b \<in> set (sl (Require (Schema_Get schema a)))}"

definition visit_inv :: "Schema \<Rightarrow> (bool \<times> string) list \<Rightarrow> S \<Rightarrow> string list \<Rightarrow> bool" where
  "visit_inv schema todo ret visited =
     ((\<forall>x\<in>set ret. x \<in> set visited \<or> x \<in> snd ` set todo)
      \<and> (\<forall>v\<in>set visited. \<forall>b. (v, b) \<in> requires schema \<longrightarrow> b \<in> set ret \<or> (True, b) \<in> set todo))"

lemma visit_required_prefix: "\<exists>ys. fst (visit_required schema todo acc) = fst acc @ ys"
proof (induction schema todo acc rule: visit_required.induct)
  case (2 schema required node todo ret visited)
  then show ?case by (auto simp: Let_def split: if_splits)
qed simp

lemma visit_required_sound:
  "set (fst (visit_required schema todo (ret, visited))) \<subseteq> set ret \<union> (requires schema)\<^sup>* `` (snd ` set todo)"
proof (induction schema todo "(ret, visited)" arbitrary: ret visited rule: visit_required.induct)
  case (2 schema required node todo ret visited)
  let ?R = "(requires schema)\<^sup>*"
  let ?new = "map (Pair True) (sl (Require (Schema_Get schema node)))"
  let ?ret = "if required then ret @ [node] else ret"
  have step: "?R `` (snd ` set ?new) \<subseteq> ?R `` {node}" if "ghas schema node"
    using that by (auto simp: requires_def intro: converse_rtrancl_into_rtrancl)
  consider "node \<in> set visited" | "node \<notin> set visited" "\<not> ghas schema node" | "node \<notin> set visited" "ghas schema node"
    by blast
  then show ?case
  proof cases
    case 3
    have "snd ` set (?new @ todo) = snd ` set ?new \<union> snd ` set todo" by (simp only: set_append image_Un)
    then have "?R `` (snd ` set (?new @ todo)) \<subseteq> ?R `` insert node (snd ` set todo)"
      using step [OF 3(2)] by blast
    moreover have "set ?ret \<subseteq> set ret \<union> ?R `` insert node (snd ` set todo)" by auto
    moreover have "set (fst (visit_required schema (?new @ todo) (?ret, node # visited)))
        \<subseteq> set ?ret \<union> ?R `` (snd ` set (?new @ todo))" using "2.hyps"(3) [OF refl 3(1)] 3(2) by blast
    ultimately have "set (fst (visit_required schema (?new @ todo) (?ret, node # visited)))
        \<subseteq> set ret \<union> ?R `` insert node (snd ` set todo)"
      by (meson Un_least Un_upper2 order_trans)
    moreover have "visit_required schema ((required, node) # todo) (ret, visited)
        = visit_required schema (?new @ todo) (?ret, node # visited)" using 3 by (simp add: Let_def)
    moreover have "snd ` set ((required, node) # todo) = insert node (snd ` set todo)" by simp
    ultimately show ?thesis by (simp only:)
  qed (use "2.hyps"(1,2) in \<open>auto simp: Let_def split: if_splits\<close>)
qed simp

lemma visit_required_closed:
  "visit_inv schema todo ret visited \<Longrightarrow> requires schema `` set (fst (visit_required schema todo (ret, visited)))
     \<subseteq> set (fst (visit_required schema todo (ret, visited)))"
proof (induction schema todo "(ret, visited)" arbitrary: ret visited rule: visit_required.induct)
  case (2 schema required node todo ret visited)
  let ?new = "map (Pair True) (sl (Require (Schema_Get schema node)))"
  let ?ret = "if required then ret @ [node] else ret"
  note inv = "2.prems" [unfolded visit_inv_def]
  consider "node \<in> set visited" | "node \<notin> set visited" "\<not> ghas schema node" | "node \<notin> set visited" "ghas schema node"
    by blast
  then show ?case
  proof cases
    case 1
    then have "visit_inv schema todo ?ret visited" using inv by (auto simp: visit_inv_def)
    with "2.hyps"(1) [OF refl 1] 1 show ?thesis by (simp add: Let_def)
  next
    case 2
    then have "visit_inv schema todo ?ret (node # visited)" using inv by (auto simp: visit_inv_def requires_def)
    with "2.hyps"(2) [OF refl 2(1)] 2 show ?thesis by (simp add: Let_def)
  next
    case 3
    then have "visit_inv schema (?new @ todo) ?ret (node # visited)"
      using inv by (auto simp: visit_inv_def requires_def)
    with "2.hyps"(3) [OF refl 3(1)] 3 show ?thesis by (simp add: Let_def)
  qed
qed (auto simp: visit_inv_def)


lemma activateRequired_closure:
  "set (activateRequired m active) =
     (case nm_schema m of None \<Rightarrow> set active | Some schema \<Rightarrow> (requires schema)\<^sup>* `` set active)"
proof (cases "nm_schema m")
  case (Some schema)
  let ?todo = "map (Pair False) active"
  let ?V = "set (fst (visit_required schema ?todo (active, [])))"
  have img: "snd ` set ?todo = set active" by (simp add: image_image)
  have "?V \<subseteq> set active \<union> (requires schema)\<^sup>* `` set active"
    using visit_required_sound [of schema ?todo active "[]"] unfolding img .
  then have "?V \<subseteq> (requires schema)\<^sup>* `` set active" by blast
  moreover have "set active \<subseteq> ?V"
    using visit_required_prefix [of schema ?todo "(active, [])"] by auto
  moreover have "requires schema `` ?V \<subseteq> ?V"
    by (rule visit_required_closed) (auto simp: visit_inv_def image_image)
  then have "(requires schema)\<^sup>* `` ?V \<subseteq> ?V" by (metis Image_closed_trancl order_refl)
  ultimately have "?V = (requires schema)\<^sup>* `` set active" by blast
  with Some show ?thesis by (simp add: activateRequired_def)
qed (simp add: activateRequired_def)

text \<open>Nobody waits.\<close>

definition no_waiters :: "Subscriptions \<Rightarrow> bool" where
  "no_waiters sm =
     (sm_stateCtx sm = [] \<and> sm_when sm = [] \<and> sm_whenCtx sm = [] \<and> sm_whenTime sm = [] \<and> sm_whenTimeCtx sm = []
      \<and> sm_whenTimeSum sm = [] \<and> sm_whenTimeSumCtx sm = [] \<and> sm_whenQuery sm = [] \<and> sm_whenQueryCtx sm = []
      \<and> sm_whenQueue sm = [])"

lemma ggetd_Nil [simp]: "ggetd d [] k = d" "gget [] k = None"
  by (simp_all add: ggetd_gget gget_def)

lemma collect_ctx_none: "collect_ctx ss ([], l) = ([], l)"
  by (induction ss) simp_all

lemma processWhen_states_none: "sm_when sm = [] \<Longrightarrow> processWhen_states act ss (sm, l) = (sm, l)"
  by (induction ss) simp_all

lemma processWhenTime_states_none: "sm_whenTime sm = [] \<Longrightarrow> processWhenTime_states ex clock ss (sm, l) = (sm, l)"
  by (induction ss) simp_all

lemma no_waiters_processed:
  assumes "no_waiters (nm_subs m)"
  shows "nm_processSubscriptions env m act deact before = Inr m"
  using assms
  by (simp add: nm_processSubscriptions_def Let_def no_waiters_def ProcessStateCtx_def collect_ctx_none ProcessWhen_def
    processWhenCtx_def processWhen_states_none ProcessWhenTime_def processWhenTimeCtx_def processWhenTime_states_none
    ProcessWhenTimeSum_def processWhenTimeSumCtx_def ProcessWhenQueue_def ProcessWhenQuery_def processWhenQueryCtx_def)


section \<open>The network machine after an update\<close>

lemma nm_queueFlush_kept: "nm_kept m (nm_queueFlush m)"
  unfolding nm_queueFlush_def by (rule nm_kept_upds)

lemma nm_kept_fields:
  assumes "nm_kept m m'"
  shows "nm_machTime m' = nm_machTime m" "nm_machClock m' = nm_machClock m" "nm_machTick m' = nm_machTick m"
    "nm_queueTick m' = nm_queueTick m" "nm_stateNames m' = nm_stateNames m" "nm_activeStates m' = nm_activeStates m"
    "nm_schema m' = nm_schema m" "nm_conn m' = nm_conn m" "nm_disposed m' = nm_disposed m"
    "nm_filterMutations m' = nm_filterMutations m"
  using assms unfolding nm_kept_def by auto

lemma nm_processHandlers_fields [simp]:
  "nm_machTime (nm_processHandlers m a d) = nm_machTime m" "nm_machClock (nm_processHandlers m a d) = nm_machClock m"
  "nm_machTick (nm_processHandlers m a d) = nm_machTick m" "nm_queueTick (nm_processHandlers m a d) = nm_queueTick m"
  "nm_stateNames (nm_processHandlers m a d) = nm_stateNames m" "nm_activeStates (nm_processHandlers m a d) = nm_activeStates m"
  "nm_schema (nm_processHandlers m a d) = nm_schema m" "nm_conn (nm_processHandlers m a d) = nm_conn m"
  "nm_disposed (nm_processHandlers m a d) = nm_disposed m" "nm_subs (nm_processHandlers m a d) = nm_subs m"
  "nm_filterMutations (nm_processHandlers m a d) = nm_filterMutations m"
  by (simp_all add: nm_processHandlers_def)

lemma updateClock_fields:
  assumes "updateClock env m now q k = Inr m'"
  shows "nm_machTime m' = now" "nm_queueTick m' = q" "nm_machTick m' = k" "nm_stateNames m' = nm_stateNames m"
    "nm_schema m' = nm_schema m" "nm_conn m' = nm_conn m" "nm_disposed m' = nm_disposed m"
    "nm_filterMutations m' = nm_filterMutations m" "length now = length (nm_stateNames m)"
    "nm_activeStates m' = activateRequired m (map fst (filter (\<lambda>(s, v). IsActiveTick v) (zip (nm_stateNames m) now)))"
    "nm_machClock m' = foldl (\<lambda>c (s, v). gput s v c) (nm_machClock m) (zip (nm_stateNames m) now)"
proof -
  obtain act clock where a: "active_of (nm_stateNames m) now = Inr act"
    and c: "clock_of (nm_stateNames m) now (nm_machClock m) = Inr clock"
    using assms by (auto simp: updateClock_def Let_def bindR_eq_Inr)
  define m1 where "m1 = m\<lparr>nm_machTime := now, nm_machClock := clock, nm_machTick := k\<rparr>"
  define m2 where "m2 = (if nm_queueTick m1 > q then nm_queueFlush m1 else m1)"
  define m3 where "m3 = m2\<lparr>nm_queueTick := q, nm_activeStates := activateRequired m act\<rparr>"
  have "nm_kept m1 m2" using nm_queueFlush_kept by (simp add: m2_def)
  note kept2 = nm_kept_fields [OF this]
  let ?ac = "StatesDiff (activateRequired m act) (nm_ActiveStates m None)"
  let ?de = "StatesDiff (nm_ActiveStates m None) (activateRequired m act)"
  have "nm_processSubscriptions env (nm_processHandlers m3 ?ac ?de) ?ac ?de (nm_machClock m) = Inr m'"
    using assms a c unfolding updateClock_def m3_def m2_def m1_def by (simp add: Let_def)
  note kept3 = nm_kept_fields [OF nm_processSubscriptions_kept [OF this]]
  show len: "length now = length (nm_stateNames m)"
    using active_of_some [OF a] clock_of_some [OF c] by simp
  show "nm_machTime m' = now" "nm_queueTick m' = q" "nm_machTick m' = k" "nm_stateNames m' = nm_stateNames m"
    "nm_schema m' = nm_schema m" "nm_conn m' = nm_conn m" "nm_disposed m' = nm_disposed m"
    "nm_filterMutations m' = nm_filterMutations m"
    using kept3 kept2 by (simp_all add: m3_def m1_def)
  show "nm_activeStates m' = activateRequired m (map fst (filter (\<lambda>(s, v). IsActiveTick v) (zip (nm_stateNames m) now)))"
    using kept3 a active_of_eq [of "nm_stateNames m" now] len by (simp add: m3_def)
  show "nm_machClock m' = foldl (\<lambda>c (s, v). gput s v c) (nm_machClock m) (zip (nm_stateNames m) now)"
    using kept3 kept2 c clock_of_eq [of now "nm_stateNames m"] len by (simp add: m3_def m1_def)
qed

lemma updateClock_returns:
  assumes "length now = length (nm_stateNames m)" "no_waiters (nm_subs m)"
  shows "\<exists>m'. updateClock env m now q k = Inr m' \<and> nm_subs m' = nm_subs m"
  using assms active_of_eq [of "nm_stateNames m" now] clock_of_eq [of now "nm_stateNames m"]
  by (simp add: updateClock_def Let_def no_waiters_processed nm_queueFlush_def)


text \<open>The states of odd tick and all they require.\<close>

definition shown_active :: "Schema option \<Rightarrow> S \<Rightarrow> Time \<Rightarrow> string set" where
  "shown_active schema names t =
     (let odd_ticks = {names ! i | i. i < length names \<and> IsActiveTick (t ! i)} in
      case schema of None \<Rightarrow> odd_ticks | Some sch \<Rightarrow> (requires sch)\<^sup>* `` odd_ticks)"

lemma odd_ticks_set:
  "length t = length names \<Longrightarrow>
   set (map fst (filter (\<lambda>(s, v). IsActiveTick v) (zip names t))) = {names ! i | i. i < length names \<and> IsActiveTick (t ! i)}"
  by (auto simp: set_zip image_iff) blast

text \<open>C22. Installing a new time in a network machine that nobody waits on always returns. The machine then holds
  the time and the ticks it was given, its clock agrees with the time state by state, and its active states are
  exactly the states of odd tick and, when the schema is known, all they require.\<close>

theorem updateClock_installs:
  assumes "length now = length (nm_stateNames m)" "distinct (nm_stateNames m)" "no_waiters (nm_subs m)"
  shows "\<exists>m'. updateClock env m now q k = Inr m' \<and> nm_machTime m' = now \<and> nm_queueTick m' = q \<and> nm_machTick m' = k
    \<and> (\<forall>i. i < length now \<longrightarrow> nm_Tick m' (nm_stateNames m ! i) = Inr (now ! i))
    \<and> set (nm_ActiveStates m' None) = shown_active (nm_schema m) (nm_stateNames m) now"
proof -
  obtain m' where u: "updateClock env m now q k = Inr m'" using updateClock_returns [OF assms(1,3)] by blast
  note f = updateClock_fields [OF u]
  have "nm_Tick m' (nm_stateNames m ! i) = Inr (now ! i)" if "i < length now" for i
  proof -
    have "distinct (map fst (zip (nm_stateNames m) now))" using assms(1,2) by simp
    from foldl_gput_nth [OF this, of i 0 "nm_machClock m"] that assms(1)
    show ?thesis by (simp add: nm_Tick_def nm_MustParseStates_def f)
  qed
  moreover have "set (nm_ActiveStates m' None) = shown_active (nm_schema m) (nm_stateNames m) now"
    using odd_ticks_set [OF assms(1)]
    by (simp add: nm_ActiveStates_def f activateRequired_closure shown_active_def Let_def split: option.splits)
  ultimately show ?thesis using u f by blast
qed

end
