(* ===== verification/Am_Rpc_Source.thy ===== *)
theory Am_Rpc_Source
  imports Am_Rpc_Client Am_Behaviour
begin

text \<open>
  The source behind an RPC server. The locale \<open>state_source\<close> is what the server relies on when it calls a mutation
  for a client: the observed transitions describe the machine that results. It is interpreted on \<open>src_Add\<close>,
  \<open>src_Remove\<close> and \<open>src_Set\<close>.
\<close>

section \<open>What a source shows of its transitions\<close>

text \<open>The last transition of a call leaves the source with the time that was observed at its end; a call without
  transitions leaves the time alone. Names and machine tick are constant.\<close>

definition trace_ok :: "Machine \<Rightarrow> tx_obs list \<Rightarrow> Machine \<Rightarrow> bool" where
  "trace_ok m txs m' =
     (m_stateNames m' = m_stateNames m \<and> m_machineTick m' = m_machineTick m \<and> m_disposed m' = m_disposed m
      \<and> mach_time m' None = (if txs = [] then mach_time m None else to_Time (last txs))
      \<and> list_all (\<lambda>obs. to_StateNames obs = m_stateNames m \<and> to_MachTick obs = m_machineTick m
           \<and> length (to_Time obs) = length (mach_time m None)) txs)"

lemma mach_time_same:
  "m_clock m' = m_clock m \<Longrightarrow> m_stateNames m' = m_stateNames m \<Longrightarrow> m_disposed m' = m_disposed m
   \<Longrightarrow> mach_time m' states = mach_time m states"
  by (simp add: mach_time_def cong: option.case_cong)

lemma length_mach_time:
  "m_stateNames m' = m_stateNames m \<Longrightarrow> m_disposed m' = m_disposed m
   \<Longrightarrow> length (mach_time m' None) = length (mach_time m None)"
  by (simp add: mach_time_def)

lemma trace_ok_trans:
  assumes "trace_ok m t1 m'" "trace_ok m' t2 m''"
  shows "trace_ok m (t1 @ t2) m''"
proof -
  have "length (mach_time m' None) = length (mach_time m None)"
    using assms(1) by (intro length_mach_time) (simp_all add: trace_ok_def)
  moreover have "m_stateNames m'' = m_stateNames m" "m_machineTick m'' = m_machineTick m" "m_disposed m'' = m_disposed m"
    using assms by (simp_all add: trace_ok_def)
  moreover have "mach_time m'' None = (if t1 @ t2 = [] then mach_time m None else to_Time (last (t1 @ t2)))"
    using assms unfolding trace_ok_def by (metis append_is_Nil_conv append.right_neutral last_appendR)
  ultimately show ?thesis using assms unfolding trace_ok_def list_all_append by simp
qed

lemma trace_ok_silent:
  "m_clock m' = m_clock m \<Longrightarrow> m_stateNames m' = m_stateNames m \<Longrightarrow> m_disposed m' = m_disposed m
   \<Longrightarrow> m_machineTick m' = m_machineTick m \<Longrightarrow> trace_ok m [] m'"
  using mach_time_same [of m' m] by (simp add: trace_ok_def)

lemma only_queued_silent: "only_queued m m' \<Longrightarrow> trace_ok m [] m'"
  using same_config_only_queued [of m m'] only_queued_fields(5) [of m m']
  by (intro trace_ok_silent) (simp_all add: same_config_def)

lemma run_mutation_trace:
  assumes "run_mutation env mut m = Inr (r, m')"
  shows "trace_ok m (if ctx_expired (en_expired env) (mu_ctx mut) \<or> mu_Type mut = mutationEval then []
      else [observe m' mut]) m'"
proof -
  have conf: "same_config m m'" using config.mutation [OF assms] .
  show ?thesis
  proof (cases "ctx_expired (en_expired env) (mu_ctx mut)")
    case True
    then show ?thesis using assms by (simp add: run_mutation_def trace_ok_silent)
  next
    case False
    from assms show ?thesis
    proof (cases rule: run_mutation_cases)
      case (eval f)
      then show ?thesis using nested_calls_only_queued only_queued_silent by simp
    next
      case (tx m1 r m2 m3)
      have "length (mach_time m' None) = length (mach_time m None)"
        using conf by (intro length_mach_time) (simp_all add: same_config_def)
      then show ?thesis
        using conf False tx(6) by (simp add: trace_ok_def observe_def same_config_def)
    qed (use False in simp)
  qed
qed

lemma queue_loop_trace:
  "queue_loop env fuel ret m = Inr (x, m') \<Longrightarrow> trace_ok m (queue_trace env fuel m) m'"
proof (induction fuel arbitrary: ret m)
  case 0
  then show ?case by (simp add: trace_ok_silent split: if_splits)
next
  case (Suc fuel)
  let ?m1 = "m\<lparr>m_queueRunning := True\<rparr>"
  show ?case
  proof (cases "m_queueLen m = 0 \<or> m_disposing m \<or> m_queue m = []")
    case True
    with Suc.prems show ?thesis by (auto simp: trace_ok_silent Let_def split: if_splits list.splits)
  next
    case False
    then obtain mut rest where q: "m_queue m = mut # rest" by (cases "m_queue m") auto
    obtain res m2 where r: "run_mutation env mut (shift_queue ?m1 mut rest) = Inr (res, m2)"
      using Suc.prems False q by (cases "run_mutation env mut (shift_queue ?m1 mut rest)") (auto simp: Let_def)
    obtain ret' where "queue_loop env fuel ret' m2 = Inr (x, m')"
      using Suc.prems False q r by (cases res) (auto simp: Let_def)
    note tail = Suc.IH [OF this]
    have "trace_ok m [] (shift_queue ?m1 mut rest)"
      by (rule trace_ok_silent) (simp_all add: shift_queue_def Let_def)
    from trace_ok_trans [OF this trace_ok_trans [OF run_mutation_trace [OF r] tail]]
    show ?thesis using False q r by simp
  qed
qed

lemma src_run_trace:
  assumes "src_run env fuel p = Inr ((r, txs), m')" "\<And>x m1. p = Inr (x, m1) \<Longrightarrow> only_queued m m1"
  shows "trace_ok m txs m'"
proof -
  obtain x m1 where p: "p = Inr (x, m1)" using assms(1) by (auto simp: src_run_def split: sum.splits)
  have start: "trace_ok m [] m1" using assms(2) [OF p] by (rule only_queued_silent)
  show ?thesis
  proof (cases x)
    case (Inl r')
    then show ?thesis using start p assms(1) by (simp add: src_run_def)
  next
    case (Inr tick)
    then obtain res where pq: "processQueue env fuel m1 = Inr (res, m')"
      and txs: "txs = (if processQueue_busy m1 \<noteq> None then []
          else queue_trace env fuel (m1\<lparr>m_queueProcessing := True, m_queueRunning := False\<rparr>))"
      using p assms(1) by (auto simp: src_run_def split: sum.splits)
    show ?thesis
    proof (cases "processQueue_busy m1")
      case None
      let ?m1 = "m1\<lparr>m_queueProcessing := True, m_queueRunning := False\<rparr>"
      obtain y m2 where l: "queue_loop env fuel [] ?m1 = Inr (y, m2)"
        using pq None by (auto simp: processQueue_def split: sum.splits)
      have s1: "trace_ok m1 [] ?m1" by (rule trace_ok_silent) simp_all
      have "trace_ok m2 [] m'"
        using pq None l
        by (cases y) (auto simp: processQueue_def queue_end_def Let_def ProcessWhenQueueEnds_def close_chans_def intro!: trace_ok_silent)
      from trace_ok_trans [OF start trace_ok_trans [OF s1 trace_ok_trans [OF queue_loop_trace [OF l] this]]]
      show ?thesis using txs None by simp
    next
      case (Some r'')
      then show ?thesis using start pq txs by (simp add: processQueue_def)
    qed
  qed
qed

section \<open>The contract of a state source\<close>

locale state_source =
  fixes meth :: src_method
  assumes observed: "meth m states args ev = Inr ((r, txs), m') \<Longrightarrow> trace_ok m txs m'"

interpretation src_add: state_source "src_Add env fuel" for env fuel
  by unfold_locales (auto simp: src_Add_def split: option.splits intro: preps_only_queued elim!: src_run_trace)

interpretation src_remove: state_source "src_Remove env fuel" for env fuel
  by unfold_locales (auto simp: src_Remove_def intro: preps_only_queued elim!: src_run_trace)

interpretation src_set: state_source "src_Set env fuel" for env fuel
  by unfold_locales (auto simp: src_Set_def intro: preps_only_queued elim!: src_run_trace)

end
