(* ===== verification/Am_Rpc_Sync.thy ===== *)
theory Am_Rpc_Sync
  imports Am_Netmach_Facts Am_Rpc_Source
begin

text \<open>
  The synchronisation of a network machine with its source: encoding and decoding of clock updates, mutations called
  by the client, pushes, the handshake. \<open>in_sync\<close> says that the client shows what the server takes as pushed and
  as the source's time.
\<close>

section \<open>A diff of clocks and its application\<close>

text \<open>The positions of the client's time an update may touch.\<close>

definition push_positions :: "bool \<Rightarrow> tracerData \<Rightarrow> nat list" where
  "push_positions syncSchema d =
     (if syncSchema then map nat (td_trackedIdxs d) else [0..<length (td_tracked d)])"

text \<open>What the client holds of a time of the server: with the schema all states, the untracked ones at 0, without
  it the tracked states only.\<close>

definition client_view :: "bool \<Rightarrow> int list \<Rightarrow> Time \<Rightarrow> Time" where
  "client_view syncSchema idxs t = (if syncSchema then zero_untracked idxs t else t)"

definition data_ok :: "bool \<Rightarrow> nat \<Rightarrow> tracerData \<Rightarrow> bool" where
  "data_ok syncSchema n d =
     (int n < 65536 \<and> length (td_trackedIdxs d) = length (td_tracked d)
      \<and> (if syncSchema then distinct (td_trackedIdxs d) \<and> list_all (\<lambda>i. 0 \<le> i \<and> i < int n) (td_trackedIdxs d)
         else length (td_tracked d) = n)
      \<and> (case td_mTime d of
           None \<Rightarrow> False
         | Some now \<Rightarrow> length now = n \<and> td_checksum d
             = Checksum (Time_SumAll (client_view syncSchema (td_trackedIdxs d) now)) (td_queueTick d) (td_machTick d)))"

text \<open>The ticks between two pushes fit their fields of the message.\<close>

definition diff_fits :: "bool \<Rightarrow> tracerData \<Rightarrow> tracerData \<Rightarrow> bool" where
  "diff_fits syncSchema lp d =
     (list_all (\<lambda>p. uint (sl (td_mTime d) ! p - sl (td_mTime lp) ! p) < 2 ^ 32) (push_positions syncSchema d)
      \<and> uint (td_queueTick d - td_queueTick lp) < 2 ^ 16 \<and> uint (td_machTick d - td_machTick lp) < 2 ^ 8)"

lemma at_simps [simp]: "i < length t \<Longrightarrow> at t i = Inr (t ! i)"
  by (simp add: at_def tget_def)

definition diff_at :: "Time \<Rightarrow> Time \<Rightarrow> nat \<Rightarrow> uint16 \<times> uint32" where
  "diff_at prev now p = (of_nat p, ucast (now ! p - prev ! p))"

lemma unat_uint16: "p < 65536 \<Longrightarrow> unat (of_nat p :: uint16) = p"
  by (simp add: unsigned_of_nat take_bit_nat_eq_self)

lemma ucast_back32: "uint (w :: uint64) < 2 ^ 32 \<Longrightarrow> ucast (ucast w :: uint32) = w"
  by (simp add: unsigned_ucast_eq word_uint_eq_iff unsigned_take_bit_eq take_bit_int_eq_self)

lemma ucast_back16: "uint (w :: uint64) < 2 ^ 16 \<Longrightarrow> ucast (ucast w :: uint16) = w"
  by (simp add: unsigned_ucast_eq word_uint_eq_iff unsigned_take_bit_eq take_bit_int_eq_self)

lemma ucast_back8: "uint (w :: uint32) < 2 ^ 8 \<Longrightarrow> ucast (ucast w :: uint8) = w"
  by (simp add: unsigned_ucast_eq word_uint_eq_iff unsigned_take_bit_eq take_bit_int_eq_self)

lemma pushed_idx_nat:
  "syncSchema \<longrightarrow> 0 \<le> idx \<Longrightarrow> pushed_idx syncSchema i idx = of_nat (if syncSchema then nat idx else i)"
  by (simp add: pushed_idx_def)

lemma deep_entry_known:
  fixes syncSchema
  assumes "length prev = n" "length now = n" "i < n" "n < 65536" "syncSchema \<longrightarrow> 0 \<le> idx \<and> idx < int n"
  defines "p \<equiv> if syncSchema then nat idx else i"
  shows "deep_entry syncSchema (Some prev) now i idx =
    Inr (if prev ! p \<noteq> now ! p then Some (diff_at prev now p) else None)"
proof -
  have "p < n" using assms by (auto simp: p_def)
  then have "unat (of_nat p :: uint16) = p" using assms(4) by (simp add: unat_uint16)
  moreover have "pushed_idx syncSchema i idx = of_nat p" using assms(5) by (simp add: pushed_idx_nat p_def)
  ultimately show ?thesis
    using assms(1-3) \<open>p < n\<close> by (simp add: deep_entry_def diff_at_def)
qed

lemma gen_loop_deep:
  assumes "length prev = n" "length now = n" "n < 65536"
    and "syncSchema \<longrightarrow> list_all (\<lambda>i. 0 \<le> i \<and> i < int n) idxs"
    and "length idxs = length tracked" "i + length tracked \<le> n"
  shows "gen_loop (deep_entry syncSchema (Some prev) now) i tracked idxs =
    Inr (map (diff_at prev now) (filter (\<lambda>p. prev ! p \<noteq> now ! p)
      (if syncSchema then map nat idxs else [i..<i + length tracked])))"
  using assms(4-6)
proof (induction tracked arbitrary: i idxs)
  case (Cons name tracked)
  then obtain idx rest where idxs: "idxs = idx # rest" by (cases idxs) auto
  have "[i..<i + length (name # tracked)] = i # [Suc i..<Suc i + length tracked]"
    by (simp add: upt_rec)
  with Cons idxs show ?case
    using deep_entry_known [OF assms(1,2) _ assms(3), of i syncSchema idx] by (simp del: upt_Suc)
qed simp

text \<open>Applying the diffs to a time that agrees with \<open>prev\<close> at their positions.\<close>

lemma apply_update_diffs:
  assumes "length t = n" "n < 65536" "distinct ps" "\<forall>p\<in>set ps. p < n \<and> t ! p = prev ! p"
    and "\<forall>p\<in>set ps. uint (now ! p - prev ! p) < 2 ^ 32"
  shows "apply_update (of_nat n) (map (fst \<circ> diff_at prev now) ps) (map (snd \<circ> diff_at prev now) ps) t =
    Inr (map (\<lambda>i. if i \<in> set ps then now ! i else t ! i) [0..<n])"
  using assms(1,3-5)
proof (induction ps arbitrary: t)
  case Nil
  then show ?case using map_nth [of t] by simp
next
  case (Cons p ps)
  let ?t = "t[p := now ! p]"
  have p: "p < n" "t ! p = prev ! p" "uint (now ! p - prev ! p) < 2 ^ 32" using Cons.prems by auto
  have "\<not> (of_nat n :: uint16) \<le> of_nat p"
    using p(1) assms(2) by (simp add: word_le_nat_alt unat_uint16)
  moreover have "ucast (ucast (now ! p - prev ! p) :: uint32) = now ! p - prev ! p"
    using p(3) by (simp add: ucast_back32)
  moreover have "apply_update (of_nat n) (map (fst \<circ> diff_at prev now) ps) (map (snd \<circ> diff_at prev now) ps) ?t =
    Inr (map (\<lambda>i. if i \<in> set ps then now ! i else ?t ! i) [0..<n])"
    using Cons.prems by (intro Cons.IH) (auto simp: nth_list_update)
  moreover have "map (\<lambda>i. if i \<in> set ps then now ! i else ?t ! i) [0..<n] =
      map (\<lambda>i. if i \<in> set (p # ps) then now ! i else t ! i) [0..<n]"
    using Cons.prems(1) by (auto simp: nth_list_update)
  ultimately show ?case
    using p Cons.prems(1) assms(2) by (simp add: diff_at_def unat_uint16 comp_def)
qed


lemma zero_untracked_alt:
  "zero_untracked idxs t = map (\<lambda>i. if int i \<in> set idxs then t ! i else 0) [0..<length t]"
  unfolding zero_untracked_def
  by (rule nth_equalityI) (auto simp: nth_enumerate_eq slices_Contains_def)

lemma positions_ok:
  assumes "data_ok syncSchema n d"
  shows "distinct (push_positions syncSchema d)" "\<forall>p\<in>set (push_positions syncSchema d). p < n"
    and "length (td_tracked d) \<le> n"
proof -
  show "distinct (push_positions syncSchema d)" "\<forall>p\<in>set (push_positions syncSchema d). p < n"
    using assms
    by (auto simp: push_positions_def data_ok_def distinct_map inj_on_def list_all_iff eq_nat_nat_iff split: if_splits)
  then have "length (push_positions syncSchema d) \<le> n"
    by (metis atLeast0LessThan card_lessThan card_mono distinct_card finite_lessThan lessThan_iff subsetI)
  then show "length (td_tracked d) \<le> n"
    using assms by (simp add: push_positions_def data_ok_def split: if_splits)
qed

text \<open>The position of a tick in the view is pushed, or the tick is 0 for both sides.\<close>

lemma client_view_positions:
  assumes "data_ok syncSchema n d" "length t = n" "length u = n"
  shows "map (\<lambda>i. if i \<in> set (push_positions syncSchema d) then u ! i
           else client_view syncSchema (td_trackedIdxs d) t ! i) [0..<n]
         = client_view syncSchema (td_trackedIdxs d) u"
  using assms
  by (intro nth_equalityI)
    (auto simp: client_view_def zero_untracked_alt push_positions_def data_ok_def list_all_iff image_iff
      split: if_splits intro!: bexI [of _ "int _"])


lemma genDeepUpdate_diffs:
  assumes "td_mTime lp = Some prev" "length prev = n" "data_ok syncSchema n d" "td_mTime d = Some now"
  shows "genDeepUpdate syncSchema d lp
    = Inr (map (diff_at prev now) (filter (\<lambda>p. prev ! p \<noteq> now ! p) (push_positions syncSchema d)))"
proof -
  have n: "n < 65536" "length now = n" using assms(3,4) by (auto simp: data_ok_def)
  show ?thesis
    using gen_loop_deep [OF assms(2) n(2,1), of syncSchema "td_trackedIdxs d" "td_tracked d" 0] assms positions_ok(3) [OF assms(3)]
    by (simp add: genDeepUpdate_def push_positions_def data_ok_def split: if_splits)
qed

text \<open>C9. The update computed for a client from the ticks pushed last, when applied by the client to them, gives
  exactly the ticks of the server, the queue tick and the machine tick, and its checksum fits: with the full list of
  states or with the tracked ones only, as long as the differences fit the widths of the message's fields.\<close>

theorem clock_update_roundtrip:
  assumes lp: "td_mTime lp = Some prev" "length prev = n" and d: "data_ok syncSchema n d" "td_mTime d = Some now"
    and fits: "diff_fits syncSchema lp d"
  shows "\<exists>u. calcUpdate syncSchema d lp False = Inr u
    \<and> clockFromUpdate u (client_view syncSchema (td_trackedIdxs d) prev) (td_queueTick lp) (td_machTick lp)
        = Inr (client_view syncSchema (td_trackedIdxs d) now, td_queueTick d, td_machTick d)
    \<and> up_Checksum u = Checksum (Time_SumAll (client_view syncSchema (td_trackedIdxs d) now)) (td_queueTick d) (td_machTick d)"
proof -
  let ?v = "client_view syncSchema (td_trackedIdxs d)"
  define ps where "ps = filter (\<lambda>p. prev ! p \<noteq> now ! p) (push_positions syncSchema d)"
  have n: "n < 65536" "length now = n" using d by (auto simp: data_ok_def)
  have len: "length (?v prev) = n" using lp(2) by (simp add: client_view_def zero_untracked_alt)
  have "genDeepUpdate syncSchema d lp = Inr (map (diff_at prev now) ps)"
    using genDeepUpdate_diffs [OF lp d] by (simp add: ps_def)
  moreover have "apply_update (of_nat n) (map (fst \<circ> diff_at prev now) ps) (map (snd \<circ> diff_at prev now) ps) (?v prev)
      = Inr (?v now)"
  proof -
    have agree: "\<forall>p\<in>set (push_positions syncSchema d). p < n \<and> ?v prev ! p = prev ! p"
      using positions_ok(2) [OF d(1)] lp(2) d(1)
      by (auto simp: client_view_def zero_untracked_alt push_positions_def data_ok_def list_all_iff)
    then have "\<forall>p\<in>set ps. p < n \<and> ?v prev ! p = prev ! p" by (simp add: ps_def)
    moreover have "\<forall>p\<in>set ps. uint (now ! p - prev ! p) < 2 ^ 32"
      using fits lp(1) d(2) by (auto simp: diff_fits_def list_all_iff ps_def)
    moreover have "map (\<lambda>i. if i \<in> set ps then now ! i else ?v prev ! i) [0..<n] = ?v now"
    proof -
      have "map (\<lambda>i. if i \<in> set ps then now ! i else ?v prev ! i) [0..<n] =
          map (\<lambda>i. if i \<in> set (push_positions syncSchema d) then now ! i else ?v prev ! i) [0..<n]"
        using agree by (auto simp: ps_def)
      then show ?thesis using client_view_positions [OF d(1) lp(2) n(2)] by simp
    qed
    ultimately show ?thesis
      using apply_update_diffs [of "?v prev" n ps prev now] positions_ok(1) [OF d(1)] n(1) lp(2)
      by (simp add: ps_def client_view_def zero_untracked_alt)
  qed
  ultimately show ?thesis
    using lp d fits len
    by (simp add: calcUpdate_def clockFromUpdate_def data_ok_def diff_fits_def ucast_back16 ucast_back8)
qed


section \<open>What the tracer records\<close>

definition tracks :: "sourceTracer \<Rightarrow> S \<Rightarrow> bool" where
  "tracks t names =
     (case st_trackedStates t of
        None \<Rightarrow> False
      | Some tr \<Rightarrow> distinct tr \<and> set tr \<subseteq> set names \<and> st_trackedStateIdxs t = map (slices_Index names) tr)"

lemma tracks_upd [simp]:
  "tracks (t\<lparr>st_dataLatest := d\<rparr>) names = tracks t names" "tracks (t\<lparr>st_active := b\<rparr>) names = tracks t names"
  by (simp_all add: tracks_def cong: option.case_cong)

lemma calcTrackedStates_tracks: "distinct names \<Longrightarrow> tracks (calcTrackedStates s names t) names"
  by (auto simp: tracks_def calcTrackedStates_def Let_def split: option.splits)

text \<open>The time recorded for the client, and the client's view of a time of the source.\<close>

definition tracked_time :: "bool \<Rightarrow> int list \<Rightarrow> Time \<Rightarrow> Time" where
  "tracked_time syncSchema idxs t = (if syncSchema then t else map (\<lambda>i. t ! nat i) idxs)"

definition source_view :: "bool \<Rightarrow> int list \<Rightarrow> Time \<Rightarrow> Time" where
  "source_view syncSchema idxs t = client_view syncSchema idxs (tracked_time syncSchema idxs t)"

lemma tracks_idxs:
  assumes "tracks t names" "distinct names"
  shows "distinct (st_trackedStateIdxs t)" "list_all (\<lambda>i. 0 \<le> i \<and> i < int (length names)) (st_trackedStateIdxs t)"
    "length (st_trackedStateIdxs t) = length (sl (st_trackedStates t))" "length (st_trackedStateIdxs t) \<le> length names"
proof -
  obtain tr where tr: "st_trackedStates t = Some tr" "distinct tr" "set tr \<subseteq> set names"
    "st_trackedStateIdxs t = map (slices_Index names) tr"
    using assms(1) by (auto simp: tracks_def split: option.splits)
  have b: "x \<in> set tr \<Longrightarrow> 0 \<le> slices_Index names x \<and> nat (slices_Index names x) < length names
      \<and> names ! nat (slices_Index names x) = x" for x
    using tr(3) slices_Index_bounds [of x names] by blast
  then have "inj_on (slices_Index names) (set tr)" by (metis inj_onI)
  with tr show "distinct (st_trackedStateIdxs t)" by (simp add: distinct_map)
  show "list_all (\<lambda>i. 0 \<le> i \<and> i < int (length names)) (st_trackedStateIdxs t)"
    using tr(4) b by (auto simp: list_all_iff) (metis zless_nat_conj zless_nat_eq_int_zless nat_int)
  show "length (st_trackedStateIdxs t) = length (sl (st_trackedStates t))" using tr by (simp add: sl_def)
  have "length tr \<le> card (set names)" using tr(2,3) by (metis List.finite_set card_mono distinct_card)
  then show "length (st_trackedStateIdxs t) \<le> length names" using tr(4) card_length [of names] by simp
qed

lemma Time_Filter_in_range:
  "list_all (\<lambda>i. 0 \<le> i \<and> i < int (length t)) idxs \<Longrightarrow> Time_Filter t idxs = Inr (map (\<lambda>i. t ! nat i) idxs)"
  unfolding Time_Filter_def by (induction idxs) (auto simp: tget_def)

lemma Time_SumAll_sum_list: "Time_SumAll t = sum_list t"
proof -
  have "foldl (+) a t = a + sum_list t" for a :: uint64
    by (induction t arbitrary: a) (simp_all add: add.assoc)
  then show ?thesis by (simp add: Time_SumAll_def)
qed

lemma sum_zero_untracked:
  assumes "distinct idxs" "list_all (\<lambda>i. 0 \<le> i \<and> i < int (length t)) idxs"
  shows "Time_SumAll (zero_untracked idxs t) = Time_SumAll (map (\<lambda>i. t ! nat i) idxs)"
proof -
  have "sum_list (map (\<lambda>i. if int i \<in> set idxs then t ! i else 0) [0..<length t])
      = (\<Sum>i\<in>{i. i < length t \<and> int i \<in> set idxs}. t ! i)"
    by (simp add: interv_sum_list_conv_sum_set_nat sum.inter_filter [symmetric] lessThan_def)
  also have "{i. i < length t \<and> int i \<in> set idxs} = nat ` set idxs"
    using assms(2) by (auto simp: list_all_iff image_iff nat_less_iff intro!: bexI [of _ "int _"])
  also have "(\<Sum>i\<in>nat ` set idxs. t ! i) = (\<Sum>i\<in>set idxs. t ! nat i)"
    using assms(2) by (intro sum.reindex_cong) (auto simp: inj_on_def list_all_iff eq_nat_nat_iff)
  also have "\<dots> = sum_list (map (\<lambda>i. t ! nat i) idxs)"
    using assms(1) by (simp add: sum_list_distinct_conv_sum_set)
  finally show ?thesis by (simp add: Time_SumAll_sum_list zero_untracked_alt)
qed


text \<open>The data of an observed transition.\<close>

definition obs_data :: "bool \<Rightarrow> sourceTracer \<Rightarrow> tx_obs \<Rightarrow> tracerData" where
  "obs_data syncSchema t obs =
     (let v = source_view syncSchema (st_trackedStateIdxs t) (to_Time obs) in
      \<lparr>td_mTrackedTimeSum = Time_SumAll v,
       td_mTime = Some (tracked_time syncSchema (st_trackedStateIdxs t) (to_Time obs)),
       td_queueTick = to_QueueTick obs, td_machTick = to_MachTick obs,
       td_checksum = Checksum (Time_SumAll v) (to_QueueTick obs) (to_MachTick obs),
       td_tracked = sl (st_trackedStates t), td_trackedIdxs = st_trackedStateIdxs t\<rparr>)"

definition obs_ok :: "S \<Rightarrow> tx_obs \<Rightarrow> bool" where
  "obs_ok names obs = (to_StateNames obs = names \<and> length (to_Time obs) = length names)"

lemma tracer_data_obs:
  assumes "tracks t names" "distinct names" "obs_ok names obs" "\<not> sv_syncShallowClocks s"
  shows "tracer_data s t obs = Inr (obs_data (sv_syncSchema s) t obs)"
proof -
  have f: "Time_Filter (to_Time obs) (st_trackedStateIdxs t) = Inr (map (\<lambda>i. to_Time obs ! nat i) (st_trackedStateIdxs t))"
    using tracks_idxs(2) [OF assms(1,2)] assms(3) by (intro Time_Filter_in_range) (simp add: obs_ok_def)
  have "sv_syncSchema s \<Longrightarrow> Time_SumAll (zero_untracked (st_trackedStateIdxs t) (to_Time obs))
      = Time_SumAll (map (\<lambda>i. to_Time obs ! nat i) (st_trackedStateIdxs t))"
    using tracks_idxs(1,2) [OF assms(1,2)] assms(3) by (intro sum_zero_untracked) (simp_all add: obs_ok_def)
  then show ?thesis
    using assms(4) f
    by (simp add: tracer_data_def obs_data_def source_view_def client_view_def tracked_time_def Let_def)
qed

lemma obs_data_ok:
  assumes "tracks t names" "distinct names" "obs_ok names obs" "length names < 65536"
  shows "data_ok syncSchema (length (tracked_time syncSchema (st_trackedStateIdxs t) (to_Time obs))) (obs_data syncSchema t obs)"
  using tracks_idxs [OF assms(1,2)] assms(3,4)
  by (simp add: data_ok_def obs_data_def Let_def source_view_def tracked_time_def obs_ok_def)

lemma TransitionEnds_latest:
  assumes "st_active (sv_tracer s)" "tracks (sv_tracer s) names" "distinct names" "\<not> sv_syncShallowClocks s"
    and "\<not> sv_syncMutations s" "list_all (obs_ok names) txs"
  shows "TransitionEnds s txs = Inr (s\<lparr>sv_tracer := (sv_tracer s)\<lparr>st_dataLatest :=
    (if txs = [] then st_dataLatest (sv_tracer s) else Some (obs_data (sv_syncSchema s) (sv_tracer s) (last txs)))\<rparr>\<rparr>)"
  using assms
proof (induction txs arbitrary: s)
  case (Cons obs txs)
  let ?s = "s\<lparr>sv_tracer := (sv_tracer s)\<lparr>st_dataLatest := Some (obs_data (sv_syncSchema s) (sv_tracer s) obs)\<rparr>\<rparr>"
  have "TransitionEnd s obs = Inr ?s"
    using Cons.prems tracer_data_obs [OF Cons.prems(2,3) _ Cons.prems(4), of obs]
    by (simp add: TransitionEnd_def Let_def tracks_def split: option.splits)
  moreover have "tracks (sv_tracer ?s) names" using Cons.prems(2) by simp
  ultimately show ?case
    using Cons.IH [of ?s] Cons.prems by (simp add: obs_data_def)
qed simp


section \<open>A client in sync with its server\<close>

text \<open>A connected client that follows the latest clock: the machines of both ends are running, the tracer is
  active, and the sync options are the default ones.\<close>

definition link_up :: "Link \<Rightarrow> bool" where
  "link_up l =
     (let s = lk_Server l; c = lk_Client l; src = lk_Source l in
      Not1 (sv_Mach s) ssS_Start = Inr False \<and> Not1 (cl_Mach c) ssC_HandshakeDone = Inr False
      \<and> \<not> sv_syncMutations s \<and> \<not> sv_syncShallowClocks s \<and> \<not> cl_SyncAllMutations c \<and> \<not> cl_SyncShallowClocks c
      \<and> st_active (sv_tracer s) \<and> tracks (sv_tracer s) (m_stateNames src)
      \<and> distinct (m_stateNames src) \<and> int (length (m_stateNames src)) < 65536 \<and> \<not> m_disposed src)"

text \<open>The client holds what was pushed last.\<close>

definition in_sync :: "Link \<Rightarrow> bool" where
  "in_sync l =
     (let s = lk_Server l; nm = cl_NetMach (lk_Client l); idxs = st_trackedStateIdxs (sv_tracer s) in
      case sv_lastPushData s of
        None \<Rightarrow> False
      | Some lp \<Rightarrow>
          (case td_mTime lp of
             None \<Rightarrow> False
           | Some prev \<Rightarrow>
               length prev = length (tracked_time (sv_syncSchema s) idxs (mach_time (lk_Source l) None))
               \<and> nm_machTime nm = client_view (sv_syncSchema s) idxs prev
               \<and> nm_queueTick nm = td_queueTick lp \<and> nm_machTick nm = td_machTick lp))"

text \<open>What the source looks like to the client.\<close>

definition seen :: "Link \<Rightarrow> Time \<Rightarrow> Time" where
  "seen l t = source_view (sv_syncSchema (lk_Server l)) (st_trackedStateIdxs (sv_tracer (lk_Server l))) t"

definition fits :: "Link \<Rightarrow> tx_obs \<Rightarrow> bool" where
  "fits l obs =
     (case sv_lastPushData (lk_Server l) of
        None \<Rightarrow> False
      | Some lp \<Rightarrow> diff_fits (sv_syncSchema (lk_Server l)) lp
          (obs_data (sv_syncSchema (lk_Server l)) (sv_tracer (lk_Server l)) obs))"

lemma length_seen: "length (seen l t) = length (seen l t')" if "length t = length t'"
  using that by (simp add: seen_def source_view_def client_view_def tracked_time_def zero_untracked_alt)

text \<open>The update for an observed transition, and the client that gets it.\<close>

lemma update_of_obs:
  assumes up: "link_up l" "in_sync l" and obs: "obs_ok (m_stateNames (lk_Source l)) obs" and fit: "fits l obs"
  defines "s \<equiv> lk_Server l" and "nm \<equiv> cl_NetMach (lk_Client l)"
  defines "d \<equiv> obs_data (sv_syncSchema s) (sv_tracer s) obs"
  obtains lp prev u where "sv_lastPushData s = Some lp" "td_mTime lp = Some prev" "data_ok (sv_syncSchema s) (length prev) d"
    "length prev = length (tracked_time (sv_syncSchema s) (st_trackedStateIdxs (sv_tracer s)) (mach_time (lk_Source l) None))"
    "td_mTime d = Some (tracked_time (sv_syncSchema s) (st_trackedStateIdxs (sv_tracer s)) (to_Time obs))"
    "calcUpdate (sv_syncSchema s) d lp False = Inr u"
    "clockFromUpdate u (nm_machTime nm) (nm_queueTick nm) (nm_machTick nm) = Inr (seen l (to_Time obs), to_QueueTick obs, to_MachTick obs)"
    "up_Checksum u = Checksum (Time_SumAll (seen l (to_Time obs))) (to_QueueTick obs) (to_MachTick obs)"
proof -
  let ?idxs = "st_trackedStateIdxs (sv_tracer s)"
  have trk: "tracks (sv_tracer s) (m_stateNames (lk_Source l))" "distinct (m_stateNames (lk_Source l))"
    "length (m_stateNames (lk_Source l)) < 65536" using up(1) by (simp_all add: link_up_def Let_def s_def)
  obtain lp prev where lp: "sv_lastPushData s = Some lp" "td_mTime lp = Some prev"
    "length prev = length (tracked_time (sv_syncSchema s) ?idxs (mach_time (lk_Source l) None))"
    "nm_machTime nm = client_view (sv_syncSchema s) ?idxs prev"
    "nm_queueTick nm = td_queueTick lp" "nm_machTick nm = td_machTick lp"
    using up(2) by (auto simp: in_sync_def Let_def s_def nm_def split: option.splits)
  have n: "length prev = length (tracked_time (sv_syncSchema s) ?idxs (to_Time obs))"
    using lp(3) obs up(1) by (simp add: tracked_time_def obs_ok_def mach_time_def link_up_def Let_def)
  have dd: "td_mTime d = Some (tracked_time (sv_syncSchema s) ?idxs (to_Time obs))" "td_trackedIdxs d = ?idxs"
    "td_queueTick d = to_QueueTick obs" "td_machTick d = to_MachTick obs" by (simp_all add: d_def obs_data_def Let_def)
  have ok: "data_ok (sv_syncSchema s) (length prev) d" using obs_data_ok [OF trk(1,2) obs trk(3)] n by (simp add: d_def)
  have "diff_fits (sv_syncSchema s) lp d" using fit lp(1) by (simp add: fits_def s_def d_def)
  from clock_update_roundtrip [OF lp(2) refl ok dd(1) this] show thesis
    using that [OF lp(1,2) ok lp(3) dd(1)] lp(4-6) dd by (auto simp: seen_def source_view_def s_def)
qed

lemma update_accepted:
  assumes "link_up l" "clockFromUpdate u (nm_machTime nm) (nm_queueTick nm) (nm_machTick nm) = Inr (t, q, k)"
    "up_Checksum u = Checksum (Time_SumAll t) q k" "length t = length (nm_stateNames nm)" "no_waiters (nm_subs nm)"
    "nm = cl_NetMach (lk_Client l)"
  obtains nm' where "updateClock env nm t q k = Inr nm'" "no_waiters (nm_subs nm')"
    "clockUpdate env (lk_Client l) u = Inr (True, (lk_Client l)\<lparr>cl_NetMach := nm'\<rparr>)"
proof -
  obtain nm' where "updateClock env nm t q k = Inr nm'" "nm_subs nm' = nm_subs nm"
    using updateClock_returns assms(4,5) by blast
  with that assms show thesis by (simp add: clockUpdate_def client_checksum_def link_up_def Let_def)
qed

text \<open>Both ends after the server stored the data of \<open>obs\<close> as pushed and the client installed it.\<close>

lemma in_sync_after:
  assumes "updateClock env nm (seen l (to_Time obs)) (to_QueueTick obs) (to_MachTick obs) = Inr nm'"
    "sv_lastPushData (lk_Server l') = Some (obs_data (sv_syncSchema (lk_Server l)) (sv_tracer (lk_Server l)) obs)"
    "sv_syncSchema (lk_Server l') = sv_syncSchema (lk_Server l)"
    "st_trackedStateIdxs (sv_tracer (lk_Server l')) = st_trackedStateIdxs (sv_tracer (lk_Server l))"
    "cl_NetMach (lk_Client l') = nm'" "length (mach_time (lk_Source l') None) = length (to_Time obs)"
  shows "in_sync l'"
  using assms(2-6) updateClock_fields(1-3) [OF assms(1)]
  by (simp add: in_sync_def Let_def obs_data_def seen_def source_view_def tracked_time_def)

context state_source
begin

lemma link_call_syncs:
  assumes up: "link_up l" and sync: "in_sync l"
    and req: "cm_States req = Some idxs" "IndexesToStates (m_stateNames (lk_Source l)) idxs = Inr states"
    and call: "meth (lk_Source l) states (unmarshal (cm_Args req)) ev = Inr ((r, txs), src')"
    and txs: "txs \<noteq> []" "fits l (last txs)"
    and nm: "length (nm_stateNames (cl_NetMach (lk_Client l))) = length (seen l (mach_time (lk_Source l) None))"
      "no_waiters (nm_subs (cl_NetMach (lk_Client l)))"
  shows "\<exists>l'. link_call env senv fuel (True, a) meth unmarshal l req ev = Inr (r, l') \<and> link_up l' \<and> in_sync l'
    \<and> lk_Source l' = src' \<and> updateClock env (cl_NetMach (lk_Client l)) (seen l (mach_time src' None))
        (to_QueueTick (last txs)) (m_machineTick src') = Inr (cl_NetMach (lk_Client l'))"
proof -
  define s where "s = lk_Server l"
  define d where "d = obs_data (sv_syncSchema s) (sv_tracer s) (last txs)"
  define s' where "s' = storeLastPush (s\<lparr>sv_tracer := (sv_tracer s)\<lparr>st_dataLatest := Some d\<rparr>\<rparr>) (Some d)"
  have tr: "trace_ok (lk_Source l) txs src'" using observed [OF call] .
  have lens: "length (mach_time (lk_Source l) None) = length (m_stateNames (lk_Source l))"
    using up by (simp add: link_up_def Let_def mach_time_def)
  have obs: "list_all (obs_ok (m_stateNames (lk_Source l))) txs"
    using tr lens unfolding trace_ok_def obs_ok_def list_all_iff by simp
  have last: "obs_ok (m_stateNames (lk_Source l)) (last txs)" "to_Time (last txs) = mach_time src' None"
    "to_MachTick (last txs) = m_machineTick src'"
    using obs tr txs(1) by (auto simp: trace_ok_def list_all_iff)
  obtain lp u where u: "sv_lastPushData s = Some lp" "calcUpdate (sv_syncSchema s) d lp False = Inr u"
    "clockFromUpdate u (nm_machTime (cl_NetMach (lk_Client l))) (nm_queueTick (cl_NetMach (lk_Client l)))
       (nm_machTick (cl_NetMach (lk_Client l))) = Inr (seen l (mach_time src' None), to_QueueTick (last txs), m_machineTick src')"
    "up_Checksum u = Checksum (Time_SumAll (seen l (mach_time src' None))) (to_QueueTick (last txs)) (m_machineTick src')"
    using update_of_obs [OF up sync last(1) txs(2)] last(2,3) unfolding s_def d_def by metis
  have "length (seen l (mach_time src' None)) = length (nm_stateNames (cl_NetMach (lk_Client l)))"
    using nm(1) last(1,2) lens length_seen by (metis obs_ok_def)
  from update_accepted [OF up u(3,4) this nm(2) refl]
  obtain nm' where nm': "updateClock env (cl_NetMach (lk_Client l)) (seen l (mach_time src' None)) (to_QueueTick (last txs))
      (m_machineTick src') = Inr nm'"
    "clockUpdate env (lk_Client l) u = Inr (True, (lk_Client l)\<lparr>cl_NetMach := nm'\<rparr>)" by metis
  define l' where "l' = l\<lparr>lk_Server := s', lk_Source := src', lk_Client := (lk_Client l)\<lparr>cl_NetMach := nm'\<rparr>\<rparr>"
  have "TransitionEnds s txs = Inr (s\<lparr>sv_tracer := (sv_tracer s)\<lparr>st_dataLatest := Some d\<rparr>\<rparr>)"
    using TransitionEnds_latest [OF _ _ _ _ _ obs] up txs(1) by (simp add: link_up_def Let_def s_def d_def)
  then have "remote_mutation meth unmarshal s (lk_Source l) req ev
      = Inr (Inr \<lparr>rm_Update = Some u, rm_Mutations = None, rm_Result = r\<rparr>, s', src')"
    using up req call u(1,2)
    by (simp add: remote_mutation_def remote_call_def newMsgMutation_def last_update_def DataLatest_def link_up_def Let_def s_def s'_def)
  then have "link_call env senv fuel (True, a) meth unmarshal l req ev = Inr (r, l')"
    using nm'(2) up unfolding link_call_def process_response_def l'_def s_def by (simp add: Let_def link_up_def)
  moreover have "link_up l'"
    using up tr by (simp add: link_up_def Let_def l'_def s'_def storeLastPush_def s_def trace_ok_def)
  moreover have "in_sync l'"
    using in_sync_after [of env "cl_NetMach (lk_Client l)" l "last txs" nm' l'] nm'(1) last(2,3)
    by (simp add: l'_def s'_def storeLastPush_def s_def d_def)
  ultimately show ?thesis using nm'(1) by (intro exI [of _ l']) (simp add: l'_def)
qed

end

section \<open>Mutations of a network machine\<close>

lemma mapR_all: "(\<And>x. x \<in> set xs \<Longrightarrow> f x = Inr (g x)) \<Longrightarrow> mapR f xs = Inr (map g xs)"
  by (induction xs) simp_all

lemma indexes_by_position:
  assumes "set states \<subseteq> set names" "length names \<le> length all"
  shows "IndexesToStates all (StatesToIndexes names states) = Inr (map (\<lambda>s. all ! nat (slices_Index names s)) states)"
proof -
  have "mapR (\<lambda>(i, idx). if idx = - 1 \<or> idx \<ge> int (length all) then Inr (''unknown'' @ strconv_Itoa (int i))
        else if idx < 0 then Inl (GoPanic ''index out of range'') else Inr (all ! nat idx))
      (enumerate 0 (StatesToIndexes names states))
    = Inr (map (\<lambda>(i, idx). all ! nat idx) (enumerate 0 (StatesToIndexes names states)))"
  proof (rule mapR_all, goal_cases)
    case (1 x)
    then obtain i s where "x = (i, slices_Index names s)" "s \<in> set names"
      using assms(1) by (auto simp: StatesToIndexes_def enumerate_eq_zip in_set_zip) (metis nth_mem prod.collapse subsetD)
    with slices_Index_bounds [of s names] assms(2) show ?case by (auto simp: nat_less_iff)
  qed
  moreover have "map (\<lambda>(i, idx). all ! nat idx) (enumerate 0 (StatesToIndexes names states))
      = map (\<lambda>s. all ! nat (slices_Index names s)) states"
    by (rule nth_equalityI) (auto simp: nth_enumerate_eq StatesToIndexes_def)
  ultimately show ?thesis by (simp add: IndexesToStates_def)
qed

lemma indexes_roundtrip: "set states \<subseteq> set names \<Longrightarrow> IndexesToStates names (StatesToIndexes names states) = Inr states"
  using slices_Index_bounds [of _ names] by (auto simp: indexes_by_position map_idI subset_iff)

context state_source
begin

text \<open>The source runs the method on the states it reads from the indexes of the client.\<close>

lemma nm_mutate_sent:
  assumes up: "link_up l" "in_sync l"
    and nm: "nm_conn (cl_NetMach (lk_Client l))" "\<not> nm_disposed (cl_NetMach (lk_Client l))"
      "length (nm_stateNames (cl_NetMach (lk_Client l))) = length (seen l (mach_time (lk_Source l) None))"
      "no_waiters (nm_subs (cl_NetMach (lk_Client l)))"
    and states: "set states \<subseteq> set (nm_stateNames (cl_NetMach (lk_Client l)))"
      "IndexesToStates (m_stateNames (lk_Source l)) (StatesToIndexes (nm_stateNames (cl_NetMach (lk_Client l))) states) = Inr states'"
    and call: "meth (lk_Source l) states' (unmarshal args) ev = Inr ((r, txs), src')" "txs \<noteq> []" "fits l (last txs)"
  shows "\<exists>l'. nm_mutate env senv fuel (True, a) meth unmarshal flt l states args ev = Inr (r, l') \<and> link_up l' \<and> in_sync l'
    \<and> lk_Source l' = src' \<and> updateClock env (cl_NetMach (lk_Client l)) (seen l (mach_time src' None))
        (to_QueueTick (last txs)) (m_machineTick src') = Inr (cl_NetMach (lk_Client l'))"
proof -
  let ?nm = "cl_NetMach (lk_Client l)"
  let ?req = "\<lparr>cm_States = Some (StatesToIndexes (nm_stateNames ?nm) states), cm_Args = args, cm_Event = ev\<rparr>"
  obtain l' where l': "link_call env senv fuel (True, a) meth unmarshal l ?req ev = Inr (r, l')" "link_up l'" "in_sync l'"
    "lk_Source l' = src'" "updateClock env ?nm (seen l (mach_time src' None)) (to_QueueTick (last txs)) (m_machineTick src')
      = Inr (cl_NetMach (lk_Client l'))"
    using link_call_syncs [OF up, of ?req _ states' unmarshal ev r txs src' env senv fuel a] states(2) call nm(3,4) by auto
  have parse: "nm_MustParseStates ?nm states = Inr (slicesUniq states)"
    using states(1) by (auto simp: nm_MustParseStates_def list_ex_iff slices_Contains_def)
  have "nm_mutate env senv fuel (True, a) meth unmarshal flt l states args ev = Inr (r, l')"
    using l'(1) nm(1,2) parse by (simp add: nm_mutate_def Let_def nm_mutAccepted_def split: option.splits)
  with l' show ?thesis by blast
qed

lemma nm_mutate_syncs:
  assumes up: "link_up l" "in_sync l" "sv_syncSchema (lk_Server l)"
    and nm: "nm_conn (cl_NetMach (lk_Client l))" "\<not> nm_disposed (cl_NetMach (lk_Client l))"
      "nm_stateNames (cl_NetMach (lk_Client l)) = m_stateNames (lk_Source l)" "no_waiters (nm_subs (cl_NetMach (lk_Client l)))"
    and states: "set states \<subseteq> set (m_stateNames (lk_Source l))"
    and call: "meth (lk_Source l) states (unmarshal args) ev = Inr ((r, txs), src')" "txs \<noteq> []" "fits l (last txs)"
  shows "\<exists>l'. nm_mutate env senv fuel (True, a) meth unmarshal flt l states args ev = Inr (r, l')
    \<and> lk_Source l' = src' \<and> link_up l' \<and> in_sync l'
    \<and> nm_machTime (cl_NetMach (lk_Client l')) = seen l (mach_time src' None)
    \<and> nm_queueTick (cl_NetMach (lk_Client l')) = to_QueueTick (last txs)
    \<and> set (nm_ActiveStates (cl_NetMach (lk_Client l')) None)
      = shown_active (nm_schema (cl_NetMach (lk_Client l))) (m_stateNames src') (seen l (mach_time src' None))"
proof -
  let ?nm = "cl_NetMach (lk_Client l)"
  have src: "m_stateNames src' = m_stateNames (lk_Source l)" using observed [OF call(1)] by (simp add: trace_ok_def)
  have len: "length (nm_stateNames ?nm) = length (seen l (mach_time (lk_Source l) None))"
    using up nm(3) by (simp add: seen_def source_view_def client_view_def tracked_time_def zero_untracked_alt
        mach_time_def link_up_def Let_def)
  have "IndexesToStates (m_stateNames (lk_Source l)) (StatesToIndexes (nm_stateNames ?nm) states) = Inr states"
    "set states \<subseteq> set (nm_stateNames ?nm)"
    using indexes_roundtrip [OF states] nm(3) states by simp_all
  then obtain l' where l': "nm_mutate env senv fuel (True, a) meth unmarshal flt l states args ev = Inr (r, l')" "link_up l'" "in_sync l'"
    "lk_Source l' = src'" "updateClock env ?nm (seen l (mach_time src' None)) (to_QueueTick (last txs)) (m_machineTick src')
      = Inr (cl_NetMach (lk_Client l'))"
    using nm_mutate_sent [OF up(1,2) nm(1,2) len nm(4), where unmarshal = unmarshal, OF _ _ call] by metis
  have "set (nm_ActiveStates (cl_NetMach (lk_Client l')) None)
      = shown_active (nm_schema ?nm) (m_stateNames src') (seen l (mach_time src' None))"
    using updateClock_fields(9,10) [OF l'(5)] odd_ticks_set [of "seen l (mach_time src' None)" "nm_stateNames ?nm"] nm(3) src
    by (simp add: nm_ActiveStates_def activateRequired_closure shown_active_def Let_def split: option.splits)
  then show ?thesis using l' updateClock_fields(1,2) [OF l'(5)] by blast
qed

end



section \<open>Pushes\<close>

text \<open>The server's conditions for a push: a client, pushes enabled, the handshake done, new data and the interval
  over.\<close>

definition push_due :: "Link \<Rightarrow> tx_obs \<Rightarrow> bool" where
  "push_due l obs =
     (let s = lk_Server l in
      sv_rpcClient s \<and> sv_PushInterval s \<noteq> 0 \<and> Not1 (sv_Mach s) ssS_HandshakeDone = Inr False \<and> sv_sent s = []
      \<and> st_dataLatest (sv_tracer s) = Some (obs_data (sv_syncSchema s) (sv_tracer s) obs)
      \<and> sv_now s - sv_lastPush s \<ge> sv_PushInterval s)"

text \<open>A tracked tick differs from the one pushed last.\<close>

definition tracked_change :: "Link \<Rightarrow> tx_obs \<Rightarrow> bool" where
  "tracked_change l obs =
     (case sv_lastPushData (lk_Server l) of
        None \<Rightarrow> False
      | Some lp \<Rightarrow>
          (let d = obs_data (sv_syncSchema (lk_Server l)) (sv_tracer (lk_Server l)) obs in
           td_mTrackedTimeSum lp \<noteq> td_mTrackedTimeSum d
           \<and> list_ex (\<lambda>p. sl (td_mTime lp) ! p \<noteq> sl (td_mTime d) ! p)
               (push_positions (sv_syncSchema (lk_Server l)) d)))"

lemma calcUpdate_indexes:
  assumes "td_mTime lp = Some prev" "length prev = n" "data_ok syncSchema n d" "td_mTime d = Some now"
    and "calcUpdate syncSchema d lp False = Inr u"
    and "list_ex (\<lambda>p. prev ! p \<noteq> now ! p) (push_positions syncSchema d)"
  shows "up_Indexes u \<noteq> []"
proof -
  have "genDeepUpdate syncSchema d lp
      = Inr (map (diff_at prev now) (filter (\<lambda>p. prev ! p \<noteq> now ! p) (push_positions syncSchema d)))"
    using genDeepUpdate_diffs [OF assms(1-4)] .
  then show ?thesis
    using assms(5,6) by (auto simp: calcUpdate_def list_ex_iff filter_empty_conv)
qed




section \<open>The handshake\<close>

text \<open>The states a hello asks for, and what a client holds of their ticks: with the schema all states of the source, those not
  asked for at 0, without it the states asked for only.\<close>

definition asked_for :: "MsgCliHello \<Rightarrow> string \<Rightarrow> bool" where
  "asked_for req name = ((case ch_AllowedStates req of None \<Rightarrow> True | Some allowed \<Rightarrow> name \<in> set allowed)
     \<and> name \<notin> set (ch_SkippedStates req))"

definition asked_times :: "MsgCliHello \<Rightarrow> Machine \<Rightarrow> Time" where
  "asked_times req src =
     (if ch_SyncSchema req then map (\<lambda>n. if asked_for req n then ggetd 0 (m_clock src) n else 0) (m_stateNames src)
      else map (ggetd 0 (m_clock src)) (filter (asked_for req) (m_stateNames src)))"

lemma source_view_names:
  assumes "distinct names" "idxs = map (slices_Index names) (filter P names)"
  shows "source_view sync idxs (map f names)
    = (if sync then map (\<lambda>n. if P n then f n else 0) names else map f (filter P names))"
proof (cases sync)
  case True
  have "int i \<in> set idxs \<longleftrightarrow> P (names ! i)" if i: "i < length names" for i
  proof -
    have *: "slices_Index names (names ! i) = int i" using slices_Index_nth [OF assms(1) i] .
    have "n = names ! i" if "n \<in> set names" "slices_Index names n = int i" for n
      using slices_Index_bounds [OF that(1)] that(2) by simp
    then show ?thesis using * i assms(2) by (force simp: image_iff)
  qed
  then show ?thesis using True
    by (auto simp: source_view_def client_view_def tracked_time_def zero_untracked_alt intro!: nth_equalityI)
next
  case False
  have "map f names ! nat (slices_Index names n) = f n" if "n \<in> set names" for n
    using slices_Index_bounds [OF that] by (simp add: nat_less_iff)
  with False assms(2) show ?thesis by (auto simp: source_view_def client_view_def tracked_time_def)
qed

lemma hello_accept_result:
  assumes src: "m_statesVerified src" "\<not> m_disposed src" "distinct (m_stateNames src)"
    and s: "sv_lastPushData s = Some lp" "\<not> sv_syncSchema s"
    and acc: "hello_accept hash s src req = Inr (resp, s1)"
  shows "tracks (sv_tracer s1) (m_stateNames src)" "st_active (sv_tracer s1)" "sv_syncSchema s1 = ch_SyncSchema req"
    "se_QueueTick (sh_Serialized resp) = m_queueTick src"
    "\<exists>lp'. sv_lastPushData s1 = Some lp' \<and> td_mTime lp' = Some (se_Time (sh_Serialized resp)) \<and> td_queueTick lp' = m_queueTick src
       \<and> td_machTick lp' = td_machTick lp"
    "se_Time (sh_Serialized resp)
      = source_view (ch_SyncSchema req) (st_trackedStateIdxs (sv_tracer s1)) (mach_time src None)"
    "length (se_StateNames (sh_Serialized resp)) = length (se_Time (sh_Serialized resp))"
    "st_trackedStates (sv_tracer s1) = Some (filter (asked_for req) (m_stateNames src))"
proof -
  define s0 where "s0 = s\<lparr>sv_syncAllowedStates := ch_AllowedStates req, sv_syncSkippedStates := ch_SkippedStates req,
      sv_syncShallowClocks := ch_ShallowClocks req, sv_syncMutations := ch_SyncMutations req\<rparr>"
  define t where "t = (calcTrackedStates s0 (m_stateNames src) (sv_tracer s0))\<lparr>st_active := True\<rparr>"
  have trk: "tracks t (m_stateNames src)"
    using calcTrackedStates_tracks [OF src(3), of s0 "sv_tracer s0"] by (simp add: t_def)
  have len: "length (mach_time src None) = length (m_stateNames src)" using src(2) by (simp add: mach_time_def)
  have fl: "Time_Filter (mach_time src None) (st_trackedStateIdxs t) = Inr (map (\<lambda>i. mach_time src None ! nat i) (st_trackedStateIdxs t))"
    using tracks_idxs(2) [OF trk src(3)] len by (intro Time_Filter_in_range) simp
  have "sl (st_trackedStates t) = filter (\<lambda>x. x \<in> set (sl (st_trackedStates t))) (m_stateNames src)"
    by (simp add: t_def calcTrackedStates_def Let_def sl_def split: option.splits) (auto intro!: filter_cong)
  then have shared: "length (filter (\<lambda>x. x \<in> set (sl (st_trackedStates t))) (m_stateNames src)) = length (st_trackedStateIdxs t)"
    using tracks_idxs(3) [OF trk src(3)] by simp
  define ex where "ex = \<lparr>se_ID = m_id src, se_StateNames = m_stateNames src, se_Time = mach_time src None,
      se_QueueTick = m_queueTick src, se_MachineTick = m_machineTick src\<rparr>"
  obtain ex' where ex': "hello_export (ch_SyncSchema req) t ex = Inr ex'" "se_QueueTick ex' = m_queueTick src"
    "se_Time ex' = source_view (ch_SyncSchema req) (st_trackedStateIdxs t) (mach_time src None)"
    "length (se_StateNames ex') = length (se_Time ex')"
    using fl shared len
    by (cases "ch_SyncSchema req")
      (auto simp: hello_export_def ex_def source_view_def client_view_def tracked_time_def zero_untracked_alt)
  have lp: "sv_lastPushData s0 = Some lp" "\<not> sv_syncSchema s0" using s by (simp_all add: s0_def)
  have "hello_accept hash s src req = bindR (Time_Filter (mach_time src None) (st_trackedStateIdxs t)) (\<lambda>tracked.
      bindR (hello_export (ch_SyncSchema req) t ex) (\<lambda>export'. case sv_lastPushData s0 of
        None \<Rightarrow> Inl (GoPanic ''nil pointer dereference'')
      | Some lp \<Rightarrow>
          Inr (\<lparr>sh_Schema = (if ch_SyncSchema req \<and> (ch_SchemaHash req = [] \<or> ch_SchemaHash req \<noteq> hash (Schema_Clone (m_schema src)))
                             then Some (Schema_Clone (m_schema src)) else None),
                sh_Serialized = export', sh_StatesCount = of_nat (length (m_stateNames src))\<rparr>,
               s0\<lparr>sv_tracer := t, sv_syncSchema := (ch_SyncSchema req \<or> sv_syncSchema s0),
                  sv_lastPushData := Some (lp\<lparr>td_mTime := Some (se_Time export'),
                    td_queueTick := se_QueueTick export', td_mTrackedTimeSum := Time_SumAll tracked\<rparr>),
                  sv_lastPush := sv_now s0, sv_clientId := Some (ch_Id req)\<rparr>)))"
    unfolding hello_accept_def Let_def s0_def t_def ex_def
    by (simp only: Export_def src(1) not_True_eq_False if_False sum.case prod.case Serialized.select_convs)
  then have res: "sh_Serialized resp = ex'" "sv_tracer s1 = t" "sv_syncSchema s1 = ch_SyncSchema req"
    "\<exists>x. sv_lastPushData s1 = Some (lp\<lparr>td_mTime := Some (se_Time ex'), td_queueTick := se_QueueTick ex', td_mTrackedTimeSum := x\<rparr>)"
    using acc ex'(1) lp fl by auto
  show "tracks (sv_tracer s1) (m_stateNames src)" "st_active (sv_tracer s1)" "sv_syncSchema s1 = ch_SyncSchema req"
    "se_QueueTick (sh_Serialized resp) = m_queueTick src"
    "\<exists>lp'. sv_lastPushData s1 = Some lp' \<and> td_mTime lp' = Some (se_Time (sh_Serialized resp)) \<and> td_queueTick lp' = m_queueTick src
       \<and> td_machTick lp' = td_machTick lp"
    "se_Time (sh_Serialized resp)
      = source_view (ch_SyncSchema req) (st_trackedStateIdxs (sv_tracer s1)) (mach_time src None)"
    "length (se_StateNames (sh_Serialized resp)) = length (se_Time (sh_Serialized resp))"
    using res ex' trk by (auto simp: t_def)
  show "st_trackedStates (sv_tracer s1) = Some (filter (asked_for req) (m_stateNames src))"
    unfolding res(2) t_def s0_def calcTrackedStates_def asked_for_def Let_def
    by (auto simp: conj_commute split: option.splits intro!: filter_cong)
qed


lemma client_view_idem: "client_view syncSchema idxs (client_view syncSchema idxs t) = client_view syncSchema idxs t"
  by (auto simp: client_view_def zero_untracked_alt)

lemma length_client_view [simp]: "length (client_view syncSchema idxs t) = length t"
  by (simp add: client_view_def zero_untracked_alt)

lemma RemoteHello_accepted:
  assumes "RemoteHello env fuel hash s src (Some req) = Inr (Inr resp, s1)"
  obtains s0 where "hello_accept hash s src req = Inr (resp, s0)" "sv_tracer s1 = sv_tracer s0" "sv_syncSchema s1 = sv_syncSchema s0"
    "sv_lastPushData s1 = sv_lastPushData s0"
  using assms by (auto simp: RemoteHello_def bindR_eq_Inr hello_missing_def hello_refused_def split: if_splits)

lemma hello_done_machine:
  assumes "hello_done env fuel noSchema c resp = Inr (Some (t, q), c1)"
    "length (se_StateNames (sh_Serialized resp)) = length (se_Time (sh_Serialized resp))"
  shows "t = se_Time (sh_Serialized resp)" "q = se_QueueTick (sh_Serialized resp)"
    "nm_stateNames (cl_NetMach c1) = se_StateNames (sh_Serialized resp)" "nm_subs (cl_NetMach c1) = nm_subs (cl_NetMach c)"
    "cl_Mach c1 = cl_Mach c"
  using assms by (auto simp: hello_done_def updateStatesSchema_def Let_def bindR_eq_Inr split: if_splits)

text \<open>C11. The first handshake puts both ends in sync. When a server that has not synced a schema before accepts the hello of a
  client, the source being a machine that is not disposed and has verified its states, and the client, on whose network
  machine nobody waits, takes over the answer, then the tracer is active on exactly the states asked for (those allowed,
  or all, without the skipped ones), and installing the answer's time gives a link in sync whose client holds the
  source's queue tick and its clock: with the schema that of all states, those not asked for at 0, without it that of
  the states asked for.\<close>

theorem handshake_syncs:
  assumes src: "m_statesVerified src" "\<not> m_disposed src" "distinct (m_stateNames src)"
    and s: "sv_lastPushData s = Some lp" "td_machTick lp = 0" "\<not> sv_syncSchema s"
    and hello: "RemoteHello env fuel hash s src (Some req) = Inr (Inr resp, s1)"
    and c: "hello_done cenv fuel noSchema c resp = Inr (Some (t, q), c1)" "Not1 (cl_Mach c) ssC_HandshakeDone = Inr False"
      "no_waiters (nm_subs (cl_NetMach c))"
  shows "\<exists>c2. HandshakeDoneState cenv c1 t q 0 = Inr c2
    \<and> in_sync \<lparr>lk_Client = c2, lk_Server = s1, lk_Source = src\<rparr>
    \<and> st_trackedStates (sv_tracer s1) = Some (filter (asked_for req) (m_stateNames src))
    \<and> tracks (sv_tracer s1) (m_stateNames src) \<and> st_active (sv_tracer s1)
    \<and> nm_machTime (cl_NetMach c2) = asked_times req src
    \<and> nm_queueTick (cl_NetMach c2) = m_queueTick src"
proof -
  obtain s0 where s0: "hello_accept hash s src req = Inr (resp, s0)" "sv_tracer s1 = sv_tracer s0"
    "sv_syncSchema s1 = sv_syncSchema s0" "sv_lastPushData s1 = sv_lastPushData s0"
    using RemoteHello_accepted [OF hello] by blast
  note acc = hello_accept_result [OF src s(1,3) s0(1)]
  note cm = hello_done_machine [OF c(1) acc(7)]
  have "length t = length (nm_stateNames (cl_NetMach c1))" using cm(1,3) acc(7) by simp
  then obtain nm' where nm': "updateClock cenv (cl_NetMach c1) t q 0 = Inr nm'"
    using updateClock_returns c(3) cm(4) by metis
  note nf = updateClock_fields [OF nm']
  have "HandshakeDoneState cenv c1 t q 0 = Inr (c1\<lparr>cl_NetMach := nm'\<rparr>)"
    using nm' c(2) cm(5) by (simp add: HandshakeDoneState_def clockSet_def)
  moreover have "in_sync \<lparr>lk_Client = c1\<lparr>cl_NetMach := nm'\<rparr>, lk_Server = s1, lk_Source = src\<rparr>"
    using acc(3,4,5,6) s0(2-4) s(2) nf(1-3) cm(1,2)
    by (auto simp: in_sync_def Let_def source_view_def client_view_idem)
  moreover have "se_Time (sh_Serialized resp) = asked_times req src"
  proof -
    have "st_trackedStateIdxs (sv_tracer s0) = map (slices_Index (m_stateNames src)) (filter (asked_for req) (m_stateNames src))"
      using acc(1,8) by (simp add: tracks_def)
    from source_view_names [OF src(3) this, of "ch_SyncSchema req" "ggetd 0 (m_clock src)"] acc(6) src(2)
    show ?thesis by (simp add: asked_times_def mach_time_def)
  qed
  ultimately show ?thesis
    using acc(1-4,8) s0(2) nf(1,2) cm(1,2) by (intro exI [of _ "c1\<lparr>cl_NetMach := nm'\<rparr>"]) simp
qed

end
