(* ===== verification/Am_Rpc_Runs.thy ===== *)
theory Am_Rpc_Runs
  imports Am_Rpc_Sync
begin

text \<open>
  A client, a server and a source put together: concrete runs for the theorems of \<open>Am_Rpc_Sync\<close>, and runs in
  which the two ends drift apart.
\<close>

section \<open>A link\<close>

definition rp_env :: Env where
  "rp_env = \<lparr>en_handler = (\<lambda>m n meth args. ([], HRet True)), en_eval = (\<lambda>_. []), en_expired = (\<lambda>_. False),
     en_query = (\<lambda>_ _. False)\<rparr>"

definition rp_mach :: "S \<Rightarrow> Machine" where
  "rp_mach names = snd (VerifyStates (newMachine (map (\<lambda>n. (n, State_zero)) names) ex_opts ''id'') (names @ [''Exception'']))"

definition rp_add :: "Machine \<Rightarrow> S \<Rightarrow> Machine res" where
  "rp_add m states = bindR (mach_Add rp_env 9 m states []) (\<lambda>(_, m'). Inr m')"

definition rp_opts :: ServerOpts where
  "rp_opts = \<lparr>so_ParentId = [], so_WebSocket = False, so_WebSocketTunnel = [], so_AllowedMachIds = [], so_AllowedWsPubKeys = []\<rparr>"

definition rp_netmach :: NetworkMachine where
  "rp_netmach = \<lparr>nm_conn = True, nm_id = ''rnm-c'', nm_remoteId = [], nm_parentId = [], nm_tags = [TagRpcNetmach, TagKeySrcId], nm_disposed = False,
     nm_err = None, nm_schema = Some [], nm_machTime = [], nm_machClock = [], nm_queueTick = 1, nm_machTick = 0,
     nm_stateNames = [], nm_activeStates = [], nm_subs = NewSubscriptionManager, nm_handlers = [], nm_nextHandlerNum = 0,
     nm_filterMutations = False, nm_tracers = [], nm_disposeHandlers = [], nm_whenDisposed = False, nm_closed = [],
     nm_canceled = [], nm_called = []\<rparr>"

definition rp_client :: "MsgCliHello \<Rightarrow> Machine \<Rightarrow> Client" where
  "rp_client req m = \<lparr>cl_Mach = m, cl_NetMach = rp_netmach, cl_SyncAllMutations = ch_SyncMutations req,
     cl_SyncAllowedStates = ch_AllowedStates req, cl_SyncSkippedStates = ch_SkippedStates req,
     cl_SyncShallowClocks = ch_ShallowClocks req, cl_schema = Some [], cl_trackedStates = [], cl_trackedStateIdxs = [],
     cl_Id = ''c'', cl_Addr = [], cl_Conn = True, cl_rpc = True, cl_Consumer = None, cl_CallCount = 0,
     cl_ReconnectOnDisconn = True, cl_CallRetries = 3, cl_CallRetryTimeout = 60000, cl_CallRetryDelay = 100,
     cl_CallRetryBackoff = 300, cl_ConnRetries = 2, cl_ConnRetryTimeout = 300000, cl_ConnRetryDelay = 1000,
     cl_ConnRetryBackoff = 10000, cl_connRetryRound = 0, cl_TmpTestErr = None, cl_permTestErr = None\<rparr>"

definition rp_hello :: MsgCliHello where
  "rp_hello = \<lparr>ch_Id = ''rc-c'', ch_SyncSchema = True, ch_SchemaHash = [], ch_SyncMutations = False, ch_AllowedStates = None,
     ch_SkippedStates = [], ch_ShallowClocks = False\<rparr>"

text \<open>The machines of both ends, running.\<close>

definition rp_serverMach :: "Machine res" where
  "rp_serverMach = rp_add (rp_mach [''ClientConnected'', ''HandshakeDone'', ''Handshaking'', ''MetricSync'', ''Start'']) [''HandshakeDone'', ''Start'']"

definition rp_clientMach :: "Machine res" where
  "rp_clientMach = rp_add (rp_mach [''HandshakeDone'', ''MetricSync'', ''Ready'']) [''HandshakeDone'', ''Ready'']"

text \<open>The handshake of a client with a source that has run already.\<close>

definition rp_link :: "MsgCliHello \<Rightarrow> S \<Rightarrow> Link res" where
  "rp_link req before =
     bindR (rp_add (rp_mach [''A'', ''B'']) before) (\<lambda>src.
     bindR rp_serverMach (\<lambda>sm. bindR rp_clientMach (\<lambda>cm.
     bindR (RemoteHello rp_env 9 (\<lambda>_. []) (newServer [] rp_opts sm) src (Some req)) (\<lambda>(hello, s1).
       case hello of
         Inl _ \<Rightarrow> Inl Deadlock
       | Inr resp \<Rightarrow>
           bindR (hello_done rp_env 9 (\<not> ch_SyncSchema req) (rp_client req cm) resp) (\<lambda>(done, c1).
             case done of
               None \<Rightarrow> Inl Deadlock
             | Some (t, q) \<Rightarrow> bindR (HandshakeDoneState rp_env c1 t q 0) (\<lambda>c2.
                 bindR (RemoteHandshake rp_env 9 s1) (\<lambda>(_, s2).
                   Inr \<lparr>lk_Client = c2, lk_Server = s2, lk_Source = src\<rparr>)))))))"

lemma rp_link_ok: "res_ok (\<lambda>l. link_up l \<and> in_sync l \<and> no_waiters (nm_subs (cl_NetMach (lk_Client l)))
   \<and> nm_stateNames (cl_NetMach (lk_Client l)) = [''A'', ''B'', ''Exception'']
   \<and> nm_activeStates (cl_NetMach (lk_Client l)) = [''A'']) (rp_link rp_hello [''A''])"
  by code_simp


section \<open>Steps of a run\<close>

datatype link_step = Local S | Tick | Push | Deliver | Remote S | RemoteNS S

text \<open>A mutation of the source by its owner, the push interval, a push, a delivery, a mutation by the client.\<close>

fun rp_step :: "Link \<Rightarrow> link_step \<Rightarrow> Link res" where
  "rp_step l (Local states) =
     bindR (src_Add rp_env 9 (lk_Source l) states [] None) (\<lambda>((_, txs), src).
       bindR (TransitionEnds (lk_Server l) txs) (\<lambda>s. Inr (l\<lparr>lk_Source := src, lk_Server := s\<rparr>)))"
| "rp_step l Tick = Inr (l\<lparr>lk_Server := (lk_Server l)\<lparr>sv_now := sv_now (lk_Server l) + 250000000\<rparr>\<rparr>)"
| "rp_step l Push = link_push rp_env 9 l None"
| "rp_step l Deliver = link_deliver rp_env rp_env 9 True l"
| "rp_step l (Remote states) =
     bindR (nm_Add rp_env rp_env 9 (True, True) id l states []) (\<lambda>(_, l'). Inr l')"
| "rp_step l (RemoteNS states) =
     bindR (nm_AddNS 9 rp_env True id l states []) (\<lambda>(_, l'). Inr l')"

fun rp_run :: "Link \<Rightarrow> link_step list \<Rightarrow> Link res" where
  "rp_run l [] = Inr l"
| "rp_run l (x # xs) = bindR (rp_step l x) (\<lambda>l'. rp_run l' xs)"

definition rp_play :: "MsgCliHello \<Rightarrow> S \<Rightarrow> link_step list \<Rightarrow> Link res" where
  "rp_play req before steps = bindR (rp_link req before) (\<lambda>l. rp_run l steps)"

definition rp_times :: "Link \<Rightarrow> Time \<times> Time" where
  "rp_times l = (mach_time (lk_Source l) None, nm_machTime (cl_NetMach (lk_Client l)))"

section \<open>Runs in sync\<close>

lemma res_ok2E: "res_ok (\<lambda>(a, b). Q a b) x \<Longrightarrow> \<exists>a b. x = Inr (a, b) \<and> Q a b"
  by (cases x) auto

lemma res_ok3E: "res_ok (\<lambda>(a, b, c). Q a b c) x \<Longrightarrow> \<exists>a b c. x = Inr (a, b, c) \<and> Q a b c"
  by (cases x) auto

lemma rp_mirror_ready:
  "res_ok (\<lambda>l. link_up l \<and> in_sync l \<and> sv_syncSchema (lk_Server l) \<and> nm_conn (cl_NetMach (lk_Client l))
     \<and> \<not> nm_disposed (cl_NetMach (lk_Client l)) \<and> nm_stateNames (cl_NetMach (lk_Client l)) = m_stateNames (lk_Source l)
     \<and> no_waiters (nm_subs (cl_NetMach (lk_Client l))) \<and> m_stateNames (lk_Source l) = [''A'', ''B'', ''Exception'']
     \<and> res_ok (\<lambda>((r, txs), src'). txs \<noteq> [] \<and> fits l (last txs)) (src_Add rp_env 9 (lk_Source l) [''B''] (id []) None))
   (rp_link rp_hello [''A''])"
  by code_simp


text \<open>A push of a local mutation.\<close>

definition rp_due :: "Link res" where
  "rp_due = rp_play rp_hello [''A''] [Tick, Local [''B'']]"

definition rp_obs :: tx_obs where
  "rp_obs = \<lparr>to_StateNames = [''A'', ''B'', ''Exception''], to_Time = [1, 1, 0], to_QueueTick = 3, to_MachTick = 0,
     to_Type = MutationAdd, to_Called = [1]\<rparr>"

lemma rp_push_ready:
  "res_ok (\<lambda>l. link_up l \<and> in_sync l \<and> push_due l rp_obs \<and> tracked_change l rp_obs \<and> fits l rp_obs
     \<and> obs_ok (m_stateNames (lk_Source l)) rp_obs
     \<and> length (nm_stateNames (cl_NetMach (lk_Client l))) = length (seen l (mach_time (lk_Source l) None))
     \<and> no_waiters (nm_subs (cl_NetMach (lk_Client l)))) rp_due"
  by code_simp


text \<open>The handshake of a client that skips a state.\<close>

definition rp_partial :: MsgCliHello where
  "rp_partial = rp_hello\<lparr>ch_SkippedStates := [''A'']\<rparr>"

lemma rp_hello_ready:
  "res_ok (\<lambda>(src, s, c). m_statesVerified src \<and> \<not> m_disposed src \<and> distinct (m_stateNames src)
     \<and> sv_lastPushData s = Some tracerData_zero \<and> td_machTick tracerData_zero = 0 \<and> \<not> sv_syncSchema s
     \<and> Not1 (cl_Mach c) ssC_HandshakeDone = Inr False \<and> no_waiters (nm_subs (cl_NetMach c))
     \<and> res_ok (\<lambda>(r, s1). case r of Inl _ \<Rightarrow> False
          | Inr resp \<Rightarrow> res_ok (\<lambda>(done, c1). done \<noteq> None) (hello_done rp_env 9 False c resp))
        (RemoteHello rp_env 9 (\<lambda>_. []) s src (Some rp_partial)))
   (bindR (rp_add (rp_mach [''A'', ''B'']) [''A'', ''B'']) (\<lambda>src. bindR rp_serverMach (\<lambda>sm. bindR rp_clientMach (\<lambda>cm.
      Inr (src, newServer [] rp_opts sm, rp_client rp_partial cm)))))"
  by code_simp

theorem handshake_syncs_witness:
  "\<exists>src s c resp s1 t q c1 c2. RemoteHello rp_env 9 (\<lambda>_. []) s src (Some rp_partial) = Inr (Inr resp, s1)
     \<and> hello_done rp_env 9 False c resp = Inr (Some (t, q), c1) \<and> HandshakeDoneState rp_env c1 t q 0 = Inr c2
     \<and> in_sync \<lparr>lk_Client = c2, lk_Server = s1, lk_Source = src\<rparr> \<and> nm_machTime (cl_NetMach c2) = asked_times rp_partial src"
proof -
  obtain src s c where a: "m_statesVerified src" "\<not> m_disposed src" "distinct (m_stateNames src)"
    "sv_lastPushData s = Some tracerData_zero" "td_machTick tracerData_zero = 0" "\<not> sv_syncSchema s"
    "Not1 (cl_Mach c) ssC_HandshakeDone = Inr False" "no_waiters (nm_subs (cl_NetMach c))"
    and b: "res_ok (\<lambda>(r, s1). case r of Inl _ \<Rightarrow> False
          | Inr resp \<Rightarrow> res_ok (\<lambda>(done, c1). done \<noteq> None) (hello_done rp_env 9 False c resp))
        (RemoteHello rp_env 9 (\<lambda>_. []) s src (Some rp_partial))"
    using res_ok3E [OF rp_hello_ready] by blast
  obtain x s1 where x: "RemoteHello rp_env 9 (\<lambda>_. []) s src (Some rp_partial) = Inr (x, s1)"
    and fin: "case x of Inl _ \<Rightarrow> False
          | Inr resp \<Rightarrow> res_ok (\<lambda>(done, c1). done \<noteq> None) (hello_done rp_env 9 False c resp)"
    using res_ok2E [OF b] by blast
  then obtain resp where r: "RemoteHello rp_env 9 (\<lambda>_. []) s src (Some rp_partial) = Inr (Inr resp, s1)"
    and "res_ok (\<lambda>(done, c1). done \<noteq> None) (hello_done rp_env 9 False c resp)"
    by (cases x) auto
  then obtain t q c1 where "hello_done rp_env 9 False c resp = Inr (Some (t, q), c1)" using res_ok2E by fast
  from handshake_syncs [OF a(1-6) r this a(7,8)] r this show ?thesis by blast
qed

text \<open>An update from one push to the next, and its installation.\<close>

definition rp_data :: "uint64 \<Rightarrow> Time \<Rightarrow> tracerData" where
  "rp_data q t = \<lparr>td_mTrackedTimeSum = Time_SumAll t, td_mTime = Some t, td_queueTick = q, td_machTick = 1,
     td_checksum = Checksum (Time_SumAll (client_view True [0, 2] t)) q 1, td_tracked = [''A'', ''C''], td_trackedIdxs = [0, 2]\<rparr>"

lemma rp_data_ok: "data_ok True 3 (rp_data 9 [4, 5, 7])" "diff_fits True (rp_data 2 [1, 2, 3]) (rp_data 9 [4, 5, 7])"
  by code_simp+

theorem clock_update_roundtrip_witness:
  "\<exists>u. calcUpdate True (rp_data 9 [4, 5, 7]) (rp_data 2 [1, 2, 3]) False = Inr u
     \<and> clockFromUpdate u [1, 0, 3] 2 1 = Inr ([4, 0, 7], 9, 1)"
proof -
  have view: "client_view True [0, 2] [1, 2, 3] = [1, 0, 3]" "client_view True [0, 2] [4, 5, 7] = [4, 0, 7]" by code_simp+
  show ?thesis
    using clock_update_roundtrip [where prev = "[1, 2, 3]" and now = "[4, 5, 7]", OF _ _ rp_data_ok(1) _ rp_data_ok(2)]
    by (auto simp: rp_data_def view)
qed

definition rp_pair :: NetworkMachine where
  "rp_pair = rp_netmach\<lparr>nm_stateNames := [''A'', ''B''],
     nm_schema := Some [(''A'', State_zero\<lparr>Require := Some [''B'']\<rparr>), (''B'', State_zero)]\<rparr>"

theorem updateClock_installs_witness:
  "\<exists>m'. updateClock rp_env rp_pair [3, 0] 5 1 = Inr m' \<and> nm_Tick m' ''A'' = Inr 3
     \<and> set (nm_ActiveStates m' None) = shown_active (nm_schema rp_pair) [''A'', ''B''] [3, 0]"
proof -
  have "length [3, 0 :: uint64] = length (nm_stateNames rp_pair)" "distinct (nm_stateNames rp_pair)"
    "no_waiters (nm_subs rp_pair)" by code_simp+
  from updateClock_installs [OF this, of rp_env 5 1] obtain m' where m: "updateClock rp_env rp_pair [3, 0] 5 1 = Inr m'"
    "\<forall>i. i < length [3, 0 :: uint64] \<longrightarrow> nm_Tick m' (nm_stateNames rp_pair ! i) = Inr ([3, 0] ! i)"
    "set (nm_ActiveStates m' None) = shown_active (nm_schema rp_pair) (nm_stateNames rp_pair) [3, 0]" by blast
  have "nm_stateNames rp_pair = [''A'', ''B'']" by (simp add: rp_pair_def)
  with m(2) [rule_format, of 0] m(1,3) show ?thesis by simp
qed

section \<open>Runs that drift apart\<close>

text \<open>A push without new transitions loses the client. When the source has run before the client connected, the
  first push after the handshake takes the tracer's initial data for news: nothing is sent, but that empty data is
  remembered as pushed. The update of the next mutation is then computed against it, the client refuses it because of
  the checksum and, as \<open>RemoteUpdate\<close> drops that result, stays behind.\<close>

theorem idle_push_loses_client:
  "res_ok (\<lambda>l. rp_times l = ([1, 1, 0], [1, 0, 0]) \<and> sv_sent (lk_Server l) = [] \<and> \<not> in_sync l)
     (rp_play rp_hello [''A''] [Tick, Push, Local [''B''], Tick, Push, Deliver])"
  by code_simp

text \<open>A transition that changes no tracked tick is remembered as pushed although no message is sent: the queue tick
  it moved is missing on the client, whose checksums do not fit any more. Later pushes are refused.\<close>

theorem unsent_push_loses_client:
  "res_ok (\<lambda>l. rp_times l = ([1, 1, 0], [1, 0, 0]) \<and> sv_sent (lk_Server l) = [] \<and> \<not> in_sync l)
     (rp_play rp_hello [] [Tick, Local [''A''], Push, Deliver, Local [''A''], Tick, Push, Deliver, Local [''B''], Tick, Push, Deliver])"
  by code_simp

text \<open>With the sync of all mutations the queue of mutations is never flushed, so each push sends the old ones again,
  as differences to the newest data. These are negative and wrap around in 32 bits; the checksum has 8 bits and does
  not notice. After the third push the client's tick of the state is off by \<open>2^32\<close>.\<close>

theorem mutations_pushed_twice:
  "res_ok (\<lambda>l. rp_times l = ([1, 1, 0], [1, 4294967297, 0]))
     (rp_play (rp_hello\<lparr>ch_SyncMutations := True\<rparr>) []
        [Tick, Local [''A''], Push, Deliver, Local [''B''], Tick, Push, Deliver, Local [''B''], Tick, Push, Deliver])"
  by code_simp

text \<open>A client that tracks some states without the schema sends their positions in its own list, which the server
  looks up in the full list: asked to add \<open>B\<close>, the source adds \<open>A\<close>.\<close>

definition rp_only :: MsgCliHello where
  "rp_only = rp_hello\<lparr>ch_SyncSchema := False, ch_AllowedStates := Some [''B'']\<rparr>"

lemma rp_only_ready:
  "res_ok (\<lambda>l. link_up l \<and> in_sync l \<and> \<not> sv_syncSchema (lk_Server l) \<and> nm_conn (cl_NetMach (lk_Client l))
     \<and> \<not> nm_disposed (cl_NetMach (lk_Client l))
     \<and> Some (nm_stateNames (cl_NetMach (lk_Client l))) = st_trackedStates (sv_tracer (lk_Server l))
     \<and> no_waiters (nm_subs (cl_NetMach (lk_Client l))) \<and> nm_stateNames (cl_NetMach (lk_Client l)) = [''B'']
     \<and> m_stateNames (lk_Source l) = [''A'', ''B'', ''Exception'']
     \<and> res_ok (\<lambda>((r, txs), src'). txs \<noteq> [] \<and> fits l (last txs) \<and> m_activeStates src' = [''A''])
         (src_Add rp_env 9 (lk_Source l) [''A''] (id []) None))
   (rp_link rp_only [])"
  by code_simp


text \<open>The same with the clocks of both ends.\<close>

theorem partial_client_run:
  "res_ok (\<lambda>l. rp_times l = ([1, 0, 0], [0]) \<and> nm_stateNames (cl_NetMach (lk_Client l)) = [''B''])
     (rp_play rp_only [] [Remote [''B'']])"
  by code_simp

text \<open>With shallow clocks the client computes its checksum from a time in which all tracked states are active, so
  updates are refused: the pushed activation of \<open>A\<close> never arrives.\<close>

theorem shallow_push_refused:
  "res_ok (\<lambda>l. rp_times l = ([1, 0, 0], [0, 0, 0]) \<and> sv_sent (lk_Server l) = [])
     (rp_play (rp_hello\<lparr>ch_ShallowClocks := True\<rparr>) [] [Tick, Local [''A''], Push, Deliver])"
  by code_simp

end
