(* ===== verification/Am_History.thy ===== *)
theory Am_History
  imports Am_Api Am_Behaviour
begin

text \<open>
  The history of a machine kept in memory, \<open>src/pkg/history/history.go\<close>: a tracer that turns the ends of
  transitions into records, and queries on them. Human time is a number, \<open>None\<close> for Go's zero time. The mapper of
  arguments belongs to the logger of the machine and is a parameter. A transition is never marked as broken.
\<close>

section \<open>Queries and configuration\<close>

record ConditionTime =
  co_MTimeStates :: S
  co_MTime :: Time
  co_HTime :: "int option"
  co_MTimeSum :: uint64
  co_MTimeTrackedSum :: uint64
  co_MTimeDiff :: uint64
  co_MTimeTrackedDiff :: uint64
  co_MTimeRecordDiff :: uint64
  co_MachTick :: uint32

record Query =
  qu_Active :: S
  qu_Activated :: S
  qu_Inactive :: S
  qu_Deactivated :: S
  qu_Start :: ConditionTime
  qu_End :: ConditionTime

record BaseConfig =
  bc_Called :: S
  bc_CalledExclude :: bool
  bc_Changed :: S
  bc_ChangedExclude :: bool
  bc_TrackRejected :: bool
  bc_TrackedStates :: S
  bc_StoreTransitions :: bool
  bc_StoreSchema :: bool
  bc_MaxRecords :: int

datatype hist_error = ErrIncompatibleType | ErrNotTracked string | ErrTimeLen nat nat | ErrNoStates | ErrCtx

section \<open>Records\<close>

record MachineRecord =
  mr_MachId :: string
  mr_StateNames :: S
  mr_Schema :: "Schema option"
  mr_FirstTracking :: int
  mr_LastTracking :: int
  mr_LastSync :: int
  mr_MTime :: Time
  mr_MTimeSum :: uint64
  mr_MachTick :: uint32
  mr_NextId :: uint64

record TimeRecord =
  tr_MutType :: MutationType
  tr_MTimeSum :: uint64
  tr_MTimeTrackedSum :: uint64
  tr_MTimeDiffSum :: uint64
  tr_MTimeTrackedDiffSum :: uint64
  tr_MTimeRecordDiffSum :: uint64
  tr_HTime :: int
  tr_MTimeTracked :: Time
  tr_MTimeTrackedDiff :: Time
  tr_MachTick :: uint32

record TransitionRecord =
  xr_TransitionId :: nat
  xr_SourceTx :: "nat option"
  xr_SourceMach :: string
  xr_IsAuto :: bool
  xr_IsAccepted :: bool
  xr_IsCheck :: bool
  xr_IsBroken :: bool
  xr_QueueLen :: uint16
  xr_QueuedAt :: uint64
  xr_ExecutedAt :: uint64
  xr_Called :: "int list"
  xr_Arguments :: "(string, string) gomap"

record MemoryRecord =
  me_Time :: TimeRecord
  me_Transition :: "TransitionRecord option"

text \<open>\<open>Memory\<close> with its \<open>BaseMemory\<close>; \<open>hm_bound\<close> says that the tracer is bound to the machine.\<close>

record Memory =
  hm_Cfg :: BaseConfig
  hm_db :: "MemoryRecord list"
  hm_machRec :: "MachineRecord option"
  hm_cacheTrackedIdxs :: "int list"
  hm_bound :: bool

section \<open>The tracer\<close>

definition MachineInit :: "Memory \<Rightarrow> Machine \<Rightarrow> int \<Rightarrow> Memory" where
  "MachineInit h mach now =
     (let rec0 = (case hm_machRec h of
                    Some r \<Rightarrow> r
                  | None \<Rightarrow> \<lparr>mr_MachId = m_id mach, mr_StateNames = [], mr_Schema = None, mr_FirstTracking = now,
                             mr_LastTracking = 0, mr_LastSync = 0, mr_MTime = [], mr_MTimeSum = 0, mr_MachTick = 0,
                             mr_NextId = 1\<rparr>);
          mTime = sl (mach_Time mach None);
          rec1 = rec0\<lparr>mr_MTimeSum := Time_SumAll mTime, mr_MTime := mTime, mr_MachTick := m_machineTick mach,
                      mr_LastTracking := now, mr_LastSync := now\<rparr>;
          rec2 = (if bc_StoreSchema (hm_Cfg h)
                  then rec1\<lparr>mr_Schema := Some (m_schema mach), mr_StateNames := m_stateNames mach\<rparr> else rec1)
      in h\<lparr>hm_machRec := Some rec2\<rparr>)"

definition hist_SchemaChange :: "Memory \<Rightarrow> Machine \<Rightarrow> Memory res" where
  "hist_SchemaChange h mach =
     (if \<not> bc_StoreSchema (hm_Cfg h) then Inr h
      else case hm_machRec h of
        None \<Rightarrow> Inl (GoPanic ''nil pointer dereference'')
      | Some r \<Rightarrow> Inr (h\<lparr>hm_machRec := Some (r\<lparr>mr_Schema := Some (m_schema mach), mr_StateNames := m_stateNames mach\<rparr>)\<rparr>))"

text \<open>The loop over a list of states of the configuration: the first of them among \<open>present\<close> decides.\<close>

fun match_list :: "S \<Rightarrow> bool \<Rightarrow> S \<Rightarrow> bool \<Rightarrow> bool" where
  "match_list present exclude [] matched = matched"
| "match_list present exclude (name # names) matched =
     (if slices_Contains present name then \<not> exclude else match_list present exclude names matched)"

definition hist_match :: "BaseConfig \<Rightarrow> S \<Rightarrow> S \<Rightarrow> bool" where
  "hist_match cfg called changed =
     (let m0 = ((bc_ChangedExclude cfg \<or> length (bc_Changed cfg) = 0) \<and> (bc_CalledExclude cfg \<or> length (bc_Called cfg) = 0));
          m1 = match_list called (bc_CalledExclude cfg) (bc_Called cfg) m0
      in match_list changed (bc_ChangedExclude cfg) (bc_Changed cfg) m1)"

definition hist_Index1 :: "BaseConfig \<Rightarrow> string \<Rightarrow> int" where
  "hist_Index1 cfg state = slices_Index (bc_TrackedStates cfg) state"

definition hist_Index :: "BaseConfig \<Rightarrow> S \<Rightarrow> int list" where
  "hist_Index cfg states = map (\<lambda>state. slices_Index (bc_TrackedStates cfg) state) states"

definition tx_record :: "(A \<Rightarrow> (string, string) gomap) \<Rightarrow> BaseConfig \<Rightarrow> Machine \<Rightarrow> S \<Rightarrow> TransitionRecord" where
  "tx_record mapper cfg mach called =
     (let tx = cur mach; mut = tx_Mutation tx in
      \<lparr>xr_TransitionId = tx_Id tx,
       xr_SourceTx = (case mu_Source mut of None \<Rightarrow> None | Some s \<Rightarrow> Some (ms_TxId s)),
       xr_SourceMach = (case mu_Source mut of None \<Rightarrow> [] | Some s \<Rightarrow> ms_MachId s),
       xr_IsAuto = mu_IsAuto mut, xr_IsAccepted = tx_IsAccepted tx, xr_IsCheck = mu_IsCheck mut, xr_IsBroken = False,
       xr_QueueLen = tx_QueueLen tx, xr_QueuedAt = mu_QueueTick mut,
       xr_ExecutedAt = (if mu_QueueTick mut > 0 then m_queueTick mach else 0),
       xr_Called = hist_Index cfg called, xr_Arguments = mapper (mu_Args mut)\<rparr>)"

text \<open>The times of a record: the tracked part of the time after and before the transition.\<close>

definition time_record ::
  "Machine \<Rightarrow> int \<Rightarrow> uint64 \<Rightarrow> Time \<Rightarrow> Time \<Rightarrow> uint64 \<Rightarrow> TimeRecord" where
  "time_record mach now recordDiff mTimeTracked mTimeTrackedBefore trackedBefore =
     (let tx = cur mach; sum' = Time_SumAll (tx_TimeAfter tx) in
      \<lparr>tr_MutType = mu_Type (tx_Mutation tx), tr_MTimeSum = sum', tr_MTimeTrackedSum = Time_SumAll mTimeTracked,
       tr_MTimeDiffSum = sum' - Time_SumAll (tx_TimeBefore tx),
       tr_MTimeTrackedDiffSum = Time_SumAll mTimeTracked - trackedBefore,
       tr_MTimeRecordDiffSum = recordDiff, tr_HTime = now, tr_MTimeTracked = mTimeTracked,
       tr_MTimeTrackedDiff = Time_DiffSince mTimeTracked mTimeTrackedBefore, tr_MachTick = m_machineTick mach\<rparr>)"

definition rotate_store :: "int \<Rightarrow> MemoryRecord list \<Rightarrow> MemoryRecord \<Rightarrow> MemoryRecord list res" where
  "rotate_store maxRecords db r =
     (if int (length db) \<ge> maxRecords
      then (case db of [] \<Rightarrow> Inl (GoPanic ''slice bounds out of range'') | _ # rest \<Rightarrow> Inr (rest @ [r]))
      else Inr (db @ [r]))"

definition record_diff :: "MemoryRecord list \<Rightarrow> uint64 \<Rightarrow> uint64" where
  "record_diff db sumAll = (if length db > 0 then sumAll - tr_MTimeSum (me_Time (last db)) else 0)"

text \<open>The record of a tracked transition and what becomes of the memory.\<close>

definition hist_store ::
  "(A \<Rightarrow> (string, string) gomap) \<Rightarrow> Memory \<Rightarrow> Machine \<Rightarrow> int \<Rightarrow> S \<Rightarrow> Time \<Rightarrow> Time \<Rightarrow> Memory res" where
  "hist_store mapper h mach now called mTimeTracked mTimeTrackedBefore =
     (let cfg = hm_Cfg h; tx = cur mach; sumAll = Time_SumAll (tx_TimeAfter tx) in
      bindR (Time_Sum (tx_TimeBefore tx) (Some (hm_cacheTrackedIdxs h))) (\<lambda>trackedBefore.
        let r = \<lparr>me_Time = time_record mach now (record_diff (hm_db h) sumAll) mTimeTracked mTimeTrackedBefore trackedBefore,
                 me_Transition = (if bc_StoreTransitions cfg then Some (tx_record mapper cfg mach called) else None)\<rparr>
        in bindR (rotate_store (bc_MaxRecords cfg) (hm_db h) r) (\<lambda>db.
          case hm_machRec h of
            None \<Rightarrow> Inl (GoPanic ''nil pointer dereference'')
          | Some mr \<Rightarrow> Inr (h\<lparr>hm_db := db,
              hm_machRec := Some (mr\<lparr>mr_MTime := tx_TimeAfter tx, mr_MTimeSum := sumAll, mr_LastSync := now,
                                     mr_MachTick := m_machineTick mach, mr_NextId := mr_NextId mr + 1\<rparr>)\<rparr>))))"

text \<open>\<open>mach\<close> is the machine at the end of its current transition.\<close>

definition hist_TransitionEnd ::
  "(A \<Rightarrow> (string, string) gomap) \<Rightarrow> Memory \<Rightarrow> Machine \<Rightarrow> int \<Rightarrow> Memory res" where
  "hist_TransitionEnd mapper h mach now =
     (let tx = cur mach; cfg = hm_Cfg h in
      if (\<not> tx_IsAccepted tx \<and> \<not> bc_TrackRejected cfg) \<or> mu_IsCheck (tx_Mutation tx) then Inr h
      else bindR (tx_CalledStates (m_stateNames mach) tx) (\<lambda>called.
        bindR (TimeIndex_NonZeroStates (Time_ToIndex (Time_DiffSince (tx_TimeAfter tx) (tx_TimeBefore tx)) (m_stateNames mach))) (\<lambda>changed.
          bindR (Time_Filter (tx_TimeAfter tx) (hm_cacheTrackedIdxs h)) (\<lambda>mTimeTracked.
            bindR (Time_Filter (tx_TimeBefore tx) (hm_cacheTrackedIdxs h)) (\<lambda>mTimeTrackedBefore.
              if \<not> hist_match cfg called changed then Inr h
              else hist_store mapper h mach now called mTimeTracked mTimeTrackedBefore)))))"

section \<open>The memory\<close>

definition IsTracked :: "BaseConfig \<Rightarrow> S \<Rightarrow> bool" where
  "IsTracked cfg states = list_all (\<lambda>state. slices_Contains (bc_TrackedStates cfg) state) states"

definition IsTracked1 :: "BaseConfig \<Rightarrow> string \<Rightarrow> bool" where
  "IsTracked1 cfg state = IsTracked cfg [state]"

definition query_states :: "Query \<Rightarrow> S" where
  "query_states q = qu_Active q @ qu_Activated q @ qu_Inactive q @ qu_Deactivated q
     @ co_MTimeStates (qu_Start q) @ co_MTimeStates (qu_End q)"

definition ValidateQuery :: "BaseConfig \<Rightarrow> Query \<Rightarrow> hist_error option" where
  "ValidateQuery cfg q =
     (case find (\<lambda>state. \<not> IsTracked1 cfg state) (query_states q) of
        Some state \<Rightarrow> Some (ErrNotTracked state)
      | None \<Rightarrow>
          (if length (co_MTimeStates (qu_Start q)) \<noteq> length (co_MTime (qu_Start q))
           then Some (ErrTimeLen (length (co_MTimeStates (qu_Start q))) (length (co_MTime (qu_Start q))))
           else if length (co_MTimeStates (qu_End q)) \<noteq> length (co_MTime (qu_End q))
           then Some (ErrTimeLen (length (co_MTimeStates (qu_End q))) (length (co_MTime (qu_End q))))
           else None))"

text \<open>\<open>NewMemory\<close>; the machine record given to it is copied.\<close>

definition track_config :: "BaseConfig \<Rightarrow> BaseConfig" where
  "track_config config =
     (let c1 = (if bc_MaxRecords config \<le> 0 then config\<lparr>bc_MaxRecords := 1000\<rparr> else config);
          c2 = (if \<not> bc_CalledExclude c1 then c1\<lparr>bc_TrackedStates := bc_TrackedStates c1 @ bc_Called c1\<rparr> else c1)
      in if \<not> bc_ChangedExclude c2 then c2\<lparr>bc_TrackedStates := bc_TrackedStates c2 @ bc_Changed c2\<rparr> else c2)"

definition NewMemory :: "MachineRecord option \<Rightarrow> Machine \<Rightarrow> BaseConfig \<Rightarrow> int \<Rightarrow> hist_error + Memory" where
  "NewMemory machRecord mach config now =
     (let c0 = track_config config; c = c0\<lparr>bc_TrackedStates := ParseStates mach (bc_TrackedStates c0)\<rparr> in
      if length (bc_TrackedStates c) = 0 then Inl ErrNoStates
      else Inr ((MachineInit \<lparr>hm_Cfg = c, hm_db = [], hm_machRec = machRecord,
                   hm_cacheTrackedIdxs = mach_Index mach (bc_TrackedStates c), hm_bound = False\<rparr> mach now)\<lparr>hm_bound := True\<rparr>))"

definition hist_MachineRecord :: "Memory \<Rightarrow> MachineRecord res" where
  "hist_MachineRecord h =
     (case hm_machRec h of None \<Rightarrow> Inl (GoPanic ''nil pointer dereference'') | Some r \<Rightarrow> Inr r)"

text \<open>The converters take any value and test its type.\<close>

datatype any_record = AnyTime TimeRecord | AnyMachine MachineRecord | AnyTransition TransitionRecord | AnyMemory MemoryRecord
  | AnyOther

definition ToTimeRecord :: "any_record \<Rightarrow> hist_error + TimeRecord" where
  "ToTimeRecord format = (case format of AnyTime r \<Rightarrow> Inr r | _ \<Rightarrow> Inl ErrIncompatibleType)"

definition ToMachineRecord :: "any_record \<Rightarrow> hist_error + MachineRecord" where
  "ToMachineRecord format = (case format of AnyMachine r \<Rightarrow> Inr r | _ \<Rightarrow> Inl ErrIncompatibleType)"

definition ToTransitionRecord :: "any_record \<Rightarrow> hist_error + TransitionRecord" where
  "ToTransitionRecord format = (case format of AnyTransition r \<Rightarrow> Inr r | _ \<Rightarrow> Inl ErrIncompatibleType)"

definition ToMemoryRecord :: "any_record \<Rightarrow> hist_error + MemoryRecord" where
  "ToMemoryRecord format = (case format of AnyMemory r \<Rightarrow> Inr r | _ \<Rightarrow> Inl ErrIncompatibleType)"

definition hist_Dispose :: "Memory \<Rightarrow> Memory" where
  "hist_Dispose h = h\<lparr>hm_db := [], hm_bound := False\<rparr>"

definition hist_Export :: "Memory \<Rightarrow> MemoryRecord list" where
  "hist_Export h = hm_db h"

section \<open>Finding records\<close>

text \<open>The conditions on states of one record. The code leaves the loop over the states of the query where it means
  to leave the loop over the records, so what remains of a condition are the reads of the ticks.\<close>

fun read_ticks :: "Time \<Rightarrow> int list \<Rightarrow> unit res" where
  "read_ticks t [] = Inr ()"
| "read_ticks t (idx # idxs) = bindR (tget t idx) (\<lambda>_. read_ticks t idxs)"

text \<open>\<open>Activated\<close> (\<open>want\<close> true) and \<open>Deactivated\<close>: the older record is read when this one passes.\<close>

fun read_changes :: "bool \<Rightarrow> Time \<Rightarrow> Time option \<Rightarrow> int list \<Rightarrow> unit res" where
  "read_changes want t older [] = Inr ()"
| "read_changes want t older (idx # idxs) =
     bindR (tget t idx) (\<lambda>v.
       if IsActiveTick v \<noteq> want then read_changes want t older idxs
       else case older of
         None \<Rightarrow> read_changes want t older idxs
       | Some o' \<Rightarrow> bindR (tget o' idx) (\<lambda>_. read_changes want t older idxs))"

text \<open>The index of an \<open>Inactive\<close> state is that of the machine, not that of the tracked states.\<close>

definition state_conditions :: "BaseConfig \<Rightarrow> Machine \<Rightarrow> Query \<Rightarrow> MemoryRecord \<Rightarrow> MemoryRecord option \<Rightarrow> unit res" where
  "state_conditions cfg mach q r older =
     (let t = tr_MTimeTracked (me_Time r); o' = map_option (\<lambda>x. tr_MTimeTracked (me_Time x)) older in
      bindR (read_ticks t (map (hist_Index1 cfg) (qu_Active q))) (\<lambda>_.
      bindR (read_changes True t o' (map (hist_Index1 cfg) (qu_Activated q))) (\<lambda>_.
      bindR (read_ticks t (map (mach_Index1 mach) (qu_Inactive q))) (\<lambda>_.
        read_changes False t o' (map (hist_Index1 cfg) (qu_Deactivated q))))))"

definition in_range :: "'a::{zero, linorder} \<Rightarrow> 'a \<Rightarrow> 'a \<Rightarrow> bool" where
  "in_range s e v = (\<not> (s \<noteq> 0 \<and> e \<noteq> 0 \<and> (v < s \<or> v > e)))"

definition htime_in :: "int option \<Rightarrow> int option \<Rightarrow> int \<Rightarrow> bool" where
  "htime_in s e v = (case (s, e) of (Some a, Some b) \<Rightarrow> \<not> (v < a \<or> v > b) | _ \<Rightarrow> True)"

definition mtime_condition :: "BaseConfig \<Rightarrow> Query \<Rightarrow> TimeRecord \<Rightarrow> bool res" where
  "mtime_condition cfg q t =
     (let s = qu_Start q; e = qu_End q in
      if length (co_MTimeStates s) = 0 then Inr True
      else bindR (Time_Filter (tr_MTimeTracked t) (hist_Index cfg (co_MTimeStates s))) (\<lambda>c.
        Inr (\<not> (Time_Before c False (co_MTime s) \<or> Time_After c False (co_MTime e)))))"

definition time_conditions :: "Query \<Rightarrow> TimeRecord \<Rightarrow> bool" where
  "time_conditions q t =
     (let s = qu_Start q; e = qu_End q in
      htime_in (co_HTime s) (co_HTime e) (tr_HTime t)
      \<and> in_range (co_MTimeSum s) (co_MTimeSum e) (tr_MTimeSum t)
      \<and> in_range (co_MTimeTrackedSum s) (co_MTimeTrackedSum e) (tr_MTimeTrackedSum t)
      \<and> in_range (co_MTimeDiff s) (co_MTimeDiff e) (tr_MTimeDiffSum t)
      \<and> in_range (co_MTimeTrackedDiff s) (co_MTimeTrackedDiff e) (tr_MTimeTrackedDiffSum t)
      \<and> in_range (co_MTimeRecordDiff s) (co_MTimeRecordDiff e) (tr_MTimeRecordDiffSum t)
      \<and> in_range (co_MachTick s) (co_MachTick e) (tr_MachTick t))"

text \<open>The loop over the records, newest first; \<open>found\<close> is the number collected. A context that expires ends it.\<close>

definition older_of :: "MemoryRecord list \<Rightarrow> MemoryRecord option" where
  "older_of rs = (case rs of [] \<Rightarrow> None | r # _ \<Rightarrow> Some r)"

text \<open>Whether a record meets the query, as far as the code looks.\<close>

definition record_matches :: "BaseConfig \<Rightarrow> Machine \<Rightarrow> Query \<Rightarrow> MemoryRecord \<Rightarrow> MemoryRecord option \<Rightarrow> bool res" where
  "record_matches cfg mach q r older =
     bindR (state_conditions cfg mach q r older) (\<lambda>_.
       bindR (mtime_condition cfg q (me_Time r)) (\<lambda>ok. Inr (ok \<and> time_conditions q (me_Time r))))"

fun find_loop :: "BaseConfig \<Rightarrow> Machine \<Rightarrow> Query \<Rightarrow> int \<Rightarrow> nat \<Rightarrow> MemoryRecord list \<Rightarrow> MemoryRecord list res" where
  "find_loop cfg mach q limit found [] = Inr []"
| "find_loop cfg mach q limit found (r # older) =
     bindR (record_matches cfg mach q r (older_of older)) (\<lambda>ok.
       if \<not> ok then find_loop cfg mach q limit found older
       else if limit > 0 \<and> int (Suc found) \<ge> limit then Inr [r]
       else bindR (find_loop cfg mach q limit (Suc found) older) (\<lambda>rest. Inr (r # rest)))"

text \<open>\<open>expired\<close>: the contexts of the call and of the memory are done. The first is looked at in the loop, both
  after it.\<close>

definition FindLatest :: "Memory \<Rightarrow> Machine \<Rightarrow> bool \<times> bool \<Rightarrow> int \<Rightarrow> Query \<Rightarrow> (hist_error + MemoryRecord list) res" where
  "FindLatest h mach expired limit q =
     (case ValidateQuery (hm_Cfg h) q of
        Some err \<Rightarrow> Inr (Inl err)
      | None \<Rightarrow>
          (if fst expired then Inr (Inl ErrCtx)
           else bindR (find_loop (hm_Cfg h) mach q limit 0 (rev (hm_db h))) (\<lambda>rs.
             Inr (if snd expired then Inl ErrCtx else Inr rs))))"

definition Condition_zero :: ConditionTime where
  "Condition_zero = \<lparr>co_MTimeStates = [], co_MTime = [], co_HTime = None, co_MTimeSum = 0, co_MTimeTrackedSum = 0,
     co_MTimeDiff = 0, co_MTimeTrackedDiff = 0, co_MTimeRecordDiff = 0, co_MachTick = 0\<rparr>"

definition Query_zero :: Query where
  "Query_zero = \<lparr>qu_Active = [], qu_Activated = [], qu_Inactive = [], qu_Deactivated = [],
     qu_Start = Condition_zero, qu_End = Condition_zero\<rparr>"

definition between_query :: "int \<Rightarrow> int \<Rightarrow> Query" where
  "between_query s e = Query_zero\<lparr>qu_Start := Condition_zero\<lparr>co_HTime := Some s\<rparr>, qu_End := Condition_zero\<lparr>co_HTime := Some e\<rparr>\<rparr>"

text \<open>\<open>err == nil && ret != nil\<close>\<close>

definition found_any :: "(hist_error + MemoryRecord list) res \<Rightarrow> bool res" where
  "found_any res = bindR res (\<lambda>x. Inr (case x of Inl _ \<Rightarrow> False | Inr rs \<Rightarrow> rs \<noteq> []))"

definition ActivatedBetween :: "Memory \<Rightarrow> Machine \<Rightarrow> bool \<times> bool \<Rightarrow> string \<Rightarrow> int \<Rightarrow> int \<Rightarrow> bool res" where
  "ActivatedBetween h mach expired state s e =
     found_any (FindLatest h mach expired 1 ((between_query s e)\<lparr>qu_Activated := [state]\<rparr>))"

definition ActiveBetween :: "Memory \<Rightarrow> Machine \<Rightarrow> bool \<times> bool \<Rightarrow> string \<Rightarrow> int \<Rightarrow> int \<Rightarrow> bool res" where
  "ActiveBetween h mach expired state s e =
     found_any (FindLatest h mach expired 1 ((between_query s e)\<lparr>qu_Active := [state]\<rparr>))"

definition DeactivatedBetween :: "Memory \<Rightarrow> Machine \<Rightarrow> bool \<times> bool \<Rightarrow> string \<Rightarrow> int \<Rightarrow> int \<Rightarrow> bool res" where
  "DeactivatedBetween h mach expired state s e =
     found_any (FindLatest h mach expired 1 ((between_query s e)\<lparr>qu_Deactivated := [state]\<rparr>))"

definition InactiveBetween :: "Memory \<Rightarrow> Machine \<Rightarrow> bool \<times> bool \<Rightarrow> string \<Rightarrow> int \<Rightarrow> int \<Rightarrow> bool res" where
  "InactiveBetween h mach expired state s e =
     found_any (FindLatest h mach expired 1 ((between_query s e)\<lparr>qu_Inactive := [state]\<rparr>))"

section \<open>A traced machine\<close>

text \<open>The machines at the ends of the transitions that \<open>queue_loop\<close> runs.\<close>

definition tx_end :: "Env \<Rightarrow> Mutation \<Rightarrow> Machine \<Rightarrow> Machine list" where
  "tx_end env mut m =
     (if ctx_expired (en_expired env) (mu_ctx mut) \<or> mu_Type mut = mutationEval then []
      else case bindR (newTransition m mut) (emitEvents env) of
        Inl _ \<Rightarrow> [] | Inr (_, m') \<Rightarrow> [m'])"

fun queue_ends :: "Env \<Rightarrow> nat \<Rightarrow> Machine \<Rightarrow> Machine list" where
  "queue_ends env 0 m = []"
| "queue_ends env (Suc fuel) m =
     (if m_queueLen m = 0 \<or> m_disposing m then []
      else case m_queue m of
        [] \<Rightarrow> []
      | mut # rest \<Rightarrow>
          (let m1 = shift_queue (m\<lparr>m_queueRunning := True\<rparr>) mut rest in
           case run_mutation env mut m1 of
             Inl fault \<Rightarrow> []
           | Inr (r, m2) \<Rightarrow> tx_end env mut m1 @ queue_ends env fuel m2))"

fun hist_ends :: "(A \<Rightarrow> (string, string) gomap) \<Rightarrow> Memory \<Rightarrow> (Machine \<times> int) list \<Rightarrow> Memory res" where
  "hist_ends mapper h [] = Inr h"
| "hist_ends mapper h ((mach, now) # rest) =
     bindR (hist_TransitionEnd mapper h mach now) (\<lambda>h'. hist_ends mapper h' rest)"

end
