(* ===== verification/Am_History_Facts.thy ===== *)
theory Am_History_Facts
  imports Am_History Am_Rpc_Sync
begin

text \<open>
  What the history keeps: the newest records of the tracked transitions, each describing its transition, and what
  a query returns.
\<close>

section \<open>Records describe transitions\<close>

text \<open>A transition that the configuration tracks.\<close>

definition tracked_tx :: "BaseConfig \<Rightarrow> Machine \<Rightarrow> bool" where
  "tracked_tx cfg mach =
     (let tx = cur mach in
      (tx_IsAccepted tx \<or> bc_TrackRejected cfg) \<and> \<not> mu_IsCheck (tx_Mutation tx)
      \<and> (case (tx_CalledStates (m_stateNames mach) tx,
               IndexToStates (m_stateNames mach) (Time_NonZeroStates (Time_DiffSince (tx_TimeAfter tx) (tx_TimeBefore tx)))) of
           (Inr called, Inr changed) \<Rightarrow> hist_match cfg called changed | _ \<Rightarrow> False))"

definition describes :: "int list \<Rightarrow> Machine \<times> int \<Rightarrow> MemoryRecord \<Rightarrow> bool" where
  "describes idxs x r =
     (case x of (mach, now) \<Rightarrow> let tx = cur mach; t = me_Time r in
        tr_MutType t = mu_Type (tx_Mutation tx) \<and> tr_MTimeSum t = Time_SumAll (tx_TimeAfter tx)
        \<and> tr_MTimeDiffSum t = Time_SumAll (tx_TimeAfter tx) - Time_SumAll (tx_TimeBefore tx)
        \<and> Time_Filter (tx_TimeAfter tx) idxs = Inr (tr_MTimeTracked t) \<and> tr_MTimeTrackedSum t = Time_SumAll (tr_MTimeTracked t)
        \<and> tr_HTime t = now \<and> tr_MachTick t = m_machineTick mach)"

text \<open>The difference stored in a record is the one to the record before.\<close>

fun diffs_ok :: "MemoryRecord list \<Rightarrow> bool" where
  "diffs_ok (r # s # rs) =
     (tr_MTimeRecordDiffSum (me_Time s) = tr_MTimeSum (me_Time s) - tr_MTimeSum (me_Time r) \<and> diffs_ok (s # rs))"
| "diffs_ok _ = True"

definition lastn :: "nat \<Rightarrow> 'a list \<Rightarrow> 'a list" where
  "lastn n xs = drop (length xs - n) xs"

lemma lastn_rotate: "0 < n \<Longrightarrow> lastn n (lastn n xs @ [x]) = lastn n (xs @ [x])"
  by (cases "n \<le> length xs") (auto simp: lastn_def Suc_diff_le)

lemma last_lastn: "0 < n \<Longrightarrow> xs \<noteq> [] \<Longrightarrow> last (lastn n xs) = last xs \<and> lastn n xs \<noteq> []"
  unfolding lastn_def by (subst last_drop) (auto simp: not_le diff_less)

lemma diffs_ok_snoc:
  "diffs_ok (xs @ [r]) \<longleftrightarrow>
     diffs_ok xs \<and> (xs \<noteq> [] \<longrightarrow> tr_MTimeRecordDiffSum (me_Time r) = tr_MTimeSum (me_Time r) - tr_MTimeSum (me_Time (last xs)))"
  by (induction xs rule: diffs_ok.induct) auto

lemma rotate_store_lastn:
  "0 < n \<Longrightarrow> length db \<le> n \<Longrightarrow> rotate_store (int n) db r = Inr (lastn n (db @ [r]))"
  by (cases "length db = n"; cases db) (auto simp: rotate_store_def lastn_def)

lemma length_lastn: "length (lastn n xs) \<le> n"
  by (simp add: lastn_def)

section \<open>One transition\<close>

text \<open>What a traced transition makes of the memory.\<close>

definition stored :: "Memory \<Rightarrow> Machine \<times> int \<Rightarrow> MemoryRecord \<Rightarrow> Memory \<Rightarrow> bool" where
  "stored h x r h' =
     (describes (hm_cacheTrackedIdxs h) x r \<and> hm_Cfg h' = hm_Cfg h \<and> hm_cacheTrackedIdxs h' = hm_cacheTrackedIdxs h
      \<and> tr_MTimeRecordDiffSum (me_Time r) = record_diff (hm_db h) (tr_MTimeSum (me_Time r))
      \<and> rotate_store (bc_MaxRecords (hm_Cfg h)) (hm_db h) r = Inr (hm_db h')
      \<and> (\<exists>mr mr'. hm_machRec h = Some mr \<and> hm_machRec h' = Some mr' \<and> mr_NextId mr' = mr_NextId mr + 1
           \<and> mr_MTime mr' = tx_TimeAfter (cur (fst x))))"

lemma hist_TransitionEnd_cases:
  assumes "hist_TransitionEnd mapper h mach now = Inr h'"
  shows "if tracked_tx (hm_Cfg h) mach then \<exists>r. stored h (mach, now) r h' else h' = h"
proof (cases "(\<not> tx_IsAccepted (cur mach) \<and> \<not> bc_TrackRejected (hm_Cfg h)) \<or> mu_IsCheck (tx_Mutation (cur mach))")
  case True
  with assms show ?thesis by (auto simp: hist_TransitionEnd_def tracked_tx_def Let_def)
next
  case False
  with assms obtain called changed mt mb where
    p: "tx_CalledStates (m_stateNames mach) (cur mach) = Inr called"
      "IndexToStates (m_stateNames mach) (Time_NonZeroStates (Time_DiffSince (tx_TimeAfter (cur mach)) (tx_TimeBefore (cur mach)))) = Inr changed"
      "Time_Filter (tx_TimeAfter (cur mach)) (hm_cacheTrackedIdxs h) = Inr mt"
    and q: "(if \<not> hist_match (hm_Cfg h) called changed then Inr h else hist_store mapper h mach now called mt mb) = Inr h'"
    by (auto simp: hist_TransitionEnd_def Let_def bindR_eq_Inr TimeIndex_NonZeroStates_def Time_ToIndex_def)
  have t: "tracked_tx (hm_Cfg h) mach = hist_match (hm_Cfg h) called changed"
    using False p(1,2) by (auto simp: tracked_tx_def Let_def)
  show ?thesis
  proof (cases "hist_match (hm_Cfg h) called changed")
    case True
    with q have "hist_store mapper h mach now called mt mb = Inr h'" by simp
    then obtain r db mr where r: "rotate_store (bc_MaxRecords (hm_Cfg h)) (hm_db h) r = Inr db" "hm_machRec h = Some mr"
      "describes (hm_cacheTrackedIdxs h) (mach, now) r"
      "tr_MTimeRecordDiffSum (me_Time r) = record_diff (hm_db h) (tr_MTimeSum (me_Time r))"
      "h' = h\<lparr>hm_db := db, hm_machRec := Some (mr\<lparr>mr_MTime := tx_TimeAfter (cur mach),
        mr_MTimeSum := Time_SumAll (tx_TimeAfter (cur mach)), mr_LastSync := now, mr_MachTick := m_machineTick mach,
        mr_NextId := mr_NextId mr + 1\<rparr>)\<rparr>"
      using p(3) by (auto simp: hist_store_def Let_def bindR_eq_Inr describes_def time_record_def split: option.splits)
    then have "stored h (mach, now) r h'" by (simp add: stored_def)
    then show ?thesis using t True by auto
  qed (use q t in simp)
qed

section \<open>The window of records\<close>

lemma stored_window:
  assumes "stored h x r h'" "bc_MaxRecords (hm_Cfg h) = int n" "0 < n" "hm_db h = lastn n rs" "diffs_ok rs"
  shows "hm_db h' = lastn n (rs @ [r])" "diffs_ok (rs @ [r])"
proof -
  have "rotate_store (int n) (hm_db h) r = Inr (hm_db h')" using assms(1,2) by (simp add: stored_def)
  moreover have "rotate_store (int n) (hm_db h) r = Inr (lastn n (hm_db h @ [r]))"
    using rotate_store_lastn [OF assms(3)] length_lastn [of n rs] assms(4) by metis
  ultimately have "hm_db h' = lastn n (lastn n rs @ [r])" using assms(4) by simp
  then show "hm_db h' = lastn n (rs @ [r])" using lastn_rotate [OF assms(3)] by metis
  show "diffs_ok (rs @ [r])"
    using assms last_lastn [OF assms(3), of rs] by (auto simp: diffs_ok_snoc stored_def record_diff_def)
qed

text \<open>C23. The history is a window on the tracked transitions. Over any sequence of ends of transitions the memory
  holds the newest \<open>MaxRecords\<close> of one record per tracked transition, in order; each describes its transition (sums,
  differences and tracked ticks of the machine time after it), the difference of a record is that to the record
  before it even when that has been rotated out, and the machine record counts them.\<close>

theorem history_window:
  assumes "hist_ends mapper h ends = Inr h'" "bc_MaxRecords (hm_Cfg h) = int n" "0 < n" "hm_db h = lastn n rs" "diffs_ok rs"
    "hm_machRec h = Some mr"
  shows "\<exists>recs. hm_db h' = lastn n (rs @ recs) \<and> length (hm_db h') \<le> n \<and> diffs_ok (rs @ recs)
    \<and> list_all2 (describes (hm_cacheTrackedIdxs h)) (filter (\<lambda>(mach, now). tracked_tx (hm_Cfg h) mach) ends) recs
    \<and> (\<exists>mr'. hm_machRec h' = Some mr' \<and> mr_NextId mr' = mr_NextId mr + of_nat (length recs))"
  using assms
proof (induction ends arbitrary: h rs mr)
  case Nil
  then show ?case using length_lastn [of n rs] by (intro exI [of _ "[]"]) simp
next
  case (Cons x ends)
  obtain mach now where x: "x = (mach, now)" by fastforce
  from Cons.prems(1) x obtain h1 where 1: "hist_TransitionEnd mapper h mach now = Inr h1" "hist_ends mapper h1 ends = Inr h'"
    by (auto simp: bindR_eq_Inr)
  show ?case
  proof (cases "tracked_tx (hm_Cfg h) mach")
    case False
    with hist_TransitionEnd_cases [OF 1(1)] have "h1 = h" by simp
    with Cons.IH [OF _ Cons.prems(2-6)] 1(2) False x show ?thesis by simp
  next
    case True
    then obtain r where r: "stored h (mach, now) r h1" using hist_TransitionEnd_cases [OF 1(1)] by auto
    note w = stored_window [OF r Cons.prems(2-5)]
    have f: "hm_Cfg h1 = hm_Cfg h" "hm_cacheTrackedIdxs h1 = hm_cacheTrackedIdxs h" "describes (hm_cacheTrackedIdxs h) (mach, now) r"
      using r by (simp_all add: stored_def)
    obtain mr1 where mr1: "hm_machRec h1 = Some mr1" "mr_NextId mr1 = mr_NextId mr + 1"
      using r Cons.prems(6) by (auto simp: stored_def)
    from Cons.IH [OF 1(2) _ Cons.prems(3) w mr1(1)] f(1) Cons.prems(2) obtain recs mr' where
      i: "hm_db h' = lastn n ((rs @ [r]) @ recs)" "length (hm_db h') \<le> n" "diffs_ok ((rs @ [r]) @ recs)"
      "list_all2 (describes (hm_cacheTrackedIdxs h)) (filter (\<lambda>(mach, now). tracked_tx (hm_Cfg h) mach) ends) recs"
      "hm_machRec h' = Some mr'" "mr_NextId mr' = mr_NextId mr1 + of_nat (length recs)"
      unfolding f by auto
    then show ?thesis using True x f(3) mr1(2) by (intro exI [of _ "r # recs"]) (simp add: ac_simps)
  qed
qed

section \<open>What a query finds\<close>

text \<open>Every record holds the tick of every tracked state.\<close>

definition mem_ok :: "Memory \<Rightarrow> bool" where
  "mem_ok h = (length (hm_cacheTrackedIdxs h) = length (bc_TrackedStates (hm_Cfg h))
     \<and> list_all (\<lambda>r. length (tr_MTimeTracked (me_Time r)) = length (bc_TrackedStates (hm_Cfg h))) (hm_db h))"

lemma mapR_length: "mapR f xs = Inr ys \<Longrightarrow> length ys = length xs"
  by (induction xs arbitrary: ys) (auto simp: bindR_eq_Inr split: sum.splits)

lemma rotate_store_set: "rotate_store n db r = Inr db' \<Longrightarrow> set db' \<subseteq> insert r (set db)"
  by (cases db) (auto simp: rotate_store_def split: if_splits)

lemma hist_TransitionEnd_mem_ok:
  assumes "hist_TransitionEnd mapper h mach now = Inr h'" "mem_ok h"
  shows "mem_ok h' \<and> hm_Cfg h' = hm_Cfg h"
proof (cases "tracked_tx (hm_Cfg h) mach")
  case False
  with hist_TransitionEnd_cases [OF assms(1)] have "h' = h" by simp
  with assms(2) show ?thesis by simp
next
  case True
  then obtain r where r: "stored h (mach, now) r h'" using hist_TransitionEnd_cases [OF assms(1)] by auto
  then have f: "Time_Filter (tx_TimeAfter (cur mach)) (hm_cacheTrackedIdxs h) = Inr (tr_MTimeTracked (me_Time r))"
    "set (hm_db h') \<subseteq> insert r (set (hm_db h))" "hm_Cfg h' = hm_Cfg h" "hm_cacheTrackedIdxs h' = hm_cacheTrackedIdxs h"
    by (auto simp: stored_def describes_def Let_def dest: rotate_store_set)
  have "length (tr_MTimeTracked (me_Time r)) = length (hm_cacheTrackedIdxs h)"
    using f(1) mapR_length unfolding Time_Filter_def by blast
  then show ?thesis using f(2-4) assms(2) by (auto simp: mem_ok_def list_all_iff)
qed

lemma hist_ends_mem_ok: "hist_ends mapper h ends = Inr h' \<Longrightarrow> mem_ok h \<Longrightarrow> mem_ok h' \<and> hm_Cfg h' = hm_Cfg h"
proof (induction mapper h ends rule: hist_ends.induct)
  case (2 mapper h mach now rest)
  then show ?case using hist_TransitionEnd_mem_ok by (fastforce simp: bindR_eq_Inr)
qed simp

lemma NewMemory_mem_ok: "NewMemory r mach c now = Inr h \<Longrightarrow> \<not> m_disposing mach \<Longrightarrow> mem_ok h"
  by (auto simp: NewMemory_def MachineInit_def Let_def mem_ok_def mach_Index_def StatesToIndex_def split: if_splits)

text \<open>What the conditions of a query come to.\<close>

definition mtime_in :: "BaseConfig \<Rightarrow> Query \<Rightarrow> TimeRecord \<Rightarrow> bool" where
  "mtime_in cfg q t =
     (let c = map (\<lambda>s. tr_MTimeTracked t ! nat (hist_Index1 cfg s)) (co_MTimeStates (qu_Start q)) in
      c = [] \<or> \<not> (Time_Before c False (co_MTime (qu_Start q)) \<or> Time_After c False (co_MTime (qu_End q))))"

definition meets :: "BaseConfig \<Rightarrow> Query \<Rightarrow> MemoryRecord \<Rightarrow> bool" where
  "meets cfg q r = (mtime_in cfg q (me_Time r) \<and> time_conditions q (me_Time r))"

definition idx_ok :: "nat \<Rightarrow> int \<Rightarrow> bool" where
  "idx_ok n i = (0 \<le> i \<and> i < int n)"

lemma read_ticks_ok: "list_all (idx_ok (length t)) idxs \<Longrightarrow> read_ticks t idxs = Inr ()"
  by (induction idxs) (auto simp: idx_ok_def tget_def)

lemma read_changes_ok:
  "list_all (idx_ok (length t)) idxs \<Longrightarrow> (\<And>o'. older = Some o' \<Longrightarrow> length o' = length t) \<Longrightarrow>
   read_changes want t older idxs = Inr ()"
  by (induction idxs) (auto simp: idx_ok_def tget_def split: option.splits)

lemma hist_Index1_ok: "IsTracked1 cfg state \<Longrightarrow> idx_ok (length (bc_TrackedStates cfg)) (hist_Index1 cfg state)"
  using slices_Index_bounds [of state "bc_TrackedStates cfg"]
  by (auto simp: IsTracked1_def IsTracked_def hist_Index1_def idx_ok_def)

lemma valid_tracked: "ValidateQuery cfg q = None \<Longrightarrow> state \<in> set (query_states q) \<Longrightarrow> IsTracked1 cfg state"
  by (auto simp: ValidateQuery_def find_None_iff split: option.splits)

lemma hist_Index_map: "hist_Index cfg xs = map (hist_Index1 cfg) xs"
  by (simp add: hist_Index_def hist_Index1_def)

lemma record_matches_meets:
  assumes v: "ValidateQuery cfg q = None" and r: "length (tr_MTimeTracked (me_Time r)) = length (bc_TrackedStates cfg)"
    and older: "\<And>o'. older = Some o' \<Longrightarrow> length (tr_MTimeTracked (me_Time o')) = length (bc_TrackedStates cfg)"
    and inact: "list_all (\<lambda>s. idx_ok (length (bc_TrackedStates cfg)) (mach_Index1 mach s)) (qu_Inactive q)"
  shows "record_matches cfg mach q r older = Inr (meets cfg q r)"
proof -
  let ?n = "length (tr_MTimeTracked (me_Time r))"
  have ok: "list_all (idx_ok ?n) (map (hist_Index1 cfg) xs)" if "set xs \<subseteq> set (query_states q)" for xs
    using that valid_tracked [OF v] hist_Index1_ok r by (auto simp: list_all_iff)
  have sub: "set (qu_Active q) \<subseteq> set (query_states q)" "set (qu_Activated q) \<subseteq> set (query_states q)"
    "set (qu_Deactivated q) \<subseteq> set (query_states q)" "set (co_MTimeStates (qu_Start q)) \<subseteq> set (query_states q)"
    by (auto simp: query_states_def)
  have "read_changes want (tr_MTimeTracked (me_Time r)) (map_option (\<lambda>x. tr_MTimeTracked (me_Time x)) older)
      (map (hist_Index1 cfg) xs) = Inr ()" if "set xs \<subseteq> set (query_states q)" for want xs
    by (rule read_changes_ok [OF ok [OF that]]) (use older r in auto)
  then have "state_conditions cfg mach q r older = Inr ()"
    using read_ticks_ok [OF ok [OF sub(1)]] sub(2,3) inact r
      read_ticks_ok [of "tr_MTimeTracked (me_Time r)" "map (mach_Index1 mach) (qu_Inactive q)"]
    by (simp add: state_conditions_def Let_def list_all_iff)
  moreover have "mtime_condition cfg q (me_Time r) = Inr (mtime_in cfg q (me_Time r))"
  proof (cases "co_MTimeStates (qu_Start q)")
    case (Cons a as)
    have "Time_Filter (tr_MTimeTracked (me_Time r)) (map (hist_Index1 cfg) (co_MTimeStates (qu_Start q)))
        = Inr (map (\<lambda>i. tr_MTimeTracked (me_Time r) ! nat i) (map (hist_Index1 cfg) (co_MTimeStates (qu_Start q))))"
      using ok [OF sub(4)] by (intro Time_Filter_in_range) (simp add: list_all_iff idx_ok_def)
    then show ?thesis
      using Cons by (simp add: mtime_condition_def mtime_in_def Let_def hist_Index_map comp_def)
  qed (simp add: mtime_condition_def mtime_in_def Let_def)
  ultimately show ?thesis by (simp add: record_matches_def meets_def)
qed

definition limited :: "int \<Rightarrow> 'a list \<Rightarrow> 'a list" where
  "limited limit xs = (if limit > 0 then take (nat limit) xs else xs)"

lemma find_loop_filter:
  assumes "ValidateQuery cfg q = None" "list_all (\<lambda>s. idx_ok (length (bc_TrackedStates cfg)) (mach_Index1 mach s)) (qu_Inactive q)"
    "list_all (\<lambda>r. length (tr_MTimeTracked (me_Time r)) = length (bc_TrackedStates cfg)) rs" "0 < limit \<longrightarrow> int found < limit"
  shows "find_loop cfg mach q limit found rs
    = Inr (if limit > 0 then take (nat (limit - int found)) (filter (meets cfg q) rs) else filter (meets cfg q) rs)"
  using assms(3,4)
proof (induction rs arbitrary: found)
  case (Cons r rs)
  have "record_matches cfg mach q r (older_of rs) = Inr (meets cfg q r)"
    using Cons.prems(1) assms(1,2) by (intro record_matches_meets) (auto simp: older_of_def split: list.splits)
  moreover have "nat (limit - int found) = Suc (nat (limit - int (Suc found)))" if "0 < limit"
    using Cons.prems(2) that by simp
  ultimately show ?case using Cons by (auto simp: not_le)
qed simp

text \<open>What \<open>FindLatest\<close> returns for any valid query, unless an \<open>Inactive\<close> state makes it read out of range. The states the query
  asks to be active, activated, inactive or deactivated play no part in the answer, contrary to the documentation of
  \<open>Query\<close>.\<close>

theorem FindLatest_exact:
  assumes "NewMemory rec0 m0 config t0 = Inr h0" "\<not> m_disposing m0" "hist_ends mapper h0 ends = Inr h"
    "ValidateQuery (hm_Cfg h) q = None"
    "list_all (\<lambda>s. idx_ok (length (bc_TrackedStates (hm_Cfg h))) (mach_Index1 mach s)) (qu_Inactive q)"
  shows "FindLatest h mach (False, False) limit q = Inr (Inr (limited limit (filter (meets (hm_Cfg h) q) (rev (hm_db h)))))"
proof -
  have "mem_ok h" using hist_ends_mem_ok [OF assms(3)] NewMemory_mem_ok [OF assms(1,2)] by simp
  then have "list_all (\<lambda>r. length (tr_MTimeTracked (me_Time r)) = length (bc_TrackedStates (hm_Cfg h))) (rev (hm_db h))"
    by (simp add: mem_ok_def)
  from find_loop_filter [OF assms(4,5) this, of limit 0] show ?thesis
    using assms(4) by (auto simp: FindLatest_def limited_def)
qed

text \<open>A range whose two ends are set.\<close>

definition within :: "'a::{zero, linorder} \<Rightarrow> 'a \<Rightarrow> 'a \<Rightarrow> bool" where
  "within s e v = (s = 0 \<or> e = 0 \<or> s \<le> v \<and> v \<le> e)"

definition scalars_within :: "ConditionTime \<Rightarrow> ConditionTime \<Rightarrow> TimeRecord \<Rightarrow> bool" where
  "scalars_within s e t =
     ((\<forall>a b. co_HTime s = Some a \<and> co_HTime e = Some b \<longrightarrow> a \<le> tr_HTime t \<and> tr_HTime t \<le> b)
      \<and> within (co_MTimeSum s) (co_MTimeSum e) (tr_MTimeSum t)
      \<and> within (co_MTimeTrackedSum s) (co_MTimeTrackedSum e) (tr_MTimeTrackedSum t)
      \<and> within (co_MTimeDiff s) (co_MTimeDiff e) (tr_MTimeDiffSum t)
      \<and> within (co_MTimeTrackedDiff s) (co_MTimeTrackedDiff e) (tr_MTimeTrackedDiffSum t)
      \<and> within (co_MTimeRecordDiff s) (co_MTimeRecordDiff e) (tr_MTimeRecordDiffSum t)
      \<and> within (co_MachTick s) (co_MachTick e) (tr_MachTick t))"

lemma time_conditions_within: "time_conditions q t = scalars_within (qu_Start q) (qu_End q) t"
  by (auto simp: time_conditions_def scalars_within_def htime_in_def in_range_def within_def Let_def not_less
      split: option.splits)

text \<open>C24. What \<open>FindLatest\<close> returns for a query of scalar ranges, that is without states (none asked to be active, activated,
  inactive or deactivated, no machine times of single states). On a memory that was created for a machine which is not
  disposing and that has traced any ends of transitions, and with contexts that are not done, it returns the kept
  records whose human time, time sums, differences and machine tick lie within every range of the query that has both
  ends set: newest first, and as many as the limit allows when it is positive.\<close>

theorem FindLatest_ranges:
  assumes "NewMemory rec0 m0 config t0 = Inr h0" "\<not> m_disposing m0" "hist_ends mapper h0 ends = Inr h"
    "qu_Active q = []" "qu_Activated q = []" "qu_Inactive q = []" "qu_Deactivated q = []"
    "co_MTimeStates (qu_Start q) = []" "co_MTimeStates (qu_End q) = []" "co_MTime (qu_Start q) = []" "co_MTime (qu_End q) = []"
  shows "FindLatest h mach (False, False) limit q
    = Inr (Inr (limited limit (rev (filter (\<lambda>r. scalars_within (qu_Start q) (qu_End q) (me_Time r)) (hm_db h)))))"
proof -
  have v: "ValidateQuery (hm_Cfg h) q = None" using assms(4-11) by (simp add: ValidateQuery_def query_states_def)
  have "meets (hm_Cfg h) q = (\<lambda>r. scalars_within (qu_Start q) (qu_End q) (me_Time r))"
    using assms(8) by (auto simp: meets_def mtime_in_def time_conditions_within Let_def)
  with FindLatest_exact [OF assms(1-3) v, of mach limit] assms(6) show ?thesis by (simp add: rev_filter)
qed

section \<open>Runs\<close>

text \<open>A machine of two states, its history, and mutations that are traced one time unit apart.\<close>

definition hx_env :: Env where
  "hx_env = \<lparr>en_handler = (\<lambda>m n method args. ([], HRet True)), en_eval = (\<lambda>_. []), en_expired = (\<lambda>_. False),
     en_query = (\<lambda>_ _. False)\<rparr>"

definition hx_mach :: Machine where
  "hx_mach = snd (VerifyStates (newMachine [(''A'', State_zero), (''B'', State_zero)] ex_opts ''id'') [''A'', ''B'', ''Exception''])"

definition hx_config :: "S \<Rightarrow> int \<Rightarrow> BaseConfig" where
  "hx_config tracked n = \<lparr>bc_Called = [], bc_CalledExclude = False, bc_Changed = [], bc_ChangedExclude = False,
     bc_TrackRejected = False, bc_TrackedStates = tracked, bc_StoreTransitions = True, bc_StoreSchema = True, bc_MaxRecords = n\<rparr>"

fun hx_ends :: "Machine \<Rightarrow> (int \<times> S) list \<Rightarrow> (Machine \<times> int) list" where
  "hx_ends m [] = []"
| "hx_ends m ((now, states) # muts) =
     (case (Add_prep m states [], mach_Add hx_env 9 m states []) of
        (Inr (_, m1), Inr (_, m2)) \<Rightarrow>
          map (\<lambda>e. (e, now)) (queue_ends hx_env 9 (m1\<lparr>m_queueProcessing := True\<rparr>)) @ hx_ends m2 muts
      | _ \<Rightarrow> [])"

definition hx_run :: "S \<Rightarrow> int \<Rightarrow> (int \<times> S) list \<Rightarrow> (Memory \<Rightarrow> Memory \<Rightarrow> bool) \<Rightarrow> bool" where
  "hx_run tracked n muts Q =
     (case NewMemory None hx_mach (hx_config tracked n) 0 of
        Inl _ \<Rightarrow> False | Inr h \<Rightarrow> res_ok (Q h) (hist_ends (\<lambda>_. []) h (hx_ends hx_mach muts)))"

lemma hx_runE:
  assumes "hx_run tracked n muts Q"
  shows "\<exists>h h'. NewMemory None hx_mach (hx_config tracked n) 0 = Inr h
    \<and> hist_ends (\<lambda>_. []) h (hx_ends hx_mach muts) = Inr h' \<and> Q h h'"
  using assms res_okE unfolding hx_run_def by (auto split: sum.splits)

lemma hx_window:
  "hx_run [''A'', ''B''] 2 [(1, [''A'']), (2, [''B'']), (3, [''B''])]
     (\<lambda>h h'. bc_MaxRecords (hm_Cfg h) = int 2 \<and> hm_db h = [] \<and> hm_machRec h \<noteq> None
       \<and> map (\<lambda>r. (tr_HTime (me_Time r), tr_MTimeTracked (me_Time r))) (hm_db h') = [(2, [1, 1]), (3, [1, 1])])"
  by code_simp

theorem history_window_witness:
  "\<exists>h h' recs. hist_ends (\<lambda>_. []) h (hx_ends hx_mach [(1, [''A'']), (2, [''B'']), (3, [''B''])]) = Inr h'
     \<and> hm_db h' = lastn 2 recs \<and> diffs_ok recs \<and> map (\<lambda>r. tr_HTime (me_Time r)) (hm_db h') = [2, 3]"
proof -
  obtain h h' mr where h: "hist_ends (\<lambda>_. []) h (hx_ends hx_mach [(1, [''A'']), (2, [''B'']), (3, [''B''])]) = Inr h'"
    "bc_MaxRecords (hm_Cfg h) = int 2" "hm_db h = lastn 2 []" "hm_machRec h = Some mr"
    "map (\<lambda>r. (tr_HTime (me_Time r), tr_MTimeTracked (me_Time r))) (hm_db h') = [(2, [1, 1]), (3, [1, 1])]"
    using hx_runE [OF hx_window] by (auto simp: lastn_def)
  from h(5) have t: "map (\<lambda>r. tr_HTime (me_Time r)) (hm_db h') = [2, 3]" by auto
  obtain recs where "hm_db h' = lastn 2 ([] @ recs)" "diffs_ok ([] @ recs)"
    using history_window [OF h(1,2) _ h(3) _ h(4)] by auto
  then have r: "hm_db h' = lastn 2 recs" "diffs_ok recs" by simp_all
  show ?thesis by (intro exI conjI) (rule h(1), rule r(1), rule r(2), rule t)
qed

lemma hx_find:
  "hx_run [''A'', ''B''] 9 [(1, [''A'']), (2, [''B'']), (3, [''B''])]
     (\<lambda>h h'. map (\<lambda>r. tr_HTime (me_Time r)) (hm_db h') = [1, 2, 3])"
  by code_simp

theorem FindLatest_ranges_witness:
  "\<exists>h rs. FindLatest h hx_mach (False, False) 0 (between_query 2 3) = Inr (Inr rs) \<and> map (\<lambda>r. tr_HTime (me_Time r)) rs = [3, 2]
     \<and> length (hm_db h) = 3"
proof -
  obtain h0 h where h: "NewMemory None hx_mach (hx_config [''A'', ''B''] 9) 0 = Inr h0"
    "hist_ends (\<lambda>_. []) h0 (hx_ends hx_mach [(1, [''A'']), (2, [''B'']), (3, [''B''])]) = Inr h"
    "map (\<lambda>r. tr_HTime (me_Time r)) (hm_db h) = [1, 2, 3]"
    using hx_runE [OF hx_find] by (elim exE conjE) (rule that)
  have d: "\<not> m_disposing hx_mach" by code_simp
  have f: "scalars_within (qu_Start (between_query 2 3)) (qu_End (between_query 2 3)) t = (2 \<le> tr_HTime t \<and> tr_HTime t \<le> 3)" for t
    by (simp add: scalars_within_def between_query_def Condition_zero_def Query_zero_def within_def)
  have "FindLatest h hx_mach (False, False) 0 (between_query 2 3) = Inr (Inr (limited 0 (rev (filter
      (\<lambda>r. scalars_within (qu_Start (between_query 2 3)) (qu_End (between_query 2 3)) (me_Time r)) (hm_db h)))))"
    by (rule FindLatest_ranges [OF h(1) d h(2)]) (simp_all add: between_query_def Query_zero_def Condition_zero_def)
  moreover obtain a b c where "hm_db h = [a, b, c]" "tr_HTime (me_Time a) = 1" "tr_HTime (me_Time b) = 2" "tr_HTime (me_Time c) = 3"
    using h(3) by (auto simp: map_eq_Cons_conv)
  ultimately show ?thesis by (intro exI [of _ h]) (simp add: f limited_def)
qed

text \<open>The predefined queries of the history do not look at their state. After two mutations of \<open>A\<close> the state \<open>B\<close>,
  the only one tracked and never active, is reported as activated, active and deactivated, and the question whether
  it was inactive panics, as its position among all states is used on the tracked ones.\<close>

theorem history_ignores_state:
  "hx_run [''B''] 9 [(1, [''A'']), (2, [''A''])]
     (\<lambda>h h'. map (\<lambda>r. tr_MTimeTracked (me_Time r)) (hm_db h') = [[0], [0]]
       \<and> ActivatedBetween h' hx_mach (False, False) ''B'' 1 2 = Inr True
       \<and> ActiveBetween h' hx_mach (False, False) ''B'' 1 2 = Inr True
       \<and> DeactivatedBetween h' hx_mach (False, False) ''B'' 1 2 = Inr True
       \<and> InactiveBetween h' hx_mach (False, False) ''B'' 1 2 = Inl (GoPanic ''index out of range''))"
  by code_simp

end
