(* ===== verification/Am_Pipes.thy ===== *)
theory Am_Pipes
  imports Am_Api Am_Schemas
begin

text \<open>
  Pipes between machines, \<open>src/pkg/states/pipes/pipes.go\<close>: final handlers of a source machine that mutate a target
  machine. A pipe acts at once (flat pipes to a local target) or starts a goroutine; the calls of goroutines are
  collected and delivered later, in any order. The entries of pipes in the semantic log are left out.
\<close>

section \<open>Single pipes\<close>

text \<open>A pipe is the closure returned by \<open>add\<close> and \<open>remove\<close>, with what it captures.\<close>

record pipe =
  pi_add :: bool
  pi_flat :: bool
  pi_names :: S

definition PrefixErr :: string where "PrefixErr = ''Err''"

definition StateReady :: string where "StateReady = ''Ready''"

definition pipe_target :: "string \<Rightarrow> string \<Rightarrow> string res" where
  "pipe_target sourceState targetState =
     (if sourceState = [] then Inl (GoPanic ''state missing'')
      else Inr (if targetState = [] then sourceState else targetState))"

definition pipe_add :: "bool \<Rightarrow> string \<Rightarrow> string \<Rightarrow> pipe res" where
  "pipe_add flat sourceState targetState =
     bindR (pipe_target sourceState targetState) (\<lambda>t.
       Inr \<lparr>pi_add = True, pi_flat = flat,
            pi_names = (if strings_HasPrefix t PrefixErr then [StateException, t] else [t])\<rparr>)"

definition pipe_remove :: "bool \<Rightarrow> string \<Rightarrow> string \<Rightarrow> pipe res" where
  "pipe_remove flat sourceState targetState =
     bindR (pipe_target sourceState targetState) (\<lambda>t. Inr \<lparr>pi_add = False, pi_flat = flat, pi_names = [t]\<rparr>)"

definition pipes_Add :: "string \<Rightarrow> string \<Rightarrow> pipe res" where
  "pipes_Add sourceState targetState = pipe_add False sourceState targetState"

definition AddFlat :: "string \<Rightarrow> string \<Rightarrow> pipe res" where
  "AddFlat sourceState targetState = pipe_add True sourceState targetState"

definition pipes_Remove :: "string \<Rightarrow> string \<Rightarrow> pipe res" where
  "pipes_Remove sourceState targetState = pipe_remove False sourceState targetState"

definition RemoveFlat :: "string \<Rightarrow> string \<Rightarrow> pipe res" where
  "RemoveFlat sourceState targetState = pipe_remove True sourceState targetState"

section \<open>What a pipe does\<close>

text \<open>The call of the target, and whether it is made at once or in a goroutine.\<close>

datatype pipe_call = PAdd Event S A | PRemove Event string A | PSet S A

datatype pipe_action = NoCall | CallNow pipe_call | CallGo pipe_call

definition add_fire :: "pipe \<Rightarrow> bool \<Rightarrow> Machine \<Rightarrow> Event \<Rightarrow> A \<Rightarrow> pipe_action" where
  "add_fire p isLocal target e args =
     (if pi_flat p \<and> Is target (pi_names p) then NoCall
      else if pi_flat p then
        (if isLocal then CallNow (PAdd e (pi_names p) []) else CallGo (PAdd e (pi_names p) []))
      else CallGo (PAdd e (pi_names p) args))"

definition remove_fire :: "pipe \<Rightarrow> bool \<Rightarrow> Machine \<Rightarrow> Event \<Rightarrow> A \<Rightarrow> pipe_action res" where
  "remove_fire p isLocal target e args =
     (let targetState = hd (pi_names p) in
      if \<not> pi_flat p then Inr (CallGo (PRemove e targetState args))
      else bindR (Not1 target targetState) (\<lambda>no.
        Inr (if no then NoCall
             else if isLocal then CallNow (PRemove e targetState [])
             else CallGo (PRemove e targetState []))))"

definition pipe_fire :: "pipe \<Rightarrow> bool \<Rightarrow> Machine \<Rightarrow> Event \<Rightarrow> A \<Rightarrow> pipe_action res" where
  "pipe_fire p isLocal target e args =
     (if pi_add p then Inr (add_fire p isLocal target e args) else remove_fire p isLocal target e args)"

text \<open>The handler \<open>AnyState\<close> of \<open>BindAny\<close>.\<close>

definition any_fire :: "Machine \<Rightarrow> S \<Rightarrow> A \<Rightarrow> pipe_action" where
  "any_fire target states args = (if Is target states then NoCall else CallNow (PSet states args))"

definition pipe_run :: "Env \<Rightarrow> nat \<Rightarrow> Machine \<Rightarrow> pipe_call \<Rightarrow> (Result \<times> Machine) res" where
  "pipe_run env fuel target c =
     (case c of
        PAdd e names args \<Rightarrow> EvAdd env fuel target (Some e) names args
      | PRemove e name args \<Rightarrow> EvRemove1 env fuel target (Some e) name args
      | PSet states args \<Rightarrow> mach_Set env fuel target states args)"

section \<open>Bindings\<close>

text \<open>A struct of handlers: its fields in order, each with a pipe, the function of \<open>BindAny\<close>, or \<open>nil\<close>.\<close>

datatype field_fn = FnPipe pipe | FnAny | FnNil

record pipe_binding =
  pb_Id :: string
  pb_fields :: "(string \<times> field_fn) list"

datatype pipe_error = ErrTargetMissing S | ErrLenMismatch

definition BindAny :: "S \<Rightarrow> S \<Rightarrow> string \<Rightarrow> pipe_error + pipe_binding" where
  "BindAny sourceNames targetNames targetId =
     (let missing = StatesDiff sourceNames targetNames in
      if length missing > 0 then Inl (ErrTargetMissing missing)
      else Inr \<lparr>pb_Id = ''BindAny-'' @ targetId, pb_fields = [(StateAny @ SuffixState, FnAny)]\<rparr>)"

text \<open>The two fields of a state in a struct that is written out; they stay \<open>nil\<close> when no target state is given.\<close>

definition optional_pair :: "string \<Rightarrow> string \<Rightarrow> (string \<times> field_fn) list res" where
  "optional_pair sourceState targetState =
     (if targetState = [] then Inr [(sourceState @ SuffixState, FnNil), (sourceState @ SuffixEnd, FnNil)]
      else bindR (pipes_Add sourceState targetState) (\<lambda>a.
        bindR (pipes_Remove sourceState targetState) (\<lambda>r.
          Inr [(sourceState @ SuffixState, FnPipe a), (sourceState @ SuffixEnd, FnPipe r)])))"

definition BindConnected :: "string \<Rightarrow> string \<Rightarrow> string \<Rightarrow> string \<Rightarrow> string \<Rightarrow> pipe_binding res" where
  "BindConnected targetId disconnected connecting connected disconnecting =
     bindR (optional_pair ''Disconnected'' disconnected) (\<lambda>f1.
     bindR (optional_pair ''Connecting'' connecting) (\<lambda>f2.
     bindR (optional_pair ''Connected'' connected) (\<lambda>f3.
     bindR (optional_pair ''Disconnecting'' disconnecting) (\<lambda>f4.
       Inr \<lparr>pb_Id = ''BindConnected-'' @ targetId, pb_fields = f1 @ f2 @ f3 @ f4\<rparr>))))"

definition BindErr :: "string \<Rightarrow> string \<Rightarrow> pipe_binding res" where
  "BindErr targetId targetErr =
     bindR (pipes_Add StateException (if targetErr = [] then StateException else targetErr)) (\<lambda>a.
       Inr \<lparr>pb_Id = ''BindErr-'' @ targetId, pb_fields = [(StateException @ SuffixState, FnPipe a)]\<rparr>)"

text \<open>The common part of \<open>BindStart\<close> and \<open>BindReady\<close>.\<close>

definition bind_pair :: "string \<Rightarrow> string \<Rightarrow> string \<Rightarrow> string \<Rightarrow> (string \<times> field_fn) list res" where
  "bind_pair sourceState defaultState activeState inactiveState =
     (let active = (if activeState = [] then defaultState else activeState);
          inactive = (if inactiveState = [] then active else inactiveState)
      in bindR (pipes_Add sourceState active) (\<lambda>a.
        bindR (pipes_Remove sourceState inactive) (\<lambda>r.
          Inr [(sourceState @ SuffixState, FnPipe a), (sourceState @ SuffixEnd, FnPipe r)])))"

definition BindStart :: "string \<Rightarrow> string \<Rightarrow> string \<Rightarrow> pipe_binding res" where
  "BindStart targetId activeState inactiveState =
     bindR (bind_pair ''Start'' StateStart activeState inactiveState) (\<lambda>fs.
       Inr \<lparr>pb_Id = ''BindStart-'' @ targetId, pb_fields = fs\<rparr>)"

definition BindReady :: "string \<Rightarrow> string \<Rightarrow> string \<Rightarrow> pipe_binding res" where
  "BindReady targetId activeState inactiveState =
     bindR (bind_pair ''Ready'' StateReady activeState inactiveState) (\<lambda>fs.
       Inr \<lparr>pb_Id = ''BindReady-'' @ targetId, pb_fields = fs\<rparr>)"

text \<open>\<open>reflect.StructOf\<close> panics on names that are no exported identifiers and on duplicates.\<close>

definition exported_name :: "string \<Rightarrow> bool" where
  "exported_name n =
     (case n of [] \<Rightarrow> False
      | c # cs \<Rightarrow> CHR ''A'' \<le> c \<and> c \<le> CHR ''Z''
          \<and> list_all (\<lambda>d. CHR ''A'' \<le> d \<and> d \<le> CHR ''Z'' \<or> CHR ''a'' \<le> d \<and> d \<le> CHR ''z''
              \<or> CHR ''0'' \<le> d \<and> d \<le> CHR ''9'' \<or> d = CHR ''_'') cs)"

definition struct_of :: "(string \<times> field_fn) list \<Rightarrow> (string \<times> field_fn) list res" where
  "struct_of fs =
     (if list_all (\<lambda>(n, _). exported_name n) fs \<and> distinct (map fst fs) then Inr fs
      else Inl (GoPanic ''reflect.StructOf''))"

definition pipes_Bind :: "string \<Rightarrow> string \<Rightarrow> string \<Rightarrow> string \<Rightarrow> pipe_binding res" where
  "pipes_Bind targetId state activeState inactiveState =
     bindR (bind_pair state state activeState inactiveState) (\<lambda>fs.
       bindR (struct_of fs) (\<lambda>fs'.
         Inr \<lparr>pb_Id = ''Bind-'' @ state @ ''-'' @ targetId, pb_fields = fs'\<rparr>))"

text \<open>The loop of \<open>BindMany\<close> over both lists.\<close>

fun bind_fields :: "S \<Rightarrow> S \<Rightarrow> (string \<times> field_fn) list res" where
  "bind_fields (name # states) (t # targets) =
     bindR (pipes_Add name t) (\<lambda>a.
       bindR (pipes_Remove name t) (\<lambda>r.
         bindR (bind_fields states targets) (\<lambda>fs.
           Inr ((name @ SuffixState, FnPipe a) # (name @ SuffixEnd, FnPipe r) # fs))))"
| "bind_fields _ _ = Inr []"

definition BindMany :: "string \<Rightarrow> S \<Rightarrow> S option \<Rightarrow> (pipe_error + pipe_binding) res" where
  "BindMany targetId states targetStates =
     (let targets = (case targetStates of None \<Rightarrow> states | Some ts \<Rightarrow> ts) in
      if length states \<noteq> length targets then Inr (Inl ErrLenMismatch)
      else bindR (bind_fields states targets) (\<lambda>fs.
        bindR (struct_of fs) (\<lambda>fs'.
          Inr (Inr \<lparr>pb_Id = ''BindMany-'' @ strconv_Itoa (int (length states)) @ ''-'' @ targetId, pb_fields = fs'\<rparr>))))"

section \<open>Bindings on a source\<close>

text \<open>\<open>HandlersBind\<close> of the struct. A \<open>nil\<close> function is a field like the others, so the machine finds it and its call
  panics; the other functions return and leave the source alone.\<close>

definition binding_handler :: "pipe_binding \<Rightarrow> handler" where
  "binding_handler b = \<lparr>h_id = [], h_num = 0, h_isMap = False, h_StatePrefix = [], h_methods = map fst (pb_fields b),
     h_negotiations = [], h_finals = []\<rparr>"

definition bind_to :: "Env \<Rightarrow> nat \<Rightarrow> Machine \<Rightarrow> pipe_binding \<Rightarrow> (string \<times> Machine) res" where
  "bind_to env fuel source b = bindHandlers env fuel source (binding_handler b) (pb_Id b)"

definition binding_outcome :: "pipe_binding \<Rightarrow> string \<Rightarrow> outcome" where
  "binding_outcome b name =
     (case map_of (pb_fields b) name of Some FnNil \<Rightarrow> HPanic ''reflect: call of nil function'' | _ \<Rightarrow> HRet True)"

text \<open>The final handlers that a transition calls (\<open>emitFinalEvents\<close>, then \<open>AnyState\<close>), seen from the machine at its
  end.\<close>

definition final_events :: "Machine \<Rightarrow> string list" where
  "final_events m =
     map (\<lambda>s. if slices_Contains (tx_Enters (cur m)) s then s @ SuffixState else s @ SuffixEnd)
       (tx_Exits (cur m) @ tx_Enters (cur m)) @ [StateAny @ SuffixState]"

text \<open>One handler call of the source, on the target and the goroutines started so far.\<close>

definition binding_fire ::
  "pipe_binding \<Rightarrow> bool \<Rightarrow> Env \<Rightarrow> nat \<Rightarrow> Machine \<Rightarrow> string \<Rightarrow> Machine \<times> pipe_call list \<Rightarrow> (Machine \<times> pipe_call list) res" where
  "binding_fire b isLocal env fuel source name x =
     (case x of (target, pending) \<Rightarrow>
       let e = event_of source; args = mu_Args (tx_Mutation (cur source)) in
       bindR (case map_of (pb_fields b) name of
                None \<Rightarrow> Inr NoCall
              | Some FnNil \<Rightarrow> Inr NoCall
              | Some FnAny \<Rightarrow> Inr (any_fire target (tx_TargetStates (m_stateNames source) (cur source)) args)
              | Some (FnPipe p) \<Rightarrow> pipe_fire p isLocal target e args) (\<lambda>act.
         case act of
           NoCall \<Rightarrow> Inr (target, pending)
         | CallNow c \<Rightarrow> bindR (pipe_run env fuel target c) (\<lambda>(_, target'). Inr (target', pending))
         | CallGo c \<Rightarrow> Inr (target, pending @ [c])))"

fun fire_events ::
  "pipe_binding \<Rightarrow> bool \<Rightarrow> Env \<Rightarrow> nat \<Rightarrow> Machine \<Rightarrow> string list \<Rightarrow> Machine \<times> pipe_call list \<Rightarrow> (Machine \<times> pipe_call list) res" where
  "fire_events b isLocal env fuel source [] x = Inr x"
| "fire_events b isLocal env fuel source (name # names) x =
     bindR (binding_fire b isLocal env fuel source name x) (\<lambda>x'. fire_events b isLocal env fuel source names x')"

text \<open>The goroutines, in the order in which the scheduler runs them.\<close>

fun deliver :: "Env \<Rightarrow> nat \<Rightarrow> Machine \<Rightarrow> pipe_call list \<Rightarrow> Machine res" where
  "deliver env fuel target [] = Inr target"
| "deliver env fuel target (c # calls) =
     bindR (pipe_run env fuel target c) (\<lambda>(_, target'). deliver env fuel target' calls)"

section \<open>Sync\<close>

fun sync_lists :: "Machine \<Rightarrow> S \<Rightarrow> S \<Rightarrow> (S \<times> S) res" where
  "sync_lists source [] targets = Inr ([], [])"
| "sync_lists source (state # states) [] = Inl (GoPanic ''index out of range'')"
| "sync_lists source (state # states) (t # targets) =
     bindR (sync_lists source states targets) (\<lambda>(add, rem).
       Inr (if Is1 source state then (t # add, rem) else (add, t # rem)))"

definition pipes_Sync :: "Env \<Rightarrow> nat \<Rightarrow> Machine \<Rightarrow> Machine \<Rightarrow> S \<Rightarrow> S \<Rightarrow> (nat \<times> Machine) res" where
  "pipes_Sync env fuel source target states targetStates =
     bindR (sync_lists source states targetStates) (\<lambda>(add, rem).
       bindR (if length add > 0 then mach_Add env fuel target add [] else Inr (Executed, target)) (\<lambda>(_, t1).
         bindR (if length rem > 0 then mach_Remove env fuel t1 rem [] else Inr (Executed, t1)) (\<lambda>(_, t2).
           Inr (length add + length rem, t2))))"

end
