(* ===== verification/Am_Helpers.thy ===== *)
theory Am_Helpers
  imports Am_Pipes Am_Api
begin

text \<open>
  The helpers around machines, \<open>src/pkg/helpers/help.go\<close>: mutations that wait for their outcome, checks before
  mutations, failsafe requests, conditions, loop guards, schemas. A wait is split at its \<open>select\<close>: the call gives the
  channel it waits on, and the outcomes the \<open>select\<close> can have are those of the cases that are ready. Debugging,
  telemetry, environment variables and logging are left out.
\<close>

definition chan_closed :: "Machine \<Rightarrow> chan \<Rightarrow> bool" where
  "chan_closed m ch = (ch = Closed \<or> ch \<in> set (m_closed m))"

section \<open>Waiting mutations\<close>

datatype sync_call = SyncRet bool | SyncWait chan

definition EvAddSync :: "Env \<Rightarrow> nat \<Rightarrow> Machine \<Rightarrow> Event option \<Rightarrow> S \<Rightarrow> A \<Rightarrow> (sync_call \<times> Machine) res" where
  "EvAddSync env fuel m e states args =
     bindR (EvAdd env fuel m e states args) (\<lambda>(res, m1).
       Inr (if res = Executed then (SyncRet True, m1)
            else if res = Canceled then (SyncRet False, m1)
            else case mach_WhenQueue m1 res of (ch, m2) \<Rightarrow> (SyncWait ch, m2)))"

text \<open>The \<open>select\<close> of \<open>EvAddSync\<close> once the machine has gone on; no outcome means that it still blocks.\<close>

definition AddSync_outcomes :: "bool \<Rightarrow> Machine \<Rightarrow> chan \<Rightarrow> S \<Rightarrow> bool list" where
  "AddSync_outcomes ctxDone m ch states =
     (if ctxDone then [False] else []) @ (if chan_closed m ch then [Is m states] else [])"

definition Add1Sync :: "Env \<Rightarrow> nat \<Rightarrow> Machine \<Rightarrow> string \<Rightarrow> A \<Rightarrow> (sync_call \<times> Machine) res" where
  "Add1Sync env fuel m state args = EvAddSync env fuel m None [state] args"

definition AddSync :: "Env \<Rightarrow> nat \<Rightarrow> Machine \<Rightarrow> S \<Rightarrow> A \<Rightarrow> (sync_call \<times> Machine) res" where
  "AddSync env fuel m states args = EvAddSync env fuel m None states args"

definition EvAdd1Sync :: "Env \<Rightarrow> nat \<Rightarrow> Machine \<Rightarrow> Event option \<Rightarrow> string \<Rightarrow> A \<Rightarrow> (sync_call \<times> Machine) res" where
  "EvAdd1Sync env fuel m e state args = EvAddSync env fuel m e [state] args"

definition EvRemoveSync :: "Env \<Rightarrow> nat \<Rightarrow> Machine \<Rightarrow> Event option \<Rightarrow> S \<Rightarrow> A \<Rightarrow> (sync_call \<times> Machine) res" where
  "EvRemoveSync env fuel m e states args =
     bindR (EvRemove env fuel m e states args) (\<lambda>(res, m1).
       Inr (if res = Executed then (SyncRet True, m1)
            else if res = Canceled then (SyncRet False, m1)
            else case mach_WhenQueue m1 res of (ch, m2) \<Rightarrow> (SyncWait ch, m2)))"

text \<open>Both branches after \<open>mach.Not\<close> return true.\<close>

definition RemoveSync_outcomes :: "bool \<Rightarrow> Machine \<Rightarrow> chan \<Rightarrow> S \<Rightarrow> bool list res" where
  "RemoveSync_outcomes ctxDone m ch states =
     bindR (if chan_closed m ch then bindR (Not m states) (\<lambda>b. Inr (if b then [True] else [True])) else Inr []) (\<lambda>closed.
       Inr ((if ctxDone then [False] else []) @ closed))"

definition Remove1Sync :: "Env \<Rightarrow> nat \<Rightarrow> Machine \<Rightarrow> string \<Rightarrow> A \<Rightarrow> (sync_call \<times> Machine) res" where
  "Remove1Sync env fuel m state args = EvRemoveSync env fuel m None [state] args"

definition RemoveSync :: "Env \<Rightarrow> nat \<Rightarrow> Machine \<Rightarrow> S \<Rightarrow> A \<Rightarrow> (sync_call \<times> Machine) res" where
  "RemoveSync env fuel m states args = EvRemoveSync env fuel m None states args"

definition EvRemove1Sync :: "Env \<Rightarrow> nat \<Rightarrow> Machine \<Rightarrow> Event option \<Rightarrow> string \<Rightarrow> A \<Rightarrow> (sync_call \<times> Machine) res" where
  "EvRemove1Sync env fuel m e state args = EvRemoveSync env fuel m e [state] args"

text \<open>\<open>c\<close> is the context \<open>ctxWhen\<close> made for the subscription; its cancellation when the call returns is seen by
  \<open>en_expired\<close>.\<close>

definition EvAddAsync ::
  "Env \<Rightarrow> nat \<Rightarrow> Machine \<Rightarrow> ctx \<Rightarrow> Event option \<Rightarrow> string \<Rightarrow> S \<Rightarrow> A \<Rightarrow> (sync_call \<times> Machine) res" where
  "EvAddAsync env fuel m c e waitState addStates args =
     (let tickBefore = Tick m waitState; ticks = NextActiveIn tickBefore in
      bindR (WhenTicks env fuel m waitState ticks (Some c)) (\<lambda>(ch, m1).
        bindR (EvAdd env fuel m1 e addStates args) (\<lambda>(res, m2).
          Inr (if res = Canceled then (SyncRet False, m2) else (SyncWait ch, m2)))))"

definition AddAsync_outcomes :: "bool \<Rightarrow> Machine \<Rightarrow> chan \<Rightarrow> bool list" where
  "AddAsync_outcomes ctxDone m ch = (if chan_closed m ch then [True] else []) @ (if ctxDone then [False] else [])"

definition AddAsync :: "Env \<Rightarrow> nat \<Rightarrow> Machine \<Rightarrow> ctx \<Rightarrow> string \<Rightarrow> S \<Rightarrow> A \<Rightarrow> (sync_call \<times> Machine) res" where
  "AddAsync env fuel m c waitState addStates args = EvAddAsync env fuel m c None waitState addStates args"

definition Add1Async :: "Env \<Rightarrow> nat \<Rightarrow> Machine \<Rightarrow> ctx \<Rightarrow> string \<Rightarrow> string \<Rightarrow> A \<Rightarrow> (sync_call \<times> Machine) res" where
  "Add1Async env fuel m c waitState addState args = EvAddAsync env fuel m c None waitState [addState] args"

definition EvAdd1Async ::
  "Env \<Rightarrow> nat \<Rightarrow> Machine \<Rightarrow> ctx \<Rightarrow> Event option \<Rightarrow> string \<Rightarrow> string \<Rightarrow> A \<Rightarrow> (sync_call \<times> Machine) res" where
  "EvAdd1Async env fuel m c e waitState addState args = EvAddAsync env fuel m c e waitState [addState] args"

section \<open>Checks before mutations\<close>

text \<open>\<open>ch\<close> is the channel \<open>CheckDone\<close>, made for the call. The machine closes it and writes \<open>Canceled\<close>; without that the
  receive blocks for good.\<close>

definition check_args :: "A \<Rightarrow> chan \<Rightarrow> A" where
  "check_args args ch = PassMerge [args, Pass [VCheck (Some ch)]]"

definition check_Canceled :: "Machine \<Rightarrow> chan \<Rightarrow> bool" where
  "check_Canceled m ch = (case map_of (m_checks m) ch of None \<Rightarrow> False | Some b \<Rightarrow> b)"

definition await_check :: "(Result \<times> Machine) res \<Rightarrow> chan \<Rightarrow> (bool \<times> Machine) res" where
  "await_check r ch =
     bindR r (\<lambda>(_, m1). if ch \<in> set (m_closed m1) then Inr (check_Canceled m1 ch, m1) else Inl Deadlock)"

definition CantAdd :: "Env \<Rightarrow> nat \<Rightarrow> Machine \<Rightarrow> chan \<Rightarrow> S \<Rightarrow> A \<Rightarrow> (bool \<times> Machine) res" where
  "CantAdd env fuel m ch states args =
     bindR (await_check (CanAdd env fuel m states (check_args args ch)) ch) (\<lambda>(canceled, m1). Inr (\<not> canceled, m1))"

definition CantAdd1 :: "Env \<Rightarrow> nat \<Rightarrow> Machine \<Rightarrow> string \<Rightarrow> A \<Rightarrow> (bool \<times> Machine) res" where
  "CantAdd1 env fuel m state args = bindR (CanAdd env fuel m [state] args) (\<lambda>(r, m1). Inr (r = Canceled, m1))"

definition CantRemove :: "Env \<Rightarrow> nat \<Rightarrow> Machine \<Rightarrow> chan \<Rightarrow> S \<Rightarrow> A \<Rightarrow> (bool \<times> Machine) res" where
  "CantRemove env fuel m ch states args =
     bindR (await_check (CanRemove env fuel m states (check_args args ch)) ch) (\<lambda>(canceled, m1). Inr (canceled, m1))"

definition CantRemove1 :: "Env \<Rightarrow> nat \<Rightarrow> Machine \<Rightarrow> string \<Rightarrow> A \<Rightarrow> (bool \<times> Machine) res" where
  "CantRemove1 env fuel m state args = bindR (CanRemove env fuel m [state] args) (\<lambda>(r, m1). Inr (r = Canceled, m1))"

definition AskEvAdd :: "Env \<Rightarrow> nat \<Rightarrow> Machine \<Rightarrow> chan \<Rightarrow> Event option \<Rightarrow> S \<Rightarrow> A \<Rightarrow> (Result \<times> Machine) res" where
  "AskEvAdd env fuel m ch e states args =
     bindR (CantAdd env fuel m ch states args) (\<lambda>(cant, m1).
       if \<not> cant then EvAdd env fuel m1 e states args else Inr (Canceled, m1))"

definition AskAdd :: "Env \<Rightarrow> nat \<Rightarrow> Machine \<Rightarrow> chan \<Rightarrow> S \<Rightarrow> A \<Rightarrow> (Result \<times> Machine) res" where
  "AskAdd env fuel m ch states args = AskEvAdd env fuel m ch None states args"

definition AskAdd1 :: "Env \<Rightarrow> nat \<Rightarrow> Machine \<Rightarrow> chan \<Rightarrow> string \<Rightarrow> A \<Rightarrow> (Result \<times> Machine) res" where
  "AskAdd1 env fuel m ch state args = AskAdd env fuel m ch [state] args"

definition AskEvAdd1 :: "Env \<Rightarrow> nat \<Rightarrow> Machine \<Rightarrow> chan \<Rightarrow> Event option \<Rightarrow> string \<Rightarrow> A \<Rightarrow> (Result \<times> Machine) res" where
  "AskEvAdd1 env fuel m ch e state args = AskEvAdd env fuel m ch e [state] args"

definition AskEvRemove :: "Env \<Rightarrow> nat \<Rightarrow> Machine \<Rightarrow> chan \<Rightarrow> Event option \<Rightarrow> S \<Rightarrow> A \<Rightarrow> (Result \<times> Machine) res" where
  "AskEvRemove env fuel m ch e states args =
     bindR (CantRemove env fuel m ch states args) (\<lambda>(cant, m1).
       if \<not> cant then EvRemove env fuel m1 e states args else Inr (Canceled, m1))"

definition AskRemove :: "Env \<Rightarrow> nat \<Rightarrow> Machine \<Rightarrow> chan \<Rightarrow> S \<Rightarrow> A \<Rightarrow> (Result \<times> Machine) res" where
  "AskRemove env fuel m ch states args = AskEvRemove env fuel m ch None states args"

definition AskRemove1 :: "Env \<Rightarrow> nat \<Rightarrow> Machine \<Rightarrow> chan \<Rightarrow> string \<Rightarrow> A \<Rightarrow> (Result \<times> Machine) res" where
  "AskRemove1 env fuel m ch state args = AskRemove env fuel m ch [state] args"

definition AskEvRemove1 :: "Env \<Rightarrow> nat \<Rightarrow> Machine \<Rightarrow> chan \<Rightarrow> Event option \<Rightarrow> string \<Rightarrow> A \<Rightarrow> (Result \<times> Machine) res" where
  "AskEvRemove1 env fuel m ch e state args = AskEvRemove env fuel m ch e [state] args"

section \<open>Promises\<close>

datatype promise_mut = PmAdd S A | PmEvAdd "Event option" S A | PmRemove S A | PmEvRemove "Event option" S A

record Promise =
  pr_called :: bool
  pr_mut :: promise_mut

definition promise_run :: "Env \<Rightarrow> nat \<Rightarrow> Machine \<Rightarrow> promise_mut \<Rightarrow> (Result \<times> Machine) res" where
  "promise_run env fuel m p =
     (case p of
        PmAdd states args \<Rightarrow> mach_Add env fuel m states args
      | PmEvAdd e states args \<Rightarrow> EvAdd env fuel m e states args
      | PmRemove states args \<Rightarrow> mach_Remove env fuel m states args
      | PmEvRemove e states args \<Rightarrow> EvRemove env fuel m e states args)"

definition Promise_Now :: "Env \<Rightarrow> nat \<Rightarrow> Machine \<Rightarrow> Promise \<Rightarrow> ((Result \<times> Promise) \<times> Machine) res" where
  "Promise_Now env fuel m p =
     (if pr_called p then Inr ((Canceled, p), m)
      else bindR (promise_run env fuel m (pr_mut p)) (\<lambda>(r, m1). Inr ((r, p\<lparr>pr_called := True\<rparr>), m1)))"

definition Promise_Again :: "Env \<Rightarrow> nat \<Rightarrow> Machine \<Rightarrow> Promise \<Rightarrow> (Result \<times> Machine) res" where
  "Promise_Again env fuel m p = promise_run env fuel m (pr_mut p)"

definition Promise_Called :: "Promise \<Rightarrow> bool" where
  "Promise_Called p = pr_called p"

definition new_promise :: "promise_mut \<Rightarrow> Promise" where
  "new_promise p = \<lparr>pr_called = False, pr_mut = p\<rparr>"

definition PromiseAdd :: "S \<Rightarrow> A \<Rightarrow> Promise" where "PromiseAdd states args = new_promise (PmAdd states args)"

definition PromiseEvAdd :: "Event option \<Rightarrow> S \<Rightarrow> A \<Rightarrow> Promise" where
  "PromiseEvAdd e states args = new_promise (PmEvAdd e states args)"

definition PromiseAdd1 :: "string \<Rightarrow> A \<Rightarrow> Promise" where "PromiseAdd1 state args = new_promise (PmAdd [state] args)"

definition PromiseEvAdd1 :: "Event option \<Rightarrow> string \<Rightarrow> A \<Rightarrow> Promise" where
  "PromiseEvAdd1 e state args = new_promise (PmEvAdd e [state] args)"

definition PromiseRemove :: "S \<Rightarrow> A \<Rightarrow> Promise" where "PromiseRemove states args = new_promise (PmRemove states args)"

definition PromiseEvRemove :: "Event option \<Rightarrow> S \<Rightarrow> A \<Rightarrow> Promise" where
  "PromiseEvRemove e states args = new_promise (PmEvRemove e states args)"

definition PromiseRemove1 :: "string \<Rightarrow> A \<Rightarrow> Promise" where
  "PromiseRemove1 state args = new_promise (PmRemove [state] args)"

definition PromiseEvRemove1 :: "Event option \<Rightarrow> string \<Rightarrow> A \<Rightarrow> Promise" where
  "PromiseEvRemove1 e state args = new_promise (PmEvRemove e [state] args)"

section \<open>Failsafe requests\<close>

record MutRequest =
  rq_MutType :: MutationType
  rq_States :: S
  rq_Args :: A
  rq_Event :: "Event option"
  rq_Retries :: int
  rq_Delay :: int
  rq_Backoff :: int
  rq_MaxDuration :: int

text \<open>Durations are in milliseconds.\<close>

definition NewMutRequest :: "MutationType \<Rightarrow> S \<Rightarrow> A \<Rightarrow> MutRequest" where
  "NewMutRequest mutType states args =
     \<lparr>rq_MutType = mutType, rq_States = states, rq_Args = args, rq_Event = None,
      rq_Retries = 10, rq_Delay = 100, rq_Backoff = 5000, rq_MaxDuration = 5000\<rparr>"

definition NewReqAdd :: "S \<Rightarrow> A \<Rightarrow> MutRequest" where
  "NewReqAdd states args = NewMutRequest MutationAdd states args"

definition NewReqAdd1 :: "string \<Rightarrow> A \<Rightarrow> MutRequest" where
  "NewReqAdd1 state args = NewReqAdd [state] args"

definition NewReqRemove :: "S \<Rightarrow> A \<Rightarrow> MutRequest" where
  "NewReqRemove states args = NewMutRequest MutationRemove states args"

definition NewReqRemove1 :: "string \<Rightarrow> A \<Rightarrow> MutRequest" where
  "NewReqRemove1 state args = NewReqRemove [state] args"

definition MutRequest_Clone :: "MutRequest \<Rightarrow> MutationType \<Rightarrow> S \<Rightarrow> A \<Rightarrow> MutRequest" where
  "MutRequest_Clone r mutType states args =
     \<lparr>rq_MutType = mutType, rq_States = states, rq_Args = args, rq_Event = None,
      rq_Retries = rq_Retries r, rq_Delay = rq_Delay r, rq_Backoff = rq_Backoff r, rq_MaxDuration = rq_MaxDuration r\<rparr>"

definition MutRequest_Retries :: "MutRequest \<Rightarrow> int \<Rightarrow> MutRequest" where
  "MutRequest_Retries r retries = r\<lparr>rq_Retries := retries\<rparr>"

definition MutRequest_Backoff :: "MutRequest \<Rightarrow> int \<Rightarrow> MutRequest" where
  "MutRequest_Backoff r backoff = r\<lparr>rq_Backoff := backoff\<rparr>"

definition MutRequest_MaxDuration :: "MutRequest \<Rightarrow> int \<Rightarrow> MutRequest" where
  "MutRequest_MaxDuration r maxDuration = r\<lparr>rq_MaxDuration := maxDuration\<rparr>"

definition MutRequest_Delay :: "MutRequest \<Rightarrow> int \<Rightarrow> MutRequest" where
  "MutRequest_Delay r delay = r\<lparr>rq_Delay := delay\<rparr>"

definition ResultToErr :: "Result \<Rightarrow> string option" where
  "ResultToErr result = (if result = Canceled then Some ''canceled'' else None)"

definition MutRequest_get :: "Env \<Rightarrow> nat \<Rightarrow> MutRequest \<Rightarrow> Machine \<Rightarrow> ((Result \<times> string option) \<times> Machine) res" where
  "MutRequest_get env fuel r m =
     bindR (if rq_MutType r = MutationAdd then EvAdd env fuel m (rq_Event r) (rq_States r) (rq_Args r)
            else EvRemove env fuel m (rq_Event r) (rq_States r) (rq_Args r)) (\<lambda>(res, m1).
       Inr ((res, ResultToErr res), m1))"

text \<open>The retry policy handed to the executor, which is a third-party package and a parameter.\<close>

record retry_policy =
  rp_MaxDuration :: int
  rp_MaxRetries :: int
  rp_Delays :: "int \<times> int option"

definition MutRequest_policy :: "MutRequest \<Rightarrow> retry_policy" where
  "MutRequest_policy r = \<lparr>rp_MaxDuration = rq_MaxDuration r, rp_MaxRetries = rq_Retries r,
     rp_Delays = (rq_Delay r, if rq_Backoff r \<noteq> 0 then Some (rq_Backoff r) else None)\<rparr>"

type_synonym 'a attempt_fn = "Machine \<Rightarrow> (('a \<times> string option) \<times> Machine) res"

definition MutRequest_Run ::
  "(retry_policy \<Rightarrow> Result attempt_fn \<Rightarrow> Result attempt_fn) \<Rightarrow> Env \<Rightarrow> nat \<Rightarrow> MutRequest \<Rightarrow> Result attempt_fn" where
  "MutRequest_Run executor env fuel r = executor (MutRequest_policy r) (MutRequest_get env fuel r)"

section \<open>Waiting for channels\<close>

text \<open>The case a \<open>select\<close> takes; \<open>WaitBlocked\<close> when it takes none.\<close>

datatype wait_case = WCtx | WTimeout | WErr | WChan

datatype wait_result = WaitOk | WaitCtx | WaitTimeout | WaitErr "string option" | WaitBlocked

fun wait_all :: "string option \<Rightarrow> chan list \<Rightarrow> wait_case list \<Rightarrow> wait_result" where
  "wait_all err [] cases = WaitOk"
| "wait_all err (ch # chans) [] = WaitBlocked"
| "wait_all err (ch # chans) (c # cases) =
     (case c of WCtx \<Rightarrow> WaitCtx | WTimeout \<Rightarrow> WaitTimeout | WErr \<Rightarrow> WaitErr err | WChan \<Rightarrow> wait_all err chans cases)"

definition WaitForAll :: "bool \<Rightarrow> chan list \<Rightarrow> wait_case list \<Rightarrow> wait_result" where
  "WaitForAll ctxErr chans cases =
     (if length chans = 0 then WaitOk else if ctxErr then WaitCtx
      else wait_all None chans (filter (\<lambda>c. c \<noteq> WErr) cases))"

definition WaitForErrAll :: "bool \<Rightarrow> string option \<Rightarrow> chan list \<Rightarrow> wait_case list \<Rightarrow> wait_result" where
  "WaitForErrAll ctxErr machErr chans cases =
     (if length chans = 0 then WaitOk else if ctxErr then WaitCtx else wait_all machErr chans cases)"

text \<open>The cases built for \<open>reflect.Select\<close>, as whether they are ready, and the result for the chosen one. The third
  case of \<open>WaitForErrAny\<close> receives from the timeout, as the second does.\<close>

definition any_cases :: "bool \<Rightarrow> bool \<Rightarrow> bool list \<Rightarrow> bool list" where
  "any_cases ctxDone timedOut closed = [ctxDone, timedOut] @ closed"

definition WaitForAny :: "bool \<Rightarrow> nat \<Rightarrow> wait_result" where
  "WaitForAny ctxErr chosen =
     (if ctxErr then WaitCtx else if chosen = 0 then WaitCtx else if chosen = 1 then WaitTimeout else WaitOk)"

definition err_any_cases :: "bool \<Rightarrow> bool \<Rightarrow> bool list \<Rightarrow> bool list" where
  "err_any_cases ctxDone timedOut closed = [ctxDone, timedOut, timedOut] @ closed"

definition WaitForErrAny :: "bool \<Rightarrow> string option \<Rightarrow> nat \<Rightarrow> wait_result" where
  "WaitForErrAny ctxErr machErr chosen =
     (if ctxErr then WaitCtx else if chosen = 0 then WaitCtx else if chosen = 1 then WaitTimeout
      else if chosen = 2 then (case machErr of None \<Rightarrow> WaitOk | Some e \<Rightarrow> WaitErr (Some e)) else WaitOk)"

text \<open>\<open>Interval\<close>: the ticks of its timer, each with the time at which it is received, or the end of the context.\<close>

datatype tick_event = TickCtx | TickAt int

fun Interval :: "int \<Rightarrow> ('s \<Rightarrow> bool \<times> 's) \<Rightarrow> 's \<Rightarrow> tick_event list \<Rightarrow> wait_result \<times> 's" where
  "Interval end' fn s [] = (WaitBlocked, s)"
| "Interval end' fn s (TickCtx # ticks) = (WaitCtx, s)"
| "Interval end' fn s (TickAt now # ticks) =
     (if now > end' then (WaitOk, s)
      else case fn s of (goOn, s') \<Rightarrow> if \<not> goOn then (WaitOk, s') else Interval end' fn s' ticks)"

definition GroupWhen1 :: "Env \<Rightarrow> Machine list \<Rightarrow> string \<Rightarrow> ctx option \<Rightarrow> (string + (chan \<times> Machine) list) res" where
  "GroupWhen1 env machs state c =
     (case find (\<lambda>m. \<not> Has1 m state) machs of
        Some m \<Rightarrow> Inr (Inl (m_id m))
      | None \<Rightarrow> bindR (mapR (\<lambda>m. mach_When env m [state] c) machs) (\<lambda>xs. Inr (Inr xs)))"

section \<open>States and conditions\<close>

definition IsMulti :: "Machine \<Rightarrow> string \<Rightarrow> bool" where
  "IsMulti m state = Multi (Schema_Get (m_schema m) state)"

definition Activations :: "uint64 \<Rightarrow> int" where
  "Activations u = uint ((u + 1) div 2)"

definition Implements :: "S \<Rightarrow> S \<Rightarrow> string option" where
  "Implements statesChecked statesNeeded = find (\<lambda>state. \<not> slices_Contains statesChecked state) statesNeeded"

definition SchemaImplements :: "Schema \<Rightarrow> S \<Rightarrow> string option" where
  "SchemaImplements schema states = Implements (Schema_Names schema) states"

definition RemoveMulti :: "string \<Rightarrow> mut_call" where
  "RemoveMulti state = CallRemove [state] []"

fun group_Is1 :: "Machine list \<Rightarrow> string \<Rightarrow> bool res" where
  "group_Is1 [] state = Inr True"
| "group_Is1 (m # ms) state = bindR (Not1 m state) (\<lambda>no. if no then Inr False else group_Is1 ms state)"

definition MachGroup_Is1 :: "Machine list option \<Rightarrow> string \<Rightarrow> bool res" where
  "MachGroup_Is1 g state = (case g of None \<Rightarrow> Inr False | Some ms \<Rightarrow> group_Is1 ms state)"

record Cond =
  cd_Is :: "S option"
  cd_Any :: "S list option"
  cd_Any1 :: "S option"
  cd_Not :: "S option"
  cd_Clock :: "Clock option"

definition Cond_Check :: "Cond \<Rightarrow> Machine option \<Rightarrow> bool" where
  "Cond_Check c mach =
     (case mach of None \<Rightarrow> False
      | Some m \<Rightarrow>
          if \<not> Is m (sl (cd_Is c)) then False
          else if Any1 m (sl (cd_Not c)) then False
          else if length (sl (cd_Any1 c)) > 0 \<and> \<not> Any1 m (sl (cd_Any1 c)) then False
          else if length (sl (cd_Any c)) > 0 \<and> \<not> Any m (sl (cd_Any c)) then False
          else WasClock m (sl (cd_Clock c)))"

definition Cond_IsEmpty :: "Cond \<Rightarrow> bool" where
  "Cond_IsEmpty c = (cd_Is c = None \<and> cd_Any1 c = None \<and> cd_Not c = None \<and> cd_Clock c = None)"

text \<open>The states touched by the steps of a transition; the loop over the clock is the one of \<open>TimeIndexDiff\<close>.\<close>

fun touched_states :: "Step list \<Rightarrow> S \<Rightarrow> S res" where
  "touched_states [] index = Inr []"
| "touched_states (step # steps) index =
     bindR (Step_GetFromState step index) (\<lambda>from.
       bindR (Step_GetToState step index) (\<lambda>to.
         bindR (touched_states steps index) (\<lambda>rest.
           Inr ((if from \<noteq> [] then [from] else []) @ (if to \<noteq> [] then [to] else []) @ rest))))"

definition GetTransitionStates :: "Time option \<Rightarrow> Time option \<Rightarrow> Step list \<Rightarrow> S \<Rightarrow> (S \<times> S \<times> S) res" where
  "GetTransitionStates before after steps index =
     (case index_diff 0 index before after of (added, removed) \<Rightarrow>
       bindR (touched_states steps index) (\<lambda>touched. Inr (added, removed, slicesUniq touched)))"

section \<open>Loop guards\<close>

text \<open>\<open>sl_mach\<close> is whether the machine is set: it is not in a loop for a missing state. Human time is in
  nanoseconds, \<open>0\<close> before the first round. \<open>lastMTime\<close>, \<open>startMTime\<close> and \<open>startHTime\<close> are written only.\<close>

record StateLoop =
  sl_ResetInterval :: int
  sl_Threshold :: int
  sl_lastHTime :: int
  sl_ended :: bool
  sl_loopState :: string
  sl_ctxStates :: S
  sl_mach :: bool

definition StateLoop_zero :: StateLoop where
  "StateLoop_zero = \<lparr>sl_ResetInterval = 0, sl_Threshold = 0, sl_lastHTime = 0, sl_ended = False, sl_loopState = [],
     sl_ctxStates = [], sl_mach = False\<rparr>"

definition loop_inbound :: "Resolver \<Rightarrow> string \<Rightarrow> S" where
  "loop_inbound rr loopState =
     (case InboundRelationsOf rr loopState of
        Inl _ \<Rightarrow> []
      | Inr inbound \<Rightarrow>
          filter (\<lambda>name. case RelationsBetween rr name loopState of Inl _ \<Rightarrow> False | Inr rels \<Rightarrow> length rels > 0) inbound)"

definition loop_ctxStates :: "Machine \<Rightarrow> string \<Rightarrow> S" where
  "loop_ctxStates m loopState =
     [loopState] @ sl (Require (Schema_Get (m_schema m) loopState)) @ loop_inbound (mach_resolver m) loopState"

definition NewStateLoop :: "Machine \<Rightarrow> string \<Rightarrow> StateLoop" where
  "NewStateLoop m loopState =
     (if \<not> Has1 m loopState then StateLoop_zero\<lparr>sl_ended := True\<rparr>
      else StateLoop_zero\<lparr>sl_ResetInterval := 1000000000, sl_Threshold := 500, sl_loopState := loopState,
             sl_mach := True, sl_ctxStates := loop_ctxStates m loopState\<rparr>)"

definition StateLoop_Break :: "StateLoop \<Rightarrow> StateLoop res" where
  "StateLoop_Break l = (if sl_mach l then Inr (l\<lparr>sl_ended := True\<rparr>) else Inl (GoPanic ''nil pointer dereference''))"

definition StateLoop_Sum :: "StateLoop \<Rightarrow> Machine \<Rightarrow> uint64 res" where
  "StateLoop_Sum l m =
     (if sl_mach l then Time_Sum (sl (mach_Time m (Some (sl_ctxStates l)))) None
      else Inl (GoPanic ''nil pointer dereference''))"

definition StateLoop_Ended :: "StateLoop \<Rightarrow> bool" where
  "StateLoop_Ended l = sl_ended l"

text \<open>\<open>check\<close> is the result of the optional function, \<open>now\<close> the time in nanoseconds. A failing round adds an error.\<close>

definition loop_fail :: "Env \<Rightarrow> nat \<Rightarrow> StateLoop \<Rightarrow> Machine \<Rightarrow> string \<Rightarrow> ((bool \<times> StateLoop) \<times> Machine) res" where
  "loop_fail env fuel l m msg =
     bindR (AddErr env fuel m (Some (''loop: '' @ msg @ '' for '' @ m_id m @ ''/'' @ sl_loopState l)) []) (\<lambda>(_, m1).
       Inr ((False, l\<lparr>sl_ended := True\<rparr>), m1))"

definition loop_window :: "Env \<Rightarrow> nat \<Rightarrow> StateLoop \<Rightarrow> Machine \<Rightarrow> int \<Rightarrow> ((bool \<times> StateLoop) \<times> Machine) res" where
  "loop_window env fuel l m now =
     bindR (StateLoop_Sum l m) (\<lambda>mtime.
       if sl_lastHTime l = 0 \<or> now - sl_lastHTime l > sl_ResetInterval l
       then Inr ((True, l\<lparr>sl_lastHTime := now\<rparr>), m)
       else if sint mtime > sl_Threshold l then loop_fail env fuel l m ''threshold exceeded''
       else Inr ((True, l), m))"

definition StateLoop_Ok ::
  "Env \<Rightarrow> nat \<Rightarrow> StateLoop \<Rightarrow> Machine \<Rightarrow> bool \<Rightarrow> bool option \<Rightarrow> int \<Rightarrow> ((bool \<times> StateLoop) \<times> Machine) res" where
  "StateLoop_Ok env fuel l m ctxErr check now =
     (if sl_ended l then Inr ((False, l), m)
      else if ctxErr then Inr ((False, l\<lparr>sl_ended := True\<rparr>), m)
      else bindR (Not1 m (sl_loopState l)) (\<lambda>no.
        if no then loop_fail env fuel l m ''state ctx expired''
        else if check = Some False then Inr ((False, l\<lparr>sl_ended := True\<rparr>), m)
        else loop_window env fuel l m now))"

section \<open>Tags, relations, handler names\<close>

fun TagValue :: "string list \<Rightarrow> string \<Rightarrow> string" where
  "TagValue [] key = []"
| "TagValue (t # tags) key =
     (if t = key then key
      else if strings_HasPrefix t (key @ '':'') then strings_TrimPrefix t (key @ '':'')
      else TagValue tags key)"

text \<open>\<open>atoi\<close> is the value of \<open>strconv.Atoi\<close>, \<open>0\<close> with a syntax error.\<close>

definition TagValueInt :: "(string \<Rightarrow> int) \<Rightarrow> string list \<Rightarrow> string \<Rightarrow> int" where
  "TagValueInt atoi tags key = (let v = TagValue tags key in if v = [] then -1 else atoi v)"

definition CountRelations :: "State \<Rightarrow> nat" where
  "CountRelations state =
     length (sl (Remove state)) + length (sl (Add state)) + length (sl (Require state)) + length (sl (After state))"

definition strings_TrimSuffix :: "string \<Rightarrow> string \<Rightarrow> string" where
  "strings_TrimSuffix s p = (if strings_HasSuffix s p then take (length s - length p) s else s)"

definition HandlerToState :: "string \<Rightarrow> string" where
  "HandlerToState handler =
     strings_TrimSuffix (strings_TrimSuffix (strings_TrimSuffix (strings_TrimSuffix handler SuffixState) SuffixEnter)
       SuffixEnd) SuffixExit"

section \<open>Schemas\<close>

text \<open>The text that is hashed; \<open>hash\<close> stands for \<open>am.Hash\<close>, MD5 cut to six digits.\<close>

definition hash_names :: "S option \<Rightarrow> string" where
  "hash_names names = concat (map (\<lambda>r. r @ '','') (sort (sl names))) @ '';''"

definition hash_state :: "string \<Rightarrow> State \<Rightarrow> string" where
  "hash_state k s =
     k @ '':'' @ (if Auto s then ''a,'' else []) @ (if Multi s then ''m,'' else [])
     @ hash_names (After s) @ hash_names (Remove s) @ hash_names (Add s) @ hash_names (Require s)"

definition hash_text :: "Schema \<Rightarrow> string" where
  "hash_text schema = concat (map (\<lambda>k. hash_state k (Schema_Get schema k)) (sort (gkeys schema)))"

definition SchemaHash :: "(string \<Rightarrow> string) \<Rightarrow> Schema option \<Rightarrow> string" where
  "SchemaHash hash schema = (case schema of None \<Rightarrow> [] | Some sch \<Rightarrow> hash (hash_text sch))"

fun copy_states :: "Schema \<Rightarrow> Schema \<Rightarrow> S \<Rightarrow> string + Schema" where
  "copy_states source newSchema [] = Inr newSchema"
| "copy_states source newSchema (name # names) =
     (case gget source name of None \<Rightarrow> Inl name | Some s \<Rightarrow> copy_states source (gput name s newSchema) names)"

datatype copy_error = CopyMissing string | CopySet mach_error

definition CopySchema :: "Schema \<Rightarrow> Machine \<Rightarrow> S \<Rightarrow> copy_error option \<times> Machine" where
  "CopySchema source target states =
     (if length states = 0 then (None, target)
      else case copy_states source (Schema_Clone (m_schema target)) states of
        Inl name \<Rightarrow> (Some (CopyMissing name), target)
      | Inr newSchema \<Rightarrow>
          (case SetSchema target newSchema (slicesUniq (m_stateNames target @ states)) of
             (err, m1) \<Rightarrow> (map_option CopySet err, m1)))"

section \<open>Getters and setters\<close>

text \<open>The tries of \<open>EvalGetter\<close> and \<open>EvalSetter\<close>; \<open>evals\<close> is what \<open>Eval\<close> does on each try: whether it returned true, and
  the result of the getter when it ran, which it can also do after a timeout.\<close>

definition eval_tries :: "int \<Rightarrow> nat" where
  "eval_tries maxTries = nat (min maxTries 1)"

fun eval_loop :: "nat \<Rightarrow> (bool \<times> ('t \<times> string option) option) list \<Rightarrow> string \<Rightarrow> 't \<times> string option \<Rightarrow> 't \<times> string option" where
  "eval_loop 0 evals label r = r"
| "eval_loop (Suc n) [] label r = r"
| "eval_loop (Suc n) ((ok, got) # evals) label r =
     (let r1 = (case got of None \<Rightarrow> r | Some x \<Rightarrow> x) in
      if ok then r1 else eval_loop n evals label (fst r1, Some (''eval timeout: '' @ label)))"

definition EvalGetter :: "'t \<Rightarrow> string \<Rightarrow> int \<Rightarrow> (bool \<times> ('t \<times> string option) option) list \<Rightarrow> 't \<times> string option" where
  "EvalGetter zero source maxTries evals =
     eval_loop (eval_tries maxTries) evals (''EvalGet/'' @ source) (zero, None)"

definition EvalSetter :: "string \<Rightarrow> int \<Rightarrow> (bool \<times> (unit \<times> string option) option) list \<Rightarrow> string option" where
  "EvalSetter source maxTries evals =
     snd (eval_loop (eval_tries maxTries) evals (''EvalSet/'' @ source) ((), None))"

section \<open>Machines\<close>

text \<open>\<open>NewDynMach\<close> with the handlers of the two maps as one struct, as \<open>HandlersBindMaps\<close> makes it; its error is in the
  caller of the model.\<close>

definition Opts_zero :: Opts where
  "Opts_zero = \<lparr>op_Id = [], op_QueueLimit = 0, op_DontPanicToException = False, op_HandlerBackoff = 0,
     op_Tags = [], op_ParentId = []\<rparr>"

definition NewDynMach :: "Env \<Rightarrow> nat \<Rightarrow> Schema \<Rightarrow> handler \<Rightarrow> string \<Rightarrow> S \<Rightarrow> Machine res" where
  "NewDynMach env fuel schema handlers ident state =
     bindR (New env fuel schema Opts_zero ident) (\<lambda>m.
       bindR (bindHandlers env fuel m handlers (h_id handlers)) (\<lambda>(_, m1).
         if length state > 0 then bindR (mach_Set env fuel m1 state []) (\<lambda>(_, m2). Inr m2) else Inr m1))"

definition StateDisposing :: string where "StateDisposing = ''Disposing''"

definition help_Dispose :: "Env \<Rightarrow> nat \<Rightarrow> bool \<Rightarrow> Machine \<Rightarrow> Machine res" where
  "help_Dispose env fuel parentAlive m =
     (if Has1 m StateDisposing then bindR (mach_Add env fuel m [StateDisposing] []) (\<lambda>(_, m1). Inr m1)
      else Dispose env fuel parentAlive m)"

definition DisposeEv :: "Env \<Rightarrow> nat \<Rightarrow> bool \<Rightarrow> Machine \<Rightarrow> Event option \<Rightarrow> Machine res" where
  "DisposeEv env fuel parentAlive m e =
     (if Has1 m StateDisposing then bindR (EvAdd1 env fuel m e StateDisposing []) (\<lambda>(_, m1). Inr m1)
      else Dispose env fuel parentAlive m)"

section \<open>Mirrors\<close>

text \<open>A struct of handlers by the names of its methods and of its function fields. The errors are the missing states.\<close>

definition list_check :: "S \<Rightarrow> string \<Rightarrow> S \<times> S" where
  "list_check states name =
     (case IsHandler states name of (s1, s2) \<Rightarrow>
        ((if s1 \<noteq> [] \<and> \<not> slices_Contains states s1 then [s1] else [])
         @ (if s2 \<noteq> [] \<and> \<not> slices_Contains states s2 then [s2] else []),
         if s1 \<noteq> [] \<or> name = StateAny @ SuffixEnter \<or> name = StateAny @ SuffixState then [name] else []))"

definition listHandlers :: "string list \<Rightarrow> string list \<Rightarrow> S \<Rightarrow> S \<times> string list" where
  "listHandlers funs flds states =
     (concat (map (fst \<circ> list_check states) (funs @ flds)), concat (map (snd \<circ> list_check states) (funs @ flds)))"

text \<open>The fields set by the loop, which the source then binds, and the mutations of the mirror made on the way. A name that stands for a method and
  not for a field has no field to set, which panics.\<close>

definition mirror_schema :: "Schema \<Rightarrow> S \<Rightarrow> Schema" where
  "mirror_schema sourceSchema states =
     foldl (\<lambda>sch name. gput name (State_zero\<lparr>Multi := Multi (Schema_Get sourceSchema name)\<rparr>) sch) [] states"

datatype mirror_error = ErrHandlers S | ErrUnsupported string

definition mirror_pipe :: "bool \<Rightarrow> bool \<Rightarrow> string \<Rightarrow> pipe res" where
  "mirror_pipe flat isAdd state =
     (if flat then (if isAdd then AddFlat state [] else RemoveFlat state [])
      else if isAdd then pipes_Add state [] else pipes_Remove state [])"

definition mirror_handler :: "string \<Rightarrow> (bool \<times> string) option" where
  "mirror_handler name =
     (if strings_HasSuffix name SuffixState then Some (True, strings_TrimSuffix name SuffixState)
      else if strings_HasSuffix name SuffixEnd then Some (False, strings_TrimSuffix name SuffixEnd)
      else None)"

definition mirror_sync :: "Env \<Rightarrow> nat \<Rightarrow> bool \<Rightarrow> Machine \<Rightarrow> string \<Rightarrow> Machine \<Rightarrow> Machine res" where
  "mirror_sync env fuel flat source state mirror =
     (if flat \<and> Is1 source state then bindR (mach_Add env fuel mirror [state] []) (\<lambda>(_, m1). Inr m1) else Inr mirror)"

fun mirror_loop ::
  "Env \<Rightarrow> nat \<Rightarrow> bool \<Rightarrow> Machine \<Rightarrow> string list \<Rightarrow> string list \<Rightarrow> Machine
   \<Rightarrow> (mirror_error + (string \<times> field_fn) list \<times> Machine) res" where
  "mirror_loop env fuel flat source flds [] mirror = Inr (Inr ([], mirror))"
| "mirror_loop env fuel flat source flds (name # names) mirror =
     (case mirror_handler name of
        None \<Rightarrow> Inr (Inl (ErrUnsupported name))
      | Some (isAdd, state) \<Rightarrow>
          bindR (mirror_sync env fuel flat source state mirror) (\<lambda>m1.
          bindR (mirror_pipe flat isAdd state) (\<lambda>p.
            if name \<notin> set flds then Inl (GoPanic ''reflect: call of Set on zero Value'')
            else bindR (mirror_loop env fuel flat source flds names m1) (\<lambda>r.
              Inr (case r of Inl e \<Rightarrow> Inl e | Inr (fs, m2) \<Rightarrow> Inr ((name, FnPipe p) # fs, m2))))))"

text \<open>At the end the struct, with its methods and all its fields, is bound to the source as an anonymous binding: \<open>bid\<close>
  is the random identity, \<open>senv\<close> answers for the handlers of the source, which are called when a pending exception is
  repeated. \<open>HandlersBind\<close> itself fails only for values that are not pointers to structs, which \<open>NewMirror\<close> has refused
  before. The result is the fields set, the mirror and the source with its new handlers.\<close>

definition mirror_struct :: "string list \<Rightarrow> string list \<Rightarrow> handler" where
  "mirror_struct funs flds = \<lparr>h_id = [], h_num = 0, h_isMap = False, h_StatePrefix = [], h_methods = funs @ flds,
     h_negotiations = [], h_finals = []\<rparr>"

definition NewMirror ::
  "Env \<Rightarrow> Env \<Rightarrow> nat \<Rightarrow> string \<Rightarrow> string \<Rightarrow> bool \<Rightarrow> Machine \<Rightarrow> string list \<Rightarrow> string list \<Rightarrow> S
   \<Rightarrow> (mirror_error + (string \<times> field_fn) list \<times> Machine \<times> Machine) res" where
  "NewMirror env senv fuel bid ident flat source funs flds states =
     (case listHandlers funs flds states of (errs, names) \<Rightarrow>
        if errs \<noteq> [] then Inr (Inl (ErrHandlers errs))
        else let ident' = (if ident = [] then ''mirror-'' @ m_id source else ident) in
          bindR (New env fuel (mirror_schema (m_schema source) states)
                   (Opts_zero\<lparr>op_Id := ident', op_ParentId := m_id source\<rparr>) ident') (\<lambda>mirror.
          bindR (mirror_loop env fuel flat source flds names mirror) (\<lambda>r.
            case r of
              Inl e \<Rightarrow> Inr (Inl e)
            | Inr (fs, mirror') \<Rightarrow>
                bindR (bindHandlers senv fuel source (mirror_struct funs flds) bid) (\<lambda>(_, source').
                  Inr (Inr (fs, mirror', source'))))))"

section \<open>Disposal by states\<close>

text \<open>\<open>DisposedHandlers\<close> of \<open>src/pkg/states/ss_disposed.go\<close>. A reference value stands for a disposal handler; the list of
  registered ones is the struct. The goroutine of \<open>DisposingState\<close> is given whether the context has expired before each
  handler; it gives the handlers called and whether \<open>Disposed\<close> is added.\<close>

definition DisposedArgHandler :: string where "DisposedArgHandler = ''DisposedArgHandler''"

definition StateRegisterDisposal :: string where "StateRegisterDisposal = ''RegisterDisposal''"

definition RegisterDisposal :: "Env \<Rightarrow> nat \<Rightarrow> Machine \<Rightarrow> Event option \<Rightarrow> nat \<Rightarrow> (Result \<times> Machine) res" where
  "RegisterDisposal env fuel m e h = EvAdd1 env fuel m e StateRegisterDisposal [(DisposedArgHandler, VRef h)]"

definition RegisterDisposalEnter :: "bool \<Rightarrow> A \<Rightarrow> mut_call list \<times> bool" where
  "RegisterDisposalEnter isCheck args =
     (let ret = (case gget args DisposedArgHandler of Some (VRef h) \<Rightarrow> True | _ \<Rightarrow> False) in
      (if \<not> ret \<and> \<not> isCheck then [CallAddErr (Some ''invalid args: DisposedArgHandler invalid'') []] else [], ret))"

definition RegisterDisposalState :: "nat list \<Rightarrow> A \<Rightarrow> nat list res" where
  "RegisterDisposalState handlers args =
     (case gget args DisposedArgHandler of
        Some (VRef h) \<Rightarrow> Inr (handlers @ [h])
      | _ \<Rightarrow> Inl (GoPanic ''interface conversion''))"

fun DisposingState :: "nat list \<Rightarrow> bool list \<Rightarrow> nat list \<times> bool" where
  "DisposingState [] expired = ([], True)"
| "DisposingState (h # hs) [] = ([], False)"
| "DisposingState (h # hs) (e # es) =
     (if e then ([], False) else case DisposingState hs es of (called, added) \<Rightarrow> (h # called, added))"

definition DisposedState :: "Env \<Rightarrow> nat \<Rightarrow> bool \<Rightarrow> Machine \<Rightarrow> Machine res" where
  "DisposedState env fuel parentAlive m = Dispose env fuel parentAlive m"

text \<open>\<open>None\<close> when the handler is left to \<open>OnDispose\<close> of the machine.\<close>

definition DisposeBind :: "Env \<Rightarrow> nat \<Rightarrow> Machine \<Rightarrow> nat \<Rightarrow> Machine option res" where
  "DisposeBind env fuel m h =
     (if Has1 m StateRegisterDisposal
      then bindR (mach_Add env fuel m [StateRegisterDisposal] [(DisposedArgHandler, VRef h)]) (\<lambda>(_, m1). Inr (Some m1))
      else Inr None)"

end
