(* ===== verification/Am_Effect.thy ===== *)
theory Am_Effect
  imports Am_Drain Am_Relations
begin

text \<open>
  The effect of mutations: with handlers that accept and queue nothing, a mutation whose outcome is consistent with
  the relations has exactly this outcome, and a machine without relations is a set of states.
\<close>

section \<open>What a transition leaves alone\<close>

definition still :: "Machine \<Rightarrow> Machine \<Rightarrow> bool" where
  "still m m' = (m_schema m' = m_schema m \<and> m_queue m' = m_queue m \<and> m_queueLen m' = m_queueLen m \<and> m_queueTick m' = m_queueTick m
     \<and> m_queueTicksPending m' = m_queueTicksPending m \<and> m_LastHandlerDeadline m' = m_LastHandlerDeadline m
     \<and> m_now m' = m_now m \<and> m_HandlerBackoff m' = m_HandlerBackoff m \<and> m_QueueLimit m' = m_QueueLimit m)"

lemma still_refl [simp]: "still m m"
  by (simp add: still_def)

lemma still_trans: "still m m' \<Longrightarrow> still m' m'' \<Longrightarrow> still m m''"
  by (simp add: still_def)

lemma still_upd [simp]:
  "still m (upd_t f m)" "still m (m\<lparr>m_t := t\<rparr>)" "still m (m\<lparr>m_subs := sm\<rparr>)" "still m (m\<lparr>m_closed := c\<rparr>)"
  "still m (m\<lparr>m_timeLast := tl'\<rparr>)"
  by (simp_all add: still_def upd_t_def)

lemma tranquil_still:
  assumes "tranquil m m'"
  shows "still m m'"
proof -
  have "still m ((upd_t (note_handler e f to) m)\<lparr>m_subs := sm, m_closed := c\<rparr>)" for e f to sm c
    by (simp add: still_def upd_t_def)
  with assms show ?thesis unfolding tranquil_def by (metis still_refl)
qed

lemma setActiveStates_still: "still m (setActiveStates m called ts)"
  by (simp add: still_def setActiveStates_def Let_def split: prod.splits)

lemma commit_states_still: "still m (commit_states called m)"
  unfolding commit_states_def Let_def
  by (rule still_trans [OF setActiveStates_still]) (simp add: still_def upd_t_def split: prod.splits)

lemma notified_still:
  assumes "only_notified m m'"
  shows "still m m'"
proof -
  have "still m (m\<lparr>m_subs := sm, m_closed := c, m_checks := k\<rparr>)" for sm c k by (simp add: still_def)
  with assms show ?thesis unfolding only_notified_def by metis
qed

lemma setActiveStates_active: "\<not> m_disposing m \<Longrightarrow> m_activeStates (commit_states called m) = tgt m"
  using commit_states_set [of m called] setActiveStates_fields(1) [of m called "tgt m"] by (simp add: keeps_def)

section \<open>An accepted transition\<close>

text \<open>No state is added by itself.\<close>

definition no_auto :: "Schema \<Rightarrow> bool" where
  "no_auto schema = list_all (\<lambda>s. \<not> Auto (Schema_Get schema s)) (gkeys schema)"

lemma NewAutoMutation_none: "no_auto (m_schema m) \<Longrightarrow> NewAutoMutation m = None"
  by (simp add: NewAutoMutation_def auto_toAdd_def no_auto_def list_all_iff)

lemma run_finals_effect:
  assumes "accepting env" "ready m" "length (tx_TimeBefore (cur m)) \<le> length (m_stateNames m)"
  shows "\<exists>b m'. run_finals env hh m = Inr ((Executed, b), m') \<and> tranquil m m'"
proof -
  have "goes_well m (if hh \<or> HasWhenArgs (m_subs m) then emitFinalEvents env m else Inr (Executed, m))"
    using emitFinal_loop_well [OF assms(1,2)] by (simp add: emitFinalEvents_def goes_well_def)
  then obtain m1 where 1: "(if hh \<or> HasWhenArgs (m_subs m) then emitFinalEvents env m else Inr (Executed, m)) = Inr (Executed, m1)"
    and 2: "tranquil m m1" by (auto simp: goes_well_def)
  obtain b where "IsTime m1 (tx_TimeBefore (cur m1)) None = Inr b"
    using IsTime_total [of "tx_TimeBefore (cur m1)" m1] assms(3) by (auto simp: tranquil_fields [OF 2])
  with 1 show ?thesis using 2 by (simp add: run_finals_def)
qed

lemma mutate_phase_effect:
  assumes "accepting env" "ready m" "\<not> tx_IsAuto (cur m)" "names_ok m"
    "mu_cacheCalled (tx_Mutation (cur m)) = Some cs" "length (tx_TimeBefore (cur m)) \<le> length (m_stateNames m)"
  shows "\<exists>m3 m'. mutate_phase env called Executed m = Inr (Executed, m') \<and> tranquil (commit_states called m) m3
    \<and> keeps True m3 m' \<and> (no_auto (m_schema m) \<longrightarrow> m' = m3)"
proof -
  let ?m1 = "commit_states called m"
  have c: "flow m ?m1" by (rule commit_states_flow)
  have d: "\<not> m_disposing m" using assms(2) by (simp add: ready_def)
  have "ready ?m1" "length (tx_TimeBefore (cur ?m1)) \<le> length (m_stateNames ?m1)"
    using c flow_ready [OF c assms(2)] assms(6) by (simp_all add: flow_def)
  from run_finals_effect [OF assms(1) this] obtain b m2
    where 2: "run_finals env (m_handlerLoopRunning m) ?m1 = Inr ((Executed, b), m2)" "tranquil ?m1 m2" by blast
  obtain m3 where 3: "any_state_step env Executed m2 = Inr (Executed, m3)" "tranquil m2 m3"
    using emitHandler_accepting [OF assms(1) tranquil_ready [OF 2(2) \<open>ready ?m1\<close>],
        of StateAny True True "StateAny @ SuffixState"] that
    by (cases "m_handlerLoopRunning m2") (auto simp: any_state_step_def)
  have t: "tranquil ?m1 m3" using 2(2) 3(2) by (rule tranquil_trans)
  have f3: "m_schema m3 = m_schema m" "tx_Mutation (cur m3) = tx_Mutation (cur m)" "m_stateNames m3 = m_stateNames m"
    using c by (simp_all add: tranquil_fields [OF t] flow_def)
  then have "names_ok m3" using assms(4) by (simp add: names_ok_def)
  then obtain m4 where 4: "auto_phase Executed b m3 = Inr m4"
    using auto_phase_total [of m3 cs Executed b] assms(5) f3(2) by auto
  have "no_auto (m_schema m) \<longrightarrow> m4 = m3"
    using 4 f3 assms(5) NewAutoMutation_none [of m3]
    by (auto simp: auto_phase_def tx_IsHealth_def tx_CalledStates_def split: if_splits)
  with auto_phase_step [OF 4] show ?thesis
    using assms(3) 2(1) 3(1) 4 t by (auto simp: mutate_phase_def recheck_auto_def apply_phase_def)
qed

lemma Is_subset:
  assumes "\<not> m_disposing m" "set xs \<subseteq> set (m_stateNames m)" "set xs \<subseteq> set (m_activeStates m)"
  shows "Is m xs"
proof -
  have "is_loop names active xs" if "set xs \<subseteq> set names" "set xs \<subseteq> set active" for names active
    using that by (induction xs) auto
  with assms show ?thesis by (simp add: Is_def is'_def)
qed

lemma Not_disjoint:
  assumes "\<not> m_disposing m" "set xs \<subseteq> set (gkeys (m_schema m))" "set xs \<inter> set (m_activeStates m) = {}"
  shows "Not m xs = Inr True"
  using assms mustParseStates_known [of False xs "m_schema m"]
  by (simp add: Not_def not'_def mach_mustParse_def slicesNone_iff)

text \<open>An accepted transition makes its targets the active states and is reported as executed.\<close>

lemma emitEvents_effect:
  assumes "accepting env" "ready m" "tx_IsAccepted (cur m)" "\<not> tx_IsAuto (cur m)" "\<not> mu_IsCheck (tx_Mutation (cur m))"
    "names_ok m" "set (tgt m) \<subseteq> set (gkeys (m_schema m))"
    "mu_cacheCalled (tx_Mutation (cur m)) = Some cs" "set cs \<subseteq> set (gkeys (m_schema m))"
    "length (tx_TimeBefore (cur m)) \<le> length (m_stateNames m)"
  shows "\<exists>x m'. emitEvents env m = Inr (x, m') \<and> m_activeStates m' = tgt m
    \<and> ((tx_Type (cur m) = MutationRemove \<longrightarrow> set cs \<inter> set (tgt m) = {}) \<longrightarrow> x = Executed)
    \<and> tx_Exits (cur m') = tx_Exits (cur m) \<and> tx_Enters (cur m') = tx_Enters (cur m)
    \<and> (no_auto (m_schema m) \<longrightarrow> still m m')"
proof -
  obtain m1 where 1: "negotiate env Executed m = Inr (Executed, m1)" "tranquil m m1"
    using negotiate_accepting [OF assms(1,2)] assms(4) by auto
  note f1 = tranquil_fields [OF 1(2)]
  have t1: "tgt m1 = tgt m" by (simp add: tgt_def f1)
  have a1: "\<not> tx_IsAuto (cur m1)" "names_ok m1" using assms(4,6) by (simp_all add: f1 tx_IsAuto_def names_ok_def)
  obtain m2' m2 where 2: "mutate_phase env cs Executed m1 = Inr (Executed, m2)" "tranquil (commit_states cs m1) m2'"
    "keeps True m2' m2" "no_auto (m_schema m) \<longrightarrow> m2 = m2'"
    using mutate_phase_effect [OF assms(1) tranquil_ready [OF 1(2) assms(2)] a1, of cs cs] assms(8,10) by (auto simp: f1)
  note f2 = tranquil_fields [OF 2(2)]
  have d: "\<not> m_disposing m" "\<not> m_disposing m1" using assms(2) by (simp_all add: ready_def f1)
  have kc: "keeps False m1 (commit_states cs m1)" by (rule commit_states_keeps)
  have t2: "tgt m2' = tgt m" using keeps_tgt [OF kc] t1 by (simp add: tgt_def f2)
  let ?m3 = "closing m2"
  have k: "keeps True m2' ?m3" using keeps_trans [OF 2(3) closing_keeps] by simp
  have f3: "m_activeStates ?m3 = tgt m" "m_schema ?m3 = m_schema m" "m_stateNames ?m3 = m_stateNames m"
    "m_disposing ?m3 = m_disposing m" "tx_Mutation (cur ?m3) = tx_Mutation (cur m)" "tgt ?m3 = tgt m"
    "tx_Exits (cur ?m3) = tx_Exits (cur m)" "tx_Enters (cur ?m3) = tx_Enters (cur m)"
    using keeps_simps [OF k] keeps_cur [OF k] keeps_tgt [OF k] keeps_unchanged [OF k] keeps_simps [OF kc] keeps_cur [OF kc]
      t1 t2 setActiveStates_active [OF d(2), of cs]
    by (simp_all add: unchanged_def f1 f2)
  obtain x where "final_result cs Executed ?m3 = Inr x" using final_result_total [of ?m3 cs Executed] assms(9) d f3 by auto
  moreover have "x = Executed" if "tx_Type (cur m) = MutationRemove \<longrightarrow> set cs \<inter> set (tgt m) = {}"
    using calculation that assms(4,5,6,7,9) Is_subset [of ?m3 "tgt m"] Not_disjoint [of ?m3 cs] d f3
    by (auto simp: final_result_def Let_def tgt_def tx_Type_def tx_IsAuto_def names_ok_def split: if_splits)
  moreover have "no_auto (m_schema m) \<longrightarrow> still m ?m3"
    using 2(4) still_trans [OF tranquil_still [OF 1(2)] still_trans [OF commit_states_still still_trans [OF tranquil_still [OF 2(2)]
      still_upd(1)]]] by (simp add: closing_def)
  ultimately show ?thesis
    using 1(1) 2(1) assms(3,5,8) f3 by (auto simp: emitEvents_def tx_CalledStates_def f1 Let_def closing_def)
qed

section \<open>Consistent outcomes\<close>

text \<open>The states a mutation asks for, and when the relations have nothing to add to them or to take from them: all
  required states are there, none removes another, and what new and multi states add is there.\<close>

definition asked :: "MutationType \<Rightarrow> string set \<Rightarrow> string set \<Rightarrow> string set" where
  "asked ty before states =
     (case ty of MutationAdd \<Rightarrow> states \<union> before | MutationRemove \<Rightarrow> before - states | MutationSet \<Rightarrow> states | mutationEval \<Rightarrow> {})"

definition consistent :: "Schema \<Rightarrow> string set \<Rightarrow> string set \<Rightarrow> bool" where
  "consistent schema before X =
     (\<forall>s \<in> X. let st = Schema_Get schema s in
        set (sl (Require st)) \<subseteq> X \<and> set (sl (Remove st)) \<inter> X = {}
        \<and> (s \<notin> before \<or> Multi st \<longrightarrow> set (sl (Add st)) \<subseteq> X))"

lemma set_statesToSet: "set (statesToSet m ty cs) = asked ty (set (m_activeStates m)) (set cs)"
  by (cases ty) (auto simp: statesToSet_def asked_def slice_simps)

lemma consistent_phases:
  assumes "require_closed rr (set xs)" "conflict_free rr (set xs)" "implied rr (set xs) \<subseteq> set xs"
  shows "set (target_phase rr (resolved_phase rr (statesToSet_phase rr xs))) = set xs"
proof -
  have i: "set xs \<union> implied rr (set xs) = set xs" using assms(3) by blast
  then have 1: "set (statesToSet_phase rr xs) = set xs"
    using assms(1) parseRequire_closed_id [of rr "slicesUniq (parseAdd rr xs)"]
    by (simp add: statesToSet_phase_def set_parseAdd)
  then have 2: "set (resolved_phase rr (statesToSet_phase rr xs)) = set xs"
    using assms(2) by (simp add: resolved_phase_def slicesReverse_rev filterBlocked_none conflict_free_def)
  let ?R = "resolved_phase rr (statesToSet_phase rr xs)"
  have "set xs \<inter> set (toRemove rr ?R) = {}"
    using assms(2) 2 by (auto simp: set_toRemove conflict_free_def)
  then have "set (slicesReverse (slicesUniq (slicesFilter (parseAdd rr ?R)
       (\<lambda>name _. \<not> slices_Contains (toRemove rr ?R) name)))) = set xs"
    using i 2 by (auto simp: slicesReverse_rev slicesFilter_filter set_parseAdd)
  with assms(1) show ?thesis by (simp add: target_phase_def parseRequire_closed_id)
qed

lemma resolve_consistent:
  assumes "\<not> rr_disposing rr" "set xs \<subseteq> set (gkeys (rr_schema rr))" "consistent (rr_schema rr) (set (rr_statesBefore rr)) (set xs)"
  shows "\<exists>ts. TargetStates rr xs = Inr ts \<and> set ts = set xs"
proof -
  have "implied rr (set xs) \<subseteq> set xs"
  proof
    fix x
    assume "x \<in> implied rr (set xs)"
    then obtain n where n: "n \<in> set xs" "follows_add rr n" "x \<in> set (add_states rr n)" by (auto simp: implied_def)
    with assms(3) have "Add_of rr n \<subseteq> set xs" by (auto simp: consistent_def Let_def follows_add_def)
    with n(3) add_states_subset show "x \<in> set xs" by blast
  qed
  moreover have "require_closed rr (set xs)" "conflict_free rr (set xs)"
    using assms(3) by (auto simp: consistent_def Let_def require_closed_def conflict_free_def)
  ultimately have "set (target_phase rr (resolved_phase rr (statesToSet_phase rr (slicesUniq xs)))) = set xs"
    using consistent_phases [of rr "slicesUniq xs"] by simp
  then show ?thesis using TargetStates_phases [OF assms(1,2)] by simp
qed

lemma newTransition_consistent:
  assumes "newTransition m mut = Inr m'" "calm m" "mu_cacheCalled mut = Some cs" "set cs \<subseteq> set (gkeys (m_schema m))"
    "\<not> mu_IsAuto mut" "mu_Type mut \<noteq> mutationEval"
    "consistent (m_schema m) (set (m_activeStates m)) (asked (mu_Type mut) (set (m_activeStates m)) (set cs))"
  shows "tx_IsAccepted (cur m')" "set (tgt m') = asked (mu_Type mut) (set (m_activeStates m)) (set cs)"
proof -
  let ?U = "asked (mu_Type mut) (set (m_activeStates m)) (set cs)" and ?t0 = "initTransition m mut"
  from assms(1) obtain called ts t1 t where c: "tx_CalledStates (m_stateNames m) ?t0 = Inr called"
    and r: "tx_resolve m ?t0 (statesToSet m (mu_Type mut) called) = Inr ts"
    and t1: "\<exists>tAfter. predict_time m mut called ts = Inr tAfter \<and>
       setupAccepted (m_stateNames m) (?t0\<lparr>tx_TimeAfter := tAfter,
         tx_TargetIndexes := mach_Index m ts, tx_cacheTargetStates := Some ts\<rparr>) = Inr t1"
    and t: "if tx_IsAccepted t1 then setupExitEnter m t1 = Inr t else t = t1"
    and m': "m' = m\<lparr>m_t := Some t, m_nextTx := m_nextTx m + 1, m_rrIndex := m_stateNames m\<rparr>"
    by (rule newTransition_cases)
  have cs: "called = cs" using c assms(3) by (simp add: tx_CalledStates_def initTransition_def)
  have inv: "mach_inv m" "\<not> m_disposing m" using assms(2) by (simp_all add: calm_def mach_inv_def machine_wf_def)
  have "set ts = ?U"
    using resolve_consistent [of "tx_resolver m ?t0" "statesToSet m (mu_Type mut) cs"]
      statesToSet_known [OF inv(1) assms(4), of "mu_Type mut"] assms(7) r inv(2)
    by (simp add: tx_resolve_def tx_resolver_def mach_resolver_def cs set_statesToSet tx_StatesBefore_def initTransition_def)
  moreover from this have "mu_Type mut \<noteq> MutationRemove \<Longrightarrow> set cs \<subseteq> set ts"
    using assms(6) by (cases "mu_Type mut") (auto simp: asked_def)
  then have "tx_IsAccepted t1 \<and> tx_cacheTargetStates t1 = Some ts"
    using t1 assms(3,5) by (auto simp: setupAccepted_def tx_CalledStates_def tx_TargetStates_def initTransition_def
        Transition_none_def tx_Type_def tx_IsAuto_def Let_def StatesDiff_def slice_simps filter_empty_conv split: if_splits)
  ultimately show "tx_IsAccepted (cur m')" "set (tgt m') = ?U"
    using t setupExitEnter_names [of m t1 t UNIV] by (auto simp: m' cur_def tgt_def tx_TargetStates_def)
qed

section \<open>One mutation\<close>

lemma run_mutation_effect:
  assumes "accepting env" "calm m" "mu_cacheCalled mut = Some cs" "set cs \<subseteq> set (gkeys (m_schema m))"
    "\<not> mu_IsAuto mut" "\<not> mu_IsCheck mut" "mu_ctx mut = None" "mu_Type mut \<noteq> mutationEval" "no_auto (m_schema m)"
    "consistent (m_schema m) (set (m_activeStates m)) (asked (mu_Type mut) (set (m_activeStates m)) (set cs))"
  shows "\<exists>m'. run_mutation env mut m = Inr (Some Executed, m') \<and> still m m'
    \<and> set (m_activeStates m') = asked (mu_Type mut) (set (m_activeStates m)) (set cs)"
proof -
  have g: "good_mut m mut" using assms(3,4,8) by (simp add: good_mut_def)
  obtain m1 where m1: "newTransition m mut = Inr m1" using newTransition_total [OF assms(2) g] by blast
  have inv: "clock_inv m" "machine_wf m" "\<not> m_disposed m" using assms(2) by (simp_all add: calm_def mach_inv_def)
  note nr = newTransition_ready [OF m1 assms(2)]
  note nf = newTransition_facts [OF m1 inv(1,2)]
  note nc = newTransition_consistent [OF m1 assms(2-5,8,10)]
  have s1: "still m m1" using nf(4) by (auto simp: still_def)
  have "set cs \<inter> set (tgt m1) = {}" if "tx_Type (cur m1) = MutationRemove"
    using that nc(2) nf(2) by (auto simp: tx_Type_def asked_def)
  moreover have "length (tx_TimeBefore (cur m1)) \<le> length (m_stateNames m1)"
    using inv(3) by (simp add: nf nr mach_time_def)
  moreover have "set (tgt m1) \<subseteq> set (gkeys (m_schema m1))" using nf(1) by (simp add: tx_inv_def)
  moreover have "names_ok m1" using nr(2) by (simp add: calm_def)
  ultimately obtain m2 where m2: "emitEvents env m1 = Inr (Executed, m2)" "m_activeStates m2 = tgt m1" "still m1 m2"
    using emitEvents_effect [OF assms(1) nr(1) [OF nc(1)] nc(1), of cs] assms(3-6,9) nf(2) nr(5)
    by (fastforce simp: tx_IsAuto_def)
  obtain x m2' where t2: "emitEvents env m1 = Inr (x, m2')" "settled m1 m2'"
    "follow_ups (m_schema m1) (tx_Mutation (cur m1)) (m_queue m1) (m_queue m2')"
    using emitEvents_total [OF assms(1) nr(1), of cs] nf(2) nr assms(3,4) \<open>length _ \<le> _\<close> by (auto simp: calm_def)
  let ?m3 = "m2\<lparr>m_timeLast := tx_TimeAfter (cur m2)\<rparr>"
  have q2: "queries (m_subs ?m3) = ([], [])" using t2 m2(1) nr(2) by (simp add: settled_def calm_def)
  obtain m4 where m4: "after_transition env mut ?m3 = Inr m4" using after_transition_total [OF q2] by blast
  note n4 = after_transition_notified [OF m4]
  have "run_mutation env mut m = Inr (Some Executed, upd_t CleanCache m4)"
    using assms(7,8) m1 m2(1) m4 by (simp add: run_mutation_def ctx_expired_def)
  moreover have "still m (upd_t CleanCache m4)"
    using s1 m2(3) notified_still [OF n4] still_trans still_upd(1,5) by metis
  moreover have "m_activeStates (upd_t CleanCache m4) = tgt m1" using only_notified_fields [OF n4] m2(2) by simp
  ultimately show ?thesis using nc(2) by auto
qed

section \<open>One call\<close>

text \<open>A machine that waits for its next mutation, and its successor by a call.\<close>

definition resting :: "Machine \<Rightarrow> bool" where
  "resting m = (idle m \<and> m_t m = None \<and> \<not> Backoff m \<and> \<not> queue_full m)"

definition next_of :: "Machine \<Rightarrow> string set \<Rightarrow> Machine \<Rightarrow> bool" where
  "next_of m X m' = (resting m' \<and> m_schema m' = m_schema m \<and> set (m_activeStates m') = X
     \<and> m_queueTicksPending m' = m_queueTicksPending m \<and> m_queueTick m' = m_queueTick m + 1)"

lemma queueMutation_empty:
  assumes "m_queue m = []" "mach_mustParse m states = Inr parsed"
  obtains mut where "queueMutation m ty states args ev = Inr (mu_QueueTick mut,
      m\<lparr>m_queue := [mut], m_queueLen := 1, m_queueTicksPending := m_queueTicksPending m + 1\<rparr>)"
    "mu_Type mut = ty" "mu_cacheCalled mut = Some parsed" "mu_QueueTick mut = m_queueTicksPending m + 1 + m_queueTick m"
    "\<not> mu_IsAuto mut" "\<not> mu_IsCheck mut" "mu_ctx mut = None"
proof -
  have "\<not> detectQueueDuplicates m ty parsed False"
    using assms(1) by (simp add: detectQueueDuplicates_def mach_IsQueued_def Let_def)
  then show thesis using that assms by (simp add: queueMutation_def Let_def Mutation_zero_def)
qed

lemma still_guards:
  assumes "still m m'"
  shows "Backoff m' = Backoff m" "queue_full m' = queue_full m"
  using assms by (simp_all add: still_def Backoff_def queue_full_def QueueLen_def cong: option.case_cong)

lemma queue_end_still: "still m (queue_end m)" "m_t (queue_end m) = None" "m_activeStates (queue_end m) = m_activeStates m"
  "\<not> m_queueProcessing (queue_end m)"
  by (simp_all add: queue_end_def still_def ProcessWhenQueueEnds_def close_chans_def Let_def)

lemma queued_effect:
  assumes "accepting env" "resting m" "set states \<subseteq> set (gkeys (m_schema m))" "ty \<noteq> mutationEval" "no_auto (m_schema m)"
    "consistent (m_schema m) (set (m_activeStates m)) (asked ty (set (m_activeStates m)) (set states))"
    "m_queueTicksPending m + 1 + m_queueTick m \<noteq> 0" "2 \<le> fuel"
  shows "\<exists>m'. finish_prep env fuel (queue_prep m ty states args ev) = Inr (Executed, m')
    \<and> next_of m (asked ty (set (m_activeStates m)) (set states)) m'"
proof -
  have m: "idle m" "calm m" "m_queue m = []" "\<not> m_queueProcessing m" "\<not> m_disposing m" "\<not> Backoff m" "\<not> queue_full m" "m_queueLen m = 0"
    using assms(2) by (simp_all add: resting_def idle_def calm_def mach_inv_def machine_wf_def)
  have p: "mach_mustParse m states = Inr (slicesUniq states)"
    using assms(3) m(5) mustParseStates_known by (simp add: mach_mustParse_def)
  obtain mut where q: "queueMutation m ty states args ev = Inr (mu_QueueTick mut,
      m\<lparr>m_queue := [mut], m_queueLen := 1, m_queueTicksPending := m_queueTicksPending m + 1\<rparr>)"
    and mut: "mu_Type mut = ty" "mu_cacheCalled mut = Some (slicesUniq states)"
      "mu_QueueTick mut = m_queueTicksPending m + 1 + m_queueTick m" "\<not> mu_IsAuto mut" "\<not> mu_IsCheck mut" "mu_ctx mut = None"
    by (rule queueMutation_empty [OF m(3) p])
  define m1 where "m1 = m\<lparr>m_queue := [mut], m_queueLen := 1, m_queueTicksPending := m_queueTicksPending m + 1,
    m_queueProcessing := True, m_queueRunning := False\<rparr>"
  define m2 where "m2 = shift_queue (m1\<lparr>m_queueRunning := True\<rparr>) mut []"
  have tick: "mu_QueueTick mut > 0" using mut(3) assms(7) by (simp add: word_gt_0)
  have m2: "m_schema m2 = m_schema m" "m_activeStates m2 = m_activeStates m" "m_queue m2 = []" "m_queueLen m2 = 0"
    "m_queueTick m2 = m_queueTick m + 1" "m_queueTicksPending m2 = m_queueTicksPending m" "m_clock m2 = m_clock m"
    "m_disposing m2 = m_disposing m" "m_LastHandlerDeadline m2 = m_LastHandlerDeadline m" "m_now m2 = m_now m"
    "m_HandlerBackoff m2 = m_HandlerBackoff m" "m_QueueLimit m2 = m_QueueLimit m"
    using tick by (simp_all add: m2_def m1_def shift_queue_def Let_def)
  have "mach_inv m1 = mach_inv m" by (rule mach_inv_same) (simp_all add: m1_def)
  then have "calm m1" using m(2) unfolding calm_def names_ok_def by (simp add: m1_def)
  then have c2: "calm m2" unfolding m2_def calm_queue .
  have cons: "consistent (m_schema m2) (set (m_activeStates m2)) (asked (mu_Type mut) (set (m_activeStates m2)) (set (slicesUniq states)))"
    using assms(6) mut(1) by (simp add: m2)
  obtain m3 where m3: "run_mutation env mut m2 = Inr (Some Executed, m3)" "still m2 m3"
    "set (m_activeStates m3) = asked ty (set (m_activeStates m)) (set states)"
    using run_mutation_effect [OF assms(1) c2 mut(2) _ mut(4-6) _ _ cons] assms(3-5) mut(1) m2 by auto
  have c3: "calm m3"
    using run_mutation_total [OF assms(1) c2, of mut] mut(1,2) assms(3,4) m2(1) m3(1) by (auto simp: good_mut_def)
  obtain fuel' where fuel: "fuel = Suc fuel'" using assms(8) by (cases fuel) auto
  have l3: "m_queueLen m3 = 0" using m3(2) m2 by (simp add: still_def)
  have "queue_loop env fuel' [Executed] m3 = Inr (Inr [Executed], m3)" using l3 by (cases fuel') simp_all
  then have "queue_loop env fuel [] m1 = Inr (Inr [Executed], m3)"
    using m3(1) m(5) unfolding fuel m2_def by (simp add: m1_def Let_def)
  then have res: "finish_prep env fuel (queue_prep m ty states args ev) = Inr (Executed, queue_end m3)"
    using q tick m(5) by (simp add: queue_prep_def finish_prep_def processQueue_def processQueue_busy_def m(4) m1_def
        Executed_def Queued_def)
  have "still m2 (queue_end m3)" using m3(2) queue_end_still(1) still_trans by blast
  moreover from this have "Backoff (queue_end m3) = Backoff m2" "queue_full (queue_end m3) = queue_full m2"
    by (rule still_guards)+
  moreover have "Backoff m2 = Backoff m" "queue_full m2 = queue_full m"
    using m2 m(8) by (simp_all add: Backoff_def queue_full_def QueueLen_def cong: option.case_cong)
  ultimately have "next_of m (asked ty (set (m_activeStates m)) (set states)) (queue_end m3)"
    using c3 m3(3) m m2 queue_end_still(2-4) [of m3]
    by (simp add: next_of_def resting_def idle_def calm_end still_def)
  with res show ?thesis by blast
qed

lemma methods_effect:
  assumes "accepting env" "resting m" "set states \<subseteq> set (gkeys (m_schema m))" "no_auto (m_schema m)"
    "m_queueTicksPending m + 1 + m_queueTick m \<noteq> 0" "2 \<le> fuel"
  defines "ok \<equiv> \<lambda>ty. consistent (m_schema m) (set (m_activeStates m)) (asked ty (set (m_activeStates m)) (set states))"
  shows "ok MutationAdd \<Longrightarrow> \<exists>m'. mach_Add env fuel m states args = Inr (Executed, m')
      \<and> next_of m (set states \<union> set (m_activeStates m)) m'"
    "ok MutationRemove \<Longrightarrow> \<exists>m'. mach_Remove env fuel m states args = Inr (Executed, m')
      \<and> next_of m (set (m_activeStates m) - set states) m'"
    "ok MutationSet \<Longrightarrow> \<exists>m'. mach_Set env fuel m states args = Inr (Executed, m') \<and> next_of m (set states) m'"
  using assms(2) queued_effect [OF assms(1-3) _ assms(4) _ assms(5,6), of MutationAdd args None]
    queued_effect [OF assms(1-3) _ assms(4) _ assms(5,6), of MutationRemove args None]
    queued_effect [OF assms(1-3) _ assms(4) _ assms(5,6), of MutationSet args None]
  by (simp_all add: ok_def asked_def resting_def idle_def calm_def mach_inv_def machine_wf_def
      mach_Add_def mach_Remove_def mach_Set_def Add_prep_def Remove_prep_def Set_prep_def)

lemma events_effect:
  assumes "accepting env" "resting m" "set states \<subseteq> set (gkeys (m_schema m))" "no_auto (m_schema m)"
    "m_queueTicksPending m + 1 + m_queueTick m \<noteq> 0" "2 \<le> fuel"
  defines "ok \<equiv> \<lambda>ty. consistent (m_schema m) (set (m_activeStates m)) (asked ty (set (m_activeStates m)) (set states))"
  shows "ok MutationAdd \<Longrightarrow> \<exists>m'. EvAdd env fuel m ev states args = Inr (Executed, m')
      \<and> next_of m (set states \<union> set (m_activeStates m)) m'"
    "ok MutationRemove \<Longrightarrow> \<exists>m'. EvRemove env fuel m ev states args = Inr (Executed, m')
      \<and> next_of m (set (m_activeStates m) - set states) m'"
  using assms(2) queued_effect [OF assms(1-3) _ assms(4) _ assms(5,6), of MutationAdd args ev]
    queued_effect [OF assms(1-3) _ assms(4) _ assms(5,6), of MutationRemove args ev]
  by (simp_all add: ok_def asked_def resting_def idle_def calm_def mach_inv_def machine_wf_def
      EvAdd_def EvRemove_def EvAdd_prep_def EvRemove_prep_def)

text \<open>A schema without relations and auto states.\<close>

definition plain :: "Schema \<Rightarrow> bool" where
  "plain schema = list_all (\<lambda>s. let st = Schema_Get schema s in
     sl (Require st) = [] \<and> sl (Remove st) = [] \<and> sl (Add st) = [] \<and> \<not> Auto st) (gkeys schema)"

lemma plain_consistent: "plain schema \<Longrightarrow> X \<subseteq> set (gkeys schema) \<Longrightarrow> consistent schema before X"
  by (auto simp: plain_def consistent_def list_all_iff Let_def)

lemma plain_no_auto: "plain schema \<Longrightarrow> no_auto schema"
  by (simp add: plain_def no_auto_def list_all_iff Let_def)

lemma resting_active: "resting m \<Longrightarrow> set (m_activeStates m) \<subseteq> set (gkeys (m_schema m))"
  using clock_inv_active [of m] by (simp add: resting_def idle_def calm_def mach_inv_def)

section \<open>The states a transition enters and leaves\<close>

lemma setupExitEnter_sets:
  assumes "setupExitEnter m t = Inr t'"
  shows "set (tx_Exits t') = set (m_activeStates m) - set (tx_TargetStates (m_stateNames m) t)"
    "set (tx_Enters t') \<subseteq> set (tx_TargetStates (m_stateNames m) t)"
    "set (tx_TargetStates (m_stateNames m) t) - set (m_activeStates m) \<subseteq> set (tx_Enters t')"
  using assms by (auto simp: setupExitEnter_def Let_def is'_def split: sum.splits if_splits)

lemma newTransition_changes:
  assumes "newTransition m mut = Inr m'" "calm m" "tx_IsAccepted (cur m')"
  shows "set (tx_Exits (cur m')) = set (m_activeStates m) - set (tgt m')" "set (tx_Enters (cur m')) \<subseteq> set (tgt m')"
    "set (tgt m') - set (m_activeStates m) \<subseteq> set (tx_Enters (cur m'))"
proof -
  from assms(1) obtain called ts t1 t where
    t1: "\<exists>tAfter. predict_time m mut called ts = Inr tAfter \<and>
       setupAccepted (m_stateNames m) ((initTransition m mut)\<lparr>tx_TimeAfter := tAfter,
         tx_TargetIndexes := mach_Index m ts, tx_cacheTargetStates := Some ts\<rparr>) = Inr t1"
    and t: "if tx_IsAccepted t1 then setupExitEnter m t1 = Inr t else t = t1"
    and m': "m' = m\<lparr>m_t := Some t, m_nextTx := m_nextTx m + 1, m_rrIndex := m_stateNames m\<rparr>"
    by (rule newTransition_cases)
  have acc: "tx_IsAccepted t1" using t assms(3) by (auto simp: m' cur_def split: if_splits)
  have c: "tx_cacheTargetStates t1 = Some ts" using t1 by (auto dest!: setupAccepted_same)
  then have ts: "tx_TargetStates names t1 = ts" for names by (simp add: tx_TargetStates_def)
  have x: "setupExitEnter m t1 = Inr t" using t acc by simp
  have "tgt m' = ts"
    using setupExitEnter_names [OF x, of UNIV] c by (simp add: m' tgt_def cur_def tx_TargetStates_def)
  with setupExitEnter_sets [OF x] ts show
    "set (tx_Exits (cur m')) = set (m_activeStates m) - set (tgt m')" "set (tx_Enters (cur m')) \<subseteq> set (tgt m')"
    "set (tgt m') - set (m_activeStates m) \<subseteq> set (tx_Enters (cur m'))"
    by (simp_all add: m' cur_def)
qed

section \<open>Sequences of calls\<close>

definition mach_op :: "Env \<Rightarrow> nat \<Rightarrow> Machine \<Rightarrow> MutationType \<Rightarrow> S \<Rightarrow> (Result \<times> Machine) res" where
  "mach_op env fuel m ty states =
     (case ty of
        MutationAdd \<Rightarrow> mach_Add env fuel m states []
      | MutationRemove \<Rightarrow> mach_Remove env fuel m states []
      | MutationSet \<Rightarrow> mach_Set env fuel m states []
      | mutationEval \<Rightarrow> Inr (Canceled, m))"

fun mach_ops :: "Env \<Rightarrow> nat \<Rightarrow> Machine \<Rightarrow> (MutationType \<times> S) list \<Rightarrow> (Result list \<times> Machine) res" where
  "mach_ops env fuel m [] = Inr ([], m)"
| "mach_ops env fuel m ((ty, states) # ops) =
     bindR (mach_op env fuel m ty states) (\<lambda>(r, m1).
       bindR (mach_ops env fuel m1 ops) (\<lambda>(rs, m2). Inr (r # rs, m2)))"

text \<open>The same calls on a set of states.\<close>

fun set_ops :: "string set \<Rightarrow> (MutationType \<times> S) list \<Rightarrow> string set" where
  "set_ops X [] = X"
| "set_ops X ((ty, states) # ops) = set_ops (asked ty X (set states)) ops"

fun ops_ok :: "Schema \<Rightarrow> string set \<Rightarrow> (MutationType \<times> S) list \<Rightarrow> bool" where
  "ops_ok schema X [] = True"
| "ops_ok schema X ((ty, states) # ops) =
     (ty \<noteq> mutationEval \<and> set states \<subseteq> set (gkeys schema) \<and> consistent schema X (asked ty X (set states))
      \<and> ops_ok schema (asked ty X (set states)) ops)"

lemma mach_op_effect:
  assumes "accepting env" "resting m" "no_auto (m_schema m)" "m_queueTicksPending m + 1 + m_queueTick m \<noteq> 0" "2 \<le> fuel"
    "ops_ok (m_schema m) (set (m_activeStates m)) [(ty, states)]"
  shows "\<exists>m'. mach_op env fuel m ty states = Inr (Executed, m') \<and> next_of m (asked ty (set (m_activeStates m)) (set states)) m'"
  using methods_effect [OF assms(1,2) _ assms(3-5), of states "[]"] assms(6)
  by (cases ty) (simp_all add: mach_op_def asked_def)

lemma tick_room:
  assumes "uint (a :: uint64) + uint (b :: uint64) + 1 < 2 ^ 64"
  shows "uint (b + 1) = uint b + 1" "a + 1 + b \<noteq> 0"
proof -
  have n: "0 \<le> uint a" "0 \<le> uint b" by simp_all
  have i: "uint (x + y) = uint x + uint y" if "uint x + uint y < 2 ^ 64" for x y :: uint64
    using that by (subst uint_add_lem [THEN iffD1]) simp_all
  have s: "uint b + uint (1 :: uint64) < 2 ^ 64" "uint a + uint (1 :: uint64) < 2 ^ 64"
    using assms n by (unfold uint_1, linarith+)
  show "uint (b + 1) = uint b + 1" using i [OF s(1)] by simp
  have "uint (a + 1) = uint a + 1" using i [OF s(2)] by simp
  then have "uint (a + 1 + b) = uint a + 1 + uint b" using i [of "a + 1" b] assms by (simp add: ac_simps)
  moreover have "0 < uint a + 1 + uint b" using n by linarith
  ultimately show "a + 1 + b \<noteq> 0" by (metis less_irrefl unsigned_0)
qed

text \<open>C12. A machine is a set of states. On a machine at rest whose handlers accept and queue nothing and which has no
  auto states, any sequence of \<open>Add\<close>, \<open>Remove\<close> and \<open>Set\<close> calls whose outcomes are consistent with the relations (on
  a schema without relations every outcome is) is executed, every call returning \<open>Executed\<close>, and leaves active
  exactly the states that union, difference and assignment of sets give. One queue tick is used per call.\<close>

theorem mutations_act_on_set:
  assumes "accepting env" "resting m" "no_auto (m_schema m)" "2 \<le> fuel"
    "uint (m_queueTicksPending m) + uint (m_queueTick m) + int (length ops) < 2 ^ 64"
    "ops_ok (m_schema m) (set (m_activeStates m)) ops"
  shows "\<exists>m'. mach_ops env fuel m ops = Inr (replicate (length ops) Executed, m') \<and> resting m'
    \<and> set (m_activeStates m') = set_ops (set (m_activeStates m)) ops
    \<and> m_queueTick m' = m_queueTick m + of_nat (length ops)"
  using assms(2,3,5,6)
proof (induction ops arbitrary: m)
  case (Cons op ops)
  obtain ty states where op: "op = (ty, states)" by fastforce
  have b: "uint (m_queueTicksPending m) + uint (m_queueTick m) + 1 < 2 ^ 64" using Cons.prems(3) by simp
  note t = tick_room [OF b]
  from mach_op_effect [OF assms(1) Cons.prems(1,2) t(2) assms(4), of ty states] Cons.prems(4) op obtain m1 where
    m1: "mach_op env fuel m ty states = Inr (Executed, m1)" "next_of m (asked ty (set (m_activeStates m)) (set states)) m1"
    by auto
  note n = m1(2) [unfolded next_of_def]
  have "uint (m_queueTicksPending m1) + uint (m_queueTick m1) + int (length ops) < 2 ^ 64"
    using Cons.prems(3) n t(1) by simp
  with Cons.IH [of m1] n Cons.prems(2,4) op m1(1) show ?case by auto
qed simp

definition ex_ops :: "(MutationType \<times> S) list" where
  "ex_ops = [(MutationAdd, [''C'']), (MutationAdd, [''X'', ''A'', ''B'']), (MutationRemove, [''A'', ''X'']),
     (MutationSet, [''D'', ''C''])]"

theorem mutations_act_on_set_witness:
  "\<exists>m'. mach_ops ex_ok_env 2 ex_mach ex_ops = Inr ([Executed, Executed, Executed, Executed], m') \<and> resting m'
     \<and> set (m_activeStates m') = {''C'', ''D''}"
proof -
  have "idle ex_mach" using ex_calm by (simp add: idle_def ex_mach_def newMachine_fields)
  moreover have "m_t ex_mach = None" "\<not> Backoff ex_mach" "\<not> queue_full ex_mach" by code_simp+
  ultimately have r: "resting ex_mach" by (simp add: resting_def)
  have n: "no_auto (m_schema ex_mach)" by code_simp
  have u: "uint (m_queueTicksPending ex_mach) + uint (m_queueTick ex_mach) + int (length ex_ops) < 2 ^ 64" by code_simp
  have o: "ops_ok (m_schema ex_mach) (set (m_activeStates ex_mach)) ex_ops" by code_simp
  have s: "set_ops (set (m_activeStates ex_mach)) ex_ops = {''C'', ''D''}" by code_simp
  have l: "replicate (length ex_ops) Executed = [Executed, Executed, Executed, Executed]" by code_simp
  show ?thesis using mutations_act_on_set [OF ex_accepting r n _ u o, of 2] unfolding s l by blast
qed

end
