(* ===== verification/Am_Pipes_Facts.thy ===== *)
theory Am_Pipes_Facts
  imports Am_Pipes Am_Effect Am_History
begin

text \<open>
  Pipes keep a target in step with a source: whatever order the goroutines of one transition run in, the piped states
  of the target follow those of the source. Across transitions the order matters.
\<close>

section \<open>The handlers of a binding\<close>

lemma suffix_simps [simp]:
  "(s @ SuffixState = s' @ SuffixState) = (s = s')" "(s @ SuffixEnd = s' @ SuffixEnd) = (s = s')"
  "s @ SuffixState \<noteq> s' @ SuffixEnd" "s' @ SuffixEnd \<noteq> s @ SuffixState"
proof -
  have "last (s @ SuffixState) \<noteq> last (s' @ SuffixEnd)" by (simp add: SuffixState_def SuffixEnd_def)
  then show "s @ SuffixState \<noteq> s' @ SuffixEnd" "s' @ SuffixEnd \<noteq> s @ SuffixState" by metis+
qed simp_all

text \<open>Targets that name a single state.\<close>

definition simple_target :: "string \<Rightarrow> bool" where
  "simple_target t = (t \<noteq> [] \<and> \<not> strings_HasPrefix t PrefixErr)"

abbreviation pipe_to :: "bool \<Rightarrow> string \<Rightarrow> field_fn" where
  "pipe_to add t \<equiv> FnPipe \<lparr>pi_add = add, pi_flat = False, pi_names = [t]\<rparr>"

lemma pipes_simple:
  assumes "simple_target t"
  shows "pipes_Add s t = (if s = [] then Inl (GoPanic ''state missing'') else Inr \<lparr>pi_add = True, pi_flat = False, pi_names = [t]\<rparr>)"
    "pipes_Remove s t = (if s = [] then Inl (GoPanic ''state missing'') else Inr \<lparr>pi_add = False, pi_flat = False, pi_names = [t]\<rparr>)"
  using assms by (simp_all add: pipes_Add_def pipes_Remove_def pipe_add_def pipe_remove_def pipe_target_def simple_target_def)

lemma bind_fields_lookup:
  "bind_fields states targets = Inr fs \<Longrightarrow> list_all simple_target targets \<Longrightarrow>
   map_of fs (s @ SuffixState) = map_option (pipe_to True) (map_of (zip states targets) s)
   \<and> map_of fs (s @ SuffixEnd) = map_option (pipe_to False) (map_of (zip states targets) s)"
proof (induction states targets arbitrary: fs rule: bind_fields.induct)
  case (1 name states t targets)
  then obtain fs' where "bind_fields states targets = Inr fs'"
    "fs = (name @ SuffixState, pipe_to True t) # (name @ SuffixEnd, pipe_to False t) # fs'"
    by (auto simp: bindR_eq_Inr pipes_simple split: if_splits)
  with "1.IH" [of fs'] "1.prems" pipes_simple [of t name] show ?case by (simp split: if_splits)
qed simp_all

text \<open>The call a state of the source causes.\<close>

definition call_for :: "(string \<rightharpoonup> string) \<Rightarrow> Event \<Rightarrow> A \<Rightarrow> S \<Rightarrow> string \<Rightarrow> pipe_call option" where
  "call_for M e args enters s =
     map_option (\<lambda>t. if s \<in> set enters then PAdd e [t] args else PRemove e t args) (M s)"

lemma fire_events_calls:
  assumes "pb_fields b = fs" "bind_fields states targets = Inr fs" "list_all simple_target targets" "StateAny \<notin> set states"
    "length states = length targets"
    "e = event_of src" "args = mu_Args (tx_Mutation (cur src))"
  shows "fire_events b loc env fuel src (map (\<lambda>s. if slices_Contains enters s then s @ SuffixState else s @ SuffixEnd) xs
      @ [StateAny @ SuffixState]) (t, p)
    = Inr (t, p @ List.map_filter (call_for (map_of (zip states targets)) e args enters) xs)"
proof (induction xs arbitrary: p)
  case Nil
  have "map_of (zip states targets) StateAny = None" using assms(4) by (auto simp: map_of_eq_None_iff dest: set_zip_leftD)
  then show ?case
    using bind_fields_lookup [OF assms(2,3), of StateAny] assms(1)
    by (simp add: binding_fire_def Let_def List.map_filter_def)
next
  case (Cons x xs)
  show ?case
  proof (cases "map_of (zip states targets) x")
    case None
    with Cons bind_fields_lookup [OF assms(2,3), of x] assms(1) show ?thesis
      by (simp add: binding_fire_def Let_def map_filter_simps call_for_def)
  next
    case (Some y)
    with Cons bind_fields_lookup [OF assms(2,3), of x] assms(1) show ?thesis
      by (simp add: binding_fire_def Let_def map_filter_simps call_for_def pipe_fire_def add_fire_def remove_fire_def assms(6,7))
  qed
qed

section \<open>The calls on a target without relations\<close>

fun set_call :: "string set \<Rightarrow> pipe_call \<Rightarrow> string set" where
  "set_call X (PAdd e names args) = set names \<union> X"
| "set_call X (PRemove e name args) = X - {name}"
| "set_call X (PSet names args) = set names"

fun call_states :: "pipe_call \<Rightarrow> S" where
  "call_states (PAdd e names args) = names"
| "call_states (PRemove e name args) = [name]"
| "call_states (PSet names args) = names"

text \<open>A target that takes the calls of pipes.\<close>

definition open_target :: "Machine \<Rightarrow> bool" where
  "open_target m = (resting m \<and> plain (m_schema m))"

lemma pipe_run_effect:
  assumes "accepting env" "open_target m" "set (call_states c) \<subseteq> set (gkeys (m_schema m))"
    "m_queueTicksPending m + 1 + m_queueTick m \<noteq> 0" "2 \<le> fuel"
  shows "\<exists>m'. pipe_run env fuel m c = Inr (Executed, m') \<and> next_of m (set_call (set (m_activeStates m)) c) m'"
proof -
  have r: "resting m" "plain (m_schema m)" "no_auto (m_schema m)" using assms(2) by (simp_all add: open_target_def plain_no_auto)
  have "asked ty (set (m_activeStates m)) (set (call_states c)) \<subseteq> set (gkeys (m_schema m))" for ty
    using resting_active [OF r(1)] assms(3) by (cases ty) (auto simp: asked_def)
  note cons = plain_consistent [OF r(2) this]
  note e = events_effect [OF assms(1) r(1) assms(3) r(3) assms(4,5) cons]
  note s = methods_effect(3) [OF assms(1) r(1) assms(3) r(3) assms(4,5) cons]
  show ?thesis
    using e(1) e(2) s by (cases c) (auto simp: pipe_run_def EvRemove1_def)
qed

lemma deliver_effect:
  assumes "accepting env" "2 \<le> fuel" "open_target m" "\<forall>c \<in> set calls. set (call_states c) \<subseteq> set (gkeys (m_schema m))"
    "uint (m_queueTicksPending m) + uint (m_queueTick m) + int (length calls) < 2 ^ 64"
  shows "\<exists>m'. deliver env fuel m calls = Inr m' \<and> open_target m' \<and> m_schema m' = m_schema m
    \<and> set (m_activeStates m') = foldl set_call (set (m_activeStates m)) calls"
  using assms(3-5)
proof (induction calls arbitrary: m)
  case (Cons c calls)
  have b: "uint (m_queueTicksPending m) + uint (m_queueTick m) + 1 < 2 ^ 64" using Cons.prems(3) by simp
  note t = tick_room [OF b]
  obtain m1 where m1: "pipe_run env fuel m c = Inr (Executed, m1)" "next_of m (set_call (set (m_activeStates m)) c) m1"
    using pipe_run_effect [OF assms(1) Cons.prems(1) _ t(2) assms(2), of c] Cons.prems(2) by auto
  note n = m1(2) [unfolded next_of_def]
  have "uint (m_queueTicksPending m1) + uint (m_queueTick m1) + int (length calls) < 2 ^ 64"
    using Cons.prems(3) n t(1) by simp
  moreover have "open_target m1" using n Cons.prems(1) by (simp add: open_target_def)
  ultimately obtain m' where "deliver env fuel m1 calls = Inr m'" "open_target m'" "m_schema m' = m_schema m1"
    "set (m_activeStates m') = foldl set_call (set (m_activeStates m1)) calls"
    using Cons.IH [of m1] n Cons.prems(2) by auto
  with m1(1) n show ?case by simp
qed simp

text \<open>The order of calls does not matter when no state is both added and removed.\<close>

definition added :: "pipe_call list \<Rightarrow> string set" where
  "added calls = {t. \<exists>e args. PAdd e [t] args \<in> set calls}"

definition removed :: "pipe_call list \<Rightarrow> string set" where
  "removed calls = {t. \<exists>e args. PRemove e t args \<in> set calls}"

definition single_call :: "pipe_call \<Rightarrow> bool" where
  "single_call c = (\<exists>e t args. c = PAdd e [t] args \<or> c = PRemove e t args)"

lemma foldl_set_call:
  "\<forall>c \<in> set calls. single_call c \<Longrightarrow> added calls \<inter> removed calls = {} \<Longrightarrow>
   foldl set_call X calls = (X - removed calls) \<union> added calls"
proof (induction calls arbitrary: X)
  case Nil
  then show ?case by (simp add: added_def removed_def)
next
  case (Cons c calls)
  have sub: "added calls \<subseteq> added (c # calls)" "removed calls \<subseteq> removed (c # calls)" by (auto simp: added_def removed_def)
  then have "added calls \<inter> removed calls = {}" using Cons.prems(2) by blast
  then have "foldl set_call Y calls = (Y - removed calls) \<union> added calls" for Y using Cons.IH Cons.prems(1) by simp
  moreover from Cons.prems(1) consider e t args where "c = PAdd e [t] args" | e t args where "c = PRemove e t args"
    by (auto simp: single_call_def)
  then have "(set_call X c - removed calls) \<union> added calls = (X - removed (c # calls)) \<union> added (c # calls)"
  proof cases
    case 1
    then have "added (c # calls) = insert t (added calls)" "removed (c # calls) = removed calls" by (auto simp: added_def removed_def)
    with Cons.prems(2) 1 show ?thesis by auto
  next
    case 2
    then have "added (c # calls) = added calls" "removed (c # calls) = insert t (removed calls)" by (auto simp: added_def removed_def)
    with Cons.prems(2) 2 show ?thesis by auto
  qed
  ultimately show ?case by simp
qed

section \<open>One transition of the source\<close>

definition mirrored :: "S \<Rightarrow> S \<Rightarrow> Machine \<Rightarrow> Machine \<Rightarrow> bool" where
  "mirrored states targets src tgt' =
     list_all2 (\<lambda>s t. s \<in> set (m_activeStates src) \<longleftrightarrow> t \<in> set (m_activeStates tgt')) states targets"

lemma source_changes:
  assumes "accepting env" "calm m" "good_mut m mut" "\<not> mu_IsCheck mut" "\<not> mu_IsAuto mut"
    "newTransition m mut = Inr m1" "tx_IsAccepted (cur m1)" "emitEvents env m1 = Inr (r, m2)"
  shows "set (tx_Exits (cur m2)) = set (m_activeStates m) - set (m_activeStates m2)"
    "set (tx_Enters (cur m2)) \<subseteq> set (m_activeStates m2)"
    "set (m_activeStates m2) - set (m_activeStates m) \<subseteq> set (tx_Enters (cur m2))"
proof -
  obtain cs where cs: "mu_cacheCalled mut = Some cs" "set cs \<subseteq> set (gkeys (m_schema m))"
    using assms(3) by (auto simp: good_mut_def)
  have inv: "clock_inv m" "machine_wf m" "\<not> m_disposed m" using assms(2) by (simp_all add: calm_def mach_inv_def)
  note nr = newTransition_ready [OF assms(6,2)]
  note nf = newTransition_facts [OF assms(6) inv(1,2)]
  have "length (tx_TimeBefore (cur m1)) \<le> length (m_stateNames m1)" using inv(3) by (simp add: nf nr mach_time_def)
  moreover have "set (tgt m1) \<subseteq> set (gkeys (m_schema m1))" using nf(1) by (simp add: tx_inv_def)
  moreover have "names_ok m1" using nr(2) by (simp add: calm_def)
  ultimately have "m_activeStates m2 = tgt m1" "tx_Exits (cur m2) = tx_Exits (cur m1)" "tx_Enters (cur m2) = tx_Enters (cur m1)"
    using emitEvents_effect [OF assms(1) nr(1) [OF assms(7)] assms(7), of cs] cs assms(4,5,8) nf(2) nr(5)
    by (auto simp: tx_IsAuto_def)
  with newTransition_changes [OF assms(6,2,7)] show
    "set (tx_Exits (cur m2)) = set (m_activeStates m) - set (m_activeStates m2)"
    "set (tx_Enters (cur m2)) \<subseteq> set (m_activeStates m2)"
    "set (m_activeStates m2) - set (m_activeStates m) \<subseteq> set (tx_Enters (cur m2))" by simp_all
qed

lemma set_map_filter: "set (List.map_filter f xs) = {y. \<exists>x \<in> set xs. f x = Some y}"
  by (force simp: List.map_filter_def image_iff)

lemma calls_split:
  fixes M e args enters xs
  defines "calls \<equiv> List.map_filter (call_for M e args enters) xs"
  shows "added calls = {t. \<exists>s \<in> set xs \<inter> set enters. M s = Some t}"
    "removed calls = {t. \<exists>s \<in> set xs - set enters. M s = Some t}" "\<forall>c \<in> set calls. single_call c"
    "\<forall>c \<in> set calls. set (call_states c) \<subseteq> ran M"
  by (auto simp: calls_def added_def removed_def single_call_def set_map_filter call_for_def ran_def split: if_splits)

lemma BindMany_fields:
  assumes "BindMany tid states (Some targets) = Inr (Inr b)"
  shows "bind_fields states targets = Inr (pb_fields b)" "length states = length targets" "distinct (map fst (pb_fields b))"
  using assms by (auto simp: BindMany_def Let_def bindR_eq_Inr struct_of_def split: if_splits)

lemma bind_fields_distinct:
  "bind_fields states targets = Inr fs \<Longrightarrow> length states = length targets \<Longrightarrow> distinct (map fst fs) \<Longrightarrow> distinct states"
proof (induction states targets arbitrary: fs rule: bind_fields.induct)
  case (1 name states t targets)
  then obtain a r fs' where f: "bind_fields states targets = Inr fs'"
    "fs = (name @ SuffixState, FnPipe a) # (name @ SuffixEnd, FnPipe r) # fs'"
    by (auto simp: bindR_eq_Inr)
  have names: "(\<lambda>s. s @ SuffixState) ` set states \<subseteq> fst ` set fs'" using f(1) "1.prems"(2)
    by (induction states targets arbitrary: fs' rule: bind_fields.induct) (auto simp: bindR_eq_Inr image_subset_iff)
  then have "name \<notin> set states" using "1.prems"(3) f(2) by (auto simp: image_subset_iff)
  with "1.IH" [of fs'] "1.prems" f show ?case by (auto simp: bindR_eq_Inr)
qed simp_all

lemma mirrored_update:
  assumes M: "M = map_of (zip states targets)" "distinct states" "distinct targets" "length states = length targets"
    and before: "mirrored states targets m t"
    and x: "X = set (m_activeStates m) - set (m_activeStates m2)" "E \<subseteq> set (m_activeStates m2)"
      "set (m_activeStates m2) - set (m_activeStates m) \<subseteq> E"
    and t': "set (m_activeStates t') = (set (m_activeStates t) - {t. \<exists>s \<in> X - E. M s = Some t}) \<union> {t. \<exists>s \<in> E. M s = Some t}"
  shows "mirrored states targets m2 t'"
proof -
  have zip: "(s, u) \<in> set (zip states targets) \<longleftrightarrow> M s = Some u" for s u
    using M(2,4) unfolding M(1) by (simp add: map_of_eq_Some_iff)
  have inj: "s = s'" if "M s = Some u" "M s' = Some u" for s s' u
    using that M(3,4) unfolding zip [symmetric] by (auto simp: in_set_zip nth_eq_iff_index_eq)
  have "s \<in> set (m_activeStates m2) \<longleftrightarrow> u \<in> set (m_activeStates t')" if u: "M s = Some u" for s u
  proof -
    have "s \<in> set (m_activeStates m) \<longleftrightarrow> u \<in> set (m_activeStates t)"
      using before zip [THEN iffD2, OF u] by (fastforce simp: mirrored_def list_all2_iff)
    moreover have "(\<exists>s' \<in> Y. M s' = Some u) \<longleftrightarrow> s \<in> Y" for Y using inj u by blast
    ultimately show ?thesis using x unfolding t' by auto
  qed
  then show ?thesis using M(4) zip by (auto simp: mirrored_def list_all2_iff)
qed

text \<open>C13. Pipes mirror states. The source is a calm machine whose handlers accept, running an accepted mutation of defined states,
  neither a check nor an auto mutation. \<open>BindMany\<close> has connected states of it, \<open>Any\<close> not among them, to distinct states
  of a target whose names are not empty and do not begin with \<open>Err\<close>. The target is a machine at rest with accepting handlers,
  no \<open>Add\<close>, \<open>Remove\<close> or \<open>Require\<close> relations, no \<open>Auto\<close> states and queue ticks left, and it agrees with the source on the piped states before the transition.
  Then the transition does not touch the target itself but starts goroutines, and in whatever order these run, the target
  accepts their calls and agrees with the source again; its other states are as before.\<close>

theorem pipes_mirror:
  assumes source: "accepting env" "calm m" "good_mut m mut" "\<not> mu_IsCheck mut" "\<not> mu_IsAuto mut"
      "newTransition m mut = Inr m1" "tx_IsAccepted (cur m1)" "emitEvents env m1 = Inr (r, m2)"
    and binding: "BindMany tid states (Some targets) = Inr (Inr b)" "distinct targets" "list_all simple_target targets"
      "StateAny \<notin> set states"
    and target: "accepting env'" "2 \<le> fuel" "open_target t" "set targets \<subseteq> set (gkeys (m_schema t))"
      "uint (m_queueTicksPending t) + uint (m_queueTick t) + int (length calls) < 2 ^ 64"
    and fired: "mirrored states targets m t" "fire_events b isLocal env' fuel m2 (final_events m2) (t, []) = Inr (t1, calls')"
      "mset calls = mset calls'"
  shows "t1 = t \<and> (\<exists>t'. deliver env' fuel t calls = Inr t' \<and> open_target t' \<and> mirrored states targets m2 t'
    \<and> set (m_activeStates t') - set targets = set (m_activeStates t) - set targets)"
proof -
  let ?M = "map_of (zip states targets)" and ?E = "tx_Enters (cur m2)" and ?X = "tx_Exits (cur m2)"
  note f = BindMany_fields [OF binding(1)]
  have ds: "distinct states" by (rule bind_fields_distinct [OF f])
  note ch = source_changes [OF source]
  have c: "t1 = t" "calls' = List.map_filter (call_for ?M (event_of m2) (mu_Args (tx_Mutation (cur m2))) ?E) (?X @ ?E)"
    using fired(2) fire_events_calls [OF refl f(1) binding(3,4) f(2) refl refl, of isLocal env' fuel m2 ?E "?X @ ?E" t "[]"]
    by (simp_all add: final_events_def)
  have same: "set calls = set calls'" "added calls = added calls'" "removed calls = removed calls'"
    using mset_eq_setD [OF fired(3)] by (simp_all add: added_def removed_def)
  note sp = calls_split [of ?M "event_of m2" "mu_Args (tx_Mutation (cur m2))" ?E "?X @ ?E", folded c(2)]
  have add: "added calls = {t. \<exists>s \<in> set ?E. ?M s = Some t}" and rem: "removed calls = {t. \<exists>s \<in> set ?X - set ?E. ?M s = Some t}"
    using sp(1,2) same by auto
  have ran: "ran ?M \<subseteq> set targets" by (auto simp: ran_def dest!: map_of_SomeD dest: set_zip_rightD)
  have inj: "s = s'" if "?M s = Some u" "?M s' = Some u" for s s' u
    using that binding(2) f(2) by (auto dest!: map_of_SomeD simp: in_set_zip nth_eq_iff_index_eq)
  then have dis: "added calls \<inter> removed calls = {}" unfolding add rem by blast
  obtain t' where t': "deliver env' fuel t calls = Inr t'" "open_target t'"
    "set (m_activeStates t') = foldl set_call (set (m_activeStates t)) calls"
    using deliver_effect [OF target(1-3) _ target(5)] sp(4) same(1) ran target(4) by blast
  have fold: "set (m_activeStates t') = (set (m_activeStates t) - removed calls) \<union> added calls"
    using t'(3) foldl_set_call [OF _ dis] sp(3) same(1) by simp
  then have "mirrored states targets m2 t'"
    using mirrored_update [OF refl ds binding(2) f(2) fired(1) ch, of t'] unfolding add rem by simp
  moreover have "added calls \<subseteq> set targets" "removed calls \<subseteq> set targets"
    using ran unfolding add rem by (auto simp: ran_def)
  then have "set (m_activeStates t') - set targets = set (m_activeStates t) - set targets" unfolding fold by blast
  ultimately show ?thesis using c(1) t'(1,2) by blast
qed

section \<open>Runs\<close>

definition px_env :: Env where
  "px_env = \<lparr>en_handler = (\<lambda>m n name args. ([], HRet True)), en_eval = (\<lambda>_. []), en_expired = (\<lambda>_. False),
     en_query = (\<lambda>_ _. False)\<rparr>"

definition px_mach :: "S \<Rightarrow> Machine" where
  "px_mach names = newMachine (map (\<lambda>n. (n, State_zero)) names) ex_opts ''id''"

text \<open>Calls on the source, and what a binding makes of the transitions they run.\<close>

definition px_prep :: "Machine \<Rightarrow> MutationType \<Rightarrow> S \<Rightarrow> prep" where
  "px_prep m ty states = (if ty = MutationAdd then Add_prep m states [] else Remove_prep m states [])"

definition px_fire :: "pipe_binding \<Rightarrow> Machine \<Rightarrow> Machine \<times> pipe_call list \<Rightarrow> (Machine \<times> pipe_call list) res" where
  "px_fire b e x = fire_events b True px_env 9 e (final_events e) x"

fun px_run :: "pipe_binding \<Rightarrow> Machine \<Rightarrow> (MutationType \<times> S) list \<Rightarrow> Machine \<times> pipe_call list
    \<Rightarrow> (Machine \<times> Machine \<times> pipe_call list) res" where
  "px_run b src [] x = Inr (src, x)"
| "px_run b src ((ty, states) # ops) x =
     bindR (px_prep src ty states) (\<lambda>(_, m1).
       bindR (foldl (\<lambda>y e. bindR y (px_fire b e)) (Inr x) (queue_ends px_env 9 (m1\<lparr>m_queueProcessing := True\<rparr>))) (\<lambda>x'.
         bindR (mach_op px_env 9 src ty states) (\<lambda>(_, src'). px_run b src' ops x')))"

definition active_after :: "Machine res \<Rightarrow> S \<Rightarrow> bool" where
  "active_after r states = res_ok (\<lambda>m. m_activeStates m = states) r"

text \<open>A machine with the states of a connection, bound by \<open>BindConnected\<close> and then given a mutation.\<close>

definition px_connected :: "string \<Rightarrow> string \<Rightarrow> string \<Rightarrow> string \<Rightarrow> S \<Rightarrow> (Result \<times> Machine) res" where
  "px_connected disconnected connecting connected disconnecting states =
     bindR (BindConnected ''t'' disconnected connecting connected disconnecting) (\<lambda>b.
       bindR (bind_to px_env 9 (newMachine (ConnectedSchema @ [(StateStart, State_zero)]) ex_opts ''id'') b) (\<lambda>(_, src).
         mach_Add (px_env\<lparr>en_handler := (\<lambda>m n name args. ([], binding_outcome b name))\<rparr>) 9 src states []))"

definition px_target :: Machine where
  "px_target = px_mach [''X'', ''Y'', ''Z'']"

lemma px_target_open: "open_target px_target"
proof -
  have "gmap_wf (map (\<lambda>n. (n, State_zero)) [''X'', ''Y'', ''Z''])" "[] \<notin> set (gkeys (map (\<lambda>n. (n, State_zero)) [''X'', ''Y'', ''Z'']))"
    "list_all (\<lambda>(n, st). state_pre (gkeys (map (\<lambda>n. (n, State_zero)) [''X'', ''Y'', ''Z''])) st) (map (\<lambda>n. (n, State_zero)) [''X'', ''Y'', ''Z''])"
    by code_simp+
  then have "mach_inv px_target" unfolding px_target_def px_mach_def by (intro newMachine_inv)
  moreover have "names_ok px_target" "\<not> m_disposed px_target" "\<not> m_panicCaught px_target" "m_handlers px_target = []"
    "queries (m_subs px_target) = ([], [])" "m_queue px_target = []" "m_queueLen px_target = 0"
    "\<not> m_queueProcessing px_target" "m_t px_target = None" "\<not> Backoff px_target" "\<not> queue_full px_target"
    "plain (m_schema px_target)"
    by code_simp+
  ultimately show ?thesis by (simp add: open_target_def resting_def idle_def calm_def)
qed

definition px_mut :: Mutation where
  "px_mut = (ex_add [''E'', ''C''])\<lparr>mu_cacheCalled := Some [''E'', ''C'']\<rparr>"

lemma px_transition:
  "res_ok (\<lambda>m1. tx_IsAccepted (cur m1) \<and> res_ok (\<lambda>(r, m2). res_ok (\<lambda>x. case x of Inl _ \<Rightarrow> False | Inr b \<Rightarrow>
     res_ok (\<lambda>(t1, calls). length calls = 2) (fire_events b False px_env 2 m2 (final_events m2) (px_target, [])))
     (BindMany ''t'' [''C'', ''E''] (Some [''X'', ''Y'']))) (emitEvents px_env m1)) (newTransition ex_mach px_mut)"
  by code_simp

theorem pipes_mirror_witness:
  "\<exists>m2 b t1 calls t'. fire_events b False px_env 2 m2 (final_events m2) (px_target, []) = Inr (t1, calls) \<and> length calls = 2
     \<and> deliver px_env 2 px_target (rev calls) = Inr t' \<and> mirrored [''C'', ''E''] [''X'', ''Y''] m2 t'"
proof -
  obtain m1 r m2 b t1 calls where m: "newTransition ex_mach px_mut = Inr m1" "tx_IsAccepted (cur m1)"
    "emitEvents px_env m1 = Inr (r, m2)" and b: "BindMany ''t'' [''C'', ''E''] (Some [''X'', ''Y'']) = Inr (Inr b)"
    and c: "fire_events b False px_env 2 m2 (final_events m2) (px_target, []) = Inr (t1, calls)" "length calls = 2"
    using px_transition by (fastforce dest!: res_okE split: sum.splits)
  have a: "accepting px_env" by (simp add: accepting_def px_env_def)
  have g: "set [''E'', ''C''] \<subseteq> set (gkeys (m_schema ex_mach))" by code_simp
  have mut: "good_mut ex_mach px_mut" "\<not> mu_IsCheck px_mut" "\<not> mu_IsAuto px_mut"
    using g by (simp_all add: good_mut_def px_mut_def ex_add_def Mutation_zero_def)
  have s: "distinct [''X'', ''Y'']" "list_all simple_target [''X'', ''Y'']" "StateAny \<notin> set [''C'', ''E'']"
    "set [''X'', ''Y''] \<subseteq> set (gkeys (m_schema px_target))" "mirrored [''C'', ''E''] [''X'', ''Y''] ex_mach px_target" by code_simp+
  have "uint (m_queueTicksPending px_target) + uint (m_queueTick px_target) + 2 < 2 ^ 64" by code_simp
  then have u: "uint (m_queueTicksPending px_target) + uint (m_queueTick px_target) + int (length (rev calls)) < 2 ^ 64"
    using c(2) by simp
  obtain t' where t': "deliver px_env 2 px_target (rev calls) = Inr t'" "mirrored [''C'', ''E''] [''X'', ''Y''] m2 t'"
    using pipes_mirror [OF a ex_calm mut m b s(1-3) a _ px_target_open s(4) u s(5) c(1)] by auto
  show ?thesis by (intro exI conjI) (rule c(1), rule c(2), rule t'(1), rule t'(2))
qed

text \<open>Pipes lose the order of transitions. The goroutines of an activation and of the deactivation that follows it can
  run in either order: in the order of the transitions the target ends as the source does, in the other order it
  keeps the state that the source has left, and nothing corrects it.\<close>

theorem pipes_reorder:
  "res_ok (\<lambda>x. case x of Inl _ \<Rightarrow> False | Inr b \<Rightarrow>
     res_ok (\<lambda>(src, t, calls). m_activeStates src = [] \<and> m_activeStates t = [] \<and> length calls = 2
         \<and> active_after (deliver px_env 9 t calls) [] \<and> active_after (deliver px_env 9 t (rev calls)) [''X''])
       (px_run b (px_mach [''A'', ''B'']) [(MutationAdd, [''A'']), (MutationRemove, [''A''])] (px_target, [])))
     (BindMany ''t'' [''A''] (Some [''X'']))"
  by code_simp

text \<open>An optional state of \<open>BindConnected\<close> is not optional. Without a target for \<open>Disconnecting\<close> its handlers are
  \<open>nil\<close> fields, which the machine finds and calls: adding \<open>Disconnecting\<close> to the source panics, the state is taken
  back and \<open>Exception\<close> is active. With a target the same mutation is executed.\<close>

theorem BindConnected_nil_panics:
  "res_ok (\<lambda>(r, m). r = Canceled \<and> m_activeStates m = [''Disconnected'', ''Exception'']
       \<and> m_err m = Some ''reflect: call of nil function'')
     (px_connected ''Down'' ''Dialing'' ''Up'' [] [''Disconnecting''])
   \<and> res_ok (\<lambda>(r, m). r = Executed \<and> m_activeStates m = [''Disconnecting''])
     (px_connected ''Down'' ''Dialing'' ''Up'' ''Closing'' [''Disconnecting''])"
  by code_simp

section \<open>Sync\<close>

text \<open>\<open>Sync\<close> makes the given states of a target without relations agree with the source.\<close>

lemma sync_lists_sets:
  "sync_lists src states targets = Inr (add, rem) \<Longrightarrow> length states \<le> length targets \<and>
   set add = {t. \<exists>s. (s, t) \<in> set (zip states targets) \<and> Is1 src s} \<and> set rem = {t. \<exists>s. (s, t) \<in> set (zip states targets) \<and> \<not> Is1 src s}
   \<and> length add + length rem = length states"
  by (induction src states targets arbitrary: add rem rule: sync_lists.induct) (fastforce simp: bindR_eq_Inr split: if_splits)+

lemma sync_lists_total: "length states = length targets \<Longrightarrow> \<exists>add rem. sync_lists src states targets = Inr (add, rem)"
proof (induction src states targets rule: sync_lists.induct)
  case (3 src state states t targets)
  then show ?case by fastforce
qed simp_all

text \<open>A possibly empty call, as \<open>Sync\<close> makes it.\<close>

lemma maybe_call:
  assumes "accepting env" "2 \<le> fuel" "open_target t" "set xs \<subseteq> set (gkeys (m_schema t))"
    "uint (m_queueTicksPending t) + uint (m_queueTick t) + int n + 1 < 2 ^ 64"
  shows "\<exists>r t'. (if length xs > 0 then mach_Add env fuel t xs [] else Inr (Executed, t)) = Inr (r, t') \<and> open_target t'
      \<and> m_schema t' = m_schema t \<and> set (m_activeStates t') = set xs \<union> set (m_activeStates t)
      \<and> uint (m_queueTicksPending t') + uint (m_queueTick t') + int n < 2 ^ 64"
    "\<exists>r t'. (if length xs > 0 then mach_Remove env fuel t xs [] else Inr (Executed, t)) = Inr (r, t') \<and> open_target t'
      \<and> m_schema t' = m_schema t \<and> set (m_activeStates t') = set (m_activeStates t) - set xs"
proof -
  have r: "resting t" "plain (m_schema t)" "no_auto (m_schema t)" using assms(3) by (simp_all add: open_target_def plain_no_auto)
  have b: "uint (m_queueTicksPending t) + uint (m_queueTick t) + 1 < 2 ^ 64" using assms(5) by simp
  have "asked ty (set (m_activeStates t)) (set xs) \<subseteq> set (gkeys (m_schema t))" for ty
    using resting_active [OF r(1)] assms(4) by (cases ty) (auto simp: asked_def)
  note cons = plain_consistent [OF r(2) this]
  note e = methods_effect [OF assms(1) r(1) assms(4) r(3) tick_room(2) [OF b] assms(2) cons]
  show "\<exists>r t'. (if length xs > 0 then mach_Add env fuel t xs [] else Inr (Executed, t)) = Inr (r, t') \<and> open_target t'
      \<and> m_schema t' = m_schema t \<and> set (m_activeStates t') = set xs \<union> set (m_activeStates t)
      \<and> uint (m_queueTicksPending t') + uint (m_queueTick t') + int n < 2 ^ 64"
    using e(1) [of "[]"] assms(3,5) tick_room(1) [OF b] by (auto simp: open_target_def next_of_def)
  show "\<exists>r t'. (if length xs > 0 then mach_Remove env fuel t xs [] else Inr (Executed, t)) = Inr (r, t') \<and> open_target t'
      \<and> m_schema t' = m_schema t \<and> set (m_activeStates t') = set (m_activeStates t) - set xs"
    using e(2) [of "[]"] assms(3) by (auto simp: open_target_def next_of_def)
qed

theorem Sync_mirrors:
  assumes "accepting env" "2 \<le> fuel" "open_target t" "length states = length targets" "distinct targets"
    "set targets \<subseteq> set (gkeys (m_schema t))" "\<not> m_disposing src" "set states \<subseteq> set (m_stateNames src)"
    "uint (m_queueTicksPending t) + uint (m_queueTick t) + 2 < 2 ^ 64"
  shows "\<exists>t'. pipes_Sync env fuel src t states targets = Inr (length states, t') \<and> open_target t' \<and> mirrored states targets src t'"
proof -
  obtain add rem where l: "sync_lists src states targets = Inr (add, rem)" using sync_lists_total [OF assms(4)] by blast
  note s = sync_lists_sets [OF l]
  have is1: "Is1 src x \<longleftrightarrow> x \<in> set (m_activeStates src)" if "x \<in> set states" for x
    using that assms(7,8) Is_subset [of src "[x]"] Is_active [of src "[x]"] by (auto simp: Is1_def)
  have sub: "set add \<subseteq> set (gkeys (m_schema t))" "set rem \<subseteq> set (gkeys (m_schema t))"
    using s assms(6) by (auto dest: set_zip_rightD)
  obtain r1 t1 where 1: "(if length add > 0 then mach_Add env fuel t add [] else Inr (Executed, t)) = Inr (r1, t1)"
    "open_target t1" "m_schema t1 = m_schema t" "set (m_activeStates t1) = set add \<union> set (m_activeStates t)"
    "uint (m_queueTicksPending t1) + uint (m_queueTick t1) + 1 < 2 ^ 64"
    using maybe_call(1) [OF assms(1-3) sub(1), of 1] assms(9) by auto
  obtain r2 t2 where 2: "(if length rem > 0 then mach_Remove env fuel t1 rem [] else Inr (Executed, t1)) = Inr (r2, t2)"
    "open_target t2" "set (m_activeStates t2) = set (m_activeStates t1) - set rem"
    using maybe_call(2) [OF assms(1,2) 1(2), of rem 0] 1(3,5) sub(2) by auto
  have inj: "x = y" if "(x, u) \<in> set (zip states targets)" "(y, u) \<in> set (zip states targets)" for x y u
    using that assms(4,5) by (auto simp: in_set_zip nth_eq_iff_index_eq)
  have "x \<in> set (m_activeStates src) \<longleftrightarrow> u \<in> set (m_activeStates t2)" if xu: "(x, u) \<in> set (zip states targets)" for x u
  proof -
    have "u \<in> set add \<longleftrightarrow> Is1 src x" "u \<in> set rem \<longleftrightarrow> \<not> Is1 src x" using s xu inj by blast+
    then show ?thesis using 1(4) 2(3) is1 [OF set_zip_leftD [OF xu]] by auto
  qed
  then have "mirrored states targets src t2" using assms(4) by (auto simp: mirrored_def list_all2_iff)
  moreover have "pipes_Sync env fuel src t states targets = Inr (length states, t2)"
    using l 1(1) 2(1) s by (simp add: pipes_Sync_def del: length_greater_0_conv)
  ultimately show ?thesis using 2(2) by blast
qed

end
