(* ===== verification/Am_Helpers_Facts.thy ===== *)
theory Am_Helpers_Facts
  imports Am_Helpers Am_Pipes_Facts
begin

text \<open>
  Facts about the helpers: a new flat mirror agrees with its source, the hash of a schema does not depend on the order of
  its states and relations, waiting and asking calls on a machine at rest.
\<close>

section \<open>New machines\<close>

lemma mirror_schema_get:
  "gget (mirror_schema sch states) s
   = (if s \<in> set states then Some (State_zero\<lparr>Multi := Multi (Schema_Get sch s)\<rparr>) else None)"
proof -
  have "gget (foldl (\<lambda>acc name. gput name (f name) acc) acc0 states) s = (if s \<in> set states then Some (f s) else gget acc0 s)"
    for f :: "string \<Rightarrow> State" and acc0
    by (induction states arbitrary: acc0) auto
  then show ?thesis by (simp add: mirror_schema_def gget_def [of "[]"])
qed

lemma mirror_schema_keys: "gmap_wf (mirror_schema sch states)" "set (gkeys (mirror_schema sch states)) = set states"
proof -
  have "gmap_wf (foldl (\<lambda>acc name. gput name (f name) acc) acc0 states)
    \<and> set (gkeys (foldl (\<lambda>acc name. gput name (f name) acc) acc0 states)) = set (gkeys acc0) \<union> set states"
    if "gmap_wf acc0" for f :: "string \<Rightarrow> State" and acc0
    using that by (induction states arbitrary: acc0) auto
  from this [of "[]"] show "gmap_wf (mirror_schema sch states)" "set (gkeys (mirror_schema sch states)) = set states"
    by (simp_all add: mirror_schema_def)
qed

text \<open>States without relations stay so, and give no errors.\<close>

definition bare :: "State \<Rightarrow> bool" where
  "bare s = (\<exists>b. s = State_zero\<lparr>Multi := b\<rparr>)"

lemma bare_parse: "bare s \<Longrightarrow> parse_state states name s = (s, [])"
  by (auto simp: bare_def parse_state_def State_zero_def Let_def slice_simps)

lemma bare_plain: "bare s \<Longrightarrow> sl (Require s) = [] \<and> sl (Remove s) = [] \<and> sl (Add s) = [] \<and> \<not> Auto s"
  by (auto simp: bare_def State_zero_def)

lemma bare_Parse:
  assumes "gmap_wf sch" "\<forall>n st. gget sch n = Some st \<longrightarrow> bare st"
  shows "snd (Schema_Parse sch) = []" "gget (fst (Schema_Parse sch)) n = gget sch n"
proof -
  have l: "list_all (\<lambda>(n, st). bare st) sch"
    using assms by (auto simp: list_all_iff gget_def gmap_wf_def gkeys_def)
  have "snd (foldl (\<lambda>(parsed, errs) (name, state).
        (let (state', e) = parse_state states name state in (gput name state' parsed, errs @ e))) (acc, []) xs) = []"
    if "list_all (\<lambda>(n, st). bare st) xs" for states acc xs
    using that by (induction xs arbitrary: acc) (auto simp: bare_parse Let_def)
  with l show "snd (Schema_Parse sch) = []" by (simp add: Schema_Parse_def Let_def)
  show "gget (fst (Schema_Parse sch)) n = gget sch n"
    using assms(2) by (cases "gget sch n") (auto simp: Schema_Parse_get [OF assms(1)] bare_parse)
qed

lemma newMachine_rest:
  "m_stateNames (newMachine schema opts rid) = sort (gkeys (m_schema (newMachine schema opts rid)))"
  "\<not> m_panicCaught (newMachine schema opts rid)" "m_handlers (newMachine schema opts rid) = []"
  "queries (m_subs (newMachine schema opts rid)) = ([], [])" "m_t (newMachine schema opts rid) = None"
  "m_LastHandlerDeadline (newMachine schema opts rid) = None" "m_queueTick (newMachine schema opts rid) = 1"
  "m_queueTicksPending (newMachine schema opts rid) = 0"
  "m_QueueLimit (newMachine schema opts rid) = (if op_QueueLimit opts \<noteq> 0 then op_QueueLimit opts else 1000)"
  by (simp_all add: newMachine_def mach_NewSchema_def Let_def NewSubscriptionManager_def queries_def)

text \<open>A new machine without relations is at rest and takes calls.\<close>

lemma New_open:
  assumes "gmap_wf sch" "\<forall>n st. gget sch n = Some st \<longrightarrow> bare st" "op_QueueLimit opts = 0"
    "\<forall>n \<in> set (gkeys sch). n \<noteq> [] \<and> strings_TrimSpace n = n"
  obtains m where "New env fuel sch opts rid = Inr m" "open_target m" "set (gkeys (m_schema m)) = insert StateException (set (gkeys sch))"
    "m_activeStates m = []" "m_queueTick m = 1" "m_queueTicksPending m = 0"
proof
  let ?m = "newMachine sch opts rid"
  show "New env fuel sch opts rid = Inr ?m" using bare_Parse(1) [OF assms(1,2)] by (simp add: New_def)
  have k: "gkeys (fst (Schema_Parse sch)) = gkeys sch" by (rule Schema_Parse_get [OF assms(1)])
  show keys: "set (gkeys (m_schema ?m)) = insert StateException (set (gkeys sch))"
    using k by (auto simp: newMachine_fields Let_def ghas_gkeys)
  show "m_activeStates ?m = []" "m_queueTick ?m = 1" "m_queueTicksPending ?m = 0"
    by (simp_all add: newMachine_fields newMachine_rest)
  have pre: "list_all (\<lambda>(n, st). state_pre (gkeys sch) st) sch"
    using assms(1,2) by (fastforce simp: list_all_iff gget_def gmap_wf_def gkeys_def bare_def State_zero_def state_pre_def)
  have inv: "mach_inv ?m" using assms(1,4) pre by (intro newMachine_inv) auto
  have "strings_TrimSpace StateException = StateException" by code_simp
  with keys assms(4) inv have n: "names_ok ?m"
    by (auto simp: names_ok_def newMachine_rest mach_inv_def machine_wf_def schema_wf_def gmap_wf_def)
  have "bare (State_zero\<lparr>Multi := True\<rparr>)" "bare State_zero" by (auto simp: bare_def State_zero_def)
  then have "bare (Schema_Get (m_schema ?m) s)" for s
    using assms(2) bare_Parse(2) [OF assms(1,2), of s]
    by (cases "gget sch s") (auto simp: newMachine_fields Let_def Schema_Get_def)
  then have "plain (m_schema ?m)" by (simp add: plain_def list_all_iff Let_def bare_plain)
  then show "open_target ?m"
    using inv n by (simp add: open_target_def resting_def idle_def calm_def newMachine_fields newMachine_rest Backoff_def
        queue_full_def QueueLen_def assms(3))
qed

section \<open>Mirrors\<close>

text \<open>What the field of a handler has to be: the flat pipe that adds the state for \<open>FooState\<close>, the one that removes it for
  \<open>FooEnd\<close>.\<close>

definition field_ok :: "string \<times> field_fn \<Rightarrow> bool" where
  "field_ok f = (\<exists>s. f = (s @ ''State'', FnPipe \<lparr>pi_add = True, pi_flat = True,
       pi_names = (if strings_HasPrefix s PrefixErr then [StateException, s] else [s])\<rparr>)
     \<or> f = (s @ ''End'', FnPipe \<lparr>pi_add = False, pi_flat = True, pi_names = [s]\<rparr>))"

lemma mirror_pipe_field:
  assumes "mirror_handler name = Some (a, s)" "s \<noteq> []"
  shows "\<exists>p. mirror_pipe True a s = Inr p \<and> field_ok (name, FnPipe p)"
proof -
  have *: "strings_HasSuffix x p \<Longrightarrow> x = strings_TrimSuffix x p @ p" for x p
    by (metis append_take_drop_id strings_HasSuffix_def strings_TrimSuffix_def)
  have "name = s @ (if a then ''State'' else ''End'')"
    using assms(1) * [of name SuffixState] * [of name SuffixEnd]
    by (simp add: mirror_handler_def SuffixState_def SuffixEnd_def split: if_splits)
  with assms(2) show ?thesis
    by (auto simp: field_ok_def mirror_pipe_def AddFlat_def RemoveFlat_def pipe_add_def pipe_remove_def pipe_target_def)
qed

text \<open>The states the handlers of a struct stand for.\<close>

definition handled :: "string list \<Rightarrow> S \<Rightarrow> bool" where
  "handled names states = (\<forall>name \<in> set names. \<exists>a s. mirror_handler name = Some (a, s) \<and> s \<in> set states)"

definition synced :: "Machine \<Rightarrow> string list \<Rightarrow> string set" where
  "synced src names = {s. \<exists>name \<in> set names. \<exists>a. mirror_handler name = Some (a, s) \<and> Is1 src s}"

lemma mirror_sync_effect:
  assumes "accepting env" "2 \<le> fuel" "open_target m" "s \<in> set (gkeys (m_schema m))"
    "uint (m_queueTicksPending m) + uint (m_queueTick m) + int n + 1 < 2 ^ 64"
  shows "\<exists>m'. mirror_sync env fuel True src s m = Inr m' \<and> open_target m' \<and> m_schema m' = m_schema m
    \<and> set (m_activeStates m') = (if Is1 src s then {s} else {}) \<union> set (m_activeStates m)
    \<and> uint (m_queueTicksPending m') + uint (m_queueTick m') + int n < 2 ^ 64"
  using maybe_call(1) [OF assms(1-3), of "[s]" n] assms(4,5) assms(3)
  by (auto simp: mirror_sync_def)

lemma mirror_loop_effect:
  assumes "accepting env" "2 \<le> fuel" "open_target m" "handled names states" "set names \<subseteq> set flds"
    "set states \<subseteq> set (gkeys (m_schema m))" "[] \<notin> set states"
    "uint (m_queueTicksPending m) + uint (m_queueTick m) + int (length names) < 2 ^ 64"
  shows "\<exists>fs m'. mirror_loop env fuel True src flds names m = Inr (Inr (fs, m')) \<and> map fst fs = names
    \<and> list_all field_ok fs \<and> open_target m' \<and> set (m_activeStates m') = synced src names \<union> set (m_activeStates m)"
  using assms(3-6,8)
proof (induction names arbitrary: m)
  case Nil
  then show ?case by (simp add: synced_def)
next
  case (Cons name names)
  obtain a s where h: "mirror_handler name = Some (a, s)" "s \<in> set states" using Cons.prems(2) by (auto simp: handled_def)
  have s: "s \<in> set (gkeys (m_schema m))" "s \<noteq> []" using h(2) Cons.prems(4) assms(7) by auto
  obtain m1 where 1: "mirror_sync env fuel True src s m = Inr m1" "open_target m1" "m_schema m1 = m_schema m"
    "set (m_activeStates m1) = (if Is1 src s then {s} else {}) \<union> set (m_activeStates m)"
    "uint (m_queueTicksPending m1) + uint (m_queueTick m1) + int (length names) < 2 ^ 64"
    using mirror_sync_effect [OF assms(1,2) Cons.prems(1) s(1), of "length names" src] Cons.prems(5) by auto
  obtain p where p: "mirror_pipe True a s = Inr p" "field_ok (name, FnPipe p)" using mirror_pipe_field [OF h(1) s(2)] by blast
  obtain fs m2 where 2: "mirror_loop env fuel True src flds names m1 = Inr (Inr (fs, m2))" "map fst fs = names" "list_all field_ok fs" "open_target m2"
    "set (m_activeStates m2) = synced src names \<union> set (m_activeStates m1)"
    using Cons.IH [OF 1(2)] Cons.prems(2-4) 1(3,5) by (auto simp: handled_def)
  have "synced src (name # names) = (if Is1 src s then {s} else {}) \<union> synced src names"
    using h(1) by (auto simp: synced_def)
  with 1 2 h p Cons.prems(3) show ?case by auto
qed

lemma bindHandlers_plain:
  assumes "\<not> m_disposing m" "m_handlerLoopRunning m \<or> \<not> IsErr m"
  shows "\<exists>m'. bindHandlers env fuel m h bid = Inr (bid, m') \<and> m_handlers m' = m_handlers m @ [h\<lparr>h_id := bid, h_num := m_nextHandlerNum m\<rparr>]
    \<and> m_activeStates m' = m_activeStates m"
proof -
  have "IsErr (m\<lparr>m_handlerLoopRunning := a, m_loopAlive := b, m_nextHandlerNum := c, m_handlers := d\<rparr>) = IsErr m" for a b c d
    by (simp add: IsErr_def Is1_def Is_def is'_def)
  with assms show ?thesis by (cases "m_handlerLoopRunning m") (simp_all add: bindHandlers_def Let_def)
qed

text \<open>C14. A flat mirror starts in agreement with its source. The source is not disposing and has no exception that waits
  for its first handlers; the handlers of the mirror accept; the struct has only fields, all of which stand for mirrored
  states, and every mirrored state, a state of the source with a trimmed name, has at least one. Then \<open>NewMirror\<close> returns;
  exactly the fields of these handlers are set, \<open>FooState\<close> to the pipe that adds \<open>Foo\<close> and \<open>FooEnd\<close> to the one that removes it;
  the struct is bound to the source behind its other handlers; and each mirrored state is active in the mirror exactly
  when it is active in the source.\<close>

theorem NewMirror_in_sync:
  assumes "accepting env" "2 \<le> fuel" "\<not> m_disposing src" "m_handlerLoopRunning src \<or> \<not> IsErr src"
    and handlers: "listHandlers funs flds states = ([], names)" "set names \<subseteq> set flds" "handled names states"
      "\<forall>s \<in> set states. \<exists>name \<in> set names. \<exists>a. mirror_handler name = Some (a, s)" "int (length names) < 2 ^ 64 - 1"
    and states: "\<forall>s \<in> set states. s \<noteq> [] \<and> strings_TrimSpace s = s \<and> s \<in> set (m_stateNames src)"
  shows "\<exists>fs mirror src'. NewMirror env senv fuel bid ident True src funs flds states = Inr (Inr (fs, mirror, src'))
    \<and> map fst fs = names \<and> list_all field_ok fs
    \<and> m_handlers src' = m_handlers src @ [(mirror_struct funs flds)\<lparr>h_id := bid, h_num := m_nextHandlerNum src\<rparr>]
    \<and> m_activeStates src' = m_activeStates src \<and> resting mirror \<and> mirrored states states src' mirror"
proof -
  let ?sch = "mirror_schema (m_schema src) states" and ?id = "if ident = [] then ''mirror-'' @ m_id src else ident"
  let ?opts = "Opts_zero\<lparr>op_Id := ?id, op_ParentId := m_id src\<rparr>"
  have "\<forall>n st. gget ?sch n = Some st \<longrightarrow> bare st" by (auto simp: mirror_schema_get bare_def)
  then obtain m where m: "New env fuel ?sch ?opts ?id = Inr m" "open_target m"
    "set (gkeys (m_schema m)) = insert StateException (set states)" "m_activeStates m = []" "m_queueTick m = 1"
    "m_queueTicksPending m = 0"
    using New_open [of ?sch ?opts env fuel ?id] mirror_schema_keys [of "m_schema src" states] states
    by (auto simp: Opts_zero_def)
  have "set states \<subseteq> set (gkeys (m_schema m))" "[] \<notin> set states" using m(3) states by auto
  then obtain fs m' where l: "mirror_loop env fuel True src flds names m = Inr (Inr (fs, m'))" "map fst fs = names"
    "list_all field_ok fs" "open_target m'" "set (m_activeStates m') = synced src names \<union> set (m_activeStates m)"
    using mirror_loop_effect [OF assms(1,2) m(2) handlers(3,2), of src] handlers(5) m(5,6) by auto
  obtain src' where b: "bindHandlers senv fuel src (mirror_struct funs flds) bid = Inr (bid, src')"
    "m_handlers src' = m_handlers src @ [(mirror_struct funs flds)\<lparr>h_id := bid, h_num := m_nextHandlerNum src\<rparr>]"
    "m_activeStates src' = m_activeStates src"
    using bindHandlers_plain [OF assms(3,4)] by blast
  have "NewMirror env senv fuel bid ident True src funs flds states = Inr (Inr (fs, m', src'))"
    using handlers(1) m(1) l(1) b(1) by (simp add: NewMirror_def Let_def)
  moreover have "s \<in> set (m_activeStates src) \<longleftrightarrow> s \<in> set (m_activeStates m')" if "s \<in> set states" for s
    using that handlers(4) states assms(3) l(5) m(4) by (auto simp: synced_def Is1_def Is_def is'_def)
  ultimately show ?thesis using l(2-4) b(2,3) by (auto simp: mirrored_def list_all2_same open_target_def)
qed

definition hp_source :: "Machine res" where
  "hp_source = bindR (mach_Add px_env 9 (px_mach [''A'', ''B'', ''C'']) [''A'', ''C''] []) (\<lambda>(_, m). Inr m)"

theorem NewMirror_in_sync_witness:
  "\<exists>src fs mirror src'. hp_source = Inr src
     \<and> NewMirror px_env px_env 2 ''anon'' [] True src [] [''AState'', ''AEnd'', ''BState''] [''A'', ''B''] = Inr (Inr (fs, mirror, src'))
     \<and> map fst fs = [''AState'', ''AEnd'', ''BState''] \<and> mirrored [''A'', ''B''] [''A'', ''B''] src' mirror"
proof -
  have "res_ok (\<lambda>m. \<not> m_disposing m \<and> \<not> IsErr m \<and> ''A'' \<in> set (m_stateNames m) \<and> ''B'' \<in> set (m_stateNames m)) hp_source" by code_simp
  then obtain src where src: "hp_source = Inr src" "\<not> m_disposing src" "\<not> IsErr src" "''A'' \<in> set (m_stateNames src)"
    "''B'' \<in> set (m_stateNames src)" by (auto dest!: res_okE)
  let ?names = "[''AState'', ''AEnd'', ''BState'']"
  have l: "listHandlers [] ?names [''A'', ''B''] = ([], ?names)" by code_simp
  have h: "mirror_handler ''AState'' = Some (True, ''A'')" "mirror_handler ''AEnd'' = Some (False, ''A'')"
    "mirror_handler ''BState'' = Some (True, ''B'')" by code_simp+
  have a: "accepting px_env" by (simp add: px_env_def accepting_def)
  have t: "strings_TrimSpace ''A'' = ''A''" "strings_TrimSpace ''B'' = ''B''" by code_simp+
  have r: "m_handlerLoopRunning src \<or> \<not> IsErr src" using src(3) by simp
  have "handled ?names [''A'', ''B'']" "\<forall>s \<in> set [''A'', ''B'']. \<exists>name \<in> set ?names. \<exists>a. mirror_handler name = Some (a, s)"
    "\<forall>s \<in> set [''A'', ''B'']. s \<noteq> [] \<and> strings_TrimSpace s = s \<and> s \<in> set (m_stateNames src)"
    using h src t by (auto simp: handled_def)
  from NewMirror_in_sync [OF a order_refl src(2) r l subset_refl this(1,2) _ this(3), of px_env "''anon''" "[]"]
  obtain fs mirror src' where
    "NewMirror px_env px_env 2 ''anon'' [] True src [] ?names [''A'', ''B''] = Inr (Inr (fs, mirror, src'))"
    "map fst fs = ?names" "mirrored [''A'', ''B''] [''A'', ''B''] src' mirror" by auto
  with src(1) show ?thesis by (intro exI conjI)
qed

section \<open>Checks\<close>

lemma close_chans_mono: "ch \<in> set (m_closed m) \<Longrightarrow> ch \<in> set (m_closed (close_chans chs m))"
proof -
  have "ch \<in> set cl \<Longrightarrow> ch \<in> set (foldl (\<lambda>cl ch. if ch \<in> set cl then cl else cl @ [ch]) cl chs)" for cl
    by (induction chs arbitrary: cl) auto
  then show "ch \<in> set (m_closed m) \<Longrightarrow> ch \<in> set (m_closed (close_chans chs m))" by (simp add: close_chans_def)
qed

lemma tranquil_checks:
  assumes "tranquil m m'"
  shows "m_checks m' = m_checks m"
proof -
  have "m_checks ((upd_t (note_handler e f to) m)\<lparr>m_subs := sm, m_closed := c\<rparr>) = m_checks m" for e f to sm c
    by (simp add: upd_t_def)
  with assms show ?thesis unfolding tranquil_def by metis
qed

lemma emitEvents_check:
  assumes "accepting env" "ready m" "m_t m \<noteq> None" "tx_IsAccepted (cur m)" "\<not> tx_IsAuto (cur m)"
    "mu_IsCheck (tx_Mutation (cur m))" "mu_cacheCalled (tx_Mutation (cur m)) = Some cs"
  shows "\<exists>m'. emitEvents env m = Inr (Executed, m') \<and> still m m' \<and> m_activeStates m' = m_activeStates m
    \<and> tx_IsAccepted (cur m') \<and> mu_IsCheck (tx_Mutation (cur m')) \<and> m_checks m' = m_checks m"
proof -
  obtain m1 where 1: "negotiate env Executed m = Inr (Executed, m1)" "tranquil m m1"
    using negotiate_accepting [OF assms(1,2)] assms(5) by auto
  note f1 = tranquil_fields [OF 1(2)]
  have c: "m_activeStates (closing m1) = m_activeStates m" "m_checks (closing m1) = m_checks m" "still m (closing m1)"
    using tranquil_checks [OF 1(2)] still_trans [OF tranquil_still [OF 1(2)] still_upd(1)]
    by (simp_all add: closing_def upd_t_def f1)
  have t: "tx_IsAccepted (cur (closing m1))" "tx_Mutation (cur (closing m1)) = tx_Mutation (cur m)"
    using assms(3,4) by (simp_all add: closing_def cur_upd_t f1)
  have "check_phase Executed m1 = Inr (Executed, m1)" by (simp add: check_phase_def Executed_def Canceled_def)
  moreover have "final_result cs Executed (closing m1) = Inr Executed"
    using t(2) assms(6) by (simp add: final_result_def Let_def Executed_def Canceled_def)
  ultimately have "emitEvents env m = Inr (Executed, closing m1)"
    using 1(1) assms(4,6,7) by (simp add: emitEvents_def tx_CalledStates_def f1 closing_def Let_def)
  with c t assms(6) show ?thesis by auto
qed

text \<open>A check that the relations have nothing against is answered on its channel, with true.\<close>

lemma run_check_effect:
  assumes "accepting env" "calm m" "mu_cacheCalled mut = Some cs" "set cs \<subseteq> set (gkeys (m_schema m))"
    "\<not> mu_IsAuto mut" "mu_IsCheck mut" "mu_ctx mut = None" "mu_Type mut \<noteq> mutationEval"
    "ParseArgs_ACheck (mu_Args mut) = Some ch"
    "consistent (m_schema m) (set (m_activeStates m)) (asked (mu_Type mut) (set (m_activeStates m)) (set cs))"
  shows "\<exists>m'. run_mutation env mut m = Inr (Some Executed, m') \<and> still m m' \<and> m_activeStates m' = m_activeStates m
    \<and> ch \<in> set (m_closed m') \<and> m_checks m' = m_checks m @ [(ch, True)]"
proof -
  have g: "good_mut m mut" using assms(3,4,8) by (simp add: good_mut_def)
  obtain m1 where m1: "newTransition m mut = Inr m1" using newTransition_total [OF assms(2) g] by blast
  have inv: "clock_inv m" "machine_wf m" using assms(2) by (simp_all add: calm_def mach_inv_def)
  note nr = newTransition_ready [OF m1 assms(2)]
  note nf = newTransition_facts [OF m1 inv]
  note nc = newTransition_consistent [OF m1 assms(2-5,8,10)]
  have s1: "still m m1" "m_activeStates m1 = m_activeStates m" "m_checks m1 = m_checks m" using nf(4) by (auto simp: still_def)
  obtain m2 where m2: "emitEvents env m1 = Inr (Executed, m2)" "still m1 m2" "m_activeStates m2 = m_activeStates m1"
    "tx_IsAccepted (cur m2)" "mu_IsCheck (tx_Mutation (cur m2))" "m_checks m2 = m_checks m1"
    using emitEvents_check [OF assms(1) nr(1) [OF nc(1)] nf(3) nc(1), of cs] assms(3,5,6) nf(2) by (auto simp: tx_IsAuto_def)
  define m3 where "m3 = m2\<lparr>m_timeLast := tx_TimeAfter (cur m2)\<rparr>"
  define m4 where "m4 = close_chans [ch] (m3\<lparr>m_checks := m_checks m3 @ [(ch, tx_IsAccepted (cur m3))]\<rparr>)"
  have c: "cur m3 = cur m2" by (simp add: cur_def m3_def)
  have a: "after_transition env mut m3 = Inr m4" using m2(5) assms(9) c by (simp add: after_transition_def m4_def)
  have "run_mutation env mut m = Inr (Some Executed, upd_t CleanCache m4)"
    using assms(7,8) m1 m2(1) a by (simp add: run_mutation_def ctx_expired_def m3_def)
  moreover have "still m2 (upd_t CleanCache m4)" by (simp add: m4_def m3_def still_def upd_t_def close_chans_def)
  moreover have "m_activeStates (upd_t CleanCache m4) = m_activeStates m2" "ch \<in> set (m_closed (upd_t CleanCache m4))"
    "m_checks (upd_t CleanCache m4) = m_checks m2 @ [(ch, True)]"
    using c m2(4) by (simp_all add: m4_def m3_def upd_t_def close_chans_def)
  moreover have "still m (upd_t CleanCache m4)" using s1(1) m2(2) calculation(2) still_trans by blast
  ultimately show ?thesis using s1 m2(3,6) by auto
qed

lemma check_effect:
  assumes "accepting env" "resting m" "set states \<subseteq> set (gkeys (m_schema m))" "ty \<noteq> mutationEval"
    "consistent (m_schema m) (set (m_activeStates m)) (asked ty (set (m_activeStates m)) (set states))"
    "ParseArgs_ACheck args = Some ch" "1 \<le> fuel"
  shows "\<exists>m'. PrependMut env fuel m (check_mutation m ty states args) = Inr (Executed, m') \<and> resting m'
    \<and> still m m' \<and> m_activeStates m' = m_activeStates m \<and> ch \<in> set (m_closed m') \<and> m_checks m' = m_checks m @ [(ch, True)]"
proof -
  have m: "idle m" "calm m" "m_queue m = []" "\<not> m_queueProcessing m" "\<not> m_disposing m" "\<not> Backoff m" "\<not> queue_full m" "m_queueLen m = 0"
    using assms(2) by (simp_all add: resting_def idle_def calm_def mach_inv_def machine_wf_def)
  have p: "mach_mustParse m states = Inr (slicesUniq states)"
    using assms(3) m(5) mustParseStates_known by (simp add: mach_mustParse_def)
  have "names_ok m" using m(2) by (simp add: calm_def)
  then have ix: "IndexToStates (m_stateNames m) (mach_Index m states) = Inr states"
    using assms(3) m(5) by (auto simp: mach_Index_def names_ok_def intro!: IndexToStates_StatesToIndex)
  define mut where "mut = (check_mutation m ty states args)\<lparr>mu_cacheCalled := Some (slicesUniq states), mu_QueueLen := 1,
    mu_QueueToken := m_queueToken m + 1, mu_QueueTickNow := m_queueTick m\<rparr>"
  have mut: "mu_Type mut = ty" "mu_cacheCalled mut = Some (slicesUniq states)" "\<not> mu_IsAuto mut" "mu_IsCheck mut" "mu_ctx mut = None"
    "mu_Args mut = args" "mu_QueueTick mut = 0" "mu_Called mut = mach_Index m states"
    by (simp_all add: mut_def check_mutation_def Mutation_zero_def)
  define m1 where "m1 = m\<lparr>m_queue := [mut], m_queueLen := 1, m_queueToken := m_queueToken m + 1\<rparr>"
  have q: "prependMut m (check_mutation m ty states args) = Inr (Some m1)"
    using m(3,5) ix p assms(4) by (simp add: prependMut_def m1_def mut_def check_mutation_def Let_def)
  define m2 where "m2 = shift_queue (m1\<lparr>m_queueProcessing := True, m_queueRunning := True\<rparr>) mut []"
  have m2: "m_schema m2 = m_schema m" "m_activeStates m2 = m_activeStates m" "m_checks m2 = m_checks m" "still m m2"
    "m_queueLen m2 = 0"
    using m(3,8) mut(7) by (simp_all add: m2_def m1_def shift_queue_def Let_def still_def)
  have "mach_inv m2 = mach_inv m" by (rule mach_inv_same) (simp_all add: m2_def m1_def shift_queue_def Let_def)
  then have c2: "calm m2" using m(2) by (simp add: calm_def names_ok_def m2_def m1_def shift_queue_def Let_def)
  obtain m3 where m3: "run_mutation env mut m2 = Inr (Some Executed, m3)" "still m2 m3" "m_activeStates m3 = m_activeStates m"
    "ch \<in> set (m_closed m3)" "m_checks m3 = m_checks m @ [(ch, True)]"
    using run_check_effect [OF assms(1) c2 mut(2) _ mut(3-5)] assms(3-6) mut(1,6) m2 by auto
  have c3: "calm m3"
    using run_mutation_total [OF assms(1) c2, of mut] mut(1,2) assms(3,4) m2(1) m3(1) by (auto simp: good_mut_def)
  obtain fuel' where fuel: "fuel = Suc fuel'" using assms(7) by (cases fuel) auto
  have l3: "m_queueLen m3 = 0" using m3(2) m2 by (simp add: still_def)
  have "queue_loop env fuel' [Executed] m3 = Inr (Inr [Executed], m3)" using l3 by (cases fuel') simp_all
  then have "queue_loop env fuel [] (m1\<lparr>m_queueProcessing := True, m_queueRunning := False\<rparr>) = Inr (Inr [Executed], m3)"
    using m3(1) m(5) unfolding fuel m2_def by (simp add: m1_def Let_def)
  then have res: "PrependMut env fuel m (check_mutation m ty states args) = Inr (Executed, queue_end m3)"
    using q m(4,5) by (simp add: PrependMut_def processQueue_def processQueue_busy_def m1_def)
  have s: "still m (queue_end m3)" using m2(4) m3(2) queue_end_still(1) still_trans by blast
  note still_guards [OF s]
  moreover have "ch \<in> set (m_closed (queue_end m3))" "m_checks (queue_end m3) = m_checks m3"
    using m3(4) by (simp_all add: queue_end_def ProcessWhenQueueEnds_def Let_def close_chans_mono) (simp add: close_chans_def)
  ultimately have "resting (queue_end m3)"
    using s c3 m queue_end_still(2-4) [of m3] by (simp add: resting_def idle_def calm_end still_def)
  with res s m3 queue_end_still(3) [of m3] \<open>ch \<in> set (m_closed (queue_end m3))\<close> \<open>m_checks (queue_end m3) = _\<close>
  show ?thesis by auto
qed

lemma check_args_ACheck: "ParseArgs_ACheck (check_args args ch) = Some ch"
  by (simp add: ParseArgs_ACheck_def check_args_def PassMerge_def Pass_def ArgIndex_def gput_def)
     (simp add: gget_def update_conv)

lemma check_Canceled_new:
  assumes "m_checks m' = m_checks m @ [(ch, b)]" "ch \<notin> fst ` set (m_checks m)"
  shows "check_Canceled m' ch = b"
proof -
  have "map_of (m_checks m) ch = None" using assms(2) by (simp add: map_of_eq_None_iff)
  then show ?thesis by (simp add: check_Canceled_def assms(1) map_add_def)
qed

lemma Cant_effect:
  assumes "accepting env" "resting m" "set states \<subseteq> set (gkeys (m_schema m))" "1 \<le> fuel" "ch \<notin> fst ` set (m_checks m)"
  defines "ok \<equiv> \<lambda>ty. consistent (m_schema m) (set (m_activeStates m)) (asked ty (set (m_activeStates m)) (set states))"
  shows "ok MutationAdd \<Longrightarrow> \<exists>m'. CantAdd env fuel m ch states args = Inr (False, m') \<and> resting m' \<and> still m m'
      \<and> m_activeStates m' = m_activeStates m"
    "ok MutationRemove \<Longrightarrow> \<exists>m'. CantRemove env fuel m ch states args = Inr (True, m') \<and> resting m' \<and> still m m'
      \<and> m_activeStates m' = m_activeStates m"
proof -
  have d: "\<not> m_disposing m" "\<not> Backoff m"
    using assms(2) by (simp_all add: resting_def idle_def calm_def mach_inv_def machine_wf_def)
  have e: "\<exists>m'. await_check (PrependMut env fuel m (check_mutation m ty states (check_args args ch))) ch = Inr (True, m')
      \<and> resting m' \<and> still m m' \<and> m_activeStates m' = m_activeStates m" if "ok ty" "ty \<noteq> mutationEval" for ty
    using check_effect [OF assms(1-3) that(2) _ check_args_ACheck assms(4), of args ch] that(1) check_Canceled_new [OF _ assms(5)]
    by (auto simp: ok_def await_check_def)
  from e [of MutationAdd] e [of MutationRemove] d
  show "ok MutationAdd \<Longrightarrow> \<exists>m'. CantAdd env fuel m ch states args = Inr (False, m') \<and> resting m' \<and> still m m'
      \<and> m_activeStates m' = m_activeStates m"
    "ok MutationRemove \<Longrightarrow> \<exists>m'. CantRemove env fuel m ch states args = Inr (True, m') \<and> resting m' \<and> still m m'
      \<and> m_activeStates m' = m_activeStates m"
    by (auto simp: CantAdd_def CantRemove_def CanAdd_def CanRemove_def)
qed

text \<open>C19. Asking before an addition: on a machine at rest whose handlers all accept and whose schema has no auto
  states, for defined states whose addition the relations have nothing against, \<open>AskAdd\<close> checks the mutation, makes it, reports
  \<open>Executed\<close> and adds exactly the states asked for. (The channel of the check is new, and a queue tick is left.)\<close>

theorem AskAdd_adds:
  assumes "accepting env" "resting m" "set states \<subseteq> set (gkeys (m_schema m))" "no_auto (m_schema m)" "2 \<le> fuel"
    "m_queueTicksPending m + 1 + m_queueTick m \<noteq> 0" "ch \<notin> fst ` set (m_checks m)"
    "consistent (m_schema m) (set (m_activeStates m)) (set states \<union> set (m_activeStates m))"
  shows "\<exists>m'. AskAdd env fuel m ch states args = Inr (Executed, m') \<and> set (m_activeStates m') = set states \<union> set (m_activeStates m)"
proof -
  obtain m1 where 1: "CantAdd env fuel m ch states args = Inr (False, m1)" "resting m1" "still m m1"
    "m_activeStates m1 = m_activeStates m"
    using Cant_effect(1) [OF assms(1-3) _ assms(7), of fuel args] assms(5,8) by (auto simp: asked_def)
  have "\<exists>m'. EvAdd env fuel m1 None states args = Inr (Executed, m') \<and> next_of m1 (set states \<union> set (m_activeStates m1)) m'"
    by (rule events_effect(1) [OF assms(1) 1(2)]) (use 1 assms(3-6,8) in \<open>auto simp: still_def asked_def\<close>)
  with 1 show ?thesis by (auto simp: AskAdd_def AskEvAdd_def next_of_def)
qed

text \<open>\<open>AskRemove\<close> is documented to remove the states if the check allows it, and never does on such a machine: the flag the machine
  answers a check with is true when the mutation is accepted, \<open>CantAdd\<close> negates it and \<open>CantRemove\<close> does not, so every possible
  removal is refused and changes nothing.\<close>

theorem AskRemove_refuses:
  assumes "accepting env" "resting m" "set states \<subseteq> set (gkeys (m_schema m))" "2 \<le> fuel" "ch \<notin> fst ` set (m_checks m)"
    "consistent (m_schema m) (set (m_activeStates m)) (set (m_activeStates m) - set states)"
  shows "\<exists>m'. AskRemove env fuel m ch states args = Inr (Canceled, m') \<and> m_activeStates m' = m_activeStates m"
  using Cant_effect(2) [OF assms(1-3) _ assms(5), of fuel args] assms(4,6)
  by (auto simp: AskRemove_def AskEvRemove_def asked_def)

theorem AskAdd_adds_witness:
  "\<exists>m m1. mach_Add px_env 2 px_target [''X''] [] = Inr (Executed, m) \<and> set (m_activeStates m) = {''X''}
     \<and> AskAdd px_env 2 m 7 [''Y''] [] = Inr (Executed, m1) \<and> set (m_activeStates m1) = {''X'', ''Y''}"
proof -
  have a: "accepting px_env" by (simp add: px_env_def accepting_def)
  have t: "resting px_target" "plain (m_schema px_target)" using px_target_open by (simp_all add: open_target_def)
  have k: "set (gkeys (m_schema px_target)) = {''X'', ''Y'', ''Z'', StateException}" "m_activeStates px_target = []"
    "m_queueTicksPending px_target = 0" "m_queueTick px_target = 1" by code_simp+
  have cons: "consistent (m_schema px_target) B X" if "X \<subseteq> {''X'', ''Y'', ''Z''}" for B X
    using that t(2) k(1) by (intro plain_consistent) auto
  have "res_ok (\<lambda>(r, m). m_checks m = []) (mach_Add px_env 2 px_target [''X''] [])" by code_simp
  then obtain r m where r: "mach_Add px_env 2 px_target [''X''] [] = Inr (r, m)" "m_checks m = []" by (fastforce dest!: res_okE)
  have "\<exists>m'. mach_Add px_env 2 px_target [''X''] [] = Inr (Executed, m')
      \<and> next_of px_target (set [''X''] \<union> set (m_activeStates px_target)) m'"
    by (rule methods_effect(1) [OF a t(1)]) (use t k cons in \<open>auto simp: plain_no_auto asked_def\<close>)
  then have m: "mach_Add px_env 2 px_target [''X''] [] = Inr (Executed, m)" "m_checks m = []" "resting m"
    "m_schema m = m_schema px_target" "set (m_activeStates m) = {''X''}" "m_queueTicksPending m = 0" "m_queueTick m = 2"
    unfolding r next_of_def k by (auto simp: r(2))
  have h: "no_auto (m_schema m)" "m_queueTicksPending m + 1 + m_queueTick m \<noteq> 0" "7 \<notin> fst ` set (m_checks m)"
    using m t(2) by (simp_all add: plain_no_auto)
  have y: "set [''Y''] \<subseteq> set (gkeys (m_schema m))" using k m(4) by auto
  have c: "consistent (m_schema m) (set (m_activeStates m)) (set [''Y''] \<union> set (m_activeStates m))" using cons m(4,5) by simp
  from AskAdd_adds [OF a m(3) y h(1) order_refl h(2,3) c, of "[]"] m(5)
  obtain m1 where 1: "AskAdd px_env 2 m 7 [''Y''] [] = Inr (Executed, m1)" "set (m_activeStates m1) = {''X'', ''Y''}" by auto
  show ?thesis by (intro exI conjI) (rule m(1) m(5) 1)+
qed

lemma prependMut_closed: "prependMut m mut = Inr (Some m') \<Longrightarrow> m_closed m' = m_closed m \<and> m_queueProcessing m' = m_queueProcessing m"
  by (auto simp: prependMut_def Let_def split: if_splits sum.splits)

lemma busy_check:
  assumes "m_queueProcessing m" "PrependMut env fuel m mut = Inr (r, m')"
  shows "m_closed m' = m_closed m"
  using assms prependMut_closed [of m mut]
  by (auto simp: PrependMut_def processQueue_def processQueue_busy_def split: sum.splits option.splits if_splits)

text \<open>Within a handler the queue is being processed, so a check is only queued and its answer, which \<open>CantAdd\<close> and \<open>CantRemove\<close>
  wait for, cannot come before the handler has ended: \<open>AskAdd\<close> and \<open>AskRemove\<close> do not return.\<close>

theorem Ask_blocks_in_handler:
  assumes "m_queueProcessing m" "ch \<notin> set (m_closed m)"
  shows "AskAdd env fuel m ch states args \<noteq> Inr x" "AskRemove env fuel m ch states args \<noteq> Inr x"
proof -
  have "await_check (CanAdd env fuel m states (check_args args ch)) ch \<noteq> Inr y"
    "await_check (CanRemove env fuel m states (check_args args ch)) ch \<noteq> Inr y" for y
    using assms busy_check [OF assms(1)]
    by (auto simp: await_check_def CanAdd_def CanRemove_def bindR_eq_Inr split: if_splits)
  then show "AskAdd env fuel m ch states args \<noteq> Inr x" "AskRemove env fuel m ch states args \<noteq> Inr x"
    by (auto simp: AskAdd_def AskRemove_def AskEvAdd_def AskEvRemove_def CantAdd_def CantRemove_def bindR_eq_Inr)
qed

section \<open>The hash of a schema\<close>

definition same_relation :: "S option \<Rightarrow> S option \<Rightarrow> bool" where
  "same_relation xs ys = (mset (sl xs) = mset (sl ys))"

definition same_state :: "State \<Rightarrow> State \<Rightarrow> bool" where
  "same_state s t = (Auto s = Auto t \<and> Multi s = Multi t \<and> same_relation (After s) (After t) \<and> same_relation (Remove s) (Remove t)
     \<and> same_relation (Add s) (Add t) \<and> same_relation (Require s) (Require t))"

lemma hash_names_same: "same_relation xs ys \<Longrightarrow> hash_names xs = hash_names ys"
proof -
  assume "same_relation xs ys"
  then have "sort (sl xs) = sort (sl ys)" by (intro properties_for_sort) (simp_all add: same_relation_def)
  then show ?thesis by (simp add: hash_names_def)
qed

lemma hash_state_same: "same_state s t \<Longrightarrow> hash_state k s = hash_state k t"
  unfolding hash_state_def same_state_def by (elim conjE) (simp only: hash_names_same)

text \<open>The hash of a schema does not depend on the order in which its states, and the names in their relations, are
  listed.\<close>

theorem SchemaHash_order:
  assumes "gmap_wf s" "gmap_wf t" "set (gkeys s) = set (gkeys t)"
    "\<forall>k \<in> set (gkeys s). same_state (Schema_Get s k) (Schema_Get t k)"
  shows "SchemaHash hash (Some s) = SchemaHash hash (Some t)"
proof -
  have "sort (gkeys s) = sort (gkeys t)"
    using assms(1-3) by (intro sorted_distinct_set_unique) (simp_all add: gmap_wf_def)
  moreover have "hash_state k (Schema_Get s k) = hash_state k (Schema_Get t k)" if "k \<in> set (sort (gkeys t))" for k
    using that assms(3,4) by (intro hash_state_same) simp
  ultimately have "hash_text s = hash_text t" unfolding hash_text_def by (metis (mono_tags, lifting) map_cong)
  then show ?thesis by (simp add: SchemaHash_def)
qed

theorem SchemaHash_order_witness:
  "SchemaHash (\<lambda>x. x) (Some [(''A'', State_zero\<lparr>Add := Some [''B'', ''C'']\<rparr>), (''B'', State_zero), (''C'', State_zero)])
   = SchemaHash (\<lambda>x. x) (Some [(''C'', State_zero), (''A'', State_zero\<lparr>Add := Some [''C'', ''B'']\<rparr>), (''B'', State_zero)])"
  by (rule SchemaHash_order)
     (auto simp: gmap_wf_def gkeys_def Schema_Get_def gget_def same_state_def same_relation_def State_zero_def add_mset_commute)

text \<open>Properties and relations share a separator: an \<open>Auto\<close> state hashes as one with \<open>a\<close> in its \<open>After\<close>.\<close>

theorem SchemaHash_ambiguous:
  "SchemaHash hash (Some [(''A'', State_zero\<lparr>Auto := True\<rparr>)]) = SchemaHash hash (Some [(''A'', State_zero\<lparr>After := Some [''a'']\<rparr>)])"
proof -
  have "hash_text [(''A'', State_zero\<lparr>Auto := True\<rparr>)] = hash_text [(''A'', State_zero\<lparr>After := Some [''a'']\<rparr>)]" by code_simp
  then show ?thesis by (simp add: SchemaHash_def)
qed

section \<open>Loop guards\<close>

text \<open>A loop that has ended does not go on, whatever the machine does.\<close>

lemma StateLoop_stays_ended:
  "StateLoop_Ok env fuel l m ctxErr check now = Inr ((False, l'), m') \<Longrightarrow> sl_ended l'
   \<and> StateLoop_Ok env2 fuel2 l' m2 ctxErr2 check2 now2 = Inr ((False, l'), m2)"
  by (auto simp: StateLoop_Ok_def loop_window_def loop_fail_def bindR_eq_Inr split: if_splits)

text \<open>The threshold is compared with the whole time of the context states, not with the ticks of the window: past it, the
  second round of a window fails although nothing has happened since the first.\<close>

lemma StateLoop_absolute:
  assumes "sl_mach l" "\<not> sl_ended l" "Not1 m (sl_loopState l) = Inr False" "StateLoop_Sum l m = Inr x" "sint x > sl_Threshold l"
    "sl_lastHTime l = 0" "0 < now" "0 \<le> sl_ResetInterval l"
  shows "\<exists>l1. StateLoop_Ok env fuel l m False None now = Inr ((True, l1), m)
     \<and> StateLoop_Ok env fuel l1 m False None now = loop_fail env fuel l1 m ''threshold exceeded''"
proof -
  let ?l1 = "l\<lparr>sl_lastHTime := now\<rparr>"
  have "StateLoop_Sum ?l1 m = Inr x" using assms(1,4) by (simp add: StateLoop_Sum_def)
  with assms have "StateLoop_Ok env fuel l m False None now = Inr ((True, ?l1), m)"
    "StateLoop_Ok env fuel ?l1 m False None now = loop_fail env fuel ?l1 m ''threshold exceeded''"
    by (simp_all add: StateLoop_Ok_def loop_window_def)
  then show ?thesis by blast
qed

end
