(* ===== verification/Am_Node.thy ===== *)
theory Am_Node
  imports Am_Netmach Am_Schemas
begin

text \<open>
  The supervisor of a pool of workers, \<open>src/pkg/node/supervisor.go\<close> and \<open>supervisor_misc.go\<close>, with the schemas of
  \<open>src/pkg/node/states\<close>. A handler gets the supervisor and its arguments and gives the calls it makes on its own machine, in
  order, and the goroutine it starts; what processes and sockets answer is an argument. The calls of a goroutine are those
  of the outcome it has. Workers are seen through network machines. Logging and debugging are left out.
\<close>

section \<open>Schemas\<close>

definition SupervisorStatesDef :: "field list" where
  "SupervisorStatesDef = [StatesBase, FState ''ErrWorker'', FState ''ErrPool'', FState ''LocalRpcReady'', FState ''PublicRpcReady'',
     FState ''Ready'', FState ''Heartbeat'', FState ''PoolStarting'', FState ''NormalizingPool'', FState ''PoolNormalized'',
     FState ''PoolReady'', FState ''WorkersAvailable'', FState ''ListWorkers'', FState ''SetWorker'', FState ''ForkWorker'',
     FState ''ForkingWorker'', FState ''WorkerConnected'', FState ''WorkerForked'', FState ''KillWorker'',
     FState ''KillingWorker'', FState ''WorkerKilled'', FState ''WorkerReady'', FState ''WorkerGone'',
     FState ''ClientConnected'', FState ''ClientDisconnected'', FState ''ProvideWorker'', FState ''WorkerIssues'',
     FState ''ClientSendPayload'', FState ''SuperConnected'', FState ''SuperDisconnected'', FState ''SuperSendPayload'',
     FEmbed ''BasicStatesDef'' BasicStatesDef, FEmbed ''StateSourceStatesDef'' StateSourceStatesDef]"

definition PoolStatus :: S where "PoolStatus = [''PoolStarting'', ''PoolReady'']"

definition PoolNormalizedGroup :: S where "PoolNormalizedGroup = [''PoolNormalized'', ''NormalizingPool'']"

definition SupervisorSchema :: Schema where
  "SupervisorSchema = Schema_Merge BasicSchema [StateSourceSchema,
     [(''ErrWorker'', state_of False False [''Exception''] [''NormalizingPool'', ''Heartbeat''] []),
      (''ErrPool'', state_of False False [''Exception''] [''NormalizingPool''] [''PoolNormalized'']),
      (''ClientConnected'', state_of False True [] [] []),
      (''ClientDisconnected'', state_of False True [] [] []),
      (''SuperConnected'', state_of False True [] [] []),
      (''SuperDisconnected'', state_of False True [] [] []),
      (''LocalRpcReady'', state_of False False [''Start''] [] []),
      (''PublicRpcReady'', state_of False False [''Start''] [] []),
      (''WorkerReady'', state_of False True [''Start''] [''PoolReady''] []),
      (''WorkerGone'', state_of False True [''Start''] [] [''PoolReady'']),
      (''Start'', state_of False False [] [''PoolStarting''] []),
      (''Ready'', state_of False False [''LocalRpcReady'', ''PublicRpcReady'', ''PoolReady''] [] []),
      (''Heartbeat'', state_of False False [''Start''] [] []),
      (''PoolStarting'', state_of False False [] [''NormalizingPool''] PoolStatus),
      (''PoolReady'', state_of False False [''Start''] [''Heartbeat''] PoolStatus),
      (''NormalizingPool'', (state_of False False [''Start''] [] PoolNormalizedGroup)\<lparr>After := Some [''ErrWorker'']\<rparr>),
      (''PoolNormalized'', state_of False False [''Start''] [''Heartbeat''] PoolNormalizedGroup),
      (''WorkersAvailable'', state_of False False [''PoolReady''] [] []),
      (''ListWorkers'', state_of False True [''Start''] [] []),
      (''SetWorker'', state_of False True [''Start''] [] []),
      (''ForkWorker'', state_of False True [''Start''] [] []),
      (''ForkingWorker'', state_of False True [''Start''] [] []),
      (''WorkerConnected'', state_of False True [''Start''] [] []),
      (''WorkerForked'', state_of False True [''Start''] [''Heartbeat''] []),
      (''KillWorker'', state_of False True [] [] []),
      (''KillingWorker'', state_of False True [] [] []),
      (''WorkerKilled'', state_of False True [] [''NormalizingPool'', ''Heartbeat''] []),
      (''ProvideWorker'', state_of False True [''WorkersAvailable''] [] []),
      (''WorkerIssues'', state_of False True [] [] []),
      (''ClientSendPayload'', state_of False True [] [] []),
      (''SuperSendPayload'', state_of False True [] [] [])]]"

definition WorkerStatesDef :: "field list" where
  "WorkerStatesDef = [StatesBase, FState ''ErrWork'', FState ''ErrWorkTimeout'', FState ''ErrClient'', FState ''ErrSupervisor'',
     FState ''Ready'', FState ''LocalRpcReady'', FState ''PublicRpcReady'', FState ''RpcReady'', FState ''SuperConnected'',
     FState ''ServeClient'', FState ''ClientConnected'', FState ''ClientSendPayload'', FState ''SuperSendPayload'',
     FState ''Idle'', FState ''WorkRequested'', FState ''Working'', FState ''WorkReady'',
     FEmbed ''BasicStatesDef'' BasicStatesDef, FEmbed ''StateSourceStatesDef'' StateSourceStatesDef]"

definition WorkStatus :: S where "WorkStatus = [''WorkRequested'', ''Working'', ''WorkReady'', ''Idle'']"

definition WorkerSchema :: Schema where
  "WorkerSchema = Schema_Merge BasicSchema [StateSourceSchema,
     [(''ErrWork'', state_of False False [''Exception''] [] []),
      (''ErrWorkTimeout'', state_of False False [''Exception''] [] []),
      (''ErrClient'', state_of False False [''Exception''] [] []),
      (''ErrSupervisor'', state_of False False [''Exception''] [] []),
      (''LocalRpcReady'', state_of False False [''Start''] [] []),
      (''PublicRpcReady'', state_of False False [''Start''] [] []),
      (''SuperConnected'', state_of False False [''Start''] [] []),
      (''ClientConnected'', state_of False False [''Start''] [] []),
      (''Ready'', state_of False False [''LocalRpcReady''] [] []),
      (''RpcReady'', state_of True False [''LocalRpcReady'', ''PublicRpcReady''] [] []),
      (''ServeClient'', state_of False False [''PublicRpcReady''] [] []),
      (''ClientSendPayload'', state_of False False [''PublicRpcReady''] [] []),
      (''SuperSendPayload'', state_of False False [''LocalRpcReady''] [] []),
      (''Idle'', state_of True False [''Ready''] [] WorkStatus),
      (''WorkRequested'', state_of False False [''Ready''] [] WorkStatus),
      (''Working'', state_of False False [''Ready''] [] WorkStatus),
      (''WorkReady'', state_of False False [''Ready''] [] WorkStatus)]]"

definition BootstrapStatesDef :: "field list" where
  "BootstrapStatesDef = [StatesBase, FState ''WorkerAddr'', FEmbed ''BasicStatesDef'' BasicStatesDef,
     FEmbed ''StateSourceStatesDef'' StateSourceStatesDef]"

definition BootstrapSchema :: Schema where
  "BootstrapSchema = Schema_Merge BasicSchema [StateSourceSchema, [(''WorkerAddr'', State_zero)]]"

section \<open>Workers\<close>

text \<open>\<open>wi_proc\<close> is the process, \<open>wi_rpc\<close> the RPC client with its network machine, both of which can be missing. The caches
  of errors are the errors they hold; they lose errors when these expire. \<open>wi_w\<close> is the network machine of the client.\<close>

record workerInfo =
  wi_proc :: "nat option"
  wi_rpc :: "NetworkMachine option option"
  wi_publicAddr :: string
  wi_localAddr :: string
  wi_errs :: "string list"
  wi_errsRecent :: "string list"

definition newWorkerInfo :: "nat option \<Rightarrow> workerInfo" where
  "newWorkerInfo proc = \<lparr>wi_proc = proc, wi_rpc = None, wi_publicAddr = [], wi_localAddr = [], wi_errs = [], wi_errsRecent = []\<rparr>"

definition hasErrs :: "workerInfo \<Rightarrow> bool" where
  "hasErrs w = (length (wi_errsRecent w) > 0)"

record Supervisor =
  su_WorkerBin :: "string list"
  su_Max :: int
  su_Min :: int
  su_Warm :: int
  su_MaxClientWorkers :: int
  su_WorkerErrKill :: int
  su_PublicRpcs :: "string list"
  su_LocalAddr :: string
  su_PublicAddr :: string
  su_workers :: "(string, workerInfo) gomap"
  su_TestFork :: bool
  su_TestKill :: bool

datatype sup_error = ErrBinRequired | ErrSchemaRequired | ErrWorkerStates string | ErrMach mach_error

definition NewSupervisor :: "string list \<Rightarrow> Schema option \<Rightarrow> sup_error + Supervisor" where
  "NewSupervisor workerBin workerSchema =
     (if length workerBin = 0 \<or> hd workerBin = [] then Inl ErrBinRequired
      else case workerSchema of
        None \<Rightarrow> Inl ErrSchemaRequired
      | Some sch \<Rightarrow>
          (case find (\<lambda>state. \<not> slices_Contains (Schema_Names sch) state) (Names WorkerStatesDef) of
             Some state \<Rightarrow> Inl (ErrWorkerStates state)
           | None \<Rightarrow> Inr \<lparr>su_WorkerBin = workerBin, su_Max = 10, su_Min = 2, su_Warm = 5, su_MaxClientWorkers = 10,
               su_WorkerErrKill = 3, su_PublicRpcs = [], su_LocalAddr = [], su_PublicAddr = [], su_workers = [],
               su_TestFork = False, su_TestKill = False\<rparr>))"

definition sup_min :: "Supervisor \<Rightarrow> int" where
  "sup_min s = (if su_Min s > su_Max s then su_Max s else su_Min s)"

text \<open>The workers in the order of the map.\<close>

definition worker_infos :: "Supervisor \<Rightarrow> workerInfo list" where
  "worker_infos s = map snd (su_workers s)"

definition initingWorkers :: "Supervisor \<Rightarrow> workerInfo list" where
  "initingWorkers s = filter (\<lambda>info. wi_rpc info = None) (worker_infos s)"

definition rpc_netMach :: "workerInfo \<Rightarrow> NetworkMachine option" where
  "rpc_netMach info = (case wi_rpc info of None \<Rightarrow> None | Some w \<Rightarrow> w)"

definition rpcWorkers :: "Supervisor \<Rightarrow> workerInfo list" where
  "rpcWorkers s = filter (\<lambda>info. rpc_netMach info \<noteq> None) (worker_infos s)"

text \<open>Workers without recent errors that pass a test on their network machine.\<close>

fun pick_workers :: "(NetworkMachine \<Rightarrow> bool res) \<Rightarrow> workerInfo list \<Rightarrow> workerInfo list res" where
  "pick_workers test [] = Inr []"
| "pick_workers test (info # infos) =
     bindR (if hasErrs info then Inr False else case rpc_netMach info of None \<Rightarrow> Inr False | Some w \<Rightarrow> test w) (\<lambda>ok.
       bindR (pick_workers test infos) (\<lambda>rest. Inr (if ok then info # rest else rest)))"

definition idleWorkers :: "Supervisor \<Rightarrow> workerInfo list res" where
  "idleWorkers s = pick_workers (\<lambda>w. nm_Is1 w ''Idle'') (rpcWorkers s)"

definition busy_test :: "NetworkMachine \<Rightarrow> bool res" where
  "busy_test w = bindR (nm_Any1 w WorkStatus) (\<lambda>b. if b then bindR (nm_Is1 w ''Idle'') (\<lambda>i. Inr (\<not> i)) else Inr False)"

definition busyWorkers :: "Supervisor \<Rightarrow> workerInfo list res" where
  "busyWorkers s = pick_workers busy_test (rpcWorkers s)"

definition readyWorkers :: "Supervisor \<Rightarrow> workerInfo list res" where
  "readyWorkers s = pick_workers (\<lambda>w. nm_Is1 w ''Ready'') (rpcWorkers s)"

section \<open>Calls of handlers\<close>

record NodeArgs =
  nd_Id :: string
  nd_PublicAddr :: string
  nd_LocalAddr :: string
  nd_BootAddr :: string
  nd_WorkerRpcId :: string
  nd_SuperRpcId :: string
  nd_WorkerRpc :: "NetworkMachine option option"
  nd_Bootstrap :: "string option"
  nd_WorkerAddr :: string
  nd_WorkerInfo :: "workerInfo option"
  nd_WorkersCh :: "nat option"
  nd_WorkerState :: string

definition NodeArgs_zero :: NodeArgs where
  "NodeArgs_zero = \<lparr>nd_Id = [], nd_PublicAddr = [], nd_LocalAddr = [], nd_BootAddr = [], nd_WorkerRpcId = [], nd_SuperRpcId = [],
     nd_WorkerRpc = None, nd_Bootstrap = None, nd_WorkerAddr = [], nd_WorkerInfo = None, nd_WorkersCh = None,
     nd_WorkerState = []\<rparr>"

text \<open>Calls on the machine of the supervisor, on a bootstrap machine, and on a worker.\<close>

datatype sup_call =
    SupAdd string NodeArgs
  | SupRemove S
  | SupErrWorker string NodeArgs
  | SupErrPool string
  | SupErrRpc string
  | SupAddErr string NodeArgs
  | BootDispose string
  | StopClient string
  | PingWorker

text \<open>A goroutine is given by the calls it makes for the outcome it has; with \<open>GoCalls\<close> the outcome is known and these calls
  are still to be made.\<close>

datatype fork_outcome = ForkExpired | ForkErr string | ForkOk

datatype sup_go =
    GoForkWorker string
  | GoTestFork string
  | GoMonitor string
  | GoConnect NodeArgs
  | GoProvide "workerInfo list" string
  | GoHeartbeat "workerInfo list"
  | GoNormalize
  | GoCalls "sup_call list"

type_synonym sup_out = "sup_call list \<times> sup_go list \<times> Supervisor"

definition ErrWorker_text :: "string \<Rightarrow> string" where "ErrWorker_text err = ''worker error: '' @ err"

section \<open>Handlers of errors and clients\<close>

text \<open>\<open>isKill\<close>: the error wraps \<open>ErrWorkerKill\<close>. \<open>willBe\<close>: another \<open>Exception\<close> is queued.\<close>

definition note_err :: "string \<Rightarrow> string \<Rightarrow> Supervisor \<Rightarrow> workerInfo \<Rightarrow> Supervisor" where
  "note_err err addr s w =
     s\<lparr>su_workers := gput addr (w\<lparr>wi_errs := wi_errs w @ [err], wi_errsRecent := wi_errsRecent w @ [err]\<rparr>) (su_workers s)\<rparr>"

definition ErrWorkerState :: "bool \<Rightarrow> bool \<Rightarrow> string \<Rightarrow> NodeArgs \<Rightarrow> Supervisor \<Rightarrow> sup_out" where
  "ErrWorkerState willBe isKill err args s =
     (let pre = (if \<not> willBe then [SupRemove [''ErrWorker'', ''Exception'']] else []);
          (kill, s1) = (case gget (su_workers s) (nd_LocalAddr args) of
             None \<Rightarrow> ([], s)
           | Some w \<Rightarrow>
               if isKill then ([], s)
               else (if int (length (wi_errs w) + 1) > su_WorkerErrKill s
                     then [SupAdd ''KillingWorker'' (NodeArgs_zero\<lparr>nd_LocalAddr := nd_LocalAddr args\<rparr>)] else [],
                     note_err err (nd_LocalAddr args) s w));
          boot = (case nd_Bootstrap args of None \<Rightarrow> [] | Some b \<Rightarrow> [BootDispose b])
      in (pre @ kill @ boot @ [SupRemove [''PoolReady'']], [], s1))"

definition ClientDisconnectedEnter :: "string \<Rightarrow> bool" where
  "ClientDisconnectedEnter addr = (addr \<noteq> [])"

text \<open>A client that is not found is logged, and then stopped all the same.\<close>

definition ClientDisconnectedState :: "string \<Rightarrow> Supervisor \<Rightarrow> sup_out res" where
  "ClientDisconnectedState addr s =
     (if addr \<notin> set (su_PublicRpcs s) then Inl (GoPanic ''nil pointer dereference'')
      else Inr ([SupRemove [''ClientDisconnected''], StopClient addr], [],
                s\<lparr>su_PublicRpcs := filter (\<lambda>a. a \<noteq> addr) (su_PublicRpcs s)\<rparr>))"

definition sup_StartEnter :: "NodeArgs \<Rightarrow> bool" where
  "sup_StartEnter a = (nd_PublicAddr a \<noteq> [] \<and> nd_LocalAddr a \<noteq> [])"

text \<open>The errors of the creation of the muxer, of the local server and of its binding. When none fails the servers are started and a
  goroutine waits for them: the context expires, the wait fails, or there are so many heartbeats until it expires.\<close>

definition ErrRpc_text :: "string \<Rightarrow> string" where "ErrRpc_text err = ''rpc error: '' @ err"

definition sup_StartState ::
  "string option \<Rightarrow> string option \<Rightarrow> string option \<Rightarrow> NodeArgs \<Rightarrow> Supervisor \<Rightarrow> sup_call list \<times> bool \<times> Supervisor" where
  "sup_StartState muxErr localErr bindErr a s =
     (let s1 = s\<lparr>su_LocalAddr := nd_LocalAddr a, su_PublicAddr := nd_PublicAddr a\<rparr> in
      case find (\<lambda>e. e \<noteq> None) [muxErr, localErr, bindErr] of
        Some (Some err) \<Rightarrow> ([SupErrRpc (ErrRpc_text err)], False, s1)
      | _ \<Rightarrow> ([], True, s1))"

definition go_Start :: "string option + nat \<Rightarrow> sup_call list" where
  "go_Start out =
     (case out of
        Inl None \<Rightarrow> []
      | Inl (Some err) \<Rightarrow> [SupErrRpc (ErrRpc_text err)]
      | Inr n \<Rightarrow> replicate n (SupAdd ''Heartbeat'' NodeArgs_zero))"

text \<open>A new connection of a client: the errors of the creation and of the binding of its server, whether \<open>Eval\<close> stored it in time.\<close>

definition newClientConn :: "string option \<Rightarrow> string option \<Rightarrow> bool \<Rightarrow> string \<Rightarrow> Supervisor \<Rightarrow> string + Supervisor" where
  "newClientConn created bound stored addr s =
     (case created of Some err \<Rightarrow> Inl err
      | None \<Rightarrow>
          (case bound of Some err \<Rightarrow> Inl err
           | None \<Rightarrow>
               if \<not> stored then Inl ''handler timeout''
               else Inr (s\<lparr>su_PublicRpcs := List.insert addr (su_PublicRpcs s)\<rparr>)))"

section \<open>Forking\<close>

definition ForkWorkerEnter :: "Supervisor \<Rightarrow> bool" where
  "ForkWorkerEnter s = (int (length (su_workers s)) < su_Max s)"

text \<open>\<open>boot\<close> is the new bootstrap machine, by the address of its server, or the error of its creation; \<open>started\<close> that its
  \<open>Start\<close> was executed without an error.\<close>

definition ForkWorkerState :: "string + string \<Rightarrow> bool \<Rightarrow> Supervisor \<Rightarrow> sup_out" where
  "ForkWorkerState boot started s =
     (case boot of
        Inl err \<Rightarrow> ([SupRemove [''ForkWorker''], SupErrWorker (ErrWorker_text err) NodeArgs_zero], [], s)
      | Inr b \<Rightarrow>
          if \<not> started
          then ([SupRemove [''ForkWorker''],
                 SupErrWorker (ErrWorker_text ''error starting connection'') (NodeArgs_zero\<lparr>nd_Bootstrap := Some b\<rparr>)], [], s)
          else ([SupRemove [''ForkWorker'']], [GoForkWorker b], s))"

definition go_ForkWorker :: "string \<Rightarrow> fork_outcome \<Rightarrow> sup_call list" where
  "go_ForkWorker b out =
     (case out of
        ForkExpired \<Rightarrow> []
      | ForkErr err \<Rightarrow> [SupErrWorker (ErrWorker_text err) (NodeArgs_zero\<lparr>nd_Bootstrap := Some b\<rparr>)]
      | ForkOk \<Rightarrow> [SupAdd ''ForkingWorker'' (NodeArgs_zero\<lparr>nd_Bootstrap := Some b\<rparr>)])"

definition ForkingWorkerEnter :: "NodeArgs \<Rightarrow> Supervisor \<Rightarrow> bool" where
  "ForkingWorkerEnter a s = (nd_Bootstrap a \<noteq> None \<and> nd_Bootstrap a \<noteq> Some [] \<and> int (length (su_workers s)) < su_Max s)"

text \<open>\<open>forked\<close> is the error of the pipe or of the start of the process. The process handed to \<open>newWorkerInfo\<close> is that of a
  command that is not started yet, \<open>nil\<close>.\<close>

definition ForkingWorkerState :: "string option \<Rightarrow> NodeArgs \<Rightarrow> Supervisor \<Rightarrow> sup_out res" where
  "ForkingWorkerState forked a s =
     (case nd_Bootstrap a of
        None \<Rightarrow> Inl (GoPanic ''nil pointer dereference'')
      | Some b \<Rightarrow>
          Inr (if su_TestFork s then ([SupRemove [''ForkingWorker'']], [GoTestFork b], s)
               else let calls = [SupRemove [''ForkingWorker''],
                          SupAdd ''SetWorker'' (NodeArgs_zero\<lparr>nd_WorkerAddr := b, nd_WorkerInfo := Some (newWorkerInfo None)\<rparr>)]
                 in case forked of
                      Some err \<Rightarrow> (calls @ [SupErrWorker (ErrWorker_text err) (NodeArgs_zero\<lparr>nd_Bootstrap := Some b\<rparr>)], [], s)
                    | None \<Rightarrow> (calls, [GoMonitor b], s)))"

definition go_TestFork :: "string \<Rightarrow> fork_outcome \<Rightarrow> sup_call list" where
  "go_TestFork b out =
     (case out of
        ForkExpired \<Rightarrow> []
      | ForkErr err \<Rightarrow> [SupErrWorker (ErrWorker_text err) (NodeArgs_zero\<lparr>nd_Bootstrap := Some b\<rparr>)]
      | ForkOk \<Rightarrow> [SupAdd ''SetWorker'' (NodeArgs_zero\<lparr>nd_WorkerAddr := b, nd_WorkerInfo := Some (newWorkerInfo None)\<rparr>)])"

text \<open>The goroutine that waits for the process.\<close>

definition go_Monitor :: "string \<Rightarrow> fork_outcome \<Rightarrow> sup_call list" where
  "go_Monitor b out =
     (case out of ForkErr err \<Rightarrow> [SupErrWorker (ErrWorker_text err) (NodeArgs_zero\<lparr>nd_Bootstrap := Some b\<rparr>)] | _ \<Rightarrow> [])"

definition WorkerConnectedEnter :: "NodeArgs \<Rightarrow> bool" where
  "WorkerConnectedEnter a = (nd_LocalAddr a \<noteq> [])"

definition WorkerConnectedState :: "NodeArgs \<Rightarrow> Supervisor \<Rightarrow> sup_out" where
  "WorkerConnectedState a s = ([SupRemove [''WorkerConnected'']], [GoConnect a], s)"

text \<open>\<open>Inl None\<close>: the context expired; \<open>Inl (Some e)\<close>: an error; \<open>Inr w\<close>: the client and its network machine.\<close>

definition go_Connect :: "NodeArgs \<Rightarrow> string option + NetworkMachine option \<Rightarrow> sup_call list" where
  "go_Connect a out =
     (case out of
        Inl None \<Rightarrow> []
      | Inl (Some err) \<Rightarrow> [SupErrWorker (ErrWorker_text err) a]
      | Inr w \<Rightarrow> [SupAdd ''WorkerForked'' (a\<lparr>nd_WorkerRpc := Some w\<rparr>)])"

definition WorkerForkedEnter :: "NodeArgs \<Rightarrow> bool" where
  "WorkerForkedEnter a = (nd_LocalAddr a \<noteq> [] \<and> nd_WorkerRpc a \<noteq> None)"

definition WorkerForkedState :: "string \<Rightarrow> string option \<Rightarrow> NodeArgs \<Rightarrow> Supervisor \<Rightarrow> sup_out" where
  "WorkerForkedState machId bindErr a s =
     (let addr = nd_LocalAddr a; argsOut = NodeArgs_zero\<lparr>nd_LocalAddr := addr, nd_Id := machId\<rparr>;
          pre = SupRemove [''WorkerForked'']
      in case gget (su_workers s) (nd_BootAddr a) of
           None \<Rightarrow> ([pre, SupErrWorker (ErrWorker_text ''worker missing'') argsOut], [], s)
         | Some info \<Rightarrow>
             (let info1 = info\<lparr>wi_rpc := nd_WorkerRpc a, wi_publicAddr := nd_PublicAddr a, wi_localAddr := addr\<rparr>;
                  s1 = s\<lparr>su_workers := gput addr info1 (gdel (nd_BootAddr a) (su_workers s))\<rparr>
              in case bindErr of
                   Some err \<Rightarrow> ([pre, SupErrWorker (ErrWorker_text err) argsOut], [], s1)
                 | None \<Rightarrow> ([pre, PingWorker, SupAdd ''PoolReady'' NodeArgs_zero], [], s1)))"

section \<open>Killing\<close>

definition KillingWorkerEnter :: "NodeArgs \<Rightarrow> bool" where
  "KillingWorkerEnter a = (nd_LocalAddr a \<noteq> [])"

text \<open>\<open>killed\<close> is the error of \<open>TestKill\<close> or of \<open>Kill\<close>. \<open>Kill\<close> of a missing process panics.\<close>

definition KillingWorkerState :: "string option \<Rightarrow> NodeArgs \<Rightarrow> Supervisor \<Rightarrow> sup_out res" where
  "KillingWorkerState killed a s =
     (let addr = nd_LocalAddr a; argsOut = NodeArgs_zero\<lparr>nd_LocalAddr := addr\<rparr>; pre = SupRemove [''KillingWorker''] in
      if su_TestKill s then Inr (pre # (case killed of None \<Rightarrow> [] | Some err \<Rightarrow> [SupAddErr err argsOut]), [], s)
      else case gget (su_workers s) addr of
        None \<Rightarrow> Inr ([pre, SupErrWorker (ErrWorker_text ''worker missing'') argsOut], [], s)
      | Some w \<Rightarrow>
          (case wi_proc w of
             None \<Rightarrow> Inl (GoPanic ''nil pointer dereference'')
           | Some p \<Rightarrow>
               (case killed of
                  Some err \<Rightarrow> Inr ([pre, SupErrWorker (ErrWorker_text err) argsOut], [], s)
                | None \<Rightarrow> Inr ([pre, SupAdd ''WorkerKilled'' argsOut], [], s))))"

definition WorkerKilledEnter :: "NodeArgs \<Rightarrow> bool" where
  "WorkerKilledEnter a = (nd_LocalAddr a \<noteq> [])"

definition WorkerKilledState :: "NodeArgs \<Rightarrow> Supervisor \<Rightarrow> sup_out" where
  "WorkerKilledState a s =
     ([SupRemove [''WorkerKilled''], SupRemove [''PoolReady'']], [], s\<lparr>su_workers := gdel (nd_LocalAddr a) (su_workers s)\<rparr>)"

section \<open>The pool\<close>

definition PoolReadyEnter :: "Supervisor \<Rightarrow> bool res" where
  "PoolReadyEnter s = bindR (readyWorkers s) (\<lambda>r. Inr (int (length r) \<ge> sup_min s))"

definition PoolReadyExit :: "Supervisor \<Rightarrow> bool res" where
  "PoolReadyExit s = bindR (readyWorkers s) (\<lambda>r. Inr (int (length r) < sup_min s))"

text \<open>A round of health checks: each worker has three tries, given by the ticks of \<open>Healthcheck\<close> it shows. The group ends with
  the first error or when all are done.\<close>

definition healthy :: "uint64 \<Rightarrow> uint64 list \<Rightarrow> bool" where
  "healthy tick tries = list_ex (\<lambda>t. tick < t) (take 3 tries)"

text \<open>An empty list of ready workers is the \<open>nil\<close> slice.\<close>

definition HeartbeatState :: "Supervisor \<Rightarrow> sup_out res" where
  "HeartbeatState s =
     bindR (readyWorkers s) (\<lambda>r. Inr (if r = [] then ([SupRemove [''Heartbeat'']], [], s) else ([], [GoHeartbeat r], s)))"

text \<open>The end of a heartbeat: the errors of the workers that failed, a timeout, the idle workers or an error of the listing,
  \<open>None\<close> when the context expired meanwhile.\<close>

definition go_Heartbeat :: "NodeArgs list \<Rightarrow> string option \<Rightarrow> (string + workerInfo list) option \<Rightarrow> sup_call list" where
  "go_Heartbeat failed timeout idle =
     map (\<lambda>a. SupErrWorker (ErrWorker_text ''worker failed healthcheck'') a) failed
     @ (case timeout of
          Some err \<Rightarrow> [SupErrPool (''pool error: heartbeat failed: '' @ err)]
        | None \<Rightarrow> [SupAdd ''PoolReady'' NodeArgs_zero, SupRemove [''PoolReady'']]
            @ (case idle of
                 None \<Rightarrow> []
               | Some (Inl err) \<Rightarrow> [SupErrWorker (ErrWorker_text err) NodeArgs_zero]
               | Some (Inr ws) \<Rightarrow> [if length ws > 0 then SupAdd ''WorkersAvailable'' NodeArgs_zero else SupRemove [''WorkersAvailable'']]))
     @ [SupRemove [''Heartbeat'']]"

text \<open>The forks of a round of \<open>NormalizingPool\<close>.\<close>

definition forks_missing :: "Supervisor \<Rightarrow> nat \<Rightarrow> nat" where
  "forks_missing s existing = nat (min (sup_min s + su_Warm s) (su_Max s) - int existing)"

text \<open>A round: the workers listed or an error of the listing (a missing round is an expired context), whether the inner check saw enough ready workers, and whether
  \<open>PoolReady\<close> is active after the pause. The \<open>ready\<close> the inner check sets is a variable of its own.\<close>

record norm_round =
  nr_existing :: "nat option"
  nr_enough :: bool
  nr_ready :: bool

fun go_Normalize :: "Supervisor \<Rightarrow> nat \<Rightarrow> norm_round list \<Rightarrow> sup_call list" where
  "go_Normalize s 0 rounds = [SupErrPool ''pool error: failed to normalize pool'', SupAdd ''PoolNormalized'' NodeArgs_zero]"
| "go_Normalize s (Suc n) [] = [SupAdd ''PoolNormalized'' NodeArgs_zero]"
| "go_Normalize s (Suc n) (r # rounds) =
     (case nr_existing r of
        None \<Rightarrow> go_Normalize s n rounds
      | Some k \<Rightarrow>
          replicate (forks_missing s k) (SupAdd ''ForkWorker'' NodeArgs_zero)
          @ (if nr_enough r then [SupAdd ''PoolReady'' NodeArgs_zero] else [])
          @ (if nr_ready r then [SupAdd ''PoolNormalized'' NodeArgs_zero] else go_Normalize s n rounds))"

definition NormalizingPoolState :: "Supervisor \<Rightarrow> sup_out" where
  "NormalizingPoolState s = ([], [GoNormalize], s)"

section \<open>Requests\<close>

definition ProvideWorkerEnter :: "NodeArgs \<Rightarrow> bool" where
  "ProvideWorkerEnter a = (nd_WorkerRpcId a \<noteq> [] \<and> nd_SuperRpcId a \<noteq> [])"

definition ProvideWorkerState :: "NodeArgs \<Rightarrow> Supervisor \<Rightarrow> sup_out res" where
  "ProvideWorkerState a s = bindR (idleWorkers s) (\<lambda>idle. Inr ([SupRemove [''ProvideWorker'']], [GoProvide idle (nd_WorkerRpcId a)], s))"

text \<open>The workers asked, given the answers of \<open>Add1Sync\<close>: the loop goes on after an accepted \<open>ServeClient\<close> and ends with the
  first rejected one.\<close>

fun go_Provide :: "workerInfo list \<Rightarrow> bool list \<Rightarrow> workerInfo list" where
  "go_Provide [] oks = []"
| "go_Provide (w # ws) [] = []"
| "go_Provide (w # ws) (ok # oks) = w # (if ok then go_Provide ws oks else [])"

definition ListWorkersEnter :: "NodeArgs \<Rightarrow> bool" where
  "ListWorkersEnter a = (case nd_WorkersCh a of None \<Rightarrow> False | Some cap \<Rightarrow> cap > 0)"

definition listed_workers :: "string \<Rightarrow> Supervisor \<Rightarrow> workerInfo list res" where
  "listed_workers state s =
     (if state = ''ready'' then readyWorkers s
      else if state = ''initing'' then Inr (initingWorkers s)
      else if state = ''busy'' then busyWorkers s
      else if state = ''idle'' then idleWorkers s
      else Inr (worker_infos s))"

definition ListWorkersState :: "NodeArgs \<Rightarrow> Supervisor \<Rightarrow> (workerInfo list \<times> sup_out) res" where
  "ListWorkersState a s = bindR (listed_workers (nd_WorkerState a) s) (\<lambda>ws. Inr (ws, ([SupRemove [''ListWorkers'']], [], s)))"

definition SetWorkerEnter :: "NodeArgs \<Rightarrow> bool" where
  "SetWorkerEnter a = (nd_WorkerAddr a \<noteq> [])"

definition SetWorkerState :: "NodeArgs \<Rightarrow> Supervisor \<Rightarrow> sup_out" where
  "SetWorkerState a s =
     ([SupRemove [''SetWorker'']], [],
      s\<lparr>su_workers := (case nd_WorkerInfo a of
           Some info \<Rightarrow> gput (nd_WorkerAddr a) info (su_workers s)
         | None \<Rightarrow> gdel (nd_WorkerAddr a) (su_workers s))\<rparr>)"

section \<open>Methods\<close>

definition sup_Start :: "string \<Rightarrow> sup_call list" where
  "sup_Start publicAddr = [SupAdd ''Start'' (NodeArgs_zero\<lparr>nd_LocalAddr := ''localhost:0'', nd_PublicAddr := publicAddr\<rparr>)]"

definition CheckPool :: "sup_call list" where
  "CheckPool = [SupAdd ''NormalizingPool'' NodeArgs_zero, SupAdd ''PoolReady'' NodeArgs_zero]"

definition SetPool :: "int \<Rightarrow> int \<Rightarrow> int \<Rightarrow> int \<Rightarrow> Supervisor \<Rightarrow> sup_call list \<times> Supervisor" where
  "SetPool mn mx warm maxPerClient s =
     (CheckPool, s\<lparr>su_Min := (if mx < mn then mx else mn), su_Max := mx, su_Warm := warm,
        su_MaxClientWorkers := (if maxPerClient = 0 then mx else maxPerClient)\<rparr>)"

text \<open>\<open>Workers\<close> after its request: cancelled, or what its \<open>select\<close> receives. An expired context gives no list and no error.\<close>

datatype workers_wait = WwExpired | WwTimeout | WwGot "workerInfo list"

definition Workers :: "bool \<Rightarrow> workers_wait \<Rightarrow> string + workerInfo list option" where
  "Workers canceled out =
     (if canceled then Inl ''listing workers: canceled''
      else case out of WwExpired \<Rightarrow> Inr None | WwTimeout \<Rightarrow> Inl ''listing workers: timeout'' | WwGot ws \<Rightarrow> Inr (Some ws))"

section \<open>Runs\<close>

text \<open>The supervisor while \<open>Start\<close> is active: its data, the queue of calls on its machine, the goroutines that have not ended.
  The machine takes the calls one at a time, in order, and runs the handlers of a call the guard of which accepts; a panic in
  a handler is caught by the machine. What the outside does meanwhile is an action: it answers a handler (\<open>ext\<close>), decides how a
  goroutine goes on and when it makes its calls, makes calls of its own, lets errors expire.\<close>

record ext =
  xt_boot :: "string + string"
  xt_started :: bool
  xt_forked :: "string option"
  xt_killed :: "string option"
  xt_machId :: string
  xt_bindErr :: "string option"
  xt_willBe :: bool
  xt_isKill :: bool

definition guarded :: "bool \<Rightarrow> sup_out res \<Rightarrow> sup_out res option" where
  "guarded ok r = (if ok then Some r else None)"

definition handle_add :: "ext \<Rightarrow> string \<Rightarrow> NodeArgs \<Rightarrow> Supervisor \<Rightarrow> sup_out res option" where
  "handle_add x state a s =
     (if state = ''ForkWorker'' then guarded (ForkWorkerEnter s) (Inr (ForkWorkerState (xt_boot x) (xt_started x) s))
      else if state = ''ForkingWorker'' then guarded (ForkingWorkerEnter a s) (ForkingWorkerState (xt_forked x) a s)
      else if state = ''WorkerConnected'' then guarded (WorkerConnectedEnter a) (Inr (WorkerConnectedState a s))
      else if state = ''WorkerForked''
      then guarded (WorkerForkedEnter a) (Inr (WorkerForkedState (xt_machId x) (xt_bindErr x) a s))
      else if state = ''KillingWorker'' then guarded (KillingWorkerEnter a) (KillingWorkerState (xt_killed x) a s)
      else if state = ''WorkerKilled'' then guarded (WorkerKilledEnter a) (Inr (WorkerKilledState a s))
      else if state = ''SetWorker'' then guarded (SetWorkerEnter a) (Inr (SetWorkerState a s))
      else if state = ''ProvideWorker'' then guarded (ProvideWorkerEnter a) (ProvideWorkerState a s)
      else if state = ''Heartbeat'' then Some (HeartbeatState s)
      else if state = ''NormalizingPool'' then Some (Inr (NormalizingPoolState s))
      else Some (Inr ([], [], s)))"

definition sup_handle :: "ext \<Rightarrow> sup_call \<Rightarrow> Supervisor \<Rightarrow> sup_out res option" where
  "sup_handle x c s =
     (case c of
        SupAdd state a \<Rightarrow> handle_add x state a s
      | SupErrWorker err a \<Rightarrow> Some (Inr (ErrWorkerState (xt_willBe x) (xt_isKill x) err a s))
      | _ \<Rightarrow> Some (Inr ([], [], s)))"

datatype go_outcome =
    OutFork fork_outcome
  | OutConnect "string option + NetworkMachine option"
  | OutHeartbeat "NodeArgs list" "string option" "(string + workerInfo list) option"
  | OutNormalize "norm_round list"
  | OutProvide

fun go_calls :: "Supervisor \<Rightarrow> sup_go \<Rightarrow> go_outcome \<Rightarrow> sup_call list option" where
  "go_calls s (GoForkWorker b) (OutFork out) = Some (go_ForkWorker b out)"
| "go_calls s (GoTestFork b) (OutFork out) = Some (go_TestFork b out)"
| "go_calls s (GoMonitor b) (OutFork out) = Some (go_Monitor b out)"
| "go_calls s (GoConnect a) (OutConnect out) = Some (go_Connect a out)"
| "go_calls s (GoHeartbeat ws) (OutHeartbeat failed timeout idle) = Some (go_Heartbeat failed timeout idle)"
| "go_calls s GoNormalize (OutNormalize rounds) = Some (go_Normalize s 5 rounds)"
| "go_calls s (GoProvide ws i) OutProvide = Some []"
| "go_calls s g out = None"

record sup_sys =
  sys_sup :: Supervisor
  sys_queue :: "sup_call list"
  sys_go :: "sup_go list"

datatype sup_act = ActRun ext | ActGo nat go_outcome | ActEmit nat | ActCall sup_call | ActExpire string "string list" "string list"

text \<open>What the outside may call. The entry of a worker in the map is made by the supervisor only: calls of \<open>SetWorker\<close> with the
  information of a worker, which \<open>Workers\<close> hands out, are left out (those without one, which delete the entry, are not).\<close>

definition outside_call :: "sup_call \<Rightarrow> bool" where
  "outside_call c = (case c of SupAdd state a \<Rightarrow> state \<noteq> ''SetWorker'' \<or> nd_WorkerInfo a = None | _ \<Rightarrow> True)"

definition expire_errs :: "string \<Rightarrow> string list \<Rightarrow> string list \<Rightarrow> Supervisor \<Rightarrow> Supervisor" where
  "expire_errs addr old recent s =
     (case gget (su_workers s) addr of
        None \<Rightarrow> s
      | Some w \<Rightarrow> s\<lparr>su_workers := gput addr (w\<lparr>wi_errs := filter (\<lambda>e. e \<notin> set old) (wi_errs w),
          wi_errsRecent := filter (\<lambda>e. e \<notin> set recent) (wi_errsRecent w)\<rparr>) (su_workers s)\<rparr>)"

text \<open>One step of a run: the next call is handled, a goroutine does its work or makes one of its calls, the outside calls, errors
  expire. A handler that panics leaves the supervisor as it was: the calls it has queued before the panic (the removal of its own
  state) are not followed, they do not concern the map of workers.\<close>

fun sup_step :: "sup_act \<Rightarrow> sup_sys \<Rightarrow> sup_sys option" where
  "sup_step (ActRun x) sys =
     (case sys_queue sys of
        [] \<Rightarrow> None
      | c # q \<Rightarrow>
          Some (case sup_handle x c (sys_sup sys) of
                  None \<Rightarrow> sys\<lparr>sys_queue := q\<rparr>
                | Some (Inl fault) \<Rightarrow> sys\<lparr>sys_queue := q\<rparr>
                | Some (Inr (calls, gos, s)) \<Rightarrow> \<lparr>sys_sup = s, sys_queue = q @ calls, sys_go = sys_go sys @ gos\<rparr>))"
| "sup_step (ActGo i out) sys =
     (if i < length (sys_go sys)
      then map_option (\<lambda>calls. sys\<lparr>sys_go := (sys_go sys)[i := GoCalls calls]\<rparr>) (go_calls (sys_sup sys) (sys_go sys ! i) out)
      else None)"
| "sup_step (ActEmit i) sys =
     (if i < length (sys_go sys)
      then case sys_go sys ! i of
             GoCalls (c # cs) \<Rightarrow> Some (sys\<lparr>sys_queue := sys_queue sys @ [c], sys_go := (sys_go sys)[i := GoCalls cs]\<rparr>)
           | _ \<Rightarrow> None
      else None)"
| "sup_step (ActCall c) sys = (if outside_call c then Some (sys\<lparr>sys_queue := sys_queue sys @ [c]\<rparr>) else None)"
| "sup_step (ActExpire addr old recent) sys = Some (sys\<lparr>sys_sup := expire_errs addr old recent (sys_sup sys)\<rparr>)"

definition sup_init :: "Supervisor \<Rightarrow> sup_sys" where
  "sup_init s = \<lparr>sys_sup = s, sys_queue = [], sys_go = []\<rparr>"

inductive sup_reach :: "Supervisor \<Rightarrow> sup_sys \<Rightarrow> bool" for s where
  init: "su_workers s = [] \<Longrightarrow> sup_reach s (sup_init s)"
| step: "sup_reach s sys \<Longrightarrow> sup_step act sys = Some sys' \<Longrightarrow> sup_reach s sys'"

end
