(* ===== verification/Am_Node_Peers.thy ===== *)
theory Am_Node_Peers
  imports Am_Node Am_Helpers
begin

text \<open>
  The machines around a supervisor: the bootstrap machine through which a new worker announces itself
  (\<open>src/pkg/node/supervisor_misc.go\<close>), the worker (\<open>node_worker.go\<close>) and the client (\<open>node_client.go\<close>). RPC servers and clients
  are known by their addresses; what they answer is an input.
\<close>

section \<open>The bootstrap machine\<close>

text \<open>\<open>bo_server\<close> is the address of its RPC server.\<close>

record bootstrap =
  bo_Id :: string
  bo_server :: "string option"

definition newBootstrap :: "string \<Rightarrow> bootstrap" where
  "newBootstrap name = \<lparr>bo_Id = ''nb-'' @ name, bo_server = None\<rparr>"

definition boot_Addr :: "bootstrap \<Rightarrow> string" where
  "boot_Addr b = (case bo_server b of None \<Rightarrow> [] | Some addr \<Rightarrow> addr)"

datatype boot_call = BoErrNetwork string | BoErr string | BoRemoveStart | BoStopServer | BoDispose

text \<open>The server or the error of its creation, the error of the binding.\<close>

definition boot_StartState :: "string + string \<Rightarrow> string option \<Rightarrow> bootstrap \<Rightarrow> boot_call list \<times> bootstrap" where
  "boot_StartState srv bindErr b =
     (case srv of
        Inl err \<Rightarrow> ([BoErrNetwork err], b)
      | Inr addr \<Rightarrow> (case bindErr of Some err \<Rightarrow> [BoErr err] | None \<Rightarrow> [], b\<lparr>bo_server := Some addr\<rparr>))"

text \<open>The goroutine of the timeout: the calls on the machine of the supervisor.\<close>

definition go_boot_timeout :: "bool \<Rightarrow> bool \<Rightarrow> bootstrap \<Rightarrow> sup_call list" where
  "go_boot_timeout disposed gotAddr b =
     (if \<not> disposed \<and> \<not> gotAddr
      then [SupErrWorker ''worker bootstrap: timeout'' (NodeArgs_zero\<lparr>nd_Bootstrap := Some (boot_Addr b), nd_Id := bo_Id b\<rparr>)] else [])"

definition boot_StartEnd :: "bootstrap \<Rightarrow> boot_call list" where
  "boot_StartEnd b = (case bo_server b of None \<Rightarrow> [] | Some addr \<Rightarrow> [BoStopServer]) @ [BoDispose]"

definition WorkerAddrEnter :: "NodeArgs \<Rightarrow> bool" where
  "WorkerAddrEnter a = (nd_LocalAddr a \<noteq> [] \<and> nd_PublicAddr a \<noteq> [] \<and> nd_Id a \<noteq> [])"

text \<open>The call on the machine of the supervisor; a second later the machine stops itself, as in \<open>boot_Dispose\<close>.\<close>

definition WorkerAddrState :: "NodeArgs \<Rightarrow> bootstrap \<Rightarrow> sup_call list" where
  "WorkerAddrState a b =
     [SupAdd ''WorkerConnected'' (NodeArgs_zero\<lparr>nd_Id := nd_Id a, nd_PublicAddr := nd_PublicAddr a, nd_LocalAddr := nd_LocalAddr a,
        nd_BootAddr := boot_Addr b\<rparr>)]"

definition boot_Dispose :: "boot_call list" where "boot_Dispose = [BoRemoveStart]"

section \<open>The worker\<close>

text \<open>The RPC servers by the addresses they listen on, empty until they do. \<open>nw_allowed\<close> are the \<open>AllowedMachIds\<close> of the public one.\<close>

record Worker =
  nw_Id :: string
  nw_AcceptClient :: string
  nw_BootAddr :: string
  nw_LocalAddr :: string
  nw_PublicAddr :: string
  nw_LocalRpc :: "string option"
  nw_PublicRpc :: "string option"
  nw_BootRpc :: bool
  nw_allowed :: "string list option"

datatype worker_error = ErrKind | ErrStateNames | ErrWorkerStruct | ErrWorkerImpl string

definition NewWorker :: "string \<Rightarrow> string \<Rightarrow> Schema option \<Rightarrow> S option \<Rightarrow> worker_error + Worker" where
  "NewWorker kind name workerStruct stateNames =
     (if kind = [] then Inl ErrKind
      else case stateNames of None \<Rightarrow> Inl ErrStateNames
      | Some names \<Rightarrow>
          (case workerStruct of None \<Rightarrow> Inl ErrWorkerStruct
           | Some sch \<Rightarrow>
               (case Implements names (Names WorkerStatesDef) of
                  Some state \<Rightarrow> Inl (ErrWorkerImpl state)
                | None \<Rightarrow> Inr \<lparr>nw_Id = ''nw-'' @ name, nw_AcceptClient = [], nw_BootAddr = [], nw_LocalAddr = [], nw_PublicAddr = [],
                    nw_LocalRpc = None, nw_PublicRpc = None, nw_BootRpc = False, nw_allowed = None\<rparr>)))"

datatype worker_call =
    NwAdd string
  | NwRemove string
  | NwErr string
  | NwErrRpc string
  | NwBootAdd string NodeArgs
  | NwBootStart
  | NwBootStop
  | NwStopLocal
  | NwStopPublic
  | NwDispose

definition worker_StartEnter :: "NodeArgs \<Rightarrow> bool" where
  "worker_StartEnter a = (nd_LocalAddr a \<noteq> [])"

text \<open>The errors of the creation and of the bindings of both servers, the results of their starts. A start that is not executed is
  reported with an error that wraps \<open>nil\<close>.\<close>

record worker_ext =
  wx_local :: "string option"
  wx_localBind :: "string option"
  wx_public :: "string option"
  wx_publicBind :: "string option"
  wx_localStart :: Result
  wx_publicStart :: Result

definition nil_err :: string where "nil_err = ''%!w(<nil>)''"

definition worker_servers :: "worker_ext \<Rightarrow> worker_call list" where
  "worker_servers x =
     (if wx_localStart x \<noteq> Executed then [NwErrRpc nil_err] else if wx_publicStart x \<noteq> Executed then [NwErrRpc nil_err] else [])"

definition worker_StartState :: "worker_ext \<Rightarrow> NodeArgs \<Rightarrow> Worker \<Rightarrow> worker_call list \<times> Worker" where
  "worker_StartState x a w =
     (let w1 = w\<lparr>nw_BootAddr := nd_LocalAddr a\<rparr> in
      case wx_local x of Some err \<Rightarrow> ([NwErrRpc err], w1)
      | None \<Rightarrow>
          (let w2 = w1\<lparr>nw_LocalRpc := Some []\<rparr> in
           case wx_localBind x of Some err \<Rightarrow> ([NwErr err], w2)
           | None \<Rightarrow>
               (case wx_public x of Some err \<Rightarrow> ([NwErrRpc err], w2)
                | None \<Rightarrow>
                    (let w3 = w2\<lparr>nw_PublicRpc := Some []\<rparr> in
                     case wx_publicBind x of Some err \<Rightarrow> ([NwErr err], w3) | None \<Rightarrow> (worker_servers x, w3)))))"

definition worker_StartEnd :: "bool \<Rightarrow> Worker \<Rightarrow> worker_call list" where
  "worker_StartEnd dispose w =
     (if nw_PublicRpc w \<noteq> None then [NwStopPublic] else []) @ (if nw_LocalRpc w \<noteq> None then [NwStopLocal] else [])
     @ (if nw_BootRpc w then [NwBootStop] else []) @ (if dispose then [NwDispose] else [])"

text \<open>A server that listens has its address; the state for it is added then.\<close>

definition LocalRpcReadyState :: "Worker \<Rightarrow> Worker res" where
  "LocalRpcReadyState w =
     (case nw_LocalRpc w of None \<Rightarrow> Inl (GoPanic ''nil pointer dereference'') | Some addr \<Rightarrow> Inr (w\<lparr>nw_LocalAddr := addr\<rparr>))"

definition PublicRpcReadyState :: "Worker \<Rightarrow> Worker res" where
  "PublicRpcReadyState w =
     (case nw_PublicRpc w of None \<Rightarrow> Inl (GoPanic ''nil pointer dereference'') | Some addr \<Rightarrow> Inr (w\<lparr>nw_PublicAddr := addr\<rparr>))"

text \<open>The errors of the creation and of the binding of the client of the bootstrap machine; then its goroutine.\<close>

definition RpcReadyState :: "string option \<Rightarrow> string option \<Rightarrow> Worker \<Rightarrow> worker_call list \<times> Worker" where
  "RpcReadyState created bound w =
     (case created of
        Some err \<Rightarrow> ([NwAdd ''Ready'', NwErrRpc err], w)
      | None \<Rightarrow>
          ([NwAdd ''Ready''] @ (case bound of Some err \<Rightarrow> [NwErrRpc err] | None \<Rightarrow> [NwBootStart]), w\<lparr>nw_BootRpc := True\<rparr>))"

definition go_RpcReady :: "fork_outcome \<Rightarrow> Worker \<Rightarrow> worker_call list" where
  "go_RpcReady out w =
     (case out of
        ForkExpired \<Rightarrow> []
      | ForkErr err \<Rightarrow> [NwErrRpc err]
      | ForkOk \<Rightarrow> [NwBootAdd ''WorkerAddr'' (NodeArgs_zero\<lparr>nd_LocalAddr := nw_LocalAddr w, nd_PublicAddr := nw_PublicAddr w,
          nd_Id := nw_Id w\<rparr>), NwBootStop])"

definition worker_HealthcheckState :: "worker_call list" where "worker_HealthcheckState = [NwRemove ''Healthcheck'']"

definition ServeClientEnter :: "NodeArgs \<Rightarrow> bool" where
  "ServeClientEnter a = (nd_Id a \<noteq> [])"

definition ServeClientState :: "NodeArgs \<Rightarrow> Worker \<Rightarrow> (worker_call list \<times> Worker) res" where
  "ServeClientState a w =
     (if nw_PublicRpc w = None then Inl (GoPanic ''nil pointer dereference'')
      else Inr ([NwRemove ''ServeClient''], w\<lparr>nw_AcceptClient := nd_Id a, nw_allowed := Some [nd_Id a]\<rparr>))"

definition worker_Start :: "string \<Rightarrow> NodeArgs" where
  "worker_Start bootAddr = NodeArgs_zero\<lparr>nd_LocalAddr := bootAddr\<rparr>"

section \<open>The client\<close>

definition node_ClientStatesDef :: "field list" where
  "node_ClientStatesDef = [StatesBase, FState ''Exception'', FState ''ErrWorker'', FState ''ErrSupervisor'', FState ''WorkerDisconnected'',
     FState ''WorkerConnecting'', FState ''WorkerConnected'', FState ''WorkerDisconnecting'', FState ''WorkerReady'',
     FState ''Ready'', FState ''SuperDisconnected'', FState ''SuperConnecting'', FState ''SuperConnected'',
     FState ''SuperDisconnecting'', FState ''SuperReady'', FState ''WorkerRequested'',
     FEmbed ''BasicStatesDef'' BasicStatesDef, FEmbed ''ConsumerStatesDef'' ConsumerStatesDef]"

definition node_ClientSchema :: Schema where
  "node_ClientSchema = Schema_Merge BasicSchema [ConsumerSchema,
     [(''ErrWorker'', state_of False False [''Exception''] [] []),
      (''ErrSupervisor'', state_of False False [''Exception''] [] []),
      (''SuperDisconnected'', State_zero), (''SuperConnecting'', State_zero), (''SuperConnected'', State_zero),
      (''SuperDisconnecting'', State_zero), (''SuperReady'', State_zero),
      (''WorkerDisconnected'', State_zero), (''WorkerConnecting'', State_zero), (''WorkerConnected'', State_zero),
      (''WorkerDisconnecting'', State_zero), (''WorkerReady'', state_of False False [] [] [''WorkerRequested'']),
      (''WorkerRequested'', state_of False False [''SuperReady''] [] []),
      (''Ready'', state_of True False [''WorkerReady''] [] [])]]"

text \<open>\<open>cn_RpcSuper\<close> is the address of the client of the supervisor and its network machine, \<open>cn_RpcWorker\<close> that of a worker.\<close>

record NodeClient =
  cn_Name :: string
  cn_nodeList :: "string list"
  cn_RpcSuper :: "(string \<times> NetworkMachine option) option"
  cn_RpcWorker :: "string option"

datatype client_error = ErrClientId | ErrClientWorkerSchema | ErrClientKind | ErrClientImpl string

definition NewNodeClient :: "string \<Rightarrow> string \<Rightarrow> Schema option \<Rightarrow> string \<Rightarrow> client_error + NodeClient" where
  "NewNodeClient clientId workerKind workerSchema time =
     (if clientId = [] then Inl ErrClientId
      else case workerSchema of
        None \<Rightarrow> Inl ErrClientWorkerSchema
      | Some sch \<Rightarrow>
          if workerKind = [] then Inl ErrClientKind
          else (case SchemaImplements sch (Names WorkerStatesDef) of
                  Some state \<Rightarrow> Inl (ErrClientImpl state)
                | None \<Rightarrow> Inr \<lparr>cn_Name = workerKind @ ''-'' @ clientId @ ''-'' @ time, cn_nodeList = [], cn_RpcSuper = None, cn_RpcWorker = None\<rparr>))"

definition GetWorkerClientId :: "string \<Rightarrow> string" where "GetWorkerClientId name = ''nc-worker-'' @ name"
definition GetSuperClientId :: "string \<Rightarrow> string" where "GetSuperClientId name = ''nc-super-'' @ name"
definition GetClientId :: "string \<Rightarrow> string" where "GetClientId name = ''rc-'' @ name"

datatype node_client_call =
    CnRemove string
  | CnErr string
  | CnErrRpc string
  | CnErrSupervisor string
  | CnStart string
  | CnRestart
  | CnSuperAdd string NodeArgs
  | CnStopSuper
  | CnStopWorker
  | CnConnectWorker string

definition client_StartEnter :: "string list \<Rightarrow> bool" where
  "client_StartEnter nodesList = (length nodesList > 0)"

text \<open>The errors of the creation of the client of the supervisor and of its bindings.\<close>

definition node_client_StartState :: "string option \<Rightarrow> string option \<Rightarrow> string list \<Rightarrow> NodeClient \<Rightarrow> (node_client_call list \<times> NodeClient) res" where
  "node_client_StartState created bound nodesList c =
     (case nodesList of
        [] \<Rightarrow> Inl (GoPanic ''index out of range'')
      | addr # rest \<Rightarrow>
          (let c1 = c\<lparr>cn_nodeList := nodesList\<rparr> in
           Inr (case created of
                  Some err \<Rightarrow> ([CnErrRpc (''failed to connect to the Supervisor: '' @ err)], c1)
                | None \<Rightarrow> (case bound of Some err \<Rightarrow> [CnErr err] | None \<Rightarrow> [], c1\<lparr>cn_RpcSuper := Some (addr, None)\<rparr>))))"

text \<open>The goroutine that tries the nodes. For each node: the context has expired before the try (\<open>TryGone\<close>) or expires in it, the client of the supervisor
  has stopped, the wait fails, or the supervisor is ready. There is no \<open>break\<close> for the last case.\<close>

datatype node_try = TryGone | TryExpired | TryStopped | TryFailed string | TryReady

definition super_addr :: "string \<Rightarrow> NodeClient \<Rightarrow> NodeClient" where
  "super_addr addr c = c\<lparr>cn_RpcSuper := map_option (\<lambda>(a, w). (addr, w)) (cn_RpcSuper c)\<rparr>"

fun go_nodes :: "(string \<times> node_try) list \<Rightarrow> NodeClient \<Rightarrow> node_client_call list \<times> NodeClient" where
  "go_nodes [] c = ([], c)"
| "go_nodes ((addr, out) # nodes) c =
     (let c1 = super_addr addr c; pre = [CnRemove ''Exception'', CnStart addr] in
      case out of
        TryGone \<Rightarrow> ([], c)
      | TryExpired \<Rightarrow> (pre, c1)
      | TryFailed err \<Rightarrow> (pre @ [CnErrRpc err], c1)
      | TryStopped \<Rightarrow> (case go_nodes nodes c1 of (calls, c2) \<Rightarrow> (pre @ [CnRestart, CnRemove ''Exception''] @ calls, c2))
      | TryReady \<Rightarrow> (case go_nodes nodes c1 of (calls, c2) \<Rightarrow> (pre @ calls, c2)))"

definition node_client_StartEnd :: "NodeClient \<Rightarrow> node_client_call list" where
  "node_client_StartEnd c =
     (if cn_RpcSuper c \<noteq> None then [CnStopSuper] else []) @ (if cn_RpcWorker c \<noteq> None then [CnStopWorker] else [])"

definition WorkerRequestedEnter :: "NodeClient \<Rightarrow> bool res" where
  "WorkerRequestedEnter c =
     (case cn_RpcSuper c of
        Some (addr, Some w) \<Rightarrow> nm_Is1 w ''WorkersAvailable''
      | _ \<Rightarrow> Inl (GoPanic ''nil pointer dereference''))"

definition WorkerRequestedState :: "NodeClient \<Rightarrow> node_client_call list" where
  "WorkerRequestedState c =
     [CnSuperAdd ''ProvideWorker'' (NodeArgs_zero\<lparr>nd_SuperRpcId := GetClientId (GetSuperClientId (cn_Name c)),
        nd_WorkerRpcId := GetClientId (GetWorkerClientId (cn_Name c))\<rparr>)]"

text \<open>A payload has a name and data, which can be other than a string.\<close>

definition node_ServerPayloadEnter :: "string \<Rightarrow> bool \<Rightarrow> bool" where
  "node_ServerPayloadEnter name payload = (name \<noteq> [] \<and> payload)"

definition node_ServerPayloadState :: "bool \<Rightarrow> string \<Rightarrow> string option \<Rightarrow> node_client_call list" where
  "node_ServerPayloadState requested name payload =
     CnRemove ''ServerPayload''
     # (if name \<noteq> ''ProvideWorker'' \<or> \<not> requested then []
        else case payload of
          None \<Rightarrow> [CnErrSupervisor ''invalid worker address'']
        | Some addr \<Rightarrow> if addr = [] then [CnErrSupervisor ''invalid worker address''] else [CnConnectWorker addr])"

text \<open>The goroutine that connects to the worker: the errors of the creation and of the bindings, the error of the wait.\<close>

definition go_ConnectWorker :: "string option \<Rightarrow> string option \<Rightarrow> string option \<Rightarrow> string \<Rightarrow> NodeClient \<Rightarrow> node_client_call list \<times> NodeClient" where
  "go_ConnectWorker created bound waited addr c =
     (case created of
        Some err \<Rightarrow> ([CnErrRpc (''failed to connect to the NetworkMachine: '' @ err)], c\<lparr>cn_RpcWorker := None\<rparr>)
      | None \<Rightarrow>
          (case bound of Some err \<Rightarrow> [CnErr err]
           | None \<Rightarrow> (case waited of Some err \<Rightarrow> [CnRemove ''WorkerRequested''] | None \<Rightarrow> []), c\<lparr>cn_RpcWorker := Some addr\<rparr>))"

definition client_Stop :: "NodeClient \<Rightarrow> node_client_call list" where
  "client_Stop c = node_client_StartEnd c @ [CnRemove ''Start'']"

definition client_Dispose :: "NodeClient \<Rightarrow> node_client_call list \<times> NodeClient" where
  "client_Dispose c = (client_Stop c, c\<lparr>cn_RpcSuper := None, cn_RpcWorker := None\<rparr>)"

text \<open>\<open>ReqWorker\<close>: the error of the request, the error of the wait for \<open>WorkerReady\<close>.\<close>

definition ReqWorker :: "string option \<Rightarrow> string option \<Rightarrow> string option" where
  "ReqWorker req waited = (case req of Some err \<Rightarrow> Some err | None \<Rightarrow> waited)"

end
