(* ===== verification/Am_Node_Facts.thy ===== *)
theory Am_Node_Facts
  imports Am_Node Am_Data
begin

text \<open>
  Facts about the supervisor, over all runs of its handlers and goroutines: the map of workers stays well-formed, no worker
  can be killed, the pool can grow above its maximum.
\<close>

section \<open>The map of workers\<close>

text \<open>Every worker has an address; a connected one is filed under its own. No entry has a process.\<close>

definition worker_ok :: "string \<Rightarrow> workerInfo \<Rightarrow> bool" where
  "worker_ok addr w = (addr \<noteq> [] \<and> (wi_rpc w = None \<or> wi_localAddr w = addr) \<and> wi_proc w = None)"

definition workers_ok :: "Supervisor \<Rightarrow> bool" where
  "workers_ok s = (gmap_wf (su_workers s) \<and> (\<forall>addr w. gget (su_workers s) addr = Some w \<longrightarrow> worker_ok addr w))"

definition call_ok :: "sup_call \<Rightarrow> bool" where
  "call_ok c = (case c of
     SupAdd state a \<Rightarrow> state = ''SetWorker'' \<longrightarrow> nd_WorkerInfo a = None \<or> nd_WorkerInfo a = Some (newWorkerInfo None) | _ \<Rightarrow> True)"

definition go_ok :: "sup_go \<Rightarrow> bool" where
  "go_ok g = (case g of GoCalls calls \<Rightarrow> list_all call_ok calls | _ \<Rightarrow> True)"

definition out_ok :: "Supervisor \<Rightarrow> sup_out \<Rightarrow> bool" where
  "out_ok s x = (case x of (calls, gos, s') \<Rightarrow> workers_ok s' \<and> list_all call_ok calls \<and> list_all go_ok gos \<and> su_TestKill s' = su_TestKill s)"

lemma gget_gdel_some: "gget (gdel k m) k' = Some v \<Longrightarrow> gget m k' = Some v"
  by (simp split: if_splits)

lemma workers_ok_put: "workers_ok s \<Longrightarrow> worker_ok addr w \<Longrightarrow> workers_ok (s\<lparr>su_workers := gput addr w (su_workers s)\<rparr>)"
  by (simp add: workers_ok_def)

lemma workers_ok_del: "workers_ok s \<Longrightarrow> workers_ok (s\<lparr>su_workers := gdel addr (su_workers s)\<rparr>)"
  by (simp add: workers_ok_def)

lemma workers_ok_get: "workers_ok s \<Longrightarrow> gget (su_workers s) addr = Some w \<Longrightarrow> worker_ok addr w"
  by (simp add: workers_ok_def)

lemma worker_ok_errs: "worker_ok addr (w\<lparr>wi_errs := es, wi_errsRecent := rs\<rparr>) = worker_ok addr w"
  by (simp add: worker_ok_def)

lemmas workers_simps = out_ok_def call_ok_def go_ok_def list_all_iff

lemma ErrWorkerState_ok: "workers_ok s \<Longrightarrow> out_ok s (ErrWorkerState willBe isKill err a s)"
  using workers_ok_put [of s "nd_LocalAddr a"] workers_ok_get [of s "nd_LocalAddr a"]
  by (auto simp: ErrWorkerState_def workers_simps note_err_def Let_def worker_ok_errs split: option.splits)

lemma ForkWorkerState_ok: "workers_ok s \<Longrightarrow> out_ok s (ForkWorkerState boot started s)"
  by (auto simp: ForkWorkerState_def workers_simps split: sum.splits)

lemma ForkingWorkerState_ok: "workers_ok s \<Longrightarrow> ForkingWorkerState forked a s = Inr x \<Longrightarrow> out_ok s x"
  by (auto simp: ForkingWorkerState_def workers_simps Let_def split: option.splits if_splits)

lemma WorkerForkedState_ok:
  assumes "workers_ok s" "WorkerForkedEnter a"
  shows "out_ok s (WorkerForkedState machId bindErr a s)"
proof (cases "gget (su_workers s) (nd_BootAddr a)")
  case (Some info)
  let ?info = "info\<lparr>wi_rpc := nd_WorkerRpc a, wi_publicAddr := nd_PublicAddr a, wi_localAddr := nd_LocalAddr a\<rparr>"
  have "worker_ok (nd_LocalAddr a) ?info"
    using assms(2) workers_ok_get [OF assms(1) Some] by (simp add: worker_ok_def WorkerForkedEnter_def)
  then have "workers_ok (s\<lparr>su_workers := gput (nd_LocalAddr a) ?info (gdel (nd_BootAddr a) (su_workers s))\<rparr>)"
    using workers_ok_put [OF workers_ok_del [OF assms(1)], of "nd_LocalAddr a" ?info "nd_BootAddr a"] by simp
  then show ?thesis using Some by (auto simp: WorkerForkedState_def workers_simps Let_def split: option.splits)
qed (use assms in \<open>simp add: WorkerForkedState_def workers_simps Let_def\<close>)

lemma KillingWorkerState_ok: "workers_ok s \<Longrightarrow> KillingWorkerState killed a s = Inr x \<Longrightarrow> out_ok s x"
  by (auto simp: KillingWorkerState_def workers_simps Let_def split: option.splits if_splits)

lemma SetWorkerState_ok:
  assumes "workers_ok s" "SetWorkerEnter a" "call_ok (SupAdd ''SetWorker'' a)"
  shows "out_ok s (SetWorkerState a s)"
proof -
  have "worker_ok (nd_WorkerAddr a) (newWorkerInfo None)" using assms(2) by (simp add: worker_ok_def SetWorkerEnter_def newWorkerInfo_def)
  then show ?thesis
    using assms(3) workers_ok_put [OF assms(1)] workers_ok_del [OF assms(1)]
    by (auto simp: SetWorkerState_def workers_simps split: option.splits)
qed

lemma WorkerKilledState_ok: "workers_ok s \<Longrightarrow> out_ok s (WorkerKilledState a s)"
  using workers_ok_del by (simp add: WorkerKilledState_def workers_simps)

lemma quiet_ok:
  "workers_ok s \<Longrightarrow> out_ok s ([], [], s)" "workers_ok s \<Longrightarrow> out_ok s (NormalizingPoolState s)" "workers_ok s \<Longrightarrow> out_ok s (WorkerConnectedState a s)"
  "workers_ok s \<Longrightarrow> ProvideWorkerState a s = Inr x \<Longrightarrow> out_ok s x" "workers_ok s \<Longrightarrow> HeartbeatState s = Inr x \<Longrightarrow> out_ok s x"
  by (auto simp: WorkerConnectedState_def NormalizingPoolState_def ProvideWorkerState_def HeartbeatState_def workers_simps bindR_eq_Inr split: if_splits)

lemma handle_ok:
  assumes "workers_ok s" "call_ok c" "sup_handle x c s = Some (Inr out)"
  shows "out_ok s out"
proof (cases c)
  case (SupAdd state a)
  then have "handle_add x state a s = Some (Inr out)" using assms(3) by (simp add: sup_handle_def)
  then show ?thesis
    using assms(1,2) SupAdd ForkWorkerState_ok ForkingWorkerState_ok WorkerForkedState_ok KillingWorkerState_ok SetWorkerState_ok
      WorkerKilledState_ok quiet_ok
    unfolding handle_add_def guarded_def by (auto split: if_splits)
qed (use assms ErrWorkerState_ok quiet_ok(1) in \<open>auto simp: sup_handle_def\<close>)

lemma go_Normalize_ok: "c \<in> set (go_Normalize s n rounds) \<Longrightarrow> call_ok c"
  by (induction s n rounds rule: go_Normalize.induct) (auto simp: call_ok_def split: option.splits if_splits)

lemma go_calls_ok: "go_calls s g out = Some calls \<Longrightarrow> list_all call_ok calls"
  using go_Normalize_ok
  by (cases "(s, g, out)" rule: go_calls.cases)
     (auto simp: list_all_iff go_ForkWorker_def go_TestFork_def go_Monitor_def go_Connect_def go_Heartbeat_def call_ok_def
       split: fork_outcome.splits sum.splits option.splits if_splits)

lemma expire_ok: "workers_ok s \<Longrightarrow> workers_ok (expire_errs addr old recent s) \<and> su_TestKill (expire_errs addr old recent s) = su_TestKill s"
  using workers_ok_put [of s addr] workers_ok_get [of s addr] by (auto simp: expire_errs_def worker_ok_errs split: option.splits)

definition sys_ok :: "Supervisor \<Rightarrow> sup_sys \<Rightarrow> bool" where
  "sys_ok s sys = (workers_ok (sys_sup sys) \<and> list_all call_ok (sys_queue sys) \<and> list_all go_ok (sys_go sys) \<and> su_TestKill (sys_sup sys) = su_TestKill s)"

lemma sup_step_ok:
  assumes "sys_ok s sys" "sup_step act sys = Some sys'"
  shows "sys_ok s sys'"
proof (cases act)
  case (ActRun x)
  then obtain c q where q: "sys_queue sys = c # q" using assms(2) by (auto split: list.splits)
  show ?thesis
  proof (cases "sup_handle x c (sys_sup sys)")
    case (Some r)
    then show ?thesis
      using assms ActRun q handle_ok [of "sys_sup sys" c x] by (cases r) (auto simp: sys_ok_def out_ok_def)
  qed (use assms ActRun q in \<open>auto simp: sys_ok_def\<close>)
next
  case (ActGo i out)
  then obtain calls where c: "i < length (sys_go sys)" "go_calls (sys_sup sys) (sys_go sys ! i) out = Some calls"
    "sys' = sys\<lparr>sys_go := (sys_go sys)[i := GoCalls calls]\<rparr>" using assms(2) by (auto split: if_splits)
  moreover have "go_ok (GoCalls calls)" using go_calls_ok [OF c(2)] by (simp add: go_ok_def)
  ultimately show ?thesis using assms(1) set_update_subset_insert [of "sys_go sys" i] by (fastforce simp: sys_ok_def list_all_iff)
next
  case (ActEmit i)
  then obtain c cs where c: "i < length (sys_go sys)" "sys_go sys ! i = GoCalls (c # cs)"
    "sys' = sys\<lparr>sys_queue := sys_queue sys @ [c], sys_go := (sys_go sys)[i := GoCalls cs]\<rparr>"
    using assms(2) by (auto split: if_splits sup_go.splits list.splits)
  moreover have "go_ok (GoCalls (c # cs))" using assms(1) c(1,2) by (metis sys_ok_def list_all_length)
  ultimately show ?thesis
    using assms(1) set_update_subset_insert [of "sys_go sys" i "GoCalls cs"] by (fastforce simp: sys_ok_def go_ok_def list_all_iff)
next
  case (ActCall c)
  then show ?thesis using assms
    by (auto simp: sys_ok_def outside_call_def call_ok_def split: if_splits sup_call.splits)
next
  case (ActExpire addr old recent)
  then show ?thesis using assms expire_ok by (auto simp: sys_ok_def)
qed

lemma reach_ok: "sup_reach s sys \<Longrightarrow> sys_ok s sys"
proof (induction rule: sup_reach.induct)
  case init
  then show ?case by (simp add: sys_ok_def sup_init_def workers_ok_def gget_def)
qed (rule sup_step_ok)

text \<open>C32. Over every run of the supervisor, whatever the outside does and however its goroutines interleave: no two workers
  share an address, none has an empty one, a connected worker is filed under its local address, and no entry has the process of
  its worker.\<close>

theorem workers_filed:
  assumes "sup_reach s sys"
  shows "distinct (gkeys (su_workers (sys_sup sys)))
    \<and> (\<forall>addr w. gget (su_workers (sys_sup sys)) addr = Some w \<longrightarrow>
         addr \<noteq> [] \<and> (wi_rpc w = None \<or> wi_localAddr w = addr) \<and> wi_proc w = None)"
  using reach_ok [OF assms] by (auto simp: sys_ok_def workers_ok_def worker_ok_def gmap_wf_def)

text \<open>C34. No worker can be killed. The process is taken from the command before it is started, so in every run the handler of
  \<open>KillingWorker\<close> panics for every worker there is, and \<open>WorkerKilled\<close>, which takes a worker off the map, is not added.\<close>

theorem kill_panics:
  assumes "sup_reach s sys" "\<not> su_TestKill s" "gget (su_workers (sys_sup sys)) (nd_LocalAddr a) = Some w"
  shows "KillingWorkerState killed a (sys_sup sys) = Inl (GoPanic ''nil pointer dereference'')"
proof -
  have "sys_ok s sys" by (rule reach_ok [OF assms(1)])
  then have "wi_proc w = None" "\<not> su_TestKill (sys_sup sys)"
    using assms(2,3) by (auto simp: sys_ok_def workers_ok_def worker_ok_def)
  with assms(3) show ?thesis by (simp add: KillingWorkerState_def Let_def)
qed

section \<open>Runs\<close>

text \<open>A run given by its actions.\<close>

fun sup_play :: "sup_act list \<Rightarrow> sup_sys \<Rightarrow> sup_sys option" where
  "sup_play [] sys = Some sys"
| "sup_play (a # acts) sys = (case sup_step a sys of None \<Rightarrow> None | Some sys' \<Rightarrow> sup_play acts sys')"

lemma sup_play_reach: "sup_reach s sys \<Longrightarrow> sup_play acts sys = Some sys' \<Longrightarrow> sup_reach s sys'"
  by (induction acts arbitrary: sys) (auto split: option.splits intro: sup_reach.step)

definition no_ext :: ext where
  "no_ext = \<lparr>xt_boot = Inl [], xt_started = True, xt_forked = None, xt_killed = None, xt_machId = [], xt_bindErr = None,
     xt_willBe = False, xt_isKill = False\<rparr>"

definition ns_sup :: Supervisor where
  "ns_sup = \<lparr>su_WorkerBin = [''worker''], su_Max = 1, su_Min = 1, su_Warm = 0, su_MaxClientWorkers = 1, su_WorkerErrKill = 3,
     su_PublicRpcs = [], su_LocalAddr = [], su_PublicAddr = [], su_workers = [], su_TestFork = False, su_TestKill = False\<rparr>"

text \<open>Two forks are asked for; both bootstraps get ready, so that both \<open>ForkingWorker\<close> are queued before the \<open>SetWorker\<close> of the
  first. Then the first worker connects.\<close>

definition ns_forks :: "sup_act list" where
  "ns_forks =
     [ActCall (SupAdd ''ForkWorker'' NodeArgs_zero), ActCall (SupAdd ''ForkWorker'' NodeArgs_zero),
      ActRun (no_ext\<lparr>xt_boot := Inr ''boot:1''\<rparr>), ActRun (no_ext\<lparr>xt_boot := Inr ''boot:2''\<rparr>), ActRun no_ext, ActRun no_ext,
      ActGo 0 (OutFork ForkOk), ActGo 1 (OutFork ForkOk), ActEmit 0, ActEmit 1]
     @ replicate 6 (ActRun no_ext)"

definition ns_connect :: "sup_act list" where
  "ns_connect =
     [ActCall (SupAdd ''WorkerConnected'' (NodeArgs_zero\<lparr>nd_LocalAddr := ''w:1'', nd_BootAddr := ''boot:1'', nd_PublicAddr := ''p:1''\<rparr>)),
      ActRun no_ext, ActRun no_ext, ActRun no_ext, ActGo 4 (OutConnect (Inr None)), ActEmit 4, ActRun no_ext, ActRun no_ext]"

lemma ns_reach: "sup_play acts (sup_init ns_sup) = Some sys \<Longrightarrow> sup_reach ns_sup sys"
  by (rule sup_play_reach [OF sup_reach.init]) (simp_all add: ns_sup_def)

definition sys_test :: "(sup_sys \<Rightarrow> bool) \<Rightarrow> sup_sys option \<Rightarrow> bool" where
  "sys_test P r = (case r of None \<Rightarrow> False | Some sys \<Rightarrow> P sys)"

lemma sys_testE: "sys_test P r \<Longrightarrow> (\<And>sys. r = Some sys \<Longrightarrow> P sys \<Longrightarrow> thesis) \<Longrightarrow> thesis"
  by (simp add: sys_test_def split: option.splits)

lemma ns_connected:
  "sys_test (\<lambda>sys. gkeys (su_workers (sys_sup sys)) = [''boot:2'', ''w:1''] \<and> gget (su_workers (sys_sup sys)) ''w:1'' \<noteq> None)
     (sup_play (ns_forks @ ns_connect) (sup_init ns_sup))"
  by code_simp

theorem workers_filed_witness:
  "\<exists>sys. sup_reach ns_sup sys \<and> gkeys (su_workers (sys_sup sys)) = [''boot:2'', ''w:1'']
     \<and> (\<forall>addr w. gget (su_workers (sys_sup sys)) addr = Some w \<longrightarrow> wi_rpc w = None \<or> wi_localAddr w = addr)"
proof -
  from ns_connected obtain sys where s: "sup_play (ns_forks @ ns_connect) (sup_init ns_sup) = Some sys"
    "gkeys (su_workers (sys_sup sys)) = [''boot:2'', ''w:1'']" by (rule sys_testE) blast
  note r = ns_reach [OF s(1)]
  show ?thesis by (rule exI [of _ sys]) (use workers_filed [OF r] r s(2) in blast)
qed

theorem kill_panics_witness:
  "\<exists>sys. sup_reach ns_sup sys
     \<and> KillingWorkerState None (NodeArgs_zero\<lparr>nd_LocalAddr := ''w:1''\<rparr>) (sys_sup sys) = Inl (GoPanic ''nil pointer dereference'')"
proof -
  from ns_connected obtain sys w where s: "sup_play (ns_forks @ ns_connect) (sup_init ns_sup) = Some sys"
    "gget (su_workers (sys_sup sys)) ''w:1'' = Some w" by (rule sys_testE) blast
  note r = ns_reach [OF s(1)]
  have "\<not> su_TestKill ns_sup" by (simp add: ns_sup_def)
  from kill_panics [OF r this, of "NodeArgs_zero\<lparr>nd_LocalAddr := ''w:1''\<rparr>" w None] s(2) r show ?thesis by auto
qed

text \<open>The guards compare the number of workers on the map with \<open>Max\<close>, but the map grows only when the \<open>SetWorker\<close> queued by the
  handler of \<open>ForkingWorker\<close> is taken: a pool of at most one worker holds two.\<close>

theorem pool_exceeds_max:
  "\<exists>sys. sup_reach ns_sup sys \<and> su_Max (sys_sup sys) = 1 \<and> length (su_workers (sys_sup sys)) = 2"
proof -
  have "sys_test (\<lambda>sys. su_Max (sys_sup sys) = 1 \<and> length (su_workers (sys_sup sys)) = 2) (sup_play ns_forks (sup_init ns_sup))"
    by code_simp
  then show ?thesis by (rule sys_testE) (use ns_reach in blast)
qed

section \<open>The guards of the pool\<close>

text \<open>\<open>PoolReady\<close> can be entered exactly when it cannot be left, so that of the \<open>Add\<close> and the \<open>Remove\<close> of a heartbeat the guards
  let one through.\<close>

lemma PoolReady_guards: "PoolReadyExit s = (case PoolReadyEnter s of Inl e \<Rightarrow> Inl e | Inr b \<Rightarrow> Inr (\<not> b))"
  by (auto simp: PoolReadyExit_def PoolReadyEnter_def bindR_def split: sum.splits)

lemma pick_workers_subset: "pick_workers test ws = Inr xs \<Longrightarrow> set xs \<subseteq> set ws"
  by (induction test ws arbitrary: xs rule: pick_workers.induct) (auto simp: bindR_eq_Inr split: if_splits)

lemma pick_workers_test:
  "pick_workers test ws = Inr xs \<Longrightarrow> w \<in> set xs \<Longrightarrow> \<not> hasErrs w \<and> (\<exists>n. rpc_netMach w = Some n \<and> test n = Inr True)"
  by (induction test ws arbitrary: xs rule: pick_workers.induct) (auto simp: bindR_eq_Inr split: if_splits option.splits)

text \<open>A worker that is listed as idle is not listed as busy, and both are without recent errors.\<close>

lemma idle_not_busy:
  assumes "idleWorkers s = Inr idle" "busyWorkers s = Inr busy"
  shows "set idle \<inter> set busy = {}" "\<forall>w \<in> set idle \<union> set busy. \<not> hasErrs w"
proof -
  show "\<forall>w \<in> set idle \<union> set busy. \<not> hasErrs w"
    using assms pick_workers_test by (auto simp: idleWorkers_def busyWorkers_def)
  have "False" if "w \<in> set idle" "w \<in> set busy" for w
    using pick_workers_test [OF assms(1) [unfolded idleWorkers_def] that(1)] pick_workers_test [OF assms(2) [unfolded busyWorkers_def] that(2)]
    by (auto simp: busy_test_def bindR_eq_Inr split: if_splits)
  then show "set idle \<inter> set busy = {}" by blast
qed

text \<open>A round of normalizing asks for no more forks than fit, by the workers it was told of.\<close>

lemma forks_fit: "forks_missing s existing = 0 \<or> int existing + int (forks_missing s existing) \<le> su_Max s"
  by (auto simp: forks_missing_def)

end
