(* ===== verification/Am_Node_Peers_Facts.thy ===== *)
theory Am_Node_Peers_Facts
  imports Am_Node_Peers Am_Node_Facts
begin

text \<open>
  Facts about worker, bootstrap machine, supervisor and client together: how a worker comes to be filed, what a client asks for,
  which nodes it tries.
\<close>

text \<open>What a worker passes on when its servers listen, what the bootstrap machine makes of it.\<close>

lemma announce:
  assumes "nw_LocalAddr w \<noteq> []" "nw_PublicAddr w \<noteq> []" "nw_Id w \<noteq> []"
  obtains a a1 where "go_RpcReady ForkOk w = [NwBootAdd ''WorkerAddr'' a, NwBootStop]" "WorkerAddrEnter a"
    "WorkerAddrState a boot = [SupAdd ''WorkerConnected'' a1]" "nd_LocalAddr a1 = nw_LocalAddr w" "nd_PublicAddr a1 = nw_PublicAddr w"
    "nd_BootAddr a1 = boot_Addr boot" "nd_WorkerInfo a1 = None"
  using assms by (simp add: go_RpcReady_def WorkerAddrEnter_def WorkerAddrState_def NodeArgs_zero_def)

definition plain_ext :: "string \<Rightarrow> ext" where
  "plain_ext machId = \<lparr>xt_boot = Inl [], xt_started = False, xt_forked = None, xt_killed = None, xt_machId = machId, xt_bindErr = None,
     xt_willBe = False, xt_isKill = False\<rparr>"

text \<open>The steps of the supervisor from the call of the bootstrap machine on.\<close>

definition registration :: "sup_call \<Rightarrow> nat \<Rightarrow> NetworkMachine \<Rightarrow> sup_act list" where
  "registration c i nm =
     [ActCall c, ActRun (plain_ext []), ActGo i (OutConnect (Inr (Some nm))), ActRun (plain_ext []), ActEmit i, ActRun (plain_ext ''id'')]"

lemma connected_handled:
  assumes "nd_LocalAddr a1 \<noteq> []"
  shows "sup_handle x (SupAdd ''WorkerConnected'' a1) s = Some (Inr ([SupRemove [''WorkerConnected'']], [GoConnect a1], s))"
  using assms by (simp add: sup_handle_def handle_add_def guarded_def WorkerConnectedEnter_def WorkerConnectedState_def)

lemma forked_handled:
  assumes "nd_LocalAddr a1 \<noteq> []" "gget (su_workers s) (nd_BootAddr a1) = Some info"
  shows "\<exists>calls. sup_handle (plain_ext machId) (SupAdd ''WorkerForked'' (a1\<lparr>nd_WorkerRpc := Some w\<rparr>)) s = Some (Inr (calls, [],
    s\<lparr>su_workers := gput (nd_LocalAddr a1) (info\<lparr>wi_rpc := Some w, wi_publicAddr := nd_PublicAddr a1, wi_localAddr := nd_LocalAddr a1\<rparr>)
        (gdel (nd_BootAddr a1) (su_workers s))\<rparr>))"
  using assms by (simp add: sup_handle_def handle_add_def guarded_def WorkerForkedEnter_def WorkerForkedState_def plain_ext_def Let_def)

text \<open>In every state a supervisor can be in, with no call waiting, a worker that was forked with the address of a bootstrap machine and
  announces itself there can be connected to and is then filed, with its connection, under its local address and no longer under that of
  the bootstrap machine.\<close>

theorem worker_registers:
  assumes "sup_reach s sys" "sys_queue sys = []" "gget (su_workers (sys_sup sys)) (boot_Addr boot) = Some info"
    and "nw_LocalAddr w \<noteq> []" "nw_PublicAddr w \<noteq> []" "nw_Id w \<noteq> []" "nw_LocalAddr w \<noteq> boot_Addr boot"
  shows "\<exists>a sys'. go_RpcReady ForkOk w = [NwBootAdd ''WorkerAddr'' a, NwBootStop] \<and> WorkerAddrEnter a
    \<and> sup_play (registration (hd (WorkerAddrState a boot)) (length (sys_go sys)) nm) sys = Some sys' \<and> sup_reach s sys'
    \<and> gget (su_workers (sys_sup sys')) (nw_LocalAddr w)
        = Some (info\<lparr>wi_rpc := Some (Some nm), wi_publicAddr := nw_PublicAddr w, wi_localAddr := nw_LocalAddr w\<rparr>)
    \<and> gget (su_workers (sys_sup sys')) (boot_Addr boot) = None"
proof -
  obtain a a1 where a: "go_RpcReady ForkOk w = [NwBootAdd ''WorkerAddr'' a, NwBootStop]" "WorkerAddrEnter a"
    "WorkerAddrState a boot = [SupAdd ''WorkerConnected'' a1]" "nd_LocalAddr a1 = nw_LocalAddr w" "nd_PublicAddr a1 = nw_PublicAddr w"
    "nd_BootAddr a1 = boot_Addr boot" "nd_WorkerInfo a1 = None"
    by (rule announce [OF assms(4-6)])
  have l: "nd_LocalAddr a1 \<noteq> []" using a(4) assms(4) by simp
  obtain calls where f: "sup_handle (plain_ext ''id'') (SupAdd ''WorkerForked'' (a1\<lparr>nd_WorkerRpc := Some (Some nm)\<rparr>)) (sys_sup sys) = Some (Inr (calls, [],
      (sys_sup sys)\<lparr>su_workers := gput (nw_LocalAddr w) (info\<lparr>wi_rpc := Some (Some nm), wi_publicAddr := nw_PublicAddr w, wi_localAddr := nw_LocalAddr w\<rparr>)
        (gdel (boot_Addr boot) (su_workers (sys_sup sys)))\<rparr>))"
    using forked_handled [OF l, of "sys_sup sys" info "''id''" "Some nm"] assms(3) a(4-6) by auto
  have quiet: "sup_handle x (SupRemove z) y = Some (Inr ([], [], y))" for x z y by (simp add: sup_handle_def)
  have out: "outside_call (SupAdd ''WorkerConnected'' a1)" by (simp add: outside_call_def)
  have c: "go_Connect a1 (Inr (Some nm)) = [SupAdd ''WorkerForked'' (a1\<lparr>nd_WorkerRpc := Some (Some nm)\<rparr>)]" by (simp add: go_Connect_def)
  obtain sys' where p: "sup_play (registration (SupAdd ''WorkerConnected'' a1) (length (sys_go sys)) nm) sys = Some sys'"
    "su_workers (sys_sup sys') = gput (nw_LocalAddr w) (info\<lparr>wi_rpc := Some (Some nm), wi_publicAddr := nw_PublicAddr w, wi_localAddr := nw_LocalAddr w\<rparr>)
        (gdel (boot_Addr boot) (su_workers (sys_sup sys)))"
    using assms(2) by (simp add: registration_def out connected_handled [OF l] quiet c f)
  then show ?thesis using a(1-3) assms(7) sup_play_reach [OF assms(1) p(1)] by auto
qed

text \<open>What a client asks a supervisor for passes the guard of the supervisor.\<close>

lemma request_accepted: "\<exists>a. WorkerRequestedState c = [CnSuperAdd ''ProvideWorker'' a] \<and> ProvideWorkerEnter a"
  by (simp add: WorkerRequestedState_def ProvideWorkerEnter_def GetClientId_def NodeArgs_zero_def)

text \<open>A client goes on to the next nodes after one of them is ready: with all nodes ready it is left with the address of the last.\<close>

theorem nodes_all_tried:
  assumes "cn_RpcSuper c = Some (addr, w)" "nodes \<noteq> []"
  shows "cn_RpcSuper (snd (go_nodes (map (\<lambda>n. (n, TryReady)) nodes) c)) = Some (last nodes, w)
    \<and> filter (\<lambda>x. \<exists>n. x = CnStart n) (fst (go_nodes (map (\<lambda>n. (n, TryReady)) nodes) c)) = map CnStart nodes"
  using assms
proof (induction nodes arbitrary: c addr)
  case (Cons n nodes)
  have r: "cn_RpcSuper (super_addr n c) = Some (n, w)" using Cons.prems(1) by (simp add: super_addr_def)
  show ?case
  proof (cases "nodes = []")
    case True
    then show ?thesis using r by (simp add: Let_def)
  next
    case False
    from Cons.IH [OF r False] False show ?thesis by (auto simp: Let_def split: prod.splits)
  qed
qed simp

end
