(* ===== verification/Am_Mux.thy ===== *)
theory Am_Mux
  imports Am_Pipes Am_Rpc
begin

text \<open>
  The muxer of RPC servers, \<open>src/pkg/rpc/mux.go\<close>: one server per incoming connection. Listening and accepting are inputs: a
  handler or loop gives the calls it makes on the machine of the muxer for the outcome it gets.
\<close>

text \<open>\<open>mx_Listener\<close> is the address of the listener. \<open>mx_Source\<close> and \<open>mx_NewServerFn\<close>: whether a source and a function for
  new servers are given. \<open>mx_open\<close> are the servers that are not stopped, by their number.\<close>

record Mux =
  mx_Name :: string
  mx_Addr :: string
  mx_Source :: bool
  mx_NewServerFn :: bool
  mx_Listener :: "string option"
  mx_NewServerErr :: "string option"
  mx_countConns :: nat
  mx_countDisconns :: nat
  mx_open :: "nat list"

datatype mux_call =
    MxAdd string string
  | MxRemove string
  | MxErr string
  | MxErrNetwork string
  | MxAccept
  | MxDispose

definition NewMux :: "string \<Rightarrow> string \<Rightarrow> bool \<Rightarrow> bool \<Rightarrow> Mux" where
  "NewMux addr name stateSource newServerFn =
     \<lparr>mx_Name = name, mx_Addr = addr, mx_Source = stateSource, mx_NewServerFn = newServerFn, mx_Listener = None,
      mx_NewServerErr = None, mx_countConns = 0, mx_countDisconns = 0, mx_open = []\<rparr>"

section \<open>Handlers\<close>

definition NewServerErrEnter :: "string option \<Rightarrow> bool" where
  "NewServerErrEnter err = (err \<noteq> None)"

definition NewServerErrState :: "string option \<Rightarrow> Mux \<Rightarrow> Mux" where
  "NewServerErrState err m = m\<lparr>mx_NewServerErr := err\<rparr>"

definition mux_StartEnter :: "Mux \<Rightarrow> bool" where
  "mux_StartEnter m = (mx_NewServerFn m \<or> mx_Source m)"

text \<open>The goroutine of \<open>StartState\<close>: whether the context has expired, the error of listening or the address of the new listener, the
  error \<open>Serve\<close> ends with.\<close>

definition go_mux_Start :: "bool \<Rightarrow> string + string \<Rightarrow> string option \<Rightarrow> Mux \<Rightarrow> mux_call list \<times> Mux" where
  "go_mux_Start expired lis served m =
     (if expired then ([], m)
      else case (case mx_Listener m of Some a \<Rightarrow> Inr a | None \<Rightarrow> lis) of
        Inl err \<Rightarrow> ([MxErrNetwork err, MxRemove ''Start''], m)
      | Inr a \<Rightarrow>
          (MxAccept # (case served of None \<Rightarrow> [] | Some err \<Rightarrow> [MxErr err, MxRemove ''Start'']),
           m\<lparr>mx_Listener := Some a, mx_Addr := a\<rparr>))"

definition mux_StartEnd :: "Mux \<Rightarrow> Mux" where
  "mux_StartEnd m = m\<lparr>mx_Listener := None\<rparr>"

definition mux_ClientConnectedState :: "mux_call list" where
  "mux_ClientConnectedState = [MxRemove ''ClientConnected'']"

text \<open>The counters of \<open>HasClientsEnd\<close>. The machine ignores what a final handler returns.\<close>

definition HasClientsEnd :: "Mux \<Rightarrow> bool" where
  "HasClientsEnd m = (mx_countConns m = mx_countDisconns m)"

section \<open>Connections\<close>

text \<open>A new server is made by the function of the options or for the source; \<open>made\<close> is the error of that. \<open>NewDefaultServer\<close> names it.\<close>

definition mux_NewServer :: "string option \<Rightarrow> nat \<Rightarrow> Mux \<Rightarrow> string + nat" where
  "mux_NewServer made n m = (case made of Some err \<Rightarrow> Inl err | None \<Rightarrow> Inr n)"

definition NewDefaultServer_name :: "string \<Rightarrow> Mux \<Rightarrow> string" where
  "NewDefaultServer_name num m = mx_Name m @ ''-'' @ num"

text \<open>A round of the loop of \<open>accept\<close>: an error of \<open>Accept\<close>, or a connection from an address with the outcome of the new
  server. The loop goes on after an error.\<close>

datatype accepted = AcceptErr string | AcceptConn string "string option"

definition accept_start :: "string \<Rightarrow> mux_call list" where
  "accept_start addr = [MxAdd ''Ready'' addr]"

definition mux_accept :: "accepted \<Rightarrow> Mux \<Rightarrow> mux_call list \<times> Mux" where
  "mux_accept r m =
     (case r of
        AcceptErr err \<Rightarrow> ([MxErr err], m)
      | AcceptConn addr made \<Rightarrow>
          (let n = mx_countConns m + 1; m1 = m\<lparr>mx_countConns := n\<rparr>; pre = MxAdd ''ClientConnected'' addr in
           case mux_NewServer made n m1 of
             Inl err \<Rightarrow> ([pre], m1\<lparr>mx_countDisconns := mx_countDisconns m1 + 1\<rparr>)
           | Inr k \<Rightarrow> ([pre, MxAdd ''HasClients'' []], m1\<lparr>mx_open := mx_open m1 @ [k]\<rparr>)))"

text \<open>The goroutine of a server, after its client has disconnected.\<close>

definition mux_disconnect :: "nat \<Rightarrow> Mux \<Rightarrow> mux_call list \<times> Mux" where
  "mux_disconnect n m =
     ([MxRemove ''HasClients''], m\<lparr>mx_open := remove1 n (mx_open m), mx_countDisconns := mx_countDisconns m + 1\<rparr>)"

section \<open>Methods\<close>

definition mux_Start :: "mux_call list" where "mux_Start = [MxAdd ''Start'' []]"

definition mux_Stop :: "bool \<Rightarrow> mux_call list" where
  "mux_Stop dispose = MxRemove ''Start'' # (if dispose then [MxDispose] else [])"

definition BindMux :: "string \<Rightarrow> string \<Rightarrow> string \<Rightarrow> (string + pipe_binding) res" where
  "BindMux targetId activeState inactiveState =
     (if activeState = [] then Inr (Inl ''active state must be set'')
      else bindR (pipes_Bind targetId ''HasClients'' activeState (if inactiveState = [] then activeState else inactiveState))
        (\<lambda>b. Inr (Inr b)))"

section \<open>Runs\<close>

text \<open>The loop of \<open>accept\<close> and the goroutines of the open servers, in any order.\<close>

inductive mux_reach :: "Mux \<Rightarrow> Mux \<Rightarrow> bool" for m0 where
  start: "mux_reach m0 m0"
| accept: "mux_reach m0 m \<Longrightarrow> mux_accept r m = (calls, m') \<Longrightarrow> mux_reach m0 m'"
| disconnect: "mux_reach m0 m \<Longrightarrow> n \<in> set (mx_open m) \<Longrightarrow> mux_disconnect n m = (calls, m') \<Longrightarrow> mux_reach m0 m'"

end
