(* ===== verification/Am_Mux_Facts.thy ===== *)
theory Am_Mux_Facts
  imports Am_Mux Am_Recovery
begin

text \<open>
  Facts about the muxer: its counters count the open servers, yet the state that stands for them is lost with the first client
  that leaves.
\<close>

lemma mux_counts_inv:
  "mux_reach m0 m \<Longrightarrow> mx_countConns m0 = 0 \<and> mx_countDisconns m0 = 0 \<and> mx_open m0 = []
    \<Longrightarrow> mx_countConns m = mx_countDisconns m + length (mx_open m) \<and> distinct (mx_open m) \<and> (\<forall>n \<in> set (mx_open m). n \<le> mx_countConns m)"
proof (induction rule: mux_reach.induct)
  case (accept m r calls m')
  then show ?case by (auto simp: mux_accept_def mux_NewServer_def Let_def split: accepted.splits option.splits) fastforce+
next
  case (disconnect m n calls m')
  then have "length (mx_open m) > 0" by auto
  with disconnect show ?case by (auto simp: mux_disconnect_def length_remove1 dest: notin_set_remove1)
qed simp

text \<open>Over every run of the muxer the numbers of connections and of disconnections differ by the servers that are open, each
  of which has a number of its own; \<open>HasClientsEnd\<close> holds exactly without open servers.\<close>

theorem mux_counts:
  assumes "mux_reach (NewMux addr name src fnew) m"
  shows "mx_countConns m = mx_countDisconns m + length (mx_open m) \<and> distinct (mx_open m) \<and> (HasClientsEnd m \<longleftrightarrow> mx_open m = [])"
  using mux_counts_inv [OF assms] by (auto simp: NewMux_def HasClientsEnd_def)

theorem mux_counts_witness:
  "\<exists>m. mux_reach (NewMux ''a'' ''n'' True False) m \<and> mx_open m = [1] \<and> mx_countConns m = mx_countDisconns m + 1"
proof -
  let ?m = "snd (mux_accept (AcceptConn ''c'' None) (NewMux ''a'' ''n'' True False))"
  have "mux_reach (NewMux ''a'' ''n'' True False) ?m" by (rule mux_reach.accept [OF mux_reach.start]) (rule surjective_pairing)
  moreover have "mx_open ?m = [1]" by code_simp
  ultimately show ?thesis using mux_counts [of "''a''" "''n''" True False ?m] by auto
qed

text \<open>The calls of the muxer on its machine.\<close>

definition mux_api :: "mux_call \<Rightarrow> api_call list" where
  "mux_api c = (case c of MxAdd state a \<Rightarrow> [ApiAdd [state] []] | MxRemove state \<Rightarrow> [ApiRemove [state] []] | _ \<Rightarrow> [])"

text \<open>The handler of the muxer for \<open>HasClients\<close>, for the muxer as it is when it runs.\<close>

definition mux_env :: "Mux \<Rightarrow> Env" where
  "mux_env m = ex_env\<lparr>en_handler := (\<lambda>mach n name args. ([], HRet (if name = ''HasClientsEnd'' then HasClientsEnd m else True)))\<rparr>"

definition mux_handler :: handler where
  "mux_handler = ex_handler\<lparr>h_methods := [''HasClientsEnd'']\<rparr>"

definition mux_mach :: Machine where
  "mux_mach = snd (VerifyStates (newMachine MuxSchema ex_opts ''id'') (Names MuxStatesDef))"

text \<open>Two clients connect and one leaves. \<open>ClientConnected\<close>, which removes itself and is not related to \<open>HasClients\<close>, is left out
  of the calls.\<close>

definition one_leaves :: "mux_call list \<times> Mux" where
  "one_leaves =
     (case mux_accept (AcceptConn ''c'' None) (NewMux ''a'' ''n'' True False) of (c1, m1) \<Rightarrow>
        (case mux_accept (AcceptConn ''d'' None) m1 of (c2, m2) \<Rightarrow>
           (case mux_disconnect 1 m2 of (c3, m3) \<Rightarrow> (filter (\<lambda>c. c \<noteq> MxAdd ''ClientConnected'' ''c'' \<and> c \<noteq> MxAdd ''ClientConnected'' ''d'') (c1 @ c2 @ c3), m3))))"

definition mux_calls :: "mux_call list \<Rightarrow> api_call list" where
  "mux_calls cs = [ApiAdd [''Start''] [], ApiBind mux_handler ''h''] @ concat (map mux_api cs)"

text \<open>Of two clients one leaves. \<open>HasClientsEnd\<close> says no, as a server is still open, but it is a final handler and its answer is
  ignored: \<open>HasClients\<close> has been activated and deactivated.\<close>

theorem HasClients_lost:
  "mx_open (snd one_leaves) = [2] \<and> \<not> HasClientsEnd (snd one_leaves)
   \<and> res_ok (\<lambda>m. Tick m ''HasClients'' = 2 \<and> \<not> Is1 m ''HasClients'' \<and> \<not> IsErr m)
       (api_runs (mux_env (snd one_leaves)) 9 mux_mach (mux_calls (fst one_leaves)))"
  by (intro conjI; code_simp)

end
