(* ===== verification/Am_Pubsub.thy ===== *)
theory Am_Pubsub
  imports Am_Netmach Am_Rpc Am_Api
begin

text \<open>
  A pub/sub topic, \<open>src/pkg/pubsub/topic.go\<close> and \<open>pubsub.go\<close>, with its schema \<open>states/ss_topic.go\<close>. Peers tell each other
  about the machines they expose, by information, clock updates and gossips. A handler gets the topic and its arguments and
  gives the topic, the calls it makes, in order, and the fault it ends with, if any: the machine catches a panic, and what the
  handler has done until then stays. Messages are the values they encode. Time, random numbers and what the machine and libp2p answer
  are inputs. Logging and metrics are left out.
\<close>

section \<open>Schema\<close>

definition TopicStatesDef :: "field list" where
  "TopicStatesDef = [StatesBase, FState ''ErrJoining'', FState ''ErrListening'', FState ''Joining'', FState ''Joined'',
     FState ''Started'', FState ''MissPeersByUpdates'', FState ''MissPeersByGossip'', FState ''MissUpdatesByGossip'',
     FState ''SendGossips'', FState ''SendUpdates'', FState ''ReqMissingPeers'', FState ''ReqMissingUpdates'',
     FState ''DoSendInfo'', FState ''PeerJoined'', FState ''PeerLeft'', FState ''MsgInfo'', FState ''MsgBye'',
     FState ''MsgUpdates'', FState ''MsgReqInfo'', FState ''MsgReqUpdates'', FState ''MsgReceived'', FState ''ListMachines'',
     FState ''SendMsg'', FState ''ProcessMsgs'', FState ''SendInfo'', FEmbed ''BasicStatesDef'' BasicStatesDef,
     FEmbed ''ConnectedStatesDef'' ConnectedStatesDef, FEmbed ''DisposedStatesDef'' DisposedStatesDef]"

definition TopicSchema :: Schema where
  "TopicSchema = Schema_Merge BasicSchema [ConnectedSchema, DisposedSchema,
     [(''ErrJoining'', state_of False False [''Exception''] [] []),
      (''ErrListening'', state_of False False [''Exception''] [] []),
      (''Started'', state_of False False [''Start''] [] []),
      (''Joining'', state_of False False [''Connected''] [] [''Joined'']),
      (''Joined'', state_of False False [''Connected''] [] [''Joining'']),
      (''Ready'', state_of True False [''Joined''] [] []),
      (''SendGossips'', state_of False False [''Joined''] [] []),
      (''SendUpdates'', state_of False False [''Joined''] [] []),
      (''ReqMissingPeers'', state_of False False [''Joined''] [] []),
      (''ReqMissingUpdates'', state_of False False [''Joined''] [] []),
      (''DoSendInfo'', state_of False False [''Joined''] [] []),
      (''PeerJoined'', state_of False True [''Joined''] [] []),
      (''PeerLeft'', state_of False True [''Joined''] [] []),
      (''MsgInfo'', state_of False True [''Joined''] [] []),
      (''MsgBye'', state_of False True [''Joined''] [] []),
      (''MsgUpdates'', state_of False True [''Joined''] [] []),
      (''MsgReqInfo'', state_of False True [''Joined''] [] []),
      (''MsgReqUpdates'', state_of False True [''Joined''] [] []),
      (''MsgReceived'', state_of False True [''Joined''] [] []),
      (''MissPeersByUpdates'', state_of False True [''Joined''] [] []),
      (''MissPeersByGossip'', state_of False True [''Joined''] [] []),
      (''MissUpdatesByGossip'', state_of False True [''Joined''] [] []),
      (''ListMachines'', state_of False True [''Joined''] [] []),
      (''SendMsg'', state_of False True [''Joined''] [] []),
      (''ProcessMsgs'', state_of False True [''Joined''] [] []),
      (''SendInfo'', state_of False False [''Joined''] [] []),
      (''Heartbeat'', state_of False False [''Joined''] [] [])]]"

section \<open>Messages\<close>

type_synonym Gossips = "(int, uint64) gomap"
type_synonym PeerGossips = "(string, Gossips) gomap"

record Info =
  in_Id :: string
  in_Schema :: "Schema option"
  in_States :: S
  in_MTime :: Time
  in_Tags :: "string list"
  in_Parent :: string

type_synonym MachInfo = "(int, Info) gomap"
type_synonym PeerInfo = "(string, MachInfo) gomap"
type_synonym MachClocks = "(int, Time) gomap"
type_synonym PeerClocks = "(string, MachClocks) gomap"

definition MsgTypeUpdates :: string where "MsgTypeUpdates = ''updates''"
definition MsgTypeBye :: string where "MsgTypeBye = ''bye''"
definition MsgTypeInfo :: string where "MsgTypeInfo = ''info''"
definition MsgTypeReqInfo :: string where "MsgTypeReqInfo = ''reqinfo''"
definition MsgTypeReqUpdates :: string where "MsgTypeReqUpdates = ''requpdates''"
definition MsgTypeGossip :: string where "MsgTypeGossip = ''gossip''"

datatype topic_msg =
    MInfo PeerInfo PeerGossips
  | MBye
  | MUpdates PeerClocks
  | MGossip PeerGossips
  | MReqInfo "string list"
  | MReqUpdates "string list"

text \<open>What the decoder makes of the data of a received message: not a message of the topic, a type that is not known, a message
  of a known type, or an error in the body of one.\<close>

datatype decoded = NotMsg | OtherType string | Decoded topic_msg | BadBody string string

record ps_msg =
  ps_From :: string
  ps_Data :: decoded

section \<open>Arguments\<close>

record ListFilters =
  lf_IdExact :: string
  lf_IdPartial :: string
  lf_IdRegexp :: "(string \<Rightarrow> bool) option"
  lf_Parent :: string
  lf_PeerId :: string

text \<open>\<open>ta_NetMachs\<close> is the capacity of the channel.\<close>

record TopicArgs =
  ta_MsgInfo :: "(PeerInfo \<times> PeerGossips) option"
  ta_MsgUpdates :: "PeerClocks option"
  ta_MsgBye :: bool
  ta_MsgReqInfo :: "string list option"
  ta_MsgReqUpdates :: "string list option"
  ta_Msgs :: "ps_msg option list option"
  ta_Length :: int
  ta_Msg :: "topic_msg option"
  ta_Peer :: string
  ta_PeerId :: string
  ta_PeerIds :: "string list"
  ta_HTime :: int
  ta_NetMachs :: "nat option"
  ta_ListFilters :: "ListFilters option"
  ta_MachClocks :: "MachClocks option"
  ta_MsgType :: string
  ta_PeersGossip :: "PeerGossips option"

definition TopicArgs_zero :: TopicArgs where
  "TopicArgs_zero = \<lparr>ta_MsgInfo = None, ta_MsgUpdates = None, ta_MsgBye = False, ta_MsgReqInfo = None, ta_MsgReqUpdates = None,
     ta_Msgs = None, ta_Length = 0, ta_Msg = None, ta_Peer = [], ta_PeerId = [], ta_PeerIds = [], ta_HTime = 0,
     ta_NetMachs = None, ta_ListFilters = None, ta_MachClocks = None, ta_MsgType = [], ta_PeersGossip = None\<rparr>"

section \<open>The topic\<close>

text \<open>An exposed machine comes with the flag \<open>dirty\<close> of its tracer. The methods of \<open>NetMachInternal\<close> act on the network machine
  of the same peer and index, so \<open>tp_netMachsIntApi\<close> keeps the indexes only. \<open>tp_self\<close> is the id of the host.\<close>

record Topic =
  tp_Id :: string
  tp_self :: string
  tp_HostToPeer :: "(string, string) gomap"
  tp_ListenAddrs :: "string list"
  tp_ConnAddrs :: "string list"
  tp_ExposedMachs :: "(Machine \<times> bool) list"
  tp_MaxMsgsPerWin :: int
  tp_ConnectionsToReady :: int
  tp_Multiplayer :: int
  tp_SendInfoDebounceMs :: int
  tp_MaxQueueLen :: uint16
  tp_GossipAmount :: nat
  tp_TestSchema :: "Schema option"
  tp_TestStates :: "S option"
  tp_netMachs :: "(string, (int, NetworkMachine) gomap) gomap"
  tp_netMachsIntApi :: "(string, int list) gomap"
  tp_info :: "(string, MachInfo) gomap"
  tp_missingUpdates :: PeerGossips
  tp_pendingMachUpdates :: PeerClocks
  tp_missingPeers :: "string list"
  tp_lastReqHello :: int
  tp_lastReqUpdate :: int
  tp_reqInfo :: "(string, int) gomap"
  tp_reqUpdate :: "(string, int) gomap"
  tp_retried :: bool
  tp_msgsWin :: int
  tp_msgsWinCount :: int

definition NewTopic :: "string \<Rightarrow> string \<Rightarrow> string \<Rightarrow> Machine list \<Rightarrow> Topic" where
  "NewTopic name suffix self exposedMachs =
     \<lparr>tp_Id = ''ps-'' @ name @ ''-'' @ suffix, tp_self = self, tp_HostToPeer = [], tp_ListenAddrs = [], tp_ConnAddrs = [],
      tp_ExposedMachs = map (\<lambda>m. (m, False)) exposedMachs, tp_MaxMsgsPerWin = 10, tp_ConnectionsToReady = 5,
      tp_Multiplayer = 5, tp_SendInfoDebounceMs = 500, tp_MaxQueueLen = 10, tp_GossipAmount = 5, tp_TestSchema = None,
      tp_TestStates = None, tp_netMachs = [], tp_netMachsIntApi = [], tp_info = [], tp_missingUpdates = [],
      tp_pendingMachUpdates = [], tp_missingPeers = [], tp_lastReqHello = 0, tp_lastReqUpdate = 0, tp_reqInfo = [],
      tp_reqUpdate = [], tp_retried = False, tp_msgsWin = 0, tp_msgsWinCount = 0\<rparr>"

text \<open>\<open>TransitionEnd\<close> of the tracer of an exposed machine.\<close>

definition topic_TransitionEnd :: "nat \<Rightarrow> Machine \<Rightarrow> Topic \<Rightarrow> Topic" where
  "topic_TransitionEnd i m t = t\<lparr>tp_ExposedMachs := (tp_ExposedMachs t)[i := (m, True)]\<rparr>"

section \<open>Calls and inputs\<close>

datatype topic_go =
    GoPublish topic_msg
  | GoSend "string option" topic_msg TopicArgs
  | GoSendInfo "string list"

datatype topic_call =
    TpAdd string TopicArgs
  | TpAsk string TopicArgs
  | TpRemove string
  | TpErr string
  | TpErrListening string
  | TpPublish topic_msg
  | TpFork topic_go

type_synonym topic_out = "Topic \<times> topic_call list \<times> fault option"

text \<open>Inputs of a handler: the environment of waiters of the network machines, the time in nanoseconds, the random numbers drawn one after
  the other, the random ids of new network machines, whether the event is valid, which states are active or queued, the length of the
  queue, the error of the encoder, whether the pool accepts.\<close>

record topic_in =
  ti_env :: Env
  ti_now :: int
  ti_rnd :: "nat \<Rightarrow> nat"
  ti_randId :: "string \<Rightarrow> int \<Rightarrow> string"
  ti_valid :: bool
  ti_active :: "string \<Rightarrow> bool"
  ti_willBe :: "string \<Rightarrow> bool"
  ti_queueLen :: uint16
  ti_encodeErr :: "string option"
  ti_pool :: bool

definition second :: int where "second = 1000000000"

definition tp_then :: "topic_out \<Rightarrow> (Topic \<Rightarrow> topic_out) \<Rightarrow> topic_out" where
  "tp_then x f =
     (case x of (t, calls, Some e) \<Rightarrow> (t, calls, Some e)
      | (t, calls, None) \<Rightarrow> (case f t of (t', calls', r) \<Rightarrow> (t', calls @ calls', r)))"

fun tp_each :: "('a \<Rightarrow> Topic \<Rightarrow> topic_out) \<Rightarrow> 'a list \<Rightarrow> Topic \<Rightarrow> topic_out" where
  "tp_each f [] t = (t, [], None)"
| "tp_each f (x # xs) t = tp_then (f x t) (tp_each f xs)"

definition peerName :: "Topic \<Rightarrow> string \<Rightarrow> string" where
  "peerName t pid = ggetd [] (tp_HostToPeer t) pid"

definition netMachsCount :: "Topic \<Rightarrow> nat" where
  "netMachsCount t = sum_list (map (\<lambda>(pid, nms). length nms) (tp_netMachs t))"

definition nm_sum :: "NetworkMachine \<Rightarrow> uint64 res" where
  "nm_sum m = bindR (nm_Time m None) (\<lambda>time. Inr (Time_SumAll time))"

definition miss_peer :: "string \<Rightarrow> Topic \<Rightarrow> Topic" where
  "miss_peer pid t = t\<lparr>tp_missingPeers := List.insert pid (tp_missingPeers t)\<rparr>"

text \<open>The end of several handlers: a sender that is not known is missing.\<close>

definition confirm_sender :: "TopicArgs \<Rightarrow> Topic \<Rightarrow> Topic" where
  "confirm_sender a t = (if ghas (tp_netMachs t) (ta_PeerId a) then t else miss_peer (ta_PeerId a) t)"

section \<open>Received messages\<close>

definition from_args :: "ps_msg \<Rightarrow> TopicArgs" where
  "from_args psMsg = TopicArgs_zero\<lparr>ta_PeerId := ps_From psMsg\<rparr>"

definition gossip_asks :: "TopicArgs \<Rightarrow> TopicArgs \<Rightarrow> PeerGossips \<Rightarrow> topic_call list" where
  "gossip_asks a1 a2 gossips =
     [TpAsk ''MissPeersByGossip'' (a1\<lparr>ta_PeersGossip := Some gossips\<rparr>),
      TpAsk ''MissUpdatesByGossip'' (a2\<lparr>ta_PeersGossip := Some gossips\<rparr>)]"

text \<open>A broken \<open>bye\<close> is ignored, any other broken body is an error.\<close>

definition process_msg :: "topic_in \<Rightarrow> Topic \<Rightarrow> ps_msg \<Rightarrow> topic_call list" where
  "process_msg i t psMsg =
     (let a = from_args psMsg; named = a\<lparr>ta_Peer := peerName t (ps_From psMsg)\<rparr> in
      case ps_Data psMsg of
        NotMsg \<Rightarrow> [TpAdd ''MsgReceived'' (TopicArgs_zero\<lparr>ta_Msgs := Some [Some psMsg], ta_Length := 1\<rparr>)]
      | OtherType kind \<Rightarrow> [TpErrListening (''unsupported msg type: '' @ kind)]
      | BadBody kind err \<Rightarrow> (if kind = MsgTypeBye then [] else [TpErr err])
      | Decoded (MInfo info gossips) \<Rightarrow>
          TpAdd ''MsgInfo'' (named\<lparr>ta_MsgInfo := Some (info, gossips)\<rparr>) # gossip_asks named a gossips
      | Decoded MBye \<Rightarrow> [TpAdd ''MsgBye'' (a\<lparr>ta_MsgBye := True\<rparr>)]
      | Decoded (MUpdates clocks) \<Rightarrow> [TpAdd ''MsgUpdates'' (a\<lparr>ta_MsgUpdates := Some clocks\<rparr>)]
      | Decoded (MGossip gossips) \<Rightarrow> gossip_asks a a gossips
      | Decoded (MReqInfo pids) \<Rightarrow> [TpAsk ''MsgReqInfo'' (named\<lparr>ta_MsgReqInfo := Some pids, ta_HTime := ti_now i\<rparr>)]
      | Decoded (MReqUpdates pids) \<Rightarrow> [TpAsk ''MsgReqUpdates'' (named\<lparr>ta_MsgReqUpdates := Some pids\<rparr>)])"

definition ProcessMsgsState :: "topic_in \<Rightarrow> TopicArgs \<Rightarrow> Topic \<Rightarrow> topic_out" where
  "ProcessMsgsState i a t =
     (t, concat (map (\<lambda>m. case m of None \<Rightarrow> [] | Some psMsg \<Rightarrow> process_msg i t psMsg) (sl (ta_Msgs a))), None)"

text \<open>The loop that receives messages, with its buffer, and the periodic flush. A message that finds the buffer full makes it
  flush and is not kept.\<close>

record msg_buf =
  mb_msgs :: "ps_msg option list"
  mb_i :: nat

definition bufSize :: nat where "bufSize = 50"

definition new_buf :: msg_buf where
  "new_buf = \<lparr>mb_msgs = replicate bufSize None, mb_i = 0\<rparr>"

definition flush_buf :: "msg_buf \<Rightarrow> topic_call list \<times> msg_buf" where
  "flush_buf b =
     ([TpAdd ''ProcessMsgs'' (TopicArgs_zero\<lparr>ta_Msgs := Some (mb_msgs b), ta_Length := int (mb_i b)\<rparr>)], new_buf)"

definition recv_msg :: "topic_in \<Rightarrow> Topic \<Rightarrow> string + ps_msg \<Rightarrow> msg_buf \<Rightarrow> topic_call list \<times> msg_buf" where
  "recv_msg i t r b =
     (case r of
        Inl err \<Rightarrow> ([TpErrListening err], b)
      | Inr psMsg \<Rightarrow>
          if ps_From psMsg = tp_self t \<or> ti_queueLen i > tp_MaxQueueLen t then ([], b)
          else if mb_i b < bufSize then ([], \<lparr>mb_msgs = (mb_msgs b)[mb_i b := Some psMsg], mb_i = Suc (mb_i b)\<rparr>)
          else flush_buf b)"

definition tick_flush :: "msg_buf \<Rightarrow> topic_call list \<times> msg_buf" where
  "tick_flush b = (if mb_i b > 0 then flush_buf b else ([], b))"

section \<open>Information about machines\<close>

text \<open>\<open>Lock\<close> and \<open>UpdateClock\<close> of the internal methods of a network machine; they are \<open>nil\<close> for one that is not filed.\<close>

definition put_mach :: "string \<Rightarrow> int \<Rightarrow> NetworkMachine \<Rightarrow> Topic \<Rightarrow> Topic" where
  "put_mach pid idx nm t = t\<lparr>tp_netMachs := gput pid (gput idx nm (ggetd [] (tp_netMachs t) pid)) (tp_netMachs t)\<rparr>"

definition nil_pointer :: "fault option" where "nil_pointer = Some (GoPanic ''nil pointer dereference'')"

definition update_clock :: "Env \<Rightarrow> string \<Rightarrow> int \<Rightarrow> Time \<Rightarrow> Topic \<Rightarrow> topic_out" where
  "update_clock env pid idx mtime t =
     (if idx \<notin> set (ggetd [] (tp_netMachsIntApi t) pid) then (t, [], nil_pointer)
      else case gget (ggetd [] (tp_netMachs t) pid) idx of
        None \<Rightarrow> (t, [], nil_pointer)
      | Some nm \<Rightarrow>
          (case updateClock env nm mtime 0 0 of Inl e \<Rightarrow> (t, [], Some e) | Inr nm' \<Rightarrow> (put_mach pid idx nm' t, [], None)))"

definition MsgInfoEnter :: "TopicArgs \<Rightarrow> Topic \<Rightarrow> bool" where
  "MsgInfoEnter a t =
     (case ta_MsgInfo a of
        None \<Rightarrow> False
      | Some (infos, gossips) \<Rightarrow>
          ta_PeerId a \<noteq> []
          \<and> list_ex (\<lambda>(pid, machs). pid \<in> set (tp_missingPeers t)
              \<or> (case gget (tp_netMachs t) pid of None \<Rightarrow> True | Some nms \<Rightarrow> list_ex (\<lambda>(idx, info). \<not> ghas nms idx) machs)) infos)"

text \<open>A machine that is known: the newest clock is kept.\<close>

definition newer_clock :: "Env \<Rightarrow> string \<Rightarrow> int \<Rightarrow> NetworkMachine \<Rightarrow> Time \<Rightarrow> Topic \<Rightarrow> topic_out" where
  "newer_clock env pid idx nm mtime t =
     (case nm_sum nm of
        Inl e \<Rightarrow> (t, [], Some e)
      | Inr k \<Rightarrow> if Time_SumAll mtime > k then update_clock env pid idx mtime t else (t, [], None))"

definition info_netMach :: "topic_in \<Rightarrow> Topic \<Rightarrow> string \<Rightarrow> int \<Rightarrow> Info \<Rightarrow> nm_error + NetworkMachine" where
  "info_netMach i t pid idx info =
     NewNetworkMachine (''ps-'' @ in_Id info @ ''-'' @ ti_randId i pid idx) False
       (case tp_TestSchema t of None \<Rightarrow> in_Schema info | Some sch \<Rightarrow> Some sch)
       (case tp_TestStates t of None \<Rightarrow> in_States info | Some names \<Rightarrow> names) (tp_Id t)
       (Some [''pubsub-worker'', ''src-id:'' @ in_Id info]) False"

definition gc_pending :: "string \<Rightarrow> int \<Rightarrow> Topic \<Rightarrow> Topic" where
  "gc_pending pid idx t =
     (let rest = gdel idx (ggetd [] (tp_pendingMachUpdates t) pid) in
      t\<lparr>tp_pendingMachUpdates :=
          (if length rest = 0 then gdel pid (tp_pendingMachUpdates t) else gput pid rest (tp_pendingMachUpdates t))\<rparr>)"

text \<open>The clock of a new machine, from an update that came ahead or from the information.\<close>

definition first_clock :: "topic_in \<Rightarrow> string \<Rightarrow> int \<Rightarrow> Info \<Rightarrow> Topic \<Rightarrow> topic_out" where
  "first_clock i pid idx info t =
     (case gget (ggetd [] (tp_pendingMachUpdates t) pid) idx of
        Some mtime \<Rightarrow>
          tp_then (update_clock (ti_env i) pid idx mtime t) (\<lambda>t. (gc_pending pid idx t, [TpRemove ''MissPeersByUpdates''], None))
      | None \<Rightarrow> update_clock (ti_env i) pid idx (in_MTime info) t)"

definition file_mach :: "string \<Rightarrow> int \<Rightarrow> Info \<Rightarrow> NetworkMachine \<Rightarrow> Topic \<Rightarrow> Topic" where
  "file_mach pid idx info nm t =
     (put_mach pid idx nm t)\<lparr>
        tp_netMachsIntApi := gput pid (List.insert idx (ggetd [] (tp_netMachsIntApi t) pid)) (tp_netMachsIntApi t),
        tp_info := gput pid (gput idx info (ggetd [] (tp_info t) pid)) (tp_info t)\<rparr>"

text \<open>The internal methods that set the first clock are looked up before the new machine is filed.\<close>

definition info_mach :: "topic_in \<Rightarrow> string \<Rightarrow> int \<times> Info \<Rightarrow> Topic \<Rightarrow> topic_out" where
  "info_mach i pid = (\<lambda>(idx, info) t.
     case gget (ggetd [] (tp_netMachs t) pid) idx of
       Some nm \<Rightarrow> newer_clock (ti_env i) pid idx nm (in_MTime info) t
     | None \<Rightarrow>
         (case info_netMach i t pid idx info of
            Inl err \<Rightarrow> (t, [TpErr ''schema and stateNames must have the same length''], None)
          | Inr nm \<Rightarrow> tp_then (first_clock i pid idx info t) (\<lambda>t. (file_mach pid idx info nm t, [], None))))"

definition init_peer :: "string \<Rightarrow> Topic \<Rightarrow> Topic" where
  "init_peer pid t =
     (if ghas (tp_netMachs t) pid then t
      else t\<lparr>tp_netMachs := gput pid [] (tp_netMachs t), tp_netMachsIntApi := gput pid [] (tp_netMachsIntApi t),
             tp_info := gput pid [] (tp_info t)\<rparr>)"

definition found_peer :: "string \<Rightarrow> Topic \<Rightarrow> topic_out" where
  "found_peer pid t =
     (if pid \<in> set (tp_missingPeers t)
      then (t\<lparr>tp_missingPeers := removeAll pid (tp_missingPeers t)\<rparr>, [TpRemove ''MissPeersByGossip''], None)
      else (t, [], None))"

definition info_peer :: "topic_in \<Rightarrow> string \<times> MachInfo \<Rightarrow> Topic \<Rightarrow> topic_out" where
  "info_peer i = (\<lambda>(pid, machs) t.
     if pid = tp_self t then (t, [], None)
     else tp_then (found_peer pid (init_peer pid t)) (tp_each (info_mach i pid) machs))"

definition MsgInfoState :: "topic_in \<Rightarrow> TopicArgs \<Rightarrow> Topic \<Rightarrow> topic_out" where
  "MsgInfoState i a t =
     tp_then (tp_each (info_peer i) (case ta_MsgInfo a of None \<Rightarrow> [] | Some (infos, gossips) \<Rightarrow> infos) t)
       (\<lambda>t. (confirm_sender a t, [], None))"

section \<open>Gossips\<close>

definition MissPeersByGossipEnter :: "TopicArgs \<Rightarrow> Topic \<Rightarrow> bool" where
  "MissPeersByGossipEnter a t =
     (case ta_PeersGossip a of
        None \<Rightarrow> False
      | Some gossips \<Rightarrow>
          list_ex (\<lambda>(pid, machs). pid \<noteq> tp_self t \<and> pid \<notin> set (tp_missingPeers t)
            \<and> (case gget (tp_netMachs t) pid of None \<Rightarrow> True | Some nms \<Rightarrow> length machs \<noteq> length nms)) gossips)"

definition miss_gossiped :: "Topic \<Rightarrow> string \<times> Gossips \<Rightarrow> Topic" where
  "miss_gossiped = (\<lambda>t (pid, machs).
     if pid = tp_self t \<or> pid \<in> set (tp_missingPeers t) \<or> ghas (tp_netMachs t) pid then t else miss_peer pid t)"

definition MissPeersByGossipState :: "TopicArgs \<Rightarrow> Topic \<Rightarrow> topic_out" where
  "MissPeersByGossipState a t = (foldl miss_gossiped t (sl (ta_PeersGossip a)), [], None)"

definition MissPeersByGossipExit :: "Topic \<Rightarrow> bool" where
  "MissPeersByGossipExit t = (length (tp_missingPeers t) = 0)"

text \<open>The guard looks for a machine that is known and behind; it can fault with the time of a machine.\<close>

fun any_behind :: "(int, NetworkMachine) gomap \<Rightarrow> Gossips \<Rightarrow> bool res" where
  "any_behind nms [] = Inr False"
| "any_behind nms ((idx, mtime) # machs) =
     (case gget nms idx of
        None \<Rightarrow> any_behind nms machs
      | Some nm \<Rightarrow> bindR (nm_sum nm) (\<lambda>k. if mtime > k then Inr True else any_behind nms machs))"

fun any_peer_behind :: "Topic \<Rightarrow> PeerGossips \<Rightarrow> bool res" where
  "any_peer_behind t [] = Inr False"
| "any_peer_behind t ((pid, machs) # gossips) =
     (case (if pid = tp_self t then None else gget (tp_netMachs t) pid) of
        None \<Rightarrow> any_peer_behind t gossips
      | Some nms \<Rightarrow> bindR (any_behind nms machs) (\<lambda>b. if b then Inr True else any_peer_behind t gossips))"

definition MissUpdatesByGossipEnter :: "TopicArgs \<Rightarrow> Topic \<Rightarrow> bool res" where
  "MissUpdatesByGossipEnter a t = (case ta_PeersGossip a of None \<Rightarrow> Inr False | Some gossips \<Rightarrow> any_peer_behind t gossips)"

definition note_missing :: "string \<Rightarrow> int \<Rightarrow> uint64 \<Rightarrow> Topic \<Rightarrow> Topic" where
  "note_missing pid idx mtime t =
     t\<lparr>tp_missingUpdates := gput pid (gput idx mtime (ggetd [] (tp_missingUpdates t) pid)) (tp_missingUpdates t)\<rparr>"

definition gossip_mach :: "string \<Rightarrow> int \<times> uint64 \<Rightarrow> Topic \<Rightarrow> topic_out" where
  "gossip_mach pid = (\<lambda>(idx, mtime) t.
     case gget (ggetd [] (tp_netMachs t) pid) idx of
       None \<Rightarrow> (note_missing pid idx mtime t, [], None)
     | Some nm \<Rightarrow>
         (case nm_sum nm of
            Inl e \<Rightarrow> (t, [], Some e)
          | Inr k \<Rightarrow> ((if mtime > k then note_missing pid idx mtime t else t), [], None)))"

definition init_missing :: "string \<Rightarrow> Topic \<Rightarrow> Topic" where
  "init_missing pid t =
     (if ghas (tp_missingUpdates t) pid then t else t\<lparr>tp_missingUpdates := gput pid [] (tp_missingUpdates t)\<rparr>)"

definition drop_empty :: "string \<Rightarrow> Topic \<Rightarrow> Topic" where
  "drop_empty pid t =
     (if length (ggetd [] (tp_missingUpdates t) pid) = 0 then t\<lparr>tp_missingUpdates := gdel pid (tp_missingUpdates t)\<rparr> else t)"

definition gossip_peer :: "string \<times> Gossips \<Rightarrow> Topic \<Rightarrow> topic_out" where
  "gossip_peer = (\<lambda>(pid, machs) t.
     if pid = tp_self t \<or> \<not> ghas (tp_netMachs t) pid then (t, [], None)
     else tp_then (tp_each (gossip_mach pid) machs (init_missing pid t)) (\<lambda>t. (drop_empty pid t, [], None)))"

definition MissUpdatesByGossipState :: "TopicArgs \<Rightarrow> Topic \<Rightarrow> topic_out" where
  "MissUpdatesByGossipState a t = tp_each gossip_peer (sl (ta_PeersGossip a)) t"

definition MissUpdatesByGossipExit :: "Topic \<Rightarrow> bool" where
  "MissUpdatesByGossipExit t = (length (tp_missingUpdates t) = 0)"

section \<open>Updates\<close>

definition MsgUpdatesEnter :: "TopicArgs \<Rightarrow> bool" where
  "MsgUpdatesEnter a = (ta_MsgUpdates a \<noteq> None \<and> ta_PeerId a \<noteq> [])"

definition clear_missing :: "string \<Rightarrow> int \<Rightarrow> Time \<Rightarrow> Topic \<Rightarrow> Topic" where
  "clear_missing pid idx mtime t =
     (case gget (ggetd [] (tp_missingUpdates t) pid) idx of
        None \<Rightarrow> t
      | Some k \<Rightarrow>
          if k \<le> Time_SumAll mtime
          then let rest = gdel idx (ggetd [] (tp_missingUpdates t) pid) in
               t\<lparr>tp_missingUpdates :=
                   (if length rest = 0 then gdel pid (tp_missingUpdates t) else gput pid rest (tp_missingUpdates t))\<rparr>
          else t)"

definition update_mach :: "topic_in \<Rightarrow> string \<Rightarrow> int \<times> Time \<Rightarrow> Topic \<Rightarrow> topic_out" where
  "update_mach i pid = (\<lambda>(idx, mtime) t.
     case gget (ggetd [] (tp_netMachs t) pid) idx of
       None \<Rightarrow> (t, [], None)
     | Some nm \<Rightarrow>
         tp_then (newer_clock (ti_env i) pid idx nm mtime t) (\<lambda>t. (clear_missing pid idx mtime t, [], None)))"

definition update_peer :: "topic_in \<Rightarrow> string \<times> MachClocks \<Rightarrow> Topic \<Rightarrow> topic_out" where
  "update_peer i = (\<lambda>(pid, machs) t.
     if pid = tp_self t then (t, [], None)
     else if \<not> ghas (tp_netMachs t) pid
     then (t, [TpAdd ''MissPeersByUpdates'' (TopicArgs_zero\<lparr>ta_MachClocks := Some machs, ta_PeerId := pid, ta_Peer := peerName t pid\<rparr>)], None)
     else tp_each (update_mach i pid) machs t)"

definition MsgUpdatesState :: "topic_in \<Rightarrow> TopicArgs \<Rightarrow> Topic \<Rightarrow> topic_out" where
  "MsgUpdatesState i a t =
     tp_then (tp_each (update_peer i) (sl (ta_MsgUpdates a)) t) (\<lambda>t. (confirm_sender a t, [], None))"

definition MissPeersByUpdatesEnter :: "TopicArgs \<Rightarrow> bool" where
  "MissPeersByUpdatesEnter a = (ta_MachClocks a \<noteq> None \<and> ta_PeerId a \<noteq> [])"

definition merge_pending :: "MachClocks \<Rightarrow> int \<times> Time \<Rightarrow> MachClocks" where
  "merge_pending old = (\<lambda>(idx, mtimeNew).
     case gget old idx of
       Some mtimeOld \<Rightarrow> if Time_SumAll mtimeNew > Time_SumAll mtimeOld then gput idx mtimeNew old else old
     | None \<Rightarrow> gput idx mtimeNew old)"

definition MissPeersByUpdatesState :: "TopicArgs \<Rightarrow> Topic \<Rightarrow> topic_out" where
  "MissPeersByUpdatesState a t =
     (let pending = sl (ta_MachClocks a); pid = ta_PeerId a in
      (t\<lparr>tp_pendingMachUpdates :=
          gput pid (case gget (tp_pendingMachUpdates t) pid of None \<Rightarrow> pending | Some old \<Rightarrow> foldl merge_pending old pending)
            (tp_pendingMachUpdates t)\<rparr>, [], None))"

definition MissPeersByUpdatesExit :: "Topic \<Rightarrow> bool" where
  "MissPeersByUpdatesExit t = (length (tp_pendingMachUpdates t) = 0)"

section \<open>Requests\<close>

definition known_or_self :: "Topic \<Rightarrow> string \<Rightarrow> bool" where
  "known_or_self t pid = (ghas (tp_netMachs t) pid \<or> pid = tp_self t)"

definition MsgReqInfoEnter :: "topic_in \<Rightarrow> TopicArgs \<Rightarrow> Topic \<Rightarrow> bool" where
  "MsgReqInfoEnter i a t =
     (case ta_MsgReqInfo a of
        None \<Rightarrow> False
      | Some pids \<Rightarrow>
          ta_PeerId a \<noteq> [] \<and> list_ex (known_or_self t) pids
          \<and> (length (tp_netMachs t) = 0 \<or> ti_rnd i 0 mod length (tp_netMachs t) \<noteq> 0))"

definition MsgReqInfoState :: "topic_in \<Rightarrow> TopicArgs \<Rightarrow> Topic \<Rightarrow> topic_out" where
  "MsgReqInfoState i a t =
     (let asked = sl (ta_MsgReqInfo a);
          t1 = t\<lparr>tp_reqInfo := foldl (\<lambda>m pid. gput pid (ti_now i) m) (tp_reqInfo t) asked\<rparr>
      in (confirm_sender a t1, [TpAdd ''SendInfo'' (TopicArgs_zero\<lparr>ta_PeerIds := filter (known_or_self t) asked\<rparr>)], None))"

text \<open>The guard of \<open>MsgReqUpdates\<close> reads \<open>MsgReqInfo\<close>.\<close>

definition MsgReqUpdatesEnter :: "topic_in \<Rightarrow> TopicArgs \<Rightarrow> Topic \<Rightarrow> bool res" where
  "MsgReqUpdatesEnter i a t =
     (case ta_MsgReqInfo a of
        None \<Rightarrow> Inr False
      | Some pids \<Rightarrow>
          if ta_PeerId a = [] \<or> \<not> list_ex (known_or_self t) pids then Inr False
          else if length (tp_netMachs t) = 0 then Inl (GoPanic ''invalid argument to Intn'')
          else Inr (ti_rnd i 0 mod length (tp_netMachs t) \<noteq> 0))"

fun clocks_of :: "(int, NetworkMachine) gomap \<Rightarrow> MachClocks res" where
  "clocks_of [] = Inr []"
| "clocks_of ((idx, nm) # nms) = bindR (nm_Time nm None) (\<lambda>time. bindR (clocks_of nms) (\<lambda>cs. Inr ((idx, time) # cs)))"

definition exposed_time :: "Machine \<Rightarrow> Time" where
  "exposed_time m = (case mach_Time m None of None \<Rightarrow> [] | Some time \<Rightarrow> time)"

definition exposed_clocks :: "Topic \<Rightarrow> MachClocks" where
  "exposed_clocks t = zip (map int [0..<length (tp_ExposedMachs t)]) (map (exposed_time \<circ> fst) (tp_ExposedMachs t))"

text \<open>The update collected so far is given along with the topic.\<close>

fun req_updates :: "topic_in \<Rightarrow> string list \<Rightarrow> PeerClocks \<Rightarrow> Topic \<Rightarrow> Topic \<times> PeerClocks \<times> fault option" where
  "req_updates i [] acc t = (t, acc, None)"
| "req_updates i (pid # pids) acc t =
     (let acc1 = (if pid = tp_self t then gput pid (exposed_clocks t) acc else acc);
          t1 = t\<lparr>tp_reqUpdate := gput pid (ti_now i) (tp_reqUpdate t)\<rparr>
      in case gget (tp_netMachs t1) pid of
           None \<Rightarrow> req_updates i pids acc1 t1
         | Some nms \<Rightarrow>
             (case clocks_of nms of
                Inl e \<Rightarrow> (t1, acc1, Some e)
              | Inr cs \<Rightarrow> req_updates i pids (gput pid cs acc1) t1))"

definition MsgReqUpdatesState :: "topic_in \<Rightarrow> TopicArgs \<Rightarrow> Topic \<Rightarrow> topic_out" where
  "MsgReqUpdatesState i a t =
     (case req_updates i (sl (ta_MsgReqUpdates a)) [] t of
        (t1, acc, Some e) \<Rightarrow> (t1, [], Some e)
      | (t1, acc, None) \<Rightarrow>
          (confirm_sender a t1,
           if length acc = 0 \<or> \<not> ti_pool i then []
           else [TpFork (GoSend None (MUpdates acc) (TopicArgs_zero\<lparr>ta_MsgType := MsgTypeUpdates\<rparr>))], None))"

section \<open>Peers and sending\<close>

definition PeerJoinedEnter :: "TopicArgs \<Rightarrow> bool" where
  "PeerJoinedEnter a = (ta_PeerId a \<noteq> [])"

definition PeerJoinedState :: "topic_in \<Rightarrow> TopicArgs \<Rightarrow> Topic \<Rightarrow> topic_out" where
  "PeerJoinedState i a t =
     (miss_peer (ta_PeerId a) t,
      TpRemove ''PeerJoined''
        # (if ti_queueLen i > tp_MaxQueueLen t then [] else [TpAdd ''SendInfo'' (TopicArgs_zero\<lparr>ta_PeerIds := [tp_self t]\<rparr>)]), None)"

definition PeerLeftEnter :: "TopicArgs \<Rightarrow> bool" where
  "PeerLeftEnter a = (ta_PeerId a \<noteq> [])"

definition MsgByeEnter :: "TopicArgs \<Rightarrow> bool" where
  "MsgByeEnter a = ta_MsgBye a"

definition MsgReceivedEnter :: "TopicArgs \<Rightarrow> bool" where
  "MsgReceivedEnter a = (ta_Msgs a \<noteq> None)"

text \<open>The guard counts the messages of a window. Encoded messages are not empty.\<close>

definition msgs_window :: "topic_in \<Rightarrow> Topic \<Rightarrow> int" where
  "msgs_window i t = (ti_now i div second) mod 60 div tp_Multiplayer t"

definition SendMsgEnter :: "topic_in \<Rightarrow> TopicArgs \<Rightarrow> Topic \<Rightarrow> (Topic \<times> bool) res" where
  "SendMsgEnter i a t =
     (if tp_Multiplayer t = 0 then Inl (GoPanic ''integer divide by zero'')
      else let win = msgs_window i t;
               t1 = (if tp_msgsWin t \<noteq> win then t\<lparr>tp_msgsWin := win, tp_msgsWinCount := 0\<rparr> else t);
               t2 = t1\<lparr>tp_msgsWinCount := tp_msgsWinCount t1 + 1\<rparr>
           in Inr (t2, \<not> tp_msgsWinCount t2 > tp_MaxMsgsPerWin t2 \<and> ta_Msg a \<noteq> None))"

definition SendMsgState :: "topic_in \<Rightarrow> TopicArgs \<Rightarrow> Topic \<Rightarrow> topic_out" where
  "SendMsgState i a t =
     (if ta_MsgType a = MsgTypeReqInfo then t\<lparr>tp_lastReqHello := ti_now i\<rparr>
      else if ta_MsgType a = MsgTypeReqUpdates then t\<lparr>tp_lastReqUpdate := ti_now i\<rparr> else t,
      case ta_Msg a of None \<Rightarrow> [] | Some msg \<Rightarrow> if ti_pool i then [TpFork (GoPublish msg)] else [], None)"

definition SendInfoEnter :: "TopicArgs \<Rightarrow> bool" where
  "SendInfoEnter a = (length (ta_PeerIds a) > 0)"

definition SendInfoState :: "topic_in \<Rightarrow> TopicArgs \<Rightarrow> Topic \<Rightarrow> topic_out" where
  "SendInfoState i a t =
     (if tp_SendInfoDebounceMs t * tp_Multiplayer t * 2 \<le> 0 then (t, [], Some (GoPanic ''invalid argument to Intn''))
      else (t, [if ti_valid i then TpFork (GoSendInfo (ta_PeerIds a)) else TpRemove ''SendInfo''], None))"

text \<open>The sums of the machines of randomly chosen peers; \<open>k\<close> numbers the random choices.\<close>

fun sums_of :: "(int, NetworkMachine) gomap \<Rightarrow> Gossips res" where
  "sums_of [] = Inr []"
| "sums_of ((idx, nm) # nms) = bindR (nm_sum nm) (\<lambda>x. bindR (sums_of nms) (\<lambda>xs. Inr ((idx, x) # xs)))"

definition random_gossip :: "topic_in \<Rightarrow> Topic \<Rightarrow> nat \<Rightarrow> PeerGossips \<Rightarrow> PeerGossips res" where
  "random_gossip i t k acc =
     (if tp_netMachs t = [] then Inl (GoPanic ''invalid argument to Intn'')
      else case tp_netMachs t ! (ti_rnd i k mod length (tp_netMachs t)) of
        (pid, nms) \<Rightarrow> if length nms = 0 then Inr acc else bindR (sums_of nms) (\<lambda>sums. Inr (gput pid sums acc)))"

fun random_gossips :: "topic_in \<Rightarrow> Topic \<Rightarrow> nat \<Rightarrow> nat \<Rightarrow> PeerGossips \<Rightarrow> PeerGossips res" where
  "random_gossips i t 0 k acc = Inr acc"
| "random_gossips i t (Suc n) k acc = bindR (random_gossip i t k acc) (random_gossips i t n (Suc k))"

definition SendGossipsEnter :: "topic_in \<Rightarrow> Topic \<Rightarrow> bool" where
  "SendGossipsEnter i t = (length (tp_netMachs t) \<noteq> 0 \<and> ti_rnd i 0 mod length (tp_netMachs t) = 0)"

definition SendGossipsState :: "topic_in \<Rightarrow> Topic \<Rightarrow> topic_out" where
  "SendGossipsState i t =
     (case random_gossips i t (tp_GossipAmount t) 0 [] of
        Inl e \<Rightarrow> (t, [], Some e)
      | Inr sendPids \<Rightarrow>
          (t, [if ti_valid i
               then TpFork (GoSend (Some ''SendGossips'') (MGossip sendPids) (TopicArgs_zero\<lparr>ta_MsgType := MsgTypeGossip\<rparr>))
               else TpRemove ''SendGossips''], None))"

definition DoSendInfoEnter :: "TopicArgs \<Rightarrow> bool" where
  "DoSendInfoEnter a = (length (ta_PeerIds a) > 0)"

definition exposed_info :: "Topic \<Rightarrow> Machine \<Rightarrow> Info" where
  "exposed_info t m =
     \<lparr>in_Id = m_id m, in_Schema = (if tp_TestSchema t = None then Some (m_schema m) else None),
      in_States = (if tp_TestStates t = None then m_stateNames m else []), in_MTime = exposed_time m,
      in_Tags = sl (m_tags m), in_Parent = m_parentId m\<rparr>"

definition peer_info :: "Topic \<Rightarrow> PeerInfo \<Rightarrow> string \<Rightarrow> PeerInfo" where
  "peer_info t acc pid =
     (if pid = tp_self t
      then gput pid (zip (map int [0..<length (tp_ExposedMachs t)]) (map (exposed_info t \<circ> fst) (tp_ExposedMachs t))) acc
      else case gget (tp_info t) pid of None \<Rightarrow> acc | Some machs \<Rightarrow> gput pid machs acc)"

definition DoSendInfoState :: "topic_in \<Rightarrow> TopicArgs \<Rightarrow> Topic \<Rightarrow> topic_out" where
  "DoSendInfoState i a t =
     (let pre = TpRemove ''DoSendInfo'' in
      case random_gossips i t (min (tp_GossipAmount t) (length (tp_netMachs t))) 0 [] of
        Inl e \<Rightarrow> (t, [pre], Some e)
      | Inr gossips \<Rightarrow>
          if \<not> ti_valid i then (t, [pre], None)
          else (t, [pre, case ti_encodeErr i of
                      Some err \<Rightarrow> TpErr err
                    | None \<Rightarrow> TpAdd ''SendMsg'' (TopicArgs_zero\<lparr>ta_Msg := Some (MInfo (foldl (peer_info t) [] (ta_PeerIds a)) gossips),
                        ta_MsgType := MsgTypeInfo\<rparr>)], None))"

section \<open>Heartbeat\<close>

definition dirty_clocks :: "Topic \<Rightarrow> MachClocks" where
  "dirty_clocks t =
     map (\<lambda>(idx, m, dirty). (idx, exposed_time m))
       (filter (\<lambda>(idx, m, dirty). dirty) (zip (map int [0..<length (tp_ExposedMachs t)]) (tp_ExposedMachs t)))"

definition topic_HeartbeatState :: "topic_in \<Rightarrow> Topic \<Rightarrow> topic_out" where
  "topic_HeartbeatState i t =
     (let pre = [TpRemove ''Heartbeat'', TpRemove ''MissPeersByGossip'', TpRemove ''MissPeersByUpdates'']
            @ map (\<lambda>state. TpAdd state TopicArgs_zero)
                (filter (\<lambda>state. \<not> ti_active i state \<and> \<not> ti_willBe i state) [''SendGossips'', ''ReqMissingUpdates'', ''ReqMissingPeers''])
      in if ti_active i ''SendUpdates'' \<or> ti_willBe i ''SendUpdates'' then (t, pre, None)
         else (t\<lparr>tp_ExposedMachs := map (\<lambda>(m, dirty). (m, False)) (tp_ExposedMachs t)\<rparr>,
               pre @ [TpAdd ''SendUpdates'' (TopicArgs_zero\<lparr>ta_MachClocks := Some (dirty_clocks t)\<rparr>)], None))"

definition SendUpdatesEnter :: "TopicArgs \<Rightarrow> bool" where
  "SendUpdatesEnter a = (length (sl (ta_MachClocks a)) > 0)"

definition SendUpdatesState :: "topic_in \<Rightarrow> TopicArgs \<Rightarrow> Topic \<Rightarrow> topic_out" where
  "SendUpdatesState i a t =
     (t, (if \<not> ti_valid i then []
          else case ti_encodeErr i of
            Some err \<Rightarrow> [TpErr err]
          | None \<Rightarrow> [TpAdd ''SendMsg'' (TopicArgs_zero\<lparr>ta_Msg := Some (MUpdates [(tp_self t, sl (ta_MachClocks a))]),
              ta_MsgType := MsgTypeUpdates\<rparr>)]) @ [TpRemove ''SendUpdates''], None)"

definition ReqMissingPeersEnter :: "topic_in \<Rightarrow> Topic \<Rightarrow> bool" where
  "ReqMissingPeersEnter i t =
     (\<not> (length (tp_missingPeers t) = 0 \<and> length (tp_pendingMachUpdates t) = 0) \<and> \<not> ti_now i - tp_lastReqHello t \<le> 5 * second)"

text \<open>The random choice of the peers to ask for, with \<open>n\<close> tries left, and the times of the requests.\<close>

fun pick_reqs :: "topic_in \<Rightarrow> int \<Rightarrow> string list \<Rightarrow> nat \<Rightarrow> nat \<Rightarrow> string list \<Rightarrow> (string, int) gomap \<Rightarrow> string list \<times> (string, int) gomap" where
  "pick_reqs i freq pids 0 k reqPids req = (reqPids, req)"
| "pick_reqs i freq pids (Suc n) k reqPids req =
     (if \<not> length reqPids < 5 then (reqPids, req)
      else let pid = pids ! (ti_rnd i k mod length pids) in
           if pid \<in> set reqPids \<or> (case gget req pid of None \<Rightarrow> False | Some req0 \<Rightarrow> ti_now i - req0 < freq)
           then pick_reqs i freq pids n (Suc k) reqPids req
           else pick_reqs i freq pids n (Suc k) (reqPids @ [pid]) (gput pid (ti_now i) req))"

definition req_freq :: "Topic \<Rightarrow> int" where
  "req_freq t = 5 * second * tp_Multiplayer t"

definition req_send :: "topic_in \<Rightarrow> string \<Rightarrow> topic_msg \<Rightarrow> string \<Rightarrow> string list \<Rightarrow> Topic \<Rightarrow> topic_call list" where
  "req_send i state msg msgType reqPids t =
     [if ti_pool i
      then TpFork (GoSend (Some state) msg (TopicArgs_zero\<lparr>ta_MsgType := msgType, ta_PeerId := hd reqPids, ta_Peer := peerName t (hd reqPids)\<rparr>))
      else TpRemove state]"

definition ReqMissingPeersState :: "topic_in \<Rightarrow> Topic \<Rightarrow> topic_out" where
  "ReqMissingPeersState i t =
     (let pids = tp_missingPeers t @ gkeys (tp_pendingMachUpdates t) in
      if pids = [] then (t, [], Some (GoPanic ''invalid argument to Intn''))
      else case pick_reqs i (req_freq t) pids 15 0 [] (tp_reqInfo t) of
        (reqPids, req) \<Rightarrow>
          (t\<lparr>tp_reqInfo := req\<rparr>,
           if reqPids = [] then [TpRemove ''ReqMissingPeers'']
           else req_send i ''ReqMissingPeers'' (MReqInfo reqPids) MsgTypeReqInfo reqPids t, None))"

definition ReqMissingUpdatesEnter :: "topic_in \<Rightarrow> Topic \<Rightarrow> bool" where
  "ReqMissingUpdatesEnter i t =
     (length (tp_missingUpdates t) \<noteq> 0 \<and> \<not> ti_now i - tp_lastReqUpdate t \<le> 5 * second)"

definition ReqMissingUpdatesState :: "topic_in \<Rightarrow> Topic \<Rightarrow> topic_out" where
  "ReqMissingUpdatesState i t =
     (let pids = gkeys (tp_missingUpdates t) in
      if pids = [] then (t, [], Some (GoPanic ''invalid argument to Intn''))
      else case pick_reqs i (req_freq t) pids 15 0 [] (tp_reqUpdate t) of
        (reqPids, req) \<Rightarrow>
          (t\<lparr>tp_reqUpdate := req\<rparr>,
           if reqPids = [] \<or> \<not> ti_valid i then [TpRemove ''ReqMissingUpdates'']
           else req_send i ''ReqMissingUpdates'' (MReqUpdates reqPids) MsgTypeReqUpdates reqPids t, None))"

section \<open>Other handlers and methods\<close>

definition ListMachinesEnter :: "TopicArgs \<Rightarrow> bool" where
  "ListMachinesEnter a = (case ta_NetMachs a of None \<Rightarrow> False | Some cap \<Rightarrow> cap > 0)"

definition list_match :: "ListFilters \<Rightarrow> string \<Rightarrow> NetworkMachine \<Rightarrow> bool" where
  "list_match f pid w =
     ((lf_IdExact f = [] \<or> nm_id w = lf_IdExact f)
      \<and> (case lf_IdRegexp f of None \<Rightarrow> True | Some re \<Rightarrow> re (nm_id w))
      \<and> (lf_IdPartial f = [] \<or> strings_Contains (nm_id w) (lf_IdPartial f))
      \<and> (lf_PeerId f = [] \<or> pid = lf_PeerId f)
      \<and> (lf_Parent f = [] \<or> nm_parentId w = lf_Parent f))"

text \<open>The list is sent to the channel.\<close>

definition ListMachinesState :: "TopicArgs \<Rightarrow> Topic \<Rightarrow> NetworkMachine list \<times> topic_out" where
  "ListMachinesState a t =
     (let f = (case ta_ListFilters a of None \<Rightarrow> \<lparr>lf_IdExact = [], lf_IdPartial = [], lf_IdRegexp = None, lf_Parent = [], lf_PeerId = []\<rparr> | Some f \<Rightarrow> f)
      in (concat (map (\<lambda>(pid, nms). filter (list_match f pid) (map snd nms)) (tp_netMachs t)), (t, [TpRemove ''ListMachines''], None)))"

definition topic_ExceptionEnter :: "bool \<Rightarrow> bool" where
  "topic_ExceptionEnter isEvalTimeout = (\<not> isEvalTimeout)"

definition topic_ExceptionState :: "bool \<Rightarrow> S \<Rightarrow> Topic \<Rightarrow> topic_out" where
  "topic_ExceptionState isHandlerTimeout target t =
     (if isHandlerTimeout \<and> ''ErrJoining'' \<in> set target \<and> \<not> tp_retried t then (t\<lparr>tp_retried := True\<rparr>, [TpRemove ''Exception''], None)
      else (t, [], None))"

definition topic_ReadyEnter :: "int \<Rightarrow> Topic \<Rightarrow> bool" where
  "topic_ReadyEnter connCount t = (connCount \<ge> tp_ConnectionsToReady t)"

definition topic_StartEnter :: "Topic \<Rightarrow> bool" where
  "topic_StartEnter t = (length (tp_ListenAddrs t) > 0)"

definition topic_ConnectingEnter :: "Topic \<Rightarrow> bool" where
  "topic_ConnectingEnter t = (length (tp_ConnAddrs t) > 0)"

definition JoinedState :: "Topic \<Rightarrow> topic_out" where
  "JoinedState t = (t\<lparr>tp_retried := False\<rparr>, [], None)"

text \<open>The first greeting, some time after \<open>Joined\<close>.\<close>

definition go_Hello :: "Topic \<Rightarrow> topic_call list" where
  "go_Hello t = (if length (tp_ExposedMachs t) > 0 then [TpAdd ''SendInfo'' (TopicArgs_zero\<lparr>ta_PeerIds := [tp_self t]\<rparr>)] else [])"

datatype topic_end = EndExpired | EndErr string | EndOk

fun go_topic :: "topic_go \<Rightarrow> topic_end \<Rightarrow> topic_call list" where
  "go_topic (GoPublish msg) out = TpPublish msg # (case out of EndErr err \<Rightarrow> [TpErr err] | _ \<Rightarrow> [])"
| "go_topic (GoSend state msg args) out =
     (case out of EndExpired \<Rightarrow> [] | EndErr err \<Rightarrow> [TpErr err] | EndOk \<Rightarrow> [TpAdd ''SendMsg'' (args\<lparr>ta_Msg := Some msg\<rparr>)])
     @ (case state of None \<Rightarrow> [] | Some st \<Rightarrow> [TpRemove st])"
| "go_topic (GoSendInfo pids) out =
     (case out of EndExpired \<Rightarrow> [] | _ \<Rightarrow> [TpAdd ''DoSendInfo'' (TopicArgs_zero\<lparr>ta_PeerIds := pids\<rparr>)]) @ [TpRemove ''SendInfo'']"

text \<open>\<open>StartAndJoin\<close>: the result of adding \<open>Start\<close>, whether \<open>Connected\<close> was seen in time, the result of \<open>Join\<close>.\<close>

definition StartAndJoin :: "Result \<Rightarrow> bool \<Rightarrow> Result \<Rightarrow> Result" where
  "StartAndJoin started connected joined = (if started = Canceled then Canceled else if \<not> connected then Canceled else joined)"

section \<open>Runs\<close>

text \<open>The handlers of an added state: its guard, then its final handler.\<close>

definition when_ok :: "bool \<Rightarrow> topic_out \<Rightarrow> Topic \<Rightarrow> topic_out" where
  "when_ok ok out t = (if ok then out else (t, [], None))"

definition when_res :: "bool res \<Rightarrow> topic_out \<Rightarrow> Topic \<Rightarrow> topic_out" where
  "when_res r out t = (case r of Inl e \<Rightarrow> (t, [], Some e) | Inr ok \<Rightarrow> when_ok ok out t)"

definition send_msg :: "topic_in \<Rightarrow> TopicArgs \<Rightarrow> Topic \<Rightarrow> topic_out" where
  "send_msg i a t =
     (case SendMsgEnter i a t of Inl e \<Rightarrow> (t, [], Some e) | Inr (t1, ok) \<Rightarrow> when_ok ok (SendMsgState i a t1) t1)"

definition topic_handlers :: "topic_in \<Rightarrow> TopicArgs \<Rightarrow> Topic \<Rightarrow> (string \<times> topic_out) list" where
  "topic_handlers i a t =
     [(''ProcessMsgs'', ProcessMsgsState i a t),
      (''MsgInfo'', when_ok (MsgInfoEnter a t) (MsgInfoState i a t) t),
      (''MissPeersByGossip'', when_ok (MissPeersByGossipEnter a t) (MissPeersByGossipState a t) t),
      (''MissUpdatesByGossip'', when_res (MissUpdatesByGossipEnter a t) (MissUpdatesByGossipState a t) t),
      (''PeerJoined'', when_ok (PeerJoinedEnter a) (PeerJoinedState i a t) t),
      (''SendMsg'', send_msg i a t),
      (''SendInfo'', when_ok (SendInfoEnter a) (SendInfoState i a t) t),
      (''MsgUpdates'', when_ok (MsgUpdatesEnter a) (MsgUpdatesState i a t) t),
      (''MsgReqInfo'', when_ok (MsgReqInfoEnter i a t) (MsgReqInfoState i a t) t),
      (''MsgReqUpdates'', when_res (MsgReqUpdatesEnter i a t) (MsgReqUpdatesState i a t) t),
      (''MissPeersByUpdates'', when_ok (MissPeersByUpdatesEnter a) (MissPeersByUpdatesState a t) t),
      (''ListMachines'', when_ok (ListMachinesEnter a) (snd (ListMachinesState a t)) t),
      (''Heartbeat'', topic_HeartbeatState i t),
      (''SendUpdates'', when_ok (SendUpdatesEnter a) (SendUpdatesState i a t) t),
      (''SendGossips'', when_ok (SendGossipsEnter i t) (SendGossipsState i t) t),
      (''ReqMissingPeers'', when_ok (ReqMissingPeersEnter i t) (ReqMissingPeersState i t) t),
      (''ReqMissingUpdates'', when_ok (ReqMissingUpdatesEnter i t) (ReqMissingUpdatesState i t) t),
      (''DoSendInfo'', when_ok (DoSendInfoEnter a) (DoSendInfoState i a t) t),
      (''Joined'', JoinedState t)]"

definition topic_handle :: "topic_in \<Rightarrow> string \<Rightarrow> TopicArgs \<Rightarrow> Topic \<Rightarrow> topic_out" where
  "topic_handle i state a t = (case map_of (topic_handlers i a t) state of None \<Rightarrow> (t, [], None) | Some out \<Rightarrow> out)"

text \<open>The machine runs one handler at a time. Which states are added, in what order and with which arguments, depends on the queue, the
  goroutines and the other peers: here on nothing. The exposed machines make transitions meanwhile.\<close>

inductive topic_reach :: "Topic \<Rightarrow> Topic \<Rightarrow> bool" for t0 where
  start: "topic_reach t0 t0"
| handle: "topic_reach t0 t \<Longrightarrow> topic_handle i state a t = (t', calls, r) \<Longrightarrow> topic_reach t0 t'"
| exposed: "topic_reach t0 t \<Longrightarrow> topic_reach t0 (topic_TransitionEnd k m t)"

end
