(* ===== verification/Am_Pubsub_Facts.thy ===== *)
theory Am_Pubsub_Facts
  imports Am_Pubsub Am_Netmach_Facts
begin

text \<open>
  Facts about the pub/sub topic: over all runs it never learns a machine of another peer; what an update does to the machines it
  knows; how many messages a window lets through; what the receive loop keeps.
\<close>

section \<open>Outcomes of handlers\<close>

text \<open>A property of the topic that every step of a handler keeps, with or without a fault.\<close>

definition keeps_topic :: "(Topic \<Rightarrow> bool) \<Rightarrow> topic_out \<Rightarrow> bool" where
  "keeps_topic P out = P (fst out)"

lemma keeps_topic_simp [simp]: "keeps_topic P (t, calls, r) = P t"
  by (simp add: keeps_topic_def)

lemma keeps_then: "keeps_topic P out \<Longrightarrow> (\<And>t. P t \<Longrightarrow> keeps_topic P (f t)) \<Longrightarrow> keeps_topic P (tp_then out f)"
  by (cases out) (auto simp: tp_then_def keeps_topic_def split: option.splits prod.splits, (metis fst_conv)+)

lemma keeps_each: "P t \<Longrightarrow> (\<And>x t. P t \<Longrightarrow> keeps_topic P (f x t)) \<Longrightarrow> keeps_topic P (tp_each f xs t)"
  by (induction xs arbitrary: t) (auto intro!: keeps_then)

lemma tp_then_ok [simp]: "tp_then (t, calls, None) f = (case f t of (t', calls', r) \<Rightarrow> (t', calls @ calls', r))"
  by (simp add: tp_then_def)

lemma tp_then_fault [simp]: "tp_then (t, calls, Some e) f = (t, calls, Some e)"
  by (simp add: tp_then_def)

section \<open>No machine is learned\<close>

definition knows_nothing :: "Topic \<Rightarrow> bool" where
  "knows_nothing t =
     ((\<forall>p \<in> set (tp_netMachs t). snd p = []) \<and> (\<forall>p \<in> set (tp_netMachsIntApi t). snd p = []))"

lemma set_gput: "set (gput k v m) \<subseteq> insert (k, v) (set m)"
  unfolding gput_def by (induction m) auto

lemma empty_lookup: "(\<forall>p \<in> set m. snd p = []) \<Longrightarrow> ggetd [] m k = []"
  by (fastforce simp: ggetd_def split: option.splits dest: map_of_SomeD)

lemma empty_gput: "(\<forall>p \<in> set m. snd p = []) \<Longrightarrow> (\<forall>p \<in> set (gput k [] m). snd p = [])"
  using set_gput [of k "[]" m] by auto

lemma knows_nothing_upd [simp]:
  "knows_nothing (t\<lparr>tp_missingPeers := a\<rparr>) = knows_nothing t" "knows_nothing (t\<lparr>tp_missingUpdates := b\<rparr>) = knows_nothing t"
  "knows_nothing (t\<lparr>tp_pendingMachUpdates := c\<rparr>) = knows_nothing t" "knows_nothing (t\<lparr>tp_reqInfo := d\<rparr>) = knows_nothing t"
  "knows_nothing (t\<lparr>tp_reqUpdate := d\<rparr>) = knows_nothing t" "knows_nothing (t\<lparr>tp_lastReqHello := e\<rparr>) = knows_nothing t"
  "knows_nothing (t\<lparr>tp_lastReqUpdate := e\<rparr>) = knows_nothing t" "knows_nothing (t\<lparr>tp_msgsWin := e\<rparr>) = knows_nothing t"
  "knows_nothing (t\<lparr>tp_msgsWinCount := n\<rparr>) = knows_nothing t" "knows_nothing (t\<lparr>tp_ExposedMachs := g\<rparr>) = knows_nothing t"
  "knows_nothing (t\<lparr>tp_retried := h\<rparr>) = knows_nothing t"
  by (simp_all add: knows_nothing_def)

lemma confirm_sender_nothing [simp]: "knows_nothing (confirm_sender a t) = knows_nothing t"
  by (simp add: confirm_sender_def miss_peer_def)

lemma update_clock_nil: "knows_nothing t \<Longrightarrow> update_clock env pid idx mtime t = (t, [], nil_pointer)"
  by (simp add: update_clock_def knows_nothing_def empty_lookup)

lemma first_clock_nil: "knows_nothing t \<Longrightarrow> first_clock i pid idx info t = (t, [], nil_pointer)"
  by (simp add: first_clock_def update_clock_nil nil_pointer_def split: option.splits)

lemma info_mach_nil:
  assumes "knows_nothing t"
  shows "info_mach i pid (idx, info) t =
     (case info_netMach i t pid idx info of
        Inl e \<Rightarrow> (t, [TpErr ''schema and stateNames must have the same length''], None)
      | Inr nm \<Rightarrow> (t, [], nil_pointer))"
proof -
  have "ggetd [] (tp_netMachs t) pid = []" using assms by (simp add: knows_nothing_def empty_lookup)
  then show ?thesis
    by (simp add: info_mach_def first_clock_nil [OF assms] nil_pointer_def gget_def split: sum.splits)
qed

lemma init_peer_nothing: "knows_nothing t \<Longrightarrow> knows_nothing (init_peer pid t)"
  using empty_gput [of "tp_netMachs t" pid] empty_gput [of "tp_netMachsIntApi t" pid] by (auto simp: init_peer_def knows_nothing_def)

lemma info_mach_keeps: "knows_nothing t \<Longrightarrow> keeps_topic knows_nothing (info_mach i pid x t)"
  by (cases x) (simp add: info_mach_nil split: sum.splits)

lemma found_peer_keeps: "knows_nothing t \<Longrightarrow> keeps_topic knows_nothing (found_peer pid t)"
  by (simp add: found_peer_def)

lemma info_peer_keeps: "knows_nothing t \<Longrightarrow> keeps_topic knows_nothing (info_peer i x t)"
  by (cases x) (auto simp: info_peer_def intro!: keeps_then keeps_each info_mach_keeps found_peer_keeps init_peer_nothing)

lemma gossip_mach_keeps: "knows_nothing t \<Longrightarrow> keeps_topic knows_nothing (gossip_mach pid x t)"
  by (cases x) (auto simp: gossip_mach_def note_missing_def split: option.splits sum.splits)

lemma gossip_peer_keeps: "knows_nothing t \<Longrightarrow> keeps_topic knows_nothing (gossip_peer x t)"
  by (cases x)
     (auto simp: gossip_peer_def init_missing_def drop_empty_def intro!: keeps_then keeps_each gossip_mach_keeps)

lemma update_mach_nil: "knows_nothing t \<Longrightarrow> update_mach i pid x t = (t, [], None)"
  by (cases x) (simp add: update_mach_def knows_nothing_def empty_lookup gget_def)

lemma update_peer_keeps: "knows_nothing t \<Longrightarrow> keeps_topic knows_nothing (update_peer i x t)"
  by (cases x) (auto simp: update_peer_def update_mach_nil intro!: keeps_each)

lemma req_updates_keeps: "knows_nothing t \<Longrightarrow> knows_nothing (fst (req_updates i pids acc t))"
  by (induction pids arbitrary: acc t) (auto simp: Let_def split: option.splits sum.splits)

lemma miss_gossiped_keeps: "knows_nothing t \<Longrightarrow> knows_nothing (foldl miss_gossiped t xs)"
  by (induction xs arbitrary: t) (auto simp: miss_gossiped_def miss_peer_def)

lemma when_ok_keeps: "P t \<Longrightarrow> (ok \<Longrightarrow> keeps_topic P out) \<Longrightarrow> keeps_topic P (when_ok ok out t)"
  by (simp add: when_ok_def)

lemma when_res_keeps: "P t \<Longrightarrow> keeps_topic P out \<Longrightarrow> keeps_topic P (when_res r out t)"
  by (simp add: when_res_def when_ok_def split: sum.splits)

lemma send_msg_keeps: "knows_nothing t \<Longrightarrow> keeps_topic knows_nothing (send_msg i a t)"
  by (auto simp: send_msg_def SendMsgEnter_def SendMsgState_def Let_def when_ok_def split: sum.splits)

lemma MsgReqUpdatesState_keeps: "knows_nothing t \<Longrightarrow> keeps_topic knows_nothing (MsgReqUpdatesState i a t)"
  using req_updates_keeps [of t i "sl (ta_MsgReqUpdates a)" "[]"]
  by (auto simp: MsgReqUpdatesState_def split: prod.splits option.splits)

lemma MsgInfoState_keeps: "knows_nothing t \<Longrightarrow> keeps_topic knows_nothing (MsgInfoState i a t)"
  unfolding MsgInfoState_def by (rule keeps_then, rule keeps_each) (simp_all add: info_peer_keeps)

lemma MissUpdatesByGossipState_keeps: "knows_nothing t \<Longrightarrow> keeps_topic knows_nothing (MissUpdatesByGossipState a t)"
  unfolding MissUpdatesByGossipState_def by (rule keeps_each) (simp_all add: gossip_peer_keeps)

lemma MsgUpdatesState_keeps: "knows_nothing t \<Longrightarrow> keeps_topic knows_nothing (MsgUpdatesState i a t)"
  unfolding MsgUpdatesState_def by (rule keeps_then, rule keeps_each) (simp_all add: update_peer_keeps)

lemma plain_handlers_keep:
  assumes "knows_nothing t"
  shows "keeps_topic knows_nothing (ProcessMsgsState i a t)" "keeps_topic knows_nothing (MissPeersByGossipState a t)"
    "keeps_topic knows_nothing (PeerJoinedState i a t)" "keeps_topic knows_nothing (SendInfoState i a t)"
    "keeps_topic knows_nothing (MsgReqInfoState i a t)" "keeps_topic knows_nothing (MissPeersByUpdatesState a t)"
    "keeps_topic knows_nothing (snd (ListMachinesState a t))" "keeps_topic knows_nothing (topic_HeartbeatState i t)"
    "keeps_topic knows_nothing (SendUpdatesState i a t)" "keeps_topic knows_nothing (SendGossipsState i t)"
    "keeps_topic knows_nothing (ReqMissingPeersState i t)" "keeps_topic knows_nothing (ReqMissingUpdatesState i t)"
    "keeps_topic knows_nothing (DoSendInfoState i a t)" "keeps_topic knows_nothing (JoinedState t)"
  using assms
  by (simp_all add: ProcessMsgsState_def MissPeersByGossipState_def miss_gossiped_keeps PeerJoinedState_def miss_peer_def
    SendInfoState_def MsgReqInfoState_def MissPeersByUpdatesState_def ListMachinesState_def topic_HeartbeatState_def
    SendUpdatesState_def SendGossipsState_def ReqMissingPeersState_def ReqMissingUpdatesState_def DoSendInfoState_def
    JoinedState_def Let_def split: sum.split prod.split)

lemmas handler_keeps = plain_handlers_keep send_msg_keeps MsgReqUpdatesState_keeps MsgInfoState_keeps
  MissUpdatesByGossipState_keeps MsgUpdatesState_keeps

lemma handlers_keep:
  assumes "knows_nothing t"
  shows "\<forall>p \<in> set (topic_handlers i a t). keeps_topic knows_nothing (snd p)"
  by (simp add: topic_handlers_def assms handler_keeps [OF assms] when_ok_keeps when_res_keeps)

lemma topic_handle_keeps:
  assumes "knows_nothing t"
  shows "keeps_topic knows_nothing (topic_handle i state a t)"
  using handlers_keep [OF assms, of i a] assms
  by (auto simp: topic_handle_def split: option.splits dest!: map_of_SomeD bspec)

lemma reach_nothing: "topic_reach t0 t \<Longrightarrow> knows_nothing t0 \<Longrightarrow> knows_nothing t"
proof (induction rule: topic_reach.induct)
  case (handle t i state a t' calls r)
  then show ?case using topic_handle_keeps [of t i state a] by simp
qed (simp_all add: topic_TransitionEnd_def)

text \<open>What a handler reads of the configuration.\<close>

definition like :: "Topic \<Rightarrow> Topic \<Rightarrow> bool" where
  "like t0 t = (knows_nothing t \<and> tp_self t = tp_self t0 \<and> tp_Id t = tp_Id t0 \<and> tp_TestSchema t = tp_TestSchema t0
     \<and> tp_TestStates t = tp_TestStates t0)"

lemma like_netMach: "like t0 t \<Longrightarrow> info_netMach i t pid idx info = info_netMach i t0 pid idx info"
  by (simp add: like_def info_netMach_def)

text \<open>Handlers of the elements of a list that keep a property and fault only in one way, one of them for sure.\<close>

lemma each_faults:
  assumes "x \<in> set xs" "P t"
    and "\<And>y t. P t \<Longrightarrow> y \<in> set xs \<Longrightarrow> keeps_topic P (f y t) \<and> snd (snd (f y t)) \<in> {None, Some e}"
    and "\<And>t. P t \<Longrightarrow> snd (snd (f x t)) = Some e"
  shows "\<exists>t' calls. tp_each f xs t = (t', calls, Some e) \<and> P t'"
  using assms
proof (induction xs arbitrary: t)
  case (Cons y ys)
  obtain t1 c1 r1 where y: "f y t = (t1, c1, r1)" by (cases "f y t")
  from Cons.prems(3) [OF Cons.prems(2), of y] y have p: "P t1" "r1 = None \<or> r1 = Some e" by auto
  show ?case
  proof (cases r1)
    case None
    have "x \<in> set ys" using Cons.prems(1) Cons.prems(4) [OF Cons.prems(2)] y None by auto
    from Cons.IH [OF this p(1)] Cons.prems(3,4) obtain t' calls where "tp_each f ys t1 = (t', calls, Some e)" "P t'"
      by (auto)
    with y None show ?thesis by simp
  qed (use p y in simp)
qed simp

lemma info_mach_like:
  assumes "like t0 t"
  shows "keeps_topic (like t0) (info_mach i pid x t) \<and> snd (snd (info_mach i pid x t)) \<in> {None, nil_pointer}"
  using assms by (cases x) (auto simp: info_mach_nil like_def split: sum.splits)

lemma peer_ready_like:
  assumes "like t0 t"
  shows "\<exists>t1 calls. found_peer pid (init_peer pid t) = (t1, calls, None) \<and> like t0 t1"
  using assms init_peer_nothing [of t pid] by (auto simp: like_def found_peer_def) (simp_all add: init_peer_def)

lemma info_peer_like:
  assumes "like t0 t"
  shows "keeps_topic (like t0) (info_peer i x t) \<and> snd (snd (info_peer i x t)) \<in> {None, nil_pointer}"
proof -
  obtain pid machs where x: "x = (pid, machs)" by (cases x)
  obtain t1 calls where r: "found_peer pid (init_peer pid t) = (t1, calls, None)" "like t0 t1" using peer_ready_like [OF assms] by blast
  have "keeps_topic (like t0) (tp_each (info_mach i pid) machs t1)
      \<and> snd (snd (tp_each (info_mach i pid) machs t1)) \<in> {None, nil_pointer}"
    using r(2)
  proof (induction machs arbitrary: t1)
    case (Cons y ys)
    obtain t2 c2 r2 where y: "info_mach i pid y t1 = (t2, c2, r2)" by (cases "info_mach i pid y t1")
    with info_mach_like [OF Cons.prems, of i pid y] Cons.IH [of t2] show ?case
      by (cases r2) (auto simp: nil_pointer_def split: prod.splits)
  qed simp
  with r x assms show ?thesis by (auto simp: info_peer_def split: prod.splits)
qed

lemma info_peer_panics:
  assumes "(idx, info) \<in> set machs" "pid \<noteq> tp_self t0" "info_netMach i t0 pid idx info = Inr nm" "like t0 t"
  shows "snd (snd (info_peer i (pid, machs) t)) = nil_pointer"
proof -
  obtain t1 calls where r: "found_peer pid (init_peer pid t) = (t1, calls, None)" "like t0 t1"
    using peer_ready_like [OF assms(4)] by blast
  have "\<exists>t' calls. tp_each (info_mach i pid) machs t1 = (t', calls, Some (GoPanic ''nil pointer dereference'')) \<and> like t0 t'"
  proof (rule each_faults [where P = "like t0", OF assms(1) r(2)])
    fix t assume t: "like t0 t"
    then have "knows_nothing t" by (simp add: like_def)
    from info_mach_nil [OF this, of i pid idx info] like_netMach [OF t, of i pid idx info] assms(3)
    show "snd (snd (info_mach i pid (idx, info) t)) = Some (GoPanic ''nil pointer dereference'')" by (simp add: nil_pointer_def)
  qed (use info_mach_like in \<open>simp add: nil_pointer_def\<close>)
  with r assms show ?thesis by (auto simp: info_peer_def like_def nil_pointer_def split: prod.splits)
qed

lemma count_nothing: "knows_nothing t \<Longrightarrow> netMachsCount t = 0"
  by (auto simp: knows_nothing_def netMachsCount_def)

lemma MsgInfoEnter_nothing:
  assumes "knows_nothing t" "ta_MsgInfo a = Some (peers, gossips)" "ta_PeerId a \<noteq> []" "(pid, machs) \<in> set peers" "machs \<noteq> []"
  shows "MsgInfoEnter a t"
proof -
  have "ggetd [] (tp_netMachs t) pid = []" using assms(1) by (simp add: knows_nothing_def empty_lookup)
  then have "gget (tp_netMachs t) pid = None \<or> gget (tp_netMachs t) pid = Some []" by (auto simp: ggetd_gget split: option.splits)
  moreover obtain idx info where "(idx, info) \<in> set machs" using assms(5) by (cases machs) auto
  ultimately show ?thesis
    using assms(2-4) by (fastforce simp: MsgInfoEnter_def list_ex_iff ghas_def intro!: bexI [of _ "(pid, machs)"])
qed

text \<open>C33. No run of a topic ever learns a machine of another peer: whatever handlers have run, in whatever order, it knows none, and
  every message that describes a machine of another peer, if only a network machine can be made of the description, is accepted
  by the guard and then makes the handler panic on the internal methods of the machine, which are looked up before they are filed.\<close>

theorem no_machine_learned:
  assumes "topic_reach (NewTopic name suffix self machs) t"
    and "ta_MsgInfo a = Some (peers, gossips)" "ta_PeerId a \<noteq> []"
    and "(pid, infos) \<in> set peers" "(idx, info) \<in> set infos" "pid \<noteq> tp_self t" "info_netMach i t pid idx info = Inr nm"
  shows "netMachsCount t = 0
    \<and> (\<exists>t' calls. topic_handle i ''MsgInfo'' a t = (t', calls, Some (GoPanic ''nil pointer dereference'')) \<and> netMachsCount t' = 0)"
proof -
  have k: "knows_nothing t" by (rule reach_nothing [OF assms(1)]) (simp add: NewTopic_def knows_nothing_def)
  then have l: "like t t" by (simp add: like_def)
  have "\<exists>t' calls. tp_each (info_peer i) peers t = (t', calls, Some (GoPanic ''nil pointer dereference'')) \<and> like t t'"
    by (rule each_faults [where P = "like t", OF assms(4) l])
       (use info_peer_like [of t] info_peer_panics [OF assms(5-7)] in \<open>simp_all add: nil_pointer_def\<close>)
  then obtain t' calls where e: "tp_each (info_peer i) peers t = (t', calls, Some (GoPanic ''nil pointer dereference''))" "like t t'" by blast
  have "MsgInfoEnter a t" using MsgInfoEnter_nothing [OF k assms(2-4)] assms(5) by (cases infos) auto
  then have "topic_handle i ''MsgInfo'' a t = (t', calls, Some (GoPanic ''nil pointer dereference''))"
    using e(1) assms(2) by (simp add: topic_handle_def topic_handlers_def when_ok_def MsgInfoState_def)
  with k e(2) show ?thesis by (simp add: count_nothing like_def)
qed

section \<open>Updates\<close>

definition mach_at :: "Topic \<Rightarrow> string \<Rightarrow> int \<Rightarrow> NetworkMachine option" where
  "mach_at t pid idx = gget (ggetd [] (tp_netMachs t) pid) idx"

definition time_at :: "Topic \<Rightarrow> string \<Rightarrow> int \<Rightarrow> Time option" where
  "time_at t pid idx = map_option nm_machTime (mach_at t pid idx)"

definition names_at :: "Topic \<Rightarrow> string \<Rightarrow> int \<Rightarrow> S option" where
  "names_at t pid idx = map_option nm_stateNames (mach_at t pid idx)"

definition missing_at :: "Topic \<Rightarrow> string \<Rightarrow> int \<Rightarrow> uint64 option" where
  "missing_at t pid idx = gget (ggetd [] (tp_missingUpdates t) pid) idx"

text \<open>Machines that are filed with their internal methods and that nobody waits on.\<close>

definition filed :: "Topic \<Rightarrow> bool" where
  "filed t = (\<forall>pid idx nm. mach_at t pid idx = Some nm \<longrightarrow> idx \<in> set (ggetd [] (tp_netMachsIntApi t) pid)
     \<and> no_waiters (nm_subs nm) \<and> distinct (nm_stateNames nm) \<and> length (nm_machTime nm) = length (nm_stateNames nm))"

definition newest :: "Time \<Rightarrow> Time \<Rightarrow> Time" where
  "newest mtime old = (if Time_SumAll mtime > Time_SumAll old then mtime else old)"

definition still_missing :: "Time \<Rightarrow> uint64 option \<Rightarrow> uint64 option" where
  "still_missing mtime k = (case k of Some x \<Rightarrow> if x \<le> Time_SumAll mtime then None else Some x | None \<Rightarrow> None)"

lemma nm_sum_eq:
  assumes "distinct (nm_stateNames nm)" "length (nm_machTime nm) = length (nm_stateNames nm)"
  shows "nm_sum nm = Inr (Time_SumAll (nm_machTime nm))"
proof -
  let ?names = "nm_stateNames nm" and ?time = "nm_machTime nm"
  have "nm_at nm (?names ! i) = Inr (?time ! i)" if "i < length ?names" for i
    using that assms by (simp add: nm_at_def nm_Index1_def slices_Index_nth tget_nth)
  then have "mapR (nm_at nm) (map (nth ?names) [0..<length ?names]) = Inr (map (nth ?time) [0..<length ?names])"
    by (simp only: mapR_map) (rule mapR_Inr, simp)
  then show ?thesis using assms(2) map_nth [of ?time] by (simp add: nm_sum_def nm_Time_def nm_time_def nm_StateNames_def map_nth)
qed

text \<open>What a topic has heard takes effect: each machine has the newest of its own time and the time heard, and an update that was missing
  up to the time heard is no longer missing. Nothing else about the machines changes.\<close>

definition effect :: "(string \<Rightarrow> int \<Rightarrow> Time option) \<Rightarrow> Topic \<Rightarrow> Topic \<Rightarrow> bool" where
  "effect h t t' =
     (filed t' \<and> tp_self t' = tp_self t \<and> tp_HostToPeer t' = tp_HostToPeer t \<and> (\<forall>p. ghas (tp_netMachs t') p = ghas (tp_netMachs t) p)
      \<and> (\<forall>p n. names_at t' p n = names_at t p n)
      \<and> (\<forall>p n. time_at t' p n = (case h p n of None \<Rightarrow> time_at t p n | Some m \<Rightarrow> map_option (newest m) (time_at t p n)))
      \<and> (\<forall>p n. missing_at t' p n = (if mach_at t p n = None then missing_at t p n
           else case h p n of None \<Rightarrow> missing_at t p n | Some m \<Rightarrow> still_missing m (missing_at t p n))))"

lemma names_mach: "names_at t p n = names_at t' p n \<Longrightarrow> (mach_at t p n = None) = (mach_at t' p n = None)"
  by (auto simp: names_at_def)

lemma effect_none: "filed t \<Longrightarrow> effect (\<lambda>p n. None) t t"
  by (simp add: effect_def)

lemma effect_trans:
  assumes "effect h1 t t1" "effect h2 t1 t2" "\<And>p n. h1 p n = None \<or> h2 p n = None"
  shows "effect (\<lambda>p n. case h1 p n of None \<Rightarrow> h2 p n | Some m \<Rightarrow> Some m) t t2"
proof -
  have same: "(mach_at t1 p n = None) = (mach_at t p n = None)" for p n
    using assms(1) by (intro names_mach) (simp add: effect_def)
  have "time_at t2 p n = (case (case h1 p n of None \<Rightarrow> h2 p n | Some m \<Rightarrow> Some m) of
          None \<Rightarrow> time_at t p n | Some m \<Rightarrow> map_option (newest m) (time_at t p n))
      \<and> missing_at t2 p n = (if mach_at t p n = None then missing_at t p n
          else case (case h1 p n of None \<Rightarrow> h2 p n | Some m \<Rightarrow> Some m) of
            None \<Rightarrow> missing_at t p n | Some m \<Rightarrow> still_missing m (missing_at t p n))" for p n
    using assms(1,2) assms(3) [of p n] same [of p n] unfolding effect_def by (cases "h1 p n"; cases "h2 p n") simp_all
  then show ?thesis using assms(1,2) unfolding effect_def by simp
qed

lemma put_mach_effect:
  assumes "filed t" "mach_at t pid idx = Some nm" "updateClock env nm mtime 0 0 = Inr nm'" "no_waiters (nm_subs nm')"
  shows "filed (put_mach pid idx nm' t)" "mach_at (put_mach pid idx nm' t) p n = (if p = pid \<and> n = idx then Some nm' else mach_at t p n)"
proof -
  show m: "mach_at (put_mach pid idx nm' t) p n = (if p = pid \<and> n = idx then Some nm' else mach_at t p n)" for p n
    by (simp add: mach_at_def put_mach_def)
  have "idx \<in> set (ggetd [] (tp_netMachsIntApi t) pid)" "distinct (nm_stateNames nm)" using assms(1,2) by (auto simp: filed_def)
  with assms(1,4) updateClock_fields [OF assms(3)] show "filed (put_mach pid idx nm' t)"
    unfolding filed_def by (auto simp: m) (auto simp: put_mach_def)
qed

lemma newer_clock_effect:
  assumes "filed t" "mach_at t pid idx = Some nm" "length mtime = length (nm_stateNames nm)"
  shows "\<exists>t'. newer_clock env pid idx nm mtime t = (t', [], None) \<and> filed t' \<and> tp_missingUpdates t' = tp_missingUpdates t
    \<and> tp_self t' = tp_self t \<and> tp_HostToPeer t' = tp_HostToPeer t \<and> (\<forall>p. ghas (tp_netMachs t') p = ghas (tp_netMachs t) p)
    \<and> (\<forall>p n. names_at t' p n = names_at t p n)
    \<and> (\<forall>p n. time_at t' p n = (if p = pid \<and> n = idx then map_option (newest mtime) (time_at t p n) else time_at t p n))"
proof -
  have f: "no_waiters (nm_subs nm)" "idx \<in> set (ggetd [] (tp_netMachsIntApi t) pid)"
    "nm_sum nm = Inr (Time_SumAll (nm_machTime nm))"
    using assms(1,2) by (auto simp: filed_def intro!: nm_sum_eq)
  have known: "ghas (tp_netMachs t) pid" using assms(2) by (auto simp: mach_at_def ghas_gget ggetd_gget gget_def split: option.splits)
  show ?thesis
  proof (cases "Time_SumAll mtime > Time_SumAll (nm_machTime nm)")
    case True
    obtain nm' where u: "updateClock env nm mtime 0 0 = Inr nm'" "nm_subs nm' = nm_subs nm"
      using updateClock_returns [OF assms(3) f(1)] by blast
    have "newer_clock env pid idx nm mtime t = (put_mach pid idx nm' t, [], None)"
      using True f u(1) assms(2) by (simp add: newer_clock_def update_clock_def mach_at_def)
    moreover have w: "no_waiters (nm_subs nm')" using u(2) f(1) by simp
    moreover have "\<forall>p n. names_at (put_mach pid idx nm' t) p n = names_at t p n
        \<and> time_at (put_mach pid idx nm' t) p n = (if p = pid \<and> n = idx then map_option (newest mtime) (time_at t p n) else time_at t p n)"
      using updateClock_fields [OF u(1)] True assms(2) put_mach_effect(2) [OF assms(1,2) u(1) w]
      by (simp add: names_at_def time_at_def newest_def)
    ultimately show ?thesis
      using put_mach_effect(1) [OF assms(1,2) u(1)] known by (auto simp: put_mach_def)
  next
    case False
    then have "newer_clock env pid idx nm mtime t = (t, [], None)" using f(3) by (simp add: newer_clock_def)
    then show ?thesis using False assms(1,2) by (auto simp: time_at_def newest_def)
  qed
qed

lemma clear_missing_at:
  "missing_at (clear_missing pid idx mtime t) p n =
     (if p = pid \<and> n = idx then still_missing mtime (missing_at t p n) else missing_at t p n)"
proof -
  let ?m = "ggetd [] (tp_missingUpdates t) pid"
  have "gget (gdel idx ?m) n = (if n = idx then None else gget ?m n)" by simp
  then have e: "gdel idx ?m = [] \<Longrightarrow> n \<noteq> idx \<Longrightarrow> gget ?m n = None" by simp
  show ?thesis
    by (auto simp: clear_missing_def missing_at_def still_missing_def Let_def e split: option.splits)
qed

lemma clear_missing_fields [simp]:
  "tp_netMachs (clear_missing pid idx mtime t) = tp_netMachs t" "tp_self (clear_missing pid idx mtime t) = tp_self t"
  "tp_netMachsIntApi (clear_missing pid idx mtime t) = tp_netMachsIntApi t"
  "tp_HostToPeer (clear_missing pid idx mtime t) = tp_HostToPeer t"
  by (simp_all add: clear_missing_def Let_def split: option.split)

lemma update_mach_effect:
  assumes "filed t" "\<And>names. names_at t pid idx = Some names \<Longrightarrow> length mtime = length names"
  shows "\<exists>t'. update_mach i pid (idx, mtime) t = (t', [], None) \<and> effect (\<lambda>p n. if p = pid \<and> n = idx then Some mtime else None) t t'"
proof (cases "mach_at t pid idx")
  case None
  then have "update_mach i pid (idx, mtime) t = (t, [], None)" by (simp add: update_mach_def mach_at_def)
  with None assms(1) show ?thesis by (auto simp: effect_def time_at_def)
next
  case (Some nm)
  then have "length mtime = length (nm_stateNames nm)" using assms(2) by (simp add: names_at_def)
  from newer_clock_effect [OF assms(1) Some this, of "ti_env i"] obtain t' where t':
    "newer_clock (ti_env i) pid idx nm mtime t = (t', [], None)" "filed t'" "tp_missingUpdates t' = tp_missingUpdates t"
    "tp_self t' = tp_self t" "tp_HostToPeer t' = tp_HostToPeer t" "\<forall>p. ghas (tp_netMachs t') p = ghas (tp_netMachs t) p"
    "\<forall>p n. names_at t' p n = names_at t p n"
    "\<forall>p n. time_at t' p n = (if p = pid \<and> n = idx then map_option (newest mtime) (time_at t p n) else time_at t p n)" by blast
  have same: "mach_at (clear_missing pid idx mtime t') = mach_at t'" "missing_at t' = missing_at t"
    by (simp_all add: fun_eq_iff mach_at_def missing_at_def t'(3))
  have "effect (\<lambda>p n. if p = pid \<and> n = idx then Some mtime else None) t (clear_missing pid idx mtime t')"
    using t' Some same by (auto simp: effect_def filed_def names_at_def time_at_def clear_missing_at)
  with t'(1) Some show ?thesis by (simp add: update_mach_def mach_at_def)
qed

lemma effect_cong: "effect h t t' \<Longrightarrow> (\<And>p n. h p n = h' p n) \<Longrightarrow> effect h' t t'"
  by (simp add: effect_def)

lemma effect_names: "effect h t t' \<Longrightarrow> names_at t' p n = names_at t p n"
  by (simp add: effect_def)

lemma gget_Cons: "gget ((k, v) # m) k' = (if k' = k then Some v else gget m k')"
  by (simp add: gget_def)

lemma gget_not_key: "k \<notin> set (gkeys m) \<Longrightarrow> gget m k = None"
  by (simp add: gget_def gkeys_def map_of_eq_None_iff)

lemma update_machs_effect:
  assumes "filed t" "distinct (gkeys machs)"
    and "\<And>n mtime names. (n, mtime) \<in> set machs \<Longrightarrow> names_at t pid n = Some names \<Longrightarrow> length mtime = length names"
  shows "\<exists>t'. tp_each (update_mach i pid) machs t = (t', [], None) \<and> effect (\<lambda>p n. if p = pid then gget machs n else None) t t'"
  using assms
proof (induction machs arbitrary: t)
  case Nil
  then show ?case by (auto intro!: effect_cong [OF effect_none])
next
  case (Cons x machs)
  obtain idx mtime where x: "x = (idx, mtime)" by (cases x)
  obtain t1 where t1: "update_mach i pid (idx, mtime) t = (t1, [], None)"
    "effect (\<lambda>p n. if p = pid \<and> n = idx then Some mtime else None) t t1"
    using update_mach_effect [OF Cons.prems(1), of pid idx mtime i] Cons.prems(3) x by auto
  have "filed t1" using t1(2) by (simp add: effect_def)
  then obtain t' where t': "tp_each (update_mach i pid) machs t1 = (t', [], None)"
    "effect (\<lambda>p n. if p = pid then gget machs n else None) t1 t'"
    using Cons.IH [of t1] Cons.prems(2,3) effect_names [OF t1(2)] by (auto simp: gkeys_def)
  have k: "gget machs idx = None" using Cons.prems(2) x by (intro gget_not_key) (simp add: gkeys_def)
  have "effect (\<lambda>p n. if p = pid then gget (x # machs) n else None) t t'"
    by (rule effect_cong [OF effect_trans [OF t1(2) t'(2)]]) (use k x in \<open>auto simp: gget_Cons\<close>)
  with t1(1) t'(1) x show ?case by simp
qed

text \<open>What an update says about the machines of other peers, and the calls for those that are not known.\<close>

definition heard :: "Topic \<Rightarrow> PeerClocks \<Rightarrow> string \<Rightarrow> int \<Rightarrow> Time option" where
  "heard t clocks pid idx = (if pid = tp_self t then None else gget (ggetd [] clocks pid) idx)"

definition unknown_calls :: "Topic \<Rightarrow> PeerClocks \<Rightarrow> topic_call list" where
  "unknown_calls t clocks =
     map (\<lambda>(pid, machs). TpAdd ''MissPeersByUpdates'' (TopicArgs_zero\<lparr>ta_MachClocks := Some machs, ta_PeerId := pid, ta_Peer := peerName t pid\<rparr>))
       (filter (\<lambda>(pid, machs). pid \<noteq> tp_self t \<and> \<not> ghas (tp_netMachs t) pid) clocks)"

lemma mach_at_unknown: "\<not> ghas (tp_netMachs t) pid \<Longrightarrow> mach_at t pid n = None"
  by (auto simp: mach_at_def ghas_gget ggetd_gget gget_def)

lemma update_peer_effect:
  assumes "filed t" "distinct (gkeys machs)"
    and "\<And>n mtime names. (n, mtime) \<in> set machs \<Longrightarrow> names_at t pid n = Some names \<Longrightarrow> length mtime = length names"
  shows "\<exists>t'. update_peer i (pid, machs) t = (t', unknown_calls t [(pid, machs)], None)
    \<and> effect (\<lambda>p n. if p = pid \<and> p \<noteq> tp_self t then gget machs n else None) t t'"
proof (cases "pid = tp_self t \<or> \<not> ghas (tp_netMachs t) pid")
  case True
  then have "update_peer i (pid, machs) t = (t, unknown_calls t [(pid, machs)], None)" by (auto simp: update_peer_def unknown_calls_def)
  moreover have "effect (\<lambda>p n. if p = pid \<and> p \<noteq> tp_self t then gget machs n else None) t t"
    using True assms(1) mach_at_unknown [of t pid] by (auto simp: effect_def time_at_def split: option.splits)
  ultimately show ?thesis by blast
next
  case False
  obtain t' where "tp_each (update_mach i pid) machs t = (t', [], None)"
    and e: "effect (\<lambda>p n. if p = pid then gget machs n else None) t t'"
    using update_machs_effect [of t machs pid i] assms by blast
  moreover have "effect (\<lambda>p n. if p = pid \<and> p \<noteq> tp_self t then gget machs n else None) t t'"
    by (rule effect_cong [OF e]) (use False in auto)
  ultimately show ?thesis using False by (simp add: update_peer_def unknown_calls_def)
qed

lemma update_peers_effect:
  assumes "filed t" "distinct (gkeys clocks)" "\<And>pid machs. (pid, machs) \<in> set clocks \<Longrightarrow> distinct (gkeys machs)"
    and "\<And>pid machs n mtime names. (pid, machs) \<in> set clocks \<Longrightarrow> (n, mtime) \<in> set machs \<Longrightarrow> names_at t pid n = Some names
      \<Longrightarrow> length mtime = length names"
  shows "\<exists>t'. tp_each (update_peer i) clocks t = (t', unknown_calls t clocks, None) \<and> effect (heard t clocks) t t'"
  using assms
proof (induction clocks arbitrary: t)
  case Nil
  then show ?case by (auto simp: unknown_calls_def heard_def intro!: effect_cong [OF effect_none])
next
  case (Cons x clocks)
  obtain pid machs where x: "x = (pid, machs)" by (cases x)
  obtain t1 where t1: "update_peer i x t = (t1, unknown_calls t [(pid, machs)], None)"
    "effect (\<lambda>p n. if p = pid \<and> p \<noteq> tp_self t then gget machs n else None) t t1"
    unfolding x using update_peer_effect [OF Cons.prems(1), where i = i and machs = machs and pid = pid] Cons.prems(3,4) [of pid machs] x
    by (meson list.set_intros(1))
  have same: "filed t1" "tp_self t1 = tp_self t" "\<And>p. ghas (tp_netMachs t1) p = ghas (tp_netMachs t) p" "peerName t1 = peerName t"
    using t1(2) by (auto simp: effect_def peerName_def)
  have "\<exists>t'. tp_each (update_peer i) clocks t1 = (t', unknown_calls t1 clocks, None) \<and> effect (heard t1 clocks) t1 t'"
  proof (rule Cons.IH [OF same(1)])
    show "distinct (gkeys clocks)" using Cons.prems(2) by (simp add: gkeys_def)
    show "distinct (gkeys machs)" if "(pid, machs) \<in> set clocks" for pid machs using that Cons.prems(3) [of pid machs] by simp
    show "length mtime = length names" if "(pid, machs) \<in> set clocks" "(n, mtime) \<in> set machs" "names_at t1 pid n = Some names"
      for pid machs n mtime names
      using that Cons.prems(4) [of pid machs n mtime names] effect_names [OF t1(2)] by simp
  qed
  then obtain t' where t': "tp_each (update_peer i) clocks t1 = (t', unknown_calls t1 clocks, None)" "effect (heard t1 clocks) t1 t'"
    by blast
  have k: "ggetd [] clocks pid = []"
    using Cons.prems(2) x gget_not_key [of pid clocks] by (simp add: gkeys_def ggetd_gget)
  have "effect (heard t (x # clocks)) t t'"
    by (rule effect_cong [OF effect_trans [OF t1(2) t'(2)]])
       (use k x same(2) in \<open>auto simp: heard_def ggetd_gget gget_Cons gget_def split: option.splits\<close>)
  moreover have "unknown_calls t (x # clocks) = unknown_calls t [(pid, machs)] @ unknown_calls t1 clocks"
    using x same by (simp add: unknown_calls_def)
  ultimately show ?case using t1(1) t'(1) by simp
qed

text \<open>An update of clocks, for machines that are filed and clocks of the right length: afterwards every machine the topic knows has the
  newest of its own time and the time in the update, older updates change nothing, an update announced by gossip is no longer missing once
  a clock of at least that sum has come, and what is said about peers that are not known is passed on to \<open>MissPeersByUpdates\<close>.\<close>

theorem MsgUpdates_newest:
  assumes "filed t" "ta_MsgUpdates a = Some clocks" "distinct (gkeys clocks)"
    and "\<And>pid machs. (pid, machs) \<in> set clocks \<Longrightarrow> distinct (gkeys machs)"
    and "\<And>pid machs n mtime names. (pid, machs) \<in> set clocks \<Longrightarrow> (n, mtime) \<in> set machs \<Longrightarrow> names_at t pid n = Some names
      \<Longrightarrow> length mtime = length names"
  shows "\<exists>t'. MsgUpdatesState i a t = (t', unknown_calls t clocks, None) \<and> filed t'
    \<and> (\<forall>p n. time_at t' p n =
         (case heard t clocks p n of None \<Rightarrow> time_at t p n | Some mtime \<Rightarrow> map_option (newest mtime) (time_at t p n)))
    \<and> (\<forall>p n. missing_at t' p n = (if time_at t p n = None then missing_at t p n
         else case heard t clocks p n of None \<Rightarrow> missing_at t p n | Some mtime \<Rightarrow> still_missing mtime (missing_at t p n)))"
proof -
  obtain t1 where t1: "tp_each (update_peer i) clocks t = (t1, unknown_calls t clocks, None)" "effect (heard t clocks) t t1"
    using update_peers_effect [of t clocks i] assms(1,3-5) by blast
  let ?t = "confirm_sender a t1"
  have "tp_netMachs ?t = tp_netMachs t1" "tp_netMachsIntApi ?t = tp_netMachsIntApi t1" "tp_missingUpdates ?t = tp_missingUpdates t1"
    by (simp_all add: confirm_sender_def miss_peer_def)
  then have "filed ?t = filed t1" "time_at ?t = time_at t1" "missing_at ?t = missing_at t1"
    by (simp_all add: filed_def mach_at_def time_at_def missing_at_def fun_eq_iff)
  moreover have "MsgUpdatesState i a t = (?t, unknown_calls t clocks, None)" using t1(1) assms(2) by (simp add: MsgUpdatesState_def)
  moreover have "mach_at t p n = None \<longleftrightarrow> time_at t p n = None" for p n by (simp add: time_at_def)
  ultimately show ?thesis using t1(2) by (simp add: effect_def)
qed

section \<open>Witnesses\<close>

definition tx_in :: topic_in where
  "tx_in = \<lparr>ti_env = \<lparr>en_handler = (\<lambda>m n name args. ([], HRet True)), en_eval = (\<lambda>_. []), en_expired = (\<lambda>_. False), en_query = (\<lambda>_ _. False)\<rparr>,
     ti_now = 0, ti_rnd = (\<lambda>_. 0), ti_randId = (\<lambda>_ _. ''1''), ti_valid = True, ti_active = (\<lambda>_. False), ti_willBe = (\<lambda>_. False),
     ti_queueLen = 0, ti_encodeErr = None, ti_pool = True\<rparr>"

definition tx_info :: Info where
  "tx_info = \<lparr>in_Id = ''m'', in_Schema = None, in_States = [''A''], in_MTime = [1], in_Tags = [], in_Parent = []\<rparr>"

definition tx_msg :: TopicArgs where
  "tx_msg = TopicArgs_zero\<lparr>ta_MsgInfo := Some ([(''Q'', [(0, tx_info)])], []), ta_PeerId := ''Q''\<rparr>"

definition tx_joined :: Topic where
  "tx_joined = fst (topic_handle tx_in ''PeerJoined'' (TopicArgs_zero\<lparr>ta_PeerId := ''Q''\<rparr>) (NewTopic ''t'' ''1'' ''P'' []))"

lemma tx_reach: "topic_reach (NewTopic ''t'' ''1'' ''P'' []) tx_joined"
proof -
  obtain t calls r where h: "topic_handle tx_in ''PeerJoined'' (TopicArgs_zero\<lparr>ta_PeerId := ''Q''\<rparr>) (NewTopic ''t'' ''1'' ''P'' []) = (t, calls, r)"
    by (rule prod_cases3)
  from topic_reach.handle [OF topic_reach.start h] show ?thesis by (simp add: tx_joined_def h)
qed

theorem no_machine_learned_witness:
  "tp_missingPeers tx_joined = [''Q''] \<and> netMachsCount tx_joined = 0
   \<and> (\<exists>t' calls. topic_handle tx_in ''MsgInfo'' tx_msg tx_joined = (t', calls, Some (GoPanic ''nil pointer dereference'')) \<and> netMachsCount t' = 0)"
proof -
  have m: "ta_MsgInfo tx_msg = Some ([(''Q'', [(0, tx_info)])], [])" "ta_PeerId tx_msg \<noteq> []" by (simp_all add: tx_msg_def)
  have "info_netMach tx_in tx_joined ''Q'' 0 tx_info \<noteq> Inl ErrSchemaNames" "tp_self tx_joined = ''P''"
    and miss: "tp_missingPeers tx_joined = [''Q'']"
    by (simp_all add: info_netMach_def NewNetworkMachine_def tx_info_def tx_joined_def topic_handle_def topic_handlers_def when_ok_def
      PeerJoinedEnter_def PeerJoinedState_def miss_peer_def TopicArgs_zero_def NewTopic_def List.insert_def)
  moreover obtain nm where "info_netMach tx_in tx_joined ''Q'' 0 tx_info = Inr nm"
    by (simp add: info_netMach_def NewNetworkMachine_def tx_info_def tx_joined_def topic_handle_def topic_handlers_def when_ok_def
      PeerJoinedEnter_def PeerJoinedState_def miss_peer_def TopicArgs_zero_def NewTopic_def)
  ultimately show ?thesis
    using no_machine_learned [OF tx_reach m, of "''Q''" "[(0, tx_info)]" 0 tx_info tx_in nm] by auto
qed

definition tx_nm :: NetworkMachine where
  "tx_nm = (case NewNetworkMachine ''m'' False None [''A''] ''ps'' None False of Inr nm \<Rightarrow> nm)"

definition tx_topic :: Topic where
  "tx_topic = (NewTopic ''t'' ''1'' ''P'' [])\<lparr>tp_netMachs := [(''Q'', [(0, tx_nm)])], tp_netMachsIntApi := [(''Q'', [0])],
     tp_missingUpdates := [(''Q'', [(0, 3)])]\<rparr>"

definition tx_updates :: TopicArgs where
  "tx_updates = TopicArgs_zero\<lparr>ta_MsgUpdates := Some [(''Q'', [(0, [3])]), (''R'', [(0, [1])])], ta_PeerId := ''Q''\<rparr>"

theorem MsgUpdates_newest_witness:
  "filed tx_topic \<and> (\<exists>t'. MsgUpdatesState tx_in tx_updates tx_topic = (t', unknown_calls tx_topic [(''Q'', [(0, [3])]), (''R'', [(0, [1])])], None)
     \<and> time_at tx_topic ''Q'' 0 = Some [0] \<and> time_at t' ''Q'' 0 = Some [3] \<and> missing_at t' ''Q'' 0 = None)"
proof -
  have nm: "nm_stateNames tx_nm = [''A'']" "nm_machTime tx_nm = [0]" "no_waiters (nm_subs tx_nm)"
    by (simp_all add: tx_nm_def NewNetworkMachine_def NewSubscriptionManager_def no_waiters_def)
  have at: "mach_at tx_topic p n = (if p = ''Q'' \<and> n = 0 then Some tx_nm else None)" for p n
    by (simp add: mach_at_def tx_topic_def ggetd_def gget_def)
  have f: "filed tx_topic" unfolding filed_def by (simp add: at nm) (simp add: tx_topic_def ggetd_def)
  have m: "ta_MsgUpdates tx_updates = Some [(''Q'', [(0, [3])]), (''R'', [(0, [1])])]" by (simp add: tx_updates_def)
  have t: "time_at tx_topic ''Q'' 0 = Some [0]" by (simp add: time_at_def at nm)
  have h: "heard tx_topic [(''Q'', [(0, [3])]), (''R'', [(0, [1])])] ''Q'' 0 = Some [3]"
    "missing_at tx_topic ''Q'' 0 = Some 3"
    by (simp_all add: heard_def missing_at_def tx_topic_def NewTopic_def ggetd_def gget_def)
  have "\<exists>t'. MsgUpdatesState tx_in tx_updates tx_topic = (t', unknown_calls tx_topic [(''Q'', [(0, [3])]), (''R'', [(0, [1])])], None) \<and> filed t'
    \<and> (\<forall>p n. time_at t' p n = (case heard tx_topic [(''Q'', [(0, [3])]), (''R'', [(0, [1])])] p n of
         None \<Rightarrow> time_at tx_topic p n | Some mtime \<Rightarrow> map_option (newest mtime) (time_at tx_topic p n)))
    \<and> (\<forall>p n. missing_at t' p n = (if time_at tx_topic p n = None then missing_at tx_topic p n
         else case heard tx_topic [(''Q'', [(0, [3])]), (''R'', [(0, [1])])] p n of
           None \<Rightarrow> missing_at tx_topic p n | Some mtime \<Rightarrow> still_missing mtime (missing_at tx_topic p n)))"
    by (rule MsgUpdates_newest [OF f m]) (auto simp: gkeys_def names_at_def at nm split: if_splits)
  with f t h show ?thesis by (auto simp: newest_def still_missing_def Time_SumAll_def)
qed

section \<open>Further facts\<close>

text \<open>The messages a sequence of attempts in one window lets through.\<close>

fun sent_in :: "(topic_in \<times> TopicArgs) list \<Rightarrow> Topic \<Rightarrow> int" where
  "sent_in [] t = 0"
| "sent_in ((i, a) # xs) t =
     (case SendMsgEnter i a t of Inl e \<Rightarrow> 0 | Inr (t', ok) \<Rightarrow> (if ok then 1 else 0) + sent_in xs t')"

lemma sent_in_window:
  assumes "tp_Multiplayer t \<noteq> 0" "\<forall>(i, a) \<in> set xs. (ti_now i div second) mod 60 div tp_Multiplayer t = tp_msgsWin t \<and> ta_Msg a \<noteq> None"
  shows "sent_in xs t = max 0 (min (int (length xs)) (tp_MaxMsgsPerWin t - tp_msgsWinCount t))"
  using assms
proof (induction xs arbitrary: t)
  case (Cons x xs)
  obtain i a where x: "x = (i, a)" by (cases x)
  with Cons.prems have e: "SendMsgEnter i a t = Inr (t\<lparr>tp_msgsWinCount := tp_msgsWinCount t + 1\<rparr>, \<not> tp_msgsWinCount t + 1 > tp_MaxMsgsPerWin t)"
    by (auto simp: SendMsgEnter_def msgs_window_def Let_def)
  from Cons.IH [of "t\<lparr>tp_msgsWinCount := tp_msgsWinCount t + 1\<rparr>"] Cons.prems x e show ?case by (auto simp: max_def min_def)
qed simp

text \<open>A new window lets the first \<open>MaxMsgsPerWin\<close> messages through and no more.\<close>

theorem window_limit:
  assumes "tp_Multiplayer t \<noteq> 0" "xs \<noteq> []" "tp_msgsWin t \<noteq> w"
    and "\<forall>(i, a) \<in> set xs. (ti_now i div second) mod 60 div tp_Multiplayer t = w \<and> ta_Msg a \<noteq> None"
  shows "sent_in xs t = max 0 (min (int (length xs)) (tp_MaxMsgsPerWin t))"
proof -
  obtain i a ys where x: "xs = (i, a) # ys" using assms(2) by (cases xs) auto
  let ?t = "t\<lparr>tp_msgsWin := w, tp_msgsWinCount := 0\<rparr>"
  have "SendMsgEnter i a t = SendMsgEnter i a ?t" using assms x by (simp add: SendMsgEnter_def msgs_window_def Let_def)
  then have "sent_in xs t = sent_in xs ?t" using x by simp
  also have "\<dots> = max 0 (min (int (length xs)) (tp_MaxMsgsPerWin ?t - tp_msgsWinCount ?t))"
    by (rule sent_in_window) (use assms in auto)
  finally show ?thesis by simp
qed

text \<open>A request for updates is never answered: the guard looks for the request in the field of another message.\<close>

theorem ReqUpdates_unanswered:
  assumes "ps_Data psMsg = Decoded (MReqUpdates pids)"
  shows "\<exists>a. process_msg i t psMsg = [TpAsk ''MsgReqUpdates'' a] \<and> ta_MsgReqUpdates a = Some pids
    \<and> (\<forall>i' t'. topic_handle i' ''MsgReqUpdates'' a t' = (t', [], None))"
  using assms
  by (auto simp: process_msg_def from_args_def TopicArgs_zero_def Let_def topic_handle_def topic_handlers_def when_res_def when_ok_def MsgReqUpdatesEnter_def)

end
