(* ===== verification/Am_Dbg.thy ===== *)
theory Am_Dbg
  imports Am_Helpers
begin

text \<open>
  Telemetry for the debugger, \<open>src/pkg/telemetry/dbg/dbg.go\<close>: the messages, and the tracer that sends one for every
  transition and every queued mutation of a machine. The tracer's methods run in the machine, what they put on the
  \<open>outbox\<close> runs in a goroutine of the tracer, one function at a time (\<open>outbox_run\<close>). What the tracer reads of a
  machine (\<open>am.Api\<close>) is a record \<open>DbgMach\<close>; whether the debugger can be dialed and how it answers is given by an
  \<open>send_outcome\<close>. Stack traces and queue dumps are left out. Human time is in nanoseconds.
\<close>

section \<open>Text\<close>

fun str_cut :: "string \<Rightarrow> string \<Rightarrow> (string \<times> string) option" where
  "str_cut sep [] = (if sep = [] then Some ([], []) else None)"
| "str_cut sep (c # cs) =
     (if strings_HasPrefix (c # cs) sep then Some ([], drop (length sep) (c # cs))
      else map_option (\<lambda>(a, b). (c # a, b)) (str_cut sep cs))"

lemma str_cut_length: "str_cut sep s = Some (a, b) \<Longrightarrow> length a + length sep + length b = length s"
proof (induction s arbitrary: a)
  case Nil
  then show ?case by (simp split: if_splits)
next
  case (Cons c cs)
  show ?case
  proof (cases "strings_HasPrefix (c # cs) sep")
    case True
    then have "length sep \<le> length (c # cs)"
      unfolding strings_HasPrefix_def by (metis append_take_drop_id length_append trans_le_add1 order_refl)
    with True Cons.prems show ?thesis by auto
  next
    case False
    with Cons.prems obtain a' where "str_cut sep cs = Some (a', b)" "a = c # a'" by auto
    with Cons.IH show ?thesis by simp
  qed
qed

lemma str_cut_less: "str_cut sep s = Some (a, b) \<Longrightarrow> sep \<noteq> [] \<Longrightarrow> length b < length s"
  using str_cut_length [of sep s a b] by (cases sep) auto

text \<open>\<open>strings.Split\<close>; with an empty separator it splits into the characters.\<close>

function strings_Split :: "string \<Rightarrow> string \<Rightarrow> string list" where
  "strings_Split s sep =
     (if sep = [] then map (\<lambda>c. [c]) s
      else case str_cut sep s of None \<Rightarrow> [s] | Some (a, b) \<Rightarrow> a # strings_Split b sep)"
  by pat_completeness auto
termination
  by (relation "measure (\<lambda>(s, sep). length s)") (auto intro: str_cut_less)

declare strings_Split.simps [simp del]

definition strings_Trim :: "string \<Rightarrow> string \<Rightarrow> string" where
  "strings_Trim s cutset = rev (dropWhile (\<lambda>c. c \<in> set cutset) (rev (dropWhile (\<lambda>c. c \<in> set cutset) s)))"

definition is_digit :: "char \<Rightarrow> bool" where
  "is_digit c = (48 \<le> (of_char c :: nat) \<and> (of_char c :: nat) \<le> 57)"

definition digits_val :: "string \<Rightarrow> int" where
  "digits_val ds = foldl (\<lambda>acc c. acc * 10 + int (of_char c - 48)) 0 ds"

text \<open>\<open>strconv.Atoi\<close>: a sign and digits, within 64 bits; \<open>None\<close> is an error.\<close>

definition strconv_Atoi :: "string \<Rightarrow> int option" where
  "strconv_Atoi s =
     (let neg = strings_HasPrefix s ''-''; ds = (if neg \<or> strings_HasPrefix s ''+'' then tl s else s) in
      if ds = [] \<or> \<not> list_all is_digit ds then None
      else let v = (if neg then - digits_val ds else digits_val ds) in
           if - (2 ^ 63) \<le> v \<and> v < 2 ^ 63 then Some v else None)"

section \<open>Log entries\<close>

record LogEntry =
  le_Level :: int
  le_Text :: string

definition LogChanges :: int where "LogChanges = 2"
definition LogOps :: int where "LogOps = 3"

text \<open>\<open>logEv\<close> of a machine, of which \<open>log\<close> is the case without an event. \<open>msg\<close> is the formatted text. A line goes to the transition that
  runs (\<open>lg_inTx\<close>), otherwise to the list that the next transition takes over as its \<open>PreLogEntries\<close>, where a line that repeats the one
  before is dropped unless it is about pipes or subscriptions.\<close>

record MachLog =
  lg_Level :: int
  lg_disposing :: bool
  lg_logId :: bool
  lg_id :: string
  lg_inTx :: bool
  lg_txEntries :: "LogEntry list"
  lg_logEntries :: "LogEntry list"

definition log_prefix :: "bool \<Rightarrow> string \<Rightarrow> string option \<Rightarrow> string" where
  "log_prefix logId mach ev =
     (if logId then ''['' @ (if length mach > 5 then take 5 mach else mach) @ ''] '' else [])
     @ (case ev of None \<Rightarrow> [] | Some name \<Rightarrow> ''['' @ name @ ''] '')"

definition logEv :: "string option \<Rightarrow> int \<Rightarrow> string \<Rightarrow> MachLog \<Rightarrow> MachLog" where
  "logEv ev level msg l =
     (if level > lg_Level l \<or> lg_disposing l then l
      else let prefix = log_prefix (lg_logId l) (lg_id l) ev; out = prefix @ msg in
        if lg_inTx l then l\<lparr>lg_txEntries := lg_txEntries l @ [\<lparr>le_Level = level, le_Text = out\<rparr>]\<rparr>
        else let allowDups = (strings_HasPrefix out (prefix @ ''[pipe-'') \<or> strings_HasPrefix out (prefix @ ''[ctx'')
                   \<or> strings_HasPrefix out (prefix @ ''[when'')) in
          if lg_logEntries l \<noteq> [] \<and> le_Text (last (lg_logEntries l)) = out \<and> \<not> allowDups then l
          else l\<lparr>lg_logEntries := lg_logEntries l @ [\<lparr>le_Level = level, le_Text = out\<rparr>]\<rparr>)"

record Pipe =
  pp_IsAdd :: bool
  pp_SourceState :: string
  pp_TargetState :: string
  pp_SourceMach :: string
  pp_TargetMach :: string

definition pipe_kind :: "bool \<Rightarrow> string" where
  "pipe_kind isAdd = (if isAdd then ''add'' else ''remove'')"

text \<open>Each gives the line logged and the pipes stored.\<close>

definition AddPipeOut :: "Pipe list \<Rightarrow> bool \<Rightarrow> string \<Rightarrow> string \<Rightarrow> string \<times> Pipe list" where
  "AddPipeOut pipes isAdd sourceState targetMach =
     (''[pipe-out:'' @ pipe_kind isAdd @ ''] '' @ sourceState @ '' to '' @ targetMach,
      pipes @ [\<lparr>pp_IsAdd = isAdd, pp_SourceState = sourceState, pp_TargetState = [], pp_SourceMach = [],
                pp_TargetMach = targetMach\<rparr>])"

definition AddPipeIn :: "Pipe list \<Rightarrow> bool \<Rightarrow> string \<Rightarrow> string \<Rightarrow> string \<times> Pipe list" where
  "AddPipeIn pipes isAdd targetState sourceMach =
     (''[pipe-in:'' @ pipe_kind isAdd @ ''] '' @ targetState @ '' from '' @ sourceMach,
      pipes @ [\<lparr>pp_IsAdd = isAdd, pp_SourceState = [], pp_TargetState = targetState, pp_SourceMach = sourceMach,
                pp_TargetMach = []\<rparr>])"

definition RemovePipes :: "Pipe list \<Rightarrow> string \<Rightarrow> string \<times> Pipe list" where
  "RemovePipes pipes machId =
     (''[pipe:gc] '' @ machId, filter (\<lambda>p. \<not> (pp_SourceMach p = machId \<or> pp_TargetMach p = machId)) pipes)"

definition pipe_text :: "Pipe \<Rightarrow> string" where
  "pipe_text p =
     (if pp_SourceState p \<noteq> []
      then ''[pipe-out:'' @ pipe_kind (pp_IsAdd p) @ ''] '' @ pp_SourceState p @ '' to '' @ pp_TargetMach p
      else ''[pipe-in:'' @ pipe_kind (pp_IsAdd p) @ ''] '' @ pp_TargetState p @ '' from '' @ pp_SourceMach p)"

definition sem_Pipes :: "Pipe list \<Rightarrow> LogEntry list" where
  "sem_Pipes pipes = map (\<lambda>p. \<lparr>le_Level = LogOps, le_Text = pipe_text p\<rparr>) pipes"

section \<open>Messages\<close>

record DbgMsgStruct =
  ds_ID :: string
  ds_StatesIndex :: S
  ds_States :: Schema
  ds_Groups :: "(string, int list) gomap"
  ds_GroupsOrder :: S
  ds_Parent :: string
  ds_Tags :: S

fun has_tag :: "S \<Rightarrow> string \<Rightarrow> string \<Rightarrow> bool" where
  "has_tag [] tag val = False"
| "has_tag (t # ts) tag val =
     (if t = tag then True
      else if val = [] \<or> \<not> strings_HasPrefix t (tag @ '':'') then has_tag ts tag val
      else if val = strings_TrimPrefix t (tag @ '':'') then True
      else has_tag ts tag val)"

definition HasTag :: "DbgMsgStruct \<Rightarrow> string \<Rightarrow> string \<Rightarrow> bool" where
  "HasTag d tag val = has_tag (ds_Tags d) tag val"

text \<open>\<open>dt_Clocks\<close> and \<open>dt_CalledStates\<close> can be \<open>nil\<close>, a log entry can be a \<open>nil\<close> pointer; \<open>dt_Time\<close> is set on reception.\<close>

record DbgMsgTx =
  dt_MachineID :: string
  dt_ID :: string
  dt_Clocks :: "Time option"
  dt_QueueTick :: uint64
  dt_MutQueueToken :: uint64
  dt_MutQueueTick :: uint64
  dt_Type :: MutationType
  dt_CalledStates :: "S option"
  dt_CalledStatesIdxs :: "int list"
  dt_Steps :: "Step list"
  dt_LogEntries :: "LogEntry option list"
  dt_PreLogEntries :: "LogEntry option list"
  dt_Queue :: int
  dt_Time :: "int option"
  dt_IsAuto :: bool
  dt_Accepted :: bool
  dt_IsCheck :: bool
  dt_IsQueued :: bool
  dt_Args :: "(string, string) gomap"

definition DbgMsgTx_zero :: DbgMsgTx where
  "DbgMsgTx_zero = \<lparr>dt_MachineID = [], dt_ID = [], dt_Clocks = None, dt_QueueTick = 0, dt_MutQueueToken = 0,
     dt_MutQueueTick = 0, dt_Type = MutationAdd, dt_CalledStates = None, dt_CalledStatesIdxs = [], dt_Steps = [],
     dt_LogEntries = [], dt_PreLogEntries = [], dt_Queue = 0, dt_Time = None, dt_IsAuto = False, dt_Accepted = False,
     dt_IsCheck = False, dt_IsQueued = False, dt_Args = []\<rparr>"

definition dbg_Clock :: "DbgMsgTx \<Rightarrow> S \<Rightarrow> string \<Rightarrow> uint64" where
  "dbg_Clock m statesIndex state =
     (let idx = slices_Index statesIndex state; clocks = sl (dt_Clocks m) in
      if idx = - 1 then 0 else if int (length clocks) \<le> idx then 0 else clocks ! nat idx)"

definition dbg_Index :: "S \<Rightarrow> string \<Rightarrow> int" where
  "dbg_Index statesIndex state = slices_Index statesIndex state"

fun dbg_IsIdx :: "DbgMsgTx \<Rightarrow> int list \<Rightarrow> bool res" where
  "dbg_IsIdx m [] = Inr True"
| "dbg_IsIdx m (idx # idxs) =
     (if idx = - 1 then Inr False
      else if int (length (sl (dt_Clocks m))) \<le> idx then Inr False
      else if idx < 0 then Inl (GoPanic ''index out of range'')
      else if \<not> IsActiveTick (sl (dt_Clocks m) ! nat idx) then Inr False
      else dbg_IsIdx m idxs)"

fun dbg_Is :: "DbgMsgTx \<Rightarrow> S \<Rightarrow> S \<Rightarrow> bool" where
  "dbg_Is m statesIndex [] = True"
| "dbg_Is m statesIndex (state # states) =
     (let idx = dbg_Index statesIndex state; clocks = sl (dt_Clocks m) in
      if idx = - 1 then False
      else if int (length clocks) \<le> idx \<or> \<not> IsActiveTick (clocks ! nat idx) then False
      else dbg_Is m statesIndex states)"

definition dbg_Is1 :: "DbgMsgTx \<Rightarrow> S \<Rightarrow> string \<Rightarrow> bool" where
  "dbg_Is1 m statesIndex state = dbg_Is m statesIndex [state]"

definition dbg_ActiveStates :: "DbgMsgTx \<Rightarrow> S \<Rightarrow> S" where
  "dbg_ActiveStates m statesIndex =
     filter (\<lambda>state. let idx = slices_Index statesIndex state; clocks = sl (dt_Clocks m) in
               \<not> int (length clocks) \<le> idx \<and> IsActiveTick (clocks ! nat idx)) statesIndex"

definition dbg_CalledStateNames :: "DbgMsgTx \<Rightarrow> S \<Rightarrow> S res" where
  "dbg_CalledStateNames m statesIndex =
     (case dt_CalledStates m of Some cs \<Rightarrow> Inr cs
      | None \<Rightarrow> mapR (\<lambda>idx. if 0 \<le> idx \<and> idx < int (length statesIndex) then Inr (statesIndex ! nat idx)
                             else Inl (GoPanic ''index out of range'')) (dt_CalledStatesIdxs m))"

definition dbg_MutString :: "DbgMsgTx \<Rightarrow> S \<Rightarrow> string res" where
  "dbg_MutString m statesIndex =
     bindR (dbg_CalledStateNames m statesIndex) (\<lambda>names.
       Inr ((if dt_Type m = MutationRemove then ''-'' else ''+'') @ j names))"

definition dbg_TimeSum :: "DbgMsgTx \<Rightarrow> uint64" where
  "dbg_TimeSum m = foldl (\<lambda>s clock. s + clock) 0 (sl (dt_Clocks m))"

definition dbg_Url :: "DbgMsgTx \<Rightarrow> string" where
  "dbg_Url m = ''mach://'' @ dt_MachineID m @ ''/'' @ dt_ID m"

section \<open>Tracer\<close>

record DbgMach =
  dm_Id :: string
  dm_Time :: Time
  dm_QueueTick :: uint64
  dm_Pipes :: "Pipe list"
  dm_IsCan :: bool
  dm_IsId :: bool
  dm_IsArgs :: bool
  dm_MapArgs :: "A \<Rightarrow> (string, string) gomap"
  dm_StateNames :: S
  dm_Schema :: Schema
  dm_Groups :: "(string, int list) gomap"
  dm_GroupsOrder :: S
  dm_ParentId :: string
  dm_Tags :: S
  dm_Disposed :: bool

datatype outbox_fn = OutConnect "DbgMsgTx option" | OutSchema | OutTx DbgMsgTx

text \<open>\<open>tr_c\<close> is whether the tracer has a connection, \<open>tr_outbox\<close> what is buffered.\<close>

record DbgTracer =
  tr_Addr :: string
  tr_Ws :: bool
  tr_outbox :: "outbox_fn list"
  tr_c :: bool
  tr_errCount :: int
  tr_exited :: bool
  tr_lastTx :: string
  tr_queued :: int
  tr_lastMTime :: Time

definition DbgAddr :: string where "DbgAddr = ''localhost:6831''"

definition NewTracer :: "string \<Rightarrow> DbgTracer" where
  "NewTracer addr = \<lparr>tr_Addr = addr, tr_Ws = False, tr_outbox = [], tr_c = False, tr_errCount = 0, tr_exited = False,
     tr_lastTx = [], tr_queued = 0, tr_lastMTime = []\<rparr>"

definition outboxCap :: nat where "outboxCap = 1000"

text \<open>A send on the full channel blocks the machine.\<close>

definition outbox_send :: "DbgTracer \<Rightarrow> outbox_fn \<Rightarrow> DbgTracer res" where
  "outbox_send t f = (if length (tr_outbox t) < outboxCap then Inr (t\<lparr>tr_outbox := tr_outbox t @ [f]\<rparr>) else Inl Deadlock)"

fun remove_prefixes :: "nat \<Rightarrow> LogEntry option list \<Rightarrow> LogEntry option list" where
  "remove_prefixes n [] = []"
| "remove_prefixes n (le # les) =
     (case le of None \<Rightarrow> None
      | Some e \<Rightarrow> if length (le_Text e) < n then None
                  else Some \<lparr>le_Level = le_Level e, le_Text = drop n (le_Text e)\<rparr>) # remove_prefixes n les"

definition removeLogPrefix :: "DbgMach \<Rightarrow> LogEntry option list \<Rightarrow> LogEntry option list" where
  "removeLogPrefix mach entries =
     (if \<not> dm_IsId mach then entries
      else remove_prefixes (min (length (dm_Id mach) + 3) (5 + 3)) entries)"

definition semlog_msg :: "DbgMach \<Rightarrow> DbgMsgTx option" where
  "semlog_msg mach =
     (if sem_Pipes (dm_Pipes mach) = [] then None
      else Some (DbgMsgTx_zero\<lparr>dt_MachineID := dm_Id mach, dt_ID := ''semlogger'', dt_Clocks := Some (dm_Time mach),
             dt_Accepted := True, dt_IsCheck := True, dt_Type := MutationSet,
             dt_LogEntries := map Some (sem_Pipes (dm_Pipes mach))\<rparr>))"

definition dbg_MachineInit :: "DbgMach \<Rightarrow> DbgTracer \<Rightarrow> DbgTracer res" where
  "dbg_MachineInit mach t =
     (let t1 = t\<lparr>tr_lastMTime := dm_Time mach\<rparr>;
          t2 = (if sem_Pipes (dm_Pipes mach) \<noteq> [] then t1\<lparr>tr_lastTx := ''semlogger''\<rparr> else t1)
      in outbox_send t2 (OutConnect (semlog_msg mach)))"

definition dbg_SchemaChange :: "DbgMach \<Rightarrow> DbgTracer \<Rightarrow> DbgTracer res" where
  "dbg_SchemaChange mach t = outbox_send (t\<lparr>tr_lastMTime := dm_Time mach\<rparr>) OutSchema"

definition dbg_tx_msg :: "DbgMach \<Rightarrow> Transition \<Rightarrow> string \<Rightarrow> Step list \<Rightarrow> LogEntry option list \<Rightarrow> LogEntry option list \<Rightarrow> DbgMsgTx" where
  "dbg_tx_msg mach tx txId steps logs preLogs =
     (let mut = tx_Mutation tx in
      DbgMsgTx_zero\<lparr>dt_MachineID := dm_Id mach, dt_ID := txId, dt_Clocks := Some (tx_TimeAfter tx),
        dt_Accepted := tx_IsAccepted tx, dt_IsCheck := mu_IsCheck mut, dt_Type := mu_Type mut,
        dt_CalledStatesIdxs := mu_Called mut, dt_Steps := steps, dt_LogEntries := removeLogPrefix mach logs,
        dt_PreLogEntries := removeLogPrefix mach preLogs, dt_IsAuto := mu_IsAuto mut, dt_Queue := uint (tx_QueueLen tx),
        dt_QueueTick := dm_QueueTick mach, dt_MutQueueToken := mu_QueueToken mut,
        dt_Args := (if dm_IsArgs mach then dm_MapArgs mach (mu_Args mut) else [])\<rparr>)"

text \<open>The first component tells that the tracer detaches itself.\<close>

definition dbg_TransitionEnd :: "DbgMach \<Rightarrow> Transition \<Rightarrow> string \<Rightarrow> Step list \<Rightarrow> LogEntry option list \<Rightarrow> LogEntry option list
    \<Rightarrow> DbgTracer \<Rightarrow> (bool \<times> DbgTracer) res" where
  "dbg_TransitionEnd mach tx txId steps logs preLogs t =
     (if tr_errCount t > 10 \<and> \<not> tr_exited t then Inr (True, t\<lparr>tr_exited := True\<rparr>)
      else if mu_IsCheck (tx_Mutation tx) \<and> \<not> dm_IsCan mach then Inr (False, t)
      else bindR (outbox_send (t\<lparr>tr_lastTx := txId, tr_lastMTime := tx_TimeAfter tx, tr_queued := 0\<rparr>)
                    (OutTx (dbg_tx_msg mach tx txId steps logs preLogs)))
             (\<lambda>t'. Inr (False, t')))"

definition queued_msg :: "DbgMach \<Rightarrow> Mutation \<Rightarrow> DbgTracer \<Rightarrow> DbgMsgTx" where
  "queued_msg mach mut t =
     (let args = (if dm_IsArgs mach then dm_MapArgs mach (mu_Args mut) else []) in
      DbgMsgTx_zero\<lparr>dt_MachineID := dm_Id mach, dt_ID := tr_lastTx t @ ''-'' @ strconv_Itoa (tr_queued t),
        dt_Clocks := Some (tr_lastMTime t), dt_Accepted := True, dt_IsCheck := mu_IsCheck mut, dt_Type := mu_Type mut,
        dt_CalledStatesIdxs := mu_Called mut, dt_IsAuto := mu_IsAuto mut, dt_Queue := uint (mu_QueueLen mut),
        dt_IsQueued := True, dt_QueueTick := dm_QueueTick mach, dt_MutQueueTick := mu_QueueTick mut,
        dt_MutQueueToken := mu_QueueToken mut,
        dt_Args := (case ParseArgs_AException (mu_Args mut) of None \<Rightarrow> args | Some err \<Rightarrow> gput ''err'' err args)\<rparr>)"

definition dbg_MutationQueued :: "DbgMach \<Rightarrow> Mutation \<Rightarrow> DbgTracer \<Rightarrow> DbgTracer res" where
  "dbg_MutationQueued mach mut t =
     (if mu_IsCheck mut \<and> \<not> dm_IsCan mach then Inr t
      else outbox_send (t\<lparr>tr_queued := tr_queued t + 1\<rparr>) (OutTx (queued_msg mach mut t)))"

section \<open>Outbox\<close>

text \<open>\<open>oc_dial\<close>: the debugger accepts a connection; the others are the errors its methods answer with.\<close>

record send_outcome =
  oc_dial :: bool
  oc_schema :: "string option"
  oc_tx :: "string option"

datatype tracer_call = CallSchema DbgMsgStruct | CallTx DbgMsgTx | CallAddErr string

definition schema_msg :: "DbgMach \<Rightarrow> DbgMsgStruct" where
  "schema_msg mach = \<lparr>ds_ID = dm_Id mach, ds_StatesIndex = dm_StateNames mach, ds_States = dm_Schema mach,
     ds_Groups = dm_Groups mach, ds_GroupsOrder = dm_GroupsOrder mach, ds_Parent = dm_ParentId mach, ds_Tags = dm_Tags mach\<rparr>"

definition count_err :: "string option \<Rightarrow> DbgTracer \<Rightarrow> DbgTracer" where
  "count_err err t = (if err = None then t else t\<lparr>tr_errCount := tr_errCount t + 1\<rparr>)"

text \<open>The method of a client that is \<open>nil\<close> reads \<open>c.rpc\<close>.\<close>

definition client_sendMsgTx :: "bool \<Rightarrow> DbgMsgTx \<Rightarrow> send_outcome \<Rightarrow> (tracer_call list \<times> string option) res" where
  "client_sendMsgTx c msg oc =
     (if \<not> c then Inl (GoPanic ''invalid memory address or nil pointer dereference'') else Inr ([CallTx msg], oc_tx oc))"

definition client_sendMsgSchema :: "bool \<Rightarrow> DbgMsgStruct \<Rightarrow> send_outcome \<Rightarrow> tracer_call list \<times> string option" where
  "client_sendMsgSchema c msg oc = (if \<not> c then ([], None) else ([CallSchema msg], oc_schema oc))"

text \<open>The calls made, the error returned and the tracer.\<close>

definition sendMsgSchema :: "DbgMach \<Rightarrow> DbgTracer \<Rightarrow> DbgMsgTx option \<Rightarrow> send_outcome
    \<Rightarrow> (tracer_call list \<times> string option \<times> DbgTracer) res" where
  "sendMsgSchema mach t semlogMsg oc =
     (case client_sendMsgSchema (tr_c t) (schema_msg mach) oc of
        (calls, Some err) \<Rightarrow> Inr (calls, Some (''failed to send a msg to am-dbg: '' @ err), t)
      | (calls, None) \<Rightarrow>
          (case semlogMsg of None \<Rightarrow> Inr (calls, None, t)
           | Some msg \<Rightarrow> bindR (client_sendMsgTx (tr_c t) msg oc) (\<lambda>(calls2, err).
                            Inr (calls @ calls2, None, count_err err t))))"

text \<open>One function of the outbox; \<open>amLog\<close> is whether \<open>AM_LOG\<close> is set.\<close>

definition outbox_fn_run :: "DbgMach \<Rightarrow> bool \<Rightarrow> send_outcome \<Rightarrow> outbox_fn \<Rightarrow> DbgTracer \<Rightarrow> (tracer_call list \<times> DbgTracer) res" where
  "outbox_fn_run mach amLog oc f t =
     (case f of
        OutConnect semlogMsg \<Rightarrow>
          if dm_Disposed mach then Inr ([], t)
          else let t1 = t\<lparr>tr_c := oc_dial oc\<rparr> in
               if \<not> oc_dial oc \<and> amLog then Inr ([], t1)
               else bindR (sendMsgSchema mach t1 semlogMsg oc) (\<lambda>(calls, err, t2). Inr (calls, t2))
      | OutSchema \<Rightarrow>
          bindR (sendMsgSchema mach t None oc) (\<lambda>(calls, err, t2).
            Inr (case err of None \<Rightarrow> calls
                 | Some e \<Rightarrow> calls @ [CallAddErr (''failed to send new struct to am-dbg: '' @ e)], t2))
      | OutTx msg \<Rightarrow>
          if \<not> tr_c t then Inr ([], t\<lparr>tr_errCount := tr_errCount t + 1\<rparr>)
          else bindR (client_sendMsgTx (tr_c t) msg oc) (\<lambda>(calls, err). Inr (calls, count_err err t)))"

definition outbox_run :: "DbgMach \<Rightarrow> bool \<Rightarrow> send_outcome \<Rightarrow> DbgTracer \<Rightarrow> (tracer_call list \<times> DbgTracer) res" where
  "outbox_run mach amLog oc t =
     (case tr_outbox t of [] \<Rightarrow> Inr ([], t) | f # fs \<Rightarrow> outbox_fn_run mach amLog oc f (t\<lparr>tr_outbox := fs\<rparr>))"

text \<open>\<open>addrs\<close> are the addresses of the debugger's tracers already bound; \<open>bound\<close> is the error of \<open>BindTracer\<close>.
  \<open>None\<close> is a machine left as it is.\<close>

definition TransitionsToDbg :: "DbgMach \<Rightarrow> string list \<Rightarrow> string option \<Rightarrow> string \<Rightarrow> bool option
    \<Rightarrow> (string option \<times> DbgTracer option) res" where
  "TransitionsToDbg mach addrs bound addr0 ws =
     (let addr = (if addr0 = [] then DbgAddr else addr0) in
      if addr \<in> set addrs then Inr (None, None)
      else case bound of Some err \<Rightarrow> Inr (Some err, None)
           | None \<Rightarrow> bindR (dbg_MachineInit mach ((NewTracer addr)\<lparr>tr_Ws := (ws = Some True)\<rparr>)) (\<lambda>t. Inr (None, Some t)))"

end
