(* ===== verification/Am_Dbg_Server.thy ===== *)
theory Am_Dbg_Server
  imports Am_Dbg
begin

text \<open>
  The debugger's server, \<open>src/tools/debugger/server/dbg_server.go\<close>, with the types of
  \<open>src/tools/debugger/types/dbg_types.go\<close> it stores: what is kept of a connected machine (\<open>Client\<close>) and how it is
  searched, the links to other debuggers (\<open>fwdConn\<close>) and the methods of the protocol (\<open>RPCServer\<close>). \<open>DbgClient\<close> has
  the fields of \<open>server.Client\<close>, its \<open>Exportable\<close> and of \<open>debugger.Client\<close> that embeds it, less those of the rendered
  log. Sockets, web pages and command line parameters are left out.
\<close>

section \<open>Searches of the standard library\<close>

text \<open>The loop of \<open>sort.Search\<close>, and \<open>slices.BinarySearchFunc\<close> with what \<open>cmp\<close> gives for an element.\<close>

function sort_search :: "(nat \<Rightarrow> bool) \<Rightarrow> nat \<Rightarrow> nat \<Rightarrow> nat" where
  "sort_search f i k =
     (if i < k then let h = (i + k) div 2 in if \<not> f h then sort_search f (h + 1) k else sort_search f i h else i)"
  by pat_completeness auto
termination
  by (relation "measure (\<lambda>(f, i, k). k - i)") auto

declare sort_search.simps [simp del]

definition sort_Search :: "nat \<Rightarrow> (nat \<Rightarrow> bool) \<Rightarrow> nat" where
  "sort_Search n f = sort_search f 0 n"

definition slices_BinarySearchFunc :: "'a list \<Rightarrow> ('a \<Rightarrow> int) \<Rightarrow> nat \<times> bool" where
  "slices_BinarySearchFunc xs cmp =
     (let i = sort_Search (length xs) (\<lambda>h. \<not> cmp (xs ! h) < 0) in (i, i < length xs \<and> cmp (xs ! i) = 0))"

section \<open>Types\<close>

text \<open>A human time of \<open>0\<close> is the zero time.\<close>

record MachAddress =
  ma_MachId :: string
  ma_TxId :: string
  ma_Step :: int
  ma_MachTime :: uint64
  ma_QueueTick :: uint64
  ma_HumanTime :: int
  ma_Group :: string
  ma_State :: string

definition MachAddress_zero :: MachAddress where
  "MachAddress_zero = \<lparr>ma_MachId = [], ma_TxId = [], ma_Step = 0, ma_MachTime = 0, ma_QueueTick = 0, ma_HumanTime = 0,
     ma_Group = [], ma_State = []\<rparr>"

definition MachAddress_Clone :: "MachAddress \<Rightarrow> MachAddress" where
  "MachAddress_Clone a = MachAddress_zero\<lparr>ma_MachId := ma_MachId a, ma_TxId := ma_TxId a, ma_Step := ma_Step a,
     ma_MachTime := ma_MachTime a\<rparr>"

text \<open>\<open>fmtTime\<close> is the text of a \<open>time.Time\<close>.\<close>

definition StringBase :: "(int \<Rightarrow> string) \<Rightarrow> MachAddress option \<Rightarrow> string" where
  "StringBase fmtTime addr =
     (case addr of None \<Rightarrow> []
      | Some a \<Rightarrow>
          if ma_MachId a = [] then []
          else let ret = ''mach://'' @ ma_MachId a in
               if ma_TxId a \<noteq> []
               then ret @ ''/'' @ ma_TxId a @ (if ma_Step a \<noteq> 0 then ''/'' @ strconv_Itoa (ma_Step a) else [])
               else if ma_MachTime a \<noteq> 0 then ret @ ''/?t='' @ strconv_Itoa (uint (ma_MachTime a))
               else if ma_QueueTick a \<noteq> 0 then ret @ ''/?q='' @ strconv_Itoa (uint (ma_QueueTick a))
               else if ma_HumanTime a \<noteq> 0 then ret @ ''/?q='' @ fmtTime (ma_HumanTime a)
               else [])"

definition NormalizeGroupName :: "string \<Rightarrow> string" where
  "NormalizeGroupName name =
     (let name1 = (case str_cut '':'' name of None \<Rightarrow> name | Some (a, b) \<Rightarrow> a) in
      strings_TrimSuffix (filter (\<lambda>c. c \<noteq> CHR '' '') (filter (\<lambda>c. c \<noteq> CHR ''-'') name1)) ''StatesDef'')"

definition MachAddress_String :: "(int \<Rightarrow> string) \<Rightarrow> MachAddress \<Rightarrow> string" where
  "MachAddress_String fmtTime a =
     (let ret = StringBase fmtTime (Some a);
          get = (if ma_MachTime a \<noteq> 0 then [''t='' @ strconv_Itoa (uint (ma_MachTime a))] else [])
              @ (if ma_QueueTick a \<noteq> 0 then [''q='' @ strconv_Itoa (uint (ma_QueueTick a))] else [])
              @ (if ma_HumanTime a \<noteq> 0 then [''ht='' @ fmtTime (ma_HumanTime a)] else [])
              @ (if ma_Group a \<noteq> [] then [''group='' @ NormalizeGroupName (ma_Group a)] else [])
              @ (if ma_State a \<noteq> [] then [''state='' @ ma_State a] else [])
      in if length get = 0 then ret else ret @ ''?'' @ strings_Join (sort get) ''&'')"

datatype LogReaderKind =
    LogReaderCtx | LogReaderWhen | LogReaderWhenNot | LogReaderWhenTime | LogReaderWhenArgs | LogReaderWhenQueue
  | LogReaderPipeIn | LogReaderPipeOut

record LogReaderEntry =
  lr_Kind :: LogReaderKind
  lr_States :: "int list"
  lr_CreatedAt :: uint64
  lr_ClosedAt :: int
  lr_Pipe :: MutationType
  lr_Mach :: string
  lr_Ticks :: Time
  lr_Args :: string
  lr_QueueTick :: int

record LogReaderEntryPtr =
  lp_TxId :: string
  lp_EntryIdx :: nat

record MsgTxParsed =
  mp_StatesAdded :: "int list"
  mp_StatesRemoved :: "int list"
  mp_StatesTouched :: "int list"
  mp_TimeSum :: uint64
  mp_TimeDiff :: uint64
  mp_ReaderEntries :: "LogReaderEntryPtr list"
  mp_Forks :: "MachAddress list"

definition MsgTxParsed_zero :: MsgTxParsed where
  "MsgTxParsed_zero = \<lparr>mp_StatesAdded = [], mp_StatesRemoved = [], mp_StatesTouched = [], mp_TimeSum = 0, mp_TimeDiff = 0,
     mp_ReaderEntries = [], mp_Forks = []\<rparr>"

record MsgSchemaParsed =
  sp_Groups :: "(string, S) gomap"
  sp_GroupsOrder :: S
  sp_Hash :: string

record Filters =
  fl_SkipCanceledTx :: bool
  fl_SkipAutoTx :: bool
  fl_SkipAutoCanceledTx :: bool
  fl_SkipEmptyTx :: bool
  fl_SkipHealthTx :: bool
  fl_SkipQueuedTx :: bool
  fl_SkipOutGroup :: bool
  fl_SkipChecks :: bool
  fl_LogLevel :: int
  fl_SkipRpcMach :: bool

definition Filters_Equal :: "Filters option \<Rightarrow> Filters option \<Rightarrow> bool" where
  "Filters_Equal f filters =
     (case (f, filters) of
        (Some a, Some b) \<Rightarrow>
          fl_SkipCanceledTx a = fl_SkipCanceledTx b \<and> fl_SkipAutoTx a = fl_SkipAutoTx b
          \<and> fl_SkipAutoCanceledTx a = fl_SkipAutoCanceledTx b \<and> fl_SkipEmptyTx a = fl_SkipEmptyTx b
          \<and> fl_SkipHealthTx a = fl_SkipHealthTx b \<and> fl_SkipQueuedTx a = fl_SkipQueuedTx b
          \<and> fl_SkipOutGroup a = fl_SkipOutGroup b \<and> fl_SkipChecks a = fl_SkipChecks b
          \<and> fl_LogLevel a = fl_LogLevel b \<and> fl_SkipRpcMach a = fl_SkipRpcMach b
      | _ \<Rightarrow> False)"

section \<open>Client\<close>

record DbgClient =
  dc_MsgStruct :: DbgMsgStruct
  dc_MsgTxs :: "DbgMsgTx list"
  dc_Markers :: "string list"
  dc_Id :: string
  dc_MTimeSum :: uint64
  dc_SelectedGroup :: string
  dc_Connected :: bool
  dc_ConnId :: string
  dc_SchemaHash :: string
  dc_MsgTxsFiltered :: "int list"
  dc_LogMsgs :: "LogEntry list list"
  dc_Errors :: "int list"
  dc_MsgTxsParsed :: "MsgTxParsed list"
  dc_MsgSchemaParsed :: MsgSchemaParsed
  dc_txCache :: "(string, nat) gomap"
  dc_CursorTx1 :: int
  dc_SelectedState :: string
  dc_LogReader :: "(string, LogReaderEntry list) gomap"

definition dbg_StatesToIndexes :: "S \<Rightarrow> S \<Rightarrow> int list" where
  "dbg_StatesToIndexes allStates states = map (\<lambda>state. slices_Index allStates state) states"

fun indexes_to_states :: "nat \<Rightarrow> S \<Rightarrow> int list \<Rightarrow> S res" where
  "indexes_to_states i allStates [] = Inr []"
| "indexes_to_states i allStates (idx # idxs) =
     bindR (if idx = - 1 \<or> idx \<ge> int (length allStates) then Inr (''unknown'' @ strconv_Itoa (int i))
            else if idx < 0 then Inl (GoPanic ''index out of range'')
            else Inr (allStates ! nat idx)) (\<lambda>s.
       bindR (indexes_to_states (Suc i) allStates idxs) (\<lambda>rest. Inr (s # rest)))"

definition dbg_IndexesToStates :: "S \<Rightarrow> int list \<Rightarrow> S res" where
  "dbg_IndexesToStates allStates indexes = indexes_to_states 0 allStates indexes"

fun parse_groups :: "DbgMsgStruct \<Rightarrow> S \<Rightarrow> bool \<Rightarrow> S \<Rightarrow> MsgSchemaParsed \<Rightarrow> MsgSchemaParsed res" where
  "parse_groups schema [] pastSelf prev sp = Inr sp"
| "parse_groups schema (g # gs) pastSelf prev sp =
     (let name0 = strings_TrimSuffix g ''StatesDef'';
          name = (if g = ''self'' then ''- self'' else if pastSelf then ''- '' @ name0 else name0) in
      bindR (dbg_IndexesToStates (ds_StatesIndex schema) (ggetd [] (ds_Groups schema) g)) (\<lambda>states.
        let sp1 = sp\<lparr>sp_GroupsOrder := sp_GroupsOrder sp @ [name], sp_Groups := gput name states (sp_Groups sp)\<rparr>;
            sp2 = (if pastSelf then sp1\<lparr>sp_Groups := gput g (ggetd [] (sp_Groups sp1) name @ prev) (sp_Groups sp1)\<rparr> else sp1);
            prev2 = (if pastSelf then ggetd [] (sp_Groups sp2) name else prev)
        in parse_groups schema gs (pastSelf \<or> g = ''self'') prev2 sp2))"

definition ParseSchema :: "(string \<Rightarrow> string) \<Rightarrow> DbgMsgStruct \<Rightarrow> MsgSchemaParsed res" where
  "ParseSchema hash schema =
     (let sp = \<lparr>sp_Groups = [(''all'', ds_StatesIndex schema)], sp_GroupsOrder = [''all''],
                sp_Hash = SchemaHash hash (Some (ds_States schema))\<rparr> in
      if length (ds_GroupsOrder schema) = 0 then Inr sp else parse_groups schema (ds_GroupsOrder schema) False [] sp)"

definition NewDbgClient :: "(string \<Rightarrow> string) \<Rightarrow> string \<Rightarrow> DbgMsgStruct \<Rightarrow> DbgClient res" where
  "NewDbgClient hash connId schema =
     bindR (ParseSchema hash schema) (\<lambda>sp.
       Inr \<lparr>dc_MsgStruct = schema, dc_MsgTxs = [], dc_Markers = [], dc_Id = ds_ID schema, dc_MTimeSum = 0,
         dc_SelectedGroup = [], dc_Connected = False, dc_ConnId = connId, dc_SchemaHash = SchemaHash hash (Some (ds_States schema)),
         dc_MsgTxsFiltered = [], dc_LogMsgs = [], dc_Errors = [], dc_MsgTxsParsed = [], dc_MsgSchemaParsed = sp,
         dc_txCache = [], dc_CursorTx1 = 0, dc_SelectedState = [], dc_LogReader = []\<rparr>)"

definition TxIsMarked :: "DbgClient \<Rightarrow> string \<Rightarrow> bool" where
  "TxIsMarked c txId = (txId \<in> set (dc_Markers c))"

definition TxMark :: "DbgClient \<Rightarrow> string \<Rightarrow> bool \<Rightarrow> DbgClient" where
  "TxMark c txId mark = c\<lparr>dc_Markers := (if mark then List.insert txId (dc_Markers c) else removeAll txId (dc_Markers c))\<rparr>"

definition ClearCache :: "DbgClient \<Rightarrow> DbgClient" where
  "ClearCache c = c\<lparr>dc_txCache := []\<rparr>"

definition dbg_Tx :: "DbgClient \<Rightarrow> int \<Rightarrow> DbgMsgTx option" where
  "dbg_Tx c idx = (if idx < 0 \<or> idx \<ge> int (length (dc_MsgTxs c)) then None else Some (dc_MsgTxs c ! nat idx))"

definition TxParsed :: "DbgClient \<Rightarrow> int \<Rightarrow> MsgTxParsed option" where
  "TxParsed c idx = (if idx < 0 \<or> idx \<ge> int (length (dc_MsgTxsParsed c)) then None else Some (dc_MsgTxsParsed c ! nat idx))"

text \<open>The zero time without a transition.\<close>

definition LastActive :: "DbgClient \<Rightarrow> int res" where
  "LastActive c =
     (if length (dc_MsgTxs c) = 0 then Inr 0
      else case dt_Time (last (dc_MsgTxs c)) of
             None \<Rightarrow> Inl (GoPanic ''invalid memory address or nil pointer dereference'') | Some t \<Rightarrow> Inr t)"

definition HadErrSinceTx :: "DbgClient \<Rightarrow> int \<Rightarrow> int \<Rightarrow> bool" where
  "HadErrSinceTx c tx distance =
     (if tx \<in> set (dc_Errors c) then True
      else let index = sort_Search (length (dc_Errors c)) (\<lambda>i. dc_Errors c ! i < tx) in
           if index \<ge> length (dc_Errors c) then False else tx - dc_Errors c ! index < distance)"

definition TxAtQueueTick :: "DbgClient \<Rightarrow> uint64 \<Rightarrow> int" where
  "TxAtQueueTick c qTick =
     (let l = length (dc_MsgTxs c) in
      if l = 0 then - 1
      else let i = sort_Search l (\<lambda>i. dt_QueueTick (dc_MsgTxs c ! i) \<ge> qTick) in
           int (if i = l then l - 1 else i))"

text \<open>Both branches of the last test return the same index; the times are set, as they are on reception.\<close>

definition TxAtHTime :: "DbgClient \<Rightarrow> int \<Rightarrow> int" where
  "TxAtHTime c hTime =
     (let l = length (dc_MsgTxs c); time = (\<lambda>i. the (dt_Time (dc_MsgTxs c ! i))) in
      if l = 0 then - 1
      else let i = sort_Search l (\<lambda>i. time i > hTime \<or> time i = hTime);
               i1 = (if i = l then l - 1 else i)
           in if i1 > 0 \<and> time i1 - hTime > hTime - time (i1 - 1) then int i1 else int i1)"

fun first_tx :: "DbgMsgTx list \<Rightarrow> string \<Rightarrow> nat option" where
  "first_tx [] id0 = None"
| "first_tx (tx # txs) id0 = (if dt_ID tx = id0 then Some 0 else map_option Suc (first_tx txs id0))"

definition TxIndex :: "DbgClient \<Rightarrow> string \<Rightarrow> int \<times> DbgClient" where
  "TxIndex c id0 =
     (case gget (dc_txCache c) id0 of Some idx \<Rightarrow> (int idx, c)
      | None \<Rightarrow> (case first_tx (dc_MsgTxs c) id0 of
                   Some i \<Rightarrow> (int i, c\<lparr>dc_txCache := gput id0 i (dc_txCache c)\<rparr>) | None \<Rightarrow> (- 1, c)))"

text \<open>An index out of range is a panic.\<close>

definition TxExecutedBy :: "DbgClient \<Rightarrow> int \<Rightarrow> DbgMsgTx option res" where
  "TxExecutedBy c idx =
     (case dbg_Tx c idx of None \<Rightarrow> Inl (GoPanic ''index out of range'')
      | Some tx \<Rightarrow>
          Inr (if \<not> dt_IsQueued tx then None
               else find (\<lambda>check. \<not> dt_IsQueued check
                      \<and> (dt_QueueTick check = dt_MutQueueTick tx
                         \<or> (dt_MutQueueToken check > 0 \<and> dt_MutQueueToken check = dt_MutQueueToken tx)))
                    (drop (Suc (nat idx)) (dc_MsgTxs c))))"

definition TxAtMachTime :: "DbgClient \<Rightarrow> uint64 \<Rightarrow> int" where
  "TxAtMachTime c time =
     (case slices_BinarySearchFunc (dc_MsgTxsParsed c)
             (\<lambda>p. if mp_TimeSum p < time then - 1 else if mp_TimeSum p > time then 1 else 0) of
        (idx, ok) \<Rightarrow> if \<not> ok then 0 else int idx)"

definition FilterIndexByCursor1 :: "DbgClient \<Rightarrow> int \<Rightarrow> int" where
  "FilterIndexByCursor1 c cursor1 = (if cursor1 = 0 then 0 else slices_Index (dc_MsgTxsFiltered c) (cursor1 - 1))"

definition StatesStringToIndex :: "DbgClient \<Rightarrow> string \<Rightarrow> int list" where
  "StatesStringToIndex c states = S_Index (ds_StatesIndex (dc_MsgStruct c)) (strings_Split states '' '')"

definition AddReaderEntry :: "DbgClient \<Rightarrow> string \<Rightarrow> LogReaderEntry \<Rightarrow> nat \<times> DbgClient" where
  "AddReaderEntry c txId entry =
     (let es = ggetd [] (dc_LogReader c) txId @ [entry] in (length es - 1, c\<lparr>dc_LogReader := gput txId es (dc_LogReader c)\<rparr>))"

definition GetReaderEntry :: "DbgClient \<Rightarrow> string \<Rightarrow> nat \<Rightarrow> LogReaderEntry option" where
  "GetReaderEntry c txId idx =
     (case gget (dc_LogReader c) txId of None \<Rightarrow> None | Some es \<Rightarrow> if idx \<ge> length es then None else Some (es ! idx))"

section \<open>Links to other debuggers\<close>

definition fwdBackoffMin :: int where "fwdBackoffMin = 500000000"
definition fwdBackoffMax :: int where "fwdBackoffMax = 30000000000"

record fwdConn =
  fw_cli :: "nat option"
  fw_backoff :: int
  fw_nextDial :: int

definition newFwdConn :: fwdConn where
  "newFwdConn = \<lparr>fw_cli = None, fw_backoff = fwdBackoffMin, fw_nextDial = 0\<rparr>"

text \<open>The first component is the delay after which a goroutine dials again.\<close>

definition fwd_retry :: "int \<Rightarrow> fwdConn \<Rightarrow> int \<times> fwdConn" where
  "fwd_retry now f =
     (let delay = fw_backoff f; next = fw_backoff f * 2 in
      (delay, f\<lparr>fw_nextDial := now + delay, fw_backoff := (if next > fwdBackoffMax then fwdBackoffMax else next)\<rparr>))"

text \<open>\<open>net\<close> is the result of \<open>rpc.Dial\<close>, \<open>push\<close> the error of \<open>pushClientSchemas\<close> on the new connection.\<close>

definition fwd_dial :: "int \<Rightarrow> nat option \<Rightarrow> string option \<Rightarrow> fwdConn \<Rightarrow> int option \<times> fwdConn" where
  "fwd_dial now net push f =
     (if fw_cli f \<noteq> None \<or> now < fw_nextDial f then (None, f)
      else case net of
             None \<Rightarrow> (case fwd_retry now f of (delay, f') \<Rightarrow> (Some delay, f'))
           | Some cli \<Rightarrow> if push \<noteq> None then (case fwd_retry now f of (delay, f') \<Rightarrow> (Some delay, f'))
                         else (None, f\<lparr>fw_cli := Some cli, fw_backoff := fwdBackoffMin\<rparr>))"

text \<open>The end of a call on the connection read at its start; \<open>True\<close> is a goroutine that dials.\<close>

definition fwd_Call :: "nat option \<Rightarrow> string option \<Rightarrow> fwdConn \<Rightarrow> string option \<times> bool \<times> fwdConn" where
  "fwd_Call cli0 res f =
     (case cli0 of None \<Rightarrow> (Some ''not connected'', True, f)
      | Some cli \<Rightarrow> (case res of None \<Rightarrow> (None, False, f)
                     | Some err \<Rightarrow> (Some err, True, if fw_cli f = Some cli then f\<lparr>fw_cli := None\<rparr> else f)))"

text \<open>A link with the goroutines that are to dial, by the time they run at the earliest.\<close>

record fwd_sys =
  fy_conn :: fwdConn
  fy_pending :: "int list"
  fy_now :: int

definition fwd_run_dial :: "int \<Rightarrow> nat option \<Rightarrow> string option \<Rightarrow> fwd_sys \<Rightarrow> fwd_sys" where
  "fwd_run_dial due net push s =
     (case fwd_dial (fy_now s) net push (fy_conn s) of (again, f) \<Rightarrow>
        s\<lparr>fy_conn := f, fy_pending := remove1 due (fy_pending s) @ (case again of None \<Rightarrow> [] | Some d \<Rightarrow> [fy_now s + d])\<rparr>)"

definition fwd_run_call :: "nat option \<Rightarrow> string option \<Rightarrow> fwd_sys \<Rightarrow> fwd_sys" where
  "fwd_run_call cli res s =
     (case fwd_Call cli res (fy_conn s) of (err, go, f) \<Rightarrow>
        s\<lparr>fy_conn := f, fy_pending := fy_pending s @ (if go then [fy_now s] else [])\<rparr>)"

inductive fwd_step :: "fwd_sys \<Rightarrow> fwd_sys \<Rightarrow> bool" where
  fwd_time: "fy_now s \<le> t \<Longrightarrow> fwd_step s (s\<lparr>fy_now := t\<rparr>)"
| fwd_dials: "due \<in> set (fy_pending s) \<Longrightarrow> due \<le> fy_now s \<Longrightarrow> fwd_step s (fwd_run_dial due net push s)"
| fwd_call_down: "fw_cli (fy_conn s) = None \<Longrightarrow> fwd_step s (fwd_run_call None res s)"
| fwd_call_up: "fwd_step s (fwd_run_call (Some cli) res s)"

inductive fwd_reach :: "fwd_sys \<Rightarrow> bool" where
  fwd_start: "0 \<le> t \<Longrightarrow> fwd_reach \<lparr>fy_conn = newFwdConn, fy_pending = [t], fy_now = t\<rparr>"
| fwd_next: "fwd_reach s \<Longrightarrow> fwd_step s s' \<Longrightarrow> fwd_reach s'"

section \<open>Protocol\<close>

text \<open>The variables shared by the connections. \<open>rs_scheduled\<close> says that a goroutine waits to pass the queue on.\<close>

record DbgServer =
  rs_queue :: "DbgMsgTx list"
  rs_queueConnId :: "string list"
  rs_scheduled :: bool
  rs_clientSchemas :: "(string, DbgMsgStruct) gomap"

definition DbgServer_zero :: DbgServer where
  "DbgServer_zero = \<lparr>rs_queue = [], rs_queueConnId = [], rs_scheduled = False, rs_clientSchemas = []\<rparr>"

text \<open>The mutations of the debugger's machine.\<close>

datatype srv_call = SrvConnect DbgMsgStruct string | SrvClientMsg "DbgMsgTx list" "string list" | SrvDisconnect string

text \<open>The hosts are called in turn, until one fails; the list has the error of each, \<open>None\<close> without one.\<close>

fun fwd_hosts :: "string option list \<Rightarrow> string option" where
  "fwd_hosts [] = None"
| "fwd_hosts (None # hosts) = fwd_hosts hosts"
| "fwd_hosts (Some err # hosts) = Some err"

definition pushClientSchemas :: "DbgServer \<Rightarrow> (DbgMsgStruct \<Rightarrow> string option) \<Rightarrow> string option" where
  "pushClientSchemas s call = fwd_hosts (map (\<lambda>(connId, msg). call msg) (rs_clientSchemas s))"

definition rpc_DbgMsgSchemaFwd :: "DbgMsgStruct \<Rightarrow> string \<Rightarrow> DbgServer \<Rightarrow> srv_call \<times> DbgServer" where
  "rpc_DbgMsgSchemaFwd msg connId s = (SrvConnect msg connId, s\<lparr>rs_clientSchemas := gput connId msg (rs_clientSchemas s)\<rparr>)"

definition rpc_DbgMsgSchema :: "string \<Rightarrow> string option list \<Rightarrow> DbgMsgStruct \<Rightarrow> DbgServer \<Rightarrow> srv_call \<times> string option \<times> DbgServer" where
  "rpc_DbgMsgSchema connId hosts msg s =
     (SrvConnect msg connId, fwd_hosts hosts, s\<lparr>rs_clientSchemas := gput connId msg (rs_clientSchemas s)\<rparr>)"

text \<open>Both methods for a transition, \<open>DbgMsgTx\<close> with the connection's own ID and \<open>DbgMsgTxFwd\<close> with the one sent along.
  The reply is the error of a host.\<close>

definition rpc_DbgMsgTx :: "int \<Rightarrow> string \<Rightarrow> string option list \<Rightarrow> DbgMsgTx \<Rightarrow> DbgServer \<Rightarrow> string option \<times> DbgServer" where
  "rpc_DbgMsgTx now connId hosts msgTx s =
     (fwd_hosts hosts,
      s\<lparr>rs_scheduled := True, rs_queue := rs_queue s @ [msgTx\<lparr>dt_Time := Some now\<rparr>],
        rs_queueConnId := rs_queueConnId s @ [connId]\<rparr>)"

text \<open>The goroutine, after its second of sleep.\<close>

definition rpc_flush :: "DbgServer \<Rightarrow> srv_call \<times> DbgServer" where
  "rpc_flush s = (SrvClientMsg (rs_queue s) (rs_queueConnId s), s\<lparr>rs_queue := [], rs_queueConnId := [], rs_scheduled := False\<rparr>)"

text \<open>The end of a connection.\<close>

definition conn_end :: "string \<Rightarrow> DbgServer \<Rightarrow> srv_call \<times> DbgServer" where
  "conn_end connId s = (SrvDisconnect connId, s\<lparr>rs_clientSchemas := gdel connId (rs_clientSchemas s)\<rparr>)"

end
