(* ===== verification/Am_Debugger.thy ===== *)
theory Am_Debugger
  imports Am_Dbg_Server
begin

text \<open>
  The core of the debugger, \<open>src/tools/debugger/\<close> (\<open>debugger.go\<close>, \<open>dbg_handlers.go\<close>, \<open>log.go\<close>, \<open>misc_dbg.go\<close>,
  \<open>client_list.go\<close>, \<open>ui.go\<close>): connections and the messages received, how a message is parsed, filters, the cursor,
  the history of addresses, markers and the removal of old messages. The clients are objects, so they live in a store
  (\<open>dg_store\<close>), \<open>d.Clients\<close> and \<open>d.C\<close> hold references. \<open>is\<close> tells which states of the debugger's own machine are
  active; the mutations a handler makes are a list of \<open>dg_call\<close>. Rendering, files, diagrams, the graph of machines and
  the call log are left out; \<open>fmt\<close> stands for \<open>fmtLogEntry\<close>, the colours of a logged line.
\<close>

section \<open>State\<close>

record MarkerItem =
  mk_ClientId :: string
  mk_TxId :: string
  mk_Time :: int

text \<open>A pointer to a string: to a value of its own, or to the selected group of a client.\<close>

datatype group_ptr = GroupVal string | GroupOf nat

record Debugger =
  dg_store :: "(nat, DbgClient) gomap"
  dg_next :: nat
  dg_Clients :: "(string, nat) gomap"
  dg_C :: "nat option"
  dg_History :: "MachAddress list"
  dg_HistoryCursor :: int
  dg_markers :: "MarkerItem list"
  dg_lastScrolledTxTime :: int
  dg_msgsDelayed :: "DbgMsgTx list"
  dg_msgsDelayedConns :: "string list"
  dg_selectedGroup :: group_ptr
  dg_selectedState :: string
  dg_CleanOnConnect :: bool
  dg_SelectConnected :: bool

datatype dg_call =
    DgAdd string | DgRemove string | DgErr string | DgLog string
  | DgSelecting string bool | DgRemoveClient string | DgDisconnect string | DgInitClient string
  | DgStateSelected string | DgScrollToTx int bool | DgBuildingLog nat | DgGroupToggled nat | DgGoTo MachAddress

abbreviation nil_deref :: fault where
  "nil_deref \<equiv> GoPanic ''invalid memory address or nil pointer dereference''"

abbreviation out_of_range :: fault where
  "out_of_range \<equiv> GoPanic ''index out of range''"

definition dg_get :: "Debugger \<Rightarrow> nat \<Rightarrow> DbgClient res" where
  "dg_get d r = (case gget (dg_store d) r of None \<Rightarrow> Inl nil_deref | Some c \<Rightarrow> Inr c)"

definition dg_put :: "nat \<Rightarrow> DbgClient \<Rightarrow> Debugger \<Rightarrow> Debugger" where
  "dg_put r c d = d\<lparr>dg_store := gput r c (dg_store d)\<rparr>"

definition dg_current :: "Debugger \<Rightarrow> DbgClient option" where
  "dg_current d = (case dg_C d of None \<Rightarrow> None | Some r \<Rightarrow> gget (dg_store d) r)"

definition group_val :: "Debugger \<Rightarrow> string" where
  "group_val d = (case dg_selectedGroup d of GroupVal g \<Rightarrow> g
     | GroupOf r \<Rightarrow> (case gget (dg_store d) r of None \<Rightarrow> [] | Some c \<Rightarrow> dc_SelectedGroup c))"

definition sget :: "'a list \<Rightarrow> int \<Rightarrow> 'a res" where
  "sget xs i = (if 0 \<le> i \<and> i < int (length xs) then Inr (xs ! nat i) else Inl out_of_range)"

definition hGetClient :: "Debugger \<Rightarrow> string \<Rightarrow> nat option" where
  "hGetClient d machId = gget (dg_Clients d) machId"

definition hGetClientTx :: "Debugger \<Rightarrow> string \<Rightarrow> string \<Rightarrow> ((nat \<times> DbgMsgTx) option \<times> Debugger) res" where
  "hGetClientTx d machId txId =
     (case hGetClient d machId of None \<Rightarrow> Inr (None, d)
      | Some r \<Rightarrow> bindR (dg_get d r) (\<lambda>c. case TxIndex c txId of (idx, c') \<Rightarrow>
          Inr (if idx < 0 then None else map_option (\<lambda>tx. (r, tx)) (dbg_Tx c' idx), dg_put r c' d)))"

definition machIsRpc :: "DbgMsgStruct \<Rightarrow> bool" where
  "machIsRpc schema = (HasTag schema ''rpc-client'' [] \<or> HasTag schema ''rpc-server'' [] \<or> HasTag schema ''rpc-mux'' []
     \<or> HasTag schema ''relay'' [])"

definition hConnectedClients :: "Debugger \<Rightarrow> nat" where
  "hConnectedClients d = length (filter (\<lambda>(name, r). case gget (dg_store d) r of None \<Rightarrow> False | Some c \<Rightarrow> dc_Connected c) (dg_Clients d))"

definition hClientHasParent :: "Debugger \<Rightarrow> string \<Rightarrow> bool" where
  "hClientHasParent d cid =
     (case gget (dg_Clients d) cid of None \<Rightarrow> False
      | Some r \<Rightarrow> (case gget (dg_store d) r of None \<Rightarrow> False
                   | Some c \<Rightarrow> ds_Parent (dc_MsgStruct c) \<noteq> [] \<and> ghas (dg_Clients d) (ds_Parent (dc_MsgStruct c))))"

text \<open>The recursion follows the parents; it has fuel, as nothing keeps the parents from forming a cycle.\<close>

fun hGetParentTags :: "nat \<Rightarrow> Debugger \<Rightarrow> nat \<Rightarrow> S \<Rightarrow> S res" where
  "hGetParentTags 0 d r tags = Inl OutOfFuel"
| "hGetParentTags (Suc n) d r tags =
     bindR (dg_get d r) (\<lambda>c.
       case gget (dg_Clients d) (ds_Parent (dc_MsgStruct c)) of None \<Rightarrow> Inr tags
       | Some p \<Rightarrow> bindR (dg_get d p) (\<lambda>pc. hGetParentTags n d p (tags @ ds_Tags (dc_MsgStruct pc))))"

section \<open>Filters\<close>

definition groupFilters :: S where
  "groupFilters = [''FilterAutoTx'', ''FilterCanceledTx'', ''FilterEmptyTx'', ''FilterHealth'', ''FilterOutGroup'',
     ''FilterQueuedTx'', ''FilterAutoCanceledTx'']"

definition filtersActive :: "(string \<Rightarrow> bool) \<Rightarrow> bool" where
  "filtersActive is = list_ex is groupFilters"

definition filtersFromStates :: "(string \<Rightarrow> bool) \<Rightarrow> Filters" where
  "filtersFromStates is =
     \<lparr>fl_SkipCanceledTx = is ''FilterCanceledTx'', fl_SkipAutoTx = is ''FilterAutoTx'',
      fl_SkipAutoCanceledTx = is ''FilterAutoCanceledTx'', fl_SkipEmptyTx = is ''FilterEmptyTx'',
      fl_SkipHealthTx = is ''FilterHealth'', fl_SkipQueuedTx = is ''FilterQueuedTx'',
      fl_SkipOutGroup = is ''FilterOutGroup'', fl_SkipChecks = is ''FilterChecks'', fl_LogLevel = 0,
      fl_SkipRpcMach = is ''FilterRpcMachs''\<rparr>"

definition statesFromFilters :: "Filters \<Rightarrow> dg_call list" where
  "statesFromFilters f =
     map (\<lambda>(on, state). if on then DgAdd state else DgRemove state)
       [(fl_SkipCanceledTx f, ''FilterCanceledTx''), (fl_SkipAutoTx f, ''FilterAutoTx''),
        (fl_SkipAutoCanceledTx f, ''FilterAutoCanceledTx''), (fl_SkipEmptyTx f, ''FilterEmptyTx''),
        (fl_SkipHealthTx f, ''FilterHealth''), (fl_SkipQueuedTx f, ''FilterQueuedTx''),
        (fl_SkipOutGroup f, ''FilterOutGroup''), (fl_SkipChecks f, ''FilterChecks''), (fl_SkipRpcMach f, ''FilterRpcMachs'')]"

text \<open>A queued transition of an automatic mutation whose execution was canceled.\<close>

definition auto_canceled_later :: "DbgClient \<Rightarrow> int \<Rightarrow> DbgMsgTx \<Rightarrow> Filters \<Rightarrow> bool res" where
  "auto_canceled_later c idx tx f =
     (if fl_SkipAutoCanceledTx f \<and> dt_IsAuto tx \<and> dt_IsQueued tx
      then bindR (TxExecutedBy c idx) (\<lambda>ex. Inr (case ex of None \<Rightarrow> False | Some e \<Rightarrow> \<not> dt_Accepted e))
      else Inr False)"

definition hFilterTx :: "DbgClient \<Rightarrow> int \<Rightarrow> Filters \<Rightarrow> bool res" where
  "hFilterTx c idx f =
     bindR (sget (dc_MsgTxs c) idx) (\<lambda>tx.
       case TxParsed c idx of None \<Rightarrow> Inr False
       | Some parsed \<Rightarrow>
           bindR (dbg_CalledStateNames tx (ds_StatesIndex (dc_MsgStruct c))) (\<lambda>called.
             if fl_SkipAutoTx f \<and> dt_IsAuto tx then Inr False
             else if fl_SkipAutoCanceledTx f \<and> dt_IsAuto tx \<and> \<not> dt_Accepted tx then Inr False
             else bindR (auto_canceled_later c idx tx f) (\<lambda>later.
               if later then Inr False
               else if fl_SkipCanceledTx f \<and> \<not> dt_Accepted tx then Inr False
               else if fl_SkipQueuedTx f \<and> dt_IsQueued tx then Inr False
               else if fl_SkipChecks f \<and> dt_IsCheck tx then Inr False
               else if fl_SkipOutGroup f \<and> dc_SelectedGroup c \<noteq> []
                       \<and> length (StatesShared called (ggetd [] (sp_Groups (dc_MsgSchemaParsed c)) (dc_SelectedGroup c))) = 0
               then Inr False
               else if fl_SkipEmptyTx f \<and> mp_TimeDiff parsed = 0 \<and> \<not> dt_IsQueued tx \<and> dt_Accepted tx then Inr False
               else if fl_SkipHealthTx f \<and> length called = 1 \<and> hd called \<in> {''Healthcheck'', ''Heartbeat''} then Inr False
               else Inr True)))"

fun filter_from :: "DbgClient \<Rightarrow> Filters \<Rightarrow> nat \<Rightarrow> nat \<Rightarrow> int list res" where
  "filter_from c f i 0 = Inr []"
| "filter_from c f i (Suc n) =
     bindR (hFilterTx c (int i) f) (\<lambda>ok.
       bindR (filter_from c f (Suc i) n) (\<lambda>rest. Inr (if ok then int i # rest else rest)))"

definition hFilterClientTxs :: "(string \<Rightarrow> bool) \<Rightarrow> Debugger \<Rightarrow> Debugger res" where
  "hFilterClientTxs is d =
     (case dg_C d of None \<Rightarrow> Inr d
      | Some r \<Rightarrow>
          if \<not> filtersActive is then Inr d
          else bindR (dg_get d r) (\<lambda>c.
                 bindR (filter_from c (filtersFromStates is) 0 (length (dc_MsgTxs c))) (\<lambda>fs.
                   Inr (dg_put r (c\<lparr>dc_MsgTxsFiltered := fs\<rparr>) d))))"

section \<open>Cursor\<close>

text \<open>The cursor is 1-based, \<open>0\<close> selects nothing.\<close>

definition hIsTxSkipped :: "(string \<Rightarrow> bool) \<Rightarrow> DbgClient \<Rightarrow> int \<Rightarrow> bool" where
  "hIsTxSkipped is c idx = (if \<not> filtersActive is then False else slices_Index (dc_MsgTxsFiltered c) idx = - 1)"

function filter_cursor :: "(string \<Rightarrow> bool) \<Rightarrow> DbgClient \<Rightarrow> int \<Rightarrow> bool \<Rightarrow> int" where
  "filter_cursor is c pos1 back =
     (if pos1 < 1 then 0
      else if pos1 > int (length (dc_MsgTxs c))
      then (if \<not> hIsTxSkipped is c (dc_CursorTx1 c - 1) then dc_CursorTx1 c else 0)
      else if hIsTxSkipped is c (pos1 - 1) then filter_cursor is c (if back then pos1 - 1 else pos1 + 1) back
      else pos1)"
  by pat_completeness auto
termination
  by (relation "measure (\<lambda>(is, c, pos1, back). if back then nat pos1 else nat (int (length (dc_MsgTxs c)) + 1 - pos1))") auto

declare filter_cursor.simps [simp del]

definition hFilterTxCursor1 :: "(string \<Rightarrow> bool) \<Rightarrow> DbgClient \<Rightarrow> int \<Rightarrow> bool \<Rightarrow> int" where
  "hFilterTxCursor1 is c newCursor1 back = (if \<not> filtersActive is then newCursor1 else filter_cursor is c newCursor1 back)"

definition hCurrentTx :: "Debugger \<Rightarrow> DbgMsgTx option" where
  "hCurrentTx d =
     (case dg_current d of None \<Rightarrow> None
      | Some c \<Rightarrow> if dc_CursorTx1 c = 0 \<or> int (length (dc_MsgTxs c)) < dc_CursorTx1 c then None
                  else Some (dc_MsgTxs c ! nat (dc_CursorTx1 c - 1)))"

definition hNextTxIdx :: "(string \<Rightarrow> bool) \<Rightarrow> Debugger \<Rightarrow> int" where
  "hNextTxIdx is d = (case dg_current d of None \<Rightarrow> - 1 | Some c \<Rightarrow> hFilterTxCursor1 is c (dc_CursorTx1 c + 1) False - 1)"

definition hPrevTxIdx :: "(string \<Rightarrow> bool) \<Rightarrow> Debugger \<Rightarrow> int" where
  "hPrevTxIdx is d = (case dg_current d of None \<Rightarrow> - 1 | Some c \<Rightarrow> hFilterTxCursor1 is c (dc_CursorTx1 c - 1) True - 1)"

definition hNextTx :: "(string \<Rightarrow> bool) \<Rightarrow> Debugger \<Rightarrow> DbgMsgTx option res" where
  "hNextTx is d =
     (let idx = hNextTxIdx is d in
      if idx < 0 then Inr None
      else case dg_current d of None \<Rightarrow> Inl nil_deref | Some c \<Rightarrow> bindR (sget (dc_MsgTxs c) idx) (\<lambda>tx. Inr (Some tx)))"

definition hPrevTx :: "(string \<Rightarrow> bool) \<Rightarrow> Debugger \<Rightarrow> DbgMsgTx option res" where
  "hPrevTx is d =
     (let idx = hPrevTxIdx is d in
      if idx < 0 then Inr None
      else case dg_current d of None \<Rightarrow> Inl nil_deref | Some c \<Rightarrow> bindR (sget (dc_MsgTxs c) idx) (\<lambda>tx. Inr (Some tx)))"

section \<open>History\<close>

definition hGetMachAddress :: "Debugger \<Rightarrow> MachAddress option res" where
  "hGetMachAddress d =
     (case dg_current d of None \<Rightarrow> Inr None
      | Some c \<Rightarrow>
          bindR (if dc_CursorTx1 c > 0
                 then bindR (sget (dc_MsgTxs c) (dc_CursorTx1 c - 1)) (\<lambda>tx.
                        Inr (MachAddress_zero\<lparr>ma_TxId := dt_ID tx, ma_MachTime := dbg_TimeSum tx\<rparr>))
                 else Inr MachAddress_zero) (\<lambda>a.
            Inr (Some (a\<lparr>ma_MachId := dc_Id c, ma_State := dc_SelectedState c, ma_Group := dc_SelectedGroup c\<rparr>))))"

definition hTrimHistory :: "Debugger \<Rightarrow> Debugger" where
  "hTrimHistory d =
     (let h1 = (if dg_HistoryCursor d > 0 then drop (nat (dg_HistoryCursor d)) (dg_History d) else dg_History d);
          h2 = (if length h1 > 100 then drop 100 h1 else h1)
      in d\<lparr>dg_History := h2, dg_HistoryCursor := 0\<rparr>)"

definition hPrependHistory :: "(int \<Rightarrow> string) \<Rightarrow> MachAddress \<Rightarrow> Debugger \<Rightarrow> Debugger" where
  "hPrependHistory fmtTime addr d =
     (if length (dg_History d) > 0 \<and> StringBase fmtTime (Some (dg_History d ! 0)) = StringBase fmtTime (Some addr) then d
      else hTrimHistory (d\<lparr>dg_History := addr # dg_History d\<rparr>))"

fun remove_history :: "string \<Rightarrow> int \<Rightarrow> int \<Rightarrow> MachAddress list \<Rightarrow> MachAddress list \<times> int" where
  "remove_history clientId i cursor [] = ([], cursor)"
| "remove_history clientId i cursor (item # items) =
     (let cursor1 = (if i \<le> cursor \<and> cursor > 0 then cursor - 1 else cursor) in
      case remove_history clientId (i + 1) cursor1 items of (hist, cursor2) \<Rightarrow>
        (if ma_MachId item = clientId then hist else item # hist, cursor2))"

definition hRemoveHistory :: "string \<Rightarrow> Debugger \<Rightarrow> Debugger" where
  "hRemoveHistory clientId d =
     (case remove_history clientId 0 (dg_HistoryCursor d) (dg_History d) of (hist, cursor) \<Rightarrow>
        d\<lparr>dg_History := hist, dg_HistoryCursor := cursor\<rparr>)"

text \<open>The buttons of the address bar: back and forward in the history, by an address or by a machine.\<close>

definition histPrev :: "Debugger \<Rightarrow> (MachAddress option \<times> Debugger) res" where
  "histPrev d =
     (if dg_HistoryCursor d \<ge> int (length (dg_History d)) - 1 then Inr (None, d)
      else let d1 = d\<lparr>dg_HistoryCursor := dg_HistoryCursor d + 1\<rparr> in
           bindR (sget (dg_History d1) (dg_HistoryCursor d1)) (\<lambda>a. Inr (Some a, d1)))"

definition histNext :: "Debugger \<Rightarrow> (MachAddress option \<times> Debugger) res" where
  "histNext d =
     (if dg_HistoryCursor d \<le> 0 then Inr (None, d)
      else let d1 = d\<lparr>dg_HistoryCursor := dg_HistoryCursor d - 1\<rparr> in
           bindR (sget (dg_History d1) (dg_HistoryCursor d1)) (\<lambda>a. Inr (Some a, d1)))"

fun scan_prev :: "MachAddress list \<Rightarrow> nat \<Rightarrow> nat \<Rightarrow> nat option" where
  "scan_prev h i 0 = None"
| "scan_prev h i (Suc n) = (if ma_MachId (h ! i) \<noteq> ma_MachId (h ! Suc i) then Some (Suc i) else scan_prev h (Suc i) n)"

fun scan_next :: "MachAddress list \<Rightarrow> nat \<Rightarrow> nat option" where
  "scan_next h 0 = None"
| "scan_next h (Suc i) = (if ma_MachId (h ! Suc i) \<noteq> ma_MachId (h ! i) then Some i else scan_next h i)"

definition histPrevMach :: "Debugger \<Rightarrow> (MachAddress option \<times> Debugger) res" where
  "histPrevMach d =
     (if dg_HistoryCursor d \<ge> int (length (dg_History d)) - 1 then Inr (None, d)
      else let i = nat (dg_HistoryCursor d);
               d1 = (case scan_prev (dg_History d) i (length (dg_History d) - 1 - i) of None \<Rightarrow> d
                     | Some k \<Rightarrow> d\<lparr>dg_HistoryCursor := int k\<rparr>) in
           bindR (sget (dg_History d1) (dg_HistoryCursor d1)) (\<lambda>a. Inr (Some a, d1)))"

definition histNextMach :: "Debugger \<Rightarrow> (MachAddress option \<times> Debugger) res" where
  "histNextMach d =
     (if dg_HistoryCursor d \<le> 0 then Inr (None, d)
      else bindR (sget (dg_History d) (dg_HistoryCursor d)) (\<lambda>_.
             let d1 = (case scan_next (dg_History d) (nat (dg_HistoryCursor d)) of None \<Rightarrow> d
                       | Some k \<Rightarrow> d\<lparr>dg_HistoryCursor := int k\<rparr>) in
             bindR (sget (dg_History d1) (dg_HistoryCursor d1)) (\<lambda>a. Inr (Some a, d1))))"

record cursor_args =
  ca_Cursor1 :: int
  ca_SkipHistory :: bool
  ca_TrimHistory :: bool
  ca_FilterBack :: bool

definition cursor_to :: "int \<Rightarrow> bool \<Rightarrow> bool \<Rightarrow> cursor_args" where
  "cursor_to n trim back = \<lparr>ca_Cursor1 = n, ca_SkipHistory = False, ca_TrimHistory = trim, ca_FilterBack = back\<rparr>"

text \<open>\<open>tx\<close> is read before the cursor moves.\<close>

definition hSetCursor1 :: "(int \<Rightarrow> string) \<Rightarrow> (string \<Rightarrow> bool) \<Rightarrow> cursor_args \<Rightarrow> Debugger \<Rightarrow> (dg_call list \<times> Debugger) res" where
  "hSetCursor1 fmtTime is args d =
     (let tx = hCurrentTx d in
      case dg_C d of None \<Rightarrow> Inl nil_deref
      | Some r \<Rightarrow>
          bindR (dg_get d r) (\<lambda>c.
            let c1 = c\<lparr>dc_CursorTx1 := hFilterTxCursor1 is c (ca_Cursor1 args) (ca_FilterBack args)\<rparr>;
                d1 = dg_put r c1 d in
            bindR (if dg_HistoryCursor d1 = 0 \<and> \<not> ca_SkipHistory args
                   then bindR (hGetMachAddress d1) (\<lambda>a.
                          case a of None \<Rightarrow> Inl nil_deref | Some addr \<Rightarrow> Inr (hPrependHistory fmtTime addr d1))
                   else if ca_TrimHistory args then Inr (hTrimHistory d1) else Inr d1) (\<lambda>d2.
              let d3 = d2\<lparr>dg_lastScrolledTxTime := 0\<rparr> in
              if tx \<noteq> None
              then (case hCurrentTx d3 of None \<Rightarrow> Inr ([DgAdd ''TxSelected''], d3)
                    | Some pos1 \<Rightarrow> (case dt_Time pos1 of None \<Rightarrow> Inl nil_deref
                        | Some t \<Rightarrow> Inr ([DgAdd ''TxSelected''], d3\<lparr>dg_lastScrolledTxTime := t\<rparr>)))
              else Inr ([DgRemove ''TxSelected''], d3))))"

end
