(* ===== verification/Am_Debugger_Log.thy ===== *)
theory Am_Debugger_Log
  imports Am_Debugger
begin

text \<open>
  How the debugger parses a message, \<open>hParseMsg\<close> of \<open>debugger.go\<close> with \<open>hParseMsgLog\<close> and \<open>parseMsgReader\<close> of
  \<open>log.go\<close>: the states a transition added, removed and touched, its errors, the log, and the entries of the log reader,
  the subscriptions and pipes a machine has at that point, read from the lines it logged.
\<close>

section \<open>Entries of the log reader\<close>

type_synonym reader_out = "dg_call list \<times> LogReaderEntryPtr list \<times> Debugger"

fun tickStrToTime :: "string list \<Rightarrow> dg_call list \<times> Time" where
  "tickStrToTime [] = ([], [])"
| "tickStrToTime (t # ts) =
     (case tickStrToTime ts of (errs, ticks) \<Rightarrow>
        case strconv_Atoi t of
          None \<Rightarrow> (DgErr (''strconv.Atoi: parsing '' @ t) # errs, 0 # ticks) | Some v \<Rightarrow> (errs, of_int v # ticks))"

definition reader_entry :: "LogReaderKind \<Rightarrow> int list \<Rightarrow> uint64 \<Rightarrow> LogReaderEntry" where
  "reader_entry kind states createdAt = \<lparr>lr_Kind = kind, lr_States = states, lr_CreatedAt = createdAt, lr_ClosedAt = 0,
     lr_Pipe = MutationAdd, lr_Mach = [], lr_Ticks = [], lr_Args = [], lr_QueueTick = 0\<rparr>"

definition reader_new :: "Debugger \<Rightarrow> nat \<Rightarrow> DbgMsgTx \<Rightarrow> (DbgClient \<Rightarrow> LogReaderEntry) \<Rightarrow> LogReaderEntryPtr list \<Rightarrow> reader_out res" where
  "reader_new d r tx entry txEntries =
     bindR (dg_get d r) (\<lambda>c. case AddReaderEntry c (dt_ID tx) (entry c) of (idx, c') \<Rightarrow>
       Inr ([], txEntries @ [\<lparr>lp_TxId = dt_ID tx, lp_EntryIdx = idx\<rparr>], dg_put r c' d))"

definition client_index :: "DbgClient \<Rightarrow> S" where
  "client_index c = ds_StatesIndex (dc_MsgStruct c)"

definition new_states :: "LogReaderKind \<Rightarrow> S \<Rightarrow> DbgClient \<Rightarrow> LogReaderEntry" where
  "new_states kind states c = reader_entry kind (dbg_StatesToIndexes (client_index c) states) (dc_MTimeSum c)"

definition reader_source :: "Debugger \<Rightarrow> nat \<Rightarrow> string \<Rightarrow> DbgMsgTx \<Rightarrow> LogReaderEntryPtr list \<Rightarrow> reader_out res" where
  "reader_source d r body tx txEntries =
     (let source = strings_Split body ''/'' in
      bindR (sget source 0) (\<lambda>mach.
        case hGetClient d mach of None \<Rightarrow> Inr ([], txEntries, d)
        | Some sr \<Rightarrow>
            bindR (sget source 1) (\<lambda>txId.
              bindR (dg_get d r) (\<lambda>c.
                bindR (dg_get d sr) (\<lambda>sc.
                  case TxIndex sc txId of (txIdx, sc1) \<Rightarrow>
                    if txIdx = - 1 then Inr ([], txEntries, dg_put sr sc1 d)
                    else case TxParsed sc1 txIdx of None \<Rightarrow> Inl nil_deref
                         | Some p \<Rightarrow>
                             let p1 = p\<lparr>mp_Forks := mp_Forks p @ [MachAddress_zero\<lparr>ma_MachId := dc_Id c, ma_TxId := dt_ID tx\<rparr>]\<rparr>
                             in Inr ([], txEntries,
                                  dg_put sr (sc1\<lparr>dc_MsgTxsParsed := (dc_MsgTxsParsed sc1)[nat txIdx := p1]\<rparr>) d))))))"

definition reader_whenTime_new :: "Debugger \<Rightarrow> nat \<Rightarrow> string \<Rightarrow> DbgMsgTx \<Rightarrow> LogReaderEntryPtr list \<Rightarrow> reader_out res" where
  "reader_whenTime_new d r body tx txEntries =
     (let msg = strings_Split body '' '' in
      bindR (sget msg 0) (\<lambda>m0. bindR (sget msg 1) (\<lambda>m1.
        case tickStrToTime (strings_Split m1 '','') of (errs, ticks) \<Rightarrow>
          bindR (reader_new d r tx (\<lambda>c. (new_states LogReaderWhenTime (strings_Split m0 '','') c)\<lparr>lr_Ticks := ticks\<rparr>) txEntries)
            (\<lambda>(calls, out). Inr (errs @ calls, out)))))"

definition reader_whenArgs_new :: "Debugger \<Rightarrow> nat \<Rightarrow> string \<Rightarrow> DbgMsgTx \<Rightarrow> LogReaderEntryPtr list \<Rightarrow> reader_out res" where
  "reader_whenArgs_new d r body tx txEntries =
     (let msg = strings_Split body '' '' in
      bindR (sget msg 0) (\<lambda>m0. bindR (sget msg 1) (\<lambda>m1.
        reader_new d r tx (\<lambda>c. (new_states LogReaderWhenArgs [m0] c)\<lparr>lr_Args := strings_Trim m1 ''()''\<rparr>) txEntries)))"

text \<open>\<open>body\<close> follows the prefix, the parts are separated by \<open>to\<close> or \<open>from\<close>.\<close>

definition reader_pipe :: "Debugger \<Rightarrow> nat \<Rightarrow> bool \<Rightarrow> bool \<Rightarrow> string \<Rightarrow> DbgMsgTx \<Rightarrow> LogReaderEntryPtr list \<Rightarrow> reader_out res" where
  "reader_pipe d r isOut isAdd body tx txEntries =
     (let msg = strings_Split body (if isOut then '' to '' else '' from '') in
      bindR (sget msg 0) (\<lambda>m0. bindR (sget msg 1) (\<lambda>m1.
        reader_new d r tx
          (\<lambda>c. (new_states (if isOut then LogReaderPipeOut else LogReaderPipeIn)
                  (strings_Split (strings_Trim m0 ''[]'') '' '') c)
                 \<lparr>lr_Pipe := (if isAdd then MutationAdd else MutationRemove), lr_Mach := m1\<rparr>)
          txEntries)))"

fun drop_pipes :: "DbgClient \<Rightarrow> string \<Rightarrow> LogReaderEntryPtr list \<Rightarrow> LogReaderEntryPtr list res" where
  "drop_pipes c mach [] = Inr []"
| "drop_pipes c mach (ptr # ptrs) =
     (case GetReaderEntry c (lp_TxId ptr) (lp_EntryIdx ptr) of None \<Rightarrow> Inl nil_deref
      | Some e \<Rightarrow>
          bindR (drop_pipes c mach ptrs) (\<lambda>rest.
            Inr (if lr_Kind e \<in> {LogReaderPipeIn, LogReaderPipeOut} \<and> lr_Mach e = mach then rest else ptr # rest)))"

definition reader_gc :: "Debugger \<Rightarrow> nat \<Rightarrow> string \<Rightarrow> LogReaderEntryPtr list \<Rightarrow> reader_out res" where
  "reader_gc d r txt txEntries =
     bindR (sget (strings_Split txt '' '') 1) (\<lambda>mach.
       bindR (dg_get d r) (\<lambda>c. bindR (drop_pipes c mach txEntries) (\<lambda>es. Inr ([], es, d))))"

definition reader_whenQueue_new :: "Debugger \<Rightarrow> nat \<Rightarrow> string \<Rightarrow> string \<Rightarrow> DbgMsgTx \<Rightarrow> LogReaderEntryPtr list \<Rightarrow> reader_out res" where
  "reader_whenQueue_new d r txt body tx txEntries =
     bindR (sget (strings_Split body '' '') 0) (\<lambda>m0.
       case strconv_Atoi m0 of None \<Rightarrow> Inr ([DgLog (''err: match missing: '' @ txt)], txEntries, d)
       | Some tick \<Rightarrow> reader_new d r tx
           (\<lambda>c. (reader_entry LogReaderWhenQueue [] (dc_MTimeSum c))\<lparr>lr_QueueTick := tick\<rparr>) txEntries)"

section \<open>Matches\<close>

fun find_entry :: "DbgClient \<Rightarrow> (LogReaderEntry \<Rightarrow> bool) \<Rightarrow> nat \<Rightarrow> LogReaderEntryPtr list \<Rightarrow> (nat \<times> LogReaderEntryPtr \<times> LogReaderEntry) option" where
  "find_entry c pred i [] = None"
| "find_entry c pred i (ptr # ptrs) =
     (case GetReaderEntry c (lp_TxId ptr) (lp_EntryIdx ptr) of
        Some e \<Rightarrow> if pred e then Some (i, ptr, e) else find_entry c pred (Suc i) ptrs
      | None \<Rightarrow> find_entry c pred (Suc i) ptrs)"

definition close_entry :: "LogReaderEntryPtr \<Rightarrow> LogReaderEntry \<Rightarrow> int \<Rightarrow> DbgClient \<Rightarrow> DbgClient" where
  "close_entry ptr e t c =
     c\<lparr>dc_LogReader := gput (lp_TxId ptr)
         ((ggetd [] (dc_LogReader c) (lp_TxId ptr))[lp_EntryIdx ptr := e\<lparr>lr_ClosedAt := t\<rparr>]) (dc_LogReader c)\<rparr>"

text \<open>The oldest entry that matches is deleted and closed.\<close>

definition reader_match :: "Debugger \<Rightarrow> nat \<Rightarrow> string \<Rightarrow> DbgMsgTx \<Rightarrow> (DbgClient \<Rightarrow> LogReaderEntry \<Rightarrow> bool)
    \<Rightarrow> LogReaderEntryPtr list \<Rightarrow> reader_out res" where
  "reader_match d r txt tx pred txEntries =
     bindR (dg_get d r) (\<lambda>c.
       case find_entry c (pred c) 0 txEntries of
         None \<Rightarrow> Inr ([DgLog (''err: match missing: '' @ txt)], txEntries, d)
       | Some (i, ptr, e) \<Rightarrow>
           (case dt_Time tx of None \<Rightarrow> Inl nil_deref
            | Some t \<Rightarrow> Inr ([], take i txEntries @ drop (Suc i) txEntries, dg_put r (close_entry ptr e t c) d)))"

text \<open>The names of an entry's states; a position is never below \<open>-1\<close>.\<close>

definition entry_states :: "DbgClient \<Rightarrow> LogReaderEntry \<Rightarrow> S" where
  "entry_states c e = (case dbg_IndexesToStates (client_index c) (lr_States e) of Inl _ \<Rightarrow> [] | Inr names \<Rightarrow> names)"

definition reader_whenTime_match :: "Debugger \<Rightarrow> nat \<Rightarrow> string \<Rightarrow> string \<Rightarrow> DbgMsgTx \<Rightarrow> LogReaderEntryPtr list \<Rightarrow> reader_out res" where
  "reader_whenTime_match d r txt body tx txEntries =
     (let msg = strings_Split body '' '' in
      bindR (sget msg 0) (\<lambda>m0. bindR (sget msg 1) (\<lambda>m1.
        case tickStrToTime (strings_Split (strings_Trim m1 ''[]'') '' '') of (errs, ticks) \<Rightarrow>
          bindR (reader_match d r txt tx (\<lambda>c e. lr_Kind e = LogReaderWhenTime
                   \<and> StatesEqual (strings_Split m0 '','') (entry_states c e) \<and> ticks = lr_Ticks e) txEntries)
            (\<lambda>(calls, out). Inr (errs @ calls, out)))))"

definition reader_whenArgs_match :: "Debugger \<Rightarrow> nat \<Rightarrow> string \<Rightarrow> string \<Rightarrow> DbgMsgTx \<Rightarrow> LogReaderEntryPtr list \<Rightarrow> reader_out res" where
  "reader_whenArgs_match d r txt body tx txEntries =
     (let msg = strings_Split body '' '' in
      bindR (sget msg 0) (\<lambda>m0. bindR (sget msg 1) (\<lambda>m1.
        reader_match d r txt tx (\<lambda>c e. lr_Kind e = LogReaderWhenArgs \<and> StatesEqual [m0] (entry_states c e)
          \<and> lr_Args e = strings_Trim m1 ''()'') txEntries)))"

definition reader_whenQueue_match :: "Debugger \<Rightarrow> nat \<Rightarrow> string \<Rightarrow> DbgMsgTx \<Rightarrow> LogReaderEntryPtr list \<Rightarrow> reader_out res" where
  "reader_whenQueue_match d r txt tx txEntries =
     bindR (sget (strings_Split txt '' '') 1) (\<lambda>m1.
       case strconv_Atoi m1 of None \<Rightarrow> Inr ([DgLog (''err: match missing: '' @ txt)], txEntries, d)
       | Some tick \<Rightarrow> reader_match d r txt tx (\<lambda>c e. lr_Kind e = LogReaderWhenQueue \<and> lr_QueueTick e = tick) txEntries)"

definition parseMsgReader :: "Debugger \<Rightarrow> nat \<Rightarrow> LogEntry \<Rightarrow> LogReaderEntryPtr list \<Rightarrow> DbgMsgTx \<Rightarrow> reader_out res" where
  "parseMsgReader d r log txEntries tx =
     (let txt = le_Text log; pre = strings_HasPrefix txt; body = (\<lambda>p. drop (length p) txt) in
      if pre ''[source] '' then reader_source d r (body ''[source] '') tx txEntries
      else if pre ''[when:new] ''
      then reader_new d r tx (new_states LogReaderWhen (strings_Split (body ''[when:new] '') '' '')) txEntries
      else if pre ''[whenNot:new] ''
      then reader_new d r tx (new_states LogReaderWhenNot (strings_Split (body ''[whenNot:new] '') '' '')) txEntries
      else if pre ''[whenTime:new] '' then reader_whenTime_new d r (body ''[whenTime:new] '') tx txEntries
      else if pre ''[ctx:new] '' then reader_new d r tx (new_states LogReaderCtx [body ''[ctx:new] '']) txEntries
      else if pre ''[whenArgs:new] '' then reader_whenArgs_new d r (body ''[whenArgs:new] '') tx txEntries
      else if pre ''[pipe-in:add] '' then reader_pipe d r False True (body ''[pipe-in:add] '') tx txEntries
      else if pre ''[pipe-in:remove] '' then reader_pipe d r False False (body ''[pipe-in:remove] '') tx txEntries
      else if pre ''[pipe-out:add] '' then reader_pipe d r True True (body ''[pipe-out:add] '') tx txEntries
      else if pre ''[pipe-out:remove] '' then reader_pipe d r True False (body ''[pipe-out:remove] '') tx txEntries
      else if pre ''[pipe:gc] '' then reader_gc d r txt txEntries
      else if pre ''[whenQueue:new] '' then reader_whenQueue_new d r txt (body ''[whenQueue:new] '') tx txEntries
      else if pre ''[when:match] ''
      then reader_match d r txt tx (\<lambda>c e. lr_Kind e = LogReaderWhen
             \<and> lr_States e = StatesStringToIndex c (body ''[when:match] '')) txEntries
      else if pre ''[whenNot:match] ''
      then reader_match d r txt tx (\<lambda>c e. lr_Kind e = LogReaderWhenNot
             \<and> lr_States e = StatesStringToIndex c (body ''[whenNot:match] '')) txEntries
      else if pre ''[whenTime:match] '' then reader_whenTime_match d r txt (body ''[whenTime:match] '') tx txEntries
      else if pre ''[ctx:match] ''
      then reader_match d r txt tx (\<lambda>c e. lr_Kind e = LogReaderCtx
             \<and> StatesEqual [body ''[ctx:match] ''] (entry_states c e)) txEntries
      else if pre ''[whenArgs:match] '' then reader_whenArgs_match d r txt (body ''[whenArgs:match] '') tx txEntries
      else if pre ''[whenQueue:match] '' then reader_whenQueue_match d r txt tx txEntries
      else Inr ([], txEntries, d))"

section \<open>Messages\<close>

definition MutationFormatArgs :: "(string, string) gomap \<Rightarrow> string" where
  "MutationFormatArgs matched =
     (if length matched = 0 then []
      else '' ('' @ strings_Join (map (\<lambda>k. k @ ''='' @ ggetd [] matched k) (sort (gkeys matched))) '' '' @ '')'')"

definition synth_called :: "DbgMsgTx \<Rightarrow> S \<Rightarrow> S res" where
  "synth_called tx index =
     (if dt_Type tx = MutationAdd \<or> dt_Type tx = MutationRemove then dbg_CalledStateNames tx index else Inr [])"

text \<open>The line shown instead of the log of a transition that was queued, canceled or empty.\<close>

definition synth_entry :: "DbgMsgTx \<Rightarrow> uint64 \<Rightarrow> S \<Rightarrow> LogEntry" where
  "synth_entry tx timeDiff called =
     (let text0 = (case dt_Type tx of MutationAdd \<Rightarrow> ''+'' @ strings_Join called '' +''
                   | MutationRemove \<Rightarrow> ''-'' @ strings_Join called '' -'' | _ \<Rightarrow> []);
          text1 = (if dt_IsAuto tx \<and> dt_IsQueued tx then ''[aqueu] '' @ text0
                   else if dt_IsQueued tx then ''[queue] '' @ text0
                   else if \<not> dt_Accepted tx then ''[cance] '' @ text0
                   else if timeDiff = 0 then ''[empty] '' @ text0
                   else text0)
      in \<lparr>le_Level = LogChanges, le_Text = text1 @ MutationFormatArgs (dt_Args tx)\<rparr>)"

fun parse_entries :: "(string \<Rightarrow> S \<Rightarrow> string) \<Rightarrow> nat \<Rightarrow> DbgMsgTx \<Rightarrow> S \<Rightarrow> LogEntry option list \<Rightarrow> LogReaderEntryPtr list \<Rightarrow> Debugger
    \<Rightarrow> (dg_call list \<times> LogReaderEntryPtr list \<times> LogEntry list \<times> Debugger) res" where
  "parse_entries fmt r tx index [] es d = Inr ([], es, [], d)"
| "parse_entries fmt r tx index (None # rest) es d = Inl nil_deref"
| "parse_entries fmt r tx index (Some entry # rest) es d =
     bindR (parseMsgReader d r entry es tx) (\<lambda>(calls, es1, d1).
       bindR (dbg_CalledStateNames tx index) (\<lambda>called.
         bindR (parse_entries fmt r tx index rest es1 d1) (\<lambda>(calls2, es2, logs, d2).
           Inr (calls @ calls2, es2, \<lparr>le_Level = le_Level entry, le_Text = fmt (le_Text entry) called\<rparr> # logs, d2))))"

definition is_synth :: "DbgMsgTx \<Rightarrow> MsgTxParsed \<Rightarrow> bool" where
  "is_synth tx parsed = (dt_IsQueued tx \<or> \<not> dt_Accepted tx \<or> mp_TimeDiff parsed = 0)"

definition hParseMsgLog :: "(string \<Rightarrow> S \<Rightarrow> string) \<Rightarrow> nat \<Rightarrow> nat \<Rightarrow> Debugger \<Rightarrow> (dg_call list \<times> Debugger) res" where
  "hParseMsgLog fmt r idx d =
     bindR (dg_get d r) (\<lambda>c.
       bindR (sget (dc_MsgTxs c) (int idx)) (\<lambda>tx.
         bindR (sget (dc_MsgTxsParsed c) (int idx)) (\<lambda>parsed.
           bindR (if is_synth tx parsed then synth_called tx (client_index c) else Inr []) (\<lambda>called.
             let es = (if idx > 0 then mp_ReaderEntries (dc_MsgTxsParsed c ! (idx - 1)) else []);
                 tx1 = (if is_synth tx parsed
                        then tx\<lparr>dt_LogEntries := [Some (synth_entry tx (mp_TimeDiff parsed) called)]\<rparr> else tx);
                 d1 = dg_put r (c\<lparr>dc_MsgTxs := (dc_MsgTxs c)[idx := tx1]\<rparr>) d in
             bindR (parse_entries fmt r tx1 (client_index c) (dt_PreLogEntries tx1 @ dt_LogEntries tx1) es d1)
               (\<lambda>(calls, es2, logs, d2).
                 bindR (dg_get d2 r) (\<lambda>c2.
                   bindR (sget (dc_MsgTxsParsed c2) (int idx)) (\<lambda>p2.
                     Inr (calls, dg_put r (c2\<lparr>dc_LogMsgs := dc_LogMsgs c2 @ [logs],
                                      dc_MsgTxsParsed := (dc_MsgTxsParsed c2)[idx := p2\<lparr>mp_ReaderEntries := es2\<rparr>]\<rparr>) d2))))))))"

definition step_by_index :: "S \<Rightarrow> Step \<Rightarrow> Step" where
  "step_by_index index step =
     (if st_FromState step \<noteq> [] \<or> st_ToState step \<noteq> []
      then step\<lparr>st_FromStateIdx := slices_Index index (st_FromState step), st_ToStateIdx := slices_Index index (st_ToState step),
             st_FromState := [], st_ToState := []\<rparr>
      else step)"

definition msg_by_index :: "S \<Rightarrow> DbgMsgTx \<Rightarrow> DbgMsgTx" where
  "msg_by_index index tx =
     (let tx1 = (if length (sl (dt_CalledStates tx)) > 0
                 then tx\<lparr>dt_CalledStatesIdxs := dbg_StatesToIndexes index (sl (dt_CalledStates tx)), dt_CalledStates := None\<rparr> else tx)
      in tx1\<lparr>dt_Steps := map (step_by_index index) (dt_Steps tx1)\<rparr>)"

definition msg_is_err :: "S \<Rightarrow> DbgMsgTx \<Rightarrow> bool" where
  "msg_is_err index tx =
     (list_ex (\<lambda>name. strings_HasPrefix name ''Err'' \<and> dbg_Is1 tx index name) index \<or> dbg_Is1 tx index StateException)"

text \<open>The previous message: its clock and the sum of it.\<close>

definition prev_msg :: "DbgClient \<Rightarrow> nat \<Rightarrow> (Time option \<times> uint64) res" where
  "prev_msg c idx =
     (if length (dc_MsgTxs c) > 1 \<and> idx > 0
      then bindR (sget (dc_MsgTxs c) (int idx - 1)) (\<lambda>tx. bindR (sget (dc_MsgTxsParsed c) (int idx - 1)) (\<lambda>p.
             Inr (dt_Clocks tx, mp_TimeSum p)))
      else Inr (None, 0))"

definition hParseMsg :: "(string \<Rightarrow> S \<Rightarrow> string) \<Rightarrow> (string \<Rightarrow> bool) \<Rightarrow> nat \<Rightarrow> nat \<Rightarrow> Debugger \<Rightarrow> (dg_call list \<times> Debugger) res" where
  "hParseMsg fmt is r idx d =
     bindR (dg_get d r) (\<lambda>c.
       bindR (sget (dc_MsgTxs c) (int idx)) (\<lambda>msgTx.
         let index = client_index c; time = dbg_TimeSum msgTx;
             calls0 = (if ''Disposed'' \<in> set (dbg_ActiveStates msgTx index) then [DgDisconnect (dc_ConnId c)] else []) in
         bindR (prev_msg c idx) (\<lambda>(before, prevSum).
           if Time_SumAll (sl (dt_Clocks msgTx)) < Time_SumAll (sl before)
           then Inr (calls0 @ [DgErr ''time after < time before''],
                  dg_put r (c\<lparr>dc_MTimeSum := time, dc_MsgTxsParsed := dc_MsgTxsParsed c @ [MsgTxParsed_zero\<lparr>mp_TimeSum := time\<rparr>],
                              dc_LogMsgs := dc_LogMsgs c @ [[]]\<rparr>) d)
           else
             bindR (GetTransitionStates before (dt_Clocks msgTx) (dt_Steps msgTx) index) (\<lambda>(added, removed, touched).
               let parsed = MsgTxParsed_zero\<lparr>mp_TimeSum := time, mp_TimeDiff := time - prevSum,
                     mp_StatesAdded := dbg_StatesToIndexes index added, mp_StatesRemoved := dbg_StatesToIndexes index removed,
                     mp_StatesTouched := dbg_StatesToIndexes index touched\<rparr>;
                   tx1 = msg_by_index index msgTx;
                   c1 = c\<lparr>dc_MsgTxs := (dc_MsgTxs c)[idx := tx1],
                          dc_Errors := (if msg_is_err index tx1 then int idx # dc_Errors c else dc_Errors c),
                          dc_MsgTxsParsed := dc_MsgTxsParsed c @ [parsed], dc_MTimeSum := time\<rparr> in
               bindR (hParseMsgLog fmt r idx (dg_put r c1 d)) (\<lambda>(calls1, d1).
                 bindR (dg_get d1 r) (\<lambda>c2.
                   bindR (sget (dc_MsgTxs c2) (int idx)) (\<lambda>tx2.
                     bindR (dbg_IndexesToStates index (dt_CalledStatesIdxs tx2)) (\<lambda>names.
                       Inr (calls0 @ calls1 @ (if is ''Start'' then [DgBuildingLog 0] else []),
                         dg_put r (c2\<lparr>dc_MsgTxs := (dc_MsgTxs c2)[idx := tx2\<lparr>dt_CalledStates := Some names\<rparr>]\<rparr>) d1)))))))))"

end
