(* ===== verification/Am_Debugger_Run.thy ===== *)
theory Am_Debugger_Run
  imports Am_Debugger_Log
begin

text \<open>
  The handlers of the debugger, \<open>dbg_handlers.go\<close>, with the helpers they call: clients that connect, disconnect and are
  removed, the messages they send, scrolling, markers, and the removal of old messages. The order in which a map is
  visited is the one of its list. The contexts of the handlers do not expire, and writing to the view of the log
  (\<open>hAppendLogEntry\<close>) does not fail.
\<close>

section \<open>Markers\<close>

definition marker_items :: "(string \<Rightarrow> bool) \<Rightarrow> nat \<Rightarrow> DbgClient \<Rightarrow> string \<Rightarrow> MarkerItem list \<times> DbgClient" where
  "marker_items is r c txId =
     (if is ''FilterDisconn'' \<and> \<not> dc_Connected c then ([], c)
      else if is ''FilterRpcMachs'' \<and> machIsRpc (dc_MsgStruct c) then ([], c)
      else case TxIndex c txId of (txIdx, c1) \<Rightarrow>
        (case dbg_Tx c1 txIdx of None \<Rightarrow> ([], c1)
         | Some tx \<Rightarrow> (case dt_Time tx of None \<Rightarrow> ([], c1)
             | Some t \<Rightarrow> if filtersActive is \<and> hIsTxSkipped is c1 txIdx then ([], c1)
                         else ([\<lparr>mk_ClientId = dc_Id c, mk_TxId = txId, mk_Time = t\<rparr>], c1))))"

fun client_markers :: "(string \<Rightarrow> bool) \<Rightarrow> nat \<Rightarrow> DbgClient \<Rightarrow> string list \<Rightarrow> MarkerItem list \<times> DbgClient" where
  "client_markers is r c [] = ([], c)"
| "client_markers is r c (txId # txIds) =
     (case marker_items is r c txId of (ms, c1) \<Rightarrow>
        case client_markers is r c1 txIds of (ms2, c2) \<Rightarrow> (ms @ ms2, c2))"

fun clients_markers :: "(string \<Rightarrow> bool) \<Rightarrow> Debugger \<Rightarrow> nat list \<Rightarrow> (MarkerItem list \<times> Debugger) res" where
  "clients_markers is d [] = Inr ([], d)"
| "clients_markers is d (r # rs) =
     bindR (dg_get d r) (\<lambda>c. case client_markers is r c (dc_Markers c) of (ms, c1) \<Rightarrow>
       bindR (clients_markers is (dg_put r c1 d) rs) (\<lambda>(ms2, d2). Inr (ms @ ms2, d2)))"

text \<open>The markers by time; Go leaves the order of equal times open.\<close>

definition hBuildMarkersIndex :: "(string \<Rightarrow> bool) \<Rightarrow> Debugger \<Rightarrow> Debugger res" where
  "hBuildMarkersIndex is d =
     bindR (clients_markers is d (map snd (dg_Clients d))) (\<lambda>(ms, d1). Inr (d1\<lparr>dg_markers := sort_key mk_Time ms\<rparr>))"

definition marker_at :: "Debugger \<Rightarrow> nat \<times> bool" where
  "marker_at d = slices_BinarySearchFunc (dg_markers d) (\<lambda>m. mk_Time m - dg_lastScrolledTxTime d)"

definition marker_clamp :: "Debugger \<Rightarrow> int \<Rightarrow> int" where
  "marker_clamp d index =
     (if index < 0 then 0 else if index \<ge> int (length (dg_markers d)) then int (length (dg_markers d)) - 1 else index)"

definition go_marker :: "Debugger \<Rightarrow> int \<Rightarrow> dg_call list res" where
  "go_marker d index =
     bindR (sget (dg_markers d) index) (\<lambda>m.
       Inr [DgGoTo (MachAddress_zero\<lparr>ma_MachId := mk_ClientId m, ma_TxId := mk_TxId m\<rparr>)])"

definition hFwdMarker :: "Debugger \<Rightarrow> dg_call list res" where
  "hFwdMarker d =
     (case marker_at d of (i, found) \<Rightarrow>
        let index = (if found then int i + 1 else if i = length (dg_markers d) then int i - 1 else int i)
        in go_marker d (marker_clamp d index))"

definition hBackMarker :: "Debugger \<Rightarrow> dg_call list res" where
  "hBackMarker d =
     (case marker_at d of (i, found) \<Rightarrow>
        let index = (if found then int i - 1 else int i) in go_marker d (marker_clamp d index))"

definition FwdMarkerEnter :: "Debugger \<Rightarrow> bool" where
  "FwdMarkerEnter d = (length (dg_markers d) > 0)"

definition ToggleMarkState :: "(string \<Rightarrow> bool) \<Rightarrow> Debugger \<Rightarrow> Debugger res" where
  "ToggleMarkState is d =
     (case hCurrentTx d of None \<Rightarrow> Inr d
      | Some tx \<Rightarrow>
          (case dg_C d of None \<Rightarrow> Inl nil_deref
           | Some r \<Rightarrow> bindR (dg_get d r) (\<lambda>c.
               hBuildMarkersIndex is (dg_put r (TxMark c (dt_ID tx) (\<not> TxIsMarked c (dt_ID tx))) d))))"

definition ScrollToMarkerEnter :: "Debugger \<Rightarrow> int \<Rightarrow> bool" where
  "ScrollToMarkerEnter d pos1 = (pos1 > 0 \<and> pos1 \<le> int (length (dg_markers d)))"

definition ScrollToMarkerState :: "Debugger \<Rightarrow> int \<Rightarrow> dg_call list res" where
  "ScrollToMarkerState d pos1 = bindR (go_marker d (pos1 - 1)) (\<lambda>calls. Inr (DgRemove ''ScrollToMarker'' # calls))"

section \<open>Scrolling\<close>

definition FwdEnter :: "Debugger \<Rightarrow> int \<Rightarrow> bool res" where
  "FwdEnter d amount =
     (case dg_current d of None \<Rightarrow> Inl nil_deref
      | Some c \<Rightarrow> Inr (dc_CursorTx1 c + max amount 1 \<le> int (length (dc_MsgTxs c))))"

definition FwdState :: "(int \<Rightarrow> string) \<Rightarrow> (string \<Rightarrow> bool) \<Rightarrow> int \<Rightarrow> Debugger \<Rightarrow> (dg_call list \<times> Debugger) res" where
  "FwdState fmtTime is amount d =
     (case dg_current d of None \<Rightarrow> Inl nil_deref
      | Some c \<Rightarrow>
          bindR (hSetCursor1 fmtTime is (cursor_to (dc_CursorTx1 c + max amount 1) False False) d) (\<lambda>(calls, d1).
            case dg_current d1 of None \<Rightarrow> Inl nil_deref
            | Some c1 \<Rightarrow> Inr (DgRemove ''Fwd'' # calls
                @ (if is ''Playing'' \<and> dc_CursorTx1 c1 = int (length (dc_MsgTxs c1)) then [DgRemove ''Playing''] else []), d1)))"

definition BackEnter :: "Debugger \<Rightarrow> int \<Rightarrow> bool res" where
  "BackEnter d amount =
     (case dg_current d of None \<Rightarrow> Inl nil_deref | Some c \<Rightarrow> Inr (dc_CursorTx1 c - max amount 1 \<ge> 0))"

definition BackState :: "(int \<Rightarrow> string) \<Rightarrow> (string \<Rightarrow> bool) \<Rightarrow> int \<Rightarrow> Debugger \<Rightarrow> (dg_call list \<times> Debugger) res" where
  "BackState fmtTime is amount d =
     (case dg_current d of None \<Rightarrow> Inl nil_deref
      | Some c \<Rightarrow> bindR (hSetCursor1 fmtTime is (cursor_to (dc_CursorTx1 c - max amount 1) False True) d) (\<lambda>(calls, d1).
                    Inr (DgRemove ''Back'' # calls, d1)))"

definition ScrollToTxEnter :: "Debugger \<Rightarrow> int \<Rightarrow> string \<Rightarrow> bool \<times> Debugger" where
  "ScrollToTxEnter d pos1 txId =
     (case dg_C d of None \<Rightarrow> (False, d)
      | Some r \<Rightarrow> (case gget (dg_store d) r of None \<Rightarrow> (False, d)
          | Some c \<Rightarrow>
              let byPos = (pos1 > 0 \<and> int (length (dc_MsgTxs c)) \<ge> pos1) in
              if txId = [] then (byPos, d)
              else case TxIndex c txId of (idx, c1) \<Rightarrow> (idx > - 1 \<or> byPos, dg_put r c1 d)))"

definition ScrollToTxState :: "(int \<Rightarrow> string) \<Rightarrow> (string \<Rightarrow> bool) \<Rightarrow> int \<Rightarrow> string \<Rightarrow> bool \<Rightarrow> Debugger \<Rightarrow> (dg_call list \<times> Debugger) res" where
  "ScrollToTxState fmtTime is pos1 txId trim d =
     bindR (if txId = [] then Inr (pos1, d)
            else case dg_C d of None \<Rightarrow> Inl nil_deref
                 | Some r \<Rightarrow> bindR (dg_get d r) (\<lambda>c. case TxIndex c txId of (idx, c1) \<Rightarrow> Inr (idx + 1, dg_put r c1 d)))
       (\<lambda>(n, d1). bindR (hSetCursor1 fmtTime is (cursor_to n trim False) d1) (\<lambda>(calls, d2).
          Inr (calls @ [DgRemove ''ScrollToTx''], d2)))"

text \<open>The position found is the 0-based one of the first transition at or after the time.\<close>

definition hScrollToTime :: "(int \<Rightarrow> string) \<Rightarrow> (string \<Rightarrow> bool) \<Rightarrow> int \<Rightarrow> bool \<Rightarrow> Debugger \<Rightarrow> (bool \<times> dg_call list \<times> Debugger) res" where
  "hScrollToTime fmtTime is hTime doFilter d =
     (case dg_current d of None \<Rightarrow> Inr (False, [], d)
      | Some c \<Rightarrow>
          let latestTx = TxAtHTime c hTime in
          if latestTx = - 1 then Inr (False, [], d)
          else let n = (if doFilter then hFilterTxCursor1 is c latestTx True else latestTx) in
               bindR (hSetCursor1 fmtTime is (cursor_to n False True) d) (\<lambda>(calls, d1). Inr (True, calls, d1)))"

fun scroll_mut :: "(string \<Rightarrow> bool) \<Rightarrow> DbgClient \<Rightarrow> string \<Rightarrow> int list \<Rightarrow> int option res" where
  "scroll_mut is c state [] = Inr None"
| "scroll_mut is c state (i # rest) =
     bindR (sget (dc_MsgTxsParsed c) (i - 1)) (\<lambda>parsed.
       bindR (sget (dc_MsgTxs c) (i - 1)) (\<lambda>tx.
         bindR (dbg_IndexesToStates (client_index c) (mp_StatesAdded parsed)) (\<lambda>added.
           bindR (dbg_IndexesToStates (client_index c) (mp_StatesRemoved parsed)) (\<lambda>removed.
             bindR (dbg_CalledStateNames tx (client_index c)) (\<lambda>called.
               if state \<notin> set added \<and> state \<notin> set removed \<and> state \<notin> set called then scroll_mut is c state rest
               else if filtersActive is \<and> i - 1 \<notin> set (dc_MsgTxsFiltered c) then scroll_mut is c state rest
               else Inr (Some i))))))"

definition ScrollToMutTxState :: "(string \<Rightarrow> bool) \<Rightarrow> string \<Rightarrow> bool \<Rightarrow> Debugger \<Rightarrow> dg_call list res" where
  "ScrollToMutTxState is state fwd d =
     (case dg_current d of None \<Rightarrow> Inr [DgRemove ''ScrollToMutTx'']
      | Some c \<Rightarrow>
          let n = int (length (dc_MsgTxs c)); from = dc_CursorTx1 c;
              path = (if fwd then (if from + 1 > 0 then [from + 1..n] else []) else (if from - 1 < n + 1 then rev [1..from - 1] else [])) in
          bindR (scroll_mut is c state path) (\<lambda>hit.
            Inr (DgRemove ''ScrollToMutTx'' # (case hit of None \<Rightarrow> [] | Some i \<Rightarrow> [DgScrollToTx i True]))))"

section \<open>Clients\<close>

definition hRemoveClient :: "string \<Rightarrow> Debugger \<Rightarrow> Debugger" where
  "hRemoveClient cid d = hRemoveHistory cid (d\<lparr>dg_Clients := gdel cid (dg_Clients d)\<rparr>)"

definition hCleanOnConnect :: "Debugger \<Rightarrow> bool \<times> Debugger" where
  "hCleanOnConnect d =
     (if length (dg_Clients d) = 0 then (False, d)
      else if hConnectedClients d = 0 then (True, foldl (\<lambda>d (cid, r). hRemoveClient cid d) d (dg_Clients d))
      else (False, d))"

definition ConnectEventEnter :: "DbgMsgStruct option \<Rightarrow> string \<Rightarrow> bool" where
  "ConnectEventEnter msg connId =
     (case msg of None \<Rightarrow> False | Some m \<Rightarrow> \<not> (connId = [] \<or> ds_ID m = []))"

text \<open>The client of the message: the one that is known under the same connection with the new schema, or a new object.\<close>

definition connect_client :: "(string \<Rightarrow> string) \<Rightarrow> DbgMsgStruct \<Rightarrow> string \<Rightarrow> Debugger \<Rightarrow> (nat \<times> Debugger) res" where
  "connect_client hash msg connId d =
     (let fresh = (\<lambda>d. bindR (NewDbgClient hash connId msg) (\<lambda>c.
            Inr (dg_next d, (dg_put (dg_next d) (c\<lparr>dc_Connected := True\<rparr>) d)
                   \<lparr>dg_next := Suc (dg_next d), dg_Clients := gput (ds_ID msg) (dg_next d) (dg_Clients d)\<rparr>))) in
      case gget (dg_Clients d) (ds_ID msg) of
        None \<Rightarrow> fresh d
      | Some r \<Rightarrow>
          bindR (dg_get d r) (\<lambda>c.
            if dc_ConnId c \<noteq> [] \<and> dc_ConnId c = connId
            then bindR (ParseSchema hash msg) (\<lambda>sp. Inr (r, dg_put r (c\<lparr>dc_MsgStruct := msg, dc_MsgSchemaParsed := sp\<rparr>) d))
            else fresh (hRemoveClient (dc_Id c) d)))"

definition maxClients :: nat where "maxClients = 5000"

text \<open>The client chosen for removal over the limit: the loop keeps the latest time it has met.\<close>

fun pick_removed :: "Debugger \<Rightarrow> (string \<times> nat) list \<Rightarrow> int \<Rightarrow> string \<Rightarrow> string res" where
  "pick_removed d [] lastTime lastId = Inr lastId"
| "pick_removed d ((cid, r) # rest) lastTime lastId =
     bindR (dg_get d r) (\<lambda>c. bindR (LastActive c) (\<lambda>active.
       if active > lastTime \<or> lastId = [] then pick_removed d rest active cid else pick_removed d rest lastTime lastId))"

definition over_limit :: "Debugger \<Rightarrow> dg_call list res" where
  "over_limit d =
     (if length (dg_Clients d) > maxClients
      then bindR (pick_removed d (dg_Clients d) 0 []) (\<lambda>cid. Inr [DgRemoveClient cid]) else Inr [])"

definition ConnectEventState :: "(string \<Rightarrow> string) \<Rightarrow> (int \<Rightarrow> string) \<Rightarrow> DbgMsgStruct \<Rightarrow> string \<Rightarrow> Debugger
    \<Rightarrow> (dg_call list \<times> Debugger) res" where
  "ConnectEventState hash fmtTime msg connId d =
     (case (if dg_CleanOnConnect d then hCleanOnConnect d else (False, d)) of (cleanup, d1) \<Rightarrow>
       bindR (connect_client hash msg connId d1) (\<lambda>(r, d2).
         bindR (dg_get d2 r) (\<lambda>c.
           let g = group_val d2;
               d3 = (if g \<noteq> [] \<and> ghas (ds_Groups (dc_MsgStruct c)) g then dg_put r (c\<lparr>dc_SelectedGroup := g\<rparr>) d2 else d2);
               same = (case dg_current d3 of None \<Rightarrow> False | Some cc \<Rightarrow> dc_Id cc = ds_ID msg);
               d4 = (if cleanup \<or> same then d3\<lparr>dg_C := Some r\<rparr> else d3);
               select = (length (dg_Clients d4) = 1 \<or> dg_SelectConnected d4 \<and> hConnectedClients d4 = 1);
               d5 = (if select then hPrependHistory fmtTime (MachAddress_zero\<lparr>ma_MachId := ds_ID msg\<rparr>) d4 else d4) in
           bindR (over_limit d4) (\<lambda>calls.
             Inr (calls
                  @ (if select then [DgSelecting (ds_ID msg) True]
                       @ (if dg_selectedState d4 \<noteq> [] then [DgStateSelected (dg_selectedState d4)] else []) else [])
                  @ (if length (dg_Clients d4) = 1 then [DgAdd ''TailMode''] else [])
                  @ [DgInitClient (ds_ID msg), DgAdd ''DiagramsGraphRendering''], d5)))))"

definition DisconnectEventEnter :: "string \<Rightarrow> bool" where
  "DisconnectEventEnter connId = (connId \<noteq> [])"

text \<open>The entries of the last transition that name the machine are removed.\<close>

definition forget_mach :: "string \<Rightarrow> DbgClient \<Rightarrow> DbgClient" where
  "forget_mach mach c =
     (if length (dc_MsgTxsParsed c) = 0 then c
      else let p = last (dc_MsgTxsParsed c);
               es = filter (\<lambda>ptr. case GetReaderEntry c (lp_TxId ptr) (lp_EntryIdx ptr) of
                              None \<Rightarrow> True | Some e \<Rightarrow> lr_Mach e \<noteq> mach) (mp_ReaderEntries p)
           in c\<lparr>dc_MsgTxsParsed := butlast (dc_MsgTxsParsed c) @ [p\<lparr>mp_ReaderEntries := es\<rparr>]\<rparr>)"

fun forget_all :: "string \<Rightarrow> nat list \<Rightarrow> Debugger \<Rightarrow> Debugger res" where
  "forget_all mach [] d = Inr d"
| "forget_all mach (r # rs) d = bindR (dg_get d r) (\<lambda>c. forget_all mach rs (dg_put r (forget_mach mach c) d))"

fun disconnect_first :: "string \<Rightarrow> nat list \<Rightarrow> Debugger \<Rightarrow> Debugger res" where
  "disconnect_first connId [] d = Inr d"
| "disconnect_first connId (r # rs) d =
     bindR (dg_get d r) (\<lambda>c.
       if dc_ConnId c \<noteq> [] \<and> dc_ConnId c = connId
       then forget_all (dc_Id c) (map snd (dg_Clients d)) (dg_put r (c\<lparr>dc_Connected := False\<rparr>) d)
       else disconnect_first connId rs d)"

definition DisconnectEventState :: "string \<Rightarrow> Debugger \<Rightarrow> Debugger res" where
  "DisconnectEventState connId d = disconnect_first connId (map snd (dg_Clients d)) d"

definition RemoveClientEnter :: "string \<Rightarrow> Debugger \<Rightarrow> bool" where
  "RemoveClientEnter cid d = (cid \<noteq> [] \<and> ghas (dg_Clients d) cid)"

definition RemoveClientState :: "(string \<Rightarrow> bool) \<Rightarrow> string \<Rightarrow> Debugger \<Rightarrow> (dg_call list \<times> Debugger) res" where
  "RemoveClientState is cid d =
     (case gget (dg_Clients d) cid of None \<Rightarrow> Inl nil_deref
      | Some r \<Rightarrow>
          bindR (dg_get d r) (\<lambda>c.
            bindR (hBuildMarkersIndex is (hRemoveHistory (dc_Id c) (d\<lparr>dg_Clients := gdel cid (dg_Clients d)\<rparr>))) (\<lambda>d1.
              Inr (DgAdd ''DiagramsGraphRendering''
                   # (if dg_C d1 = Some r
                      then (case dg_Clients d1 of [] \<Rightarrow> [DgRemove ''ClientSelected''] | (name, _) # _ \<Rightarrow> [DgSelecting name False])
                      else []), d1))))"

definition SetGroupEnter :: "string \<Rightarrow> Debugger \<Rightarrow> bool res" where
  "SetGroupEnter g d =
     (if g = [] then Inr False
      else let g1 = (case str_cut '':'' g of None \<Rightarrow> g | Some (a, b) \<Rightarrow> a) in
           case dg_current d of None \<Rightarrow> Inl nil_deref
           | Some c \<Rightarrow> Inr (g1 \<noteq> [] \<and> g1 \<noteq> dc_SelectedGroup c \<and> ghas (sp_Groups (dc_MsgSchemaParsed c)) g1))"

definition SetGroupState :: "string \<Rightarrow> Debugger \<Rightarrow> (dg_call list \<times> Debugger) res" where
  "SetGroupState g d =
     (case dg_C d of None \<Rightarrow> Inl nil_deref
      | Some r \<Rightarrow> bindR (dg_get d r) (\<lambda>c.
          let sel = (if g = ''all'' then [] else hd (strings_Split g '':'')) in
          Inr ([DgAdd ''DiagramsMachRendering'', DgAdd ''DiagramsStatesRendering'', DgGroupToggled (length (dc_MsgTxs c))],
               (dg_put r (c\<lparr>dc_SelectedGroup := sel\<rparr>) d)\<lparr>dg_selectedGroup := GroupOf r\<rparr>)))"

definition SelectingClientEnter :: "(string \<Rightarrow> bool) \<Rightarrow> string \<Rightarrow> Debugger \<Rightarrow> bool" where
  "SelectingClientEnter is cid d =
     (if (case dg_current d of None \<Rightarrow> False | Some c \<Rightarrow> cid = dc_Id c) \<and> is ''ClientSelected'' then False
      else length (dg_Clients d) > 0 \<and> cid \<noteq> [] \<and> ghas (dg_Clients d) cid)"

text \<open>The handler selects the client; the forked function then filters and scrolls, and adds \<open>ClientSelected\<close>.\<close>

definition SelectingClientState :: "string \<Rightarrow> string \<Rightarrow> Debugger \<Rightarrow> Debugger res" where
  "SelectingClientState cid g d =
     (case gget (dg_Clients d) cid of None \<Rightarrow> Inr d
      | Some r \<Rightarrow> bindR (dg_get d r) (\<lambda>c.
          Inr ((dg_put r (if g \<noteq> [] then c\<lparr>dc_SelectedGroup := g\<rparr> else c) d)\<lparr>dg_C := Some r\<rparr>)))"

definition selecting_fork :: "(int \<Rightarrow> string) \<Rightarrow> (string \<Rightarrow> bool) \<Rightarrow> bool \<Rightarrow> Debugger \<Rightarrow> (dg_call list \<times> Debugger) res" where
  "selecting_fork fmtTime is wasTailMode d =
     bindR (hFilterClientTxs is d) (\<lambda>d1.
       bindR (if wasTailMode then Inr (False, [], d1) else hScrollToTime fmtTime is (dg_lastScrolledTxTime d1) True d1)
         (\<lambda>(match, calls, d2).
           bindR (if match then Inr (calls, d2)
                  else case dg_current d2 of None \<Rightarrow> Inl nil_deref
                       | Some c \<Rightarrow> bindR (hSetCursor1 fmtTime is (cursor_to (int (length (dc_MsgTxs c))) False True) d2)
                           (\<lambda>(calls2, d3). Inr (calls @ calls2, d3)))
             (\<lambda>(calls3, d3). Inr (calls3 @ [DgAdd ''ClientSelected'', DgAdd ''BuildingLog'']
                  @ (if wasTailMode then [DgAdd ''TailMode''] else []), d3))))"

definition ClientSelectedEnd :: "bool \<Rightarrow> Debugger \<Rightarrow> Debugger" where
  "ClientSelectedEnd selecting d = (if \<not> selecting then d\<lparr>dg_C := None\<rparr> else d)"

section \<open>Messages received\<close>

definition ClientMsgEnter :: "DbgMsgTx list option \<Rightarrow> string list option \<Rightarrow> bool" where
  "ClientMsgEnter msgs connIds = (msgs \<noteq> None \<and> connIds \<noteq> None)"

text \<open>One message. The last component tells that it was for the selected client.\<close>

definition client_msg :: "(string \<Rightarrow> S \<Rightarrow> string) \<Rightarrow> (string \<Rightarrow> bool) \<Rightarrow> DbgMsgTx \<Rightarrow> string \<Rightarrow> Debugger
    \<Rightarrow> (dg_call list \<times> bool \<times> Debugger) res" where
  "client_msg fmt is msg connId d =
     (case gget (dg_Clients d) (dt_MachineID msg) of
        None \<Rightarrow> Inr ([DgLog (''Error: client not found: '' @ dt_MachineID msg)], False, d)
      | Some r \<Rightarrow>
          bindR (dg_get d r) (\<lambda>c.
            if dc_ConnId c \<noteq> connId
            then Inr ([DgLog (''Error: conn_id mismatch for '' @ dt_MachineID msg @ '', ignoring tx'')], False, d)
            else
              let idx = length (dc_MsgTxs c) in
              bindR (hParseMsg fmt is r idx (dg_put r (c\<lparr>dc_MsgTxs := dc_MsgTxs c @ [msg]\<rparr>) d)) (\<lambda>(calls, d1).
                bindR (dg_get d1 r) (\<lambda>c1.
                  bindR (hFilterTx c1 (int idx) (filtersFromStates is)) (\<lambda>ok.
                    Inr (calls, dg_C d = Some r,
                      if ok then dg_put r (c1\<lparr>dc_MsgTxsFiltered := dc_MsgTxsFiltered c1 @ [int idx]\<rparr>) d1 else d1))))))"

fun client_msgs :: "(string \<Rightarrow> S \<Rightarrow> string) \<Rightarrow> (string \<Rightarrow> bool) \<Rightarrow> DbgMsgTx list \<Rightarrow> string list \<Rightarrow> Debugger
    \<Rightarrow> (dg_call list \<times> bool \<times> Debugger) res" where
  "client_msgs fmt is [] connIds d = Inr ([], False, d)"
| "client_msgs fmt is (msg # msgs) connIds d =
     (if gget (dg_Clients d) (dt_MachineID msg) \<noteq> None \<and> connIds = [] then Inl out_of_range
      else bindR (client_msg fmt is msg (hd connIds) d) (\<lambda>(calls, sel, d1).
             bindR (client_msgs fmt is msgs (tl connIds) d1) (\<lambda>(calls2, sel2, d2).
               Inr (calls @ calls2, sel \<or> sel2, d2))))"

definition ClientMsgState :: "(string \<Rightarrow> S \<Rightarrow> string) \<Rightarrow> (int \<Rightarrow> string) \<Rightarrow> (string \<Rightarrow> bool) \<Rightarrow> DbgMsgTx list \<Rightarrow> string list \<Rightarrow> Debugger
    \<Rightarrow> (dg_call list \<times> Debugger) res" where
  "ClientMsgState fmt fmtTime is msgs connIds d =
     (if is ''GcMsgs''
      then Inr ([DgRemove ''ClientMsg''], d\<lparr>dg_msgsDelayed := dg_msgsDelayed d @ msgs,
             dg_msgsDelayedConns := dg_msgsDelayedConns d @ connIds\<rparr>)
      else
        let late = length (dg_msgsDelayed d) > 0;
            msgs1 = (if late then dg_msgsDelayed d @ msgs else msgs);
            connIds1 = (if late then dg_msgsDelayedConns d @ connIds else connIds);
            d1 = (if late then d\<lparr>dg_msgsDelayed := [], dg_msgsDelayedConns := []\<rparr> else d) in
        bindR (client_msgs fmt is msgs1 connIds1 d1) (\<lambda>(calls, sel, d2).
          if sel \<and> is ''TailMode''
          then (case dg_current d2 of None \<Rightarrow> Inl nil_deref
                | Some c \<Rightarrow> bindR (hSetCursor1 fmtTime is (cursor_to (int (length (dc_MsgTxs c))) False True) d2)
                    (\<lambda>(calls2, d3). Inr (DgRemove ''ClientMsg'' # calls @ calls2, d3)))
          else Inr (DgRemove ''ClientMsg'' # calls, d2)))"

section \<open>Removal of old messages\<close>

definition msgMaxThreshold :: nat where "msgMaxThreshold = 300"

text \<open>The log above the level of changes is dropped once it is older than \<open>ttl\<close>.\<close>

fun gc_log :: "int \<Rightarrow> int \<Rightarrow> DbgMsgTx list \<Rightarrow> LogEntry list list \<Rightarrow> LogEntry list list res" where
  "gc_log now ttl txs [] = Inr []"
| "gc_log now ttl [] (l # ls) = Inl out_of_range"
| "gc_log now ttl (tx # txs) (l # ls) =
     (case dt_Time tx of None \<Rightarrow> Inl nil_deref
      | Some t \<Rightarrow> bindR (gc_log now ttl txs ls) (\<lambda>rest.
          Inr ((if t + ttl > now then l else filter (\<lambda>e. le_Level e \<le> LogChanges) l) # rest)))"

fun gc_logs :: "int \<Rightarrow> int \<Rightarrow> nat list \<Rightarrow> Debugger \<Rightarrow> Debugger res" where
  "gc_logs now ttl [] d = Inr d"
| "gc_logs now ttl (r # rs) d =
     bindR (dg_get d r) (\<lambda>c. bindR (gc_log now ttl (dc_MsgTxs c) (dc_LogMsgs c)) (\<lambda>logs.
       gc_logs now ttl rs (dg_put r (c\<lparr>dc_LogMsgs := logs\<rparr>) d)))"

text \<open>The older half of a client's messages.\<close>

definition gc_half :: "DbgClient \<Rightarrow> DbgClient res" where
  "gc_half c =
     (let idx = length (dc_MsgTxs c) div 2 in
      if idx > length (dc_MsgTxsParsed c) \<or> idx > length (dc_LogMsgs c) then Inl (GoPanic ''slice bounds out of range'')
      else Inr (ClearCache (c\<lparr>dc_MsgTxs := drop idx (dc_MsgTxs c), dc_MsgTxsParsed := drop idx (dc_MsgTxsParsed c),
                  dc_LogMsgs := drop idx (dc_LogMsgs c)\<rparr>)))"

definition gc_client :: "(string \<Rightarrow> bool) \<Rightarrow> nat \<Rightarrow> Debugger \<Rightarrow> (dg_call list \<times> Debugger) res" where
  "gc_client is r d =
     bindR (dg_get d r) (\<lambda>c.
       let idx = int (length (dc_MsgTxs c) div 2) in
       bindR (gc_half c) (\<lambda>c1.
         bindR (if dg_C d = Some r
                then (let d1 = dg_put r (c1\<lparr>dc_CursorTx1 := max 0 (dc_CursorTx1 c1 - idx)\<rparr>) d in
                      bindR (if filtersActive is then hFilterClientTxs is d1 else Inr d1) (\<lambda>d2.
                        Inr ([DgBuildingLog (length (dc_MsgTxs c1))], d2)))
                else Inr ([], dg_put r c1 d)) (\<lambda>(calls, d3).
           bindR (dg_get d3 r) (\<lambda>c3.
             if length (dc_MsgTxs c3) < msgMaxThreshold then Inr (calls @ [DgRemoveClient (dc_Id c3)], d3)
             else Inr (calls, dg_put r (c3\<lparr>dc_MTimeSum := foldl (\<lambda>s p. s + mp_TimeSum p) 0 (dc_MsgTxsParsed c3)\<rparr>) d3)))))"

fun gc_round :: "(string \<Rightarrow> bool) \<Rightarrow> nat list \<Rightarrow> Debugger \<Rightarrow> (dg_call list \<times> Debugger) res" where
  "gc_round is [] d = Inr ([], d)"
| "gc_round is (r # rs) d =
     bindR (gc_client is r d) (\<lambda>(calls, d1). bindR (gc_round is rs d1) (\<lambda>(calls2, d2). Inr (calls @ calls2, d2)))"

text \<open>\<open>mem\<close> tells, before each round, whether the memory used is over the limit.\<close>

fun gc_rounds :: "(string \<Rightarrow> bool) \<Rightarrow> nat list \<Rightarrow> nat \<Rightarrow> bool list \<Rightarrow> Debugger \<Rightarrow> (dg_call list \<times> Debugger) res" where
  "gc_rounds is rs n [] d = Inr ([], d)"
| "gc_rounds is rs n (False # mem) d = Inr ([], d)"
| "gc_rounds is rs n (True # mem) d =
     (if n > 100 then Inr ([DgErr ''too many GC rounds''], d)
      else bindR (gc_round is rs d) (\<lambda>(calls, d1). bindR (gc_rounds is rs (Suc n) mem d1) (\<lambda>(calls2, d2). Inr (calls @ calls2, d2))))"

definition GcMsgsState :: "(string \<Rightarrow> bool) \<Rightarrow> int \<Rightarrow> int \<Rightarrow> nat list \<Rightarrow> bool list \<Rightarrow> Debugger \<Rightarrow> (dg_call list \<times> Debugger) res" where
  "GcMsgsState is now ttl clients mem d =
     bindR (gc_logs now ttl clients d) (\<lambda>d1.
       bindR (gc_rounds is clients 0 mem d1) (\<lambda>(calls, d2).
         bindR (hBuildMarkersIndex is d2) (\<lambda>d3. Inr (calls @ [DgRemove ''GcMsgs''], d3))))"

end
