(* ===== verification/Am_Dbg_Facts.thy ===== *)
theory Am_Dbg_Facts
  imports Am_Dbg_Server
begin

text \<open>
  What the debugger's telemetry and server guarantee: lines lose exactly the prefix the machine gave them, searches find
  what they look for, a link to another debugger that is down always has a dial ahead, and each message received is
  passed on once. A machine with pipes crashes when there is no debugger, and a link that is down detaches the tracers
  of the machines that are debugged.
\<close>

section \<open>Searches\<close>

definition monotone_to :: "nat \<Rightarrow> (nat \<Rightarrow> bool) \<Rightarrow> bool" where
  "monotone_to n f = (\<forall>a b. a \<le> b \<longrightarrow> b < n \<longrightarrow> f a \<longrightarrow> f b)"

lemma sort_search_stop: "\<not> i < k \<Longrightarrow> sort_search f i k = i"
  by (subst sort_search.simps) simp

lemma sort_search_loop:
  "i < k \<Longrightarrow> sort_search f i k
     = (if f ((i + k) div 2) then sort_search f i ((i + k) div 2) else sort_search f ((i + k) div 2 + 1) k)"
  by (subst sort_search.simps) (simp add: Let_def)

lemma sort_search_spec:
  assumes "monotone_to n f" "i \<le> k" "k \<le> n" "\<forall>a < i. \<not> f a" "\<forall>a. k \<le> a \<longrightarrow> a < n \<longrightarrow> f a"
  shows "sort_search f i k \<le> k \<and> (\<forall>a < sort_search f i k. \<not> f a) \<and> (\<forall>a. sort_search f i k \<le> a \<longrightarrow> a < n \<longrightarrow> f a)"
  using assms(2-)
proof (induction "k - i" arbitrary: i k rule: less_induct)
  case less
  show ?case
  proof (cases "i < k")
    case False
    with less.prems show ?thesis by (simp add: sort_search_stop)
  next
    case True
    define h where "h = (i + k) div 2"
    have h: "i \<le> h" "h < k" using True by (auto simp: h_def)
    show ?thesis
    proof (cases "f h")
      case fh: True
      then have up: "\<forall>a. h \<le> a \<longrightarrow> a < n \<longrightarrow> f a" using assms(1) unfolding monotone_to_def by blast
      have "h - i < k - i" "h \<le> n" using h less.prems(2) by linarith+
      note less.hyps [OF this(1) h(1) this(2) less.prems(3) up]
      with h fh show ?thesis by (auto simp: sort_search_loop [OF True] simp flip: h_def)
    next
      case fh: False
      then have "\<forall>a < h + 1. \<not> f a"
        using assms(1) h less.prems(2) unfolding monotone_to_def by (metis Suc_eq_plus1 less_Suc_eq_le order_less_le_trans)
      with less.hyps [of k "h + 1"] less.prems h fh show ?thesis
        by (simp add: sort_search_loop [OF True] flip: h_def)
    qed
  qed
qed

text \<open>The reference of the search: the first position from which the predicate holds.\<close>

lemma sort_Search_spec:
  assumes "monotone_to n f"
  shows "sort_Search n f \<le> n" "a < sort_Search n f \<Longrightarrow> \<not> f a" "sort_Search n f \<le> a \<Longrightarrow> a < n \<Longrightarrow> f a"
  using sort_search_spec [OF assms, of 0 n] by (auto simp: sort_Search_def)

text \<open>The indexes of the errors are kept newest first; the search finds whether one of them is near enough.\<close>

theorem HadErrSinceTx_exact:
  assumes "sorted_wrt (\<lambda>a b. a > b) (dc_Errors c)" "0 < distance"
  shows "HadErrSinceTx c tx distance \<longleftrightarrow> (\<exists>e \<in> set (dc_Errors c). e \<le> tx \<and> tx - e < distance)"
proof (cases "tx \<in> set (dc_Errors c)")
  case True
  with assms(2) show ?thesis by (auto simp: HadErrSinceTx_def intro: bexI [of _ tx])
next
  case False
  let ?E = "dc_Errors c"
  let ?i = "sort_Search (length ?E) (\<lambda>i. ?E ! i < tx)"
  have "?E ! b < tx" if "a \<le> b" "b < length ?E" "?E ! a < tx" for a b
    using that sorted_wrt_nth_less [OF assms(1), of a b] by (cases "a = b") auto
  then have "monotone_to (length ?E) (\<lambda>i. ?E ! i < tx)" by (simp add: monotone_to_def)
  note spec = sort_Search_spec [OF this]
  show ?thesis
  proof (cases "?i < length ?E")
    case idx: True
    have le: "?E ! ?i < tx" using spec(3) [of ?i] idx by auto
    have near: "?E ! k \<le> ?E ! ?i" if "k < length ?E" "?E ! k < tx" for k
    proof -
      have "?i \<le> k" using spec(2) [of k] that by (auto simp: not_less [symmetric])
      then show ?thesis
        using sorted_wrt_nth_less [OF assms(1), of ?i k] that by (cases "?i = k") auto
    qed
    have "(\<exists>e \<in> set ?E. e \<le> tx \<and> tx - e < distance) \<longleftrightarrow> tx - ?E ! ?i < distance"
    proof
      assume "\<exists>e \<in> set ?E. e \<le> tx \<and> tx - e < distance"
      then obtain k where k: "k < length ?E" "?E ! k \<le> tx" "tx - ?E ! k < distance" by (metis in_set_conv_nth)
      then have "?E ! k < tx" using False by (metis nth_mem order_le_less)
      with near k show "tx - ?E ! ?i < distance" by force
    qed (use idx le in \<open>auto intro!: bexI [of _ "?E ! ?i"]\<close>)
    with False idx show ?thesis by (simp add: HadErrSinceTx_def Let_def)
  next
    case none: False
    have "\<not> ?E ! k < tx" if "k < length ?E" for k using spec(2) [of k] none that by auto
    then have "\<not> (\<exists>e \<in> set ?E. e \<le> tx \<and> tx - e < distance)"
      using False by (metis in_set_conv_nth order_le_less)
    with False none show ?thesis by (simp add: HadErrSinceTx_def Let_def)
  qed
qed

text \<open>The transition at a queue tick is the first that is not before it, the last one when there is none.\<close>

theorem TxAtQueueTick_first:
  assumes "sorted (map dt_QueueTick (dc_MsgTxs c))" "dc_MsgTxs c \<noteq> []"
  shows "\<exists>i. TxAtQueueTick c q = int i \<and> i < length (dc_MsgTxs c)
    \<and> (\<forall>k < i. dt_QueueTick (dc_MsgTxs c ! k) < q)
    \<and> (q \<le> dt_QueueTick (dc_MsgTxs c ! i) \<or> (\<forall>tx \<in> set (dc_MsgTxs c). dt_QueueTick tx < q))"
proof -
  let ?T = "dc_MsgTxs c" and ?f = "\<lambda>i. dt_QueueTick (dc_MsgTxs c ! i) \<ge> q"
  have "?f b" if "a \<le> b" "b < length ?T" "?f a" for a b
    using that sorted_nth_mono [OF assms(1), of a b] by auto
  then have "monotone_to (length ?T) ?f" by (simp add: monotone_to_def)
  note spec = sort_Search_spec [OF this]
  let ?i = "sort_Search (length ?T) ?f"
  show ?thesis
  proof (cases "?i = length ?T")
    case True
    then have "\<forall>k < length ?T. dt_QueueTick (?T ! k) < q" using spec(2) by (auto simp: not_le)
    with True assms(2) show ?thesis
      by (intro exI [of _ "length ?T - 1"]) (auto simp: TxAtQueueTick_def Let_def in_set_conv_nth)
  next
    case False
    then have "?i < length ?T" using spec(1) by auto
    moreover have "TxAtQueueTick c q = int ?i" using False assms(2) by (simp add: TxAtQueueTick_def Let_def)
    moreover have "\<forall>k < ?i. dt_QueueTick (?T ! k) < q" using spec(2) by (simp add: not_le)
    moreover have "q \<le> dt_QueueTick (?T ! ?i)" using spec(3) [of ?i] calculation(1) by simp
    ultimately show ?thesis by blast
  qed
qed

text \<open>The cache of positions: an entry is the first message of its ID.\<close>

definition cache_ok :: "DbgClient \<Rightarrow> bool" where
  "cache_ok c = (\<forall>(id0, i) \<in> set (dc_txCache c). first_tx (dc_MsgTxs c) id0 = Some i)"

lemma first_tx_append: "first_tx txs id0 = Some i \<Longrightarrow> first_tx (txs @ more_txs) id0 = Some i"
  by (induction txs arbitrary: i) (auto split: if_splits)

lemma first_tx_Some: "first_tx txs id0 = Some i \<Longrightarrow> i < length txs \<and> dt_ID (txs ! i) = id0"
  by (induction txs arbitrary: i) (auto split: if_splits)

lemma gput_set: "(k', v') \<in> set (gput k v m) \<Longrightarrow> k' = k \<and> v' = v \<or> (k', v') \<in> set m"
  unfolding gput_def by (induction m) (auto split: if_splits)

theorem TxIndex_exact:
  assumes "cache_ok c"
  shows "fst (TxIndex c id0) = (case first_tx (dc_MsgTxs c) id0 of None \<Rightarrow> - 1 | Some i \<Rightarrow> int i)" "cache_ok (snd (TxIndex c id0))"
    "cache_ok (c\<lparr>dc_MsgTxs := dc_MsgTxs c @ txs\<rparr>)"
proof -
  have "first_tx (dc_MsgTxs c) id0 = Some i" if "gget (dc_txCache c) id0 = Some i" for i
    using assms map_of_SomeD [of "dc_txCache c" id0 i] that by (auto simp: cache_ok_def gget_def)
  then show "fst (TxIndex c id0) = (case first_tx (dc_MsgTxs c) id0 of None \<Rightarrow> - 1 | Some i \<Rightarrow> int i)"
    by (auto simp: TxIndex_def split: option.split)
  show "cache_ok (snd (TxIndex c id0))"
    using assms by (auto simp: TxIndex_def cache_ok_def dest!: gput_set split: option.split)
  show "cache_ok (c\<lparr>dc_MsgTxs := dc_MsgTxs c @ txs\<rparr>)"
    using assms by (auto simp: cache_ok_def intro: first_tx_append)
qed

section \<open>Tracer\<close>

text \<open>A line keeps exactly what the machine logged, whatever the length of its ID.\<close>

lemma removeLogPrefix_lines:
  "removeLogPrefix mach (map (\<lambda>x. Some \<lparr>le_Level = lvl x, le_Text = log_prefix (dm_IsId mach) (dm_Id mach) None @ txt x\<rparr>) xs)
   = map (\<lambda>x. Some \<lparr>le_Level = lvl x, le_Text = txt x\<rparr>) xs"
proof -
  have "length (log_prefix True (dm_Id mach) None) = min (length (dm_Id mach) + 3) (5 + 3)"
    by (simp add: log_prefix_def min_def)
  then have "remove_prefixes (min (length (dm_Id mach) + 3) (5 + 3))
      (map (\<lambda>x. Some \<lparr>le_Level = lvl x, le_Text = log_prefix True (dm_Id mach) None @ txt x\<rparr>) ys)
    = map (\<lambda>x. Some \<lparr>le_Level = lvl x, le_Text = txt x\<rparr>) ys" for ys
    by (induction ys) auto
  then show ?thesis by (cases "dm_IsId mach") (simp_all add: removeLogPrefix_def log_prefix_def [of False])
qed

text \<open>A machine with pipes that is told to send its transitions while no debugger listens, and without a log level in the
  environment: the goroutine of its tracer panics, which ends the program.\<close>

theorem connect_without_debugger_panics:
  assumes "dm_Pipes mach \<noteq> []" "\<not> dm_Disposed mach"
  shows "\<exists>t. TransitionsToDbg mach [] None addr ws = Inr (None, Some t)
    \<and> outbox_run mach False \<lparr>oc_dial = False, oc_schema = e1, oc_tx = e2\<rparr> t
        = Inl (GoPanic ''invalid memory address or nil pointer dereference'')"
  using assms
  by (auto simp: TransitionsToDbg_def Let_def dbg_MachineInit_def outbox_send_def NewTracer_def outboxCap_def sem_Pipes_def
      semlog_msg_def outbox_run_def outbox_fn_run_def sendMsgSchema_def client_sendMsgSchema_def client_sendMsgTx_def)

text \<open>With a log level in the environment, or without pipes, the same machine runs on.\<close>

theorem connect_without_debugger:
  assumes "dm_Pipes mach = [] \<or> amLog" "TransitionsToDbg mach [] None addr ws = Inr (None, Some t)" "\<not> oc_dial oc"
  shows "\<exists>t'. outbox_run mach amLog oc t = Inr ([], t') \<and> tr_outbox t' = []"
proof -
  have t: "tr_outbox t = [OutConnect (semlog_msg mach)]"
    using assms(2)
    by (auto simp: TransitionsToDbg_def Let_def dbg_MachineInit_def outbox_send_def NewTracer_def bindR_eq_Inr split: if_splits)
  from assms(1) show ?thesis
  proof
    assume "dm_Pipes mach = []"
    with t assms(3) show ?thesis
      by (auto simp: outbox_run_def outbox_fn_run_def semlog_msg_def sem_Pipes_def sendMsgSchema_def client_sendMsgSchema_def Let_def)
  qed (use t assms(3) in \<open>auto simp: outbox_run_def outbox_fn_run_def Let_def\<close>)
qed

text \<open>What happens to a tracer: the end of a transition with its ID, a queued mutation, a function of the outbox that runs.
  The functions taken from the outbox are collected.\<close>

datatype tracer_ev =
    TxEnd Transition string "Step list" "LogEntry option list" "LogEntry option list" | MutQueued Mutation | OutboxRun bool send_outcome

fun tracer_event :: "DbgMach \<Rightarrow> tracer_ev \<Rightarrow> outbox_fn list \<times> DbgTracer \<Rightarrow> (outbox_fn list \<times> DbgTracer) res" where
  "tracer_event mach (TxEnd tx txId steps logs preLogs) (taken, t) =
     bindR (dbg_TransitionEnd mach tx txId steps logs preLogs t) (\<lambda>(detach, t'). Inr (taken, t'))"
| "tracer_event mach (MutQueued mut) (taken, t) = bindR (dbg_MutationQueued mach mut t) (\<lambda>t'. Inr (taken, t'))"
| "tracer_event mach (OutboxRun amLog oc) (taken, t) =
     bindR (outbox_run mach amLog oc t) (\<lambda>(calls, t'). Inr (taken @ take 1 (tr_outbox t), t'))"

fun tracer_events :: "DbgMach \<Rightarrow> tracer_ev list \<Rightarrow> outbox_fn list \<times> DbgTracer \<Rightarrow> (outbox_fn list \<times> DbgTracer) res" where
  "tracer_events mach [] s = Inr s"
| "tracer_events mach (ev # evs) s = bindR (tracer_event mach ev s) (tracer_events mach evs)"

definition out_ids :: "outbox_fn list \<Rightarrow> string list" where
  "out_ids fs = concat (map (\<lambda>f. case f of OutTx msg \<Rightarrow> [dt_ID msg] | _ \<Rightarrow> []) fs)"

definition event_ids :: "tracer_ev list \<Rightarrow> string list" where
  "event_ids evs = concat (map (\<lambda>ev. case ev of TxEnd tx txId _ _ _ \<Rightarrow> [txId] | _ \<Rightarrow> []) evs)"

lemma less_48_10: "x < 10 \<Longrightarrow> 48 + x < (256 :: nat)"
  by simp

lemma nat_digits_inj: "nat_digits a = nat_digits b \<Longrightarrow> a = b"
proof (induction a arbitrary: b rule: less_induct)
  case (less a)
  have "of_char (digit_char x) = (48 + x) mod 256" for x by (simp add: digit_char_def)
  then have "(48 + x) mod 256 = (48 + y) mod (256 :: nat)" if "digit_char x = digit_char y" for x y using that by metis
  then have digit: "x = y" if "digit_char x = digit_char y" "x < 10" "y < 10" for x y
    using that by (metis add_left_cancel mod_less less_48_10)
  have ne: "nat_digits n \<noteq> []" for n by (subst nat_digits.simps) simp
  show ?case
  proof (cases "a < 10")
    case True
    show ?thesis
    proof (cases "b < 10")
      case b: True
      with True less.prems show ?thesis by (subst (asm) (1 2) nat_digits.simps) (auto dest: digit)
    next
      case b: False
      with True less.prems have "[digit_char a] = nat_digits (b div 10) @ [digit_char (b mod 10)]"
        by (subst (asm) (1 2) nat_digits.simps) simp
      with ne show ?thesis by (cases "nat_digits (b div 10)") auto
    qed
  next
    case False
    show ?thesis
    proof (cases "b < 10")
      case b: True
      with False less.prems have "nat_digits (a div 10) @ [digit_char (a mod 10)] = [digit_char b]"
        by (subst (asm) (1 2) nat_digits.simps) simp
      with ne show ?thesis by (cases "nat_digits (a div 10)") auto
    next
      case b: False
      with False less.prems have "nat_digits (a div 10) = nat_digits (b div 10)" "digit_char (a mod 10) = digit_char (b mod 10)"
        by (subst (asm) (1 2) nat_digits.simps, simp)+
      with less.IH [of "a div 10" "b div 10"] digit [of "a mod 10" "b mod 10"] False
      have "a div 10 = b div 10" "a mod 10 = b mod 10" by simp_all
      then show ?thesis by (metis div_mult_mod_eq)
    qed
  qed
qed

lemma Itoa_inj: "0 \<le> a \<Longrightarrow> 0 \<le> b \<Longrightarrow> strconv_Itoa a = strconv_Itoa b \<Longrightarrow> a = b"
  by (auto simp: strconv_Itoa_def dest: nat_digits_inj)

lemma dash_inj:
  "CHR ''-'' \<notin> set u \<Longrightarrow> CHR ''-'' \<notin> set v \<Longrightarrow> u @ CHR ''-'' # x = v @ CHR ''-'' # y \<Longrightarrow> u = v \<and> x = y"
proof (induction u arbitrary: v)
  case Nil
  then show ?case by (cases v) auto
next
  case (Cons a u)
  then show ?case by (cases v) auto
qed

lemma out_ids_append [simp]: "out_ids (fs @ gs) = out_ids fs @ out_ids gs"
  by (simp add: out_ids_def)

text \<open>The IDs sent so far are IDs of transitions in \<open>U\<close>, or such an ID with a number; with the last one the numbers are
  below the counter.\<close>

definition numbered :: "string set \<Rightarrow> string \<Rightarrow> int \<Rightarrow> string \<Rightarrow> bool" where
  "numbered U L q x = (\<exists>u k. u \<in> U \<and> 0 \<le> k \<and> x = u @ CHR ''-'' # strconv_Itoa k \<and> (u = L \<longrightarrow> k < q))"

definition ids_ok :: "string set \<Rightarrow> string \<Rightarrow> int \<Rightarrow> string list \<Rightarrow> bool" where
  "ids_ok U L q ids = (distinct ids \<and> (\<forall>u \<in> U. CHR ''-'' \<notin> set u) \<and> L \<in> U \<and> 0 \<le> q
     \<and> (\<forall>x \<in> set ids. x \<in> U \<or> numbered U L q x))"

lemma numbered_mono:
  assumes "numbered U L q x" "q \<le> q'"
  shows "numbered (insert y U) L q' x"
proof -
  from assms(1) obtain u k where "u \<in> U" "0 \<le> k" "x = u @ CHR ''-'' # strconv_Itoa k" "u = L \<longrightarrow> k < q"
    unfolding numbered_def by blast
  with assms(2) show ?thesis unfolding numbered_def by (intro exI [of _ u] exI [of _ k]) auto
qed

lemma numbered_new: "numbered U L q x \<Longrightarrow> y \<notin> U \<Longrightarrow> numbered (insert y U) y 0 x"
  unfolding numbered_def by blast

lemma numbered_dash: "numbered U L q x \<Longrightarrow> CHR ''-'' \<in> set x"
  unfolding numbered_def by auto

lemma ids_ok_mono: "ids_ok U L q ids \<Longrightarrow> CHR ''-'' \<notin> set x \<Longrightarrow> ids_ok (insert x U) L q ids"
  by (auto simp: ids_ok_def intro: numbered_mono)

lemma ids_ok_tx: "ids_ok U L q ids \<Longrightarrow> CHR ''-'' \<notin> set x \<Longrightarrow> x \<notin> U \<Longrightarrow> ids_ok (insert x U) x 0 (ids @ [x])"
  by (auto simp: ids_ok_def intro: numbered_new dest: numbered_dash)

lemma ids_ok_queued:
  assumes "ids_ok U L q ids"
  shows "ids_ok U L (q + 1) (ids @ [L @ CHR ''-'' # strconv_Itoa q])"
proof -
  let ?x = "L @ CHR ''-'' # strconv_Itoa q"
  have inv: "L \<in> U" "\<forall>u \<in> U. CHR ''-'' \<notin> set u" "0 \<le> q" using assms by (auto simp: ids_ok_def)
  have "u = L \<and> k = q" if "?x = u @ CHR ''-'' # strconv_Itoa k" "u \<in> U" "0 \<le> k" for u k
    using dash_inj [of L u] Itoa_inj [of q k] that inv by auto
  then have "\<not> numbered U L q ?x" unfolding numbered_def by (metis less_irrefl)
  moreover have "?x \<notin> U" using inv by fastforce
  ultimately have "?x \<notin> set ids" using assms by (auto simp: ids_ok_def)
  moreover have "numbered U L (q + 1) ?x" using inv unfolding numbered_def by (intro exI [of _ L] exI [of _ q]) simp
  moreover have "numbered U L (q + 1) y" if "numbered U L q y" for y
    using numbered_mono [OF that, of "q + 1" L] inv(1) by (simp add: insert_absorb)
  ultimately show ?thesis using assms inv by (auto simp: ids_ok_def)
qed

definition ids_inv :: "string set \<Rightarrow> outbox_fn list \<times> DbgTracer \<Rightarrow> bool" where
  "ids_inv U = (\<lambda>(taken, t). ids_ok U (tr_lastTx t) (tr_queued t) (out_ids (taken @ tr_outbox t)))"

lemma outbox_send_Inr: "outbox_send t f = Inr t' \<Longrightarrow> t' = t\<lparr>tr_outbox := tr_outbox t @ [f]\<rparr>"
  by (auto simp: outbox_send_def split: if_splits)

lemma outbox_run_keeps:
  assumes "outbox_run mach amLog oc t = Inr (calls, t')"
  shows "take 1 (tr_outbox t) @ tr_outbox t' = tr_outbox t" "tr_lastTx t' = tr_lastTx t" "tr_queued t' = tr_queued t"
proof -
  have "tr_outbox t' = drop 1 (tr_outbox t) \<and> tr_lastTx t' = tr_lastTx t \<and> tr_queued t' = tr_queued t"
    using assms
    by (auto simp: outbox_run_def outbox_fn_run_def sendMsgSchema_def client_sendMsgTx_def count_err_def Let_def bindR_eq_Inr
        split: list.splits outbox_fn.splits if_splits prod.splits option.splits)
  then show "take 1 (tr_outbox t) @ tr_outbox t' = tr_outbox t" "tr_lastTx t' = tr_lastTx t" "tr_queued t' = tr_queued t"
    by (metis append_take_drop_id)+
qed

lemma ids_inv_event:
  assumes "ids_inv U s" "tracer_event mach ev s = Inr s'" "set (event_ids [ev]) \<inter> U = {}"
    "\<forall>x \<in> set (event_ids [ev]). CHR ''-'' \<notin> set x"
  shows "ids_inv (U \<union> set (event_ids [ev])) s'"
proof (cases ev)
  case (TxEnd tx txId steps logs preLogs)
  obtain taken t where s: "s = (taken, t)" by force
  have new: "txId \<notin> U" "CHR ''-'' \<notin> set txId" using assms(3,4) TxEnd by (auto simp: event_ids_def)
  from assms(2) TxEnd s obtain dt t' where t': "dbg_TransitionEnd mach tx txId steps logs preLogs t = Inr (dt, t')" "s' = (taken, t')"
    by (auto simp: bindR_eq_Inr)
  then consider (same) "tr_outbox t' = tr_outbox t" "tr_lastTx t' = tr_lastTx t" "tr_queued t' = tr_queued t"
    | (sent) "tr_outbox t' = tr_outbox t @ [OutTx (dbg_tx_msg mach tx txId steps logs preLogs)]" "tr_lastTx t' = txId" "tr_queued t' = 0"
    by (auto simp: dbg_TransitionEnd_def bindR_eq_Inr dest!: outbox_send_Inr split: if_splits)
  then show ?thesis
  proof cases
    case same
    with assms(1) t' s new TxEnd show ?thesis by (simp add: ids_inv_def event_ids_def ids_ok_mono)
  next
    case sent
    have "dt_ID (dbg_tx_msg mach tx txId steps logs preLogs) = txId" by (simp add: dbg_tx_msg_def Let_def DbgMsgTx_zero_def)
    with sent have "out_ids (taken @ tr_outbox t') = out_ids (taken @ tr_outbox t) @ [txId]" by (simp add: out_ids_def)
    with ids_ok_tx [OF _ new(2,1)] sent assms(1) t' s TxEnd show ?thesis
      by (auto simp: ids_inv_def event_ids_def simp del: out_ids_append)
  qed
next
  case (MutQueued mut)
  obtain taken t where s: "s = (taken, t)" by force
  from assms(2) MutQueued s obtain t' where t': "dbg_MutationQueued mach mut t = Inr t'" "s' = (taken, t')"
    by (auto simp: bindR_eq_Inr)
  then consider (same) "t' = t" | (sent) "tr_outbox t' = tr_outbox t @ [OutTx (queued_msg mach mut t)]"
      "tr_lastTx t' = tr_lastTx t" "tr_queued t' = tr_queued t + 1"
    by (auto simp: dbg_MutationQueued_def dest!: outbox_send_Inr split: if_splits)
  then show ?thesis
  proof cases
    case same
    with assms(1) t' s MutQueued show ?thesis by (simp add: event_ids_def)
  next
    case sent
    have "dt_ID (queued_msg mach mut t) = tr_lastTx t @ CHR ''-'' # strconv_Itoa (tr_queued t)"
      by (simp add: queued_msg_def Let_def DbgMsgTx_zero_def)
    with sent have "out_ids (taken @ tr_outbox t')
        = out_ids (taken @ tr_outbox t) @ [tr_lastTx t @ CHR ''-'' # strconv_Itoa (tr_queued t)]" by (simp add: out_ids_def)
    with ids_ok_queued sent assms(1) t' s MutQueued show ?thesis
      by (auto simp: ids_inv_def event_ids_def simp del: out_ids_append)
  qed
next
  case (OutboxRun amLog oc)
  obtain taken t where s: "s = (taken, t)" by force
  from assms(2) OutboxRun s obtain calls t' where "outbox_run mach amLog oc t = Inr (calls, t')"
      "s' = (taken @ take 1 (tr_outbox t), t')" by (auto simp: bindR_eq_Inr)
  moreover from outbox_run_keeps(1) [OF this(1)]
  have "(taken @ take 1 (tr_outbox t)) @ tr_outbox t' = taken @ tr_outbox t" by simp
  ultimately show ?thesis
    using outbox_run_keeps(2,3) [of mach amLog oc t calls t'] assms(1) s OutboxRun
    by (simp add: ids_inv_def event_ids_def del: out_ids_append append_assoc)
qed

lemma event_ids_Cons: "event_ids (ev # evs) = event_ids [ev] @ event_ids evs"
  by (simp add: event_ids_def)

lemma ids_inv_events:
  "ids_inv U s \<Longrightarrow> tracer_events mach evs s = Inr s' \<Longrightarrow> distinct (event_ids evs) \<Longrightarrow> set (event_ids evs) \<inter> U = {}
   \<Longrightarrow> \<forall>x \<in> set (event_ids evs). CHR ''-'' \<notin> set x \<Longrightarrow> ids_inv (U \<union> set (event_ids evs)) s'"
proof (induction evs arbitrary: U s)
  case Nil
  then show ?case by (simp add: event_ids_def)
next
  case (Cons ev evs)
  from Cons.prems(2) obtain s1 where s1: "tracer_event mach ev s = Inr s1" "tracer_events mach evs s1 = Inr s'"
    by (auto simp: bindR_eq_Inr)
  have "ids_inv (U \<union> set (event_ids [ev])) s1"
    by (rule ids_inv_event [OF Cons.prems(1) s1(1)]) (use Cons.prems(4,5) event_ids_Cons [of ev evs] in auto)
  from Cons.IH [OF this s1(2)] Cons.prems(3-5) show ?case
    by (auto simp: event_ids_Cons [of ev evs] Un_assoc)
qed

text \<open>The IDs a tracer gives to its messages are distinct, those of queued mutations included, if the machine's
  transitions have distinct IDs without a dash, whenever and however the outbox runs.\<close>

theorem message_ids_distinct:
  assumes "tracer_events mach evs ([], t) = Inr (taken, t')" "tr_outbox t = []" "tr_queued t = 0"
    "distinct (tr_lastTx t # event_ids evs)" "\<forall>x \<in> set (tr_lastTx t # event_ids evs). CHR ''-'' \<notin> set x"
  shows "distinct (out_ids (taken @ tr_outbox t'))"
proof -
  have "ids_inv {tr_lastTx t} ([], t)" using assms(2,3,5) by (simp add: ids_inv_def ids_ok_def out_ids_def)
  then have "ids_inv ({tr_lastTx t} \<union> set (event_ids evs)) (taken, t')"
    by (rule ids_inv_events [OF _ assms(1)]) (use assms(4,5) in auto)
  then show ?thesis by (simp add: ids_inv_def ids_ok_def)
qed

section \<open>Links to other debuggers\<close>

definition fwd_inv :: "fwd_sys \<Rightarrow> bool" where
  "fwd_inv s =
     (let f = fy_conn s in
      fwdBackoffMin \<le> fw_backoff f \<and> fw_backoff f \<le> fwdBackoffMax
      \<and> (if fw_cli f = None then \<exists>due \<in> set (fy_pending s). fw_nextDial f \<le> due \<and> due \<le> fy_now s + fwdBackoffMax
         else fw_nextDial f \<le> fy_now s))"

lemmas fwd_defs = fwd_inv_def Let_def fwdBackoffMin_def fwdBackoffMax_def

lemma fwd_inv_dial:
  assumes "fwd_inv s" "due \<le> fy_now s"
  shows "fwd_inv (fwd_run_dial due net push s)"
proof (cases "fw_cli (fy_conn s) = None \<and> fy_now s < fw_nextDial (fy_conn s)")
  case True
  with assms obtain d where d: "d \<in> set (fy_pending s)" "fw_nextDial (fy_conn s) \<le> d" "d \<le> fy_now s + fwdBackoffMax"
    by (auto simp: fwd_inv_def Let_def)
  with True assms(2) have "d \<in> set (remove1 due (fy_pending s))" by auto
  with True assms(1) d show ?thesis by (auto simp: fwd_inv_def Let_def fwd_run_dial_def fwd_dial_def)
next
  case False
  with assms(1) show ?thesis
    by (cases net) (auto simp: fwd_defs fwd_run_dial_def fwd_dial_def fwd_retry_def)
qed

lemma fwd_inv_call:
  assumes "fwd_inv s"
  shows "fwd_inv (fwd_run_call cli res s)"
  using assms by (cases cli; cases res) (auto simp: fwd_defs fwd_run_call_def fwd_Call_def split: if_splits)

lemma fwd_inv_step: "fwd_step s s' \<Longrightarrow> fwd_inv s \<Longrightarrow> fwd_inv s'"
proof (induction rule: fwd_step.induct)
  case (fwd_time s t)
  then show ?case by (auto simp: fwd_inv_def Let_def split: if_splits)
qed (auto intro: fwd_inv_dial fwd_inv_call)

lemma fwd_inv_reach: "fwd_reach s \<Longrightarrow> fwd_inv s"
proof (induction rule: fwd_reach.induct)
  case (fwd_start t)
  then show ?case by (simp add: fwd_defs newFwdConn_def)
qed (rule fwd_inv_step)

text \<open>C26. A link to another debugger that is down has a goroutine ahead, within the longest backoff, that dials: once it
  runs, and the other one accepts the connection and the schemas replayed, the link is up. This holds whatever calls, dials
  and failures came before.\<close>

theorem fwd_never_gives_up:
  assumes "fwd_reach s" "fw_cli (fy_conn s) = None"
  shows "\<exists>due \<in> set (fy_pending s). due \<le> fy_now s + fwdBackoffMax
    \<and> (\<forall>t cli. fy_now s \<le> t \<longrightarrow> due \<le> t
         \<longrightarrow> fw_cli (fy_conn (fwd_run_dial due (Some cli) None (s\<lparr>fy_now := t\<rparr>))) = Some cli)"
proof -
  from fwd_inv_reach [OF assms(1)] assms(2) obtain due
    where due: "due \<in> set (fy_pending s)" "fw_nextDial (fy_conn s) \<le> due" "due \<le> fy_now s + fwdBackoffMax"
    by (auto simp: fwd_inv_def Let_def)
  with assms(2) have "fw_cli (fy_conn (fwd_run_dial due (Some cli) None (s\<lparr>fy_now := t\<rparr>))) = Some cli" if "due \<le> t" for t cli
    using that by (simp add: fwd_run_dial_def fwd_dial_def)
  with due show ?thesis by blast
qed

theorem fwd_never_gives_up_witness:
  "\<exists>due \<in> set (fy_pending (fwd_run_dial 7 None None \<lparr>fy_conn = newFwdConn, fy_pending = [7], fy_now = 7\<rparr>)).
     \<forall>t cli. 7 \<le> t \<longrightarrow> due \<le> t
       \<longrightarrow> fw_cli (fy_conn (fwd_run_dial due (Some cli) None
             (fwd_run_dial 7 None None \<lparr>fy_conn = newFwdConn, fy_pending = [7], fy_now = 7\<rparr>\<lparr>fy_now := t\<rparr>))) = Some cli"
proof -
  let ?s0 = "\<lparr>fy_conn = newFwdConn, fy_pending = [7], fy_now = 7\<rparr>"
  have "fwd_step ?s0 (fwd_run_dial 7 None None ?s0)" by (rule fwd_dials) simp_all
  then have "fwd_reach (fwd_run_dial 7 None None ?s0)" by (rule fwd_next [OF fwd_start, rotated]) simp
  moreover have "fw_cli (fy_conn (fwd_run_dial 7 None None ?s0)) = None" "fy_now (fwd_run_dial 7 None None ?s0) = 7"
    by (simp_all add: fwd_run_dial_def fwd_dial_def fwd_retry_def newFwdConn_def Let_def)
  ultimately show ?thesis using fwd_never_gives_up [of "fwd_run_dial 7 None None ?s0"] by auto
qed

section \<open>Protocol\<close>

text \<open>What happens to the server's queue: a message that is received over a connection, and the goroutine that passes the
  queue on, which runs only when it is scheduled.\<close>

datatype srv_act = SrvRecv int string "string option list" DbgMsgTx | SrvFlush

fun srv_run :: "srv_act list \<Rightarrow> DbgServer \<Rightarrow> srv_call list \<times> DbgServer" where
  "srv_run [] s = ([], s)"
| "srv_run (SrvRecv now connId hosts msg # acts) s = srv_run acts (snd (rpc_DbgMsgTx now connId hosts msg s))"
| "srv_run (SrvFlush # acts) s =
     (if rs_scheduled s then case rpc_flush s of (call, s1) \<Rightarrow> case srv_run acts s1 of (calls, s2) \<Rightarrow> (call # calls, s2)
      else srv_run acts s)"

fun call_msgs :: "srv_call \<Rightarrow> (DbgMsgTx \<times> string) list" where
  "call_msgs (SrvClientMsg msgs connIds) = zip msgs connIds"
| "call_msgs _ = []"

fun recv_msgs :: "srv_act \<Rightarrow> (DbgMsgTx \<times> string) list" where
  "recv_msgs (SrvRecv now connId hosts msg) = [(msg\<lparr>dt_Time := Some now\<rparr>, connId)]"
| "recv_msgs SrvFlush = []"

definition srv_inv :: "DbgServer \<Rightarrow> bool" where
  "srv_inv s = (length (rs_queue s) = length (rs_queueConnId s) \<and> rs_scheduled s = (rs_queue s \<noteq> []))"

lemma srv_run_once:
  "srv_inv s \<Longrightarrow> srv_run acts s = (calls, s') \<Longrightarrow>
   srv_inv s' \<and> concat (map call_msgs calls) @ zip (rs_queue s') (rs_queueConnId s')
     = zip (rs_queue s) (rs_queueConnId s) @ concat (map recv_msgs acts)"
proof (induction acts s arbitrary: calls s' rule: srv_run.induct)
  case (2 now connId hosts msg acts s)
  then show ?case by (simp add: srv_inv_def rpc_DbgMsgTx_def)
next
  case (3 acts s)
  show ?case
  proof (cases "rs_scheduled s")
    case True
    obtain call s1 calls1 s2 where run: "rpc_flush s = (call, s1)" "srv_run acts s1 = (calls1, s2)" by (metis surj_pair)
    have s1: "call = SrvClientMsg (rs_queue s) (rs_queueConnId s)" "rs_queue s1 = []" "rs_queueConnId s1 = []" "srv_inv s1"
      using run(1) by (auto simp: rpc_flush_def srv_inv_def)
    have "calls = call # calls1" "s' = s2" using 3(4) True run by auto
    with 3(1) [OF True run(1) [symmetric] s1(4) run(2)] s1 show ?thesis by simp
  next
    case False
    with 3(4) have "srv_run acts s = (calls, s')" by simp
    from 3(2) [OF False 3(3) this] show ?thesis by simp
  qed
qed simp

text \<open>Every message received is passed on once, in the order of reception and with its connection, or is in the queue with
  a goroutine scheduled to pass it on; a forward that fails changes nothing of this.\<close>

theorem received_passed_on_once:
  assumes "srv_run acts DbgServer_zero = (calls, s)"
  shows "concat (map call_msgs calls) @ zip (rs_queue s) (rs_queueConnId s) = concat (map recv_msgs acts)"
    "rs_queue s \<noteq> [] \<longleftrightarrow> rs_scheduled s" "length (rs_queue s) = length (rs_queueConnId s)"
proof -
  have "srv_inv DbgServer_zero" by (simp add: srv_inv_def DbgServer_zero_def)
  note srv_run_once [OF this assms]
  then show "concat (map call_msgs calls) @ zip (rs_queue s) (rs_queueConnId s) = concat (map recv_msgs acts)"
    "rs_queue s \<noteq> [] \<longleftrightarrow> rs_scheduled s" "length (rs_queue s) = length (rs_queueConnId s)"
    by (simp_all add: srv_inv_def DbgServer_zero_def)
qed

text \<open>Messages sent by a connected tracer, each answered by the server; \<open>hosts\<close> are the results of its forwards.\<close>

fun tracer_sends :: "DbgMach \<Rightarrow> int \<Rightarrow> string \<Rightarrow> string option list \<Rightarrow> DbgMsgTx list \<Rightarrow> DbgTracer \<times> DbgServer
    \<Rightarrow> (DbgTracer \<times> DbgServer) res" where
  "tracer_sends mach now connId hosts [] ts = Inr ts"
| "tracer_sends mach now connId hosts (msg # msgs) (t, s) =
     (case rpc_DbgMsgTx now connId hosts msg s of (reply, s1) \<Rightarrow>
        bindR (outbox_fn_run mach False \<lparr>oc_dial = True, oc_schema = None, oc_tx = reply\<rparr> (OutTx msg) t) (\<lambda>(calls, t1).
          tracer_sends mach now connId hosts msgs (t1, s1)))"

lemma fwd_hosts_fails: "Some err \<in> set hosts \<Longrightarrow> fwd_hosts hosts \<noteq> None"
  by (induction hosts rule: fwd_hosts.induct) auto

lemma tracer_sends_counts:
  "tr_c t \<Longrightarrow> Some err \<in> set hosts \<Longrightarrow> \<exists>s'. tracer_sends mach now connId hosts msgs (t, s)
      = Inr (t\<lparr>tr_errCount := tr_errCount t + int (length msgs)\<rparr>, s')
    \<and> rs_queue s' = rs_queue s @ map (\<lambda>m. m\<lparr>dt_Time := Some now\<rparr>) msgs"
proof (induction msgs arbitrary: t s)
  case (Cons msg msgs)
  let ?t = "t\<lparr>tr_errCount := tr_errCount t + 1\<rparr>" and ?s = "snd (rpc_DbgMsgTx now connId hosts msg s)"
  have "outbox_fn_run mach False \<lparr>oc_dial = True, oc_schema = None, oc_tx = fwd_hosts hosts\<rparr> (OutTx msg) t = Inr ([CallTx msg], ?t)"
    using Cons.prems fwd_hosts_fails [OF Cons.prems(2)] by (simp add: outbox_fn_run_def client_sendMsgTx_def count_err_def)
  then have "tracer_sends mach now connId hosts (msg # msgs) (t, s) = tracer_sends mach now connId hosts msgs (?t, ?s)"
    by (simp add: rpc_DbgMsgTx_def)
  moreover obtain s' where "tracer_sends mach now connId hosts msgs (?t, ?s)
      = Inr (?t\<lparr>tr_errCount := tr_errCount ?t + int (length msgs)\<rparr>, s')"
    "rs_queue s' = rs_queue ?s @ map (\<lambda>m. m\<lparr>dt_Time := Some now\<rparr>) msgs"
    using Cons.IH [of ?t ?s] Cons.prems by auto
  ultimately show ?case by (simp add: rpc_DbgMsgTx_def)
qed simp

text \<open>A debugger with one forward that is down takes every message and queues it, but answers with the error of the
  forward. After eleven messages the tracer of the machine counts too many errors and detaches itself.\<close>

theorem down_forward_detaches:
  assumes "tr_c t" "tr_errCount t = 0" "\<not> tr_exited t" "Some err \<in> set hosts" "length msgs = 11"
  shows "\<exists>t1 s1. tracer_sends mach now connId hosts msgs (t, s) = Inr (t1, s1)
    \<and> rs_queue s1 = rs_queue s @ map (\<lambda>m. m\<lparr>dt_Time := Some now\<rparr>) msgs
    \<and> dbg_TransitionEnd mach tx txId steps logs preLogs t1 = Inr (True, t1\<lparr>tr_exited := True\<rparr>)"
  using tracer_sends_counts [OF assms(1,4), of mach now connId msgs s] assms(2,3,5)
  by (auto simp: dbg_TransitionEnd_def)

end
