(* ===== verification/Am_Debugger_Facts.thy ===== *)
theory Am_Debugger_Facts
  imports Am_Debugger_Run Am_Dbg_Facts
begin

text \<open>
  What the debugger guarantees about what it shows: the cursor lands on the nearest transition that the filters let
  through, the lists kept per client stay aligned over every run, and a pipe that a machine logs reaches the log reader.
  Where it falls short: the history drops its newest addresses, its cursor can leave it, the pipes a machine had before
  it connected are lost, \<open>WhenTime\<close> of two states never matches.
\<close>

section \<open>Samples\<close>

text \<open>A machine \<open>m\<close> with two states, as the debugger knows it after three messages, of which a filter lets two through.\<close>

definition sample_schema :: DbgMsgStruct where
  "sample_schema = \<lparr>ds_ID = ''m'', ds_StatesIndex = [''A'', ''B''], ds_States = [], ds_Groups = [], ds_GroupsOrder = [],
     ds_Parent = [], ds_Tags = []\<rparr>"

definition sample_client :: DbgClient where
  "sample_client = \<lparr>dc_MsgStruct = sample_schema, dc_MsgTxs = replicate 3 DbgMsgTx_zero, dc_Markers = [], dc_Id = ''m'',
     dc_MTimeSum = 0, dc_SelectedGroup = [], dc_Connected = True, dc_ConnId = ''conn'', dc_SchemaHash = [],
     dc_MsgTxsFiltered = [0, 2], dc_LogMsgs = [], dc_Errors = [], dc_MsgTxsParsed = [],
     dc_MsgSchemaParsed = \<lparr>sp_Groups = [], sp_GroupsOrder = [], sp_Hash = []\<rparr>, dc_txCache = [], dc_CursorTx1 = 0,
     dc_SelectedState = [], dc_LogReader = []\<rparr>"

definition empty_debugger :: Debugger where
  "empty_debugger = \<lparr>dg_store = [], dg_next = 0, dg_Clients = [], dg_C = None, dg_History = [], dg_HistoryCursor = 0,
     dg_markers = [], dg_lastScrolledTxTime = 0, dg_msgsDelayed = [], dg_msgsDelayedConns = [], dg_selectedGroup = GroupVal [],
     dg_selectedState = [], dg_CleanOnConnect = True, dg_SelectConnected = False\<rparr>"

section \<open>Cursor\<close>

definition shown :: "(string \<Rightarrow> bool) \<Rightarrow> DbgClient \<Rightarrow> int \<Rightarrow> bool" where
  "shown is c k = (1 \<le> k \<and> k \<le> int (length (dc_MsgTxs c)) \<and> \<not> hIsTxSkipped is c (k - 1))"

lemma filter_cursor_back:
  "n \<le> int (length (dc_MsgTxs c)) \<Longrightarrow>
   (filter_cursor is c n True = 0 \<and> (\<forall>k \<le> n. \<not> shown is c k))
   \<or> (shown is c (filter_cursor is c n True) \<and> filter_cursor is c n True \<le> n
      \<and> (\<forall>k. filter_cursor is c n True < k \<longrightarrow> k \<le> n \<longrightarrow> \<not> shown is c k))"
proof (induction "nat n" arbitrary: n)
  case 0
  then have "filter_cursor is c n True = 0" by (subst filter_cursor.simps) simp
  with 0 show ?case by (auto simp: shown_def)
next
  case (Suc m)
  then have n: "1 \<le> n" by simp
  show ?case
  proof (cases "hIsTxSkipped is c (n - 1)")
    case True
    then have eq: "filter_cursor is c n True = filter_cursor is c (n - 1) True"
      using n Suc.prems by (subst filter_cursor.simps) simp
    have skip: "\<not> shown is c n" using True by (simp add: shown_def)
    have "m = nat (n - 1)" using Suc.hyps(2) by simp
    from Suc.hyps(1) [OF this] Suc.prems eq skip show ?thesis
      by (smt (verit))
  next
    case False
    then have "filter_cursor is c n True = n" using n Suc.prems by (subst filter_cursor.simps) simp
    with False n Suc.prems show ?thesis by (simp add: shown_def)
  qed
qed

lemma filter_cursor_fwd:
  "1 \<le> n \<Longrightarrow>
   (filter_cursor is c n False = (if \<not> hIsTxSkipped is c (dc_CursorTx1 c - 1) then dc_CursorTx1 c else 0) \<and> (\<forall>k \<ge> n. \<not> shown is c k))
   \<or> (shown is c (filter_cursor is c n False) \<and> n \<le> filter_cursor is c n False
      \<and> (\<forall>k. n \<le> k \<longrightarrow> k < filter_cursor is c n False \<longrightarrow> \<not> shown is c k))"
proof (induction "nat (int (length (dc_MsgTxs c)) + 1 - n)" arbitrary: n)
  case 0
  then have "filter_cursor is c n False = (if \<not> hIsTxSkipped is c (dc_CursorTx1 c - 1) then dc_CursorTx1 c else 0)"
    by (subst filter_cursor.simps) simp
  moreover from 0 have "\<forall>k \<ge> n. \<not> shown is c k" by (auto simp: shown_def)
  ultimately show ?case by blast
next
  case (Suc m)
  then have n: "n \<le> int (length (dc_MsgTxs c))" by simp
  show ?case
  proof (cases "hIsTxSkipped is c (n - 1)")
    case True
    then have eq: "filter_cursor is c n False = filter_cursor is c (n + 1) False"
      using n Suc.prems by (subst filter_cursor.simps) simp
    have skip: "\<not> shown is c n" using True by (simp add: shown_def)
    have "m = nat (int (length (dc_MsgTxs c)) + 1 - (n + 1))" using Suc.hyps(2) by simp
    from Suc.hyps(1) [OF this] Suc.prems eq skip show ?thesis
      by (smt (verit))
  next
    case False
    then have "filter_cursor is c n False = n" using n Suc.prems by (subst filter_cursor.simps) simp
    with False n Suc.prems show ?thesis by (simp add: shown_def)
  qed
qed

text \<open>C28. With filters on, a cursor asked for within the list of transitions (from 1 to their number) is moved back to the nearest
  transition at or before it that passes the filters, and forward to the nearest one at or after it, if there is one.\<close>

theorem cursor_lands_on_shown:
  assumes "filtersActive is" "1 \<le> n" "n \<le> int (length (dc_MsgTxs c))"
  shows "((\<exists>k \<le> n. shown is c k) \<longrightarrow>
      (let r = hFilterTxCursor1 is c n True in shown is c r \<and> r \<le> n \<and> (\<forall>k. shown is c k \<and> k \<le> n \<longrightarrow> k \<le> r)))
    \<and> ((\<exists>k \<ge> n. shown is c k) \<longrightarrow>
      (let r = hFilterTxCursor1 is c n False in shown is c r \<and> n \<le> r \<and> (\<forall>k. shown is c k \<and> n \<le> k \<longrightarrow> r \<le> k)))"
proof -
  have eq: "hFilterTxCursor1 is c n b = filter_cursor is c n b" for b using assms(1) by (simp add: hFilterTxCursor1_def)
  from filter_cursor_back [OF assms(3), of "is"] filter_cursor_fwd [OF assms(2), of "is" c] show ?thesis
    unfolding eq Let_def by (meson not_le_imp_less)
qed

theorem cursor_lands_on_shown_witness:
  "hFilterTxCursor1 (\<lambda>s. s = ''FilterEmptyTx'') sample_client 2 True = 1
   \<and> hFilterTxCursor1 (\<lambda>s. s = ''FilterEmptyTx'') sample_client 2 False = 3"
proof -
  let ?is = "\<lambda>s. s = ''FilterEmptyTx''"
  have on: "filtersActive ?is" by (simp add: filtersActive_def groupFilters_def)
  then have shown: "shown ?is sample_client k \<longleftrightarrow> k = 1 \<or> k = 3" for k
    by (auto simp: shown_def hIsTxSkipped_def sample_client_def)
  have "1 \<le> (2 :: int)" "2 \<le> int (length (dc_MsgTxs sample_client))" by (simp_all add: sample_client_def)
  note lands = cursor_lands_on_shown [OF on this, unfolded Let_def]
  have "shown ?is sample_client 1" "shown ?is sample_client 3" using shown by blast+
  moreover have "(1 :: int) \<le> 2" "(2 :: int) \<le> 3" by simp_all
  ultimately have "\<exists>k \<le> 2. shown ?is sample_client k" "\<exists>k \<ge> 2. shown ?is sample_client k" by blast+
  then have "shown ?is sample_client (hFilterTxCursor1 ?is sample_client 2 True)" "hFilterTxCursor1 ?is sample_client 2 True \<le> 2"
    "shown ?is sample_client (hFilterTxCursor1 ?is sample_client 2 False)" "2 \<le> hFilterTxCursor1 ?is sample_client 2 False"
    using lands by blast+
  then show ?thesis unfolding shown by linarith
qed

text \<open>Without such a transition the cursor becomes 0 when it is moved back, where the comment on the function promises the current
  one; moved forward it stays at the current one only if that passes the filters, and becomes 0 otherwise.\<close>

theorem cursor_none_shown:
  assumes "filtersActive is" "1 \<le> n" "n \<le> int (length (dc_MsgTxs c))"
  shows "(\<forall>k \<le> n. \<not> shown is c k) \<Longrightarrow> hFilterTxCursor1 is c n True = 0"
    "(\<forall>k \<ge> n. \<not> shown is c k) \<Longrightarrow>
      hFilterTxCursor1 is c n False = (if \<not> hIsTxSkipped is c (dc_CursorTx1 c - 1) then dc_CursorTx1 c else 0)"
proof -
  have eq: "hFilterTxCursor1 is c n b = filter_cursor is c n b" for b using assms(1) by (simp add: hFilterTxCursor1_def)
  from filter_cursor_back [OF assms(3), of "is"] filter_cursor_fwd [OF assms(2), of "is" c]
  show "(\<forall>k \<le> n. \<not> shown is c k) \<Longrightarrow> hFilterTxCursor1 is c n True = 0"
    "(\<forall>k \<ge> n. \<not> shown is c k) \<Longrightarrow>
      hFilterTxCursor1 is c n False = (if \<not> hIsTxSkipped is c (dc_CursorTx1 c - 1) then dc_CursorTx1 c else 0)"
    unfolding eq by blast+
qed

text \<open>A filter that is on for checks, or for machines of RPC, but is not in the group of filters: nothing is skipped.\<close>

theorem checks_not_skipped:
  assumes "\<And>s. is s \<Longrightarrow> s \<in> {''FilterChecks'', ''FilterRpcMachs''}"
  shows "\<not> hIsTxSkipped is c idx" "hFilterClientTxs is d = Inr d"
proof -
  have "\<not> filtersActive is" using assms by (auto simp: filtersActive_def groupFilters_def)
  then show "\<not> hIsTxSkipped is c idx" "hFilterClientTxs is d = Inr d"
    by (simp_all add: hIsTxSkipped_def hFilterClientTxs_def split: option.split)
qed

text \<open>The cursor that leaves position \<open>0\<close>: a transition is selected, yet the state \<open>TxSelected\<close> is removed and the
  time last scrolled to is unset, as the handler looks at the transition selected before.\<close>

theorem first_selection_unmarked:
  assumes "hSetCursor1 fmtTime is args d = Inr (calls, d')" "hCurrentTx d = None"
  shows "calls = [DgRemove ''TxSelected'']" "dg_lastScrolledTxTime d' = 0"
  using assms by (auto simp: hSetCursor1_def Let_def bindR_eq_Inr split: option.splits)

text \<open>The parents of a machine that names itself as its parent: the recursion never ends.\<close>

theorem own_parent_never_returns:
  assumes "dg_get d r = Inr c" "gget (dg_Clients d) (ds_Parent (dc_MsgStruct c)) = Some r"
  shows "hGetParentTags n d r tags = Inl OutOfFuel"
  by (induction n arbitrary: tags) (simp_all add: assms)

section \<open>History\<close>

text \<open>A new address on a full history: what is kept is the oldest address, the hundred newest are dropped, the new one
  with them.\<close>

theorem full_history_keeps_oldest:
  assumes "length (dg_History d) = 100" "dg_HistoryCursor d = 0"
    "StringBase fmtTime (Some (hd (dg_History d))) \<noteq> StringBase fmtTime (Some addr)"
  shows "dg_History (hPrependHistory fmtTime addr d) = [last (dg_History d)]"
proof -
  have "drop 100 (addr # dg_History d) = drop 99 (dg_History d)" by (simp add: numeral_eq_Suc)
  also have "\<dots> = [last (dg_History d)]"
  proof -
    have "length (drop 99 (dg_History d)) = 1" using assms(1) by simp
    then obtain a where a: "drop 99 (dg_History d) = [a]" by (metis One_nat_def length_0_conv length_Suc_conv)
    then have "a = last (dg_History d)" by (metis last_drop last_ConsL length_drop list.size(3) zero_less_diff length_greater_0_conv list.distinct(1))
    with a show ?thesis by simp
  qed
  finally show ?thesis
    using assms by (cases "dg_History d") (auto simp: hPrependHistory_def hTrimHistory_def Let_def)
qed

text \<open>The cursor of the history after the removal of a client with many addresses: it is beyond the end, and the button
  for the next address panics.\<close>

definition addr_of :: "string \<Rightarrow> MachAddress" where
  "addr_of mach = MachAddress_zero\<lparr>ma_MachId := mach\<rparr>"

theorem history_cursor_leaves:
  assumes "dg_History d = replicate 9 (addr_of ''a'') @ [addr_of ''b'']" "dg_HistoryCursor d = 9"
  shows "dg_History (hRemoveClient ''a'' d) = [addr_of ''b'']" "dg_HistoryCursor (hRemoveClient ''a'' d) = 4"
    "histNext (hRemoveClient ''a'' d) = Inl out_of_range"
proof -
  have "remove_history ''a'' 0 9 (replicate 9 (addr_of ''a'') @ [addr_of ''b'']) = ([addr_of ''b''], 4)"
    by code_simp
  then show "dg_History (hRemoveClient ''a'' d) = [addr_of ''b'']" "dg_HistoryCursor (hRemoveClient ''a'' d) = 4"
    "histNext (hRemoveClient ''a'' d) = Inl out_of_range"
    using assms by (simp_all add: hRemoveClient_def hRemoveHistory_def histNext_def sget_def Let_def)
qed

section \<open>Log reader\<close>

lemma HasPrefix_append: "strings_HasPrefix (p @ s) p"
  by (simp add: strings_HasPrefix_def)

lemma HasPrefix_hd: "strings_HasPrefix s (p # ps) \<Longrightarrow> s \<noteq> [] \<and> hd s = p"
  by (cases s) (auto simp: strings_HasPrefix_def)

lemma str_cut_first: "p \<notin> set a \<Longrightarrow> str_cut (p # ps) (a @ p # ps @ b) = Some (a, b)"
proof (induction a)
  case Nil
  then show ?case using HasPrefix_append [of "p # ps" b] by simp
next
  case (Cons x a)
  then have "\<not> strings_HasPrefix (x # a @ p # ps @ b) (p # ps)" by (auto dest: HasPrefix_hd)
  with Cons show ?case by simp
qed

lemma str_cut_none: "p \<notin> set s \<Longrightarrow> str_cut (p # ps) s = None"
proof (induction s)
  case (Cons x s)
  then have "\<not> strings_HasPrefix (x # s) (p # ps)" by (auto dest: HasPrefix_hd)
  with Cons show ?case by simp
qed simp

lemma Split_one: "p \<notin> set s \<Longrightarrow> strings_Split s (p # ps) = [s]"
  by (subst strings_Split.simps) (simp add: str_cut_none)

lemma Split_two: "p \<notin> set a \<Longrightarrow> p \<notin> set b \<Longrightarrow> strings_Split (a @ p # ps @ b) (p # ps) = [a, b]"
  by (subst strings_Split.simps) (simp add: str_cut_first Split_one)

lemma Trim_none: "set s \<inter> set cs = {} \<Longrightarrow> strings_Trim s cs = s"
proof -
  assume "set s \<inter> set cs = {}"
  then have "dropWhile (\<lambda>c. c \<in> set cs) s = s" "dropWhile (\<lambda>c. c \<in> set cs) (rev s) = rev s"
    by (auto simp: dropWhile_eq_self_iff hd_rev) (metis disjoint_iff hd_in_set, metis disjoint_iff last_in_set)
  then show ?thesis by (simp add: strings_Trim_def)
qed

text \<open>Names that the lines of a log can carry.\<close>

definition plain_name :: "string \<Rightarrow> bool" where
  "plain_name s = (s \<noteq> [] \<and> set s \<inter> {CHR '' '', CHR ''['', CHR '']''} = {})"

text \<open>The pipe as the log reader has it.\<close>

definition pipe_entry :: "DbgClient \<Rightarrow> Pipe \<Rightarrow> LogReaderEntry" where
  "pipe_entry c p =
     (let out = (pp_SourceState p \<noteq> []) in
      (reader_entry (if out then LogReaderPipeOut else LogReaderPipeIn)
         [slices_Index (client_index c) (if out then pp_SourceState p else pp_TargetState p)] (dc_MTimeSum c))
        \<lparr>lr_Pipe := (if pp_IsAdd p then MutationAdd else MutationRemove),
         lr_Mach := (if out then pp_TargetMach p else pp_SourceMach p)\<rparr>)"

lemma pipe_body:
  assumes "plain_name state" "plain_name mach"
  shows "strings_Split (state @ '' to '' @ mach) '' to '' = [state, mach]"
    "strings_Split (state @ '' from '' @ mach) '' from '' = [state, mach]"
    "strings_Split (strings_Trim state ''[]'') '' '' = [state]"
  using assms Split_two [of "CHR '' ''" state mach "''to ''"] Split_two [of "CHR '' ''" state mach "''from ''"]
  by (auto simp: plain_name_def Trim_none Split_one)

lemma reader_pipe_out:
  assumes "plain_name state" "plain_name mach"
  shows "reader_pipe d r True isAdd (state @ '' to '' @ mach) tx es
     = reader_new d r tx (\<lambda>c. (new_states LogReaderPipeOut [state] c)
         \<lparr>lr_Pipe := (if isAdd then MutationAdd else MutationRemove), lr_Mach := mach\<rparr>) es"
  unfolding reader_pipe_def Let_def if_True pipe_body(1) [OF assms] by (simp add: sget_def pipe_body(3) [OF assms])

lemma reader_pipe_in:
  assumes "plain_name state" "plain_name mach"
  shows "reader_pipe d r False isAdd (state @ '' from '' @ mach) tx es
     = reader_new d r tx (\<lambda>c. (new_states LogReaderPipeIn [state] c)
         \<lparr>lr_Pipe := (if isAdd then MutationAdd else MutationRemove), lr_Mach := mach\<rparr>) es"
  unfolding reader_pipe_def Let_def if_False pipe_body(2) [OF assms] by (simp add: sget_def pipe_body(3) [OF assms])

lemma parse_pipe_out:
  "parseMsgReader d r \<lparr>le_Level = lvl, le_Text = ''[pipe-out:'' @ pipe_kind isAdd @ ''] '' @ body\<rparr> es tx
   = reader_pipe d r True isAdd body tx es"
  by (cases isAdd) (simp_all add: parseMsgReader_def pipe_kind_def strings_HasPrefix_def)

lemma parse_pipe_in:
  "parseMsgReader d r \<lparr>le_Level = lvl, le_Text = ''[pipe-in:'' @ pipe_kind isAdd @ ''] '' @ body\<rparr> es tx
   = reader_pipe d r False isAdd body tx es"
  by (cases isAdd) (simp_all add: parseMsgReader_def pipe_kind_def strings_HasPrefix_def)

lemma dg_get_put [simp]: "dg_get (dg_put r c d) r' = (if r' = r then Inr c else dg_get d r')"
  by (simp add: dg_get_def dg_put_def)

lemma GetReaderEntry_added:
  "AddReaderEntry c txId e = (idx, c') \<Longrightarrow> GetReaderEntry c' txId idx = Some e"
  by (auto simp: AddReaderEntry_def GetReaderEntry_def Let_def)

definition pipe_ok :: "Pipe \<Rightarrow> bool" where
  "pipe_ok p = (if pp_SourceState p \<noteq> [] then plain_name (pp_SourceState p) \<and> plain_name (pp_TargetMach p)
                else plain_name (pp_TargetState p) \<and> plain_name (pp_SourceMach p))"

lemma parse_pipe_text:
  assumes "pipe_ok p"
  shows "parseMsgReader d r \<lparr>le_Level = LogOps, le_Text = pipe_text p\<rparr> es tx = reader_new d r tx (\<lambda>c. pipe_entry c p) es"
proof (cases "pp_SourceState p = []")
  case True
  with assms have ok: "plain_name (pp_TargetState p)" "plain_name (pp_SourceMach p)" by (simp_all add: pipe_ok_def)
  from True have "pipe_text p = ''[pipe-in:'' @ pipe_kind (pp_IsAdd p) @ ''] '' @ (pp_TargetState p @ '' from '' @ pp_SourceMach p)"
    by (simp add: pipe_text_def)
  then have "parseMsgReader d r \<lparr>le_Level = LogOps, le_Text = pipe_text p\<rparr> es tx
      = reader_pipe d r False (pp_IsAdd p) (pp_TargetState p @ '' from '' @ pp_SourceMach p) tx es"
    by (simp only: parse_pipe_in)
  with True show ?thesis
    by (simp only: reader_pipe_in [OF ok]) (simp add: pipe_entry_def new_states_def dbg_StatesToIndexes_def Let_def)
next
  case False
  with assms have ok: "plain_name (pp_SourceState p)" "plain_name (pp_TargetMach p)" by (simp_all add: pipe_ok_def)
  from False have "pipe_text p = ''[pipe-out:'' @ pipe_kind (pp_IsAdd p) @ ''] '' @ (pp_SourceState p @ '' to '' @ pp_TargetMach p)"
    by (simp add: pipe_text_def)
  then have "parseMsgReader d r \<lparr>le_Level = LogOps, le_Text = pipe_text p\<rparr> es tx
      = reader_pipe d r True (pp_IsAdd p) (pp_SourceState p @ '' to '' @ pp_TargetMach p) tx es"
    by (simp only: parse_pipe_out)
  with False show ?thesis
    by (simp only: reader_pipe_out [OF ok]) (simp add: pipe_entry_def new_states_def dbg_StatesToIndexes_def Let_def)
qed

text \<open>Lines logged by a machine: about pipes, or others the log reader takes nothing from.\<close>

datatype log_line = PipeLine Pipe | OtherLine int string

fun line_level :: "log_line \<Rightarrow> int" where
  "line_level (PipeLine p) = LogOps"
| "line_level (OtherLine level msg) = level"

fun line_msg :: "log_line \<Rightarrow> string" where
  "line_msg (PipeLine p) = pipe_text p"
| "line_msg (OtherLine level msg) = msg"

fun pipes_of :: "log_line list \<Rightarrow> Pipe list" where
  "pipes_of [] = []"
| "pipes_of (PipeLine p # ls) = p # pipes_of ls"
| "pipes_of (OtherLine level msg # ls) = pipes_of ls"

definition unread :: "string \<Rightarrow> bool" where
  "unread msg = (\<forall>level d r es tx. parseMsgReader d r \<lparr>le_Level = level, le_Text = msg\<rparr> es tx = Inr ([], es, d))"

fun line_ok :: "log_line \<Rightarrow> bool" where
  "line_ok (PipeLine p) = pipe_ok p"
| "line_ok (OtherLine level msg) = unread msg"

fun log_lines :: "log_line list \<Rightarrow> MachLog \<Rightarrow> MachLog" where
  "log_lines [] l = l"
| "log_lines (x # xs) l = log_lines xs (logEv None (line_level x) (line_msg x) l)"

definition logged :: "MachLog \<Rightarrow> LogEntry list" where
  "logged l = (if lg_inTx l then lg_txEntries l else lg_logEntries l)"

definition line_entry :: "MachLog \<Rightarrow> log_line \<Rightarrow> LogEntry" where
  "line_entry l x = \<lparr>le_Level = line_level x, le_Text = log_prefix (lg_logId l) (lg_id l) None @ line_msg x\<rparr>"

lemma pipes_of_append [simp]: "pipes_of (xs @ ys) = pipes_of xs @ pipes_of ys"
  by (induction xs rule: pipes_of.induct) simp_all

lemma logEv_config:
  "lg_Level (logEv ev level msg l) = lg_Level l" "lg_disposing (logEv ev level msg l) = lg_disposing l"
  "lg_logId (logEv ev level msg l) = lg_logId l" "lg_id (logEv ev level msg l) = lg_id l" "lg_inTx (logEv ev level msg l) = lg_inTx l"
  by (simp_all add: logEv_def Let_def)

lemma logEv_line:
  assumes "LogOps \<le> lg_Level l" "\<not> lg_disposing l"
  obtains k where "logged (logEv None (line_level x) (line_msg x) l) = logged l @ map (line_entry l) k"
    "pipes_of k = pipes_of [x]" "set k \<subseteq> {x}"
proof (cases "logged (logEv None (line_level x) (line_msg x) l) = logged l")
  case True
  have "\<exists>level msg. x = OtherLine level msg"
  proof (cases x)
    case (PipeLine p)
    have "strings_HasPrefix (pre @ pipe_text p) (pre @ ''[pipe-'')" for pre
      by (simp add: strings_HasPrefix_def pipe_text_def)
    with True assms PipeLine show ?thesis by (auto simp: logEv_def logged_def Let_def split: if_split_asm)
  qed simp
  with True that [of "[]"] show thesis by auto
next
  case False
  then have "logged (logEv None (line_level x) (line_msg x) l) = logged l @ map (line_entry l) [x]"
    by (auto simp: logEv_def logged_def line_entry_def Let_def split: if_splits)
  then show thesis by (rule that) simp_all
qed

lemma log_lines_kept:
  assumes "LogOps \<le> lg_Level l" "\<not> lg_disposing l"
  shows "\<exists>xs. logged (log_lines ls l) = logged l @ map (line_entry l) xs \<and> pipes_of xs = pipes_of ls \<and> set xs \<subseteq> set ls
    \<and> lg_inTx (log_lines ls l) = lg_inTx l"
  using assms
proof (induction ls arbitrary: l)
  case Nil
  show ?case by (intro exI [of _ "[]"]) simp
next
  case (Cons x ls)
  let ?l = "logEv None (line_level x) (line_msg x) l"
  obtain k where k: "logged ?l = logged l @ map (line_entry l) k" "pipes_of k = pipes_of [x]" "set k \<subseteq> {x}"
    using logEv_line [OF Cons.prems] by blast
  have e: "line_entry ?l = line_entry l" by (rule ext) (simp add: line_entry_def logEv_config)
  obtain xs where xs: "logged (log_lines ls ?l) = logged ?l @ map (line_entry l) xs" "pipes_of xs = pipes_of ls" "set xs \<subseteq> set ls"
    "lg_inTx (log_lines ls ?l) = lg_inTx ?l"
    using Cons.IH [of ?l] Cons.prems unfolding e by (auto simp: logEv_config)
  have "pipes_of (k @ xs) = pipes_of (x # ls)" using k(2) xs(2) pipes_of_append [of "[x]" ls] by simp
  with k xs show ?case by (intro exI [of _ "k @ xs"]) (auto simp: logEv_config)
qed

definition sent_entry :: "log_line \<Rightarrow> LogEntry option" where
  "sent_entry x = Some \<lparr>le_Level = line_level x, le_Text = line_msg x\<rparr>"

lemma sent_lines:
  assumes "lg_logId l = dm_IsId mach" "lg_id l = dm_Id mach"
  shows "removeLogPrefix mach (map Some (map (line_entry l) xs)) = map sent_entry xs"
  using removeLogPrefix_lines [of mach line_level line_msg xs] assms by (simp add: line_entry_def sent_entry_def comp_def)

lemma GetReaderEntry_stays:
  assumes "AddReaderEntry c txId e = (idx, c')" "GetReaderEntry c t i = Some x"
  shows "GetReaderEntry c' t i = Some x"
proof -
  have "ggetd [] m k = (case gget m k of None \<Rightarrow> [] | Some v \<Rightarrow> v)" for m :: "(string, LogReaderEntry list) gomap" and k
    by (simp add: ggetd_def gget_def)
  then show ?thesis
    using assms by (auto simp: AddReaderEntry_def GetReaderEntry_def Let_def nth_append split: option.split_asm if_split_asm)
qed

lemma parse_line:
  assumes "line_ok x" "dg_get d r = Inr c"
  shows "\<exists>ptrs d' lr. parseMsgReader d r (the (sent_entry x)) es tx = Inr ([], es @ ptrs, d')
    \<and> dg_get d' r = Inr (c\<lparr>dc_LogReader := lr\<rparr>)
    \<and> map (\<lambda>ptr. GetReaderEntry (c\<lparr>dc_LogReader := lr\<rparr>) (lp_TxId ptr) (lp_EntryIdx ptr)) ptrs
        = map (\<lambda>p. Some (pipe_entry c p)) (pipes_of [x])
    \<and> (\<forall>t i y. GetReaderEntry c t i = Some y \<longrightarrow> GetReaderEntry (c\<lparr>dc_LogReader := lr\<rparr>) t i = Some y)"
proof (cases x)
  case (OtherLine level msg)
  with assms show ?thesis by (intro exI [of _ "[]"] exI [of _ d] exI [of _ "dc_LogReader c"]) (simp add: unread_def sent_entry_def)
next
  case (PipeLine p)
  obtain idx c' where add: "AddReaderEntry c (dt_ID tx) (pipe_entry c p) = (idx, c')" by force
  then have c': "c' = c\<lparr>dc_LogReader := dc_LogReader c'\<rparr>" by (auto simp: AddReaderEntry_def Let_def)
  have "parseMsgReader d r \<lparr>le_Level = LogOps, le_Text = pipe_text p\<rparr> es tx
      = Inr ([], es @ [\<lparr>lp_TxId = dt_ID tx, lp_EntryIdx = idx\<rparr>], dg_put r c' d)"
    using assms PipeLine add by (simp add: parse_pipe_text reader_new_def)
  then show ?thesis
    using PipeLine GetReaderEntry_added [OF add] GetReaderEntry_stays [OF add]
    by (intro exI [of _ "[\<lparr>lp_TxId = dt_ID tx, lp_EntryIdx = idx\<rparr>]"] exI [of _ "dg_put r c' d"] exI [of _ "dc_LogReader c'"])
      (simp add: sent_entry_def c' [symmetric])
qed

lemma pipe_entry_reader [simp]: "pipe_entry (c\<lparr>dc_LogReader := lr\<rparr>) p = pipe_entry c p"
  by (simp add: pipe_entry_def client_index_def Let_def)

lemma parse_lines:
  assumes "list_all line_ok xs" "dg_get d r = Inr c" "dbg_CalledStateNames tx index = Inr called"
  shows "\<exists>calls ptrs logs d' lr. parse_entries fmt r tx index (map sent_entry xs) es d = Inr (calls, es @ ptrs, logs, d')
    \<and> dg_get d' r = Inr (c\<lparr>dc_LogReader := lr\<rparr>)
    \<and> map (\<lambda>ptr. GetReaderEntry (c\<lparr>dc_LogReader := lr\<rparr>) (lp_TxId ptr) (lp_EntryIdx ptr)) ptrs
        = map (\<lambda>p. Some (pipe_entry c p)) (pipes_of xs)
    \<and> (\<forall>t i y. GetReaderEntry c t i = Some y \<longrightarrow> GetReaderEntry (c\<lparr>dc_LogReader := lr\<rparr>) t i = Some y)"
  using assms(1,2)
proof (induction xs arbitrary: d c es)
  case Nil
  then show ?case
    by (intro exI [of _ "[] :: dg_call list"] exI [of _ "[] :: LogReaderEntryPtr list"] exI [of _ "[] :: LogEntry list"]
        exI [of _ d] exI [of _ "dc_LogReader c"]) simp
next
  case (Cons x xs)
  obtain ptrs d1 lr1 where 1: "parseMsgReader d r (the (sent_entry x)) es tx = Inr ([], es @ ptrs, d1)"
    "dg_get d1 r = Inr (c\<lparr>dc_LogReader := lr1\<rparr>)"
    "map (\<lambda>ptr. GetReaderEntry (c\<lparr>dc_LogReader := lr1\<rparr>) (lp_TxId ptr) (lp_EntryIdx ptr)) ptrs
        = map (\<lambda>p. Some (pipe_entry c p)) (pipes_of [x])"
    "\<forall>t i y. GetReaderEntry c t i = Some y \<longrightarrow> GetReaderEntry (c\<lparr>dc_LogReader := lr1\<rparr>) t i = Some y"
    using parse_line [of x d r c es tx] Cons.prems by auto
  obtain calls ptrs2 logs d2 lr2 where 2:
    "parse_entries fmt r tx index (map sent_entry xs) (es @ ptrs) d1 = Inr (calls, (es @ ptrs) @ ptrs2, logs, d2)"
    "dg_get d2 r = Inr (c\<lparr>dc_LogReader := lr2\<rparr>)"
    "map (\<lambda>ptr. GetReaderEntry (c\<lparr>dc_LogReader := lr2\<rparr>) (lp_TxId ptr) (lp_EntryIdx ptr)) ptrs2
        = map (\<lambda>p. Some (pipe_entry c p)) (pipes_of xs)"
    "\<forall>t i y. GetReaderEntry (c\<lparr>dc_LogReader := lr1\<rparr>) t i = Some y \<longrightarrow> GetReaderEntry (c\<lparr>dc_LogReader := lr2\<rparr>) t i = Some y"
    using Cons.IH [of d1 "c\<lparr>dc_LogReader := lr1\<rparr>" "es @ ptrs"] Cons.prems 1(2) by auto
  have "map (\<lambda>ptr. GetReaderEntry (c\<lparr>dc_LogReader := lr2\<rparr>) (lp_TxId ptr) (lp_EntryIdx ptr)) ptrs
      = map (\<lambda>p. Some (pipe_entry c p)) (pipes_of [x])"
  proof (rule trans [OF _ 1(3)], rule map_cong [OF refl])
    fix ptr
    assume "ptr \<in> set ptrs"
    then have "GetReaderEntry (c\<lparr>dc_LogReader := lr1\<rparr>) (lp_TxId ptr) (lp_EntryIdx ptr)
        \<in> set (map (\<lambda>p. Some (pipe_entry c p)) (pipes_of [x]))"
      unfolding 1(3) [symmetric] by simp
    with 2(4) show "GetReaderEntry (c\<lparr>dc_LogReader := lr2\<rparr>) (lp_TxId ptr) (lp_EntryIdx ptr)
        = GetReaderEntry (c\<lparr>dc_LogReader := lr1\<rparr>) (lp_TxId ptr) (lp_EntryIdx ptr)" by auto
  qed
  moreover have sx: "sent_entry x = Some \<lparr>le_Level = line_level x, le_Text = line_msg x\<rparr>" by (simp add: sent_entry_def)
  moreover have "pipes_of (x # xs) = pipes_of [x] @ pipes_of xs" using pipes_of_append [of "[x]" xs] by simp
  ultimately show ?case
    using 1(1,4) 2 assms(3)
    by (intro exI [of _ calls] exI [of _ "ptrs @ ptrs2"]
        exI [of _ "\<lparr>le_Level = line_level x, le_Text = fmt (line_msg x) called\<rparr> # logs"] exI [of _ d2] exI [of _ lr2])
      (simp add: sx)
qed

lemma synth_unread:
  assumes "is_synth tx parsed"
  shows "unread (le_Text (synth_entry tx (mp_TimeDiff parsed) called))"
proof -
  have "unread (''[aqueu] '' @ rest)" "unread (''[queue] '' @ rest)" "unread (''[cance] '' @ rest)" "unread (''[empty] '' @ rest)" for rest
    by (simp_all add: unread_def parseMsgReader_def strings_HasPrefix_def)
  note u = this [simplified]
  show ?thesis
    using assms by (cases "dt_IsQueued tx"; cases "dt_IsAuto tx"; cases "dt_Accepted tx")
      (simp_all add: is_synth_def synth_entry_def Let_def u)
qed

text \<open>C27. Pipes logged by a machine reach the log reader. The machine, which is not disposing and whose log level lets operations
  through, logs lines before and during a transition: about pipes whose names are plain (no spaces or brackets), and
  others the reader takes nothing from. The tracer sends them without the prefix of the machine's ID, and the debugger,
  given a client with this message and valid called states, parses the log of the message. Then each pipe logged before
  the transition, and each one logged during it unless it was queued, canceled or changed no tick (the log of such a
  transition is replaced by a line of the debugger), is a new entry of the reader after those of the message before, in
  order and with its direction, kind of mutation, state and other machine.\<close>

theorem logged_pipes_reach_reader:
  assumes log: "LogOps \<le> lg_Level l" "\<not> lg_disposing l" "lg_logId l = dm_IsId mach" "lg_id l = dm_Id mach" "\<not> lg_inTx l"
      "lg_logEntries l = []"
    and tx: "dt_PreLogEntries tx = removeLogPrefix mach (map Some (lg_logEntries (log_lines before l)))"
      "dt_LogEntries tx = removeLogPrefix mach (map Some (lg_txEntries (log_lines during (l\<lparr>lg_inTx := True, lg_txEntries := []\<rparr>))))"
      "list_all line_ok (before @ during)" "dbg_CalledStateNames tx (client_index c) = Inr called"
    and d: "dg_get d r = Inr c" "idx < length (dc_MsgTxs c)" "dc_MsgTxs c ! idx = tx" "idx < length (dc_MsgTxsParsed c)"
  shows "\<exists>calls d' c' ptrs. hParseMsgLog fmt r idx d = Inr (calls, d') \<and> dg_get d' r = Inr c'
    \<and> mp_ReaderEntries (dc_MsgTxsParsed c' ! idx)
        = (if idx > 0 then mp_ReaderEntries (dc_MsgTxsParsed c ! (idx - 1)) else []) @ ptrs
    \<and> map (\<lambda>ptr. GetReaderEntry c' (lp_TxId ptr) (lp_EntryIdx ptr)) ptrs
        = map (\<lambda>p. Some (pipe_entry c p)) (pipes_of before @ (if is_synth tx (dc_MsgTxsParsed c ! idx) then [] else pipes_of during))"
proof -
  let ?l2 = "l\<lparr>lg_inTx := True, lg_txEntries := []\<rparr>" and ?parsed = "dc_MsgTxsParsed c ! idx"
  obtain xs where xs: "lg_logEntries (log_lines before l) = map (line_entry l) xs" "pipes_of xs = pipes_of before" "set xs \<subseteq> set before"
    using log_lines_kept [OF log(1,2), of before] log(5,6) by (auto simp: logged_def)
  obtain ys where ys: "lg_txEntries (log_lines during ?l2) = map (line_entry ?l2) ys" "pipes_of ys = pipes_of during" "set ys \<subseteq> set during"
    using log_lines_kept [of ?l2 during] log(1,2) by (auto simp: logged_def)
  have pre: "dt_PreLogEntries tx = map sent_entry xs" "dt_LogEntries tx = map sent_entry ys"
    using sent_lines [of l mach xs] sent_lines [of ?l2 mach ys] tx(1,2) xs(1) ys(1) log(3,4) by simp_all
  obtain names where names: "synth_called tx (client_index c) = Inr names"
    using tx(4) by (cases "dt_Type tx = MutationAdd \<or> dt_Type tx = MutationRemove") (auto simp: synth_called_def)
  define tx1 where "tx1 = (if is_synth tx ?parsed then tx\<lparr>dt_LogEntries := [Some (synth_entry tx (mp_TimeDiff ?parsed) names)]\<rparr> else tx)"
  define zs where "zs = (if is_synth tx ?parsed
    then [OtherLine LogChanges (le_Text (synth_entry tx (mp_TimeDiff ?parsed) names))] else ys)"
  have z: "dt_PreLogEntries tx1 @ dt_LogEntries tx1 = map sent_entry (xs @ zs)" "list_all line_ok (xs @ zs)"
    "pipes_of (xs @ zs) = pipes_of before @ (if is_synth tx ?parsed then [] else pipes_of during)"
    using pre xs(2,3) ys(2,3) tx(3) synth_unread [of tx ?parsed names]
    by (auto simp: tx1_def zs_def sent_entry_def synth_entry_def list_all_iff Let_def)
  let ?c = "c\<lparr>dc_MsgTxs := (dc_MsgTxs c)[idx := tx1]\<rparr>" and ?es = "if idx > 0 then mp_ReaderEntries (dc_MsgTxsParsed c ! (idx - 1)) else []"
  have called: "dbg_CalledStateNames tx1 (client_index c) = Inr called"
    using tx(4) by (simp add: tx1_def dbg_CalledStateNames_def cong: option.case_cong)
  obtain calls ptrs logs d2 lr where p:
    "parse_entries fmt r tx1 (client_index c) (map sent_entry (xs @ zs)) ?es (dg_put r ?c d) = Inr (calls, ?es @ ptrs, logs, d2)"
    "dg_get d2 r = Inr (?c\<lparr>dc_LogReader := lr\<rparr>)"
    "map (\<lambda>ptr. GetReaderEntry (?c\<lparr>dc_LogReader := lr\<rparr>) (lp_TxId ptr) (lp_EntryIdx ptr)) ptrs
      = map (\<lambda>p. Some (pipe_entry ?c p)) (pipes_of (xs @ zs))"
    using parse_lines [OF z(2), of "dg_put r ?c d" r ?c tx1 "client_index c" called fmt ?es] called by auto
  let ?c' = "?c\<lparr>dc_LogReader := lr, dc_LogMsgs := dc_LogMsgs c @ [logs],
    dc_MsgTxsParsed := (dc_MsgTxsParsed c)[idx := ?parsed\<lparr>mp_ReaderEntries := ?es @ ptrs\<rparr>]\<rparr>"
  have "hParseMsgLog fmt r idx d = Inr (calls, dg_put r ?c' d2)"
    unfolding hParseMsgLog_def d(1) using d(2-4) p(1,2) names z(1)
    by (simp add: sget_def Let_def tx1_def [symmetric]) (auto simp: tx1_def split: if_splits)
  moreover have "pipe_entry ?c = pipe_entry c" by (rule ext) (simp add: pipe_entry_def client_index_def Let_def)
  moreover have "GetReaderEntry ?c' = GetReaderEntry (?c\<lparr>dc_LogReader := lr\<rparr>)" by (intro ext) (simp add: GetReaderEntry_def)
  ultimately show ?thesis
    using p(3) [unfolded z(3)] d(4) by (intro exI [of _ calls] exI [of _ "dg_put r ?c' d2"] exI [of _ ?c'] exI [of _ ptrs]) simp
qed

definition sample_log :: "bool \<Rightarrow> MachLog" where
  "sample_log logId = \<lparr>lg_Level = LogOps, lg_disposing = False, lg_logId = logId, lg_id = ''machine'', lg_inTx = False, lg_txEntries = [],
     lg_logEntries = []\<rparr>"

definition sample_mach :: "bool \<Rightarrow> DbgMach" where
  "sample_mach logId = \<lparr>dm_Id = ''machine'', dm_Time = [], dm_QueueTick = 1, dm_Pipes = [], dm_IsCan = False, dm_IsId = logId,
     dm_IsArgs = False, dm_MapArgs = (\<lambda>_. []), dm_StateNames = [''A'', ''B''], dm_Schema = [], dm_Groups = [], dm_GroupsOrder = [],
     dm_ParentId = [], dm_Tags = [], dm_Disposed = False\<rparr>"

definition sample_pipe :: Pipe where
  "sample_pipe = \<lparr>pp_IsAdd = True, pp_SourceState = ''B'', pp_TargetState = [], pp_SourceMach = [], pp_TargetMach = ''m2''\<rparr>"

definition sample_piped_tx :: "bool \<Rightarrow> DbgMsgTx" where
  "sample_piped_tx logId = DbgMsgTx_zero\<lparr>dt_ID := ''t1'', dt_Accepted := True,
     dt_PreLogEntries := removeLogPrefix (sample_mach logId)
       (map Some (lg_logEntries (log_lines [OtherLine 2 ''[state] +A'', PipeLine sample_pipe] (sample_log logId)))),
     dt_LogEntries := removeLogPrefix (sample_mach logId)
       (map Some (lg_txEntries (log_lines [] ((sample_log logId)\<lparr>lg_inTx := True, lg_txEntries := []\<rparr>))))\<rparr>"

theorem logged_pipes_reach_reader_witness:
  "\<forall>logId. \<exists>calls d' c' ptr. hParseMsgLog (\<lambda>x _. x) 0 0 (dg_put 0 (sample_client\<lparr>dc_MsgTxs := [sample_piped_tx logId],
        dc_MsgTxsParsed := [MsgTxParsed_zero]\<rparr>) empty_debugger) = Inr (calls, d')
     \<and> dg_get d' 0 = Inr c' \<and> mp_ReaderEntries (dc_MsgTxsParsed c' ! 0) = [ptr]
     \<and> map_option lr_States (GetReaderEntry c' (lp_TxId ptr) (lp_EntryIdx ptr)) = Some [1]
     \<and> map_option lr_Mach (GetReaderEntry c' (lp_TxId ptr) (lp_EntryIdx ptr)) = Some ''m2''"
proof
  fix logId
  let ?c = "sample_client\<lparr>dc_MsgTxs := [sample_piped_tx logId], dc_MsgTxsParsed := [MsgTxParsed_zero]\<rparr>"
  let ?before = "[OtherLine 2 ''[state] +A'', PipeLine sample_pipe]"
  have "unread ''[state] +A''" by (simp add: unread_def parseMsgReader_def strings_HasPrefix_def)
  then have ok: "list_all line_ok (?before @ [])" by (simp add: pipe_ok_def plain_name_def sample_pipe_def)
  have e: "pipe_entry ?c sample_pipe = (reader_entry LogReaderPipeOut [1] 0)\<lparr>lr_Pipe := MutationAdd, lr_Mach := ''m2''\<rparr>"
    by (simp add: pipe_entry_def client_index_def sample_client_def sample_schema_def sample_pipe_def)
  have n: "dbg_CalledStateNames (sample_piped_tx logId) (client_index ?c) = Inr []"
    by (simp add: dbg_CalledStateNames_def sample_piped_tx_def DbgMsgTx_zero_def)
  have "\<exists>calls d' c' ptrs. hParseMsgLog (\<lambda>x _. x) 0 0 (dg_put 0 ?c empty_debugger) = Inr (calls, d') \<and> dg_get d' 0 = Inr c'
    \<and> mp_ReaderEntries (dc_MsgTxsParsed c' ! 0)
        = (if (0 :: nat) > 0 then mp_ReaderEntries (dc_MsgTxsParsed ?c ! (0 - 1)) else []) @ ptrs
    \<and> map (\<lambda>ptr. GetReaderEntry c' (lp_TxId ptr) (lp_EntryIdx ptr)) ptrs
        = map (\<lambda>p. Some (pipe_entry ?c p)) (pipes_of ?before
            @ (if is_synth (sample_piped_tx logId) (dc_MsgTxsParsed ?c ! 0) then [] else pipes_of []))"
    by (rule logged_pipes_reach_reader [where l = "sample_log logId" and mach = "sample_mach logId" and during = "[]", OF _ _ _ _ _ _ _ _ ok n])
      (simp_all add: sample_log_def sample_mach_def sample_piped_tx_def)
  then show "\<exists>calls d' c' ptr. hParseMsgLog (\<lambda>x _. x) 0 0 (dg_put 0 ?c empty_debugger) = Inr (calls, d')
     \<and> dg_get d' 0 = Inr c' \<and> mp_ReaderEntries (dc_MsgTxsParsed c' ! 0) = [ptr]
     \<and> map_option lr_States (GetReaderEntry c' (lp_TxId ptr) (lp_EntryIdx ptr)) = Some [1]
     \<and> map_option lr_Mach (GetReaderEntry c' (lp_TxId ptr) (lp_EntryIdx ptr)) = Some ''m2''"
    by (auto simp: e reader_entry_def map_eq_Cons_conv split: if_split_asm)
qed

lemma synth_ignored: "parseMsgReader d r \<lparr>le_Level = lvl, le_Text = ''[empty] '' @ rest\<rparr> es tx = Inr ([], es, d)"
  by (simp add: parseMsgReader_def strings_HasPrefix_def)

lemma dbg_TimeSum_SumAll: "dbg_TimeSum m = Time_SumAll (sl (dt_Clocks m))"
  by (simp add: dbg_TimeSum_def Time_SumAll_def)

text \<open>The pipes a machine had before it was debugged are sent with the first message. If no state of the machine was
  active yet, the debugger takes that message for an empty transition, replaces its log with a line of its own and the
  log reader shows no pipe.\<close>

theorem initial_pipes_lost:
  assumes "semlog_msg mach = Some msg" "Time_SumAll (dm_Time mach) = 0" "dg_get d r = Inr c"
    "dc_MsgTxs c = [msg\<lparr>dt_Time := Some now\<rparr>]" "dc_MsgTxsParsed c = []"
  shows "\<exists>calls d' c'. hParseMsg fmt is r 0 d = Inr (calls, d') \<and> dg_get d' r = Inr c'
    \<and> map mp_ReaderEntries (dc_MsgTxsParsed c') = [[]] \<and> dc_LogReader c' = dc_LogReader c"
proof -
  let ?tx = "msg\<lparr>dt_Time := Some now\<rparr>" and ?index = "client_index c"
  have msg: "dt_Clocks ?tx = Some (dm_Time mach)" "dt_Accepted ?tx" "\<not> dt_IsQueued ?tx" "dt_CalledStates ?tx = None"
    "dt_CalledStatesIdxs ?tx = []" "dt_Steps ?tx = []" "dt_PreLogEntries ?tx = []" "dt_Type ?tx = MutationSet" "dt_Args ?tx = []"
    "dt_IsAuto ?tx = False"
    using assms(1) by (auto simp: semlog_msg_def DbgMsgTx_zero_def split: if_splits)
  have by_index: "msg_by_index ?index ?tx = ?tx" using msg by (simp add: msg_by_index_def Let_def)
  obtain added removed where "index_diff 0 ?index None (Some (dm_Time mach)) = (added, removed)" by force
  then have states: "GetTransitionStates None (Some (dm_Time mach)) [] ?index = Inr (added, removed, [])"
    by (simp add: GetTransitionStates_def slicesUniq_def)
  have called: "dbg_CalledStateNames (?tx\<lparr>dt_LogEntries := les\<rparr>) ?index = Inr []" for les
    using msg by (simp add: dbg_CalledStateNames_def)
  have synth: "synth_entry ?tx 0 called = \<lparr>le_Level = LogChanges, le_Text = ''[empty] '' @ []\<rparr>" for called
    using msg by (simp add: synth_entry_def MutationFormatArgs_def)
  show ?thesis
    using assms(2-5) msg by_index states called synth synth_ignored
    by (simp add: hParseMsg_def Let_def sget_def prev_msg_def dbg_TimeSum_SumAll hParseMsgLog_def is_synth_def synth_called_def
        client_index_def MsgTxParsed_zero_def dbg_IndexesToStates_def)
qed

text \<open>The lines a machine logs for \<open>WhenTime\<close>, when it subscribes and when it is met.\<close>

definition whenTime_new_text :: "S \<Rightarrow> Time \<Rightarrow> string" where
  "whenTime_new_text states ticks = ''[whenTime:new] '' @ jw states '','' @ '' '' @ Time_String ticks"

definition whenTime_match_text :: "S \<Rightarrow> Time \<Rightarrow> string" where
  "whenTime_match_text names ticks = ''[whenTime:match] '' @ j names @ '' ['' @ Time_String ticks @ '']''"

lemma whenTime_texts:
  "whenTime_new_text [''A'', ''B''] [1, 2] = ''[whenTime:new] A,B 1 2''"
  "whenTime_match_text [''A'', ''B''] [1, 2] = ''[whenTime:match] A B [1 2]''"
  by code_simp+

lemma whenTime_splits:
  "strings_Split ''A,B 1 2'' '' '' = [''A,B'', ''1'', ''2'']" "strings_Split ''A,B'' '','' = [''A'', ''B'']"
  "strings_Split ''1'' '','' = [''1'']" "strings_Split ''A B [1 2]'' '' '' = [''A'', ''B'', ''[1'', ''2]'']"
  "strings_Split ''A'' '','' = [''A'']" "strings_Split (strings_Trim ''B'' ''[]'') '' '' = [''B'']"
  by code_simp+

lemma whenTime_ticks: "strconv_Atoi ''1'' = Some 1" "strconv_Atoi ''B'' = None"
  by code_simp+

text \<open>\<open>WhenTime\<close> of two states: the line of the match has its states separated otherwise than the one of the
  subscription, so the debugger reads a name as a tick. The entry stays, and the debugger's machine gets an error.\<close>

theorem whenTime_of_two_unmatched:
  assumes "dg_get d r = Inr c" "client_index c = [''A'', ''B'']" "dc_LogReader c = []"
  shows "\<exists>ptr d1. parseMsgReader d r \<lparr>le_Level = LogOps, le_Text = whenTime_new_text [''A'', ''B''] [1, 2]\<rparr> [] tx = Inr ([], [ptr], d1)
    \<and> parseMsgReader d1 r \<lparr>le_Level = LogOps, le_Text = whenTime_match_text [''A'', ''B''] [1, 2]\<rparr> [ptr] tx
      = Inr ([DgErr ''strconv.Atoi: parsing B'', DgLog (''err: match missing: '' @ whenTime_match_text [''A'', ''B''] [1, 2])], [ptr], d1)"
proof -
  let ?e = "(new_states LogReaderWhenTime [''A'', ''B''] c)\<lparr>lr_Ticks := [1]\<rparr>"
  obtain idx c1 where add: "AddReaderEntry c (dt_ID tx) ?e = (idx, c1)" by force
  have c1: "client_index c1 = [''A'', ''B'']" using add assms(2) by (auto simp: AddReaderEntry_def client_index_def Let_def)
  have states: "entry_states c1 ?e = [''A'', ''B'']"
    using c1 assms(2) by (simp add: entry_states_def new_states_def reader_entry_def dbg_StatesToIndexes_def dbg_IndexesToStates_def)
  have neq: "\<not> StatesEqual [''A''] [''A'', ''B'']" by code_simp
  have new: "parseMsgReader d r \<lparr>le_Level = LogOps, le_Text = ''[whenTime:new] A,B 1 2''\<rparr> [] tx
      = Inr ([], [\<lparr>lp_TxId = dt_ID tx, lp_EntryIdx = idx\<rparr>], dg_put r c1 d)"
    using assms(1) add
    by (simp add: parseMsgReader_def strings_HasPrefix_def reader_whenTime_new_def whenTime_splits whenTime_ticks sget_def reader_new_def)
  have "parseMsgReader (dg_put r c1 d) r \<lparr>le_Level = LogOps, le_Text = ''[whenTime:match] A B [1 2]''\<rparr>
      [\<lparr>lp_TxId = dt_ID tx, lp_EntryIdx = idx\<rparr>] tx
    = Inr ([DgErr ''strconv.Atoi: parsing B'', DgLog (''err: match missing: '' @ ''[whenTime:match] A B [1 2]'')],
        [\<lparr>lp_TxId = dt_ID tx, lp_EntryIdx = idx\<rparr>], dg_put r c1 d)"
    using GetReaderEntry_added [OF add] states neq
    by (simp add: parseMsgReader_def strings_HasPrefix_def reader_whenTime_match_def whenTime_splits whenTime_ticks sget_def
        reader_match_def)
  with new show ?thesis unfolding whenTime_texts by blast
qed

end
