(* ===== verification/Am_Debugger_Lists.thy ===== *)
theory Am_Debugger_Lists
  imports Am_Debugger_Facts
begin

text \<open>
  The lists the debugger keeps of a client, the messages, the parsed messages and their logs, have the same length over
  every run of its handlers, so that a position means the same message in all of them. Runs are sequences of handlers
  with any arguments and any active states of the debugger's machine.
\<close>

section \<open>Shapes\<close>

definition lens :: "DbgClient \<Rightarrow> nat \<times> nat \<times> nat" where
  "lens c = (length (dc_MsgTxs c), length (dc_MsgTxsParsed c), length (dc_LogMsgs c))"

definition client_shape :: "Debugger \<Rightarrow> nat \<Rightarrow> (nat \<times> nat \<times> nat) option" where
  "client_shape d r = map_option lens (gget (dg_store d) r)"

definition aligned :: "Debugger \<Rightarrow> bool" where
  "aligned d = (\<forall>r a b l. client_shape d r = Some (a, b, l) \<longrightarrow> a = b \<and> b = l)"

named_theorems shape_kept \<open>operations that keep the lengths of all lists\<close>

lemma bindR_E: "bindR x f = Inr b \<Longrightarrow> (\<And>a. x = Inr a \<Longrightarrow> f a = Inr b \<Longrightarrow> thesis) \<Longrightarrow> thesis"
  by (auto simp: bindR_eq_Inr)

lemma shape_put: "client_shape (dg_put r c d) = (client_shape d)(r := Some (lens c))"
  by (auto simp: client_shape_def dg_put_def)

lemma shape_get: "dg_get d r = Inr c \<Longrightarrow> client_shape d r = Some (lens c)"
  by (auto simp: client_shape_def dg_get_def split: option.splits)

lemma shape_put_same: "dg_get d r = Inr c \<Longrightarrow> lens c' = lens c \<Longrightarrow> client_shape (dg_put r c' d) = client_shape d"
  by (simp add: shape_put shape_get fun_upd_idem)

lemma shape_fields [simp]:
  "client_shape (d\<lparr>dg_next := n\<rparr>) = client_shape d" "client_shape (d\<lparr>dg_Clients := cs\<rparr>) = client_shape d" "client_shape (d\<lparr>dg_C := cur0\<rparr>) = client_shape d"
  "client_shape (d\<lparr>dg_History := h\<rparr>) = client_shape d" "client_shape (d\<lparr>dg_HistoryCursor := hc\<rparr>) = client_shape d" "client_shape (d\<lparr>dg_markers := ms\<rparr>) = client_shape d"
  "client_shape (d\<lparr>dg_lastScrolledTxTime := t\<rparr>) = client_shape d" "client_shape (d\<lparr>dg_msgsDelayed := md\<rparr>) = client_shape d"
  "client_shape (d\<lparr>dg_msgsDelayedConns := mc\<rparr>) = client_shape d" "client_shape (d\<lparr>dg_selectedGroup := g\<rparr>) = client_shape d"
  by (auto simp: client_shape_def)

lemma lens_fields [simp]:
  "lens (c\<lparr>dc_MsgTxsFiltered := fs\<rparr>) = lens c" "lens (c\<lparr>dc_CursorTx1 := n\<rparr>) = lens c" "lens (c\<lparr>dc_txCache := tc\<rparr>) = lens c"
  "lens (c\<lparr>dc_LogReader := lr\<rparr>) = lens c" "lens (c\<lparr>dc_MTimeSum := ts\<rparr>) = lens c" "lens (c\<lparr>dc_SelectedGroup := g\<rparr>) = lens c"
  "lens (c\<lparr>dc_Connected := on\<rparr>) = lens c" "lens (c\<lparr>dc_Markers := ms\<rparr>) = lens c" "lens (c\<lparr>dc_MsgStruct := st0\<rparr>) = lens c"
  "lens (c\<lparr>dc_MsgSchemaParsed := sp\<rparr>) = lens c"
  "length ps = length (dc_MsgTxsParsed c) \<Longrightarrow> lens (c\<lparr>dc_MsgTxsParsed := ps\<rparr>) = lens c"
  "length txs = length (dc_MsgTxs c) \<Longrightarrow> lens (c\<lparr>dc_MsgTxs := txs\<rparr>) = lens c"
  "length logs = length (dc_LogMsgs c) \<Longrightarrow> lens (c\<lparr>dc_LogMsgs := logs\<rparr>) = lens c"
  by (simp_all add: lens_def)

lemma TxIndex_lens: "TxIndex c x = (i, c') \<Longrightarrow> lens c' = lens c"
  by (auto simp: TxIndex_def split: option.splits)

section \<open>Parsing\<close>

lemma reader_new_shape [shape_kept]: "reader_new d r tx e es = Inr (calls, es', d') \<Longrightarrow> client_shape d' = client_shape d"
  by (auto simp: reader_new_def AddReaderEntry_def Let_def elim!: bindR_E simp: shape_put fun_upd_idem_iff intro: shape_get)

lemma reader_match_shape [shape_kept]: "reader_match d r txt tx pred es = Inr (calls, es', d') \<Longrightarrow> client_shape d' = client_shape d"
  by (auto simp: reader_match_def close_entry_def elim!: bindR_E split: option.split_asm prod.split_asm)
    (simp add: shape_put fun_upd_idem_iff, rule shape_get)

lemma reader_source_shape [shape_kept]: "reader_source d r body tx es = Inr (calls, es', d') \<Longrightarrow> client_shape d' = client_shape d"
  by (auto simp: reader_source_def Let_def elim!: bindR_E split: option.split_asm prod.split_asm if_split_asm
      simp: shape_put fun_upd_idem_iff dest!: TxIndex_lens shape_get)

lemma reader_gc_shape [shape_kept]: "reader_gc d r txt es = Inr (calls, es', d') \<Longrightarrow> client_shape d' = client_shape d"
  by (auto simp: reader_gc_def elim!: bindR_E)

lemma reader_whenTime_shapes [shape_kept]:
  "reader_whenTime_new d r body tx es = Inr (calls, es', d') \<Longrightarrow> client_shape d' = client_shape d"
  "reader_whenTime_match d r txt body tx es = Inr (calls, es', d') \<Longrightarrow> client_shape d' = client_shape d"
  by (auto simp: reader_whenTime_new_def reader_whenTime_match_def Let_def elim!: bindR_E split: prod.split_asm dest: shape_kept)

lemma reader_other_shapes [shape_kept]:
  "reader_whenArgs_new d r body tx es = Inr (calls, es', d') \<Longrightarrow> client_shape d' = client_shape d"
  "reader_whenArgs_match d r txt body tx es = Inr (calls, es', d') \<Longrightarrow> client_shape d' = client_shape d"
  "reader_pipe d r isOut isAdd body tx es = Inr (calls, es', d') \<Longrightarrow> client_shape d' = client_shape d"
  "reader_whenQueue_new d r txt body tx es = Inr (calls, es', d') \<Longrightarrow> client_shape d' = client_shape d"
  "reader_whenQueue_match d r txt tx es = Inr (calls, es', d') \<Longrightarrow> client_shape d' = client_shape d"
  by (auto simp: reader_whenArgs_new_def reader_whenArgs_match_def reader_pipe_def reader_whenQueue_new_def
      reader_whenQueue_match_def Let_def elim!: bindR_E split: option.split_asm dest: shape_kept)

lemma parseMsgReader_shape [shape_kept]: "parseMsgReader d r log es tx = Inr (calls, es', d') \<Longrightarrow> client_shape d' = client_shape d"
  unfolding parseMsgReader_def Let_def by (simp split: if_split_asm; (erule shape_kept)?)

lemma parse_entries_shape:
  "parse_entries fmt r tx index entries es d = Inr (calls, es', logs, d') \<Longrightarrow> client_shape d' = client_shape d"
proof (induction fmt r tx index entries es d arbitrary: calls es' logs d' rule: parse_entries.induct)
  case (3 fmt r tx index entry rest es d)
  from 3(2) obtain calls1 es1 d1 called calls2 logs2 where
      first: "parseMsgReader d r entry es tx = Inr (calls1, es1, d1)" and called: "dbg_CalledStateNames tx index = Inr called"
      and rest: "parse_entries fmt r tx index rest es1 d1 = Inr (calls2, es', logs2, d')"
    by (auto elim!: bindR_E)
  from 3(1) [OF rest] parseMsgReader_shape [OF first] show ?case by simp
qed auto

lemma sget_Inr: "sget xs i = Inr x \<Longrightarrow> 0 \<le> i \<and> nat i < length xs \<and> x = xs ! nat i"
  by (auto simp: sget_def split: if_split_asm)

lemma hParseMsgLog_shape:
  assumes "hParseMsgLog fmt r idx d = Inr (calls, d')" "client_shape d r = Some (a, b, l)"
  shows "client_shape d' = (client_shape d)(r := Some (a, b, Suc l))"
proof -
  from assms(1) obtain c tx1 es calls es2 logs d2 c2 p2 where
      c: "dg_get d r = Inr c"
      and parse: "parse_entries fmt r tx1 (client_index c) (dt_PreLogEntries tx1 @ dt_LogEntries tx1) es
            (dg_put r (c\<lparr>dc_MsgTxs := (dc_MsgTxs c)[idx := tx1]\<rparr>) d) = Inr (calls, es2, logs, d2)"
      and c2: "dg_get d2 r = Inr c2"
      and d': "d' = dg_put r (c2\<lparr>dc_LogMsgs := dc_LogMsgs c2 @ [logs],
          dc_MsgTxsParsed := (dc_MsgTxsParsed c2)[idx := p2\<lparr>mp_ReaderEntries := es2\<rparr>]\<rparr>) d2"
    unfolding hParseMsgLog_def Let_def by (auto elim!: bindR_E)
  have "client_shape d2 = client_shape d"
    using parse_entries_shape [OF parse] shape_put_same [OF c, of "c\<lparr>dc_MsgTxs := (dc_MsgTxs c)[idx := tx1]\<rparr>"] by simp
  moreover have "lens c2 = (a, b, l)" using shape_get [OF c2] assms(2) calculation by simp
  ultimately show ?thesis unfolding d' shape_put by (auto simp: lens_def)
qed

text \<open>Parsing the message at the end of an otherwise aligned client aligns it.\<close>

lemma hParseMsg_shape:
  assumes "hParseMsg fmt is r n d = Inr (calls, d')" "client_shape d r = Some (Suc n, n, n)"
  shows "client_shape d' = (client_shape d)(r := Some (Suc n, Suc n, Suc n))"
proof -
  from assms(1) obtain c msgTx before prevSum where c: "dg_get d r = Inr c" and msg: "sget (dc_MsgTxs c) (int n) = Inr msgTx"
      and prev: "prev_msg c n = Inr (before, prevSum)"
    unfolding hParseMsg_def Let_def by (auto elim!: bindR_E)
  have len: "lens c = (Suc n, n, n)" using shape_get [OF c] assms(2) by simp
  show ?thesis
  proof (cases "Time_SumAll (sl (dt_Clocks msgTx)) < Time_SumAll (sl before)")
    case True
    with assms(1) c msg prev len show ?thesis
      by (auto simp: hParseMsg_def Let_def shape_put lens_def)
  next
    case False
    with assms(1) c msg prev obtain c1 calls1 d1 c2 tx2 names where
        log: "hParseMsgLog fmt r n (dg_put r c1 d) = Inr (calls1, d1)"
        and c1: "lens c1 = (Suc n, Suc n, n)"
        and c2: "dg_get d1 r = Inr c2" and d': "d' = dg_put r (c2\<lparr>dc_MsgTxs := (dc_MsgTxs c2)[n := tx2\<lparr>dt_CalledStates := Some names\<rparr>]\<rparr>) d1"
      using len unfolding hParseMsg_def Let_def by (auto simp: lens_def elim!: bindR_E)
    have "client_shape d1 = (client_shape d)(r := Some (Suc n, Suc n, Suc n))"
      using hParseMsgLog_shape [OF log] by (simp add: shape_put c1)
    then show ?thesis unfolding d' using shape_put_same [OF c2] by simp
  qed
qed

section \<open>Handlers\<close>

lemma hFilterClientTxs_shape [shape_kept]: "hFilterClientTxs is d = Inr d' \<Longrightarrow> client_shape d' = client_shape d"
  by (auto simp: hFilterClientTxs_def elim!: bindR_E split: option.split_asm if_split_asm) (rule shape_put_same, auto)

lemma history_shape [simp]:
  "client_shape (hTrimHistory d) = client_shape d" "client_shape (hPrependHistory fmtTime addr d) = client_shape d" "client_shape (hRemoveHistory cid d) = client_shape d"
  "client_shape (hRemoveClient cid d) = client_shape d"
  by (simp_all add: hTrimHistory_def hPrependHistory_def hRemoveHistory_def hRemoveClient_def Let_def split: prod.split)

lemma hSetCursor1_shape [shape_kept]:
  assumes "hSetCursor1 fmtTime is args d = Inr (calls, d')"
  shows "client_shape d' = client_shape d"
proof -
  from assms obtain r c where c: "dg_get d r = Inr c" "dg_C d = Some r"
    by (auto simp: hSetCursor1_def Let_def elim!: bindR_E split: option.split_asm)
  let ?d = "dg_put r (c\<lparr>dc_CursorTx1 := hFilterTxCursor1 is c (ca_Cursor1 args) (ca_FilterBack args)\<rparr>) d"
  have "client_shape d' = client_shape ?d"
    using assms c by (auto simp: hSetCursor1_def Let_def elim!: bindR_E split: option.split_asm if_split_asm)
  also have "\<dots> = client_shape d" by (rule shape_put_same [OF c(1)]) simp
  finally show ?thesis .
qed

lemma hScrollToTime_shape [shape_kept]: "hScrollToTime fmtTime is t fl d = Inr (m, calls, d') \<Longrightarrow> client_shape d' = client_shape d"
  by (auto simp: hScrollToTime_def Let_def elim!: bindR_E split: option.split_asm if_split_asm dest: shape_kept)

lemma client_markers_lens: "client_markers is r c txIds = (ms, c') \<Longrightarrow> lens c' = lens c"
proof (induction "is" r c txIds arbitrary: ms c' rule: client_markers.induct)
  case (2 "is" r c txId txIds)
  obtain ms1 c1 ms2 c2 where run: "marker_items is r c txId = (ms1, c1)" "client_markers is r c1 txIds = (ms2, c2)" by force
  have "lens c1 = lens c"
    using run(1) by (auto simp: marker_items_def split: if_split_asm prod.split_asm option.split_asm dest: TxIndex_lens)
  with 2(1) [OF run(1) [symmetric] run(2)] 2(2) run show ?case by simp
qed simp

lemma clients_markers_shape: "clients_markers is d rs = Inr (ms, d') \<Longrightarrow> client_shape d' = client_shape d"
proof (induction rs arbitrary: d ms)
  case (Cons r rs)
  from Cons.prems obtain c ms1 c1 ms2 where c: "dg_get d r = Inr c" "client_markers is r c (dc_Markers c) = (ms1, c1)"
      "clients_markers is (dg_put r c1 d) rs = Inr (ms2, d')"
    by (auto elim!: bindR_E split: prod.split_asm)
  from Cons.IH [OF c(3)] shape_put_same [OF c(1) client_markers_lens [OF c(2)]] show ?case by simp
qed simp

lemma hBuildMarkersIndex_shape [shape_kept]: "hBuildMarkersIndex is d = Inr d' \<Longrightarrow> client_shape d' = client_shape d"
  by (auto simp: hBuildMarkersIndex_def elim!: bindR_E dest: clients_markers_shape)

lemma forget_mach_lens: "lens (forget_mach mach c) = lens c"
  by (cases "dc_MsgTxsParsed c = []") (simp_all add: forget_mach_def Let_def)

lemma forget_all_shape: "forget_all mach rs d = Inr d' \<Longrightarrow> client_shape d' = client_shape d"
proof (induction rs arbitrary: d)
  case (Cons r rs)
  from Cons.prems obtain c where c: "dg_get d r = Inr c" "forget_all mach rs (dg_put r (forget_mach mach c) d) = Inr d'"
    by (auto elim!: bindR_E)
  from Cons.IH [OF c(2)] shape_put_same [OF c(1) forget_mach_lens] show ?case by simp
qed simp

lemma disconnect_first_shape: "disconnect_first connId rs d = Inr d' \<Longrightarrow> client_shape d' = client_shape d"
proof (induction rs)
  case (Cons r rs)
  then obtain c where c: "dg_get d r = Inr c" by (auto elim!: bindR_E)
  show ?case
  proof (cases "dc_ConnId c \<noteq> [] \<and> dc_ConnId c = connId")
    case True
    with Cons.prems c have "forget_all (dc_Id c) (map snd (dg_Clients d)) (dg_put r (c\<lparr>dc_Connected := False\<rparr>) d) = Inr d'" by auto
    from forget_all_shape [OF this] shape_put_same [OF c] show ?thesis by simp
  next
    case False
    with Cons c show ?thesis by auto
  qed
qed simp

lemma NewDbgClient_lens: "NewDbgClient hash connId msg = Inr c \<Longrightarrow> lens c = (0, 0, 0)"
  by (auto simp: NewDbgClient_def lens_def elim!: bindR_E)

lemma connect_client_shape:
  assumes "connect_client hash msg connId d = Inr (r, d')"
  shows "client_shape d' = client_shape d \<or> (\<exists>n. client_shape d' = (client_shape d)(n := Some (0, 0, 0)))"
proof (cases "gget (dg_Clients d) (ds_ID msg)")
  case None
  with assms show ?thesis
    by (auto simp: connect_client_def Let_def shape_put dest!: NewDbgClient_lens elim!: bindR_E)
next
  case (Some r0)
  with assms obtain c where c: "dg_get d r0 = Inr c" by (auto simp: connect_client_def Let_def elim!: bindR_E)
  show ?thesis
  proof (cases "dc_ConnId c \<noteq> [] \<and> dc_ConnId c = connId")
    case True
    with assms Some c show ?thesis
      using shape_put_same [OF c] by (auto simp: connect_client_def Let_def elim!: bindR_E)
  next
    case False
    with assms Some c show ?thesis
      by (auto simp: connect_client_def Let_def shape_put dest!: NewDbgClient_lens elim!: bindR_E)
  qed
qed

lemma clean_shape: "hCleanOnConnect d = (b, d') \<Longrightarrow> client_shape d' = client_shape d"
proof -
  have "client_shape (foldl (\<lambda>d (cid, r). hRemoveClient cid d) d cs) = client_shape d" for cs
    by (induction cs arbitrary: d) (auto split: prod.split)
  then show "hCleanOnConnect d = (b, d') \<Longrightarrow> client_shape d' = client_shape d"
    by (auto simp: hCleanOnConnect_def split: if_split_asm)
qed

lemma ConnectEventState_shape:
  assumes "ConnectEventState hash fmtTime msg connId d = Inr (calls, d')"
  shows "client_shape d' = client_shape d \<or> (\<exists>n. client_shape d' = (client_shape d)(n := Some (0, 0, 0)))"
proof -
  obtain cleanup d1 where clean: "(if dg_CleanOnConnect d then hCleanOnConnect d else (False, d)) = (cleanup, d1)" by force
  then have "client_shape d1 = client_shape d" by (auto split: if_split_asm dest: clean_shape)
  from assms clean obtain r d2 c where d2: "connect_client hash msg connId d1 = Inr (r, d2)" "dg_get d2 r = Inr c"
    by (auto simp: ConnectEventState_def elim!: bindR_E)
  have "client_shape d' = client_shape d2"
    using assms clean d2 shape_put_same [OF d2(2)]
    by (auto simp: ConnectEventState_def Let_def elim!: bindR_E split: if_split_asm)
  with connect_client_shape [OF d2(1)] \<open>client_shape d1 = client_shape d\<close> show ?thesis by simp
qed

section \<open>Alignment\<close>

lemma aligned_shape: "aligned d \<Longrightarrow> client_shape d' = client_shape d \<Longrightarrow> aligned d'"
  by (simp add: aligned_def)

lemma aligned_upd: "aligned d \<Longrightarrow> client_shape d' = (client_shape d)(r := Some (n, n, n)) \<Longrightarrow> aligned d'"
  by (simp add: aligned_def)

lemma aligned_get:
  assumes "aligned d" "dg_get d r = Inr c"
  shows "length (dc_MsgTxsParsed c) = length (dc_MsgTxs c)" "length (dc_LogMsgs c) = length (dc_MsgTxs c)"
  using assms(1) shape_get [OF assms(2)] unfolding aligned_def lens_def by metis+

lemma client_msg_aligned:
  assumes "client_msg fmt is msg connId d = Inr (calls, sel, d')" "aligned d"
  shows "aligned d'"
proof (cases "gget (dg_Clients d) (dt_MachineID msg)")
  case None
  with assms show ?thesis by (simp add: client_msg_def)
next
  case (Some r)
  with assms obtain c where c: "dg_get d r = Inr c" by (auto simp: client_msg_def elim!: bindR_E)
  show ?thesis
  proof (cases "dc_ConnId c = connId")
    case False
    with assms Some c show ?thesis by (auto simp: client_msg_def)
  next
    case True
    let ?n = "length (dc_MsgTxs c)" and ?d = "dg_put r (c\<lparr>dc_MsgTxs := dc_MsgTxs c @ [msg]\<rparr>) d"
    from True assms(1) Some c obtain calls1 d1 where parse: "hParseMsg fmt is r ?n ?d = Inr (calls1, d1)"
      by (auto simp: client_msg_def Let_def elim!: bindR_E)
    with True assms(1) Some c obtain c1 where c1: "dg_get d1 r = Inr c1"
      by (auto simp: client_msg_def Let_def elim!: bindR_E)
    have d': "d' = d1 \<or> d' = dg_put r (c1\<lparr>dc_MsgTxsFiltered := dc_MsgTxsFiltered c1 @ [int ?n]\<rparr>) d1"
      using True assms(1) Some c parse c1 by (auto simp: client_msg_def Let_def elim!: bindR_E split: if_split_asm)
    have "lens c = (?n, ?n, ?n)" using aligned_get [OF assms(2) c] by (simp add: lens_def)
    then have "client_shape ?d r = Some (Suc ?n, ?n, ?n)" by (simp add: shape_put lens_def)
    from hParseMsg_shape [OF parse this] have "client_shape d1 = (client_shape d)(r := Some (Suc ?n, Suc ?n, Suc ?n))" by (simp add: shape_put)
    moreover have "client_shape d' = client_shape d1" using d' shape_put_same [OF c1] by auto
    ultimately show ?thesis using assms(2) by (simp add: aligned_upd)
  qed
qed

lemma client_msgs_aligned: "client_msgs fmt is msgs connIds d = Inr (calls, sel, d') \<Longrightarrow> aligned d \<Longrightarrow> aligned d'"
proof (induction msgs arbitrary: connIds d calls sel)
  case (Cons msg msgs)
  from Cons.prems(1) have "bindR (client_msg fmt is msg (hd connIds) d) (\<lambda>(calls, sel, d1).
      bindR (client_msgs fmt is msgs (tl connIds) d1) (\<lambda>(calls2, sel2, d2). Inr (calls @ calls2, sel \<or> sel2, d2))) = Inr (calls, sel, d')"
    by (simp split: if_split_asm)
  then obtain o1 where o1: "client_msg fmt is msg (hd connIds) d = Inr o1"
      "bindR (client_msgs fmt is msgs (tl connIds) (snd (snd o1))) (\<lambda>(calls2, sel2, d2). Inr (fst o1 @ calls2, fst (snd o1) \<or> sel2, d2)) = Inr (calls, sel, d')"
    by (auto elim!: bindR_E)
  from o1(2) obtain o2 where o2: "client_msgs fmt is msgs (tl connIds) (snd (snd o1)) = Inr o2"
      and "(case o2 of (calls2, sel2, d2) \<Rightarrow> Inr (fst o1 @ calls2, fst (snd o1) \<or> sel2, d2)) = (Inr (calls, sel, d') :: _ res)" by (rule bindR_E)
  then have d': "d' = snd (snd o2)" by (cases o2) simp
  have "aligned (snd (snd o1))" using client_msg_aligned [of fmt "is" msg "hd connIds" d "fst o1" "fst (snd o1)" "snd (snd o1)"] o1(1) Cons.prems(2) by simp
  with Cons.IH [of "tl connIds" "snd (snd o1)" "fst o2" "fst (snd o2)"] o2 d' show ?case by simp
qed simp

lemma ClientMsgState_aligned:
  assumes "ClientMsgState fmt fmtTime is msgs connIds d = Inr (calls, d')" "aligned d"
  shows "aligned d'"
proof (cases "is ''GcMsgs''")
  case True
  with assms show ?thesis by (auto simp: ClientMsgState_def intro: aligned_shape)
next
  case False
  let ?late = "length (dg_msgsDelayed d) > 0"
  let ?d = "if ?late then d\<lparr>dg_msgsDelayed := [], dg_msgsDelayedConns := []\<rparr> else d"
  from False assms(1) obtain o1 where o1: "client_msgs fmt is (if ?late then dg_msgsDelayed d @ msgs else msgs)
      (if ?late then dg_msgsDelayedConns d @ connIds else connIds) ?d = Inr o1"
    unfolding ClientMsgState_def Let_def by (auto elim!: bindR_E)
  obtain calls1 sel d2 where o2: "o1 = (calls1, sel, d2)" by (cases o1)
  have d': "d' = d2 \<or> (\<exists>args calls2. hSetCursor1 fmtTime is args d2 = Inr (calls2, d'))"
    using False assms(1) o1 unfolding ClientMsgState_def Let_def o2
    by (auto elim!: bindR_E split: if_split_asm option.split_asm)
  have "aligned ?d" using assms(2) by (auto intro: aligned_shape)
  then have "aligned d2" by (rule client_msgs_aligned [OF o1 [unfolded o2]])
  with d' show ?thesis by (auto intro: aligned_shape dest: hSetCursor1_shape)
qed

section \<open>Removal of old messages\<close>

lemma gc_log_length: "gc_log now ttl txs logs = Inr logs' \<Longrightarrow> length logs' = length logs"
  by (induction now ttl txs logs arbitrary: logs' rule: gc_log.induct) (auto elim!: bindR_E split: option.split_asm)

lemma gc_logs_shape: "gc_logs now ttl rs d = Inr d' \<Longrightarrow> client_shape d' = client_shape d"
proof (induction rs arbitrary: d)
  case (Cons r rs)
  then obtain c logs where c: "dg_get d r = Inr c" "gc_log now ttl (dc_MsgTxs c) (dc_LogMsgs c) = Inr logs"
      "gc_logs now ttl rs (dg_put r (c\<lparr>dc_LogMsgs := logs\<rparr>) d) = Inr d'" by (auto elim!: bindR_E)
  from Cons.IH [OF c(3)] shape_put_same [OF c(1), of "c\<lparr>dc_LogMsgs := logs\<rparr>"] gc_log_length [OF c(2)] show ?case by simp
qed simp

text \<open>The older half of an aligned client is removed from all its lists, without a panic.\<close>

lemma gc_half_aligned:
  assumes "aligned d" "dg_get d r = Inr c"
  shows "\<exists>c'. gc_half c = Inr c' \<and> dc_MsgTxs c' = drop (length (dc_MsgTxs c) div 2) (dc_MsgTxs c)
    \<and> dc_MsgTxsParsed c' = drop (length (dc_MsgTxs c) div 2) (dc_MsgTxsParsed c)
    \<and> dc_LogMsgs c' = drop (length (dc_MsgTxs c) div 2) (dc_LogMsgs c) \<and> dc_txCache c' = []"
  using aligned_get [OF assms] by (auto simp: gc_half_def ClearCache_def Let_def)

lemma gc_client_aligned:
  assumes "gc_client is r d = Inr (calls, d')" "aligned d"
  shows "aligned d'"
proof -
  from assms(1) obtain c where c: "dg_get d r = Inr c" by (auto simp: gc_client_def elim!: bindR_E)
  from gc_half_aligned [OF assms(2) c] aligned_get [OF assms(2) c] obtain c1 n where
      half: "gc_half c = Inr c1" and lens1: "lens c1 = (n, n, n)" by (auto simp: lens_def)
  let ?d1 = "dg_put r (c1\<lparr>dc_CursorTx1 := max 0 (dc_CursorTx1 c1 - int (length (dc_MsgTxs c) div 2))\<rparr>) d"
  let ?X = "if dg_C d = Some r
      then bindR (if filtersActive is then hFilterClientTxs is ?d1 else Inr ?d1) (\<lambda>d2. Inr ([DgBuildingLog (length (dc_MsgTxs c1))], d2))
      else Inr ([], dg_put r c1 d)"
  let ?F = "\<lambda>(calls, d3). bindR (dg_get d3 r) (\<lambda>c3.
      if length (dc_MsgTxs c3) < msgMaxThreshold then Inr (calls @ [DgRemoveClient (dc_Id c3)], d3)
      else Inr (calls, dg_put r (c3\<lparr>dc_MTimeSum := foldl (\<lambda>s p. s + mp_TimeSum p) 0 (dc_MsgTxsParsed c3)\<rparr>) d3))"
  from assms(1) have "bindR ?X ?F = Inr (calls, d')" unfolding gc_client_def Let_def c half bindR_simps .
  then obtain o3 where o3: "?X = Inr o3" "?F o3 = Inr (calls, d')" by (rule bindR_E)
  obtain calls3 d3 where split: "o3 = (calls3, d3)" by (cases o3)
  have d3: "d3 = dg_put r c1 d \<or> d3 = ?d1 \<or> hFilterClientTxs is ?d1 = Inr d3"
    using o3(1) split by (auto split: if_split_asm elim!: bindR_E)
  from o3(2) split obtain c3 where c3: "dg_get d3 r = Inr c3" by (auto elim!: bindR_E)
  have d': "d' = d3 \<or> d' = dg_put r (c3\<lparr>dc_MTimeSum := foldl (\<lambda>s p. s + mp_TimeSum p) 0 (dc_MsgTxsParsed c3)\<rparr>) d3"
    using o3(2) split c3 by (auto split: if_split_asm)
  have "client_shape d3 = (client_shape d)(r := Some (n, n, n))"
    using d3 lens1 by (auto simp: shape_put dest!: hFilterClientTxs_shape)
  moreover have "client_shape d' = client_shape d3" using d' shape_put_same [OF c3] by auto
  ultimately show ?thesis using assms(2) by (simp add: aligned_upd)
qed

lemma gc_round_aligned: "gc_round is rs d = Inr (calls, d') \<Longrightarrow> aligned d \<Longrightarrow> aligned d'"
  by (induction rs arbitrary: d calls) (auto elim!: bindR_E dest: gc_client_aligned)

lemma gc_rounds_aligned: "gc_rounds is rs n mem d = Inr (calls, d') \<Longrightarrow> aligned d \<Longrightarrow> aligned d'"
  by (induction "is" rs n mem d arbitrary: calls rule: gc_rounds.induct)
    (auto elim!: bindR_E split: if_split_asm dest: gc_round_aligned)

lemma GcMsgsState_aligned: "GcMsgsState is now ttl clients mem d = Inr (calls, d') \<Longrightarrow> aligned d \<Longrightarrow> aligned d'"
proof -
  assume "GcMsgsState is now ttl clients mem d = Inr (calls, d')" and al: "aligned d"
  then obtain d1 calls2 d2 where gc: "gc_logs now ttl clients d = Inr d1" "gc_rounds is clients 0 mem d1 = Inr (calls2, d2)"
      "hBuildMarkersIndex is d2 = Inr d'" by (auto simp: GcMsgsState_def elim!: bindR_E)
  from gc_rounds_aligned [OF gc(2) aligned_shape [OF al gc_logs_shape [OF gc(1)]]] hBuildMarkersIndex_shape [OF gc(3)]
  show "aligned d'" by (rule aligned_shape)
qed

section \<open>Runs\<close>

text \<open>The handlers, each with the states of the debugger's machine that are active when it runs.\<close>

datatype dg_act =
    ActConnect DbgMsgStruct string | ActDisconnect string | ActRemoveClient string | ActMsgs "DbgMsgTx list" "string list"
  | ActGc int int "nat list" "bool list" | ActSelecting string string | ActSelectFork bool | ActDeselect bool | ActSetGroup string
  | ActToggleMark | ActFwd int | ActBack int | ActScrollToTx int string bool

definition drop_calls :: "(dg_call list \<times> Debugger) res \<Rightarrow> Debugger res" where
  "drop_calls x = bindR x (\<lambda>(calls, d). Inr d)"

text \<open>What the handlers are given: the hash of a schema, the colours of a line and the text of a time.\<close>

record dg_env =
  de_hash :: "string \<Rightarrow> string"
  de_fmt :: "string \<Rightarrow> S \<Rightarrow> string"
  de_time :: "int \<Rightarrow> string"

fun dg_handle :: "dg_env \<Rightarrow> (string \<Rightarrow> bool) \<Rightarrow> dg_act \<Rightarrow> Debugger \<Rightarrow> Debugger res" where
  "dg_handle v is (ActConnect msg connId) d = drop_calls (ConnectEventState (de_hash v) (de_time v) msg connId d)"
| "dg_handle v is (ActDisconnect connId) d = DisconnectEventState connId d"
| "dg_handle v is (ActRemoveClient cid) d = drop_calls (RemoveClientState is cid d)"
| "dg_handle v is (ActMsgs msgs connIds) d = drop_calls (ClientMsgState (de_fmt v) (de_time v) is msgs connIds d)"
| "dg_handle v is (ActGc now ttl clients mem) d = drop_calls (GcMsgsState is now ttl clients mem d)"
| "dg_handle v is (ActSelecting cid g) d = SelectingClientState cid g d"
| "dg_handle v is (ActSelectFork tail) d = drop_calls (selecting_fork (de_time v) is tail d)"
| "dg_handle v is (ActDeselect sel) d = Inr (ClientSelectedEnd sel d)"
| "dg_handle v is (ActSetGroup g) d = drop_calls (SetGroupState g d)"
| "dg_handle v is ActToggleMark d = ToggleMarkState is d"
| "dg_handle v is (ActFwd n) d = drop_calls (FwdState (de_time v) is n d)"
| "dg_handle v is (ActBack n) d = drop_calls (BackState (de_time v) is n d)"
| "dg_handle v is (ActScrollToTx n txId trim) d = drop_calls (ScrollToTxState (de_time v) is n txId trim d)"

text \<open>A run of handlers one after the other; it ends where a handler panics. The machine of the debugger turns such a panic into
  the state \<open>Exception\<close> and goes on with what the handler has written so far: that part of a run is not followed here,
  and the theorem at the end of this section says what a message appended but not parsed leads to.\<close>

fun dg_run :: "dg_env \<Rightarrow> ((string \<Rightarrow> bool) \<times> dg_act) list \<Rightarrow> Debugger \<Rightarrow> Debugger res" where
  "dg_run v [] d = Inr d"
| "dg_run v ((is, act) # acts) d = bindR (dg_handle v is act d) (dg_run v acts)"

lemma RemoveClientState_shape: "RemoveClientState is cid d = Inr (calls, d') \<Longrightarrow> client_shape d' = client_shape d"
  by (auto simp: RemoveClientState_def elim!: bindR_E split: option.split_asm dest!: hBuildMarkersIndex_shape)

lemma SelectingClientState_shape: "SelectingClientState cid g d = Inr d' \<Longrightarrow> client_shape d' = client_shape d"
  by (auto simp: SelectingClientState_def elim!: bindR_E split: option.split_asm)
    (metis shape_put_same lens_fields(6))+

lemma SetGroupState_shape: "SetGroupState g d = Inr (calls, d') \<Longrightarrow> client_shape d' = client_shape d"
  by (auto simp: SetGroupState_def Let_def elim!: bindR_E split: option.split_asm) (metis shape_put_same lens_fields(6))+

lemma ToggleMarkState_shape: "ToggleMarkState is d = Inr d' \<Longrightarrow> client_shape d' = client_shape d"
  by (auto simp: ToggleMarkState_def TxMark_def elim!: bindR_E split: option.split_asm dest!: hBuildMarkersIndex_shape)
    (metis shape_put_same lens_fields(8))+

lemma scroll_shapes:
  "FwdState fmtTime is n d = Inr (calls, d') \<Longrightarrow> client_shape d' = client_shape d"
  "BackState fmtTime is n d = Inr (calls, d') \<Longrightarrow> client_shape d' = client_shape d"
  by (auto simp: FwdState_def BackState_def elim!: bindR_E split: option.split_asm dest!: hSetCursor1_shape)

lemma ScrollToTxState_shape:
  assumes "ScrollToTxState fmtTime is n txId trim d = Inr (calls, d')"
  shows "client_shape d' = client_shape d"
proof -
  let ?X = "if txId = [] then Inr (n, d)
            else case dg_C d of None \<Rightarrow> Inl nil_deref
                 | Some r \<Rightarrow> bindR (dg_get d r) (\<lambda>c. case TxIndex c txId of (idx, c1) \<Rightarrow> Inr (idx + 1, dg_put r c1 d))"
  from assms obtain o1 where o1: "?X = Inr o1"
      "(case o1 of (n, d1) \<Rightarrow> bindR (hSetCursor1 fmtTime is (cursor_to n trim False) d1) (\<lambda>(calls, d2).
          Inr (calls @ [DgRemove ''ScrollToTx''], d2))) = Inr (calls, d')"
    unfolding ScrollToTxState_def by (rule bindR_E)
  obtain m d1 where split: "o1 = (m, d1)" by (cases o1)
  have "client_shape d1 = client_shape d"
    using o1(1) split shape_put_same TxIndex_lens by (fastforce elim!: bindR_E split: if_split_asm option.split_asm prod.split_asm)
  moreover have "client_shape d' = client_shape d1" using o1(2) split by (auto elim!: bindR_E dest!: hSetCursor1_shape)
  ultimately show ?thesis by simp
qed

lemma selecting_fork_shape:
  assumes "selecting_fork fmtTime is tail d = Inr (calls, d')"
  shows "client_shape d' = client_shape d"
proof -
  from assms obtain d1 where d1: "hFilterClientTxs is d = Inr d1" by (auto simp: selecting_fork_def elim!: bindR_E)
  have "client_shape d' = client_shape d1"
    using assms d1 by (auto simp: selecting_fork_def elim!: bindR_E split: if_split_asm option.split_asm
        dest!: hSetCursor1_shape hScrollToTime_shape)
  with hFilterClientTxs_shape [OF d1] show ?thesis by simp
qed

lemma dg_handle_aligned: "dg_handle v is act d = Inr d' \<Longrightarrow> aligned d \<Longrightarrow> aligned d'"
proof (cases act)
  case (ActConnect msg connId)
  assume "dg_handle v is act d = Inr d'" "aligned d"
  with ActConnect show ?thesis
    by (auto simp: drop_calls_def elim!: bindR_E dest!: ConnectEventState_shape intro: aligned_shape aligned_upd)
qed (auto simp: drop_calls_def DisconnectEventState_def ClientSelectedEnd_def elim!: bindR_E
    intro: aligned_shape ClientMsgState_aligned GcMsgsState_aligned
    dest!: disconnect_first_shape RemoveClientState_shape SelectingClientState_shape selecting_fork_shape SetGroupState_shape
      ToggleMarkState_shape scroll_shapes ScrollToTxState_shape)

text \<open>C25. As long as no handler has panicked, in every run of the handlers of the debugger from its start (clients that
  connect, disconnect, are removed, send messages; the removal of old ones; the selection of a client or a group;
  marks and scrolling), whatever the messages hold, the messages of a client, what was parsed of them and their logs
  have the same length. Hence the removal of old messages, which cuts the same number from each of the three lists,
  does not slice out of bounds and keeps the newer half of each.\<close>

theorem client_lists_aligned:
  assumes "dg_run v acts d0 = Inr d" "dg_store d0 = []" "dg_get d r = Inr c"
  shows "length (dc_MsgTxsParsed c) = length (dc_MsgTxs c) \<and> length (dc_LogMsgs c) = length (dc_MsgTxs c)
    \<and> (\<exists>c'. gc_half c = Inr c' \<and> dc_MsgTxs c' = drop (length (dc_MsgTxs c) div 2) (dc_MsgTxs c)
         \<and> dc_MsgTxsParsed c' = drop (length (dc_MsgTxs c) div 2) (dc_MsgTxsParsed c)
         \<and> dc_LogMsgs c' = drop (length (dc_MsgTxs c) div 2) (dc_LogMsgs c))"
proof -
  have "aligned d0" using assms(2) by (simp add: aligned_def client_shape_def gget_def)
  with assms(1) have "aligned d"
  proof (induction acts arbitrary: d0)
    case (Cons act acts)
    obtain "is" a where act: "act = (is, a)" by force
    with Cons.prems obtain d1 where "dg_handle v is a d0 = Inr d1" "dg_run v acts d1 = Inr d" by (auto elim!: bindR_E)
    with Cons dg_handle_aligned show ?case by blast
  qed simp
  from aligned_get [OF this assms(3)] gc_half_aligned [OF this assms(3)] show ?thesis by blast
qed

text \<open>A machine connects and sends a transition.\<close>

definition sample_run :: "Debugger res" where
  "sample_run = dg_run \<lparr>de_hash = (\<lambda>x. x), de_fmt = (\<lambda>x _. x), de_time = (\<lambda>_. [])\<rparr>
     [(\<lambda>_. False, ActConnect sample_schema ''conn''),
      (\<lambda>_. False, ActMsgs [DbgMsgTx_zero\<lparr>dt_MachineID := ''m'', dt_ID := ''t1'', dt_Clocks := Some [1, 0], dt_Accepted := True,
           dt_CalledStatesIdxs := [0], dt_Time := Some 5\<rparr>] [''conn''])] empty_debugger"

lemma sample_run_value:
  "(case sample_run of Inl _ \<Rightarrow> None | Inr d \<Rightarrow> map_option (length \<circ> dc_MsgTxs) (gget (dg_store d) 0)) = Some 1"
  by code_simp

theorem client_lists_aligned_witness:
  "\<exists>d c. sample_run = Inr d \<and> dg_get d 0 = Inr c \<and> length (dc_MsgTxs c) = 1 \<and> length (dc_MsgTxsParsed c) = 1 \<and> length (dc_LogMsgs c) = 1"
proof -
  from sample_run_value obtain d c where d: "sample_run = Inr d" "gget (dg_store d) 0 = Some c" "length (dc_MsgTxs c) = 1"
    by (auto split: sum.split_asm)
  then have c: "dg_get d 0 = Inr c" by (simp add: dg_get_def)
  have "dg_store empty_debugger = []" by (simp add: empty_debugger_def)
  from client_lists_aligned [OF d(1) [unfolded sample_run_def] this c] d c show ?thesis by auto
qed

section \<open>After a panic\<close>

text \<open>Why the run has to end at a panic: \<open>ClientMsgState\<close> appends a message before it is parsed. When the parsing panics and the
  machine recovers, the client has a message more than was parsed, and from then on every message for it panics too,
  because that of the one before is looked up: the client never shows another transition.\<close>

theorem message_after_panic_panics:
  assumes "gget (dg_Clients d) (dt_MachineID msg) = Some r" "dg_get d r = Inr c" "dc_ConnId c = connId"
    "length (dc_MsgTxsParsed c) < length (dc_MsgTxs c)"
  shows "client_msg fmt is msg connId d = Inl out_of_range"
proof -
  let ?c = "c\<lparr>dc_MsgTxs := dc_MsgTxs c @ [msg]\<rparr>" and ?n = "length (dc_MsgTxs c)"
  have "prev_msg ?c ?n = Inl out_of_range"
    using assms(4) by (auto simp: prev_msg_def sget_def nth_append nat_diff_distrib)
  then have "hParseMsg fmt is r ?n (dg_put r ?c d) = Inl out_of_range"
    by (simp add: hParseMsg_def dg_get_def dg_put_def sget_def Let_def)
  with assms(1-3) show ?thesis by (simp add: client_msg_def Let_def)
qed

end
