(* ===== verification/Spec2Isabelle.thy ===== *)
theory Spec2Isabelle
  imports Am_Tickets Am_Data Am_Drain Am_When Am_Rpc_Runs Am_History_Facts Am_Helpers_Facts Am_Node_Peers_Facts Am_Mux_Facts Am_Pubsub_Facts Am_Debugger_Lists
begin

text \<open>
  A model of the state machine library asyncmachine-go: the machine (package \<open>src/pkg/machine\<close>), its
  synchronisation over the network (\<open>src/pkg/rpc\<close>), the packages built on it and its debugger, and the properties that make them correct.

  \<^bold>\<open>The program.\<close> A machine has named states, several of which can be active at once, related by
  \<open>Add\<close>, \<open>Remove\<close>, \<open>Require\<close> and \<open>After\<close>. A mutation (\<open>Add\<close>, \<open>Remove\<close>, \<open>Set\<close>) is put in a queue
  (\<open>queueMutation\<close>, \<open>PrependMut\<close>); \<open>processQueue\<close> takes mutations one at a time and runs a transition
  for each. The transition asks the relations resolver for the target states, predicts the new logical time,
  negotiates with the handlers (\<open>AnyEnter\<close>, \<open>FooExit\<close>, \<open>FooEnter\<close>, \<open>FooBar\<close>, each of which can veto), writes
  the active states and the clock, calls the final handlers (\<open>FooState\<close>, \<open>FooEnd\<close>), and may prepend a
  mutation with the \<open>Auto\<close> states that have become possible. A panic in a handler becomes the state
  \<open>Exception\<close>. After an accepted transition the subscription manager closes the channels of those waiting
  for states, ticks, arguments or queue positions.

  Over the network a machine (the source) is mirrored by a network machine in another process. An RPC server traces
  the transitions of the source and sends differences of its clock, with a checksum, to an RPC client, which applies
  them to the network machine; mutations called on the network machine travel the other way and their answer carries
  the new clock. A client can ask for some of the states only, with or without the schema.

  \<^bold>\<open>The model.\<close> One theory per component, in the order of the calls.

  \<^item> \<open>Am_Prelude\<close>: Go data (slices, maps, panics, strings, wrapping integers) and the slice helpers of
    \<open>mach_utils.go\<close>. A fallible operation has the type \<open>'a res\<close>: \<open>Inl\<close> a panic, a deadlock or exhausted fuel.
  \<^item> \<open>Am_States\<close>, \<open>Am_Time\<close>, \<open>Am_Schema\<close>, \<open>Am_Mutation\<close>: state lists and enums, logical time, schemas and
    their parsing, mutations and arguments (\<open>mach_utils.go\<close>, \<open>types.go\<close>, \<open>mach_misc.go\<close>, \<open>schema.go\<close>,
    \<open>mutation.go\<close>).
  \<^item> \<open>Am_Graph\<close>, \<open>Am_Sort\<close>, \<open>Am_Resolver\<close>: the relations resolver with its topological sort, on Go's stable
    sort, which is modelled step by step because the resolver's comparators are not orders (\<open>relations.go\<close>).
  \<^item> \<open>Am_Subs\<close>: the subscription manager (\<open>subscriptions.go\<close>). Bindings shared by pointers live in a heap.
  \<^item> \<open>Am_Machine\<close>, \<open>Am_Enqueue\<close>, \<open>Am_Transition\<close>, \<open>Am_Queue\<close>: the machine record and its queries, the queue,
    the transition and the calling of handlers, the queue loop and the public methods (\<open>machine.go\<close>,
    \<open>transition.go\<close>). User code is the parameter \<open>Env\<close>: what a handler does (which mutations it calls, whether it
    returns, panics or times out), which contexts have expired, what query functions answer. Nothing is assumed
    of it.
  \<^item> \<open>Am_Api\<close>, \<open>Am_Schemas\<close>: the rest of the machine's methods (\<open>Eval\<close>, breakpoints, pools, panics turned into errors)
    and the schemas shared by the other packages (\<open>src/pkg/states\<close>, \<open>src/pkg/rpc/states\<close>).
  \<^item> \<open>Am_Rpc\<close>, \<open>Am_Netmach\<close>, \<open>Am_Rpc_Client\<close>: the RPC server with its tracer, the network machine, the client
    (\<open>rpc.go\<close>, \<open>rpc_server.go\<close>, \<open>netmach.go\<close>, \<open>rpc_client.go\<close>). The transport is a third-party package: messages of the
    server wait in \<open>sv_sent\<close> for their delivery, a call is answered or not, an \<open>attempt\<close> says how. Time is a number
    that is passed in.
  \<^item> \<open>Am_History\<close>: the history of a machine kept in memory (\<open>src/pkg/history/history.go\<close>): the tracer that records
    transitions, the rotation of records, queries.
  \<^item> \<open>Am_Pipes\<close>: pipes between machines (\<open>src/pkg/states/pipes/pipes.go\<close>): final handlers of a source that mutate a target,
    their bindings, \<open>Sync\<close>. What a pipe starts in a goroutine is a call that is delivered later, in any order.
  \<^item> \<open>Am_Helpers\<close>: the helpers (\<open>src/pkg/helpers/help.go\<close>): mutations that wait for their outcome, checks and asks, promises,
    requests with retries, waits on channels, conditions, loop guards, schema utilities, mirrors, and the disposal by states
    (\<open>src/pkg/states/ss_disposed.go\<close>). A wait is split at its \<open>select\<close>: what it waits for, and the outcomes it can have.
  \<^item> \<open>Am_Node\<close>: the supervisor of a pool of worker processes (\<open>src/pkg/node/supervisor.go\<close>, schemas of \<open>src/pkg/node/states\<close>).
    A handler gives its calls and the goroutines it starts; processes and sockets answer as inputs; a run interleaves the
    queue of calls, the goroutines and the outside.
    \<open>Am_Node_Peers\<close> adds the bootstrap machine, the worker and the client (\<open>supervisor_misc.go\<close>, \<open>node_worker.go\<close>,
    \<open>node_client.go\<close>).
  \<^item> \<open>Am_Mux\<close>: the muxer that makes an RPC server per connection (\<open>src/pkg/rpc/mux.go\<close>), with connections as inputs.
  \<^item> \<open>Am_Pubsub\<close>: a pub/sub topic (\<open>src/pkg/pubsub\<close>): messages about machines and their clocks, gossips, requests, the window of
    sent messages, the receive buffer. libp2p, time and random numbers are inputs. A handler gives its calls and the fault it ends
    with, and what it has done before the fault stays.
  \<^item> \<open>Am_Dbg\<close>: the tracer that sends transitions and queued mutations to the debugger (\<open>src/pkg/telemetry/dbg/dbg.go\<close>), with its outbox
    and the pipes kept by the semantic logger. \<open>Am_Dbg_Server\<close>: the debugger's server (\<open>src/tools/debugger/server/dbg_server.go\<close>,
    \<open>types/dbg_types.go\<close>): messages received and forwarded, links to other debuggers that redial, what a client answers about its
    transitions.
  \<^item> \<open>Am_Debugger\<close>, \<open>Am_Debugger_Log\<close>, \<open>Am_Debugger_Run\<close>: the debugger (\<open>debugger.go\<close>, \<open>log.go\<close>, \<open>dbg_handlers.go\<close> and others of
    \<open>src/tools/debugger\<close>): clients in a store, filters, the cursor, history and markers; the parsing of messages and of the
    lines machines log; the handlers of connections, messages, scrolling and memory limits.

  \<^bold>\<open>The proofs.\<close>

  \<^item> \<open>Am_Relations\<close> proves the contract of the resolver (locale \<open>relations_resolver\<close>, interpreted on the default
    resolver) and its properties: targets are defined, distinct, closed under \<open>Require\<close> and free of conflicts,
    called states win, the orders of \<open>Require\<close> and \<open>After\<close>.
  \<^item> \<open>Am_Frame\<close>, \<open>Am_Negotiate\<close>, \<open>Am_Invariant\<close>: what handlers, the negotiation and whole transitions may change,
    and that they keep active states and clock in agreement.
  \<^item> \<open>Am_Run\<close>, \<open>Am_Steps\<close>: lifting to the queue loop and to every public method, once per invariant, through the
    locales \<open>queueing\<close>, \<open>queue_invariant\<close> and \<open>machine_steps\<close>.
  \<^item> \<open>Am_Behaviour\<close>, \<open>Am_Tickets\<close>, \<open>Am_Recovery\<close>: the properties of running machines (the clock over the whole life of a
    machine: calls, new schemas, imports, disposal; an import that fails midway breaks it), the contract of queue
    ticks (an abstract ticket queue refined by the code, and how a postponed mutation breaks it), failing handlers (a panic
    becomes \<open>Exception\<close>; a panic while \<open>Exception\<close> is added ends the handler loop for good; the crash of a vetoed auto exit).
  \<^item> \<open>Am_Total\<close>, \<open>Am_Drain\<close>: with handlers that accept and queue nothing, no phase of a transition panics, the queue
    runs empty and the mutation methods return.
  \<^item> \<open>Am_Effect\<close>: what mutations do with such handlers: an outcome that is consistent with the relations is exactly what
    a call achieves, and sequences of calls act on the active states as on a set.
  \<^item> \<open>Am_Data\<close>: parsing of schemas, export and import, the queue limit.
  \<^item> \<open>Am_Subs_Facts\<close>, \<open>Am_When\<close>: which channels the subscription manager closes, what \<open>When\<close> subscribes to,
    and how an expired query panics.

  \<^item> \<open>Am_Netmach_Facts\<close>, \<open>Am_Rpc_Source\<close>, \<open>Am_Rpc_Sync\<close>: what a clock update installs; the contract of a source (locale
    \<open>state_source\<close>, interpreted on \<open>Add\<close>, \<open>Remove\<close> and \<open>Set\<close> of the machine); that updates decode to the clock they were
    computed from, that mutations, pushes and the handshake keep or bring both ends in sync, and which states a client
    without the schema mutates.
  \<^item> \<open>Am_Rpc_Runs\<close>: concrete runs of client, server and source, among them those in which they drift apart.
  \<^item> \<open>Am_History_Facts\<close>: the history is a window on the tracked transitions; what a query of ranges finds, and that one of states selects
    nothing.
  \<^item> \<open>Am_Pipes_Facts\<close>: the piped states of a target follow the source whatever order the goroutines of a transition run
    in; how the order of transitions is lost; \<open>Sync\<close>.
  \<^item> \<open>Am_Helpers_Facts\<close>: new machines without relations are at rest, a new flat mirror agrees with its source, how checks
    are answered and what \<open>AskAdd\<close> and \<open>AskRemove\<close> make of it, the hash of a schema, loop guards.
  \<^item> \<open>Am_Node_Facts\<close>: over all runs the map of workers stays well-formed; why no worker is killed and how the pool exceeds
    its maximum. \<open>Am_Node_Peers_Facts\<close>: how a worker that announces itself comes to be filed; which nodes a client tries.
  \<^item> \<open>Am_Mux_Facts\<close>: the counters of the muxer count its open servers; how the state that stands for them is lost.
  \<^item> \<open>Am_Pubsub_Facts\<close>: a topic never learns a machine of another peer; what an update does to the machines it knows; the limit of
    sent messages; requests that are not answered.
  \<^item> \<open>Am_Dbg_Facts\<close>: binary searches, the cache of transition IDs, distinct IDs of the messages of a tracer, links that never give
    up dialing, messages passed on once and in order; when a tracer panics or detaches. \<open>Am_Debugger_Facts\<close>: where the cursor lands
    with filters on, pipes from the log of a machine to the log reader, what goes wrong with the history and the reader.
    \<open>Am_Debugger_Lists\<close>: over all runs without a panic the lists of a client stay aligned, and what happens after a recovered one.

  \<^bold>\<open>Fuel.\<close> Handlers can queue mutations without end, so \<open>queue_loop\<close> takes fuel, one unit per mutation it
  takes. Invariants hold for any fuel; \<open>processQueue_drains\<close> shows that two units per queued
  mutation are enough when the handlers queue nothing. \<open>hGetParentTags\<close> of the debugger takes fuel, one unit per parent:
  a machine can name itself as its parent. Every other loop is total.

  \<^bold>\<open>Not modelled.\<close> Log levels and transition steps of the machine (off by default, the machine does not read them back); of the
  semantic logger its pipes only; tracers other than those of the RPC server, the history and the debugger; \<open>OnChange\<close> and \<open>OnError\<close>
  callbacks; interleavings of goroutines other
  than those the code serialises by \<open>queueProcessing\<close> and the handler channels; the wait of \<open>Eval\<close>; binding of
  handlers by reflection; what a handler does after it has timed out, a late panic included; that the tracer of the RPC server
  filters the called states of a finished mutation in place. Of the RPC package: sockets, the codec and the REPL helpers. Of the helpers: debugging, logging,
  reflection over arguments. Of the nodes: stopping their RPC servers and clients,
  calls a handler of the supervisor queues before it panics, outside calls of \<open>SetWorker\<close> with the information of a worker. Of
  pub/sub: the libp2p host and its connections, metrics. Of the debugger: rendering, keyboard and mouse, files, diagrams, the graph
  of machines, the call log, the web and MCP servers. The other packages of the repository (metrics, REPL, relay, visualizer,
  generator) are clients of these around network, storage and terminal I/O.
\<close>

end
